(* ===== verification/Prelude.thy ===== *)
theory Prelude
  imports Main "HOL-Library.AList" "HOL-Library.Word"
begin

text \<open>
  Shared vocabulary of the development.
  \<^item> Go strings are byte strings, here \<^typ>\<open>string\<close>; the functions of the package \<open>strings\<close>
    that the sources call (\<open>TrimSpace\<close>, \<open>TrimRight\<close>, \<open>ToLower\<close>, \<open>HasPrefix\<close>, \<open>Contains\<close>,
    \<open>Cut\<close>) are given for ASCII text, and \<open>%d\<close> formatting as \<open>itoa\<close>.
  \<^item> Go errors are values: sentinel variables, fresh messages, messages wrapped with \<open>%w\<close>
    (\<open>Wrapf\<close> for \<open>"m: %w"\<close>, \<open>WrapfFirst\<close> for \<open>"%w: m"\<close>),
    and \<open>errors.Join\<close>; \<open>errors_is\<close> is \<open>errors.Is\<close> and \<open>error_text\<close> is \<open>err.Error()\<close>.
  \<^item> Go maps are association lists with distinct keys, so that iteration, \<open>len\<close> and sums
    over the values compute.
\<close>

named_theorems op_defs \<open>unfolding of the operations of a component\<close>
named_theorems gomap_simps \<open>lookup, size and sum laws of Go maps\<close>

section \<open>Strings\<close>

definition is_space :: "char \<Rightarrow> bool" where
  "is_space c \<longleftrightarrow> c \<in> {CHR 0x09, CHR 0x0A, CHR 0x0B, CHR 0x0C, CHR 0x0D, CHR '' ''}"

definition trim_space :: "string \<Rightarrow> string" where
  "trim_space s = rev (dropWhile is_space (rev (dropWhile is_space s)))"

definition trim_right :: "char \<Rightarrow> string \<Rightarrow> string" where
  "trim_right c s = rev (dropWhile (\<lambda>x. x = c) (rev s))"

definition to_lower_char :: "char \<Rightarrow> char" where
  "to_lower_char c =
     (let n = (of_char c :: nat) in if 65 \<le> n \<and> n \<le> 90 then char_of (n + 32) else c)"

definition to_lower :: "string \<Rightarrow> string" where
  "to_lower s = map to_lower_char s"

definition has_prefix :: "string \<Rightarrow> string \<Rightarrow> bool" where
  "has_prefix s p \<longleftrightarrow> take (length p) s = p"

fun contains :: "string \<Rightarrow> string \<Rightarrow> bool" where
  "contains [] sub = (sub = [])"
| "contains (c # s) sub = (has_prefix (c # s) sub \<or> contains s sub)"

text \<open>\<open>strings.Cut\<close> on a one-byte separator: \<^term>\<open>None\<close> when it does not occur.\<close>

fun str_cut :: "string \<Rightarrow> char \<Rightarrow> (string \<times> string) option" where
  "str_cut [] sep = None"
| "str_cut (c # s) sep =
     (if c = sep then Some ([], s)
      else map_option (\<lambda>(a, b). (c # a, b)) (str_cut s sep))"

definition digit_char :: "nat \<Rightarrow> char" where
  "digit_char d = char_of (48 + d)"

fun nat_digits :: "nat \<Rightarrow> string" where
  "nat_digits n =
     (if n < 10 then [digit_char n] else nat_digits (n div 10) @ [digit_char (n mod 10)])"

declare nat_digits.simps [simp del]

definition itoa :: "int \<Rightarrow> string" where
  "itoa i = (if i < 0 then CHR ''-'' # nat_digits (nat (- i)) else nat_digits (nat i))"

text \<open>\<open>%q\<close> on printable text without quotes or backslashes.\<close>

definition quoted :: "string \<Rightarrow> string" where
  "quoted s = CHR 0x22 # s @ [CHR 0x22]"

text \<open>Two's-complement wrap-around of Go's \<open>int\<close>, \<open>int64\<close> and \<open>time.Duration\<close>.\<close>

definition wrap64 :: "int \<Rightarrow> int" where
  "wrap64 i = (i + 2 ^ 63) mod 2 ^ 64 - 2 ^ 63"

section \<open>Errors\<close>

datatype sentinel =
    OrchErrNoCapacity | OrchErrPlacementBusy | OrchErrWorkerNotFound
  | OrchErrSandboxNotFound | OrchErrInvalidState
  | PlaneErrNoCapacity | IDEErrInvalidToken | PreviewErrInvalidToken
  | ContextCanceled | ContextDeadlineExceeded

primrec sentinel_text :: "sentinel \<Rightarrow> string" where
  "sentinel_text OrchErrNoCapacity = ''no healthy worker has sufficient capacity''"
| "sentinel_text OrchErrPlacementBusy = ''worker placement is temporarily contended''"
| "sentinel_text OrchErrWorkerNotFound = ''worker not found''"
| "sentinel_text OrchErrSandboxNotFound = ''sandbox not found''"
| "sentinel_text OrchErrInvalidState = ''sandbox lifecycle transition is no longer valid''"
| "sentinel_text PlaneErrNoCapacity = ''worker has insufficient capacity''"
| "sentinel_text IDEErrInvalidToken = ''invalid IDE token''"
| "sentinel_text PreviewErrInvalidToken = ''invalid preview token''"
| "sentinel_text ContextCanceled = ''context canceled''"
| "sentinel_text ContextDeadlineExceeded = ''context deadline exceeded''"

datatype go_error =
    Sentinel sentinel
  | ErrNew string
  | Wrapf string go_error
  | ErrJoin go_error go_error
  | WrapfFirst go_error string

primrec errors_is :: "go_error \<Rightarrow> sentinel \<Rightarrow> bool" where
  "errors_is (Sentinel a) s = (a = s)"
| "errors_is (ErrNew m) s = False"
| "errors_is (Wrapf m e) s = errors_is e s"
| "errors_is (ErrJoin e f) s = (errors_is e s \<or> errors_is f s)"
| "errors_is (WrapfFirst e m) s = errors_is e s"

primrec error_text :: "go_error \<Rightarrow> string" where
  "error_text (Sentinel a) = sentinel_text a"
| "error_text (ErrNew m) = m"
| "error_text (Wrapf m e) = m @ '': '' @ error_text e"
| "error_text (ErrJoin e f) = error_text e @ [CHR 0x0A] @ error_text f"
| "error_text (WrapfFirst e m) = error_text e @ '': '' @ m"

text \<open>Why a context ended, and \<open>ctx.Err()\<close>.\<close>

datatype ctx_err = Canceled | DeadlineExceeded

primrec ctx_Err :: "ctx_err \<Rightarrow> go_error" where
  "ctx_Err Canceled = Sentinel ContextCanceled"
| "ctx_Err DeadlineExceeded = Sentinel ContextDeadlineExceeded"

text \<open>Sequencing of steps of which each may return an error.\<close>

fun ebind :: "go_error + 'a \<Rightarrow> ('a \<Rightarrow> go_error + 'b) \<Rightarrow> go_error + 'b" where
  "ebind (Inl e) f = Inl e"
| "ebind (Inr x) f = f x"

definition guarded :: "bool \<Rightarrow> go_error \<Rightarrow> go_error + unit" where
  "guarded ok e = (if ok then Inr () else Inl e)"

section \<open>Go maps as association lists\<close>

type_synonym ('k, 'v) gomap = "('k \<times> 'v) list"

abbreviation mget :: "('k, 'v) gomap \<Rightarrow> 'k \<Rightarrow> 'v option" where
  "mget \<equiv> map_of"

abbreviation mput :: "'k \<Rightarrow> 'v \<Rightarrow> ('k, 'v) gomap \<Rightarrow> ('k, 'v) gomap" where
  "mput \<equiv> AList.update"

abbreviation mdel :: "'k \<Rightarrow> ('k, 'v) gomap \<Rightarrow> ('k, 'v) gomap" where
  "mdel \<equiv> AList.delete"

abbreviation mkeys :: "('k, 'v) gomap \<Rightarrow> 'k list" where
  "mkeys m \<equiv> map fst m"

definition mwf :: "('k, 'v) gomap \<Rightarrow> bool" where
  "mwf m \<longleftrightarrow> distinct (map fst m)"

definition msum :: "('v \<Rightarrow> int) \<Rightarrow> ('k, 'v) gomap \<Rightarrow> int" where
  "msum f m = sum_list (map (\<lambda>kv. f (snd kv)) m)"

subsection \<open>Laws of error sequencing\<close>

lemma ebind_eq_Inr_iff: "ebind m f = Inr y \<longleftrightarrow> (\<exists>x. m = Inr x \<and> f x = Inr y)"
  by (cases m) auto

lemma ebind_eq_Inl_iff:
  "ebind m f = Inl e \<longleftrightarrow> m = Inl e \<or> (\<exists>x. m = Inr x \<and> f x = Inl e)"
  by (cases m) auto

lemma guarded_eq_Inr_iff [simp]: "guarded ok e = Inr u \<longleftrightarrow> ok"
  by (simp add: guarded_def)

lemma guarded_eq_Inl_iff [simp]: "guarded ok e = Inl f \<longleftrightarrow> \<not> ok \<and> f = e"
  by (auto simp: guarded_def)

lemmas ebind_iffs = ebind_eq_Inr_iff ebind_eq_Inl_iff

subsection \<open>Laws of Go maps\<close>

lemma mget_mput [simp, gomap_simps]:
  "mget (mput k v m) k' = (if k' = k then Some v else mget m k')"
  by (simp add: update_conv)

lemma mget_mdel [simp, gomap_simps]:
  "mget (mdel k m) k' = (if k' = k then None else mget m k')"
  by (simp add: delete_conv)

lemma mwf_Nil [simp]: "mwf []"
  by (simp add: mwf_def)

lemma mwf_mput [simp, intro]: "mwf m \<Longrightarrow> mwf (mput k v m)"
  by (simp add: mwf_def distinct_update)

lemma mwf_mdel [simp, intro]: "mwf m \<Longrightarrow> mwf (mdel k m)"
  by (simp add: mwf_def distinct_delete)

lemma mget_in_set: "mget m k = Some v \<Longrightarrow> (k, v) \<in> set m"
  by (rule map_of_SomeD)

lemma mget_eq_Some_iff: "mwf m \<Longrightarrow> mget m k = Some v \<longleftrightarrow> (k, v) \<in> set m"
  by (simp add: mwf_def)

lemma mget_None_iff: "mget m k = None \<longleftrightarrow> k \<notin> set (mkeys m)"
  by (metis map_of_eq_None_iff list.set_map)

lemma mkeys_mput: "set (mkeys (mput k v m)) = insert k (set (mkeys m))"
  unfolding update_keys by auto

lemma mkeys_mdel: "set (mkeys (mdel k m)) = set (mkeys m) - {k}"
  unfolding delete_keys by auto

lemma mdel_idle: "mget m k = None \<Longrightarrow> mdel k m = m"
  by (induction m) (auto split: if_splits)

lemma mput_fresh: "mget m k = None \<Longrightarrow> mput k v m = m @ [(k, v)]"
  by (induction m) (auto split: if_splits)

lemma mput_same: "mget m k = Some v \<Longrightarrow> mput k v m = m"
  by (induction m) (auto split: if_splits)

lemma mput_twice [simp]: "mput k v (mput k w m) = mput k v m"
  by (induction m) auto

lemma length_mput [gomap_simps]:
  "length (mput k v m) = (if mget m k = None then Suc (length m) else length m)"
  by (induction m) (auto split: if_splits)

lemma length_mdel [gomap_simps]:
  "mwf m \<Longrightarrow> length (mdel k m) = (if mget m k = None then length m else length m - 1)"
proof (induction m)
  case (Cons kv m)
  have k: "mget m (fst kv) = None" and m: "mwf m"
    using Cons.prems by (auto simp: mwf_def map_of_eq_None_iff)
  show ?case
  proof (cases "mget m k")
    case None
    then show ?thesis using k by (cases kv) (auto simp: mdel_idle)
  next
    case (Some v)
    with k have "fst kv \<noteq> k" and "0 < length m" by (cases m; auto)+
    with Some Cons.IH[OF m] show ?thesis by (cases kv) auto
  qed
qed simp

lemma length_mdel_le: "length (mdel k m) \<le> length m"
  by (rule length_delete_le)

lemma msum_Nil [simp]: "msum f [] = 0"
  by (simp add: msum_def)

lemma msum_Cons [simp]: "msum f (kv # m) = f (snd kv) + msum f m"
  by (simp add: msum_def)

lemma msum_append [simp]: "msum f (m @ n) = msum f m + msum f n"
  by (simp add: msum_def)

lemma msum_mdel [gomap_simps]:
  "mwf m \<Longrightarrow> msum f (mdel k m) = msum f m - (case mget m k of None \<Rightarrow> 0 | Some v \<Rightarrow> f v)"
proof (induction m)
  case (Cons kv m)
  have k: "mget m (fst kv) = None" and m: "mwf m"
    using Cons.prems by (auto simp: mwf_def map_of_eq_None_iff)
  show ?case
    using Cons.IH[OF m] k by (cases kv) (auto simp: mdel_idle)
qed simp

lemma msum_mput [gomap_simps]:
  "mwf m \<Longrightarrow> msum f (mput k v m)
     = msum f m - (case mget m k of None \<Rightarrow> 0 | Some w \<Rightarrow> f w) + f v"
proof (induction m)
  case (Cons kv m)
  have m: "mwf m" using Cons.prems by (simp add: mwf_def)
  show ?case
    using Cons.IH[OF m] by (cases kv) auto
qed simp

lemma msum_nonneg: "(\<And>k v. (k, v) \<in> set m \<Longrightarrow> 0 \<le> f v) \<Longrightarrow> 0 \<le> msum f m"
  unfolding msum_def by (rule sum_list_nonneg) auto

lemma msum_member_le:
  "(\<And>k v. (k, v) \<in> set m \<Longrightarrow> 0 \<le> f v) \<Longrightarrow> mget m k = Some v \<Longrightarrow> f v \<le> msum f m"
proof (induction m)
  case (Cons kv m)
  then have "0 \<le> f (snd kv)" and "0 \<le> msum f m"
    by (cases kv, auto intro: msum_nonneg)+
  with Cons show ?case
    by (cases kv) (fastforce split: if_splits)
qed simp

lemma msum_mono: "(\<And>k v. (k, v) \<in> set m \<Longrightarrow> f v \<le> g v) \<Longrightarrow> msum f m \<le> msum g m"
  unfolding msum_def by (rule sum_list_mono) auto

subsection \<open>Laws of the string functions\<close>

lemma has_prefix_append [simp]: "has_prefix (p @ s) p"
  by (simp add: has_prefix_def)

lemma has_prefix_iff: "has_prefix s p \<longleftrightarrow> (\<exists>r. s = p @ r)"
  by (auto simp: has_prefix_def) (metis append_take_drop_id)

lemma contains_iff: "contains s sub \<longleftrightarrow> (\<exists>a b. s = a @ sub @ b)"
proof (induction s)
  case (Cons c s)
  show ?case
  proof
    assume "contains (c # s) sub"
    then consider "has_prefix (c # s) sub" | "contains s sub" by auto
    then show "\<exists>a b. c # s = a @ sub @ b"
    proof cases
      case 1
      then show ?thesis by (metis append_Nil has_prefix_iff)
    next
      case 2
      with Cons.IH show ?thesis by (metis append_Cons)
    qed
  next
    assume "\<exists>a b. c # s = a @ sub @ b"
    then obtain a b where ab: "c # s = a @ sub @ b" by blast
    show "contains (c # s) sub"
    proof (cases a)
      case Nil
      with ab have "has_prefix (c # s) sub" by (auto simp: has_prefix_iff)
      then show ?thesis by simp
    next
      case (Cons d a')
      with ab Cons.IH show ?thesis by auto
    qed
  qed
qed simp

lemma contains_infix [simp]: "contains (a @ sub @ b) sub"
  by (auto simp: contains_iff)

lemma to_lower_append: "to_lower (s @ t) = to_lower s @ to_lower t"
  by (simp add: to_lower_def)

lemma contains_lower_infix: "to_lower sub = sub \<Longrightarrow> contains (to_lower (s @ sub @ t)) sub"
  using contains_infix[of "to_lower s" sub "to_lower t"] by (simp add: to_lower_append)

lemma str_cut_append: "sep \<notin> set a \<Longrightarrow> str_cut (a @ sep # b) sep = Some (a, b)"
  by (induction a) auto

lemma str_cut_SomeD: "str_cut s sep = Some (a, b) \<Longrightarrow> s = a @ sep # b \<and> sep \<notin> set a"
  by (induction s arbitrary: a b) (auto split: if_splits)

lemma dropWhile_not_id: "(\<And>x. x \<in> set xs \<Longrightarrow> \<not> P x) \<Longrightarrow> dropWhile P xs = xs"
  by (cases xs) auto

lemma trim_space_id: "(\<And>c. c \<in> set s \<Longrightarrow> \<not> is_space c) \<Longrightarrow> trim_space s = s"
  using dropWhile_not_id[of s is_space] dropWhile_not_id[of "rev s" is_space]
  by (simp add: trim_space_def)

lemma trim_space_Nil [simp]: "trim_space [] = []"
  by (simp add: trim_space_def)

lemma trim_space_idem [simp]: "trim_space (trim_space s) = trim_space s"
proof -
  let ?t = "dropWhile is_space s"
  have "dropWhile is_space (rev (dropWhile is_space (rev ?t))) = rev (dropWhile is_space (rev ?t))"
  proof (cases "rev (dropWhile is_space (rev ?t))")
    case (Cons c cs)
    then have "?t = (c # cs) @ rev (takeWhile is_space (rev ?t))"
      by (metis rev_append rev_rev_ident takeWhile_dropWhile_id)
    then have "hd ?t = c" and "?t \<noteq> []" by (metis append_Cons list.sel(1), metis append_Cons list.distinct(1))
    then have "\<not> is_space c" using hd_dropWhile by blast
    with Cons show ?thesis by simp
  next
    case Nil
    show ?thesis unfolding Nil by simp
  qed
  then show ?thesis by (simp add: trim_space_def)
qed

subsection \<open>Decimal text\<close>

definition digit_val :: "char \<Rightarrow> nat" where
  "digit_val c = of_char c - 48"

definition digits_val :: "string \<Rightarrow> nat" where
  "digits_val s = foldl (\<lambda>n c. 10 * n + digit_val c) 0 s"

lemma of_char_digit_char: "d < 10 \<Longrightarrow> of_char (digit_char d) = 48 + d"
  by (simp add: digit_char_def)

lemma digit_val_digit_char [simp]: "d < 10 \<Longrightarrow> digit_val (digit_char d) = d"
  by (simp add: digit_val_def of_char_digit_char)

lemma digits_val_nat_digits [simp]: "digits_val (nat_digits n) = n"
proof (induction n rule: nat_digits.induct)
  case (1 n)
  show ?case
    using 1 by (subst nat_digits.simps) (simp add: digits_val_def)
qed

lemma nat_digits_inject [simp]: "nat_digits m = nat_digits n \<longleftrightarrow> m = n"
  by (metis digits_val_nat_digits)

lemma nat_digits_nonempty [simp]: "nat_digits n \<noteq> []"
  by (subst nat_digits.simps) simp

lemma nat_digits_chars: "c \<in> set (nat_digits n) \<Longrightarrow> 48 \<le> (of_char c :: nat) \<and> (of_char c :: nat) \<le> 57"
proof (induction n rule: nat_digits.induct)
  case (1 n)
  show ?case
  proof (cases "n < 10")
    case True
    with "1.prems" show ?thesis by (subst (asm) nat_digits.simps) (simp add: of_char_digit_char)
  next
    case False
    with "1.prems" have "c \<in> set (nat_digits (n div 10)) \<or> c = digit_char (n mod 10)"
      by (subst (asm) nat_digits.simps) auto
    with "1.IH" False show ?thesis
      by (auto simp: of_char_digit_char)
  qed
qed

lemma minus_notin_nat_digits [simp]: "CHR ''-'' \<notin> set (nat_digits n)"
  using nat_digits_chars[of "CHR ''-''" n] by auto

lemma colon_notin_nat_digits [simp]: "CHR '':'' \<notin> set (nat_digits n)"
  using nat_digits_chars[of "CHR '':''" n] by auto

lemma itoa_nonneg: "0 \<le> i \<Longrightarrow> itoa i = nat_digits (nat i)"
  by (simp add: itoa_def)

text \<open>The same digits, computed on the integers.\<close>

function int_digits :: "int \<Rightarrow> string" where
  "int_digits i = (if i < 10 then [digit_char (nat i)]
     else int_digits (i div 10) @ [digit_char (nat (i mod 10))])"
  by pat_completeness auto
termination by (relation "measure nat") auto

declare int_digits.simps [simp del]

lemma int_digits_nat: "0 \<le> i \<Longrightarrow> int_digits i = nat_digits (nat i)"
proof (induction i rule: int_digits.induct)
  case (1 i)
  then show ?case
    by (subst int_digits.simps, subst nat_digits.simps) (auto simp: nat_div_distrib nat_mod_distrib)
qed

lemma itoa_code [code]: "itoa i = (if i < 0 then CHR ''-'' # int_digits (- i) else int_digits i)"
  by (simp add: itoa_def int_digits_nat)

lemma itoa_inject [simp]: "itoa i = itoa j \<longleftrightarrow> i = j"
proof
  assume eq: "itoa i = itoa j"
  have hd: "hd (nat_digits n) \<noteq> CHR ''-''" for n
    using minus_notin_nat_digits[of n] hd_in_set[OF nat_digits_nonempty[of n]] by metis
  show "i = j"
  proof (cases "i < 0"; cases "j < 0")
    assume "i < 0" "j < 0"
    with eq show ?thesis by (simp add: itoa_def)
  next
    assume "i < 0" "\<not> j < 0"
    with eq have "nat_digits (nat j) = CHR ''-'' # nat_digits (nat (- i))" by (simp add: itoa_def)
    with hd[of "nat j"] show ?thesis by simp
  next
    assume "\<not> i < 0" "j < 0"
    with eq have "nat_digits (nat i) = CHR ''-'' # nat_digits (nat (- j))" by (simp add: itoa_def)
    with hd[of "nat i"] show ?thesis by simp
  next
    assume "\<not> i < 0" "\<not> j < 0"
    with eq show ?thesis by (simp add: itoa_def eq_nat_nat_iff)
  qed
qed simp

subsection \<open>Wrap-around\<close>

lemma wrap64_id: "- (2 ^ 63) \<le> i \<Longrightarrow> i < 2 ^ 63 \<Longrightarrow> wrap64 i = i"
  by (simp add: wrap64_def)

lemma wrap64_range: "- (2 ^ 63) \<le> wrap64 i \<and> wrap64 i < 2 ^ 63"
  using pos_mod_bound[of "2 ^ 64" "i + 2 ^ 63"] pos_mod_sign[of "2 ^ 64" "i + 2 ^ 63"]
  by (simp add: wrap64_def)

section \<open>Operations on one entry of a keyed state\<close>

text \<open>
  A component that keeps one entry per key and whose every operation is directed at one key:
  the operation keeps the invariant and, under it, leaves the entries of the other keys alone.
\<close>

locale keyed_system =
  fixes step :: "'op \<Rightarrow> 's \<Rightarrow> 's"
    and target :: "'op \<Rightarrow> 'k"
    and look :: "'k \<Rightarrow> 's \<Rightarrow> 'v option"
    and inv :: "'s \<Rightarrow> bool"
  assumes step_inv: "inv s \<Longrightarrow> inv (step a s)"
    and step_other: "inv s \<Longrightarrow> target a \<noteq> j \<Longrightarrow> look j (step a s) = look j s"
begin

definition run_ops :: "'op list \<Rightarrow> 's \<Rightarrow> 's" where
  "run_ops ops s = foldl (\<lambda>s a. step a s) s ops"

lemma run_ops_inv: "inv s \<Longrightarrow> inv (run_ops ops s)"
  by (induction ops arbitrary: s) (auto simp: run_ops_def step_inv)

lemma run_ops_other:
  assumes "inv s" and "list_all (\<lambda>a. target a \<noteq> j) ops"
  shows "look j (run_ops ops s) = look j s"
  using assms
proof (induction ops arbitrary: s)
  case (Cons a ops)
  then have "look j (run_ops ops (step a s)) = look j (step a s)" by (simp add: step_inv)
  with Cons.prems show ?case by (simp add: run_ops_def step_other)
qed (simp add: run_ops_def)

end

end
