(* ===== verification/Plane.thy ===== *)
theory Plane
  imports Complex_Main Prelude
begin

text \<open>
  The wire contract between the planes (\<open>backend/internal/plane\<close>): lifecycle states, the create
  and run requests with their replies, and the capacity report of a worker. Go's \<open>float64\<close> is
  modelled by exact rationals (\<^typ>\<open>rat\<close>), \<open>time.Time\<close> and \<open>time.Duration\<close> by integer
  nanoseconds; Go's \<open>int\<close> quantities that count CPUs, MiB, GiB or slots are unbounded integers.
\<close>

datatype SessionState = StateActive | StatePaused

primrec SessionState_text :: "SessionState \<Rightarrow> string" where
  "SessionState_text StateActive = ''active''"
| "SessionState_text StatePaused = ''paused''"

record CreateRequest =
  SandboxID :: string
  cr_UserID :: string
  cr_Image :: string
  cr_BillingModel :: string
  cr_Env :: "(string, string) gomap"
  cr_VCPUs :: int
  cr_MemoryMB :: int
  cr_DiskGB :: int
  cr_Internet :: bool
  cr_IdleTimeoutS :: int
  cr_MaxLifetimeS :: int

record CreateResponse =
  resp_SandboxID :: string
  resp_State :: string
  resp_Image :: string
  resp_VCPUs :: int
  resp_MemoryMB :: int
  resp_DiskGB :: int

record RunRequest =
  run_Code :: string
  run_Language :: string
  run_TimeoutS :: int

record ExecRequest =
  ex_Command :: string
  ex_TimeoutS :: int

record ExecResult =
  er_Stdout :: string
  er_Stderr :: string
  er_Duration :: rat
  er_GuestDuration :: rat
  er_ExitCode :: int
  er_TerminationReason :: string

record Capacity =
  FreeSlots :: int
  MaxSlots :: int
  AllocatableVCPUs :: int
  AllocatableMemoryMB :: int
  AllocatableDiskGB :: int
  ReservedVCPUs :: int
  ReservedMemoryMB :: int
  ReservedDiskGB :: int
  ReservedSandboxes :: int

definition second :: int where
  "second = 1000000000"

definition minute :: int where
  "minute = 60 * second"

definition hour :: int where
  "hour = 60 * minute"

definition millisecond :: int where
  "millisecond = 1000000"

lemmas duration_defs = second_def minute_def hour_def millisecond_def

end
