(* ===== verification/Placement.thy ===== *)
theory Placement
  imports Plane "HOL-Library.Multiset"
begin

text \<open>
  The durable placement store (\<open>backend/internal/platform/orchestration.go\<close>): the tables
  \<open>sandboxes\<close> and \<open>worker_hosts\<close> and the transactions on them. A row of \<open>sandboxes\<close> is keyed by
  its canonical UUID text. PostgreSQL is not part of the repository; what its statements do to
  the two tables is written out, and everything it decides on its own is an argument, the
  environment \<open>db_env\<close>: which statement of which call fails (\<open>db_fault\<close>, by call number and
  statement), the clock \<open>now()\<close>, the random number \<open>ORDER BY random()\<close> draws for each row, and
  the column defaults of the schema. A transaction that fails in any statement is rolled back.
\<close>

section \<open>Tables and environment\<close>

record WorkerRegistration =
  reg_ID :: string
  reg_Endpoint :: string
  reg_Pool :: string
  reg_AllocatableVCPUs :: int
  reg_AllocatableMemoryMB :: int
  reg_AllocatableDiskGB :: int
  reg_MaxSandboxes :: int
  reg_SupportedImages :: "string list"

record PlacementRequest =
  pr_Pool :: string
  pr_Image :: string
  ExcludedWorkerIDs :: "string list"

record PlacementPolicy =
  CPUOvercommitRatio :: rat
  MemoryOvercommitRatio :: rat

record Placement =
  pl_SandboxID :: string
  WorkerID :: string
  Endpoint :: string
  pl_State :: string

record worker_host =
  wh_endpoint :: string
  wh_pool :: string
  wh_status :: string
  wh_draining :: bool
  wh_vcpus :: int
  wh_memory_mb :: int
  wh_disk_gb :: int
  wh_max_sandboxes :: int
  wh_images :: "string list"
  wh_last_heartbeat_at :: int
  wh_reported_vcpus :: int
  wh_reported_memory_mb :: int
  wh_reported_disk_gb :: int
  wh_reported_sandboxes :: int
  wh_capacity_reported_at :: "int option"
  wh_updated_at :: int

record sandbox_row =
  sb_host_id :: "string option"
  sb_state :: string
  sb_vcpus :: int
  sb_memory_mb :: int
  sb_disk_gb :: int
  sb_image :: "string option"
  sb_paused_at :: "int option"
  sb_updated_at :: int

record db =
  sandboxes :: "(string, sandbox_row) gomap"
  worker_hosts :: "(string, worker_host) gomap"
  calls :: nat

record db_env =
  db_now :: "nat \<Rightarrow> int"
  db_fault :: "nat \<Rightarrow> string \<Rightarrow> go_error option"
  db_sample_random :: "nat \<Rightarrow> string \<Rightarrow> nat"
  db_tie_random :: "nat \<Rightarrow> string \<Rightarrow> nat"
  db_host_defaults :: worker_host

text \<open>One statement of the call in progress, and the end of a transaction.\<close>

definition stmt :: "db_env \<Rightarrow> db \<Rightarrow> string \<Rightarrow> string \<Rightarrow> go_error + unit" where
  "stmt E d label msg =
     (case db_fault E (calls d) label of None \<Rightarrow> Inr () | Some e \<Rightarrow> Inl (Wrapf msg e))"

definition commit_only :: "db_env \<Rightarrow> db \<Rightarrow> go_error + unit" where
  "commit_only E d =
     (case db_fault E (calls d) ''commit'' of None \<Rightarrow> Inr () | Some e \<Rightarrow> Inl e)"

definition lock_sandbox :: "db_env \<Rightarrow> db \<Rightarrow> string \<Rightarrow> string \<Rightarrow> go_error + sandbox_row" where
  "lock_sandbox E d sandboxID msg =
     ebind (stmt E d ''lock'' msg) (\<lambda>_.
       case mget (sandboxes d) sandboxID of
         None \<Rightarrow> Inl (Sentinel OrchErrSandboxNotFound)
       | Some row \<Rightarrow> Inr row)"

definition end_call :: "db \<Rightarrow> db" where
  "end_call d = d\<lparr>calls := Suc (calls d)\<rparr>"

definition run_tx :: "db \<Rightarrow> go_error + 'a \<times> db \<Rightarrow> (go_error + 'a) \<times> db" where
  "run_tx d r = (case r of Inl e \<Rightarrow> (Inl e, end_call d) | Inr (x, d') \<Rightarrow> (Inr x, end_call d'))"

definition run_tx_err :: "db \<Rightarrow> go_error + db \<Rightarrow> go_error option \<times> db" where
  "run_tx_err d r = (case r of Inl e \<Rightarrow> (Some e, end_call d) | Inr d' \<Rightarrow> (None, end_call d'))"

definition set_row :: "string \<Rightarrow> sandbox_row \<Rightarrow> db \<Rightarrow> db" where
  "set_row sandboxID row d = d\<lparr>sandboxes := mput sandboxID row (sandboxes d)\<rparr>"

section \<open>Workers\<close>

definition FailStaleUnplacedSandboxes :: "db_env \<Rightarrow> int \<Rightarrow> int \<Rightarrow> db \<Rightarrow> (go_error + int) \<times> db" where
  "FailStaleUnplacedSandboxes E timeNow olderThan d =
     (if olderThan \<le> 0 then (Inl (ErrNew ''stale scheduling threshold must be positive''), d)
      else run_tx d
        (let now = db_now E (calls d);
             stale = (\<lambda>row. sb_state row = ''scheduling'' \<and> sb_host_id row = None
                            \<and> sb_updated_at row < timeNow - olderThan)
         in ebind (stmt E d ''exec'' ''fail stale unplaced sandboxes'') (\<lambda>_.
              Inr (int (length (filter (\<lambda>kv. stale (snd kv)) (sandboxes d))),
                   d\<lparr>sandboxes := map (\<lambda>kv. if stale (snd kv)
                        then (fst kv, (snd kv)\<lparr>sb_state := ''error'', sb_updated_at := now\<rparr>)
                        else kv) (sandboxes d)\<rparr>))))"

definition RegisterWorker_row ::
    "worker_host \<Rightarrow> WorkerRegistration \<Rightarrow> int \<Rightarrow> int \<Rightarrow> worker_host" where
  "RegisterWorker_row old worker heartbeatAt now =
     old\<lparr>wh_endpoint := reg_Endpoint worker,
         wh_pool := reg_Pool worker,
         wh_status := ''active'',
         wh_draining := False,
         wh_vcpus := reg_AllocatableVCPUs worker,
         wh_memory_mb := reg_AllocatableMemoryMB worker,
         wh_disk_gb := reg_AllocatableDiskGB worker,
         wh_max_sandboxes := reg_MaxSandboxes worker,
         wh_images := reg_SupportedImages worker,
         wh_last_heartbeat_at := heartbeatAt,
         wh_updated_at := now\<rparr>"

definition RegisterWorker ::
    "db_env \<Rightarrow> WorkerRegistration \<Rightarrow> int \<Rightarrow> db \<Rightarrow> go_error option \<times> db" where
  "RegisterWorker E worker heartbeatAt d =
     run_tx_err d (ebind (stmt E d ''exec'' (''register worker '' @ reg_ID worker)) (\<lambda>_.
       let old = (case mget (worker_hosts d) (reg_ID worker) of
                    None \<Rightarrow> db_host_defaults E | Some w \<Rightarrow> w)
       in Inr (d\<lparr>worker_hosts := mput (reg_ID worker)
                 (RegisterWorker_row old worker heartbeatAt (db_now E (calls d)))
                 (worker_hosts d)\<rparr>)))"

definition RecordHeartbeat ::
    "db_env \<Rightarrow> string \<Rightarrow> Capacity \<Rightarrow> int \<Rightarrow> db \<Rightarrow> go_error option \<times> db" where
  "RecordHeartbeat E workerID capacity heartbeatAt d =
     run_tx_err d (ebind (stmt E d ''exec'' ''record worker heartbeat'') (\<lambda>_.
       case mget (worker_hosts d) workerID of
         None \<Rightarrow> Inl (Sentinel OrchErrWorkerNotFound)
       | Some w \<Rightarrow>
           Inr (d\<lparr>worker_hosts := mput workerID
             (w\<lparr>wh_last_heartbeat_at := heartbeatAt,
                wh_disk_gb := AllocatableDiskGB capacity,
                wh_reported_vcpus := ReservedVCPUs capacity,
                wh_reported_memory_mb := ReservedMemoryMB capacity,
                wh_reported_disk_gb := ReservedDiskGB capacity,
                wh_reported_sandboxes := ReservedSandboxes capacity,
                wh_capacity_reported_at := Some heartbeatAt,
                wh_status := (if wh_draining w then ''draining'' else ''active''),
                wh_updated_at := db_now E (calls d)\<rparr>) (worker_hosts d)\<rparr>)))"

definition SetWorkerDraining :: "db_env \<Rightarrow> string \<Rightarrow> bool \<Rightarrow> db \<Rightarrow> go_error option \<times> db" where
  "SetWorkerDraining E workerID draining d =
     run_tx_err d (ebind (stmt E d ''exec'' (''set worker '' @ workerID @ '' draining=''
         @ (if draining then ''true'' else ''false''))) (\<lambda>_.
       case mget (worker_hosts d) workerID of
         None \<Rightarrow> Inl (Sentinel OrchErrWorkerNotFound)
       | Some w \<Rightarrow>
           Inr (d\<lparr>worker_hosts := mput workerID
             (w\<lparr>wh_draining := draining,
                wh_status := (if draining then ''draining'' else ''active''),
                wh_updated_at := db_now E (calls d)\<rparr>) (worker_hosts d)\<rparr>)))"

section \<open>Placement\<close>

definition bestOfKSampleSize :: nat where
  "bestOfKSampleSize = 3"

definition eligible ::
    "PlacementRequest \<Rightarrow> PlacementPolicy \<Rightarrow> int \<Rightarrow> sandbox_row \<Rightarrow> string \<times> worker_host \<Rightarrow> bool" where
  "eligible request policy healthyAfter row kv =
     (let w = snd kv in
      wh_pool w = pr_Pool request
      \<and> wh_status w = ''active''
      \<and> \<not> wh_draining w
      \<and> wh_last_heartbeat_at w \<ge> healthyAfter
      \<and> (case wh_capacity_reported_at w of None \<Rightarrow> False | Some t \<Rightarrow> t \<ge> healthyAfter)
      \<and> \<lfloor>of_int (wh_vcpus w) * CPUOvercommitRatio policy\<rfloor> \<ge> sb_vcpus row
      \<and> \<lfloor>of_int (wh_memory_mb w) * MemoryOvercommitRatio policy\<rfloor> \<ge> sb_memory_mb row
      \<and> wh_disk_gb w \<ge> sb_disk_gb row
      \<and> List.member (wh_images w) (case sb_image row of None \<Rightarrow> ''alpine'' | Some i \<Rightarrow> i)
      \<and> wh_max_sandboxes w \<ge> 1
      \<and> \<not> List.member (ExcludedWorkerIDs request) (fst kv))"

definition cpu_score :: "PlacementPolicy \<Rightarrow> sandbox_row \<Rightarrow> worker_host \<Rightarrow> rat" where
  "cpu_score policy row w =
     of_int (wh_reported_vcpus w + sb_vcpus row)
       / of_int (max 1 \<lfloor>of_int (wh_vcpus w) * CPUOvercommitRatio policy\<rfloor>)"

definition memory_score :: "PlacementPolicy \<Rightarrow> sandbox_row \<Rightarrow> worker_host \<Rightarrow> rat" where
  "memory_score policy row w =
     of_int (wh_reported_memory_mb w + sb_memory_mb row)
       / of_int (max 1 \<lfloor>of_int (wh_memory_mb w) * MemoryOvercommitRatio policy\<rfloor>)"

definition score :: "PlacementPolicy \<Rightarrow> sandbox_row \<Rightarrow> string \<times> worker_host \<Rightarrow> rat" where
  "score policy row kv = max (cpu_score policy row (snd kv)) (memory_score policy row (snd kv))"

fun first_minimal :: "('a \<Rightarrow> rat) \<Rightarrow> 'a list \<Rightarrow> 'a option" where
  "first_minimal f [] = None"
| "first_minimal f (x # xs) =
     (case first_minimal f xs of
        None \<Rightarrow> Some x
      | Some y \<Rightarrow> if f x \<le> f y then Some x else Some y)"

definition sampled ::
    "db_env \<Rightarrow> db \<Rightarrow> PlacementRequest \<Rightarrow> PlacementPolicy \<Rightarrow> int \<Rightarrow> sandbox_row
     \<Rightarrow> (string, worker_host) gomap" where
  "sampled E d request policy healthyAfter row =
     take bestOfKSampleSize (sort_key (\<lambda>kv. db_sample_random E (calls d) (fst kv))
       (filter (eligible request policy healthyAfter row) (worker_hosts d)))"

definition select_worker ::
    "db_env \<Rightarrow> db \<Rightarrow> PlacementRequest \<Rightarrow> PlacementPolicy \<Rightarrow> int \<Rightarrow> sandbox_row
     \<Rightarrow> (string \<times> worker_host) option" where
  "select_worker E d request policy healthyAfter row =
     first_minimal (score policy row)
       (sort_key (\<lambda>kv. db_tie_random E (calls d) (fst kv))
         (sampled E d request policy healthyAfter row))"

definition existing_placement ::
    "db_env \<Rightarrow> db \<Rightarrow> string \<Rightarrow> sandbox_row \<Rightarrow> string \<Rightarrow> go_error + Placement \<times> db" where
  "existing_placement E d sandboxID row workerID =
     (if sb_state row \<in> {''provisioning'', ''resuming'', ''destroying''}
      then Inl (Sentinel OrchErrPlacementBusy)
      else if sb_state row \<noteq> ''active'' then Inl (Sentinel OrchErrInvalidState)
      else ebind (stmt E d ''endpoint'' ''read existing placement'') (\<lambda>_.
        case mget (worker_hosts d) workerID of
          None \<Rightarrow> Inl (Sentinel OrchErrWorkerNotFound)
        | Some w \<Rightarrow> ebind (stmt E d ''commit'' ''commit existing placement'') (\<lambda>_.
            Inr (\<lparr>pl_SandboxID = sandboxID, WorkerID = workerID, Endpoint = wh_endpoint w,
                  pl_State = sb_state row\<rparr>, d))))"

definition ReservePlacement ::
    "db_env \<Rightarrow> string \<Rightarrow> PlacementRequest \<Rightarrow> PlacementPolicy \<Rightarrow> int \<Rightarrow> db
     \<Rightarrow> (go_error + Placement) \<times> db" where
  "ReservePlacement E sandboxID request policy healthyAfter d =
     run_tx d
       (ebind (stmt E d ''begin'' ''begin placement transaction'') (\<lambda>_.
        ebind (lock_sandbox E d sandboxID ''lock sandbox placement'') (\<lambda>row.
        ebind (guarded (0 < sb_vcpus row \<and> 0 < sb_memory_mb row \<and> 0 < sb_disk_gb row)
                 (ErrNew ''sandbox has invalid resource requirements'')) (\<lambda>_.
        case sb_host_id row of
          Some workerID \<Rightarrow> existing_placement E d sandboxID row workerID
        | None \<Rightarrow>
            ebind (stmt E d ''select'' ''select worker for placement'') (\<lambda>_.
            case select_worker E d request policy healthyAfter row of
              None \<Rightarrow> Inl (Sentinel OrchErrNoCapacity)
            | Some (workerID, w) \<Rightarrow>
                ebind (stmt E d ''save'' ''save sandbox placement'') (\<lambda>_.
                ebind (stmt E d ''commit'' ''commit placement'') (\<lambda>_.
                Inr (\<lparr>pl_SandboxID = sandboxID, WorkerID = workerID, Endpoint = wh_endpoint w,
                      pl_State = ''provisioning''\<rparr>,
                     set_row sandboxID (row\<lparr>sb_host_id := Some workerID,
                       sb_state := ''provisioning'', sb_updated_at := db_now E (calls d)\<rparr>) d))))))))"

definition GetPlacement ::
    "db_env \<Rightarrow> string \<Rightarrow> db \<Rightarrow> (go_error + Placement option) \<times> db" where
  "GetPlacement E sandboxID d =
     run_tx d (ebind (stmt E d ''query'' ''get sandbox placement'') (\<lambda>_.
       Inr (case mget (sandboxes d) sandboxID of
              None \<Rightarrow> None
            | Some row \<Rightarrow>
                (case sb_host_id row of None \<Rightarrow> None
                 | Some workerID \<Rightarrow>
                     (case mget (worker_hosts d) workerID of None \<Rightarrow> None
                      | Some w \<Rightarrow> Some \<lparr>pl_SandboxID = sandboxID, WorkerID = workerID,
                          Endpoint = wh_endpoint w, pl_State = sb_state row\<rparr>)), d)))"

definition UpdatePlacementState ::
    "db_env \<Rightarrow> string \<Rightarrow> string \<Rightarrow> string list \<Rightarrow> string \<Rightarrow> db \<Rightarrow> go_error option \<times> db" where
  "UpdatePlacementState E sandboxID workerID fromStates toState d =
     run_tx_err d (ebind (stmt E d ''exec'' ''update sandbox placement state'') (\<lambda>_.
       let matching = (\<lambda>row. sb_host_id row = Some workerID \<and> List.member fromStates (sb_state row))
       in case mget (sandboxes d) sandboxID of
         Some row \<Rightarrow>
           if matching row
           then Inr (set_row sandboxID (row\<lparr>sb_state := toState,
                  sb_paused_at := (if toState = ''active'' then None else sb_paused_at row),
                  sb_updated_at := db_now E (calls d)\<rparr>) d)
           else ebind (stmt E d ''reread'' ''read sandbox state after transition conflict'') (\<lambda>_.
             if sb_state row = toState \<and> sb_host_id row = Some workerID then Inr d
             else Inl (Sentinel OrchErrInvalidState))
       | None \<Rightarrow> ebind (stmt E d ''reread'' ''read sandbox state after transition conflict'') (\<lambda>_.
             Inl (Sentinel OrchErrSandboxNotFound))))"

definition PausePlacement :: "db_env \<Rightarrow> string \<Rightarrow> string \<Rightarrow> db \<Rightarrow> go_error option \<times> db" where
  "PausePlacement E sandboxID workerID d =
     run_tx_err d
       (ebind (stmt E d ''begin'' ''begin pause accounting'') (\<lambda>_.
        ebind (lock_sandbox E d sandboxID ''lock sandbox for pause accounting'') (\<lambda>row.
        if sb_host_id row \<noteq> Some workerID then Inl (Sentinel OrchErrInvalidState)
        else if sb_state row = ''paused'' then ebind (commit_only E d) (\<lambda>_. Inr d)
        else if sb_state row \<noteq> ''active'' then Inl (Sentinel OrchErrInvalidState)
        else
          ebind (stmt E d ''exec'' ''mark sandbox paused'') (\<lambda>_.
          ebind (stmt E d ''commit'' ''commit pause accounting'') (\<lambda>_.
          Inr (set_row sandboxID (row\<lparr>sb_state := ''paused'',
                 sb_paused_at := Some (db_now E (calls d)),
                 sb_updated_at := db_now E (calls d)\<rparr>) d))))))"

definition worker_ready :: "db \<Rightarrow> string \<Rightarrow> int \<Rightarrow> bool" where
  "worker_ready d workerID healthyAfter =
     (case mget (worker_hosts d) workerID of None \<Rightarrow> False
      | Some w \<Rightarrow> wh_status w = ''active'' \<and> \<not> wh_draining w
                  \<and> wh_last_heartbeat_at w \<ge> healthyAfter)"

definition ReserveResume_placement ::
    "db_env \<Rightarrow> string \<Rightarrow> string \<Rightarrow> PlacementPolicy \<Rightarrow> int \<Rightarrow> db \<Rightarrow> go_error option \<times> db" where
  "ReserveResume_placement E sandboxID workerID policy healthyAfter d =
     run_tx_err d
       (ebind (stmt E d ''begin'' ''begin resume reservation'') (\<lambda>_.
        ebind (lock_sandbox E d sandboxID ''lock sandbox for resume reservation'') (\<lambda>row.
        if sb_host_id row \<noteq> Some workerID then Inl (Sentinel OrchErrInvalidState)
        else if sb_state row = ''active'' \<or> sb_state row = ''resuming''
        then ebind (commit_only E d) (\<lambda>_. Inr d)
        else if sb_state row \<noteq> ''paused'' then Inl (Sentinel OrchErrInvalidState)
        else
          ebind (stmt E d ''check'' ''check worker for resume'') (\<lambda>_.
          ebind (guarded (worker_ready d workerID healthyAfter)
                   (Sentinel OrchErrNoCapacity)) (\<lambda>_.
          ebind (stmt E d ''exec'' ''mark sandbox resuming'') (\<lambda>_.
          ebind (stmt E d ''commit'' ''commit resume reservation'') (\<lambda>_.
          Inr (set_row sandboxID (row\<lparr>sb_state := ''resuming'',
                 sb_updated_at := db_now E (calls d)\<rparr>) d))))))))"

definition CancelResume :: "db_env \<Rightarrow> string \<Rightarrow> string \<Rightarrow> db \<Rightarrow> go_error option \<times> db" where
  "CancelResume E sandboxID workerID d =
     run_tx_err d
       (ebind (stmt E d ''begin'' ''begin resume cancellation'') (\<lambda>_.
        ebind (lock_sandbox E d sandboxID ''lock sandbox for resume cancellation'') (\<lambda>row.
        if sb_host_id row \<noteq> Some workerID then Inl (Sentinel OrchErrInvalidState)
        else if sb_state row = ''paused'' then ebind (commit_only E d) (\<lambda>_. Inr d)
        else if sb_state row \<noteq> ''resuming'' then Inl (Sentinel OrchErrInvalidState)
        else
          ebind (stmt E d ''exec'' ''restore paused state after resume failure'') (\<lambda>_.
          ebind (stmt E d ''commit'' ''commit resume cancellation'') (\<lambda>_.
          Inr (set_row sandboxID (row\<lparr>sb_state := ''paused'',
                 sb_updated_at := db_now E (calls d)\<rparr>) d))))))"

definition release_placement ::
    "db_env \<Rightarrow> string \<Rightarrow> string \<Rightarrow> string \<Rightarrow> db \<Rightarrow> go_error option \<times> db" where
  "release_placement E sandboxID expectedWorkerID finalState d =
     run_tx_err d
       (ebind (stmt E d ''begin'' ''begin placement release'') (\<lambda>_.
        ebind (lock_sandbox E d sandboxID ''lock sandbox placement for release'') (\<lambda>row.
        case sb_host_id row of
          None \<Rightarrow>
            if expectedWorkerID \<noteq> []
            then (if sb_state row = finalState then ebind (commit_only E d) (\<lambda>_. Inr d)
                  else Inl (Sentinel OrchErrInvalidState))
            else if finalState \<noteq> []
            then ebind (stmt E d ''exec'' ''finalize unplaced sandbox'') (\<lambda>_.
                 ebind (commit_only E d) (\<lambda>_.
                 Inr (set_row sandboxID (row\<lparr>sb_state := finalState,
                        sb_updated_at := db_now E (calls d)\<rparr>) d)))
            else ebind (commit_only E d) (\<lambda>_. Inr d)
        | Some workerID \<Rightarrow>
            if expectedWorkerID \<noteq> [] \<and> workerID \<noteq> expectedWorkerID
            then Inl (Sentinel OrchErrInvalidState)
            else
              ebind (stmt E d ''exec'' ''clear sandbox placement'') (\<lambda>_.
              ebind (stmt E d ''commit'' ''commit placement release'') (\<lambda>_.
              Inr (set_row sandboxID (row\<lparr>sb_host_id := None,
                     sb_state := (if finalState = [] then sb_state row else finalState),
                     sb_updated_at := db_now E (calls d)\<rparr>) d))))))"

definition ReleasePlacement :: "db_env \<Rightarrow> string \<Rightarrow> string \<Rightarrow> db \<Rightarrow> go_error option \<times> db" where
  "ReleasePlacement E sandboxID finalState d = release_placement E sandboxID [] finalState d"

definition ReleaseWorkerPlacement ::
    "db_env \<Rightarrow> string \<Rightarrow> string \<Rightarrow> string \<Rightarrow> db \<Rightarrow> go_error option \<times> db" where
  "ReleaseWorkerPlacement E sandboxID workerID finalState d =
     release_placement E sandboxID workerID finalState d"

section \<open>The lifecycle as a state machine\<close>

text \<open>
  What the store promises of one sandbox: its worker and its durable state change only along
  these steps, but for the explicit release of a placement, which drops the worker and keeps the state.
\<close>

inductive lifecycle_step :: "string option \<times> string \<Rightarrow> string option \<times> string \<Rightarrow> bool" where
  place: "lifecycle_step (None, s) (Some w, ''provisioning'')"
| confirm: "s \<in> {''provisioning'', ''resuming''}
    \<Longrightarrow> lifecycle_step (Some w, s) (Some w, ''active'')"
| pause: "lifecycle_step (Some w, ''active'') (Some w, ''paused'')"
| resume: "lifecycle_step (Some w, ''paused'') (Some w, ''resuming'')"
| cancel: "lifecycle_step (Some w, ''resuming'') (Some w, ''paused'')"
| destroying: "s \<in> {''active'', ''error'', ''provisioning'', ''resuming''}
    \<Longrightarrow> lifecycle_step (Some w, s) (Some w, ''destroying'')"
| release: "f \<in> {''error'', ''scheduling'', ''destroyed''} \<Longrightarrow> lifecycle_step (h, s) (None, f)"

inductive_simps lifecycle_from_paused: "lifecycle_step (Some w, ''paused'') q"
inductive_cases lifecycle_stepE: "lifecycle_step p q"

definition placed_states :: "string list" where
  "placed_states = [''provisioning'', ''active'', ''paused'', ''resuming'', ''destroying'']"

definition placed_ok :: "string option \<times> string \<Rightarrow> bool" where
  "placed_ok p \<longleftrightarrow> (fst p \<noteq> None \<longleftrightarrow> List.member placed_states (snd p))"

lemma lifecycle_placed_ok: "lifecycle_step p q \<Longrightarrow> placed_ok q"
  by (erule lifecycle_stepE) (auto simp: placed_ok_def placed_states_def)

definition view :: "db \<Rightarrow> string \<Rightarrow> (string option \<times> string) option" where
  "view d k = map_option (\<lambda>row. (sb_host_id row, sb_state row)) (mget (sandboxes d) k)"

text \<open>The calls the orchestrator and its start-up and cleanup loop make on the store, with the arguments they make them with.\<close>

datatype store_op =
    OpRegister WorkerRegistration int
  | OpHeartbeat string Capacity int
  | OpDrain string bool
  | OpReserve string PlacementRequest PlacementPolicy int
  | OpConfirm string string "string list"
  | OpDestroying string string
  | OpPause string string
  | OpResume string string PlacementPolicy int
  | OpCancel string string
  | OpRelease string string
  | OpReleaseWorker string string
  | OpFailStale int int

primrec store_exec :: "db_env \<Rightarrow> store_op \<Rightarrow> db \<Rightarrow> db" where
  "store_exec E (OpRegister reg t) d = snd (RegisterWorker E reg t d)"
| "store_exec E (OpHeartbeat w c t) d = snd (RecordHeartbeat E w c t d)"
| "store_exec E (OpDrain w b) d = snd (SetWorkerDraining E w b d)"
| "store_exec E (OpReserve k req pol t) d = snd (ReservePlacement E k req pol t d)"
| "store_exec E (OpConfirm k w fromStates) d = snd (UpdatePlacementState E k w fromStates ''active'' d)"
| "store_exec E (OpDestroying k w) d = snd (UpdatePlacementState E k w
     [''active'', ''error'', ''provisioning'', ''resuming''] ''destroying'' d)"
| "store_exec E (OpPause k w) d = snd (PausePlacement E k w d)"
| "store_exec E (OpResume k w pol t) d = snd (ReserveResume_placement E k w pol t d)"
| "store_exec E (OpCancel k w) d = snd (CancelResume E k w d)"
| "store_exec E (OpRelease k f) d = snd (ReleasePlacement E k f d)"
| "store_exec E (OpReleaseWorker k w) d = snd (ReleaseWorkerPlacement E k w ''destroyed'' d)"
| "store_exec E (OpFailStale t n) d = snd (FailStaleUnplacedSandboxes E t n d)"

primrec service_op :: "store_op \<Rightarrow> bool" where
  "service_op (OpRegister reg t) = True"
| "service_op (OpHeartbeat w c t) = True"
| "service_op (OpDrain w b) = True"
| "service_op (OpReserve k req pol t) = True"
| "service_op (OpConfirm k w fromStates) =
     (\<forall>s \<in> set fromStates. s = ''provisioning'' \<or> s = ''resuming'')"
| "service_op (OpDestroying k w) = True"
| "service_op (OpPause k w) = True"
| "service_op (OpResume k w pol t) = True"
| "service_op (OpCancel k w) = True"
| "service_op (OpRelease k f) = (f = [] \<or> f = ''error'' \<or> f = ''scheduling'' \<or> f = ''destroyed'')"
| "service_op (OpReleaseWorker k w) = True"
| "service_op (OpFailStale t n) = True"

text \<open>The release of a placement that keeps the state, \<open>Service.Release\<close>.\<close>

primrec drops_worker :: "store_op \<Rightarrow> bool" where
  "drops_worker (OpRegister reg t) = False"
| "drops_worker (OpHeartbeat w c t) = False"
| "drops_worker (OpDrain w b) = False"
| "drops_worker (OpReserve k req pol t) = False"
| "drops_worker (OpConfirm k w fromStates) = False"
| "drops_worker (OpDestroying k w) = False"
| "drops_worker (OpPause k w) = False"
| "drops_worker (OpResume k w pol t) = False"
| "drops_worker (OpCancel k w) = False"
| "drops_worker (OpRelease k f) = (f = [])"
| "drops_worker (OpReleaseWorker k w) = False"
| "drops_worker (OpFailStale t n) = False"

subsection \<open>Transactions\<close>

lemma end_call_tables [simp]:
  "sandboxes (end_call d) = sandboxes d" "worker_hosts (end_call d) = worker_hosts d"
  "calls (end_call d) = Suc (calls d)"
  by (simp_all add: end_call_def)

lemma set_row_tables [simp]:
  "sandboxes (set_row k row d) = mput k row (sandboxes d)"
  "worker_hosts (set_row k row d) = worker_hosts d" "calls (set_row k row d) = calls d"
  by (simp_all add: set_row_def)

lemma view_end_call [simp]: "view (end_call d) = view d"
  by (simp add: view_def fun_eq_iff)

lemma view_set_row [simp]:
  "view (set_row k row d) k' = (if k' = k then Some (sb_host_id row, sb_state row) else view d k')"
  by (simp add: view_def)

lemma view_hosts [simp]: "view (d\<lparr>worker_hosts := h\<rparr>) = view d"
  by (simp add: view_def fun_eq_iff)

lemma view_SomeI: "mget (sandboxes d) k = Some row \<Longrightarrow> view d k = Some (sb_host_id row, sb_state row)"
  by (simp add: view_def)

lemma run_tx_err_cases:
  obtains (failed) e where "r = Inl e" "run_tx_err d r = (Some e, end_call d)"
  | (done_) d' where "r = Inr d'" "run_tx_err d r = (None, end_call d')"
  by (cases r) (auto simp: run_tx_err_def)

lemma run_tx_cases:
  obtains (failed) e where "r = Inl e" "run_tx d r = (Inl e, end_call d)"
  | (done_) x d' where "r = Inr (x, d')" "run_tx d r = (Inr x, end_call d')"
  by (cases r) (auto simp: run_tx_def)

lemma lock_sandbox_Inr: "lock_sandbox E d k msg = Inr row \<Longrightarrow> mget (sandboxes d) k = Some row"
  by (auto simp: lock_sandbox_def ebind_iffs split: option.splits)

subsection \<open>Effect of each call on the durable rows\<close>

text \<open>
  A call either leaves the rows as they are or updates_row the row of its own sandbox.
\<close>

definition updates_row :: "db \<Rightarrow> string \<Rightarrow> (string option \<times> string \<Rightarrow> string option \<times> string \<Rightarrow> bool) \<Rightarrow> db \<Rightarrow> bool"
  where "updates_row d k R d' \<longleftrightarrow> view d' = view d \<or>
     (\<exists>p q. view d k = Some p \<and> R p q \<and> view d' = (view d)(k \<mapsto> q))"

lemma updates_row_refl [intro]: "view d' = view d \<Longrightarrow> updates_row d k R d'"
  by (simp add: updates_row_def)

lemma updates_row_set_row:
  "mget (sandboxes d) k = Some row \<Longrightarrow> R (sb_host_id row, sb_state row) (sb_host_id row', sb_state row')
     \<Longrightarrow> updates_row d k R (set_row k row' d)"
  unfolding updates_row_def
  by (intro disjI2 exI conjI) (auto simp: view_def fun_eq_iff)

lemma updates_row_tx_err:
  "(\<And>d'. r = Inr d' \<Longrightarrow> updates_row d k R d') \<Longrightarrow> updates_row d k R (snd (run_tx_err d r))"
  by (cases rule: run_tx_err_cases[of r d]) (auto simp: updates_row_def)

lemma updates_row_tx:
  "(\<And>x d'. r = Inr (x, d') \<Longrightarrow> updates_row d k R d') \<Longrightarrow> updates_row d k R (snd (run_tx d r))"
  by (cases rule: run_tx_cases[of r d]) (auto simp: updates_row_def)

lemma PausePlacement_rewrites: "updates_row d k lifecycle_step (snd (PausePlacement E k w d))"
  unfolding PausePlacement_def
  by (rule updates_row_tx_err)
    (auto simp: ebind_iffs split: if_splits dest!: lock_sandbox_Inr
      intro!: updates_row_set_row intro: lifecycle_step.intros)

lemma ReserveResume_rewrites:
  "updates_row d k lifecycle_step (snd (ReserveResume_placement E k w pol t d))"
  unfolding ReserveResume_placement_def
  by (rule updates_row_tx_err)
    (auto simp: ebind_iffs split: if_splits dest!: lock_sandbox_Inr
      intro!: updates_row_set_row intro: lifecycle_step.intros)

lemma CancelResume_rewrites: "updates_row d k lifecycle_step (snd (CancelResume E k w d))"
  unfolding CancelResume_def
  by (rule updates_row_tx_err)
    (auto simp: ebind_iffs split: if_splits dest!: lock_sandbox_Inr
      intro!: updates_row_set_row intro: lifecycle_step.intros)

lemma release_rewrites:
  assumes "f = ''error'' \<or> f = ''scheduling'' \<or> f = ''destroyed''"
  shows "updates_row d k lifecycle_step (snd (release_placement E k w f d))"
proof -
  have f: "f \<noteq> []" and R: "\<And>h s. lifecycle_step (h, s) (None, f)"
    using assms by (auto intro: lifecycle_step.release)
  show ?thesis
    unfolding release_placement_def
    apply (rule updates_row_tx_err)
    using f R
    by (auto simp: ebind_iffs split: if_splits option.splits dest!: lock_sandbox_Inr
        intro!: updates_row_set_row)
qed

lemma UpdatePlacementState_rewrites:
  assumes "\<And>s v. s \<in> set fromStates \<Longrightarrow> R (Some v, s) (Some v, toState)"
  shows "updates_row d k R (snd (UpdatePlacementState E k w fromStates toState d))"
  unfolding UpdatePlacementState_def
  apply (rule updates_row_tx_err)
  using assms
  by (auto simp: ebind_iffs Let_def split: if_splits option.splits intro!: updates_row_set_row)

lemma existing_placement_Inr:
  assumes "existing_placement E d k row w = Inr (pl, d')"
  shows "d' = d" and "sb_state row = ''active''"
    and "\<exists>h. mget (worker_hosts d) w = Some h
           \<and> pl = \<lparr>pl_SandboxID = k, WorkerID = w, Endpoint = wh_endpoint h, pl_State = ''active''\<rparr>"
  using assms by (auto simp: existing_placement_def ebind_iffs split: if_splits option.splits)

lemma ReservePlacement_cases:
  obtains (failed) e where "ReservePlacement E k req pol t d = (Inl e, end_call d)"
  | (existing) row w h where "mget (sandboxes d) k = Some row" "sb_host_id row = Some w"
      "sb_state row = ''active''" "mget (worker_hosts d) w = Some h"
      "ReservePlacement E k req pol t d
         = (Inr \<lparr>pl_SandboxID = k, WorkerID = w, Endpoint = wh_endpoint h, pl_State = ''active''\<rparr>,
            end_call d)"
  | (placed) row w h where "mget (sandboxes d) k = Some row" "sb_host_id row = None"
      "select_worker E d req pol t row = Some (w, h)"
      "ReservePlacement E k req pol t d
         = (Inr \<lparr>pl_SandboxID = k, WorkerID = w, Endpoint = wh_endpoint h,
                 pl_State = ''provisioning''\<rparr>,
            end_call (set_row k (row\<lparr>sb_host_id := Some w, sb_state := ''provisioning'',
               sb_updated_at := db_now E (calls d)\<rparr>) d))"
proof (cases "ReservePlacement E k req pol t d")
  case (Pair res d')
  show ?thesis
  proof (cases res)
    case (Inl e)
    with Pair show ?thesis
      using failed by (auto simp: ReservePlacement_def run_tx_def split: sum.splits)
  next
    case (Inr pl)
    then obtain d'' where "d' = end_call d''" and
      body: "ebind (stmt E d ''begin'' ''begin placement transaction'') (\<lambda>_.
        ebind (lock_sandbox E d k ''lock sandbox placement'') (\<lambda>row.
        ebind (guarded (0 < sb_vcpus row \<and> 0 < sb_memory_mb row \<and> 0 < sb_disk_gb row)
                 (ErrNew ''sandbox has invalid resource requirements'')) (\<lambda>_.
        case sb_host_id row of
          Some workerID \<Rightarrow> existing_placement E d k row workerID
        | None \<Rightarrow>
            ebind (stmt E d ''select'' ''select worker for placement'') (\<lambda>_.
            case select_worker E d req pol t row of
              None \<Rightarrow> Inl (Sentinel OrchErrNoCapacity)
            | Some (workerID, w) \<Rightarrow>
                ebind (stmt E d ''save'' ''save sandbox placement'') (\<lambda>_.
                ebind (stmt E d ''commit'' ''commit placement'') (\<lambda>_.
                Inr (\<lparr>pl_SandboxID = k, WorkerID = workerID, Endpoint = wh_endpoint w,
                      pl_State = ''provisioning''\<rparr>,
                     set_row k (row\<lparr>sb_host_id := Some workerID,
                       sb_state := ''provisioning'', sb_updated_at := db_now E (calls d)\<rparr>) d)))))))
        = Inr (pl, d'')"
      using Pair by (auto simp: ReservePlacement_def run_tx_def split: sum.splits)
    then obtain row where row: "mget (sandboxes d) k = Some row" and
      rest: "(case sb_host_id row of
          Some workerID \<Rightarrow> existing_placement E d k row workerID
        | None \<Rightarrow>
            ebind (stmt E d ''select'' ''select worker for placement'') (\<lambda>_.
            case select_worker E d req pol t row of
              None \<Rightarrow> Inl (Sentinel OrchErrNoCapacity)
            | Some (workerID, w) \<Rightarrow>
                ebind (stmt E d ''save'' ''save sandbox placement'') (\<lambda>_.
                ebind (stmt E d ''commit'' ''commit placement'') (\<lambda>_.
                Inr (\<lparr>pl_SandboxID = k, WorkerID = workerID, Endpoint = wh_endpoint w,
                      pl_State = ''provisioning''\<rparr>,
                     set_row k (row\<lparr>sb_host_id := Some workerID,
                       sb_state := ''provisioning'', sb_updated_at := db_now E (calls d)\<rparr>) d)))))
        = Inr (pl, d'')"
      by (auto simp: ebind_eq_Inr_iff dest!: lock_sandbox_Inr)
    show ?thesis
    proof (cases "sb_host_id row")
      case (Some w)
      with rest have "existing_placement E d k row w = Inr (pl, d'')" by simp
      note ex = existing_placement_Inr[OF this]
      from ex(3) obtain h where "mget (worker_hosts d) w = Some h"
        and "pl = \<lparr>pl_SandboxID = k, WorkerID = w, Endpoint = wh_endpoint h, pl_State = ''active''\<rparr>"
        by blast
      with Some row Pair Inr \<open>d' = end_call d''\<close> ex(1,2) show ?thesis
        using existing[of row w h] by simp
    next
      case None
      with rest obtain w h where "select_worker E d req pol t row = Some (w, h)"
        and "pl = \<lparr>pl_SandboxID = k, WorkerID = w, Endpoint = wh_endpoint h, pl_State = ''provisioning''\<rparr>"
        and "d'' = set_row k (row\<lparr>sb_host_id := Some w, sb_state := ''provisioning'',
               sb_updated_at := db_now E (calls d)\<rparr>) d"
        by (auto simp: ebind_eq_Inr_iff split: option.splits)
      with None row Pair Inr \<open>d' = end_call d''\<close> show ?thesis
        using placed[of row w h] by simp
    qed
  qed
qed

lemma ReservePlacement_rewrites:
  "updates_row d k lifecycle_step (snd (ReservePlacement E k req pol t d))"
proof (cases rule: ReservePlacement_cases[of E k req pol t d])
  case (placed row w h)
  then have "updates_row d k lifecycle_step (set_row k (row\<lparr>sb_host_id := Some w,
      sb_state := ''provisioning'', sb_updated_at := db_now E (calls d)\<rparr>) d)"
    by (intro updates_row_set_row[of _ _ row]) (auto intro: lifecycle_step.place)
  with placed(4) show ?thesis by (simp add: updates_row_def)
qed (auto intro: updates_row_refl)

lemmas store_rewrites = PausePlacement_rewrites ReserveResume_rewrites CancelResume_rewrites
  release_rewrites UpdatePlacementState_rewrites ReservePlacement_rewrites

lemma worker_ops_view:
  "view (snd (RegisterWorker E reg t d)) = view d"
  "view (snd (RecordHeartbeat E w c t d)) = view d"
  "view (snd (SetWorkerDraining E w b d)) = view d"
  unfolding RegisterWorker_def RecordHeartbeat_def SetWorkerDraining_def run_tx_err_def
  by (auto split: sum.splits simp: ebind_iffs Let_def split: option.splits)

lemma updates_row_at:
  assumes "updates_row d k R d'"
  shows "view d' j = view d j \<or> (\<exists>p q. view d j = Some p \<and> view d' j = Some q \<and> R p q)"
  using assms by (auto simp: updates_row_def)

lemma FailStale_rewrites:
  "view (snd (FailStaleUnplacedSandboxes E t n d)) j = view d j
   \<or> (\<exists>p q. view d j = Some p \<and> view (snd (FailStaleUnplacedSandboxes E t n d)) j = Some q \<and> lifecycle_step p q)"
proof -
  let ?stale = "\<lambda>row. sb_state row = ''scheduling'' \<and> sb_host_id row = None \<and> sb_updated_at row < t - n"
  let ?fail = "\<lambda>row. row\<lparr>sb_state := ''error'', sb_updated_at := db_now E (calls d)\<rparr>"
  let ?d = "d\<lparr>sandboxes := map (\<lambda>kv. if ?stale (snd kv) then (fst kv, ?fail (snd kv)) else kv) (sandboxes d)\<rparr>"
  have get: "mget (map (\<lambda>kv. if P (snd kv) then (fst kv, f (snd kv)) else kv) m) k = map_option (\<lambda>v. if P v then f v else v) (mget m k)"
    for P and f :: "sandbox_row \<Rightarrow> sandbox_row" and m :: "(string, sandbox_row) gomap" and k
    by (induction m) auto
  have moved: "view ?d j = view d j \<or> (\<exists>p q. view d j = Some p \<and> view ?d j = Some q \<and> lifecycle_step p q)"
    using get[of ?stale ?fail "sandboxes d" j] by (cases "mget (sandboxes d) j") (auto simp: view_def intro: lifecycle_step.release)
  have "snd (FailStaleUnplacedSandboxes E t n d) \<in> {d, end_call d, end_call ?d}"
    unfolding FailStaleUnplacedSandboxes_def Let_def run_tx_def by (auto simp: ebind_iffs split: sum.splits)
  with moved show ?thesis by (elim insertE) (simp_all only: view_end_call, auto)
qed

lemma release_drop: "updates_row d k (\<lambda>p q. q = (None, snd p)) (snd (ReleasePlacement E k [] d))"
  unfolding ReleasePlacement_def release_placement_def
  by (rule updates_row_tx_err)
    (auto simp: ebind_iffs split: if_splits option.splits dest!: lock_sandbox_Inr intro!: updates_row_set_row)

lemma store_exec_step:
  assumes "service_op x" "\<not> drops_worker x"
  shows "view (store_exec E x d) j = view d j
     \<or> (\<exists>p q. view d j = Some p \<and> view (store_exec E x d) j = Some q \<and> lifecycle_step p q)"
proof (cases x)
  case (OpFailStale t n)
  then show ?thesis using FailStale_rewrites by simp
next
  case (OpConfirm k w fromStates)
  then have "updates_row d k lifecycle_step (store_exec E x d)"
    using assms by (auto intro!: UpdatePlacementState_rewrites lifecycle_step.confirm)
  then show ?thesis by (rule updates_row_at)
next
  case (OpDestroying k w)
  then have "updates_row d k lifecycle_step (store_exec E x d)"
    by (auto intro!: UpdatePlacementState_rewrites lifecycle_step.destroying)
  then show ?thesis by (rule updates_row_at)
next
  case (OpRelease k f)
  then have "updates_row d k lifecycle_step (store_exec E x d)"
    using assms by (simp add: ReleasePlacement_def release_rewrites)
  then show ?thesis by (rule updates_row_at)
next
  case (OpReleaseWorker k w)
  then have "updates_row d k lifecycle_step (store_exec E x d)"
    by (simp add: ReleaseWorkerPlacement_def release_rewrites)
  then show ?thesis by (rule updates_row_at)
qed (use store_rewrites[THEN updates_row_at] in \<open>simp_all add: worker_ops_view\<close>)

text \<open>
  C25: Every call that the orchestrator and its cleanup loop make on the durable store, with the arguments they pass and whatever statements fail inside
  it, leaves each sandbox where it was or moves it along one step of the lifecycle: it is
  placed only when it has no worker, it becomes active only from provisioning or resuming,
  and it loses its worker only into \<open>error\<close>, \<open>scheduling\<close> or \<open>destroyed\<close>. There is one exception, the explicit release of a placement
  (\<open>ReleasePlacement\<close> with no final state): it takes the worker away from the sandbox it names and leaves that sandbox in its state.
\<close>

theorem store_refines_lifecycle:
  assumes "service_op x"
  shows "view (store_exec E x d) k = view d k
     \<or> (\<exists>p q. view d k = Some p \<and> view (store_exec E x d) k = Some q
          \<and> (lifecycle_step p q \<or> x = OpRelease k [] \<and> q = (None, snd p)))"
proof (cases "drops_worker x")
  case True
  then obtain i where x: "x = OpRelease i []" by (cases x) auto
  from updates_row_at[OF release_drop[of d i E], of k] release_drop[of d i E] show ?thesis
    by (cases "i = k") (auto simp: x updates_row_def)
next
  case False
  from store_exec_step[OF assms this] show ?thesis by blast
qed

lemma run_placed_ok:
  assumes "\<And>k p. view d k = Some p \<Longrightarrow> placed_ok p" and "list_all service_op xs" and "list_all (\<lambda>x. \<not> drops_worker x) xs"
    and "view (foldl (\<lambda>d x. store_exec E x d) d xs) k = Some p"
  shows "placed_ok p"
  using assms
proof (induction xs arbitrary: d)
  case (Cons x xs)
  have "placed_ok q" if "view (store_exec E x d) j = Some q" for j q
    using store_exec_step[of x E d j] that Cons.prems(1)[of j] Cons.prems(2,3) lifecycle_placed_ok by fastforce
  with Cons.IH[of "store_exec E x d"] Cons.prems(2-4) show ?case by auto
qed simp

text \<open>
  From a database in which exactly the sandboxes in \<open>provisioning\<close>, \<open>active\<close>, \<open>paused\<close>,
  \<open>resuming\<close> or \<open>destroying\<close> have a worker, every sequence of orchestrator calls other than the explicit release of a placement, with any
  pattern of database failures, keeps it so: no running sandbox is left without a worker and
  no worker is held by a sandbox that is not on it.
\<close>

theorem placements_stay_consistent:
  assumes "\<forall>k p. view d k = Some p \<longrightarrow> placed_ok p" and "list_all service_op xs" and "list_all (\<lambda>x. \<not> drops_worker x) xs"
    and "view (foldl (\<lambda>d x. store_exec E x d) d xs) k = Some p"
  shows "(\<exists>w. fst p = Some w) \<longleftrightarrow> List.member placed_states (snd p)"
  using run_placed_ok[of d xs E k p] assms by (auto simp: placed_ok_def)

section \<open>Choice of a worker\<close>

lemma first_minimal_None [simp]: "first_minimal f xs = None \<longleftrightarrow> xs = []"
  by (cases xs) (auto split: option.splits)

lemma first_minimal_in: "first_minimal f xs = Some x \<Longrightarrow> x \<in> set xs"
  by (induction xs arbitrary: x) (auto split: option.splits if_splits)

lemma first_minimal_le: "first_minimal f xs = Some x \<Longrightarrow> y \<in> set xs \<Longrightarrow> f x \<le> f y"
  by (induction xs arbitrary: x) (fastforce split: option.splits if_splits)+

lemma sampled_subset:
  "kv \<in> set (sampled E d req pol t row)
     \<Longrightarrow> kv \<in> set (worker_hosts d) \<and> eligible req pol t row kv"
  unfolding sampled_def by (auto dest!: in_set_takeD)

lemma select_worker_in:
  "select_worker E d req pol t row = Some kv
     \<Longrightarrow> kv \<in> set (worker_hosts d) \<and> eligible req pol t row kv"
  unfolding select_worker_def using sampled_subset first_minimal_in set_sort by metis

lemma select_worker_None_iff:
  "select_worker E d req pol t row = None
     \<longleftrightarrow> (\<forall>kv \<in> set (worker_hosts d). \<not> eligible req pol t row kv)"
proof -
  have "select_worker E d req pol t row = None \<longleftrightarrow> sampled E d req pol t row = []"
    by (simp add: select_worker_def) (metis length_0_conv length_sort)
  also have "\<dots> \<longleftrightarrow> filter (eligible req pol t row) (worker_hosts d) = []"
    by (simp add: sampled_def bestOfKSampleSize_def) (metis length_0_conv length_sort)
  also have "\<dots> \<longleftrightarrow> (\<forall>kv \<in> set (worker_hosts d). \<not> eligible req pol t row kv)"
    by (simp add: filter_empty_conv)
  finally show ?thesis .
qed

text \<open>
  The worker chosen for a sandbox is a registered one that is active, not draining, has
  sent a heartbeat and a capacity report since the health limit, is large enough, supports the
  image and is not excluded; among the at most three sampled candidates none has a lower
  projected utilisation; and the choice fails only when no worker of the pool is eligible.
\<close>

theorem best_of_three_placement:
  "case select_worker E d req pol t row of
      None \<Rightarrow> \<forall>kv \<in> set (worker_hosts d). \<not> eligible req pol t row kv
    | Some (w, h) \<Rightarrow>
        (w, h) \<in> set (worker_hosts d) \<and> eligible req pol t row (w, h)
        \<and> (w, h) \<in> set (sampled E d req pol t row)
        \<and> length (sampled E d req pol t row) \<le> 3
        \<and> (\<forall>kv \<in> set (sampled E d req pol t row). score pol row (w, h) \<le> score pol row kv)"
proof (cases "select_worker E d req pol t row")
  case None
  from None[unfolded select_worker_None_iff] show ?thesis unfolding None by simp
next
  case (Some kv)
  obtain w h where kv: "kv = (w, h)" by fastforce
  let ?ord = "sort_key (\<lambda>kv. db_tie_random E (calls d) (fst kv)) (sampled E d req pol t row)"
  have fm: "first_minimal (score pol row) ?ord = Some (w, h)"
    using Some unfolding select_worker_def kv by simp
  have "set ?ord = set (sampled E d req pol t row)" by simp
  then show ?thesis
    using Some kv fm select_worker_in[OF Some] first_minimal_in[OF fm] first_minimal_le[OF fm]
    by (simp add: sampled_def bestOfKSampleSize_def)
qed

section \<open>Concrete runs\<close>

definition sample_host :: worker_host where
  "sample_host = \<lparr>wh_endpoint = ''http://w1:9100'', wh_pool = ''default'', wh_status = ''active'',
     wh_draining = False, wh_vcpus = 8, wh_memory_mb = 16384, wh_disk_gb = 100,
     wh_max_sandboxes = 10, wh_images = [''alpine''], wh_last_heartbeat_at = 100,
     wh_reported_vcpus = 2, wh_reported_memory_mb = 1024, wh_reported_disk_gb = 4,
     wh_reported_sandboxes = 1, wh_capacity_reported_at = Some 100, wh_updated_at = 100\<rparr>"

definition sample_sandbox :: sandbox_row where
  "sample_sandbox = \<lparr>sb_host_id = None, sb_state = ''scheduling'', sb_vcpus = 1, sb_memory_mb = 512,
     sb_disk_gb = 2, sb_image = None, sb_paused_at = None, sb_updated_at = 90\<rparr>"

definition sample_db :: db where
  "sample_db = \<lparr>sandboxes = [(''sb1'', sample_sandbox)],
     worker_hosts = [(''w0'', sample_host\<lparr>wh_draining := True\<rparr>), (''w1'', sample_host),
       (''w2'', sample_host\<lparr>wh_endpoint := ''http://w2:9100'', wh_reported_vcpus := 7\<rparr>)],
     calls = 0\<rparr>"

definition sample_env :: db_env where
  "sample_env = \<lparr>db_now = (\<lambda>n. 100 + int n), db_fault = (\<lambda>_ _. None),
     db_sample_random = (\<lambda>n s. length s), db_tie_random = (\<lambda>n s. n),
     db_host_defaults = sample_host\<rparr>"

definition sample_placement_request :: PlacementRequest where
  "sample_placement_request = \<lparr>pr_Pool = ''default'', pr_Image = ''alpine'', ExcludedWorkerIDs = []\<rparr>"

definition sample_policy :: PlacementPolicy where
  "sample_policy = \<lparr>CPUOvercommitRatio = 1, MemoryOvercommitRatio = 1\<rparr>"

definition sample_reserve :: store_op where
  "sample_reserve = OpReserve ''sb1'' sample_placement_request sample_policy 70"

lemmas sample_db_defs = sample_host_def sample_sandbox_def sample_db_def sample_env_def
  sample_placement_request_def sample_policy_def sample_reserve_def

theorem store_refines_lifecycle_witness:
  "service_op sample_reserve
   \<and> view (store_exec sample_env sample_reserve sample_db) ''sb1'' = Some (Some ''w1'', ''provisioning'')
   \<and> lifecycle_step (None, ''scheduling'') (Some ''w1'', ''provisioning'')"
proof -
  have op: "service_op sample_reserve" by (simp add: sample_reserve_def)
  have after: "view (store_exec sample_env sample_reserve sample_db) ''sb1'' = Some (Some ''w1'', ''provisioning'')"
    by code_simp
  have before: "view sample_db ''sb1'' = Some (None, ''scheduling'')" by code_simp
  from store_refines_lifecycle[OF op, where E = sample_env and d = sample_db and k = "''sb1''"] op after before
  show ?thesis by (simp add: sample_reserve_def)
qed

theorem placements_stay_consistent_witness:
  "view (foldl (\<lambda>d x. store_exec sample_env x d) sample_db
        [sample_reserve, OpConfirm ''sb1'' ''w1'' [''provisioning''], OpPause ''sb1'' ''w1''])
        ''sb1'' = Some (Some ''w1'', ''paused'')
   \<and> List.member placed_states ''paused''"
proof -
  let ?ops = "[sample_reserve, OpConfirm ''sb1'' ''w1'' [''provisioning''], OpPause ''sb1'' ''w1'']"
  have start: "\<forall>k p. view sample_db k = Some p \<longrightarrow> placed_ok p"
    by (auto simp: view_def sample_db_def sample_sandbox_def placed_ok_def placed_states_def)
  have ops: "list_all service_op ?ops" "list_all (\<lambda>x. \<not> drops_worker x) ?ops" by (simp_all add: sample_reserve_def)
  have after: "view (foldl (\<lambda>d x. store_exec sample_env x d) sample_db ?ops) ''sb1''
      = Some (Some ''w1'', ''paused'')" by code_simp
  from placements_stay_consistent[OF start ops after] after show ?thesis by simp
qed

theorem best_of_three_placement_witness:
  "(''w1'', sample_host) \<in> set (sampled sample_env sample_db sample_placement_request sample_policy 70 sample_sandbox)
   \<and> eligible sample_placement_request sample_policy 70 sample_sandbox (''w1'', sample_host)"
proof -
  have "select_worker sample_env sample_db sample_placement_request sample_policy 70 sample_sandbox
      = Some (''w1'', sample_host)" by code_simp
  with best_of_three_placement[where E = sample_env and d = sample_db and req = sample_placement_request
      and pol = sample_policy and t = 70 and row = sample_sandbox]
  show ?thesis by simp
qed

end
