(* ===== verification/Sizes.thy ===== *)
theory Sizes
  imports Prelude
begin

text \<open>
  The menu of sandbox shapes (\<open>backend/internal/vmsize/vmsize.go\<close>) and the image identifiers
  (\<open>backend/internal/sandboximage/image.go\<close>). Both give the strings by which the worker routes a
  request to a VM pool, so the facts proved are that the routing keys are injective, that a
  resolved size is exactly the requested one, and that normalized images are canonical.
\<close>

section \<open>vmsize\<close>

record vm_size =
  sz_name :: string
  sz_vcpus :: int
  sz_memory_mb :: int
  sz_disk_gb :: int

definition Sizes :: "vm_size list" where
  "Sizes =
     [\<lparr>sz_name = ''nano'', sz_vcpus = 1, sz_memory_mb = 256, sz_disk_gb = 1\<rparr>,
      \<lparr>sz_name = ''small'', sz_vcpus = 2, sz_memory_mb = 512, sz_disk_gb = 10\<rparr>,
      \<lparr>sz_name = ''medium'', sz_vcpus = 2, sz_memory_mb = 1024, sz_disk_gb = 20\<rparr>]"

definition Default_size :: vm_size where
  "Default_size = Sizes ! 0"

definition cgroupMemOverheadMB :: int where
  "cgroupMemOverheadMB = 768"

definition CgroupCPUPeriodUS :: int where
  "CgroupCPUPeriodUS = 100000"

definition CgroupMemMaxBytes :: "vm_size \<Rightarrow> int" where
  "CgroupMemMaxBytes s =
     wrap64 (wrap64 (wrap64 (sz_memory_mb s + cgroupMemOverheadMB) * 1024) * 1024)"

definition CgroupCPUQuotaUS :: "vm_size \<Rightarrow> int" where
  "CgroupCPUQuotaUS s = wrap64 (sz_vcpus s * CgroupCPUPeriodUS)"

definition Key :: "int \<Rightarrow> int \<Rightarrow> int \<Rightarrow> string" where
  "Key vcpus memoryMB diskGB = itoa vcpus @ ''-'' @ itoa memoryMB @ ''-'' @ itoa diskGB"

definition size_Key :: "vm_size \<Rightarrow> string" where
  "size_Key s = Key (sz_vcpus s) (sz_memory_mb s) (sz_disk_gb s)"

definition IsDefault :: "vm_size \<Rightarrow> bool" where
  "IsDefault s \<longleftrightarrow> size_Key s = size_Key Default_size"

definition menu_entry :: "vm_size \<Rightarrow> string" where
  "menu_entry s = sz_name s @ ''('' @ itoa (sz_vcpus s) @ ''vcpu/'' @ itoa (sz_memory_mb s)
     @ ''MB/'' @ itoa (sz_disk_gb s) @ ''GB)''"

fun menu_from :: "vm_size list \<Rightarrow> nat \<Rightarrow> string \<Rightarrow> string" where
  "menu_from [] i out = out"
| "menu_from (s # ss) i out =
     menu_from ss (Suc i) ((if i > 0 then out @ '', '' else out) @ menu_entry s)"

definition menu :: string where
  "menu = menu_from Sizes 0 ''''"

fun find_size :: "(vm_size \<Rightarrow> bool) \<Rightarrow> vm_size list \<Rightarrow> vm_size option" where
  "find_size p [] = None"
| "find_size p (s # ss) = (if p s then Some s else find_size p ss)"

definition Resolve :: "int \<Rightarrow> int \<Rightarrow> int \<Rightarrow> go_error + vm_size" where
  "Resolve vcpus memoryMB diskGB =
     (if vcpus = 0 \<and> memoryMB = 0 \<and> diskGB = 0 then Inr Default_size
      else case find_size (\<lambda>s. sz_vcpus s = vcpus \<and> sz_memory_mb s = memoryMB
                              \<and> sz_disk_gb s = diskGB) Sizes of
        Some s \<Rightarrow> Inr s
      | None \<Rightarrow> Inl (ErrNew (''unsupported size '' @ itoa vcpus @ ''vcpu/'' @ itoa memoryMB
          @ ''MB/'' @ itoa diskGB @ ''GB (allowed: '' @ menu @ '')'')))"

definition ByName :: "string \<Rightarrow> go_error + vm_size" where
  "ByName name =
     (case find_size (\<lambda>s. sz_name s = name) Sizes of
        Some s \<Rightarrow> Inr s
      | None \<Rightarrow> Inl (ErrNew (''unknown size '' @ quoted name @ '' (allowed: '' @ menu @ '')'')))"

section \<open>sandboximage\<close>

definition Default_image :: string where
  "Default_image = ''alpine''"

definition image_first :: "char \<Rightarrow> bool" where
  "image_first c \<longleftrightarrow> (let n = (of_char c :: nat) in (97 \<le> n \<and> n \<le> 122) \<or> (48 \<le> n \<and> n \<le> 57))"

definition image_rest :: "char \<Rightarrow> bool" where
  "image_rest c \<longleftrightarrow> image_first c \<or> c \<in> {CHR ''.'', CHR ''_'', CHR ''-''}"

text \<open>The regular expression \<open>^[a-z0-9][a-z0-9._-]{0,63}$\<close>.\<close>

definition idPattern :: "string \<Rightarrow> bool" where
  "idPattern s \<longleftrightarrow>
     (case s of [] \<Rightarrow> False
      | c # cs \<Rightarrow> image_first c \<and> length cs \<le> 63 \<and> list_all image_rest cs)"

definition Normalize :: "string \<Rightarrow> go_error + string" where
  "Normalize raw =
     (let value = to_lower (trim_space raw) in
      if value = [] then Inr Default_image
      else if \<not> idPattern value then Inl (ErrNew (''invalid image '' @ quoted value))
      else Inr value)"

definition PoolKey :: "string \<Rightarrow> string \<Rightarrow> string" where
  "PoolKey img sizeKey = img @ '':'' @ sizeKey"

section \<open>The size menu\<close>

lemma find_size_SomeD: "find_size p ss = Some s \<Longrightarrow> s \<in> set ss \<and> p s"
  by (induction ss) (auto split: if_splits)

lemma find_size_None_iff: "find_size p ss = None \<longleftrightarrow> (\<forall>s \<in> set ss. \<not> p s)"
  by (induction ss) auto

lemma nat_digits_sep:
  assumes "nat_digits m @ CHR ''-'' # x = nat_digits n @ CHR ''-'' # y"
  shows "m = n \<and> x = y"
proof -
  have "str_cut (nat_digits m @ CHR ''-'' # x) (CHR ''-'') = Some (nat_digits m, x)"
    and "str_cut (nat_digits n @ CHR ''-'' # y) (CHR ''-'') = Some (nat_digits n, y)"
    by (rule str_cut_append, rule minus_notin_nat_digits)+
  then show ?thesis unfolding assms by simp
qed

lemma nat_digits_head: "\<exists>c cs. nat_digits n = c # cs \<and> c \<noteq> CHR ''-''"
  by (metis list.exhaust list.set_intros(1) minus_notin_nat_digits nat_digits_nonempty)

lemma itoa_sep:
  assumes "itoa i @ CHR ''-'' # x = itoa j @ CHR ''-'' # y"
  shows "i = j \<and> x = y"
proof (cases "(i < 0) = (j < 0)")
  case True
  then show ?thesis using assms by (auto simp: itoa_def eq_nat_nat_iff dest!: nat_digits_sep)
next
  case False
  then show ?thesis
    using assms nat_digits_head[of "nat i"] nat_digits_head[of "nat j"]
    by (auto simp: itoa_def split: if_splits)
qed

lemma Key_inject: "Key a b c = Key a' b' c' \<longleftrightarrow> a = a' \<and> b = b' \<and> c = c'"
  by (auto simp: Key_def dest!: itoa_sep)

lemma Resolve_in_menu: "Resolve v m d = Inr s \<Longrightarrow> s \<in> set Sizes"
  by (auto simp: Resolve_def Default_size_def Sizes_def
      split: if_splits option.splits dest!: find_size_SomeD)

lemma Resolve_exact:
  "Resolve v m d = Inr s \<Longrightarrow> (v, m, d) \<noteq> (0, 0, 0)
     \<Longrightarrow> sz_vcpus s = v \<and> sz_memory_mb s = m \<and> sz_disk_gb s = d"
  by (auto simp: Resolve_def split: if_splits option.splits dest: find_size_SomeD)

lemma Sizes_positive:
  "s \<in> set Sizes \<Longrightarrow> 0 < sz_vcpus s \<and> 0 < sz_memory_mb s \<and> 0 < sz_disk_gb s"
  by (auto simp: Sizes_def)

section \<open>Images\<close>

lemma image_first_not_special:
  "image_first c \<Longrightarrow> c \<noteq> CHR '':'' \<and> \<not> is_space c \<and> to_lower_char c = c"
  by (auto simp: image_first_def is_space_def to_lower_char_def Let_def)

lemma image_rest_not_special:
  "image_rest c \<Longrightarrow> c \<noteq> CHR '':'' \<and> \<not> is_space c \<and> to_lower_char c = c"
  unfolding image_rest_def
  using image_first_not_special[of c] by (auto simp: is_space_def to_lower_char_def Let_def)

lemma idPattern_chars: "idPattern s \<Longrightarrow> c \<in> set s \<Longrightarrow> image_rest c"
  by (auto simp: idPattern_def image_rest_def list_all_iff split: list.splits)

lemma idPattern_fixed: "idPattern s \<Longrightarrow> to_lower (trim_space s) = s"
proof -
  assume p: "idPattern s"
  then have "trim_space s = s"
    by (intro trim_space_id) (auto dest: idPattern_chars image_rest_not_special)
  moreover have "to_lower s = s"
    unfolding to_lower_def using p
    by (intro map_idI) (auto dest: idPattern_chars image_rest_not_special)
  ultimately show ?thesis by simp
qed

lemma idPattern_Default: "idPattern Default_image"
  by (simp add: idPattern_def Default_image_def image_first_def image_rest_def)

lemma Normalize_idPattern: "Normalize v = Inr i \<Longrightarrow> idPattern i"
  by (auto simp: Normalize_def Let_def idPattern_Default split: if_splits)

lemma Normalize_of_idPattern: "idPattern i \<Longrightarrow> Normalize i = Inr i"
  by (auto simp: Normalize_def Let_def idPattern_fixed idPattern_def split: list.splits)

lemma Normalize_idem: "Normalize v = Inr i \<Longrightarrow> Normalize i = Inr i"
  by (blast intro: Normalize_of_idPattern Normalize_idPattern)

lemma Normalize_no_colon: "Normalize v = Inr i \<Longrightarrow> CHR '':'' \<notin> set i"
  by (metis Normalize_idPattern idPattern_chars image_rest_not_special)

lemma PoolKey_inject:
  assumes "CHR '':'' \<notin> set i" and "CHR '':'' \<notin> set j"
  shows "PoolKey i k = PoolKey j l \<longleftrightarrow> i = j \<and> k = l"
proof -
  have "str_cut (PoolKey i k) (CHR '':'') = Some (i, k)"
    and "str_cut (PoolKey j l) (CHR '':'') = Some (j, l)"
    using assms by (simp_all add: PoolKey_def str_cut_append)
  then show ?thesis by (metis Pair_inject option.inject)
qed

end
