(* ===== verification/Orchestrator.thy ===== *)
theory Orchestrator
  imports Placement Sizes
begin

text \<open>
  The orchestrator service (\<open>backend/internal/orchestrator/orchestrator.go\<close>): registration,
  heartbeats, placement with bounded retries, and the lifecycle calls provision, pause, resume
  and destroy, which combine the durable store with calls to a worker. As in the sources the
  store is an interface, a record of operations on a state of any type, and \<open>Client_Store\<close> is
  its implementation by the transactions of \<open>Placement\<close>. The workers, the clock, the
  random numbers, the caller's context and \<open>url.Parse\<close> are arguments (\<open>svc_env\<close>); the answers of a worker may
  depend on how many worker calls were made before. Every worker call is recorded in
  \<open>sv_log\<close>, so that the order of effects can be stated. Logging is left out.
\<close>

section \<open>The service and its interfaces\<close>

record 's Store =
  st_RegisterWorker :: "WorkerRegistration \<Rightarrow> int \<Rightarrow> 's \<Rightarrow> go_error option \<times> 's"
  st_RecordHeartbeat :: "string \<Rightarrow> Capacity \<Rightarrow> int \<Rightarrow> 's \<Rightarrow> go_error option \<times> 's"
  st_SetWorkerDraining :: "string \<Rightarrow> bool \<Rightarrow> 's \<Rightarrow> go_error option \<times> 's"
  st_ReservePlacement ::
    "string \<Rightarrow> PlacementRequest \<Rightarrow> PlacementPolicy \<Rightarrow> int \<Rightarrow> 's \<Rightarrow> (go_error + Placement) \<times> 's"
  st_GetPlacement :: "string \<Rightarrow> 's \<Rightarrow> (go_error + Placement option) \<times> 's"
  st_UpdatePlacementState ::
    "string \<Rightarrow> string \<Rightarrow> string list \<Rightarrow> string \<Rightarrow> 's \<Rightarrow> go_error option \<times> 's"
  st_PausePlacement :: "string \<Rightarrow> string \<Rightarrow> 's \<Rightarrow> go_error option \<times> 's"
  st_ReserveResume ::
    "string \<Rightarrow> string \<Rightarrow> PlacementPolicy \<Rightarrow> int \<Rightarrow> 's \<Rightarrow> go_error option \<times> 's"
  st_CancelResume :: "string \<Rightarrow> string \<Rightarrow> 's \<Rightarrow> go_error option \<times> 's"
  st_ReleasePlacement :: "string \<Rightarrow> string \<Rightarrow> 's \<Rightarrow> go_error option \<times> 's"
  st_ReleaseWorkerPlacement :: "string \<Rightarrow> string \<Rightarrow> string \<Rightarrow> 's \<Rightarrow> go_error option \<times> 's"

definition Client_Store :: "db_env \<Rightarrow> db Store" where
  "Client_Store E =
     \<lparr>st_RegisterWorker = RegisterWorker E,
      st_RecordHeartbeat = RecordHeartbeat E,
      st_SetWorkerDraining = SetWorkerDraining E,
      st_ReservePlacement = ReservePlacement E,
      st_GetPlacement = GetPlacement E,
      st_UpdatePlacementState = UpdatePlacementState E,
      st_PausePlacement = PausePlacement E,
      st_ReserveResume = ReserveResume_placement E,
      st_CancelResume = CancelResume E,
      st_ReleasePlacement = ReleasePlacement E,
      st_ReleaseWorkerPlacement = ReleaseWorkerPlacement E\<rparr>"

datatype worker_call =
    WCreate string CreateRequest
  | WPause string string
  | WResume string string
  | WDestroy string string

record svc_env =
  sv_now :: "nat \<Rightarrow> int"
  sv_rand :: "nat \<Rightarrow> int"
  sv_ctx_done :: "nat \<Rightarrow> int \<Rightarrow> ctx_err option"
  sv_url_parse :: "string \<Rightarrow> go_error + (string \<times> string)"
  wc_create :: "nat \<Rightarrow> string \<Rightarrow> CreateRequest \<Rightarrow> go_error + CreateResponse"
  wc_pause :: "nat \<Rightarrow> string \<Rightarrow> string \<Rightarrow> go_error option"
  wc_resume :: "nat \<Rightarrow> string \<Rightarrow> string \<Rightarrow> go_error option"
  wc_destroy :: "nat \<Rightarrow> string \<Rightarrow> string \<Rightarrow> go_error option"

record Service =
  heartbeatTTL :: int
  placementPolicy :: PlacementPolicy
  workerClient_set :: bool

record 's world =
  sv_store :: 's
  sv_log :: "worker_call list"
  sv_tick :: nat

definition maxPlacementAttempts :: nat where
  "maxPlacementAttempts = 9"

definition initialContentionWait :: int where
  "initialContentionWait = 5 * millisecond"

definition maxContentionWait :: int where
  "maxContentionWait = 100 * millisecond"

definition normalizePlacementPolicy :: "PlacementPolicy \<Rightarrow> PlacementPolicy" where
  "normalizePlacementPolicy policy =
     (let p1 = (if CPUOvercommitRatio policy < 1 then policy\<lparr>CPUOvercommitRatio := 1\<rparr> else policy)
      in if MemoryOvercommitRatio p1 < 1 then p1\<lparr>MemoryOvercommitRatio := 1\<rparr> else p1)"

datatype Option = WithWorkerClientFactory | WithPlacementPolicy PlacementPolicy

primrec apply_Option :: "Option \<Rightarrow> Service \<Rightarrow> Service" where
  "apply_Option WithWorkerClientFactory service = service\<lparr>workerClient_set := True\<rparr>"
| "apply_Option (WithPlacementPolicy policy) service =
     service\<lparr>placementPolicy := normalizePlacementPolicy policy\<rparr>"

definition NewService :: "int \<Rightarrow> Option list \<Rightarrow> Service" where
  "NewService ttl options =
     fold apply_Option options
       \<lparr>heartbeatTTL = (if ttl \<le> 0 then 30 * second else ttl),
        placementPolicy = normalizePlacementPolicy
          \<lparr>CPUOvercommitRatio = 0, MemoryOvercommitRatio = 0\<rparr>,
        workerClient_set = False\<rparr>"

section \<open>Workers\<close>

definition alnum :: "char \<Rightarrow> bool" where
  "alnum c \<longleftrightarrow> (let n = (of_char c :: nat) in
     (65 \<le> n \<and> n \<le> 90) \<or> (97 \<le> n \<and> n \<le> 122) \<or> (48 \<le> n \<and> n \<le> 57))"

text \<open>The regular expression \<open>^[A-Za-z0-9][A-Za-z0-9._-]{0,127}$\<close>.\<close>

definition workerIDPattern :: "string \<Rightarrow> bool" where
  "workerIDPattern s \<longleftrightarrow>
     (case s of [] \<Rightarrow> False
      | c # cs \<Rightarrow> alnum c \<and> length cs \<le> 127
          \<and> list_all (\<lambda>x. alnum x \<or> x \<in> {CHR ''.'', CHR ''_'', CHR ''-''}) cs)"

definition invalid_worker_id :: "string \<Rightarrow> go_error" where
  "invalid_worker_id workerID = ErrNew (''invalid worker id '' @ quoted workerID)"

definition validateEndpoint :: "svc_env \<Rightarrow> string \<Rightarrow> go_error + unit" where
  "validateEndpoint V endpoint =
     (let bad = Inl (ErrNew (''worker endpoint '' @ quoted endpoint
                @ '' must be an absolute http(s) URL''))
      in case sv_url_parse V endpoint of Inl _ \<Rightarrow> bad
         | Inr (scheme, hst) \<Rightarrow>
             if (scheme \<noteq> ''http'' \<and> scheme \<noteq> ''https'') \<or> hst = [] then bad else Inr ())"

fun normalize_images :: "string list \<Rightarrow> string list \<Rightarrow> go_error + string list" where
  "normalize_images [] normalized = Inr normalized"
| "normalize_images (v # vs) normalized =
     ebind (Normalize v) (\<lambda>img.
       normalize_images vs (if List.member normalized img then normalized else normalized @ [img]))"

definition clean_registration :: "svc_env \<Rightarrow> WorkerRegistration \<Rightarrow> go_error + WorkerRegistration" where
  "clean_registration V registration =
     (let r1 = registration\<lparr>reg_ID := trim_space (reg_ID registration),
                  reg_Endpoint := trim_right (CHR ''/'') (trim_space (reg_Endpoint registration)),
                  reg_Pool := trim_space (reg_Pool registration)\<rparr>;
          r2 = (if reg_Pool r1 = [] then r1\<lparr>reg_Pool := ''default''\<rparr> else r1);
          r3 = (if reg_SupportedImages r2 = [] then r2\<lparr>reg_SupportedImages := [Default_image]\<rparr>
                else r2)
      in ebind (normalize_images (reg_SupportedImages r3) []) (\<lambda>images.
         let r4 = r3\<lparr>reg_SupportedImages := images\<rparr> in
         ebind (guarded (workerIDPattern (reg_ID r4)) (invalid_worker_id (reg_ID r4))) (\<lambda>_.
         ebind (validateEndpoint V (reg_Endpoint r4)) (\<lambda>_.
         ebind (guarded (0 < reg_AllocatableVCPUs r4 \<and> 0 < reg_AllocatableMemoryMB r4
                         \<and> 0 < reg_AllocatableDiskGB r4 \<and> 0 < reg_MaxSandboxes r4)
                  (ErrNew ''worker allocatable resources and max_sandboxes must be positive''))
           (\<lambda>_. Inr r4)))))"

definition svc_RegisterWorker ::
    "'s Store \<Rightarrow> svc_env \<Rightarrow> WorkerRegistration \<Rightarrow> 's world \<Rightarrow> go_error option \<times> 's world" where
  "svc_RegisterWorker st V registration w =
     (case clean_registration V registration of
        Inl e \<Rightarrow> (Some e, w)
      | Inr r \<Rightarrow>
          (let (err, s') = st_RegisterWorker st r (sv_now V (sv_tick w)) (sv_store w)
           in (err, w\<lparr>sv_store := s', sv_tick := Suc (sv_tick w)\<rparr>)))"

definition svc_Heartbeat ::
    "'s Store \<Rightarrow> svc_env \<Rightarrow> string \<Rightarrow> Capacity \<Rightarrow> 's world \<Rightarrow> go_error option \<times> 's world" where
  "svc_Heartbeat st V workerID0 capacity w =
     (let workerID = trim_space workerID0 in
      if \<not> workerIDPattern workerID then (Some (invalid_worker_id workerID), w)
      else (let (err, s') = st_RecordHeartbeat st workerID capacity (sv_now V (sv_tick w)) (sv_store w)
            in (err, w\<lparr>sv_store := s', sv_tick := Suc (sv_tick w)\<rparr>)))"

definition svc_SetWorkerDraining ::
    "'s Store \<Rightarrow> string \<Rightarrow> bool \<Rightarrow> 's world \<Rightarrow> go_error option \<times> 's world" where
  "svc_SetWorkerDraining st workerID0 draining w =
     (let workerID = trim_space workerID0 in
      if \<not> workerIDPattern workerID then (Some (invalid_worker_id workerID), w)
      else (let (err, s') = st_SetWorkerDraining st workerID draining (sv_store w)
            in (err, w\<lparr>sv_store := s'\<rparr>)))"

section \<open>Placement with bounded retries\<close>

definition contentionWait :: "nat \<Rightarrow> int" where
  "contentionWait attempt =
     (let wait = wrap64 (initialContentionWait * 2 ^ attempt)
      in if wait > maxContentionWait then maxContentionWait else wait)"

text \<open>
  \<open>sv_ctx_done n wait\<close> says whether the caller's context ends before a timer of length \<open>wait\<close>.
\<close>

definition waitWithJitter :: "svc_env \<Rightarrow> nat \<Rightarrow> int \<Rightarrow> go_error option" where
  "waitWithJitter V n maxWait =
     (let wait = sv_rand V n mod (maxWait + 1) in map_option ctx_Err (sv_ctx_done V n wait))"

fun place_loop ::
    "'s Store \<Rightarrow> svc_env \<Rightarrow> PlacementPolicy \<Rightarrow> string \<Rightarrow> PlacementRequest \<Rightarrow> int \<Rightarrow> nat \<Rightarrow> nat
     \<Rightarrow> 's world \<Rightarrow> (go_error + Placement) \<times> 's world" where
  "place_loop st V policy sandboxID request healthyAfter attempt 0 w
     = (Inl (Sentinel OrchErrPlacementBusy), w)"
| "place_loop st V policy sandboxID request healthyAfter attempt (Suc left) w =
     (let (res, s') = st_ReservePlacement st sandboxID request policy healthyAfter (sv_store w);
          w' = w\<lparr>sv_store := s', sv_tick := Suc (sv_tick w)\<rparr>
      in case res of
           Inr placement \<Rightarrow> (Inr placement, w')
         | Inl err \<Rightarrow>
             if \<not> errors_is err OrchErrPlacementBusy then (Inl err, w')
             else if attempt = maxPlacementAttempts - 1
             then (Inl (Sentinel OrchErrPlacementBusy), w')
             else (case waitWithJitter V (sv_tick w') (contentionWait attempt) of
                     Some e \<Rightarrow> (Inl e, w')
                   | None \<Rightarrow> place_loop st V policy sandboxID request healthyAfter
                               (Suc attempt) left w'))"

definition svc_Place ::
    "'s Store \<Rightarrow> svc_env \<Rightarrow> Service \<Rightarrow> string \<Rightarrow> PlacementRequest \<Rightarrow> 's world
     \<Rightarrow> (go_error + Placement) \<times> 's world" where
  "svc_Place st V S sandboxID0 request0 w =
     (let sandboxID = trim_space sandboxID0;
          r1 = request0\<lparr>pr_Pool := trim_space (pr_Pool request0)\<rparr>
      in if sandboxID = [] then (Inl (ErrNew ''sandbox id is required''), w)
         else
           let r2 = (if pr_Pool r1 = [] then r1\<lparr>pr_Pool := ''default''\<rparr> else r1)
           in case Normalize (pr_Image r2) of
                Inl err \<Rightarrow> (Inl err, w)
              | Inr img \<Rightarrow>
                  place_loop st V (placementPolicy S) sandboxID (r2\<lparr>pr_Image := img\<rparr>)
                    (sv_now V (sv_tick w) - heartbeatTTL S) 0 maxPlacementAttempts w)"

definition svc_Placement ::
    "'s Store \<Rightarrow> string \<Rightarrow> 's world \<Rightarrow> (go_error + Placement option) \<times> 's world" where
  "svc_Placement st sandboxID w =
     (if trim_space sandboxID = [] then (Inl (ErrNew ''sandbox id is required''), w)
      else (let (res, s') = st_GetPlacement st sandboxID (sv_store w)
            in (res, w\<lparr>sv_store := s'\<rparr>)))"

definition svc_Release :: "'s Store \<Rightarrow> string \<Rightarrow> 's world \<Rightarrow> go_error option \<times> 's world" where
  "svc_Release st sandboxID w =
     (if trim_space sandboxID = [] then (Some (ErrNew ''sandbox id is required''), w)
      else (let (err, s') = st_ReleasePlacement st sandboxID [] (sv_store w)
            in (err, w\<lparr>sv_store := s'\<rparr>)))"

section \<open>Worker calls and store calls on the world\<close>

definition call_worker ::
    "worker_call \<Rightarrow> (nat \<Rightarrow> 'r) \<Rightarrow> 's world \<Rightarrow> 'r \<times> 's world" where
  "call_worker c answer w =
     (answer (length (sv_log w)), w\<lparr>sv_log := sv_log w @ [c], sv_tick := Suc (sv_tick w)\<rparr>)"

definition call_store ::
    "('s \<Rightarrow> 'r \<times> 's) \<Rightarrow> 's world \<Rightarrow> 'r \<times> 's world" where
  "call_store f w = (let (r, s') = f (sv_store w) in (r, w\<lparr>sv_store := s'\<rparr>))"

section \<open>Provision\<close>

record ProvisionRequest =
  prov_Pool :: string
  prov_Create :: CreateRequest

datatype provision_step =
    Returned "go_error + Placement"
  | Created Placement CreateResponse
  | Rejected string

text \<open>One iteration of the loop of \<open>Provision\<close>: return, leave the loop, or try again.\<close>

definition provision_once ::
    "'s Store \<Rightarrow> svc_env \<Rightarrow> Service \<Rightarrow> string \<Rightarrow> ProvisionRequest \<Rightarrow> string list \<Rightarrow> 's world
     \<Rightarrow> provision_step \<times> 's world" where
  "provision_once st V S sandboxID request excluded w =
     (let (res, w1) = svc_Place st V S sandboxID
            \<lparr>pr_Pool = prov_Pool request, pr_Image = cr_Image (prov_Create request),
             ExcludedWorkerIDs = excluded\<rparr> w
      in case res of
           Inl err \<Rightarrow>
             if \<not> errors_is err OrchErrSandboxNotFound
             then (let (rel, w2) = call_store (st_ReleasePlacement st sandboxID ''error'') w1
                   in case rel of
                        Some releaseErr \<Rightarrow> (Returned (Inl (ErrJoin err
                            (Wrapf ''mark unscheduled sandbox failed'' releaseErr))), w2)
                      | None \<Rightarrow> (Returned (Inl err), w2))
             else (Returned (Inl err), w1)
         | Inr placement \<Rightarrow>
             if pl_State placement = ''active'' then (Returned (Inr placement), w1)
             else
               let (cres, w2) = call_worker (WCreate (Endpoint placement) (prov_Create request))
                     (\<lambda>n. wc_create V n (Endpoint placement) (prov_Create request)) w1
               in case cres of
                    Inr response \<Rightarrow> (Created placement response, w2)
                  | Inl err \<Rightarrow>
                      if \<not> errors_is err PlaneErrNoCapacity
                      then
                        let (_, w3) = call_worker (WDestroy (Endpoint placement) sandboxID)
                              (\<lambda>n. wc_destroy V n (Endpoint placement) sandboxID) w2;
                            (rel, w4) = call_store (st_ReleasePlacement st sandboxID ''error'') w3
                        in (case rel of
                              Some releaseErr \<Rightarrow> (Returned (Inl (ErrJoin
                                  (Wrapf ''provision sandbox on worker'' err)
                                  (Wrapf ''release failed placement'' releaseErr))), w4)
                            | None \<Rightarrow>
                                (Returned (Inl (Wrapf ''provision sandbox on worker'' err)), w4))
                      else
                        let (rel, w3) = call_store (st_ReleasePlacement st sandboxID ''scheduling'') w2
                        in (case rel of
                              Some releaseErr \<Rightarrow> (Returned (Inl (ErrJoin err
                                  (Wrapf ''release rejected placement'' releaseErr))), w3)
                            | None \<Rightarrow> (Rejected (WorkerID placement), w3)))"

definition provision_finish ::
    "'s Store \<Rightarrow> string \<Rightarrow> Placement \<Rightarrow> CreateResponse \<Rightarrow> 's world
     \<Rightarrow> (go_error + Placement) \<times> 's world" where
  "provision_finish st sandboxID placement response w =
     (if resp_SandboxID response \<noteq> sandboxID
      then
        let (rel, w') = call_store (st_ReleasePlacement st sandboxID ''error'') w;
            mismatch = ErrNew (''worker returned sandbox id '' @ quoted (resp_SandboxID response)
              @ '', expected '' @ quoted sandboxID)
        in (case rel of
              Some releaseErr \<Rightarrow> (Inl (ErrJoin mismatch
                  (Wrapf ''release mismatched placement'' releaseErr)), w')
            | None \<Rightarrow> (Inl mismatch, w'))
      else
        let (err, w') = call_store (st_UpdatePlacementState st sandboxID (WorkerID placement)
              [''provisioning''] ''active'') w
        in (case err of
              Some e \<Rightarrow> (Inl (Wrapf ''mark sandbox active'' e), w')
            | None \<Rightarrow> (Inr placement, w')))"

text \<open>
  The loop has no bound of its own; \<open>fuel\<close> counts the iterations the model may take and
  \<^term>\<open>None\<close> says that it has not returned by then.
\<close>

fun provision_loop ::
    "'s Store \<Rightarrow> svc_env \<Rightarrow> Service \<Rightarrow> string \<Rightarrow> ProvisionRequest \<Rightarrow> nat \<Rightarrow> string list \<Rightarrow> 's world
     \<Rightarrow> ((go_error + Placement) \<times> 's world) option" where
  "provision_loop st V S sandboxID request 0 excluded w = None"
| "provision_loop st V S sandboxID request (Suc fuel) excluded w =
     (case provision_once st V S sandboxID request excluded w of
        (Returned res, w') \<Rightarrow> Some (res, w')
      | (Created placement response, w') \<Rightarrow>
          Some (provision_finish st sandboxID placement response w')
      | (Rejected workerID, w') \<Rightarrow>
          provision_loop st V S sandboxID request fuel (excluded @ [workerID]) w')"

definition svc_Provision ::
    "'s Store \<Rightarrow> svc_env \<Rightarrow> Service \<Rightarrow> nat \<Rightarrow> ProvisionRequest \<Rightarrow> 's world
     \<Rightarrow> ((go_error + Placement) \<times> 's world) option" where
  "svc_Provision st V S fuel request w =
     (if \<not> workerClient_set S
      then Some (Inl (ErrNew ''worker client is not configured''), w)
      else
        let sandboxID = trim_space (SandboxID (prov_Create request)) in
        if sandboxID = [] then Some (Inl (ErrNew ''sandbox id is required''), w)
        else case Normalize (cr_Image (prov_Create request)) of
               Inl err \<Rightarrow> Some (Inl err, w)
             | Inr img \<Rightarrow>
                 provision_loop st V S sandboxID
                   (request\<lparr>prov_Create := (prov_Create request)\<lparr>cr_Image := img\<rparr>\<rparr>) fuel [] w)"

section \<open>Pause, resume, destroy, reported states\<close>

definition svc_Pause ::
    "'s Store \<Rightarrow> svc_env \<Rightarrow> Service \<Rightarrow> string \<Rightarrow> 's world \<Rightarrow> go_error option \<times> 's world" where
  "svc_Pause st V S sandboxID w =
     (if \<not> workerClient_set S then (Some (ErrNew ''worker client is not configured''), w)
      else
        let (res, w1) = svc_Placement st sandboxID w in
        case res of
          Inl err \<Rightarrow> (Some err, w1)
        | Inr None \<Rightarrow> (Some (Sentinel OrchErrSandboxNotFound), w1)
        | Inr (Some placement) \<Rightarrow>
            let (perr, w2) = call_worker (WPause (Endpoint placement) sandboxID)
                  (\<lambda>n. wc_pause V n (Endpoint placement) sandboxID) w1
            in (case perr of
                  Some err \<Rightarrow> (Some err, w2)
                | None \<Rightarrow> call_store (st_PausePlacement st sandboxID (WorkerID placement)) w2))"

definition svc_Resume ::
    "'s Store \<Rightarrow> svc_env \<Rightarrow> Service \<Rightarrow> string \<Rightarrow> 's world \<Rightarrow> go_error option \<times> 's world" where
  "svc_Resume st V S sandboxID w =
     (if \<not> workerClient_set S then (Some (ErrNew ''worker client is not configured''), w)
      else
        let (res, w1) = svc_Placement st sandboxID w in
        case res of
          Inl err \<Rightarrow> (Some err, w1)
        | Inr None \<Rightarrow> (Some (Sentinel OrchErrSandboxNotFound), w1)
        | Inr (Some placement) \<Rightarrow>
            let (rerr, w2) = call_store (st_ReserveResume st sandboxID (WorkerID placement)
                  (placementPolicy S) (sv_now V (sv_tick w1) - heartbeatTTL S)) w1
            in (case rerr of
                  Some err \<Rightarrow> (Some err, w2)
                | None \<Rightarrow>
                    let (werr, w3) = call_worker (WResume (Endpoint placement) sandboxID)
                          (\<lambda>n. wc_resume V n (Endpoint placement) sandboxID) w2
                    in (case werr of
                          Some err \<Rightarrow>
                            let (cleanup, w4) = call_worker (WPause (Endpoint placement) sandboxID)
                                  (\<lambda>n. wc_pause V n (Endpoint placement) sandboxID) w3
                            in (case cleanup of
                                  Some cleanupErr \<Rightarrow> (Some (ErrJoin
                                      (Wrapf ''resume sandbox on worker'' err)
                                      (Wrapf ''resume cleanup failed; capacity remains reserved''
                                         cleanupErr)), w4)
                                | None \<Rightarrow>
                                    let (cancel, w5) = call_store
                                          (st_CancelResume st sandboxID (WorkerID placement)) w4
                                    in (case cancel of
                                          Some cancelErr \<Rightarrow> (Some (ErrJoin
                                              (Wrapf ''resume sandbox on worker'' err)
                                              (Wrapf ''release failed resume reservation''
                                                 cancelErr)), w5)
                                        | None \<Rightarrow>
                                            (Some (Wrapf ''resume sandbox on worker'' err), w5)))
                        | None \<Rightarrow> call_store (st_UpdatePlacementState st sandboxID
                            (WorkerID placement) [''resuming''] ''active'') w3)))"

definition destroy_on_worker ::
    "'s Store \<Rightarrow> svc_env \<Rightarrow> string \<Rightarrow> Placement \<Rightarrow> 's world \<Rightarrow> go_error option \<times> 's world" where
  "destroy_on_worker st V sandboxID placement w =
     (let (derr, w1) = call_worker (WDestroy (Endpoint placement) sandboxID)
            (\<lambda>n. wc_destroy V n (Endpoint placement) sandboxID) w
      in case derr of
           Some err \<Rightarrow>
             if \<not> contains (to_lower (error_text err)) ''not found''
             then (Some (Wrapf ''destroy sandbox on worker'' err), w1)
             else call_store (st_ReleasePlacement st sandboxID ''destroyed'') w1
         | None \<Rightarrow> call_store (st_ReleasePlacement st sandboxID ''destroyed'') w1)"

definition svc_Destroy ::
    "'s Store \<Rightarrow> svc_env \<Rightarrow> Service \<Rightarrow> string \<Rightarrow> 's world \<Rightarrow> go_error option \<times> 's world" where
  "svc_Destroy st V S sandboxID w =
     (if \<not> workerClient_set S then (Some (ErrNew ''worker client is not configured''), w)
      else
        let (res, w1) = svc_Placement st sandboxID w in
        case res of
          Inl err \<Rightarrow> (Some err, w1)
        | Inr None \<Rightarrow> call_store (st_ReleasePlacement st sandboxID ''destroyed'') w1
        | Inr (Some placement) \<Rightarrow>
            if pl_State placement \<noteq> ''paused''
            then
              let (uerr, w2) = call_store (st_UpdatePlacementState st sandboxID (WorkerID placement)
                    [''active'', ''error'', ''provisioning'', ''resuming''] ''destroying'') w1
              in (case uerr of
                    Some err \<Rightarrow> (Some err, w2)
                  | None \<Rightarrow> destroy_on_worker st V sandboxID placement w2)
            else destroy_on_worker st V sandboxID placement w1)"

definition svc_ReportWorkerState ::
    "'s Store \<Rightarrow> string \<Rightarrow> string \<Rightarrow> string \<Rightarrow> 's world \<Rightarrow> go_error option \<times> 's world" where
  "svc_ReportWorkerState st workerID0 sandboxID0 state0 w =
     (let workerID = trim_space workerID0; sandboxID = trim_space sandboxID0;
          state = trim_space state0
      in if \<not> workerIDPattern workerID then (Some (invalid_worker_id workerID), w)
         else if sandboxID = [] then (Some (ErrNew ''sandbox id is required''), w)
         else if state = ''destroyed''
         then call_store (st_ReleaseWorkerPlacement st sandboxID workerID ''destroyed'') w
         else if state = ''paused''
         then call_store (st_PausePlacement st sandboxID workerID) w
         else if state = ''active''
         then call_store (st_UpdatePlacementState st sandboxID workerID
                [''resuming'', ''provisioning''] ''active'') w
         else (Some (ErrNew (''invalid worker sandbox state '' @ quoted state)), w))"

section \<open>Properties of the sequence of worker calls\<close>

text \<open>
  Position \<open>i\<close> of the log is a create call whose outcome is unknown: the worker answered with an
  error that is not a capacity rejection.
\<close>

definition ambiguous_create :: "svc_env \<Rightarrow> worker_call list \<Rightarrow> nat \<Rightarrow> bool" where
  "ambiguous_create V lg i =
     (case lg ! i of
        WCreate ep c \<Rightarrow> (case wc_create V i ep c of
            Inl e \<Rightarrow> \<not> errors_is e PlaneErrNoCapacity | Inr _ \<Rightarrow> False)
      | _ \<Rightarrow> False)"

definition destroyed_next :: "string \<Rightarrow> worker_call list \<Rightarrow> nat \<Rightarrow> bool" where
  "destroyed_next sandboxID lg i \<longleftrightarrow> Suc i < length lg \<and>
     (case lg ! i of WCreate ep c \<Rightarrow> lg ! Suc i = WDestroy ep sandboxID | _ \<Rightarrow> False)"

definition cleans_up :: "svc_env \<Rightarrow> string \<Rightarrow> nat \<Rightarrow> worker_call list \<Rightarrow> bool" where
  "cleans_up V sandboxID from lg \<longleftrightarrow>
     (\<forall>i. from \<le> i \<and> i < length lg \<and> ambiguous_create V lg i \<longrightarrow> destroyed_next sandboxID lg i)"

lemma cleans_up_refl: "cleans_up V k (length lg) lg"
  by (auto simp: cleans_up_def)

lemma cleans_up_snoc:
  assumes "cleans_up V k n lg" and "n \<le> length lg"
    and "\<not> ambiguous_create V (lg @ [c]) (length lg)"
  shows "cleans_up V k n (lg @ [c])"
  unfolding cleans_up_def
proof (intro allI impI)
  fix i assume i: "n \<le> i \<and> i < length (lg @ [c]) \<and> ambiguous_create V (lg @ [c]) i"
  with assms(3) have "i < length lg" by (cases "i = length lg") auto
  then have "ambiguous_create V lg i" using i by (simp add: ambiguous_create_def nth_append)
  with assms(1) i \<open>i < length lg\<close> have "destroyed_next k lg i" by (simp add: cleans_up_def)
  then show "destroyed_next k (lg @ [c]) i"
    by (auto simp: destroyed_next_def nth_append split: worker_call.splits)
qed

lemma cleans_up_pair:
  assumes "cleans_up V k n lg" and "n \<le> length lg"
  shows "cleans_up V k n (lg @ [WCreate ep c, WDestroy ep k])"
  unfolding cleans_up_def
proof (intro allI impI)
  let ?l = "lg @ [WCreate ep c, WDestroy ep k]"
  fix i assume i: "n \<le> i \<and> i < length ?l \<and> ambiguous_create V ?l i"
  consider "i < length lg" | "i = length lg" | "i = Suc (length lg)" using i by force
  then show "destroyed_next k ?l i"
  proof cases
    case 1
    then have "ambiguous_create V lg i" using i by (simp add: ambiguous_create_def nth_append)
    with assms(1) i 1 have "destroyed_next k lg i" by (simp add: cleans_up_def)
    then show ?thesis by (auto simp: destroyed_next_def nth_append split: worker_call.splits)
  next
    case 2
    then show ?thesis by (simp add: destroyed_next_def nth_append)
  next
    case 3
    with i show ?thesis by (simp add: ambiguous_create_def nth_append)
  qed
qed

text \<open>The worker call number \<open>n\<close> destroyed the sandbox or found it gone.\<close>

definition destroy_confirmed :: "svc_env \<Rightarrow> nat \<Rightarrow> string \<Rightarrow> string \<Rightarrow> bool" where
  "destroy_confirmed V n ep k =
     (case wc_destroy V n ep k of None \<Rightarrow> True | Some e \<Rightarrow> contains (to_lower (error_text e)) ''not found'')"

section \<open>The contract of the store\<close>

text \<open>
  What the service relies on: \<open>rows\<close> is the durable worker and state of each sandbox,
  \<open>workers\<close> the registered workers. A call that fails changes no row.
\<close>

locale placement_store =
  fixes st :: "'s Store"
    and rows :: "'s \<Rightarrow> string \<Rightarrow> (string option \<times> string) option"
    and workers :: "'s \<Rightarrow> string set"
  assumes finite_workers: "finite (workers s)"
    and reserve_workers: "workers (snd (st_ReservePlacement st k req pol t s)) = workers s"
    and reserve_err: "fst (st_ReservePlacement st k req pol t s) = Inl e
      \<Longrightarrow> rows (snd (st_ReservePlacement st k req pol t s)) = rows s"
    and reserve_ok: "st_ReservePlacement st k req pol t s = (Inr pl, s')
      \<Longrightarrow> pl_SandboxID pl = k \<and>
          (pl_State pl = ''active'' \<and> rows s k = Some (Some (WorkerID pl), ''active'') \<and> rows s' = rows s
           \<or> pl_State pl = ''provisioning'' \<and> WorkerID pl \<in> workers s
             \<and> WorkerID pl \<notin> set (ExcludedWorkerIDs req)
             \<and> (\<exists>f. rows s k = Some (None, f))
             \<and> rows s' = (rows s)(k \<mapsto> (Some (WorkerID pl), ''provisioning'')))"
    and reserve_placed: "rows s k = Some (Some v, f) \<Longrightarrow> f \<noteq> ''active''
      \<Longrightarrow> \<exists>e. fst (st_ReservePlacement st k req pol t s) = Inl e"
    and get_rows: "rows (snd (st_GetPlacement st k s)) = rows s"
    and get_ok: "fst (st_GetPlacement st k s) = Inr (Some pl)
      \<Longrightarrow> rows s k = Some (Some (WorkerID pl), pl_State pl)"
    and get_none: "fst (st_GetPlacement st k s) = Inr None
      \<Longrightarrow> rows s k = Some (Some v, f) \<Longrightarrow> v \<notin> workers s"
    and update_err: "fst (st_UpdatePlacementState st k v fs f s) = Some e
      \<Longrightarrow> rows (snd (st_UpdatePlacementState st k v fs f s)) = rows s"
    and update_ok: "fst (st_UpdatePlacementState st k v fs f s) = None
      \<Longrightarrow> rows (snd (st_UpdatePlacementState st k v fs f s)) = (rows s)(k \<mapsto> (Some v, f))
         \<and> (\<exists>g. rows s k = Some (Some v, g) \<and> (g \<in> set fs \<or> g = f))"
    and pause_err: "fst (st_PausePlacement st k v s) = Some e
      \<Longrightarrow> rows (snd (st_PausePlacement st k v s)) = rows s"
    and pause_ok: "fst (st_PausePlacement st k v s) = None
      \<Longrightarrow> rows (snd (st_PausePlacement st k v s)) = (rows s)(k \<mapsto> (Some v, ''paused''))"
    and resume_err: "fst (st_ReserveResume st k v pol t s) = Some e
      \<Longrightarrow> rows (snd (st_ReserveResume st k v pol t s)) = rows s"
    and resume_ok: "fst (st_ReserveResume st k v pol t s) = None
      \<Longrightarrow> \<exists>f. rows s k = Some (Some v, f) \<and>
            (f \<in> {''active'', ''resuming''} \<and> rows (snd (st_ReserveResume st k v pol t s)) = rows s
             \<or> f = ''paused'' \<and> rows (snd (st_ReserveResume st k v pol t s))
                 = (rows s)(k \<mapsto> (Some v, ''resuming'')))"
    and cancel_err: "fst (st_CancelResume st k v s) = Some e
      \<Longrightarrow> rows (snd (st_CancelResume st k v s)) = rows s"
    and cancel_ok: "fst (st_CancelResume st k v s) = None
      \<Longrightarrow> rows (snd (st_CancelResume st k v s)) = (rows s)(k \<mapsto> (Some v, ''paused''))"
    and release_workers: "workers (snd (st_ReleasePlacement st k f s)) = workers s"
    and release_err: "fst (st_ReleasePlacement st k f s) = Some e
      \<Longrightarrow> rows (snd (st_ReleasePlacement st k f s)) = rows s"
    and release_ok: "fst (st_ReleasePlacement st k f s) = None \<Longrightarrow> f \<noteq> []
      \<Longrightarrow> rows (snd (st_ReleasePlacement st k f s)) = (rows s)(k \<mapsto> (None, f))"
begin

subsection \<open>Placement with retries\<close>

lemma place_loop_workers:
  "workers (sv_store (snd (place_loop st V pol k req t a n w))) = workers (sv_store w)"
proof (induction n arbitrary: a w)
  case (Suc n)
  then show ?case
    by (auto simp: split_beta Let_def reserve_workers split: sum.splits option.splits)
qed simp

lemma place_loop_log: "sv_log (snd (place_loop st V pol k req t a n w)) = sv_log w"
  by (induction n arbitrary: a w) (auto simp: split_beta Let_def split: sum.splits option.splits)

lemma place_loop_rows_err:
  "fst (place_loop st V pol k req t a n w) = Inl e
     \<Longrightarrow> rows (sv_store (snd (place_loop st V pol k req t a n w))) = rows (sv_store w)"
proof (induction n arbitrary: a w)
  case (Suc n)
  then show ?case
    by (auto simp: split_beta Let_def reserve_err split: sum.splits option.splits if_splits)
qed simp

lemma place_loop_ok:
  assumes "place_loop st V pol k req t a n w = (Inr pl, w')"
  shows "pl_State pl = ''active'' \<and> rows (sv_store w) k = Some (Some (WorkerID pl), ''active'')
           \<and> rows (sv_store w') = rows (sv_store w)
         \<or> pl_State pl = ''provisioning'' \<and> WorkerID pl \<in> workers (sv_store w)
           \<and> WorkerID pl \<notin> set (ExcludedWorkerIDs req)
           \<and> (\<exists>f. rows (sv_store w) k = Some (None, f))
           \<and> rows (sv_store w') = (rows (sv_store w))(k \<mapsto> (Some (WorkerID pl), ''provisioning''))"
  using assms
proof (induction n arbitrary: a w)
  case (Suc n)
  obtain res s' where r: "st_ReservePlacement st k req pol t (sv_store w) = (res, s')"
    by fastforce
  show ?case
  proof (cases res)
    case (Inr x)
    with Suc.prems r reserve_ok[OF r[unfolded Inr]] show ?thesis by auto
  next
    case (Inl e)
    let ?w = "w\<lparr>sv_store := s', sv_tick := Suc (sv_tick w)\<rparr>"
    have "place_loop st V pol k req t (Suc a) n ?w = (Inr pl, w')"
      using Suc.prems r Inl by (auto simp: Let_def split: if_splits option.splits)
    note ih = Suc.IH[OF this]
    have "sv_store ?w = s'" "workers s' = workers (sv_store w)" "rows s' = rows (sv_store w)"
      using reserve_workers[of k req pol t "sv_store w"] reserve_err[of k req pol t "sv_store w" e]
        r Inl by simp_all
    then show ?thesis using ih by (simp only:)
  qed
qed simp

lemma Place_err_rows:
  "fst (svc_Place st V S k req w) = Inl e
     \<Longrightarrow> rows (sv_store (snd (svc_Place st V S k req w))) = rows (sv_store w)"
  by (auto simp: svc_Place_def Let_def place_loop_rows_err split: if_splits sum.splits)

lemma Place_workers: "workers (sv_store (snd (svc_Place st V S k req w))) = workers (sv_store w)"
  by (auto simp: svc_Place_def Let_def place_loop_workers split: sum.splits)

lemma Place_log: "sv_log (snd (svc_Place st V S k req w)) = sv_log w"
  by (auto simp: svc_Place_def Let_def place_loop_log split: sum.splits)

lemma Place_ok:
  assumes "svc_Place st V S k req w = (Inr pl, w')"
  shows "pl_State pl = ''active'' \<and> rows (sv_store w) (trim_space k) = Some (Some (WorkerID pl), ''active'')
           \<and> rows (sv_store w') = rows (sv_store w)
         \<or> pl_State pl = ''provisioning'' \<and> WorkerID pl \<in> workers (sv_store w)
           \<and> WorkerID pl \<notin> set (ExcludedWorkerIDs req)
           \<and> (\<exists>f. rows (sv_store w) (trim_space k) = Some (None, f))
           \<and> rows (sv_store w')
               = (rows (sv_store w))(trim_space k \<mapsto> (Some (WorkerID pl), ''provisioning''))"
  using assms
  by (auto simp: svc_Place_def Let_def split: if_splits sum.splits dest!: place_loop_ok)

subsection \<open>Provision\<close>

lemma call_store_eq:
  "call_store f w = (fst (f (sv_store w)), w\<lparr>sv_store := snd (f (sv_store w))\<rparr>)"
  by (simp add: call_store_def split_beta)

lemma provision_once_rejected:
  assumes "provision_once st V S k req ex w = (Rejected v, w')" and "trim_space k = k"
  shows "v \<in> workers (sv_store w)" and "v \<notin> set ex"
    and "workers (sv_store w') = workers (sv_store w)"
    and "rows (sv_store w') k = Some (None, ''scheduling'')"
proof -
  let ?req = "\<lparr>pr_Pool = prov_Pool req, pr_Image = cr_Image (prov_Create req), ExcludedWorkerIDs = ex\<rparr>"
  obtain res w1 where pl: "svc_Place st V S k ?req w = (res, w1)" by fastforce
  from assms pl obtain x where x: "res = Inr x" "pl_State x \<noteq> ''active''" "v = WorkerID x"
    and w': "sv_store w' = snd (st_ReleasePlacement st k ''scheduling'' (sv_store w1))"
    and ok: "fst (st_ReleasePlacement st k ''scheduling'' (sv_store w1)) = None"
    by (auto simp: provision_once_def Let_def call_store_eq call_worker_def
        split: sum.splits if_splits option.splits)
  note P = Place_ok[OF pl[unfolded x(1)]]
  from P x(2,3) show "v \<in> workers (sv_store w)" "v \<notin> set ex" by auto
  show "workers (sv_store w') = workers (sv_store w)"
    using Place_workers[of V S k ?req w] pl w' release_workers by simp
  show "rows (sv_store w') k = Some (None, ''scheduling'')"
    using release_ok[OF ok] w' by simp
qed

lemma provision_once_created:
  assumes "provision_once st V S k req ex w = (Created pl resp, w')" and "trim_space k = k"
  shows "rows (sv_store w') k = Some (Some (WorkerID pl), ''provisioning'')"
proof -
  let ?req = "\<lparr>pr_Pool = prov_Pool req, pr_Image = cr_Image (prov_Create req), ExcludedWorkerIDs = ex\<rparr>"
  obtain res w1 where p: "svc_Place st V S k ?req w = (res, w1)" by fastforce
  from assms p have "res = Inr pl" "pl_State pl \<noteq> ''active''" "sv_store w' = sv_store w1"
    by (auto simp: provision_once_def Let_def call_store_eq call_worker_def
        split: sum.splits if_splits option.splits)
  with Place_ok[of V S k ?req w pl w1] p assms(2) show ?thesis by auto
qed

lemma provision_once_returned:
  assumes "provision_once st V S k req ex w = (Returned (Inr pl), w')" and "trim_space k = k"
  shows "rows (sv_store w') k = Some (Some (WorkerID pl), ''active'')"
proof -
  let ?req = "\<lparr>pr_Pool = prov_Pool req, pr_Image = cr_Image (prov_Create req), ExcludedWorkerIDs = ex\<rparr>"
  obtain res w1 where p: "svc_Place st V S k ?req w = (res, w1)" by fastforce
  from assms p have "res = Inr pl" "pl_State pl = ''active''" "w' = w1"
    by (auto simp: provision_once_def Let_def call_store_eq call_worker_def
        split: sum.splits if_splits option.splits)
  with Place_ok[of V S k ?req w pl w1] p assms(2) show ?thesis by auto
qed

lemma provision_finish_ok:
  "provision_finish st k pl resp w = (Inr x, w')
     \<Longrightarrow> x = pl \<and> rows (sv_store w') k = Some (Some (WorkerID pl), ''active'')"
  using update_ok[of k "WorkerID pl" "[''provisioning'']" "''active''" "sv_store w"]
  by (auto simp: provision_finish_def Let_def call_store_eq split: if_splits option.splits)

text \<open>
  The loop excludes one more registered worker in every further iteration, so it takes at most
  one iteration more than there are workers.
\<close>

lemma provision_loop_returns:
  assumes "card (workers (sv_store w) - set ex) < fuel" and "trim_space k = k"
  shows "\<exists>r. provision_loop st V S k req fuel ex w = Some r"
  using assms
proof (induction fuel arbitrary: ex w)
  case (Suc n)
  obtain x w' where once: "provision_once st V S k req ex w = (x, w')" by fastforce
  show ?case
  proof (cases x)
    case (Rejected v)
    note R = provision_once_rejected[OF once[unfolded Rejected] Suc.prems(2)]
    have "workers (sv_store w') - set (ex @ [v]) = (workers (sv_store w) - set ex) - {v}"
      using R(3) by auto
    moreover have "card ((workers (sv_store w) - set ex) - {v}) < card (workers (sv_store w) - set ex)"
      using R(1,2) finite_workers by (intro card_Diff1_less) auto
    ultimately have "card (workers (sv_store w') - set (ex @ [v])) < n"
      using Suc.prems(1) by simp
    from Suc.IH[OF this Suc.prems(2)] show ?thesis using once Rejected by simp
  qed (use once in auto)
qed simp

lemma provision_loop_ok:
  assumes "provision_loop st V S k req fuel ex w = Some (Inr pl, w')" and "trim_space k = k"
  shows "rows (sv_store w') k = Some (Some (WorkerID pl), ''active'')"
  using assms
proof (induction fuel arbitrary: ex w)
  case (Suc n)
  obtain x w1 where once: "provision_once st V S k req ex w = (x, w1)" by fastforce
  show ?case
  proof (cases x)
    case (Returned r)
    with once Suc.prems show ?thesis using provision_once_returned by auto
  next
    case (Created p resp)
    with once Suc.prems(1) show ?thesis using provision_finish_ok by fastforce
  next
    case (Rejected v)
    with once Suc.prems Suc.IH show ?thesis by auto
  qed
qed simp

lemma Provision_returns:
  assumes "card (workers (sv_store w)) < fuel"
  shows "\<exists>r. svc_Provision st V S fuel req w = Some r"
  using provision_loop_returns[where ex = "[]"] assms
  by (auto simp: svc_Provision_def Let_def split: sum.splits)

lemma Provision_ok:
  assumes "svc_Provision st V S fuel req w = Some (Inr pl, w')"
  shows "rows (sv_store w') (trim_space (SandboxID (prov_Create req)))
     = Some (Some (WorkerID pl), ''active'')"
  using assms provision_loop_ok
  by (auto simp: svc_Provision_def Let_def split: if_splits sum.splits)

lemma provision_once_log:
  assumes "provision_once st V S k req ex w = (x, w')"
    and "cleans_up V k n (sv_log w)" and "n \<le> length (sv_log w)"
  shows "cleans_up V k n (sv_log w')" and "n \<le> length (sv_log w')"
proof -
  let ?req = "\<lparr>pr_Pool = prov_Pool req, pr_Image = cr_Image (prov_Create req), ExcludedWorkerIDs = ex\<rparr>"
  obtain res w1 where p: "svc_Place st V S k ?req w = (res, w1)" by fastforce
  have log1: "sv_log w1 = sv_log w" using Place_log[of V S k ?req w] p by simp
  have shape: "sv_log w' = sv_log w
     \<or> (\<exists>ep. sv_log w' = sv_log w @ [WCreate ep (prov_Create req)]
            \<and> \<not> ambiguous_create V (sv_log w') (length (sv_log w)))
     \<or> (\<exists>ep. sv_log w' = sv_log w @ [WCreate ep (prov_Create req), WDestroy ep k])"
    using assms(1) p log1
    by (auto simp: provision_once_def Let_def call_store_eq call_worker_def ambiguous_create_def
        split: sum.splits if_splits option.splits)
  then show "n \<le> length (sv_log w')" using assms(3) by auto
  from shape assms(2,3) show "cleans_up V k n (sv_log w')"
    using cleans_up_snoc cleans_up_pair by (elim disjE exE conjE) auto
qed

lemma provision_finish_log: "sv_log (snd (provision_finish st k pl resp w)) = sv_log w"
  by (auto simp: provision_finish_def Let_def call_store_eq split: option.splits)

lemma provision_loop_log:
  assumes "provision_loop st V S k req fuel ex w = Some (r, w')"
    and "cleans_up V k n (sv_log w)" and "n \<le> length (sv_log w)"
  shows "cleans_up V k n (sv_log w')"
  using assms
proof (induction fuel arbitrary: ex w)
  case (Suc m)
  obtain x w1 where once: "provision_once st V S k req ex w = (x, w1)" by fastforce
  note L = provision_once_log[OF once Suc.prems(2,3)]
  show ?case
  proof (cases x)
    case (Created p resp)
    with once Suc.prems(1) L(1) provision_finish_log[of k p resp w1] show ?thesis by simp
  qed (use once Suc.prems(1) Suc.IH L in auto)
qed simp

lemma Provision_log:
  assumes "svc_Provision st V S fuel req w = Some (r, w')"
  shows "cleans_up V (trim_space (SandboxID (prov_Create req))) (length (sv_log w)) (sv_log w')"
  using assms provision_loop_log[OF _ cleans_up_refl]
  by (auto simp: svc_Provision_def Let_def cleans_up_refl split: if_splits sum.splits)

subsection \<open>Pause, resume and destroy\<close>

lemma Placement_frame:
  "sv_log (snd (svc_Placement st k w)) = sv_log w"
  "rows (sv_store (snd (svc_Placement st k w))) = rows (sv_store w)"
  by (simp_all add: svc_Placement_def split_beta get_rows)

lemma Placement_found:
  "svc_Placement st k w = (Inr (Some pl), w1) \<Longrightarrow> rows (sv_store w) k = Some (Some (WorkerID pl), pl_State pl)"
  using get_ok[of k "sv_store w" pl] by (auto simp: svc_Placement_def split_beta split: if_splits)

lemma Pause_cases:
  assumes "svc_Pause st V S k w = (r, w')"
  shows "case r of
      Some e \<Rightarrow> rows (sv_store w') = rows (sv_store w)
    | None \<Rightarrow> \<exists>v ep. rows (sv_store w') = (rows (sv_store w))(k \<mapsto> (Some v, ''paused''))
        \<and> sv_log w' = sv_log w @ [WPause ep k] \<and> wc_pause V (length (sv_log w)) ep k = None"
proof -
  obtain res w1 where p: "svc_Placement st k w = (res, w1)" by fastforce
  with Placement_frame[of k w] have frame: "sv_log w1 = sv_log w" "rows (sv_store w1) = rows (sv_store w)"
    by auto
  show ?thesis
    using assms p frame pause_ok[of k _ "sv_store w1"] pause_err[of k _ "sv_store w1"]
    by (auto simp: svc_Pause_def Let_def call_store_eq call_worker_def
        split: sum.splits if_splits option.splits)
qed

text \<open>
  A failed resume gives the reservation back only after the worker has confirmed the cleanup
  pause; otherwise the sandbox stays in \<open>resuming\<close>.
\<close>

lemma Resume_failed:
  assumes "svc_Resume st V S k w = (Some e, w')"
  shows "rows (sv_store w') = rows (sv_store w)
    \<or> (\<exists>v. rows (sv_store w) k = Some (Some v, ''paused'')
          \<and> rows (sv_store w') = (rows (sv_store w))(k \<mapsto> (Some v, ''resuming''))
          \<and> sv_log w' \<noteq> sv_log w)
    \<or> (\<exists>v ep. rows (sv_store w') = (rows (sv_store w))(k \<mapsto> (Some v, ''paused''))
          \<and> sv_log w' = sv_log w @ [WResume ep k, WPause ep k]
          \<and> wc_pause V (Suc (length (sv_log w))) ep k = None)"
proof -
  obtain res w1 where p: "svc_Placement st k w = (res, w1)" by fastforce
  with Placement_frame[of k w] have frame: "sv_log w1 = sv_log w" "rows (sv_store w1) = rows (sv_store w)"
    by auto
  show ?thesis
  proof (cases "\<exists>pl. res = Inr (Some pl) \<and> workerClient_set S")
    case False
    then show ?thesis using assms p frame
      by (auto simp: svc_Resume_def Let_def split: sum.splits option.splits if_splits)
  next
    case True
    then obtain pl where pl: "res = Inr (Some pl)" "workerClient_set S" by blast
    let ?v = "WorkerID pl" and ?ep = "Endpoint pl"
    obtain rerr s2 where r: "st_ReserveResume st k ?v (placementPolicy S)
        (sv_now V (sv_tick w1) - heartbeatTTL S) (sv_store w1) = (rerr, s2)" by fastforce
    show ?thesis
    proof (cases rerr)
      case (Some x)
      with r resume_err have "rows s2 = rows (sv_store w)" using frame by (metis fst_conv snd_conv)
      then show ?thesis using assms p pl r Some
        by (auto simp: svc_Resume_def Let_def call_store_eq)
    next
      case None
      with r resume_ok[of k ?v "placementPolicy S" _ "sv_store w1"] frame
      have s2: "rows s2 = rows (sv_store w) \<or>
          rows (sv_store w) k = Some (Some ?v, ''paused'')
            \<and> rows s2 = (rows (sv_store w))(k \<mapsto> (Some ?v, ''resuming''))"
        by (metis fst_conv snd_conv)
      define s3 where "s3 = st_UpdatePlacementState st k ?v [''resuming''] ''active'' s2"
      define s4 where "s4 = st_CancelResume st k ?v s2"
      have s3: "fst s3 = Some x \<Longrightarrow> rows (snd s3) = rows s2" for x
        using update_err unfolding s3_def by metis
      have s4: "fst s4 = Some x \<Longrightarrow> rows (snd s4) = rows s2" for x
        using cancel_err unfolding s4_def by metis
      have s4': "rows (snd s4) = (rows s2)(k \<mapsto> (Some ?v, ''paused''))" if "fst s4 = None"
        using cancel_ok that unfolding s4_def by metis
      show ?thesis
        using assms p pl r None frame s2 s3 s4 s4'
        by (auto simp: svc_Resume_def Let_def call_store_eq call_worker_def
            s3_def[symmetric] s4_def[symmetric] split: option.splits)
    qed
  qed
qed

lemma Resume_ok:
  assumes "svc_Resume st V S k w = (None, w')"
  shows "\<exists>v ep. rows (sv_store w) k \<in> {Some (Some v, ''active''), Some (Some v, ''resuming''),
        Some (Some v, ''paused'')}
      \<and> rows (sv_store w') k = Some (Some v, ''active'')
      \<and> sv_log w' = sv_log w @ [WResume ep k] \<and> wc_resume V (length (sv_log w)) ep k = None"
proof -
  obtain res w1 where p: "svc_Placement st k w = (res, w1)" by fastforce
  with Placement_frame[of k w] have frame: "sv_log w1 = sv_log w" "rows (sv_store w1) = rows (sv_store w)"
    by auto
  from assms p obtain pl where pl: "res = Inr (Some pl)" "workerClient_set S"
    by (auto simp: svc_Resume_def Let_def split: sum.splits option.splits if_splits)
  let ?v = "WorkerID pl"
  obtain rerr s2 where r: "st_ReserveResume st k ?v (placementPolicy S)
      (sv_now V (sv_tick w1) - heartbeatTTL S) (sv_store w1) = (rerr, s2)" by fastforce
  from assms p pl r have "rerr = None"
    by (auto simp: svc_Resume_def Let_def call_store_eq split: option.splits)
  with r resume_ok[of k ?v "placementPolicy S" _ "sv_store w1"] frame
  have s2: "rows (sv_store w) k \<in> {Some (Some ?v, ''active''), Some (Some ?v, ''resuming''),
      Some (Some ?v, ''paused'')}"
    by (metis fst_conv insertE insertI1 insertI2 singletonD)
  define s3 where "s3 = st_UpdatePlacementState st k ?v [''resuming''] ''active'' s2"
  have "rows (snd s3) = (rows s2)(k \<mapsto> (Some ?v, ''active''))" if "fst s3 = None"
    using update_ok that unfolding s3_def by metis
  with assms p pl r \<open>rerr = None\<close> frame
  have "rows (sv_store w') k = Some (Some ?v, ''active'')"
    "sv_log w' = sv_log w @ [WResume (Endpoint pl) k]"
    "wc_resume V (length (sv_log w)) (Endpoint pl) k = None"
    by (auto simp: svc_Resume_def Let_def call_store_eq call_worker_def
            s3_def[symmetric] split: option.splits)
  with s2 show ?thesis by blast
qed

lemma destroy_on_worker_cases:
  assumes "destroy_on_worker st V k pl w = (r, w')"
  shows "sv_log w' = sv_log w @ [WDestroy (Endpoint pl) k]"
    and "r = None \<Longrightarrow> destroy_confirmed V (length (sv_log w)) (Endpoint pl) k
           \<and> rows (sv_store w') = (rows (sv_store w))(k \<mapsto> (None, ''destroyed''))"
    and "r = Some e \<Longrightarrow> rows (sv_store w') = rows (sv_store w)"
  using assms release_ok[of k "''destroyed''" "sv_store w"] release_err[of k "''destroyed''" "sv_store w"]
  by (auto simp: destroy_on_worker_def destroy_confirmed_def Let_def call_store_eq call_worker_def
      split: option.splits if_splits)

lemma Destroy_ok:
  assumes "svc_Destroy st V S k w = (None, w')"
  shows "rows (sv_store w') k = Some (None, ''destroyed'')
    \<and> (sv_log w' = sv_log w \<and> (\<forall>v f. rows (sv_store w) k = Some (Some v, f) \<longrightarrow> v \<notin> workers (sv_store w))
       \<or> (\<exists>ep. sv_log w' = sv_log w @ [WDestroy ep k] \<and> destroy_confirmed V (length (sv_log w)) ep k))"
proof -
  obtain res w1 where p: "svc_Placement st k w = (res, w1)" by fastforce
  with Placement_frame[of k w] have frame: "sv_log w1 = sv_log w" by auto
  show ?thesis
  proof (cases "\<exists>pl. res = Inr (Some pl)")
    case False
    then have "res = Inr None" "fst (st_ReleasePlacement st k ''destroyed'' (sv_store w1)) = None"
      "w' = w1\<lparr>sv_store := snd (st_ReleasePlacement st k ''destroyed'' (sv_store w1))\<rparr>"
      using assms p
      by (auto simp: svc_Destroy_def Let_def call_store_eq split: sum.splits option.splits if_splits)
    then show ?thesis
      using p frame release_ok[of k "''destroyed''" "sv_store w1"] get_none[of k "sv_store w"]
      by (auto simp: svc_Placement_def split_beta split: if_splits)
  next
    case True
    then obtain pl where pl: "res = Inr (Some pl)" by blast
    from assms p pl obtain w2 where d: "destroy_on_worker st V k pl w2 = (None, w')"
      and "sv_log w2 = sv_log w1"
      by (auto simp: svc_Destroy_def Let_def call_store_eq split: if_splits option.splits)
    with destroy_on_worker_cases[OF d] frame show ?thesis by auto
  qed
qed

lemma Destroy_failed:
  assumes "svc_Destroy st V S k w = (Some e, w')"
  shows "rows (sv_store w') = rows (sv_store w)
    \<or> (\<exists>v f. rows (sv_store w) k = Some (Some v, f)
        \<and> rows (sv_store w') = (rows (sv_store w))(k \<mapsto> (Some v, ''destroying'')))"
proof -
  obtain res w1 where p: "svc_Placement st k w = (res, w1)" by fastforce
  with Placement_frame[of k w] have frame: "rows (sv_store w1) = rows (sv_store w)" by auto
  show ?thesis
  proof (cases "\<exists>pl. res = Inr (Some pl) \<and> workerClient_set S")
    case False
    then show ?thesis
      using assms p frame release_err[of k "''destroyed''" "sv_store w1"]
      by (auto simp: svc_Destroy_def Let_def call_store_eq split: sum.splits option.splits if_splits)
  next
    case True
    then obtain pl where pl: "res = Inr (Some pl)" "workerClient_set S" by blast
    let ?from = "[''active'', ''error'', ''provisioning'', ''resuming'']"
    show ?thesis
    proof (cases "pl_State pl = ''paused''")
      case True
      with assms p pl have "destroy_on_worker st V k pl w1 = (Some e, w')"
        by (simp add: svc_Destroy_def)
      from destroy_on_worker_cases(3)[OF this] frame show ?thesis by simp
    next
      case False
      define u where "u = st_UpdatePlacementState st k (WorkerID pl) ?from ''destroying'' (sv_store w1)"
      have u1: "fst u = Some x \<Longrightarrow> rows (snd u) = rows (sv_store w)" for x
        using update_err frame unfolding u_def by metis
      have u2: "rows (snd u) = (rows (sv_store w))(k \<mapsto> (Some (WorkerID pl), ''destroying''))
          \<and> (\<exists>f. rows (sv_store w) k = Some (Some (WorkerID pl), f))" if "fst u = None"
        using update_ok[of k "WorkerID pl" ?from "''destroying''" "sv_store w1"] frame that
        unfolding u_def by auto
      show ?thesis
      proof (cases "fst u")
        case (Some x)
        with assms p pl False u1[OF Some] show ?thesis
          by (auto simp: svc_Destroy_def call_store_eq u_def[symmetric])
      next
        case None
        with assms p pl False have "destroy_on_worker st V k pl (w1\<lparr>sv_store := snd u\<rparr>) = (Some e, w')"
          by (simp add: svc_Destroy_def call_store_eq u_def[symmetric])
        from destroy_on_worker_cases(3)[OF this] u2[OF None] show ?thesis by auto
      qed
    qed
  qed
qed

end

section \<open>A store without failures\<close>

text \<open>
  When no statement fails, a call is refused only for the reasons the code gives.
\<close>

locale reliable_store = placement_store st rows workers
  for st :: "'s Store" and rows and workers +
  assumes release_live: "rows s k \<noteq> None \<Longrightarrow> fst (st_ReleasePlacement st k f s) = None"
    and update_live: "rows s k = Some (Some v, g) \<Longrightarrow> g \<in> set fs
      \<Longrightarrow> fst (st_UpdatePlacementState st k v fs f s) = None"
    and reserve_found: "rows s k \<noteq> None \<Longrightarrow> fst (st_ReservePlacement st k req pol t s) = Inl e
      \<Longrightarrow> \<not> errors_is e OrchErrSandboxNotFound"
begin

lemma ctx_Err_is [simp]: "\<not> errors_is (ctx_Err c) OrchErrSandboxNotFound"
  by (cases c) simp_all

lemma place_loop_found:
  "rows (sv_store w) k \<noteq> None \<Longrightarrow> fst (place_loop st V pol k req t a n w) = Inl e
     \<Longrightarrow> \<not> errors_is e OrchErrSandboxNotFound"
proof (induction n arbitrary: a w)
  case (Suc n)
  obtain res s' where r: "st_ReservePlacement st k req pol t (sv_store w) = (res, s')" by fastforce
  have "rows s' = rows (sv_store w)" if "res = Inl x" for x
    using reserve_err r that by (metis fst_conv snd_conv)
  with Suc r reserve_found[of "sv_store w" k req pol t] show ?case
    by (fastforce simp: Let_def waitWithJitter_def split: sum.splits if_splits option.splits)
qed auto

lemma Place_found:
  assumes "trim_space k = k" and "k \<noteq> []" and "rows (sv_store w) k \<noteq> None"
    and "fst (svc_Place st V S k req w) = Inl e"
  shows "\<not> errors_is e OrchErrSandboxNotFound"
  using assms
  by (auto simp: svc_Place_def Let_def Normalize_def split: if_splits sum.splits
      dest: place_loop_found[OF assms(3)])

lemma provision_once_failed:
  assumes "provision_once st V S k req ex w = (Returned (Inl e), w')"
    and "trim_space k = k" and "k \<noteq> []" and "rows (sv_store w) k \<noteq> None"
  shows "rows (sv_store w') k = Some (None, ''error'')"
proof -
  let ?req = "\<lparr>pr_Pool = prov_Pool req, pr_Image = cr_Image (prov_Create req), ExcludedWorkerIDs = ex\<rparr>"
  obtain res w1 where p: "svc_Place st V S k ?req w = (res, w1)" by fastforce
  have live: "rows (sv_store w1) k \<noteq> None"
    using Place_err_rows[of V S k ?req w] Place_ok[of V S k ?req w _ w1] assms(2,4) p
    by (cases res) auto
  have nf: "\<not> errors_is x OrchErrSandboxNotFound" if "res = Inl x" for x
    using Place_found[OF assms(2-4)] p that by (metis fst_conv)
  note ok = release_live[OF live]
  note rows' = release_ok[OF release_live[OF live, of "''error''"]]
  show ?thesis
    using assms(1) p nf ok rows'
    by (auto simp: provision_once_def Let_def call_store_eq call_worker_def
        split: sum.splits if_splits option.splits)
qed

lemma provision_finish_failed:
  assumes "provision_finish st k pl resp w = (Inl e, w')"
    and "rows (sv_store w) k = Some (Some (WorkerID pl), ''provisioning'')"
  shows "rows (sv_store w') k = Some (None, ''error'')"
proof -
  have "fst (st_UpdatePlacementState st k (WorkerID pl) [''provisioning''] ''active'' (sv_store w)) = None"
    by (rule update_live[OF assms(2)]) simp
  moreover have "rows (snd (st_ReleasePlacement st k ''error'' (sv_store w))) k = Some (None, ''error'')"
    using release_ok release_live assms(2) by simp
  ultimately show ?thesis
    using assms(1) by (auto simp: provision_finish_def Let_def call_store_eq split: if_splits option.splits)
qed

lemma provision_loop_failed:
  assumes "provision_loop st V S k req fuel ex w = Some (Inl e, w')"
    and "trim_space k = k" and "k \<noteq> []" and "rows (sv_store w) k \<noteq> None"
  shows "rows (sv_store w') k = Some (None, ''error'')"
  using assms
proof (induction fuel arbitrary: ex w)
  case (Suc n)
  obtain x w1 where once: "provision_once st V S k req ex w = (x, w1)" by fastforce
  show ?case
  proof (cases x)
    case (Returned r)
    with once Suc.prems show ?thesis using provision_once_failed by auto
  next
    case (Created p resp)
    with once Suc.prems show ?thesis
      using provision_finish_failed provision_once_created[of V S k req ex w p resp w1] by auto
  next
    case (Rejected v)
    with provision_once_rejected(4)[of V S k req ex w v w1] once Suc.prems
    have "rows (sv_store w1) k \<noteq> None" by simp
    with once Rejected Suc.prems Suc.IH show ?thesis by auto
  qed
qed simp

text \<open>
  A sandbox that has a worker and is not active is not provisioned: its placement is released.
\<close>

lemma Provision_placed:
  assumes "workerClient_set S" and "k = trim_space (SandboxID (prov_Create req))" and "k \<noteq> []"
    and "Normalize (cr_Image (prov_Create req)) = Inr img"
    and "rows (sv_store w) k = Some (Some v, f)" and "f \<noteq> ''active''"
  shows "\<exists>e w'. svc_Provision st V S (Suc n) req w = Some (Inl e, w') \<and> sv_log w' = sv_log w
     \<and> rows (sv_store w') k = Some (None, ''error'')"
proof -
  let ?cr = "req\<lparr>prov_Create := (prov_Create req)\<lparr>cr_Image := img\<rparr>\<rparr>"
  let ?req = "\<lparr>pr_Pool = prov_Pool req, pr_Image = img, ExcludedWorkerIDs = []\<rparr>"
  have k: "trim_space k = k" using assms(2) by simp
  obtain e w1 where p: "svc_Place st V S k ?req w = (Inl e, w1)"
  proof (cases "svc_Place st V S k ?req w")
    case (Pair r w1)
    then show ?thesis using Place_ok[of V S k ?req w _ w1] assms(5,6) k that by (cases r) auto
  qed
  have nf: "\<not> errors_is e OrchErrSandboxNotFound"
    using Place_found[OF k assms(3), of w V S ?req e] p assms(5) by simp
  have rows1: "rows (sv_store w1) = rows (sv_store w)" and log1: "sv_log w1 = sv_log w"
    using Place_err_rows[of V S k ?req w e] Place_log[of V S k ?req w] p by auto
  have live: "fst (st_ReleasePlacement st k ''error'' (sv_store w1)) = None"
    by (rule release_live) (simp add: rows1 assms(5))
  have "provision_once st V S k ?cr [] w
      = (Returned (Inl e), w1\<lparr>sv_store := snd (st_ReleasePlacement st k ''error'' (sv_store w1))\<rparr>)"
    using p nf live by (simp add: provision_once_def call_store_eq)
  with release_ok[OF live] log1 assms(1-4) show ?thesis
    by (simp add: svc_Provision_def)
qed

lemma Provision_failed:
  assumes "svc_Provision st V S fuel req w = Some (Inl e, w')" and "workerClient_set S"
    and "k = trim_space (SandboxID (prov_Create req))" and "k \<noteq> []"
    and "Normalize (cr_Image (prov_Create req)) = Inr img" and "rows (sv_store w) k \<noteq> None"
  shows "rows (sv_store w') k = Some (None, ''error'')"
  using assms provision_loop_failed[of V S k _ fuel "[]" w e w']
  by (auto simp: svc_Provision_def Let_def)

end

section \<open>The durable store meets the contract\<close>

lemma run_tx_err_Some: "fst (run_tx_err d r) = Some e \<Longrightarrow> view (snd (run_tx_err d r)) = view d"
  by (cases r) (auto simp: run_tx_err_def)

lemma run_tx_err_None: "fst (run_tx_err d r) = None \<Longrightarrow> \<exists>d'. r = Inr d' \<and> snd (run_tx_err d r) = end_call d'"
  by (cases r) (auto simp: run_tx_err_def)

lemma store_err_view:
  "fst (UpdatePlacementState E k v fs f d) = Some e \<Longrightarrow> view (snd (UpdatePlacementState E k v fs f d)) = view d"
  "fst (PausePlacement E k v d) = Some e \<Longrightarrow> view (snd (PausePlacement E k v d)) = view d"
  "fst (ReserveResume_placement E k v pol t d) = Some e
     \<Longrightarrow> view (snd (ReserveResume_placement E k v pol t d)) = view d"
  "fst (CancelResume E k v d) = Some e \<Longrightarrow> view (snd (CancelResume E k v d)) = view d"
  "fst (ReleasePlacement E k f d) = Some e \<Longrightarrow> view (snd (ReleasePlacement E k f d)) = view d"
  unfolding UpdatePlacementState_def PausePlacement_def ReserveResume_placement_def CancelResume_def
    ReleasePlacement_def release_placement_def
  by (rule run_tx_err_Some, assumption)+

lemma view_fun_upd:
  "view (set_row k row d) = (view d)(k \<mapsto> (sb_host_id row, sb_state row))"
  by (simp add: fun_eq_iff)

lemma view_fun_same: "mget (sandboxes d) k = Some row \<Longrightarrow> (view d)(k \<mapsto> (sb_host_id row, sb_state row)) = view d"
  by (auto simp: fun_eq_iff view_def)

lemma UpdatePlacementState_ok:
  assumes "fst (UpdatePlacementState E k v fs f d) = None"
  shows "view (snd (UpdatePlacementState E k v fs f d)) = (view d)(k \<mapsto> (Some v, f))
     \<and> (\<exists>g. view d k = Some (Some v, g) \<and> (g \<in> set fs \<or> g = f))"
  using run_tx_err_None[OF assms[unfolded UpdatePlacementState_def]]
  unfolding UpdatePlacementState_def
  by (auto simp: ebind_iffs Let_def view_fun_upd view_def fun_eq_iff split: option.splits if_splits)

lemma PausePlacement_ok:
  assumes "fst (PausePlacement E k v d) = None"
  shows "view (snd (PausePlacement E k v d)) = (view d)(k \<mapsto> (Some v, ''paused''))"
  using run_tx_err_None[OF assms[unfolded PausePlacement_def]]
  unfolding PausePlacement_def
  by (auto simp: ebind_iffs Let_def view_fun_upd view_def fun_eq_iff split: if_splits dest!: lock_sandbox_Inr)

lemma CancelResume_ok:
  assumes "fst (CancelResume E k v d) = None"
  shows "view (snd (CancelResume E k v d)) = (view d)(k \<mapsto> (Some v, ''paused''))"
  using run_tx_err_None[OF assms[unfolded CancelResume_def]]
  unfolding CancelResume_def
  by (auto simp: ebind_iffs Let_def view_fun_upd view_def fun_eq_iff split: if_splits dest!: lock_sandbox_Inr)

lemma ReserveResume_ok:
  assumes "fst (ReserveResume_placement E k v pol t d) = None"
  shows "\<exists>f. view d k = Some (Some v, f) \<and>
     (f \<in> {''active'', ''resuming''} \<and> view (snd (ReserveResume_placement E k v pol t d)) = view d
      \<or> f = ''paused'' \<and> view (snd (ReserveResume_placement E k v pol t d))
          = (view d)(k \<mapsto> (Some v, ''resuming'')))"
  using run_tx_err_None[OF assms[unfolded ReserveResume_placement_def]]
  unfolding ReserveResume_placement_def
  by (auto simp: ebind_iffs Let_def view_fun_upd view_SomeI split: if_splits dest!: lock_sandbox_Inr)

lemma ReleasePlacement_ok:
  assumes "fst (ReleasePlacement E k f d) = None" and "f \<noteq> []"
  shows "view (snd (ReleasePlacement E k f d)) = (view d)(k \<mapsto> (None, f))"
  using run_tx_err_None[OF assms(1)[unfolded ReleasePlacement_def release_placement_def]] assms(2)
  unfolding ReleasePlacement_def release_placement_def
  by (auto simp: ebind_iffs Let_def view_fun_upd split: if_splits option.splits dest!: lock_sandbox_Inr)

lemma GetPlacement_view [simp]: "view (snd (GetPlacement E k d)) = view d"
  by (auto simp: GetPlacement_def run_tx_def ebind_iffs split: sum.splits)

definition host_ids :: "db \<Rightarrow> string set" where
  "host_ids d = set (mkeys (worker_hosts d))"

lemma GetPlacement_none:
  "fst (GetPlacement E k d) = Inr None \<Longrightarrow> view d k = Some (Some v, f) \<Longrightarrow> v \<notin> host_ids d"
  by (auto simp: GetPlacement_def run_tx_def ebind_iffs view_def host_ids_def map_of_eq_None_iff
      split: sum.splits option.splits)

lemma GetPlacement_found:
  "fst (GetPlacement E k d) = Inr (Some pl) \<Longrightarrow> view d k = Some (Some (WorkerID pl), pl_State pl)"
  by (auto simp: GetPlacement_def run_tx_def ebind_iffs view_def split: sum.splits option.splits)

lemma host_ids_simps [simp]:
  "host_ids (end_call d) = host_ids d" "host_ids (set_row k row d) = host_ids d"
  by (simp_all add: host_ids_def)

lemma ReleasePlacement_hosts: "host_ids (snd (ReleasePlacement E k f d)) = host_ids d"
  unfolding ReleasePlacement_def release_placement_def run_tx_err_def
  by (auto split: sum.splits simp: ebind_iffs split: if_splits option.splits)

lemma ReservePlacement_laws:
  "host_ids (snd (ReservePlacement E k req pol t d)) = host_ids d"
  "fst (ReservePlacement E k req pol t d) = Inl e \<Longrightarrow> view (snd (ReservePlacement E k req pol t d)) = view d"
  by (cases rule: ReservePlacement_cases[of E k req pol t d]; simp)+

lemma ReservePlacement_ok:
  assumes "ReservePlacement E k req pol t d = (Inr pl, d')"
  shows "pl_SandboxID pl = k \<and>
    (pl_State pl = ''active'' \<and> view d k = Some (Some (WorkerID pl), ''active'') \<and> view d' = view d
     \<or> pl_State pl = ''provisioning'' \<and> WorkerID pl \<in> host_ids d
       \<and> WorkerID pl \<notin> set (ExcludedWorkerIDs req)
       \<and> (\<exists>f. view d k = Some (None, f))
       \<and> view d' = (view d)(k \<mapsto> (Some (WorkerID pl), ''provisioning'')))"
proof (cases rule: ReservePlacement_cases[of E k req pol t d])
  case (placed row v h)
  from select_worker_in[OF placed(3)] have "v \<in> host_ids d" "v \<notin> set (ExcludedWorkerIDs req)"
    by (force simp: host_ids_def, simp add: eligible_def Let_def)
  with assms placed show ?thesis by (auto simp: view_fun_upd view_SomeI)
qed (use assms in \<open>auto simp: view_SomeI\<close>)

lemma ReservePlacement_placed:
  assumes "view d k = Some (Some v, f)" and "f \<noteq> ''active''"
  shows "\<exists>e. fst (ReservePlacement E k req pol t d) = Inl e"
  using assms by (cases rule: ReservePlacement_cases[of E k req pol t d]) (auto simp: view_SomeI)

interpretation cs: placement_store "Client_Store E" view host_ids for E
proof unfold_locales
  show "finite (host_ids s)" for s by (simp add: host_ids_def)
qed (simp_all add: Client_Store_def ReservePlacement_laws ReservePlacement_ok ReservePlacement_placed
    GetPlacement_found GetPlacement_none store_err_view UpdatePlacementState_ok PausePlacement_ok ReserveResume_ok[simplified]
    CancelResume_ok ReleasePlacement_ok ReleasePlacement_hosts)

definition reliable :: "db_env \<Rightarrow> db_env" where
  "reliable E = E\<lparr>db_fault := \<lambda>_ _. None\<rparr>"

lemma reliable_id: "db_fault E = (\<lambda>_ _. None) \<Longrightarrow> reliable E = E"
  by (simp add: reliable_def)

lemma reliable_stmt [simp]: "stmt (reliable E) d l m = Inr ()" "commit_only (reliable E) d = Inr ()"
  by (simp_all add: stmt_def commit_only_def reliable_def)

lemma reliable_lock [simp]:
  "lock_sandbox (reliable E) d k m = (case mget (sandboxes d) k of
     None \<Rightarrow> Inl (Sentinel OrchErrSandboxNotFound) | Some row \<Rightarrow> Inr row)"
  by (simp add: lock_sandbox_def)

lemma view_Some_iff: "view d k = Some p \<longleftrightarrow> (\<exists>row. mget (sandboxes d) k = Some row \<and> p = (sb_host_id row, sb_state row))"
  by (auto simp: view_def)

lemma ReleasePlacement_live: "view d k \<noteq> None \<Longrightarrow> fst (ReleasePlacement (reliable E) k f d) = None"
  by (auto simp: ReleasePlacement_def release_placement_def run_tx_err_def view_Some_iff
      split: option.splits)

lemma UpdatePlacementState_live:
  "view d k = Some (Some v, g) \<Longrightarrow> g \<in> set fs \<Longrightarrow> fst (UpdatePlacementState (reliable E) k v fs f d) = None"
  by (auto simp: UpdatePlacementState_def run_tx_err_def view_Some_iff)

lemma ReservePlacement_found:
  assumes "view d k \<noteq> None" and "fst (ReservePlacement (reliable E) k req pol t d) = Inl e"
  shows "\<not> errors_is e OrchErrSandboxNotFound"
  using assms
  by (auto simp: ReservePlacement_def existing_placement_def run_tx_def view_Some_iff ebind_iffs guarded_def
      split: option.splits if_splits sum.splits)

interpretation rs: reliable_store "Client_Store (reliable E)" view host_ids for E
proof unfold_locales
qed (use ReservePlacement_found ReleasePlacement_live UpdatePlacementState_live in
    \<open>auto simp: Client_Store_def\<close>)

section \<open>The lifecycle calls on the durable store\<close>

text \<open>
  C26: Provisioning ends: it needs at most one round more than there are registered workers.
  When no database statement fails, a worker client is configured, the request has an identifier and a valid image and the sandbox has a
  row, it also settles the sandbox: on success the row names the worker
  of the answer and is \<open>active\<close>; on every failure, a capacity rejection by all workers
  included, the row is back to no worker and \<open>error\<close>, so no capacity stays reserved.
\<close>

theorem provision_settles:
  assumes "db_fault E = (\<lambda>_ _. None)" and "workerClient_set S"
    and "k = trim_space (SandboxID (prov_Create req))" and "k \<noteq> []"
    and "Normalize (cr_Image (prov_Create req)) = Inr img" and "view (sv_store w) k \<noteq> None"
    and "card (host_ids (sv_store w)) < fuel"
  shows "case svc_Provision (Client_Store E) V S fuel req w of
      None \<Rightarrow> False
    | Some (Inr pl, w') \<Rightarrow> view (sv_store w') k = Some (Some (WorkerID pl), ''active'')
    | Some (Inl e, w') \<Rightarrow> view (sv_store w') k = Some (None, ''error'')"
proof -
  obtain r w' where r: "svc_Provision (Client_Store E) V S fuel req w = Some (r, w')"
    using cs.Provision_returns[OF assms(7), of E V S req] by auto
  show ?thesis
  proof (cases r)
    case (Inl e)
    with rs.Provision_failed[of E V S fuel req w e w' k img] r assms show ?thesis
      by (simp add: reliable_id)
  next
    case (Inr pl)
    with cs.Provision_ok[of E V S fuel req w pl w'] r assms(3) show ?thesis by simp
  qed
qed

text \<open>
  C27: With any pattern of database and worker failures, provisioning never walks away from a
  create call whose outcome is unknown: the next call it makes is a destroy of the sandbox on
  the same worker; and whenever it reports success the durable row is \<open>active\<close> on the worker of
  the answer.
\<close>

theorem provision_cleans_up:
  "case svc_Provision (Client_Store E) V S fuel req w of
      None \<Rightarrow> fuel \<le> card (host_ids (sv_store w))
    | Some (r, w') \<Rightarrow>
        cleans_up V (trim_space (SandboxID (prov_Create req))) (length (sv_log w)) (sv_log w')
        \<and> (case r of Inl e \<Rightarrow> True | Inr pl \<Rightarrow>
             view (sv_store w') (trim_space (SandboxID (prov_Create req)))
               = Some (Some (WorkerID pl), ''active''))"
proof (cases "svc_Provision (Client_Store E) V S fuel req w")
  case None
  with cs.Provision_returns[of w fuel E V S req] show ?thesis by (cases "card (host_ids (sv_store w)) < fuel") auto
next
  case (Some x)
  obtain r w' where x: "x = (r, w')" by fastforce
  from cs.Provision_log[OF Some[unfolded x]] cs.Provision_ok[of E V S fuel req w _ w'] Some x
  show ?thesis by (auto split: sum.splits)
qed

text \<open>
  A pause marks the durable row \<open>paused\<close> only after the worker confirmed it, and a pause
  that fails, on the worker or in the database, leaves every row as it was.
\<close>

theorem pause_follows_worker:
  "case svc_Pause (Client_Store E) V S k w of
      (Some e, w') \<Rightarrow> view (sv_store w') = view (sv_store w)
    | (None, w') \<Rightarrow> \<exists>v ep. view (sv_store w') = (view (sv_store w))(k \<mapsto> (Some v, ''paused''))
        \<and> sv_log w' = sv_log w @ [WPause ep k] \<and> wc_pause V (length (sv_log w)) ep k = None"
  using cs.Pause_cases[of E V S k w] by (auto split: prod.splits option.splits)

text \<open>
  A resume that succeeds leaves the row \<open>active\<close>. A resume that fails leaves the rows as
  they were, or the sandbox in \<open>resuming\<close> with its capacity still reserved, or returns it to
  \<open>paused\<close> after the worker confirmed the cleanup pause.
\<close>

theorem failed_resume_keeps_reservation:
  "case svc_Resume (Client_Store E) V S k w of
      (Some e, w') \<Rightarrow> view (sv_store w') = view (sv_store w)
        \<or> (\<exists>v. view (sv_store w) k = Some (Some v, ''paused'')
              \<and> view (sv_store w') = (view (sv_store w))(k \<mapsto> (Some v, ''resuming''))
              \<and> sv_log w' \<noteq> sv_log w)
        \<or> (\<exists>v ep. view (sv_store w') = (view (sv_store w))(k \<mapsto> (Some v, ''paused''))
              \<and> sv_log w' = sv_log w @ [WResume ep k, WPause ep k]
              \<and> wc_pause V (Suc (length (sv_log w))) ep k = None)
    | (None, w') \<Rightarrow> \<exists>v ep. view (sv_store w') k = Some (Some v, ''active'')
        \<and> sv_log w' = sv_log w @ [WResume ep k] \<and> wc_resume V (length (sv_log w)) ep k = None"
  using cs.Resume_failed[of E V S k w] cs.Resume_ok[of E V S k w]
  by (auto split: prod.splits option.splits)

text \<open>
  A destroy that reports success leaves the row \<open>destroyed\<close> without a worker, and, where
  the sandbox was on a registered worker, only after a worker confirmed the destroy or did not know the
  sandbox. A destroy that fails never takes the worker from the row: at most it marks the row
  \<open>destroying\<close>, so it can be repeated.
\<close>

theorem destroy_keeps_or_releases:
  "case svc_Destroy (Client_Store E) V S k w of
      (None, w') \<Rightarrow> view (sv_store w') k = Some (None, ''destroyed'')
        \<and> (sv_log w' = sv_log w
             \<and> (\<forall>v f. view (sv_store w) k = Some (Some v, f) \<longrightarrow> v \<notin> host_ids (sv_store w))
           \<or> (\<exists>ep. sv_log w' = sv_log w @ [WDestroy ep k]
                  \<and> destroy_confirmed V (length (sv_log w)) ep k))
    | (Some e, w') \<Rightarrow> view (sv_store w') = view (sv_store w)
        \<or> (\<exists>v f. view (sv_store w) k = Some (Some v, f)
              \<and> view (sv_store w') = (view (sv_store w))(k \<mapsto> (Some v, ''destroying'')))"
  using cs.Destroy_ok[of E V S k w] cs.Destroy_failed[of E V S k w]
  by (auto split: prod.splits option.splits)

text \<open>
  Provisioning a sandbox that is on a worker and paused, or being provisioned, resumed or
  destroyed by another request, takes it off that worker: the row ends without a worker in
  \<open>error\<close> and no call has been made to the worker that still runs or stores it.
\<close>

theorem provision_drops_live_placement:
  assumes "db_fault E = (\<lambda>_ _. None)" and "workerClient_set S"
    and "k = trim_space (SandboxID (prov_Create req))" and "k \<noteq> []"
    and "Normalize (cr_Image (prov_Create req)) = Inr img"
    and "view (sv_store w) k = Some (Some v, f)" and "f \<noteq> ''active''"
  shows "\<exists>e w'. svc_Provision (Client_Store E) V S (Suc n) req w = Some (Inl e, w')
     \<and> sv_log w' = sv_log w \<and> view (sv_store w') k = Some (None, ''error'')"
  using rs.Provision_placed[OF assms(2-7), of E V n] by (simp add: reliable_id[OF assms(1)])

section \<open>Concrete runs of the service\<close>

definition sample_create :: CreateRequest where
  "sample_create = \<lparr>SandboxID = ''sb1'', cr_UserID = ''u1'', cr_Image = ''alpine'',
     cr_BillingModel = ''payg'', cr_Env = [], cr_VCPUs = 1, cr_MemoryMB = 512, cr_DiskGB = 2,
     cr_Internet = False, cr_IdleTimeoutS = 300, cr_MaxLifetimeS = 3600\<rparr>"

text \<open>Worker \<open>w1\<close> is full and worker \<open>w2\<close> times out.\<close>

definition sample_svc_env :: svc_env where
  "sample_svc_env = \<lparr>sv_now = (\<lambda>n. 30 * second + 80), sv_rand = (\<lambda>n. 7), sv_ctx_done = (\<lambda>n d. None),
     sv_url_parse = (\<lambda>u. Inr (''http'', u)),
     wc_create = (\<lambda>n ep c. if ep = ''http://w1:9100'' then Inl (Sentinel PlaneErrNoCapacity)
        else Inl (ErrNew ''timeout'')),
     wc_pause = (\<lambda>n ep k. None), wc_resume = (\<lambda>n ep k. None), wc_destroy = (\<lambda>n ep k. None)\<rparr>"

definition sample_service :: Service where
  "sample_service = NewService 0 [WithWorkerClientFactory]"

definition sample_world :: "db world" where
  "sample_world = \<lparr>sv_store = sample_db, sv_log = [], sv_tick = 0\<rparr>"

definition sample_provision :: ProvisionRequest where
  "sample_provision = \<lparr>prov_Pool = ''default'', prov_Create = sample_create\<rparr>"

theorem provision_settles_witness:
  "\<exists>e w'. svc_Provision (Client_Store sample_env) sample_svc_env sample_service 4 sample_provision
        sample_world = Some (Inl e, w')
     \<and> view (sv_store w') ''sb1'' = Some (None, ''error'')
     \<and> sv_log w' = [WCreate ''http://w1:9100'' sample_create, WCreate ''http://w2:9100'' sample_create,
          WDestroy ''http://w2:9100'' ''sb1'']"
proof -
  have fault: "db_fault sample_env = (\<lambda>_ _. None)" by (simp add: sample_env_def)
  have client: "workerClient_set sample_service" by code_simp
  have ident: "''sb1'' = trim_space (SandboxID (prov_Create sample_provision))" by code_simp
  have ne: "''sb1'' \<noteq> []" by simp
  have img: "Normalize (cr_Image (prov_Create sample_provision)) = Inr ''alpine''" by code_simp
  have row: "view (sv_store sample_world) ''sb1'' \<noteq> None" by code_simp
  have fuel: "card (host_ids (sv_store sample_world)) < 4" by code_simp
  have "case svc_Provision (Client_Store sample_env) sample_svc_env sample_service 4
        sample_provision sample_world of
      None \<Rightarrow> False
    | Some (Inr pl, w') \<Rightarrow> view (sv_store w') ''sb1'' = Some (Some (WorkerID pl), ''active'')
    | Some (Inl e, w') \<Rightarrow> view (sv_store w') ''sb1'' = Some (None, ''error'')"
    by (rule provision_settles[OF fault client ident ne img row fuel])
  moreover have "map_option (\<lambda>(r, w'). (r, sv_log w'))
      (svc_Provision (Client_Store sample_env) sample_svc_env sample_service 4 sample_provision sample_world)
    = Some (Inl (Wrapf ''provision sandbox on worker'' (ErrNew ''timeout'')),
        [WCreate ''http://w1:9100'' sample_create, WCreate ''http://w2:9100'' sample_create,
         WDestroy ''http://w2:9100'' ''sb1''])"
    by code_simp
  ultimately show ?thesis by auto
qed

definition sample_paused_world :: "db world" where
  "sample_paused_world = sample_world\<lparr>sv_store := set_row ''sb1''
     (sample_sandbox\<lparr>sb_host_id := Some ''w1'', sb_state := ''paused''\<rparr>) sample_db\<rparr>"

theorem provision_drops_live_placement_witness:
  "\<exists>e w'. svc_Provision (Client_Store sample_env) sample_svc_env sample_service (Suc 0)
        sample_provision sample_paused_world = Some (Inl e, w')
     \<and> sv_log w' = [] \<and> view (sv_store w') ''sb1'' = Some (None, ''error'')"
proof -
  have fault: "db_fault sample_env = (\<lambda>_ _. None)" by (simp add: sample_env_def)
  have client: "workerClient_set sample_service" by code_simp
  have ident: "''sb1'' = trim_space (SandboxID (prov_Create sample_provision))" by code_simp
  have ne: "''sb1'' \<noteq> []" by simp
  have img: "Normalize (cr_Image (prov_Create sample_provision)) = Inr ''alpine''" by code_simp
  have row: "view (sv_store sample_paused_world) ''sb1'' = Some (Some ''w1'', ''paused'')" by code_simp
  have lg: "sv_log sample_paused_world = []" by (simp add: sample_paused_world_def sample_world_def)
  have pz: "''paused'' \<noteq> ''active''" by simp
  from provision_drops_live_placement[OF fault client ident ne img row pz, of sample_svc_env 0] lg
  show ?thesis by metis
qed

theorem destroy_keeps_or_releases_witness:
  "\<exists>w'. svc_Destroy (Client_Store sample_env) sample_svc_env sample_service ''sb1'' sample_paused_world
       = (None, w')
     \<and> view (sv_store w') ''sb1'' = Some (None, ''destroyed'')
     \<and> sv_log w' = [WDestroy ''http://w1:9100'' ''sb1'']"
proof -
  let ?r = "svc_Destroy (Client_Store sample_env) sample_svc_env sample_service ''sb1'' sample_paused_world"
  have "fst ?r = None" "sv_log (snd ?r) = [WDestroy ''http://w1:9100'' ''sb1'']" by code_simp+
  then show ?thesis
    using destroy_keeps_or_releases[where E = sample_env and V = sample_svc_env and S = sample_service
        and k = "''sb1''" and w = sample_paused_world]
    by (auto split: prod.splits option.splits)
qed

end
