(* ===== verification/Admission.thy ===== *)
theory Admission
  imports Plane
begin

text \<open>
  The worker's capacity accounting: \<open>Admission\<close> of \<open>backend/internal/worker/admission.go\<close>, a
  mutex-protected map of reservations, and \<open>HostDiskCapacity\<close> of
  \<open>backend/internal/worker/disk_capacity.go\<close>, the provider of the schedulable disk. Every method
  holds the mutex from its first to its last statement, so one definition is one atomic step.
  The provider is a function of the reserved disk that may fail; \<open>statfs\<close> is an argument.
\<close>

section \<open>State and operations\<close>

record reservation =
  rv_vcpus :: int
  rv_memoryMB :: int
  rv_diskGB :: int
  rv_paused :: bool

record Admission =
  allocatableVCPUs :: int
  allocatableMemoryMB :: int
  allocatableDiskGB :: int
  maxSandboxes :: int
  reservations :: "(string, reservation) gomap"
  diskCapacity :: "(int \<Rightarrow> go_error + int) option"

definition SetDiskCapacityProvider :: "Admission \<Rightarrow> (int \<Rightarrow> go_error + int) \<Rightarrow> Admission" where
  "SetDiskCapacityProvider a provider = a\<lparr>diskCapacity := Some provider\<rparr>"

definition NewAdmission :: "int \<Rightarrow> int \<Rightarrow> int \<Rightarrow> int \<Rightarrow> rat \<Rightarrow> rat \<Rightarrow> Admission" where
  "NewAdmission vcpus memoryMB diskGB maxSb cpuRatio0 memoryRatio0 =
     (let cpuRatio = (if cpuRatio0 < 1 then 1 else cpuRatio0);
          memoryRatio = (if memoryRatio0 < 1 then 1 else memoryRatio0)
      in \<lparr>allocatableVCPUs = \<lfloor>of_int vcpus * cpuRatio\<rfloor>,
          allocatableMemoryMB = \<lfloor>of_int memoryMB * memoryRatio\<rfloor>,
          allocatableDiskGB = diskGB,
          maxSandboxes = maxSb,
          reservations = [],
          diskCapacity = None\<rparr>)"

definition active_vcpus :: "reservation \<Rightarrow> int" where
  "active_vcpus r = (if rv_paused r then 0 else rv_vcpus r)"

definition active_memoryMB :: "reservation \<Rightarrow> int" where
  "active_memoryMB r = (if rv_paused r then 0 else rv_memoryMB r)"

definition detected_disk :: "Admission \<Rightarrow> int \<Rightarrow> int option" where
  "detected_disk a reservedDiskGB =
     (case diskCapacity a of None \<Rightarrow> None
      | Some provider \<Rightarrow>
          (case provider reservedDiskGB of Inl _ \<Rightarrow> None
           | Inr detected \<Rightarrow> if detected > 0 then Some detected else None))"

definition capacityLocked :: "Admission \<Rightarrow> Capacity \<times> Admission" where
  "capacityLocked a =
     (let rs = reservations a;
          disk = msum rv_diskGB rs;
          a' = (case detected_disk a disk of None \<Rightarrow> a
                | Some detected \<Rightarrow> a\<lparr>allocatableDiskGB := detected\<rparr>);
          free = maxSandboxes a - int (length rs)
      in (\<lparr>FreeSlots = (if free < 0 then 0 else free),
           MaxSlots = maxSandboxes a,
           AllocatableVCPUs = allocatableVCPUs a,
           AllocatableMemoryMB = allocatableMemoryMB a,
           AllocatableDiskGB = allocatableDiskGB a',
           ReservedVCPUs = msum active_vcpus rs,
           ReservedMemoryMB = msum active_memoryMB rs,
           ReservedDiskGB = disk,
           ReservedSandboxes = int (length rs)\<rparr>, a'))"

definition ReserveCreate :: "Admission \<Rightarrow> CreateRequest \<Rightarrow> go_error option \<times> Admission" where
  "ReserveCreate a req =
     (case mget (reservations a) (SandboxID req) of
        Some existing \<Rightarrow>
          if rv_vcpus existing = cr_VCPUs req \<and> rv_memoryMB existing = cr_MemoryMB req
             \<and> rv_diskGB existing = cr_DiskGB req
          then (None, a)
          else (Some (ErrNew (''sandbox '' @ SandboxID req
                 @ '' already has a different reservation'')), a)
      | None \<Rightarrow>
          if cr_VCPUs req \<le> 0 \<or> cr_MemoryMB req \<le> 0 \<or> cr_DiskGB req \<le> 0
          then (Some (ErrNew ''sandbox resources must be positive''), a)
          else
            (let (capacity, a') = capacityLocked a in
             if FreeSlots capacity < 1
                \<or> AllocatableVCPUs capacity - ReservedVCPUs capacity < cr_VCPUs req
                \<or> AllocatableMemoryMB capacity - ReservedMemoryMB capacity < cr_MemoryMB req
                \<or> AllocatableDiskGB capacity - ReservedDiskGB capacity < cr_DiskGB req
             then (Some (Sentinel PlaneErrNoCapacity), a')
             else (None, a'\<lparr>reservations := mput (SandboxID req)
                     \<lparr>rv_vcpus = cr_VCPUs req, rv_memoryMB = cr_MemoryMB req,
                      rv_diskGB = cr_DiskGB req, rv_paused = False\<rparr> (reservations a')\<rparr>)))"

definition Restore :: "Admission \<Rightarrow> string \<Rightarrow> int \<Rightarrow> int \<Rightarrow> int \<Rightarrow> bool \<Rightarrow> Admission" where
  "Restore a sandboxID vcpus memoryMB diskGB paused =
     a\<lparr>reservations := mput sandboxID
        \<lparr>rv_vcpus = vcpus, rv_memoryMB = memoryMB, rv_diskGB = diskGB, rv_paused = paused\<rparr>
        (reservations a)\<rparr>"

definition ReserveResume :: "Admission \<Rightarrow> string \<Rightarrow> go_error option \<times> Admission" where
  "ReserveResume a sandboxID =
     (case mget (reservations a) sandboxID of
        None \<Rightarrow> (Some (ErrNew (''sandbox '' @ sandboxID @ '' has no local reservation'')), a)
      | Some item \<Rightarrow>
          if \<not> rv_paused item then (None, a)
          else
            (let (capacity, a') = capacityLocked a in
             if AllocatableVCPUs capacity - ReservedVCPUs capacity < rv_vcpus item
                \<or> AllocatableMemoryMB capacity - ReservedMemoryMB capacity < rv_memoryMB item
             then (Some (Sentinel PlaneErrNoCapacity), a')
             else (None, a'\<lparr>reservations :=
                     mput sandboxID (item\<lparr>rv_paused := False\<rparr>) (reservations a')\<rparr>)))"

definition MarkPaused :: "Admission \<Rightarrow> string \<Rightarrow> Admission" where
  "MarkPaused a sandboxID =
     (case mget (reservations a) sandboxID of None \<Rightarrow> a
      | Some item \<Rightarrow>
          a\<lparr>reservations := mput sandboxID (item\<lparr>rv_paused := True\<rparr>) (reservations a)\<rparr>)"

definition MarkActive :: "Admission \<Rightarrow> string \<Rightarrow> Admission" where
  "MarkActive a sandboxID =
     (case mget (reservations a) sandboxID of None \<Rightarrow> a
      | Some item \<Rightarrow>
          a\<lparr>reservations := mput sandboxID (item\<lparr>rv_paused := False\<rparr>) (reservations a)\<rparr>)"

definition Release :: "Admission \<Rightarrow> string \<Rightarrow> Admission" where
  "Release a sandboxID = a\<lparr>reservations := mdel sandboxID (reservations a)\<rparr>"

definition Capacity_of :: "Admission \<Rightarrow> Capacity \<times> Admission" where
  "Capacity_of a = capacityLocked a"

section \<open>Host disk capacity\<close>

record Statfs =
  st_Blocks :: "64 word"
  st_Bsize :: "64 word"
  st_Bavail :: "64 word"

record HostDiskCapacity =
  hd_path :: string
  hd_capGB :: int
  hd_reserveGB :: int

definition bytesPerGiB :: "64 word" where
  "bytesPerGiB = 2 ^ 30"

definition calculateDiskCapacityGB :: "int \<Rightarrow> int \<Rightarrow> int \<Rightarrow> int \<Rightarrow> int \<Rightarrow> int" where
  "calculateDiskCapacityGB totalGB availableGB reservedGB capGB reserveGB0 =
     (if totalGB \<le> 0 \<or> availableGB < 0 then 0
      else
        let reserveGB = (if reserveGB0 \<le> 0 then max (totalGB div 20) 10 else reserveGB0);
            byFreeSpace = availableGB + reservedGB - reserveGB;
            byTotalSize = totalGB - reserveGB;
            capacity = min byFreeSpace byTotalSize;
            capacity' = (if capGB > 0 then min capacity capGB else capacity)
        in if capacity' < 0 then 0 else capacity')"

definition CapacityGB ::
    "(string \<Rightarrow> go_error + Statfs) \<Rightarrow> HostDiskCapacity \<Rightarrow> int \<Rightarrow> go_error + int" where
  "CapacityGB statfs d reservedDiskGB =
     (case statfs (hd_path d) of
        Inl e \<Rightarrow> Inl (Wrapf (''stat worker filesystem '' @ quoted (hd_path d)) e)
      | Inr stat \<Rightarrow>
          (let totalGB = uint ((st_Blocks stat * st_Bsize stat) div bytesPerGiB);
               availableGB = uint ((st_Bavail stat * st_Bsize stat) div bytesPerGiB)
           in Inr (calculateDiskCapacityGB totalGB availableGB reservedDiskGB
                (hd_capGB d) (hd_reserveGB d))))"

section \<open>The capacity invariant\<close>

definition positive_shape :: "reservation \<Rightarrow> bool" where
  "positive_shape r \<longleftrightarrow> 0 < rv_vcpus r \<and> 0 < rv_memoryMB r \<and> 0 < rv_diskGB r"

definition adm_wf :: "Admission \<Rightarrow> bool" where
  "adm_wf a \<longleftrightarrow> mwf (reservations a)
     \<and> (\<forall>kv \<in> set (reservations a). positive_shape (snd kv))"

definition within_capacity :: "Admission \<Rightarrow> bool" where
  "within_capacity a \<longleftrightarrow>
     msum active_vcpus (reservations a) \<le> allocatableVCPUs a
     \<and> msum active_memoryMB (reservations a) \<le> allocatableMemoryMB a
     \<and> int (length (reservations a)) \<le> maxSandboxes a"

definition adm_inv :: "Admission \<Rightarrow> bool" where
  "adm_inv a \<longleftrightarrow> adm_wf a \<and> within_capacity a"

lemmas adm_inv_defs = adm_inv_def adm_wf_def within_capacity_def

lemma mput_values:
  "kv \<in> set (mput k v m) \<Longrightarrow> kv \<in> set m \<or> kv = (k, v)"
  by (induction m) (auto split: if_splits)

lemma mdel_values: "kv \<in> set (mdel k m) \<Longrightarrow> kv \<in> set m"
  by (induction m) (auto split: if_splits)

lemma capacityLocked_state [simp]:
  "reservations (snd (capacityLocked a)) = reservations a"
  "allocatableVCPUs (snd (capacityLocked a)) = allocatableVCPUs a"
  "allocatableMemoryMB (snd (capacityLocked a)) = allocatableMemoryMB a"
  "maxSandboxes (snd (capacityLocked a)) = maxSandboxes a"
  "diskCapacity (snd (capacityLocked a)) = diskCapacity a"
  by (simp_all add: capacityLocked_def Let_def split: option.split)

lemma capacityLocked_report [simp]:
  "AllocatableVCPUs (fst (capacityLocked a)) = allocatableVCPUs a"
  "AllocatableMemoryMB (fst (capacityLocked a)) = allocatableMemoryMB a"
  "AllocatableDiskGB (fst (capacityLocked a)) = allocatableDiskGB (snd (capacityLocked a))"
  "ReservedVCPUs (fst (capacityLocked a)) = msum active_vcpus (reservations a)"
  "ReservedMemoryMB (fst (capacityLocked a)) = msum active_memoryMB (reservations a)"
  "ReservedDiskGB (fst (capacityLocked a)) = msum rv_diskGB (reservations a)"
  "ReservedSandboxes (fst (capacityLocked a)) = int (length (reservations a))"
  "MaxSlots (fst (capacityLocked a)) = maxSandboxes a"
  "FreeSlots (fst (capacityLocked a)) = max 0 (maxSandboxes a - int (length (reservations a)))"
  by (simp_all add: capacityLocked_def Let_def)

lemma adm_inv_capacityLocked [simp]: "adm_inv (snd (capacityLocked a)) = adm_inv a"
  by (simp add: adm_inv_defs)

lemma active_nonneg:
  assumes "adm_wf a"
  shows "0 \<le> msum active_vcpus (reservations a)" "0 \<le> msum active_memoryMB (reservations a)"
    "0 \<le> msum rv_diskGB (reservations a)"
  using assms
  by (auto intro!: msum_nonneg simp: adm_wf_def positive_shape_def active_vcpus_def
      active_memoryMB_def less_imp_le dest!: bspec)

subsection \<open>What each operation does to the reservations\<close>

lemma ReserveCreate_cases:
  obtains (kept) r where "mget (reservations a) (SandboxID req) = Some r"
      "rv_vcpus r = cr_VCPUs req" "rv_memoryMB r = cr_MemoryMB req" "rv_diskGB r = cr_DiskGB req"
      "ReserveCreate a req = (None, a)"
  | (refused) e a' where "ReserveCreate a req = (Some e, a')" "reservations a' = reservations a"
      "a' = a \<or> a' = snd (capacityLocked a)"
  | (admitted) a' where "mget (reservations a) (SandboxID req) = None" "a' = snd (capacityLocked a)"
      "0 < cr_VCPUs req" "0 < cr_MemoryMB req" "0 < cr_DiskGB req"
      "msum active_vcpus (reservations a) + cr_VCPUs req \<le> allocatableVCPUs a"
      "msum active_memoryMB (reservations a) + cr_MemoryMB req \<le> allocatableMemoryMB a"
      "msum rv_diskGB (reservations a) + cr_DiskGB req \<le> allocatableDiskGB a'"
      "int (length (reservations a)) < maxSandboxes a"
      "ReserveCreate a req = (None, a'\<lparr>reservations := mput (SandboxID req)
         \<lparr>rv_vcpus = cr_VCPUs req, rv_memoryMB = cr_MemoryMB req, rv_diskGB = cr_DiskGB req,
          rv_paused = False\<rparr> (reservations a)\<rparr>)"
proof (cases "mget (reservations a) (SandboxID req)")
  case (Some r)
  show ?thesis
  proof (cases "rv_vcpus r = cr_VCPUs req \<and> rv_memoryMB r = cr_MemoryMB req
      \<and> rv_diskGB r = cr_DiskGB req")
    case True
    with Some show ?thesis using kept[of r] by (simp add: ReserveCreate_def)
  next
    case False
    with Some have "ReserveCreate a req = (Some (ErrNew (''sandbox '' @ SandboxID req
                 @ '' already has a different reservation'')), a)"
      by (auto simp: ReserveCreate_def)
    then show ?thesis using refused by simp
  qed
next
  case None
  let ?c = "fst (capacityLocked a)"
  show ?thesis
  proof (cases "cr_VCPUs req \<le> 0 \<or> cr_MemoryMB req \<le> 0 \<or> cr_DiskGB req \<le> 0")
    case True
    with None show ?thesis using refused by (auto simp: ReserveCreate_def)
  next
    case pos: False
    show ?thesis
    proof (cases "FreeSlots ?c < 1
        \<or> AllocatableVCPUs ?c - ReservedVCPUs ?c < cr_VCPUs req
        \<or> AllocatableMemoryMB ?c - ReservedMemoryMB ?c < cr_MemoryMB req
        \<or> AllocatableDiskGB ?c - ReservedDiskGB ?c < cr_DiskGB req")
      case True
      with None pos have "ReserveCreate a req = (Some (Sentinel PlaneErrNoCapacity), snd (capacityLocked a))"
        by (simp only: ReserveCreate_def option.case if_False split_beta Let_def if_True)
      then show ?thesis using refused by simp
    next
      case False
      with None pos show ?thesis
        by (intro admitted[of "snd (capacityLocked a)"])
          (auto simp: ReserveCreate_def split_beta Let_def)
    qed
  qed
qed

lemma ReserveResume_cases:
  obtains (kept) r where "mget (reservations a) k = Some r" "\<not> rv_paused r"
      "ReserveResume a k = (None, a)"
  | (refused) e a' where "ReserveResume a k = (Some e, a')" "reservations a' = reservations a"
      "a' = a \<or> a' = snd (capacityLocked a)"
  | (admitted) r where "mget (reservations a) k = Some r" "rv_paused r"
      "msum active_vcpus (reservations a) + rv_vcpus r \<le> allocatableVCPUs a"
      "msum active_memoryMB (reservations a) + rv_memoryMB r \<le> allocatableMemoryMB a"
      "ReserveResume a k = (None, (snd (capacityLocked a))\<lparr>reservations :=
         mput k (r\<lparr>rv_paused := False\<rparr>) (reservations a)\<rparr>)"
proof (cases "mget (reservations a) k")
  case None
  then show ?thesis using refused by (auto simp: ReserveResume_def)
next
  case (Some r)
  show ?thesis
  proof (cases "rv_paused r")
    case False
    with Some show ?thesis using kept[of r] by (simp add: ReserveResume_def)
  next
    case paused: True
    show ?thesis
    proof (cases "allocatableVCPUs a - msum active_vcpus (reservations a) < rv_vcpus r
        \<or> allocatableMemoryMB a - msum active_memoryMB (reservations a) < rv_memoryMB r")
      case True
      with Some paused have
        "ReserveResume a k = (Some (Sentinel PlaneErrNoCapacity), snd (capacityLocked a))"
        by (auto simp: ReserveResume_def split_beta Let_def)
      then show ?thesis using refused by simp
    next
      case False
      with Some paused show ?thesis
        by (intro admitted[of r]) (auto simp: ReserveResume_def split_beta Let_def)
    qed
  qed
qed

lemma adm_wf_mput:
  "adm_wf a \<Longrightarrow> positive_shape r \<Longrightarrow> adm_wf (a\<lparr>reservations := mput k r (reservations a)\<rparr>)"
  by (auto simp: adm_wf_def dest!: mput_values)

lemma adm_wf_shape: "adm_wf a \<Longrightarrow> mget (reservations a) k = Some r \<Longrightarrow> positive_shape r"
  by (auto simp: adm_wf_def dest!: mget_in_set)

lemma shape_paused [simp]: "positive_shape (r\<lparr>rv_paused := b\<rparr>) = positive_shape r"
  by (simp add: positive_shape_def)

lemma active_paused [simp]:
  "active_vcpus (r\<lparr>rv_paused := b\<rparr>) = (if b then 0 else rv_vcpus r)"
  "active_memoryMB (r\<lparr>rv_paused := b\<rparr>) = (if b then 0 else rv_memoryMB r)"
  by (simp_all add: active_vcpus_def active_memoryMB_def)

lemma active_le_shape:
  "positive_shape r \<Longrightarrow> 0 \<le> active_vcpus r \<and> 0 \<le> active_memoryMB r"
  by (simp add: positive_shape_def active_vcpus_def active_memoryMB_def)

subsection \<open>What is booked with a check\<close>

text \<open>
  \<open>MarkActive\<close> and \<open>Restore\<close> book without looking at the capacity. \<open>booked X f m\<close> is what the
  reservations of the sandboxes outside \<open>X\<close> take; \<open>tracked U R\<close> says that the CPUs and the memory of the running
  sandboxes outside \<open>U\<close>, and the number of the reservations outside \<open>R\<close>, are within the capacity.
\<close>

definition booked :: "string set \<Rightarrow> (reservation \<Rightarrow> int) \<Rightarrow> (string, reservation) gomap \<Rightarrow> int" where
  "booked X f m = sum_list (map (\<lambda>(k, r). if k \<in> X then 0 else f r) m)"

definition tracked :: "string set \<Rightarrow> string set \<Rightarrow> Admission \<Rightarrow> bool" where
  "tracked U R a \<longleftrightarrow> adm_wf a
     \<and> booked U active_vcpus (reservations a) \<le> allocatableVCPUs a
     \<and> booked U active_memoryMB (reservations a) \<le> allocatableMemoryMB a
     \<and> booked R (\<lambda>_. 1) (reservations a) \<le> maxSandboxes a"

lemma booked_none: "booked {} f m = msum f m"
  by (induction m) (auto simp: booked_def)

lemma booked_le: "(\<And>k r. (k, r) \<in> set m \<Longrightarrow> 0 \<le> f r) \<Longrightarrow> booked X f m \<le> msum f m"
proof (induction m)
  case (Cons kv m)
  have "0 \<le> f (snd kv)" using Cons.prems[of "fst kv" "snd kv"] by simp
  moreover have "booked X f m \<le> msum f m" by (rule Cons.IH) (use Cons.prems in auto)
  ultimately show ?case by (auto simp: booked_def split_beta)
qed (simp add: booked_def)

lemma booked_count: "booked X (\<lambda>_. 1) m \<le> int (length m)"
  by (induction m) (auto simp: booked_def)

lemma booked_split:
  "mwf m \<Longrightarrow> booked X f m = booked X f (mdel k m) + (case mget m k of None \<Rightarrow> 0 | Some r \<Rightarrow> if k \<in> X then 0 else f r)"
proof (induction m)
  case (Cons kv m)
  have k: "mget m (fst kv) = None" and m: "mwf m" using Cons.prems by (auto simp: mwf_def map_of_eq_None_iff)
  show ?case
  proof (cases "fst kv = k")
    case True
    then show ?thesis using k mdel_idle[OF k] by (cases kv) (simp add: booked_def)
  next
    case False
    then show ?thesis using Cons.IH[OF m] by (cases kv) (simp add: booked_def)
  qed
qed (simp add: booked_def)

lemma booked_others:
  assumes "X - {k} = Y - {k}"
  shows "booked X f (mdel k m) = booked Y f (mdel k m)"
proof -
  have "(j \<in> X) = (j \<in> Y)" if "j \<noteq> k" for j using assms that by blast
  then show ?thesis by (induction m) (simp_all add: booked_def split_beta)
qed

lemma mdel_mput: "mdel k (mput k v m) = mdel k m"
  by (induction m) (auto simp: AList.delete_eq)

lemma booked_mput:
  assumes "mwf m" "X - {k} = Y - {k}"
  shows "booked Y f (mput k v m) = booked X f m - (case mget m k of None \<Rightarrow> 0 | Some r \<Rightarrow> if k \<in> X then 0 else f r)
           + (if k \<in> Y then 0 else f v)"
  using booked_split[OF assms(1), of X f k] booked_split[OF mwf_mput[OF assms(1), of k v], of Y f k] booked_others[OF assms(2), of f m]
  by (simp add: mdel_mput)

lemma booked_mdel:
  assumes "mwf m"
  shows "booked (X - {k}) f (mdel k m) = booked X f m - (case mget m k of None \<Rightarrow> 0 | Some r \<Rightarrow> if k \<in> X then 0 else f r)"
  using booked_split[OF assms, of X f k] booked_others[of "X - {k}" k X f m] by simp

lemma active_booked_le:
  assumes "adm_wf a"
  shows "booked X active_vcpus (reservations a) \<le> msum active_vcpus (reservations a)"
    "booked X active_memoryMB (reservations a) \<le> msum active_memoryMB (reservations a)"
  using assms active_le_shape by (fastforce intro!: booked_le simp: adm_wf_def)+

lemma tracked_capacityLocked [simp]: "tracked U R (snd (capacityLocked a)) = tracked U R a"
  by (simp add: tracked_def adm_wf_def)

subsection \<open>Preservation\<close>

lemma tracked_ReserveCreate: "tracked U R a \<Longrightarrow> tracked U R (snd (ReserveCreate a req))"
proof (cases rule: ReserveCreate_cases[of a req])
  case (admitted a')
  let ?r = "\<lparr>rv_vcpus = cr_VCPUs req, rv_memoryMB = cr_MemoryMB req, rv_diskGB = cr_DiskGB req, rv_paused = False\<rparr>"
  assume t: "tracked U R a"
  then have wf: "adm_wf a" "mwf (reservations a)" by (simp_all add: tracked_def adm_wf_def)
  have "adm_wf (a\<lparr>reservations := mput (SandboxID req) ?r (reservations a)\<rparr>)"
    by (rule adm_wf_mput[OF wf(1)]) (use admitted(3-5) in \<open>simp add: positive_shape_def\<close>)
  then show ?thesis
    using admitted t active_booked_le[OF wf(1), of U] booked_count[of R "reservations a"]
    by (simp add: tracked_def adm_wf_def booked_mput[OF wf(2) refl] active_vcpus_def active_memoryMB_def)
qed auto

lemma tracked_repaint:
  assumes t: "tracked U R a" and r: "mget (reservations a) k = Some r" and U: "U - {k} = V - {k}"
    and v: "k \<in> V \<or> booked U active_vcpus (reservations a) - (if k \<in> U then 0 else active_vcpus r) + (if b then 0 else rv_vcpus r) \<le> allocatableVCPUs a"
    and m: "k \<in> V \<or> booked U active_memoryMB (reservations a) - (if k \<in> U then 0 else active_memoryMB r) + (if b then 0 else rv_memoryMB r) \<le> allocatableMemoryMB a"
  shows "tracked V R (a\<lparr>reservations := mput k (r\<lparr>rv_paused := b\<rparr>) (reservations a)\<rparr>)"
proof -
  have wf: "adm_wf a" "mwf (reservations a)" "positive_shape r" using t r adm_wf_shape by (auto simp: tracked_def adm_wf_def)
  have "adm_wf (a\<lparr>reservations := mput k (r\<lparr>rv_paused := b\<rparr>) (reservations a)\<rparr>)" by (rule adm_wf_mput[OF wf(1)]) (use wf(3) in simp)
  then show ?thesis
    using t r v m active_le_shape[OF wf(3)]
    by (auto simp: tracked_def booked_mput[OF wf(2) U] booked_mput[OF wf(2) refl, of R])
qed

lemma tracked_ReserveResume: "tracked U R a \<Longrightarrow> tracked U R (snd (ReserveResume a k))"
proof (cases rule: ReserveResume_cases[of a k])
  case (admitted r)
  assume t: "tracked U R a"
  then have "adm_wf a" by (simp add: tracked_def)
  note le = active_booked_le[OF this, of U]
  have "tracked U R ((snd (capacityLocked a))\<lparr>reservations := mput k (r\<lparr>rv_paused := False\<rparr>) (reservations (snd (capacityLocked a)))\<rparr>)"
    by (rule tracked_repaint) (use t admitted le in \<open>auto simp: active_vcpus_def active_memoryMB_def\<close>)
  then show ?thesis using admitted(5) by simp
qed auto

lemma tracked_MarkPaused: "tracked U R a \<Longrightarrow> tracked (U - {k}) R (MarkPaused a k)"
proof (cases "mget (reservations a) k")
  case None
  assume t: "tracked U R a"
  then have "mwf (reservations a)" by (simp add: tracked_def adm_wf_def)
  from booked_mdel[OF this, of U k] None show ?thesis using t by (simp add: MarkPaused_def tracked_def mdel_idle)
next
  case (Some r)
  assume t: "tracked U R a"
  then have "positive_shape r" using Some adm_wf_shape by (auto simp: tracked_def)
  note le = active_le_shape[OF this]
  have "tracked (U - {k}) R (a\<lparr>reservations := mput k (r\<lparr>rv_paused := True\<rparr>) (reservations a)\<rparr>)"
    by (intro tracked_repaint[OF t Some]) (use t le in \<open>auto simp: tracked_def\<close>)
  then show ?thesis using Some by (simp add: MarkPaused_def)
qed

definition paused_in :: "(string \<Rightarrow> reservation option) \<Rightarrow> string \<Rightarrow> bool" where
  "paused_in h k \<longleftrightarrow> (case h k of None \<Rightarrow> False | Some r \<Rightarrow> rv_paused r)"

lemma tracked_MarkActive:
  assumes t: "tracked U R a"
  shows "tracked (if paused_in (mget (reservations a)) k then insert k U else U) R (MarkActive a k)"
proof (cases "mget (reservations a) k")
  case (Some r)
  show ?thesis
  proof (cases "rv_paused r")
    case True
    have "tracked (insert k U) R (a\<lparr>reservations := mput k (r\<lparr>rv_paused := False\<rparr>) (reservations a)\<rparr>)"
      by (intro tracked_repaint[OF t Some]) auto
    then show ?thesis using Some True by (simp add: MarkActive_def paused_in_def)
  next
    case False
    then show ?thesis using Some t by (simp add: MarkActive_def mput_same paused_in_def)
  qed
qed (use t in \<open>simp add: MarkActive_def paused_in_def\<close>)

lemma tracked_Restore:
  assumes t: "tracked U R a" and pos: "0 < vcpus" "0 < memoryMB" "0 < diskGB"
  shows "tracked (if paused then U - {k} else insert k U) (insert k R) (Restore a k vcpus memoryMB diskGB paused)"
proof -
  let ?r = "\<lparr>rv_vcpus = vcpus, rv_memoryMB = memoryMB, rv_diskGB = diskGB, rv_paused = paused\<rparr>"
  have wf: "adm_wf a" "mwf (reservations a)" using t by (simp_all add: tracked_def adm_wf_def)
  have new: "adm_wf (a\<lparr>reservations := mput k ?r (reservations a)\<rparr>)" by (rule adm_wf_mput[OF wf(1)]) (use pos in \<open>simp add: positive_shape_def\<close>)
  have old: "0 \<le> (case mget (reservations a) k of None \<Rightarrow> 0 | Some r \<Rightarrow> if k \<in> U then 0 else active_vcpus r)"
    "0 \<le> (case mget (reservations a) k of None \<Rightarrow> 0 | Some r \<Rightarrow> if k \<in> U then 0 else active_memoryMB r)"
    using adm_wf_shape[OF wf(1)] active_le_shape by (auto split: option.split)
  have one: "0 \<le> (case mget (reservations a) k of None \<Rightarrow> 0 | Some r \<Rightarrow> if k \<in> R then 0 else (1 :: int))" by (auto split: option.split)
  have V: "U - {k} = (if paused then U - {k} else insert k U) - {k}" and W: "R - {k} = insert k R - {k}" by auto
  show ?thesis
    using t new old one
    by (simp add: Restore_def tracked_def booked_mput[OF wf(2) V] booked_mput[OF wf(2) W] active_vcpus_def active_memoryMB_def)
qed

lemma tracked_Release: "tracked U R a \<Longrightarrow> tracked (U - {k}) (R - {k}) (Release a k)"
proof -
  assume t: "tracked U R a"
  then have wf: "adm_wf a" "mwf (reservations a)" by (simp_all add: tracked_def adm_wf_def)
  have "adm_wf (Release a k)" using wf by (auto simp: adm_wf_def Release_def dest!: mdel_values)
  moreover have "0 \<le> (case mget (reservations a) k of None \<Rightarrow> 0 | Some r \<Rightarrow> if k \<in> U then 0 else active_vcpus r)"
    "0 \<le> (case mget (reservations a) k of None \<Rightarrow> 0 | Some r \<Rightarrow> if k \<in> U then 0 else active_memoryMB r)"
    "0 \<le> (case mget (reservations a) k of None \<Rightarrow> 0 | Some r \<Rightarrow> if k \<in> R then 0 else (1 :: int))"
    using adm_wf_shape[OF wf(1)] active_le_shape by (auto split: option.split)
  ultimately show ?thesis using t by (simp add: Release_def tracked_def booked_mdel[OF wf(2)])
qed

lemma tracked_SetDiskCapacityProvider: "tracked U R a \<Longrightarrow> tracked U R (SetDiskCapacityProvider a p)"
  by (simp add: SetDiskCapacityProvider_def tracked_def adm_wf_def)

lemma tracked_NewAdmission:
  "0 \<le> vcpus \<Longrightarrow> 0 \<le> mem \<Longrightarrow> 0 \<le> maxSb \<Longrightarrow> tracked {} {} (NewAdmission vcpus mem disk maxSb cpuRatio memRatio)"
  by (auto simp: NewAdmission_def tracked_def adm_wf_def booked_def Let_def)

lemma adm_wf_MarkActive: "adm_wf a \<Longrightarrow> adm_wf (MarkActive a k)"
  by (auto simp: MarkActive_def intro!: adm_wf_mput split: option.split dest: adm_wf_shape)

lemma MarkActive_idle:
  "mget (reservations a) k = Some r \<Longrightarrow> \<not> rv_paused r \<Longrightarrow> MarkActive a k = a"
  by (simp add: MarkActive_def mput_same)

section \<open>The interface the worker server relies on\<close>

text \<open>
  The calls the worker makes on its ledger, all of them, and changes of the filesystem under it. \<open>ghost_step\<close> keeps the two sets of
  sandboxes that took something unchecked: the first the ones that run without a check of the CPUs and the memory (a paused one that
  is marked active, or one restored running), until they are paused or released; the second the ones whose reservation was entered by
  \<open>Restore\<close>, until they are released.
\<close>

datatype adm_op =
    AdmReserve CreateRequest
  | AdmResume string
  | AdmPause string
  | AdmActive string
  | AdmRestore string int int int bool
  | AdmRelease string
  | AdmDisk "int \<Rightarrow> go_error + int"
  | AdmCapacity

primrec ledger_step ::
    "('a \<Rightarrow> CreateRequest \<Rightarrow> go_error option \<times> 'a) \<Rightarrow> ('a \<Rightarrow> string \<Rightarrow> go_error option \<times> 'a)
     \<Rightarrow> ('a \<Rightarrow> string \<Rightarrow> 'a) \<Rightarrow> ('a \<Rightarrow> string \<Rightarrow> 'a) \<Rightarrow> ('a \<Rightarrow> string \<Rightarrow> int \<Rightarrow> int \<Rightarrow> int \<Rightarrow> bool \<Rightarrow> 'a)
     \<Rightarrow> ('a \<Rightarrow> string \<Rightarrow> 'a) \<Rightarrow> ('a \<Rightarrow> (int \<Rightarrow> go_error + int) \<Rightarrow> 'a) \<Rightarrow> ('a \<Rightarrow> Capacity \<times> 'a)
     \<Rightarrow> 'a \<Rightarrow> adm_op \<Rightarrow> 'a" where
  "ledger_step rsv rsm psd act rst rel dsk rpt a (AdmReserve req) = snd (rsv a req)"
| "ledger_step rsv rsm psd act rst rel dsk rpt a (AdmResume k) = snd (rsm a k)"
| "ledger_step rsv rsm psd act rst rel dsk rpt a (AdmPause k) = psd a k"
| "ledger_step rsv rsm psd act rst rel dsk rpt a (AdmActive k) = act a k"
| "ledger_step rsv rsm psd act rst rel dsk rpt a (AdmRestore k v m d p) = rst a k v m d p"
| "ledger_step rsv rsm psd act rst rel dsk rpt a (AdmRelease k) = rel a k"
| "ledger_step rsv rsm psd act rst rel dsk rpt a (AdmDisk p) = dsk a p"
| "ledger_step rsv rsm psd act rst rel dsk rpt a AdmCapacity = snd (rpt a)"

definition adm_step :: "Admission \<Rightarrow> adm_op \<Rightarrow> Admission" where
  "adm_step = ledger_step ReserveCreate ReserveResume MarkPaused MarkActive Restore Release SetDiskCapacityProvider Capacity_of"

definition adm_run :: "Admission \<Rightarrow> adm_op list \<Rightarrow> Admission" where
  "adm_run = foldl adm_step"

primrec ghost_step :: "(string \<Rightarrow> reservation option) \<Rightarrow> adm_op \<Rightarrow> string set \<times> string set \<Rightarrow> string set \<times> string set" where
  "ghost_step h (AdmReserve req) g = g"
| "ghost_step h (AdmResume k) g = g"
| "ghost_step h (AdmPause k) g = (fst g - {k}, snd g)"
| "ghost_step h (AdmActive k) g = (if paused_in h k then insert k (fst g) else fst g, snd g)"
| "ghost_step h (AdmRestore k v m d p) g = (if p then fst g - {k} else insert k (fst g), insert k (snd g))"
| "ghost_step h (AdmRelease k) g = (fst g - {k}, snd g - {k})"
| "ghost_step h (AdmDisk p) g = g"
| "ghost_step h AdmCapacity g = g"

primrec ghost_run :: "('a \<Rightarrow> adm_op \<Rightarrow> 'a) \<Rightarrow> ('a \<Rightarrow> string \<Rightarrow> reservation option) \<Rightarrow> 'a \<Rightarrow> string set \<times> string set \<Rightarrow> adm_op list
    \<Rightarrow> string set \<times> string set" where
  "ghost_run stp held a g [] = g"
| "ghost_run stp held a g (x # xs) = ghost_run stp held (stp a x) (ghost_step (held a) x g) xs"

definition ran_unchecked :: "Admission \<Rightarrow> adm_op list \<Rightarrow> string set" where
  "ran_unchecked a ops = fst (ghost_run adm_step (\<lambda>a. mget (reservations a)) a ({}, {}) ops)"

definition entered_unchecked :: "Admission \<Rightarrow> adm_op list \<Rightarrow> string set" where
  "entered_unchecked a ops = snd (ghost_run adm_step (\<lambda>a. mget (reservations a)) a ({}, {}) ops)"

text \<open>What is restored has the shape of a sandbox.\<close>

definition restores_shape :: "adm_op \<Rightarrow> bool" where
  "restores_shape x \<longleftrightarrow> (case x of AdmRestore k v m d p \<Rightarrow> 0 < v \<and> 0 < m \<and> 0 < d | _ \<Rightarrow> True)"

locale admission_control =
  fixes rsv :: "'a \<Rightarrow> CreateRequest \<Rightarrow> go_error option \<times> 'a"
    and rsm :: "'a \<Rightarrow> string \<Rightarrow> go_error option \<times> 'a"
    and psd :: "'a \<Rightarrow> string \<Rightarrow> 'a"
    and act :: "'a \<Rightarrow> string \<Rightarrow> 'a"
    and rst :: "'a \<Rightarrow> string \<Rightarrow> int \<Rightarrow> int \<Rightarrow> int \<Rightarrow> bool \<Rightarrow> 'a"
    and rel :: "'a \<Rightarrow> string \<Rightarrow> 'a"
    and dsk :: "'a \<Rightarrow> (int \<Rightarrow> go_error + int) \<Rightarrow> 'a"
    and rpt :: "'a \<Rightarrow> Capacity \<times> 'a"
    and invar :: "string set \<Rightarrow> string set \<Rightarrow> 'a \<Rightarrow> bool"
    and held :: "'a \<Rightarrow> string \<Rightarrow> reservation option"
  assumes invar_rsv: "invar U R a \<Longrightarrow> invar U R (snd (rsv a req))"
    and invar_rsm: "invar U R a \<Longrightarrow> invar U R (snd (rsm a k))"
    and invar_psd: "invar U R a \<Longrightarrow> invar (U - {k}) R (psd a k)"
    and invar_act: "invar U R a \<Longrightarrow> invar (if paused_in (held a) k then insert k U else U) R (act a k)"
    and invar_rst: "invar U R a \<Longrightarrow> 0 < v \<Longrightarrow> 0 < m \<Longrightarrow> 0 < d
      \<Longrightarrow> invar (if p then U - {k} else insert k U) (insert k R) (rst a k v m d p)"
    and invar_rel: "invar U R a \<Longrightarrow> invar (U - {k}) (R - {k}) (rel a k)"
    and invar_dsk: "invar U R a \<Longrightarrow> invar U R (dsk a q)"
    and invar_rpt: "invar U R a \<Longrightarrow> invar U R (snd (rpt a))"
    and held_rsv_ok: "fst (rsv a req) = None
      \<Longrightarrow> \<exists>r. held (snd (rsv a req)) = (held a)(SandboxID req \<mapsto> r)
             \<and> rv_vcpus r = cr_VCPUs req \<and> rv_memoryMB r = cr_MemoryMB req
             \<and> rv_diskGB r = cr_DiskGB req"
    and held_rsv_refused: "fst (rsv a req) = Some e \<Longrightarrow> held (snd (rsv a req)) = held a"
    and held_rsm_ok: "fst (rsm a k) = None
      \<Longrightarrow> \<exists>r. held a k = Some r
             \<and> held (snd (rsm a k)) = (held a)(k \<mapsto> r\<lparr>rv_paused := False\<rparr>)"
    and held_rsm_refused: "fst (rsm a k) = Some e \<Longrightarrow> held (snd (rsm a k)) = held a"
    and held_psd: "held (psd a k)
      = (held a)(k := map_option (\<lambda>r. r\<lparr>rv_paused := True\<rparr>) (held a k))"
    and held_rel: "held (rel a k) = (held a)(k := None)"
begin

lemma step_invar:
  "invar (fst g) (snd g) a \<Longrightarrow> restores_shape x
    \<Longrightarrow> invar (fst (ghost_step (held a) x g)) (snd (ghost_step (held a) x g)) (ledger_step rsv rsm psd act rst rel dsk rpt a x)"
  using invar_rsv invar_rsm invar_psd invar_act[of "fst g" "snd g" a] invar_rst[of "fst g" "snd g" a] invar_rel invar_dsk invar_rpt
  by (cases x) (auto simp: restores_shape_def)

lemma run_invar:
  fixes xs :: "adm_op list"
  defines "stp \<equiv> ledger_step rsv rsm psd act rst rel dsk rpt"
  shows "invar (fst g) (snd g) a \<Longrightarrow> list_all restores_shape xs
    \<Longrightarrow> invar (fst (ghost_run stp held a g xs)) (snd (ghost_run stp held a g xs)) (foldl stp a xs)"
proof (induction xs arbitrary: a g)
  case (Cons x xs)
  have "invar (fst (ghost_step (held a) x g)) (snd (ghost_step (held a) x g)) (stp a x)" unfolding stp_def by (rule step_invar) (use Cons.prems in auto)
  from Cons.IH[OF this] Cons.prems(2) show ?case by simp
qed simp

lemma rsv_frame: "k \<noteq> SandboxID req \<Longrightarrow> held (snd (rsv a req)) k = held a k"
  by (cases "fst (rsv a req)") (auto dest: held_rsv_ok held_rsv_refused)

lemma failed_boot_frame:
  "held a (SandboxID req) = None \<Longrightarrow> held (rel (snd (rsv a req)) (SandboxID req)) = held a"
  using rsv_frame[of _ req a] by (auto simp: held_rel fun_eq_iff)

lemma failed_resume_frame:
  "held a k = Some r \<Longrightarrow> rv_paused r \<Longrightarrow> held (psd (snd (rsm a k)) k) = held a"
  by (cases "fst (rsm a k)")
    (auto simp: held_psd fun_eq_iff dest!: held_rsm_ok held_rsm_refused)

end

lemma ReserveCreate_held:
  assumes "fst (ReserveCreate a req) = None"
  shows "\<exists>r. mget (reservations (snd (ReserveCreate a req)))
           = (mget (reservations a))(SandboxID req \<mapsto> r)
         \<and> rv_vcpus r = cr_VCPUs req \<and> rv_memoryMB r = cr_MemoryMB req
         \<and> rv_diskGB r = cr_DiskGB req"
proof (cases rule: ReserveCreate_cases[of a req])
  case (kept r)
  then show ?thesis by (intro exI[of _ r]) (auto simp: fun_eq_iff)
next
  case (refused e a')
  with assms show ?thesis by simp
next
  case (admitted a')
  then show ?thesis by (auto simp: fun_eq_iff)
qed

lemma ReserveResume_held:
  assumes "fst (ReserveResume a k) = None"
  shows "\<exists>r. mget (reservations a) k = Some r
         \<and> mget (reservations (snd (ReserveResume a k)))
             = (mget (reservations a))(k \<mapsto> r\<lparr>rv_paused := False\<rparr>)"
proof (cases rule: ReserveResume_cases[of a k])
  case (kept r)
  then show ?thesis by (intro exI[of _ r]) (auto simp: fun_eq_iff)
next
  case (refused e a')
  with assms show ?thesis by simp
next
  case (admitted r)
  then show ?thesis by (auto simp: fun_eq_iff)
qed

interpretation adm: admission_control ReserveCreate ReserveResume MarkPaused MarkActive Restore Release
  SetDiskCapacityProvider Capacity_of tracked "\<lambda>a. mget (reservations a)"
proof
  fix a req e assume "fst (ReserveCreate a req) = Some e"
  then show "mget (reservations (snd (ReserveCreate a req))) = mget (reservations a)"
    by (cases rule: ReserveCreate_cases[of a req]) auto
next
  fix a k e assume "fst (ReserveResume a k) = Some e"
  then show "mget (reservations (snd (ReserveResume a k))) = mget (reservations a)"
    by (cases rule: ReserveResume_cases[of a k]) auto
next
  fix a k
  show "mget (reservations (MarkPaused a k))
      = (mget (reservations a))(k := map_option (\<lambda>r. r\<lparr>rv_paused := True\<rparr>) (mget (reservations a) k))"
    by (auto simp: MarkPaused_def fun_eq_iff split: option.splits)
  show "mget (reservations (Release a k)) = (mget (reservations a))(k := None)"
    by (auto simp: Release_def fun_eq_iff)
qed (simp_all add: tracked_ReserveCreate tracked_ReserveResume tracked_MarkPaused tracked_MarkActive tracked_Restore tracked_Release
      tracked_SetDiskCapacityProvider Capacity_of_def ReserveCreate_held ReserveResume_held)

lemma adm_run_tracked:
  assumes "tracked {} {} a" "list_all restores_shape ops"
  shows "tracked (ran_unchecked a ops) (entered_unchecked a ops) (adm_run a ops)"
  using adm.run_invar[of "({}, {})" a ops] assms unfolding ran_unchecked_def entered_unchecked_def adm_run_def adm_step_def by simp

section \<open>Properties of the ledger\<close>

lemma ReserveCreate_within:
  assumes "adm_wf a" "mget (reservations a) (SandboxID req) = None" "fst (ReserveCreate a req) = None"
  shows "within_capacity (snd (ReserveCreate a req))"
  using assms by (cases rule: ReserveCreate_cases[of a req])
    (auto simp: within_capacity_def adm_wf_def msum_mput length_mput active_vcpus_def active_memoryMB_def)

lemma ReserveResume_within:
  assumes "adm_wf a" "paused_in (mget (reservations a)) k" "fst (ReserveResume a k) = None"
  shows "msum active_vcpus (reservations (snd (ReserveResume a k))) \<le> allocatableVCPUs a
    \<and> msum active_memoryMB (reservations (snd (ReserveResume a k))) \<le> allocatableMemoryMB a"
  using assms by (cases rule: ReserveResume_cases[of a k]) (auto simp: paused_in_def adm_wf_def msum_mput active_vcpus_def active_memoryMB_def)

text \<open>
  C9: Whatever sequence of the calls of the ledger reaches a worker - creates, resumes, pauses, the two calls that check nothing
  (\<open>MarkActive\<close>, of the state hook, and \<open>Restore\<close>, of the recovery), releases, reports - and however the free space of its
  filesystem changes in between, the CPUs and the memory of the running sandboxes that came up through a check are within the
  advertised capacity, and so are in number the reservations that \<open>Restore\<close> did not enter; so the host is overcommitted by at most what
  runs unchecked, and not at all when nothing does. And nothing is admitted on top of an overcommitment: a new sandbox is admitted only if afterwards everything,
  the unchecked sandboxes included, is within the capacity, and a paused one resumed only if afterwards all CPUs and memory are.
  The condition: what is restored has positive CPUs, memory and disk.
\<close>

theorem admission_never_overcommits:
  assumes "0 \<le> vcpus" and "0 \<le> memoryMB" and "0 \<le> maxSb" and "list_all restores_shape ops"
    and a0: "a0 = NewAdmission vcpus memoryMB diskGB maxSb cpuRatio memoryRatio" and a: "a = adm_run a0 ops"
  shows "booked (ran_unchecked a0 ops) active_vcpus (reservations a) \<le> allocatableVCPUs a
     \<and> booked (ran_unchecked a0 ops) active_memoryMB (reservations a) \<le> allocatableMemoryMB a
     \<and> booked (entered_unchecked a0 ops) (\<lambda>_. 1) (reservations a) \<le> maxSandboxes a
     \<and> (ran_unchecked a0 ops = {} \<and> entered_unchecked a0 ops = {} \<longrightarrow> within_capacity a)
     \<and> (\<forall>req. fst (ReserveCreate a req) = None \<and> mget (reservations a) (SandboxID req) = None \<longrightarrow> within_capacity (snd (ReserveCreate a req)))
     \<and> (\<forall>k. fst (ReserveResume a k) = None \<and> paused_in (mget (reservations a)) k
          \<longrightarrow> msum active_vcpus (reservations (snd (ReserveResume a k))) \<le> allocatableVCPUs a
            \<and> msum active_memoryMB (reservations (snd (ReserveResume a k))) \<le> allocatableMemoryMB a)"
proof -
  have t: "tracked (ran_unchecked a0 ops) (entered_unchecked a0 ops) a"
    unfolding a using adm_run_tracked[OF tracked_NewAdmission[OF assms(1-3)] assms(4)] a0 by simp
  then have wf: "adm_wf a" by (simp add: tracked_def)
  have count: "booked {} (\<lambda>_. 1) (reservations a) = int (length (reservations a))" by (simp add: booked_none msum_def sum_list_triv)
  have "within_capacity a" if "ran_unchecked a0 ops = {} \<and> entered_unchecked a0 ops = {}"
    using t that count by (simp add: tracked_def within_capacity_def booked_none)
  then show ?thesis using t ReserveCreate_within[OF wf] ReserveResume_within[OF wf] unfolding tracked_def by blast
qed

text \<open>
  A create is admitted exactly when the sandbox already holds the same shape, or when it is
  new, its shape is positive, and a slot, CPUs, memory and disk are left for it.
\<close>

theorem ReserveCreate_admits_iff:
  "fst (ReserveCreate a req) = None \<longleftrightarrow>
     (case mget (reservations a) (SandboxID req) of
        Some r \<Rightarrow> rv_vcpus r = cr_VCPUs req \<and> rv_memoryMB r = cr_MemoryMB req
                  \<and> rv_diskGB r = cr_DiskGB req
      | None \<Rightarrow>
          0 < cr_VCPUs req \<and> 0 < cr_MemoryMB req \<and> 0 < cr_DiskGB req
          \<and> int (length (reservations a)) < maxSandboxes a
          \<and> msum active_vcpus (reservations a) + cr_VCPUs req \<le> allocatableVCPUs a
          \<and> msum active_memoryMB (reservations a) + cr_MemoryMB req \<le> allocatableMemoryMB a
          \<and> msum rv_diskGB (reservations a) + cr_DiskGB req
              \<le> allocatableDiskGB (snd (capacityLocked a)))"
  by (auto simp: ReserveCreate_def split_beta Let_def split: option.split)

lemma pause_frees_compute:
  assumes "adm_wf a" and "mget (reservations a) k = Some r" and "\<not> rv_paused r"
  shows "msum active_vcpus (reservations (MarkPaused a k))
           = msum active_vcpus (reservations a) - rv_vcpus r"
    and "msum active_memoryMB (reservations (MarkPaused a k))
           = msum active_memoryMB (reservations a) - rv_memoryMB r"
    and "msum rv_diskGB (reservations (MarkPaused a k)) = msum rv_diskGB (reservations a)"
    and "length (reservations (MarkPaused a k)) = length (reservations a)"
  using assms
  by (simp_all add: MarkPaused_def adm_wf_def msum_mput length_mput active_vcpus_def
      active_memoryMB_def)

lemma mput_mput: "mput k v (mput k w m) = mput k v m"
  by (induction m) auto

text \<open>
  Pausing a running sandbox gives back its CPUs and its memory and keeps its slot and its
  disk, and resuming it before anybody else takes the capacity always succeeds and restores the
  reservations as they were.
\<close>

theorem pause_resume_roundtrip:
  assumes inv: "adm_inv a" and r: "mget (reservations a) k = Some r" "\<not> rv_paused r"
  shows "ReservedVCPUs (fst (capacityLocked (MarkPaused a k)))
           = ReservedVCPUs (fst (capacityLocked a)) - rv_vcpus r
     \<and> ReservedMemoryMB (fst (capacityLocked (MarkPaused a k)))
           = ReservedMemoryMB (fst (capacityLocked a)) - rv_memoryMB r
     \<and> ReservedDiskGB (fst (capacityLocked (MarkPaused a k))) = ReservedDiskGB (fst (capacityLocked a))
     \<and> FreeSlots (fst (capacityLocked (MarkPaused a k))) = FreeSlots (fst (capacityLocked a))
     \<and> fst (ReserveResume (MarkPaused a k) k) = None
     \<and> reservations (snd (ReserveResume (MarkPaused a k) k)) = reservations a"
proof -
  let ?b = "MarkPaused a k"
  have wf: "adm_wf a" using inv by (simp add: adm_inv_def)
  note sums = pause_frees_compute[OF wf r]
  have b: "mget (reservations ?b) k = Some (r\<lparr>rv_paused := True\<rparr>)"
    "allocatableVCPUs ?b = allocatableVCPUs a" "allocatableMemoryMB ?b = allocatableMemoryMB a"
    "maxSandboxes ?b = maxSandboxes a"
    "reservations ?b = mput k (r\<lparr>rv_paused := True\<rparr>) (reservations a)"
    using r by (simp_all add: MarkPaused_def)
  have "r\<lparr>rv_paused := False\<rparr> = r" using r(2) by simp
  then have "mput k (r\<lparr>rv_paused := False\<rparr>) (reservations ?b) = reservations a"
    using r(1) by (simp add: b(5) mput_mput mput_same)
  then have "fst (ReserveResume ?b k) = None \<and> reservations (snd (ReserveResume ?b k)) = reservations a"
    using inv b(1-3) sums
    by (simp add: ReserveResume_def split_beta Let_def adm_inv_def within_capacity_def)
  then show ?thesis using sums b(4) by simp
qed

section \<open>Properties of the disk accounting\<close>

definition effective_reserve :: "int \<Rightarrow> int \<Rightarrow> int" where
  "effective_reserve totalGB reserveGB = (if reserveGB \<le> 0 then max (totalGB div 20) 10 else reserveGB)"

lemma clip_eq_max: "(if x < 0 then 0 else x) = max 0 (x :: int)"
  by simp

lemma calculateDiskCapacityGB_alt:
  "calculateDiskCapacityGB t a r c s =
     (if t \<le> 0 \<or> a < 0 then 0
      else let free = min (a + r - effective_reserve t s) (t - effective_reserve t s)
           in max 0 (if 0 < c then min free c else free))"
  unfolding calculateDiskCapacityGB_def effective_reserve_def[symmetric] Let_def clip_eq_max ..

lemma calculateDiskCapacityGB_bounds:
  assumes "n = calculateDiskCapacityGB t a r c s"
  shows "0 \<le> n" and "0 < c \<Longrightarrow> n \<le> c"
    and "0 < n \<Longrightarrow> n \<le> t - effective_reserve t s"
    and "0 < n \<Longrightarrow> n \<le> a + r - effective_reserve t s"
proof -
  define f where "f = min (a + r - effective_reserve t s) (t - effective_reserve t s)"
  have f: "f \<le> a + r - effective_reserve t s" "f \<le> t - effective_reserve t s"
    by (simp_all add: f_def)
  have n: "n = 0 \<or> n = max 0 (if 0 < c then min f c else f)"
    using assms unfolding calculateDiskCapacityGB_alt Let_def f_def[symmetric] by presburger
  then have nf: "n \<le> max 0 f" by auto
  from n show "0 \<le> n" by auto
  from n show "0 < c \<Longrightarrow> n \<le> c" by auto
  from nf f show "0 < n \<Longrightarrow> n \<le> t - effective_reserve t s"
    and "0 < n \<Longrightarrow> n \<le> a + r - effective_reserve t s" by linarith+
qed

text \<open>
  With the filesystem as provider, a new sandbox is admitted only when its disk fits into
  the space that is really free, less the part kept back for the host, as long as that
  leaves anything to schedule: the quota of the sandboxes already placed is not subtracted
  twice.
\<close>

theorem admitted_disk_fits_free_space:
  assumes prov: "diskCapacity a = Some (CapacityGB statfs d)"
    and stat: "statfs (hd_path d) = Inr st"
    and detected: "CapacityGB statfs d (msum rv_diskGB (reservations a)) = Inr n" "0 < n"
    and new: "mget (reservations a) (SandboxID req) = None"
    and ok: "fst (ReserveCreate a req) = None"
  shows "cr_DiskGB req
    \<le> uint ((st_Bavail st * st_Bsize st) div bytesPerGiB)
       - effective_reserve (uint ((st_Blocks st * st_Bsize st) div bytesPerGiB)) (hd_reserveGB d)"
proof -
  let ?t = "uint ((st_Blocks st * st_Bsize st) div bytesPerGiB)"
  let ?f = "uint ((st_Bavail st * st_Bsize st) div bytesPerGiB)"
  let ?r = "msum rv_diskGB (reservations a)"
  have n: "n = calculateDiskCapacityGB ?t ?f ?r (hd_capGB d) (hd_reserveGB d)"
    using stat detected(1) by (simp add: CapacityGB_def Let_def)
  have "n \<le> ?f + ?r - effective_reserve ?t (hd_reserveGB d)"
    using calculateDiskCapacityGB_bounds(4)[OF n] detected(2) by blast
  moreover have "allocatableDiskGB (snd (capacityLocked a)) = n"
    using prov detected by (simp add: capacityLocked_def Let_def detected_disk_def)
  moreover have "?r + cr_DiskGB req \<le> allocatableDiskGB (snd (capacityLocked a))"
    using ok new by (cases rule: ReserveCreate_cases[of a req]) auto
  ultimately show ?thesis by linarith
qed

text \<open>
  A filesystem that reports no schedulable space at all does not stop admission: the ledger
  keeps the last positive value and goes on admitting against it, as it does after a failed
  \<open>statfs\<close>.
\<close>

theorem exhausted_disk_is_ignored:
  assumes "diskCapacity a = Some provider"
    and "provider (msum rv_diskGB (reservations a)) = Inr 0"
  shows "snd (capacityLocked a) = a
     \<and> AllocatableDiskGB (fst (capacityLocked a)) = allocatableDiskGB a"
  using assms by (simp add: capacityLocked_def detected_disk_def Let_def)

section \<open>Witnesses\<close>

definition sample_request :: "string \<Rightarrow> CreateRequest" where
  "sample_request k = \<lparr>SandboxID = k, cr_UserID = ''u'', cr_Image = ''alpine'',
     cr_BillingModel = ''payg'', cr_Env = [], cr_VCPUs = 2, cr_MemoryMB = 1024, cr_DiskGB = 20,
     cr_Internet = True, cr_IdleTimeoutS = 0, cr_MaxLifetimeS = 0\<rparr>"

definition sample_reservation :: reservation where
  "sample_reservation = \<lparr>rv_vcpus = 2, rv_memoryMB = 1024, rv_diskGB = 20, rv_paused = False\<rparr>"

definition sample_admission :: Admission where
  "sample_admission = \<lparr>allocatableVCPUs = 4, allocatableMemoryMB = 2048, allocatableDiskGB = 90,
     maxSandboxes = 3, reservations = [(''a'', sample_reservation)], diskCapacity = None\<rparr>"

definition sample_disk :: HostDiskCapacity where
  "sample_disk = \<lparr>hd_path = ''/data'', hd_capGB = 0, hd_reserveGB = 10\<rparr>"

definition sample_statfs :: "64 word \<Rightarrow> string \<Rightarrow> go_error + Statfs" where
  "sample_statfs free p = Inr \<lparr>st_Blocks = 100 * 262144, st_Bsize = 4096, st_Bavail = free * 262144\<rparr>"

definition sample_adm_ops :: "adm_op list" where
  "sample_adm_ops = [AdmRestore ''r'' 2 512 10 True, AdmReserve (sample_request ''a''), AdmReserve (sample_request ''b''), AdmActive ''r'', AdmPause ''a'',
     AdmResume ''a'', AdmReserve (sample_request ''c'')]"

text \<open>In the sample the recovered sandbox runs unchecked, next to one admitted sandbox; the other cannot resume.\<close>

lemma sample_adm_ops_run:
  "map (\<lambda>(k, r). (k, rv_paused r)) (reservations (adm_run (NewAdmission 4 2048 90 3 1 1) sample_adm_ops)) = [(''r'', False), (''a'', True), (''b'', False)]"
  "ran_unchecked (NewAdmission 4 2048 90 3 1 1) sample_adm_ops = {''r''}"
  "allocatableVCPUs (adm_run (NewAdmission 4 2048 90 3 1 1) sample_adm_ops) = 4"
  by (simp_all add: sample_adm_ops_def adm_run_def adm_step_def ran_unchecked_def paused_in_def NewAdmission_def ReserveCreate_def ReserveResume_def MarkPaused_def
      MarkActive_def Restore_def capacityLocked_def detected_disk_def sample_request_def active_vcpus_def active_memoryMB_def)

theorem admission_never_overcommits_witness:
  "booked {''r''} active_vcpus (reservations (adm_run (NewAdmission 4 2048 90 3 1 1) sample_adm_ops)) \<le> 4
   \<and> map (\<lambda>(k, r). (k, rv_paused r)) (reservations (adm_run (NewAdmission 4 2048 90 3 1 1) sample_adm_ops)) = [(''r'', False), (''a'', True), (''b'', False)]"
proof -
  have shape: "list_all restores_shape sample_adm_ops" by (simp add: sample_adm_ops_def restores_shape_def)
  show ?thesis
    using admission_never_overcommits[of 4 2048 3 sample_adm_ops "NewAdmission 4 2048 90 3 1 1" 90 1 1, OF _ _ _ shape refl refl] sample_adm_ops_run by simp
qed

theorem pause_resume_roundtrip_witness:
  "ReservedVCPUs (fst (capacityLocked (MarkPaused sample_admission ''a''))) = 0
   \<and> reservations (snd (ReserveResume (MarkPaused sample_admission ''a'') ''a''))
       = reservations sample_admission"
proof -
  have inv: "adm_inv sample_admission"
    by (simp add: adm_inv_defs sample_admission_def sample_reservation_def positive_shape_def
        mwf_def active_vcpus_def active_memoryMB_def)
  have r: "mget (reservations sample_admission) ''a'' = Some sample_reservation"
    "\<not> rv_paused sample_reservation"
    by (simp_all add: sample_admission_def sample_reservation_def)
  show ?thesis
    using pause_resume_roundtrip[OF inv r]
    by (simp add: sample_admission_def sample_reservation_def active_vcpus_def)
qed

theorem admitted_disk_fits_free_space_witness:
  "cr_DiskGB (sample_request ''b'')
     \<le> uint ((50 * 262144 * 4096 :: 64 word) div bytesPerGiB)
       - effective_reserve (uint ((100 * 262144 * 4096 :: 64 word) div bytesPerGiB)) 10"
proof -
  let ?a = "sample_admission\<lparr>diskCapacity := Some (CapacityGB (sample_statfs 50) sample_disk)\<rparr>"
  have d: "CapacityGB (sample_statfs 50) sample_disk (msum rv_diskGB (reservations ?a)) = Inr 60"
    by (simp add: CapacityGB_def sample_statfs_def sample_disk_def sample_admission_def
        sample_reservation_def bytesPerGiB_def calculateDiskCapacityGB_def)
  have "fst (ReserveCreate ?a (sample_request ''b'')) = None"
    using d by (simp add: ReserveCreate_def capacityLocked_def detected_disk_def Let_def
        sample_admission_def sample_request_def sample_reservation_def active_vcpus_def
        active_memoryMB_def)
  then show ?thesis
    using admitted_disk_fits_free_space[of ?a "sample_statfs 50" sample_disk _ 60
        "sample_request ''b''", OF _ _ d]
    by (simp add: sample_statfs_def sample_disk_def sample_admission_def sample_request_def)
qed

theorem exhausted_disk_is_ignored_witness:
  "\<exists>a. diskCapacity a = Some (CapacityGB (sample_statfs 5) sample_disk)
     \<and> reservations a = []
     \<and> AllocatableDiskGB (fst (capacityLocked a)) = 90
     \<and> fst (ReserveCreate a (sample_request ''a'')) = None"
proof -
  let ?a = "sample_admission\<lparr>reservations := [],
     diskCapacity := Some (CapacityGB (sample_statfs 5) sample_disk)\<rparr>"
  have full: "CapacityGB (sample_statfs 5) sample_disk (msum rv_diskGB (reservations ?a)) = Inr 0"
    by (simp add: CapacityGB_def sample_statfs_def sample_disk_def bytesPerGiB_def
        calculateDiskCapacityGB_def)
  have c: "snd (capacityLocked ?a) = ?a \<and> AllocatableDiskGB (fst (capacityLocked ?a)) = 90"
    using exhausted_disk_is_ignored[of ?a "CapacityGB (sample_statfs 5) sample_disk", OF _ full] by (simp add: sample_admission_def)
  then have "fst (ReserveCreate ?a (sample_request ''a'')) = None"
    by (simp add: ReserveCreate_def split_beta Let_def)
      (simp add: sample_admission_def sample_request_def)
  with c show ?thesis by (intro exI[of _ ?a]) (simp add: sample_admission_def)
qed

end
