(* ===== verification/Paths.thy ===== *)
theory Paths
  imports Prelude
begin

text \<open>
  Go's package \<open>path\<close> on slash-separated names, as the object keys of checkpoints use it:
  \<open>path.Clean\<close> and \<open>path.Join\<close>. A name of plain components (non-empty, without slash, neither dot
  nor dot-dot) is its own clean form, and two such names are equal only if their components are.
\<close>

definition slash :: char where
  "slash = CHR ''/''"

fun split_slash :: "string \<Rightarrow> string list" where
  "split_slash [] = [[]]"
| "split_slash (c # s) =
     (if c = slash then [] # split_slash s
      else case split_slash s of [] \<Rightarrow> [[c]] | x # xs \<Rightarrow> (c # x) # xs)"

fun join_slash :: "string list \<Rightarrow> string" where
  "join_slash [] = []"
| "join_slash [x] = x"
| "join_slash (x # y # zs) = x @ slash # join_slash (y # zs)"

text \<open>One component, on the stack of components kept so far (last one first).\<close>

definition clean_step :: "bool \<Rightarrow> string list \<Rightarrow> string \<Rightarrow> string list" where
  "clean_step rooted out c =
     (if c = [] \<or> c = ''.'' then out
      else if c = ''..'' then
        (case out of
           [] \<Rightarrow> if rooted then [] else [''..'']
         | t # ts \<Rightarrow> if t = ''..'' then ''..'' # out else ts)
      else c # out)"

definition path_clean :: "string \<Rightarrow> string" where
  "path_clean s =
     (if s = [] then ''.''
      else let rooted = (hd s = slash);
               body = join_slash (rev (foldl (clean_step rooted) [] (split_slash s)));
               r = (if rooted then slash # body else body)
           in if r = [] then ''.'' else r)"

definition path_Join :: "string list \<Rightarrow> string" where
  "path_Join elems =
     (let ps = filter (\<lambda>e. e \<noteq> []) elems in if ps = [] then [] else path_clean (join_slash ps))"

section \<open>Plain names\<close>

definition plain :: "string \<Rightarrow> bool" where
  "plain c \<longleftrightarrow> c \<noteq> [] \<and> slash \<notin> set c \<and> c \<noteq> ''.'' \<and> c \<noteq> ''..''"

lemma split_slash_nonempty [simp]: "split_slash s \<noteq> []"
  by (induction s) (auto split: list.split)

lemma split_slash_no_slash: "slash \<notin> set s \<Longrightarrow> split_slash s = [s]"
  by (induction s) auto

lemma split_slash_append: "slash \<notin> set x \<Longrightarrow> split_slash (x @ slash # s) = x # split_slash s"
  by (induction x) auto

lemma split_join:
  "cs \<noteq> [] \<Longrightarrow> list_all (\<lambda>c. slash \<notin> set c) cs \<Longrightarrow> split_slash (join_slash cs) = cs"
  by (induction cs rule: join_slash.induct) (auto simp: split_slash_no_slash split_slash_append)

lemma join_append: "xs \<noteq> [] \<Longrightarrow> ys \<noteq> [] \<Longrightarrow> join_slash (xs @ ys) = join_slash xs @ slash # join_slash ys"
  by (induction xs rule: join_slash.induct) (auto simp: neq_Nil_conv)

lemma plain_slash: "list_all plain cs \<Longrightarrow> list_all (\<lambda>c. slash \<notin> set c) cs"
  by (auto simp: list_all_iff plain_def)

lemma join_inject:
  "list_all plain cs \<Longrightarrow> list_all plain ds \<Longrightarrow> cs \<noteq> [] \<Longrightarrow> ds \<noteq> [] \<Longrightarrow> join_slash cs = join_slash ds \<longleftrightarrow> cs = ds"
  using split_join[OF _ plain_slash] by metis

lemma clean_plain: "list_all plain cs \<Longrightarrow> foldl (clean_step r) out cs = rev cs @ out"
  by (induction cs arbitrary: out) (auto simp: clean_step_def plain_def)

lemma join_plain_hd: "list_all plain cs \<Longrightarrow> cs \<noteq> [] \<Longrightarrow> join_slash cs \<noteq> [] \<and> hd (join_slash cs) \<noteq> slash"
  by (induction cs rule: join_slash.induct) (auto simp: plain_def hd_append dest: hd_in_set)

lemma path_clean_plain: "list_all plain cs \<Longrightarrow> cs \<noteq> [] \<Longrightarrow> path_clean (join_slash cs) = join_slash cs"
  using join_plain_hd[of cs] by (simp add: path_clean_def split_join[OF _ plain_slash] clean_plain Let_def)

lemma path_Join_plain:
  assumes "list_all plain cs" "cs \<noteq> []"
  shows "path_Join cs = join_slash cs"
proof -
  have "filter (\<lambda>e. e \<noteq> []) cs = cs" using assms(1) by (simp add: list_all_iff plain_def)
  with assms path_clean_plain show ?thesis by (simp add: path_Join_def)
qed

text \<open>A prefix that is itself a join of plain components.\<close>

lemma path_Join_prefix:
  assumes "list_all plain ps" "ps \<noteq> []" "list_all plain cs"
  shows "path_Join (join_slash ps # cs) = join_slash (ps @ cs)"
proof (cases "cs = []")
  case True
  with assms show ?thesis using join_plain_hd[of ps] path_clean_plain[of ps] by (simp add: path_Join_def)
next
  case False
  have "filter (\<lambda>e. e \<noteq> []) (join_slash ps # cs) = join_slash ps # cs"
    using assms join_plain_hd[of ps] by (simp add: list_all_iff plain_def)
  moreover have "join_slash (join_slash ps # cs) = join_slash (ps @ cs)"
    using False assms(2) join_append[of ps cs] by (cases cs) simp_all
  ultimately show ?thesis
    using assms path_clean_plain[of "ps @ cs"] by (simp add: path_Join_def)
qed

section \<open>What a clean name looks like\<close>

text \<open>Components kept by cleaning: some dot-dots (none in a rooted name), then plain ones.\<close>

definition stack_ok :: "bool \<Rightarrow> string list \<Rightarrow> bool" where
  "stack_ok rooted out \<longleftrightarrow>
     (\<exists>ps n. out = rev ps @ replicate n ''..'' \<and> list_all plain ps \<and> (rooted \<longrightarrow> n = 0))"

lemma clean_step_ok:
  assumes "stack_ok rooted out" "slash \<notin> set c"
  shows "stack_ok rooted (clean_step rooted out c)"
proof -
  obtain ps n where out: "out = rev ps @ replicate n ''..''" "list_all plain ps" "rooted \<longrightarrow> n = 0"
    using assms(1) by (auto simp: stack_ok_def)
  consider "c = [] \<or> c = ''.''" | "c = ''..''" | "plain c" using assms(2) by (auto simp: plain_def)
  then show ?thesis
  proof cases
    case 1
    with assms(1) show ?thesis by (auto simp: clean_step_def)
  next
    case 2
    show ?thesis
    proof (cases "rev ps")
      case Nil
      then have "clean_step rooted out c = (if rooted then [] else replicate (Suc n) ''..'')"
        using 2 out by (cases n) (auto simp: clean_step_def)
      then show ?thesis unfolding stack_ok_def
        by (intro exI[of _ "[]"] exI[of _ "if rooted then 0 else Suc n"]) simp
    next
      case (Cons t ts)
      then have "list_all plain (t # ts)" using out(2) list_all_rev[of plain ps] by simp
      then have "plain t" "list_all plain (rev ts)" by simp_all
      then have "clean_step rooted out c = rev (rev ts) @ replicate n ''..''"
        using 2 out Cons by (auto simp: clean_step_def plain_def)
      with out(3) \<open>list_all plain (rev ts)\<close> show ?thesis unfolding stack_ok_def by blast
    qed
  next
    case 3
    then have "clean_step rooted out c = rev (ps @ [c]) @ replicate n ''..''"
      using out by (auto simp: clean_step_def plain_def)
    moreover have "list_all plain (ps @ [c])" using 3 out(2) by simp
    ultimately show ?thesis using out(3) unfolding stack_ok_def by blast
  qed
qed

lemma split_slash_parts: "list_all (\<lambda>c. slash \<notin> set c) (split_slash s)"
  by (induction s) (auto split: list.split)

lemma clean_ok:
  assumes "list_all (\<lambda>c. slash \<notin> set c) cs" "stack_ok rooted out"
  shows "stack_ok rooted (foldl (clean_step rooted) out cs)"
  using assms by (induction cs arbitrary: out) (simp_all add: clean_step_ok)

lemma path_clean_form:
  obtains (dot) "path_clean s = ''.''"
  | (rooted) ps where "list_all plain ps" "path_clean s = slash # join_slash ps"
  | (relative) ps n where "list_all plain ps" "0 < n + length ps" "path_clean s = join_slash (replicate n ''..'' @ ps)"
proof (cases "s = []")
  case True
  with dot show ?thesis by (simp add: path_clean_def)
next
  case False
  let ?r = "hd s = slash"
  have "stack_ok ?r (foldl (clean_step ?r) [] (split_slash s))"
    using clean_ok[OF split_slash_parts, of ?r "[]" s] by (auto simp: stack_ok_def)
  then obtain ps n where st: "foldl (clean_step ?r) [] (split_slash s) = rev ps @ replicate n ''..''"
      "list_all plain ps" "?r \<longrightarrow> n = 0" by (auto simp: stack_ok_def)
  show ?thesis
  proof (cases ?r)
    case True
    with st False rooted show ?thesis by (simp add: path_clean_def)
  next
    case F: False
    show ?thesis
    proof (cases "n + length ps = 0")
      case True
      with st False F dot show ?thesis by (simp add: path_clean_def)
    next
      case N: False
      have "join_slash (replicate n ''..'' @ ps) \<noteq> []"
        using N join_plain_hd[OF st(2)] by (cases n; cases "replicate (n - 1) ''..'' @ ps") auto
      then show ?thesis
        using st False F N relative[of ps n] by (simp add: path_clean_def Let_def)
    qed
  qed
qed

end
