(* ===== verification/Writable_Disk.thy ===== *)
theory Writable_Disk
  imports Paths
begin

text \<open>
  The store of per-VM writable disks (\<open>backend/internal/writabledisk/filesystem.go\<close>). The
  directory is the list of paths that exist; the operating system decides which step fails
  (\<open>flt\<close>, by step). The functions of \<open>path/filepath\<close> are given for absolute cleaned paths,
  which is what the store builds and is called with; \<open>filepath.Abs\<close> is the identity on them.
\<close>

section \<open>Paths\<close>

definition path_base :: "string \<Rightarrow> string" where
  "path_base p =
     (if p = [] then ''.''
      else let q = trim_right slash p
           in if q = [] then [slash] else rev (takeWhile (\<lambda>c. c \<noteq> slash) (rev q)))"

definition path_dir :: "string \<Rightarrow> string" where
  "path_dir p =
     (case dropWhile (\<lambda>c. c \<noteq> slash) (rev p) of
        [] \<Rightarrow> ''.''
      | _ # r \<Rightarrow> if r = [] then [slash] else rev r)"

fun ext_rev :: "string \<Rightarrow> string \<Rightarrow> string" where
  "ext_rev [] acc = []"
| "ext_rev (c # r) acc =
     (if c = slash then [] else if c = CHR ''.'' then c # acc else ext_rev r (c # acc))"

definition path_ext :: "string \<Rightarrow> string" where
  "path_ext p = ext_rev (rev p) []"

definition path_join :: "string \<Rightarrow> string \<Rightarrow> string" where
  "path_join d n = d @ slash # n"

definition fadd :: "string \<Rightarrow> string list \<Rightarrow> string list" where
  "fadd p fs = (if List.member fs p then fs else fs @ [p])"

definition fdel :: "string \<Rightarrow> string list \<Rightarrow> string list" where
  "fdel p fs = removeAll p fs"

section \<open>The store\<close>

datatype CloneMode = CloneAuto | CloneRequired | CloneCopy

definition ParseCloneMode :: "string \<Rightarrow> go_error + CloneMode" where
  "ParseCloneMode value =
     (let mode = to_lower (trim_space value) in
      if mode = [] then Inr CloneAuto
      else if mode = ''auto'' then Inr CloneAuto
      else if mode = ''required'' then Inr CloneRequired
      else if mode = ''copy'' then Inr CloneCopy
      else Inl (ErrNew (''invalid writable disk clone mode '' @ quoted value
             @ '': expected auto, required, or copy'')))"

record Filesystem =
  fs_root :: string
  fs_cloneMode :: CloneMode

definition NewFilesystem :: "(string \<Rightarrow> go_error option) \<Rightarrow> string \<Rightarrow> CloneMode \<Rightarrow> go_error + Filesystem" where
  "NewFilesystem flt root cloneMode =
     (if trim_space root = [] then Inl (ErrNew ''writable disk root is required'')
      else case flt ''mkdir'' of
             Some e \<Rightarrow> Inl (Wrapf (''create writable disk root '' @ quoted (trim_space root)) e)
           | None \<Rightarrow> Inr \<lparr>fs_root = trim_space root, fs_cloneMode = cloneMode\<rparr>)"

definition disk_name :: "string \<Rightarrow> string" where
  "disk_name ident = ''writable-'' @ ident @ ''.ext4''"

definition pathFor :: "Filesystem \<Rightarrow> string \<Rightarrow> go_error + string" where
  "pathFor F sandboxID =
     (let ident = trim_space sandboxID in
      if ident = [] \<or> ident = ''.'' \<or> ident = ''..'' \<or> path_base ident \<noteq> ident
         \<or> list_ex (\<lambda>c. c = slash \<or> c = CHR 0x5C) ident
      then Inl (ErrNew (''invalid sandbox id '' @ quoted sandboxID))
      else Inr (path_join (fs_root F) (disk_name ident)))"

definition validateManagedPath :: "Filesystem \<Rightarrow> string \<Rightarrow> go_error + string" where
  "validateManagedPath F path =
     (if path_dir path \<noteq> fs_root F \<or> \<not> has_prefix (path_base path) ''writable-''
         \<or> path_ext path \<noteq> ''.ext4''
      then Inl (ErrNew (''writable disk path '' @ quoted path @ '' is outside store ''
             @ quoted (fs_root F)))
      else Inr path)"

definition disk_Create ::
    "Filesystem \<Rightarrow> (string \<Rightarrow> go_error option) \<Rightarrow> string \<Rightarrow> int \<Rightarrow> string list
     \<Rightarrow> (go_error + string) \<times> string list" where
  "disk_Create F flt sandboxID sizeMiB fs =
     (if sizeMiB \<le> 0
      then (Inl (ErrNew (''writable disk size must be positive, got '' @ itoa sizeMiB @ '' MiB'')), fs)
      else case pathFor F sandboxID of
        Inl e \<Rightarrow> (Inl e, fs)
      | Inr path \<Rightarrow>
          if List.member fs path
          then (Inl (Wrapf (''create writable disk '' @ path) (ErrNew ''file exists'')), fs)
          else (case flt ''create disk'' of
            Some e \<Rightarrow> (Inl (Wrapf (''create writable disk '' @ path) e), fs)
          | None \<Rightarrow>
              let made = fadd path fs in
              (case flt ''truncate disk'' of
                 Some e \<Rightarrow> (Inl (Wrapf (''size sparse writable disk '' @ path) e), fdel path made)
               | None \<Rightarrow>
                   (case flt ''close disk'' of
                      Some e \<Rightarrow> (Inl (Wrapf (''close writable disk '' @ path) e), fdel path made)
                    | None \<Rightarrow>
                        (case flt ''mkfs.ext4'' of
                           Some e \<Rightarrow> (Inl (Wrapf (''format writable disk '' @ path) e), fdel path made)
                         | None \<Rightarrow> (Inr path, made))))))"

definition clone_args :: "CloneMode \<Rightarrow> string list" where
  "clone_args mode =
     (case mode of
        CloneRequired \<Rightarrow> [''--sparse=auto'', ''--reflink=always'']
      | CloneCopy \<Rightarrow> [''--sparse=always'', ''--reflink=never'']
      | CloneAuto \<Rightarrow> [''--sparse=auto'', ''--reflink=auto''])"

text \<open>\<open>flt\<close> decides the outcome of \<open>cp\<close>; a source that does not exist makes it fail.\<close>

definition disk_Clone ::
    "Filesystem \<Rightarrow> (string \<Rightarrow> go_error option) \<Rightarrow> string \<Rightarrow> string \<Rightarrow> string list
     \<Rightarrow> (go_error + string) \<times> string list" where
  "disk_Clone F flt sandboxID sourcePath fs =
     (if trim_space sourcePath = []
      then (Inl (ErrNew ''writable disk clone source is required''), fs)
      else case pathFor F sandboxID of
        Inl e \<Rightarrow> (Inl e, fs)
      | Inr path \<Rightarrow>
          let failed = (\<lambda>e. (Inl (Wrapf (''clone writable disk '' @ sourcePath @ '' to '' @ path) e),
                             fdel path fs))
          in if \<not> List.member fs sourcePath then failed (ErrNew ''no such file'')
             else case flt ''cp'' of
                    Some e \<Rightarrow> failed e
                  | None \<Rightarrow> (Inr path, fadd path fs))"

definition disk_Delete ::
    "Filesystem \<Rightarrow> (string \<Rightarrow> go_error option) \<Rightarrow> string \<Rightarrow> string list \<Rightarrow> go_error option \<times> string list" where
  "disk_Delete F flt path fs =
     (case validateManagedPath F path of
        Inl e \<Rightarrow> (Some e, fs)
      | Inr managedPath \<Rightarrow>
          (case flt ''remove disk'' of
             Some e \<Rightarrow> (Some (Wrapf (''delete writable disk '' @ managedPath) e), fs)
           | None \<Rightarrow> (None, fdel managedPath fs)))"

definition disk_List :: "Filesystem \<Rightarrow> string list \<Rightarrow> string list" where
  "disk_List F fs =
     filter (\<lambda>p. path_dir p = fs_root F \<and> has_prefix (path_base p) ''writable-''
                 \<and> path_ext p = ''.ext4'') fs"

section \<open>Path lemmas\<close>

lemma set_fadd [simp]: "set (fadd p fs) = insert p (set fs)"
  by (auto simp: fadd_def)

lemma set_fdel [simp]: "set (fdel p fs) = set fs - {p}"
  by (simp add: fdel_def)

lemma fdel_fadd_fresh: "p \<notin> set fs \<Longrightarrow> fdel p (fadd p fs) = fs"
  by (auto simp: fdel_def fadd_def removeAll_id)

lemma fdel_idle: "p \<notin> set fs \<Longrightarrow> fdel p fs = fs"
  by (simp add: fdel_def)

lemma trim_right_no: "c \<notin> set s \<Longrightarrow> trim_right c s = s"
  unfolding trim_right_def by (cases "rev s") (auto simp: rev_eq_Cons_iff)

lemma trim_right_snoc: "x \<noteq> c \<Longrightarrow> trim_right c (s @ [x]) = s @ [x]"
  by (simp add: trim_right_def)

lemma split_at_slash:
  "slash \<notin> set xs \<Longrightarrow> takeWhile (\<lambda>c. c \<noteq> slash) (xs @ slash # ys) = xs"
  "slash \<notin> set xs \<Longrightarrow> dropWhile (\<lambda>c. c \<noteq> slash) (xs @ slash # ys) = slash # ys"
  by (induction xs) auto

lemma takeWhile_rev_name:
  "slash \<notin> set n \<Longrightarrow> takeWhile (\<lambda>c. c \<noteq> slash) (rev (d @ slash # n)) = rev n"
  using split_at_slash(1)[of "rev n" "rev d"] by simp

lemma dropWhile_rev_name:
  "slash \<notin> set n \<Longrightarrow> dropWhile (\<lambda>c. c \<noteq> slash) (rev (d @ slash # n)) = slash # rev d"
  using split_at_slash(2)[of "rev n" "rev d"] by simp

lemma path_base_join:
  assumes "slash \<notin> set n" and "n \<noteq> []"
  shows "path_base (path_join d n) = n"
proof -
  obtain m x where n: "n = m @ [x]" using assms(2) rev_exhaust by blast
  have "trim_right slash (path_join d n) = path_join d n"
    using trim_right_snoc[of x slash "d @ slash # m"] assms(1) n by (auto simp: path_join_def)
  then show ?thesis
    using takeWhile_rev_name[OF assms(1)] by (simp add: path_base_def path_join_def Let_def)
qed

lemma path_dir_join:
  assumes "slash \<notin> set n" and "d \<noteq> []"
  shows "path_dir (path_join d n) = d"
  unfolding path_dir_def path_join_def dropWhile_rev_name[OF assms(1)] using assms(2) by simp

lemma ext_rev_name:
  "CHR ''.'' \<notin> set e \<Longrightarrow> slash \<notin> set e \<Longrightarrow> ext_rev (e @ CHR ''.'' # r) acc = CHR ''.'' # rev e @ acc"
  by (induction e arbitrary: acc) (auto simp: slash_def)

lemma path_ext_ext4: "path_ext (p @ ''.ext4'') = ''.ext4''"
  using ext_rev_name[of "''4txe''" "rev p" "[]"] by (simp add: path_ext_def slash_def)

lemma disk_name_ext4: "path_ext (path_join d (disk_name ident)) = ''.ext4''"
  using path_ext_ext4[of "d @ slash # ''writable-'' @ ident"] by (simp add: disk_name_def path_join_def)

lemma slash_disk_name: "slash \<notin> set ident \<Longrightarrow> slash \<notin> set (disk_name ident)"
  by (auto simp: disk_name_def slash_def)

lemma pathFor_Inr:
  assumes "pathFor F k = Inr p"
  shows "p = path_join (fs_root F) (disk_name (trim_space k))" and "slash \<notin> set (trim_space k)"
  using assms by (auto simp: pathFor_def Let_def list_ex_iff split: if_splits)

section \<open>Properties of the store\<close>

text \<open>
  A disk path the store hands out is one it manages: it lies directly in the root
  directory, the delete check accepts it, the listing shows it when it exists, and two
  sandbox ids that differ after trimming never share a disk.
\<close>

theorem disk_paths_are_managed:
  assumes "fs_root F \<noteq> []" and "pathFor F k = Inr p"
  shows "path_dir p = fs_root F \<and> validateManagedPath F p = Inr p
    \<and> (List.member (disk_List F fs) p \<longleftrightarrow> List.member fs p)
    \<and> (pathFor F l = Inr p \<longrightarrow> trim_space l = trim_space k)"
proof -
  note P = pathFor_Inr[OF assms(2)]
  have ne: "disk_name (trim_space k) \<noteq> []" by (simp add: disk_name_def)
  have dir: "path_dir p = fs_root F"
    using path_dir_join[OF slash_disk_name[OF P(2)] assms(1)] P(1) by simp
  moreover have base: "path_base p = disk_name (trim_space k)"
    using path_base_join[OF slash_disk_name[OF P(2)] ne] P(1) by simp
  moreover have "has_prefix (disk_name (trim_space k)) ''writable-''"
    by (simp add: has_prefix_def disk_name_def)
  moreover have "path_ext p = ''.ext4''" using disk_name_ext4 P(1) by simp
  moreover have "trim_space l = trim_space k" if "pathFor F l = Inr p"
    using pathFor_Inr(1)[OF that] P(1) by (simp add: path_join_def disk_name_def)
  ultimately show ?thesis by (auto simp: validateManagedPath_def disk_List_def)
qed

theorem disk_paths_are_managed_witness:
  "path_dir ''/var/disks/writable-sb1.ext4'' = ''/var/disks''"
proof -
  let ?F = "\<lparr>fs_root = ''/var/disks'', fs_cloneMode = CloneAuto\<rparr>"
  have "fs_root ?F \<noteq> []" by simp
  moreover have "pathFor ?F ''sb1'' = Inr ''/var/disks/writable-sb1.ext4''" by code_simp
  ultimately show ?thesis using disk_paths_are_managed by fastforce
qed

text \<open>
  Deleting a disk removes at most the named file, and only when that file lies directly in
  the root directory and has the name of a writable disk; a delete that is refused or fails
  removes nothing.
\<close>

theorem delete_stays_in_store:
  "case disk_Delete F flt path fs of
     (Some e, fs') \<Rightarrow> fs' = fs
   | (None, fs') \<Rightarrow> path_dir path = fs_root F \<and> has_prefix (path_base path) ''writable-''
       \<and> set fs' = set fs - {path}"
  by (auto simp: disk_Delete_def validateManagedPath_def split: sum.splits option.splits if_splits)

text \<open>
  Creating or cloning a disk is all or nothing: on failure the directory holds nothing new,
  and on success exactly the returned path.
\<close>

lemma disk_Create_atomic:
  "case disk_Create F flt k n fs of
     (Inl e, fs') \<Rightarrow> fs' = fs
   | (Inr p, fs') \<Rightarrow> pathFor F k = Inr p \<and> p \<notin> set fs \<and> set fs' = insert p (set fs)"
  by (auto simp: disk_Create_def Let_def fdel_fadd_fresh split: sum.splits option.splits)

lemma disk_Clone_atomic:
  "case disk_Clone F flt k src fs of
     (Inl e, fs') \<Rightarrow> set fs' \<subseteq> set fs \<and> (\<forall>p. pathFor F k = Inr p \<longrightarrow> set fs - {p} \<subseteq> set fs')
   | (Inr p, fs') \<Rightarrow> pathFor F k = Inr p \<and> set fs' = insert p (set fs)"
  by (auto simp: disk_Clone_def Let_def split: sum.splits option.splits if_splits)

end
