(* ===== verification/Vm_Manager.thy ===== *)
theory Vm_Manager
  imports Writable_Disk Plane "HOL-Library.Multiset"
begin

text \<open>
  The Firecracker VM manager (\<open>backend/internal/executor/firecracker/vm_manager.go\<close>): creating,
  booting, restoring, snapshotting and tearing down micro-VMs, with the pool of network slots.
  The host is part of the state: the registered VMs, the free slots, the running Firecracker
  processes (by API socket path), the VMs whose vCPUs are paused, the files and TAP devices
  that exist, the veths whose egress is blocked and the cgroups. Which system call or Firecracker API call
  fails is decided by the environment (\<open>fc_fault\<close>, by operation number and step), as are the
  UUIDs. Waiting and timing are left out; a wait that runs out is a failing step.
\<close>

section \<open>State\<close>

datatype VMState = VMStateCreated | VMStateBooting | VMStateRunning | VMStateStopped | VMStateDestroyed

record VMConfig =
  VCPUCount :: int
  MemSizeMiB :: int
  DiskMB :: int
  cfg_DiskGB :: int
  KernelPath :: string
  RootfsPath :: string
  InitrdPath :: string
  BootArgs :: string

record MicroVM =
  vm_ID :: string
  vm_Config :: VMConfig
  vm_State :: VMState
  VsockPath :: string
  SocketPath :: string
  WritableDiskPath :: string
  TapName :: string
  Slot :: int
  vm_Process :: bool

record SnapshotTemplate =
  tp_SnapPath :: string
  tp_MemPath :: string
  tp_RootfsPath :: string
  tp_WritableDiskPath :: string
  tp_VsockPath :: string
  tp_TapName :: string

record Host =
  Vms :: "(string, MicroVM) gomap"
  slots :: "int list"
  nextCID :: "32 word"
  nextNetIdx :: "32 word"
  procs :: "string list"
  frozen :: "string list"
  files :: "string list"
  taps :: "string list"
  blocked_veths :: "int list"
  cgroups :: "(string, string \<times> string \<times> string list) gomap"
  htick :: nat

record fc_env =
  fc_uuid :: "nat \<Rightarrow> string"
  fc_fault :: "nat \<Rightarrow> string \<Rightarrow> go_error option"
  fc_now :: "nat \<Rightarrow> int"
  SocketDir :: string
  writableDisks :: Filesystem
  FCUid :: int

definition tick :: "Host \<Rightarrow> Host" where
  "tick h = h\<lparr>htick := Suc (htick h)\<rparr>"

text \<open>The first step of a list of steps that fails, with the message the code wraps it in.\<close>

fun first_fault :: "(string \<Rightarrow> go_error option) \<Rightarrow> string list \<Rightarrow> (string \<times> go_error) option" where
  "first_fault flt [] = None"
| "first_fault flt (m # ms) =
     (case flt m of Some e \<Rightarrow> Some (m, Wrapf m e) | None \<Rightarrow> first_fault flt ms)"

section \<open>Network slots and addresses\<close>

definition newSlotPool :: "nat \<Rightarrow> int list" where
  "newSlotPool n = map int [0..<n]"

definition SlotPool_Acquire ::
    "(string \<Rightarrow> go_error option) \<Rightarrow> Host \<Rightarrow> (go_error + int) \<times> Host" where
  "SlotPool_Acquire flt h =
     (case slots h of
        slot # rest \<Rightarrow> (Inr slot, h\<lparr>slots := rest\<rparr>)
      | [] \<Rightarrow> (Inl (Wrapf ''context cancelled waiting for network slot''
                 (case flt ''context'' of Some e \<Rightarrow> e | None \<Rightarrow> Sentinel ContextDeadlineExceeded)), h))"

definition SlotPool_Release :: "int \<Rightarrow> Host \<Rightarrow> Host" where
  "SlotPool_Release slot h = h\<lparr>slots := slots h @ [slot]\<rparr>"

text \<open>TAP name, host address and guest address of the next cold-boot VM.\<close>

definition allocateNetwork :: "Host \<Rightarrow> (string \<times> string \<times> string) \<times> Host" where
  "allocateNetwork h =
     (let idx = int (unat (nextNetIdx h)) in
      ((''fctap'' @ itoa idx, ''172.16.'' @ itoa idx @ ''.1'', ''172.16.'' @ itoa idx @ ''.2''),
       h\<lparr>nextNetIdx := nextNetIdx h + 1\<rparr>))"

definition SetSlotEgress ::
    "fc_env \<Rightarrow> int \<Rightarrow> bool \<Rightarrow> Host \<Rightarrow> go_error option \<times> Host" where
  "SetSlotEgress E slot allow h =
     (if slot < 0 then (None, h)
      else let flt = fc_fault E (htick h); h1 = tick h in
           if allow
           then (case flt ''nft delete'' of
                   Some e \<Rightarrow> (Some (Wrapf (''unblock egress veth-fc-'' @ itoa slot) e), h1)
                 | None \<Rightarrow> (None, h1\<lparr>blocked_veths := removeAll slot (blocked_veths h1)\<rparr>))
           else (case flt ''nft add'' of
                   Some e \<Rightarrow> (Some (Wrapf (''block egress veth-fc-'' @ itoa slot) e), h1)
                 | None \<Rightarrow> (None, h1\<lparr>blocked_veths := List.insert slot (blocked_veths h1)\<rparr>)))"

section \<open>Create and boot\<close>

definition getSocketPath :: "fc_env \<Rightarrow> string \<Rightarrow> string" where
  "getSocketPath E vmID = path_join (SocketDir E) (vmID @ ''.sock'')"

definition vsock_path :: "fc_env \<Rightarrow> string \<Rightarrow> string" where
  "vsock_path E vmID = path_join (SocketDir E) (''vsock-'' @ vmID @ ''.sock'')"

definition rootfs_copy :: "fc_env \<Rightarrow> string \<Rightarrow> string" where
  "rootfs_copy E vmID = path_join (SocketDir E) (''rootfs-'' @ vmID @ ''.ext4'')"

definition copyFile ::
    "(string \<Rightarrow> go_error option) \<Rightarrow> string \<Rightarrow> string \<Rightarrow> string list \<Rightarrow> go_error option \<times> string list" where
  "copyFile flt src dst fs =
     (if \<not> List.member fs src then (Some (ErrNew ''no such file''), fs)
      else case flt ''create copy'' of
             Some e \<Rightarrow> (Some e, fs)
           | None \<Rightarrow> (flt ''copy'', fadd dst fs))"

definition chownForFC :: "fc_env \<Rightarrow> (string \<Rightarrow> go_error option) \<Rightarrow> go_error option" where
  "chownForFC E flt = (if FCUid E \<le> 0 then None else flt ''chown'')"

definition defaultWritableDiskMB :: int where
  "defaultWritableDiskMB = 10 * 1024"

definition writable_disk_mb :: "VMConfig \<Rightarrow> int" where
  "writable_disk_mb cfg =
     (if DiskMB cfg \<le> 0
      then (if cfg_DiskGB cfg > 0 then wrap64 (cfg_DiskGB cfg * 1024) else defaultWritableDiskMB)
      else DiskMB cfg)"

definition create_disk ::
    "fc_env \<Rightarrow> (string \<Rightarrow> go_error option) \<Rightarrow> string \<Rightarrow> VMConfig \<Rightarrow> string list
     \<Rightarrow> (go_error + string) \<times> string list" where
  "create_disk E flt vmID cfg fs =
     (case disk_Create (writableDisks E) flt vmID (writable_disk_mb cfg) fs of
        (Inl e, fs') \<Rightarrow> (Inl (Wrapf (''failed to create writable disk for VM '' @ vmID) e), fs')
      | (Inr path, fs') \<Rightarrow>
          (case chownForFC E flt of
             Some e \<Rightarrow> (Inl (Wrapf (''chown writable disk for VM '' @ vmID) e),
                        snd (disk_Delete (writableDisks E) flt path fs'))
           | None \<Rightarrow> (Inr path, fs')))"

definition Create :: "fc_env \<Rightarrow> VMConfig \<Rightarrow> Host \<Rightarrow> (go_error + MicroVM) \<times> Host" where
  "Create E cfg h =
     (let flt = fc_fault E (htick h); vmID = fc_uuid E (htick h); h1 = tick h;
          register = (\<lambda>cfg' disk fs.
            let vm = \<lparr>vm_ID = vmID, vm_Config = cfg', vm_State = VMStateCreated,
                      VsockPath = vsock_path E vmID, SocketPath = getSocketPath E vmID,
                      WritableDiskPath = disk, TapName = [], Slot = -1, vm_Process = False\<rparr>
            in (Inr vm, h1\<lparr>files := fs, Vms := mput vmID vm (Vms h1)\<rparr>))
      in if InitrdPath cfg = []
         then (case copyFile flt (RootfsPath cfg) (rootfs_copy E vmID) (files h1) of
                 (Some e, fs) \<Rightarrow> (Inl (Wrapf (''failed to copy rootfs for VM '' @ vmID) e),
                                  h1\<lparr>files := fs\<rparr>)
               | (None, fs) \<Rightarrow> register (cfg\<lparr>RootfsPath := rootfs_copy E vmID\<rparr>) [] fs)
         else (case create_disk E flt vmID cfg (files h1) of
                 (Inl e, fs) \<Rightarrow> (Inl e, h1\<lparr>files := fs\<rparr>)
               | (Inr disk, fs) \<Rightarrow> register cfg disk fs))"

text \<open>
  \<open>createTAP\<close> removes the device again when it cannot be configured. The remaining steps of
  \<open>Boot\<close> run against the started process; a step that fails leaves that process running.
\<close>

definition createTAP ::
    "(string \<Rightarrow> go_error option) \<Rightarrow> string \<Rightarrow> string list \<Rightarrow> go_error option \<times> string list" where
  "createTAP flt tap ts =
     (case first_fault flt [''create TAP '', ''assign IP to TAP '', ''bring up TAP ''] of
        Some (m, e) \<Rightarrow> (Some e, removeAll tap ts)
      | None \<Rightarrow> (None, List.insert tap ts))"

definition boot_drives :: "VMConfig \<Rightarrow> string list" where
  "boot_drives cfg =
     (if InitrdPath cfg \<noteq> [] then [''failed to set lower drive'', ''failed to set writable drive'']
      else [''failed to set drive''])"

definition boot_network ::
    "(string \<Rightarrow> go_error option) \<Rightarrow> string \<Rightarrow> string list \<Rightarrow> string \<times> string list" where
  "boot_network flt tap ts =
     (case createTAP flt tap ts of
        (Some e, ts') \<Rightarrow> ([], ts')
      | (None, ts') \<Rightarrow>
          (case flt ''network interface'' of
             Some e \<Rightarrow> ([], removeAll tap ts')
           | None \<Rightarrow> (tap, ts')))"

definition Boot :: "fc_env \<Rightarrow> string \<Rightarrow> Host \<Rightarrow> go_error option \<times> Host" where
  "Boot E vmID h =
     (let flt = fc_fault E (htick h); h1 = tick h in
      case mget (Vms h1) vmID of
        None \<Rightarrow> (Some (ErrNew (''VM '' @ vmID @ '' not found'')), h1)
      | Some vm \<Rightarrow>
          (case first_fault flt [''provision gate''] of
             Some (m, e) \<Rightarrow> (Some e, h1)
           | None \<Rightarrow>
               let ((tap, hostIP, guestIP), h2) = allocateNetwork h1 in
               (case first_fault flt [''failed to start firecracker''] of
                  Some (m, e) \<Rightarrow> (Some e, h2)
                | None \<Rightarrow>
                    let h3 = h2\<lparr>procs := List.insert (SocketPath vm) (procs h2),
                                files := fadd (SocketPath vm) (files h2)\<rparr> in
                    (case first_fault flt ([''failed to set boot source''] @ boot_drives (vm_Config vm)
                              @ [''failed to set machine config'']) of
                       Some (m, e) \<Rightarrow> (Some e, h3)
                     | None \<Rightarrow>
                         let h4 = h3\<lparr>nextCID := nextCID h3 + 1\<rparr> in
                         (case first_fault flt [''failed to set vsock''] of
                            Some (m, e) \<Rightarrow> (Some e, h4)
                          | None \<Rightarrow>
                              let (vmTap, ts) = boot_network flt tap (taps h4);
                                  vm1 = (if vmTap = [] then vm else vm\<lparr>TapName := vmTap\<rparr>);
                                  h5 = h4\<lparr>taps := ts, Vms := mput vmID vm1 (Vms h4)\<rparr> in
                              (case first_fault flt [''failed to start instance''] of
                                 Some (m, e) \<Rightarrow> (Some e, h5)
                               | None \<Rightarrow>
                                   (None, h5\<lparr>Vms := mput vmID
                                       (vm1\<lparr>vm_Process := True, vm_State := VMStateRunning\<rparr>) (Vms h5),
                                     files := fadd (VsockPath vm) (files h5)\<rparr>)))))))"

definition Stop :: "fc_env \<Rightarrow> string \<Rightarrow> Host \<Rightarrow> go_error option \<times> Host" where
  "Stop E vmID h =
     (let flt = fc_fault E (htick h); h1 = tick h in
      case mget (Vms h1) vmID of
        None \<Rightarrow> (Some (ErrNew (''VM '' @ vmID @ '' not found'')), h1)
      | Some vm \<Rightarrow>
          (case first_fault flt [''failed to stop instance''] of
             Some (m, e) \<Rightarrow> (Some e, h1)
           | None \<Rightarrow> (None, h1\<lparr>Vms := mput vmID (vm\<lparr>vm_State := VMStateStopped\<rparr>) (Vms h1)\<rparr>)))"

section \<open>Teardown\<close>

definition teardown_files :: "fc_env \<Rightarrow> (string \<Rightarrow> go_error option) \<Rightarrow> bool \<Rightarrow> MicroVM \<Rightarrow> string list \<Rightarrow> string list" where
  "teardown_files E flt keepDisk vm fs =
     (let f1 = fdel (VsockPath vm) (fdel (SocketPath vm) fs);
          f2 = (if InitrdPath (vm_Config vm) = [] then fdel (RootfsPath (vm_Config vm)) f1 else f1)
      in if \<not> keepDisk \<and> WritableDiskPath vm \<noteq> []
         then snd (disk_Delete (writableDisks E) flt (WritableDiskPath vm) f2) else f2)"

definition teardown :: "fc_env \<Rightarrow> string \<Rightarrow> bool \<Rightarrow> Host \<Rightarrow> go_error option \<times> Host" where
  "teardown E vmID keepDisk h =
     (let flt = fc_fault E (htick h); h1 = tick h in
      case mget (Vms h1) vmID of
        None \<Rightarrow> (Some (ErrNew (''VM '' @ vmID @ '' not found'')), h1)
      | Some vm \<Rightarrow>
          let h2 = h1\<lparr>Vms := mdel vmID (Vms h1),
                      procs := (if vm_Process vm then removeAll (SocketPath vm) (procs h1) else procs h1),
                      frozen := removeAll vmID (frozen h1),
                      files := teardown_files E flt keepDisk vm (files h1)\<rparr>
          in (None,
              if Slot vm \<ge> 0 then SlotPool_Release (Slot vm) h2
              else if TapName vm \<noteq> [] \<and> flt ''delete TAP'' = None
              then h2\<lparr>taps := removeAll (TapName vm) (taps h2)\<rparr> else h2))"

definition Destroy_vm :: "fc_env \<Rightarrow> string \<Rightarrow> Host \<Rightarrow> go_error option \<times> Host" where
  "Destroy_vm E vmID h = teardown E vmID False h"

definition TeardownKeepDisk :: "fc_env \<Rightarrow> string \<Rightarrow> Host \<Rightarrow> go_error option \<times> Host" where
  "TeardownKeepDisk E vmID h = teardown E vmID True h"

section \<open>Snapshot and restore\<close>

definition Snapshot :: "fc_env \<Rightarrow> string \<Rightarrow> string \<Rightarrow> string \<Rightarrow> Host \<Rightarrow> go_error option \<times> Host" where
  "Snapshot E vmID snapPath memPath h =
     (let flt = fc_fault E (htick h); h1 = tick h in
      case mget (Vms h1) vmID of
        None \<Rightarrow> (Some (ErrNew (''VM '' @ vmID @ '' not found'')), h1)
      | Some vm \<Rightarrow>
          (case first_fault flt [''failed to pause VM''] of
             Some (m, e) \<Rightarrow> (Some e, h1)
           | None \<Rightarrow>
               let h2 = h1\<lparr>frozen := List.insert vmID (frozen h1)\<rparr> in
               (case flt ''snapshot create'' of
                  Some e \<Rightarrow> (Some e, h2)
                | None \<Rightarrow> (None, h2\<lparr>files := fadd memPath (fadd snapPath (files h2))\<rparr>))))"

definition ResumeLive :: "fc_env \<Rightarrow> string \<Rightarrow> Host \<Rightarrow> go_error option \<times> Host" where
  "ResumeLive E vmID h =
     (let flt = fc_fault E (htick h); h1 = tick h in
      case mget (Vms h1) vmID of
        None \<Rightarrow> (Some (ErrNew (''VM '' @ vmID @ '' not found'')), h1)
      | Some vm \<Rightarrow>
          (case first_fault flt [''failed to resume VM''] of
             Some (m, e) \<Rightarrow> (Some e, h1)
           | None \<Rightarrow> (None, h1\<lparr>frozen := removeAll vmID (frozen h1)\<rparr>)))"

definition restoreCleanup ::
    "fc_env \<Rightarrow> (string \<Rightarrow> go_error option) \<Rightarrow> bool \<Rightarrow> string \<Rightarrow> string \<Rightarrow> int \<Rightarrow> Host \<Rightarrow> Host" where
  "restoreCleanup E flt cloneDisk disk socket slot h =
     (let h1 = SlotPool_Release slot (h\<lparr>procs := removeAll socket (procs h)\<rparr>)
      in if cloneDisk then h1\<lparr>files := snd (disk_Delete (writableDisks E) flt disk (files h1))\<rparr> else h1)"

text \<open>The disk of the restored VM: a clone of the template's, or the template's in place.\<close>

definition restore_disk ::
    "fc_env \<Rightarrow> (string \<Rightarrow> go_error option) \<Rightarrow> bool \<Rightarrow> string \<Rightarrow> string \<Rightarrow> string list
     \<Rightarrow> (go_error + string) \<times> string \<times> string list" where
  "restore_disk E flt cloneDisk vmID source fs =
     (if \<not> cloneDisk then (Inr source, source, fs)
      else case disk_Clone (writableDisks E) flt vmID source fs of
             (Inl e, fs') \<Rightarrow> (Inl (Wrapf ''clone writable disk failed'' e), [], fs')
           | (Inr path, fs') \<Rightarrow>
               (case chownForFC E flt of
                  Some e \<Rightarrow> (Inl (Wrapf ''chown writable disk failed'' e), path, fs')
                | None \<Rightarrow> (Inr path, path, fs')))"

definition restore_calls :: "string list" where
  "restore_calls = [''snapshot load failed'', ''lower drive update failed'',
     ''writable drive update failed'', ''resume failed'',
     ''vsock did not become ready after resume'', ''vsock rename failed'']"

text \<open>The part of \<open>loadSnapshot\<close> that holds the restore lock.\<close>

definition restore_guest ::
    "fc_env \<Rightarrow> (string \<Rightarrow> go_error option) \<Rightarrow> VMConfig \<Rightarrow> SnapshotTemplate \<Rightarrow> bool \<Rightarrow> string \<Rightarrow> int \<Rightarrow> Host
     \<Rightarrow> (go_error + MicroVM) \<times> Host" where
  "restore_guest E flt cfg tmpl cloneDisk vmID slot h =
     (let socket = getSocketPath E vmID;
          h4 = h\<lparr>files := fdel (tp_VsockPath tmpl) (files h)\<rparr>;
          (dres, disk, fs) = restore_disk E flt cloneDisk vmID (tp_WritableDiskPath tmpl) (files h4);
          h5 = h4\<lparr>files := fs\<rparr> in
      case dres of
        Inl e \<Rightarrow> (Inl e, restoreCleanup E flt cloneDisk disk socket slot h5)
      | Inr _ \<Rightarrow>
          (case first_fault flt restore_calls of
             Some (m, e) \<Rightarrow>
               (Inl e, restoreCleanup E flt cloneDisk disk socket slot
                  (if m = ''vsock rename failed''
                   then h5\<lparr>files := fadd (tp_VsockPath tmpl) (files h5)\<rparr> else h5))
           | None \<Rightarrow>
               let vm = \<lparr>vm_ID = vmID, vm_Config = cfg, vm_State = VMStateRunning,
                         VsockPath = vsock_path E vmID, SocketPath = socket, WritableDiskPath = disk,
                         TapName = ''fc-tap-'' @ itoa slot, Slot = slot, vm_Process = True\<rparr>
               in (Inr vm, h5\<lparr>Vms := mput vmID vm (Vms h5),
                              files := fadd (vsock_path E vmID) (files h5)\<rparr>)))"

definition loadSnapshot ::
    "fc_env \<Rightarrow> VMConfig \<Rightarrow> SnapshotTemplate \<Rightarrow> bool \<Rightarrow> Host \<Rightarrow> (go_error + MicroVM) \<times> Host" where
  "loadSnapshot E cfg tmpl cloneDisk h =
     (let flt = fc_fault E (htick h); vmID = fc_uuid E (htick h); h1 = tick h;
          socket = getSocketPath E vmID in
      case first_fault flt [''provision gate''] of
        Some (m, e) \<Rightarrow> (Inl e, h1)
      | None \<Rightarrow>
          (case SlotPool_Acquire flt h1 of
             (Inl e, h2) \<Rightarrow> (Inl (Wrapf ''failed to acquire network slot'' e), h2)
           | (Inr slot, h2) \<Rightarrow>
               (case first_fault flt [''failed to start firecracker''] of
                  Some (m, e) \<Rightarrow> (Inl e, SlotPool_Release slot h2)
                | None \<Rightarrow>
                    let h3 = h2\<lparr>procs := List.insert socket (procs h2), files := fadd socket (files h2)\<rparr> in
                    (case (if tp_TapName tmpl \<noteq> [] then first_fault flt [''TAP pre-rename failed''] else None) of
                       Some (m, e) \<Rightarrow>
                         (Inl e, SlotPool_Release slot (h3\<lparr>procs := removeAll socket (procs h3)\<rparr>))
                     | None \<Rightarrow> restore_guest E flt cfg tmpl cloneDisk vmID slot h3))))"

definition LoadFromSnapshot ::
    "fc_env \<Rightarrow> VMConfig \<Rightarrow> SnapshotTemplate \<Rightarrow> Host \<Rightarrow> (go_error + MicroVM) \<times> Host" where
  "LoadFromSnapshot E cfg tmpl h = loadSnapshot E cfg tmpl True h"

definition ResumeFromSnapshot ::
    "fc_env \<Rightarrow> VMConfig \<Rightarrow> SnapshotTemplate \<Rightarrow> Host \<Rightarrow> (go_error + MicroVM) \<times> Host" where
  "ResumeFromSnapshot E cfg tmpl h = loadSnapshot E cfg tmpl False h"

section \<open>Building a template\<close>

text \<open>
  The commands run in the build VM are answered by \<open>run\<close>, with a transport error or an exit
  code. The warm-up changes nothing the model keeps.
\<close>

definition provision_commands :: "(string \<Rightarrow> go_error + int) \<Rightarrow> string list \<Rightarrow> go_error option" where
  "provision_commands run cmds =
     foldr (\<lambda>cmd rest.
       case run cmd of
         Inl e \<Rightarrow> Some (Wrapf (''provision '' @ quoted cmd @ '' transport failed'') e)
       | Inr code \<Rightarrow>
           if code \<noteq> 0 then Some (ErrNew (''provision '' @ quoted cmd @ '' failed (exit '' @ itoa code @ '')''))
           else rest) cmds None"

definition template_cleanup :: "string \<Rightarrow> MicroVM \<Rightarrow> Host \<Rightarrow> Host" where
  "template_cleanup vmID vm h =
     h\<lparr>Vms := mdel vmID (Vms h),
       procs := (if vm_Process vm then removeAll (SocketPath vm) (procs h) else procs h),
       frozen := removeAll vmID (frozen h),
       files := fdel (VsockPath vm) (fdel (SocketPath vm) (files h)),
       taps := (if TapName vm \<noteq> [] then removeAll (TapName vm) (taps h) else taps h)\<rparr>"

definition CreateTemplateWithProvision ::
    "fc_env \<Rightarrow> VMConfig \<Rightarrow> string \<Rightarrow> (string \<Rightarrow> go_error + int) \<Rightarrow> string list \<Rightarrow> Host
     \<Rightarrow> (go_error + SnapshotTemplate) \<times> Host" where
  "CreateTemplateWithProvision E cfg snapDir run cmds h =
     (let flt = fc_fault E (htick h); h0 = tick h;
          abort = (\<lambda>e vmID g. (Inl e, snd (Destroy_vm E vmID g))) in
      case flt ''mkdir'' of
        Some e \<Rightarrow> (Inl e, h0)
      | None \<Rightarrow>
      (case chownForFC E flt of
        Some e \<Rightarrow> (Inl (Wrapf (''chown snapshot dir '' @ snapDir) e), h0)
      | None \<Rightarrow>
      (case Create E cfg h0 of
        (Inl e, h1) \<Rightarrow> (Inl e, h1)
      | (Inr vm0, h1) \<Rightarrow>
      (case Boot E (vm_ID vm0) h1 of
        (Some e, h2) \<Rightarrow> abort e (vm_ID vm0) h2
      | (None, h2) \<Rightarrow>
      if flt ''vsock'' \<noteq> None
      then abort (ErrNew ''vsock never became ready for template VM'') (vm_ID vm0) h2
      else
      (case (if cmds = [] then None
             else case flt ''connect'' of
                    Some e \<Rightarrow> Some (Wrapf (''provision: vsock connect for VM '' @ vm_ID vm0) e)
                  | None \<Rightarrow> provision_commands run cmds) of
        Some e \<Rightarrow> abort e (vm_ID vm0) h2
      | None \<Rightarrow>
      let snapPath = path_join snapDir ''template.snap''; memPath = path_join snapDir ''template.mem'' in
      (case Snapshot E (vm_ID vm0) snapPath memPath h2 of
        (Some e, h3) \<Rightarrow> abort (Wrapf ''snapshot failed'' e) (vm_ID vm0) h3
      | (None, h3) \<Rightarrow>
          let vm = (case mget (Vms h3) (vm_ID vm0) of Some v \<Rightarrow> v | None \<Rightarrow> vm0) in
          (Inr \<lparr>tp_SnapPath = snapPath, tp_MemPath = memPath, tp_RootfsPath = RootfsPath (vm_Config vm),
                tp_WritableDiskPath = WritableDiskPath vm, tp_VsockPath = VsockPath vm,
                tp_TapName = TapName vm\<rparr>,
           template_cleanup (vm_ID vm0) vm h3)))))))"

section \<open>Slots are conserved\<close>

definition slot_mset :: "(string, MicroVM) gomap \<Rightarrow> int multiset" where
  "slot_mset m = mset (filter (\<lambda>s. 0 \<le> s) (map (\<lambda>kv. Slot (snd kv)) m))"

definition host_inv :: "fc_env \<Rightarrow> nat \<Rightarrow> Host \<Rightarrow> bool" where
  "host_inv E n h \<longleftrightarrow>
     mset (slots h) + slot_mset (Vms h) = mset (newSlotPool n)
     \<and> mwf (Vms h)
     \<and> (\<forall>k vm. mget (Vms h) k = Some vm \<longrightarrow> vm_ID vm = k \<and> (\<exists>m < htick h. k = fc_uuid E m))"

lemma tick_simps [simp]:
  "Vms (tick h) = Vms h" "slots (tick h) = slots h" "procs (tick h) = procs h"
  "frozen (tick h) = frozen h" "files (tick h) = files h" "taps (tick h) = taps h"
  "blocked_veths (tick h) = blocked_veths h" "htick (tick h) = Suc (htick h)"
  "cgroups (tick h) = cgroups h" "nextNetIdx (tick h) = nextNetIdx h" "nextCID (tick h) = nextCID h"
  by (simp_all add: tick_def)

lemma SlotPool_Release_simps [simp]:
  "Vms (SlotPool_Release s h) = Vms h" "slots (SlotPool_Release s h) = slots h @ [s]"
  "procs (SlotPool_Release s h) = procs h" "files (SlotPool_Release s h) = files h"
  "htick (SlotPool_Release s h) = htick h" "frozen (SlotPool_Release s h) = frozen h"
  "blocked_veths (SlotPool_Release s h) = blocked_veths h"
  by (simp_all add: SlotPool_Release_def)

lemma restoreCleanup_simps [simp]:
  "Vms (restoreCleanup E flt c d k s h) = Vms h" "slots (restoreCleanup E flt c d k s h) = slots h @ [s]"
  "procs (restoreCleanup E flt c d k s h) = removeAll k (procs h)"
  "htick (restoreCleanup E flt c d k s h) = htick h" "frozen (restoreCleanup E flt c d k s h) = frozen h"
  "blocked_veths (restoreCleanup E flt c d k s h) = blocked_veths h"
  by (simp_all add: restoreCleanup_def Let_def)

lemma allocateNetwork_simps [simp]:
  "Vms (snd (allocateNetwork h)) = Vms h" "slots (snd (allocateNetwork h)) = slots h"
  "htick (snd (allocateNetwork h)) = htick h" "procs (snd (allocateNetwork h)) = procs h"
  "files (snd (allocateNetwork h)) = files h" "frozen (snd (allocateNetwork h)) = frozen h"
  "taps (snd (allocateNetwork h)) = taps h" "blocked_veths (snd (allocateNetwork h)) = blocked_veths h"
  by (simp_all add: allocateNetwork_def Let_def)

lemma slot_mset_fresh:
  "mget m k = None \<Longrightarrow> slot_mset (mput k vm m)
     = slot_mset m + (if 0 \<le> Slot vm then {#Slot vm#} else {#})"
  by (simp add: slot_mset_def mput_fresh)

lemma slot_mset_same: "mget m k = Some v \<Longrightarrow> Slot vm = Slot v \<Longrightarrow> slot_mset (mput k vm m) = slot_mset m"
  by (induction m) (auto simp: slot_mset_def split: if_splits)

lemma slot_mset_mdel:
  "mwf m \<Longrightarrow> mget m k = Some vm \<Longrightarrow> slot_mset m
     = slot_mset (mdel k m) + (if 0 \<le> Slot vm then {#Slot vm#} else {#})"
proof (induction m)
  case (Cons kv m)
  have k: "mget m (fst kv) = None" and m: "mwf m"
    using Cons.prems(1) by (auto simp: mwf_def map_of_eq_None_iff)
  show ?case
  proof (cases "fst kv = k")
    case True
    with k have "mdel k m = m" by (simp add: mdel_idle)
    with True Cons.prems(2) show ?thesis by (cases kv) (auto simp: slot_mset_def)
  next
    case False
    with Cons.IH[OF m] Cons.prems(2) show ?thesis by (cases kv) (auto simp: slot_mset_def)
  qed
qed simp

lemma slot_mset_in:
  assumes "mget m k = Some vm" and "0 \<le> Slot vm"
  shows "Slot vm \<in># slot_mset m"
  using map_of_SomeD[OF assms(1)] assms(2) by (force simp: slot_mset_def)

text \<open>The ways an operation changes the registered VMs, each of which keeps the invariant.\<close>

lemma host_inv_frame:
  assumes "host_inv E n h" and "Vms h' = Vms h" and "mset (slots h') = mset (slots h)"
    and "htick h \<le> htick h'"
  shows "host_inv E n h'"
  using assms unfolding host_inv_def by (metis order.strict_trans2)

lemma host_inv_update:
  assumes "host_inv E n h" and "mget (Vms h) k = Some v" and "Vms h' = mput k vm (Vms h)"
    and "Slot vm = Slot v" and "vm_ID vm = k" and "mset (slots h') = mset (slots h)"
    and "htick h \<le> htick h'"
  shows "host_inv E n h'"
  using assms slot_mset_same[OF assms(2,4)] unfolding host_inv_def
  by (auto split: if_splits dest: order.strict_trans2) (metis order.strict_trans2)+

lemma host_inv_fresh:
  assumes "host_inv E n h" and "inj (fc_uuid E)" and "Vms h' = mput (fc_uuid E (htick h)) vm (Vms h)"
    and "vm_ID vm = fc_uuid E (htick h)" and "htick h < htick h'"
    and "mset (slots h) = mset (slots h') + (if 0 \<le> Slot vm then {#Slot vm#} else {#})"
  shows "host_inv E n h'"
proof -
  have "mget (Vms h) (fc_uuid E (htick h)) = None"
    using assms(1,2) unfolding host_inv_def by (metis injD nat_less_le not_None_eq)
  from slot_mset_fresh[OF this, of vm] assms show ?thesis
    unfolding host_inv_def by (auto split: if_splits) (metis order.strict_trans)+
qed

lemma host_inv_removed:
  assumes "host_inv E n h" and "mget (Vms h) k = Some vm" and "Vms h' = mdel k (Vms h)"
    and "mset (slots h') = mset (slots h) + (if 0 \<le> Slot vm then {#Slot vm#} else {#})"
    and "htick h \<le> htick h'"
  shows "host_inv E n h'"
proof -
  have "mwf (Vms h)" using assms(1) by (simp add: host_inv_def)
  from slot_mset_mdel[OF this assms(2)] assms show ?thesis
    unfolding host_inv_def by (auto split: if_splits) (metis order.strict_trans2)+
qed

text \<open>The part of the host that the egress rules and the cgroups do not touch.\<close>

definition host_core :: "Host \<Rightarrow> (string, MicroVM) gomap \<times> int list \<times> string list \<times> string list \<times> string list" where
  "host_core h = (Vms h, slots h, files h, procs h, frozen h)"

lemma host_core_tick [simp]: "host_core (tick h) = host_core h"
  by (simp add: host_core_def)

lemma SetSlotEgress_effect:
  assumes "SetSlotEgress E slot allow h = (r, h')"
  shows "host_core h' = host_core h" and "htick h \<le> htick h'" and "cgroups h' = cgroups h"
    and "r = Some e \<Longrightarrow> blocked_veths h' = blocked_veths h"
    and "r = None \<Longrightarrow> 0 \<le> slot \<Longrightarrow> set (blocked_veths h')
           = (if allow then set (blocked_veths h) - {slot} else insert slot (set (blocked_veths h)))"
    and "slot < 0 \<Longrightarrow> r = None \<and> h' = h"
  using assms by (auto simp: SetSlotEgress_def host_core_def Let_def split: if_splits option.splits)

subsection \<open>Each operation\<close>

lemma Create_effect:
  obtains (failed) e h' where "Create E cfg h = (Inl e, h')" "Vms h' = Vms h" "slots h' = slots h"
      "htick h' = Suc (htick h)" "procs h' = procs h"
  | (created) vm h' where "Create E cfg h = (Inr vm, h')" "vm_ID vm = fc_uuid E (htick h)"
      "Slot vm = -1" "\<not> vm_Process vm" "Vms h' = mput (fc_uuid E (htick h)) vm (Vms h)"
      "slots h' = slots h" "htick h' = Suc (htick h)" "procs h' = procs h"
proof (cases "Create E cfg h")
  case (Pair r h')
  show ?thesis
  proof (cases r)
    case (Inl e)
    with Pair have "Vms h' = Vms h \<and> slots h' = slots h \<and> htick h' = Suc (htick h) \<and> procs h' = procs h"
      by (auto simp: Create_def Let_def split: if_splits prod.splits option.splits sum.splits)
    with Pair Inl failed show ?thesis by blast
  next
    case (Inr vm)
    with Pair have "vm_ID vm = fc_uuid E (htick h) \<and> Slot vm = -1 \<and> \<not> vm_Process vm
       \<and> Vms h' = mput (fc_uuid E (htick h)) vm (Vms h) \<and> slots h' = slots h
       \<and> htick h' = Suc (htick h) \<and> procs h' = procs h"
      by (auto simp: Create_def Let_def split: if_splits prod.splits option.splits sum.splits)
    with Pair Inr created show ?thesis by blast
  qed
qed

lemma teardown_effect:
  obtains (missing) e where "mget (Vms h) k = None" "teardown E k keep h = (Some e, tick h)"
  | (removed) vm h' where "mget (Vms h) k = Some vm" "teardown E k keep h = (None, h')"
      "Vms h' = mdel k (Vms h)" "htick h' = Suc (htick h)"
      "slots h' = slots h @ (if 0 \<le> Slot vm then [Slot vm] else [])"
      "procs h' = (if vm_Process vm then removeAll (SocketPath vm) (procs h) else procs h)"
      "frozen h' = removeAll k (frozen h)" "blocked_veths h' = blocked_veths h"
      "files h' = teardown_files E (fc_fault E (htick h)) keep vm (files h)"
  by (cases "mget (Vms h) k") (auto simp: teardown_def Let_def split: if_splits)

lemma teardown_present:
  assumes "mget (Vms h) k = Some vm"
  shows "fst (teardown E k keep h) = None" "Vms (snd (teardown E k keep h)) = mdel k (Vms h)"
    "slots (snd (teardown E k keep h)) = slots h @ (if 0 \<le> Slot vm then [Slot vm] else [])"
    "files (snd (teardown E k keep h)) = teardown_files E (fc_fault E (htick h)) keep vm (files h)"
    "frozen (snd (teardown E k keep h)) = removeAll k (frozen h)"
  using assms by (auto simp: teardown_def Let_def)

text \<open>
  A restore that fails gives the slot back, kills the process it started and registers no VM.
\<close>

definition restore_undone :: "fc_env \<Rightarrow> bool \<Rightarrow> SnapshotTemplate \<Rightarrow> string \<Rightarrow> Host \<Rightarrow> Host \<Rightarrow> bool" where
  "restore_undone E c tmpl socket h h' \<longleftrightarrow>
     Vms h' = Vms h \<and> mset (slots h') = mset (slots h) \<and> frozen h' = frozen h
     \<and> blocked_veths h' = blocked_veths h
     \<and> (set (procs h') = set (procs h) \<or> set (procs h') = set (procs h) - {socket})
     \<and> (\<not> c \<longrightarrow> set (files h) - {tp_VsockPath tmpl} \<subseteq> set (files h'))"

definition restore_done ::
    "fc_env \<Rightarrow> VMConfig \<Rightarrow> bool \<Rightarrow> SnapshotTemplate \<Rightarrow> string \<Rightarrow> Host \<Rightarrow> MicroVM \<Rightarrow> Host \<Rightarrow> bool" where
  "restore_done E cfg c tmpl vmID h vm h' \<longleftrightarrow>
     vm_ID vm = vmID \<and> vm_Config vm = cfg \<and> slots h = Slot vm # slots h' \<and> vm_Process vm
     \<and> SocketPath vm = getSocketPath E vmID \<and> Vms h' = mput vmID vm (Vms h)
     \<and> frozen h' = frozen h \<and> blocked_veths h' = blocked_veths h
     \<and> set (procs h') = insert (SocketPath vm) (set (procs h))
     \<and> VsockPath vm = vsock_path E vmID
     \<and> (\<not> c \<longrightarrow> WritableDiskPath vm = tp_WritableDiskPath tmpl
              \<and> set (files h) - {tp_VsockPath tmpl} \<subseteq> set (files h'))"

lemma restore_guest_effect:
  assumes "restore_guest E flt cfg tmpl c vmID slot h = (r, h')"
  shows "htick h' = htick h \<and> (case r of
      Inl e \<Rightarrow> Vms h' = Vms h \<and> slots h' = slots h @ [slot] \<and> frozen h' = frozen h
        \<and> blocked_veths h' = blocked_veths h \<and> procs h' = removeAll (getSocketPath E vmID) (procs h)
        \<and> (\<not> c \<longrightarrow> set (files h) - {tp_VsockPath tmpl} \<subseteq> set (files h'))
    | Inr vm \<Rightarrow> vm_ID vm = vmID \<and> Slot vm = slot \<and> slots h' = slots h \<and> vm_Process vm
        \<and> SocketPath vm = getSocketPath E vmID \<and> Vms h' = mput vmID vm (Vms h)
        \<and> frozen h' = frozen h \<and> blocked_veths h' = blocked_veths h \<and> procs h' = procs h
        \<and> VsockPath vm = vsock_path E vmID \<and> vm_Config vm = cfg
        \<and> (\<not> c \<longrightarrow> WritableDiskPath vm = tp_WritableDiskPath tmpl
                 \<and> set (files h) - {tp_VsockPath tmpl} \<subseteq> set (files h')))"
proof -
  obtain dres disk fs where d: "restore_disk E flt c vmID (tp_WritableDiskPath tmpl)
      (fdel (tp_VsockPath tmpl) (files h)) = (dres, disk, fs)" by (metis prod_cases3)
  have nc: "disk = tp_WritableDiskPath tmpl \<and> fs = fdel (tp_VsockPath tmpl) (files h)" if "\<not> c"
    using d that by (simp add: restore_disk_def)
  show ?thesis
  proof (cases dres)
    case (Inl e)
    with assms d nc show ?thesis by (auto simp: restore_guest_def restoreCleanup_def Let_def)
  next
    case (Inr x)
    show ?thesis
    proof (cases "first_fault flt restore_calls")
      case None
      with assms d Inr nc show ?thesis by (auto simp: restore_guest_def Let_def)
    next
      case (Some me)
      with assms d Inr nc show ?thesis
        by (cases me) (auto simp: restore_guest_def restoreCleanup_def Let_def)
    qed
  qed
qed

lemma loadSnapshot_effect:
  assumes "loadSnapshot E cfg tmpl c h = (r, h')"
  shows "htick h' = Suc (htick h) \<and> (case r of
      Inl e \<Rightarrow> restore_undone E c tmpl (getSocketPath E (fc_uuid E (htick h))) h h'
    | Inr vm \<Rightarrow> restore_done E cfg c tmpl (fc_uuid E (htick h)) h vm h')"
proof -
  let ?flt = "fc_fault E (htick h)" and ?id = "fc_uuid E (htick h)"
  show ?thesis
  proof (cases "first_fault ?flt [''provision gate''] \<noteq> None \<or> slots h = []")
    case True
    with assms show ?thesis
      by (auto simp: loadSnapshot_def SlotPool_Acquire_def restore_undone_def Let_def split: option.splits list.splits)
  next
    case False
    then have gate: "first_fault ?flt [''provision gate''] = None" by blast
    obtain slot rest where sl: "slots h = slot # rest" using False by (cases "slots h") auto
    let ?h2 = "(tick h)\<lparr>slots := rest\<rparr>"
    let ?h3 = "?h2\<lparr>procs := List.insert (getSocketPath E ?id) (procs ?h2),
                   files := fadd (getSocketPath E ?id) (files ?h2)\<rparr>"
    show ?thesis
    proof (cases "first_fault ?flt [''failed to start firecracker'']
        = None \<and> (tp_TapName tmpl = [] \<or> first_fault ?flt [''TAP pre-rename failed''] = None)")
      case False
      with assms sl gate show ?thesis
        by (auto simp: loadSnapshot_def SlotPool_Acquire_def restore_undone_def Let_def split: option.splits if_splits)
    next
      case True
      with assms sl gate have "restore_guest E ?flt cfg tmpl c ?id slot ?h3 = (r, h')"
        by (auto simp: loadSnapshot_def SlotPool_Acquire_def Let_def split: option.splits if_splits)
      from restore_guest_effect[OF this] sl show ?thesis
        by (cases r) (auto simp: restore_undone_def restore_done_def)
    qed
  qed
qed

lemma Boot_effect:
  assumes "Boot E k h = (r, h')"
  shows "slots h' = slots h" and "htick h' = Suc (htick h)"
    and "blocked_veths h' = blocked_veths h" and "frozen h' = frozen h"
    and "Vms h' = Vms h \<or> (\<exists>v vm. mget (Vms h) k = Some v \<and> Vms h' = mput k vm (Vms h)
           \<and> Slot vm = Slot v \<and> vm_ID vm = vm_ID v)"
proof -
  obtain tap ip g h2 where a: "allocateNetwork (tick h) = ((tap, ip, g), h2)" by (metis prod_cases3 surj_pair)
  with allocateNetwork_simps[of "tick h"] have h2: "Vms h2 = Vms h" "slots h2 = slots h"
    "htick h2 = Suc (htick h)" "frozen h2 = frozen h" "blocked_veths h2 = blocked_veths h" by simp_all
  have r: "slots h' = slots h \<and> htick h' = Suc (htick h) \<and> blocked_veths h' = blocked_veths h
      \<and> frozen h' = frozen h \<and> (Vms h' = Vms h \<or> (\<exists>v vm. mget (Vms h) k = Some v
         \<and> Vms h' = mput k vm (Vms h) \<and> Slot vm = Slot v \<and> vm_ID vm = vm_ID v))"
    using assms a h2
    by (auto simp: Boot_def Let_def split_beta split: option.splits if_splits)
  from r show "slots h' = slots h" "htick h' = Suc (htick h)" "blocked_veths h' = blocked_veths h"
    "frozen h' = frozen h" "Vms h' = Vms h \<or> (\<exists>v vm. mget (Vms h) k = Some v \<and> Vms h' = mput k vm (Vms h)
           \<and> Slot vm = Slot v \<and> vm_ID vm = vm_ID v)" by blast+
qed

datatype host_op =
    HCreate VMConfig
  | HBoot string
  | HStop string
  | HDestroy string
  | HTeardownKeepDisk string
  | HSnapshot string string string
  | HResumeLive string
  | HLoadFromSnapshot VMConfig SnapshotTemplate
  | HResumeFromSnapshot VMConfig SnapshotTemplate
  | HSetSlotEgress int bool

primrec host_exec :: "fc_env \<Rightarrow> host_op \<Rightarrow> Host \<Rightarrow> Host" where
  "host_exec E (HCreate cfg) h = snd (Create E cfg h)"
| "host_exec E (HBoot k) h = snd (Boot E k h)"
| "host_exec E (HStop k) h = snd (Stop E k h)"
| "host_exec E (HDestroy k) h = snd (Destroy_vm E k h)"
| "host_exec E (HTeardownKeepDisk k) h = snd (TeardownKeepDisk E k h)"
| "host_exec E (HSnapshot k sp mp) h = snd (Snapshot E k sp mp h)"
| "host_exec E (HResumeLive k) h = snd (ResumeLive E k h)"
| "host_exec E (HLoadFromSnapshot cfg tmpl) h = snd (LoadFromSnapshot E cfg tmpl h)"
| "host_exec E (HResumeFromSnapshot cfg tmpl) h = snd (ResumeFromSnapshot E cfg tmpl h)"
| "host_exec E (HSetSlotEgress slot allow) h = snd (SetSlotEgress E slot allow h)"

lemma Create_inv:
  assumes "host_inv E n h" and "inj (fc_uuid E)"
  shows "host_inv E n (snd (Create E cfg h))"
proof (cases rule: Create_effect[of E cfg h])
  case (failed e h')
  then show ?thesis using host_inv_frame[OF assms(1), of h'] by simp
next
  case (created vm h')
  then show ?thesis using host_inv_fresh[OF assms, of h' vm] by simp
qed

lemma Boot_inv: "host_inv E n h \<Longrightarrow> host_inv E n (snd (Boot E k h))"
proof -
  assume inv: "host_inv E n h"
  obtain r h' where b: "Boot E k h = (r, h')" by fastforce
  note B = Boot_effect[OF b]
  from B(5) show ?thesis
  proof (elim disjE exE conjE)
    assume "Vms h' = Vms h"
    with inv B b show ?thesis using host_inv_frame[of E n h h'] by simp
  next
    fix v vm assume v: "mget (Vms h) k = Some v" "Vms h' = mput k vm (Vms h)" "Slot vm = Slot v" "vm_ID vm = vm_ID v"
    moreover have "vm_ID v = k" using inv v(1) by (auto simp: host_inv_def)
    ultimately show ?thesis using host_inv_update[OF inv v(1,2,3)] B b by simp
  qed
qed

lemma teardown_inv: "host_inv E n h \<Longrightarrow> host_inv E n (snd (teardown E k keep h))"
  by (cases rule: teardown_effect[of h k E keep])
    (auto intro: host_inv_frame host_inv_removed)

lemma loadSnapshot_inv:
  assumes "host_inv E n h" and "inj (fc_uuid E)"
  shows "host_inv E n (snd (loadSnapshot E cfg tmpl c h))"
proof -
  obtain r h' where l: "loadSnapshot E cfg tmpl c h = (r, h')" by fastforce
  note L = loadSnapshot_effect[OF l]
  show ?thesis
  proof (cases r)
    case (Inl e)
    with L l show ?thesis using host_inv_frame[OF assms(1), of h'] by (simp add: restore_undone_def)
  next
    case (Inr vm)
    with L have d: "restore_done E cfg c tmpl (fc_uuid E (htick h)) h vm h'" "htick h' = Suc (htick h)" by auto
    have "Slot vm \<in># mset (newSlotPool n)"
      using assms(1) d(1) unfolding host_inv_def restore_done_def
      by (metis list.set_intros(1) set_mset_mset union_iff)
    then have "0 \<le> Slot vm" by (auto simp: newSlotPool_def)
    with d l show ?thesis using host_inv_fresh[OF assms, of h' vm] by (simp add: restore_done_def)
  qed
qed

lemma host_exec_inv:
  assumes "host_inv E n h" and "inj (fc_uuid E)"
  shows "host_inv E n (host_exec E x h)"
proof (cases x)
  case (HStop k)
  show ?thesis
  proof (cases "mget (Vms h) k")
    case None
    with HStop assms show ?thesis by (auto simp: Stop_def Let_def intro: host_inv_frame)
  next
    case (Some v)
    have "vm_ID v = k" using assms(1) Some by (auto simp: host_inv_def)
    with Some HStop assms(1) show ?thesis
      by (auto simp: Stop_def Let_def split: option.splits intro: host_inv_frame host_inv_update[OF _ Some])
  qed
qed (use assms in \<open>auto simp: Create_inv Boot_inv teardown_inv loadSnapshot_inv Destroy_vm_def
      TeardownKeepDisk_def LoadFromSnapshot_def ResumeFromSnapshot_def Snapshot_def ResumeLive_def
      SetSlotEgress_def Let_def intro: host_inv_frame split: option.splits if_splits\<close>)

definition NewFirecrackerManager :: "nat \<Rightarrow> string list \<Rightarrow> Host" where
  "NewFirecrackerManager slotCount fs =
     \<lparr>Vms = [], slots = newSlotPool slotCount, nextCID = 0, nextNetIdx = 0, procs = [], frozen = [],
      files = fs, taps = [], blocked_veths = [], cgroups = [], htick = 0\<rparr>"

lemma host_run_inv:
  "host_inv E n h \<Longrightarrow> inj (fc_uuid E) \<Longrightarrow> host_inv E n (foldl (\<lambda>h x. host_exec E x h) h xs)"
  by (induction xs arbitrary: h) (auto intro: host_exec_inv)

lemma NewFirecrackerManager_inv: "host_inv E n (NewFirecrackerManager n fs)"
  by (simp add: host_inv_def NewFirecrackerManager_def slot_mset_def)

text \<open>
  C23: Whatever sequence of VM operations runs and whichever system calls fail, the network slots
  are neither lost nor handed out twice: the free slots and the slots of the registered VMs are
  together exactly the slots the manager started with, no two VMs share one, and returning a
  slot never finds the channel full.
\<close>

theorem slots_are_conserved:
  assumes "inj (fc_uuid E)" and "h = foldl (\<lambda>h x. host_exec E x h) (NewFirecrackerManager n fs) xs"
  shows "mset (slots h) + slot_mset (Vms h) = mset (newSlotPool n)
    \<and> (\<forall>k vm l wm. mget (Vms h) k = Some vm \<and> mget (Vms h) l = Some wm \<and> 0 \<le> Slot vm
          \<and> Slot vm = Slot wm \<longrightarrow> k = l)
    \<and> (\<forall>k vm. mget (Vms h) k = Some vm \<and> 0 \<le> Slot vm \<longrightarrow> length (slots h) < n)"
proof -
  have inv: "host_inv E n h"
    using host_run_inv[OF NewFirecrackerManager_inv assms(1)] assms(2) by simp
  then have eq: "mset (slots h) + slot_mset (Vms h) = mset (newSlotPool n)" and wf: "mwf (Vms h)"
    by (auto simp: host_inv_def)
  have dist: "distinct (newSlotPool n)" by (simp add: newSlotPool_def distinct_map)
  have once: "s \<notin># slot_mset (mdel k (Vms h))" if "mget (Vms h) k = Some vm" "0 \<le> Slot vm" "s = Slot vm" for k vm s
  proof
    assume "s \<in># slot_mset (mdel k (Vms h))"
    then have "2 \<le> count (slot_mset (Vms h)) s"
      using slot_mset_mdel[OF wf that(1)] that(2,3) by (simp flip: count_greater_zero_iff)
    then have "2 \<le> count (mset (newSlotPool n)) s" using eq by (metis add_leD2 count_union le_trans le_add2)
    moreover have "count (mset (newSlotPool n)) s \<le> 1" using dist by (simp add: distinct_count_atmost_1)
    ultimately show False by simp
  qed
  have "k = l" if "mget (Vms h) k = Some vm" "mget (Vms h) l = Some wm" "0 \<le> Slot vm" "Slot vm = Slot wm" for k vm l wm
  proof (rule ccontr)
    assume "k \<noteq> l"
    then have "mget (mdel k (Vms h)) l = Some wm" using that(2) by simp
    from slot_mset_in[OF this] have "Slot wm \<in># slot_mset (mdel k (Vms h))"
      using that(3,4) by simp
    with once[OF that(1,3)] that(4) show False by simp
  qed
  moreover have "length (slots h) < n" if "mget (Vms h) k = Some vm" "0 \<le> Slot vm" for k vm
  proof -
    have "size (slot_mset (Vms h)) \<noteq> 0" using slot_mset_mdel[OF wf that(1)] that(2) by simp
    moreover have "length (slots h) + size (slot_mset (Vms h)) = n"
      using arg_cong[OF eq, of size] by (simp add: newSlotPool_def)
    ultimately show ?thesis by linarith
  qed
  ultimately show ?thesis using eq by blast
qed

text \<open>
  A restore that fails leaves no VM, no process and no slot behind: the registered VMs, the
  running processes, the paused VMs and the egress rules are those of before, the free slots are
  the same up to order; and when the restore attaches a session's own disk in place, that disk
  still exists.
\<close>

theorem failed_restore_leaves_host:
  assumes "loadSnapshot E cfg tmpl c h = (Inl e, h')"
    and "getSocketPath E (fc_uuid E (htick h)) \<notin> set (procs h)"
  shows "Vms h' = Vms h \<and> set (procs h') = set (procs h) \<and> frozen h' = frozen h
    \<and> blocked_veths h' = blocked_veths h \<and> mset (slots h') = mset (slots h)
    \<and> (\<not> c \<longrightarrow> set (files h) - {tp_VsockPath tmpl} \<subseteq> set (files h'))"
  using loadSnapshot_effect[OF assms(1)] assms(2) by (auto simp: restore_undone_def)

text \<open>
  A VM whose boot fails after Firecracker has been started cannot be cleaned up: destroying
  it succeeds, but the Firecracker process stays in the process table for good, since it is
  recorded on the VM only at the end of a boot that succeeds.
\<close>

theorem failed_boot_leaks_process:
  assumes "mget (Vms h) k = Some vm" and "\<not> vm_Process vm"
    and "fc_fault E (htick h) ''provision gate'' = None"
    and "fc_fault E (htick h) ''failed to start firecracker'' = None"
    and "Boot E k h = (Some e, h1)" and "Destroy_vm E k h1 = (r, h2)"
  shows "r = None \<and> mget (Vms h2) k = None \<and> SocketPath vm \<in> set (procs h2)"
proof -
  obtain tap ip g h' where a: "allocateNetwork (tick h) = ((tap, ip, g), h')" by (metis prod_cases3 surj_pair)
  with allocateNetwork_simps[of "tick h"] have h': "Vms h' = Vms h" "procs h' = procs h" by simp_all
  have "SocketPath vm \<in> set (procs h1) \<and> (\<exists>v. mget (Vms h1) k = Some v \<and> \<not> vm_Process v
      \<and> SocketPath v = SocketPath vm)"
    using assms(1-5) a h' by (auto simp: Boot_def Let_def split_beta split: option.splits if_splits)
  then obtain v where v: "mget (Vms h1) k = Some v" "\<not> vm_Process v" "SocketPath vm \<in> set (procs h1)"
    by blast
  show ?thesis
    using v assms(6) by (cases rule: teardown_effect[of h1 k E False]) (auto simp: Destroy_vm_def)
qed

section \<open>Concrete runs\<close>

definition sample_vm_config :: VMConfig where
  "sample_vm_config = \<lparr>VCPUCount = 1, MemSizeMiB = 512, DiskMB = 0, cfg_DiskGB = 2,
     KernelPath = ''/k'', RootfsPath = ''/r'', InitrdPath = ''/i'', BootArgs = []\<rparr>"

definition sample_template :: SnapshotTemplate where
  "sample_template = \<lparr>tp_SnapPath = ''/t/snap'', tp_MemPath = ''/t/mem'', tp_RootfsPath = ''/r'',
     tp_WritableDiskPath = ''/d/writable-gold.ext4'', tp_VsockPath = ''/s/vsock-t.sock'',
     tp_TapName = ''fctap0''\<rparr>"

text \<open>In operation 1 the vsock rename fails; in operation 3 the instance does not start.\<close>

definition sample_fc_env :: fc_env where
  "sample_fc_env = \<lparr>fc_uuid = (\<lambda>n. ''vm'' @ nat_digits n),
     fc_fault = (\<lambda>n m. if n = 1 \<and> m = ''vsock rename failed'' \<or> n = 3 \<and> m = ''failed to start instance''
        then Some (ErrNew ''fault'') else None),
     fc_now = (\<lambda>n. int n * second), SocketDir = ''/s'', writableDisks = \<lparr>fs_root = ''/d'', fs_cloneMode = CloneAuto\<rparr>, FCUid = 0\<rparr>"

definition sample_host_state :: Host where
  "sample_host_state = NewFirecrackerManager 2 [''/r'', ''/d/writable-gold.ext4'']"

lemma sample_uuid_inj: "inj (fc_uuid sample_fc_env)"
  by (rule injI) (simp add: sample_fc_env_def)

theorem slots_are_conserved_witness:
  "let h = foldl (\<lambda>h x. host_exec sample_fc_env x h) sample_host_state
       [HLoadFromSnapshot sample_vm_config sample_template, HLoadFromSnapshot sample_vm_config sample_template]
   in slots h = [1] \<and> mset (slots h) + slot_mset (Vms h) = {#0, 1#}"
proof -
  let ?xs = "[HLoadFromSnapshot sample_vm_config sample_template, HLoadFromSnapshot sample_vm_config sample_template]"
  let ?h = "foldl (\<lambda>h x. host_exec sample_fc_env x h)
      (NewFirecrackerManager 2 [''/r'', ''/d/writable-gold.ext4'']) ?xs"
  have "mset (slots ?h) + slot_mset (Vms ?h) = mset (newSlotPool 2)"
    using slots_are_conserved[OF sample_uuid_inj refl] by blast
  moreover have "slots ?h = [1]" by code_simp
  moreover have "mset (newSlotPool 2) = {#0, 1#}" by (simp add: newSlotPool_def upt_rec numeral_2_eq_2)
  ultimately show ?thesis by (simp add: sample_host_state_def)
qed

theorem failed_restore_leaves_host_witness:
  "\<exists>e h'. loadSnapshot sample_fc_env sample_vm_config sample_template False
        (sample_host_state\<lparr>htick := 1\<rparr>) = (Inl e, h')
     \<and> Vms h' = [] \<and> mset (slots h') = {#0, 1#}"
proof -
  let ?h = "sample_host_state\<lparr>htick := 1\<rparr>"
  obtain r h' where r: "loadSnapshot sample_fc_env sample_vm_config sample_template False ?h = (r, h')"
    by fastforce
  have "fst (loadSnapshot sample_fc_env sample_vm_config sample_template False ?h)
      = Inl (Wrapf ''vsock rename failed'' (ErrNew ''fault''))" by code_simp
  with r have e: "loadSnapshot sample_fc_env sample_vm_config sample_template False ?h
      = (Inl (Wrapf ''vsock rename failed'' (ErrNew ''fault'')), h')" by simp
  have p: "getSocketPath sample_fc_env (fc_uuid sample_fc_env (htick ?h)) \<notin> set (procs ?h)"
    by (simp add: sample_host_state_def NewFirecrackerManager_def)
  from failed_restore_leaves_host[OF e p] e show ?thesis
    by (simp add: sample_host_state_def NewFirecrackerManager_def newSlotPool_def upt_rec numeral_2_eq_2)
qed

theorem failed_boot_leaks_process_witness:
  "let h = snd (Create sample_fc_env sample_vm_config (sample_host_state\<lparr>htick := 2\<rparr>));
       h1 = snd (Boot sample_fc_env ''vm2'' h)
   in mget (Vms (snd (Destroy_vm sample_fc_env ''vm2'' h1))) ''vm2'' = None
      \<and> List.member (procs (snd (Destroy_vm sample_fc_env ''vm2'' h1))) ''/s/vm2.sock''"
proof -
  let ?h = "snd (Create sample_fc_env sample_vm_config (sample_host_state\<lparr>htick := 2\<rparr>))"
  let ?h1 = "snd (Boot sample_fc_env ''vm2'' ?h)"
  obtain vm where vm: "mget (Vms ?h) ''vm2'' = Some vm" and sock: "SocketPath vm = ''/s/vm2.sock''"
    and proc: "\<not> vm_Process vm"
  proof -
    have "map_option (\<lambda>v. (SocketPath v, vm_Process v)) (mget (Vms ?h) ''vm2'') = Some (''/s/vm2.sock'', False)"
      by code_simp
    with that show ?thesis by auto
  qed
  have t: "htick ?h = 3" by code_simp
  have b: "Boot sample_fc_env ''vm2'' ?h = (Some (Wrapf ''failed to start instance'' (ErrNew ''fault'')), ?h1)"
  proof -
    have "fst (Boot sample_fc_env ''vm2'' ?h) = Some (Wrapf ''failed to start instance'' (ErrNew ''fault''))"
      by code_simp
    then show ?thesis by (metis prod.collapse)
  qed
  have "fst (Destroy_vm sample_fc_env ''vm2'' ?h1) = None \<and> mget (Vms (snd (Destroy_vm sample_fc_env ''vm2'' ?h1))) ''vm2'' = None
      \<and> SocketPath vm \<in> set (procs (snd (Destroy_vm sample_fc_env ''vm2'' ?h1)))"
    by (rule failed_boot_leaks_process[OF vm proc _ _ b prod.collapse[symmetric]])
      (simp_all add: t sample_fc_env_def)
  with sock show ?thesis by simp
qed

end
