(* ===== verification/Vm_Pool.thy ===== *)
theory Vm_Pool
  imports Vm_Manager
begin

text \<open>
  The pool of ready VMs (\<open>backend/internal/executor/firecracker/vm_pool.go\<close>) and the cgroups its
  VMs run in (\<open>backend/internal/cgroup/cgroup.go\<close>). The channel of available VMs is the list of
  their ids, since a VM in the channel is always also in \<open>vmMap\<close>. The methods are given as
  functions for callers that run one after the other, as the session manager does in this
  development; the scheduling of the goroutines the pool itself starts is a step relation on
  the pool, the restores in flight and the VM the reaper holds.
\<close>

section \<open>Cgroups\<close>

record cgroup_Config =
  CPUQuotaUS :: int
  CPUPeriodUS :: int
  MemMaxBytes :: int

definition cgroup_path :: "string \<Rightarrow> string \<Rightarrow> string" where
  "cgroup_path tenantID vmID =
     path_join (path_join ''/sys/fs/cgroup/sandbox'' (''tenant-'' @ tenantID)) (''vm-'' @ vmID)"

definition setCPU :: "cgroup_Config \<Rightarrow> string" where
  "setCPU cfg =
     (let period = (if CPUPeriodUS cfg = 0 then 100000 else CPUPeriodUS cfg)
      in if CPUQuotaUS cfg = 0 then ''max '' @ itoa period
         else itoa (CPUQuotaUS cfg) @ '' '' @ itoa period)"

definition setMemory :: "cgroup_Config \<Rightarrow> string" where
  "setMemory cfg = (if MemMaxBytes cfg = 0 then ''max'' else itoa (MemMaxBytes cfg))"

definition cgroup_New ::
    "(string \<Rightarrow> go_error option) \<Rightarrow> string \<Rightarrow> string \<Rightarrow> cgroup_Config \<Rightarrow> Host \<Rightarrow> (go_error + string) \<times> Host" where
  "cgroup_New flt tenantID vmID cfg h =
     (let vmPath = cgroup_path tenantID vmID in
      case first_fault flt [''cgroup: create tenant dir'', ''cgroup, enable tenant controllers'',
             ''cgroup: create vm dir'', ''cgroup: set cpu.max'', ''cgroup: set memory.max''] of
        Some (m, e) \<Rightarrow> (Inl e, h)
      | None \<Rightarrow> (Inr vmPath, h\<lparr>cgroups := mput vmPath (setCPU cfg, setMemory cfg, []) (cgroups h)\<rparr>))"

definition AddPID ::
    "(string \<Rightarrow> go_error option) \<Rightarrow> string \<Rightarrow> string \<Rightarrow> Host \<Rightarrow> go_error option \<times> Host" where
  "AddPID flt cg proc h =
     (case flt ''cgroup: add pid'' of
        Some e \<Rightarrow> (Some (Wrapf ''cgroup: add pid'' e), h)
      | None \<Rightarrow>
          (case mget (cgroups h) cg of
             None \<Rightarrow> (Some (ErrNew ''cgroup: add pid''), h)
           | Some (cpu, mem, ps) \<Rightarrow> (None, h\<lparr>cgroups := mput cg (cpu, mem, ps @ [proc]) (cgroups h)\<rparr>)))"

definition cgroup_Destroy :: "(string \<Rightarrow> go_error option) \<Rightarrow> string \<Rightarrow> Host \<Rightarrow> go_error option \<times> Host" where
  "cgroup_Destroy flt cg h =
     (case flt ''cgroup: destroy'' of
        Some e \<Rightarrow> (Some (Wrapf (''cgroup: destroy '' @ cg) e), h)
      | None \<Rightarrow> (None, h\<lparr>cgroups := mdel cg (cgroups h)\<rparr>))"

text \<open>The cgroup of a started VM: none when it cannot be set up, which is only logged.\<close>

definition setup_cgroup :: "fc_env \<Rightarrow> cgroup_Config \<Rightarrow> MicroVM \<Rightarrow> Host \<Rightarrow> string option \<times> Host" where
  "setup_cgroup E cfg vm h =
     (if \<not> vm_Process vm then (None, h)
      else let flt = fc_fault E (htick h); h0 = tick h in
        case cgroup_New flt ''default'' (vm_ID vm) cfg h0 of
          (Inl e, h1) \<Rightarrow> (None, h1)
        | (Inr cg, h1) \<Rightarrow>
            (case AddPID flt cg (SocketPath vm) h1 of
               (Some e, h2) \<Rightarrow> (None, snd (cgroup_Destroy flt cg h2))
             | (None, h2) \<Rightarrow> (Some cg, h2)))"

definition drop_cgroup :: "fc_env \<Rightarrow> string option \<Rightarrow> Host \<Rightarrow> Host" where
  "drop_cgroup E cg h =
     (case cg of None \<Rightarrow> h | Some c \<Rightarrow> snd (cgroup_Destroy (fc_fault E (htick h)) c (tick h)))"

lemma cgroup_frame:
  "host_core (snd (setup_cgroup E cfg vm h)) = host_core h"
  "blocked_veths (snd (setup_cgroup E cfg vm h)) = blocked_veths h"
  "htick h \<le> htick (snd (setup_cgroup E cfg vm h))"
  "host_core (drop_cgroup E cg h) = host_core h"
  "blocked_veths (drop_cgroup E cg h) = blocked_veths h"
  "htick h \<le> htick (drop_cgroup E cg h)"
  by (auto simp: setup_cgroup_def drop_cgroup_def cgroup_New_def AddPID_def cgroup_Destroy_def host_core_def
      Let_def split: option.splits prod.splits)

section \<open>The pool\<close>

record PooledVM =
  pv_VM :: MicroVM
  RequestCount :: int
  pv_LastUsed :: int
  InUse :: bool
  pv_Cgroup :: "string option"

record VMPool =
  vms :: "string list"
  vmMap :: "(string, PooledVM) gomap"
  pool_config :: VMConfig
  minSize :: int
  maxSize :: int
  pendingAdds :: int
  cgroupConfig :: cgroup_Config
  pool_template :: "SnapshotTemplate option"

definition reapInterval :: int where
  "reapInterval = 5 * second"

definition idleTTL :: int where
  "idleTTL = 15 * second"

definition pool_insert :: "PooledVM \<Rightarrow> VMPool \<Rightarrow> VMPool" where
  "pool_insert pv p = p\<lparr>vmMap := mput (vm_ID (pv_VM pv)) pv (vmMap p)\<rparr>"

definition pool_send :: "string \<Rightarrow> VMPool \<Rightarrow> VMPool" where
  "pool_send k p = p\<lparr>vms := vms p @ [k]\<rparr>"

definition pool_delete :: "string \<Rightarrow> VMPool \<Rightarrow> VMPool" where
  "pool_delete k p = p\<lparr>vmMap := mdel k (vmMap p)\<rparr>"

definition add_pending :: "int \<Rightarrow> VMPool \<Rightarrow> VMPool" where
  "add_pending i p = p\<lparr>pendingAdds := pendingAdds p + i\<rparr>"

subsection \<open>Adding a VM\<close>

definition cold_boot :: "fc_env \<Rightarrow> VMConfig \<Rightarrow> Host \<Rightarrow> (go_error + MicroVM) \<times> Host" where
  "cold_boot E cfg h =
     (case Create E cfg h of
        (Inl e, h1) \<Rightarrow> (Inl e, h1)
      | (Inr vm, h1) \<Rightarrow>
          (case Boot E (vm_ID vm) h1 of
             (Some e, h2) \<Rightarrow> (Inl e, h2)
           | (None, h2) \<Rightarrow>
               (Inr (case mget (Vms h2) (vm_ID vm) of Some v \<Rightarrow> v | None \<Rightarrow> vm), h2)))"

definition boot_vm :: "fc_env \<Rightarrow> VMPool \<Rightarrow> Host \<Rightarrow> (go_error + MicroVM) \<times> Host" where
  "boot_vm E p h =
     (case pool_template p of
        None \<Rightarrow> cold_boot E (pool_config p) h
      | Some tmpl \<Rightarrow>
          (case LoadFromSnapshot E (pool_config p) tmpl h of
             (Inr vm, h1) \<Rightarrow> (Inr vm, h1)
           | (Inl e, h1) \<Rightarrow> cold_boot E (pool_config p) h1))"

definition prepare_vm :: "fc_env \<Rightarrow> VMPool \<Rightarrow> Host \<Rightarrow> (go_error + PooledVM) \<times> Host" where
  "prepare_vm E p h =
     (case boot_vm E p h of
        (Inl e, h1) \<Rightarrow> (Inl e, h1)
      | (Inr vm, h1) \<Rightarrow>
          if fc_fault E (htick h1) ''vsock'' \<noteq> None
          then (Inl (ErrNew (''vsock never became ready for VM '' @ vm_ID vm)), tick h1)
          else let (cg, h2) = setup_cgroup E (cgroupConfig p) vm (tick h1)
               in (Inr \<lparr>pv_VM = vm, RequestCount = 0, pv_LastUsed = fc_now E (htick h2),
                        InUse = False, pv_Cgroup = cg\<rparr>, h2))"

definition addVM :: "fc_env \<Rightarrow> VMPool \<Rightarrow> Host \<Rightarrow> go_error option \<times> VMPool \<times> Host" where
  "addVM E p h =
     (case prepare_vm E p h of
        (Inl e, h1) \<Rightarrow> (Some e, p, h1)
      | (Inr pv, h1) \<Rightarrow> (None, pool_send (vm_ID (pv_VM pv)) (pool_insert pv p), h1))"

definition tryScaleUp :: "VMPool \<Rightarrow> bool \<times> VMPool" where
  "tryScaleUp p =
     (if int (length (vmMap p)) + pendingAdds p \<ge> maxSize p then (False, p)
      else (True, add_pending 1 p))"

subsection \<open>Acquire, release, forget\<close>

definition pool_take :: "int \<Rightarrow> VMPool \<Rightarrow> (PooledVM \<times> VMPool) option" where
  "pool_take now p =
     (case vms p of
        [] \<Rightarrow> None
      | k # rest \<Rightarrow>
          (case mget (vmMap p) k of
             None \<Rightarrow> None
           | Some pv \<Rightarrow>
               let pv' = pv\<lparr>InUse := True, pv_LastUsed := now\<rparr>
               in Some (pv', p\<lparr>vms := rest, vmMap := mput k pv' (vmMap p)\<rparr>)))"

definition Acquire ::
    "fc_env \<Rightarrow> VMPool \<Rightarrow> Host \<Rightarrow> (go_error + PooledVM \<times> bool) \<times> VMPool \<times> Host" where
  "Acquire E p h =
     (let cancelled = Inl (Wrapf ''context cancelled waiting for VM'' (Sentinel ContextDeadlineExceeded))
      in case pool_take (fc_now E (htick h)) p of
           Some (pv, p') \<Rightarrow> (Inr (pv, True), p', h)
         | None \<Rightarrow>
             (case tryScaleUp p of
                (False, p1) \<Rightarrow> (cancelled, p1, h)
              | (True, p1) \<Rightarrow>
                  (case addVM E p1 h of
                     (Some e, p2, h2) \<Rightarrow> (cancelled, add_pending (-1) p2, h2)
                   | (None, p2, h2) \<Rightarrow>
                       (case pool_take (fc_now E (htick h2)) (add_pending (-1) p2) of
                          None \<Rightarrow> (cancelled, add_pending (-1) p2, h2)
                        | Some (pv, p3) \<Rightarrow> (Inr (pv, False), p3, h2)))))"

definition destroyPooled :: "fc_env \<Rightarrow> PooledVM \<Rightarrow> VMPool \<times> Host \<Rightarrow> VMPool \<times> Host" where
  "destroyPooled E pv ph =
     (let p = pool_delete (vm_ID (pv_VM pv)) (fst ph);
          h = snd (Destroy_vm E (vm_ID (pv_VM pv)) (snd ph))
      in (p, drop_cgroup E (pv_Cgroup pv) h))"

definition Release_vm :: "fc_env \<Rightarrow> PooledVM \<Rightarrow> VMPool \<Rightarrow> Host \<Rightarrow> VMPool \<times> Host" where
  "Release_vm E pv p h =
     (let (p1, h1) = destroyPooled E pv (p, h)
      in if int (length (vmMap p1)) < minSize p1
         then (let (err, p2, h2) = addVM E p1 h1 in (p2, h2))
         else (p1, h1))"

definition Forget :: "string \<Rightarrow> VMPool \<Rightarrow> VMPool" where
  "Forget vmID p = pool_delete vmID p"

subsection \<open>The reaper, shutdown, statistics\<close>

fun reapIdle :: "fc_env \<Rightarrow> nat \<Rightarrow> VMPool \<times> Host \<Rightarrow> VMPool \<times> Host" where
  "reapIdle E 0 (p, h) = (p, h)"
| "reapIdle E (Suc n) (p, h) =
     (case vms p of
        [] \<Rightarrow> (p, h)
      | k # rest \<Rightarrow>
          let p1 = p\<lparr>vms := rest\<rparr> in
          (case mget (vmMap p) k of
             None \<Rightarrow> reapIdle E n (p1, h)
           | Some pv \<Rightarrow>
               if int (length (vmMap p)) > minSize p \<and> fc_now E (htick h) - pv_LastUsed pv > idleTTL
               then reapIdle E n (destroyPooled E pv (p1, h))
               else if int (length (vms p1)) < maxSize p
               then reapIdle E n (pool_send k p1, h)
               else reapIdle E n (destroyPooled E pv (p1, h))))"

definition Shutdown_pool :: "fc_env \<Rightarrow> VMPool \<Rightarrow> Host \<Rightarrow> Host" where
  "Shutdown_pool E p h =
     foldl (\<lambda>g kv. drop_cgroup E (pv_Cgroup (snd kv)) (snd (Destroy_vm E (vm_ID (pv_VM (snd kv))) g)))
       h (vmMap p)"

definition Stats_pool :: "VMPool \<Rightarrow> int \<times> int" where
  "Stats_pool p =
     (let available = int (length (vms p)); inUse = int (length (vmMap p)) - available
      in (available, if inUse < 0 then 0 else inUse))"

definition new_pool ::
    "int \<Rightarrow> int \<Rightarrow> VMConfig \<Rightarrow> cgroup_Config \<Rightarrow> SnapshotTemplate option \<Rightarrow> VMPool" where
  "new_pool minSz maxSz cfg cg tmpl =
     \<lparr>vms = [], vmMap = [], pool_config = cfg, minSize = minSz, maxSize = maxSz, pendingAdds = 0,
      cgroupConfig = cg, pool_template = tmpl\<rparr>"

text \<open>The constructor waits for the goroutines that add the warm VMs; a failed one is logged.\<close>

definition NewVMPoolWithSnapshot ::
    "fc_env \<Rightarrow> int \<Rightarrow> int \<Rightarrow> VMConfig \<Rightarrow> cgroup_Config \<Rightarrow> SnapshotTemplate option \<Rightarrow> Host \<Rightarrow> VMPool \<times> Host" where
  "NewVMPoolWithSnapshot E minSz maxSz cfg cg tmpl h =
     foldl (\<lambda>(p, g) i. snd (addVM E p g)) (new_pool minSz maxSz cfg cg tmpl, h) [0..<nat minSz]"

section \<open>Scheduling\<close>

text \<open>
  The worker creates its pools with \<open>minSize\<close> 0 (\<open>cmd/worker/main.go\<close>), so \<open>Release\<close> never refills.
  A restore in flight is booting its VM, or has registered it and is about to send it into the
  channel. The reaper holds at most one VM between taking it from the channel and putting it
  back or destroying it.
\<close>

datatype add_phase = Booting | Inserted string

record pool_sys =
  ps_pool :: VMPool
  ps_adds :: "add_phase list"
  ps_reap :: "string option"

fun inserted :: "add_phase list \<Rightarrow> string list" where
  "inserted [] = []"
| "inserted (Booting # gs) = inserted gs"
| "inserted (Inserted k # gs) = k # inserted gs"

definition held :: "pool_sys \<Rightarrow> string list" where
  "held s = vms (ps_pool s) @ inserted (ps_adds s) @ (case ps_reap s of None \<Rightarrow> [] | Some k \<Rightarrow> [k])"

inductive pool_step :: "pool_sys \<Rightarrow> pool_sys \<Rightarrow> bool" where
  scale_up: "tryScaleUp (ps_pool s) = (True, p')
    \<Longrightarrow> pool_step s (s\<lparr>ps_pool := p', ps_adds := ps_adds s @ [Booting]\<rparr>)"
| boot_failed: "ps_adds s = xs @ Booting # ys
    \<Longrightarrow> pool_step s (s\<lparr>ps_pool := add_pending (-1) (ps_pool s), ps_adds := xs @ ys\<rparr>)"
| booted: "ps_adds s = xs @ Booting # ys \<Longrightarrow> mget (vmMap (ps_pool s)) (vm_ID (pv_VM pv)) = None
    \<Longrightarrow> vm_ID (pv_VM pv) \<notin> set (held s)
    \<Longrightarrow> pool_step s (s\<lparr>ps_pool := pool_insert pv (ps_pool s),
                       ps_adds := xs @ Inserted (vm_ID (pv_VM pv)) # ys\<rparr>)"
| sent: "ps_adds s = xs @ Inserted k # ys \<Longrightarrow> int (length (vms (ps_pool s))) < maxSize (ps_pool s)
    \<Longrightarrow> pool_step s (s\<lparr>ps_pool := add_pending (-1) (pool_send k (ps_pool s)), ps_adds := xs @ ys\<rparr>)"
| taken: "pool_take now (ps_pool s) = Some (pv, p') \<Longrightarrow> pool_step s (s\<lparr>ps_pool := p'\<rparr>)"
| given_up: "k \<notin> set (held s) \<Longrightarrow> pool_step s (s\<lparr>ps_pool := pool_delete k (ps_pool s)\<rparr>)"
| reap_take: "ps_reap s = None \<Longrightarrow> vms (ps_pool s) = k # rest
    \<Longrightarrow> pool_step s (s\<lparr>ps_pool := (ps_pool s)\<lparr>vms := rest\<rparr>, ps_reap := Some k\<rparr>)"
| reap_destroy: "ps_reap s = Some k
    \<Longrightarrow> pool_step s (s\<lparr>ps_pool := pool_delete k (ps_pool s), ps_reap := None\<rparr>)"
| reap_requeue: "ps_reap s = Some k \<Longrightarrow> int (length (vms (ps_pool s))) < maxSize (ps_pool s)
    \<Longrightarrow> pool_step s (s\<lparr>ps_pool := pool_send k (ps_pool s), ps_reap := None\<rparr>)"

inductive_cases pool_stepE: "pool_step s t"

inductive pool_reaches :: "pool_sys \<Rightarrow> pool_sys \<Rightarrow> bool" where
  start: "pool_reaches s s"
| move: "pool_reaches s t \<Longrightarrow> pool_step t u \<Longrightarrow> pool_reaches s u"

fun booting :: "add_phase list \<Rightarrow> nat" where
  "booting [] = 0"
| "booting (Booting # gs) = Suc (booting gs)"
| "booting (Inserted k # gs) = booting gs"

definition pool_inv :: "int \<Rightarrow> pool_sys \<Rightarrow> bool" where
  "pool_inv cap s \<longleftrightarrow>
     maxSize (ps_pool s) = cap
     \<and> int (length (vmMap (ps_pool s))) + int (booting (ps_adds s)) \<le> cap
     \<and> pendingAdds (ps_pool s) = int (length (ps_adds s))
     \<and> mwf (vmMap (ps_pool s)) \<and> distinct (held s)
     \<and> set (held s) \<subseteq> set (mkeys (vmMap (ps_pool s)))"

lemma inserted_append [simp]: "inserted (xs @ ys) = inserted xs @ inserted ys"
  by (induction xs rule: inserted.induct) auto

lemma booting_append [simp]: "booting (xs @ ys) = booting xs + booting ys"
  by (induction xs rule: booting.induct) auto

lemma booting_le: "booting gs \<le> length gs"
  by (induction gs rule: booting.induct) auto

lemma mget_in_keys: "mget m k = Some v \<Longrightarrow> k \<in> set (mkeys m)"
  by (metis mget_None_iff option.distinct(1))

lemma length_mdel_int: "mwf m \<Longrightarrow> int (length (mdel k m)) \<le> int (length m)"
  using length_mdel_le[of k m] by simp

lemma pool_step_inv:
  assumes "pool_step s t" and "pool_inv cap s"
  shows "pool_inv cap t"
  using assms(1)
proof (cases rule: pool_step.cases)
  case (scale_up p')
  then have "int (length (vmMap (ps_pool s))) + int (length (ps_adds s)) < cap"
    using assms(2) by (auto simp: tryScaleUp_def pool_inv_def split: if_splits)
  then have "int (length (vmMap (ps_pool s))) + (1 + int (booting (ps_adds s))) \<le> cap"
    using booting_le[of "ps_adds s"] by linarith
  with scale_up assms(2) show ?thesis
    by (auto simp: pool_inv_def tryScaleUp_def add_pending_def held_def split: if_splits)
next
  case (boot_failed xs ys)
  then show ?thesis using assms(2) by (auto simp: pool_inv_def add_pending_def held_def)
next
  case (booted xs ys pv)
  let ?k = "vm_ID (pv_VM pv)"
  have fresh: "?k \<notin> set (mkeys (vmMap (ps_pool s)))" using booted(3) by (metis mget_None_iff)
  have len: "length (mput ?k pv (vmMap (ps_pool s))) = Suc (length (vmMap (ps_pool s)))"
    using booted(3) by (simp add: length_mput)
  have keys: "set (mkeys (mput ?k pv (vmMap (ps_pool s)))) = insert ?k (set (mkeys (vmMap (ps_pool s))))"
    by (rule mkeys_mput)
  show ?thesis
    using assms(2) booted fresh len keys unfolding pool_inv_def held_def pool_insert_def
    by (auto split: option.splits)
next
  case (sent xs k ys)
  then show ?thesis
    using assms(2) by (auto simp: pool_inv_def pool_send_def add_pending_def held_def split: option.splits)
next
  case (taken now pv p')
  then obtain k rest where k: "vms (ps_pool s) = k # rest" and p: "\<exists>v w. mget (vmMap (ps_pool s)) k = Some v
      \<and> p' = (ps_pool s)\<lparr>vms := rest, vmMap := mput k w (vmMap (ps_pool s))\<rparr>"
    by (auto simp: pool_take_def Let_def split: list.splits option.splits)
  then obtain v w where v: "mget (vmMap (ps_pool s)) k = Some v"
    and p': "p' = (ps_pool s)\<lparr>vms := rest, vmMap := mput k w (vmMap (ps_pool s))\<rparr>" by blast
  have keys: "set (mkeys (mput k w (vmMap (ps_pool s)))) = set (mkeys (vmMap (ps_pool s)))"
    using mkeys_mput[of k w "vmMap (ps_pool s)"] mget_in_keys[OF v] by auto
  have len: "length (mput k w (vmMap (ps_pool s))) = length (vmMap (ps_pool s))"
    using v by (simp add: length_mput)
  show ?thesis
    using assms(2) taken(1) k p' keys len unfolding pool_inv_def held_def by auto
next
  case (given_up k)
  have "set (mkeys (mdel k (vmMap (ps_pool s)))) = set (mkeys (vmMap (ps_pool s))) - {k}"
    by (rule mkeys_mdel)
  then show ?thesis
    using assms(2) given_up length_mdel_le[of k "vmMap (ps_pool s)"]
    unfolding pool_inv_def held_def pool_delete_def by (auto split: option.splits)
next
  case (reap_take k rest)
  then show ?thesis using assms(2) by (auto simp: pool_inv_def held_def)
next
  case (reap_destroy k)
  have "set (mkeys (mdel k (vmMap (ps_pool s)))) = set (mkeys (vmMap (ps_pool s))) - {k}"
    by (rule mkeys_mdel)
  then show ?thesis
    using assms(2) reap_destroy length_mdel_le[of k "vmMap (ps_pool s)"]
    unfolding pool_inv_def held_def pool_delete_def by auto
next
  case (reap_requeue k)
  then show ?thesis using assms(2) by (auto simp: pool_inv_def pool_send_def held_def)
qed

lemma pool_reaches_inv: "pool_reaches s t \<Longrightarrow> pool_inv cap s \<Longrightarrow> pool_inv cap t"
  by (induction rule: pool_reaches.induct) (auto intro: pool_step_inv)

lemma held_le:
  assumes "pool_inv cap s"
  shows "int (length (held s)) \<le> cap"
proof -
  have "length (held s) = card (set (held s))" using assms by (simp add: pool_inv_def distinct_card)
  also have "\<dots> \<le> card (set (mkeys (vmMap (ps_pool s))))"
    using assms by (intro card_mono) (auto simp: pool_inv_def)
  also have "\<dots> \<le> length (vmMap (ps_pool s))" by (metis card_length length_map)
  finally show ?thesis using assms by (simp add: pool_inv_def)
qed

definition pool_start :: "int \<Rightarrow> VMConfig \<Rightarrow> cgroup_Config \<Rightarrow> SnapshotTemplate option \<Rightarrow> pool_sys" where
  "pool_start cap cfg cg tmpl =
     \<lparr>ps_pool = new_pool 0 cap cfg cg tmpl, ps_adds = [], ps_reap = None\<rparr>"

lemma pool_start_New:
  "pool_start cap cfg cg tmpl = \<lparr>ps_pool = fst (NewVMPoolWithSnapshot E 0 cap cfg cg tmpl h),
     ps_adds = [], ps_reap = None\<rparr>"
  by (simp add: pool_start_def NewVMPoolWithSnapshot_def)

lemma pool_start_inv: "0 \<le> cap \<Longrightarrow> pool_inv cap (pool_start cap cfg cg tmpl)"
  by (simp add: pool_inv_def pool_start_def new_pool_def held_def)

text \<open>
  C24: However acquires, restores in flight, releases, forgets and the reaper interleave, a pool
  of size \<open>cap\<close>, created without warm VMs as the worker creates its pools, never registers more than \<open>cap\<close> VMs, a restore that has registered its VM finds
  room in the channel, so its send does not block, and the reaper finds room for the VM it
  puts back, so its fallback for a full channel is never taken.
\<close>

theorem pool_stays_within_capacity:
  assumes "0 \<le> cap" and "pool_reaches (pool_start cap cfg cg tmpl) s"
  shows "int (length (vmMap (ps_pool s))) \<le> cap
    \<and> (inserted (ps_adds s) \<noteq> [] \<or> ps_reap s \<noteq> None \<longrightarrow> int (length (vms (ps_pool s))) < cap)
    \<and> distinct (vms (ps_pool s))
    \<and> (\<forall>k \<in> set (vms (ps_pool s)). mget (vmMap (ps_pool s)) k \<noteq> None)"
proof -
  have inv: "pool_inv cap s" by (rule pool_reaches_inv[OF assms(2) pool_start_inv[OF assms(1)]])
  from held_le[OF inv] have "int (length (vms (ps_pool s))) < cap"
    if "inserted (ps_adds s) \<noteq> [] \<or> ps_reap s \<noteq> None"
    using that by (cases "inserted (ps_adds s)"; cases "ps_reap s") (auto simp: held_def)
  moreover have "mget (vmMap (ps_pool s)) k \<noteq> None" if "k \<in> set (vms (ps_pool s))" for k
  proof -
    have "k \<in> set (mkeys (vmMap (ps_pool s)))" using inv that by (auto simp: pool_inv_def held_def)
    then show ?thesis by (metis mget_None_iff)
  qed
  ultimately show ?thesis using inv by (auto simp: pool_inv_def held_def)
qed

text \<open>One acquire has had its VM restored and is about to hand it over.\<close>

definition sample_cgroup :: cgroup_Config where
  "sample_cgroup = \<lparr>CPUQuotaUS = 100000, CPUPeriodUS = 100000, MemMaxBytes = 0\<rparr>"

definition sample_pooled :: PooledVM where
  "sample_pooled = \<lparr>pv_VM = \<lparr>vm_ID = ''vm0'', vm_Config = sample_vm_config, vm_State = VMStateRunning,
       VsockPath = ''/s/vsock-vm0.sock'', SocketPath = ''/s/vm0.sock'',
       WritableDiskPath = ''/d/writable-vm0.ext4'', TapName = [], Slot = 0, vm_Process = True\<rparr>,
     RequestCount = 0, pv_LastUsed = 0, InUse = False, pv_Cgroup = None\<rparr>"

definition sample_scaling :: pool_sys where
  "sample_scaling = (let s = pool_start 1 sample_vm_config sample_cgroup (Some sample_template) in
     s\<lparr>ps_pool := snd (tryScaleUp (ps_pool s)), ps_adds := [Booting]\<rparr>)"

definition sample_inserted :: pool_sys where
  "sample_inserted = sample_scaling\<lparr>ps_pool := pool_insert sample_pooled (ps_pool sample_scaling),
     ps_adds := [Inserted ''vm0'']\<rparr>"

theorem pool_stays_within_capacity_witness:
  "pool_reaches (pool_start 1 sample_vm_config sample_cgroup (Some sample_template)) sample_inserted
   \<and> length (vmMap (ps_pool sample_inserted)) = 1 \<and> length (vms (ps_pool sample_inserted)) < 1"
proof -
  let ?s = "pool_start 1 sample_vm_config sample_cgroup (Some sample_template)"
  note defs = sample_scaling_def sample_inserted_def pool_start_def new_pool_def tryScaleUp_def
    add_pending_def Let_def sample_pooled_def held_def
  have "pool_step ?s (?s\<lparr>ps_pool := snd (tryScaleUp (ps_pool ?s)), ps_adds := ps_adds ?s @ [Booting]\<rparr>)"
    by (rule scale_up) (simp add: defs)
  then have a: "pool_step ?s sample_scaling" by (simp add: defs)
  have "pool_step sample_scaling (sample_scaling\<lparr>ps_pool := pool_insert sample_pooled (ps_pool sample_scaling),
      ps_adds := [] @ Inserted (vm_ID (pv_VM sample_pooled)) # []\<rparr>)"
    by (rule booted) (simp_all add: defs)
  then have b: "pool_step sample_scaling sample_inserted" by (simp add: sample_inserted_def sample_pooled_def)
  have r: "pool_reaches ?s sample_inserted" by (rule move[OF move[OF start a] b])
  have "inserted (ps_adds sample_inserted) \<noteq> []" by (simp add: sample_inserted_def)
  with pool_stays_within_capacity[OF _ r] have "int (length (vms (ps_pool sample_inserted))) < 1" by simp
  with r show ?thesis by (simp add: defs pool_insert_def)
qed

text \<open>
  A restored VM whose guest never answers is lost. The acquire that caused the restore gives
  up and the pool is as it was, but the VM stays registered with the VM manager and keeps its
  network slot, and nothing refers to it any more.
\<close>

theorem unready_vm_leaks:
  assumes "vms p = []" and "int (length (vmMap p)) + pendingAdds p < maxSize p"
    and "pool_template p = Some tmpl" and "LoadFromSnapshot E (pool_config p) tmpl h = (Inr vm, h1)"
    and "fc_fault E (htick h1) ''vsock'' \<noteq> None"
  shows "\<exists>e h'. Acquire E p h = (Inl e, p, h') \<and> mget (Vms h') (vm_ID vm) = Some vm
     \<and> slots h = Slot vm # slots h'"
proof -
  have l: "loadSnapshot E (pool_config p) tmpl True h = (Inr vm, h1)"
    using assms(4) by (simp add: LoadFromSnapshot_def)
  have "mget (Vms h1) (vm_ID vm) = Some vm" "slots h = Slot vm # slots h1"
    using loadSnapshot_effect[OF l] by (simp_all add: restore_done_def)
  then show ?thesis
    using assms(1-5)
    by (auto simp: Acquire_def pool_take_def tryScaleUp_def addVM_def prepare_vm_def boot_vm_def
        add_pending_def Let_def)
qed

definition deaf_env :: fc_env where
  "deaf_env = sample_fc_env\<lparr>fc_fault := (\<lambda>n l. if l = ''vsock'' then Some (ErrNew ''refused'') else None)\<rparr>"

theorem unready_vm_leaks_witness:
  "\<exists>e h'. Acquire deaf_env (new_pool 0 1 sample_vm_config sample_cgroup (Some sample_template)) sample_host_state
       = (Inl e, new_pool 0 1 sample_vm_config sample_cgroup (Some sample_template), h') \<and> slots h' = [1]"
proof -
  let ?p = "new_pool 0 1 sample_vm_config sample_cgroup (Some sample_template)" and ?h = sample_host_state
  obtain r h1 where l: "LoadFromSnapshot deaf_env (pool_config ?p) sample_template ?h = (r, h1)" by fastforce
  have "\<not> isl (fst (LoadFromSnapshot deaf_env sample_vm_config sample_template sample_host_state))" by code_simp
  with l obtain vm where r: "LoadFromSnapshot deaf_env (pool_config ?p) sample_template ?h = (Inr vm, h1)"
    by (cases r) (simp_all add: new_pool_def)
  have "slots ?h = [0, 1]" by code_simp
  then show ?thesis using unready_vm_leaks[OF _ _ _ r] by (auto simp: new_pool_def deaf_env_def)
qed

end
