(* ===== verification/Session_Store.thy ===== *)
theory Session_Store
  imports Vm_Pool Sizes
begin

text \<open>
  Sessions and their store (\<open>backend/internal/session/store.go\<close>) and the manifest of paused
  sessions on disk (\<open>backend/internal/session/manifest.go\<close>). A pool is referred to by its key,
  a vsock connection by the path it was opened on, times are integers. The manifest file holds
  the records themselves: \<open>encoding/json\<close> is taken to read back what it wrote.
\<close>

section \<open>Sessions\<close>

record Session =
  s_ID :: string
  s_UserID :: string
  s_Image :: string
  s_VM :: "MicroVM option"
  s_Cgroup :: "string option"
  s_BillingModel :: string
  s_VCPUs :: int
  s_MemoryMB :: int
  s_DiskGB :: int
  s_Env :: "(string, string) gomap"
  s_Internet :: bool
  s_IdleTimeout :: int
  s_MaxLifetime :: int
  s_CreatedAt :: int
  s_LastUsed :: int
  s_RunCount :: int
  s_TotalExecutionMs :: rat
  s_LastExitCode :: "int option"
  s_PooledVM :: "PooledVM option"
  s_Pool :: "string option"
  s_VsockConn :: "string option"
  s_Terminals :: "string list"
  s_State :: SessionState
  s_PausedAt :: int
  s_SnapPath :: string
  s_MemPath :: string
  s_WritableDiskPath :: string
  s_RootfsPathAtPause :: string
  s_VsockPathAtPause :: string
  s_TapNameAtPause :: string
  s_CheckpointRef :: string

record session_store =
  sessions :: "(string, Session) gomap"
  max_sessions :: int

definition NewStore :: "int \<Rightarrow> session_store" where
  "NewStore m = \<lparr>sessions = [], max_sessions = m\<rparr>"

definition Add :: "Session \<Rightarrow> session_store \<Rightarrow> go_error option \<times> session_store" where
  "Add sess s =
     (if mget (sessions s) (s_ID sess) \<noteq> None
      then (Some (ErrNew (''session '' @ s_ID sess @ '' already exists'')), s)
      else if int (length (sessions s)) \<ge> max_sessions s
      then (Some (ErrNew (''session limit reached ('' @ itoa (max_sessions s) @ '')'')), s)
      else (None, s\<lparr>sessions := mput (s_ID sess) sess (sessions s)\<rparr>))"

definition Get :: "string \<Rightarrow> session_store \<Rightarrow> Session option" where
  "Get k s = mget (sessions s) k"

definition Delete :: "string \<Rightarrow> session_store \<Rightarrow> Session option \<times> session_store" where
  "Delete k s =
     (case mget (sessions s) k of
        None \<Rightarrow> (None, s)
      | Some sess \<Rightarrow> (Some sess, s\<lparr>sessions := mdel k (sessions s)\<rparr>))"

definition expired :: "int \<Rightarrow> Session \<Rightarrow> bool" where
  "expired now sess \<longleftrightarrow>
     (s_IdleTimeout sess > 0 \<and> now - s_LastUsed sess > s_IdleTimeout sess)
     \<or> (s_MaxLifetime sess > 0 \<and> now - s_CreatedAt sess > s_MaxLifetime sess)"

definition EvictIdle :: "int \<Rightarrow> session_store \<Rightarrow> Session list \<times> session_store" where
  "EvictIdle now s =
     (map snd (filter (\<lambda>kv. expired now (snd kv)) (sessions s)),
      s\<lparr>sessions := filter (\<lambda>kv. \<not> expired now (snd kv)) (sessions s)\<rparr>)"

definition Count :: "session_store \<Rightarrow> int" where
  "Count s = int (length (sessions s))"

definition All :: "session_store \<Rightarrow> Session list" where
  "All s = map snd (sessions s)"

text \<open>The pointer a caller of \<open>Get\<close> holds is written through: the stored session changes.\<close>

definition put_session :: "Session \<Rightarrow> session_store \<Rightarrow> session_store" where
  "put_session sess s = s\<lparr>sessions := mput (s_ID sess) sess (sessions s)\<rparr>"

section \<open>The manifest of paused sessions\<close>

record pausedRecord =
  r_ID :: string
  r_UserID :: string
  r_Image :: string
  r_BillingModel :: string
  r_LegacyTier :: string
  r_VCPUs :: int
  r_MemoryMB :: int
  r_DiskGB :: int
  r_Env :: "(string, string) gomap"
  r_Internet :: bool
  r_IdleTimeoutNs :: int
  r_MaxLifetimeNs :: int
  r_CreatedAt :: int
  r_PausedAt :: int
  r_SnapPath :: string
  r_MemPath :: string
  r_WritableDiskPath :: string
  r_RootfsPathAtPause :: string
  r_VsockPathAtPause :: string
  r_TapNameAtPause :: string
  r_CheckpointRef :: string

definition recordFromSession :: "Session \<Rightarrow> pausedRecord" where
  "recordFromSession s =
     \<lparr>r_ID = s_ID s, r_UserID = s_UserID s, r_Image = s_Image s, r_BillingModel = s_BillingModel s,
      r_LegacyTier = [], r_VCPUs = s_VCPUs s, r_MemoryMB = s_MemoryMB s, r_DiskGB = s_DiskGB s,
      r_Env = s_Env s, r_Internet = s_Internet s, r_IdleTimeoutNs = s_IdleTimeout s,
      r_MaxLifetimeNs = s_MaxLifetime s, r_CreatedAt = s_CreatedAt s, r_PausedAt = s_PausedAt s,
      r_SnapPath = s_SnapPath s, r_MemPath = s_MemPath s, r_WritableDiskPath = s_WritableDiskPath s,
      r_RootfsPathAtPause = s_RootfsPathAtPause s, r_VsockPathAtPause = s_VsockPathAtPause s,
      r_TapNameAtPause = s_TapNameAtPause s, r_CheckpointRef = s_CheckpointRef s\<rparr>"

definition toSession :: "pausedRecord \<Rightarrow> Session" where
  "toSession r =
     (let img = (if r_Image r = [] then ''alpine'' else r_Image r);
          b1 = (if r_BillingModel r = [] then r_LegacyTier r else r_BillingModel r);
          b2 = (if b1 = [] then ''payg'' else b1)
      in \<lparr>s_ID = r_ID r, s_UserID = r_UserID r, s_Image = img, s_VM = None, s_Cgroup = None,
          s_BillingModel = b2, s_VCPUs = r_VCPUs r, s_MemoryMB = r_MemoryMB r, s_DiskGB = r_DiskGB r,
          s_Env = r_Env r, s_Internet = r_Internet r, s_IdleTimeout = r_IdleTimeoutNs r,
          s_MaxLifetime = r_MaxLifetimeNs r, s_CreatedAt = r_CreatedAt r, s_LastUsed = r_PausedAt r,
          s_RunCount = 0, s_TotalExecutionMs = 0, s_LastExitCode = None, s_PooledVM = None,
          s_Pool = None, s_VsockConn = None, s_Terminals = [], s_State = StatePaused,
          s_PausedAt = r_PausedAt r, s_SnapPath = r_SnapPath r, s_MemPath = r_MemPath r,
          s_WritableDiskPath = r_WritableDiskPath r, s_RootfsPathAtPause = r_RootfsPathAtPause r,
          s_VsockPathAtPause = r_VsockPathAtPause r, s_TapNameAtPause = r_TapNameAtPause r,
          s_CheckpointRef = r_CheckpointRef r\<rparr>)"

definition fileExists :: "string list \<Rightarrow> string \<Rightarrow> bool" where
  "fileExists fs path \<longleftrightarrow> path \<noteq> [] \<and> List.member fs path"

text \<open>The manifest is written to a temporary file that is renamed over the old one.\<close>

definition writeManifest ::
    "(string \<Rightarrow> go_error option) \<Rightarrow> Session list \<Rightarrow> pausedRecord list option
     \<Rightarrow> go_error option \<times> pausedRecord list option" where
  "writeManifest flt paused manifest =
     (case first_fault flt [''mkdir manifest dir'', ''write manifest tmp'', ''rename manifest''] of
        Some (m, e) \<Rightarrow> (Some e, manifest)
      | None \<Rightarrow> (None, Some (map recordFromSession paused)))"

definition readManifest ::
    "(string \<Rightarrow> go_error option) \<Rightarrow> string list \<Rightarrow> pausedRecord list option \<Rightarrow> go_error + Session list" where
  "readManifest flt fs manifest =
     (case manifest of
        None \<Rightarrow> Inr []
      | Some records \<Rightarrow>
          (case first_fault flt [''read manifest'', ''unmarshal manifest''] of
             Some (m, e) \<Rightarrow> Inl e
           | None \<Rightarrow>
               Inr (map toSession (filter (\<lambda>r.
                 \<not> ((\<not> fileExists fs (r_SnapPath r) \<or> \<not> fileExists fs (r_MemPath r)
                      \<or> \<not> fileExists fs (r_WritableDiskPath r)) \<and> r_CheckpointRef r = [])) records))))"

section \<open>Properties\<close>

text \<open>A paused session holds no VM and nothing that belongs to one.\<close>

definition at_rest :: "Session \<Rightarrow> bool" where
  "at_rest s \<longleftrightarrow> s_State s = StatePaused \<and> s_VM s = None \<and> s_Cgroup s = None \<and> s_PooledVM s = None
     \<and> s_Pool s = None \<and> s_VsockConn s = None \<and> s_Terminals s = []"

definition restarted :: "Session \<Rightarrow> Session" where
  "restarted s = s\<lparr>s_LastUsed := s_PausedAt s, s_RunCount := 0, s_TotalExecutionMs := 0,
     s_LastExitCode := None\<rparr>"

definition recoverable :: "string list \<Rightarrow> Session \<Rightarrow> bool" where
  "recoverable fs s \<longleftrightarrow> s_CheckpointRef s \<noteq> []
     \<or> fileExists fs (s_SnapPath s) \<and> fileExists fs (s_MemPath s) \<and> fileExists fs (s_WritableDiskPath s)"

lemma record_roundtrip:
  "at_rest s \<Longrightarrow> s_Image s \<noteq> [] \<Longrightarrow> s_BillingModel s \<noteq> [] \<Longrightarrow> toSession (recordFromSession s) = restarted s"
  by (simp add: at_rest_def toSession_def recordFromSession_def restarted_def Let_def)

lemma recordFromSession_paths [simp]:
  "r_SnapPath (recordFromSession s) = s_SnapPath s" "r_MemPath (recordFromSession s) = s_MemPath s"
  "r_WritableDiskPath (recordFromSession s) = s_WritableDiskPath s"
  "r_CheckpointRef (recordFromSession s) = s_CheckpointRef s"
  by (simp_all add: recordFromSession_def)

lemma readManifest_recovers:
  assumes "list_all (\<lambda>s. at_rest s \<and> s_Image s \<noteq> [] \<and> s_BillingModel s \<noteq> []) paused"
    and "flt ''read manifest'' = None" "flt ''unmarshal manifest'' = None"
  shows "readManifest flt fs (Some (map recordFromSession paused))
    = Inr (map restarted (filter (recoverable fs) paused))"
proof -
  have "map toSession (filter (\<lambda>r. \<not> ((\<not> fileExists fs (r_SnapPath r) \<or> \<not> fileExists fs (r_MemPath r)
          \<or> \<not> fileExists fs (r_WritableDiskPath r)) \<and> r_CheckpointRef r = [])) (map recordFromSession paused))
      = map restarted (filter (recoverable fs) paused)"
    using assms(1) by (induction paused) (auto simp: record_roundtrip recoverable_def)
  then show ?thesis using assms(2,3) by (simp add: readManifest_def)
qed

text \<open>
  A restart recovers the paused sessions. Reading the manifest a successful write left
  gives back, in order, exactly the sessions whose files are still there or that have a durable
  checkpoint, each with its identity, owner, shape, environment, network policy, timeouts and
  resume paths; only the run counters and the time of last use start afresh. A write that fails
  leaves the old manifest.
\<close>

theorem manifest_roundtrip:
  assumes "list_all (\<lambda>s. at_rest s \<and> s_Image s \<noteq> [] \<and> s_BillingModel s \<noteq> []) paused"
  shows "case writeManifest flt paused old of
      (Some e, new) \<Rightarrow> new = old
    | (None, new) \<Rightarrow> readManifest (\<lambda>_. None) fs new = Inr (map restarted (filter (recoverable fs) paused))"
  using readManifest_recovers[OF assms, of "\<lambda>_. None" fs] by (auto simp: writeManifest_def split: option.splits)

definition sample_session :: Session where
  "sample_session = toSession \<lparr>r_ID = ''sb1'', r_UserID = ''u1'', r_Image = ''alpine'',
     r_BillingModel = ''payg'', r_LegacyTier = [], r_VCPUs = 1, r_MemoryMB = 512, r_DiskGB = 2, r_Env = [],
     r_Internet = False, r_IdleTimeoutNs = 60 * second, r_MaxLifetimeNs = 0, r_CreatedAt = 0,
     r_PausedAt = 5 * second, r_SnapPath = ''/p/sb1/snap'', r_MemPath = ''/p/sb1/mem'',
     r_WritableDiskPath = ''/d/writable-vm0.ext4'', r_RootfsPathAtPause = ''/r'',
     r_VsockPathAtPause = ''/s/vsock-t.sock'', r_TapNameAtPause = ''fctap0'', r_CheckpointRef = []\<rparr>"

theorem manifest_roundtrip_witness:
  "let fs = [''/p/sb1/snap'', ''/p/sb1/mem'', ''/d/writable-vm0.ext4'']
   in readManifest (\<lambda>_. None) fs (snd (writeManifest (\<lambda>_. None) [sample_session] None))
        = Inr [restarted sample_session]"
proof -
  let ?fs = "[''/p/sb1/snap'', ''/p/sb1/mem'', ''/d/writable-vm0.ext4'']"
  have "list_all (\<lambda>s. at_rest s \<and> s_Image s \<noteq> [] \<and> s_BillingModel s \<noteq> []) [sample_session]"
    by (simp add: at_rest_def sample_session_def toSession_def)
  from manifest_roundtrip[OF this, where flt = "\<lambda>_. None" and old = None and fs = ?fs]
  have "readManifest (\<lambda>_. None) ?fs (snd (writeManifest (\<lambda>_. None) [sample_session] None))
      = Inr (map restarted (filter (recoverable ?fs) [sample_session]))"
    by (simp add: writeManifest_def)
  moreover have "recoverable ?fs sample_session"
    by (simp add: recoverable_def fileExists_def sample_session_def toSession_def)
  ultimately show ?thesis by simp
qed

text \<open>The cap of the store, and the laws of its operations.\<close>

definition store_inv :: "session_store \<Rightarrow> bool" where
  "store_inv s \<longleftrightarrow> mwf (sessions s) \<and> (\<forall>k v. mget (sessions s) k = Some v \<longrightarrow> s_ID v = k)
     \<and> (sessions s \<noteq> [] \<longrightarrow> int (length (sessions s)) \<le> max_sessions s)"

lemma Add_inv: "store_inv s \<Longrightarrow> store_inv (snd (Add sess s))"
  by (auto simp: store_inv_def Add_def length_mput split: if_splits)

lemma Delete_inv: "store_inv s \<Longrightarrow> store_inv (snd (Delete k s))"
proof (cases "mget (sessions s) k")
  case (Some v)
  assume inv: "store_inv s"
  from Some have "sessions s \<noteq> []" by auto
  with inv length_mdel_le[of k "sessions s"] Some show ?thesis
    by (auto simp: store_inv_def Delete_def)
qed (simp add: Delete_def)

lemma put_session_inv:
  "store_inv s \<Longrightarrow> mget (sessions s) (s_ID sess) = Some v \<Longrightarrow> store_inv (put_session sess s)"
  by (auto simp: store_inv_def put_session_def length_mput)

lemma Get_after:
  "Get k (snd (Add sess s)) = (if fst (Add sess s) = None \<and> k = s_ID sess then Some sess else Get k s)"
  "Get k (snd (Delete j s)) = (if k = j then None else Get k s)"
  "Get k (put_session sess s) = (if k = s_ID sess then Some sess else Get k s)"
  by (auto simp: Get_def Add_def Delete_def put_session_def split: option.splits)

end
