(* ===== verification/Checkpoint.thy ===== *)
theory Checkpoint
  imports Prelude
begin

text \<open>
  Durable checkpoints (\<open>backend/internal/checkpoint\<close>): the data that describes one.
\<close>

record Input =
  in_SandboxID :: string
  in_VCPUs :: int
  in_MemoryMB :: int
  in_DiskGB :: int
  in_RootfsPath :: string
  in_VsockPath :: string
  in_TapName :: string
  in_SnapshotPath :: string
  in_MemoryPath :: string
  in_WritableDiskPath :: string

record Resources =
  res_VCPUs :: int
  res_MemoryMB :: int
  res_DiskGB :: int

record ResumeMetadata =
  rm_RootfsPath :: string
  rm_VsockPath :: string
  rm_TapName :: string

record RestorePaths =
  rp_Snapshot :: string
  rp_Memory :: string
  rp_WritableDisk :: string

record RestoreResult =
  rr_ManifestKey :: string
  rr_Resources :: Resources
  rr_Resume :: ResumeMetadata
  rr_Paths :: RestorePaths

end
