(* ===== verification/Session_Manager.thy ===== *)
theory Session_Manager
  imports Session_Store Checkpoint
begin

text \<open>
  The session manager of a worker (\<open>backend/internal/session/manager.go\<close>): create, execute,
  pause, resume, destroy, the reaper, usage metering and crash recovery, on top of the session
  store, the VM pools and the VM manager. Each method runs to completion on the manager state,
  which contains the host; per-session serialisation is the mutex of the session. The state hook
  and the meter hook are recorded (\<open>m_events\<close>, \<open>m_samples\<close>); whether the hook accepts a state,
  the guest's answers and the checkpoint store are arguments (\<open>mgr_env\<close>). Times are nanoseconds
  since Go's zero time, so \<open>IsZero\<close> is being \<open>0\<close> and \<open>Truncate\<close> is rounding down.
\<close>

section \<open>State\<close>

record MeterSample =
  ms_UserID :: string
  ms_SandboxID :: string
  ms_BillingModel :: string
  ms_Bucket :: int
  VCPUSeconds :: rat
  RAMGBSeconds :: rat
  DiskGBSeconds :: rat

record Manager =
  m_store :: session_store
  onState_set :: bool
  onMeter_set :: bool
  m_template :: "SnapshotTemplate option"
  m_vmConfig :: VMConfig
  sizePools :: "(string, VMPool) gomap"
  sizeTemplates :: "(string, SnapshotTemplate) gomap"
  pauseDir :: string
  m_manifest :: "pausedRecord list option"
  meterLast :: "(string, int) gomap"
  meterTotals :: "(string, MeterSample) gomap"
  maxTerminals :: int
  checkpoints_set :: bool
  reader_set :: bool
  m_host :: Host
  m_samples :: "MeterSample list"
  m_events :: "(string \<times> string) list"

record ExecuteResponse =
  xr_Stdout :: string
  xr_Stderr :: string
  xr_ExitCode :: int
  xr_Duration :: rat

record mgr_env =
  me_fc :: fc_env
  me_uuid_Parse :: "string \<Rightarrow> go_error option"
  me_onState :: "nat \<Rightarrow> string \<Rightarrow> string \<Rightarrow> go_error option"
  me_ExecOnConn :: "nat \<Rightarrow> string \<Rightarrow> string \<Rightarrow> int \<Rightarrow> go_error + ExecuteResponse"
  me_ExecuteOnConn :: "nat \<Rightarrow> string \<Rightarrow> string \<Rightarrow> string \<Rightarrow> int \<Rightarrow> go_error + ExecuteResponse"
  me_Save :: "nat \<Rightarrow> Input \<Rightarrow> go_error + string"
  me_Restore :: "nat \<Rightarrow> string \<Rightarrow> string \<Rightarrow> RestorePaths \<Rightarrow> go_error + RestoreResult"

definition reaperInterval :: int where
  "reaperInterval = 10 * second"

definition pauseTTL :: int where
  "pauseTTL = 7 * 24 * hour"

definition set_host :: "Host \<Rightarrow> Manager \<Rightarrow> Manager" where
  "set_host h m = m\<lparr>m_host := h\<rparr>"

definition set_session :: "Session \<Rightarrow> Manager \<Rightarrow> Manager" where
  "set_session sess m = m\<lparr>m_store := put_session sess (m_store m)\<rparr>"

definition now :: "mgr_env \<Rightarrow> Manager \<Rightarrow> int" where
  "now X m = fc_now (me_fc X) (htick (m_host m))"

text \<open>One call to the operating system or the guest, which may fail.\<close>

definition sys :: "mgr_env \<Rightarrow> string \<Rightarrow> Manager \<Rightarrow> go_error option \<times> Manager" where
  "sys X label m = (fc_fault (me_fc X) (htick (m_host m)) label, set_host (tick (m_host m)) m)"

definition remove_file :: "string \<Rightarrow> Manager \<Rightarrow> Manager" where
  "remove_file p m = set_host ((m_host m)\<lparr>files := fdel p (files (m_host m))\<rparr>) m"

definition not_found :: "string \<Rightarrow> go_error" where
  "not_found sessionID = ErrNew (''session '' @ sessionID @ '' not found'')"

section \<open>Metering\<close>

definition meterSession :: "Session \<Rightarrow> SessionState \<Rightarrow> int \<Rightarrow> Manager \<Rightarrow> Manager" where
  "meterSession sess state t m =
     (if \<not> onMeter_set m \<or> s_UserID sess = [] then m
      else
        let last = (case mget (meterLast m) (s_ID sess) of
                      Some l \<Rightarrow> l
                    | None \<Rightarrow> if s_CreatedAt sess = 0 \<or> s_CreatedAt sess > t then t else s_CreatedAt sess);
            elapsed = of_int (t - last) / (of_int second :: rat);
            m1 = m\<lparr>meterLast := mput (s_ID sess) t (meterLast m)\<rparr>
        in if elapsed \<le> 0 then m1
           else
             let bucket = t - t mod minute;
                 fresh = \<lparr>ms_UserID = s_UserID sess, ms_SandboxID = s_ID sess,
                          ms_BillingModel = s_BillingModel sess, ms_Bucket = bucket,
                          VCPUSeconds = 0, RAMGBSeconds = 0, DiskGBSeconds = 0\<rparr>;
                 total0 = (case mget (meterTotals m1) (s_ID sess) of
                             None \<Rightarrow> fresh
                           | Some s \<Rightarrow> if ms_Bucket s = bucket then s else fresh);
                 total1 = total0\<lparr>DiskGBSeconds := DiskGBSeconds total0 + of_int (s_DiskGB sess) * elapsed\<rparr>;
                 total = (if state = StateActive
                          then total1\<lparr>VCPUSeconds := VCPUSeconds total1 + of_int (s_VCPUs sess) * elapsed,
                                      RAMGBSeconds := RAMGBSeconds total1
                                        + of_int (s_MemoryMB sess) / 1024 * elapsed\<rparr>
                          else total1)
             in m1\<lparr>meterTotals := mput (s_ID sess) total (meterTotals m1),
                   m_samples := m_samples m1 @ [total]\<rparr>)"

definition forgetMeter :: "string \<Rightarrow> Manager \<Rightarrow> Manager" where
  "forgetMeter sessionID m =
     m\<lparr>meterLast := mdel sessionID (meterLast m), meterTotals := mdel sessionID (meterTotals m)\<rparr>"

definition meterTicker :: "mgr_env \<Rightarrow> Manager \<Rightarrow> Manager" where
  "meterTicker X m =
     (let t = now X m in foldl (\<lambda>m' sess. meterSession sess (s_State sess) t m') m (All (m_store m)))"

section \<open>State hook and manifest\<close>

definition notifyState :: "mgr_env \<Rightarrow> Session \<Rightarrow> string \<Rightarrow> Manager \<Rightarrow> go_error option \<times> Manager" where
  "notifyState X sess state m =
     (if \<not> onState_set m then (None, m)
      else (map_option (Wrapf (''report session '' @ s_ID sess @ '' state '' @ state))
              (me_onState X (length (m_events m)) (s_ID sess) state),
            m\<lparr>m_events := m_events m @ [(s_ID sess, state)]\<rparr>))"

definition persistManifest :: "mgr_env \<Rightarrow> Manager \<Rightarrow> Manager" where
  "persistManifest X m =
     (let paused = filter (\<lambda>s. s_State s = StatePaused) (All (m_store m));
          (err, man) = writeManifest (fc_fault (me_fc X) (htick (m_host m))) paused (m_manifest m)
      in set_host (tick (m_host m)) (m\<lparr>m_manifest := man\<rparr>))"

section \<open>Create\<close>

definition create_conflict ::
    "Session \<Rightarrow> string \<Rightarrow> string \<Rightarrow> string \<Rightarrow> int \<Rightarrow> int \<Rightarrow> int \<Rightarrow> bool \<Rightarrow> bool" where
  "create_conflict existing userID billingModel img vcpus memoryMB diskGB internet \<longleftrightarrow>
     s_UserID existing \<noteq> userID \<or> s_BillingModel existing \<noteq> billingModel \<or> s_Image existing \<noteq> img
     \<or> s_VCPUs existing \<noteq> vcpus \<or> s_MemoryMB existing \<noteq> memoryMB \<or> s_DiskGB existing \<noteq> diskGB
     \<or> s_Internet existing \<noteq> internet"

definition release_pooled :: "mgr_env \<Rightarrow> string \<Rightarrow> PooledVM \<Rightarrow> Manager \<Rightarrow> Manager" where
  "release_pooled X key pv m =
     (case mget (sizePools m) key of
        None \<Rightarrow> m
      | Some pool \<Rightarrow>
          let (p', h') = Release_vm (me_fc X) pv pool (m_host m)
          in set_host h' (m\<lparr>sizePools := mput key p' (sizePools m)\<rparr>))"

definition new_session ::
    "string \<Rightarrow> CreateRequest \<Rightarrow> string \<Rightarrow> string \<Rightarrow> PooledVM \<Rightarrow> int \<Rightarrow> Session" where
  "new_session sandboxID req img key pv t =
     \<lparr>s_ID = sandboxID, s_UserID = cr_UserID req, s_Image = img, s_VM = Some (pv_VM pv),
      s_Cgroup = pv_Cgroup pv, s_BillingModel = cr_BillingModel req, s_VCPUs = cr_VCPUs req,
      s_MemoryMB = cr_MemoryMB req, s_DiskGB = cr_DiskGB req, s_Env = cr_Env req,
      s_Internet = cr_Internet req, s_IdleTimeout = wrap64 (cr_IdleTimeoutS req * second),
      s_MaxLifetime = wrap64 (cr_MaxLifetimeS req * second), s_CreatedAt = t, s_LastUsed = t,
      s_RunCount = 0, s_TotalExecutionMs = 0, s_LastExitCode = None, s_PooledVM = Some pv,
      s_Pool = Some key, s_VsockConn = None, s_Terminals = [], s_State = StateActive, s_PausedAt = 0,
      s_SnapPath = [], s_MemPath = [], s_WritableDiskPath = [], s_RootfsPathAtPause = [],
      s_VsockPathAtPause = [], s_TapNameAtPause = [], s_CheckpointRef = []\<rparr>"

text \<open>
  The part of \<open>CreateWithID\<close> after a VM has been acquired. The arguments of the method travel as
  the create request the worker received; the time-outs are its seconds, as \<open>secs\<close> converts them.
\<close>

definition bind_session ::
    "mgr_env \<Rightarrow> CreateRequest \<Rightarrow> string \<Rightarrow> string \<Rightarrow> PooledVM \<Rightarrow> Manager \<Rightarrow> (go_error + Session) \<times> Manager" where
  "bind_session X req img key pv m =
     (case SetSlotEgress (me_fc X) (Slot (pv_VM pv)) (cr_Internet req) (m_host m) of
        (Some e, h1) \<Rightarrow> (Inl (Wrapf ''apply network policy'' e), release_pooled X key pv (set_host h1 m))
      | (None, h1) \<Rightarrow>
          let m1 = set_host h1 m;
              sess = new_session (SandboxID req) req img key pv (now X m1) in
          (case Add sess (m_store m1) of
             (Some e, st) \<Rightarrow> (Inl e, release_pooled X key pv m1)
           | (None, st) \<Rightarrow>
               let m2 = m1\<lparr>m_store := st, meterLast := mput (s_ID sess) (s_CreatedAt sess) (meterLast m1)\<rparr>;
                   (cerr, m3) = sys X ''vsock connect'' m2 in
               (case cerr of
                  Some e \<Rightarrow>
                    let m4 = release_pooled X key pv m3 in
                    (Inl (Wrapf ''vsock connect failed'' e),
                     m4\<lparr>m_store := snd (Delete (s_ID sess) (m_store m4))\<rparr>)
                | None \<Rightarrow>
                    let sess' = sess\<lparr>s_VsockConn := Some (VsockPath (pv_VM pv))\<rparr>;
                        m4 = set_session sess' m3
                    in (Inr sess', if cr_Env req = [] then m4 else snd (sys X ''set_env'' m4)))))"

definition CreateWithID :: "mgr_env \<Rightarrow> CreateRequest \<Rightarrow> Manager \<Rightarrow> (go_error + Session) \<times> Manager" where
  "CreateWithID X req m =
     (let sandboxID = SandboxID req in
      case me_uuid_Parse X sandboxID of
        Some e \<Rightarrow> (Inl (Wrapf (''invalid sandbox id '' @ quoted sandboxID) e), m)
      | None \<Rightarrow>
      (case Normalize (cr_Image req) of
        Inl e \<Rightarrow> (Inl e, m)
      | Inr img \<Rightarrow>
      (case Get sandboxID (m_store m) of
        Some existing \<Rightarrow>
          if create_conflict existing (cr_UserID req) (cr_BillingModel req) img (cr_VCPUs req)
               (cr_MemoryMB req) (cr_DiskGB req) (cr_Internet req)
          then (Inl (ErrNew (''sandbox '' @ sandboxID @ '' already exists with different configuration'')), m)
          else (Inr existing, m)
      | None \<Rightarrow>
          let key = PoolKey img (Key (cr_VCPUs req) (cr_MemoryMB req) (cr_DiskGB req)) in
          (case mget (sizePools m) key of
             None \<Rightarrow> (Inl (ErrNew (''no VM pool for image '' @ quoted img @ '' and size ''
                        @ itoa (cr_VCPUs req) @ ''vcpu/'' @ itoa (cr_MemoryMB req) @ ''MB/''
                        @ itoa (cr_DiskGB req) @ ''GB'')), m)
           | Some pool \<Rightarrow>
               (case Acquire (me_fc X) pool (m_host m) of
                  (Inl e, p', h') \<Rightarrow>
                    (Inl (Wrapf ''failed to acquire VM'' e),
                     set_host h' (m\<lparr>sizePools := mput key p' (sizePools m)\<rparr>))
                | (Inr (pv, warm), p', h') \<Rightarrow>
                    bind_session X req img key pv (set_host h' (m\<lparr>sizePools := mput key p' (sizePools m)\<rparr>)))))))"

section \<open>Terminals\<close>

definition session_active :: "Session \<Rightarrow> bool" where
  "session_active sess \<longleftrightarrow> s_State sess = StateActive \<and> s_VM sess \<noteq> None \<and> s_VsockConn sess \<noteq> None"

definition OpenTerminal :: "mgr_env \<Rightarrow> string \<Rightarrow> string \<Rightarrow> Manager \<Rightarrow> go_error option \<times> Manager" where
  "OpenTerminal X sessionID terminalID m =
     (case Get sessionID (m_store m) of
        None \<Rightarrow> (Some (not_found sessionID), m)
      | Some sess \<Rightarrow>
          if \<not> session_active sess then (Some (ErrNew (''session '' @ sessionID @ '' is not active'')), m)
          else if List.member (s_Terminals sess) terminalID
          then (Some (ErrNew (''terminal '' @ terminalID @ '' already exists'')), m)
          else if int (length (s_Terminals sess)) \<ge> maxTerminals m
          then (Some (ErrNew (''terminal limit reached ('' @ itoa (maxTerminals m) @ '')'')), m)
          else let (cerr, m1) = sys X ''context'' m; (oerr, m2) = sys X ''open terminal'' m1 in
               if cerr \<noteq> None then (cerr, m1)
               else if oerr \<noteq> None then (oerr, m2)
               else (None, set_session (sess\<lparr>s_Terminals := s_Terminals sess @ [terminalID],
                                             s_LastUsed := now X m2\<rparr>) m2))"

definition CloseTerminal :: "mgr_env \<Rightarrow> string \<Rightarrow> string \<Rightarrow> Manager \<Rightarrow> go_error option \<times> Manager" where
  "CloseTerminal X sessionID terminalID m =
     (case Get sessionID (m_store m) of
        None \<Rightarrow> (Some (not_found sessionID), m)
      | Some sess \<Rightarrow>
          if \<not> session_active sess then (Some (ErrNew (''session '' @ sessionID @ '' is not active'')), m)
          else if \<not> List.member (s_Terminals sess) terminalID
          then (Some (ErrNew (''terminal '' @ terminalID @ '' not found'')), m)
          else let (cerr, m1) = sys X ''context'' m; (oerr, m2) = sys X ''close terminal'' m1 in
               if cerr \<noteq> None then (cerr, m1)
               else (oerr, set_session (sess\<lparr>s_Terminals := removeAll terminalID (s_Terminals sess)\<rparr>) m2))"

definition AttachTerminal :: "mgr_env \<Rightarrow> string \<Rightarrow> string \<Rightarrow> Manager \<Rightarrow> go_error option \<times> Manager" where
  "AttachTerminal X sessionID terminalID m =
     (case Get sessionID (m_store m) of
        None \<Rightarrow> (Some (not_found sessionID), m)
      | Some sess \<Rightarrow>
          if \<not> session_active sess then (Some (ErrNew (''session '' @ sessionID @ '' is not active'')), m)
          else if \<not> List.member (s_Terminals sess) terminalID
          then (Some (ErrNew (''terminal '' @ terminalID @ '' not found'')), m)
          else sys X ''attach terminal'' (set_session (sess\<lparr>s_LastUsed := now X m\<rparr>) m))"

section \<open>Pause\<close>

definition size_key :: "Session \<Rightarrow> string" where
  "size_key sess = PoolKey (s_Image sess) (Key (s_VCPUs sess) (s_MemoryMB sess) (s_DiskGB sess))"

definition rollbackFailedCheckpoint ::
    "mgr_env \<Rightarrow> Session \<Rightarrow> MicroVM \<Rightarrow> string \<Rightarrow> string \<Rightarrow> go_error \<Rightarrow> Manager \<Rightarrow> go_error option \<times> Manager" where
  "rollbackFailedCheckpoint X sess vm snapPath memPath uploadErr m =
     (let failed = (\<lambda>what e. Some (Wrapf (''durable checkpoint failed: '' @ error_text uploadErr @ ''; '' @ what) e)) in
      case ResumeLive (me_fc X) (vm_ID vm) (m_host m) of
        (Some e, h1) \<Rightarrow> (failed ''resume live VM'' e, set_host h1 m)
      | (None, h1) \<Rightarrow>
          let (cerr, m2) = sys X ''vsock connect'' (set_host h1 m) in
          (case cerr of
             Some e \<Rightarrow> (failed ''reconnect resumed VM'' e, m2)
           | None \<Rightarrow>
               let (eerr, m3) = (if s_Env sess = [] then (None, m2) else sys X ''set_env'' m2) in
               (case eerr of
                  Some e \<Rightarrow> (failed ''restore resumed VM environment'' e, m3)
                | None \<Rightarrow>
                    (Some (Wrapf ''durable checkpoint failed; sandbox resumed'' uploadErr),
                     remove_file memPath (remove_file snapPath
                       (set_session (sess\<lparr>s_VsockConn := Some (VsockPath vm)\<rparr>) m3))))))"

definition checkpoint_input :: "Session \<Rightarrow> string \<Rightarrow> string \<Rightarrow> Input" where
  "checkpoint_input sess snapPath memPath =
     \<lparr>in_SandboxID = s_ID sess, in_VCPUs = s_VCPUs sess, in_MemoryMB = s_MemoryMB sess,
      in_DiskGB = s_DiskGB sess, in_RootfsPath = s_RootfsPathAtPause sess,
      in_VsockPath = s_VsockPathAtPause sess, in_TapName = s_TapNameAtPause sess,
      in_SnapshotPath = snapPath, in_MemoryPath = memPath,
      in_WritableDiskPath = s_WritableDiskPath sess\<rparr>"

text \<open>The end of a pause: the snapshot exists and, where configured, is stored durably.\<close>

definition commit_pause ::
    "mgr_env \<Rightarrow> Session \<Rightarrow> MicroVM \<Rightarrow> string \<Rightarrow> string \<Rightarrow> Manager \<Rightarrow> go_error option \<times> Manager" where
  "commit_pause X sess vm snapPath memPath m =
     (let m1 = meterSession sess StateActive (now X m) m;
          m2 = (case s_Pool sess of
                  None \<Rightarrow> m1
                | Some key \<Rightarrow>
                    (case mget (sizePools m1) key of
                       None \<Rightarrow> m1
                     | Some pool \<Rightarrow> m1\<lparr>sizePools := mput key (Forget (vm_ID vm) pool) (sizePools m1)\<rparr>));
          h3 = snd (TeardownKeepDisk (me_fc X) (vm_ID vm) (m_host m2));
          m4 = set_host (drop_cgroup (me_fc X) (s_Cgroup sess) h3) m2;
          sess' = sess\<lparr>s_SnapPath := snapPath, s_MemPath := memPath, s_State := StatePaused,
                       s_PausedAt := now X m4, s_VM := None, s_VsockConn := None, s_PooledVM := None,
                       s_Pool := None, s_Cgroup := None\<rparr>;
          m5 = persistManifest X (set_session sess' m4)
      in notifyState X sess' ''paused'' m5)"

definition snapshot_session ::
    "mgr_env \<Rightarrow> Session \<Rightarrow> MicroVM \<Rightarrow> SnapshotTemplate \<Rightarrow> Manager \<Rightarrow> go_error option \<times> Manager" where
  "snapshot_session X sess vm tmpl m =
     (let (derr, m1) = sys X ''create pause dir'' m in
      case derr of
        Some e \<Rightarrow> (Some (Wrapf ''create pause dir'' e), m1)
      | None \<Rightarrow>
          let snapDir = path_join (pauseDir m1) (s_ID sess);
              snapPath = path_join snapDir ''snap''; memPath = path_join snapDir ''mem'';
              sess1 = sess\<lparr>s_VsockPathAtPause := tp_VsockPath tmpl, s_TapNameAtPause := tp_TapName tmpl,
                           s_WritableDiskPath := WritableDiskPath vm,
                           s_RootfsPathAtPause := RootfsPath (vm_Config vm), s_VsockConn := None\<rparr>;
              m2 = set_session sess1 m1 in
          (case Snapshot (me_fc X) (vm_ID vm) snapPath memPath (m_host m2) of
             (Some e, h3) \<Rightarrow> (Some (Wrapf ''snapshot for pause'' e), set_host h3 m2)
           | (None, h3) \<Rightarrow>
               let m3 = set_host h3 m2 in
               if \<not> checkpoints_set m3 then commit_pause X sess1 vm snapPath memPath m3
               else (case me_Save X (htick h3) (checkpoint_input sess1 snapPath memPath) of
                       Inl e \<Rightarrow> rollbackFailedCheckpoint X sess1 vm snapPath memPath e m3
                     | Inr ref \<Rightarrow>
                         let sess2 = sess1\<lparr>s_CheckpointRef := ref\<rparr>
                         in commit_pause X sess2 vm snapPath memPath (set_session sess2 m3))))"

definition idle_now :: "Session \<Rightarrow> int \<Rightarrow> bool" where
  "idle_now sess t \<longleftrightarrow> s_State sess = StateActive \<and> s_IdleTimeout sess > 0
     \<and> \<not> t < s_LastUsed sess + s_IdleTimeout sess \<and> s_Terminals sess = []"

definition pause :: "mgr_env \<Rightarrow> string \<Rightarrow> int option \<Rightarrow> Manager \<Rightarrow> go_error option \<times> Manager" where
  "pause X sessionID idleCheckAt m =
     (case Get sessionID (m_store m) of
        None \<Rightarrow> (Some (not_found sessionID), m)
      | Some sess \<Rightarrow>
      (case m_template m of
        None \<Rightarrow> (Some (ErrNew (''cannot pause session '' @ sessionID
                   @ '': no snapshot template (cold-boot mode)'')), m)
      | Some dflt \<Rightarrow>
          if (case idleCheckAt of None \<Rightarrow> False | Some t \<Rightarrow> \<not> idle_now sess t) then (None, m)
          else if s_State sess = StatePaused then notifyState X sess ''paused'' m
          else (case s_VM sess of
            None \<Rightarrow> (None, m)
          | Some vm \<Rightarrow>
              let tmpl = (case mget (sizeTemplates m) (size_key sess) of Some t \<Rightarrow> t | None \<Rightarrow> dflt) in
              if s_VsockConn sess \<noteq> None \<and> s_Terminals sess \<noteq> []
              then (let (terr, m1) = sys X ''close terminals'' m;
                        sess1 = sess\<lparr>s_Terminals := []\<rparr>
                    in case terr of
                         Some e \<Rightarrow> (Some (Wrapf ''close terminals before pause'' e), m1)
                       | None \<Rightarrow> snapshot_session X sess1 vm tmpl (set_session sess1 m1))
              else snapshot_session X sess vm tmpl m)))"

definition Pause :: "mgr_env \<Rightarrow> string \<Rightarrow> Manager \<Rightarrow> go_error option \<times> Manager" where
  "Pause X sessionID m = pause X sessionID None m"

section \<open>Resume\<close>

definition hydrateCheckpoint ::
    "mgr_env \<Rightarrow> Session \<Rightarrow> Manager \<Rightarrow> (go_error + Session) \<times> Manager" where
  "hydrateCheckpoint X sess m =
     (if \<not> reader_set m
      then (Inl (ErrNew (''local checkpoint artifacts are missing and durable ''
                 @ ''checkpoint reads are disabled'')), m)
      else
        let dir = path_join (pauseDir m) (s_ID sess);
            paths = \<lparr>rp_Snapshot = path_join dir ''snap'', rp_Memory = path_join dir ''mem'',
                     rp_WritableDisk = path_join (fs_root (writableDisks (me_fc X)))
                       (''writable-'' @ s_ID sess @ ''.ext4'')\<rparr>;
            flt = fc_fault (me_fc X) (htick (m_host m)); h1 = tick (m_host m);
            cleanup = (\<lambda>h. h\<lparr>files := fdel (rp_WritableDisk paths) (fdel (rp_Memory paths)
                              (fdel (rp_Snapshot paths) (files h)))\<rparr>) in
        (case me_Restore X (htick (m_host m)) (s_ID sess) (s_CheckpointRef sess) paths of
           Inl e \<Rightarrow> (Inl e, set_host h1 m)
         | Inr result \<Rightarrow>
             let h2 = h1\<lparr>files := fadd (rp_WritableDisk paths) (fadd (rp_Memory paths)
                              (fadd (rp_Snapshot paths) (files h1)))\<rparr>;
                 have = rr_Resources result in
             if (s_VCPUs sess \<noteq> 0 \<and> res_VCPUs have \<noteq> s_VCPUs sess)
                \<or> (s_MemoryMB sess \<noteq> 0 \<and> res_MemoryMB have \<noteq> s_MemoryMB sess)
                \<or> (s_DiskGB sess \<noteq> 0 \<and> res_DiskGB have \<noteq> s_DiskGB sess)
             then (Inl (ErrNew ''checkpoint resource metadata does not match session''),
                   set_host (cleanup h2) m)
             else (case (if FCUid (me_fc X) > 0
                         then first_fault flt (map (\<lambda>n. ''set Firecracker ownership on '' @ n)
                                [rp_Snapshot paths, rp_Memory paths, rp_WritableDisk paths])
                         else None) of
                     Some (l, e) \<Rightarrow> (Inl e, set_host (cleanup h2) m)
                   | None \<Rightarrow>
                       let sess' = sess\<lparr>s_SnapPath := rp_Snapshot paths, s_MemPath := rp_Memory paths,
                             s_WritableDiskPath := rp_WritableDisk paths,
                             s_RootfsPathAtPause := rm_RootfsPath (rr_Resume result),
                             s_VsockPathAtPause := rm_VsockPath (rr_Resume result),
                             s_TapNameAtPause := rm_TapName (rr_Resume result),
                             s_CheckpointRef := rr_ManifestKey result\<rparr>
                       in (Inr sess', persistManifest X (set_session sess' (set_host h2 m))))))"

definition resume_cgroup :: "Session \<Rightarrow> cgroup_Config" where
  "resume_cgroup sess =
     (let sz = \<lparr>sz_name = [], sz_vcpus = s_VCPUs sess, sz_memory_mb = s_MemoryMB sess,
                sz_disk_gb = s_DiskGB sess\<rparr>
      in \<lparr>CPUQuotaUS = CgroupCPUQuotaUS sz, CPUPeriodUS = CgroupCPUPeriodUS,
          MemMaxBytes = CgroupMemMaxBytes sz\<rparr>)"

definition undo_resume :: "mgr_env \<Rightarrow> string option \<Rightarrow> MicroVM \<Rightarrow> Manager \<Rightarrow> Manager" where
  "undo_resume X cg vm m =
     set_host (snd (TeardownKeepDisk (me_fc X) (vm_ID vm) (drop_cgroup (me_fc X) cg (m_host m)))) m"

definition commit_resume :: "mgr_env \<Rightarrow> Session \<Rightarrow> MicroVM \<Rightarrow> string option \<Rightarrow> Manager \<Rightarrow> go_error option \<times> Manager" where
  "commit_resume X sess vm cg m =
     (let sess1 = sess\<lparr>s_VM := Some vm, s_Cgroup := cg, s_VsockConn := Some (VsockPath vm),
                       s_PooledVM := None, s_Pool := None\<rparr>;
          m1 = meterSession sess1 StatePaused (now X m) m;
          m2 = remove_file (s_MemPath sess) (remove_file (s_SnapPath sess) m1);
          sess2 = sess1\<lparr>s_State := StateActive, s_LastUsed := now X m, s_SnapPath := [], s_MemPath := []\<rparr>;
          m3 = persistManifest X (set_session sess2 m2)
      in notifyState X sess2 ''active'' m3)"

definition restore_session :: "mgr_env \<Rightarrow> Session \<Rightarrow> Manager \<Rightarrow> go_error option \<times> Manager" where
  "restore_session X sess m =
     (let rootfsPath = (if s_RootfsPathAtPause sess = []
                        then (case m_template m of Some t \<Rightarrow> tp_RootfsPath t | None \<Rightarrow> [])
                        else s_RootfsPathAtPause sess);
          tmpl = \<lparr>tp_SnapPath = s_SnapPath sess, tp_MemPath = s_MemPath sess, tp_RootfsPath = rootfsPath,
                  tp_WritableDiskPath = s_WritableDiskPath sess, tp_VsockPath = s_VsockPathAtPause sess,
                  tp_TapName = s_TapNameAtPause sess\<rparr> in
      case ResumeFromSnapshot (me_fc X) (m_vmConfig m) tmpl (m_host m) of
        (Inl e, h1) \<Rightarrow> (Some (Wrapf ''resume from snapshot'' e), set_host h1 m)
      | (Inr vm, h1) \<Rightarrow>
          (case SetSlotEgress (me_fc X) (Slot vm) (s_Internet sess) h1 of
             (Some e, h2) \<Rightarrow> (Some (Wrapf ''re-apply network policy on resume'' e),
                              undo_resume X None vm (set_host h2 m))
           | (None, h2) \<Rightarrow>
               let (cg, h3) = setup_cgroup (me_fc X) (resume_cgroup sess) vm h2;
                   (cerr, m4) = sys X ''vsock connect'' (set_host h3 m) in
               (case cerr of
                  Some e \<Rightarrow> (Some (Wrapf ''vsock connect on resume'' e), undo_resume X cg vm m4)
                | None \<Rightarrow>
                    let (rerr, m5) = sys X ''reset_runtimes'' m4 in
                    (case rerr of
                       Some e \<Rightarrow> (Some (Wrapf ''verify guest agent on resume'' e), undo_resume X cg vm m5)
                     | None \<Rightarrow>
                         let (eerr, m6) = (if s_Env sess = [] then (None, m5) else sys X ''set_env'' m5) in
                         (case eerr of
                            Some e \<Rightarrow> (Some (Wrapf ''restore guest environment on resume'' e),
                                       undo_resume X cg vm m6)
                          | None \<Rightarrow> commit_resume X sess vm cg m6)))))"

definition Resume :: "mgr_env \<Rightarrow> string \<Rightarrow> Manager \<Rightarrow> go_error option \<times> Manager" where
  "Resume X sessionID m =
     (case Get sessionID (m_store m) of
        None \<Rightarrow> (Some (not_found sessionID), m)
      | Some sess \<Rightarrow>
          if s_State sess = StateActive then notifyState X sess ''active'' m
          else if \<not> fileExists (files (m_host m)) (s_SnapPath sess)
               \<or> \<not> fileExists (files (m_host m)) (s_MemPath sess)
               \<or> \<not> fileExists (files (m_host m)) (s_WritableDiskPath sess)
          then (case hydrateCheckpoint X sess m of
                  (Inl e, m1) \<Rightarrow> (Some (Wrapf ''restore durable checkpoint'' e), m1)
                | (Inr sess', m1) \<Rightarrow> restore_session X sess' m1)
          else restore_session X sess m)"

definition ensureActive :: "mgr_env \<Rightarrow> string \<Rightarrow> Manager \<Rightarrow> go_error option \<times> Manager" where
  "ensureActive X sessionID m =
     (case Get sessionID (m_store m) of
        None \<Rightarrow> (Some (not_found sessionID), m)
      | Some sess \<Rightarrow> if s_State sess = StatePaused then Resume X sessionID m else (None, m))"

section \<open>Execution\<close>

text \<open>
  Both calls use the session's connection. A session without one (\<open>nil\<close>) makes the call panic;
  the panic is the error \<open>nil_connection\<close>, after which the deferred unlock has run.
\<close>

definition nil_connection :: go_error where
  "nil_connection = ErrNew ''panic: nil pointer dereference''"

definition exec_result :: "ExecuteResponse \<Rightarrow> ExecResult" where
  "exec_result resp =
     \<lparr>er_Stdout = xr_Stdout resp, er_Stderr = xr_Stderr resp, er_Duration = xr_Duration resp,
      er_GuestDuration = xr_Duration resp, er_ExitCode = xr_ExitCode resp,
      er_TerminationReason = ''success''\<rparr>"

definition run_in_session ::
    "mgr_env \<Rightarrow> string \<Rightarrow> string \<Rightarrow> (nat \<Rightarrow> string \<Rightarrow> int \<Rightarrow> go_error + ExecuteResponse) \<Rightarrow> bool \<Rightarrow> int \<Rightarrow> Manager
     \<Rightarrow> (go_error + ExecResult) \<times> Manager" where
  "run_in_session X sessionID what call timed timeoutSec m =
     (case ensureActive X sessionID m of
        (Some e, m1) \<Rightarrow> (Inl (Wrapf ''resume session'' e), m1)
      | (None, m1) \<Rightarrow>
          (case Get sessionID (m_store m1) of
             None \<Rightarrow> (Inl (not_found sessionID), m1)
           | Some sess0 \<Rightarrow>
               let sess = sess0\<lparr>s_LastUsed := now X m1\<rparr>;
                   m2 = set_session sess m1;
                   limit = (if timeoutSec \<le> 0 then 30 else timeoutSec) in
               (case (s_VM sess, s_VsockConn sess) of
                  (Some vm, Some conn) \<Rightarrow>
                    let m3 = set_host (tick (m_host m2)) m2 in
                    (case call (htick (m_host m2)) conn limit of
                       Inl e \<Rightarrow> (Inl (Wrapf (what @ '' failed'') e), m3)
                     | Inr resp \<Rightarrow>
                         (Inr (exec_result resp),
                          set_session (sess\<lparr>s_RunCount := s_RunCount sess + 1,
                            s_TotalExecutionMs := s_TotalExecutionMs sess
                              + (if timed then xr_Duration resp * 1000 else 0),
                            s_LastExitCode := Some (xr_ExitCode resp)\<rparr>) m3))
                | _ \<Rightarrow> (Inl nil_connection, m2))))"

definition Exec :: "mgr_env \<Rightarrow> string \<Rightarrow> string \<Rightarrow> int \<Rightarrow> Manager \<Rightarrow> (go_error + ExecResult) \<times> Manager" where
  "Exec X sessionID command timeoutSec m =
     run_in_session X sessionID ''exec'' (\<lambda>n conn limit. me_ExecOnConn X n conn command limit) False timeoutSec m"

definition Execute ::
    "mgr_env \<Rightarrow> string \<Rightarrow> string \<Rightarrow> string \<Rightarrow> int \<Rightarrow> Manager \<Rightarrow> (go_error + ExecResult) \<times> Manager" where
  "Execute X sessionID code language timeoutSec m =
     run_in_session X sessionID ''execution''
       (\<lambda>n conn limit. me_ExecuteOnConn X n conn code language limit) True timeoutSec m"

section \<open>Destroy\<close>

definition cleanupPausedFiles :: "mgr_env \<Rightarrow> Session \<Rightarrow> Manager \<Rightarrow> Manager" where
  "cleanupPausedFiles X sess m =
     (let h0 = m_host m; flt = fc_fault (me_fc X) (htick h0); h1 = tick h0;
          fs = (if s_WritableDiskPath sess = [] then files h1
                else snd (disk_Delete (writableDisks (me_fc X)) flt (s_WritableDiskPath sess) (files h1)));
          dir = path_join (pauseDir m) (s_ID sess)
      in set_host (h1\<lparr>files := filter (\<lambda>p. \<not> has_prefix p (dir @ [slash])) fs\<rparr>) m)"

definition destroy_vm_of :: "mgr_env \<Rightarrow> Session \<Rightarrow> Manager \<Rightarrow> go_error option \<times> Manager" where
  "destroy_vm_of X sess m =
     (case (s_PooledVM sess, s_Pool sess) of
        (Some pv, Some key) \<Rightarrow> (None, release_pooled X key pv m)
      | _ \<Rightarrow>
          let h1 = drop_cgroup (me_fc X) (s_Cgroup sess) (m_host m) in
          (case s_VM sess of
             None \<Rightarrow> (None, set_host h1 m)
           | Some vm \<Rightarrow>
               (case Destroy_vm (me_fc X) (vm_ID vm) h1 of
                  (Some e, h2) \<Rightarrow> (Some (Wrapf ''failed to destroy VM'' e), set_host h2 m)
                | (None, h2) \<Rightarrow> (None, set_host h2 m))))"

definition Destroy :: "mgr_env \<Rightarrow> string \<Rightarrow> Manager \<Rightarrow> go_error option \<times> Manager" where
  "Destroy X sessionID m =
     (case Delete sessionID (m_store m) of
        (None, st) \<Rightarrow> (Some (not_found sessionID), m)
      | (Some sess, st) \<Rightarrow>
          let m1 = meterSession sess (s_State sess) (now X m) (m\<lparr>m_store := st\<rparr>);
              finish = (\<lambda>m'. case notifyState X sess ''destroyed'' m' of
                                (Some e, m'') \<Rightarrow> (Some e, m'')
                              | (None, m'') \<Rightarrow> (None, forgetMeter sessionID m'')) in
          if s_State sess = StatePaused
          then finish (persistManifest X (cleanupPausedFiles X sess m1))
          else
            let m2 = (if s_VsockConn sess \<noteq> None \<and> s_Terminals sess \<noteq> []
                      then snd (sys X ''close terminals'' m1) else m1) in
            (case destroy_vm_of X sess m2 of
               (Some e, m3) \<Rightarrow> (Some e, m3)
             | (None, m3) \<Rightarrow> finish m3))"

section \<open>Draining, reaping, shutdown\<close>

text \<open>
  \<open>PauseAllActive\<close> hands the active sessions to its workers until the context ends; \<open>scheduled\<close>
  is the number handed out by then and \<open>ctxErr\<close> the error of the context. Errors are joined.
\<close>

definition join_errors :: "go_error list \<Rightarrow> go_error option" where
  "join_errors es = (case es of [] \<Rightarrow> None | e # r \<Rightarrow> Some (foldl ErrJoin e r))"

definition PauseAllActive ::
    "mgr_env \<Rightarrow> nat \<Rightarrow> ctx_err option \<Rightarrow> Manager \<Rightarrow> go_error option \<times> Manager" where
  "PauseAllActive X scheduled ctxErr m =
     (let ids = map s_ID (filter (\<lambda>s. s_State s = StateActive) (All (m_store m)));
          todo = (case ctxErr of None \<Rightarrow> ids | Some _ \<Rightarrow> take scheduled ids);
          (fails, m') = foldl (\<lambda>(es, g) k.
             case Pause X k g of
               (Some e, g') \<Rightarrow> (es @ [Wrapf (''pause session '' @ k) e], g')
             | (None, g') \<Rightarrow> (es, g')) ([], m) todo
      in if ids = [] then (None, m)
         else (join_errors (fails @ (case ctxErr of None \<Rightarrow> []
                 | Some c \<Rightarrow> [Wrapf ''graceful pause deadline'' (ctx_Err c)])), m'))"

datatype reapAction = reapNone | reapPause | reapDestroy

definition reapActionFor :: "Session \<Rightarrow> int \<Rightarrow> reapAction" where
  "reapActionFor sess t =
     (if s_MaxLifetime sess > 0 \<and> \<not> t < s_CreatedAt sess + s_MaxLifetime sess then reapDestroy
      else case s_State sess of
             StateActive \<Rightarrow>
               if s_IdleTimeout sess > 0 \<and> s_Terminals sess = []
                  \<and> \<not> t < s_LastUsed sess + s_IdleTimeout sess
               then reapPause else reapNone
           | StatePaused \<Rightarrow> if \<not> t < s_PausedAt sess + pauseTTL then reapDestroy else reapNone)"

definition reap_one :: "mgr_env \<Rightarrow> int \<Rightarrow> Manager \<Rightarrow> string \<Rightarrow> Manager" where
  "reap_one X t m k =
     (case Get k (m_store m) of
        None \<Rightarrow> m
      | Some sess \<Rightarrow>
          (case reapActionFor sess t of
             reapNone \<Rightarrow> m
           | reapPause \<Rightarrow> snd (pause X k (Some t) m)
           | reapDestroy \<Rightarrow> snd (Destroy X k m)))"

definition reapOnce :: "mgr_env \<Rightarrow> int \<Rightarrow> Manager \<Rightarrow> Manager" where
  "reapOnce X t m = foldl (reap_one X t) m (map s_ID (All (m_store m)))"

definition Shutdown :: "mgr_env \<Rightarrow> Manager \<Rightarrow> Manager" where
  "Shutdown X m =
     (let m1 = foldl (\<lambda>g sess.
            if s_State sess = StatePaused \<or> s_PooledVM sess \<noteq> None then g
            else let h1 = drop_cgroup (me_fc X) (s_Cgroup sess) (m_host g) in
                 (case s_VM sess of
                    None \<Rightarrow> set_host h1 g
                  | Some vm \<Rightarrow> set_host (snd (Destroy_vm (me_fc X) (vm_ID vm) h1)) g))
          m (All (m_store m))
      in foldl (\<lambda>g kv. set_host (Shutdown_pool (me_fc X) (snd kv) (m_host g)) g) m1 (sizePools m1))"

section \<open>Queries\<close>

definition GetSession :: "string \<Rightarrow> Manager \<Rightarrow> Session option" where
  "GetSession k m = Get k (m_store m)"

definition ResolvePortTarget :: "string \<Rightarrow> Manager \<Rightarrow> go_error + int" where
  "ResolvePortTarget k m =
     (case Get k (m_store m) of
        None \<Rightarrow> Inl (not_found k)
      | Some sess \<Rightarrow>
          (case s_VM sess of
             Some vm \<Rightarrow>
               if s_State sess \<noteq> StateActive \<or> Slot vm < 0
               then Inl (ErrNew (''session '' @ k @ '' is not active'')) else Inr (Slot vm)
           | None \<Rightarrow> Inl (ErrNew (''session '' @ k @ '' is not active''))))"

definition Stats :: "Manager \<Rightarrow> int \<times> int" where
  "Stats m =
     (int (length (filter (\<lambda>s. s_State s = StateActive) (All (m_store m)))), Count (m_store m))"

section \<open>Start-up\<close>

definition recoverPaused :: "mgr_env \<Rightarrow> Manager \<Rightarrow> Manager" where
  "recoverPaused X m =
     (case readManifest (fc_fault (me_fc X) (htick (m_host m))) (files (m_host m)) (m_manifest m) of
        Inl e \<Rightarrow> m
      | Inr found \<Rightarrow>
          let fill = (\<lambda>sess. if s_RootfsPathAtPause sess = []
                then (case m_template m of Some t \<Rightarrow> sess\<lparr>s_RootfsPathAtPause := tp_RootfsPath t\<rparr>
                                         | None \<Rightarrow> sess) else sess);
              (n, m1) = foldl (\<lambda>(n :: nat, g) sess.
                 case Add (fill sess) (m_store g) of
                   (Some e, st) \<Rightarrow> (n, g)
                 | (None, st) \<Rightarrow> (Suc n, g\<lparr>m_store := st\<rparr>)) (0, m) found
          in if n > 0 then persistManifest X m1 else m1)"

definition keep_disks :: "Manager \<Rightarrow> string list" where
  "keep_disks m =
     filter (\<lambda>p. p \<noteq> [])
       ((case m_template m of None \<Rightarrow> [] | Some t \<Rightarrow> [tp_WritableDiskPath t])
        @ map (\<lambda>kv. tp_WritableDiskPath (snd kv)) (sizeTemplates m)
        @ map s_WritableDiskPath (filter (\<lambda>s. s_State s = StatePaused) (All (m_store m))))"

definition keep_pauses :: "Manager \<Rightarrow> string list" where
  "keep_pauses m = map s_ID (filter (\<lambda>s. s_State s = StatePaused) (All (m_store m)))"

definition in_dir :: "string \<Rightarrow> string \<Rightarrow> bool" where
  "in_dir dir p \<longleftrightarrow> has_prefix p (dir @ [slash])"

definition cleanupOrphanedDisks :: "mgr_env \<Rightarrow> Manager \<Rightarrow> Manager" where
  "cleanupOrphanedDisks X m =
     (let h0 = m_host m; flt = fc_fault (me_fc X) (htick h0); h1 = tick h0;
          store = writableDisks (me_fc X);
          fs1 = foldl (\<lambda>fs p. if List.member (keep_disks m) p then fs else snd (disk_Delete store flt p fs))
                  (files h1) (disk_List store (files h1));
          keep = map (\<lambda>k. path_join (pauseDir m) k) (keep_pauses m);
          fs2 = filter (\<lambda>p. \<not> in_dir (pauseDir m) p
                             \<or> path_dir p = pauseDir m
                             \<or> list_ex (\<lambda>d. in_dir d p) keep) fs1
      in set_host (h1\<lparr>files := fs2\<rparr>) m)"

text \<open>
  The fresh manager before recovery; the manifest and the host are what the previous process left.
  The defaults for the time-outs are not kept, since no method reads them.
\<close>

definition new_manager ::
    "mgr_env \<Rightarrow> SnapshotTemplate option \<Rightarrow> VMConfig \<Rightarrow> int \<Rightarrow> (string, VMPool) gomap
     \<Rightarrow> (string, SnapshotTemplate) gomap \<Rightarrow> bool \<Rightarrow> bool \<Rightarrow> pausedRecord list option \<Rightarrow> Host \<Rightarrow> Manager" where
  "new_manager X template cfg maxSessions pools templates onState onMeter manifest h =
     \<lparr>m_store = NewStore maxSessions, onState_set = onState, onMeter_set = onMeter,
      m_template = template, m_vmConfig = cfg, sizePools = pools, sizeTemplates = templates,
      pauseDir = path_join (SocketDir (me_fc X)) ''pause'', m_manifest = manifest,
      meterLast = [], meterTotals = [], maxTerminals = 8, checkpoints_set = False, reader_set = False,
      m_host = h, m_samples = [], m_events = []\<rparr>"

definition NewManager ::
    "mgr_env \<Rightarrow> SnapshotTemplate option \<Rightarrow> VMConfig \<Rightarrow> int \<Rightarrow> (string, VMPool) gomap
     \<Rightarrow> (string, SnapshotTemplate) gomap \<Rightarrow> bool \<Rightarrow> bool \<Rightarrow> pausedRecord list option \<Rightarrow> Host \<Rightarrow> Manager" where
  "NewManager X template cfg maxSessions pools templates onState onMeter manifest h =
     (let m1 = recoverPaused X (new_manager X template cfg maxSessions pools templates onState onMeter manifest h);
          m2 = m1\<lparr>meterLast := map (\<lambda>kv. (fst kv, now X m1)) (sessions (m_store m1))\<rparr>
      in cleanupOrphanedDisks X m2)"

definition SetMaxTerminalsPerSandbox :: "int \<Rightarrow> Manager \<Rightarrow> Manager" where
  "SetMaxTerminalsPerSandbox n m = (if n > 0 then m\<lparr>maxTerminals := n\<rparr> else m)"

definition SetCheckpointWriter :: "Manager \<Rightarrow> Manager" where
  "SetCheckpointWriter m = m\<lparr>checkpoints_set := True\<rparr>"

definition SetCheckpointReader :: "Manager \<Rightarrow> Manager" where
  "SetCheckpointReader m = m\<lparr>reader_set := True\<rparr>"

section \<open>What each step leaves alone\<close>

lemma set_host_simps [simp]:
  "m_store (set_host h m) = m_store m" "m_host (set_host h m) = h" "pauseDir (set_host h m) = pauseDir m"
  "m_events (set_host h m) = m_events m" "meterLast (set_host h m) = meterLast m"
  "m_template (set_host h m) = m_template m" "sizePools (set_host h m) = sizePools m"
  "sizeTemplates (set_host h m) = sizeTemplates m" "checkpoints_set (set_host h m) = checkpoints_set m"
  "onState_set (set_host h m) = onState_set m" "m_manifest (set_host h m) = m_manifest m"
  "m_vmConfig (set_host h m) = m_vmConfig m" "reader_set (set_host h m) = reader_set m"
  by (simp_all add: set_host_def)

lemma set_session_simps [simp]:
  "m_store (set_session s m) = put_session s (m_store m)" "m_host (set_session s m) = m_host m"
  "pauseDir (set_session s m) = pauseDir m" "m_events (set_session s m) = m_events m"
  "checkpoints_set (set_session s m) = checkpoints_set m" "sizePools (set_session s m) = sizePools m"
  "onState_set (set_session s m) = onState_set m" "m_template (set_session s m) = m_template m"
  by (simp_all add: set_session_def)

lemma sys_store [simp]: "m_store (snd (sys X l m)) = m_store m"
  by (simp add: sys_def)

lemma step_store [simp]:
  "m_store (meterSession sess st t m) = m_store m"
  "m_store (forgetMeter k m) = m_store m"
  "m_store (snd (notifyState X sess f m)) = m_store m"
  "m_store (persistManifest X m) = m_store m"
  "m_store (release_pooled X key pv m) = m_store m"
  "m_store (remove_file p m) = m_store m"
  "m_store (undo_resume X cg vm m) = m_store m"
  "m_store (cleanupPausedFiles X sess m) = m_store m"
  "m_store (snd (destroy_vm_of X sess m)) = m_store m"
  by (auto simp: meterSession_def forgetMeter_def notifyState_def persistManifest_def release_pooled_def
      remove_file_def undo_resume_def cleanupPausedFiles_def destroy_vm_of_def Let_def split_beta
      split: option.splits prod.splits)

lemma Get_put [simp]: "Get k (put_session sess s) = (if k = s_ID sess then Some sess else Get k s)"
  by (simp add: Get_after)

lemma Get_ID: "store_inv s \<Longrightarrow> Get k s = Some sess \<Longrightarrow> s_ID sess = k"
  by (simp add: store_inv_def Get_def)

text \<open>An operation on session \<open>k\<close> writes no other session.\<close>

definition writes_only :: "string \<Rightarrow> Manager \<Rightarrow> Manager \<Rightarrow> bool" where
  "writes_only k m m' \<longleftrightarrow> m_store m' = m_store m
     \<or> (\<exists>sess. s_ID sess = k \<and> m_store m' = put_session sess (m_store m))"

lemma put_twice [simp]: "s_ID a = s_ID b \<Longrightarrow> put_session a (put_session b s) = put_session a s"
  by (simp add: put_session_def)

lemma writes_only_put: "s_ID sess = k \<Longrightarrow> m_store m' = put_session sess (m_store m) \<Longrightarrow> writes_only k m m'"
  by (auto simp: writes_only_def)

lemma writes_only_other: "writes_only k m m' \<Longrightarrow> j \<noteq> k \<Longrightarrow> Get j (m_store m') = Get j (m_store m)"
  by (auto simp: writes_only_def)

lemma writes_only_inv:
  "writes_only k m m' \<Longrightarrow> store_inv (m_store m) \<Longrightarrow> Get k (m_store m) \<noteq> None \<Longrightarrow> store_inv (m_store m')"
  by (auto simp: writes_only_def Get_def intro: put_session_inv)

lemma writes_only_store: "m_store m' = m_store m \<Longrightarrow> writes_only k m m'"
  by (simp add: writes_only_def)

lemma notifyState_snd: "notifyState X sess f m = (r, m') \<Longrightarrow> m_store m' = m_store m"
  using step_store(3)[of X sess f m] by simp

lemma commit_pause_store:
  "m_store (snd (commit_pause X sess vm sp mp m)) = put_session (sess\<lparr>s_SnapPath := sp, s_MemPath := mp,
      s_State := StatePaused, s_PausedAt := s_PausedAt (the (Get (s_ID sess) (m_store (snd (commit_pause X sess vm sp mp m))))),
      s_VM := None, s_VsockConn := None, s_PooledVM := None, s_Pool := None, s_Cgroup := None\<rparr>) (m_store m)"
  by (auto simp: commit_pause_def Let_def split: option.splits)

lemma commit_pause_only: "writes_only (s_ID sess) m (snd (commit_pause X sess vm sp mp m))"
  by (rule writes_only_put[OF _ commit_pause_store]) simp

lemma rollback_only: "writes_only (s_ID sess) m (snd (rollbackFailedCheckpoint X sess vm sp mp e m))"
  by (auto simp: rollbackFailedCheckpoint_def sys_def Let_def split: prod.splits option.splits
      intro: writes_only_store writes_only_put[where sess = "sess\<lparr>s_VsockConn := Some (VsockPath vm)\<rparr>"])

lemma writes_only_trans: "writes_only k a b \<Longrightarrow> writes_only k b c \<Longrightarrow> writes_only k a c"
  by (auto simp: writes_only_def)

lemma writes_only_from:
  "m_store mid = m_store m \<or> m_store mid = put_session sess (m_store m) \<Longrightarrow> s_ID sess = k
     \<Longrightarrow> writes_only k mid m' \<Longrightarrow> writes_only k m m'"
  by (auto simp: writes_only_def)

lemma set_host_twice [simp]: "set_host h (set_host g m) = set_host h m"
  by (simp add: set_host_def)

lemma snapshot_session_only: "writes_only (s_ID sess) m (snd (snapshot_session X sess vm tmpl m))"
proof -
  obtain derr m1 where d: "sys X ''create pause dir'' m = (derr, m1)" by fastforce
  then have m1: "m_store m1 = m_store m" by (metis sys_store snd_conv)
  let ?dir = "path_join (pauseDir m1) (s_ID sess)"
  let ?s1 = "sess\<lparr>s_VsockPathAtPause := tp_VsockPath tmpl, s_TapNameAtPause := tp_TapName tmpl,
      s_WritableDiskPath := WritableDiskPath vm, s_RootfsPathAtPause := RootfsPath (vm_Config vm),
      s_VsockConn := None\<rparr>"
  obtain r h3 where sn: "Snapshot (me_fc X) (vm_ID vm) (path_join ?dir ''snap'') (path_join ?dir ''mem'')
      (m_host m1) = (r, h3)" by fastforce
  let ?m3 = "set_host h3 (set_session ?s1 m1)"
  have step: "writes_only (s_ID sess) m g" if "writes_only (s_ID sess) ?m3 g" for g
    by (rule writes_only_from[OF _ _ that, where sess = ?s1]) (simp_all add: m1)
  have step2: "writes_only (s_ID sess) m g"
    if "writes_only (s_ID sess) (set_session (?s1\<lparr>s_CheckpointRef := ref\<rparr>) ?m3) g" for g ref
    by (rule writes_only_from[OF _ _ that, where sess = "?s1\<lparr>s_CheckpointRef := ref\<rparr>"]) (simp_all add: m1)
  have refl: "writes_only (s_ID sess) m ?m3" by (rule step) (simp add: writes_only_def)
  have c1: "writes_only (s_ID sess) m (snd (commit_pause X ?s1 vm sp mp ?m3))" for sp mp
    using step commit_pause_only[of ?s1] by simp
  have c2: "writes_only (s_ID sess) m (snd (commit_pause X (?s1\<lparr>s_CheckpointRef := ref\<rparr>) vm sp mp
      (set_session (?s1\<lparr>s_CheckpointRef := ref\<rparr>) ?m3)))" for sp mp ref
    by (rule step2) (use commit_pause_only[of "?s1\<lparr>s_CheckpointRef := ref\<rparr>"] in simp)
  have c3: "writes_only (s_ID sess) m (snd (rollbackFailedCheckpoint X ?s1 vm sp mp e ?m3))" for sp mp e
    using step rollback_only[of ?s1] by simp
  show ?thesis
    using d sn m1 refl c1 c2 c3
    by (auto simp: snapshot_session_def Let_def writes_only_store split: option.splits sum.splits)
qed

lemma pause_only:
  assumes "store_inv (m_store m)"
  shows "writes_only k m (snd (pause X k idle m))"
proof (cases "Get k (m_store m)")
  case None
  then show ?thesis by (simp add: pause_def writes_only_def)
next
  case (Some sess)
  have k: "s_ID sess = k" by (rule Get_ID[OF assms Some])
  have a: "writes_only k m (snd (snapshot_session X sess vm tmpl m))" for vm tmpl
    using snapshot_session_only[of sess] k by simp
  have b: "writes_only k m (snd (snapshot_session X (sess\<lparr>s_Terminals := []\<rparr>) vm tmpl
      (set_session (sess\<lparr>s_Terminals := []\<rparr>) (snd (sys X l m)))))" for vm tmpl l
    by (rule writes_only_from[where mid = "set_session (sess\<lparr>s_Terminals := []\<rparr>) (snd (sys X l m))"
          and sess = "sess\<lparr>s_Terminals := []\<rparr>"])
      (use snapshot_session_only[of "sess\<lparr>s_Terminals := []\<rparr>"] k in simp_all)
  show ?thesis
    using Some a b[of _ _ "''close terminals''"]
    by (auto simp: pause_def Let_def split_beta writes_only_store
        split: option.splits if_splits)
qed

lemma hydrate_effect:
  assumes "hydrateCheckpoint X sess m = (r, m1)"
  shows "case r of
      Inl e \<Rightarrow> m_store m1 = m_store m
    | Inr sess' \<Rightarrow> m_store m1 = put_session sess' (m_store m) \<and> s_ID sess' = s_ID sess
        \<and> s_State sess' = s_State sess"
proof (cases "reader_set m")
  case True
  let ?dir = "path_join (pauseDir m) (s_ID sess)"
  let ?paths = "\<lparr>rp_Snapshot = path_join ?dir ''snap'', rp_Memory = path_join ?dir ''mem'',
      rp_WritableDisk = path_join (fs_root (writableDisks (me_fc X))) (''writable-'' @ s_ID sess @ ''.ext4'')\<rparr>"
  show ?thesis
  proof (cases "me_Restore X (htick (m_host m)) (s_ID sess) (s_CheckpointRef sess) ?paths")
    case (Inl e)
    with True assms show ?thesis unfolding hydrateCheckpoint_def Let_def by auto
  next
    case (Inr result)
    with True assms show ?thesis
      unfolding hydrateCheckpoint_def Let_def
      by (simp split: if_split_asm option.split_asm prod.split_asm) auto
  qed
qed (use assms in \<open>auto simp: hydrateCheckpoint_def\<close>)

lemma commit_resume_store:
  "\<exists>t. m_store (snd (commit_resume X sess vm cg m)) = put_session (sess\<lparr>s_VM := Some vm, s_Cgroup := cg,
      s_VsockConn := Some (VsockPath vm), s_PooledVM := None, s_Pool := None, s_State := StateActive,
      s_LastUsed := t, s_SnapPath := [], s_MemPath := []\<rparr>) (m_store m)"
  by (auto simp: commit_resume_def Let_def)

text \<open>
  A resume either fails and leaves the host as it was, up to the order of the free slots and the
  sockets involved, or has a VM that it then commits.
\<close>

definition resume_template :: "Manager \<Rightarrow> Session \<Rightarrow> SnapshotTemplate" where
  "resume_template m sess =
     \<lparr>tp_SnapPath = s_SnapPath sess, tp_MemPath = s_MemPath sess,
      tp_RootfsPath = (if s_RootfsPathAtPause sess = []
        then (case m_template m of Some t \<Rightarrow> tp_RootfsPath t | None \<Rightarrow> []) else s_RootfsPathAtPause sess),
      tp_WritableDiskPath = s_WritableDiskPath sess, tp_VsockPath = s_VsockPathAtPause sess,
      tp_TapName = s_TapNameAtPause sess\<rparr>"

definition resume_undone :: "mgr_env \<Rightarrow> VMConfig \<Rightarrow> Session \<Rightarrow> Host \<Rightarrow> Host \<Rightarrow> bool" where
  "resume_undone X cfg sess h h' \<longleftrightarrow>
     (let vmID = fc_uuid (me_fc X) (htick h) in
      mget (Vms h) vmID = None \<and> list_all (\<lambda>s. 0 \<le> s) (slots h) \<longrightarrow>
        Vms h' = Vms h \<and> mset (slots h') = mset (slots h)
        \<and> (InitrdPath cfg \<noteq> [] \<longrightarrow> set (files h) - {s_VsockPathAtPause sess,
              getSocketPath (me_fc X) vmID, vsock_path (me_fc X) vmID} \<subseteq> set (files h')))"

definition resumed_host :: "mgr_env \<Rightarrow> VMConfig \<Rightarrow> Session \<Rightarrow> SnapshotTemplate \<Rightarrow> MicroVM \<Rightarrow> Host \<Rightarrow> Host \<Rightarrow> bool" where
  "resumed_host X cfg sess tmpl vm h h' \<longleftrightarrow>
     (\<exists>h1. restore_done (me_fc X) cfg False tmpl (fc_uuid (me_fc X) (htick h)) h vm h1
        \<and> host_core h' = host_core h1
        \<and> (0 \<le> Slot vm \<longrightarrow> set (blocked_veths h') = (if s_Internet sess
              then set (blocked_veths h) - {Slot vm} else insert (Slot vm) (set (blocked_veths h)))))"

lemma mdel_mput_fresh: "mget m k = None \<Longrightarrow> mdel k (mput k v m) = m"
  by (induction m) (auto simp: mdel_idle split: if_splits)

lemma undo_resume_undone:
  assumes "restore_done (me_fc X) cfg False (resume_template m0 sess) (fc_uuid (me_fc X) (htick h)) h vm h1"
    and "host_core g = host_core h1"
  shows "\<exists>h'. undo_resume X cg vm (set_host g m) = set_host h' m \<and> resume_undone X cfg sess h h'"
proof -
  let ?E = "me_fc X" and ?id = "fc_uuid (me_fc X) (htick h)"
  let ?g = "drop_cgroup ?E cg g"
  let ?h' = "snd (TeardownKeepDisk ?E (vm_ID vm) ?g)"
  note D = assms(1)[unfolded restore_done_def]
  have core: "host_core ?g = host_core h1" using assms(2) by (simp add: cgroup_frame)
  then have Vg: "Vms ?g = mput ?id vm (Vms h)" "slots ?g = slots h1" "files ?g = files h1"
    using D by (auto simp: host_core_def)
  have "resume_undone X cfg sess h ?h'"
    unfolding resume_undone_def Let_def
  proof (rule impI, intro conjI)
    assume pre: "mget (Vms h) ?id = None \<and> list_all (\<lambda>s. 0 \<le> s) (slots h)"
    then have fresh: "mget (Vms h) ?id = None" and slot: "0 \<le> Slot vm" using D by auto
    have vm: "mget (Vms ?g) (vm_ID vm) = Some vm" using D Vg by simp
    have td: "Vms ?h' = mdel (vm_ID vm) (Vms ?g)" "files ?h' = teardown_files ?E
        (fc_fault ?E (htick ?g)) True vm (files ?g)"
      "slots ?h' = slots ?g @ (if 0 \<le> Slot vm then [Slot vm] else [])"
      using teardown_present[OF vm, of ?E True] by (simp_all add: TeardownKeepDisk_def)
    show "Vms ?h' = Vms h" using td(1) D Vg mdel_mput_fresh[OF fresh] by simp
    show "mset (slots ?h') = mset (slots h)" using td(3) D Vg slot by simp
    show "InitrdPath cfg \<noteq> [] \<longrightarrow> set (files h) - {s_VsockPathAtPause sess, getSocketPath ?E ?id,
        vsock_path ?E ?id} \<subseteq> set (files ?h')"
      using td(2) D Vg(3) by (auto simp: teardown_files_def Let_def resume_template_def)
  qed
  then show ?thesis by (auto simp: undo_resume_def)
qed

lemma restore_session_cases:
  obtains (failed) e h' where "restore_session X sess m = (Some e, set_host h' m)"
      "resume_undone X (m_vmConfig m) sess (m_host m) h'"
  | (resumed) vm cg h where "restore_session X sess m = commit_resume X sess vm cg (set_host h m)"
      "resumed_host X (m_vmConfig m) sess (resume_template m sess) vm (m_host m) h"
proof -
  let ?E = "me_fc X" and ?t = "resume_template m sess" and ?h = "m_host m"
  obtain r h1 where l: "loadSnapshot ?E (m_vmConfig m) ?t False ?h = (r, h1)" by fastforce
  note L = loadSnapshot_effect[OF l]
  have unf: "restore_session X sess m =
      (case ResumeFromSnapshot ?E (m_vmConfig m) ?t ?h of
        (Inl e, h1) \<Rightarrow> (Some (Wrapf ''resume from snapshot'' e), set_host h1 m)
      | (Inr vm, h1) \<Rightarrow>
          (case SetSlotEgress ?E (Slot vm) (s_Internet sess) h1 of
             (Some e, h2) \<Rightarrow> (Some (Wrapf ''re-apply network policy on resume'' e),
                              undo_resume X None vm (set_host h2 m))
           | (None, h2) \<Rightarrow>
               let (cg, h3) = setup_cgroup ?E (resume_cgroup sess) vm h2;
                   (cerr, m4) = sys X ''vsock connect'' (set_host h3 m) in
               (case cerr of
                  Some e \<Rightarrow> (Some (Wrapf ''vsock connect on resume'' e), undo_resume X cg vm m4)
                | None \<Rightarrow>
                    let (rerr, m5) = sys X ''reset_runtimes'' m4 in
                    (case rerr of
                       Some e \<Rightarrow> (Some (Wrapf ''verify guest agent on resume'' e), undo_resume X cg vm m5)
                     | None \<Rightarrow>
                         let (eerr, m6) = (if s_Env sess = [] then (None, m5) else sys X ''set_env'' m5) in
                         (case eerr of
                            Some e \<Rightarrow> (Some (Wrapf ''restore guest environment on resume'' e),
                                       undo_resume X cg vm m6)
                          | None \<Rightarrow> commit_resume X sess vm cg m6)))))"
    by (simp add: restore_session_def resume_template_def)
  show ?thesis
  proof (cases r)
    case (Inl e)
    with L have "resume_undone X (m_vmConfig m) sess ?h h1"
      by (auto simp: resume_undone_def restore_undone_def resume_template_def Let_def)
    with Inl l unf failed show ?thesis by (simp add: ResumeFromSnapshot_def)
  next
    case (Inr vm)
    with L have D: "restore_done ?E (m_vmConfig m) False ?t (fc_uuid ?E (htick ?h)) ?h vm h1" by simp
    have undo: thesis if "restore_session X sess m = (Some e, undo_resume X cg vm (set_host g m))"
      "host_core g = host_core h1" for e cg g
      using undo_resume_undone[OF D that(2), of cg m] that(1) failed by metis
    obtain er h2 where eg: "SetSlotEgress ?E (Slot vm) (s_Internet sess) h1 = (er, h2)" by fastforce
    note EG = SetSlotEgress_effect[OF eg]
    obtain cg h3 where cg: "setup_cgroup ?E (resume_cgroup sess) vm h2 = (cg, h3)" by fastforce
    have core3: "host_core h3 = host_core h1" and bl3: "blocked_veths h3 = blocked_veths h2"
      using cgroup_frame(1,2)[of ?E "resume_cgroup sess" vm h2] cg EG(1) by simp_all
    have done_: thesis if "restore_session X sess m = commit_resume X sess vm cg (set_host g m)"
      "host_core g = host_core h1" "blocked_veths g = blocked_veths h3" "er = None" for g
    proof (rule resumed[OF that(1)])
      have "blocked_veths h1 = blocked_veths ?h" using D by (simp add: restore_done_def)
      then show "resumed_host X (m_vmConfig m) sess ?t vm ?h g"
        unfolding resumed_host_def using D that bl3 EG(5) by (intro exI[of _ h1]) simp
    qed
    have start: "ResumeFromSnapshot ?E (m_vmConfig m) ?t ?h = (Inr vm, h1)"
      using l Inr by (simp add: ResumeFromSnapshot_def)
    show ?thesis
    proof (cases er)
      case (Some e)
      then show ?thesis
        using undo[of "Wrapf ''re-apply network policy on resume'' e" None h2] unf start eg EG(1) by simp
    next
      case None
      let ?h4 = "tick h3" and ?h5 = "tick (tick h3)"
      define h6 where "h6 = (if s_Env sess = [] then ?h5 else tick ?h5)"
      have core6: "host_core h6 = host_core h1" "blocked_veths h6 = blocked_veths h3"
        using core3 by (simp_all add: h6_def)
      have eq: "restore_session X sess m =
          (case fc_fault ?E (htick h3) ''vsock connect'' of
             Some e \<Rightarrow> (Some (Wrapf ''vsock connect on resume'' e), undo_resume X cg vm (set_host ?h4 m))
           | None \<Rightarrow>
             (case fc_fault ?E (htick ?h4) ''reset_runtimes'' of
                Some e \<Rightarrow> (Some (Wrapf ''verify guest agent on resume'' e), undo_resume X cg vm (set_host ?h5 m))
              | None \<Rightarrow>
                (case (if s_Env sess = [] then None else fc_fault ?E (htick ?h5) ''set_env'') of
                   Some e \<Rightarrow> (Some (Wrapf ''restore guest environment on resume'' e),
                              undo_resume X cg vm (set_host h6 m))
                 | None \<Rightarrow> commit_resume X sess vm cg (set_host h6 m))))"
        using None by (simp add: unf start eg cg sys_def h6_def split: option.split)
      show ?thesis
      proof (cases "fc_fault ?E (htick h3) ''vsock connect''")
        case (Some e)
        then show ?thesis using undo[OF _ core3[folded host_core_tick[of h3]]] eq by simp
      next
        case c: None
        show ?thesis
        proof (cases "fc_fault ?E (htick ?h4) ''reset_runtimes''")
          case (Some e)
          then show ?thesis using undo[of _ cg ?h5] core3 c eq by simp
        next
          case r: None
          show ?thesis
          proof (cases "if s_Env sess = [] then None else fc_fault ?E (htick ?h5) ''set_env''")
            case (Some e)
            then have "restore_session X sess m = (Some (Wrapf ''restore guest environment on resume'' e),
                undo_resume X cg vm (set_host h6 m))" using c r eq by (simp only: option.case)
            then show ?thesis using undo core6(1) by blast
          next
            case n: None
            then have "restore_session X sess m = commit_resume X sess vm cg (set_host h6 m)"
              using c r eq by (simp only: option.case)
            then show ?thesis using done_ core6 None by blast
          qed
        qed
      qed
    qed
  qed
qed

lemma restore_session_only: "writes_only (s_ID sess) m (snd (restore_session X sess m))"
proof (cases rule: restore_session_cases[of X sess m])
  case (resumed vm cg h)
  obtain t where "m_store (snd (restore_session X sess m)) = put_session (sess\<lparr>s_VM := Some vm, s_Cgroup := cg,
      s_VsockConn := Some (VsockPath vm), s_PooledVM := None, s_Pool := None, s_State := StateActive,
      s_LastUsed := t, s_SnapPath := [], s_MemPath := []\<rparr>) (m_store m)"
    using commit_resume_store[of X sess vm cg "set_host h m"] resumed(1) by auto
  then show ?thesis by (rule writes_only_put[rotated]) simp
qed (simp add: writes_only_store)

lemma Resume_only:
  assumes "store_inv (m_store m)"
  shows "writes_only k m (snd (Resume X k m))"
proof (cases "Get k (m_store m)")
  case None
  then show ?thesis by (simp add: Resume_def writes_only_def)
next
  case (Some sess)
  have k: "s_ID sess = k" by (rule Get_ID[OF assms Some])
  obtain r m1 where h: "hydrateCheckpoint X sess m = (r, m1)" by fastforce
  have b: "writes_only k m (snd (restore_session X s' m1))" if "r = Inr s'" for s'
  proof (rule writes_only_from[where mid = m1 and sess = s'])
    show "writes_only k m1 (snd (restore_session X s' m1))"
      using hydrate_effect[OF h] that k restore_session_only[of s' m1 X] by simp
  qed (use hydrate_effect[OF h] that k in simp_all)
  have c: "writes_only k m m1" if "r = Inl e" for e
    using hydrate_effect[OF h] that by (simp add: writes_only_store)
  show ?thesis
    using Some h b c restore_session_only[of sess m X] k
    by (auto simp: Resume_def writes_only_store split: sum.splits)
qed

end
