(* ===== verification/Session_Safety.thy ===== *)
theory Session_Safety
  imports Session_Manager
begin

text \<open>
  Properties of the session manager: sessions do not interfere, creation is idempotent and all
  or nothing, the network policy is applied whenever a VM is bound, pausing keeps what a resume
  needs, a resume that fails can be repeated, and the reaper touches only sessions that are due.
\<close>

section \<open>Create\<close>

lemma release_pooled_frame [simp]: "m_store (release_pooled X key pv m) = m_store m"
  by simp

lemma store_add_delete:
  assumes "Add sess st = (None, st')"
  shows "snd (Delete (s_ID sess) st') = st" and "mget (sessions st) (s_ID sess) = None"
    and "st' = st\<lparr>sessions := mput (s_ID sess) sess (sessions st)\<rparr>"
  using assms by (auto simp: Add_def Delete_def mdel_mput_fresh split: if_splits)

definition created_as :: "CreateRequest \<Rightarrow> string \<Rightarrow> Session \<Rightarrow> bool" where
  "created_as req img sess \<longleftrightarrow> s_ID sess = SandboxID req \<and> s_State sess = StateActive
     \<and> \<not> create_conflict sess (cr_UserID req) (cr_BillingModel req) img (cr_VCPUs req)
           (cr_MemoryMB req) (cr_DiskGB req) (cr_Internet req)"

lemma bind_session_cases:
  obtains (failed) e m' where "bind_session X req img key pv m = (Inl e, m')" "m_store m' = m_store m"
  | (created) sess m' where "bind_session X req img key pv m = (Inr sess, m')" "created_as req img sess"
      "Get (SandboxID req) (m_store m) = None" "s_VM sess = Some (pv_VM pv)"
      "s_VsockConn sess = Some (VsockPath (pv_VM pv))"
      "m_store m' = (m_store m)\<lparr>sessions := mput (SandboxID req) sess (sessions (m_store m))\<rparr>"
      "0 \<le> Slot (pv_VM pv) \<Longrightarrow> set (blocked_veths (m_host m')) = (if cr_Internet req
         then set (blocked_veths (m_host m)) - {Slot (pv_VM pv)}
         else insert (Slot (pv_VM pv)) (set (blocked_veths (m_host m))))"
      "Slot (pv_VM pv) < 0 \<Longrightarrow> blocked_veths (m_host m') = blocked_veths (m_host m)"
      "store_inv (m_store m) \<Longrightarrow> store_inv (m_store m')"
proof -
  obtain er h1 where eg: "SetSlotEgress (me_fc X) (Slot (pv_VM pv)) (cr_Internet req) (m_host m) = (er, h1)"
    by fastforce
  note EG = SetSlotEgress_effect[OF eg]
  show ?thesis
  proof (cases er)
    case (Some e)
    with eg failed show ?thesis by (simp add: bind_session_def)
  next
    case None
    let ?m1 = "set_host h1 m"
    let ?s = "new_session (SandboxID req) req img key pv (now X ?m1)"
    obtain ae st where a: "Add ?s (m_store m) = (ae, st)" by fastforce
    show ?thesis
    proof (cases ae)
      case (Some e)
      with eg None a failed show ?thesis by (simp add: bind_session_def Let_def)
    next
      case added: None
      note A = store_add_delete[OF a[unfolded added]]
      let ?m2 = "?m1\<lparr>m_store := st, meterLast := mput (s_ID ?s) (s_CreatedAt ?s) (meterLast ?m1)\<rparr>"
      let ?m3 = "set_host (tick (m_host ?m2)) ?m2"
      have m3: "m_store ?m3 = st" "m_host ?m3 = tick h1" by simp_all
      show ?thesis
      proof (cases "fc_fault (me_fc X) (htick h1) ''vsock connect''")
        case (Some e)
        have "bind_session X req img key pv m = (Inl (Wrapf ''vsock connect failed'' e),
            (release_pooled X key pv ?m3)\<lparr>m_store := snd (Delete (s_ID ?s) st)\<rparr>)"
          using eg None a added Some by (simp add: bind_session_def Let_def sys_def)
        with A(1) failed show ?thesis by simp
      next
        case c: None
        let ?s' = "?s\<lparr>s_VsockConn := Some (VsockPath (pv_VM pv))\<rparr>"
        let ?m4 = "set_session ?s' ?m3"
        define s' where "s' = ?s'"
        define m' where "m' = (if cr_Env req = [] then ?m4 else snd (sys X ''set_env'' ?m4))"
        have r: "bind_session X req img key pv m = (Inr s', m')"
          using eg None a added c by (simp add: bind_session_def Let_def sys_def s'_def m'_def)
        have id: "s_ID ?s = SandboxID req" by (simp add: new_session_def)
        have st: "m_store m' = put_session s' st" and bl: "blocked_veths (m_host m') = blocked_veths h1"
          by (simp_all add: sys_def m'_def s'_def)
        have put: "put_session s' st = (m_store m)\<lparr>sessions := mput (SandboxID req) s' (sessions (m_store m))\<rparr>"
          using A(3) id by (simp add: put_session_def s'_def)
        have "created_as req img s'" "s_VM s' = Some (pv_VM pv)" "s_VsockConn s' = Some (VsockPath (pv_VM pv))"
          by (simp_all add: created_as_def create_conflict_def new_session_def s'_def)
        moreover have "Get (SandboxID req) (m_store m) = None" using A(2) id by (simp add: Get_def)
        moreover have "store_inv (m_store m')" if "store_inv (m_store m)"
        proof -
          have "store_inv st" using Add_inv[OF that, of ?s] a by simp
          moreover have "mget (sessions st) (s_ID s') = Some ?s" using A(3) by (simp add: s'_def)
          ultimately show ?thesis unfolding st by (rule put_session_inv)
        qed
        ultimately show ?thesis
          using created[OF r] st put bl EG(5,6) None by simp
      qed
    qed
  qed
qed

lemma CreateWithID_cases:
  obtains (failed) e m' where "CreateWithID X req m = (Inl e, m')" "m_store m' = m_store m"
  | (existing) sess img where "CreateWithID X req m = (Inr sess, m)" "Get (SandboxID req) (m_store m) = Some sess"
      "Normalize (cr_Image req) = Inr img" "me_uuid_Parse X (SandboxID req) = None"
      "\<not> create_conflict sess (cr_UserID req) (cr_BillingModel req) img (cr_VCPUs req)
           (cr_MemoryMB req) (cr_DiskGB req) (cr_Internet req)"
  | (created) sess vm m' img where "CreateWithID X req m = (Inr sess, m')" "created_as req img sess"
      "Normalize (cr_Image req) = Inr img" "me_uuid_Parse X (SandboxID req) = None"
      "Get (SandboxID req) (m_store m) = None" "s_VM sess = Some vm" "s_VsockConn sess = Some (VsockPath vm)"
      "m_store m' = (m_store m)\<lparr>sessions := mput (SandboxID req) sess (sessions (m_store m))\<rparr>"
      "0 \<le> Slot vm \<Longrightarrow> Slot vm \<in> set (blocked_veths (m_host m')) \<longleftrightarrow> \<not> cr_Internet req"
      "store_inv (m_store m) \<Longrightarrow> store_inv (m_store m')"
proof (cases "me_uuid_Parse X (SandboxID req)")
  case (Some e)
  with failed show ?thesis by (simp add: CreateWithID_def)
next
  case u: None
  show ?thesis
  proof (cases "Normalize (cr_Image req)")
    case (Inl e)
    with u failed show ?thesis by (simp add: CreateWithID_def)
  next
    case img: (Inr img)
    show ?thesis
    proof (cases "Get (SandboxID req) (m_store m)")
      case (Some sess)
      show ?thesis
      proof (cases "create_conflict sess (cr_UserID req) (cr_BillingModel req) img (cr_VCPUs req)
          (cr_MemoryMB req) (cr_DiskGB req) (cr_Internet req)")
        case True
        with Some u img failed show ?thesis by (simp add: CreateWithID_def)
      next
        case False
        with Some u img existing show ?thesis by (simp add: CreateWithID_def)
      qed
    next
      case g: None
      let ?key = "PoolKey img (Key (cr_VCPUs req) (cr_MemoryMB req) (cr_DiskGB req))"
      show ?thesis
      proof (cases "mget (sizePools m) ?key")
        case None
        with u img g failed show ?thesis by (simp add: CreateWithID_def)
      next
        case p: (Some pool)
        obtain r p' h' where a: "Acquire (me_fc X) pool (m_host m) = (r, p', h')" by (metis prod_cases3)
        let ?m = "set_host h' (m\<lparr>sizePools := mput ?key p' (sizePools m)\<rparr>)"
        show ?thesis
        proof (cases r)
          case (Inl e)
          with u img g p a failed show ?thesis by (simp add: CreateWithID_def)
        next
          case (Inr x)
          obtain pv warm where x: "x = (pv, warm)" by fastforce
          have eq: "CreateWithID X req m = bind_session X req img ?key pv ?m"
            using u img g p a Inr x by (simp add: CreateWithID_def Let_def)
          show ?thesis
          proof (cases rule: bind_session_cases[of X req img ?key pv ?m])
            case (failed e m')
            with eq that(1) show ?thesis by simp
          next
            case (created sess m')
            with eq u img g that(3)[of sess m' img "pv_VM pv"] show ?thesis by simp
          qed
        qed
      qed
    qed
  qed
qed

text \<open>
  Creating a sandbox is all or nothing and idempotent. A create that fails leaves the store of
  sessions as it was; a create that succeeds can be repeated any number of times and returns the
  stored session, without acquiring a VM or changing anything.
\<close>

theorem create_is_idempotent:
  "case CreateWithID X req m of
     (Inl e, m') \<Rightarrow> m_store m' = m_store m
   | (Inr sess, m') \<Rightarrow> Get (SandboxID req) (m_store m') = Some sess
       \<and> CreateWithID X req m' = (Inr sess, m')"
proof (cases rule: CreateWithID_cases[of X req m])
  case (existing sess img)
  then show ?thesis by simp
next
  case (created sess vm m' img)
  then have g: "Get (SandboxID req) (m_store m') = Some sess" by (simp add: Get_def)
  have "CreateWithID X req m' = (Inr sess, m')"
    using created(2-4) g by (simp add: CreateWithID_def created_as_def)
  with created(1) g show ?thesis by simp
qed simp

section \<open>Network policy\<close>

lemma commit_resume_host:
  "blocked_veths (m_host (snd (commit_resume X sess vm cg m))) = blocked_veths (m_host m)"
  by (auto simp: commit_resume_def persistManifest_def remove_file_def meterSession_def notifyState_def
      set_host_def set_session_def Let_def split_beta split: option.splits)

lemma restore_session_ok:
  assumes "restore_session X sess m = (None, m')"
  obtains sess' vm where "Get (s_ID sess) (m_store m') = Some sess'" "s_VM sess' = Some vm"
      "s_State sess' = StateActive" "s_Internet sess' = s_Internet sess" "s_VsockConn sess' \<noteq> None"
      "0 \<le> Slot vm \<Longrightarrow> Slot vm \<in> set (blocked_veths (m_host m')) \<longleftrightarrow> \<not> s_Internet sess"
proof (cases rule: restore_session_cases[of X sess m])
  case (failed e h')
  with assms show ?thesis by simp
next
  case (resumed vm cg h)
  have c: "commit_resume X sess vm cg (set_host h m) = (None, m')" using resumed(1) assms by simp
  obtain t where st: "m_store m' = put_session (sess\<lparr>s_VM := Some vm, s_Cgroup := cg,
      s_VsockConn := Some (VsockPath vm), s_PooledVM := None, s_Pool := None, s_State := StateActive,
      s_LastUsed := t, s_SnapPath := [], s_MemPath := []\<rparr>) (m_store m)"
    using commit_resume_store[of X sess vm cg "set_host h m"] unfolding c by auto
  have "blocked_veths (m_host m') = blocked_veths h"
    using commit_resume_host[of X sess vm cg "set_host h m"] unfolding c by simp
  moreover have "0 \<le> Slot vm \<Longrightarrow> Slot vm \<in> set (blocked_veths h) \<longleftrightarrow> \<not> s_Internet sess"
    using resumed(2) by (auto simp: resumed_host_def split: if_splits)
  ultimately show ?thesis using that st by simp
qed

lemma hydrate_internet:
  "hydrateCheckpoint X sess m = (Inr sess', m') \<Longrightarrow> s_Internet sess' = s_Internet sess"
  unfolding hydrateCheckpoint_def Let_def
  by (auto split: if_split_asm sum.split_asm option.split_asm prod.split_asm)

definition egress_enforced :: "Manager \<Rightarrow> string \<Rightarrow> bool" where
  "egress_enforced m k \<longleftrightarrow>
     (case Get k (m_store m) of
        None \<Rightarrow> False
      | Some sess \<Rightarrow>
          (case s_VM sess of
             None \<Rightarrow> False
           | Some vm \<Rightarrow> Slot vm < 0
               \<or> (List.member (blocked_veths (m_host m)) (Slot vm) \<longleftrightarrow> \<not> s_Internet sess)))"

text \<open>
  C36: The network policy of a new sandbox is in force before the create returns: egress of the
  VM's network slot is blocked exactly when the sandbox was created without internet access, for
  every VM that has a slot.
\<close>

theorem create_enforces_egress:
  assumes "CreateWithID X req m = (Inr sess, m')" and "Get (SandboxID req) (m_store m) = None"
  shows "egress_enforced m' (SandboxID req)"
  using assms(1)
proof (cases rule: CreateWithID_cases[of X req m])
  case (created sess' vm m'' img)
  then have "Get (SandboxID req) (m_store m'') = Some sess'" "s_Internet sess' = cr_Internet req"
    by (auto simp: Get_def created_as_def create_conflict_def)
  with created assms show ?thesis by (auto simp: egress_enforced_def)
qed (use assms in auto)

text \<open>
  The network policy of a paused sandbox is applied again to the VM a resume gives it, from
  local files or from a durable checkpoint.
\<close>

theorem resume_enforces_egress:
  assumes "store_inv (m_store m)" and "Get k (m_store m) = Some sess" and "s_State sess = StatePaused"
    and "Resume X k m = (None, m')"
  shows "egress_enforced m' k"
proof -
  have k: "s_ID sess = k" by (rule Get_ID[OF assms(1,2)])
  obtain s' m1 where r: "restore_session X s' m1 = (None, m')" and k': "s_ID s' = k"
  proof (cases "Resume X k m = restore_session X sess m")
    case True
    with k assms(4) that show ?thesis by metis
  next
    case False
    then obtain s' m1 where h: "hydrateCheckpoint X sess m = (Inr s', m1)" "Resume X k m = restore_session X s' m1"
      using assms(2-4) by (auto simp: Resume_def split: if_splits sum.splits prod.splits)
    moreover have "s_ID s' = k" using hydrate_effect[OF h(1)] k by simp
    ultimately show ?thesis using that assms(4) by metis
  qed
  obtain sess' vm where "Get k (m_store m') = Some sess'" "s_VM sess' = Some vm"
    "s_Internet sess' = s_Internet s'"
    "0 \<le> Slot vm \<longrightarrow> (Slot vm \<in> set (blocked_veths (m_host m')) \<longleftrightarrow> \<not> s_Internet s')"
    by (rule restore_session_ok[OF r]) (use k' that in blast)
  then show ?thesis by (auto simp: egress_enforced_def)
qed

text \<open>
  A sandbox created without internet access on a VM that was cold booted gets no isolation: the
  create succeeds, the policy call is a no-op for such a VM, and the set of blocked veths stays
  as it was.
\<close>

theorem cold_boot_escapes_policy:
  assumes "Slot (pv_VM pv) < 0" and "\<not> cr_Internet req"
    and "bind_session X req img key pv m = (Inr sess, m')"
  shows "\<not> s_Internet sess \<and> s_VM sess = Some (pv_VM pv)
     \<and> blocked_veths (m_host m') = blocked_veths (m_host m)"
  using assms
  by (cases rule: bind_session_cases[of X req img key pv m]) (auto simp: created_as_def create_conflict_def)

section \<open>Sessions do not interfere\<close>

lemma ensureActive_only: "store_inv (m_store m) \<Longrightarrow> writes_only k m (snd (ensureActive X k m))"
  using Resume_only[of m k X] by (auto simp: ensureActive_def writes_only_store split: option.splits)

lemma writes_only_present: "writes_only k m m' \<Longrightarrow> Get k (m_store m) \<noteq> None \<Longrightarrow> Get k (m_store m') \<noteq> None"
  by (auto simp: writes_only_def)

lemma writes_only_steps [simp]:
  "writes_only k m m"
  "writes_only k m (set_host h g) = writes_only k m g"
  "writes_only k m g \<Longrightarrow> s_ID sess = k \<Longrightarrow> writes_only k m (set_session sess g)"
  by (auto simp: writes_only_def)

lemma run_in_session_only:
  assumes inv: "store_inv (m_store m)"
  shows "writes_only k m (snd (run_in_session X k what call timed tmo m))"
proof (cases "Get k (m_store m)")
  case None
  then show ?thesis by (simp add: run_in_session_def ensureActive_def writes_only_store)
next
  case (Some s0)
  obtain r m1 where e: "ensureActive X k m = (r, m1)" by fastforce
  note E = ensureActive_only[OF inv, of k X, unfolded e snd_conv]
  have inv1: "store_inv (m_store m1)" using writes_only_inv[OF E inv] Some by simp
  show ?thesis
  proof (cases r)
    case (Some x)
    with e E show ?thesis by (simp add: run_in_session_def)
  next
    case ok: None
    show ?thesis
    proof (cases "Get k (m_store m1)")
      case None
      with e E ok show ?thesis by (simp add: run_in_session_def)
    next
      case (Some sess)
      have k: "s_ID sess = k" by (rule Get_ID[OF inv1 Some])
      have "writes_only k m1 (snd (run_in_session X k what call timed tmo m))"
        using e ok Some k
        by (simp add: run_in_session_def Let_def split: option.split sum.split)
      then show ?thesis by (rule writes_only_trans[OF E])
    qed
  qed
qed

lemma terminals_only:
  assumes inv: "store_inv (m_store m)"
  shows "writes_only k m (snd (OpenTerminal X k t m))" "writes_only k m (snd (CloseTerminal X k t m))"
    "writes_only k m (snd (AttachTerminal X k t m))"
proof -
  have k: "Get k (m_store m) = Some sess \<Longrightarrow> s_ID sess = k" for sess by (rule Get_ID[OF inv])
  show "writes_only k m (snd (OpenTerminal X k t m))" "writes_only k m (snd (CloseTerminal X k t m))"
    "writes_only k m (snd (AttachTerminal X k t m))"
    using k by (auto simp: OpenTerminal_def CloseTerminal_def AttachTerminal_def sys_def Let_def
        split: option.splits intro: writes_only_store writes_only_put[rotated])
qed

lemma Destroy_store: "m_store (snd (Destroy X k m)) = snd (Delete k (m_store m))"
proof (cases "Delete k (m_store m)")
  case (Pair d st)
  show ?thesis
  proof (cases d)
    case None
    with Pair show ?thesis by (auto simp: Destroy_def Delete_def split: option.splits)
  next
    case (Some sess)
    have fin: "m_store (snd (case notifyState X sess f m' of (Some e, m'') \<Rightarrow> (Some e, m'')
        | (None, m'') \<Rightarrow> (None, forgetMeter k m''))) = m_store m'" for f m'
      by (auto split: prod.splits option.splits dest: notifyState_snd)
    have d: "m_store m' = m_store g" if "destroy_vm_of X sess g = (r, m')" for r m' g
      using step_store(9)[of X sess g] that by simp
    show ?thesis
      using Pair Some fin
      by (auto simp: Destroy_def Let_def split: option.splits prod.splits dest!: d)
  qed
qed

text \<open>The calls a worker makes on the manager, each on one session.\<close>

datatype mgr_op = OpCreate CreateRequest | OpExec string string int | OpExecute string string string int
  | OpPause string | OpResume string | OpDestroy string | OpOpen string string | OpClose string string
  | OpAttach string string

fun op_session :: "mgr_op \<Rightarrow> string" where
  "op_session (OpCreate req) = SandboxID req"
| "op_session (OpExec k c t) = k"
| "op_session (OpExecute k c l t) = k"
| "op_session (OpPause k) = k"
| "op_session (OpResume k) = k"
| "op_session (OpDestroy k) = k"
| "op_session (OpOpen k t) = k"
| "op_session (OpClose k t) = k"
| "op_session (OpAttach k t) = k"

fun mgr_exec :: "mgr_env \<Rightarrow> mgr_op \<Rightarrow> Manager \<Rightarrow> Manager" where
  "mgr_exec X (OpCreate req) m = snd (CreateWithID X req m)"
| "mgr_exec X (OpExec k c t) m = snd (Exec X k c t m)"
| "mgr_exec X (OpExecute k c l t) m = snd (Execute X k c l t m)"
| "mgr_exec X (OpPause k) m = snd (Pause X k m)"
| "mgr_exec X (OpResume k) m = snd (Resume X k m)"
| "mgr_exec X (OpDestroy k) m = snd (Destroy X k m)"
| "mgr_exec X (OpOpen k t) m = snd (OpenTerminal X k t m)"
| "mgr_exec X (OpClose k t) m = snd (CloseTerminal X k t m)"
| "mgr_exec X (OpAttach k t) m = snd (AttachTerminal X k t m)"

lemma CreateWithID_store:
  assumes "store_inv (m_store m)"
  shows "store_inv (m_store (snd (CreateWithID X req m)))"
    "j \<noteq> SandboxID req \<Longrightarrow> Get j (m_store (snd (CreateWithID X req m))) = Get j (m_store m)"
  using assms by (cases rule: CreateWithID_cases[of X req m]; simp add: Get_def)+

lemma mgr_exec_step:
  assumes inv: "store_inv (m_store m)"
  shows "store_inv (m_store (mgr_exec X a m))"
    and "op_session a \<noteq> j \<Longrightarrow> Get j (m_store (mgr_exec X a m)) = Get j (m_store m)"
proof -
  have w: "store_inv (m_store m') \<and> (j \<noteq> k \<longrightarrow> Get j (m_store m') = Get j (m_store m))"
    if "writes_only k m m'" "Get k (m_store m) = None \<Longrightarrow> m_store m' = m_store m" for k m'
    using that inv by (cases "Get k (m_store m)") (auto simp: writes_only_other dest: writes_only_inv)
  note none = Pause_def pause_def Resume_def Exec_def Execute_def run_in_session_def ensureActive_def
    OpenTerminal_def CloseTerminal_def AttachTerminal_def
  have "store_inv (m_store (mgr_exec X a m)) \<and>
      (j \<noteq> op_session a \<longrightarrow> Get j (m_store (mgr_exec X a m)) = Get j (m_store m))"
  proof (cases a)
    case (OpCreate req)
    then show ?thesis using CreateWithID_store[OF inv] by simp
  next
    case (OpDestroy k)
    then show ?thesis using Delete_inv[OF inv] by (simp add: Destroy_store Get_after)
  next
    case (OpExec k c t)
    show ?thesis unfolding OpExec mgr_exec.simps op_session.simps
      by (rule w) (simp_all add: Exec_def run_in_session_only[OF inv], simp add: none)
  next
    case (OpExecute k c l t)
    show ?thesis unfolding OpExecute mgr_exec.simps op_session.simps
      by (rule w) (simp_all add: Execute_def run_in_session_only[OF inv], simp add: none)
  next
    case (OpPause k)
    show ?thesis unfolding OpPause mgr_exec.simps op_session.simps
      by (rule w) (simp_all add: Pause_def pause_only[OF inv], simp add: none)
  next
    case (OpResume k)
    show ?thesis unfolding OpResume mgr_exec.simps op_session.simps
      by (rule w) (simp_all add: Resume_only[OF inv], simp add: none)
  next
    case (OpOpen k t)
    show ?thesis unfolding OpOpen mgr_exec.simps op_session.simps
      by (rule w) (simp_all add: terminals_only[OF inv], simp add: none)
  next
    case (OpClose k t)
    show ?thesis unfolding OpClose mgr_exec.simps op_session.simps
      by (rule w) (simp_all add: terminals_only[OF inv], simp add: none)
  next
    case (OpAttach k t)
    show ?thesis unfolding OpAttach mgr_exec.simps op_session.simps
      by (rule w) (simp_all add: terminals_only[OF inv], simp add: none)
  qed
  then show "store_inv (m_store (mgr_exec X a m))"
    and "op_session a \<noteq> j \<Longrightarrow> Get j (m_store (mgr_exec X a m)) = Get j (m_store m)"
    by auto
qed

interpretation mgr: keyed_system "mgr_exec X" op_session "\<lambda>j m. Get j (m_store m)"
    "\<lambda>m. store_inv (m_store m)" for X
  by unfold_locales (simp_all add: mgr_exec_step)

text \<open>
  C22: Sessions do not interfere. Whatever sequence of calls is made on other sandboxes (creates,
  executions with the transparent resume they may cause, pauses, resumes, destroys, terminals), the
  stored session of a sandbox stays exactly as it was, and the store keeps one entry per id, each
  under its own id, and never exceeds its limit.
\<close>

theorem sessions_do_not_interfere:
  assumes "store_inv (m_store m)" and "list_all (\<lambda>a. op_session a \<noteq> j) ops"
  shows "Get j (m_store (foldl (\<lambda>g a. mgr_exec X a g) m ops)) = Get j (m_store m)
     \<and> store_inv (m_store (foldl (\<lambda>g a. mgr_exec X a g) m ops))"
  using mgr.run_ops_other[of m j ops X] mgr.run_ops_inv[of m X ops] assms
  by (simp add: mgr.run_ops_def)

section \<open>Pause and resume\<close>

definition snap_of :: "Manager \<Rightarrow> string \<Rightarrow> string" where
  "snap_of m k = path_join (path_join (pauseDir m) k) ''snap''"

definition mem_of :: "Manager \<Rightarrow> string \<Rightarrow> string" where
  "mem_of m k = path_join (path_join (pauseDir m) k) ''mem''"

definition artifacts :: "Session \<Rightarrow> string list" where
  "artifacts sess = [s_SnapPath sess, s_MemPath sess, s_WritableDiskPath sess]"

definition has_artifacts :: "Manager \<Rightarrow> Session \<Rightarrow> bool" where
  "has_artifacts m sess \<longleftrightarrow> list_all (fileExists (files (m_host m))) (artifacts sess)"

text \<open>A session that is paused, holds no VM, and whose resume finds its files on the worker.\<close>

definition resumable :: "Manager \<Rightarrow> string \<Rightarrow> bool" where
  "resumable m k \<longleftrightarrow>
     (case Get k (m_store m) of
        None \<Rightarrow> False
      | Some sess \<Rightarrow> s_State sess = StatePaused \<and> s_VM sess = None \<and> s_VsockConn sess = None
          \<and> s_PooledVM sess = None \<and> has_artifacts m sess)"

lemma Resume_local:
  assumes "Get k (m_store m) = Some sess" "s_State sess = StatePaused" "has_artifacts m sess"
  shows "Resume X k m = restore_session X sess m"
  using assms by (simp add: Resume_def has_artifacts_def artifacts_def)

lemma fileExists_fadd [simp]: "fileExists (fadd p fs) q \<longleftrightarrow> q \<noteq> [] \<and> (q = p \<or> fileExists fs q)"
  by (auto simp: fileExists_def fadd_def)

lemma fileExists_fdel [simp]: "fileExists (fdel p fs) q \<longleftrightarrow> q \<noteq> p \<and> fileExists fs q"
  by (auto simp: fileExists_def fdel_def)

lemma commit_pause_host:
  assumes "mget (Vms (m_host m)) (vm_ID vm) = Some vm"
  shows "Vms (m_host (snd (commit_pause X sess vm sp mp m))) = mdel (vm_ID vm) (Vms (m_host m))"
    "files (m_host (snd (commit_pause X sess vm sp mp m)))
       = teardown_files (me_fc X) (fc_fault (me_fc X) (htick (m_host m))) True vm (files (m_host m))"
    "slots (m_host (snd (commit_pause X sess vm sp mp m)))
       = slots (m_host m) @ (if 0 \<le> Slot vm then [Slot vm] else [])"
proof -
  let ?h = "snd (TeardownKeepDisk (me_fc X) (vm_ID vm) (m_host m))"
  let ?g = "m_host (snd (commit_pause X sess vm sp mp m))"
  have m: "m_host (meterSession s st t g) = m_host g" for s st t g
    by (simp add: meterSession_def Let_def)
  have n: "m_host (snd (notifyState X s f g)) = m_host g" for s f g
    by (simp add: notifyState_def)
  have "host_core ?g = host_core (drop_cgroup (me_fc X) (s_Cgroup sess) ?h)"
    by (simp add: commit_pause_def Let_def n persistManifest_def split_beta m split: option.split)
  then have "host_core ?g = host_core ?h" by (simp add: cgroup_frame)
  then show "Vms ?g = mdel (vm_ID vm) (Vms (m_host m))"
    "files ?g = teardown_files (me_fc X) (fc_fault (me_fc X) (htick (m_host m))) True vm (files (m_host m))"
    "slots ?g = slots (m_host m) @ (if 0 \<le> Slot vm then [Slot vm] else [])"
    using teardown_present[OF assms, of "me_fc X" True]
    by (simp_all add: host_core_def TeardownKeepDisk_def)
qed

lemma rollback_fails: "fst (rollbackFailedCheckpoint X sess vm sp mp e m) \<noteq> None"
  by (auto simp: rollbackFailedCheckpoint_def sys_def Let_def split: prod.split option.split)

lemma Snapshot_ok:
  assumes "Snapshot E k sp mp h = (None, h')"
  shows "Vms h' = Vms h" "slots h' = slots h" "files h' = fadd mp (fadd sp (files h))"
  using assms by (auto simp: Snapshot_def Let_def split: option.splits prod.splits if_splits)

lemma snapshot_session_ok:
  assumes "snapshot_session X sess vm tmpl m = (None, m')"
    and "mget (Vms (m_host m)) (vm_ID vm) = Some vm" and "InitrdPath (vm_Config vm) \<noteq> []"
    and "fileExists (files (m_host m)) (WritableDiskPath vm)"
    and "list_all (\<lambda>p. p \<noteq> SocketPath vm \<and> p \<noteq> VsockPath vm)
           [snap_of m (s_ID sess), mem_of m (s_ID sess), WritableDiskPath vm]"
  shows "resumable m' (s_ID sess) \<and> Vms (m_host m') = mdel (vm_ID vm) (Vms (m_host m))
     \<and> slots (m_host m') = slots (m_host m) @ (if 0 \<le> Slot vm then [Slot vm] else [])"
proof -
  let ?sp = "snap_of m (s_ID sess)" and ?mp = "mem_of m (s_ID sess)" and ?m1 = "set_host (tick (m_host m)) m"
  let ?s1 = "sess\<lparr>s_VsockPathAtPause := tp_VsockPath tmpl, s_TapNameAtPause := tp_TapName tmpl,
      s_WritableDiskPath := WritableDiskPath vm, s_RootfsPathAtPause := RootfsPath (vm_Config vm),
      s_VsockConn := None\<rparr>"
  obtain r h3 where sn: "Snapshot (me_fc X) (vm_ID vm) ?sp ?mp (tick (m_host m)) = (r, h3)" by fastforce
  let ?m3 = "set_host h3 (set_session ?s1 ?m1)"
  have d: "sys X ''create pause dir'' m = (None, ?m1)"
    using assms(1) by (auto simp: snapshot_session_def sys_def Let_def split: option.splits)
  have r: "r = None"
    using assms(1) d sn by (cases r) (auto simp: snapshot_session_def Let_def snap_of_def mem_of_def)
  note S = Snapshot_ok[OF sn[unfolded r]]
  obtain s2 m4 where c: "commit_pause X s2 vm ?sp ?mp m4 = (None, m')" and m4: "m_host m4 = h3"
    and s2: "s_ID s2 = s_ID sess" "s_WritableDiskPath s2 = WritableDiskPath vm"
  proof (cases "checkpoints_set m")
    case False
    then have "commit_pause X ?s1 vm ?sp ?mp ?m3 = (None, m')"
      using assms(1) d sn r by (simp add: snapshot_session_def Let_def snap_of_def mem_of_def)
    then show ?thesis using that[of ?s1 ?m3] by simp
  next
    case True
    let ?s2 = "\<lambda>ref. ?s1\<lparr>s_CheckpointRef := ref\<rparr>"
    show ?thesis
    proof (cases "me_Save X (htick h3) (checkpoint_input ?s1 ?sp ?mp)")
      case (Inl e)
      then have "rollbackFailedCheckpoint X ?s1 vm ?sp ?mp e ?m3 = (None, m')"
        using assms(1) d sn r True by (simp add: snapshot_session_def Let_def snap_of_def mem_of_def)
      with rollback_fails[of X ?s1 vm ?sp ?mp e ?m3] show ?thesis by simp
    next
      case (Inr ref)
      then have "commit_pause X (?s2 ref) vm ?sp ?mp (set_session (?s2 ref) ?m3) = (None, m')"
        using assms(1) d sn r True by (simp add: snapshot_session_def Let_def snap_of_def mem_of_def)
      then show ?thesis using that[of "?s2 ref" "set_session (?s2 ref) ?m3"] by simp
    qed
  qed
  have vm: "mget (Vms (m_host m4)) (vm_ID vm) = Some vm" using assms(2) m4 S by simp
  note H = commit_pause_host[OF vm, of X s2 ?sp ?mp, unfolded c snd_conv]
  have ne: "?sp \<noteq> []" "?mp \<noteq> []" by (simp_all add: snap_of_def mem_of_def path_join_def)
  have st: "m_store m' = put_session (s2\<lparr>s_SnapPath := ?sp, s_MemPath := ?mp, s_State := StatePaused,
      s_PausedAt := s_PausedAt (the (Get (s_ID s2) (m_store m'))),
      s_VM := None, s_VsockConn := None, s_PooledVM := None, s_Pool := None, s_Cgroup := None\<rparr>) (m_store m4)"
    using commit_pause_store[of X s2 vm ?sp ?mp m4] unfolding c by simp
  have "fileExists (files (m_host m')) p" if "p \<in> {?sp, ?mp, WritableDiskPath vm}" for p
    using that assms(3-5) ne S(3) m4
    by (auto simp: H(2) teardown_files_def Let_def fileExists_def[of _ "[]"])
  then have "resumable m' (s_ID sess)"
    by (subst resumable_def, subst st) (simp add: s2 has_artifacts_def artifacts_def)
  with H(1,3) m4 S show ?thesis by simp
qed

text \<open>
  C34: A pause that succeeds can be undone. It leaves a session that is paused and holds no VM, with
  its snapshot, its memory and its writable disk on the worker, so that the next resume restores
  from these local files; the VM is gone from the host and its network slot is free again.
\<close>

theorem pause_is_resumable:
  assumes "store_inv (m_store m)" and "Get k (m_store m) = Some sess" and "s_State sess = StateActive"
    and "s_VM sess = Some vm" and "mget (Vms (m_host m)) (vm_ID vm) = Some vm"
    and "InitrdPath (vm_Config vm) \<noteq> []" and "fileExists (files (m_host m)) (WritableDiskPath vm)"
    and "list_all (\<lambda>p. p \<noteq> SocketPath vm \<and> p \<noteq> VsockPath vm) [snap_of m k, mem_of m k, WritableDiskPath vm]"
    and "Pause X k m = (None, m')"
  shows "resumable m' k \<and> Vms (m_host m') = mdel (vm_ID vm) (Vms (m_host m))
     \<and> slots (m_host m') = slots (m_host m) @ (if 0 \<le> Slot vm then [Slot vm] else [])
     \<and> (\<exists>sess'. \<forall>Y. Resume Y k m' = restore_session Y sess' m')"
proof -
  have k: "s_ID sess = k" by (rule Get_ID[OF assms(1,2)])
  let ?s1 = "sess\<lparr>s_Terminals := []\<rparr>" and ?m1 = "snd (sys X ''close terminals'' m)"
  have pd: "snap_of (set_session ?s1 ?m1) j = snap_of m j" "mem_of (set_session ?s1 ?m1) j = mem_of m j" for j
    by (simp_all add: snap_of_def mem_of_def sys_def)
  obtain tmpl s' g where r: "snapshot_session X s' vm tmpl g = (None, m')" and s': "s_ID s' = k"
    and g: "Vms (m_host g) = Vms (m_host m)" "files (m_host g) = files (m_host m)"
      "slots (m_host g) = slots (m_host m)" "snap_of g k = snap_of m k" "mem_of g k = mem_of m k"
  proof (cases "s_VsockConn sess \<noteq> None \<and> s_Terminals sess \<noteq> []")
    case True
    then obtain tmpl where "snapshot_session X ?s1 vm tmpl (set_session ?s1 ?m1) = (None, m')"
      using assms(2-4,9) by (auto simp: Pause_def pause_def Let_def split: option.splits prod.splits)
    then show ?thesis
      by (rule that) (use k pd in \<open>simp_all add: sys_def\<close>)
  next
    case False
    then obtain tmpl where "snapshot_session X sess vm tmpl m = (None, m')"
      using assms(2-4,9) by (auto simp: Pause_def pause_def Let_def split: option.splits if_splits)
    then show ?thesis by (rule that) (use k in simp_all)
  qed
  have R: "resumable m' k \<and> Vms (m_host m') = mdel (vm_ID vm) (Vms (m_host m))
     \<and> slots (m_host m') = slots (m_host m) @ (if 0 \<le> Slot vm then [Slot vm] else [])"
    using snapshot_session_ok[OF r] assms(5-8) s' g by simp
  then obtain sess' where "Get k (m_store m') = Some sess'" "s_State sess' = StatePaused" "has_artifacts m' sess'"
    by (auto simp: resumable_def split: option.splits)
  then have "\<forall>Y. Resume Y k m' = restore_session Y sess' m'" using Resume_local by blast
  with R show ?thesis by blast
qed

text \<open>
  A resume that fails can be repeated. When the files are on the worker, a failed resume either
  has changed nothing that matters (the stored sessions, the registered VMs, the free network slots
  and the snapshot, memory and disk files are as before), or has brought the sandbox up and only
  the report of the new state has failed; then a repeated resume does no more than report again.
\<close>

theorem failed_resume_is_retryable:
  assumes "Get k (m_store m) = Some sess" and "s_ID sess = k" and "resumable m k"
    and "Resume X k m = (Some e, m')"
    and "mget (Vms (m_host m)) (fc_uuid (me_fc X) (htick (m_host m))) = None"
    and "list_all (\<lambda>s. 0 \<le> s) (slots (m_host m))" and "InitrdPath (m_vmConfig m) \<noteq> []"
    and "list_all (\<lambda>p. p \<noteq> s_VsockPathAtPause sess
           \<and> p \<noteq> getSocketPath (me_fc X) (fc_uuid (me_fc X) (htick (m_host m)))
           \<and> p \<noteq> vsock_path (me_fc X) (fc_uuid (me_fc X) (htick (m_host m)))) (artifacts sess)"
  shows "m_store m' = m_store m \<and> Vms (m_host m') = Vms (m_host m)
       \<and> mset (slots (m_host m')) = mset (slots (m_host m)) \<and> resumable m' k
     \<or> (\<exists>sess'. Get k (m_store m') = Some sess' \<and> session_active sess'
          \<and> (\<forall>Y. Resume Y k m' = notifyState Y sess' ''active'' m'))"
proof -
  have st: "s_State sess = StatePaused" "has_artifacts m sess"
    using assms(1,3) by (auto simp: resumable_def)
  note R = assms(4)[unfolded Resume_local[OF assms(1) st]]
  show ?thesis
  proof (cases rule: restore_session_cases[of X sess m])
    case (failed e' h')
    with R have m': "m' = set_host h' m" by simp
    have U: "Vms h' = Vms (m_host m)" "mset (slots h') = mset (slots (m_host m))"
      "set (files (m_host m)) - {s_VsockPathAtPause sess,
          getSocketPath (me_fc X) (fc_uuid (me_fc X) (htick (m_host m))),
          vsock_path (me_fc X) (fc_uuid (me_fc X) (htick (m_host m)))} \<subseteq> set (files h')"
      using failed(2) assms(5-7) by (simp_all add: resume_undone_def Let_def)
    have "has_artifacts m' sess"
      using st(2) assms(8) U(3) m' by (auto simp: has_artifacts_def artifacts_def fileExists_def)
    with assms(1,3) have "resumable m' k" by (simp add: resumable_def m')
    with U m' show ?thesis by simp
  next
    case (resumed vm cg h)
    obtain t where "m_store m' = put_session (sess\<lparr>s_VM := Some vm, s_Cgroup := cg,
      s_VsockConn := Some (VsockPath vm), s_PooledVM := None, s_Pool := None, s_State := StateActive,
      s_LastUsed := t, s_SnapPath := [], s_MemPath := []\<rparr>) (m_store m)"
      using commit_resume_store[of X sess vm cg "set_host h m"] R resumed(1) by auto
    then show ?thesis using assms(2) by (intro disjI2) (auto simp: session_active_def Resume_def)
  qed
qed

text \<open>
  A snapshot that fails strands its session. The pause has already closed the connection to the
  guest; the failure leaves the session active, with its VM registered and frozen and no connection,
  and every later execution in it hits the missing connection.
\<close>

theorem failed_snapshot_strands_session:
  assumes "store_inv (m_store m)" and "Get k (m_store m) = Some sess" and "s_State sess = StateActive"
    and "s_VM sess = Some vm" and "mget (Vms (m_host m)) (vm_ID vm) \<noteq> None" and "s_Terminals sess = []"
    and "m_template m \<noteq> None"
    and "fc_fault (me_fc X) (htick (m_host m)) ''create pause dir'' = None"
    and "fc_fault (me_fc X) (Suc (htick (m_host m))) ''failed to pause VM'' = None"
    and "fc_fault (me_fc X) (Suc (htick (m_host m))) ''snapshot create'' = Some e"
  shows "\<exists>m' sess'. Pause X k m = (Some (Wrapf ''snapshot for pause'' e), m')
     \<and> Get k (m_store m') = Some sess' \<and> s_State sess' = StateActive \<and> s_VM sess' = Some vm
     \<and> List.member (frozen (m_host m')) (vm_ID vm)
     \<and> (\<forall>Y command t. fst (Exec Y k command t m') = Inl nil_connection)"
proof -
  have k: "s_ID sess = k" by (rule Get_ID[OF assms(1,2)])
  obtain dflt where d: "m_template m = Some dflt" using assms(7) by auto
  define tmpl where "tmpl = (case mget (sizeTemplates m) (size_key sess) of Some t \<Rightarrow> t | None \<Rightarrow> dflt)"
  let ?s1 = "sess\<lparr>s_VsockPathAtPause := tp_VsockPath tmpl, s_TapNameAtPause := tp_TapName tmpl,
      s_WritableDiskPath := WritableDiskPath vm, s_RootfsPathAtPause := RootfsPath (vm_Config vm),
      s_VsockConn := None\<rparr>"
  let ?m2 = "set_session ?s1 (set_host (tick (m_host m)) m)"
  let ?h = "(tick (tick (m_host m)))\<lparr>frozen := List.insert (vm_ID vm) (frozen (m_host m))\<rparr>"
  have sn: "Snapshot (me_fc X) (vm_ID vm) sp mp (tick (m_host m)) = (Some e, ?h)" for sp mp
    using assms(5,9,10) by (auto simp: Snapshot_def Let_def)
  have p: "Pause X k m = (Some (Wrapf ''snapshot for pause'' e), set_host ?h ?m2)"
    using assms(2-4,6,8) d sn
    by (simp add: Pause_def pause_def snapshot_session_def sys_def Let_def tmpl_def)
  have "fst (Exec Y k c t (set_host ?h ?m2)) = Inl nil_connection" for Y c t
    using k assms(3,4) by (simp add: Exec_def run_in_session_def ensureActive_def Let_def)
  with p k assms(3,4) show ?thesis
    by (intro exI[of _ "set_host ?h ?m2"] exI[of _ ?s1]) simp
qed

section \<open>The reaper\<close>

lemma pause_store:
  assumes "store_inv (m_store m)"
  shows "store_inv (m_store (snd (pause X k t m)))"
    "j \<noteq> k \<Longrightarrow> Get j (m_store (snd (pause X k t m))) = Get j (m_store m)"
    "Get k (m_store m) \<noteq> None \<Longrightarrow> Get k (m_store (snd (pause X k t m))) \<noteq> None"
proof -
  note w = pause_only[OF assms, of k X t]
  show "j \<noteq> k \<Longrightarrow> Get j (m_store (snd (pause X k t m))) = Get j (m_store m)"
    by (rule writes_only_other[OF w])
  show "Get k (m_store m) \<noteq> None \<Longrightarrow> Get k (m_store (snd (pause X k t m))) \<noteq> None"
    by (rule writes_only_present[OF w])
  show "store_inv (m_store (snd (pause X k t m)))"
    using writes_only_inv[OF w assms] assms by (cases "Get k (m_store m)") (simp_all add: pause_def)
qed

lemma reap_one_step:
  assumes "store_inv (m_store m)"
  shows "store_inv (m_store (reap_one X t m k))"
    "k \<noteq> j \<Longrightarrow> Get j (m_store (reap_one X t m k)) = Get j (m_store m)"
  using assms pause_store[OF assms] Delete_inv[OF assms]
  by (auto simp: reap_one_def Destroy_store Get_after split: option.split reapAction.split)

interpretation reap: keyed_system "\<lambda>k m. reap_one X t m k" "\<lambda>k. k" "\<lambda>j m. Get j (m_store m)"
    "\<lambda>m. store_inv (m_store m)" for X t
  by unfold_locales (simp_all add: reap_one_step)

lemma store_ids:
  assumes "store_inv s"
  shows "map s_ID (All s) = map fst (sessions s)" "distinct (map s_ID (All s))"
proof -
  have "s_ID (snd kv) = fst kv" if "kv \<in> set (sessions s)" for kv
    using assms that mget_eq_Some_iff[of "sessions s" "fst kv" "snd kv"] by (simp add: store_inv_def)
  then show ids: "map s_ID (All s) = map fst (sessions s)" by (simp add: All_def)
  then show "distinct (map s_ID (All s))" using assms by (simp add: store_inv_def mwf_def)
qed

text \<open>
  The reaper acts on the sessions that are due and on no other. One pass leaves every session
  that is neither over its lifetime nor idle exactly as it was, removes every session whose
  lifetime or pause has run out, and never loses a session it only means to pause.
\<close>

theorem reaper_acts_on_due_sessions:
  assumes "store_inv (m_store m)" and "Get k (m_store m) = Some sess"
  shows "case reapActionFor sess t of
      reapNone \<Rightarrow> Get k (m_store (reapOnce X t m)) = Some sess
    | reapPause \<Rightarrow> Get k (m_store (reapOnce X t m)) \<noteq> None
    | reapDestroy \<Rightarrow> Get k (m_store (reapOnce X t m)) = None"
proof -
  let ?ids = "map s_ID (All (m_store m))"
  have "k \<in> set ?ids" using assms store_ids(1)[OF assms(1)] by (force simp: Get_def dest: mget_in_set)
  then obtain pre post where ids: "?ids = pre @ k # post" by (meson split_list)
  with store_ids(2)[OF assms(1)] have no: "list_all (\<lambda>a. a \<noteq> k) pre" "list_all (\<lambda>a. a \<noteq> k) post"
    by (auto simp: list_all_iff)
  define a where "a = reap.run_ops X t pre m"
  have a: "store_inv (m_store a)" "Get k (m_store a) = Some sess"
    using reap.run_ops_inv reap.run_ops_other no(1) assms by (simp_all add: a_def)
  have "reapOnce X t m = reap.run_ops X t post (reap_one X t a k)"
    by (simp add: reapOnce_def ids a_def reap.run_ops_def)
  then have "Get k (m_store (reapOnce X t m)) = Get k (m_store (reap_one X t a k))"
    using reap.run_ops_other[OF reap_one_step(1)[OF a(1)] no(2)] by simp
  then show ?thesis
    using a pause_store(3)[OF a(1), of k] by (simp add: reap_one_def Destroy_store Get_after split: reapAction.split)
qed

section \<open>Concrete runs\<close>

text \<open>A worker with one pool, on which nothing fails, and a sandbox without internet access.\<close>

definition quiet_env :: fc_env where
  "quiet_env = sample_fc_env\<lparr>fc_fault := (\<lambda>n l. None)\<rparr>"

definition sample_mgr_env :: mgr_env where
  "sample_mgr_env = \<lparr>me_fc = quiet_env, me_uuid_Parse = (\<lambda>k. None), me_onState = (\<lambda>n k f. None),
     me_ExecOnConn = (\<lambda>n c cmd t. Inr \<lparr>xr_Stdout = cmd, xr_Stderr = [], xr_ExitCode = 0, xr_Duration = 1\<rparr>),
     me_ExecuteOnConn = (\<lambda>n c code l t. Inr \<lparr>xr_Stdout = code, xr_Stderr = [], xr_ExitCode = 0, xr_Duration = 1\<rparr>),
     me_Save = (\<lambda>n i. Inl (ErrNew ''no store'')), me_Restore = (\<lambda>n k r p. Inl (ErrNew ''no store''))\<rparr>"

definition sample_manager :: Manager where
  "sample_manager = \<lparr>m_store = NewStore 4, onState_set = True, onMeter_set = False,
     m_template = Some sample_template, m_vmConfig = sample_vm_config,
     sizePools = [(PoolKey ''alpine'' (Key 1 512 2), new_pool 0 2 sample_vm_config sample_cgroup (Some sample_template))],
     sizeTemplates = [], pauseDir = ''/p'', m_manifest = None, meterLast = [], meterTotals = [],
     maxTerminals = 4, checkpoints_set = False, reader_set = False, m_host = sample_host_state,
     m_samples = [], m_events = []\<rparr>"

definition sample_create :: CreateRequest where
  "sample_create = \<lparr>SandboxID = ''sb1'', cr_UserID = ''u1'', cr_Image = ''alpine'', cr_BillingModel = ''payg'',
     cr_Env = [], cr_VCPUs = 1, cr_MemoryMB = 512, cr_DiskGB = 2, cr_Internet = False,
     cr_IdleTimeoutS = 60, cr_MaxLifetimeS = 0\<rparr>"

definition running_session :: Session where
  "running_session = sample_session\<lparr>s_State := StateActive, s_VM := Some (pv_VM sample_pooled),
     s_VsockConn := Some ''/s/vsock-vm0.sock'', s_SnapPath := [], s_MemPath := []\<rparr>"

definition running_manager :: Manager where
  "running_manager = sample_manager\<lparr>m_store := \<lparr>sessions = [(''sb1'', running_session)], max_sessions = 4\<rparr>,
     m_host := sample_host_state\<lparr>Vms := [(''vm0'', pv_VM sample_pooled)], slots := [1],
       files := [''/r'', ''/d/writable-vm0.ext4''], htick := 5\<rparr>\<rparr>"

definition paused_manager :: Manager where
  "paused_manager = sample_manager\<lparr>m_store := \<lparr>sessions = [(''sb1'', sample_session)], max_sessions = 4\<rparr>,
     m_host := sample_host_state\<lparr>files := [''/r'', ''/d/writable-vm0.ext4'', ''/p/sb1/snap'', ''/p/sb1/mem''],
       htick := 7\<rparr>\<rparr>"

lemma single_store_inv: "s_ID v = k \<Longrightarrow> store_inv \<lparr>sessions = [(k, v)], max_sessions = 4\<rparr>"
  by (auto simp: store_inv_def mwf_def)

lemma running_facts:
  "store_inv (m_store running_manager)" "Get ''sb1'' (m_store running_manager) = Some running_session"
  "s_State running_session = StateActive" "s_VM running_session = Some (pv_VM sample_pooled)"
  "s_Terminals running_session = []" "s_ID running_session = ''sb1''"
proof -
  show r: "s_State running_session = StateActive" "s_VM running_session = Some (pv_VM sample_pooled)"
    "s_Terminals running_session = []" "s_ID running_session = ''sb1''"
    by (simp_all add: running_session_def sample_session_def toSession_def Let_def)
  show "store_inv (m_store running_manager)" by (simp add: running_manager_def r single_store_inv)
  show "Get ''sb1'' (m_store running_manager) = Some running_session" by (simp add: running_manager_def Get_def)
qed

lemma paused_facts:
  "store_inv (m_store paused_manager)" "Get ''sb1'' (m_store paused_manager) = Some sample_session"
  "s_State sample_session = StatePaused" "s_ID sample_session = ''sb1''"
proof -
  show r: "s_State sample_session = StatePaused" "s_ID sample_session = ''sb1''"
    by (simp_all add: sample_session_def toSession_def Let_def)
  show "store_inv (m_store paused_manager)" by (simp add: paused_manager_def r single_store_inv)
  show "Get ''sb1'' (m_store paused_manager) = Some sample_session" by (simp add: paused_manager_def Get_def)
qed

theorem create_enforces_egress_witness:
  "egress_enforced (snd (CreateWithID sample_mgr_env sample_create sample_manager)) ''sb1''"
proof -
  obtain r m' where c: "CreateWithID sample_mgr_env sample_create sample_manager = (r, m')" by fastforce
  have "\<not> isl (fst (CreateWithID sample_mgr_env sample_create sample_manager))" by code_simp
  with c obtain sess where r: "CreateWithID sample_mgr_env sample_create sample_manager = (Inr sess, m')"
    by (cases r) auto
  have n: "Get (SandboxID sample_create) (m_store sample_manager) = None" by code_simp
  from create_enforces_egress[OF r n] r show ?thesis by (simp add: sample_create_def)
qed

theorem resume_enforces_egress_witness:
  "egress_enforced (snd (Resume sample_mgr_env ''sb1'' paused_manager)) ''sb1''"
proof -
  have "fst (Resume sample_mgr_env ''sb1'' paused_manager) = None" by code_simp
  then have r: "Resume sample_mgr_env ''sb1'' paused_manager
      = (None, snd (Resume sample_mgr_env ''sb1'' paused_manager))" by (metis prod.collapse)
  show ?thesis by (rule resume_enforces_egress[OF paused_facts(1-3) r])
qed

theorem cold_boot_escapes_policy_witness:
  "let r = bind_session sample_mgr_env sample_create ''alpine'' ''k''
        (sample_pooled\<lparr>pv_VM := (pv_VM sample_pooled)\<lparr>Slot := -1\<rparr>\<rparr>) sample_manager
   in \<not> isl (fst r) \<and> blocked_veths (m_host (snd r)) = []"
proof -
  let ?pv = "sample_pooled\<lparr>pv_VM := (pv_VM sample_pooled)\<lparr>Slot := -1\<rparr>\<rparr>"
  let ?b = "bind_session sample_mgr_env sample_create ''alpine'' ''k'' ?pv sample_manager"
  obtain r m' where c: "?b = (r, m')" by fastforce
  have ok: "\<not> isl (fst ?b)" by code_simp
  with c obtain sess where r: "?b = (Inr sess, m')" by (cases r) auto
  have "blocked_veths (m_host m') = blocked_veths (m_host sample_manager)"
    using cold_boot_escapes_policy[OF _ _ r] by (simp add: sample_create_def)
  moreover have "blocked_veths (m_host sample_manager) = []" by code_simp
  ultimately show ?thesis using r ok by simp
qed

theorem sessions_do_not_interfere_witness:
  "Get ''sb1'' (m_store (foldl (\<lambda>g a. mgr_exec sample_mgr_env a g) running_manager
     [OpCreate (sample_create\<lparr>SandboxID := ''sb2''\<rparr>), OpExec ''sb2'' ''ls'' 5, OpDestroy ''sb2'']))
   = Some running_session"
proof -
  have o: "list_all (\<lambda>a. op_session a \<noteq> ''sb1'') [OpCreate (sample_create\<lparr>SandboxID := ''sb2''\<rparr>),
      OpExec ''sb2'' ''ls'' 5, OpDestroy ''sb2'']" by simp
  from sessions_do_not_interfere[OF running_facts(1) o] running_facts(2) show ?thesis by simp
qed

theorem pause_is_resumable_witness:
  "resumable (snd (Pause sample_mgr_env ''sb1'' running_manager)) ''sb1''
   \<and> slots (m_host (snd (Pause sample_mgr_env ''sb1'' running_manager))) = [1, 0]"
proof -
  have "fst (Pause sample_mgr_env ''sb1'' running_manager) = None" by code_simp
  then have r: "Pause sample_mgr_env ''sb1'' running_manager
      = (None, snd (Pause sample_mgr_env ''sb1'' running_manager))" by (metis prod.collapse)
  have vm: "mget (Vms (m_host running_manager)) (vm_ID (pv_VM sample_pooled)) = Some (pv_VM sample_pooled)"
    and cfg: "InitrdPath (vm_Config (pv_VM sample_pooled)) \<noteq> []"
    and disk: "fileExists (files (m_host running_manager)) (WritableDiskPath (pv_VM sample_pooled))"
    and apart: "list_all (\<lambda>p. p \<noteq> SocketPath (pv_VM sample_pooled) \<and> p \<noteq> VsockPath (pv_VM sample_pooled))
      [snap_of running_manager ''sb1'', mem_of running_manager ''sb1'', WritableDiskPath (pv_VM sample_pooled)]"
    by (simp_all add: running_manager_def sample_manager_def sample_pooled_def sample_vm_config_def
        fileExists_def snap_of_def mem_of_def path_join_def slash_def)
  have sl: "slots (m_host running_manager) = [1]" "Slot (pv_VM sample_pooled) = 0"
    by (simp_all add: running_manager_def sample_pooled_def)
  from pause_is_resumable[OF running_facts(1-4) vm cfg disk apart r] sl show ?thesis by simp
qed

definition broken_env :: mgr_env where
  "broken_env = sample_mgr_env\<lparr>me_fc := quiet_env\<lparr>fc_fault := (\<lambda>n l.
     if l = ''vsock connect'' \<or> l = ''snapshot create'' then Some (ErrNew ''fault'') else None)\<rparr>\<rparr>"

theorem failed_resume_is_retryable_witness:
  "fst (Resume broken_env ''sb1'' paused_manager) \<noteq> None
   \<and> resumable (snd (Resume broken_env ''sb1'' paused_manager)) ''sb1''"
proof -
  let ?r = "Resume broken_env ''sb1'' paused_manager"
  have fails: "fst ?r = Some (Wrapf ''vsock connect on resume'' (ErrNew ''fault''))" by code_simp
  then have r: "?r = (Some (Wrapf ''vsock connect on resume'' (ErrNew ''fault'')), snd ?r)"
    by (metis prod.collapse)
  have res: "resumable paused_manager ''sb1''" by code_simp
  have ev: "mget (Vms (m_host paused_manager)) (fc_uuid (me_fc broken_env) (htick (m_host paused_manager))) = None"
    "list_all (\<lambda>s. 0 \<le> s) (slots (m_host paused_manager))" "InitrdPath (m_vmConfig paused_manager) \<noteq> []"
    "list_all (\<lambda>p. p \<noteq> s_VsockPathAtPause sample_session
       \<and> p \<noteq> getSocketPath (me_fc broken_env) (fc_uuid (me_fc broken_env) (htick (m_host paused_manager)))
       \<and> p \<noteq> vsock_path (me_fc broken_env) (fc_uuid (me_fc broken_env) (htick (m_host paused_manager))))
       (artifacts sample_session)"
    by code_simp+
  have no: "\<not> (case Get ''sb1'' (m_store (snd ?r)) of None \<Rightarrow> False | Some s \<Rightarrow> session_active s)" by code_simp
  from failed_resume_is_retryable[OF paused_facts(2,4) res r ev] no fails show ?thesis by auto
qed

theorem failed_snapshot_strands_session_witness:
  "fst (Exec sample_mgr_env ''sb1'' ''ls'' 5 (snd (Pause broken_env ''sb1'' running_manager))) = Inl nil_connection"
proof -
  have vm: "mget (Vms (m_host running_manager)) (vm_ID (pv_VM sample_pooled)) \<noteq> None"
    and t: "m_template running_manager \<noteq> None"
    by (simp_all add: running_manager_def sample_manager_def sample_pooled_def)
  have f: "fc_fault (me_fc broken_env) (htick (m_host running_manager)) ''create pause dir'' = None"
    "fc_fault (me_fc broken_env) (Suc (htick (m_host running_manager))) ''failed to pause VM'' = None"
    "fc_fault (me_fc broken_env) (Suc (htick (m_host running_manager))) ''snapshot create'' = Some (ErrNew ''fault'')"
    by (simp_all add: broken_env_def)
  from failed_snapshot_strands_session[OF running_facts(1-4) vm running_facts(5) t f] show ?thesis by auto
qed

theorem reaper_acts_on_due_sessions_witness:
  "Get ''sb1'' (m_store (reapOnce sample_mgr_env (8 * 24 * hour) paused_manager)) = None"
proof -
  have "reapActionFor sample_session (8 * 24 * hour) = reapDestroy" by code_simp
  with reaper_acts_on_due_sessions[OF paused_facts(1,2), where t = "8 * 24 * hour" and X = sample_mgr_env]
  show ?thesis by simp
qed

end
