(* ===== verification/Session_Reports.thy ===== *)
theory Session_Reports
  imports Session_Safety
begin

text \<open>
  What the session manager tells its state hook (\<open>SetStateReporter\<close>): a call on a stored session
  either leaves its state alone and reports nothing, or reports the state it leaves, and a
  destroyed session is reported so unless its VM was not found. Resource accounting on the worker
  rests on these reports.
\<close>

definition state_name :: "SessionState \<Rightarrow> string" where
  "state_name s = (case s of StateActive \<Rightarrow> ''active'' | StatePaused \<Rightarrow> ''paused'')"

section \<open>What the state hook hears\<close>

definition hook_view :: "Manager \<Rightarrow> (string \<times> string) list \<times> bool" where
  "hook_view m = (m_events m, onState_set m)"

lemma hook_view_quiet [simp]:
  "hook_view (set_host h m) = hook_view m"
  "hook_view (set_session sess m) = hook_view m"
  "hook_view (snd (sys X l m)) = hook_view m"
  "hook_view (meterSession sess st t m) = hook_view m"
  "hook_view (forgetMeter k m) = hook_view m"
  "hook_view (persistManifest X m) = hook_view m"
  "hook_view (release_pooled X key pv m) = hook_view m"
  "hook_view (remove_file p m) = hook_view m"
  "hook_view (undo_resume X cg vm m) = hook_view m"
  "hook_view (cleanupPausedFiles X sess m) = hook_view m"
  "hook_view (m\<lparr>m_store := s0\<rparr>) = hook_view m"
  "hook_view (m\<lparr>sizePools := ps\<rparr>) = hook_view m"
  "hook_view (m\<lparr>m_store := s0, meterLast := ml\<rparr>) = hook_view m"
  by (auto simp: hook_view_def set_host_def set_session_def sys_def meterSession_def forgetMeter_def
      persistManifest_def release_pooled_def remove_file_def undo_resume_def cleanupPausedFiles_def
      Let_def split_beta split: option.splits)

lemma hook_view_destroy_vm [simp]: "hook_view (snd (destroy_vm_of X sess m)) = hook_view m"
  by (auto simp: destroy_vm_of_def Let_def split: option.splits prod.splits)

lemma hook_view_notify:
  "onState_set m \<Longrightarrow> hook_view (snd (notifyState X sess f m)) = (m_events m @ [(s_ID sess, f)], True)"
  by (simp add: hook_view_def notifyState_def)

lemma hook_view_commit:
  assumes "onState_set m"
  shows "hook_view (snd (commit_pause X sess vm sp mp m)) = (m_events m @ [(s_ID sess, ''paused'')], True)"
    "hook_view (snd (commit_resume X sess vm cg m)) = (m_events m @ [(s_ID sess, ''active'')], True)"
proof -
  have v: "m_events g = m_events m \<and> onState_set g" if "hook_view g = hook_view m" for g
    using that assms by (simp add: hook_view_def)
  have p: "hook_view (snd (notifyState X s f g)) = (m_events m @ [(s_ID s, f)], True)"
    if "hook_view g = hook_view m" for s f g
    using v[OF that] hook_view_notify[of g X s f] by simp
  show "hook_view (snd (commit_pause X sess vm sp mp m)) = (m_events m @ [(s_ID sess, ''paused'')], True)"
    unfolding commit_pause_def Let_def by (subst p) (simp_all split: option.split)
  show "hook_view (snd (commit_resume X sess vm cg m)) = (m_events m @ [(s_ID sess, ''active'')], True)"
    unfolding commit_resume_def Let_def by (subst p) simp_all
qed

text \<open>An active session has a VM.\<close>

definition live :: "Session \<Rightarrow> bool" where
  "live s \<longleftrightarrow> (s_State s = StateActive \<longrightarrow> s_VM s \<noteq> None)"

definition shape :: "Session \<Rightarrow> int \<times> int \<times> int" where
  "shape s = (s_VCPUs s, s_MemoryMB s, s_DiskGB s)"

definition kept :: "Session \<Rightarrow> Session \<Rightarrow> bool" where
  "kept s s' \<longleftrightarrow> shape s' = shape s \<and> (live s \<longrightarrow> live s')"

lemmas kept_defs = kept_def shape_def live_def

lemma kept_refl [simp]: "kept s s"
  by (simp add: kept_def)

lemma kept_trans: "kept a b \<Longrightarrow> kept b c \<Longrightarrow> kept a c"
  by (simp add: kept_def)

text \<open>
  A call on a stored session keeps its shape and either keeps its state and says nothing, or
  reports the state it leaves.
\<close>

definition reports :: "string \<Rightarrow> Manager \<Rightarrow> Manager \<Rightarrow> bool" where
  "reports k m m' \<longleftrightarrow> onState_set m' \<and>
     (case Get k (m_store m) of
        None \<Rightarrow> m_events m' = m_events m \<and> Get k (m_store m') = None
      | Some s \<Rightarrow> (\<exists>s'. Get k (m_store m') = Some s' \<and> kept s s'
          \<and> (m_events m' = m_events m \<and> s_State s' = s_State s
             \<or> m_events m' = m_events m @ [(k, state_name (s_State s'))])))"

lemma reports_quiet:
  assumes "onState_set m" "hook_view m' = hook_view m"
    "Get k (m_store m) = Some s" "Get k (m_store m') = Some s'" "kept s s'" "s_State s' = s_State s"
  shows "reports k m m'"
  using assms by (simp add: reports_def hook_view_def)

lemma reports_refl: "onState_set m \<Longrightarrow> hook_view m' = hook_view m \<Longrightarrow> m_store m' = m_store m \<Longrightarrow> reports k m m'"
  by (auto simp: reports_def hook_view_def split: option.split)

lemma reports_said:
  assumes "hook_view m' = (m_events m @ [(k, state_name (s_State s'))], True)"
    "Get k (m_store m) = Some s" "Get k (m_store m') = Some s'" "kept s s'"
  shows "reports k m m'"
  using assms by (simp add: reports_def hook_view_def)

lemma reports_then:
  assumes "reports k m g" "hook_view m' = hook_view g" "Get k (m_store g) = Some s"
    "Get k (m_store m') = Some s'" "kept s s'" "s_State s' = s_State s"
  shows "reports k m m'"
  using assms by (auto simp: reports_def hook_view_def split: option.splits intro: kept_trans)

lemma reports_after:
  assumes "reports k g m'" "hook_view g = hook_view m" "Get k (m_store m) = Some s"
    "Get k (m_store g) = Some s'" "kept s s'" "s_State s' = s_State s"
  shows "reports k m m'"
  using assms by (auto simp: reports_def hook_view_def intro: kept_trans)

lemma restore_session_reports:
  assumes "onState_set m" "Get (s_ID sess) (m_store m) = Some s" "kept s sess"
  shows "reports (s_ID sess) m (snd (restore_session X sess m))"
proof (cases rule: restore_session_cases[of X sess m])
  case (failed e h')
  with assms show ?thesis by (simp add: reports_refl)
next
  case (resumed vm cg h)
  let ?m' = "snd (commit_resume X sess vm cg (set_host h m))"
  obtain t where st: "m_store ?m' = put_session (sess\<lparr>s_VM := Some vm, s_Cgroup := cg,
      s_VsockConn := Some (VsockPath vm), s_PooledVM := None, s_Pool := None, s_State := StateActive,
      s_LastUsed := t, s_SnapPath := [], s_MemPath := []\<rparr>) (m_store m)"
    using commit_resume_store[of X sess vm cg "set_host h m"] by auto
  have "hook_view ?m' = (m_events m @ [(s_ID sess, ''active'')], True)"
    using hook_view_commit(2)[of "set_host h m"] assms(1) by simp
  then show ?thesis
    unfolding resumed(1) using assms st
    by (intro reports_said[where s' = "sess\<lparr>s_VM := Some vm, s_Cgroup := cg,
      s_VsockConn := Some (VsockPath vm), s_PooledVM := None, s_Pool := None, s_State := StateActive,
      s_LastUsed := t, s_SnapPath := [], s_MemPath := []\<rparr>"]) (auto simp: state_name_def kept_defs)
qed

lemma hydrate_reports:
  assumes "hydrateCheckpoint X sess m = (r, m1)"
  shows "hook_view m1 = hook_view m" and "r = Inr sess' \<Longrightarrow> kept sess sess'"
  using assms unfolding hydrateCheckpoint_def Let_def
  by (auto simp: kept_defs split: if_split_asm sum.split_asm option.split_asm prod.split_asm)

lemma Resume_reports:
  assumes inv: "store_inv (m_store m)" and on: "onState_set m"
  shows "reports k m (snd (Resume X k m))"
proof (cases "Get k (m_store m)")
  case None
  with on show ?thesis by (simp add: Resume_def reports_refl)
next
  case (Some s)
  have k: "s_ID s = k" by (rule Get_ID[OF inv Some])
  obtain r m1 where h: "hydrateCheckpoint X s m = (r, m1)" by fastforce
  note H = hydrate_reports[OF h] hydrate_effect[OF h]
  have a: "reports k m (snd (notifyState X s ''active'' m))" if "s_State s = StateActive"
    using that Some on k hook_view_notify[OF on, of X s]
    by (intro reports_said[where s' = s]) (auto simp: state_name_def)
  have b: "reports k m (snd (restore_session X s m))"
    using restore_session_reports[OF on, of s s X] Some k by simp
  have c: "reports k m (snd (restore_session X s' m1))" if "r = Inr s'" for s'
  proof (rule reports_after[where g = m1 and s' = s'])
    have "onState_set m1" using H(1) on by (simp add: hook_view_def)
    then show "reports k m1 (snd (restore_session X s' m1))"
      using restore_session_reports[of m1 s' s' X] H that k by simp
  qed (use H that Some k in auto)
  have d: "reports k m m1" if "r = Inl e" for e
    using H that on by (simp add: reports_refl)
  show ?thesis
  proof (cases "s_State s")
    case StateActive
    with Some a show ?thesis by (simp add: Resume_def)
  next
    case StatePaused
    with Some h b c d show ?thesis by (auto simp: Resume_def split: sum.split)
  qed
qed

lemma commit_pause_put:
  obtains p where "m_store (snd (commit_pause X sess vm sp mp m)) = put_session (sess\<lparr>s_SnapPath := sp,
      s_MemPath := mp, s_State := StatePaused, s_PausedAt := p, s_VM := None, s_VsockConn := None,
      s_PooledVM := None, s_Pool := None, s_Cgroup := None\<rparr>) (m_store m)"
  using commit_pause_store by blast

lemma commit_pause_reports:
  assumes "onState_set m" "Get (s_ID sess) (m_store m) = Some s" "kept s sess"
  shows "reports (s_ID sess) m (snd (commit_pause X sess vm sp mp m))"
proof -
  let ?m' = "snd (commit_pause X sess vm sp mp m)"
  obtain p where st: "m_store ?m' = put_session (sess\<lparr>s_SnapPath := sp, s_MemPath := mp,
      s_State := StatePaused, s_PausedAt := p, s_VM := None, s_VsockConn := None, s_PooledVM := None,
      s_Pool := None, s_Cgroup := None\<rparr>) (m_store m)"
    by (rule commit_pause_put)
  show ?thesis
    using hook_view_commit(1)[OF assms(1), of X sess vm sp mp] st assms
    by (intro reports_said[where s' = "sess\<lparr>s_SnapPath := sp, s_MemPath := mp,
      s_State := StatePaused, s_PausedAt := p, s_VM := None, s_VsockConn := None, s_PooledVM := None,
      s_Pool := None, s_Cgroup := None\<rparr>"]) (auto simp: state_name_def kept_defs)
qed

lemma rollback_reports:
  assumes "onState_set m" "Get (s_ID sess) (m_store m) = Some sess"
  shows "reports (s_ID sess) m (snd (rollbackFailedCheckpoint X sess vm sp mp e m))"
proof -
  let ?m' = "snd (rollbackFailedCheckpoint X sess vm sp mp e m)"
  have v: "hook_view ?m' = hook_view m"
    by (auto simp: rollbackFailedCheckpoint_def sys_def Let_def split: prod.splits option.splits)
  have "m_store ?m' = m_store m \<or> m_store ?m' = put_session (sess\<lparr>s_VsockConn := Some (VsockPath vm)\<rparr>) (m_store m)"
    by (auto simp: rollbackFailedCheckpoint_def sys_def Let_def split: prod.splits option.splits)
  then have "Get (s_ID sess) (m_store ?m') \<in> {Some sess, Some (sess\<lparr>s_VsockConn := Some (VsockPath vm)\<rparr>)}"
    using assms(2) by auto
  moreover have "kept sess (sess\<lparr>s_VsockConn := Some (VsockPath vm)\<rparr>)" by (simp add: kept_defs)
  ultimately obtain s' where "Get (s_ID sess) (m_store ?m') = Some s'" "kept sess s'" "s_State s' = s_State sess"
    by force
  then show ?thesis using reports_quiet[OF assms(1) v assms(2)] by blast
qed

lemma snapshot_session_reports:
  assumes "onState_set m" "Get (s_ID sess) (m_store m) = Some s" "kept s sess" "s_State sess = s_State s"
  shows "reports (s_ID sess) m (snd (snapshot_session X sess vm tmpl m))"
proof -
  let ?k = "s_ID sess"
  obtain derr m1 where dd: "sys X ''create pause dir'' m = (derr, m1)" by fastforce
  then have m1: "m_store m1 = m_store m" "hook_view m1 = hook_view m"
    by (metis sys_store snd_conv) (metis hook_view_quiet(3) dd snd_conv)
  let ?dir = "path_join (pauseDir m1) ?k"
  let ?s1 = "sess\<lparr>s_VsockPathAtPause := tp_VsockPath tmpl, s_TapNameAtPause := tp_TapName tmpl,
      s_WritableDiskPath := WritableDiskPath vm, s_RootfsPathAtPause := RootfsPath (vm_Config vm),
      s_VsockConn := None\<rparr>"
  obtain r h3 where sn: "Snapshot (me_fc X) (vm_ID vm) (path_join ?dir ''snap'') (path_join ?dir ''mem'')
      (m_host m1) = (r, h3)" by fastforce
  let ?m3 = "set_host h3 (set_session ?s1 m1)"
  have from3: "reports ?k m g" if "reports ?k ?m3 g" for g
    by (rule reports_after[OF that, where s' = ?s1 and s = s]) (use assms m1 in \<open>auto simp: kept_defs\<close>)
  have on3: "onState_set ?m3" using assms(1) m1(2) by (simp add: hook_view_def)
  have get3: "Get ?k (m_store ?m3) = Some ?s1" by simp
  have a: "reports ?k m m1" using assms(1) m1 by (simp add: reports_refl)
  have b: "reports ?k m ?m3" by (rule from3, rule reports_refl[OF on3]) simp_all
  have c: "reports ?k m (snd (commit_pause X ?s1 vm sp mp ?m3))" for sp mp
    by (rule from3) (use commit_pause_reports[OF on3, of ?s1 ?s1] in simp)
  have d: "reports ?k m (snd (rollbackFailedCheckpoint X ?s1 vm sp mp e ?m3))" for sp mp e
    by (rule from3) (use rollback_reports[OF on3, of ?s1] in simp)
  have f: "reports ?k m (snd (commit_pause X (?s1\<lparr>s_CheckpointRef := ref\<rparr>) vm sp mp
      (set_session (?s1\<lparr>s_CheckpointRef := ref\<rparr>) ?m3)))" for sp mp ref
  proof (rule from3, rule reports_after[where s = ?s1 and s' = "?s1\<lparr>s_CheckpointRef := ref\<rparr>"])
    show "reports ?k (set_session (?s1\<lparr>s_CheckpointRef := ref\<rparr>) ?m3)
        (snd (commit_pause X (?s1\<lparr>s_CheckpointRef := ref\<rparr>) vm sp mp (set_session (?s1\<lparr>s_CheckpointRef := ref\<rparr>) ?m3)))"
      using commit_pause_reports[of "set_session (?s1\<lparr>s_CheckpointRef := ref\<rparr>) ?m3"
          "?s1\<lparr>s_CheckpointRef := ref\<rparr>" "?s1\<lparr>s_CheckpointRef := ref\<rparr>"] on3 by simp
  qed (auto simp: kept_defs)
  show ?thesis
    using dd sn a b c d f
    by (auto simp: snapshot_session_def Let_def split: option.splits sum.splits)
qed

lemma Pause_reports:
  assumes inv: "store_inv (m_store m)" and on: "onState_set m"
  shows "reports k m (snd (Pause X k m))"
proof (cases "Get k (m_store m)")
  case None
  with on show ?thesis by (simp add: Pause_def pause_def reports_refl)
next
  case (Some s)
  have k: "s_ID s = k" by (rule Get_ID[OF inv Some])
  have a: "reports k m (snd (notifyState X s ''paused'' m))" if "s_State s = StatePaused"
    using that Some on k hook_view_notify[OF on, of X s]
    by (intro reports_said[where s' = s]) (auto simp: state_name_def)
  have b: "reports k m (snd (snapshot_session X s vm tmpl m))" for vm tmpl
    using snapshot_session_reports[OF on, of s s] Some k by simp
  let ?s1 = "s\<lparr>s_Terminals := []\<rparr>" and ?m1 = "snd (sys X ''close terminals'' m)"
  have c: "reports k m (snd (snapshot_session X ?s1 vm tmpl (set_session ?s1 ?m1)))" for vm tmpl
    by (rule reports_after[where g = "set_session ?s1 ?m1" and s' = ?s1])
      (use snapshot_session_reports[of "set_session ?s1 ?m1" ?s1 ?s1 X] Some k on in \<open>auto simp: sys_def kept_defs\<close>)
  have d: "reports k m ?m1" "reports k m m" using on by (simp_all add: reports_refl)
  show ?thesis
    using Some a b c d
    by (auto simp: Pause_def pause_def Let_def split_beta split: option.splits)
qed

lemma run_reports:
  assumes inv: "store_inv (m_store m)" and on: "onState_set m"
  shows "reports k m (snd (run_in_session X k what call timed tmo m))"
proof (cases "Get k (m_store m)")
  case None
  with on show ?thesis by (simp add: run_in_session_def ensureActive_def reports_refl)
next
  case (Some s0)
  obtain r m1 where e: "ensureActive X k m = (r, m1)" by fastforce
  have R: "reports k m m1"
    using e Resume_reports[OF inv on, of k X] Some on
    by (auto simp: ensureActive_def reports_refl split: if_splits)
  then obtain s where s: "Get k (m_store m1) = Some s" using Some by (auto simp: reports_def)
  have "store_inv (m_store m1)"
    using writes_only_inv[OF ensureActive_only[OF inv, of k X, unfolded e snd_conv] inv] Some by simp
  then have k: "s_ID s = k" using Get_ID s by blast
  show ?thesis
  proof (cases r)
    case (Some x)
    with e R show ?thesis by (simp add: run_in_session_def)
  next
    case None
    have "\<exists>s'. Get k (m_store (snd (run_in_session X k what call timed tmo m))) = Some s'
        \<and> kept s s' \<and> s_State s' = s_State s"
      using e None s k
      by (simp add: run_in_session_def Let_def kept_defs split: option.split sum.split)
    moreover have "hook_view (snd (run_in_session X k what call timed tmo m)) = hook_view m1"
      using e None s by (simp add: run_in_session_def Let_def split: option.split sum.split)
    ultimately show ?thesis using reports_then[OF R _ s] by blast
  qed
qed

lemma snapshot_session_none:
  assumes "snapshot_session X sess vm tmpl m = (None, m')"
  shows "\<exists>s'. Get (s_ID sess) (m_store m') = Some s' \<and> s_State s' = StatePaused"
proof -
  have c: "\<exists>s'. Get (s_ID s2) (m_store g') = Some s' \<and> s_State s' = StatePaused"
    if "commit_pause X s2 vm sp mp g = (None, g')" for s2 sp mp g g'
    by (rule commit_pause_put[of X s2 vm sp mp g]) (simp add: that)
  have n: "rollbackFailedCheckpoint X s2 vm sp mp e g \<noteq> (None, g')" for s2 sp mp e g g'
    using rollback_fails[of X s2 vm sp mp e g] by auto
  show ?thesis
    using assms n
    by (auto simp: snapshot_session_def Let_def split: prod.splits option.splits if_splits sum.splits dest!: c)
qed

lemma Pause_none:
  assumes "store_inv (m_store m)" "Get k (m_store m) = Some s" "live s" "Pause X k m = (None, m')"
  shows "\<exists>s'. Get k (m_store m') = Some s' \<and> s_State s' = StatePaused"
proof (cases "s_State s")
  case StatePaused
  then have "m_store m' = m_store m"
    using assms(2,4) by (auto simp: Pause_def pause_def split: option.splits dest: notifyState_snd)
  with assms(2) StatePaused show ?thesis by simp
next
  case StateActive
  have k: "s_ID s = k" by (rule Get_ID[OF assms(1,2)])
  obtain vm where "s_VM s = Some vm" using assms(3) StateActive by (auto simp: live_def)
  with StateActive assms(2,4) obtain s1 tmpl g where "snapshot_session X s1 vm tmpl g = (None, m')" "s_ID s1 = s_ID s"
    by (auto simp: Pause_def pause_def Let_def split: option.splits prod.splits if_splits)
  with snapshot_session_none k show ?thesis by metis
qed

definition hook_accepts :: "mgr_env \<Rightarrow> bool" where
  "hook_accepts X \<longleftrightarrow> (\<forall>n k f. me_onState X n k f = None)"

lemma resume_error_paused:
  assumes "hook_accepts X" "Get k (m_store m) = Some s" "Resume X k m = (Some e, m')"
    "store_inv (m_store m)"
  shows "\<exists>s'. Get k (m_store m') = Some s' \<and> s_State s' = StatePaused"
proof -
  have k: "s_ID s = k" by (rule Get_ID[OF assms(4,2)])
  have n: "fst (notifyState X s' f g) = None" for s' f g
    using assms(1) by (simp add: notifyState_def hook_accepts_def)
  have c: "fst (commit_resume X s' vm cg g) = None" for s' vm cg g
    using n by (simp add: commit_resume_def Let_def)
  have st: "s_State s = StatePaused"
    using assms(2,3) n[of s "''active''" m] by (cases "s_State s") (auto simp: Resume_def)
  have r: "m_store m' = m_store g" if "restore_session X s' g = (Some e', m')" for s' g e'
    using that c by (cases rule: restore_session_cases[of X s' g]) (auto, metis fst_conv option.distinct(1))
  obtain rr m1 where h: "hydrateCheckpoint X s m = (rr, m1)" by fastforce
  note H = hydrate_effect[OF h]
  from assms(2,3) st h consider (direct) "restore_session X s m = (Some e, m')"
    | (failed) e' where "rr = Inl e'" "m' = m1"
    | (hydrated) s' where "rr = Inr s'" "restore_session X s' m1 = (Some e, m')"
    by (cases rr) (auto simp: Resume_def split: if_splits)
  then show ?thesis
  proof cases
    case direct
    with r assms(2) st show ?thesis by metis
  next
    case failed
    with H assms(2) st show ?thesis by simp
  next
    case hydrated
    with H r k st show ?thesis by auto
  qed
qed

lemma Resume_none:
  assumes "store_inv (m_store m)" "Resume X k m = (None, m')"
  shows "\<exists>s'. Get k (m_store m') = Some s' \<and> s_State s' = StateActive"
proof -
  obtain s where s: "Get k (m_store m) = Some s"
    using assms(2) by (cases "Get k (m_store m)") (auto simp: Resume_def)
  have k: "s_ID s = k" by (rule Get_ID[OF assms(1) s])
  have r: "\<exists>s'. Get (s_ID s0) (m_store m') = Some s' \<and> s_State s' = StateActive"
    if "restore_session X s0 g = (None, m')" for s0 g
    by (rule restore_session_ok[OF that]) blast
  obtain rr m1 where h: "hydrateCheckpoint X s m = (rr, m1)" by fastforce
  from assms(2) s h consider (same) "s_State s = StateActive" "notifyState X s ''active'' m = (None, m')"
    | (direct) "restore_session X s m = (None, m')"
    | (hydrated) s' where "rr = Inr s'" "restore_session X s' m1 = (None, m')"
    by (cases rr; cases "s_State s") (auto simp: Resume_def split: if_splits)
  then show ?thesis
  proof cases
    case same
    with s notifyState_snd[OF same(2)] show ?thesis by simp
  next
    case direct
    with r k show ?thesis by metis
  next
    case hydrated
    with r[OF hydrated(2)] hydrate_effect[OF h] k show ?thesis by simp
  qed
qed

lemma Destroy_events:
  assumes "onState_set m" "Destroy X k m = (r, m')" "Get k (m_store m) = Some s" "s_ID s = k"
  shows "onState_set m'" and "\<exists>es. m_events m' = m_events m @ es \<and> (es = [(k, ''destroyed'')] \<or>
      es = [] \<and> (\<exists>vm. r = Some (Wrapf ''failed to destroy VM'' (ErrNew (''VM '' @ vm @ '' not found'')))))"
proof -
  have n: "hook_view g'' = (m_events g @ [(k, ''destroyed'')], True)"
    if "notifyState X s ''destroyed'' g = (x, g'')" "onState_set g" for g x g''
    using that hook_view_notify[of g X s "''destroyed''"] assms(4) by simp
  have td: "\<exists>vm. e = ErrNew (''VM '' @ vm @ '' not found'')" if "Destroy_vm E v h = (Some e, h')" for E v h e h'
    using that by (auto simp: Destroy_vm_def teardown_def Let_def split: option.splits if_splits)
  have dv: "hook_view g' = hook_view g \<and> (\<forall>e. x = Some e \<longrightarrow> (\<exists>vm. e = Wrapf ''failed to destroy VM'' (ErrNew (''VM '' @ vm @ '' not found''))))"
    if "destroy_vm_of X s g = (x, g')" for g x g'
    using that hook_view_destroy_vm[of X s g]
    by (auto simp: destroy_vm_of_def Let_def split: option.splits prod.splits dest!: td)
  obtain sto where del: "Delete k (m_store m) = (Some s, sto)"
    using assms(3) that by (simp add: Delete_def Get_def)
  let ?m1 = "meterSession s (s_State s) (now X m) (m\<lparr>m_store := sto\<rparr>)"
  have v: "hook_view ?m1 = hook_view m" by simp
  have ev: "onState_set g \<and> m_events g = m_events m" if "hook_view g = hook_view m" for g
    using that assms(1) by (simp add: hook_view_def)
  have fin: "onState_set m' \<and> m_events m' = m_events m @ [(k, ''destroyed'')]"
    if "(case notifyState X s ''destroyed'' g of (Some e, m'') \<Rightarrow> (Some e, m'')
          | (None, m'') \<Rightarrow> (None, forgetMeter k m'')) = (r, m')" "hook_view g = hook_view m" for g
  proof -
    obtain x g'' where x: "notifyState X s ''destroyed'' g = (x, g'')" by fastforce
    have "hook_view g'' = (m_events m @ [(k, ''destroyed'')], True)" using n[OF x] ev[OF that(2)] by simp
    then have "hook_view m' = (m_events m @ [(k, ''destroyed'')], True)"
      using that(1) x by (cases x) auto
    then show ?thesis by (simp add: hook_view_def)
  qed
  consider (paused) g where "hook_view g = hook_view m"
      "(case notifyState X s ''destroyed'' g of (Some e, m'') \<Rightarrow> (Some e, m'')
          | (None, m'') \<Rightarrow> (None, forgetMeter k m'')) = (r, m')"
    | (failed) e g where "hook_view g = hook_view m" "destroy_vm_of X s g = (Some e, m')" "r = Some e"
  proof (cases "s_State s = StatePaused")
    case True
    with assms(2) del have "(case notifyState X s ''destroyed'' (persistManifest X (cleanupPausedFiles X s ?m1)) of
        (Some e, m'') \<Rightarrow> (Some e, m'') | (None, m'') \<Rightarrow> (None, forgetMeter k m'')) = (r, m')"
      by (simp add: Destroy_def Let_def)
    from paused[OF _ this] v show ?thesis by simp
  next
    case False
    let ?m2 = "if s_VsockConn s \<noteq> None \<and> s_Terminals s \<noteq> [] then snd (sys X ''close terminals'' ?m1) else ?m1"
    have v2: "hook_view ?m2 = hook_view m" by simp
    obtain x g where x: "destroy_vm_of X s ?m2 = (x, g)" by fastforce
    show ?thesis
    proof (cases x)
      case (Some e)
      with False assms(2) del x have "r = Some e" "m' = g" by (simp_all add: Destroy_def Let_def)
      with failed[OF v2] x Some show ?thesis by simp
    next
      case None
      with False assms(2) del x have "(case notifyState X s ''destroyed'' g of
          (Some e, m'') \<Rightarrow> (Some e, m'') | (None, m'') \<Rightarrow> (None, forgetMeter k m'')) = (r, m')"
        by (simp add: Destroy_def Let_def)
      from paused[OF _ this] dv[OF x] v2 show ?thesis by simp
    qed
  qed
  then have "onState_set m' \<and> (\<exists>es. m_events m' = m_events m @ es \<and> (es = [(k, ''destroyed'')] \<or>
      es = [] \<and> (\<exists>vm. r = Some (Wrapf ''failed to destroy VM'' (ErrNew (''VM '' @ vm @ '' not found''))))))"
  proof cases
    case (paused g)
    then show ?thesis using fin[OF paused(2,1)] by simp
  next
    case (failed e g)
    then show ?thesis using dv[OF failed(2)] ev[of m'] by auto
  qed
  then show "onState_set m'" "\<exists>es. m_events m' = m_events m @ es \<and> (es = [(k, ''destroyed'')] \<or>
      es = [] \<and> (\<exists>vm. r = Some (Wrapf ''failed to destroy VM'' (ErrNew (''VM '' @ vm @ '' not found'')))))"
    by auto
qed

end
