(* ===== verification/Worker_Server.thy ===== *)
theory Worker_Server
  imports Admission Session_Reports
begin

text \<open>
  The worker's HTTP API (\<open>backend/internal/worker/server.go\<close>): the session manager and the
  admission control behind one set of handlers, wired as \<open>backend/cmd/worker/main.go\<close> wires them.
  The manager's state hook changes the reservations before it reports to the orchestrator; here
  the events a manager call records are applied to the reservations when the call returns, which
  is the same for handlers that run one at a time. A body is given decoded
  (\<open>encoding/json\<close>), a reply by its status and content.
\<close>

section \<open>Requests, replies and state\<close>

record http_request =
  hq_Method :: string
  hq_Path :: string
  hq_Token :: string
  hq_Create :: "go_error + CreateRequest"
  hq_Run :: "go_error + RunRequest"
  hq_Exec :: "go_error + ExecRequest"

datatype reply_body =
    ErrorResponse string string
  | HealthBody string
  | CapacityBody Capacity
  | CreatedBody CreateResponse
  | ResultBody ExecResult
  | StatusOK
  | NoContent
  | ProxyTo int string string

type_synonym reply = "nat \<times> reply_body"

record Worker =
  w_mgr :: Manager
  w_admission :: Admission
  w_token :: string
  w_draining :: bool

definition RouteHealth :: string where "RouteHealth = ''/worker/health''"
definition RouteCapacity :: string where "RouteCapacity = ''/worker/capacity''"
definition RouteSandbox :: string where "RouteSandbox = ''/worker/sandbox''"
definition RouteSandboxPrefix :: string where "RouteSandboxPrefix = ''/worker/sandbox/''"

text \<open>The reservations' half of the state hook.\<close>

definition onState_admission :: "Admission \<Rightarrow> string \<times> string \<Rightarrow> Admission" where
  "onState_admission a ev =
     (if snd ev = ''active'' then MarkActive a (fst ev)
      else if snd ev = ''paused'' then MarkPaused a (fst ev)
      else if snd ev = ''destroyed'' then Release a (fst ev)
      else a)"

definition call_mgr :: "(Manager \<Rightarrow> 'a \<times> Manager) \<Rightarrow> Worker \<Rightarrow> 'a \<times> Worker" where
  "call_mgr f w =
     (let (r, m') = f (w_mgr w);
          events = drop (length (m_events (w_mgr w))) (m_events m')
      in (r, w\<lparr>w_mgr := m', w_admission := foldl onState_admission (w_admission w) events\<rparr>))"

text \<open>What \<open>main\<close> does at start-up: the recovered sessions take their reservations back.\<close>

definition NewServerWithAdmission :: "Manager \<Rightarrow> string \<Rightarrow> Admission \<Rightarrow> Worker" where
  "NewServerWithAdmission m token a = \<lparr>w_mgr = m, w_admission = a, w_token = token, w_draining = False\<rparr>"

definition restore_reservations :: "Manager \<Rightarrow> Admission \<Rightarrow> Admission" where
  "restore_reservations m a =
     foldl (\<lambda>b s. Restore b (s_ID s) (s_VCPUs s) (s_MemoryMB s) (s_DiskGB s) (s_State s = StatePaused))
       a (All (m_store m))"

definition BeginDrain :: "Worker \<Rightarrow> Worker" where
  "BeginDrain w = w\<lparr>w_draining := True\<rparr>"

section \<open>Handlers\<close>

definition health :: "Worker \<Rightarrow> reply" where
  "health w = (200, HealthBody (if w_draining w then ''draining'' else ''ok''))"

definition capacity :: "Worker \<Rightarrow> reply \<times> Worker" where
  "capacity w =
     (let (c, a) = Capacity_of (w_admission w)
      in ((200, CapacityBody (if w_draining w then c\<lparr>FreeSlots := 0\<rparr> else c)), w\<lparr>w_admission := a\<rparr>))"

definition writeStatus :: "go_error option \<Rightarrow> reply" where
  "writeStatus err =
     (case err of
        None \<Rightarrow> (200, StatusOK)
      | Some e \<Rightarrow> (if contains (error_text e) ''not found'' then 404 else 500,
                    ErrorResponse ''operation_failed'' (error_text e)))"

definition writeResult :: "go_error + ExecResult \<Rightarrow> reply" where
  "writeResult r = (case r of Inl e \<Rightarrow> writeStatus (Some e) | Inr res \<Rightarrow> (200, ResultBody res))"

definition reservation_refused :: "go_error \<Rightarrow> reply" where
  "reservation_refused e =
     (if errors_is e PlaneErrNoCapacity then (429, ErrorResponse ''no_capacity'' (error_text e))
      else (409, ErrorResponse ''reservation_conflict'' (error_text e)))"

definition created_reply :: "Session \<Rightarrow> reply" where
  "created_reply sess = (201, CreatedBody \<lparr>resp_SandboxID = s_ID sess, resp_State = state_name (s_State sess),
     resp_Image = s_Image sess, resp_VCPUs = s_VCPUs sess, resp_MemoryMB = s_MemoryMB sess,
     resp_DiskGB = s_DiskGB sess\<rparr>)"

definition create :: "mgr_env \<Rightarrow> http_request \<Rightarrow> Worker \<Rightarrow> reply \<times> Worker" where
  "create X r w =
     (if hq_Method r \<noteq> ''POST'' then ((405, ErrorResponse ''method_not_allowed'' ''use POST''), w)
      else if w_draining w then ((503, ErrorResponse ''worker_draining'' ''worker is draining''), w)
      else case hq_Create r of
        Inl e \<Rightarrow> ((400, ErrorResponse ''bad_request'' (error_text e)), w)
      | Inr req \<Rightarrow>
          if SandboxID req = [] then ((400, ErrorResponse ''bad_request'' ''sandbox_id is required''), w)
          else (case ReserveCreate (w_admission w) req of
            (Some e, a) \<Rightarrow> (reservation_refused e, w\<lparr>w_admission := a\<rparr>)
          | (None, a) \<Rightarrow>
              (case call_mgr (CreateWithID X req) (w\<lparr>w_admission := a\<rparr>) of
                 (Inl e, w') \<Rightarrow> ((500, ErrorResponse ''create_failed'' (error_text e)),
                                  w'\<lparr>w_admission := Release (w_admission w') (SandboxID req)\<rparr>)
               | (Inr sess, w') \<Rightarrow> (created_reply sess, w'))))"

definition do_pause :: "mgr_env \<Rightarrow> string \<Rightarrow> Worker \<Rightarrow> reply \<times> Worker" where
  "do_pause X ident w =
     (let (err, w1) = call_mgr (Pause X ident) w
      in (writeStatus err, if err = None then w1\<lparr>w_admission := MarkPaused (w_admission w1) ident\<rparr> else w1))"

definition do_resume :: "mgr_env \<Rightarrow> string \<Rightarrow> Worker \<Rightarrow> reply \<times> Worker" where
  "do_resume X ident w =
     (case ReserveResume (w_admission w) ident of
        (Some e, a) \<Rightarrow> (reservation_refused e, w\<lparr>w_admission := a\<rparr>)
      | (None, a) \<Rightarrow>
          let (err, w1) = call_mgr (Resume X ident) (w\<lparr>w_admission := a\<rparr>)
          in (writeStatus err, if err = None then w1 else w1\<lparr>w_admission := MarkPaused (w_admission w1) ident\<rparr>))"

definition do_destroy :: "mgr_env \<Rightarrow> string \<Rightarrow> Worker \<Rightarrow> reply \<times> Worker" where
  "do_destroy X ident w =
     (let (err, w1) = call_mgr (Destroy X ident) w in
      case err of
        Some e \<Rightarrow> (writeStatus (Some e),
                    if contains (to_lower (error_text e)) ''not found''
                    then w1\<lparr>w_admission := Release (w_admission w1) ident\<rparr> else w1)
      | None \<Rightarrow> ((204, NoContent), w1\<lparr>w_admission := Release (w_admission w1) ident\<rparr>))"

text \<open>\<open>strconv.ParseUint(s, 10, 16)\<close>.\<close>

definition ParseUint16 :: "string \<Rightarrow> nat option" where
  "ParseUint16 s =
     (if s = [] \<or> list_ex (\<lambda>c. \<not> (48 \<le> (of_char c :: nat) \<and> (of_char c :: nat) \<le> 57)) s then None
      else let n = digits_val s in if n < 65536 then Some n else None)"

definition portProxy :: "string \<Rightarrow> string \<Rightarrow> Worker \<Rightarrow> reply" where
  "portProxy sandboxID rest w =
     (let (portText, upstreamPath) = (case str_cut rest slash of None \<Rightarrow> (rest, []) | Some p \<Rightarrow> p) in
      case ParseUint16 portText of
        None \<Rightarrow> (400, ErrorResponse ''invalid_preview_port'' ''port must be between 1 and 65535'')
      | Some port \<Rightarrow>
          if port = 0 then (400, ErrorResponse ''invalid_preview_port'' ''port must be between 1 and 65535'')
          else (case ResolvePortTarget sandboxID (w_mgr w) of
                  Inl e \<Rightarrow> (404, ErrorResponse ''sandbox_not_found'' ''sandbox is not active'')
                | Inr slot \<Rightarrow> (200, ProxyTo slot (''172.16.0.2:'' @ portText) (slash # upstreamPath))))"

definition sandboxOp :: "mgr_env \<Rightarrow> http_request \<Rightarrow> Worker \<Rightarrow> reply \<times> Worker" where
  "sandboxOp X r w =
     (let rest = drop (length RouteSandboxPrefix) (hq_Path r);
          (ident, oper) = (case str_cut rest slash of None \<Rightarrow> (rest, []) | Some p \<Rightarrow> p);
          post = (hq_Method r = ''POST'') in
      if ident = [] then ((400, ErrorResponse ''bad_request'' ''missing sandbox id''), w)
      else if oper = ''run'' \<and> post then
        (case hq_Run r of
           Inl e \<Rightarrow> ((400, ErrorResponse ''bad_request'' (error_text e)), w)
         | Inr q \<Rightarrow> let (res, w1) = call_mgr (Execute X ident (run_Code q) (run_Language q) (run_TimeoutS q)) w
                     in (writeResult res, w1))
      else if oper = ''exec'' \<and> post then
        (case hq_Exec r of
           Inl e \<Rightarrow> ((400, ErrorResponse ''bad_request'' (error_text e)), w)
         | Inr q \<Rightarrow> let (res, w1) = call_mgr (Exec X ident (ex_Command q) (ex_TimeoutS q)) w
                     in (writeResult res, w1))
      else if has_prefix oper ''ports/'' then (portProxy ident (drop (length ''ports/'') oper) w, w)
      else if oper = ''pause'' \<and> post then do_pause X ident w
      else if oper = ''resume'' \<and> post then do_resume X ident w
      else if oper = [] \<and> hq_Method r = ''DELETE'' then do_destroy X ident w
      else ((404, ErrorResponse ''not_found'' ''unknown worker operation''), w))"

definition authed :: "(http_request \<Rightarrow> Worker \<Rightarrow> reply \<times> Worker) \<Rightarrow> http_request \<Rightarrow> Worker \<Rightarrow> reply \<times> Worker" where
  "authed next r w =
     (if w_token w \<noteq> [] \<and> hq_Token r \<noteq> w_token w
      then ((401, ErrorResponse ''unauthorized'' ''invalid or missing worker token''), w)
      else next r w)"

text \<open>The mux: the most specific pattern wins. It redirects a path that is not clean; such requests are not represented.\<close>

definition serve :: "mgr_env \<Rightarrow> http_request \<Rightarrow> Worker \<Rightarrow> reply \<times> Worker" where
  "serve X r w =
     (if hq_Path r = RouteHealth then (health w, w)
      else if hq_Path r = RouteCapacity then authed (\<lambda>q. capacity) r w
      else if hq_Path r = RouteSandbox then authed (create X) r w
      else if has_prefix (hq_Path r) RouteSandboxPrefix then authed (sandboxOp X) r w
      else ((404, ErrorResponse [] ''404 page not found''), w))"

section \<open>Reservations agree with sessions\<close>

definition reserved_as :: "Session \<Rightarrow> reservation \<Rightarrow> bool" where
  "reserved_as s r \<longleftrightarrow> (rv_vcpus r, rv_memoryMB r, rv_diskGB r) = shape s \<and> rv_paused r = (s_State s = StatePaused)"

definition agree_at :: "string \<Rightarrow> session_store \<Rightarrow> Admission \<Rightarrow> bool" where
  "agree_at k st a \<longleftrightarrow>
     (case (Get k st, mget (reservations a) k) of
        (None, None) \<Rightarrow> True
      | (Some s, Some r) \<Rightarrow> live s \<and> reserved_as s r
      | _ \<Rightarrow> False)"

definition worker_inv :: "Worker \<Rightarrow> bool" where
  "worker_inv w \<longleftrightarrow> store_inv (m_store (w_mgr w)) \<and> onState_set (w_mgr w)
     \<and> (\<forall>k. agree_at k (m_store (w_mgr w)) (w_admission w))"

lemma reservation_get [simp]:
  "mget (reservations (MarkPaused a j)) k = (if k = j then map_option (\<lambda>r. r\<lparr>rv_paused := True\<rparr>) (mget (reservations a) k) else mget (reservations a) k)"
  "mget (reservations (MarkActive a j)) k = (if k = j then map_option (\<lambda>r. r\<lparr>rv_paused := False\<rparr>) (mget (reservations a) k) else mget (reservations a) k)"
  "mget (reservations (Release a j)) k = (if k = j then None else mget (reservations a) k)"
  by (auto simp: MarkPaused_def MarkActive_def Release_def split: option.split)

lemma agree_at_cong:
  "Get k st = Get k st' \<Longrightarrow> mget (reservations a) k = mget (reservations a') k \<Longrightarrow> agree_at k st a = agree_at k st' a'"
  by (simp add: agree_at_def)

lemma agree_stored:
  "agree_at k st a \<Longrightarrow> Get k st = Some s
     \<Longrightarrow> \<exists>rv. mget (reservations a) k = Some rv \<and> live s \<and> reserved_as s rv"
  by (auto simp: agree_at_def split: option.splits)

text \<open>A call on one session that reports leaves the reservations right.\<close>

lemma call_reports:
  assumes w: "worker_inv w" and c: "call_mgr f w = (r, w')" and f: "reports k (w_mgr w) (snd (f (w_mgr w)))"
    and only: "writes_only k (w_mgr w) (snd (f (w_mgr w)))"
  shows "worker_inv w'" and "w_mgr w' = snd (f (w_mgr w))" and "fst (f (w_mgr w)) = r"
proof -
  let ?m = "w_mgr w" and ?m' = "snd (f (w_mgr w))" and ?a = "w_admission w"
  let ?ev = "drop (length (m_events ?m)) (m_events ?m')"
  show m': "w_mgr w' = ?m'" and "fst (f ?m) = r"
    using c by (auto simp: call_mgr_def Let_def split_beta)
  have a': "w_admission w' = foldl onState_admission ?a ?ev"
    using c by (auto simp: call_mgr_def Let_def split_beta)
  have W: "store_inv (m_store ?m)" "onState_set ?m" "\<And>j. agree_at j (m_store ?m) ?a"
    using w by (simp_all add: worker_inv_def)
  have ev: "m_events ?m' = m_events ?m \<Longrightarrow> ?ev = []" "m_events ?m' = m_events ?m @ [e] \<Longrightarrow> ?ev = [e]" for e
    by simp_all
  have "agree_at j (m_store ?m') (w_admission w')" for j
  proof (cases "Get k (m_store ?m)")
    case None
    then have "Get k (m_store ?m') = None" and e: "?ev = []" using f by (simp_all add: reports_def)
    then have "Get j (m_store ?m') = Get j (m_store ?m)"
      using None writes_only_other[OF only] by (cases "j = k") auto
    with W(3)[of j] e show ?thesis by (simp add: a' agree_at_def)
  next
    case (Some s)
    then obtain s' where s': "Get k (m_store ?m') = Some s'" "kept s s'"
      "m_events ?m' = m_events ?m \<and> s_State s' = s_State s \<or> m_events ?m' = m_events ?m @ [(k, state_name (s_State s'))]"
      using f by (auto simp: reports_def)
    obtain rv where rv: "mget (reservations ?a) k = Some rv" "live s" "reserved_as s rv"
      using W(3)[of k] Some by (auto simp: agree_at_def split: option.splits)
    have upd: "mget (reservations (w_admission w')) j =
        (if j = k then Some (rv\<lparr>rv_paused := (s_State s' = StatePaused)\<rparr>) else mget (reservations ?a) j)"
      using s'(3) ev rv
      by (cases "s_State s'") (auto simp: a' onState_admission_def state_name_def reserved_as_def)
    show ?thesis
    proof (cases "j = k")
      case True
      with upd s'(1,2) rv show ?thesis by (simp add: agree_at_def reserved_as_def kept_def)
    next
      case False
      with upd writes_only_other[OF only False] W(3)[of j] show ?thesis by (simp add: agree_at_def)
    qed
  qed
  moreover have "store_inv (m_store ?m')"
  proof (cases "Get k (m_store ?m)")
    case None
    then have "Get k (m_store ?m') = None" using f by (simp add: reports_def)
    with only None have "m_store ?m' = m_store ?m" by (auto simp: writes_only_def)
    with W show ?thesis by simp
  qed (use writes_only_inv[OF only W(1)] in simp)
  moreover have "onState_set ?m'" using f by (simp add: reports_def)
  ultimately show "worker_inv w'" by (simp add: worker_inv_def m')
qed

lemma agree_mark_paused:
  assumes "worker_inv w" "Get k (m_store (w_mgr w)) = Some s" "s_State s = StatePaused"
  shows "worker_inv (w\<lparr>w_admission := MarkPaused (w_admission w) k\<rparr>)"
proof -
  have "agree_at j (m_store (w_mgr w)) (MarkPaused (w_admission w) k)" for j
  proof -
    have "agree_at j (m_store (w_mgr w)) (w_admission w)" using assms(1) by (simp add: worker_inv_def)
    then show ?thesis
      using assms(2,3) by (cases "j = k") (auto simp: agree_at_def reserved_as_def split: option.splits)
  qed
  with assms(1) show ?thesis by (simp add: worker_inv_def)
qed

lemma do_pause_inv:
  assumes w: "worker_inv w"
  shows "worker_inv (snd (do_pause X k w))"
proof -
  have W: "store_inv (m_store (w_mgr w))" "onState_set (w_mgr w)" using w by (simp_all add: worker_inv_def)
  obtain r w1 where c: "call_mgr (Pause X k) w = (r, w1)" by fastforce
  have only: "writes_only k (w_mgr w) (snd (Pause X k (w_mgr w)))"
    using pause_only[OF W(1)] by (simp add: Pause_def)
  note C = call_reports[OF w c Pause_reports[OF W] only]
  have "worker_inv (w1\<lparr>w_admission := MarkPaused (w_admission w1) k\<rparr>)" if "r = None"
  proof -
    have p: "Pause X k (w_mgr w) = (None, w_mgr w1)" using C(2,3) that by (metis prod.collapse)
    then obtain s where s: "Get k (m_store (w_mgr w)) = Some s"
      by (cases "Get k (m_store (w_mgr w))") (auto simp: Pause_def pause_def)
    moreover have "live s" using w s agree_stored by (fastforce simp: worker_inv_def)
    ultimately obtain s' where "Get k (m_store (w_mgr w1)) = Some s'" "s_State s' = StatePaused"
      using Pause_none[OF W(1) _ _ p] by blast
    with agree_mark_paused[OF C(1)] show ?thesis by blast
  qed
  with C(1) c show ?thesis by (simp add: do_pause_def Let_def)
qed

lemma ReserveResume_agree:
  assumes "\<And>j. agree_at j st a" and "ReserveResume a k = (r, a')"
  shows "j \<noteq> k \<Longrightarrow> mget (reservations a') j = mget (reservations a) j"
    and "r \<noteq> None \<Longrightarrow> reservations a' = reservations a"
    and "r = None \<Longrightarrow> \<exists>s rv. Get k st = Some s \<and> live s \<and> mget (reservations a) k = Some rv \<and> reserved_as s rv
          \<and> mget (reservations a') k = Some (rv\<lparr>rv_paused := False\<rparr>)"
proof -
  have g: "\<exists>s. Get k st = Some s \<and> live s \<and> reserved_as s rv" if "mget (reservations a) k = Some rv" for rv
    using assms(1)[of k] that by (auto simp: agree_at_def split: option.splits)
  show "j \<noteq> k \<Longrightarrow> mget (reservations a') j = mget (reservations a) j" "r \<noteq> None \<Longrightarrow> reservations a' = reservations a"
    using assms(2) by (cases rule: ReserveResume_cases[of a k]; auto)+
  show "r = None \<Longrightarrow> \<exists>s rv. Get k st = Some s \<and> live s \<and> mget (reservations a) k = Some rv \<and> reserved_as s rv
          \<and> mget (reservations a') k = Some (rv\<lparr>rv_paused := False\<rparr>)"
    using assms(2) g by (cases rule: ReserveResume_cases[of a k]; fastforce)
qed

lemma call_mgr_frame:
  "call_mgr f w = (r, w') \<Longrightarrow> w_mgr w' = snd (f (w_mgr w)) \<and> fst (f (w_mgr w)) = r"
  by (auto simp: call_mgr_def Let_def split_beta)

text \<open>Events about \<open>k\<close> change no other reservation.\<close>

lemma call_mgr_reservations:
  assumes "call_mgr f w = (r, w')" and "m_events (snd (f (w_mgr w))) = m_events (w_mgr w) @ es"
  shows "w_admission w' = foldl onState_admission (w_admission w) es"
  using assms by (auto simp: call_mgr_def Let_def split_beta)

lemma do_resume_inv:
  assumes w: "worker_inv w" and acc: "hook_accepts X"
  shows "worker_inv (snd (do_resume X k w))"
proof -
  let ?m = "w_mgr w"
  have W: "store_inv (m_store ?m)" "onState_set ?m" "\<And>j. agree_at j (m_store ?m) (w_admission w)"
    using w by (simp_all add: worker_inv_def)
  obtain res a where rr: "ReserveResume (w_admission w) k = (res, a)" by fastforce
  note R = ReserveResume_agree[OF W(3) rr]
  show ?thesis
  proof (cases res)
    case (Some e)
    with R(2) have "agree_at j (m_store ?m) a" for j using W(3)[of j] by (simp add: agree_at_def)
    with rr Some W show ?thesis by (simp add: do_resume_def worker_inv_def)
  next
    case None
    from R(3)[OF None] obtain s rv where s: "Get k (m_store ?m) = Some s" "live s"
      "mget (reservations (w_admission w)) k = Some rv" "reserved_as s rv"
      "mget (reservations a) k = Some (rv\<lparr>rv_paused := False\<rparr>)" by blast
    obtain err w1 where c: "call_mgr (Resume X k) (w\<lparr>w_admission := a\<rparr>) = (err, w1)" by fastforce
    have m1: "w_mgr w1 = snd (Resume X k ?m)" "fst (Resume X k ?m) = err" using call_mgr_frame[OF c] by simp_all
    have rep: "reports k ?m (w_mgr w1)" using Resume_reports[OF W(1,2)] m1 by simp
    have only: "writes_only k ?m (w_mgr w1)" using Resume_only[OF W(1)] m1 by simp
    have inv1: "store_inv (m_store (w_mgr w1))" using writes_only_inv[OF only W(1)] s(1) by simp
    obtain s' where s': "Get k (m_store (w_mgr w1)) = Some s'" "kept s s'"
      "m_events (w_mgr w1) = m_events ?m \<and> s_State s' = s_State s
        \<or> m_events (w_mgr w1) = m_events ?m @ [(k, state_name (s_State s'))]" and on1: "onState_set (w_mgr w1)"
      using rep s(1) by (auto simp: reports_def)
    have other: "mget (reservations (w_admission w1)) j = mget (reservations (w_admission w)) j" if "j \<noteq> k" for j
      using s'(3) that R(1) call_mgr_reservations[OF c, of "[]"] call_mgr_reservations[OF c, of "[(k, state_name (s_State s'))]"] m1
      by (auto simp: onState_admission_def)
    have mine: "\<exists>b. mget (reservations (w_admission w1)) k = Some (rv\<lparr>rv_paused := b\<rparr>)
        \<and> (m_events (w_mgr w1) \<noteq> m_events ?m \<longrightarrow> b = (s_State s' = StatePaused))
        \<and> (m_events (w_mgr w1) = m_events ?m \<longrightarrow> \<not> b)"
      using s'(3) s(5) call_mgr_reservations[OF c, of "[]"] call_mgr_reservations[OF c, of "[(k, state_name (s_State s'))]"] m1
      by (cases "s_State s'") (auto simp: onState_admission_def state_name_def)
    have fin: "worker_inv (w1\<lparr>w_admission := b\<rparr>)" if "\<And>j. j \<noteq> k \<Longrightarrow> mget (reservations b) j = mget (reservations (w_admission w)) j"
      "mget (reservations b) k = Some (rv\<lparr>rv_paused := (s_State s' = StatePaused)\<rparr>)" for b
    proof -
      have "agree_at j (m_store (w_mgr w1)) b" for j
      proof (cases "j = k")
        case True
        with s' s that(2) show ?thesis by (simp add: agree_at_def reserved_as_def kept_def)
      next
        case False
        with that(1) writes_only_other[OF only False] W(3)[of j] show ?thesis by (simp add: agree_at_def)
      qed
      with inv1 on1 show ?thesis by (simp add: worker_inv_def)
    qed
    show ?thesis
    proof (cases err)
      case (Some e)
      then have "Resume X k ?m = (Some e, w_mgr w1)" using m1 by (metis prod.collapse)
      from resume_error_paused[OF acc s(1) this W(1)] s' have "s_State s' = StatePaused" by auto
      then have "worker_inv (w1\<lparr>w_admission := MarkPaused (w_admission w1) k\<rparr>)"
        using mine other by (intro fin) auto
      with rr None c Some show ?thesis by (simp add: do_resume_def Let_def)
    next
      case ok: None
      then have "Resume X k ?m = (None, w_mgr w1)" using m1 by (metis prod.collapse)
      from Resume_none[OF W(1) this] s' have act: "s_State s' = StateActive" by auto
      have "worker_inv (w1\<lparr>w_admission := w_admission w1\<rparr>)"
        using mine other act by (intro fin) auto
      with rr None c ok show ?thesis by (simp add: do_resume_def Let_def)
    qed
  qed
qed

lemma not_found_text:
  "contains (to_lower (error_text (not_found k))) ''not found''"
  "contains (to_lower (error_text (Wrapf msg (ErrNew (''VM '' @ vm @ '' not found''))))) ''not found''"
proof -
  have l: "to_lower ''not found'' = ''not found''" by code_simp
  show "contains (to_lower (error_text (not_found k))) ''not found''"
    using contains_lower_infix[OF l, of "''session '' @ k @ '' ''" "[]"] 
    by (simp add: not_found_def)
  show "contains (to_lower (error_text (Wrapf msg (ErrNew (''VM '' @ vm @ '' not found''))))) ''not found''"
    using contains_lower_infix[OF l, of "msg @ '': VM '' @ vm @ '' ''" "[]"] by simp
qed

lemma call_mgr_destroy:
  assumes w: "worker_inv w" and c: "call_mgr (Destroy X k) w = (r, w1)"
  shows "worker_inv (w1\<lparr>w_admission := Release (w_admission w1) k\<rparr>)"
    and "r = None \<or> (\<exists>e. r = Some e \<and> contains (to_lower (error_text e)) ''not found'') \<or> worker_inv w1"
proof -
  let ?m = "w_mgr w"
  have W: "store_inv (m_store ?m)" "onState_set ?m" "\<And>j. agree_at j (m_store ?m) (w_admission w)"
    using w by (simp_all add: worker_inv_def)
  have m1: "w_mgr w1 = snd (Destroy X k ?m)" "fst (Destroy X k ?m) = r" using call_mgr_frame[OF c] by simp_all
  then have D: "Destroy X k ?m = (r, w_mgr w1)" by (metis prod.collapse)
  have st: "m_store (w_mgr w1) = snd (Delete k (m_store ?m))" using Destroy_store m1 by metis
  then have inv1: "store_inv (m_store (w_mgr w1))" using Delete_inv W(1) by simp
  have g: "Get j (m_store (w_mgr w1)) = (if j = k then None else Get j (m_store ?m))" for j
    using Get_after(2) st by simp
  have ev: "onState_set (w_mgr w1) \<and> (w_admission w1 = Release (w_admission w) k \<or> w_admission w1 = w_admission w \<and>
      (\<exists>e. r = Some e \<and> contains (to_lower (error_text e)) ''not found''))"
  proof (cases "Get k (m_store ?m)")
    case None
    then have "r = Some (not_found k)" "w_mgr w1 = ?m"
      using D by (auto simp: Destroy_def Delete_def Get_def)
    with call_mgr_reservations[OF c, of "[]"] m1 W(2) not_found_text(1) show ?thesis by auto
  next
    case (Some s)
    note E = Destroy_events[OF W(2) D Some Get_ID[OF W(1) Some]]
    from E(2) obtain es where es: "m_events (w_mgr w1) = m_events ?m @ es" "es = [(k, ''destroyed'')] \<or>
      es = [] \<and> (\<exists>vm. r = Some (Wrapf ''failed to destroy VM'' (ErrNew (''VM '' @ vm @ '' not found''))))" by blast
    have "w_admission w1 = foldl onState_admission (w_admission w) es"
      using call_mgr_reservations[OF c] es(1) m1 by simp
    with es(2) show ?thesis
      using E(1) not_found_text(2)[of "''failed to destroy VM''"] by (elim disjE) (auto simp: onState_admission_def)
  qed
  have fin: "worker_inv (w1\<lparr>w_admission := b\<rparr>)"
    if "\<And>j. mget (reservations b) j = (if j = k then None else mget (reservations (w_admission w)) j)" for b
  proof -
    have "agree_at j (m_store (w_mgr w1)) b" for j
      using W(3)[of j] g[of j] that[of j] by (auto simp: agree_at_def)
    with inv1 ev show ?thesis by (simp add: worker_inv_def)
  qed
  show "worker_inv (w1\<lparr>w_admission := Release (w_admission w1) k\<rparr>)"
    using ev by (intro fin) auto
  have "worker_inv w1" if "w_admission w1 = Release (w_admission w) k"
    using fin[of "w_admission w1"] that by (metis Worker.surjective Worker.update_convs(2) reservation_get(3))
  with ev show "r = None \<or> (\<exists>e. r = Some e \<and> contains (to_lower (error_text e)) ''not found'') \<or> worker_inv w1"
    by auto
qed

lemma do_destroy_inv:
  assumes w: "worker_inv w"
  shows "worker_inv (snd (do_destroy X k w))"
proof -
  obtain r w1 where c: "call_mgr (Destroy X k) w = (r, w1)" by fastforce
  from call_mgr_destroy[OF w c] c show ?thesis by (auto simp: do_destroy_def Let_def split: option.split)
qed

lemma hook_view_create [simp]: "hook_view (snd (CreateWithID X req m)) = hook_view m"
proof -
  have b: "hook_view (snd (bind_session X req img key pv g)) = hook_view g" for img key pv g
  proof -
    have s: "hook_view g2 = hook_view g1" if "sys X l g1 = (e, g2)" for l g1 e g2
      using that hook_view_quiet(3)[of X l g1] by simp
    show ?thesis
      by (auto simp: bind_session_def Let_def split: prod.split option.split dest: s)
  qed
  show ?thesis
    by (simp add: CreateWithID_def Let_def b split: prod.split option.split sum.split)
qed

text \<open>
  A create request for a stored sandbox of the same shape repeats the configuration the sandbox has.
\<close>

definition retry_ok :: "mgr_env \<Rightarrow> http_request \<Rightarrow> Worker \<Rightarrow> bool" where
  "retry_ok X r w \<longleftrightarrow>
     (case hq_Create r of
        Inl e \<Rightarrow> True
      | Inr req \<Rightarrow>
          (case Get (SandboxID req) (m_store (w_mgr w)) of
             None \<Rightarrow> True
           | Some s \<Rightarrow> shape s = (cr_VCPUs req, cr_MemoryMB req, cr_DiskGB req) \<longrightarrow>
               me_uuid_Parse X (SandboxID req) = None \<and>
               (case Normalize (cr_Image req) of
                  Inl e \<Rightarrow> False
                | Inr img \<Rightarrow> \<not> create_conflict s (cr_UserID req) (cr_BillingModel req) img (cr_VCPUs req)
                               (cr_MemoryMB req) (cr_DiskGB req) (cr_Internet req))))"

lemma worker_invI:
  assumes "store_inv (m_store (w_mgr w))" "onState_set (w_mgr w)" "\<And>k. agree_at k (m_store (w_mgr w)) (w_admission w)"
  shows "worker_inv w"
  using assms by (simp add: worker_inv_def)

lemma call_mgr_silent:
  assumes "call_mgr f w = (r, w')" "hook_view (snd (f (w_mgr w))) = hook_view (w_mgr w)"
  shows "w' = w\<lparr>w_mgr := snd (f (w_mgr w))\<rparr>" "fst (f (w_mgr w)) = r"
  using assms by (auto simp: call_mgr_def Let_def split_beta hook_view_def)

lemma create_cases:
  assumes w: "worker_inv w" and retry: "retry_ok X r w"
  obtains (refused) c b a where "create X r w = ((c, b), w\<lparr>w_admission := a\<rparr>)" "c \<noteq> 201"
      "reservations a = reservations (w_admission w)"
    | (failed) req b m' a where "create X r w = ((500, b), w\<lparr>w_mgr := m', w_admission := a\<rparr>)"
      "m_store m' = m_store (w_mgr w)" "hook_view m' = hook_view (w_mgr w)"
      "mget (reservations a) = mget (reservations (w_admission w))"
    | (existing) req s where "create X r w = (created_reply s, w)" "hq_Create r = Inr req"
      "Get (SandboxID req) (m_store (w_mgr w)) = Some s" "shape s = (cr_VCPUs req, cr_MemoryMB req, cr_DiskGB req)"
    | (created) req s m' a where "create X r w = (created_reply s, w\<lparr>w_mgr := m', w_admission := a\<rparr>)"
      "hq_Create r = Inr req" "live s" "s_State s = StateActive" "shape s = (cr_VCPUs req, cr_MemoryMB req, cr_DiskGB req)"
      "\<And>j. Get j (m_store m') = (if j = SandboxID req then Some s else Get j (m_store (w_mgr w)))"
      "store_inv (m_store m')" "hook_view m' = hook_view (w_mgr w)"
      "\<And>j. mget (reservations a) j = (if j = SandboxID req then Some \<lparr>rv_vcpus = cr_VCPUs req,
         rv_memoryMB = cr_MemoryMB req, rv_diskGB = cr_DiskGB req, rv_paused = False\<rparr>
         else mget (reservations (w_admission w)) j)"
proof (cases "hq_Method r \<noteq> ''POST'' \<or> w_draining w \<or> (\<exists>e. hq_Create r = Inl e) \<or> (\<exists>q. hq_Create r = Inr q \<and> SandboxID q = [])")
  case True
  then have "\<exists>c b. create X r w = ((c, b), w) \<and> c \<noteq> 201" by (auto simp: create_def split: sum.split)
  then obtain c b where "create X r w = ((c, b), w\<lparr>w_admission := w_admission w\<rparr>)" "c \<noteq> 201" by auto
  then show ?thesis using refused by blast
next
  case False
  then obtain req where q: "hq_Method r = ''POST''" "\<not> w_draining w" "hq_Create r = Inr req" "SandboxID req \<noteq> []"
    by (cases "hq_Create r") auto
  let ?m = "w_mgr w" and ?k = "SandboxID req"
  have W: "store_inv (m_store ?m)" "onState_set ?m" "\<And>j. agree_at j (m_store ?m) (w_admission w)"
    using w by (simp_all add: worker_inv_def)
  obtain res a where ra: "ReserveCreate (w_admission w) req = (res, a)" by fastforce
  obtain cr w1 where c: "call_mgr (CreateWithID X req) (w\<lparr>w_admission := a\<rparr>) = (cr, w1)" by fastforce
  have w1: "w1 = w\<lparr>w_admission := a, w_mgr := snd (CreateWithID X req ?m)\<rparr>" "fst (CreateWithID X req ?m) = cr"
    using call_mgr_silent[OF c] by simp_all
  have out: "create X r w = (case res of
        Some e \<Rightarrow> (reservation_refused e, w\<lparr>w_admission := a\<rparr>)
      | None \<Rightarrow> (case cr of
           Inl e \<Rightarrow> ((500, ErrorResponse ''create_failed'' (error_text e)), w1\<lparr>w_admission := Release a (SandboxID req)\<rparr>)
         | Inr sess \<Rightarrow> (created_reply sess, w1)))"
    using q ra c w1(1) by (simp add: create_def split: option.split sum.split)
  show ?thesis
  proof (cases rule: ReserveCreate_cases[of "w_admission w" req])
    case (refused e a')
    then have "create X r w = (reservation_refused e, w\<lparr>w_admission := a'\<rparr>)" "fst (reservation_refused e) \<noteq> 201"
      using out ra by (simp_all add: reservation_refused_def)
    then show ?thesis using that(1) refused(2) by (metis prod.collapse)
  next
    case (kept rv)
    then obtain s where s: "Get ?k (m_store ?m) = Some s" "reserved_as s rv"
      using W(3)[of ?k] by (auto simp: agree_at_def split: option.splits)
    then have sh: "shape s = (cr_VCPUs req, cr_MemoryMB req, cr_DiskGB req)" using kept by (simp add: reserved_as_def)
    with retry q s have "CreateWithID X req ?m = (Inr s, ?m)"
      by (auto simp: retry_ok_def CreateWithID_def split: sum.splits)
    with kept ra out w1 have "create X r w = (created_reply s, w)" by auto
    with existing q s sh show ?thesis by blast
  next
    case (admitted a')
    then have none: "Get ?k (m_store ?m) = None" using W(3)[of ?k] by (auto simp: agree_at_def split: option.splits)
    have a: "mget (reservations a) j = (if j = ?k then Some \<lparr>rv_vcpus = cr_VCPUs req,
         rv_memoryMB = cr_MemoryMB req, rv_diskGB = cr_DiskGB req, rv_paused = False\<rparr>
         else mget (reservations (w_admission w)) j)" for j
      using admitted ra by auto
    note hv = hook_view_create[of X req ?m]
    show ?thesis
    proof (cases rule: CreateWithID_cases[of X req ?m])
      case f: (failed e m')
      then have "create X r w = ((500, ErrorResponse ''create_failed'' (error_text e)),
          w\<lparr>w_mgr := m', w_admission := Release a ?k\<rparr>)"
        using out admitted ra w1 by auto
      moreover have "mget (reservations (Release a ?k)) = mget (reservations (w_admission w))"
        using a admitted(1) by auto
      ultimately show ?thesis using failed f hv by auto
    next
      case (existing sess img)
      with none show ?thesis by simp
    next
      case (created sess vm m' img)
      then have "create X r w = (created_reply sess, w\<lparr>w_mgr := m', w_admission := a\<rparr>)"
        using out admitted ra w1 by auto
      moreover have "Get j (m_store m') = (if j = ?k then Some sess else Get j (m_store ?m))" for j
        using created by (simp add: Get_def)
      ultimately show ?thesis
        using that(4)[where req = req and s = sess and m' = m' and a = a] a created q hv W(1)
        by (simp add: live_def shape_def created_as_def create_conflict_def)
    qed
  qed
qed

lemma create_inv:
  assumes w: "worker_inv w" and retry: "retry_ok X r w"
  shows "worker_inv (snd (create X r w))"
proof -
  have W: "store_inv (m_store (w_mgr w))" "onState_set (w_mgr w)" "\<And>j. agree_at j (m_store (w_mgr w)) (w_admission w)"
    using w by (simp_all add: worker_inv_def)
  from w retry show ?thesis
  proof (cases rule: create_cases)
    case (created req s m' a)
    have "agree_at j (m_store m') a" for j
      using W(3)[of j] created by (simp add: agree_at_def reserved_as_def)
    with created W show ?thesis by (auto intro!: worker_invI simp: hook_view_def)
  qed (use W in \<open>auto intro!: worker_invI simp: agree_at_def hook_view_def\<close>)
qed

lemma capacity_inv: "worker_inv w \<Longrightarrow> worker_inv (snd (capacity w))"
proof -
  have "reservations (snd (Capacity_of a)) = reservations a" for a
    by (auto simp: Capacity_of_def capacityLocked_def Let_def split: option.split)
  then show "worker_inv w \<Longrightarrow> worker_inv (snd (capacity w))"
    by (simp add: capacity_def worker_inv_def agree_at_def split_beta Let_def)
qed

lemma call_run_inv:
  assumes w: "worker_inv w" and c: "call_mgr f w = (r, w')"
    and f: "f = Exec X k cmd t \<or> f = Execute X k cmd l t"
  shows "worker_inv w'"
proof -
  have W: "store_inv (m_store (w_mgr w))" "onState_set (w_mgr w)" using w by (simp_all add: worker_inv_def)
  have "reports k (w_mgr w) (snd (f (w_mgr w)))" "writes_only k (w_mgr w) (snd (f (w_mgr w)))"
    using f run_reports[OF W] run_in_session_only[OF W(1)] by (auto simp: Exec_def Execute_def)
  from call_reports(1)[OF w c this] show ?thesis .
qed

lemma sandboxOp_dispatch:
  obtains "snd (sandboxOp X r w) = w"
    | k c l t where "snd (sandboxOp X r w) = snd (call_mgr (Execute X k c l t) w)"
    | k c t where "snd (sandboxOp X r w) = snd (call_mgr (Exec X k c t) w)"
    | k where "sandboxOp X r w = do_pause X k w" | k where "sandboxOp X r w = do_resume X k w"
    | k where "sandboxOp X r w = do_destroy X k w"
proof -
  let ?rest = "drop (length RouteSandboxPrefix) (hq_Path r)"
  obtain ident oper where p: "(case str_cut ?rest slash of None \<Rightarrow> (?rest, []) | Some p \<Rightarrow> p) = (ident, oper)" by fastforce
  show thesis
  proof (cases "ident = []")
    case True
    with p that(1) show thesis by (simp add: sandboxOp_def Let_def)
  next
    case False
    note op = sandboxOp_def[of X r w, unfolded Let_def p prod.case, simplified False if_False]
    consider "oper = ''run'' \<and> hq_Method r = ''POST''" | "oper = ''exec'' \<and> hq_Method r = ''POST''"
      | "\<not> (oper = ''run'' \<and> hq_Method r = ''POST'')" "\<not> (oper = ''exec'' \<and> hq_Method r = ''POST'')" by blast
    then show thesis
    proof cases
      case 1
      show thesis
      proof (cases "hq_Run r")
        case (Inl e)
        with op 1 that(1) show thesis by simp
      next
        case (Inr q)
        with op 1 show thesis by (intro that(2)[of ident "run_Code q" "run_Language q" "run_TimeoutS q"]) (simp add: split_beta)
      qed
    next
      case 2
      show thesis
      proof (cases "hq_Exec r")
        case (Inl e)
        with op 2 that(1) show thesis by simp
      next
        case (Inr q)
        with op 2 show thesis by (intro that(3)[of ident "ex_Command q" "ex_TimeoutS q"]) (simp add: split_beta)
      qed
    next
      case 3
      then show thesis using op that(1,4-6) by (simp split: if_split_asm)
    qed
  qed
qed

lemma sandboxOp_inv:
  assumes "worker_inv w" "hook_accepts X"
  shows "worker_inv (snd (sandboxOp X r w))"
proof -
  have run: "worker_inv (snd (call_mgr (Execute X k c l t) w))" "worker_inv (snd (call_mgr (Exec X k c t) w))" for k c l t
    using call_run_inv[OF assms(1), of "Execute X k c l t"] call_run_inv[OF assms(1), of "Exec X k c t"] by (metis prod.collapse)+
  show ?thesis
    by (rule sandboxOp_dispatch[of X r w])
      (simp_all add: assms run do_pause_inv do_resume_inv do_destroy_inv)
qed

lemma serve_inv:
  assumes "worker_inv w" "hook_accepts X" "retry_ok X r w"
  shows "worker_inv (snd (serve X r w))"
  using assms capacity_inv create_inv sandboxOp_inv by (simp add: serve_def authed_def)

primrec serve_all :: "mgr_env \<Rightarrow> http_request list \<Rightarrow> Worker \<Rightarrow> Worker" where
  "serve_all X [] w = w"
| "serve_all X (r # rs) w = serve_all X rs (snd (serve X r w))"

primrec retries_ok :: "mgr_env \<Rightarrow> http_request list \<Rightarrow> Worker \<Rightarrow> bool" where
  "retries_ok X [] w = True"
| "retries_ok X (r # rs) w = (retry_ok X r w \<and> retries_ok X rs (snd (serve X r w)))"

lemma serve_all_inv:
  assumes "worker_inv w" "hook_accepts X" "retries_ok X rs w"
  shows "worker_inv (serve_all X rs w)"
  using assms by (induction rs arbitrary: w) (simp_all add: serve_inv)

lemma fold_restore_get:
  "distinct (map s_ID ss) \<Longrightarrow>
   mget (reservations (foldl (\<lambda>b s. Restore b (s_ID s) (s_VCPUs s) (s_MemoryMB s) (s_DiskGB s) (s_State s = StatePaused)) a ss)) k
     = (case find (\<lambda>s. s_ID s = k) ss of
          Some s \<Rightarrow> Some \<lparr>rv_vcpus = s_VCPUs s, rv_memoryMB = s_MemoryMB s, rv_diskGB = s_DiskGB s, rv_paused = (s_State s = StatePaused)\<rparr>
        | None \<Rightarrow> mget (reservations a) k)"
proof (induction ss arbitrary: a)
  case (Cons s ss)
  have "find (\<lambda>x. s_ID x = s_ID s) ss = None" using Cons.prems by (simp add: find_None_iff) (metis image_eqI)
  with Cons show ?case by (auto simp: Restore_def split: option.split)
qed simp

text \<open>A worker that restarts takes back the reservations of the sessions it recovered.\<close>

lemma restored_inv:
  assumes "store_inv (m_store m)" "onState_set m" "list_all live (All (m_store m))" "reservations a = []"
  shows "worker_inv (NewServerWithAdmission m token (restore_reservations m a))"
proof -
  let ?ss = "All (m_store m)"
  have d: "distinct (map fst (sessions (m_store m)))" using assms(1) by (simp add: store_inv_def mwf_def)
  have "s_ID v = k" if "(k, v) \<in> set (sessions (m_store m))" for k v
    using assms(1) that d by (auto simp: store_inv_def map_of_eq_Some_iff)
  then have ids: "map s_ID ?ss = map fst (sessions (m_store m))" by (auto simp: All_def)
  have "map_of xs k = find (\<lambda>s. s_ID s = k) (map snd xs)" if "map s_ID (map snd xs) = map fst xs"
    for xs :: "(string \<times> Session) list" and k
    using that by (induction xs) auto
  then have g: "Get k (m_store m) = find (\<lambda>s. s_ID s = k) ?ss" for k
    using ids by (simp add: Get_def All_def)
  have l: "live s" if "Get k (m_store m) = Some s" for k s
    using that assms(3) unfolding g by (auto simp: find_Some_iff list_all_length)
  have "agree_at k (m_store m) (restore_reservations m a)" for k
    using fold_restore_get[of ?ss a k] ids d g[of k] l[of k] assms(4)
    by (auto simp: agree_at_def restore_reservations_def reserved_as_def shape_def split: option.split)
  with assms show ?thesis by (simp add: worker_inv_def NewServerWithAdmission_def)
qed

text \<open>
  A create that repeats the shape of a stored sandbox with another configuration is
  refused, and takes the reservation of the sandbox away while it lives on.
\<close>

lemma conflicting_create:
  assumes "worker_inv w" "\<not> retry_ok X r w"
  obtains c b where "create X r w = ((c, b), w)" "c \<noteq> 201"
  | req b where "hq_Create r = Inr req" "create X r w = ((500, b), w\<lparr>w_admission := Release (w_admission w) (SandboxID req)\<rparr>)"
proof (cases "hq_Method r \<noteq> ''POST'' \<or> w_draining w \<or> (\<exists>q. hq_Create r = Inr q \<and> SandboxID q = [])")
  case True
  then have "\<exists>c b. create X r w = ((c, b), w) \<and> c \<noteq> 201" by (auto simp: create_def split: sum.split)
  then show ?thesis using that(1) by blast
next
  case False
  from assms(2) obtain req s where q: "hq_Create r = Inr req" "Get (SandboxID req) (m_store (w_mgr w)) = Some s"
    "shape s = (cr_VCPUs req, cr_MemoryMB req, cr_DiskGB req)"
    by (auto simp: retry_ok_def split: sum.splits option.splits)
  obtain rv where rv: "mget (reservations (w_admission w)) (SandboxID req) = Some rv" "reserved_as s rv"
    using assms(1) q(2) agree_stored by (fastforce simp: worker_inv_def)
  have res: "ReserveCreate (w_admission w) req = (None, w_admission w)"
    using rv q(3) by (auto simp: ReserveCreate_def reserved_as_def shape_def)
  obtain e where c: "CreateWithID X req (w_mgr w) = (Inl e, w_mgr w)"
    using assms(2) q
    by (cases "me_uuid_Parse X (SandboxID req)"; cases "Normalize (cr_Image req)") (simp_all add: CreateWithID_def retry_ok_def)
  have "call_mgr (CreateWithID X req) w = (Inl e, w)" using c by (simp add: call_mgr_def)
  then have "create X r w = ((500, ErrorResponse ''create_failed'' (error_text e)),
      w\<lparr>w_admission := Release (w_admission w) (SandboxID req)\<rparr>)"
    using False q(1) res by (simp add: create_def)
  then show ?thesis using that(2) q(1) by blast
qed

text \<open>
  C33: A create is all or nothing. Replied 201, the sandbox is stored under the requested id
  and its reservation has the requested shape; with any other reply no session was added or
  changed and every reservation is what it was, with one exception: a create for a stored sandbox that repeats its
  shape but not the rest of its configuration is refused and takes that one sandbox its reservation.
\<close>

theorem create_is_atomic:
  assumes w: "worker_inv w" and c: "create X r w = ((status, body), w')"
  shows "if status = 201
     then \<exists>req sess. hq_Create r = Inr req \<and> Get (SandboxID req) (m_store (w_mgr w')) = Some sess
       \<and> shape sess = (cr_VCPUs req, cr_MemoryMB req, cr_DiskGB req)
       \<and> map_option (\<lambda>v. (rv_vcpus v, rv_memoryMB v, rv_diskGB v)) (mget (reservations (w_admission w')) (SandboxID req))
           = Some (shape sess)
     else m_store (w_mgr w') = m_store (w_mgr w)
       \<and> (mget (reservations (w_admission w')) = mget (reservations (w_admission w))
          \<or> (\<exists>req. hq_Create r = Inr req \<and> \<not> retry_ok X r w
               \<and> mget (reservations (w_admission w')) = (mget (reservations (w_admission w)))(SandboxID req := None)))"
proof (cases "retry_ok X r w")
  case retry: True
  have g: "map_option (\<lambda>v. (rv_vcpus v, rv_memoryMB v, rv_diskGB v)) (mget (reservations (w_admission w)) k) = Some (shape s)"
    if "Get k (m_store (w_mgr w)) = Some s" for k s
    using w that agree_stored[of k "m_store (w_mgr w)" "w_admission w" s] by (auto simp: worker_inv_def reserved_as_def)
  from w retry show ?thesis
  proof (cases rule: create_cases)
    case (existing req s)
    with c g[OF existing(3)] show ?thesis by (auto simp: created_reply_def)
  next
    case (created req s m' a)
    with c show ?thesis by (auto simp: created_reply_def)
  qed (use c in auto)
next
  case False
  from w False show ?thesis
  proof (cases rule: conflicting_create)
    case (2 req b)
    have "mget (reservations (Release a k)) = (mget (reservations a))(k := None)" for a k by (auto simp: Release_def fun_eq_iff)
    with 2 c False show ?thesis by auto
  qed (use c in auto)
qed

text \<open>
  A command run in a paused sandbox brings its CPUs back into use without asking admission
  control: whatever capacity is left, the reserved CPUs grow by the sandbox's.
\<close>

theorem exec_bypasses_admission:
  assumes w: "worker_inv w" and wf: "mwf (reservations (w_admission w))"
    and s: "Get k (m_store (w_mgr w)) = Some s" "s_State s = StatePaused"
    and e: "call_mgr (Exec X k cmd t) w = (Inr res, w')"
  shows "msum active_vcpus (reservations (w_admission w'))
     = msum active_vcpus (reservations (w_admission w)) + s_VCPUs s"
proof -
  have W: "store_inv (m_store (w_mgr w))" "onState_set (w_mgr w)" using w by (simp_all add: worker_inv_def)
  let ?m = "w_mgr w" and ?m' = "w_mgr w'"
  have m': "?m' = snd (Exec X k cmd t ?m)" "fst (Exec X k cmd t ?m) = Inr res" using call_mgr_frame[OF e] by simp_all
  have "reports k ?m ?m'" using run_reports[OF W] m' by (simp add: Exec_def)
  then obtain s' where s': "Get k (m_store ?m') = Some s'"
      "m_events ?m' = m_events ?m \<and> s_State s' = s_State s \<or> m_events ?m' = m_events ?m @ [(k, state_name (s_State s'))]"
    using s by (auto simp: reports_def)
  have "s_State s' = StateActive"
  proof -
    obtain x m1 where x: "Resume X k ?m = (x, m1)" by fastforce
    have e': "Exec X k cmd t ?m = (Inr res, ?m')" using m' by (metis prod.collapse)
    then have "x = None" using x s by (cases x) (simp_all add: Exec_def run_in_session_def ensureActive_def)
    with x e' have r: "Resume X k ?m = (None, m1)" "Exec X k cmd t ?m = (Inr res, ?m')" by simp_all
    from Resume_none[OF W(1) r(1)] obtain s1 where s1: "Get k (m_store m1) = Some s1" "s_State s1 = StateActive" by blast
    have k: "s_ID s1 = k"
      using Get_ID[OF writes_only_inv[OF Resume_only[OF W(1), of k X, unfolded r snd_conv] W(1)] s1(1)] s by simp
    then have "\<exists>s''. Get k (m_store (snd (Exec X k cmd t ?m))) = Some s'' \<and> s_State s'' = StateActive"
      using r(1) s s1 by (simp add: Exec_def run_in_session_def ensureActive_def Let_def split: option.split sum.split)
    with s'(1) m'(1) show ?thesis by auto
  qed
  with s' s(2) have "m_events ?m' = m_events ?m @ [(k, ''active'')]" by (auto simp: state_name_def)
  then have "w_admission w' = MarkActive (w_admission w) k"
    using call_mgr_reservations[OF e] m' by (simp add: onState_admission_def)
  moreover obtain rv where "mget (reservations (w_admission w)) k = Some rv" "reserved_as s rv"
    using w s agree_stored by (fastforce simp: worker_inv_def)
  ultimately show ?thesis
    using wf s(2) by (simp add: MarkActive_def msum_mput active_vcpus_def reserved_as_def shape_def)
qed

section \<open>Concrete runs\<close>

definition sample_http :: "string \<Rightarrow> string \<Rightarrow> http_request" where
  "sample_http meth p = \<lparr>hq_Method = meth, hq_Path = p, hq_Token = ''t'', hq_Create = Inr sample_create,
     hq_Run = Inl (ErrNew ''EOF''), hq_Exec = Inr \<lparr>ex_Command = ''ls'', ex_TimeoutS = 0\<rparr>\<rparr>"

definition small_admission :: Admission where
  "small_admission = \<lparr>allocatableVCPUs = 1, allocatableMemoryMB = 512, allocatableDiskGB = 90,
     maxSandboxes = 3, reservations = [], diskCapacity = None\<rparr>"

definition sample_worker :: Worker where
  "sample_worker = NewServerWithAdmission sample_manager ''t'' small_admission"

text \<open>A full worker: one sandbox runs, another is paused.\<close>

definition full_manager :: Manager where
  "full_manager = paused_manager\<lparr>m_store := \<lparr>sessions = [(''sb1'', sample_session),
     (''sb2'', running_session\<lparr>s_ID := ''sb2''\<rparr>)], max_sessions = 4\<rparr>\<rparr>"

definition full_worker :: Worker where
  "full_worker = NewServerWithAdmission full_manager ''t'' (restore_reservations full_manager
     (NewAdmission 1 512 90 3 1 1))"

lemma sample_worker_inv: "worker_inv sample_worker"
  by (auto simp: sample_worker_def NewServerWithAdmission_def worker_inv_def small_admission_def
      sample_manager_def NewStore_def store_inv_def mwf_def agree_at_def Get_def)

lemma full_manager_facts:
  "store_inv (m_store full_manager)" "onState_set full_manager" "list_all live (All (m_store full_manager))"
  "Get ''sb1'' (m_store full_manager) = Some sample_session"
proof -
  have s: "s_ID sample_session = ''sb1''" "live sample_session" "live (running_session\<lparr>s_ID := ''sb2''\<rparr>)" by code_simp+
  show "store_inv (m_store full_manager)"
    by (simp add: full_manager_def store_inv_def mwf_def s)
  show "onState_set full_manager" by (simp add: full_manager_def paused_manager_def sample_manager_def)
  show "list_all live (All (m_store full_manager))" by (simp add: full_manager_def All_def s)
  show "Get ''sb1'' (m_store full_manager) = Some sample_session" by (simp add: full_manager_def Get_def)
qed

theorem create_is_atomic_witness:
  "Get ''sb1'' (m_store (w_mgr (snd (create sample_mgr_env (sample_http ''POST'' ''/worker/sandbox'') sample_worker)))) \<noteq> None"
proof -
  let ?r = "sample_http ''POST'' ''/worker/sandbox''"
  obtain c b w' where c: "create sample_mgr_env ?r sample_worker = ((c, b), w')" by (metis prod.collapse)
  note A = create_is_atomic[OF sample_worker_inv c]
  have "fst (fst (create sample_mgr_env ?r sample_worker)) = 201" by code_simp
  with c A show ?thesis by (auto simp: sample_http_def sample_create_def)
qed

theorem exec_bypasses_admission_witness:
  "fst (ReserveResume (w_admission full_worker) ''sb1'') = Some (Sentinel PlaneErrNoCapacity)
   \<and> msum active_vcpus (reservations (w_admission
         (snd (call_mgr (Exec sample_mgr_env ''sb1'' ''ls'' 0) full_worker)))) = 2"
proof -
  obtain r w' where c: "call_mgr (Exec sample_mgr_env ''sb1'' ''ls'' 0) full_worker = (r, w')" by fastforce
  have "\<not> isl (fst (call_mgr (Exec sample_mgr_env ''sb1'' ''ls'' 0) full_worker))" by code_simp
  with c obtain res where r: "call_mgr (Exec sample_mgr_env ''sb1'' ''ls'' 0) full_worker = (Inr res, w')"
    by (cases r) auto
  have inv: "worker_inv full_worker"
    unfolding full_worker_def
    by (rule restored_inv[OF full_manager_facts(1-3)]) (simp add: NewAdmission_def Let_def)
  have wf: "mwf (reservations (w_admission full_worker))" by code_simp
  have s: "w_mgr full_worker = full_manager" by (simp add: full_worker_def NewServerWithAdmission_def)
  have p: "s_State sample_session = StatePaused" "s_VCPUs sample_session = 1" by code_simp+
  have v: "msum active_vcpus (reservations (w_admission full_worker)) = 1" by code_simp
  have f: "fst (ReserveResume (w_admission full_worker) ''sb1'') = Some (Sentinel PlaneErrNoCapacity)" by code_simp
  have "msum active_vcpus (reservations (w_admission w')) = 1 + 1"
    using exec_bypasses_admission[OF inv wf _ p(1) r] full_manager_facts(4) s p v by simp
  with r f show ?thesis by simp
qed

end
