(* ===== verification/Metering.thy ===== *)
theory Metering
  imports Placement Session_Safety
begin

text \<open>
  The way of a usage sample: the batching reporter of a worker
  (\<open>backend/internal/metering/reporter.go\<close>), the HTTP hop
  (\<open>backend/internal/metering/client.go\<close>, \<open>metering.go\<close>) and the upsert into \<open>usage_meters\<close>
  (\<open>AccrueUsageMeters\<close> of \<open>backend/internal/platform/sandbox.go\<close>). Buckets are instants, as
  \<open>time.Parse\<close> reads them; amounts are rationals where the code has \<open>float64\<close>. The network is an
  argument: a request may be lost, delivered, or delivered with its answer lost.
\<close>

section \<open>Samples and the ledger\<close>

record Sample =
  sm_WorkerID :: string
  sm_SandboxID :: string
  sm_Bucket :: int
  sm_VCPUSeconds :: rat
  sm_RAMGBSeconds :: rat
  sm_DiskGBSeconds :: rat

record usage =
  u_vcpu :: rat
  u_ram :: rat
  u_disk :: rat

type_synonym ledger = "(string \<times> int, usage) gomap"

definition usage_of :: "Sample \<Rightarrow> usage" where
  "usage_of s = \<lparr>u_vcpu = sm_VCPUSeconds s, u_ram = sm_RAMGBSeconds s, u_disk = sm_DiskGBSeconds s\<rparr>"

definition greatest :: "usage \<Rightarrow> usage \<Rightarrow> usage" where
  "greatest a b = \<lparr>u_vcpu = max (u_vcpu a) (u_vcpu b), u_ram = max (u_ram a) (u_ram b),
     u_disk = max (u_disk a) (u_disk b)\<rparr>"

text \<open>The \<open>INSERT ... SELECT ... ON CONFLICT DO UPDATE\<close> of one sample: no row unless the worker owns the sandbox.\<close>

definition owns :: "db \<Rightarrow> Sample \<Rightarrow> bool" where
  "owns d s \<longleftrightarrow> (case mget (sandboxes d) (sm_SandboxID s) of
     None \<Rightarrow> False | Some row \<Rightarrow> sb_host_id row = Some (sm_WorkerID s))"

definition upsert :: "db \<Rightarrow> Sample \<Rightarrow> ledger \<Rightarrow> ledger" where
  "upsert d s L =
     (if \<not> owns d s then L
      else let key = (sm_SandboxID s, sm_Bucket s) in
           mput key (case mget L key of None \<Rightarrow> usage_of s | Some u \<Rightarrow> greatest u (usage_of s)) L)"

definition accrue_all :: "db \<Rightarrow> Sample list \<Rightarrow> ledger \<Rightarrow> ledger" where
  "accrue_all d samples L = foldl (\<lambda>l s. upsert d s l) L samples"

text \<open>The transaction: \<open>flt\<close> gives the error of the begin, of the commit, or of the sample with that number.\<close>

datatype accrue_stmt = TxBegin | TxSample nat | TxCommit

definition AccrueUsageMeters ::
    "(accrue_stmt \<Rightarrow> go_error option) \<Rightarrow> db \<Rightarrow> Sample list \<Rightarrow> ledger \<Rightarrow> go_error option \<times> ledger" where
  "AccrueUsageMeters flt d samples L =
     (case flt TxBegin of
        Some e \<Rightarrow> (Some (Wrapf ''begin usage meter batch'' e), L)
      | None \<Rightarrow>
          (case List.find (\<lambda>i. flt (TxSample i) \<noteq> None) [0..<length samples] of
             Some i \<Rightarrow> (Some (Wrapf (''accrue usage meter for sandbox '' @ sm_SandboxID (samples ! i))
                          (the (flt (TxSample i)))), L)
           | None \<Rightarrow>
               (case flt TxCommit of
                  Some e \<Rightarrow> (Some (Wrapf ''commit usage meter batch'' e), L)
                | None \<Rightarrow> (None, accrue_all d samples L))))"

section \<open>The endpoint\<close>

definition validBearer :: "string \<Rightarrow> string \<Rightarrow> bool" where
  "validBearer header token \<longleftrightarrow>
     has_prefix header ''Bearer ''
     \<and> (let provided = trim_space (drop (length ''Bearer '') header)
        in length provided = length token \<and> provided = token)"

definition validate :: "Sample \<Rightarrow> go_error option" where
  "validate s =
     (if trim_space (sm_WorkerID s) = [] \<or> trim_space (sm_SandboxID s) = []
      then Some (ErrNew ''worker_id and sandbox_id are required'')
      else if sm_Bucket s mod minute \<noteq> 0
      then Some (ErrNew ''bucket must be a UTC RFC3339 minute boundary'')
      else if sm_VCPUSeconds s < 0 \<or> sm_RAMGBSeconds s < 0 \<or> sm_DiskGBSeconds s < 0
      then Some (ErrNew ''usage values cannot be negative'')
      else None)"

text \<open>A request, its body decoded; \<^term>\<open>None\<close> when the body is not one JSON batch of the accepted size.\<close>

record meter_request =
  mr_Method :: string
  mr_Authorization :: string
  mr_Batch :: "Sample list option"

definition Handler ::
    "(accrue_stmt \<Rightarrow> go_error option) \<Rightarrow> db \<Rightarrow> string \<Rightarrow> meter_request \<Rightarrow> ledger \<Rightarrow> nat \<times> ledger" where
  "Handler flt d token r L =
     (if mr_Method r \<noteq> ''POST'' then (405, L)
      else if token = [] \<or> \<not> validBearer (mr_Authorization r) token then (401, L)
      else case mr_Batch r of
             None \<Rightarrow> (400, L)
           | Some samples \<Rightarrow>
               if samples = [] \<or> length samples > 1000 then (400, L)
               else if list_ex (\<lambda>s. validate s \<noteq> None) samples then (400, L)
               else (case AccrueUsageMeters flt d samples L of
                       (Some e, L') \<Rightarrow> (500, L')
                     | (None, L') \<Rightarrow> (204, L')))"

section \<open>Client and reporter\<close>

text \<open>
  What the requests meet, by their number: the sandboxes of the control plane's database at that moment, a lost request, a lost answer, failing
  statements.
\<close>

record meter_env =
  mt_db :: "nat \<Rightarrow> db"
  mt_token :: string
  mt_client_token :: string
  mt_lost :: "nat \<Rightarrow> go_error option"
  mt_answer :: "nat \<Rightarrow> go_error option"
  mt_tx :: "nat \<Rightarrow> accrue_stmt \<Rightarrow> go_error option"

text \<open>Worker side and control plane side together: the queue of the reporter and the ledger.\<close>

record Reporter =
  rep_workerID :: string
  rep_pending :: "Sample list"
  rep_ledger :: ledger
  rep_tick :: nat

definition maxBatchSize :: nat where
  "maxBatchSize = 500"

definition Submit :: "meter_env \<Rightarrow> Sample list \<Rightarrow> Reporter \<Rightarrow> go_error option \<times> Reporter" where
  "Submit M samples r =
     (let n = rep_tick r; r1 = r\<lparr>rep_tick := Suc n\<rparr> in
      case mt_lost M n of
        Some e \<Rightarrow> (Some (Wrapf ''submit usage batch'' e), r1)
      | None \<Rightarrow>
          let (status, L) = Handler (mt_tx M n) (mt_db M n) (mt_token M)
                \<lparr>mr_Method = ''POST'', mr_Authorization = ''Bearer '' @ trim_space (mt_client_token M),
                 mr_Batch = Some samples\<rparr> (rep_ledger r);
              r2 = r1\<lparr>rep_ledger := L\<rparr> in
          (case mt_answer M n of
             Some e \<Rightarrow> (Some (Wrapf ''submit usage batch'' e), r2)
           | None \<Rightarrow>
               (if status = 204 then None
                else Some (ErrNew (''submit usage batch: status '' @ nat_digits status)), r2)))"

definition flush :: "meter_env \<Rightarrow> Reporter \<Rightarrow> go_error option \<times> Reporter" where
  "flush M r =
     (if rep_pending r = [] then (None, r)
      else let n = min (length (rep_pending r)) maxBatchSize;
               (err, r1) = Submit M (take n (rep_pending r)) r in
           case err of
             Some e \<Rightarrow> (Some e, r1)
           | None \<Rightarrow> (None, r1\<lparr>rep_pending := drop n (rep_pending r)\<rparr>))"

lemma Submit_pending [simp]: "rep_pending (snd (Submit M xs r)) = rep_pending r"
  by (auto simp: Submit_def Let_def split: option.splits prod.splits)

lemma flush_ok_shrinks:
  assumes "flush M r = (None, r1)" and "rep_pending r \<noteq> []"
  shows "length (rep_pending r1) < length (rep_pending r)"
  using assms by (auto simp: flush_def Let_def maxBatchSize_def split: prod.splits option.splits)

function flushAll :: "meter_env \<Rightarrow> Reporter \<Rightarrow> go_error option \<times> Reporter" where
  "flushAll M r =
     (if rep_pending r = [] then (None, r)
      else case flush M r of
             (Some e, r1) \<Rightarrow> (Some e, r1)
           | (None, r1) \<Rightarrow> flushAll M r1)"
  by pat_completeness auto
termination
  by (relation "measure (\<lambda>(M, r). length (rep_pending r))") (auto dest: flush_ok_shrinks[OF sym])

declare flushAll.simps [simp del]

text \<open>The shutdown loop retries a failed batch for ever; \<open>fuel\<close> counts its iterations.\<close>

primrec flushUntilEmpty :: "nat \<Rightarrow> meter_env \<Rightarrow> Reporter \<Rightarrow> Reporter option" where
  "flushUntilEmpty 0 M r = (if rep_pending r = [] then Some r else None)"
| "flushUntilEmpty (Suc n) M r =
     (if rep_pending r = [] then Some r else flushUntilEmpty n M (snd (flush M r)))"

definition Record :: "Sample \<Rightarrow> Reporter \<Rightarrow> Sample" where
  "Record s r = s\<lparr>sm_WorkerID := rep_workerID r\<rparr>"

text \<open>One iteration of \<open>run\<close>: a sample or a flush command from the queue, or the ticker.\<close>

datatype rep_event = REvSample Sample | REvFlush | REvTick

fun run_step :: "meter_env \<Rightarrow> rep_event \<Rightarrow> Reporter \<Rightarrow> Reporter" where
  "run_step M (REvSample s) r =
     (let r1 = r\<lparr>rep_pending := rep_pending r @ [Record s r]\<rparr>
      in if length (rep_pending r1) \<ge> maxBatchSize then snd (flush M r1) else r1)"
| "run_step M REvFlush r = snd (flushAll M r)"
| "run_step M REvTick r = snd (flush M r)"

section \<open>The ledger is a set of samples\<close>

definition entry :: "db \<Rightarrow> string \<times> int \<Rightarrow> Sample \<Rightarrow> bool" where
  "entry d k s \<longleftrightarrow> owns d s \<and> (sm_SandboxID s, sm_Bucket s) = k"

definition merge :: "Sample \<Rightarrow> usage option \<Rightarrow> usage option" where
  "merge s u = Some (case u of None \<Rightarrow> usage_of s | Some v \<Rightarrow> greatest v (usage_of s))"

lemma greatest_laws:
  "greatest a a = a" "greatest (greatest a b) b = greatest a b"
  "greatest a b = greatest b a" "greatest (greatest a b) c = greatest (greatest a c) b"
  by (simp_all add: greatest_def max.commute max.left_commute max.assoc)

interpretation usage: comp_fun_idem merge
  by unfold_locales
    (auto simp: merge_def fun_eq_iff greatest_laws(1,2) intro: greatest_laws(3,4) split: option.split)

lemma upsert_get: "mget (upsert d s L) k = (if entry d k s then merge s (mget L k) else mget L k)"
  by (auto simp: upsert_def entry_def merge_def Let_def)

lemma accrue_get: "mget (accrue_all d xs L) k = fold merge (filter (entry d k) xs) (mget L k)"
  by (induction xs arbitrary: L) (simp_all add: accrue_all_def upsert_get)

text \<open>Recording samples whose worker owns their sandbox; a sample that arrives again makes no difference.\<close>

definition record_sample :: "Sample \<Rightarrow> ledger \<Rightarrow> ledger" where
  "record_sample s L =
     (let key = (sm_SandboxID s, sm_Bucket s)
      in mput key (case mget L key of None \<Rightarrow> usage_of s | Some u \<Rightarrow> greatest u (usage_of s)) L)"

definition record_all :: "Sample list \<Rightarrow> ledger \<Rightarrow> ledger" where
  "record_all samples L = foldl (\<lambda>l s. record_sample s l) L samples"

lemma record_get: "mget (record_all xs L) k = fold merge (filter (\<lambda>s. (sm_SandboxID s, sm_Bucket s) = k) xs) (mget L k)"
  by (induction xs arbitrary: L) (simp_all add: record_all_def record_sample_def merge_def Let_def)

lemma record_set:
  assumes "set xs = set ys"
  shows "mget (record_all xs L) k = mget (record_all ys L) k"
proof -
  have "set (filter (\<lambda>s. (sm_SandboxID s, sm_Bucket s) = k) xs) = set (filter (\<lambda>s. (sm_SandboxID s, sm_Bucket s) = k) ys)" using assms by auto
  then show ?thesis by (simp add: record_get flip: usage.fold_set_fold)
qed

lemma accrue_owned: "accrue_all d xs L = record_all (filter (owns d) xs) L"
  by (induction xs arbitrary: L) (simp_all add: accrue_all_def record_all_def upsert_def record_sample_def Let_def)

lemma record_append: "record_all (xs @ ys) L = record_all ys (record_all xs L)"
  by (simp add: record_all_def)

lemma accrue_append: "accrue_all d (xs @ ys) L = accrue_all d ys (accrue_all d xs L)"
  by (simp add: accrue_all_def)

definition ledger_of :: "ledger \<Rightarrow> Sample list \<Rightarrow> ledger \<Rightarrow> bool" where
  "ledger_of L0 D L \<longleftrightarrow> mget L = mget (record_all D L0)"

lemma ledger_of_more:
  assumes "ledger_of L0 D L"
  shows "ledger_of L0 (D @ filter (owns d) xs) (accrue_all d xs L)"
  using assms by (auto simp: ledger_of_def accrue_owned record_append fun_eq_iff record_get[where L = L]
      record_get[where L = "record_all D L0"])

section \<open>Delivery\<close>

lemma Accrue_effect:
  assumes "AccrueUsageMeters flt d xs L = (err, L')"
  shows "if err = None then L' = accrue_all d xs L else L' = L"
  using assms by (auto simp: AccrueUsageMeters_def split: option.splits)

lemma Handler_effect:
  assumes "Handler flt d token r L = (status, L')"
  obtains "L' = L" "status \<noteq> 204"
  | xs where "mr_Batch r = Some xs" "L' = accrue_all d xs L" "status = 204"
proof (cases "status = 204")
  case True
  then obtain xs where "mr_Batch r = Some xs" "AccrueUsageMeters flt d xs L = (None, L')"
    using assms by (auto simp: Handler_def split: if_splits option.splits prod.splits)
  with Accrue_effect True that(2) show ?thesis by fastforce
next
  case False
  then have "L' = L"
    using assms by (auto simp: Handler_def split: if_splits option.splits prod.splits dest: Accrue_effect)
  with False that(1) show ?thesis by blast
qed

lemma Submit_effect:
  assumes "Submit M xs r = (err, r1)"
  shows "rep_ledger r1 = rep_ledger r \<and> err \<noteq> None \<or> rep_ledger r1 = accrue_all (mt_db M (rep_tick r)) xs (rep_ledger r)"
    and "rep_pending r1 = rep_pending r" and "rep_workerID r1 = rep_workerID r" and "rep_tick r1 = Suc (rep_tick r)"
proof -
  let ?rq = "\<lparr>mr_Method = ''POST'', mr_Authorization = ''Bearer '' @ trim_space (mt_client_token M),
      mr_Batch = Some xs\<rparr>"
  obtain status L where h: "Handler (mt_tx M (rep_tick r)) (mt_db M (rep_tick r)) (mt_token M) ?rq (rep_ledger r) = (status, L)"
    by fastforce
  show "rep_ledger r1 = rep_ledger r \<and> err \<noteq> None \<or> rep_ledger r1 = accrue_all (mt_db M (rep_tick r)) xs (rep_ledger r)"
    using assms h by (cases rule: Handler_effect[OF h]) (auto simp: Submit_def Let_def split: option.splits)
  show "rep_pending r1 = rep_pending r" "rep_workerID r1 = rep_workerID r" "rep_tick r1 = Suc (rep_tick r)"
    using assms by (auto simp: Submit_def Let_def split: option.splits prod.splits)
qed

text \<open>
  Everything recorded before the queue has reached the ledger, unless its sandbox was not its worker's when it arrived; what else has
  reached the ledger is in the queue and will be sent again.
\<close>

definition disowned :: "meter_env \<Rightarrow> nat \<Rightarrow> nat \<Rightarrow> Sample \<Rightarrow> bool" where
  "disowned M from till s \<longleftrightarrow> list_ex (\<lambda>n. \<not> owns (mt_db M n) s) [from..<till]"

definition rep_inv :: "meter_env \<Rightarrow> nat \<Rightarrow> ledger \<Rightarrow> Sample list \<Rightarrow> Reporter \<Rightarrow> bool" where
  "rep_inv M t0 L0 recorded r \<longleftrightarrow> t0 \<le> rep_tick r \<and>
     (\<exists>sent D. recorded = sent @ rep_pending r \<and> (\<forall>s \<in> set sent. s \<in> set D \<or> disowned M t0 (rep_tick r) s) \<and> set D \<subseteq> set recorded
        \<and> ledger_of L0 D (rep_ledger r))"

lemma disowned_mono: "disowned M t0 n s \<Longrightarrow> n \<le> n' \<Longrightarrow> disowned M t0 n' s"
  by (auto simp: disowned_def list_ex_iff)

lemma rep_invI:
  "t0 \<le> rep_tick r \<Longrightarrow> rec = sent @ rep_pending r \<Longrightarrow> (\<And>s. s \<in> set sent \<Longrightarrow> s \<in> set D \<or> disowned M t0 (rep_tick r) s) \<Longrightarrow> set D \<subseteq> set rec
     \<Longrightarrow> ledger_of L0 D (rep_ledger r) \<Longrightarrow> rep_inv M t0 L0 rec r"
  unfolding rep_inv_def by blast

lemma flush_inv:
  assumes "rep_inv M t0 L0 rec r"
  shows "rep_inv M t0 L0 rec (snd (flush M r))" and "rep_workerID (snd (flush M r)) = rep_workerID r"
proof -
  obtain sent D where I: "rec = sent @ rep_pending r" "\<And>s. s \<in> set sent \<Longrightarrow> s \<in> set D \<or> disowned M t0 (rep_tick r) s" "set D \<subseteq> set rec"
    "ledger_of L0 D (rep_ledger r)" and t0: "t0 \<le> rep_tick r" using assms unfolding rep_inv_def by blast
  let ?n = "min (length (rep_pending r)) maxBatchSize"
  let ?b = "take ?n (rep_pending r)" and ?d = "mt_db M (rep_tick r)"
  obtain err r1 where s: "Submit M ?b r = (err, r1)" by fastforce
  note S = Submit_effect[OF s]
  have b: "set ?b \<subseteq> set rec" using I(1) by (auto dest: in_set_takeD)
  have t1: "t0 \<le> rep_tick r1" and old: "\<And>s. s \<in> set sent \<Longrightarrow> s \<in> set D \<or> disowned M t0 (rep_tick r1) s"
    using I(2) disowned_mono[of M t0 "rep_tick r" _ "rep_tick r1"] S(4) t0 by auto
  have new: "s \<in> set (filter (owns ?d) ?b) \<or> disowned M t0 (rep_tick r1) s" if "s \<in> set ?b" for s
    using that t0 S(4) by (auto simp: disowned_def)
  show "rep_workerID (snd (flush M r)) = rep_workerID r"
    using s S(3) by (auto simp: flush_def Let_def split: option.split)
  show "rep_inv M t0 L0 rec (snd (flush M r))"
  proof (cases "rep_pending r = []")
    case True
    with assms show ?thesis by (simp add: flush_def)
  next
    case some: False
    show ?thesis
    proof (cases "rep_ledger r1 = rep_ledger r \<and> err \<noteq> None")
      case True
      with some s have f: "snd (flush M r) = r1" by (auto simp: flush_def Let_def)
      show ?thesis unfolding f by (rule rep_invI[where sent = sent and D = D]) (use I t1 old S(2) True in auto)
    next
      case False
      with S(1) have L: "ledger_of L0 (D @ filter (owns ?d) ?b) (rep_ledger r1)"
        using ledger_of_more[OF I(4), of ?d ?b] by auto
      have sub: "set (D @ filter (owns ?d) ?b) \<subseteq> set rec" using I(3) b by auto
      show ?thesis
      proof (cases err)
        case None
        with some s have f: "snd (flush M r) = r1\<lparr>rep_pending := drop ?n (rep_pending r)\<rparr>"
          by (simp add: flush_def Let_def)
        show ?thesis unfolding f
          by (rule rep_invI[where sent = "sent @ ?b" and D = "D @ filter (owns ?d) ?b"]) (use I(1) L sub t1 old new in auto)
      next
        case (Some e)
        with some s have f: "snd (flush M r) = r1" by (simp add: flush_def Let_def)
        show ?thesis unfolding f
          by (rule rep_invI[where sent = sent and D = "D @ filter (owns ?d) ?b"]) (use I(1) L sub t1 old S(2) in auto)
      qed
    qed
  qed
qed

lemma flushAll_inv:
  "rep_inv M t0 L0 rec r \<Longrightarrow> rep_inv M t0 L0 rec (snd (flushAll M r)) \<and> rep_workerID (snd (flushAll M r)) = rep_workerID r"
proof (induction M r rule: flushAll.induct)
  case (1 M r)
  show ?case
  proof (cases "rep_pending r = []")
    case False
    obtain err r1 where f: "flush M r = (err, r1)" by fastforce
    note F = flush_inv[OF "1.prems", unfolded f snd_conv]
    show ?thesis
      using "1.IH"[OF False f[symmetric]] F f False by (cases err) (simp_all add: flushAll.simps[of M r])
  qed (use "1.prems" in \<open>simp add: flushAll.simps\<close>)
qed

fun recorded :: "string \<Rightarrow> rep_event list \<Rightarrow> Sample list" where
  "recorded w [] = []"
| "recorded w (REvSample s # es) = s\<lparr>sm_WorkerID := w\<rparr> # recorded w es"
| "recorded w (e # es) = recorded w es"

lemma rep_inv_record:
  "rep_inv M t0 L0 rec r \<Longrightarrow> rep_inv M t0 L0 (rec @ [s]) (r\<lparr>rep_pending := rep_pending r @ [s]\<rparr>)"
  by (auto simp: rep_inv_def)

lemma run_step_inv:
  assumes "rep_inv M t0 L0 rec r"
  shows "rep_inv M t0 L0 (rec @ recorded (rep_workerID r) [e]) (run_step M e r)
    \<and> rep_workerID (run_step M e r) = rep_workerID r"
proof (cases e)
  case (REvSample s)
  note I = rep_inv_record[OF assms, of "Record s r"]
  show ?thesis using REvSample I flush_inv[OF I] by (simp add: Let_def Record_def)
qed (use flush_inv[OF assms] flushAll_inv[OF assms] in simp_all)

lemma recorded_append: "recorded w (xs @ ys) = recorded w xs @ recorded w ys"
  by (induction w xs rule: recorded.induct) simp_all

lemma run_inv:
  assumes "rep_pending r0 = []"
  shows "rep_inv M (rep_tick r0) (rep_ledger r0) (recorded (rep_workerID r0) es) (foldl (\<lambda>r e. run_step M e r) r0 es)
    \<and> rep_workerID (foldl (\<lambda>r e. run_step M e r) r0 es) = rep_workerID r0"
proof (induction es rule: rev_induct)
  case Nil
  have "ledger_of (rep_ledger r0) [] (rep_ledger r0)" by (simp add: ledger_of_def record_all_def)
  then show ?case using assms by (auto simp: rep_inv_def)
next
  case (snoc e es)
  then show ?case using run_step_inv by (fastforce simp: recorded_append)
qed

text \<open>
  C29: No usage is lost on the way and none is counted twice. After any sequence of recorded samples,
  flushes and ticks, over a network that loses requests or answers and a database that aborts
  batches at will and whose sandboxes change from request to request: the unsent samples are the most recent ones in order; the ledger
  is what recording some of the recorded samples once each gives; and every sample that is neither in the ledger nor unsent belongs to a sandbox that
  was not its worker's at one of the requests (the database drops such a sample). So when the queue is
  empty and the sandboxes of the recorded samples were the worker's at every request, the ledger has for every sandbox and minute exactly what
  recording each sample once would have given.
\<close>

theorem usage_delivery_is_exact:
  assumes "rep_pending r0 = []" and "r = foldl (\<lambda>r e. run_step M e r) r0 es" and rec: "rec = recorded (rep_workerID r0) es"
  shows "(\<exists>sent D. rec = sent @ rep_pending r \<and> set D \<subseteq> set rec \<and> mget (rep_ledger r) = mget (record_all D (rep_ledger r0))
           \<and> (\<forall>s \<in> set sent. s \<in> set D \<or> disowned M (rep_tick r0) (rep_tick r) s))
    \<and> (rep_pending r = [] \<and> (\<forall>s \<in> set rec. \<not> disowned M (rep_tick r0) (rep_tick r) s) \<longrightarrow>
        mget (rep_ledger r) = mget (record_all rec (rep_ledger r0)))"
proof -
  obtain sent D where I: "rec = sent @ rep_pending r" "\<forall>s \<in> set sent. s \<in> set D \<or> disowned M (rep_tick r0) (rep_tick r) s" "set D \<subseteq> set rec"
    "mget (rep_ledger r) = mget (record_all D (rep_ledger r0))"
    using run_inv[OF assms(1), of M es] assms(2) rec by (auto simp: rep_inv_def ledger_of_def)
  have "mget (rep_ledger r) = mget (record_all rec (rep_ledger r0))"
    if "rep_pending r = []" "\<forall>s \<in> set rec. \<not> disowned M (rep_tick r0) (rep_tick r) s"
  proof -
    have "set D = set rec" using I that by auto
    then show ?thesis using trans[OF I(4) ext] record_set by blast
  qed
  with I show ?thesis by blast
qed

section \<open>Shutdown\<close>

definition network_up :: "meter_env \<Rightarrow> nat \<Rightarrow> bool" where
  "network_up M n \<longleftrightarrow> mt_lost M n = None \<and> mt_answer M n = None
     \<and> (\<forall>x. mt_tx M n x = None)"

lemma Submit_up:
  assumes "network_up M (rep_tick r)" and "mt_token M \<noteq> []" and "mt_token M = trim_space (mt_client_token M)"
    and "xs \<noteq> []" and "length xs \<le> 1000" and "list_all (\<lambda>s. validate s = None) xs"
  shows "fst (Submit M xs r) = None"
proof -
  have "validBearer (''Bearer '' @ trim_space (mt_client_token M)) (mt_token M)"
    using assms(3) by (simp add: validBearer_def has_prefix_def)
  moreover have "\<not> list_ex (\<lambda>s. validate s \<noteq> None) xs"
    using assms(6) by (simp add: list_ex_iff list_all_iff)
  moreover have "AccrueUsageMeters (mt_tx M (rep_tick r)) d xs L = (None, accrue_all d xs L)" for d L
    using assms(1) by (simp add: AccrueUsageMeters_def network_up_def find_None_iff split: option.split)
  ultimately show ?thesis
    using assms(1,2,4,5) by (simp add: Submit_def Handler_def network_up_def Let_def)
qed

lemma flush_tick: "rep_pending r \<noteq> [] \<Longrightarrow> rep_tick (snd (flush M r)) = Suc (rep_tick r)"
  by (auto simp: flush_def Submit_def Let_def split: option.splits prod.splits)

lemma flush_pending: "\<exists>n. rep_pending (snd (flush M r)) = drop n (rep_pending r)"
proof -
  let ?n = "min (length (rep_pending r)) maxBatchSize"
  have "rep_pending (snd (flush M r)) \<in> {drop 0 (rep_pending r), drop ?n (rep_pending r)}"
    by (auto simp: flush_def Let_def split: option.splits prod.splits dest: Submit_effect(2))
  then show ?thesis by blast
qed

text \<open>
  C40: The reporter's shutdown ends. When requests get through from some moment on and the queued
  samples are well formed, the loop that retries until the queue is empty does become empty, after
  no more iterations than there are failing attempts left plus samples queued.
\<close>

theorem shutdown_drains_the_queue:
  assumes "\<forall>n \<ge> N. network_up M n" and "mt_token M \<noteq> []" and "mt_token M = trim_space (mt_client_token M)"
    and "list_all (\<lambda>s. validate s = None) (rep_pending r)"
    and "N - rep_tick r + length (rep_pending r) \<le> fuel"
  shows "\<exists>r'. flushUntilEmpty fuel M r = Some r' \<and> rep_pending r' = []"
  using assms(4,5)
proof (induction fuel arbitrary: r)
  case (Suc fuel)
  show ?case
  proof (cases "rep_pending r = []")
    case some: False
    let ?r1 = "snd (flush M r)"
    obtain n where n: "rep_pending ?r1 = drop n (rep_pending r)" using flush_pending by blast
    have valid: "list_all (\<lambda>s. validate s = None) (rep_pending ?r1)"
      using Suc.prems(1) by (auto simp: n list_all_iff dest: in_set_dropD)
    have le: "length (rep_pending ?r1) \<le> length (rep_pending r)" by (simp add: n)
    have "N - rep_tick ?r1 + length (rep_pending ?r1) \<le> fuel"
    proof (cases "rep_tick r < N")
      case True
      with le flush_tick[OF some, of M] Suc.prems(2) show ?thesis by simp
    next
      case False
      let ?b = "take (min (length (rep_pending r)) maxBatchSize) (rep_pending r)"
      have "fst (Submit M ?b r) = None"
        by (rule Submit_up) (use assms(1-3) some False Suc.prems(1) in
            \<open>auto simp: maxBatchSize_def list_all_iff dest: in_set_takeD\<close>)
      then have "fst (flush M r) = None"
        using some by (auto simp: flush_def Let_def split: prod.split)
      then have "length (rep_pending ?r1) < length (rep_pending r)"
        using flush_ok_shrinks[of M r ?r1] some by (metis prod.collapse)
      with False flush_tick[OF some, of M] Suc.prems(2) show ?thesis by simp
    qed
    from Suc.IH[OF valid this] some show ?thesis by simp
  qed simp
qed simp

section \<open>Exactness of the meter\<close>

text \<open>The hook of the worker's \<open>main\<close>, and the samples a worker records for its sessions.\<close>

definition onMeter :: "MeterSample \<Rightarrow> Sample" where
  "onMeter s = \<lparr>sm_WorkerID = [], sm_SandboxID = ms_SandboxID s, sm_Bucket = ms_Bucket s,
     sm_VCPUSeconds = VCPUSeconds s, sm_RAMGBSeconds = RAMGBSeconds s, sm_DiskGBSeconds = DiskGBSeconds s\<rparr>"

definition reported :: "string \<Rightarrow> MeterSample list \<Rightarrow> Sample list" where
  "reported w ss = map (\<lambda>s. (onMeter s)\<lparr>sm_WorkerID := w\<rparr>) ss"

definition billed :: "(usage \<Rightarrow> rat) \<Rightarrow> ledger \<Rightarrow> string \<Rightarrow> rat" where
  "billed f L k = (\<Sum>b \<in> {b. mget L (k, b) \<noteq> None}. f (the (mget L (k, b))))"

definition seconds :: "int \<Rightarrow> rat" where
  "seconds t = of_int t / of_int second"

text \<open>Time between the readings of the meter during which the session ran.\<close>

fun active_time :: "int \<Rightarrow> (SessionState \<times> int) list \<Rightarrow> int" where
  "active_time t0 [] = 0"
| "active_time t0 ((st, t) # evs) = (if st = StateActive then t - t0 else 0) + active_time t evs"

definition meter_run :: "Session \<Rightarrow> (SessionState \<times> int) list \<Rightarrow> Manager \<Rightarrow> Manager" where
  "meter_run sess evs m = foldl (\<lambda>g (st, t). meterSession sess st t g) m evs"

lemma billed_ext: "mget L = mget L' \<Longrightarrow> billed f L k = billed f L' k"
  by (simp add: billed_def)

lemma finite_buckets: "finite {b. mget (L :: ledger) (k, b) \<noteq> None}"
proof (rule finite_subset)
  show "{b. mget L (k, b) \<noteq> None} \<subseteq> snd ` dom (mget L)" by force
qed (simp add: finite_dom_map_of)

lemma billed_put:
  assumes "\<And>j. mget L' j = (if j = (k, b) then Some u else mget L j)"
  shows "billed f L' k = billed f L k - (case mget L (k, b) of None \<Rightarrow> 0 | Some v \<Rightarrow> f v) + f u"
proof -
  let ?B = "{c. mget L (k, c) \<noteq> None}"
  have "{c. mget L' (k, c) \<noteq> None} = insert b ?B" using assms by auto
  then have "billed f L' k = f u + (\<Sum>c \<in> ?B - {b}. f (the (mget L' (k, c))))"
    using finite_buckets[of L k] by (simp add: billed_def sum.insert_remove assms)
  also have "(\<Sum>c \<in> ?B - {b}. f (the (mget L' (k, c)))) = (\<Sum>c \<in> ?B - {b}. f (the (mget L (k, c))))"
    by (rule sum.cong) (simp_all add: assms)
  also have "\<dots> = billed f L k - (case mget L (k, b) of None \<Rightarrow> 0 | Some v \<Rightarrow> f v)"
    using finite_buckets[of L k] by (auto simp: billed_def sum_diff1 split: option.split)
  finally show ?thesis by simp
qed

text \<open>The ledger kept up to date with a session's samples, against the time metered so far.\<close>

definition meter_inv ::
    "db \<Rightarrow> string \<Rightarrow> Session \<Rightarrow> int \<Rightarrow> int \<Rightarrow> int \<Rightarrow> Manager \<Rightarrow> bool" where
  "meter_inv d w sess t0 t a m \<longleftrightarrow>
     (let L = accrue_all d (reported w (m_samples m)) []; k = s_ID sess in
      onMeter_set m \<and> mget (meterLast m) k = Some t
      \<and> billed u_disk L k = of_int (s_DiskGB sess) * seconds (t - t0)
      \<and> billed u_vcpu L k = of_int (s_VCPUs sess) * seconds a
      \<and> billed u_ram L k = of_int (s_MemoryMB sess) / 1024 * seconds a
      \<and> (case mget (meterTotals m) k of
           None \<Rightarrow> \<forall>b. mget L (k, b) = None
         | Some s \<Rightarrow> ms_SandboxID s = k \<and> ms_Bucket s \<le> t - t mod minute
             \<and> mget L (k, ms_Bucket s) = Some \<lparr>u_vcpu = VCPUSeconds s, u_ram = RAMGBSeconds s, u_disk = DiskGBSeconds s\<rparr>
             \<and> (\<forall>b > ms_Bucket s. mget L (k, b) = None)))"

lemma minute_floor_mono: "t \<le> t' \<Longrightarrow> t - t mod minute \<le> t' - t' mod minute"
  using zdiv_mono1[of t t' minute] by (simp add: minus_mod_eq_mult_div minute_def second_def)

lemma seconds_add: "seconds (s + t) = seconds s + seconds t"
  by (simp add: seconds_def add_divide_distrib)

lemma seconds_pos: "0 < seconds t \<longleftrightarrow> 0 < t"
  by (simp add: seconds_def second_def)

definition usage_sample :: "MeterSample \<Rightarrow> usage" where
  "usage_sample s = \<lparr>u_vcpu = VCPUSeconds s, u_ram = RAMGBSeconds s, u_disk = DiskGBSeconds s\<rparr>"

definition meter_total :: "Session \<Rightarrow> SessionState \<Rightarrow> int \<Rightarrow> int \<Rightarrow> MeterSample option \<Rightarrow> MeterSample" where
  "meter_total sess st t t' tot =
     (let b = t' - t' mod minute; e = seconds (t' - t); a = (if st = StateActive then e else 0);
          s0 = (case tot of Some s \<Rightarrow> if ms_Bucket s = b then s else
                   \<lparr>ms_UserID = s_UserID sess, ms_SandboxID = s_ID sess, ms_BillingModel = s_BillingModel sess,
                    ms_Bucket = b, VCPUSeconds = 0, RAMGBSeconds = 0, DiskGBSeconds = 0\<rparr>
                | None \<Rightarrow> \<lparr>ms_UserID = s_UserID sess, ms_SandboxID = s_ID sess, ms_BillingModel = s_BillingModel sess,
                    ms_Bucket = b, VCPUSeconds = 0, RAMGBSeconds = 0, DiskGBSeconds = 0\<rparr>)
      in s0\<lparr>DiskGBSeconds := DiskGBSeconds s0 + of_int (s_DiskGB sess) * e,
            VCPUSeconds := VCPUSeconds s0 + of_int (s_VCPUs sess) * a,
            RAMGBSeconds := RAMGBSeconds s0 + of_int (s_MemoryMB sess) / 1024 * a\<rparr>)"

lemma meterSession_reading:
  assumes "onMeter_set m" "s_UserID sess \<noteq> []" "mget (meterLast m) (s_ID sess) = Some t" "t < t'"
  shows "meterSession sess st t' m =
    (let T = meter_total sess st t t' (mget (meterTotals m) (s_ID sess)) in
     m\<lparr>meterLast := mput (s_ID sess) t' (meterLast m), meterTotals := mput (s_ID sess) T (meterTotals m),
       m_samples := m_samples m @ [T]\<rparr>)"
proof -
  have e: "of_int (t' - t) / (of_int second :: rat) = seconds (t' - t)" by (simp add: seconds_def)
  have "\<not> seconds (t' - t) \<le> 0" using seconds_pos[of "t' - t"] assms(4) by simp
  then show ?thesis
    using assms(1-3) by (simp add: meterSession_def e meter_total_def Let_def del: of_int_diff split: option.split)
qed

lemma meterSession_again:
  assumes "onMeter_set m" "s_UserID sess \<noteq> []" "mget (meterLast m) (s_ID sess) = Some t"
  shows "meterSession sess st t m = m\<lparr>meterLast := mput (s_ID sess) t (meterLast m)\<rparr>"
  using assms by (simp add: meterSession_def Let_def)

lemma accrue_reported:
  assumes "mget (sandboxes d) (ms_SandboxID T) = Some row" "sb_host_id row = Some w"
  shows "mget (accrue_all d (reported w (ss @ [T])) []) j =
    (if j = (ms_SandboxID T, ms_Bucket T)
     then Some (case mget (accrue_all d (reported w ss) []) j of None \<Rightarrow> usage_sample T
                | Some u \<Rightarrow> greatest u (usage_sample T))
     else mget (accrue_all d (reported w ss) []) j)"
  using assms
  by (auto simp: reported_def accrue_append accrue_all_def[of d "[_]"] upsert_get entry_def merge_def
      owns_def onMeter_def usage_of_def usage_sample_def split: option.split)

definition metered_shape :: "Session \<Rightarrow> bool" where
  "metered_shape sess \<longleftrightarrow> s_UserID sess \<noteq> [] \<and> 0 \<le> s_VCPUs sess \<and> 0 \<le> s_MemoryMB sess \<and> 0 \<le> s_DiskGB sess"

lemma meter_step:
  assumes inv: "meter_inv d w sess t0 t a m" and shape: "metered_shape sess"
    and own: "mget (sandboxes d) (s_ID sess) = Some row" "sb_host_id row = Some w" and le: "t \<le> t'"
  shows "meter_inv d w sess t0 t' (a + (if st = StateActive then t' - t else 0)) (meterSession sess st t' m)"
proof (cases "t = t'")
  case True
  with inv shape show ?thesis
    by (simp add: meter_inv_def Let_def meterSession_again metered_shape_def split: option.splits)
next
  case False
  with le have lt: "t < t'" by simp
  let ?k = "s_ID sess" and ?L = "accrue_all d (reported w (m_samples m)) []" and ?b = "t' - t' mod minute"
  let ?e = "seconds (t' - t)"
  let ?a = "if st = StateActive then ?e else 0"
  define T where "T = meter_total sess st t t' (mget (meterTotals m) ?k)"
  let ?L' = "accrue_all d (reported w (m_samples m @ [T])) []"
  note I = inv[unfolded meter_inv_def Let_def]
  have run: "meterSession sess st t' m = m\<lparr>meterLast := mput ?k t' (meterLast m),
      meterTotals := mput ?k T (meterTotals m), m_samples := m_samples m @ [T]\<rparr>"
    using meterSession_reading[of m sess t t' st] I shape lt by (simp add: T_def metered_shape_def Let_def)
  have pos: "0 < ?e" using seconds_pos lt by simp
  have floor: "t - t mod minute \<le> ?b" using minute_floor_mono[OF le] by simp
  have T: "ms_SandboxID T = ?k" "ms_Bucket T = ?b"
    using I by (auto simp: T_def meter_total_def Let_def split: option.splits)
  obtain old where old: "mget ?L (?k, ?b) = old"
    and step: "u_disk (usage_sample T) = (case old of None \<Rightarrow> 0 | Some u \<Rightarrow> u_disk u) + of_int (s_DiskGB sess) * ?e"
      "u_vcpu (usage_sample T) = (case old of None \<Rightarrow> 0 | Some u \<Rightarrow> u_vcpu u) + of_int (s_VCPUs sess) * ?a"
      "u_ram (usage_sample T) = (case old of None \<Rightarrow> 0 | Some u \<Rightarrow> u_ram u) + of_int (s_MemoryMB sess) / 1024 * ?a"
  proof (cases "\<exists>s. mget (meterTotals m) ?k = Some s \<and> ms_Bucket s = ?b")
    case True
    then obtain s where s: "mget (meterTotals m) ?k = Some s" "ms_Bucket s = ?b" by blast
    then have "mget ?L (?k, ?b) = Some (usage_sample s)" using I by (simp add: usage_sample_def)
    with that[of "Some (usage_sample s)"] s show ?thesis by (simp add: T_def meter_total_def usage_sample_def Let_def)
  next
    case False
    have "mget ?L (?k, ?b) = None"
    proof (cases "mget (meterTotals m) ?k")
      case (Some s)
      with False I floor have "ms_Bucket s < ?b" by fastforce
      with Some I show ?thesis by simp
    qed (use I in simp)
    with that[of None] False show ?thesis
      by (auto simp: T_def meter_total_def usage_sample_def Let_def split: option.splits)
  qed
  have ge: "greatest u (usage_sample T) = usage_sample T" if "old = Some u" for u
    using step that pos shape by (simp add: greatest_def metered_shape_def max_def)
  have L': "mget ?L' j = (if j = (?k, ?b) then Some (usage_sample T) else mget ?L j)" for j
    using accrue_reported[of d T row w "m_samples m" j] own T old ge by (auto split: option.split)
  note bill = billed_put[OF L', unfolded old]
  have sec: "seconds (t' - t0) = seconds (t - t0) + ?e"
    "seconds (a + (if st = StateActive then t' - t else 0)) = seconds a + ?a"
    by (simp_all flip: seconds_add)
  have "billed u_disk ?L' ?k = of_int (s_DiskGB sess) * seconds (t' - t0)"
    "billed u_vcpu ?L' ?k = of_int (s_VCPUs sess) * seconds (a + (if st = StateActive then t' - t else 0))"
    "billed u_ram ?L' ?k = of_int (s_MemoryMB sess) / 1024 * seconds (a + (if st = StateActive then t' - t else 0))"
    using I unfolding bill step sec by (simp_all add: algebra_simps split: option.split)
  moreover have "mget ?L' (?k, c) = None" if "?b < c" for c
    using that I floor by (auto simp: L' split: option.splits)
  ultimately show ?thesis
    using I by (simp add: run meter_inv_def Let_def T L' usage_sample_def)
qed

lemma meter_run_inv:
  assumes "meter_inv d w sess t0 t a m" and "metered_shape sess"
    and "mget (sandboxes d) (s_ID sess) = Some row" "sb_host_id row = Some w" and "sorted (t # map snd evs)"
  shows "meter_inv d w sess t0 (last (t # map snd evs)) (a + active_time t evs) (meter_run sess evs m)"
  using assms(1,5)
proof (induction evs arbitrary: t a m)
  case Nil
  then show ?case by (simp add: meter_run_def)
next
  case (Cons ev evs)
  obtain st t' where ev: "ev = (st, t')" by fastforce
  have "meter_inv d w sess t0 t' (a + (if st = StateActive then t' - t else 0)) (meterSession sess st t' m)"
    using meter_step[OF Cons.prems(1) assms(2-4)] Cons.prems(2) ev by simp
  from Cons.IH[OF this] Cons.prems(2) show ?case by (simp add: ev meter_run_def add.assoc)
qed

text \<open>
  C28: A sandbox is billed for exactly the time it existed. From the moment its meter starts, whatever the
  moments at which the meter is read (by the ticker, by pauses and resumes) and however they fall into
  minutes, the amounts in the control plane's ledger sum over the minutes to its disk times the whole
  time, and to its CPUs and memory times the time between readings in which it was active.
\<close>

theorem metering_is_exact:
  assumes "onMeter_set m" and "metered_shape sess" and "mget (meterLast m) (s_ID sess) = Some t0"
    and "mget (meterTotals m) (s_ID sess) = None" and "m_samples m = []"
    and "mget (sandboxes d) (s_ID sess) = Some row" and "sb_host_id row = Some w"
    and "sorted (t0 # map snd evs)"
    and "L = accrue_all d (reported w (m_samples (meter_run sess evs m))) []"
  shows "billed u_disk L (s_ID sess) = of_int (s_DiskGB sess) * seconds (last (t0 # map snd evs) - t0)
    \<and> billed u_vcpu L (s_ID sess) = of_int (s_VCPUs sess) * seconds (active_time t0 evs)
    \<and> billed u_ram L (s_ID sess) = of_int (s_MemoryMB sess) / 1024 * seconds (active_time t0 evs)"
proof -
  have "meter_inv d w sess t0 t0 0 m"
    using assms(1,3-5) by (simp add: meter_inv_def accrue_all_def reported_def billed_def seconds_def)
  from meter_run_inv[OF this assms(2,6-8)] assms(9) show ?thesis by (simp add: meter_inv_def Let_def)
qed

section \<open>Concrete runs\<close>

definition sample_meter :: Sample where
  "sample_meter = \<lparr>sm_WorkerID = [], sm_SandboxID = ''sb1'', sm_Bucket = 0, sm_VCPUSeconds = 1,
     sm_RAMGBSeconds = 0, sm_DiskGBSeconds = 2\<rparr>"

definition sample_usage_db :: db where
  "sample_usage_db = \<lparr>sandboxes = [(''sb1'', \<lparr>sb_host_id = Some ''w1'', sb_state = ''active'', sb_vcpus = 1,
       sb_memory_mb = 512, sb_disk_gb = 2, sb_image = None, sb_paused_at = None, sb_updated_at = 0\<rparr>)],
     worker_hosts = [], calls = 0\<rparr>"

text \<open>The first request is lost, the answer to the second is.\<close>

definition sample_net :: meter_env where
  "sample_net = \<lparr>mt_db = (\<lambda>n. sample_usage_db), mt_token = ''t'', mt_client_token = ''t'',
     mt_lost = (\<lambda>n. if n = 0 then Some (ErrNew ''reset'') else None),
     mt_answer = (\<lambda>n. if n = 1 then Some (ErrNew ''reset'') else None), mt_tx = (\<lambda>n x. None)\<rparr>"

definition sample_reporter :: Reporter where
  "sample_reporter = \<lparr>rep_workerID = ''w1'', rep_pending = [], rep_ledger = [], rep_tick = 0\<rparr>"

theorem usage_delivery_is_exact_witness:
  "let r = foldl (\<lambda>r e. run_step sample_net e r) sample_reporter [REvSample sample_meter, REvTick, REvTick, REvTick]
   in rep_pending r = [] \<and> mget (rep_ledger r) (''sb1'', 0) = Some (usage_of sample_meter)"
proof -
  let ?es = "[REvSample sample_meter, REvTick, REvTick, REvTick]"
  let ?r = "foldl (\<lambda>r e. run_step sample_net e r) sample_reporter ?es"
  have e: "rep_pending ?r = []" by code_simp
  have s: "rep_pending sample_reporter = []" "rep_ledger sample_reporter = []" by (simp_all add: sample_reporter_def)
  have rec: "[sample_meter\<lparr>sm_WorkerID := ''w1''\<rparr>] = recorded (rep_workerID sample_reporter) ?es" by (simp add: sample_reporter_def)
  have own: "\<not> disowned sample_net m n (sample_meter\<lparr>sm_WorkerID := ''w1''\<rparr>)" for m n
    by (simp add: disowned_def sample_net_def owns_def sample_usage_db_def sample_meter_def list_ex_iff)
  have "mget (rep_ledger ?r) = mget (record_all [sample_meter\<lparr>sm_WorkerID := ''w1''\<rparr>] (rep_ledger sample_reporter))"
    using conjunct2[OF usage_delivery_is_exact[OF s(1) refl rec, where M = sample_net]] e own by simp
  then have "mget (rep_ledger ?r) (''sb1'', 0) = Some (usage_of sample_meter)"
    by (simp add: s(2) record_all_def record_sample_def sample_meter_def usage_of_def Let_def)
  with e show ?thesis by simp
qed

theorem shutdown_drains_the_queue_witness:
  "\<exists>r'. flushUntilEmpty 3 sample_net (sample_reporter\<lparr>rep_pending := [sample_meter\<lparr>sm_WorkerID := ''w1''\<rparr>]\<rparr>) = Some r'
     \<and> rep_pending r' = []"
  by (rule shutdown_drains_the_queue[where N = 2])
    (simp_all add: network_up_def sample_net_def sample_reporter_def sample_meter_def validate_def
      trim_space_def is_space_def)

definition metered_manager :: Manager where
  "metered_manager = sample_manager\<lparr>onMeter_set := True, meterLast := [(''sb1'', 0)]\<rparr>"

theorem metering_is_exact_witness:
  "let m = meter_run running_session [(StateActive, 30 * second), (StatePaused, 90 * second)] metered_manager;
       L = accrue_all sample_usage_db (reported ''w1'' (m_samples m)) []
   in billed u_disk L ''sb1'' = 180 \<and> billed u_vcpu L ''sb1'' = 30"
proof -
  let ?evs = "[(StateActive, 30 * second), (StatePaused, 90 * second)]"
  have f: "onMeter_set metered_manager" "mget (meterLast metered_manager) (s_ID running_session) = Some 0"
    "mget (meterTotals metered_manager) (s_ID running_session) = None" "m_samples metered_manager = []"
    by (simp_all add: metered_manager_def sample_manager_def running_facts)
  have sh: "metered_shape running_session" "s_DiskGB running_session = 2" "s_VCPUs running_session = 1"
    by (simp_all add: metered_shape_def running_session_def sample_session_def toSession_def Let_def)
  obtain row where row: "mget (sandboxes sample_usage_db) (s_ID running_session) = Some row" "sb_host_id row = Some ''w1''"
    by (simp add: sample_usage_db_def running_facts)
  have so: "sorted (0 # map snd ?evs)" by (simp add: second_def)
  from metering_is_exact[OF f(1) sh(1) f(2-4) row so refl] show ?thesis
    by (simp add: sh running_facts seconds_def second_def)
qed

end
