(* ===== verification/Recovery.thy ===== *)
theory Recovery
  imports Session_Safety
begin

text \<open>
  The start of a worker process: the sessions the manifest brings back and the files the clean-up
  of orphans leaves (\<open>NewManager\<close>, \<open>recoverPaused\<close>, \<open>cleanupOrphanedDisks\<close> of
  \<open>backend/internal/session/manager.go\<close>).
\<close>

section \<open>Recovered sessions\<close>

lemma Add_ok:
  assumes "mget (sessions st) (s_ID sess) = None" "int (length (sessions st)) < max_sessions st"
  shows "Add sess st = (None, st\<lparr>sessions := mput (s_ID sess) sess (sessions st)\<rparr>)"
  using assms by (simp add: Add_def)

definition add_step :: "(Session \<Rightarrow> Session) \<Rightarrow> nat \<times> Manager \<Rightarrow> Session \<Rightarrow> nat \<times> Manager" where
  "add_step f a sess = (case Add (f sess) (m_store (snd a)) of
     (Some e, st) \<Rightarrow> a | (None, st) \<Rightarrow> (Suc (fst a), (snd a)\<lparr>m_store := st\<rparr>))"

lemma add_all:
  assumes "distinct (map s_ID ss)" and "\<And>s. s_ID (f s) = s_ID s"
    and "\<And>s. s \<in> set ss \<Longrightarrow> mget (sessions (m_store m)) (s_ID s) = None"
    and "int (length (sessions (m_store m)) + length ss) \<le> max_sessions (m_store m)"
  shows "\<exists>st. foldl (add_step f) (n, m) ss = (n + length ss, m\<lparr>m_store := st\<rparr>)
    \<and> (\<forall>s \<in> set ss. Get (s_ID s) st = Some (f s))
    \<and> (\<forall>k. k \<notin> s_ID ` set ss \<longrightarrow> Get k st = Get k (m_store m))"
  using assms(1,3,4)
proof (induction ss arbitrary: n m)
  case Nil
  show ?case by (intro exI[of _ "m_store m"]) simp
next
  case (Cons s ss)
  let ?st = "(m_store m)\<lparr>sessions := mput (s_ID s) (f s) (sessions (m_store m))\<rparr>"
  have a: "add_step f (n, m) s = (Suc n, m\<lparr>m_store := ?st\<rparr>)"
    using Add_ok[of "m_store m" "f s"] Cons.prems(2,3) assms(2) by (simp add: add_step_def)
  have len: "length (mput (s_ID s) (f s) (sessions (m_store m))) = Suc (length (sessions (m_store m)))"
    using Cons.prems(2) by (simp add: length_mput)
  have fresh: "mget (sessions (m_store (m\<lparr>m_store := ?st\<rparr>))) (s_ID x) = None" if "x \<in> set ss" for x
  proof -
    have "s_ID x \<noteq> s_ID s" using Cons.prems(1) that by (auto simp: image_iff)
    with Cons.prems(2)[of x] that show ?thesis by simp
  qed
  obtain st where st: "foldl (add_step f) (Suc n, m\<lparr>m_store := ?st\<rparr>) ss
      = (Suc n + length ss, m\<lparr>m_store := ?st\<rparr>\<lparr>m_store := st\<rparr>)"
    "\<forall>s \<in> set ss. Get (s_ID s) st = Some (f s)" "\<forall>k. k \<notin> s_ID ` set ss \<longrightarrow> Get k st = Get k ?st"
    using Cons.IH[of "m\<lparr>m_store := ?st\<rparr>" "Suc n", OF _ fresh] Cons.prems(1,3) len by auto
  have "Get (s_ID s) st = Some (f s)"
    using st(3) Cons.prems(1) by (auto simp: Get_def image_iff)
  with a st show ?case by (intro exI[of _ st]) (auto simp: Get_def)
qed

definition fill_rootfs :: "Manager \<Rightarrow> Session \<Rightarrow> Session" where
  "fill_rootfs m sess = (if s_RootfsPathAtPause sess = []
     then (case m_template m of Some t \<Rightarrow> sess\<lparr>s_RootfsPathAtPause := tp_RootfsPath t\<rparr> | None \<Rightarrow> sess) else sess)"

lemma recoverPaused_fold:
  "recoverPaused X m =
     (case readManifest (fc_fault (me_fc X) (htick (m_host m))) (files (m_host m)) (m_manifest m) of
        Inl e \<Rightarrow> m
      | Inr found \<Rightarrow> let (n, m1) = foldl (add_step (fill_rootfs m)) (0, m) found
          in if n > 0 then persistManifest X m1 else m1)"
proof -
  have step: "(\<lambda>(n, g) sess. case Add (if s_RootfsPathAtPause sess = []
        then (case m_template m of Some t \<Rightarrow> sess\<lparr>s_RootfsPathAtPause := tp_RootfsPath t\<rparr> | None \<Rightarrow> sess)
        else sess) (m_store g) of
      (Some e, st) \<Rightarrow> (n, g) | (None, st) \<Rightarrow> (Suc n, g\<lparr>m_store := st\<rparr>)) = add_step (fill_rootfs m)"
    by (auto simp: add_step_def fill_rootfs_def fun_eq_iff split: prod.split option.split)
  show ?thesis
    by (cases "readManifest (fc_fault (me_fc X) (htick (m_host m))) (files (m_host m)) (m_manifest m)")
      (simp_all add: recoverPaused_def step Let_def)
qed

text \<open>Whatever the manifest says, a recovered store is well formed and holds paused sessions only.\<close>

definition recovered_ok :: "Manager \<Rightarrow> bool" where
  "recovered_ok m \<longleftrightarrow> store_inv (m_store m) \<and> list_all (\<lambda>s. s_State s = StatePaused) (All (m_store m))"

lemma Add_recovered:
  assumes "recovered_ok m" "s_State sess = StatePaused" "Add sess (m_store m) = (r, st)"
  shows "recovered_ok (m\<lparr>m_store := st\<rparr>)"
proof -
  have "set (All st) \<subseteq> insert sess (set (All (m_store m)))"
    using assms(3) by (auto simp: Add_def All_def mput_fresh split: if_splits)
  then show ?thesis
    using assms Add_inv[of "m_store m" sess] by (auto simp: recovered_ok_def list_all_iff)
qed

lemma add_steps_recovered:
  assumes "recovered_ok (snd a)" "list_all (\<lambda>s. s_State (f s) = StatePaused) ss"
  shows "recovered_ok (snd (foldl (add_step f) a ss))"
  using assms
proof (induction ss arbitrary: a)
  case (Cons s ss)
  have "recovered_ok (snd (add_step f a s))"
    using Cons.prems Add_recovered[of "snd a" "f s"] by (auto simp: add_step_def split: prod.split option.split)
  with Cons show ?case by simp
qed simp

lemma readManifest_paused:
  "readManifest flt fs man = Inr found \<Longrightarrow> list_all (\<lambda>s. s_State s = StatePaused) found"
  by (auto simp: readManifest_def toSession_def Let_def list_all_iff split: option.splits prod.splits)

lemma NewManager_recovered:
  "recovered_ok (NewManager X template cfg maxSessions pools templates onS onM manifest h)"
  "onState_set (NewManager X template cfg maxSessions pools templates onS onM manifest h) = onS"
proof -
  let ?m0 = "new_manager X template cfg maxSessions pools templates onS onM manifest h"
  have f: "s_State (fill_rootfs m s) = s_State s" for m s by (simp add: fill_rootfs_def split: option.split)
  have a: "onState_set (snd (foldl (add_step g) b ss)) = onState_set (snd b)" for g b ss
    by (induction ss arbitrary: b) (simp_all add: add_step_def split: prod.split option.split)
  have p: "recovered_ok (persistManifest X m) = recovered_ok m" "onState_set (persistManifest X m) = onState_set m" for m
    by (simp_all add: recovered_ok_def persistManifest_def Let_def split_beta)
  have c: "recovered_ok (cleanupOrphanedDisks X m) = recovered_ok m" "onState_set (cleanupOrphanedDisks X m) = onState_set m" for m
    by (simp_all add: recovered_ok_def cleanupOrphanedDisks_def Let_def)
  have "recovered_ok ?m0" "onState_set ?m0 = onS"
    by (simp_all add: recovered_ok_def new_manager_def NewStore_def store_inv_def mwf_def All_def)
  then have "recovered_ok (recoverPaused X ?m0) \<and> onState_set (recoverPaused X ?m0) = onS"
    using add_steps_recovered[of "(0, ?m0)" "fill_rootfs ?m0"] a[of "fill_rootfs ?m0" "(0, ?m0)"]
    by (auto simp: recoverPaused_fold p f Let_def split_beta dest!: readManifest_paused split: sum.split)
  moreover have "recovered_ok (m\<lparr>meterLast := ml\<rparr>) = recovered_ok m" for m ml by (simp add: recovered_ok_def)
  ultimately show "recovered_ok (NewManager X template cfg maxSessions pools templates onS onM manifest h)"
    "onState_set (NewManager X template cfg maxSessions pools templates onS onM manifest h) = onS"
    by (simp_all add: NewManager_def Let_def c)
qed

lemma recoverPaused_found:
  assumes "readManifest (fc_fault (me_fc X) (htick (m_host m))) (files (m_host m)) (m_manifest m) = Inr found"
    and "sessions (m_store m) = []" and "distinct (map s_ID found)" and "int (length found) \<le> max_sessions (m_store m)"
  shows "(\<forall>s \<in> set found. Get (s_ID s) (m_store (recoverPaused X m)) = Some (fill_rootfs m s))
    \<and> (\<forall>k. k \<notin> s_ID ` set found \<longrightarrow> Get k (m_store (recoverPaused X m)) = None)
    \<and> files (m_host (recoverPaused X m)) = files (m_host m)
    \<and> m_template (recoverPaused X m) = m_template m \<and> pauseDir (recoverPaused X m) = pauseDir m
    \<and> sizeTemplates (recoverPaused X m) = sizeTemplates m"
proof -
  have id: "s_ID (fill_rootfs m s) = s_ID s" for s by (simp add: fill_rootfs_def split: option.split)
  obtain st where st: "foldl (add_step (fill_rootfs m)) (0, m) found = (length found, m\<lparr>m_store := st\<rparr>)"
    "\<forall>s \<in> set found. Get (s_ID s) st = Some (fill_rootfs m s)" "\<forall>k. k \<notin> s_ID ` set found \<longrightarrow> Get k st = None"
    using add_all[of found "fill_rootfs m" m 0] id assms(2-4) by (auto simp: Get_def)
  have "recoverPaused X m = (if length found > 0 then persistManifest X (m\<lparr>m_store := st\<rparr>) else m\<lparr>m_store := st\<rparr>)"
    using assms(1) st(1) by (simp add: recoverPaused_fold)
  with st(2,3) show ?thesis by (auto simp: persistManifest_def Let_def split_beta)
qed

section \<open>Files that stay\<close>

lemma delete_others:
  "set (snd (disk_Delete F flt p fs)) = set fs \<or> set (snd (disk_Delete F flt p fs)) = set fs - {p}"
  by (auto simp: disk_Delete_def validateManagedPath_def fdel_def split: option.split)

lemma delete_keeps: "q \<in> set fs \<Longrightarrow> q \<noteq> p \<Longrightarrow> q \<in> set (snd (disk_Delete F flt p fs))"
  using delete_others[of F flt p fs] by auto

lemma delete_all_keeps:
  assumes "q \<in> set fs" and "List.member keep q \<or> q \<notin> set ps"
  shows "q \<in> set (foldl (\<lambda>fs p. if List.member keep p then fs else snd (disk_Delete F flt p fs)) fs ps)"
  using assms
proof (induction ps arbitrary: fs)
  case (Cons p ps)
  let ?fs = "if List.member keep p then fs else snd (disk_Delete F flt p fs)"
  have q: "q \<in> set ?fs"
  proof (cases "q = p")
    case True
    with Cons.prems show ?thesis by simp
  next
    case False
    with Cons.prems(1) delete_keeps show ?thesis by simp
  qed
  have "List.member keep q \<or> q \<notin> set ps" using Cons.prems(2) by auto
  from Cons.IH[OF q this] show ?case by simp
qed simp

lemma cleanup_keeps:
  assumes "fileExists (files (m_host m)) q"
    and "List.member (keep_disks m) q \<or> q \<notin> set (disk_List (writableDisks (me_fc X)) (files (m_host m)))"
    and "\<not> in_dir (pauseDir m) q \<or> path_dir q = pauseDir m
         \<or> (\<exists>k \<in> set (keep_pauses m). in_dir (path_join (pauseDir m) k) q)"
  shows "fileExists (files (m_host (cleanupOrphanedDisks X m))) q"
  using assms delete_all_keeps[of q "files (m_host m)" "keep_disks m"]
  by (auto simp: cleanupOrphanedDisks_def fileExists_def Let_def list_ex_iff)

lemma cleanup_store [simp]: "m_store (cleanupOrphanedDisks X m) = m_store m"
  by (simp add: cleanupOrphanedDisks_def Let_def)

definition kept_files :: "Manager \<Rightarrow> Session \<Rightarrow> bool" where
  "kept_files m sess \<longleftrightarrow> s_SnapPath sess = snap_of m (s_ID sess) \<and> s_MemPath sess = mem_of m (s_ID sess)
     \<and> \<not> in_dir (pauseDir m) (s_WritableDiskPath sess)"

lemma in_pause_dir: "in_dir (path_join (pauseDir m) k) (snap_of m k)" "in_dir (path_join (pauseDir m) k) (mem_of m k)"
  by (simp_all add: in_dir_def has_prefix_def snap_of_def mem_of_def path_join_def)

lemma not_listed:
  "snap_of m k \<notin> set (disk_List F fs)" "mem_of m k \<notin> set (disk_List F fs)"
  by (simp_all add: disk_List_def snap_of_def mem_of_def path_base_join slash_def has_prefix_def)

lemma cleanup_keeps_session:
  assumes "Get k (m_store m) = Some sess" "s_ID sess = k" "s_State sess = StatePaused"
    and "kept_files m sess" and "has_artifacts m sess"
  shows "has_artifacts (cleanupOrphanedDisks X m) sess"
proof -
  have "sess \<in> set (All (m_store m))"
    using assms(1) mget_in_set[of "sessions (m_store m)"] by (force simp: All_def Get_def)
  then have k: "s_ID sess \<in> set (keep_pauses m)"
    and d: "s_WritableDiskPath sess \<noteq> [] \<Longrightarrow> List.member (keep_disks m) (s_WritableDiskPath sess)"
    using assms(3) by (auto simp: keep_pauses_def keep_disks_def)
  have e: "fileExists (files (m_host m)) p" if "p \<in> set (artifacts sess)" for p
    using assms(5) that by (auto simp: has_artifacts_def list_all_iff)
  have "fileExists (files (m_host (cleanupOrphanedDisks X m))) p" if "p \<in> set (artifacts sess)" for p
  proof (rule cleanup_keeps[OF e[OF that]])
    show "List.member (keep_disks m) p \<or> p \<notin> set (disk_List (writableDisks (me_fc X)) (files (m_host m)))"
      using that d assms(4) e[OF that] by (auto simp: not_listed artifacts_def kept_files_def fileExists_def)
    show "\<not> in_dir (pauseDir m) p \<or> path_dir p = pauseDir m
        \<or> (\<exists>j \<in> set (keep_pauses m). in_dir (path_join (pauseDir m) j) p)"
      using that assms(2,4) k in_pause_dir[of m k] by (auto simp: artifacts_def kept_files_def)
  qed
  then show ?thesis by (simp add: has_artifacts_def list_all_iff)
qed

text \<open>
  C35: A restart loses no paused sandbox. When the previous process left the manifest of its paused
  sessions, every one of them whose snapshot, memory and disk are still on the worker is back in
  the new process as it was (run counters and time of last use aside), can be resumed from these
  files, and the clean-up of orphans has not touched them. The conditions: the manifest can be read, lists each session once and no more
  sessions than the new process may have, every session in it is at rest with an image and a billing model; and the session has its snapshot and memory where
  this worker keeps them, and its disk outside of the directory of the snapshots.
\<close>

theorem restart_keeps_paused_sessions:
  assumes "list_all (\<lambda>s. at_rest s \<and> s_Image s \<noteq> [] \<and> s_BillingModel s \<noteq> []) paused"
    and "distinct (map s_ID paused)" and "int (length paused) \<le> maxSessions"
    and "fc_fault (me_fc X) (htick h) ''read manifest'' = None"
    and "fc_fault (me_fc X) (htick h) ''unmarshal manifest'' = None"
    and "List.member paused sess" and "s_RootfsPathAtPause sess \<noteq> []"
    and "list_all (fileExists (files h)) (artifacts sess)"
    and "kept_files (new_manager X template cfg maxSessions pools templates onS onM manifest h) sess"
    and "manifest = Some (map recordFromSession paused)"
    and "m = NewManager X template cfg maxSessions pools templates onS onM manifest h"
  shows "Get (s_ID sess) (m_store m) = Some (restarted sess) \<and> resumable m (s_ID sess)"
proof -
  let ?m0 = "new_manager X template cfg maxSessions pools templates onS onM manifest h"
  let ?found = "map restarted (filter (recoverable (files h)) paused)"
  have simps0: "m_host ?m0 = h" "m_manifest ?m0 = manifest" "m_store ?m0 = NewStore maxSessions"
    by (simp_all add: new_manager_def)
  have ids: "map s_ID ?found = map s_ID (filter (recoverable (files h)) paused)"
    by (simp add: restarted_def)
  have dist: "distinct (map s_ID ?found)"
    unfolding ids using assms(2) by (simp add: distinct_map_filter)
  have len: "int (length ?found) \<le> max_sessions (m_store ?m0)"
  proof -
    have "length (filter (recoverable (files h)) paused) \<le> length paused" by (rule length_filter_le)
    then have "int (length (filter (recoverable (files h)) paused)) \<le> maxSessions" using assms(3) by linarith
    then show ?thesis by (simp add: simps0 NewStore_def)
  qed
  have read: "readManifest (fc_fault (me_fc X) (htick (m_host ?m0))) (files (m_host ?m0)) (m_manifest ?m0) = Inr ?found"
    using readManifest_recovers[OF assms(1,4,5)] assms(10) by (simp add: new_manager_def)
  define m1 where "m1 = recoverPaused X ?m0"
  note R = recoverPaused_found[OF read _ dist len, unfolded simps0, folded m1_def]
  have rec: "restarted sess \<in> set ?found"
    using assms(6,8) by (auto simp: recoverable_def artifacts_def)
  have r: "s_ID (restarted sess) = s_ID sess" "fill_rootfs ?m0 (restarted sess) = restarted sess"
    "artifacts (restarted sess) = artifacts sess" "s_State (restarted sess) = s_State sess"
    using assms(7) by (simp_all add: restarted_def fill_rootfs_def artifacts_def)
  have get: "Get (s_ID sess) (m_store m1) = Some (restarted sess)"
    using R rec r by (auto simp: NewStore_def)
  let ?m2 = "m1\<lparr>meterLast := map (\<lambda>kv. (fst kv, now X m1)) (sessions (m_store m1))\<rparr>"
  have m: "m = cleanupOrphanedDisks X ?m2" using assms(11) by (simp add: NewManager_def m1_def Let_def)
  have rest: "at_rest sess" using assms(1,6) by (auto simp: list_all_iff)
  have kept: "kept_files ?m2 (restarted sess)"
    using assms(9) R by (simp add: kept_files_def snap_of_def mem_of_def NewStore_def restarted_def)
  have art: "has_artifacts ?m2 (restarted sess)"
    using assms(8) R by (simp add: has_artifacts_def r NewStore_def)
  have "has_artifacts m (restarted sess)"
    unfolding m by (rule cleanup_keeps_session[OF _ _ _ kept art]) (use get r rest in \<open>auto simp: at_rest_def\<close>)
  moreover have "Get (s_ID sess) (m_store m) = Some (restarted sess)" using get m by simp
  ultimately show ?thesis using rest by (simp add: resumable_def at_rest_def restarted_def)
qed

definition left_session :: Session where
  "left_session = sample_session\<lparr>s_SnapPath := ''/s/pause/sb1/snap'', s_MemPath := ''/s/pause/sb1/mem''\<rparr>"

definition left_host :: Host where
  "left_host = sample_host_state\<lparr>files := [''/r'', ''/d/writable-gold.ext4'', ''/d/writable-vm0.ext4'',
     ''/d/writable-old.ext4'', ''/s/pause/sb1/snap'', ''/s/pause/sb1/mem'', ''/s/pause/sb9/snap'']\<rparr>"

theorem restart_keeps_paused_sessions_witness:
  "let m = NewManager sample_mgr_env (Some sample_template) sample_vm_config 4 [] [] True False
       (Some [recordFromSession left_session]) left_host
   in Get ''sb1'' (m_store m) = Some (restarted left_session) \<and> resumable m ''sb1''
      \<and> \<not> List.member (files (m_host m)) ''/d/writable-old.ext4''"
proof -
  let ?man = "Some (map recordFromSession [left_session])"
  let ?m = "NewManager sample_mgr_env (Some sample_template) sample_vm_config 4 [] [] True False ?man left_host"
  note defs = left_session_def sample_session_def toSession_def Let_def
  have h: "list_all (\<lambda>s. at_rest s \<and> s_Image s \<noteq> [] \<and> s_BillingModel s \<noteq> []) [left_session]"
    "distinct (map s_ID [left_session])" "int (length [left_session]) \<le> 4"
    "fc_fault (me_fc sample_mgr_env) (htick left_host) ''read manifest'' = None"
    "fc_fault (me_fc sample_mgr_env) (htick left_host) ''unmarshal manifest'' = None"
    "List.member [left_session] left_session" "s_RootfsPathAtPause left_session \<noteq> []"
    by (simp_all add: at_rest_def defs sample_mgr_env_def quiet_env_def)
  have a: "list_all (fileExists (files left_host)) (artifacts left_session)"
    by (simp add: artifacts_def left_host_def defs fileExists_def)
  have k: "kept_files (new_manager sample_mgr_env (Some sample_template) sample_vm_config 4 [] [] True False ?man left_host)
      left_session"
    by (simp add: kept_files_def snap_of_def mem_of_def new_manager_def defs sample_mgr_env_def quiet_env_def
        sample_fc_env_def path_join_def slash_def in_dir_def has_prefix_def)
  have "s_ID left_session = ''sb1''" by (simp add: defs)
  with restart_keeps_paused_sessions[OF h a k refl refl]
  have "Get ''sb1'' (m_store ?m) = Some (restarted left_session) \<and> resumable ?m ''sb1''" by simp
  moreover have "\<not> List.member (files (m_host ?m)) ''/d/writable-old.ext4''" by code_simp
  ultimately show ?thesis by simp
qed

end
