(* ===== verification/Checkpoint_Store.thy ===== *)
theory Checkpoint_Store
  imports Checkpoint Paths "HOL-Library.Word"
begin

text \<open>
  The writer and the reader of durable checkpoints (\<open>backend/internal/checkpoint/writer.go\<close>,
  \<open>reader.go\<close>). A local file is a list of cells: a byte that is allocated, or a byte of a hole, which
  reads as zero; \<open>SEEK_DATA\<close> and \<open>SEEK_HOLE\<close> are computed on it. The object store is a map from keys
  to objects; JSON documents are kept decoded, and decoding one as another type gives the common
  fields, as \<open>encoding/json\<close> does. The environment decides which call fails (by number and
  step) and whether a failed upload has stored the object nevertheless; the clock, UUIDs and SHA-256 in
  hexadecimal are arguments. Files are shorter than \<open>2 ^ 62\<close> bytes, so offsets of the writer do not
  wrap; the reader takes its numbers from the manifest and computes in 64 bits. The temporary
  files of a restore have fresh names and are removed by its deferred clean-up, so they are
  represented by their content.
\<close>

section \<open>Data\<close>

type_synonym bytes = "8 word list"
type_synonym sparse_file = "8 word option list"

record Artifact =
  af_Key :: string
  af_SizeBytes :: int
  af_SHA256 :: string

record DiskChunk =
  dc_Index :: int
  dc_Key :: string
  dc_SizeBytes :: int
  dc_SHA256 :: string

record WritableDisk =
  wd_LogicalSizeBytes :: int
  wd_ChunkSizeBytes :: int
  wd_Chunks :: "DiskChunk list"

record Manifest =
  mf_Version :: int
  mf_SandboxID :: string
  mf_Generation :: string
  mf_CreatedAt :: int
  mf_Resources :: Resources
  mf_Resume :: ResumeMetadata
  mf_Snapshot :: Artifact
  mf_Memory :: Artifact
  mf_WritableDisk :: WritableDisk

record legacyManifest =
  lm_Version :: int
  lm_SandboxID :: string
  lm_Generation :: string
  lm_Resources :: Resources
  lm_Resume :: ResumeMetadata
  lm_Snapshot :: Artifact
  lm_Memory :: Artifact
  lm_WritableDisk :: Artifact

record activePointer =
  ap_Version :: int
  ap_SandboxID :: string
  ap_Generation :: string
  ap_ManifestKey :: string
  ap_UpdatedAt :: int

datatype obj = Blob bytes | ManifestDoc Manifest | LegacyDoc legacyManifest | PointerDoc activePointer

datatype seek_mode = SeekOK | SeekUnsupported | SeekFails go_error

record ck_env =
  ck_uuid_Parse :: "string \<Rightarrow> go_error option"
  ck_uuid :: "nat \<Rightarrow> string"
  ck_now :: "nat \<Rightarrow> int"
  ck_sha256 :: "bytes \<Rightarrow> string"
  ck_marshal :: "obj \<Rightarrow> bytes"
  ck_fault :: "nat \<Rightarrow> string \<Rightarrow> go_error option"
  ck_stored :: "nat \<Rightarrow> bool"
  ck_seek :: "nat \<Rightarrow> seek_mode"

record ck_world =
  ck_objects :: "(string, obj) gomap"
  ck_files :: "(string, sparse_file) gomap"
  ck_tick :: nat

definition manifestVersion :: int where "manifestVersion = 2"
definition defaultChunkSize :: nat where "defaultChunkSize = 4 * 1024 * 1024"

record Writer =
  wr_prefix :: string
  wr_chunkSize :: nat

record Reader =
  rd_prefix :: string

section \<open>Calls of the object store\<close>

definition ck_step :: "ck_world \<Rightarrow> ck_world" where
  "ck_step w = w\<lparr>ck_tick := Suc (ck_tick w)\<rparr>"

definition ck_Put :: "ck_env \<Rightarrow> string \<Rightarrow> obj \<Rightarrow> ck_world \<Rightarrow> go_error option \<times> ck_world" where
  "ck_Put E key x w =
     (let err = ck_fault E (ck_tick w) ''put''; w1 = ck_step w;
          w2 = w1\<lparr>ck_objects := mput key x (ck_objects w1)\<rparr>
      in (err, if err = None \<or> ck_stored E (ck_tick w) then w2 else w1))"

definition ck_Get :: "ck_env \<Rightarrow> string \<Rightarrow> ck_world \<Rightarrow> (go_error + obj) \<times> ck_world" where
  "ck_Get E key w =
     (case ck_fault E (ck_tick w) ''get'' of
        Some e \<Rightarrow> (Inl e, ck_step w)
      | None \<Rightarrow> (case mget (ck_objects w) key of
                   None \<Rightarrow> (Inl (ErrNew ''object not found''), ck_step w)
                 | Some x \<Rightarrow> (Inr x, ck_step w)))"

definition ck_Stat :: "ck_env \<Rightarrow> string \<Rightarrow> ck_world \<Rightarrow> (go_error + bool) \<times> ck_world" where
  "ck_Stat E key w =
     (case ck_fault E (ck_tick w) ''stat'' of
        Some e \<Rightarrow> (Inl e, ck_step w)
      | None \<Rightarrow> (Inr (mget (ck_objects w) key \<noteq> None), ck_step w))"

text \<open>Decoding a document into a struct type: fields that are missing are zero.\<close>

definition zero_Artifact :: Artifact where
  "zero_Artifact = \<lparr>af_Key = [], af_SizeBytes = 0, af_SHA256 = []\<rparr>"

definition zero_Disk :: WritableDisk where
  "zero_Disk = \<lparr>wd_LogicalSizeBytes = 0, wd_ChunkSizeBytes = 0, wd_Chunks = []\<rparr>"

definition zero_Resources :: Resources where
  "zero_Resources = \<lparr>res_VCPUs = 0, res_MemoryMB = 0, res_DiskGB = 0\<rparr>"

definition zero_Resume :: ResumeMetadata where
  "zero_Resume = \<lparr>rm_RootfsPath = [], rm_VsockPath = [], rm_TapName = []\<rparr>"

definition not_json :: go_error where
  "not_json = ErrNew ''invalid character looking for beginning of value''"

definition decode_header :: "obj \<Rightarrow> go_error + (int \<times> string)" where
  "decode_header x =
     (case x of
        Blob b \<Rightarrow> Inl not_json
      | ManifestDoc m \<Rightarrow> Inr (mf_Version m, mf_SandboxID m)
      | LegacyDoc m \<Rightarrow> Inr (lm_Version m, lm_SandboxID m)
      | PointerDoc p \<Rightarrow> Inr (ap_Version p, ap_SandboxID p))"

definition decode_manifest :: "obj \<Rightarrow> go_error + Manifest" where
  "decode_manifest x =
     (case x of
        Blob b \<Rightarrow> Inl not_json
      | ManifestDoc m \<Rightarrow> Inr m
      | LegacyDoc m \<Rightarrow> Inr \<lparr>mf_Version = lm_Version m, mf_SandboxID = lm_SandboxID m, mf_Generation = lm_Generation m,
          mf_CreatedAt = 0, mf_Resources = lm_Resources m, mf_Resume = lm_Resume m,
          mf_Snapshot = lm_Snapshot m, mf_Memory = lm_Memory m, mf_WritableDisk = zero_Disk\<rparr>
      | PointerDoc p \<Rightarrow> Inr \<lparr>mf_Version = ap_Version p, mf_SandboxID = ap_SandboxID p, mf_Generation = ap_Generation p,
          mf_CreatedAt = 0, mf_Resources = zero_Resources, mf_Resume = zero_Resume,
          mf_Snapshot = zero_Artifact, mf_Memory = zero_Artifact, mf_WritableDisk = zero_Disk\<rparr>)"

definition decode_legacy :: "obj \<Rightarrow> go_error + legacyManifest" where
  "decode_legacy x =
     (case x of
        Blob b \<Rightarrow> Inl not_json
      | ManifestDoc m \<Rightarrow> Inr \<lparr>lm_Version = mf_Version m, lm_SandboxID = mf_SandboxID m, lm_Generation = mf_Generation m,
          lm_Resources = mf_Resources m, lm_Resume = mf_Resume m,
          lm_Snapshot = mf_Snapshot m, lm_Memory = mf_Memory m, lm_WritableDisk = zero_Artifact\<rparr>
      | LegacyDoc m \<Rightarrow> Inr m
      | PointerDoc p \<Rightarrow> Inr \<lparr>lm_Version = ap_Version p, lm_SandboxID = ap_SandboxID p, lm_Generation = ap_Generation p,
          lm_Resources = zero_Resources, lm_Resume = zero_Resume,
          lm_Snapshot = zero_Artifact, lm_Memory = zero_Artifact, lm_WritableDisk = zero_Artifact\<rparr>)"

definition decode_pointer :: "obj \<Rightarrow> go_error + activePointer" where
  "decode_pointer x =
     (case x of
        Blob b \<Rightarrow> Inl not_json
      | ManifestDoc m \<Rightarrow> Inr \<lparr>ap_Version = mf_Version m, ap_SandboxID = mf_SandboxID m,
          ap_Generation = mf_Generation m, ap_ManifestKey = [], ap_UpdatedAt = 0\<rparr>
      | LegacyDoc m \<Rightarrow> Inr \<lparr>ap_Version = lm_Version m, ap_SandboxID = lm_SandboxID m,
          ap_Generation = lm_Generation m, ap_ManifestKey = [], ap_UpdatedAt = 0\<rparr>
      | PointerDoc p \<Rightarrow> Inr p)"

section \<open>Writer\<close>

definition trim_slashes :: "string \<Rightarrow> string" where
  "trim_slashes s = rev (dropWhile (\<lambda>c. c = slash) (rev (dropWhile (\<lambda>c. c = slash) s)))"

definition clean_prefix :: "string \<Rightarrow> go_error + string" where
  "clean_prefix prefix =
     (let p = trim_slashes (path_clean prefix) in
      if p = [] \<or> p = ''.'' \<or> p = ''..'' \<or> has_prefix p ''../''
      then Inl (ErrNew (''invalid checkpoint prefix '' @ quoted p)) else Inr p)"

definition NewWriter :: "string \<Rightarrow> go_error + Writer" where
  "NewWriter prefix = map_sum id (\<lambda>p. \<lparr>wr_prefix = p, wr_chunkSize = defaultChunkSize\<rparr>) (clean_prefix prefix)"

definition NewReader :: "string \<Rightarrow> go_error + Reader" where
  "NewReader prefix = map_sum id (\<lambda>p. \<lparr>rd_prefix = p\<rparr>) (clean_prefix prefix)"

definition content :: "sparse_file \<Rightarrow> bytes" where
  "content f = map (\<lambda>c. case c of None \<Rightarrow> 0 | Some b \<Rightarrow> b) f"

definition seek_data :: "sparse_file \<Rightarrow> nat \<Rightarrow> nat" where
  "seek_data f off = off + length (takeWhile (\<lambda>c. c = None) (drop off f))"

definition seek_hole :: "sparse_file \<Rightarrow> nat \<Rightarrow> nat" where
  "seek_hole f off = off + length (takeWhile (\<lambda>c. c \<noteq> None) (drop off f))"

lemma seek_data_found: "off \<le> length f \<Longrightarrow> seek_data f off < length f \<Longrightarrow> f ! seek_data f off \<noteq> None"
  using nth_length_takeWhile[of "\<lambda>c. c = None" "drop off f"] by (simp add: seek_data_def)

lemma seek_data_ge: "off \<le> seek_data f off"
  by (simp add: seek_data_def)

lemma seek_hole_gt: "d < length f \<Longrightarrow> f ! d \<noteq> None \<Longrightarrow> d < seek_hole f d"
  by (simp add: seek_hole_def flip: Cons_nth_drop_Suc)

lemma seek_progress: "off \<le> length f \<Longrightarrow> seek_data f off < length f \<Longrightarrow> off < seek_hole f (seek_data f off)"
  using seek_hole_gt[OF _ seek_data_found] seek_data_ge[of off f] by (metis le_less_trans)

text \<open>The chunks that begin at chunk \<open>i\<close> or later and before byte \<open>h\<close>.\<close>

function chunk_run :: "nat \<Rightarrow> nat \<Rightarrow> nat \<Rightarrow> nat list" where
  "chunk_run cs i h = (if 0 < cs \<and> i * cs < h then i # chunk_run cs (Suc i) h else [])"
  by pat_completeness auto
termination
  by (relation "measure (\<lambda>(cs, i, h). h - i * cs)") (auto intro: diff_less_mono2)

declare chunk_run.simps [simp del]

text \<open>The loop over the data extents: it ends, since a hole lies after the data before it.\<close>

function data_runs :: "nat \<Rightarrow> sparse_file \<Rightarrow> nat \<Rightarrow> nat list" where
  "data_runs cs f off =
     (if off < length f
      then let d = seek_data f off in
           if d \<ge> length f then []
           else let h = min (seek_hole f d) (length f)
                in chunk_run cs (d div cs) h @ data_runs cs f h
      else [])"
  by pat_completeness auto
termination
  by (relation "measure (\<lambda>(cs, f, off). length f - off)") (auto simp: seek_progress intro!: diff_less_mono2)

declare data_runs.simps [simp del]

definition allocatedChunkIndices :: "ck_env \<Rightarrow> nat \<Rightarrow> sparse_file \<Rightarrow> nat \<Rightarrow> go_error + nat list" where
  "allocatedChunkIndices E n f cs =
     (case ck_seek E n of
        SeekOK \<Rightarrow> Inr (sort (remdups (data_runs cs f 0)))
      | SeekUnsupported \<Rightarrow> Inr (chunk_run cs 0 (length f))
      | SeekFails e \<Rightarrow> Inl e)"

definition isZero :: "bytes \<Rightarrow> bool" where
  "isZero data = list_all (\<lambda>b. b = 0) data"

definition latest_key :: "string \<Rightarrow> string \<Rightarrow> string" where
  "latest_key prefix sandboxID = path_Join [prefix, sandboxID, ''latest.json'']"

definition chunk_key :: "string \<Rightarrow> string \<Rightarrow> string \<Rightarrow> string" where
  "chunk_key prefix sandboxID digest = path_Join [prefix, sandboxID, ''disk-chunks'', digest]"

definition previousChunks :: "ck_env \<Rightarrow> Writer \<Rightarrow> string \<Rightarrow> ck_world \<Rightarrow> (int, DiskChunk) gomap \<times> ck_world" where
  "previousChunks E W sandboxID w =
     (case ck_Get E (latest_key (wr_prefix W) sandboxID) w of
        (Inl e, w1) \<Rightarrow> ([], w1)
      | (Inr x, w1) \<Rightarrow>
          (case decode_pointer x of
             Inl e \<Rightarrow> ([], w1)
           | Inr pointer \<Rightarrow>
               if ap_ManifestKey pointer = [] then ([], w1)
               else (case ck_Get E (ap_ManifestKey pointer) w1 of
                       (Inl e, w2) \<Rightarrow> ([], w2)
                     | (Inr y, w2) \<Rightarrow>
                         (case decode_manifest y of
                            Inl e \<Rightarrow> ([], w2)
                          | Inr m \<Rightarrow>
                              if mf_Version m < 2 then ([], w2)
                              else (foldl (\<lambda>r c. mput (dc_Index c) c r) [] (wd_Chunks (mf_WritableDisk m)), w2)))))"

text \<open>Where the bytes of a chunk are: in an object of the generation before, of an earlier one, or uploaded now.\<close>

definition store_chunk ::
    "ck_env \<Rightarrow> Writer \<Rightarrow> string \<Rightarrow> (int, DiskChunk) gomap \<Rightarrow> nat \<Rightarrow> bytes \<Rightarrow> ck_world
     \<Rightarrow> (go_error + string) \<times> ck_world" where
  "store_chunk E W sandboxID previous index data w =
     (let digest = ck_sha256 E data;
          key = chunk_key (wr_prefix W) sandboxID digest;
          failed = (\<lambda>what e. Inl (Wrapf (what @ '' disk chunk '' @ nat_digits index) e))
      in case mget previous (int index) of
           Some old \<Rightarrow>
             if dc_SHA256 old = digest then (Inr (dc_Key old), w)
             else (case ck_Stat E key w of
                     (Inl e, w1) \<Rightarrow> (failed ''stat'' e, w1)
                   | (Inr True, w1) \<Rightarrow> (Inr key, w1)
                   | (Inr False, w1) \<Rightarrow>
                       (case ck_Put E key (Blob data) w1 of
                          (Some e, w2) \<Rightarrow> (failed ''upload'' e, w2)
                        | (None, w2) \<Rightarrow> (Inr key, w2)))
         | None \<Rightarrow>
             (case ck_Stat E key w of
                (Inl e, w1) \<Rightarrow> (failed ''stat'' e, w1)
              | (Inr True, w1) \<Rightarrow> (Inr key, w1)
              | (Inr False, w1) \<Rightarrow>
                  (case ck_Put E key (Blob data) w1 of
                     (Some e, w2) \<Rightarrow> (failed ''upload'' e, w2)
                   | (None, w2) \<Rightarrow> (Inr key, w2))))"

definition chunk_data :: "nat \<Rightarrow> bytes \<Rightarrow> nat \<Rightarrow> bytes" where
  "chunk_data cs data index = take (min cs (length data - index * cs)) (drop (index * cs) data)"

fun put_chunks ::
    "ck_env \<Rightarrow> Writer \<Rightarrow> string \<Rightarrow> (int, DiskChunk) gomap \<Rightarrow> bytes \<Rightarrow> nat list \<Rightarrow> ck_world
     \<Rightarrow> (go_error + DiskChunk list) \<times> ck_world" where
  "put_chunks E W sandboxID previous bs [] w = (Inr [], w)"
| "put_chunks E W sandboxID previous bs (index # rest) w =
     (case ck_fault E (ck_tick w) ''context'' of
        Some e \<Rightarrow> (Inl e, w)
      | None \<Rightarrow>
      (case ck_fault E (ck_tick w) ''read'' of
        Some e \<Rightarrow> (Inl (Wrapf (''read disk chunk '' @ nat_digits index) e), w)
      | None \<Rightarrow>
          let data = chunk_data (wr_chunkSize W) bs index in
          if isZero data then put_chunks E W sandboxID previous bs rest w
          else (case store_chunk E W sandboxID previous index data w of
                  (Inl e, w1) \<Rightarrow> (Inl e, w1)
                | (Inr key, w1) \<Rightarrow>
                    (case put_chunks E W sandboxID previous bs rest w1 of
                       (Inl e, w2) \<Rightarrow> (Inl e, w2)
                     | (Inr chunks, w2) \<Rightarrow>
                         (Inr (\<lparr>dc_Index = int index, dc_Key = key, dc_SizeBytes = int (length data),
                                dc_SHA256 = ck_sha256 E data\<rparr> # chunks), w2)))))"

definition open_file :: "ck_env \<Rightarrow> ck_world \<Rightarrow> string \<Rightarrow> go_error + sparse_file" where
  "open_file E w p =
     (case ck_fault E (ck_tick w) ''open'' of
        Some e \<Rightarrow> Inl (Wrapf (''open '' @ p) e)
      | None \<Rightarrow> (case mget (ck_files w) p of
                   None \<Rightarrow> Inl (Wrapf (''open '' @ p) (ErrNew ''no such file or directory''))
                 | Some f \<Rightarrow> Inr f))"

definition putDisk :: "ck_env \<Rightarrow> Writer \<Rightarrow> string \<Rightarrow> string \<Rightarrow> ck_world \<Rightarrow> (go_error + WritableDisk) \<times> ck_world" where
  "putDisk E W sandboxID filePath w =
     (case open_file E w filePath of
        Inl e \<Rightarrow> (Inl e, w)
      | Inr f \<Rightarrow>
          if ck_fault E (ck_tick w) ''stat file'' \<noteq> None
          then (Inl (Wrapf (''stat '' @ filePath) (the (ck_fault E (ck_tick w) ''stat file''))), w)
          else if length f = 0 then (Inl (ErrNew (''writable disk '' @ filePath @ '' is empty'')), w)
          else (case allocatedChunkIndices E (ck_tick w) f (wr_chunkSize W) of
                  Inl e \<Rightarrow> (Inl (Wrapf ''scan sparse writable disk'' e), w)
                | Inr indices \<Rightarrow>
                    let (previous, w1) = previousChunks E W sandboxID w in
                    (case put_chunks E W sandboxID previous (content f) indices w1 of
                       (Inl e, w2) \<Rightarrow> (Inl e, w2)
                     | (Inr chunks, w2) \<Rightarrow>
                         (Inr \<lparr>wd_LogicalSizeBytes = int (length f), wd_ChunkSizeBytes = int (wr_chunkSize W),
                               wd_Chunks = chunks\<rparr>, w2))))"

definition putFile :: "ck_env \<Rightarrow> string \<Rightarrow> string \<Rightarrow> ck_world \<Rightarrow> (go_error + Artifact) \<times> ck_world" where
  "putFile E key filePath w =
     (case open_file E w filePath of
        Inl e \<Rightarrow> (Inl e, w)
      | Inr f \<Rightarrow>
          (case ck_Put E key (Blob (content f)) w of
             (Some e, w1) \<Rightarrow> (Inl e, w1)
           | (None, w1) \<Rightarrow> (Inr \<lparr>af_Key = key, af_SizeBytes = int (length f), af_SHA256 = ck_sha256 E (content f)\<rparr>, w1)))"

definition generation_base :: "string \<Rightarrow> string \<Rightarrow> string \<Rightarrow> string" where
  "generation_base prefix sandboxID generation = path_Join [prefix, sandboxID, ''generations'', generation]"

text \<open>The end of a save: the manifest, then the pointer to it.\<close>

definition commit_checkpoint ::
    "ck_env \<Rightarrow> Writer \<Rightarrow> Input \<Rightarrow> string \<Rightarrow> int \<Rightarrow> Artifact \<Rightarrow> Artifact \<Rightarrow> WritableDisk \<Rightarrow> ck_world
     \<Rightarrow> (go_error + string) \<times> ck_world" where
  "commit_checkpoint E W inp generation createdAt snapshot memory writable w =
     (let manifest = \<lparr>mf_Version = manifestVersion, mf_SandboxID = in_SandboxID inp, mf_Generation = generation,
            mf_CreatedAt = createdAt,
            mf_Resources = \<lparr>res_VCPUs = in_VCPUs inp, res_MemoryMB = in_MemoryMB inp, res_DiskGB = in_DiskGB inp\<rparr>,
            mf_Resume = \<lparr>rm_RootfsPath = in_RootfsPath inp, rm_VsockPath = in_VsockPath inp, rm_TapName = in_TapName inp\<rparr>,
            mf_Snapshot = snapshot, mf_Memory = memory, mf_WritableDisk = writable\<rparr>;
          base = generation_base (wr_prefix W) (in_SandboxID inp) generation;
          manifestKey = path_Join [base, ''manifest.json'']
      in case ck_Put E manifestKey (ManifestDoc manifest) w of
           (Some e, w1) \<Rightarrow> (Inl (Wrapf ''commit checkpoint manifest'' e), w1)
         | (None, w1) \<Rightarrow>
             (case ck_Put E (latest_key (wr_prefix W) (in_SandboxID inp))
                     (PointerDoc \<lparr>ap_Version = manifestVersion, ap_SandboxID = in_SandboxID inp,
                        ap_Generation = generation, ap_ManifestKey = manifestKey, ap_UpdatedAt = createdAt\<rparr>) w1 of
                (Some e, w2) \<Rightarrow> (Inl (Wrapf ''activate checkpoint'' e), w2)
              | (None, w2) \<Rightarrow> (Inr manifestKey, w2)))"

definition ck_Save :: "ck_env \<Rightarrow> Writer \<Rightarrow> Input \<Rightarrow> ck_world \<Rightarrow> (go_error + string) \<times> ck_world" where
  "ck_Save E W inp w0 =
     (case ck_uuid_Parse E (in_SandboxID inp) of
        Some e \<Rightarrow> (Inl (Wrapf (''invalid sandbox id '' @ quoted (in_SandboxID inp)) e), w0)
      | None \<Rightarrow>
          if in_SnapshotPath inp = [] \<or> in_MemoryPath inp = [] \<or> in_WritableDiskPath inp = []
          then (Inl (ErrNew ''checkpoint requires snapshot, memory and writable disk paths''), w0)
          else
            let generation = ck_uuid E (ck_tick w0);
                base = generation_base (wr_prefix W) (in_SandboxID inp) generation;
                createdAt = ck_now E (ck_tick w0);
                w = ck_step w0 in
            (case putFile E (path_Join [base, ''vmstate.snap'']) (in_SnapshotPath inp) w of
               (Inl e, w1) \<Rightarrow> (Inl (Wrapf ''upload VM state'' e), w1)
             | (Inr snapshot, w1) \<Rightarrow>
                 (case putFile E (path_Join [base, ''memory.mem'']) (in_MemoryPath inp) w1 of
                    (Inl e, w2) \<Rightarrow> (Inl (Wrapf ''upload memory'' e), w2)
                  | (Inr memory, w2) \<Rightarrow>
                      (case putDisk E W (in_SandboxID inp) (in_WritableDiskPath inp) w2 of
                         (Inl e, w3) \<Rightarrow> (Inl (Wrapf ''upload writable disk'' e), w3)
                       | (Inr writable, w3) \<Rightarrow>
                           commit_checkpoint E W inp generation createdAt snapshot memory writable w3))))"

section \<open>Reader\<close>

definition hex_char :: "char \<Rightarrow> bool" where
  "hex_char c \<longleftrightarrow> (let n = (of_char c :: nat) in 48 \<le> n \<and> n \<le> 57 \<or> 97 \<le> n \<and> n \<le> 102 \<or> 65 \<le> n \<and> n \<le> 70)"

definition validSHA256 :: "string \<Rightarrow> bool" where
  "validSHA256 v \<longleftrightarrow> length v = 64 \<and> list_all hex_char v"

definition outside_prefix :: "string \<Rightarrow> go_error" where
  "outside_prefix key = ErrNew (''object key '' @ quoted key @ '' is outside sandbox checkpoint prefix'')"

definition validateObjectKey :: "Reader \<Rightarrow> string \<Rightarrow> string \<Rightarrow> go_error option" where
  "validateObjectKey R sandboxID key =
     (let clean = path_clean key; wantPrefix = path_Join [rd_prefix R, sandboxID] @ [slash] in
      if key = [] \<or> has_prefix key [slash] \<or> clean \<noteq> key \<or> \<not> has_prefix clean wantPrefix
      then Some (outside_prefix key) else None)"

definition validateArtifact :: "Reader \<Rightarrow> string \<Rightarrow> Artifact \<Rightarrow> go_error option" where
  "validateArtifact R sandboxID artifact =
     (if af_SizeBytes artifact < 0 \<or> \<not> validSHA256 (af_SHA256 artifact)
      then Some (ErrNew (''artifact '' @ quoted (af_Key artifact) @ '' has invalid metadata''))
      else validateObjectKey R sandboxID (af_Key artifact))"

definition obj_bytes :: "ck_env \<Rightarrow> obj \<Rightarrow> bytes" where
  "obj_bytes E x = (case x of Blob b \<Rightarrow> b | _ \<Rightarrow> ck_marshal E x)"

text \<open>An object read through a limit of one byte more than expected.\<close>

definition read_limited :: "ck_env \<Rightarrow> obj \<Rightarrow> int \<Rightarrow> bytes" where
  "read_limited E x n = take (nat (wrap64 (n + 1))) (obj_bytes E x)"

definition copyVerified :: "ck_env \<Rightarrow> Artifact \<Rightarrow> ck_world \<Rightarrow> (go_error + bytes) \<times> ck_world" where
  "copyVerified E artifact w =
     (case ck_Get E (af_Key artifact) w of
        (Inl e, w1) \<Rightarrow> (Inl e, w1)
      | (Inr x, w1) \<Rightarrow>
          (case ck_fault E (ck_tick w) ''copy'' of
             Some e \<Rightarrow> (Inl e, w1)
           | None \<Rightarrow>
               let data = read_limited E x (af_SizeBytes artifact) in
               if int (length data) \<noteq> af_SizeBytes artifact \<or> ck_sha256 E data \<noteq> af_SHA256 artifact
               then (Inl (ErrNew (''artifact '' @ quoted (af_Key artifact) @ '' failed size or SHA-256 verification'')), w1)
               else (case ck_fault E (ck_tick w) ''sync'' of Some e \<Rightarrow> (Inl e, w1) | None \<Rightarrow> (Inr data, w1))))"

definition downloadArtifact ::
    "ck_env \<Rightarrow> Reader \<Rightarrow> string \<Rightarrow> Artifact \<Rightarrow> ck_world \<Rightarrow> (go_error + bytes) \<times> ck_world" where
  "downloadArtifact E R sandboxID artifact w =
     (case validateArtifact R sandboxID artifact of
        Some e \<Rightarrow> (Inl e, w)
      | None \<Rightarrow>
          (case ck_fault E (ck_tick w) ''create temp'' of
             Some e \<Rightarrow> (Inl e, w)
           | None \<Rightarrow>
               (case copyVerified E artifact w of
                  (Inl e, w1) \<Rightarrow> (Inl e, w1)
                | (Inr data, w1) \<Rightarrow>
                    (case ck_fault E (ck_tick w) ''close'' of Some e \<Rightarrow> (Inl e, w1) | None \<Rightarrow> (Inr data, w1)))))"

definition chunk_offset :: "WritableDisk \<Rightarrow> DiskChunk \<Rightarrow> int" where
  "chunk_offset disk chunk = wrap64 (dc_Index chunk * wd_ChunkSizeBytes disk)"

definition chunk_error :: "DiskChunk \<Rightarrow> string \<Rightarrow> go_error" where
  "chunk_error chunk what = ErrNew (''disk chunk '' @ itoa (dc_Index chunk) @ what)"

fun check_chunks :: "Reader \<Rightarrow> string \<Rightarrow> WritableDisk \<Rightarrow> int \<Rightarrow> DiskChunk list \<Rightarrow> go_error option" where
  "check_chunks R sandboxID disk previous [] = None"
| "check_chunks R sandboxID disk previous (chunk # rest) =
     (if dc_Index chunk < 0 \<or> dc_Index chunk = previous
      then Some (ErrNew (''invalid or duplicate disk chunk index '' @ itoa (dc_Index chunk)))
      else
        let offset = chunk_offset disk chunk in
        if offset < 0 \<or> offset \<ge> wd_LogicalSizeBytes disk
        then Some (chunk_error chunk '' is outside logical disk'')
        else if dc_SizeBytes chunk \<noteq> min (wd_ChunkSizeBytes disk) (wd_LogicalSizeBytes disk - offset)
        then Some (chunk_error chunk ('' size is '' @ itoa (dc_SizeBytes chunk) @ '', want ''
               @ itoa (min (wd_ChunkSizeBytes disk) (wd_LogicalSizeBytes disk - offset))))
        else case validateObjectKey R sandboxID (dc_Key chunk) of
               Some e \<Rightarrow> Some (Wrapf (''disk chunk '' @ itoa (dc_Index chunk)) e)
             | None \<Rightarrow>
                 if \<not> validSHA256 (dc_SHA256 chunk) then Some (chunk_error chunk '' has invalid SHA-256'')
                 else check_chunks R sandboxID disk (dc_Index chunk) rest)"

text \<open>\<open>OffsetWriter\<close>: bytes written at an offset, with zeros before it where the file is shorter.\<close>

definition write_at :: "nat \<Rightarrow> bytes \<Rightarrow> bytes \<Rightarrow> bytes" where
  "write_at off data bs =
     (if data = [] then bs
      else take off (bs @ replicate (off - length bs) 0) @ data @ drop (off + length data) bs)"

fun fill_chunks :: "ck_env \<Rightarrow> WritableDisk \<Rightarrow> DiskChunk list \<Rightarrow> bytes \<Rightarrow> ck_world \<Rightarrow> (go_error + bytes) \<times> ck_world" where
  "fill_chunks E disk [] bs w = (Inr bs, w)"
| "fill_chunks E disk (chunk # rest) bs w =
     (case ck_fault E (ck_tick w) ''context'' of
        Some e \<Rightarrow> (Inl e, w)
      | None \<Rightarrow>
          (case ck_Get E (dc_Key chunk) w of
             (Inl e, w1) \<Rightarrow> (Inl (Wrapf (''read chunk '' @ itoa (dc_Index chunk)) e), w1)
           | (Inr x, w1) \<Rightarrow>
               let data = read_limited E x (dc_SizeBytes chunk) in
               (case ck_fault E (ck_tick w) ''copy'' of
                  Some e \<Rightarrow> (Inl (Wrapf (''write chunk '' @ itoa (dc_Index chunk)) e), w1)
                | None \<Rightarrow>
                    (case ck_fault E (ck_tick w) ''close object'' of
                       Some e \<Rightarrow> (Inl (Wrapf (''close chunk '' @ itoa (dc_Index chunk)) e), w1)
                     | None \<Rightarrow>
                         if int (length data) \<noteq> dc_SizeBytes chunk \<or> ck_sha256 E data \<noteq> dc_SHA256 chunk
                         then (Inl (ErrNew (''chunk '' @ itoa (dc_Index chunk) @ '' failed size or SHA-256 verification'')), w1)
                         else fill_chunks E disk rest
                                (write_at (nat (chunk_offset disk chunk)) data bs) w1))))"

definition reconstructDisk ::
    "ck_env \<Rightarrow> Reader \<Rightarrow> string \<Rightarrow> WritableDisk \<Rightarrow> ck_world \<Rightarrow> (go_error + bytes) \<times> ck_world" where
  "reconstructDisk E R sandboxID disk w =
     (if wd_LogicalSizeBytes disk \<le> 0 \<or> wd_ChunkSizeBytes disk \<le> 0
      then (Inl (ErrNew (''invalid disk geometry: logical='' @ itoa (wd_LogicalSizeBytes disk)
                   @ '' chunk='' @ itoa (wd_ChunkSizeBytes disk))), w)
      else
        let chunks = sort_key dc_Index (wd_Chunks disk) in
        case check_chunks R sandboxID disk (- 1) chunks of
          Some e \<Rightarrow> (Inl e, w)
        | None \<Rightarrow>
            (case ck_fault E (ck_tick w) ''create temp'' of
               Some e \<Rightarrow> (Inl e, w)
             | None \<Rightarrow>
                 (case ck_fault E (ck_tick w) ''truncate'' of
                    Some e \<Rightarrow> (Inl (Wrapf ''size sparse disk'' e), w)
                  | None \<Rightarrow>
                      (case fill_chunks E disk chunks (replicate (nat (wd_LogicalSizeBytes disk)) 0) w of
                         (Inl e, w1) \<Rightarrow> (Inl e, w1)
                       | (Inr bs, w1) \<Rightarrow>
                           (case ck_fault E (ck_tick w1) ''sync'' of
                              Some e \<Rightarrow> (Inl e, w1)
                            | None \<Rightarrow> (case ck_fault E (ck_tick w1) ''close'' of
                                         Some e \<Rightarrow> (Inl e, w1) | None \<Rightarrow> (Inr bs, w1)))))))"

text \<open>The renames; when one fails every destination is removed.\<close>

fun commit_files ::
    "ck_env \<Rightarrow> RestorePaths \<Rightarrow> (string \<times> bytes) list \<Rightarrow> ck_world \<Rightarrow> go_error option \<times> ck_world" where
  "commit_files E dst [] w = (None, w)"
| "commit_files E dst ((p, bs) # rest) w =
     (case ck_fault E (ck_tick w) ''rename'' of
        Some e \<Rightarrow> (Some (Wrapf (''commit restored artifact '' @ p) e),
                    (ck_step w)\<lparr>ck_files := mdel (rp_WritableDisk dst) (mdel (rp_Memory dst)
                       (mdel (rp_Snapshot dst) (ck_files w)))\<rparr>)
      | None \<Rightarrow> commit_files E dst rest ((ck_step w)\<lparr>ck_files := mput p (map Some bs) (ck_files w)\<rparr>))"

definition restoreArtifacts ::
    "ck_env \<Rightarrow> Reader \<Rightarrow> string \<Rightarrow> RestorePaths \<Rightarrow> Artifact \<Rightarrow> Artifact \<Rightarrow> Artifact option \<Rightarrow> WritableDisk \<Rightarrow> ck_world
     \<Rightarrow> go_error option \<times> ck_world" where
  "restoreArtifacts E R sandboxID dst snapshot memory legacyDisk disk w =
     (case downloadArtifact E R sandboxID snapshot w of
        (Inl e, w1) \<Rightarrow> (Some (Wrapf ''restore VM state'' e), w1)
      | (Inr snap, w1) \<Rightarrow>
          (case downloadArtifact E R sandboxID memory w1 of
             (Inl e, w2) \<Rightarrow> (Some (Wrapf ''restore memory'' e), w2)
           | (Inr mem, w2) \<Rightarrow>
               (case (case legacyDisk of
                        Some artifact \<Rightarrow> downloadArtifact E R sandboxID artifact w2
                      | None \<Rightarrow> reconstructDisk E R sandboxID disk w2) of
                  (Inl e, w3) \<Rightarrow> (Some (Wrapf ''restore writable disk'' e), w3)
                | (Inr dsk, w3) \<Rightarrow>
                    commit_files E dst [(rp_Snapshot dst, snap), (rp_Memory dst, mem), (rp_WritableDisk dst, dsk)] w3)))"

definition activeManifestKey :: "ck_env \<Rightarrow> Reader \<Rightarrow> string \<Rightarrow> ck_world \<Rightarrow> (go_error + string) \<times> ck_world" where
  "activeManifestKey E R sandboxID w =
     (case ck_Get E (latest_key (rd_prefix R) sandboxID) w of
        (Inl e, w1) \<Rightarrow> (Inl (Wrapf ''read active checkpoint'' e), w1)
      | (Inr x, w1) \<Rightarrow>
          (case decode_pointer x of
             Inl e \<Rightarrow> (Inl (Wrapf ''decode active checkpoint'' e), w1)
           | Inr pointer \<Rightarrow>
               if ap_SandboxID pointer \<noteq> sandboxID \<or> ap_ManifestKey pointer = []
               then (Inl (ErrNew (''active checkpoint pointer is invalid for sandbox '' @ quoted sandboxID)), w1)
               else (Inr (ap_ManifestKey pointer), w1)))"

definition restored :: "string \<Rightarrow> RestorePaths \<Rightarrow> Resources \<Rightarrow> ResumeMetadata \<Rightarrow> go_error option \<times> ck_world
     \<Rightarrow> (go_error + RestoreResult) \<times> ck_world" where
  "restored key dst res meta r =
     (case r of
        (Some e, w) \<Rightarrow> (Inl e, w)
      | (None, w) \<Rightarrow> (Inr \<lparr>rr_ManifestKey = key, rr_Resources = res, rr_Resume = meta, rr_Paths = dst\<rparr>, w))"

text \<open>The part of \<open>Restore\<close> after the manifest key is known.\<close>

definition restore_manifest ::
    "ck_env \<Rightarrow> Reader \<Rightarrow> string \<Rightarrow> string \<Rightarrow> RestorePaths \<Rightarrow> ck_world \<Rightarrow> (go_error + RestoreResult) \<times> ck_world" where
  "restore_manifest E R sandboxID manifestKey dst w =
     (case validateObjectKey R sandboxID manifestKey of
        Some e \<Rightarrow> (Inl (Wrapf ''invalid checkpoint manifest key'' e), w)
      | None \<Rightarrow>
          (case ck_Get E manifestKey w of
             (Inl e, w1) \<Rightarrow> (Inl (Wrapf ''read checkpoint manifest'' e), w1)
           | (Inr x, w1) \<Rightarrow>
               (case decode_header x of
                  Inl e \<Rightarrow> (Inl (Wrapf ''decode checkpoint manifest header'' e), w1)
                | Inr (version, sid) \<Rightarrow>
                    if sid \<noteq> sandboxID
                    then (Inl (ErrNew (''checkpoint belongs to sandbox '' @ quoted sid @ '', not '' @ quoted sandboxID)), w1)
                    else if version = 1 then
                      (case decode_legacy x of
                         Inl e \<Rightarrow> (Inl (Wrapf ''decode legacy checkpoint manifest'' e), w1)
                       | Inr m \<Rightarrow> restored manifestKey dst (lm_Resources m) (lm_Resume m)
                           (restoreArtifacts E R sandboxID dst (lm_Snapshot m) (lm_Memory m) (Some (lm_WritableDisk m)) zero_Disk w1))
                    else if version = manifestVersion then
                      (case decode_manifest x of
                         Inl e \<Rightarrow> (Inl (Wrapf ''decode checkpoint manifest'' e), w1)
                       | Inr m \<Rightarrow> restored manifestKey dst (mf_Resources m) (mf_Resume m)
                           (restoreArtifacts E R sandboxID dst (mf_Snapshot m) (mf_Memory m) None (mf_WritableDisk m) w1))
                    else (Inl (ErrNew (''unsupported checkpoint manifest version '' @ itoa version)), w1))))"

definition ck_Restore ::
    "ck_env \<Rightarrow> Reader \<Rightarrow> string \<Rightarrow> string \<Rightarrow> RestorePaths \<Rightarrow> ck_world \<Rightarrow> (go_error + RestoreResult) \<times> ck_world" where
  "ck_Restore E R sandboxID manifestKey dst w =
     (case ck_uuid_Parse E sandboxID of
        Some e \<Rightarrow> (Inl (Wrapf (''invalid sandbox id '' @ quoted sandboxID) e), w)
      | None \<Rightarrow>
          if rp_Snapshot dst = [] \<or> rp_Memory dst = [] \<or> rp_WritableDisk dst = []
          then (Inl (ErrNew ''checkpoint restore requires snapshot, memory and writable disk destinations''), w)
          else if manifestKey = [] then
            (case activeManifestKey E R sandboxID w of
               (Inl e, w1) \<Rightarrow> (Inl e, w1)
             | (Inr key, w1) \<Rightarrow> restore_manifest E R sandboxID key dst w1)
          else restore_manifest E R sandboxID manifestKey dst w)"

end
