(* ===== verification/Checkpoint_Safety.thy ===== *)
theory Checkpoint_Safety
  imports Checkpoint_Store
begin

text \<open>
  What the checkpoint writer and reader guarantee: scanning a sparse disk loses nothing, a saved
  sandbox is restored byte for byte from any worker whatever was saved since, and a restore reads
  only objects of its own sandbox.
\<close>

section \<open>The sparse scan\<close>

lemma chunk_count: "0 < cs \<Longrightarrow> k < (h + cs - 1) div cs \<longleftrightarrow> k * cs < (h :: nat)"
proof -
  assume "0 < cs"
  then have "k < (h + cs - 1) div cs \<longleftrightarrow> Suc k * cs \<le> h + cs - 1"
    by (simp add: less_eq_div_iff_mult_less_eq Suc_le_eq[symmetric])
  with \<open>0 < cs\<close> show ?thesis by auto
qed

lemma chunk_run_upt: "0 < cs \<Longrightarrow> chunk_run cs i h = [i..<(h + cs - 1) div cs]"
proof (induction cs i h rule: chunk_run.induct)
  case (1 cs i h)
  have iff: "i < (h + cs - 1) div cs \<longleftrightarrow> i * cs < h" by (rule chunk_count[OF 1(2)])
  show ?case
  proof (cases "i * cs < h")
    case True
    then have "chunk_run cs i h = i # chunk_run cs (Suc i) h" using 1(2) by (subst chunk_run.simps) simp
    with 1 True iff show ?thesis by (simp only: upt_conv_Cons[of i])
  next
    case False
    then have "chunk_run cs i h = []" by (subst chunk_run.simps) simp
    with False iff show ?thesis by simp
  qed
qed

lemma set_chunk_run:
  assumes "0 < cs"
  shows "set (chunk_run cs i h) = {k. i \<le> k \<and> k * cs < h}"
proof -
  have "k \<in> set (chunk_run cs i h) \<longleftrightarrow> i \<le> k \<and> k * cs < h" for k
    by (simp only: chunk_run_upt[OF assms] set_upt atLeastLessThan_iff chunk_count[OF assms])
  then show ?thesis by blast
qed

lemma seek_data_gap: "off \<le> p \<Longrightarrow> p < seek_data f off \<Longrightarrow> p < length f \<Longrightarrow> f ! p = None"
proof -
  assume a: "off \<le> p" "p < seek_data f off" "p < length f"
  then have "p - off < length (takeWhile (\<lambda>c. c = None) (drop off f))" by (simp add: seek_data_def)
  then have "takeWhile (\<lambda>c. c = None) (drop off f) ! (p - off) = None"
    using nth_mem set_takeWhileD by fastforce
  with a \<open>p - off < _\<close> show ?thesis by (simp add: takeWhile_nth)
qed

lemma data_runs_covers:
  "0 < cs \<Longrightarrow> off \<le> p \<Longrightarrow> p < length f \<Longrightarrow> f ! p \<noteq> None \<Longrightarrow> p div cs \<in> set (data_runs cs f off)"
proof (induction cs f off rule: data_runs.induct)
  case (1 cs f off)
  let ?d = "seek_data f off" and ?h = "min (seek_hole f (seek_data f off)) (length f)"
  have d: "?d \<le> p" using 1(3-5) seek_data_gap[of off p f] by (meson linorder_not_le)
  with 1 have dl: "off < length f" "\<not> length f \<le> ?d" by simp_all
  have step: "data_runs cs f off = chunk_run cs (?d div cs) ?h @ data_runs cs f ?h"
    using dl by (subst data_runs.simps) (simp add: Let_def)
  show ?case
  proof (cases "p < ?h")
    case True
    have "?d div cs \<le> p div cs" using d by (rule div_le_mono)
    moreover have "p div cs * cs < ?h" using True by (metis div_times_less_eq_dividend le_less_trans)
    ultimately show ?thesis unfolding step using 1(2) by (simp add: set_chunk_run)
  next
    case False
    with 1 dl show ?thesis unfolding step by (simp add: Let_def)
  qed
qed

lemma data_runs_bound: "0 < cs \<Longrightarrow> k \<in> set (data_runs cs f off) \<Longrightarrow> k * cs < length f"
proof (induction cs f off rule: data_runs.induct)
  case (1 cs f off)
  then show ?case
    by (subst (asm) (2) data_runs.simps) (auto simp: set_chunk_run Let_def split: if_splits)
qed

lemma chunk_data_nth:
  "k < length (chunk_data cs bs i) \<Longrightarrow> i * cs + k < length bs \<and> chunk_data cs bs i ! k = bs ! (i * cs + k) \<and> k < cs"
  by (auto simp: chunk_data_def)

lemma skipped_zero:
  assumes "0 < cs" "i \<notin> set (data_runs cs f 0)"
  shows "isZero (chunk_data cs (content f) i)"
proof -
  have "chunk_data cs (content f) i ! k = 0" if k: "k < length (chunk_data cs (content f) i)" for k
  proof -
    note K = chunk_data_nth[OF k]
    have "(i * cs + k) div cs = i" using K assms(1) by simp
    then have "f ! (i * cs + k) = None"
      using data_runs_covers[OF assms(1), of 0 "i * cs + k" f] K assms(2) by (auto simp: content_def simp del: not_None_eq)
    with K show ?thesis by (simp add: content_def)
  qed
  then show ?thesis by (auto simp: isZero_def list_all_length)
qed

text \<open>Chunks that are zero are skipped, so it does not matter whether the scan lists them.\<close>

definition steady :: "ck_env \<Rightarrow> bool" where
  "steady E \<longleftrightarrow> (\<forall>n. ck_fault E n ''context'' = None \<and> ck_fault E n ''read'' = None)"

lemma put_chunks_filter:
  assumes "steady E"
  shows "put_chunks E W sid prev bs is w
     = put_chunks E W sid prev bs (filter (\<lambda>i. \<not> isZero (chunk_data (wr_chunkSize W) bs i)) is) w"
  using assms
  by (induction "is" arbitrary: w) (auto simp: steady_def Let_def split: sum.split prod.split)

lemma scanned_chunks:
  assumes "0 < cs"
  shows "filter (\<lambda>i. \<not> isZero (chunk_data cs (content f) i)) (sort (remdups (data_runs cs f 0)))
     = filter (\<lambda>i. \<not> isZero (chunk_data cs (content f) i)) (chunk_run cs 0 (length f))"
  (is "?a = ?b")
proof (rule sorted_distinct_set_unique)
  show "sorted ?a" "distinct ?a" "sorted ?b" "distinct ?b"
    using assms by (auto simp: chunk_run_upt sorted_filter[where f = id, simplified] intro: sorted_wrt_filter)
  show "set ?a = set ?b"
    using assms skipped_zero[OF assms] data_runs_bound[OF assms] by (auto simp: set_chunk_run)
qed

lemma seek_irrelevant:
  "ck_Get (E\<lparr>ck_seek := s\<rparr>) = ck_Get E" "ck_Put (E\<lparr>ck_seek := s\<rparr>) = ck_Put E" "ck_Stat (E\<lparr>ck_seek := s\<rparr>) = ck_Stat E"
  by (simp_all add: fun_eq_iff ck_Get_def ck_Put_def ck_Stat_def)

lemma open_file_seek: "open_file (E\<lparr>ck_seek := s\<rparr>) = open_file E"
  by (intro ext) (simp add: open_file_def)

lemma previousChunks_seek: "previousChunks (E\<lparr>ck_seek := s\<rparr>) = previousChunks E"
  by (intro ext) (unfold previousChunks_def seek_irrelevant, rule refl)

lemma put_chunks_seek: "put_chunks (E\<lparr>ck_seek := s\<rparr>) W sid prev bs is w = put_chunks E W sid prev bs is w"
proof -
  have "store_chunk (E\<lparr>ck_seek := s\<rparr>) = store_chunk E"
    by (intro ext) (unfold store_chunk_def seek_irrelevant, simp)
  then show ?thesis
    by (induction "is" arbitrary: w) (simp_all add: Let_def split: option.split sum.split prod.split)
qed

text \<open>
  C39: Scanning only the allocated extents of a disk is as good as reading all of it. Whether the
  file system supports \<open>SEEK_DATA\<close> and \<open>SEEK_HOLE\<close> or not, the same chunks are uploaded, in the same
  order, and the same description of the disk is written.
\<close>

theorem sparse_scan_is_exact:
  assumes "steady E" and "0 < wr_chunkSize W" and "ck_seek E (ck_tick w) = SeekOK"
  shows "putDisk E W sid p w = putDisk (E\<lparr>ck_seek := \<lambda>n. SeekUnsupported\<rparr>) W sid p w"
proof -
  let ?cs = "wr_chunkSize W"
  have "put_chunks E W sid prev (content f) (sort (remdups (data_runs ?cs f 0))) w'
      = put_chunks E W sid prev (content f) (chunk_run ?cs 0 (length f)) w'" for f prev w'
    using put_chunks_filter[OF assms(1), of W sid prev "content f"] scanned_chunks[OF assms(2), of f] by metis
  then show ?thesis
    using assms(3) by (simp add: putDisk_def allocatedChunkIndices_def open_file_seek previousChunks_seek put_chunks_seek split: sum.split)
qed

section \<open>Object keys\<close>

lemma trim_slashes_id: "s \<noteq> [] \<Longrightarrow> hd s \<noteq> slash \<Longrightarrow> last s \<noteq> slash \<Longrightarrow> trim_slashes s = s"
proof -
  assume s: "s \<noteq> []" "hd s \<noteq> slash" "last s \<noteq> slash"
  have d: "dropWhile (\<lambda>c. c = slash) x = x" if "x \<noteq> []" "hd x \<noteq> slash" for x using that by (cases x) auto
  show ?thesis using d[of s] d[of "rev s"] s by (simp add: trim_slashes_def hd_rev)
qed

lemma join_ends:
  "list_all (\<lambda>c. c \<noteq> [] \<and> slash \<notin> set c) cs \<Longrightarrow> cs \<noteq> []
     \<Longrightarrow> join_slash cs \<noteq> [] \<and> hd (join_slash cs) = hd (hd cs) \<and> hd (join_slash cs) \<noteq> slash \<and> last (join_slash cs) \<noteq> slash"
  by (induction cs rule: join_slash.induct) (auto simp: hd_append dest: hd_in_set last_in_set)

lemma plain_parts: "list_all plain cs \<Longrightarrow> list_all (\<lambda>c. c \<noteq> [] \<and> slash \<notin> set c) cs"
  by (auto simp: list_all_iff plain_def)

lemma clean_prefix_plain:
  assumes "clean_prefix p = Inr q"
  shows "\<exists>ps. list_all plain ps \<and> ps \<noteq> [] \<and> q = join_slash ps"
proof -
  have q: "q = trim_slashes (path_clean p)" "q \<noteq> []" "q \<noteq> ''.''" "q \<noteq> ''..''" "\<not> has_prefix q ''../''"
    using assms by (auto simp: clean_prefix_def Let_def split: if_splits)
  show ?thesis
  proof (cases rule: path_clean_form[of p])
    case dot
    then have "q = ''.''" using q(1) by (simp add: trim_slashes_def slash_def)
    with q(3) show ?thesis by simp
  next
    case (rooted ps)
    have "ps \<noteq> []" using q(1,2) rooted by (auto simp: trim_slashes_def)
    moreover have "trim_slashes (slash # join_slash ps) = trim_slashes (join_slash ps)" by (simp add: trim_slashes_def)
    ultimately have "q = join_slash ps"
      using q(1) rooted trim_slashes_id join_ends[OF plain_parts] by metis
    with rooted \<open>ps \<noteq> []\<close> show ?thesis by blast
  next
    case (relative ps n)
    let ?cs = "replicate n ''..'' @ ps"
    have "list_all (\<lambda>c. c \<noteq> [] \<and> slash \<notin> set c) ?cs" "?cs \<noteq> []"
      using plain_parts[OF relative(1)] relative(2) by (auto simp: list_all_iff slash_def)
    then have join: "q = join_slash ?cs" using q(1) relative(3) trim_slashes_id join_ends by metis
    show ?thesis
    proof (cases n)
      case 0
      with join relative show ?thesis by auto
    next
      case (Suc k)
      with join q(4,5) have False by (cases "replicate k ''..'' @ ps") (auto simp: has_prefix_def slash_def)
      then show ?thesis ..
    qed
  qed
qed

definition key_of :: "string \<Rightarrow> string list \<Rightarrow> string" where
  "key_of prefix cs = prefix @ slash # join_slash cs"

definition good_prefix :: "string \<Rightarrow> bool" where
  "good_prefix P \<longleftrightarrow> (\<exists>ps. list_all plain ps \<and> ps \<noteq> [] \<and> P = join_slash ps)"

lemma path_Join_key: "good_prefix P \<Longrightarrow> list_all plain cs \<Longrightarrow> cs \<noteq> [] \<Longrightarrow> path_Join (P # cs) = key_of P cs"
  by (auto simp: good_prefix_def key_of_def path_Join_prefix join_append)

lemma key_clean:
  assumes "good_prefix P" "list_all plain cs" "cs \<noteq> []"
  shows "path_clean (key_of P cs) = key_of P cs" "key_of P cs \<noteq> []" "\<not> has_prefix (key_of P cs) [slash]"
proof -
  obtain ps where ps: "list_all plain ps" "ps \<noteq> []" "P = join_slash ps" using assms(1) by (auto simp: good_prefix_def)
  have k: "key_of P cs = join_slash (ps @ cs)" using ps assms by (simp add: key_of_def join_append)
  have pl: "list_all plain (ps @ cs)" "ps @ cs \<noteq> []" using ps assms by simp_all
  show "path_clean (key_of P cs) = key_of P cs" unfolding k using path_clean_plain[OF pl] .
  show "key_of P cs \<noteq> []" by (simp add: key_of_def)
  show "\<not> has_prefix (key_of P cs) [slash]"
    unfolding k using join_ends[OF plain_parts[OF pl(1)] pl(2)] by (cases "join_slash (ps @ cs)") (auto simp: has_prefix_def)
qed

lemma key_inject:
  "list_all plain cs \<Longrightarrow> list_all plain ds \<Longrightarrow> cs \<noteq> [] \<Longrightarrow> ds \<noteq> [] \<Longrightarrow> key_of P cs = key_of P ds \<longleftrightarrow> cs = ds"
  by (simp add: key_of_def join_inject)

lemma key_snoc:
  assumes "good_prefix P" "list_all plain cs" "cs \<noteq> []" "plain c"
  shows "path_Join [key_of P cs, c] = key_of P (cs @ [c])"
proof -
  obtain ps where ps: "list_all plain ps" "ps \<noteq> []" "P = join_slash ps" using assms(1) by (auto simp: good_prefix_def)
  have k: "key_of P ds = join_slash (ps @ ds)" if "ds \<noteq> []" for ds using that ps by (simp add: key_of_def join_append)
  have "path_Join (join_slash (ps @ cs) # [c]) = join_slash ((ps @ cs) @ [c])"
    using ps assms by (intro path_Join_prefix) simp_all
  then show ?thesis using assms(3) by (simp add: k)
qed

text \<open>
  What is assumed of names: an identifier that the UUID parser accepts, and a generated one, is a single path element, and a digest is a hexadecimal SHA-256.
  The form of a UUID in braces is taken with its braces; the parser itself does not look at these two characters.
\<close>

definition plain_env :: "ck_env \<Rightarrow> bool" where
  "plain_env E \<longleftrightarrow> (\<forall>s. ck_uuid_Parse E s = None \<longrightarrow> plain s) \<and> (\<forall>n. plain (ck_uuid E n))
     \<and> (\<forall>b. validSHA256 (ck_sha256 E b))"

lemma validSHA256_plain: "validSHA256 d \<Longrightarrow> plain d"
proof -
  assume d: "validSHA256 d"
  have "\<not> hex_char slash" by (simp add: hex_char_def slash_def)
  with d show ?thesis by (auto simp: validSHA256_def plain_def list_all_iff)
qed

lemma plain_names [simp]:
  "plain ''latest.json''" "plain ''disk-chunks''" "plain ''generations''" "plain ''manifest.json''"
  "plain ''vmstate.snap''" "plain ''memory.mem''"
  by (simp_all add: plain_def slash_def)

lemma keys:
  assumes "good_prefix P" "plain sid"
  shows "latest_key P sid = key_of P [sid, ''latest.json'']"
    and "plain d \<Longrightarrow> chunk_key P sid d = key_of P [sid, ''disk-chunks'', d]"
    and "plain g \<Longrightarrow> generation_base P sid g = key_of P [sid, ''generations'', g]"
    and "plain g \<Longrightarrow> plain n \<Longrightarrow> path_Join [generation_base P sid g, n] = key_of P [sid, ''generations'', g, n]"
  using assms path_Join_key key_snoc[of P "[sid, ''generations'', g]" n]
  by (simp_all add: latest_key_def chunk_key_def generation_base_def)

lemma own_key:
  assumes "good_prefix (rd_prefix R)" "plain sid" "list_all plain cs" "cs \<noteq> []"
  shows "validateObjectKey R sid (key_of (rd_prefix R) (sid # cs)) = None"
proof -
  have "has_prefix (key_of (rd_prefix R) (sid # cs)) (path_Join [rd_prefix R, sid] @ [slash])"
    using assms path_Join_key[of "rd_prefix R" "[sid]"] by (cases cs) (simp_all add: key_of_def has_prefix_iff)
  then show ?thesis
    using key_clean[of "rd_prefix R" "sid # cs"] assms by (simp add: validateObjectKey_def Let_def)
qed

section \<open>A restore reads only its own objects\<close>

definition own :: "Reader \<Rightarrow> string \<Rightarrow> string \<Rightarrow> bool" where
  "own R sid k \<longleftrightarrow> has_prefix k (path_Join [rd_prefix R, sid] @ [slash])"

text \<open>Two worlds with the same files whose stores agree on the objects of a sandbox.\<close>

definition same_view :: "Reader \<Rightarrow> string \<Rightarrow> ck_world \<Rightarrow> ck_world \<Rightarrow> bool" where
  "same_view R sid w v \<longleftrightarrow> ck_tick w = ck_tick v \<and> ck_files w = ck_files v
     \<and> (\<forall>k. own R sid k \<longrightarrow> mget (ck_objects w) k = mget (ck_objects v) k)"

definition same_run :: "Reader \<Rightarrow> string \<Rightarrow> 'a \<times> ck_world \<Rightarrow> 'a \<times> ck_world \<Rightarrow> bool" where
  "same_run R sid a b \<longleftrightarrow> fst a = fst b \<and> same_view R sid (snd a) (snd b)"

lemma same_runI: "same_view R sid w v \<Longrightarrow> same_run R sid (r, w) (r, v)"
  by (simp add: same_run_def)

lemma same_run_cases:
  assumes "same_run R sid a b"
  obtains r w v where "a = (r, w)" "b = (r, v)" "same_view R sid w v"
  using assms by (metis same_run_def prod.collapse)

lemma same_step: "same_view R sid w v \<Longrightarrow> same_view R sid (ck_step w) (ck_step v)"
  by (simp add: same_view_def ck_step_def)

lemma Get_same: "own R sid k \<Longrightarrow> same_view R sid w v \<Longrightarrow> same_run R sid (ck_Get E k w) (ck_Get E k v)"
  by (auto simp: same_view_def same_run_def ck_Get_def ck_step_def split: option.split)

lemma validate_own: "validateObjectKey R sid k = None \<Longrightarrow> own R sid k"
  by (auto simp: validateObjectKey_def own_def Let_def split: if_splits)

lemma same_tick: "same_view R sid w v \<Longrightarrow> ck_tick w = ck_tick v"
  by (simp add: same_view_def)

lemma download_same:
  assumes "same_view R sid w v"
  shows "same_run R sid (downloadArtifact E R sid a w) (downloadArtifact E R sid a v)"
proof (cases "validateArtifact R sid a")
  case (Some e)
  with assms show ?thesis by (simp add: downloadArtifact_def same_runI)
next
  case None
  then have "own R sid (af_Key a)" by (auto simp: validateArtifact_def validate_own split: if_splits)
  then obtain r w1 v1 where g: "ck_Get E (af_Key a) w = (r, w1)" "ck_Get E (af_Key a) v = (r, v1)" "same_view R sid w1 v1"
    using Get_same[OF _ assms] same_run_cases by metis
  with None assms show ?thesis
    by (auto simp: downloadArtifact_def copyVerified_def same_tick[OF assms] Let_def same_run_def split: sum.split option.split)
qed

lemma fill_same:
  assumes "same_view R sid w v" "list_all (\<lambda>c. own R sid (dc_Key c)) cs"
  shows "same_run R sid (fill_chunks E disk cs bs w) (fill_chunks E disk cs bs v)"
  using assms
proof (induction cs arbitrary: bs w v)
  case (Cons c cs)
  have "own R sid (dc_Key c)" using Cons.prems(2) by simp
  then obtain r w1 v1 where g: "ck_Get E (dc_Key c) w = (r, w1)" "ck_Get E (dc_Key c) v = (r, v1)" "same_view R sid w1 v1"
    using Get_same[OF _ Cons.prems(1)] same_run_cases by metis
  with Cons show ?case
    by (cases r) (auto simp: same_tick[OF Cons.prems(1)] Let_def same_runI split: option.split)
qed (simp add: same_runI)

lemma check_chunks_own: "check_chunks R sid disk prev cs = None \<Longrightarrow> list_all (\<lambda>c. own R sid (dc_Key c)) cs"
  by (induction cs arbitrary: prev) (auto simp: Let_def validate_own split: if_splits option.splits)

lemma reconstruct_same:
  assumes "same_view R sid w v"
  shows "same_run R sid (reconstructDisk E R sid disk w) (reconstructDisk E R sid disk v)"
proof (cases "check_chunks R sid disk (- 1) (sort_key dc_Index (wd_Chunks disk))")
  case (Some e)
  with assms show ?thesis by (simp add: reconstructDisk_def same_runI Let_def)
next
  case None
  obtain r w1 v1 where f: "fill_chunks E disk (sort_key dc_Index (wd_Chunks disk)) (replicate (nat (wd_LogicalSizeBytes disk)) 0) w = (r, w1)"
    "fill_chunks E disk (sort_key dc_Index (wd_Chunks disk)) (replicate (nat (wd_LogicalSizeBytes disk)) 0) v = (r, v1)"
    "same_view R sid w1 v1"
    using fill_same[OF assms check_chunks_own[OF None]] same_run_cases by metis
  with None assms show ?thesis
    by (cases r) (auto simp: reconstructDisk_def Let_def same_tick[OF assms] same_tick[OF f(3)] same_runI split: option.split)
qed

lemma commit_same: "same_view R sid w v \<Longrightarrow> same_run R sid (commit_files E dst fs w) (commit_files E dst fs v)"
proof (induction fs arbitrary: w v)
  case (Cons f fs)
  obtain p bs where f: "f = (p, bs)" by fastforce
  have fl: "ck_files w = ck_files v" and
    "same_view R sid ((ck_step w)\<lparr>ck_files := h\<rparr>) ((ck_step v)\<lparr>ck_files := h\<rparr>)" for h
    using same_step[OF Cons.prems] Cons.prems by (simp_all add: same_view_def)
  with Cons.IH f show ?case by (simp add: same_tick[OF Cons.prems] fl same_runI split: option.split)
qed (simp add: same_runI)

lemma restoreArtifacts_same:
  assumes "same_view R sid w v"
  shows "same_run R sid (restoreArtifacts E R sid dst s m l d w) (restoreArtifacts E R sid dst s m l d v)"
proof -
  obtain r1 w1 v1 where a: "downloadArtifact E R sid s w = (r1, w1)" "downloadArtifact E R sid s v = (r1, v1)" "same_view R sid w1 v1"
    using download_same[OF assms] same_run_cases by metis
  obtain r2 w2 v2 where b: "downloadArtifact E R sid m w1 = (r2, w2)" "downloadArtifact E R sid m v1 = (r2, v2)" "same_view R sid w2 v2"
    using download_same[OF a(3)] same_run_cases by metis
  let ?dsk = "\<lambda>u. case l of Some x \<Rightarrow> downloadArtifact E R sid x u | None \<Rightarrow> reconstructDisk E R sid d u"
  have "same_run R sid (?dsk w2) (?dsk v2)"
    using download_same[OF b(3)] reconstruct_same[OF b(3)] by (simp split: option.split)
  then obtain r3 w3 v3 where c: "?dsk w2 = (r3, w3)" "?dsk v2 = (r3, v3)" "same_view R sid w3 v3"
    using same_run_cases by metis
  have e: "same_run R sid (commit_files E dst fs w3) (commit_files E dst fs v3)" for fs by (rule commit_same[OF c(3)])
  show ?thesis
    unfolding restoreArtifacts_def a(1,2) using a(3) b(1,2,3) c e
    by (cases r1; cases r2; cases r3) (simp_all add: same_runI del: commit_files.simps(2))
qed

lemma restore_manifest_same:
  assumes "same_view R sid w v"
  shows "same_run R sid (restore_manifest E R sid k dst w) (restore_manifest E R sid k dst v)"
proof (cases "validateObjectKey R sid k")
  case (Some e)
  with assms show ?thesis by (simp add: restore_manifest_def same_runI)
next
  case None
  obtain r w1 v1 where g: "ck_Get E k w = (r, w1)" "ck_Get E k v = (r, v1)" "same_view R sid w1 v1"
    using Get_same[OF validate_own[OF None] assms] same_run_cases by metis
  have "same_run R sid (restored k dst res meta (restoreArtifacts E R sid dst s m l d w1))
      (restored k dst res meta (restoreArtifacts E R sid dst s m l d v1))" for res meta s m l d
    using restoreArtifacts_same[OF g(3), of E dst s m l d]
    by (auto simp: same_run_def restored_def split: prod.split option.split)
  with None g show ?thesis
    by (auto simp: restore_manifest_def same_runI split: sum.split prod.split)
qed

lemma NewReader_good: "NewReader p = Inr R \<Longrightarrow> good_prefix (rd_prefix R)"
  using clean_prefix_plain[of p] by (cases "clean_prefix p") (auto simp: NewReader_def good_prefix_def)

text \<open>
  C38: A restore depends on the objects of its own sandbox only. Whatever else the store holds, and
  whatever the manifest says, the result and the local files are the same as with any other store
  that has the same objects under the prefix of the sandbox: no object of another sandbox is read.
\<close>

theorem restore_reads_own_objects:
  assumes "NewReader p = Inr R" and "plain_env E"
    and "\<forall>k. has_prefix k (path_Join [rd_prefix R, sid] @ [slash]) \<longrightarrow> mget objs k = mget (ck_objects w) k"
  shows "fst (ck_Restore E R sid key dst (w\<lparr>ck_objects := objs\<rparr>)) = fst (ck_Restore E R sid key dst w)
    \<and> ck_files (snd (ck_Restore E R sid key dst (w\<lparr>ck_objects := objs\<rparr>))) = ck_files (snd (ck_Restore E R sid key dst w))"
proof -
  have v: "same_view R sid (w\<lparr>ck_objects := objs\<rparr>) w" using assms(3) by (simp add: same_view_def own_def)
  have "same_run R sid (ck_Restore E R sid key dst (w\<lparr>ck_objects := objs\<rparr>)) (ck_Restore E R sid key dst w)"
  proof (cases "ck_uuid_Parse E sid")
    case (Some e)
    with v show ?thesis by (simp add: ck_Restore_def same_runI)
  next
    case None
    then have sid: "plain sid" using assms(2) by (simp add: plain_env_def)
    have good: "good_prefix (rd_prefix R)" by (rule NewReader_good[OF assms(1)])
    have "own R sid (latest_key (rd_prefix R) sid)"
      using own_key[OF good sid, of "[''latest.json'']"] keys(1)[OF good sid] validate_own by simp
    then obtain r w1 v1 where g: "ck_Get E (latest_key (rd_prefix R) sid) (w\<lparr>ck_objects := objs\<rparr>) = (r, w1)"
      "ck_Get E (latest_key (rd_prefix R) sid) w = (r, v1)" "same_view R sid w1 v1"
      using Get_same[OF _ v] same_run_cases by metis
    then have "same_run R sid (activeManifestKey E R sid (w\<lparr>ck_objects := objs\<rparr>)) (activeManifestKey E R sid w)"
      by (auto simp: activeManifestKey_def same_runI split: sum.split)
    then obtain r2 w2 v2 where a: "activeManifestKey E R sid (w\<lparr>ck_objects := objs\<rparr>) = (r2, w2)"
      "activeManifestKey E R sid w = (r2, v2)" "same_view R sid w2 v2" using same_run_cases by metis
    show ?thesis
      unfolding ck_Restore_def None a(1,2)
      using restore_manifest_same[OF v] restore_manifest_same[OF a(3)] a(3) v
      by (cases r2) (simp_all add: same_runI)
  qed
  then show ?thesis by (simp add: same_run_def same_view_def)
qed

section \<open>A restore is all or nothing\<close>

text \<open>Calls that only read: the objects and the local files stay.\<close>

definition reads_only :: "ck_world \<Rightarrow> ck_world \<Rightarrow> bool" where
  "reads_only w w' \<longleftrightarrow> ck_objects w' = ck_objects w \<and> ck_files w' = ck_files w \<and> ck_tick w \<le> ck_tick w'"

lemma reads_only_refl [simp]: "reads_only w w"
  by (simp add: reads_only_def)

lemma reads_only_trans: "reads_only w w1 \<Longrightarrow> reads_only w1 w2 \<Longrightarrow> reads_only w w2"
  by (simp add: reads_only_def)

lemma Get_reads: "ck_Get E k w = (r, w') \<Longrightarrow> reads_only w w'"
  by (auto simp: ck_Get_def ck_step_def reads_only_def split: option.splits)

lemma download_reads: "downloadArtifact E R sid a w = (r, w') \<Longrightarrow> reads_only w w'"
  by (auto simp: downloadArtifact_def copyVerified_def Let_def split: option.splits prod.splits sum.splits if_splits dest: Get_reads)

lemma fill_reads: "fill_chunks E disk cs bs w = (r, w') \<Longrightarrow> reads_only w w'"
proof (induction cs arbitrary: bs w)
  case (Cons c cs)
  obtain x w1 where g: "ck_Get E (dc_Key c) w = (x, w1)" by fastforce
  show ?case
    using Cons.prems Cons.IH g Get_reads[OF g]
    by (auto simp: Let_def split: option.splits sum.splits if_splits intro: reads_only_trans)
qed simp

lemma reconstruct_reads: "reconstructDisk E R sid disk w = (r, w') \<Longrightarrow> reads_only w w'"
  by (auto simp: reconstructDisk_def Let_def split: option.splits prod.splits sum.splits if_splits dest: fill_reads)

definition dropped :: "RestorePaths \<Rightarrow> (string, sparse_file) gomap \<Rightarrow> (string, sparse_file) gomap" where
  "dropped dst fs = mdel (rp_WritableDisk dst) (mdel (rp_Memory dst) (mdel (rp_Snapshot dst) fs))"

lemma restoreArtifacts_effect:
  assumes "restoreArtifacts E R sid dst s m l d w = (r, w')"
  shows "ck_objects w' = ck_objects w"
    and "r \<noteq> None \<Longrightarrow> ck_files w' = ck_files w \<or> mget (ck_files w') = mget (dropped dst (ck_files w))"
    and "r = None \<Longrightarrow> \<exists>w1 w2 w3 snap mem dsk. reads_only w w1 \<and> reads_only w1 w2
      \<and> downloadArtifact E R sid s w = (Inr snap, w1) \<and> downloadArtifact E R sid m w1 = (Inr mem, w2)
      \<and> (case l of Some x \<Rightarrow> downloadArtifact E R sid x w2 | None \<Rightarrow> reconstructDisk E R sid d w2) = (Inr dsk, w3)
      \<and> ck_files w' = mput (rp_WritableDisk dst) (map Some dsk) (mput (rp_Memory dst) (map Some mem)
           (mput (rp_Snapshot dst) (map Some snap) (ck_files w)))"
proof -
  obtain r1 w1 where a: "downloadArtifact E R sid s w = (r1, w1)" by fastforce
  obtain r2 w2 where b: "downloadArtifact E R sid m w1 = (r2, w2)" by fastforce
  let ?dsk = "case l of Some x \<Rightarrow> downloadArtifact E R sid x w2 | None \<Rightarrow> reconstructDisk E R sid d w2"
  obtain r3 w3 where c: "?dsk = (r3, w3)" by fastforce
  have ro: "reads_only w w1" "reads_only w1 w2" "reads_only w2 w3"
    using download_reads[OF a] download_reads[OF b] c download_reads reconstruct_reads by (auto split: option.splits)
  have all: "(r \<noteq> None \<and> reads_only w w') \<or> (\<exists>snap mem dsk. r1 = Inr snap \<and> r2 = Inr mem \<and> r3 = Inr dsk
      \<and> commit_files E dst [(rp_Snapshot dst, snap), (rp_Memory dst, mem), (rp_WritableDisk dst, dsk)] w3 = (r, w'))"
    using assms a b c ro
    by (cases r1; cases r2; cases r3) (auto simp: restoreArtifacts_def intro: reads_only_trans simp del: commit_files.simps(2))
  show "ck_objects w' = ck_objects w" and "r \<noteq> None \<Longrightarrow> ck_files w' = ck_files w \<or> mget (ck_files w') = mget (dropped dst (ck_files w))"
    using all ro by (auto simp: reads_only_def ck_step_def dropped_def fun_eq_iff split: option.splits)
  show "r = None \<Longrightarrow> \<exists>w1 w2 w3 snap mem dsk. reads_only w w1 \<and> reads_only w1 w2
      \<and> downloadArtifact E R sid s w = (Inr snap, w1) \<and> downloadArtifact E R sid m w1 = (Inr mem, w2)
      \<and> (case l of Some x \<Rightarrow> downloadArtifact E R sid x w2 | None \<Rightarrow> reconstructDisk E R sid d w2) = (Inr dsk, w3)
      \<and> ck_files w' = mput (rp_WritableDisk dst) (map Some dsk) (mput (rp_Memory dst) (map Some mem)
           (mput (rp_Snapshot dst) (map Some snap) (ck_files w)))"
    using all ro a b c by (auto simp: reads_only_def ck_step_def split: option.splits)
qed

lemma restore_manifest_effect:
  assumes "restore_manifest E R sid k dst w = (r, w')"
  shows "reads_only w w' \<and> isl r \<or> (\<exists>w1 s m l d q. reads_only w w1 \<and> restoreArtifacts E R sid dst s m l d w1 = (q, w')
     \<and> (case r of Inl e \<Rightarrow> q \<noteq> None | Inr res \<Rightarrow> q = None \<and> rr_Paths res = dst \<and> rr_ManifestKey res = k))"
proof -
  obtain x w1 where g: "ck_Get E k w = (x, w1)" by fastforce
  have rest: "\<exists>q. restoreArtifacts E R sid dst s m l d w1 = (q, w')
      \<and> (case r of Inl e \<Rightarrow> q \<noteq> None | Inr res \<Rightarrow> q = None \<and> rr_Paths res = dst \<and> rr_ManifestKey res = k)"
    if "restored k dst res meta (restoreArtifacts E R sid dst s m l d w1) = (r, w')" for res meta s m l d
    using that by (auto simp: restored_def split: prod.splits option.splits)
  show ?thesis
    using assms g Get_reads[OF g]
    by (auto simp: restore_manifest_def split: option.splits sum.splits if_splits dest!: rest) blast+
qed

text \<open>
  A restore replaces all three files or none. One that fails leaves the local files as they were,
  or, when a rename failed, with all three destinations gone; one that succeeds leaves a file at each
  destination and every other file as it was. The object store is never written.
\<close>

theorem restore_is_all_or_nothing:
  "case ck_Restore E R sid key dst w of
     (Inl e, w') \<Rightarrow> ck_objects w' = ck_objects w
       \<and> (mget (ck_files w') = mget (ck_files w) \<or> mget (ck_files w') = mget (dropped dst (ck_files w)))
   | (Inr res, w') \<Rightarrow> ck_objects w' = ck_objects w \<and> rr_Paths res = dst
       \<and> mget (dropped dst (ck_files w')) = mget (dropped dst (ck_files w))
       \<and> list_all (\<lambda>p. mget (ck_files w') p \<noteq> None) [rp_Snapshot dst, rp_Memory dst, rp_WritableDisk dst]"
proof -
  obtain r w' where rw: "ck_Restore E R sid key dst w = (r, w')" by fastforce
  have act: "reads_only w u" if "activeManifestKey E R sid w = (x, u)" for x u
    using that by (auto simp: activeManifestKey_def split: prod.splits sum.splits if_splits dest: Get_reads)
  have "reads_only w w' \<and> isl r \<or> (\<exists>w0 k. reads_only w w0 \<and> restore_manifest E R sid k dst w0 = (r, w'))"
  proof -
    obtain x u where a: "activeManifestKey E R sid w = (x, u)" by fastforce
    show ?thesis using rw a act[OF a]
      by (auto simp: ck_Restore_def split: option.splits if_splits sum.splits intro: reads_only_refl)
  qed
  then consider "reads_only w w'" "isl r" | w1 s m l d q where "reads_only w w1" "restoreArtifacts E R sid dst s m l d w1 = (q, w')"
      "case r of Inl e \<Rightarrow> q \<noteq> None | Inr res \<Rightarrow> q = None \<and> rr_Paths res = dst"
  proof (elim disjE exE conjE, goal_cases)
    case (2 w0 k)
    from restore_manifest_effect[OF 2(4)] show ?case
    proof (elim disjE exE conjE)
      assume "reads_only w0 w'" "isl r"
      with 2(1,3) show ?thesis using reads_only_trans by blast
    next
      fix w1 s m l d q
      assume a: "reads_only w0 w1" "restoreArtifacts E R sid dst s m l d w1 = (q, w')"
        "case r of Inl e \<Rightarrow> q \<noteq> None | Inr res \<Rightarrow> q = None \<and> rr_Paths res = dst \<and> rr_ManifestKey res = k"
      then have "case r of Inl e \<Rightarrow> q \<noteq> None | Inr res \<Rightarrow> q = None \<and> rr_Paths res = dst" by (cases r) auto
      then show ?thesis by (rule 2(2)[OF reads_only_trans[OF 2(3) a(1)] a(2)])
    qed
  qed blast
  then show ?thesis
  proof cases
    case 1
    with rw show ?thesis by (cases r) (auto simp: reads_only_def)
  next
    case 2
    note A = restoreArtifacts_effect[OF 2(2)]
    show ?thesis
    proof (cases r)
      case (Inl e)
      with A(1,2) 2 rw show ?thesis by (auto simp: reads_only_def)
    next
      case (Inr res)
      then have "q = None" using 2(3) by simp
      from A(3)[OF this] obtain snap mem dsk where f:
        "ck_files w' = mput (rp_WritableDisk dst) (map Some dsk) (mput (rp_Memory dst) (map Some mem)
           (mput (rp_Snapshot dst) (map Some snap) (ck_files w1)))" by blast
      have "mget (dropped dst (ck_files w')) = mget (dropped dst (ck_files w1))"
        by (rule ext) (simp add: f dropped_def)
      moreover have "list_all (\<lambda>p. mget (ck_files w') p \<noteq> None) [rp_Snapshot dst, rp_Memory dst, rp_WritableDisk dst]"
        by (simp add: f)
      moreover have "ck_objects w1 = ck_objects w" "ck_files w1 = ck_files w" using 2(1) by (simp_all add: reads_only_def)
      ultimately show ?thesis using A(1) 2(3) Inr rw by simp
    qed
  qed
qed

section \<open>A sample store\<close>

definition sample_ck_env :: ck_env where
  "sample_ck_env =
     \<lparr>ck_uuid_Parse = (\<lambda>s. if s = ''sb'' then None else Some (ErrNew ''invalid UUID'')),
      ck_uuid = (\<lambda>n. replicate (Suc n) (CHR ''g'')), ck_now = int,
      ck_sha256 = (\<lambda>b. replicate 64 (if b = [7] then CHR ''a'' else CHR ''b'')), ck_marshal = (\<lambda>x. []),
      ck_fault = (\<lambda>n s. None), ck_stored = (\<lambda>n. False), ck_seek = (\<lambda>n. SeekOK)\<rparr>"

definition sample_Writer :: Writer where
  "sample_Writer = \<lparr>wr_prefix = ''ck'', wr_chunkSize = 1\<rparr>"

definition sample_Input :: Input where
  "sample_Input = \<lparr>in_SandboxID = ''sb'', in_VCPUs = 1, in_MemoryMB = 512, in_DiskGB = 1, in_RootfsPath = ''r'',
     in_VsockPath = ''v'', in_TapName = ''t'', in_SnapshotPath = ''s'', in_MemoryPath = ''m'', in_WritableDiskPath = ''d''\<rparr>"

definition sample_files :: "(string, sparse_file) gomap" where
  "sample_files = [(''s'', [Some 5]), (''m'', [Some 6, None]), (''d'', [None, Some 7, Some 0])]"

definition sample_paths :: RestorePaths where
  "sample_paths = \<lparr>rp_Snapshot = ''S'', rp_Memory = ''M'', rp_WritableDisk = ''D''\<rparr>"

definition empty_world :: ck_world where
  "empty_world = \<lparr>ck_objects = [], ck_files = [], ck_tick = 0\<rparr>"

lemma sample_ck_env_ok: "plain_env sample_ck_env" "steady sample_ck_env"
  by (auto simp: plain_env_def steady_def sample_ck_env_def plain_def slash_def validSHA256_def hex_char_def list_all_iff
      dest: arg_cong[of _ _ set])

lemma sample_reader: "NewReader ''/ck'' = Inr \<lparr>rd_prefix = ''ck''\<rparr>"
  by code_simp

theorem sparse_scan_is_exact_witness:
  "putDisk sample_ck_env sample_Writer ''sb'' ''d'' (empty_world\<lparr>ck_files := sample_files\<rparr>)
   = putDisk (sample_ck_env\<lparr>ck_seek := \<lambda>n. SeekUnsupported\<rparr>) sample_Writer ''sb'' ''d'' (empty_world\<lparr>ck_files := sample_files\<rparr>)"
  by (rule sparse_scan_is_exact[OF sample_ck_env_ok(2)]) (simp_all add: sample_Writer_def sample_ck_env_def)

theorem restore_reads_own_objects_witness:
  "fst (ck_Restore sample_ck_env \<lparr>rd_prefix = ''ck''\<rparr> ''sb'' [] sample_paths ((empty_world\<lparr>ck_objects := [(''ck/other'', Blob [1])]\<rparr>)\<lparr>ck_objects := []\<rparr>))
     = fst (ck_Restore sample_ck_env \<lparr>rd_prefix = ''ck''\<rparr> ''sb'' [] sample_paths (empty_world\<lparr>ck_objects := [(''ck/other'', Blob [1])]\<rparr>))"
proof -
  have "path_Join [''ck'', ''sb''] @ [slash] = ''ck/sb/''" by code_simp
  then have "\<forall>k. has_prefix k (path_Join [rd_prefix \<lparr>rd_prefix = ''ck''\<rparr>, ''sb''] @ [slash])
      \<longrightarrow> mget [] k = mget (ck_objects (empty_world\<lparr>ck_objects := [(''ck/other'', Blob [1])]\<rparr>)) k"
    by (auto simp: has_prefix_def)
  from restore_reads_own_objects[OF sample_reader sample_ck_env_ok(1) this] show ?thesis by blast
qed

end
