(* ===== verification/Checkpoint_Roundtrip.thy ===== *)
theory Checkpoint_Roundtrip
  imports Checkpoint_Safety
begin

text \<open>
  A checkpoint that was saved is restored byte for byte. The invariant \<open>store_ok\<close> says what the
  objects of a prefix look like after any saves, failed ones included; a save keeps it and every
  earlier generation.
\<close>

section \<open>What an upload of chunks does\<close>

lemma ck_tick_le: "ck_Put E k x w = (r, w') \<Longrightarrow> ck_tick w' = Suc (ck_tick w) \<and> ck_files w' = ck_files w"
  by (auto simp: ck_Put_def ck_step_def Let_def)

lemma Put_objects:
  assumes "ck_Put E k x w = (r, w')"
  shows "ck_objects w' = mput k x (ck_objects w) \<or> r \<noteq> None \<and> ck_objects w' = ck_objects w"
  using assms by (auto simp: ck_Put_def ck_step_def Let_def split: if_splits)

lemma Stat_reads: "ck_Stat E k w = (r, w') \<Longrightarrow> reads_only w w' \<and> (\<forall>b. r = Inr b \<longrightarrow> b = (mget (ck_objects w) k \<noteq> None))"
  by (auto simp: ck_Stat_def ck_step_def reads_only_def split: option.splits)

definition chunks_named :: "ck_env \<Rightarrow> string \<Rightarrow> (string, obj) gomap \<Rightarrow> bool" where
  "chunks_named E P objs \<longleftrightarrow>
     (\<forall>sid d x. plain sid \<and> plain d \<and> mget objs (chunk_key P sid d) = Some x \<longrightarrow> (\<exists>b. x = Blob b \<and> ck_sha256 E b = d))"

definition chunk_ok :: "ck_env \<Rightarrow> string \<Rightarrow> string \<Rightarrow> (string, obj) gomap \<Rightarrow> DiskChunk \<Rightarrow> bool" where
  "chunk_ok E P sid objs c \<longleftrightarrow> dc_Key c = chunk_key P sid (dc_SHA256 c)
     \<and> (\<exists>b. mget objs (dc_Key c) = Some (Blob b) \<and> ck_sha256 E b = dc_SHA256 c)"

text \<open>Objects are added, all of them from \<open>K\<close>, and none is changed.\<close>

definition grown :: "(string \<times> obj) set \<Rightarrow> (string, obj) gomap \<Rightarrow> (string, obj) gomap \<Rightarrow> bool" where
  "grown K objs objs' \<longleftrightarrow> (\<forall>k x. mget objs k = Some x \<longrightarrow> mget objs' k = Some x)
     \<and> (\<forall>k x. mget objs' k = Some x \<longrightarrow> mget objs k = Some x \<or> (k, x) \<in> K)"

lemma grown_refl [simp]: "grown K objs objs"
  by (simp add: grown_def)

lemma grown_trans: "grown K a b \<Longrightarrow> grown L b c \<Longrightarrow> grown (K \<union> L) a c"
  by (auto simp: grown_def) blast

lemma grown_step: "grown K a b \<Longrightarrow> grown K b c \<Longrightarrow> grown K a c"
  using grown_trans[of K a b K c] by simp

lemma grown_keeps: "grown K a b \<Longrightarrow> mget a k = Some x \<Longrightarrow> mget b k = Some x"
  by (simp add: grown_def)

lemma grown_mput: "mget objs k = None \<Longrightarrow> (k, x) \<in> K \<Longrightarrow> grown K objs (mput k x objs)"
  by (auto simp: grown_def split: if_splits)

definition chunk_objs :: "ck_env \<Rightarrow> string \<Rightarrow> string \<Rightarrow> (string \<times> obj) set" where
  "chunk_objs E P sid = {(k, x). \<exists>b. k = chunk_key P sid (ck_sha256 E b) \<and> x = Blob b}"

lemma chunk_ok_grown: "chunk_ok E P sid a c \<Longrightarrow> grown K a b \<Longrightarrow> chunk_ok E P sid b c"
  by (auto simp: chunk_ok_def dest: grown_keeps)

lemma plain_sha: "plain_env E \<Longrightarrow> plain (ck_sha256 E b)"
  by (simp add: plain_env_def validSHA256_plain)

lemma chunk_key_inject:
  assumes "good_prefix P" "plain sid" "plain d" "plain sid'" "plain d'"
  shows "chunk_key P sid d = chunk_key P sid' d' \<longleftrightarrow> sid = sid' \<and> d = d'"
  using assms key_inject[of "[sid, ''disk-chunks'', d]" "[sid', ''disk-chunks'', d']" P] by (simp add: keys)

definition generation_key :: "string \<Rightarrow> string \<Rightarrow> string \<Rightarrow> string \<Rightarrow> string" where
  "generation_key P sid g n = key_of P [sid, ''generations'', g, n]"

definition generation_objs :: "string \<Rightarrow> string \<Rightarrow> string \<Rightarrow> (string \<times> obj) set" where
  "generation_objs P sid g = {(k, x). \<exists>n. plain n \<and> k = generation_key P sid g n}"

lemma generation_objs_I: "plain n \<Longrightarrow> {generation_key P sid g n} \<times> UNIV \<subseteq> generation_objs P sid g"
  by (auto simp: generation_objs_def)

lemma keys_apart:
  assumes "good_prefix P" "plain sid" "plain s" "plain g"
  shows "plain d \<Longrightarrow> plain n \<Longrightarrow> chunk_key P s d \<noteq> generation_key P sid g n"
    and "plain n \<Longrightarrow> latest_key P s \<noteq> generation_key P sid g n"
    and "plain d \<Longrightarrow> latest_key P s \<noteq> chunk_key P sid d"
  using assms by (simp_all add: keys generation_key_def key_inject)

lemma generation_key_inject:
  assumes "plain sid" "plain g" "plain n" "plain sid'" "plain g'" "plain n'"
  shows "generation_key P sid g n = generation_key P sid' g' n' \<longleftrightarrow> sid = sid' \<and> g = g' \<and> n = n'"
  using assms by (simp add: generation_key_def key_inject)

lemma chunks_named_grown:
  assumes P: "good_prefix P" "plain sid" "plain g" and E: "plain_env E" and a: "chunks_named E P a"
    and g: "grown (chunk_objs E P sid \<union> generation_objs P sid g) a b"
  shows "chunks_named E P b"
  unfolding chunks_named_def
proof (intro allI impI, elim conjE)
  fix s d x assume s: "plain s" "plain d" "mget b (chunk_key P s d) = Some x"
  have "(chunk_key P s d, x) \<notin> generation_objs P sid g"
    using keys_apart(1)[OF P(1,2) s(1) P(3) s(2)] by (auto simp: generation_objs_def)
  with s(3) g have "mget a (chunk_key P s d) = Some x \<or>
      (\<exists>y. chunk_key P s d = chunk_key P sid (ck_sha256 E y) \<and> x = Blob y)" by (auto simp: grown_def chunk_objs_def)
  then show "\<exists>y. x = Blob y \<and> ck_sha256 E y = d"
    using a s chunk_key_inject[OF P(1) s(1,2) P(2) plain_sha[OF E]] by (auto simp: chunks_named_def)
qed

lemma grown_mono: "grown K a b \<Longrightarrow> K \<subseteq> L \<Longrightarrow> grown L a b"
  unfolding grown_def by blast

lemma grown_fresh: "grown K a b \<Longrightarrow> mget a k = None \<Longrightarrow> (\<And>x. (k, x) \<notin> K) \<Longrightarrow> mget b k = None"
  by (metis grown_def not_None_eq)

lemma store_chunk_effect:
  assumes P: "wr_prefix W = P" "good_prefix P" "plain sid" and E: "plain_env E" and named: "chunks_named E P (ck_objects w)"
    and prev: "\<And>c. mget prev (int i) = Some c \<Longrightarrow> chunk_ok E P sid (ck_objects w) c"
    and r: "store_chunk E W sid prev i data w = (r, w')"
  shows "grown (chunk_objs E P sid) (ck_objects w) (ck_objects w') \<and> ck_files w' = ck_files w \<and> ck_tick w \<le> ck_tick w'
     \<and> (\<forall>key. r = Inr key \<longrightarrow> key = chunk_key P sid (ck_sha256 E data)
           \<and> (\<exists>b. mget (ck_objects w') key = Some (Blob b) \<and> ck_sha256 E b = ck_sha256 E data))"
proof -
  let ?k = "chunk_key P sid (ck_sha256 E data)"
  note sha = plain_sha[OF E]
  obtain st w1 where s: "ck_Stat E ?k w = (st, w1)" by fastforce
  obtain pr w2 where p: "ck_Put E ?k (Blob data) w1 = (pr, w2)" by fastforce
  note S = Stat_reads[OF s] note T = ck_tick_le[OF p] note O = Put_objects[OF p]
  have up: "grown (chunk_objs E P sid) (ck_objects w) (ck_objects w') \<and> ck_files w' = ck_files w \<and> ck_tick w \<le> ck_tick w'
     \<and> (\<forall>key. r = Inr key \<longrightarrow> key = ?k
           \<and> (\<exists>b. mget (ck_objects w') key = Some (Blob b) \<and> ck_sha256 E b = ck_sha256 E data))"
    if u: "(case ck_Stat E ?k w of
             (Inl e, w1) \<Rightarrow> (Inl (f1 e), w1)
           | (Inr True, w1) \<Rightarrow> (Inr ?k, w1)
           | (Inr False, w1) \<Rightarrow>
               (case ck_Put E ?k (Blob data) w1 of
                  (Some e, w2) \<Rightarrow> (Inl (f2 e), w2)
                | (None, w2) \<Rightarrow> (Inr ?k, w2))) = (r, w')" for f1 f2
  proof (cases st)
    case (Inl e)
    with u s S show ?thesis by (auto simp: reads_only_def)
  next
    case (Inr b)
    show ?thesis
    proof (cases b)
      case True
      with u s S Inr have "r = Inr ?k" "w' = w1" "mget (ck_objects w) ?k \<noteq> None" by auto
      moreover from this(3) named P(3) sha obtain y where "mget (ck_objects w) ?k = Some (Blob y)" "ck_sha256 E y = ck_sha256 E data"
        unfolding chunks_named_def by (metis option.exhaust)
      ultimately show ?thesis using S by (auto simp: reads_only_def)
    next
      case False
      have none: "mget (ck_objects w1) ?k = None" using S Inr False by (auto simp: reads_only_def)
      have "w' = w2" "r = Inr ?k \<and> pr = None \<or> isl r \<and> pr \<noteq> None"
        using u s p Inr False by (auto split: option.splits)
      moreover have "grown (chunk_objs E P sid) (ck_objects w1) (ck_objects w2)"
        using O grown_mput[OF none, of "Blob data" "chunk_objs E P sid"] by (auto simp: chunk_objs_def)
      moreover have "pr = None \<Longrightarrow> mget (ck_objects w2) ?k = Some (Blob data)" using O by auto
      ultimately show ?thesis using S T by (auto simp: reads_only_def)
    qed
  qed
  note R = r[unfolded store_chunk_def Let_def P(1)]
  show ?thesis
  proof (cases "mget prev (int i)")
    case None
    show ?thesis by (rule up[OF R[unfolded None option.case]])
  next
    case (Some old)
    show ?thesis
    proof (cases "dc_SHA256 old = ck_sha256 E data")
      case True
      with R Some have "r = Inr (dc_Key old)" "w' = w" by simp_all
      with prev[OF Some] True show ?thesis by (auto simp: chunk_ok_def)
    next
      case False
      show ?thesis by (rule up[OF R[unfolded Some option.case if_not_P[OF False]]])
    qed
  qed
qed

definition chunk_of :: "ck_env \<Rightarrow> string \<Rightarrow> string \<Rightarrow> nat \<Rightarrow> bytes \<Rightarrow> nat \<Rightarrow> DiskChunk" where
  "chunk_of E P sid cs bs i =
     (let data = chunk_data cs bs i in
      \<lparr>dc_Index = int i, dc_Key = chunk_key P sid (ck_sha256 E data), dc_SizeBytes = int (length data),
       dc_SHA256 = ck_sha256 E data\<rparr>)"

definition nonzero :: "nat \<Rightarrow> bytes \<Rightarrow> nat \<Rightarrow> bool" where
  "nonzero cs bs i \<longleftrightarrow> \<not> isZero (chunk_data cs bs i)"

lemma put_chunks_effect:
  assumes P: "wr_prefix W = P" "good_prefix P" "plain sid" and E: "plain_env E"
    and "chunks_named E P (ck_objects w)"
    and "\<forall>i c. mget prev i = Some c \<longrightarrow> chunk_ok E P sid (ck_objects w) c"
    and "put_chunks E W sid prev bs idx w = (r, w')"
  shows "grown (chunk_objs E P sid) (ck_objects w) (ck_objects w') \<and> ck_files w' = ck_files w
     \<and> ck_tick w \<le> ck_tick w'
     \<and> (\<forall>cs. r = Inr cs \<longrightarrow> cs = map (chunk_of E P sid (wr_chunkSize W) bs) (filter (nonzero (wr_chunkSize W) bs) idx)
           \<and> list_all (chunk_ok E P sid (ck_objects w')) cs)"
  using assms(5-)
proof (induction idx arbitrary: w r w')
  case (Cons i idx)
  let ?d = "chunk_data (wr_chunkSize W) bs i"
  show ?case
  proof (cases "ck_fault E (ck_tick w) ''context'' = None \<and> ck_fault E (ck_tick w) ''read'' = None \<and> \<not> isZero ?d")
    case False
    then have "isl r \<and> w' = w \<or> isZero ?d \<and> put_chunks E W sid prev bs idx w = (r, w')"
      using Cons.prems(3) by (auto split: option.splits simp: Let_def)
    with Cons.IH[OF Cons.prems(1,2)] show ?thesis by (auto simp: nonzero_def)
  next
    case True
    obtain q w1 where s: "store_chunk E W sid prev i ?d w = (q, w1)" by fastforce
    have pv0: "chunk_ok E P sid (ck_objects w) c" if "mget prev (int i) = Some c" for c
      using Cons.prems(2) that by blast
    note S = store_chunk_effect[OF P E Cons.prems(1) pv0 s]
    have g1: "grown (chunk_objs E P sid) (ck_objects w) (ck_objects w1)" using S by blast
    show ?thesis
    proof (cases q)
      case (Inl e)
      with True Cons.prems(3) s have "isl r \<and> w' = w1" by (auto simp: Let_def)
      with g1 S show ?thesis by auto
    next
      case (Inr key)
      obtain q2 w2 where p: "put_chunks E W sid prev bs idx w1 = (q2, w2)" by fastforce
      have n1: "chunks_named E P (ck_objects w1)" 
        by (rule chunks_named_grown[OF P(2,3) P(3) E Cons.prems(1) grown_mono[OF g1]]) simp
      have pv: "\<forall>j c. mget prev j = Some c \<longrightarrow> chunk_ok E P sid (ck_objects w1) c"
        using chunk_ok_grown[OF _ g1] Cons.prems(2) by blast
      note I = Cons.IH[OF n1 pv p]
      have k: "key = chunk_key P sid (ck_sha256 E ?d)" using S Inr by blast
      have ok: "chunk_ok E P sid (ck_objects w2) (chunk_of E P sid (wr_chunkSize W) bs i)"
        using S Inr I by (auto simp: chunk_ok_def chunk_of_def Let_def dest: grown_keeps)
      have rw: "w' = w2 \<and> r = map_sum id (\<lambda>cs. chunk_of E P sid (wr_chunkSize W) bs i # cs) q2"
        using Cons.prems(3) True s p Inr k by (cases q2) (auto simp: Let_def chunk_of_def)
      show ?thesis
        using rw I grown_step[OF g1] S ok True by (cases q2) (auto simp: nonzero_def)
    qed
  qed
qed auto

section \<open>The invariant of a prefix\<close>

definition stored_as :: "ck_env \<Rightarrow> (string, obj) gomap \<Rightarrow> string \<Rightarrow> bytes \<Rightarrow> Artifact \<Rightarrow> bool" where
  "stored_as E objs key bs a \<longleftrightarrow>
     a = \<lparr>af_Key = key, af_SizeBytes = int (length bs), af_SHA256 = ck_sha256 E bs\<rparr> \<and> mget objs key = Some (Blob bs)"

text \<open>A description of a disk that lists its non-zero chunks, once each.\<close>

definition disk_of :: "ck_env \<Rightarrow> string \<Rightarrow> string \<Rightarrow> nat \<Rightarrow> bytes \<Rightarrow> WritableDisk \<Rightarrow> bool" where
  "disk_of E P sid cs bs d \<longleftrightarrow> bs \<noteq> [] \<and> wd_LogicalSizeBytes d = int (length bs) \<and> wd_ChunkSizeBytes d = int cs
     \<and> wd_Chunks d = map (chunk_of E P sid cs bs) (filter (nonzero cs bs) (chunk_run cs 0 (length bs)))"

text \<open>A whole generation in the store, the manifest included.\<close>

definition saved ::
    "ck_env \<Rightarrow> string \<Rightarrow> nat \<Rightarrow> (string, obj) gomap \<Rightarrow> string \<Rightarrow> string \<Rightarrow> Resources \<Rightarrow> ResumeMetadata
     \<Rightarrow> bytes \<Rightarrow> bytes \<Rightarrow> bytes \<Rightarrow> bool" where
  "saved E P cs objs sid key res meta snap mem disk \<longleftrightarrow>
     (\<exists>g m. plain g \<and> key = generation_key P sid g ''manifest.json'' \<and> mget objs key = Some (ManifestDoc m)
        \<and> mf_Version m = manifestVersion \<and> mf_SandboxID m = sid \<and> mf_Resources m = res \<and> mf_Resume m = meta
        \<and> stored_as E objs (generation_key P sid g ''vmstate.snap'') snap (mf_Snapshot m)
        \<and> stored_as E objs (generation_key P sid g ''memory.mem'') mem (mf_Memory m)
        \<and> disk_of E P sid cs disk (mf_WritableDisk m)
        \<and> list_all (chunk_ok E P sid objs) (wd_Chunks (mf_WritableDisk m)))"

definition pointer_ok :: "ck_env \<Rightarrow> string \<Rightarrow> nat \<Rightarrow> (string, obj) gomap \<Rightarrow> string \<Rightarrow> obj \<Rightarrow> bool" where
  "pointer_ok E P cs objs sid x \<longleftrightarrow>
     (\<exists>p res meta snap mem disk. x = PointerDoc p \<and> ap_SandboxID p = sid
        \<and> saved E P cs objs sid (ap_ManifestKey p) res meta snap mem disk)"

definition store_ok :: "ck_env \<Rightarrow> string \<Rightarrow> nat \<Rightarrow> ck_world \<Rightarrow> bool" where
  "store_ok E P cs w \<longleftrightarrow> chunks_named E P (ck_objects w)
     \<and> (\<forall>sid x. plain sid \<and> mget (ck_objects w) (latest_key P sid) = Some x \<longrightarrow> pointer_ok E P cs (ck_objects w) sid x)
     \<and> (\<forall>sid g n. plain sid \<and> plain g \<and> plain n \<and> mget (ck_objects w) (generation_key P sid g n) \<noteq> None
          \<longrightarrow> (\<exists>t < ck_tick w. g = ck_uuid E t))"

lemma store_ok_empty: "ck_objects w = [] \<Longrightarrow> store_ok E P cs w"
  by (simp add: store_ok_def chunks_named_def)

text \<open>Objects other than the pointers stay as they are.\<close>

lemma stored_as_grown: "stored_as E a k bs x \<Longrightarrow> grown K a b \<Longrightarrow> stored_as E b k bs x"
  by (auto simp: stored_as_def dest: grown_keeps)

definition objs_kept :: "string \<Rightarrow> (string, obj) gomap \<Rightarrow> (string, obj) gomap \<Rightarrow> bool" where
  "objs_kept P objs objs' \<longleftrightarrow>
     (\<forall>k x. mget objs k = Some x \<and> (\<forall>sid. plain sid \<longrightarrow> k \<noteq> latest_key P sid) \<longrightarrow> mget objs' k = Some x)"

lemma objs_kept_refl [simp]: "objs_kept P a a"
  by (simp add: objs_kept_def)

lemma objs_kept_trans: "objs_kept P a b \<Longrightarrow> objs_kept P b c \<Longrightarrow> objs_kept P a c"
  by (simp add: objs_kept_def)

lemma grown_kept: "grown K a b \<Longrightarrow> objs_kept P a b"
  by (simp add: objs_kept_def grown_def)

lemma kept_pointer: "plain sid \<Longrightarrow> objs_kept P a (mput (latest_key P sid) x a)"
  by (auto simp: objs_kept_def)

lemma kept_generation:
  "objs_kept P a b \<Longrightarrow> good_prefix P \<Longrightarrow> plain sid \<Longrightarrow> plain g \<Longrightarrow> plain n \<Longrightarrow> mget a (generation_key P sid g n) = Some x
     \<Longrightarrow> mget b (generation_key P sid g n) = Some x"
  unfolding objs_kept_def by (metis keys_apart(2))

lemma kept_chunk:
  assumes "objs_kept P a b" "good_prefix P" "plain sid" "plain_env E" "chunk_ok E P sid a c"
  shows "chunk_ok E P sid b c"
proof -
  obtain y where y: "mget a (dc_Key c) = Some (Blob y)" "ck_sha256 E y = dc_SHA256 c" "dc_Key c = chunk_key P sid (dc_SHA256 c)"
    using assms(5) by (auto simp: chunk_ok_def)
  have "plain (dc_SHA256 c)" using plain_sha[OF assms(4), of y] y(2) by simp
  then have "latest_key P s \<noteq> dc_Key c" if "plain s" for s
    using keys_apart(3)[OF assms(2,3) that assms(3)] y(3) by simp
  then have "mget b (dc_Key c) = Some (Blob y)" using assms(1) y(1) unfolding objs_kept_def by metis
  with y show ?thesis by (auto simp: chunk_ok_def)
qed

lemma saved_kept:
  assumes "saved E P cs a sid k res meta snap mem disk" "objs_kept P a b" and P: "good_prefix P" "plain sid" "plain_env E"
  shows "saved E P cs b sid k res meta snap mem disk"
proof -
  obtain g m where g: "plain g" "k = generation_key P sid g ''manifest.json''" "mget a k = Some (ManifestDoc m)"
    "mf_Version m = manifestVersion" "mf_SandboxID m = sid" "mf_Resources m = res" "mf_Resume m = meta"
    "stored_as E a (generation_key P sid g ''vmstate.snap'') snap (mf_Snapshot m)"
    "stored_as E a (generation_key P sid g ''memory.mem'') mem (mf_Memory m)"
    "disk_of E P sid cs disk (mf_WritableDisk m)" "list_all (chunk_ok E P sid a) (wd_Chunks (mf_WritableDisk m))"
    using assms(1) unfolding saved_def by blast
  note K = kept_generation[OF assms(2) P(1,2) g(1)]
  have st: "stored_as E b (generation_key P sid g n) x art"
    if "plain n" "stored_as E a (generation_key P sid g n) x art" for n x art
    using that K by (simp add: stored_as_def)
  have ch: "list_all (chunk_ok E P sid b) (wd_Chunks (mf_WritableDisk m))"
    using g(11) kept_chunk[OF assms(2) P(1,2,3)] by (auto simp: list_all_iff)
  show ?thesis
    unfolding saved_def using g K st ch by (intro exI[of _ g] exI[of _ m]) simp
qed

lemma pointer_ok_kept:
  "pointer_ok E P cs a sid x \<Longrightarrow> objs_kept P a b \<Longrightarrow> good_prefix P \<Longrightarrow> plain sid \<Longrightarrow> plain_env E \<Longrightarrow> pointer_ok E P cs b sid x"
  unfolding pointer_ok_def by (blast intro: saved_kept)

lemma store_ok_grown:
  assumes P: "good_prefix P" "plain_env E" "plain sid" and w: "store_ok E P cs w"
    and g: "grown (chunk_objs E P sid \<union> generation_objs P sid g) (ck_objects w) (ck_objects w')"
    and t: "ck_tick w \<le> ck_tick w'" "g = ck_uuid E t" "t < ck_tick w'"
  shows "store_ok E P cs w'"
proof -
  have pg: "plain g" using P(2) t(2) by (simp add: plain_env_def)
  have "chunks_named E P (ck_objects w')"
    using chunks_named_grown[OF P(1,3) pg P(2) _ g] w by (simp add: store_ok_def)
  moreover have "pointer_ok E P cs (ck_objects w') s x" if "plain s" "mget (ck_objects w') (latest_key P s) = Some x" for s x
  proof -
    have "(latest_key P s, x) \<notin> chunk_objs E P sid \<union> generation_objs P sid g"
      using keys_apart(2,3)[OF P(1,3) that(1) pg] plain_sha[OF P(2)] by (auto simp: chunk_objs_def generation_objs_def)
    with that(2) g have "mget (ck_objects w) (latest_key P s) = Some x" by (auto simp: grown_def)
    with w that(1) have "pointer_ok E P cs (ck_objects w) s x" by (simp add: store_ok_def)
    then show ?thesis by (rule pointer_ok_kept[OF _ grown_kept[OF g] P(1) that(1) P(2)])
  qed
  moreover have "\<exists>u < ck_tick w'. h = ck_uuid E u"
    if h: "plain s" "plain h" "plain n" "mget (ck_objects w') (generation_key P s h n) \<noteq> None" for s h n
  proof (cases "mget (ck_objects w) (generation_key P s h n)")
    case None
    with h(4) g have "generation_key P s h n \<in> fst ` (chunk_objs E P sid \<union> generation_objs P sid g)"
      by (force simp: grown_def)
    then have "\<exists>n'. plain n' \<and> generation_key P s h n = generation_key P sid g n'"
      using keys_apart(1)[OF P(1) h(1) P(3) h(2) plain_sha[OF P(2)] h(3)] unfolding chunk_objs_def generation_objs_def by fastforce
    then have "h = g" using generation_key_inject[OF h(1-3) P(3) pg] by auto
    with t show ?thesis by blast
  next
    case (Some x)
    with w h obtain u where "u < ck_tick w" "h = ck_uuid E u" unfolding store_ok_def by blast
    with t(1) show ?thesis by (auto intro!: exI[of _ u])
  qed
  ultimately show ?thesis unfolding store_ok_def by blast
qed

lemma previousChunks_ok:
  assumes "store_ok E P cs w" "wr_prefix W = P" "plain sid" "previousChunks E W sid w = (prev, w')"
  shows "reads_only w w' \<and> (\<forall>i c. mget prev i = Some c \<longrightarrow> chunk_ok E P sid (ck_objects w) c)"
proof -
  have fold: "\<exists>x \<in> set xs. x = c" if "mget (foldl (\<lambda>r c. mput (dc_Index c) c r) [] xs) i = Some c" for xs i c
    using that by (induction xs rule: rev_induct) (auto split: if_splits)
  obtain x w1 where g: "ck_Get E (latest_key P sid) w = (x, w1)" by fastforce
  note R = Get_reads[OF g]
  show ?thesis
  proof (cases "prev = []")
    case True
    with assms(2,4) g R show ?thesis
      by (auto simp: previousChunks_def split: sum.splits if_splits prod.splits dest: Get_reads intro: reads_only_trans)
  next
    case False
    with assms(2,4) g obtain y p k m w2 where q: "x = Inr y" "decode_pointer y = Inr p" "ap_ManifestKey p = k"
      "ck_Get E k w1 = (Inr m, w2)" "w' = w2"
      "\<exists>mf. decode_manifest m = Inr mf \<and> prev = foldl (\<lambda>r c. mput (dc_Index c) c r) [] (wd_Chunks (mf_WritableDisk mf))"
      by (auto simp: previousChunks_def split: sum.splits if_splits prod.splits)
    have "mget (ck_objects w) (latest_key P sid) = Some y" using g q(1) by (auto simp: ck_Get_def split: option.splits)
    then have "pointer_ok E P cs (ck_objects w) sid y" using assms(1,3) by (simp add: store_ok_def)
    then obtain mf where mf: "mget (ck_objects w) k = Some (ManifestDoc mf)" "list_all (chunk_ok E P sid (ck_objects w)) (wd_Chunks (mf_WritableDisk mf))"
      using q(2,3) by (auto simp: pointer_ok_def saved_def decode_pointer_def)
    have "m = ManifestDoc mf" using q(4) mf(1) R by (auto simp: ck_Get_def reads_only_def split: option.splits)
    with q(6) have "prev = foldl (\<lambda>r c. mput (dc_Index c) c r) [] (wd_Chunks (mf_WritableDisk mf))" by (simp add: decode_manifest_def)
    with fold mf(2) have "\<forall>i c. mget prev i = Some c \<longrightarrow> chunk_ok E P sid (ck_objects w) c" by (auto simp: list_all_iff)
    with reads_only_trans[OF R Get_reads[OF q(4)]] q(5) show ?thesis by simp
  qed
qed

section \<open>What a save does\<close>

lemma open_file_found: "open_file E w p = Inr f \<Longrightarrow> mget (ck_files w) p = Some f"
  by (auto simp: open_file_def split: option.splits)

lemma Put_fresh:
  assumes "ck_Put E k x w = (r, w')" "mget (ck_objects w) k = None"
  shows "grown ({k} \<times> UNIV) (ck_objects w) (ck_objects w') \<and> ck_files w' = ck_files w \<and> ck_tick w \<le> ck_tick w'
     \<and> (r = None \<longrightarrow> mget (ck_objects w') k = Some x)"
  using Put_objects[OF assms(1)] ck_tick_le[OF assms(1)] grown_mput[OF assms(2), of x "{k} \<times> UNIV"] by auto

lemma putFile_effect:
  assumes "putFile E k p w = (r, w')" "mget (ck_objects w) k = None"
  shows "grown ({k} \<times> UNIV) (ck_objects w) (ck_objects w') \<and> ck_files w' = ck_files w \<and> ck_tick w \<le> ck_tick w'
     \<and> (\<forall>a. r = Inr a \<longrightarrow> (\<exists>f. mget (ck_files w) p = Some f \<and> stored_as E (ck_objects w') k (content f) a))"
proof (cases "open_file E w p")
  case (Inl e)
  with assms(1) show ?thesis by (auto simp: putFile_def)
next
  case (Inr f)
  obtain q w1 where q: "ck_Put E k (Blob (content f)) w = (q, w1)" by fastforce
  have "w' = w1" "\<forall>a. r = Inr a \<longrightarrow> q = None
      \<and> a = \<lparr>af_Key = k, af_SizeBytes = int (length f), af_SHA256 = ck_sha256 E (content f)\<rparr>"
    using assms(1) Inr q by (auto simp: putFile_def split: option.splits)
  then show ?thesis
    using Put_fresh[OF q assms(2)] open_file_found[OF Inr] by (auto simp: stored_as_def content_def)
qed

lemma putDisk_effect:
  assumes P: "wr_prefix W = P" "good_prefix P" "plain sid" "plain_env E" and cs: "0 < wr_chunkSize W"
    and ok: "store_ok E P cs' w" and r: "putDisk E W sid p w = (r, w')"
  shows "grown (chunk_objs E P sid) (ck_objects w) (ck_objects w') \<and> ck_files w' = ck_files w \<and> ck_tick w \<le> ck_tick w'
     \<and> (\<forall>d. r = Inr d \<longrightarrow> (\<exists>f. mget (ck_files w) p = Some f \<and> disk_of E P sid (wr_chunkSize W) (content f) d
            \<and> list_all (chunk_ok E P sid (ck_objects w')) (wd_Chunks d)))"
proof -
  have "isl r \<and> w' = w \<or> (\<exists>f idx prev w1 q. open_file E w p = Inr f \<and> f \<noteq> [] \<and> previousChunks E W sid w = (prev, w1)
      \<and> allocatedChunkIndices E (ck_tick w) f (wr_chunkSize W) = Inr idx
      \<and> put_chunks E W sid prev (content f) idx w1 = (q, w')
      \<and> r = map_sum id (\<lambda>chunks. \<lparr>wd_LogicalSizeBytes = int (length f), wd_ChunkSizeBytes = int (wr_chunkSize W),
                               wd_Chunks = chunks\<rparr>) q)"
    using r by (auto simp: putDisk_def split: sum.splits if_splits prod.splits)
  then show ?thesis
  proof (elim disjE exE conjE)
    fix f idx prev w1 q
    assume a: "open_file E w p = Inr f" "f \<noteq> []" "previousChunks E W sid w = (prev, w1)"
      "allocatedChunkIndices E (ck_tick w) f (wr_chunkSize W) = Inr idx"
      "put_chunks E W sid prev (content f) idx w1 = (q, w')"
      "r = map_sum id (\<lambda>chunks. \<lparr>wd_LogicalSizeBytes = int (length f), wd_ChunkSizeBytes = int (wr_chunkSize W),
                               wd_Chunks = chunks\<rparr>) q"
    note prev = previousChunks_ok[OF ok P(1,3) a(3)]
    have "chunks_named E P (ck_objects w1)" "\<forall>i c. mget prev i = Some c \<longrightarrow> chunk_ok E P sid (ck_objects w1) c"
      using prev ok by (auto simp: reads_only_def store_ok_def)
    note eff = put_chunks_effect[OF P this a(5)]
    have "filter (nonzero (wr_chunkSize W) (content f)) idx
        = filter (nonzero (wr_chunkSize W) (content f)) (chunk_run (wr_chunkSize W) 0 (length (content f)))"
      using a(4) scanned_chunks[OF cs, of f]
      by (auto simp: allocatedChunkIndices_def nonzero_def[abs_def] content_def split: seek_mode.splits)
    then show ?thesis
      using eff prev a(2,6) open_file_found[OF a(1)]
      by (cases q) (auto simp: reads_only_def disk_of_def content_def)
  qed auto
qed

lemma store_ok_pointer:
  assumes P: "good_prefix P" "plain_env E" "plain sid" and ok: "store_ok E P cs w"
    and ptr: "pointer_ok E P cs (ck_objects w) sid x" and t: "ck_tick w \<le> ck_tick w'"
    and w': "ck_objects w' = mput (latest_key P sid) x (ck_objects w)"
  shows "store_ok E P cs w'"
proof -
  have k: "objs_kept P (ck_objects w) (ck_objects w')" unfolding w' by (rule kept_pointer[OF P(3)])
  have "pointer_ok E P cs (ck_objects w') s y" if s: "plain s" "mget (ck_objects w') (latest_key P s) = Some y" for s y
  proof -
    have "pointer_ok E P cs (ck_objects w) s y"
      using s ok ptr w' P(1,3) by (auto simp: store_ok_def keys key_inject split: if_splits)
    then show ?thesis by (rule pointer_ok_kept[OF _ k P(1) s(1) P(2)])
  qed
  moreover have "chunks_named E P (ck_objects w')"
    unfolding chunks_named_def
  proof (intro allI impI, elim conjE)
    fix s d y assume a: "plain s" "plain d" "mget (ck_objects w') (chunk_key P s d) = Some y"
    then have "mget (ck_objects w) (chunk_key P s d) = Some y"
      using w' keys_apart(3)[OF P(1) a(1) P(3) P(3) a(2)] by simp
    with ok a(1,2) show "\<exists>b. y = Blob b \<and> ck_sha256 E b = d" by (simp add: store_ok_def chunks_named_def)
  qed
  moreover have "\<exists>u < ck_tick w'. g = ck_uuid E u"
    if g: "plain s" "plain g" "plain n" "mget (ck_objects w') (generation_key P s g n) \<noteq> None" for s g n
  proof -
    have "mget (ck_objects w) (generation_key P s g n) \<noteq> None"
      using g(4) w' keys_apart(2)[OF P(1) g(1) P(3) g(2,3)] by simp
    with ok g(1-3) obtain u where "u < ck_tick w" "g = ck_uuid E u" unfolding store_ok_def by blast
    with t show ?thesis by (auto intro!: exI[of _ u])
  qed
  ultimately show ?thesis unfolding store_ok_def by blast
qed

definition resources_of :: "Input \<Rightarrow> Resources" where
  "resources_of inp = \<lparr>res_VCPUs = in_VCPUs inp, res_MemoryMB = in_MemoryMB inp, res_DiskGB = in_DiskGB inp\<rparr>"

definition resume_of :: "Input \<Rightarrow> ResumeMetadata" where
  "resume_of inp = \<lparr>rm_RootfsPath = in_RootfsPath inp, rm_VsockPath = in_VsockPath inp, rm_TapName = in_TapName inp\<rparr>"

lemma commit_effect:
  assumes P: "wr_prefix W = P" "good_prefix P" "plain_env E" "plain sid" and sid: "in_SandboxID inp = sid" and g: "g = ck_uuid E t" "t < ck_tick w"
    and ok: "store_ok E P cs w" and fresh: "mget (ck_objects w) (generation_key P sid g ''manifest.json'') = None"
    and snap: "stored_as E (ck_objects w) (generation_key P sid g ''vmstate.snap'') bs1 a1"
    and mem: "stored_as E (ck_objects w) (generation_key P sid g ''memory.mem'') bs2 a2"
    and disk: "disk_of E P sid cs bs3 d" "list_all (chunk_ok E P sid (ck_objects w)) (wd_Chunks d)"
    and r: "commit_checkpoint E W inp g now a1 a2 d w = (r, w')"
  shows "store_ok E P cs w' \<and> objs_kept P (ck_objects w) (ck_objects w') \<and> ck_files w' = ck_files w
     \<and> (\<forall>key. r = Inr key \<longrightarrow> saved E P cs (ck_objects w') sid key (resources_of inp) (resume_of inp) bs1 bs2 bs3)"
proof -
  let ?mk = "generation_key P sid g ''manifest.json''"
  have pg: "plain g" using P(3) g(1) by (simp add: plain_env_def)
  have key: "path_Join [generation_base P sid g, ''manifest.json''] = ?mk"
    using keys(4)[OF P(2,4) pg] by (simp add: generation_key_def)
  define m where "m = \<lparr>mf_Version = manifestVersion, mf_SandboxID = sid, mf_Generation = g, mf_CreatedAt = now,
     mf_Resources = resources_of inp, mf_Resume = resume_of inp, mf_Snapshot = a1, mf_Memory = a2, mf_WritableDisk = d\<rparr>"
  define p where "p = \<lparr>ap_Version = manifestVersion, ap_SandboxID = sid, ap_Generation = g, ap_ManifestKey = ?mk, ap_UpdatedAt = now\<rparr>"
  obtain q1 w1 where q1: "ck_Put E ?mk (ManifestDoc m) w = (q1, w1)" by fastforce
  obtain q2 w2 where q2: "ck_Put E (latest_key P sid) (PointerDoc p) w1 = (q2, w2)" by fastforce
  note F = Put_fresh[OF q1 fresh]
  have run: "isl r \<and> q1 \<noteq> None \<and> w' = w1 \<or> q1 = None \<and> w' = w2 \<and> (\<forall>k. r = Inr k \<longrightarrow> q2 = None \<and> k = ?mk)"
    using r q1 q2 unfolding commit_checkpoint_def sid P(1) Let_def key resources_of_def[symmetric] resume_of_def[symmetric]
      m_def[symmetric] p_def[symmetric] by (auto split: option.splits)
  have gr: "grown (chunk_objs E P sid \<union> generation_objs P sid g) (ck_objects w) (ck_objects w1)"
    using F grown_mono[OF _ le_supI2[OF generation_objs_I]] plain_names(4) by blast
  have ok1: "store_ok E P cs w1" using store_ok_grown[OF P(2,3,4) ok gr _ g(1)] F g(2) by simp
  have sv: "saved E P cs (ck_objects w1) sid ?mk (resources_of inp) (resume_of inp) bs1 bs2 bs3" if "q1 = None"
  proof -
    have "mget (ck_objects w1) ?mk = Some (ManifestDoc m)" using F that by simp
    moreover have "stored_as E (ck_objects w1) k bs x" if "stored_as E (ck_objects w) k bs x" for k bs x
      using that grown_keeps[OF gr] by (auto simp: stored_as_def)
    moreover have "list_all (chunk_ok E P sid (ck_objects w1)) (wd_Chunks d)"
      using disk(2) chunk_ok_grown[OF _ gr] by (auto simp: list_all_iff)
    ultimately show ?thesis unfolding saved_def using pg snap mem disk(1)
      by (intro exI[of _ g] exI[of _ m]) (simp add: m_def)
  qed
  from run show ?thesis
  proof (elim disjE conjE)
    assume "isl r" "w' = w1"
    with ok1 grown_kept[OF gr] F show ?thesis by auto
  next
    assume a: "q1 = None" "w' = w2" "\<forall>k. r = Inr k \<longrightarrow> q2 = None \<and> k = ?mk"
    have ptr: "pointer_ok E P cs (ck_objects w1) sid (PointerDoc p)" 
      unfolding pointer_ok_def using sv[OF a(1)] by (simp add: p_def) blast
    have k2: "objs_kept P (ck_objects w1) (ck_objects w2)"
      using Put_objects[OF q2] kept_pointer[OF P(4)] by auto
    have "store_ok E P cs w2" using Put_objects[OF q2]
    proof
      assume "ck_objects w2 = mput (latest_key P sid) (PointerDoc p) (ck_objects w1)"
      from store_ok_pointer[OF P(2-4) ok1 ptr _ this] ck_tick_le[OF q2] show ?thesis by simp
    next
      assume "q2 \<noteq> None \<and> ck_objects w2 = ck_objects w1"
      with store_ok_grown[OF P(2-4) ok1 _ _ g(1), of w2] ck_tick_le[OF q2] F g(2) show ?thesis by auto
    qed
    with a k2 F ck_tick_le[OF q2] objs_kept_trans[OF grown_kept[OF gr] k2] saved_kept[OF sv[OF a(1)] k2 P(2,4,3)] show ?thesis by auto
  qed
qed

lemma save_effect:
  assumes P: "wr_prefix W = P" "good_prefix P" and E: "plain_env E" "inj (ck_uuid E)" and cs: "0 < wr_chunkSize W"
    and ok: "store_ok E P (wr_chunkSize W) w0" and r: "ck_Save E W inp w0 = (r, w')"
  shows "store_ok E P (wr_chunkSize W) w' \<and> objs_kept P (ck_objects w0) (ck_objects w') \<and> ck_files w' = ck_files w0
     \<and> (\<forall>key. r = Inr key \<longrightarrow> ck_uuid_Parse E (in_SandboxID inp) = None \<and> (\<exists>s m d. mget (ck_files w0) (in_SnapshotPath inp) = Some s
           \<and> mget (ck_files w0) (in_MemoryPath inp) = Some m \<and> mget (ck_files w0) (in_WritableDiskPath inp) = Some d
           \<and> saved E P (wr_chunkSize W) (ck_objects w') (in_SandboxID inp) key (resources_of inp) (resume_of inp)
               (content s) (content m) (content d)))"
proof (cases "ck_uuid_Parse E (in_SandboxID inp) = None \<and> in_SnapshotPath inp \<noteq> [] \<and> in_MemoryPath inp \<noteq> [] \<and> in_WritableDiskPath inp \<noteq> []")
  case False
  with r have "w' = w0 \<and> isl r" by (auto simp: ck_Save_def split: option.splits)
  with ok show ?thesis by auto
next
  case True
  define sid g w where "sid = in_SandboxID inp" and "g = ck_uuid E (ck_tick w0)" and "w = ck_step w0"
  let ?G = "generation_key P sid g" and ?K = "chunk_objs E P sid \<union> generation_objs P sid g" and ?cs = "wr_chunkSize W"
  have sid: "plain sid" and pg: "plain g" using True E(1) by (simp_all add: plain_env_def sid_def g_def)
  have w: "ck_objects w = ck_objects w0" "ck_files w = ck_files w0" "ck_tick w = Suc (ck_tick w0)" by (simp_all add: w_def ck_step_def)
  have fresh: "mget (ck_objects w) (?G n) = None" if n: "plain n" for n
  proof (rule ccontr)
    assume "mget (ck_objects w) (?G n) \<noteq> None"
    then obtain u where "u < ck_tick w0" "g = ck_uuid E u" using ok sid pg n w(1) unfolding store_ok_def by metis
    with E(2) show False by (auto simp: g_def inj_eq)
  qed
  obtain q1 w1 where q1: "putFile E (?G ''vmstate.snap'') (in_SnapshotPath inp) w = (q1, w1)" by fastforce
  obtain q2 w2 where q2: "putFile E (?G ''memory.mem'') (in_MemoryPath inp) w1 = (q2, w2)" by fastforce
  obtain q3 w3 where q3: "putDisk E W sid (in_WritableDiskPath inp) w2 = (q3, w3)" by fastforce
  have run: "isl r \<and> (w' = w1 \<or> w' = w2 \<or> w' = w3) \<or> (\<exists>a1 a2 d. q1 = Inr a1 \<and> q2 = Inr a2 \<and> q3 = Inr d
      \<and> commit_checkpoint E W inp g (ck_now E (ck_tick w0)) a1 a2 d w3 = (r, w'))"
    using r True q1 q2 q3 keys(4)[OF P(2) sid pg] unfolding ck_Save_def
    by (auto simp: P(1) Let_def generation_key_def[symmetric] sid_def[symmetric] g_def[symmetric] w_def[symmetric] split: sum.splits)
  note F1 = putFile_effect[OF q1 fresh[OF plain_names(5)]]
  have n2: "mget (ck_objects w1) (?G ''memory.mem'') = None"
    using grown_fresh[of _ "ck_objects w"] F1 fresh[OF plain_names(6)] generation_key_inject[OF sid pg _ sid pg] by fastforce
  note F2 = putFile_effect[OF q2 n2]
  have g2: "grown ({?G ''vmstate.snap''} \<times> UNIV \<union> {?G ''memory.mem''} \<times> UNIV) (ck_objects w) (ck_objects w2)"
    using grown_trans F1 F2 by blast
  have keep: "store_ok E P ?cs u \<and> objs_kept P (ck_objects w0) (ck_objects u)"
    if "grown L (ck_objects w) (ck_objects u)" "L \<subseteq> ?K" "ck_tick w \<le> ck_tick u" for L u
    using store_ok_grown[OF P(2) E(1) sid ok, of g u "ck_tick w0"] grown_mono[OF that(1,2)] that(3) w
      grown_kept[OF that(1)] by (simp add: g_def)
  have s2: "{?G ''vmstate.snap''} \<times> UNIV \<union> {?G ''memory.mem''} \<times> UNIV \<subseteq> ?K"
    using generation_objs_I[OF plain_names(5)] generation_objs_I[OF plain_names(6)] by blast
  have ok1: "store_ok E P ?cs w1 \<and> objs_kept P (ck_objects w0) (ck_objects w1)" using keep[of _ w1] F1 s2 by blast
  have ok2: "store_ok E P ?cs w2 \<and> objs_kept P (ck_objects w0) (ck_objects w2)"
    using keep[OF g2 s2] F1 F2 by linarith
  note F3 = putDisk_effect[OF P sid E(1) cs conjunct1[OF ok2] q3]
  have g3: "grown ({?G ''vmstate.snap''} \<times> UNIV \<union> {?G ''memory.mem''} \<times> UNIV \<union> chunk_objs E P sid) (ck_objects w) (ck_objects w3)"
    using grown_trans[OF g2] F3 by blast
  have ok3: "store_ok E P ?cs w3 \<and> objs_kept P (ck_objects w0) (ck_objects w3)"
    using keep[OF g3] s2 F1 F2 F3 by force
  have files: "ck_files w1 = ck_files w0" "ck_files w2 = ck_files w0" "ck_files w3 = ck_files w0" using F1 F2 F3 w by simp_all
  from run show ?thesis
  proof (elim disjE conjE exE)
    fix a1 a2 d
    assume q: "q1 = Inr a1" "q2 = Inr a2" "q3 = Inr d"
      and c: "commit_checkpoint E W inp g (ck_now E (ck_tick w0)) a1 a2 d w3 = (r, w')"
    obtain s m f where files0: "mget (ck_files w0) (in_SnapshotPath inp) = Some s" "mget (ck_files w0) (in_MemoryPath inp) = Some m"
        "mget (ck_files w0) (in_WritableDiskPath inp) = Some f"
      and st: "stored_as E (ck_objects w1) (?G ''vmstate.snap'') (content s) a1"
        "stored_as E (ck_objects w2) (?G ''memory.mem'') (content m) a2"
      and dk: "disk_of E P sid ?cs (content f) d" "list_all (chunk_ok E P sid (ck_objects w3)) (wd_Chunks d)"
      using q F1 F2 F3 files w by auto
    have st3: "stored_as E (ck_objects w3) (?G ''vmstate.snap'') (content s) a1"
        "stored_as E (ck_objects w3) (?G ''memory.mem'') (content m) a2"
      using st F2 F3 stored_as_grown by blast+
    have fr: "mget (ck_objects w3) (?G ''manifest.json'') = None"
      using grown_fresh[OF g3 fresh[OF plain_names(4)]] generation_key_inject[OF sid pg _ sid pg]
        keys_apart(1)[OF P(2) sid sid pg plain_sha[OF E(1)] plain_names(4)] by (fastforce simp: chunk_objs_def)
    have tk: "ck_tick w0 < ck_tick w3" using F1 F2 F3 w by simp
    note C = commit_effect[OF P E(1) sid sid_def[symmetric] g_def tk conjunct1[OF ok3] fr st3 dk c]
    have "objs_kept P (ck_objects w0) (ck_objects w')" using objs_kept_trans ok3 C by blast
    with C files files0 True show ?thesis unfolding sid_def by auto
  qed (use ok1 ok2 ok3 files in auto)
qed

section \<open>A restore without faults\<close>

definition quiet :: "ck_env \<Rightarrow> bool" where
  "quiet E \<longleftrightarrow> (\<forall>n s. ck_fault E n s = None)"

lemma quiet_Get: "quiet E \<Longrightarrow> mget (ck_objects w) k = Some x \<Longrightarrow> ck_Get E k w = (Inr x, ck_step w)"
  by (simp add: quiet_def ck_Get_def)

lemma wrap64_nat: "n < 2 ^ 62 \<Longrightarrow> wrap64 (int n) = int n"
  by (intro wrap64_id) auto

lemma read_all: "length bs < 2 ^ 62 \<Longrightarrow> read_limited E (Blob bs) (int (length bs)) = bs"
  by (simp add: read_limited_def obj_bytes_def wrap64_id)

lemma download_ok:
  assumes "quiet E'" "ck_sha256 E' = ck_sha256 E" "plain_env E" "length bs < 2 ^ 62"
    and "stored_as E (ck_objects w) k bs a" "validateObjectKey R sid k = None"
  shows "downloadArtifact E' R sid a w = (Inr bs, ck_step w)"
proof -
  have a: "a = \<lparr>af_Key = k, af_SizeBytes = int (length bs), af_SHA256 = ck_sha256 E bs\<rparr>" "mget (ck_objects w) k = Some (Blob bs)"
    using assms(5) by (simp_all add: stored_as_def)
  have "validateArtifact R sid a = None" using a assms(3,6) by (simp add: validateArtifact_def plain_env_def)
  moreover have "copyVerified E' a w = (Inr bs, ck_step w)"
    using a quiet_Get[OF assms(1) a(2)] read_all[OF assms(4)] assms(1,2) by (simp add: copyVerified_def quiet_def)
  ultimately show ?thesis using assms(1) by (simp add: downloadArtifact_def quiet_def)
qed

lemma chunk_len: "i * cs < length bs \<Longrightarrow> length (chunk_data cs bs i) = min cs (length bs - i * cs)"
  by (simp add: chunk_data_def)

lemma chunk_offset_exact:
  assumes "i * cs < length bs" "length bs < 2 ^ 62" "wd_ChunkSizeBytes d = int cs" "dc_Index c = int i"
  shows "chunk_offset d c = int (i * cs)"
proof -
  have "i * cs < 2 ^ 62" using assms(1,2) by (rule less_trans)
  then show ?thesis using assms(3,4) wrap64_nat[of "i * cs"] by (simp add: chunk_offset_def)
qed

lemma write_chunk:
  assumes "length acc = length bs" "i * cs < length bs" "0 < cs"
  shows "length (write_at (i * cs) (chunk_data cs bs i) acc) = length bs
     \<and> (\<forall>p < length bs. write_at (i * cs) (chunk_data cs bs i) acc ! p = (if p div cs = i then bs ! p else acc ! p))"
proof -
  let ?d = "chunk_data cs bs i"
  have len: "length ?d = min cs (length bs - i * cs)" by (rule chunk_len[OF assms(2)])
  then have "?d \<noteq> []" using assms(2,3) by auto
  then have w: "write_at (i * cs) ?d acc = take (i * cs) acc @ ?d @ drop (i * cs + length ?d) acc"
    using assms(1,2) by (simp add: write_at_def)
  have "write_at (i * cs) ?d acc ! p = (if p div cs = i then bs ! p else acc ! p)" if p: "p < length bs" for p
  proof -
    have eq: "p div cs = i \<longleftrightarrow> i * cs \<le> p \<and> p < i * cs + cs"
      using assms(3) div_nat_eqI[of cs i p] dividend_less_div_times[of cs p] div_times_less_eq_dividend[of p cs]
      by (metis mult_Suc_right add.commute mult.commute)
    consider "p < i * cs" | "i * cs \<le> p" "p < i * cs + cs" | "i * cs + cs \<le> p" by linarith
    then show ?thesis
    proof cases
      case 1
      then show ?thesis unfolding w using eq p assms(1) by (simp add: nth_append)
    next
      case 2
      then have "p - i * cs < length ?d" using len p by auto
      with 2 show ?thesis unfolding w using eq p assms(1) chunk_data_nth[of "p - i * cs" cs bs i] by (simp add: nth_append)
    next
      case 3
      then have "length ?d = cs" "\<not> p - i * cs < cs" using len p by auto
      with 3 show ?thesis unfolding w using eq p assms(1) by (simp add: nth_append)
    qed
  qed
  moreover have "length (write_at (i * cs) ?d acc) = length bs" unfolding w using assms(1,2) len by auto
  ultimately show ?thesis by blast
qed

lemma check_chunks_pass:
  assumes R: "rd_prefix R = P" "good_prefix P" "plain sid" "plain_env E" and bs: "length bs < 2 ^ 62"
    and d: "wd_LogicalSizeBytes d = int (length bs)" "wd_ChunkSizeBytes d = int cs"
    and idx: "sorted_wrt (<) idx" "\<forall>i \<in> set idx. i * cs < length bs \<and> prev < int i"
  shows "check_chunks R sid d prev (map (chunk_of E P sid cs bs) idx) = None"
  using idx
proof (induction idx arbitrary: prev)
  case (Cons i idx)
  let ?c = "chunk_of E P sid cs bs i" and ?sha = "ck_sha256 E (chunk_data cs bs i)"
  have i: "i * cs < length bs" "prev < int i" using Cons.prems(2) by simp_all
  define n where "n = i * cs"
  have off: "chunk_offset d ?c = int n" unfolding n_def
    by (rule chunk_offset_exact[OF i(1) bs d(2)]) (simp add: chunk_of_def Let_def)
  have "validateObjectKey R sid (chunk_key P sid ?sha) = None"
    using own_key[of R sid "[''disk-chunks'', ?sha]"] R plain_sha[OF R(4)] keys(2)[OF R(2,3)] by simp
  moreover have "int (length (chunk_data cs bs i)) = min (int cs) (int (length bs) - int n)" "n < length bs"
    using i(1) by (simp_all only: chunk_len n_def of_nat_min of_nat_diff less_imp_le)
  moreover have "check_chunks R sid d (int i) (map (chunk_of E P sid cs bs) idx) = None"
    using Cons.IH[of "int i"] Cons.prems by simp
  moreover have "validSHA256 ?sha" using R(4) by (simp add: plain_env_def)
  moreover have "dc_Index ?c = int i" "dc_Key ?c = chunk_key P sid ?sha" "dc_SizeBytes ?c = int (length (chunk_data cs bs i))"
    "dc_SHA256 ?c = ?sha" by (simp_all add: chunk_of_def Let_def)
  ultimately show ?case using i(2) d off by (simp add: Let_def)
qed simp

lemma fill_chunks_ok:
  assumes q: "quiet E'" "ck_sha256 E' = ck_sha256 E" and bs: "length bs < 2 ^ 62" and cs: "0 < cs"
    and d: "wd_ChunkSizeBytes d = int cs"
    and ok: "\<forall>i \<in> set idx. i * cs < length bs \<and> mget (ck_objects w) (dc_Key (chunk_of E P sid cs bs i)) = Some (Blob (chunk_data cs bs i))"
    and acc: "length acc = length bs"
  shows "\<exists>acc' w'. fill_chunks E' d (map (chunk_of E P sid cs bs) idx) acc w = (Inr acc', w') \<and> length acc' = length bs
     \<and> (\<forall>p < length bs. acc' ! p = (if p div cs \<in> set idx then bs ! p else acc ! p))"
  using ok acc
proof (induction idx arbitrary: acc w)
  case (Cons i idx)
  let ?c = "chunk_of E P sid cs bs i" and ?data = "chunk_data cs bs i"
  have i: "i * cs < length bs" "mget (ck_objects w) (dc_Key ?c) = Some (Blob ?data)" using Cons.prems(1) by simp_all
  have "length ?data \<le> length bs" by (simp add: chunk_data_def)
  then have "length ?data < 2 ^ 62" using bs by (rule le_less_trans)
  then have rd: "read_limited E' (Blob ?data) (dc_SizeBytes ?c) = ?data" by (simp add: read_all chunk_of_def Let_def)
  have "chunk_offset d ?c = int (i * cs)"
    by (rule chunk_offset_exact[OF i(1) bs d]) (simp add: chunk_of_def Let_def)
  then have off: "nat (chunk_offset d ?c) = i * cs" by (simp only: nat_int)
  note W = write_chunk[OF Cons.prems(2) i(1) cs]
  obtain acc' w' where f: "fill_chunks E' d (map (chunk_of E P sid cs bs) idx) (write_at (i * cs) ?data acc) (ck_step w) = (Inr acc', w')"
    "length acc' = length bs"
    "\<forall>p < length bs. acc' ! p = (if p div cs \<in> set idx then bs ! p else write_at (i * cs) ?data acc ! p)"
    using Cons.IH[of "ck_step w" "write_at (i * cs) ?data acc"] Cons.prems(1) W by (auto simp: ck_step_def)
  have "fill_chunks E' d (map (chunk_of E P sid cs bs) (i # idx)) acc w = (Inr acc', w')"
    using f(1) q quiet_Get[OF q(1) i(2)] rd off by (simp add: quiet_def Let_def) (simp add: chunk_of_def Let_def)
  with f(2,3) W show ?case by auto
qed simp

text \<open>No other object of the store has the digest of a non-zero chunk of this disk.\<close>

definition no_collision :: "ck_env \<Rightarrow> nat \<Rightarrow> bytes \<Rightarrow> (string, obj) gomap \<Rightarrow> bool" where
  "no_collision E cs bs objs \<longleftrightarrow>
     (\<forall>k b i. mget objs k = Some (Blob b) \<and> i * cs < length bs \<and> nonzero cs bs i
        \<and> ck_sha256 E b = ck_sha256 E (chunk_data cs bs i) \<longrightarrow> b = chunk_data cs bs i)"

lemma nonzero_covers:
  assumes "0 < cs" "p < length bs" "p div cs \<notin> set (filter (nonzero cs bs) (chunk_run cs 0 (length bs)))"
  shows "bs ! p = 0"
proof -
  have "p div cs * cs < length bs" using assms(2) by (metis div_times_less_eq_dividend le_less_trans)
  with assms(1,3) have z: "isZero (chunk_data cs bs (p div cs))" by (auto simp: set_chunk_run nonzero_def)
  have "p mod cs < length (chunk_data cs bs (p div cs))"
    using assms(1,2) by (simp add: chunk_data_def) (metis add_less_cancel_left div_mult_mod_eq less_diff_conv add.commute)
  with z chunk_data_nth[OF this] show ?thesis by (auto simp: isZero_def list_all_length)
qed

lemma reconstruct_ok:
  assumes q: "quiet E'" "ck_sha256 E' = ck_sha256 E" and R: "rd_prefix R = P" "good_prefix P" "plain sid" "plain_env E"
    and bs: "length bs < 2 ^ 62" and cs: "0 < cs"
    and d: "disk_of E P sid cs bs d" "list_all (chunk_ok E P sid (ck_objects w)) (wd_Chunks d)" "no_collision E cs bs (ck_objects w)"
  shows "\<exists>w'. reconstructDisk E' R sid d w = (Inr bs, w')"
proof -
  define idx where "idx = filter (nonzero cs bs) (chunk_run cs 0 (length bs))"
  let ?cs = "map (chunk_of E P sid cs bs) idx"
  have D: "wd_LogicalSizeBytes d = int (length bs)" "wd_ChunkSizeBytes d = int cs" "wd_Chunks d = ?cs" "bs \<noteq> []"
    using d(1) by (simp_all add: disk_of_def idx_def)
  have sorted: "sorted_wrt (<) idx" by (simp add: idx_def chunk_run_upt[OF cs] sorted_wrt_filter)
  have inside: "i * cs < length bs" if "i \<in> set idx" for i using that cs by (simp add: idx_def set_chunk_run)
  have "sorted (map dc_Index ?cs)" using sorted
    by (simp add: chunk_of_def Let_def comp_def sorted_map sorted_wrt_mono_rel[of _ "(<)"])
  then have srt: "sort_key dc_Index (wd_Chunks d) = ?cs" unfolding D(3) by (rule sort_key_id_if_sorted)
  have chk: "check_chunks R sid d (- 1) ?cs = None"
    by (rule check_chunks_pass[OF R bs D(1,2) sorted]) (use inside in auto)
  have obj: "mget (ck_objects w) (dc_Key (chunk_of E P sid cs bs i)) = Some (Blob (chunk_data cs bs i))" if "i \<in> set idx" for i
  proof -
    have "chunk_ok E P sid (ck_objects w) (chunk_of E P sid cs bs i)" using d(2) that unfolding D(3) by (auto simp: list_all_iff)
    then obtain b where b: "mget (ck_objects w) (dc_Key (chunk_of E P sid cs bs i)) = Some (Blob b)"
      "ck_sha256 E b = ck_sha256 E (chunk_data cs bs i)" by (auto simp: chunk_ok_def chunk_of_def Let_def)
    moreover have "nonzero cs bs i" using that by (simp add: idx_def)
    ultimately have "b = chunk_data cs bs i" using d(3) inside[OF that] unfolding no_collision_def by blast
    with b(1) show ?thesis by simp
  qed
  have "\<forall>i \<in> set idx. i * cs < length bs \<and> mget (ck_objects w) (dc_Key (chunk_of E P sid cs bs i)) = Some (Blob (chunk_data cs bs i))"
    using inside obj by blast
  from fill_chunks_ok[OF q bs cs D(2) this, of "replicate (length bs) 0"] obtain acc w' where
    f: "fill_chunks E' d ?cs (replicate (length bs) 0) w = (Inr acc, w')" "length acc = length bs"
      "\<forall>p < length bs. acc ! p = (if p div cs \<in> set idx then bs ! p else replicate (length bs) 0 ! p)" by auto
  have "acc = bs" using f(2,3) nonzero_covers[OF cs] by (intro nth_equalityI) (auto simp: idx_def)
  with f(1) q(1) srt chk D cs show ?thesis by (auto simp: reconstructDisk_def quiet_def Let_def)
qed

text \<open>A generation in the store is restored, whatever else the store holds.\<close>

lemma restore_saved:
  assumes q: "quiet E'" "ck_sha256 E' = ck_sha256 E" "ck_uuid_Parse E' sid = None"
    and R: "rd_prefix R = P" "good_prefix P" "plain sid" "plain_env E" and cs: "0 < cs"
    and sv: "saved E P cs (ck_objects w) sid key res meta snap mem disk" and coll: "no_collision E cs disk (ck_objects w)"
    and len: "length snap < 2 ^ 62" "length mem < 2 ^ 62" "length disk < 2 ^ 62"
    and dst: "[] \<notin> {rp_Snapshot dst, rp_Memory dst, rp_WritableDisk dst}"
      "distinct [rp_Snapshot dst, rp_Memory dst, rp_WritableDisk dst]"
  shows "\<exists>w'. ck_Restore E' R sid key dst w = (Inr \<lparr>rr_ManifestKey = key, rr_Resources = res, rr_Resume = meta, rr_Paths = dst\<rparr>, w')
    \<and> mget (ck_files w') (rp_Snapshot dst) = Some (map Some snap) \<and> mget (ck_files w') (rp_Memory dst) = Some (map Some mem)
    \<and> mget (ck_files w') (rp_WritableDisk dst) = Some (map Some disk)"
proof -
  obtain g m where g: "plain g" "key = generation_key P sid g ''manifest.json''" "mget (ck_objects w) key = Some (ManifestDoc m)"
    "mf_Version m = manifestVersion" "mf_SandboxID m = sid" "mf_Resources m = res" "mf_Resume m = meta"
    "stored_as E (ck_objects w) (generation_key P sid g ''vmstate.snap'') snap (mf_Snapshot m)"
    "stored_as E (ck_objects w) (generation_key P sid g ''memory.mem'') mem (mf_Memory m)"
    "disk_of E P sid cs disk (mf_WritableDisk m)" "list_all (chunk_ok E P sid (ck_objects w)) (wd_Chunks (mf_WritableDisk m))"
    using sv unfolding saved_def by blast
  have own: "validateObjectKey R sid (generation_key P sid g n) = None" if "plain n" for n
    using own_key[of R sid "[''generations'', g, n]"] R g(1) that by (simp add: generation_key_def)
  have obj: "ck_objects (ck_step u) = ck_objects u" "ck_files (ck_step u) = ck_files u" for u by (simp_all add: ck_step_def)
  let ?w1 = "ck_step w" let ?w2 = "ck_step ?w1" let ?w3 = "ck_step ?w2"
  have dl: "downloadArtifact E' R sid (mf_Snapshot m) ?w1 = (Inr snap, ?w2)" "downloadArtifact E' R sid (mf_Memory m) ?w2 = (Inr mem, ?w3)"
    using download_ok[OF q(1,2) R(4) len(1) _ own] download_ok[OF q(1,2) R(4) len(2) _ own] g(8,9) by (simp_all add: obj)
  obtain w4 where rc: "reconstructDisk E' R sid (mf_WritableDisk m) ?w3 = (Inr disk, w4)"
    using reconstruct_ok[OF q(1,2) R len(3) cs g(10), of ?w3] g(11) coll by (auto simp: obj)
  have files: "ck_files w4 = ck_files w" using reconstruct_reads[OF rc] by (simp add: reads_only_def obj)
  obtain w5 where ra: "restoreArtifacts E' R sid dst (mf_Snapshot m) (mf_Memory m) None (mf_WritableDisk m) ?w1 = (None, w5)"
    "ck_files w5 = mput (rp_WritableDisk dst) (map Some disk) (mput (rp_Memory dst) (map Some mem) (mput (rp_Snapshot dst) (map Some snap) (ck_files w)))"
    using dl rc q(1) files by (auto simp: restoreArtifacts_def quiet_def obj)
  have ne: "key \<noteq> []" unfolding g(2) by (simp add: generation_key_def key_of_def)
  have "ck_Restore E' R sid key dst w = (Inr \<lparr>rr_ManifestKey = key, rr_Resources = res, rr_Resume = meta, rr_Paths = dst\<rparr>, w5)"
    using q(3) dst(1) quiet_Get[OF q(1) g(3)] own[OF plain_names(4)] ra(1) g(4-7) ne unfolding g(2)[symmetric]
    by (auto simp: ck_Restore_def restore_manifest_def decode_header_def decode_manifest_def restored_def manifestVersion_def)
  with ra(2) dst(2) show ?thesis by auto
qed

text \<open>Saves one after another, each of any sandbox and on a worker with any local files.\<close>

fun run_saves :: "ck_env \<Rightarrow> Writer \<Rightarrow> (Input \<times> (string, sparse_file) gomap) list \<Rightarrow> ck_world \<Rightarrow> ck_world" where
  "run_saves E W [] w = w"
| "run_saves E W ((inp, fs) # rest) w = run_saves E W rest (snd (ck_Save E W inp (w\<lparr>ck_files := fs\<rparr>)))"

lemma store_ok_files: "store_ok E P cs w \<Longrightarrow> store_ok E P cs (w\<lparr>ck_files := fs\<rparr>)"
  by (simp add: store_ok_def) blast

lemma length_content [simp]: "length (content f) = length f"
  by (simp add: content_def)

lemma run_saves_ok:
  assumes "good_prefix (wr_prefix W)" "plain_env E" "inj (ck_uuid E)" "0 < wr_chunkSize W"
    and "store_ok E (wr_prefix W) (wr_chunkSize W) w"
  shows "store_ok E (wr_prefix W) (wr_chunkSize W) (run_saves E W saves w)
     \<and> objs_kept (wr_prefix W) (ck_objects w) (ck_objects (run_saves E W saves w))"
  using assms(5)
proof (induction saves arbitrary: w)
  case (Cons a saves)
  obtain inp fs where a: "a = (inp, fs)" by fastforce
  obtain r w' where s: "ck_Save E W inp (w\<lparr>ck_files := fs\<rparr>) = (r, w')" by fastforce
  from save_effect[OF refl assms(1-4) store_ok_files[OF Cons.prems] s] Cons.IH[of w'] a s
  show ?case by (auto intro: objs_kept_trans)
qed simp

text \<open>
  C30: A checkpoint that was saved can be restored, byte for byte. Take any saves, failed ones
  included, of any sandboxes, then a save that returns a key, then any further saves: a restore of that
  key without I/O errors, on a worker with any local files, succeeds and gives back the resources, the resume
  data and the contents of the three files. It is assumed that UUIDs are fresh and that SHA-256 does not
  collide on the chunks of this disk and the objects of the store; files are shorter than \<open>2 ^ 62\<close> bytes.
\<close>

theorem checkpoint_roundtrip:
  assumes "NewReader p = Inr R" "wr_prefix W = rd_prefix R" "0 < wr_chunkSize W" and "plain_env E" "inj (ck_uuid E)"
    and "ck_objects w0 = []"
    and saved: "ck_Save E W inp ((run_saves E W before w0)\<lparr>ck_files := fs\<rparr>) = (Inr key, w1)"
    and "mget fs (in_SnapshotPath inp) = Some s" "mget fs (in_MemoryPath inp) = Some m" "mget fs (in_WritableDiskPath inp) = Some d"
    and "length s < 2 ^ 62" "length m < 2 ^ 62" "length d < 2 ^ 62"
    and "no_collision E (wr_chunkSize W) (content d) (ck_objects (run_saves E W after w1))"
    and "quiet E'" "ck_sha256 E' = ck_sha256 E" "ck_uuid_Parse E' = ck_uuid_Parse E"
    and "[] \<notin> {rp_Snapshot dst, rp_Memory dst, rp_WritableDisk dst}"
      "distinct [rp_Snapshot dst, rp_Memory dst, rp_WritableDisk dst]"
  shows "\<exists>w'. ck_Restore E' R (in_SandboxID inp) key dst ((run_saves E W after w1)\<lparr>ck_files := fs'\<rparr>)
      = (Inr \<lparr>rr_ManifestKey = key, rr_Resources = resources_of inp, rr_Resume = resume_of inp, rr_Paths = dst\<rparr>, w')
    \<and> mget (ck_files w') (rp_Snapshot dst) = Some (map Some (content s))
    \<and> mget (ck_files w') (rp_Memory dst) = Some (map Some (content m))
    \<and> mget (ck_files w') (rp_WritableDisk dst) = Some (map Some (content d))"
proof -
  have good: "good_prefix (wr_prefix W)" using NewReader_good[OF assms(1)] assms(2) by simp
  note run = run_saves_ok[OF good assms(4,5,3)]
  note S = save_effect[OF refl good assms(4,5,3) store_ok_files[OF conjunct1[OF run[OF store_ok_empty[OF assms(6)]]]] saved]
  have pl: "ck_uuid_Parse E (in_SandboxID inp) = None" "plain (in_SandboxID inp)"
    and ok: "store_ok E (wr_prefix W) (wr_chunkSize W) w1"
    and sv: "saved E (wr_prefix W) (wr_chunkSize W) (ck_objects w1) (in_SandboxID inp) key (resources_of inp) (resume_of inp)
        (content s) (content m) (content d)"
    using S assms(4,8-10) by (auto simp: plain_env_def)
  have "saved E (wr_prefix W) (wr_chunkSize W) (ck_objects (run_saves E W after w1)) (in_SandboxID inp) key
        (resources_of inp) (resume_of inp) (content s) (content m) (content d)"
    by (rule saved_kept[OF sv conjunct2[OF run[OF ok]] good pl(2) assms(4)])
  then have "saved E (wr_prefix W) (wr_chunkSize W) (ck_objects ((run_saves E W after w1)\<lparr>ck_files := fs'\<rparr>)) (in_SandboxID inp) key
        (resources_of inp) (resume_of inp) (content s) (content m) (content d)" by simp
  from restore_saved[OF assms(15,16) _ assms(2)[symmetric] good pl(2) assms(4,3) this _ _ _ _ assms(18,19)]
  show ?thesis using assms(11-14,17) pl(1) by simp
qed

section \<open>The sample store\<close>

lemma sample_more: "inj (ck_uuid sample_ck_env)" "quiet sample_ck_env"
  by (auto simp: quiet_def sample_ck_env_def intro!: injI dest: arg_cong[of _ _ length])

lemma sample_no_collision: "no_collision sample_ck_env 1 (content [None, Some 7, Some 0]) objs"
  by (auto simp: no_collision_def sample_ck_env_def content_def chunk_data_def nonzero_def isZero_def less_Suc_eq numeral_3_eq_3)

definition sample_saved :: ck_world where
  "sample_saved = run_saves sample_ck_env sample_Writer [(sample_Input, sample_files)] empty_world"

lemma sample_save:
  "ck_Save sample_ck_env sample_Writer sample_Input (sample_saved\<lparr>ck_files := sample_files\<rparr>)
     = (Inr ''ck/sb/generations/ggggggggg/manifest.json'',
        snd (ck_Save sample_ck_env sample_Writer sample_Input (sample_saved\<lparr>ck_files := sample_files\<rparr>)))"
proof -
  have "fst (ck_Save sample_ck_env sample_Writer sample_Input (sample_saved\<lparr>ck_files := sample_files\<rparr>))
      = Inr ''ck/sb/generations/ggggggggg/manifest.json''" by code_simp
  then show ?thesis by (metis prod.collapse)
qed

theorem checkpoint_roundtrip_witness:
  "\<exists>w'. ck_Restore sample_ck_env \<lparr>rd_prefix = ''ck''\<rparr> ''sb'' ''ck/sb/generations/ggggggggg/manifest.json'' sample_paths
      ((run_saves sample_ck_env sample_Writer [(sample_Input, [])]
          (snd (ck_Save sample_ck_env sample_Writer sample_Input (sample_saved\<lparr>ck_files := sample_files\<rparr>))))\<lparr>ck_files := []\<rparr>)
      = (Inr \<lparr>rr_ManifestKey = ''ck/sb/generations/ggggggggg/manifest.json'', rr_Resources = resources_of sample_Input,
            rr_Resume = resume_of sample_Input, rr_Paths = sample_paths\<rparr>, w')
    \<and> mget (ck_files w') ''S'' = Some [Some 5] \<and> mget (ck_files w') ''M'' = Some [Some 6, Some 0]
    \<and> mget (ck_files w') ''D'' = Some [Some 0, Some 7, Some 0]"
proof -
  have "in_SandboxID sample_Input = ''sb''" "in_SnapshotPath sample_Input = ''s''" "in_MemoryPath sample_Input = ''m''"
    "in_WritableDiskPath sample_Input = ''d''" "wr_chunkSize sample_Writer = 1" "wr_prefix sample_Writer = ''ck''"
    "ck_objects empty_world = []" by (simp_all add: sample_Input_def sample_Writer_def empty_world_def)
  moreover have "mget sample_files ''s'' = Some [Some 5]" "mget sample_files ''m'' = Some [Some 6, None]"
    "mget sample_files ''d'' = Some [None, Some 7, Some 0]" by code_simp+
  moreover have "rp_Snapshot sample_paths = ''S''" "rp_Memory sample_paths = ''M''" "rp_WritableDisk sample_paths = ''D''"
    by (simp_all add: sample_paths_def)
  ultimately show ?thesis
    using checkpoint_roundtrip[OF sample_reader, of sample_Writer,
        OF _ _ sample_ck_env_ok(1) sample_more(1) _ sample_save[unfolded sample_saved_def], where s = "[Some 5]" and m = "[Some 6, None]"
          and d = "[None, Some 7, Some 0]" and after = "[(sample_Input, [])]" and E' = sample_ck_env and dst = sample_paths
          and fs' = "[]"]
      sample_no_collision sample_more(2) by (simp add: sample_saved_def content_def)
qed

end
