(* ===== verification/Base64.thy ===== *)
theory Base64
  imports Prelude
begin

text \<open>
  \<open>base64.RawURLEncoding\<close> of the Go library, which every signed token uses: the URL-safe alphabet, no
  padding. Decoding skips line breaks and ignores the unused low bits of the last character, as
  the library does. Encoding and decoding are inverse, and an encoded text has neither a dot nor white space.
\<close>

definition b64_char :: "nat \<Rightarrow> char" where
  "b64_char n =
     (if n < 26 then char_of (65 + n) else if n < 52 then char_of (71 + n)
      else if n < 62 then char_of (n - 4) else if n = 62 then CHR ''-'' else CHR ''_'')"

definition b64_val :: "char \<Rightarrow> nat option" where
  "b64_val c =
     (let n = (of_char c :: nat) in
      if 65 \<le> n \<and> n \<le> 90 then Some (n - 65) else if 97 \<le> n \<and> n \<le> 122 then Some (n - 71)
      else if 48 \<le> n \<and> n \<le> 57 then Some (n + 4) else if c = CHR ''-'' then Some 62
      else if c = CHR ''_'' then Some 63 else None)"

text \<open>Three octets as four groups of six bits, and back.\<close>

fun sextets :: "nat list \<Rightarrow> nat list" where
  "sextets [] = []"
| "sextets [a] = [a div 4, a mod 4 * 16]"
| "sextets [a, b] = [a div 4, a mod 4 * 16 + b div 16, b mod 16 * 4]"
| "sextets (a # b # c # rest) = a div 4 # (a mod 4 * 16 + b div 16) # (b mod 16 * 4 + c div 64) # c mod 64 # sextets rest"

fun octets :: "nat list \<Rightarrow> nat list option" where
  "octets [] = Some []"
| "octets [w] = None"
| "octets [w, x] = Some [w * 4 + x div 16]"
| "octets [w, x, y] = Some [w * 4 + x div 16, x mod 16 * 16 + y div 4]"
| "octets (w # x # y # z # rest) =
     map_option (\<lambda>bs. (w * 4 + x div 16) # (x mod 16 * 16 + y div 4) # (y mod 4 * 64 + z) # bs) (octets rest)"

fun all_some :: "'a option list \<Rightarrow> 'a list option" where
  "all_some [] = Some []"
| "all_some (None # xs) = None"
| "all_some (Some x # xs) = map_option (\<lambda>ys. x # ys) (all_some xs)"

definition b64_encode :: "string \<Rightarrow> string" where
  "b64_encode s = map b64_char (sextets (map of_char s))"

definition b64_decode :: "string \<Rightarrow> string option" where
  "b64_decode s =
     Option.bind (all_some (map b64_val (filter (\<lambda>c. c \<noteq> CHR 0x0A \<and> c \<noteq> CHR 0x0D) s)))
       (\<lambda>xs. map_option (map char_of) (octets xs))"

section \<open>Encoding and decoding are inverse\<close>

lemma b64_val_char: "n < 64 \<Longrightarrow> b64_val (b64_char n) = Some n"
proof -
  assume "n < 64"
  then consider "n < 26" | "26 \<le> n" "n < 52" | "52 \<le> n" "n < 62" | "n = 62" | "n = 63" by linarith
  then show ?thesis by cases (auto simp: b64_char_def b64_val_def Let_def)
qed

lemma b64_val_None: "b64_val (CHR ''.'') = None" "is_space c \<Longrightarrow> b64_val c = None"
  by (auto simp: b64_val_def is_space_def)

lemma b64_char_facts:
  "n < 64 \<Longrightarrow> b64_val (b64_char n) = Some n \<and> b64_char n \<noteq> CHR ''.'' \<and> \<not> is_space (b64_char n)"
  using b64_val_char b64_val_None by (metis option.distinct(1))

lemma sextets_range: "list_all (\<lambda>b. b < 256) bs \<Longrightarrow> list_all (\<lambda>x. x < 64) (sextets bs)"
  by (induction bs rule: sextets.induct) auto

lemma octets_sextets: "list_all (\<lambda>b. b < 256) bs \<Longrightarrow> octets (sextets bs) = Some bs"
  by (induction bs rule: sextets.induct) (auto simp: div_mult2_eq[symmetric])

lemma all_some_map: "list_all (\<lambda>x. f (g x) = Some x) xs \<Longrightarrow> all_some (map f (map g xs)) = Some xs"
  by (induction xs) auto

lemma char_codes: "list_all (\<lambda>b. b < 256) (map of_char s :: nat list)"
proof -
  have "(of_char c :: nat) < 256" for c using mod_less_divisor[of 256 "of_char c"] by simp
  then show ?thesis by (simp add: list_all_iff)
qed

lemma b64_chars: "c \<in> set (b64_encode s) \<Longrightarrow> c \<noteq> CHR ''.'' \<and> \<not> is_space c"
  using sextets_range[OF char_codes[of s]] b64_char_facts by (auto simp: b64_encode_def list_all_iff)

lemma b64_roundtrip [simp]: "b64_decode (b64_encode s) = Some s"
proof -
  let ?xs = "sextets (map of_char s)"
  have r: "list_all (\<lambda>x. x < 64) ?xs" by (rule sextets_range[OF char_codes])
  have "filter (\<lambda>c. c \<noteq> CHR 0x0A \<and> c \<noteq> CHR 0x0D) (b64_encode s) = b64_encode s"
    using b64_chars[of _ s] by (auto simp: filter_id_conv is_space_def)
  moreover have "all_some (map b64_val (b64_encode s)) = Some ?xs"
    unfolding b64_encode_def using r b64_char_facts by (intro all_some_map) (auto simp: list_all_iff)
  ultimately show ?thesis
    by (simp add: b64_decode_def octets_sextets[OF char_codes] comp_def)
qed

lemma b64_encode_inject [simp]: "b64_encode s = b64_encode t \<longleftrightarrow> s = t"
  using b64_roundtrip by (metis option.inject)

lemma b64_encode_nonempty [simp]: "b64_encode s = [] \<longleftrightarrow> s = []"
  by (metis b64_encode_def b64_encode_inject list.map(1) sextets.simps(1))

end
