(* ===== verification/Tokens.thy ===== *)
theory Tokens
  imports Base64
begin

text \<open>
  Signed tokens: preview links (\<open>backend/internal/preview/token.go\<close>) and IDE handoffs and sessions
  (\<open>backend/internal/ideauth/token.go\<close>). HMAC-SHA256 and SHA-256 are arguments, and so is the JSON text
  of the claims (a codec). The key is the signer; the clock is an argument, in nanoseconds, read once where
  the code reads it once. A nonce store is an interface of the code, here the argument \<open>consume\<close>.
\<close>

section \<open>Shared parts\<close>

definition unix :: "int \<Rightarrow> int" where
  "unix t = t div 1000000000"

definition unix_time :: "int \<Rightarrow> int" where
  "unix_time s = s * 1000000000"

type_synonym mac = "string \<Rightarrow> string \<Rightarrow> string"

record 'c codec =
  cd_Marshal :: "'c \<Rightarrow> string"
  cd_Unmarshal :: "string \<Rightarrow> go_error + 'c"

definition dot :: char where "dot = CHR ''.''"

definition new_signer :: "string \<Rightarrow> string \<Rightarrow> go_error + string" where
  "new_signer name secret =
     (let s = trim_space secret in
      if length s < 32 then Inl (ErrNew (name @ '' signing secret must be at least 32 bytes'')) else Inr s)"

definition derive_secret :: "(string \<Rightarrow> string) \<Rightarrow> string \<Rightarrow> string \<Rightarrow> string" where
  "derive_secret sha256 context workerToken = b64_encode (sha256 (context @ CHR 0x00 # workerToken))"

definition signature :: "mac \<Rightarrow> string \<Rightarrow> string \<Rightarrow> string" where
  "signature hmac key payload = b64_encode (hmac key payload)"

definition sign_token :: "mac \<Rightarrow> 'c codec \<Rightarrow> string \<Rightarrow> 'c \<Rightarrow> string" where
  "sign_token hmac J key claims =
     (let encoded = b64_encode (cd_Marshal J claims) in encoded @ dot # signature hmac key encoded)"

text \<open>Cutting a token, checking its signature and decoding it.\<close>

definition open_token :: "mac \<Rightarrow> 'c codec \<Rightarrow> string \<Rightarrow> string \<Rightarrow> 'c option" where
  "open_token hmac J key token =
     (case str_cut (trim_space token) dot of
        None \<Rightarrow> None
      | Some (encoded, sig) \<Rightarrow>
          if encoded = [] \<or> sig = [] \<or> sig \<noteq> signature hmac key encoded then None
          else (case b64_decode encoded of
                  None \<Rightarrow> None
                | Some payload \<Rightarrow> (case cd_Unmarshal J payload of Inl e \<Rightarrow> None | Inr claims \<Rightarrow> Some claims)))"

section \<open>Preview tokens\<close>

definition MaximumTTL :: int where "MaximumTTL = 24 * 3600 * 1000000000"
definition DefaultTTL :: int where "DefaultTTL = 3600 * 1000000000"

definition ErrInvalidPreview :: go_error where
  "ErrInvalidPreview = ErrNew ''invalid preview token''"

record PreviewClaims =
  pc_SandboxID :: string
  pc_UserID :: string
  pc_Port :: "16 word"
  pc_ExpiresAt :: int

definition preview_NewSigner :: "string \<Rightarrow> go_error + string" where
  "preview_NewSigner secret = new_signer ''preview'' secret"

definition preview_DeriveSigningSecret :: "(string \<Rightarrow> string) \<Rightarrow> string \<Rightarrow> string" where
  "preview_DeriveSigningSecret sha256 workerToken = derive_secret sha256 ''renderops-preview-v1'' workerToken"

definition preview_Sign ::
    "mac \<Rightarrow> PreviewClaims codec \<Rightarrow> string \<Rightarrow> int \<Rightarrow> string \<Rightarrow> string \<Rightarrow> 16 word \<Rightarrow> int \<Rightarrow> go_error + (string \<times> int)" where
  "preview_Sign hmac J key now sandboxID userID port ttl =
     (if trim_space sandboxID = [] \<or> trim_space userID = [] \<or> port = 0
      then Inl (ErrNew ''sandbox id, user id, and port are required'')
      else if ttl \<le> 0 \<or> ttl > MaximumTTL
      then Inl (ErrNew ''preview token ttl must be between 1 second and 24h0m0s'')
      else
        let expiresAt = now + ttl in
        Inr (sign_token hmac J key
               \<lparr>pc_SandboxID = sandboxID, pc_UserID = userID, pc_Port = port, pc_ExpiresAt = unix expiresAt\<rparr>, expiresAt))"

definition preview_Verify ::
    "mac \<Rightarrow> PreviewClaims codec \<Rightarrow> string \<Rightarrow> int \<Rightarrow> string \<Rightarrow> string \<Rightarrow> 16 word \<Rightarrow> go_error + PreviewClaims" where
  "preview_Verify hmac J key now token sandboxID port =
     (case open_token hmac J key token of
        None \<Rightarrow> Inl ErrInvalidPreview
      | Some claims \<Rightarrow>
          if pc_SandboxID claims \<noteq> sandboxID \<or> pc_Port claims \<noteq> port \<or> pc_UserID claims = [] then Inl ErrInvalidPreview
          else if pc_ExpiresAt claims \<le> unix now then Inl ErrInvalidPreview
          else Inr claims)"

definition ParsePort :: "string \<Rightarrow> go_error + 16 word" where
  "ParsePort v =
     (if v = [] \<or> \<not> list_all (\<lambda>c. (of_char c :: nat) \<in> {48..57}) v \<or> 65535 < digits_val v \<or> digits_val v = 0
      then Inl (ErrNew ''port must be between 1 and 65535'') else Inr (of_nat (digits_val v)))"

section \<open>IDE tokens\<close>

definition Audience :: string where "Audience = ''sandbox-ide''"
definition DefaultHandoffTTL :: int where "DefaultHandoffTTL = 60 * 1000000000"
definition MaximumHandoffTTL :: int where "MaximumHandoffTTL = 120 * 1000000000"
definition DefaultSessionTTL :: int where "DefaultSessionTTL = 3600 * 1000000000"
definition MaximumSessionLife :: int where "MaximumSessionLife = 8 * 3600 * 1000000000"
definition KindHandoff :: string where "KindHandoff = ''handoff''"
definition KindSession :: string where "KindSession = ''session''"

definition ErrInvalidIDE :: go_error where
  "ErrInvalidIDE = ErrNew ''invalid IDE token''"

record IdeClaims =
  ic_Audience :: string
  ic_Kind :: string
  ic_SandboxID :: string
  ic_UserID :: string
  ic_OrganizationID :: string
  ic_Role :: string
  ic_Port :: "16 word"
  ic_Nonce :: string
  ic_IssuedAt :: int
  ic_ExpiresAt :: int
  ic_AbsoluteExpiry :: int

definition ide_NewSigner :: "string \<Rightarrow> go_error + string" where
  "ide_NewSigner secret = new_signer ''IDE'' secret"

definition ide_DeriveSigningSecret :: "(string \<Rightarrow> string) \<Rightarrow> string \<Rightarrow> string" where
  "ide_DeriveSigningSecret sha256 workerToken = derive_secret sha256 ''renderops-ide-v1'' workerToken"

definition validateClaims :: "IdeClaims \<Rightarrow> go_error option" where
  "validateClaims c =
     (if ic_SandboxID c = [] \<or> ic_UserID c = [] \<or> ic_Role c = [] \<or> ic_Port c = 0
      then Some (ErrNew ''sandbox id, user id, role, and port are required'')
      else if ic_Audience c \<noteq> Audience \<or> ic_Kind c \<noteq> KindHandoff \<and> ic_Kind c \<noteq> KindSession
      then Some ErrInvalidIDE else None)"

definition IssueHandoff ::
    "mac \<Rightarrow> IdeClaims codec \<Rightarrow> string \<Rightarrow> int \<Rightarrow> string \<Rightarrow> string \<Rightarrow> string \<Rightarrow> string \<Rightarrow> string \<Rightarrow> 16 word \<Rightarrow> int
     \<Rightarrow> go_error + (string \<times> IdeClaims)" where
  "IssueHandoff hmac J key now nonce sandboxID userID organizationID role port ttl =
     (if ttl \<le> 0 \<or> ttl > MaximumHandoffTTL
      then Inl (ErrNew ''IDE handoff ttl must be between 1 second and 2m0s'')
      else
        let claims = \<lparr>ic_Audience = Audience, ic_Kind = KindHandoff, ic_SandboxID = trim_space sandboxID,
              ic_UserID = trim_space userID, ic_OrganizationID = trim_space organizationID, ic_Role = trim_space role,
              ic_Port = port, ic_Nonce = nonce, ic_IssuedAt = unix now, ic_ExpiresAt = unix (now + ttl),
              ic_AbsoluteExpiry = unix (now + MaximumSessionLife)\<rparr>
        in case validateClaims claims of
             Some e \<Rightarrow> Inl e
           | None \<Rightarrow> Inr (sign_token hmac J key claims, claims))"

definition ide_verify ::
    "mac \<Rightarrow> IdeClaims codec \<Rightarrow> string \<Rightarrow> int \<Rightarrow> string \<Rightarrow> string \<Rightarrow> string \<Rightarrow> 16 word \<Rightarrow> go_error + IdeClaims" where
  "ide_verify hmac J key now token kind sandboxID port =
     (case open_token hmac J key token of
        None \<Rightarrow> Inl ErrInvalidIDE
      | Some c \<Rightarrow>
          if validateClaims c \<noteq> None then Inl ErrInvalidIDE
          else if ic_Audience c \<noteq> Audience \<or> ic_Kind c \<noteq> kind \<or> ic_SandboxID c \<noteq> sandboxID \<or> ic_Port c \<noteq> port
          then Inl ErrInvalidIDE
          else if ic_ExpiresAt c \<le> unix now \<or> ic_AbsoluteExpiry c \<le> unix now \<or> kind = KindHandoff \<and> ic_Nonce c = []
          then Inl ErrInvalidIDE
          else Inr c)"

definition session_expiry :: "IdeClaims \<Rightarrow> int \<Rightarrow> int" where
  "session_expiry c now =
     (let expiresAt = now + DefaultSessionTTL; absoluteExpiry = unix_time (ic_AbsoluteExpiry c)
      in if expiresAt > absoluteExpiry then absoluteExpiry else expiresAt)"

text \<open>The clock is read by the check (\<open>t1\<close>), by the nonce store (\<open>t2\<close>) and for the session (\<open>t3\<close>).\<close>

definition Redeem ::
    "mac \<Rightarrow> IdeClaims codec \<Rightarrow> string \<Rightarrow> ('s \<Rightarrow> int \<Rightarrow> string \<Rightarrow> int \<Rightarrow> (go_error + bool) \<times> 's)
     \<Rightarrow> int \<Rightarrow> int \<Rightarrow> int \<Rightarrow> string \<Rightarrow> string \<Rightarrow> 16 word \<Rightarrow> 's \<Rightarrow> (go_error + (string \<times> IdeClaims)) \<times> 's" where
  "Redeem hmac J key consume t1 t2 t3 token sandboxID port nonces =
     (case ide_verify hmac J key t1 token KindHandoff sandboxID port of
        Inl e \<Rightarrow> (Inl e, nonces)
      | Inr claims \<Rightarrow>
          (case consume nonces t2 (ic_Nonce claims) (unix_time (ic_ExpiresAt claims)) of
             (Inl e, nonces') \<Rightarrow> (Inl (Wrapf ''consume IDE handoff nonce'' e), nonces')
           | (Inr False, nonces') \<Rightarrow> (Inl ErrInvalidIDE, nonces')
           | (Inr True, nonces') \<Rightarrow>
               let claims' = claims\<lparr>ic_Kind := KindSession, ic_Nonce := [], ic_IssuedAt := unix t3,
                               ic_ExpiresAt := unix (session_expiry claims t3)\<rparr>
               in (Inr (sign_token hmac J key claims', claims'), nonces')))"

definition VerifySession ::
    "mac \<Rightarrow> IdeClaims codec \<Rightarrow> string \<Rightarrow> int \<Rightarrow> string \<Rightarrow> string \<Rightarrow> 16 word \<Rightarrow> go_error + IdeClaims" where
  "VerifySession hmac J key now token sandboxID port = ide_verify hmac J key now token KindSession sandboxID port"

definition RenewSession ::
    "mac \<Rightarrow> IdeClaims codec \<Rightarrow> string \<Rightarrow> int \<Rightarrow> int \<Rightarrow> string \<Rightarrow> string \<Rightarrow> 16 word \<Rightarrow> go_error + (string \<times> IdeClaims)" where
  "RenewSession hmac J key t1 t2 token sandboxID port =
     (case VerifySession hmac J key t1 token sandboxID port of
        Inl e \<Rightarrow> Inl e
      | Inr claims \<Rightarrow>
          let expiresAt = session_expiry claims t2 in
          if expiresAt \<le> t2 then Inl ErrInvalidIDE
          else let claims' = claims\<lparr>ic_IssuedAt := unix t2, ic_ExpiresAt := unix expiresAt\<rparr>
               in Inr (sign_token hmac J key claims', claims'))"

text \<open>\<open>MemoryNonceStore\<close>: used nonces with the time until which they are remembered.\<close>

definition NewMemoryNonceStore :: "(string, int) gomap" where
  "NewMemoryNonceStore = []"

definition memory_Consume :: "(string, int) gomap \<Rightarrow> int \<Rightarrow> string \<Rightarrow> int \<Rightarrow> (go_error + bool) \<times> (string, int) gomap" where
  "memory_Consume used now nonce expiresAt =
     (if trim_space nonce = [] then (Inr False, used)
      else
        let used' = filter (\<lambda>(n, expiry). expiry > now) used in
        if expiresAt \<le> now then (Inr False, used')
        else if mget used' nonce \<noteq> None then (Inr False, used')
        else (Inr True, mput nonce expiresAt used'))"

section \<open>Opening what was signed\<close>

text \<open>What the library promises: a MAC has 32 bytes, and the JSON text of some claims gives them back.\<close>

definition mac_ok :: "mac \<Rightarrow> bool" where
  "mac_ok hmac \<longleftrightarrow> (\<forall>k m. length (hmac k m) = 32)"

definition exact :: "'c codec \<Rightarrow> 'c \<Rightarrow> bool" where
  "exact J c \<longleftrightarrow> cd_Marshal J c \<noteq> [] \<and> cd_Unmarshal J (cd_Marshal J c) = Inr c"

lemma open_sign [simp]:
  assumes "mac_ok hmac" "exact J c"
  shows "open_token hmac J key (sign_token hmac J key c) = Some c"
proof -
  let ?e = "b64_encode (cd_Marshal J c)"
  have no: "dot \<notin> set (b64_encode x)" "y \<in> set (b64_encode x) \<Longrightarrow> \<not> is_space y" for x y
    using b64_chars[of _ x] by (auto simp: dot_def)
  have "trim_space (?e @ dot # signature hmac key ?e) = ?e @ dot # signature hmac key ?e"
    using no(2) by (intro trim_space_id) (auto simp: signature_def dot_def is_space_def)
  moreover have "str_cut (?e @ dot # signature hmac key ?e) dot = Some (?e, signature hmac key ?e)"
    by (rule str_cut_append[OF no(1)])
  moreover have "hmac key ?e \<noteq> []" using assms(1) unfolding mac_ok_def by (metis list.size(3) zero_neq_numeral)
  ultimately show ?thesis
    using assms(2) by (simp add: open_token_def sign_token_def exact_def signature_def Let_def)
qed

text \<open>Nobody without the key can make a signature: a token that opens was signed by the service.\<close>

definition authentic :: "mac \<Rightarrow> 'c codec \<Rightarrow> string \<Rightarrow> 'c set \<Rightarrow> string \<Rightarrow> bool" where
  "authentic hmac J key issued token \<longleftrightarrow>
     (\<forall>encoded. str_cut (trim_space token) dot = Some (encoded, signature hmac key encoded)
        \<longrightarrow> (\<exists>c \<in> issued. encoded = b64_encode (cd_Marshal J c)))"

lemma open_authentic:
  assumes "authentic hmac J key issued token" "\<forall>c \<in> issued. exact J c" "open_token hmac J key token = Some c"
  shows "c \<in> issued"
proof -
  obtain encoded sig where cut: "str_cut (trim_space token) dot = Some (encoded, sig)"
    and sig: "sig = signature hmac key encoded"
    and dec: "Option.bind (b64_decode encoded) (\<lambda>p. case cd_Unmarshal J p of Inl e \<Rightarrow> None | Inr x \<Rightarrow> Some x) = Some c"
    using assms(3) by (auto simp: open_token_def split: option.splits prod.splits if_splits)
  then obtain c' where "c' \<in> issued" "encoded = b64_encode (cd_Marshal J c')"
    using assms(1) unfolding authentic_def by blast
  with dec assms(2) show ?thesis by (auto simp: exact_def)
qed

section \<open>Preview tokens are good for one sandbox and port until they expire\<close>

text \<open>
  A preview token is accepted for exactly the sandbox and port it was signed for, exactly until the
  second at which it expires, and then names the user it was signed for; in every other case it is rejected.
\<close>

theorem preview_token_roundtrip:
  assumes "mac_ok hmac" and "exact J \<lparr>pc_SandboxID = sid, pc_UserID = uid, pc_Port = port, pc_ExpiresAt = unix (now + ttl)\<rparr>"
    and "preview_Sign hmac J key now sid uid port ttl = Inr (token, expiresAt)"
  shows "expiresAt = now + ttl \<and> 0 < ttl \<and> ttl \<le> MaximumTTL
    \<and> preview_Verify hmac J key t token sid' port' =
        (if sid' = sid \<and> port' = port \<and> unix t < unix expiresAt
         then Inr \<lparr>pc_SandboxID = sid, pc_UserID = uid, pc_Port = port, pc_ExpiresAt = unix expiresAt\<rparr>
         else Inl ErrInvalidPreview)"
proof -
  let ?c = "\<lparr>pc_SandboxID = sid, pc_UserID = uid, pc_Port = port, pc_ExpiresAt = unix (now + ttl)\<rparr>"
  have s: "token = sign_token hmac J key ?c" "expiresAt = now + ttl" "0 < ttl" "ttl \<le> MaximumTTL" "uid \<noteq> []"
    using assms(3) by (auto simp: preview_Sign_def Let_def split: if_splits)
  have "open_token hmac J key token = Some ?c" unfolding s(1) by (rule open_sign[OF assms(1,2)])
  with s(2-5) show ?thesis by (auto simp: preview_Verify_def)
qed

section \<open>A handoff is redeemed once\<close>

text \<open>Calls of \<open>Redeem\<close> in the order in which they reach the nonce store, with the calls that succeed on one token.\<close>

record redeem_call =
  rc_t1 :: int
  rc_t2 :: int
  rc_t3 :: int
  rc_token :: string
  rc_sandbox :: string
  rc_port :: "16 word"

fun redemptions ::
    "mac \<Rightarrow> IdeClaims codec \<Rightarrow> string \<Rightarrow> ('s \<Rightarrow> int \<Rightarrow> string \<Rightarrow> int \<Rightarrow> (go_error + bool) \<times> 's) \<Rightarrow> string
     \<Rightarrow> redeem_call list \<Rightarrow> 's \<Rightarrow> redeem_call list" where
  "redemptions hmac J key consume token [] s = []"
| "redemptions hmac J key consume token (q # qs) s =
     (case Redeem hmac J key consume (rc_t1 q) (rc_t2 q) (rc_t3 q) (rc_token q) (rc_sandbox q) (rc_port q) s of
        (r, s') \<Rightarrow> (if \<not> isl r \<and> trim_space (rc_token q) = trim_space token then [q] else [])
                      @ redemptions hmac J key consume token qs s')"

lemma open_token_trim: "trim_space a = trim_space b \<Longrightarrow> open_token hmac J key a = open_token hmac J key b"
  by (simp add: open_token_def)

text \<open>The contract of a nonce store: what it accepts it refuses from then on, until the nonce expires.\<close>

locale nonce_store =
  fixes consume :: "'s \<Rightarrow> int \<Rightarrow> string \<Rightarrow> int \<Rightarrow> (go_error + bool) \<times> 's"
    and spent :: "'s \<Rightarrow> string \<Rightarrow> int \<Rightarrow> bool"
  assumes accepts_live: "consume s t n e = (Inr True, s') \<Longrightarrow> t < e"
    and spends: "consume s t n e = (Inr True, s') \<Longrightarrow> spent s' n e"
    and refuses_spent: "spent s n e \<Longrightarrow> t < e \<Longrightarrow> fst (consume s t n e) \<noteq> Inr True"
    and remembers: "spent s n e \<Longrightarrow> t < e \<Longrightarrow> consume s t n' e' = (r, s') \<Longrightarrow> spent s' n e"
begin

lemma accepted_spent: "Redeem hmac J key consume t1 t2 t3 token sid port s = (Inr x, s') \<Longrightarrow>
    \<exists>c. open_token hmac J key token = Some c \<and> t2 < unix_time (ic_ExpiresAt c) \<and> spent s' (ic_Nonce c) (unix_time (ic_ExpiresAt c))"
  using accepts_live spends
  by (auto simp: Redeem_def ide_verify_def Let_def split: sum.splits prod.splits bool.splits option.splits if_splits)

lemma spent_refused:
  assumes "open_token hmac J key token = Some c" "spent s (ic_Nonce c) (unix_time (ic_ExpiresAt c)) \<or> unix_time (ic_ExpiresAt c) \<le> t2"
  shows "isl (fst (Redeem hmac J key consume t1 t2 t3 token sid port s))"
  using assms refuses_spent[of s "ic_Nonce c" "unix_time (ic_ExpiresAt c)" t2] accepts_live[of s t2 "ic_Nonce c" "unix_time (ic_ExpiresAt c)"]
  by (cases "unix_time (ic_ExpiresAt c) \<le> t2")
    (auto simp: Redeem_def ide_verify_def Let_def split: sum.splits prod.splits bool.splits option.splits if_splits)

lemma spent_kept:
  assumes "spent s n e" "t2 < e" "Redeem hmac J key consume t1 t2 t3 token sid port s = (r, s')"
  shows "spent s' n e"
  using assms remembers
  by (auto simp: Redeem_def Let_def split: sum.splits prod.splits bool.splits)

lemma none_after:
  assumes "open_token hmac J key token = Some c" "sorted (map rc_t2 qs)"
    and "spent s (ic_Nonce c) (unix_time (ic_ExpiresAt c)) \<or> list_all (\<lambda>q. unix_time (ic_ExpiresAt c) \<le> rc_t2 q) qs"
  shows "redemptions hmac J key consume token qs s = []"
  using assms(2,3)
proof (induction qs arbitrary: s)
  case (Cons q qs)
  let ?e = "unix_time (ic_ExpiresAt c)"
  obtain r s' where r: "Redeem hmac J key consume (rc_t1 q) (rc_t2 q) (rc_t3 q) (rc_token q) (rc_sandbox q) (rc_port q) s = (r, s')"
    by fastforce
  have "isl r" if same: "trim_space (rc_token q) = trim_space token"
  proof -
    have "open_token hmac J key (rc_token q) = Some c" using open_token_trim[OF same, of hmac J key] assms(1) by simp
    moreover have "spent s (ic_Nonce c) ?e \<or> ?e \<le> rc_t2 q" using Cons.prems(2) by auto
    ultimately have "isl (fst (Redeem hmac J key consume (rc_t1 q) (rc_t2 q) (rc_t3 q) (rc_token q) (rc_sandbox q) (rc_port q) s))"
      by (rule spent_refused)
    with r show ?thesis by simp
  qed
  moreover have "spent s' (ic_Nonce c) ?e \<or> list_all (\<lambda>q. ?e \<le> rc_t2 q) qs"
  proof (cases "rc_t2 q < ?e")
    case True
    with Cons.prems(2) have "spent s (ic_Nonce c) ?e" by auto
    with True r show ?thesis using spent_kept by blast
  next
    case False
    with Cons.prems(1) show ?thesis by (auto simp: list_all_iff)
  qed
  ultimately show ?case using Cons.IH[of s'] Cons.prems(1) r by auto
qed simp

lemma redeemed_once: "sorted (map rc_t2 qs) \<Longrightarrow> length (redemptions hmac J key consume token qs s) \<le> 1"
proof (induction qs arbitrary: s)
  case (Cons q qs)
  obtain r s' where r: "Redeem hmac J key consume (rc_t1 q) (rc_t2 q) (rc_t3 q) (rc_token q) (rc_sandbox q) (rc_port q) s = (r, s')"
    by fastforce
  show ?case
  proof (cases "\<not> isl r \<and> trim_space (rc_token q) = trim_space token")
    case True
    then obtain x where "r = Inr x" by (cases r) auto
    with accepted_spent r obtain c where c: "open_token hmac J key (rc_token q) = Some c"
      "spent s' (ic_Nonce c) (unix_time (ic_ExpiresAt c))" by blast
    then have "open_token hmac J key token = Some c" using open_token_trim[of "rc_token q" token hmac J key] True by simp
    then have "redemptions hmac J key consume token qs s' = []"
      using none_after[of hmac J key token c qs s'] Cons.prems c(2) by simp
    with r show ?thesis by simp
  next
    case False
    with r Cons show ?thesis by auto
  qed
qed simp

end

interpretation memory_nonces: nonce_store memory_Consume "\<lambda>used n e. mget used n = Some e"
proof
  fix s t n e s' assume "memory_Consume s t n e = (Inr True, s')"
  then show "t < e" "mget s' n = Some e" by (auto simp: memory_Consume_def Let_def split: if_splits)
next
  fix s :: "(string, int) gomap" and n e t assume a: "mget s n = Some e" "t < e"
  have keep: "mget (filter (\<lambda>(n, expiry). expiry > t) s) n = Some e"
    using a by (induction s) auto
  then show "fst (memory_Consume s t n e) \<noteq> Inr True" by (auto simp: memory_Consume_def Let_def)
  fix n' e' r s' assume "memory_Consume s t n' e' = (r, s')"
  with keep a show "mget s' n = Some e" by (auto simp: memory_Consume_def Let_def split: if_splits)
qed

text \<open>
  C37: An IDE handoff token is redeemed at most once. Whatever tokens are presented, in whatever order the
  calls reach the nonce store as its clock advances, at most one call that presents this token (up to
  surrounding white space) gets a session.
\<close>

theorem handoff_is_redeemed_once:
  assumes "sorted (map rc_t2 calls)"
  shows "length (redemptions hmac J key memory_Consume token calls NewMemoryNonceStore) \<le> 1"
  using assms by (rule memory_nonces.redeemed_once)

section \<open>An IDE session ends eight hours after the handoff\<close>

text \<open>Sessions that come from a handoff: by redeeming it, and by renewing a session again and again.\<close>

inductive ide_session ::
    "mac \<Rightarrow> IdeClaims codec \<Rightarrow> string \<Rightarrow> ('s \<Rightarrow> int \<Rightarrow> string \<Rightarrow> int \<Rightarrow> (go_error + bool) \<times> 's) \<Rightarrow> string \<Rightarrow> string \<Rightarrow> IdeClaims \<Rightarrow> bool"
  for hmac J key consume handoff where
  redeemed: "fst (Redeem hmac J key consume t1 t2 t3 handoff sid port s) = Inr (token, c)
      \<Longrightarrow> ide_session hmac J key consume handoff token c"
| renewed: "ide_session hmac J key consume handoff token c \<Longrightarrow> RenewSession hmac J key t1 t2 token sid port = Inr (token', c')
      \<Longrightarrow> ide_session hmac J key consume handoff token' c'"

text \<open>The same party: claims that differ at most in kind, nonce and times.\<close>

definition same_party :: "IdeClaims \<Rightarrow> IdeClaims \<Rightarrow> bool" where
  "same_party c d \<longleftrightarrow> ic_Audience c = ic_Audience d \<and> ic_SandboxID c = ic_SandboxID d \<and> ic_UserID c = ic_UserID d
     \<and> ic_OrganizationID c = ic_OrganizationID d \<and> ic_Role c = ic_Role d \<and> ic_Port c = ic_Port d
     \<and> ic_Kind c \<in> {KindHandoff, KindSession} \<and> ic_Nonce c \<in> {[], ic_Nonce d}"

lemma session_expiry_bound: "unix (session_expiry c t) \<le> ic_AbsoluteExpiry c"
proof -
  have "session_expiry c t \<le> unix_time (ic_AbsoluteExpiry c)" by (simp add: session_expiry_def Let_def)
  then have "unix (session_expiry c t) \<le> unix (unix_time (ic_AbsoluteExpiry c))" unfolding unix_def by (rule zdiv_mono1) simp
  then show ?thesis by (simp add: unix_def unix_time_def)
qed

lemma ide_session_claims:
  assumes "mac_ok hmac" "\<forall>c. same_party c c0 \<longrightarrow> exact J c" "same_party c0 c0" "handoff = sign_token hmac J key c0"
    and "ide_session hmac J key consume handoff token c"
  shows "token = sign_token hmac J key c \<and> same_party c c0 \<and> ic_Kind c = KindSession
     \<and> ic_AbsoluteExpiry c = ic_AbsoluteExpiry c0 \<and> ic_ExpiresAt c \<le> ic_AbsoluteExpiry c0"
  using assms(5)
proof (induction rule: ide_session.induct)
  case (redeemed t1 t2 t3 sid port s token c)
  have op: "open_token hmac J key handoff = Some c0" using assms(1-4) by simp
  obtain t where c: "c = c0\<lparr>ic_Kind := KindSession, ic_Nonce := [], ic_IssuedAt := unix t, ic_ExpiresAt := unix (session_expiry c0 t)\<rparr>"
    "token = sign_token hmac J key c"
    using redeemed op by (auto simp: Redeem_def ide_verify_def Let_def split: sum.splits prod.splits bool.splits if_splits)
  with assms(3) session_expiry_bound[of c0 t] show ?case by (auto simp: same_party_def)
next
  case (renewed token c t1 t2 sid port token' c')
  have op: "open_token hmac J key token = Some c" using assms(1,2) renewed.IH by simp
  obtain t where c': "c' = c\<lparr>ic_IssuedAt := unix t, ic_ExpiresAt := unix (session_expiry c t)\<rparr>" "token' = sign_token hmac J key c'"
    using renewed(2) op by (auto simp: RenewSession_def VerifySession_def ide_verify_def Let_def split: if_splits)
  with renewed.IH session_expiry_bound[of c t] show ?case by (auto simp: same_party_def)
qed

text \<open>
  An IDE session ends. From a handoff issued at \<open>now\<close>, whatever redemptions and renewals follow, every
  session names the sandbox, port, user and role of the handoff, and its token is refused from eight hours
  after \<open>now\<close> on, for every sandbox and port.
\<close>

theorem ide_session_ends:
  assumes "mac_ok hmac"
    and "IssueHandoff hmac J key now nonce sandboxID userID organizationID role port ttl = Inr (handoff, c0)"
    and "\<forall>c. same_party c c0 \<longrightarrow> exact J c"
    and "ide_session hmac J key consume handoff token c"
  shows "ic_SandboxID c = trim_space sandboxID \<and> ic_UserID c = trim_space userID \<and> ic_Role c = trim_space role \<and> ic_Port c = port
    \<and> (unix (now + MaximumSessionLife) \<le> unix t \<longrightarrow> VerifySession hmac J key t token sid' port' = Inl ErrInvalidIDE)"
proof -
  have h: "handoff = sign_token hmac J key c0" "ic_AbsoluteExpiry c0 = unix (now + MaximumSessionLife)" "same_party c0 c0"
    "ic_SandboxID c0 = trim_space sandboxID" "ic_UserID c0 = trim_space userID" "ic_Role c0 = trim_space role" "ic_Port c0 = port"
    using assms(2) by (auto simp: IssueHandoff_def same_party_def Let_def split: if_splits option.splits)
  note C = ide_session_claims[OF assms(1,3) h(3,1) assms(4)]
  have "open_token hmac J key token = Some c" using C assms(1,3) by simp
  with C h show ?thesis by (auto simp: same_party_def VerifySession_def ide_verify_def)
qed

section \<open>Samples\<close>

text \<open>A codec from an injective text: fields with every byte marked, one after the other.\<close>

definition field :: "string \<Rightarrow> string" where
  "field s = concat (map (\<lambda>c. [CHR ''+'', c]) s) @ ''.''"

lemma field_split: "field s @ r = field s' @ r' \<longleftrightarrow> s = s' \<and> r = r'"
proof (induction s arbitrary: s')
  case Nil
  then show ?case by (cases s') (auto simp: field_def)
next
  case (Cons a s)
  then show ?case by (cases s') (auto simp: field_def)
qed

definition text_codec :: "('c \<Rightarrow> string) \<Rightarrow> 'c codec" where
  "text_codec f = \<lparr>cd_Marshal = f,
     cd_Unmarshal = (\<lambda>s. if s \<in> range f then Inr (inv f s) else Inl (ErrNew ''unexpected end of JSON input''))\<rparr>"

lemma text_codec_exact: "inj f \<Longrightarrow> f c \<noteq> [] \<Longrightarrow> exact (text_codec f) c"
  by (simp add: exact_def text_codec_def)

definition preview_text :: "PreviewClaims \<Rightarrow> string" where
  "preview_text c = field (pc_SandboxID c) @ field (pc_UserID c) @ field (itoa (uint (pc_Port c))) @ itoa (pc_ExpiresAt c)"

definition ide_text :: "IdeClaims \<Rightarrow> string" where
  "ide_text c = field (ic_Audience c) @ field (ic_Kind c) @ field (ic_SandboxID c) @ field (ic_UserID c)
     @ field (ic_OrganizationID c) @ field (ic_Role c) @ field (itoa (uint (ic_Port c))) @ field (ic_Nonce c)
     @ field (itoa (ic_IssuedAt c)) @ field (itoa (ic_ExpiresAt c)) @ itoa (ic_AbsoluteExpiry c)"

lemma sample_codecs: "exact (text_codec preview_text) c" "exact (text_codec ide_text) d"
proof -
  have "inj preview_text" "inj ide_text"
    by (auto intro!: injI PreviewClaims.equality IdeClaims.equality simp: preview_text_def ide_text_def field_split word_uint_eq_iff)
  then show "exact (text_codec preview_text) c" "exact (text_codec ide_text) d"
    by (auto intro!: text_codec_exact simp: preview_text_def ide_text_def field_def)
qed

definition sample_mac :: mac where
  "sample_mac k m = replicate 32 (CHR ''m'')"

lemma sample_mac_ok: "mac_ok sample_mac"
  by (simp add: mac_ok_def sample_mac_def)

theorem preview_token_roundtrip_witness:
  "preview_Verify sample_mac (text_codec preview_text) ''k'' 5000000000
     (sign_token sample_mac (text_codec preview_text) ''k''
        \<lparr>pc_SandboxID = ''sb'', pc_UserID = ''u'', pc_Port = 8080, pc_ExpiresAt = 60\<rparr>) ''sb'' 8080
   = Inr \<lparr>pc_SandboxID = ''sb'', pc_UserID = ''u'', pc_Port = 8080, pc_ExpiresAt = 60\<rparr>"
proof -
  have "preview_Sign sample_mac (text_codec preview_text) ''k'' 0 ''sb'' ''u'' 8080 60000000000
      = Inr (sign_token sample_mac (text_codec preview_text) ''k''
        \<lparr>pc_SandboxID = ''sb'', pc_UserID = ''u'', pc_Port = 8080, pc_ExpiresAt = 60\<rparr>, 60000000000)"
    by (simp add: preview_Sign_def MaximumTTL_def unix_def trim_space_def is_space_def)
  from preview_token_roundtrip[OF sample_mac_ok sample_codecs(1) this, of 5000000000 "''sb''" 8080]
  show ?thesis by (simp add: unix_def)
qed

theorem handoff_is_redeemed_once_witness:
  "length (redemptions sample_mac (text_codec ide_text) ''k'' memory_Consume ''t''
     [\<lparr>rc_t1 = 1, rc_t2 = 1, rc_t3 = 2, rc_token = ''t'', rc_sandbox = ''sb'', rc_port = 8080\<rparr>,
      \<lparr>rc_t1 = 1, rc_t2 = 3, rc_t3 = 4, rc_token = ''t '', rc_sandbox = ''sb'', rc_port = 8080\<rparr>] NewMemoryNonceStore) \<le> 1"
  by (rule handoff_is_redeemed_once) simp

definition sample_handoff :: IdeClaims where
  "sample_handoff = \<lparr>ic_Audience = Audience, ic_Kind = KindHandoff, ic_SandboxID = ''sb'', ic_UserID = ''u'', ic_OrganizationID = [],
     ic_Role = ''owner'', ic_Port = 8080, ic_Nonce = ''n'', ic_IssuedAt = 0, ic_ExpiresAt = 60, ic_AbsoluteExpiry = 28800\<rparr>"

definition sample_ide_session :: IdeClaims where
  "sample_ide_session = sample_handoff\<lparr>ic_Kind := KindSession, ic_Nonce := [], ic_IssuedAt := 0, ic_ExpiresAt := 3600\<rparr>"

theorem ide_session_ends_witness:
  "VerifySession sample_mac (text_codec ide_text) ''k'' 28800000000000
     (sign_token sample_mac (text_codec ide_text) ''k'' sample_ide_session) ''sb'' 8080 = Inl ErrInvalidIDE"
proof -
  let ?J = "text_codec ide_text"
  have "IssueHandoff sample_mac ?J ''k'' 0 ''n'' ''sb'' ''u'' [] ''owner'' 8080 60000000000
      = Inr (sign_token sample_mac ?J ''k'' sample_handoff, sample_handoff)"
    by (simp add: IssueHandoff_def sample_handoff_def validateClaims_def MaximumHandoffTTL_def MaximumSessionLife_def unix_def
        trim_space_def is_space_def Let_def)
  moreover have "ide_session sample_mac ?J ''k'' memory_Consume (sign_token sample_mac ?J ''k'' sample_handoff)
      (sign_token sample_mac ?J ''k'' sample_ide_session) sample_ide_session"
  proof (rule redeemed[of _ _ _ _ 1 1 1 _ "''sb''" 8080 "[]"])
    have "ide_verify sample_mac ?J ''k'' 1 (sign_token sample_mac ?J ''k'' sample_handoff) KindHandoff ''sb'' 8080 = Inr sample_handoff"
      using open_sign[OF sample_mac_ok sample_codecs(2)]
      by (simp add: ide_verify_def validateClaims_def sample_handoff_def unix_def)
    then show "fst (Redeem sample_mac ?J ''k'' memory_Consume 1 1 1 (sign_token sample_mac ?J ''k'' sample_handoff) ''sb'' 8080 [])
        = Inr (sign_token sample_mac ?J ''k'' sample_ide_session, sample_ide_session)"
      by (simp add: Redeem_def memory_Consume_def sample_ide_session_def session_expiry_def DefaultSessionTTL_def
          sample_handoff_def unix_def unix_time_def trim_space_def is_space_def Let_def)
  qed
  ultimately show ?thesis
    using ide_session_ends[OF sample_mac_ok, of ?J "''k''" 0 "''n''" "''sb''" "''u''" "[]" "''owner''" 8080 60000000000 _ sample_handoff
        memory_Consume _ sample_ide_session 28800000000000 "''sb''" 8080] sample_codecs(2)
    by (simp add: MaximumSessionLife_def)
qed

end
