(* ===== verification/Preview_Gateway.thy ===== *)
theory Preview_Gateway
  imports Tokens Worker_Server Placement
begin

text \<open>
  The preview gateway (\<open>backend/internal/previewgateway/gateway.go\<close>): it takes the sandbox and the port from
  the host name, turns a token in the query into a cookie, and forwards a request that has a valid cookie to
  the worker that holds the sandbox. The placement resolver, \<open>uuid.Parse\<close>, \<open>url.Parse\<close> and \<open>ParseSetCookie\<close>
  are arguments, the clock is the sequence of its readings during one request. Bytes of bodies and
  response headers other than cookies are not represented.
\<close>

definition previewCookieName :: string where "previewCookieName = ''__Host-renderops_preview''"
definition ideCookieName :: string where "ideCookieName = ''__Host-renderops_ide''"

record gw_env =
  ge_hmac :: mac
  ge_preview :: "PreviewClaims codec"
  ge_ide :: "IdeClaims codec"
  ge_uuid :: "string \<Rightarrow> go_error + string"
  ge_url :: "string \<Rightarrow> go_error + string \<times> string"
  ge_set_cookie :: "string \<Rightarrow> go_error + string"
  ge_Placement :: "string \<Rightarrow> go_error + Placement"
  ge_clock :: "nat \<Rightarrow> int"

record Gateway =
  gw_domain :: string
  gw_signer :: string
  gw_workerToken :: string
  gw_ideSigner :: "string option"

record gw_request =
  gq_Host :: string
  gq_Path :: string
  gq_Query :: "(string \<times> string) list"
  gq_Cookies :: "(string \<times> string) list"

record gw_upstream =
  gu_Scheme :: string
  gu_Host :: string
  gu_Path :: string
  gu_Cookies :: "(string \<times> string) list"
  gu_Token :: string
  gu_ForwardedHost :: string

datatype gw_reply =
    GwNotFound
  | GwRedirect "string \<times> string \<times> int" "string \<times> (string \<times> string) list"
  | GwForward gw_upstream

definition has_suffix :: "string \<Rightarrow> string \<Rightarrow> bool" where
  "has_suffix s t \<longleftrightarrow> length t \<le> length s \<and> drop (length s - length t) s = t"

definition trim_suffix :: "string \<Rightarrow> string \<Rightarrow> string" where
  "trim_suffix s t = (if has_suffix s t then take (length s - length t) s else s)"

definition gateway_New :: "string \<Rightarrow> string \<Rightarrow> string \<Rightarrow> go_error + Gateway" where
  "gateway_New domain signer workerToken =
     (let d = to_lower (trim_suffix (trim_space domain) ''.'') in
      if d = [] \<or> trim_space workerToken = []
      then Inl (ErrNew ''preview domain, signer, placement resolver, and worker token are required'')
      else Inr \<lparr>gw_domain = d, gw_signer = signer, gw_workerToken = workerToken, gw_ideSigner = None\<rparr>)"

definition EnableIDE :: "string \<Rightarrow> Gateway \<Rightarrow> Gateway" where
  "EnableIDE signer g = g\<lparr>gw_ideSigner := Some signer\<rparr>"

definition parseHost :: "gw_env \<Rightarrow> Gateway \<Rightarrow> string \<Rightarrow> (16 word \<times> string) option" where
  "parseHost E g v =
     (let lower = to_lower v;
          host = (case str_cut lower (CHR '':'') of None \<Rightarrow> lower | Some (h, rest) \<Rightarrow> h);
          suffix = CHR ''.'' # gw_domain g in
      if \<not> has_suffix host suffix then None
      else case str_cut (trim_suffix host suffix) (CHR ''-'') of
             None \<Rightarrow> None
           | Some (portText, sandboxID) \<Rightarrow>
               (case ParsePort portText of
                  Inl e \<Rightarrow> None
                | Inr port \<Rightarrow>
                    (case ge_uuid E sandboxID of
                       Inl e \<Rightarrow> None
                     | Inr parsed \<Rightarrow> if parsed \<noteq> sandboxID then None else Some (port, sandboxID))))"

definition PortHost :: "16 word \<Rightarrow> string \<Rightarrow> string \<Rightarrow> string" where
  "PortHost port sandboxID domain = itoa (uint port) @ ''-'' @ sandboxID @ ''.'' @ trim_suffix domain ''.''"

definition query_Get :: "gw_request \<Rightarrow> string \<Rightarrow> string" where
  "query_Get r name = (case map_of (gq_Query r) name of None \<Rightarrow> [] | Some v \<Rightarrow> v)"

definition authorized :: "gw_env \<Rightarrow> Gateway \<Rightarrow> gw_request \<Rightarrow> string \<Rightarrow> 16 word \<Rightarrow> bool" where
  "authorized E g r sandboxID port \<longleftrightarrow>
     (case (map_of (gq_Cookies r) ideCookieName, gw_ideSigner g) of
        (Some v, Some key) \<Rightarrow> \<not> isl (VerifySession (ge_hmac E) (ge_ide E) key (ge_clock E 0) v sandboxID port)
      | _ \<Rightarrow> False)
     \<or> (case map_of (gq_Cookies r) previewCookieName of
          Some v \<Rightarrow> \<not> isl (preview_Verify (ge_hmac E) (ge_preview E) (gw_signer g) (ge_clock E 1) v sandboxID port)
        | None \<Rightarrow> False)"

definition stripCookie :: "(string \<times> string) list \<Rightarrow> string list \<Rightarrow> (string \<times> string) list" where
  "stripCookie cookies reserved = filter (\<lambda>(n, v). n \<notin> set reserved) cookies"

text \<open>\<open>ModifyResponse\<close>: a sandbox cannot set the cookies of the gateway.\<close>

definition modify_response :: "gw_env \<Rightarrow> string list \<Rightarrow> string list" where
  "modify_response E setCookies =
     filter (\<lambda>v. case ge_set_cookie E v of Inl e \<Rightarrow> True | Inr name \<Rightarrow> name \<noteq> previewCookieName \<and> name \<noteq> ideCookieName) setCookies"

definition redirectWithoutQueryToken :: "gw_request \<Rightarrow> string \<Rightarrow> string \<times> (string \<times> string) list" where
  "redirectWithoutQueryToken r name = (gq_Path r, filter (\<lambda>(n, v). n \<noteq> name) (gq_Query r))"

definition rewrite_request :: "Gateway \<Rightarrow> gw_request \<Rightarrow> string \<times> string \<Rightarrow> string \<Rightarrow> 16 word \<Rightarrow> gw_upstream" where
  "rewrite_request g r target sandboxID port =
     (let originalPath = (if gq_Path r = [] then ''/'' else gq_Path r) in
      \<lparr>gu_Scheme = fst target, gu_Host = snd target,
       gu_Path = RouteSandboxPrefix @ sandboxID @ ''/ports/'' @ itoa (uint port) @ originalPath,
       gu_Cookies = stripCookie (gq_Cookies r) [previewCookieName, ideCookieName],
       gu_Token = gw_workerToken g, gu_ForwardedHost = gq_Host r\<rparr>)"

definition serve_upstream :: "gw_env \<Rightarrow> Gateway \<Rightarrow> gw_request \<Rightarrow> string \<Rightarrow> 16 word \<Rightarrow> gw_reply" where
  "serve_upstream E g r sandboxID port =
     (case ge_Placement E sandboxID of
        Inl e \<Rightarrow> GwNotFound
      | Inr placement \<Rightarrow>
          if Endpoint placement = [] \<or> pl_State placement \<noteq> ''active'' then GwNotFound
          else (case ge_url E (Endpoint placement) of
                  Inl e \<Rightarrow> GwNotFound
                | Inr target \<Rightarrow>
                    if fst target \<noteq> ''http'' \<and> fst target \<noteq> ''https'' \<or> snd target = [] then GwNotFound
                    else GwForward (rewrite_request g r target sandboxID port)))"

definition serveHTTP :: "gw_env \<Rightarrow> Gateway \<Rightarrow> gw_request \<Rightarrow> (string, int) gomap \<Rightarrow> gw_reply \<times> (string, int) gomap" where
  "serveHTTP E g r nonces =
     (case parseHost E g (gq_Host r) of
        None \<Rightarrow> (GwNotFound, nonces)
      | Some (port, sandboxID) \<Rightarrow>
          if query_Get r ''ro_auth'' \<noteq> [] then
            (case gw_ideSigner g of
               None \<Rightarrow> (GwNotFound, nonces)
             | Some key \<Rightarrow>
                 (case Redeem (ge_hmac E) (ge_ide E) key memory_Consume (ge_clock E 0) (ge_clock E 1) (ge_clock E 2)
                         (query_Get r ''ro_auth'') sandboxID port nonces of
                    (Inl e, nonces') \<Rightarrow> (GwNotFound, nonces')
                  | (Inr (token, claims), nonces') \<Rightarrow>
                      (GwRedirect (ideCookieName, token, unix_time (ic_ExpiresAt claims)) (redirectWithoutQueryToken r ''ro_auth''), nonces')))
          else if query_Get r ''_renderops_token'' \<noteq> [] then
            (case preview_Verify (ge_hmac E) (ge_preview E) (gw_signer g) (ge_clock E 0) (query_Get r ''_renderops_token'') sandboxID port of
               Inl e \<Rightarrow> (GwNotFound, nonces)
             | Inr claims \<Rightarrow>
                 (GwRedirect (previewCookieName, query_Get r ''_renderops_token'', unix_time (pc_ExpiresAt claims))
                    (redirectWithoutQueryToken r ''_renderops_token''), nonces))
          else if \<not> authorized E g r sandboxID port then (GwNotFound, nonces)
          else (serve_upstream E g r sandboxID port, nonces))"

section \<open>What gets through\<close>

lemma verified_preview:
  assumes "preview_Verify hmac J key t v sid port = Inr c" "authentic hmac J key issued v" "\<forall>c \<in> issued. exact J c"
  shows "c \<in> issued \<and> pc_SandboxID c = sid \<and> pc_Port c = port \<and> unix t < pc_ExpiresAt c"
proof -
  have "open_token hmac J key v = Some c \<and> pc_SandboxID c = sid \<and> pc_Port c = port \<and> unix t < pc_ExpiresAt c"
    using assms(1) by (auto simp: preview_Verify_def split: option.splits if_splits)
  with open_authentic[OF assms(2,3)] show ?thesis by blast
qed

lemma verified_session:
  assumes "VerifySession hmac J key t v sid port = Inr c" "authentic hmac J key issued v" "\<forall>c \<in> issued. exact J c"
  shows "c \<in> issued \<and> ic_Kind c = KindSession \<and> ic_SandboxID c = sid \<and> ic_Port c = port
    \<and> unix t < ic_ExpiresAt c \<and> unix t < ic_AbsoluteExpiry c"
proof -
  have "open_token hmac J key v = Some c \<and> ic_Kind c = KindSession \<and> ic_SandboxID c = sid \<and> ic_Port c = port
      \<and> unix t < ic_ExpiresAt c \<and> unix t < ic_AbsoluteExpiry c"
    using assms(1) by (auto simp: VerifySession_def ide_verify_def split: option.splits if_splits)
  with open_authentic[OF assms(2,3)] show ?thesis by blast
qed

text \<open>Cookies carry only tokens that were issued, since the keys are secret.\<close>

definition honest_cookies :: "gw_env \<Rightarrow> Gateway \<Rightarrow> PreviewClaims set \<Rightarrow> IdeClaims set \<Rightarrow> gw_request \<Rightarrow> bool" where
  "honest_cookies E g previews ides r \<longleftrightarrow> (\<forall>c \<in> previews. exact (ge_preview E) c) \<and> (\<forall>c \<in> ides. exact (ge_ide E) c)
     \<and> (\<forall>(n, v) \<in> set (gq_Cookies r). authentic (ge_hmac E) (ge_preview E) (gw_signer g) previews v
          \<and> (\<forall>key. gw_ideSigner g = Some key \<longrightarrow> authentic (ge_hmac E) (ge_ide E) key ides v))"

lemma authorized_issued:
  assumes "authorized E g r sid port" "honest_cookies E g previews ides r"
  shows "(\<exists>c \<in> previews. pc_SandboxID c = sid \<and> pc_Port c = port \<and> unix (ge_clock E 1) < pc_ExpiresAt c)
    \<or> (\<exists>c \<in> ides. ic_Kind c = KindSession \<and> ic_SandboxID c = sid \<and> ic_Port c = port
         \<and> unix (ge_clock E 0) < ic_ExpiresAt c \<and> unix (ge_clock E 0) < ic_AbsoluteExpiry c)"
proof -
  from assms(1) consider
    (ide) v key c where "map_of (gq_Cookies r) ideCookieName = Some v" "gw_ideSigner g = Some key"
      "VerifySession (ge_hmac E) (ge_ide E) key (ge_clock E 0) v sid port = Inr c"
  | (preview) v c where "map_of (gq_Cookies r) previewCookieName = Some v"
      "preview_Verify (ge_hmac E) (ge_preview E) (gw_signer g) (ge_clock E 1) v sid port = Inr c"
    by (auto simp: authorized_def isl_def split: option.splits) (metis sum.exhaust_sel)+
  then show ?thesis
  proof cases
    case ide
    then have "authentic (ge_hmac E) (ge_ide E) key ides v" using assms(2) map_of_SomeD[OF ide(1)] by (auto simp: honest_cookies_def)
    then show ?thesis using verified_session[OF ide(3)] assms(2) by (auto simp: honest_cookies_def)
  next
    case preview
    then have "authentic (ge_hmac E) (ge_preview E) (gw_signer g) previews v"
      using assms(2) map_of_SomeD[OF preview(1)] by (auto simp: honest_cookies_def)
    then show ?thesis using verified_preview[OF preview(2)] assms(2) by (auto simp: honest_cookies_def)
  qed
qed

lemma forwarded:
  assumes "serveHTTP E g r nonces = (GwForward u, nonces')"
  shows "\<exists>port sid target. parseHost E g (gq_Host r) = Some (port, sid) \<and> authorized E g r sid port
     \<and> u = rewrite_request g r target sid port \<and> nonces' = nonces"
  using assms
  by (auto simp: serveHTTP_def serve_upstream_def split: option.splits prod.splits if_splits sum.splits)

lemma parseHost_uuid: "parseHost E g h = Some (port, sid) \<Longrightarrow> ge_uuid E sid = Inr sid \<and> port \<noteq> 0"
proof -
  assume "parseHost E g h = Some (port, sid)"
  then obtain t where "ge_uuid E sid = Inr sid" "ParsePort t = Inr port"
    by (auto simp: parseHost_def Let_def split: option.splits prod.splits if_splits sum.splits)
  moreover from this(2) have "0 < digits_val t" "digits_val t < 2 ^ 16" "port = of_nat (digits_val t)"
    by (auto simp: ParsePort_def split: if_splits)
  ultimately show ?thesis by (simp add: word_unat_eq_iff unat_of_nat)
qed

lemma port_text:
  fixes port :: "16 word"
  assumes "port \<noteq> 0"
  shows "ParseUint16 (itoa (uint port)) = Some (unat port)" "unat port \<noteq> 0" "slash \<notin> set (itoa (uint port))"
proof -
  have i: "itoa (uint port) = nat_digits (unat port)" by (simp add: itoa_nonneg nat_uint_eq)
  have lt: "unat port < 65536" using unsigned_less[of port] by simp
  have "\<not> list_ex (\<lambda>c. \<not> (48 \<le> (of_char c :: nat) \<and> (of_char c :: nat) \<le> 57)) (nat_digits (unat port))"
    using nat_digits_chars by (auto simp: list_ex_iff)
  with lt show "ParseUint16 (itoa (uint port)) = Some (unat port)" unfolding i by (simp add: ParseUint16_def Let_def)
  show "unat port \<noteq> 0" using assms by (simp add: unat_eq_0)
  show "slash \<notin> set (itoa (uint port))" unfolding i using nat_digits_chars[of slash] by (auto simp: slash_def)
qed

lemma worker_port_route:
  fixes port :: "16 word"
  assumes "plain sid" "port \<noteq> 0" "hq_Path q = RouteSandboxPrefix @ sid @ ''/ports/'' @ itoa (uint port) @ slash # p"
    and "w_token w = [] \<or> hq_Token q = w_token w"
  shows "serve X q w = ((case ResolvePortTarget sid (w_mgr w) of
      Inl e \<Rightarrow> (404, ErrorResponse ''sandbox_not_found'' ''sandbox is not active'')
    | Inr slot \<Rightarrow> (200, ProxyTo slot (''172.16.0.2:'' @ itoa (uint port)) (slash # p))), w)"
proof -
  let ?t = "itoa (uint port)"
  have path: "hq_Path q \<noteq> RouteHealth" "hq_Path q \<noteq> RouteCapacity" "hq_Path q \<noteq> RouteSandbox" "has_prefix (hq_Path q) RouteSandboxPrefix"
    unfolding assms(3) by (simp_all add: RouteHealth_def RouteCapacity_def RouteSandbox_def RouteSandboxPrefix_def has_prefix_def)
  define oper where "oper = ''ports/'' @ ?t @ slash # p"
  have oper: "has_prefix oper ''ports/''" "drop (length ''ports/'') oper = ?t @ slash # p" "oper \<noteq> ''run''" "oper \<noteq> ''exec''"
    by (simp_all add: oper_def has_prefix_def)
  have rest: "drop (length RouteSandboxPrefix) (hq_Path q) = sid @ slash # oper"
    unfolding assms(3) oper_def by (simp add: slash_def)
  have cut: "str_cut (sid @ slash # oper) slash = Some (sid, oper)"
    using assms(1) by (intro str_cut_append) (simp add: plain_def)
  have "str_cut (?t @ slash # p) slash = Some (?t, p)" by (rule str_cut_append[OF port_text(3)[OF assms(2)]])
  then have "portProxy sid (?t @ slash # p) w = (case ResolvePortTarget sid (w_mgr w) of
      Inl e \<Rightarrow> (404, ErrorResponse ''sandbox_not_found'' ''sandbox is not active'')
    | Inr slot \<Rightarrow> (200, ProxyTo slot (''172.16.0.2:'' @ ?t) (slash # p)))"
    using port_text(1,2)[OF assms(2)] by (simp add: portProxy_def)
  moreover have "sandboxOp X q w = (portProxy sid (?t @ slash # p) w, w)"
    unfolding sandboxOp_def rest cut Let_def using assms(1) oper by (simp add: plain_def)
  ultimately show ?thesis using path assms(4) by (auto simp: serve_def authed_def)
qed

text \<open>
  C31: A preview request reaches only the sandbox and the port of its host name, and only with a token that
  was issued for both and has not expired. The cookies of the gateway are not passed on. At the worker the
  forwarded request is proxied to that port in the slot of that sandbox, or answered with an error; it runs
  no other operation and changes nothing.
\<close>

theorem preview_reaches_only_its_sandbox:
  assumes "serveHTTP E g r nonces = (GwForward u, nonces')" and "honest_cookies E g previews ides r"
    and "\<forall>s t. ge_uuid E s = Inr t \<longrightarrow> plain t"
    and "gq_Path r = slash # p" and "w_token w = gw_workerToken g"
    and "hq_Path q = gu_Path u" and "hq_Token q = gu_Token u"
  shows "\<exists>port sid. parseHost E g (gq_Host r) = Some (port, sid)
    \<and> ((\<exists>c \<in> previews. pc_SandboxID c = sid \<and> pc_Port c = port \<and> unix (ge_clock E 1) < pc_ExpiresAt c)
       \<or> (\<exists>c \<in> ides. ic_Kind c = KindSession \<and> ic_SandboxID c = sid \<and> ic_Port c = port
            \<and> unix (ge_clock E 0) < ic_ExpiresAt c \<and> unix (ge_clock E 0) < ic_AbsoluteExpiry c))
    \<and> {previewCookieName, ideCookieName} \<inter> fst ` set (gu_Cookies u) = {}
    \<and> serve X q w = ((case ResolvePortTarget sid (w_mgr w) of
         Inl e \<Rightarrow> (404, ErrorResponse ''sandbox_not_found'' ''sandbox is not active'')
       | Inr slot \<Rightarrow> (200, ProxyTo slot (''172.16.0.2:'' @ itoa (uint port)) (slash # p))), w)"
proof -
  from forwarded[OF assms(1)] obtain port sid target where
    f: "parseHost E g (gq_Host r) = Some (port, sid)" "authorized E g r sid port" "u = rewrite_request g r target sid port" by blast
  have "plain sid" "port \<noteq> 0" using parseHost_uuid[OF f(1)] assms(3) by blast+
  moreover have "hq_Path q = RouteSandboxPrefix @ sid @ ''/ports/'' @ itoa (uint port) @ slash # p" "hq_Token q = w_token w"
    using f(3) assms(4-7) by (simp_all add: rewrite_request_def Let_def)
  ultimately have "serve X q w = ((case ResolvePortTarget sid (w_mgr w) of
         Inl e \<Rightarrow> (404, ErrorResponse ''sandbox_not_found'' ''sandbox is not active'')
       | Inr slot \<Rightarrow> (200, ProxyTo slot (''172.16.0.2:'' @ itoa (uint port)) (slash # p))), w)"
    by (intro worker_port_route) simp_all
  moreover have "{previewCookieName, ideCookieName} \<inter> fst ` set (gu_Cookies u) = {}"
    using f(3) by (auto simp: rewrite_request_def Let_def stripCookie_def)
  ultimately show ?thesis using f(1) authorized_issued[OF f(2) assms(2)] by blast
qed

section \<open>Host names\<close>

lemma to_lower_digits: "to_lower (itoa (uint (port :: 16 word))) = itoa (uint port)"
proof -
  have i: "itoa (uint port) = nat_digits (unat port)" by (simp add: itoa_nonneg nat_uint_eq)
  have "to_lower_char c = c" if "c \<in> set (nat_digits (unat port))" for c
    using nat_digits_chars[OF that] by (simp add: to_lower_char_def Let_def)
  then show ?thesis unfolding i to_lower_def by (simp add: map_idI)
qed

lemma to_lower_colon: "CHR '':'' \<notin> set s \<Longrightarrow> CHR '':'' \<notin> set (to_lower s)"
proof -
  have "to_lower_char c = CHR '':'' \<Longrightarrow> c = CHR '':''" for c
  proof (cases "65 \<le> (of_char c :: nat) \<and> (of_char c :: nat) \<le> 90")
    case True
    assume "to_lower_char c = CHR '':''"
    with True have "(of_char (char_of (of_char c + 32 :: nat) :: char) :: nat) = of_char (CHR '':'')" by (simp add: to_lower_char_def Let_def)
    with True have "(of_char c + 32 :: nat) = 58" by simp
    with True show ?thesis by simp
  qed (auto simp: to_lower_char_def Let_def)
  then show "CHR '':'' \<notin> set s \<Longrightarrow> CHR '':'' \<notin> set (to_lower s)"
    unfolding to_lower_def set_map by (metis imageE)
qed

lemma has_suffix_append [simp]: "has_suffix (a @ b) b" "trim_suffix (a @ b) b = a"
  by (simp_all add: has_suffix_def trim_suffix_def)

lemma str_cut_None: "sep \<notin> set s \<Longrightarrow> str_cut s sep = None"
  by (induction s) auto

lemma ParsePort_text:
  fixes port :: "16 word"
  assumes "port \<noteq> 0"
  shows "ParsePort (itoa (uint port)) = Inr port"
proof -
  have i: "itoa (uint port) = nat_digits (unat port)" by (simp add: itoa_nonneg nat_uint_eq)
  have "unat port < 65536" using unsigned_less[of port] by simp
  with assms show ?thesis unfolding i using nat_digits_chars by (auto simp: ParsePort_def list_all_iff unat_eq_0)
qed

text \<open>The host name of a link names the sandbox and the port again.\<close>

lemma parseHost_link:
  fixes port :: "16 word"
  assumes "port \<noteq> 0" "gw_domain g = to_lower d" "ge_uuid E sid = Inr sid" "to_lower sid = sid"
    and "CHR '':'' \<notin> set sid" "CHR '':'' \<notin> set d"
  shows "parseHost E g (itoa (uint port) @ CHR ''-'' # sid @ CHR ''.'' # d) = Some (port, sid)"
proof -
  let ?h = "itoa (uint port) @ CHR ''-'' # sid @ CHR ''.'' # d"
  have tl: "to_lower_char (CHR ''-'') = CHR ''-''" "to_lower_char (CHR ''.'') = CHR ''.''" by (simp_all add: to_lower_char_def)
  have low: "to_lower ?h = (itoa (uint port) @ CHR ''-'' # sid) @ (CHR ''.'' # to_lower d)"
    using assms(4) by (simp add: to_lower_append to_lower_digits) (simp add: to_lower_def tl)
  have digits: "CHR '':'' \<notin> set (itoa (uint port))" "CHR ''-'' \<notin> set (itoa (uint port))"
    by (simp_all add: itoa_nonneg)
  then have "str_cut (to_lower ?h) (CHR '':'') = None"
    unfolding low using assms(5) to_lower_colon[OF assms(6)] by (intro str_cut_None) auto
  moreover have "str_cut (itoa (uint port) @ CHR ''-'' # sid) (CHR ''-'') = Some (itoa (uint port), sid)"
    by (rule str_cut_append[OF digits(2)])
  ultimately show ?thesis
    using assms(2,3) ParsePort_text[OF assms(1)] by (simp only: parseHost_def Let_def low option.case has_suffix_append not_True_eq_False if_False) simp
qed

section \<open>A sample request\<close>

lemma authentic_signed: "authentic hmac J key {c} (sign_token hmac J key c)"
proof -
  let ?e = "b64_encode (cd_Marshal J c)"
  have no: "dot \<notin> set (b64_encode x)" "y \<in> set (b64_encode x) \<Longrightarrow> \<not> is_space y" for x y
    using b64_chars[of _ x] by (auto simp: dot_def)
  have "trim_space (sign_token hmac J key c) = ?e @ dot # signature hmac key ?e"
    unfolding sign_token_def Let_def using no(2) by (intro trim_space_id) (auto simp: signature_def dot_def is_space_def)
  then show ?thesis by (simp add: authentic_def str_cut_append[OF no(1)])
qed

definition sample_preview :: PreviewClaims where
  "sample_preview = \<lparr>pc_SandboxID = ''sb1'', pc_UserID = ''u'', pc_Port = 8080, pc_ExpiresAt = 60\<rparr>"

definition sample_gw_env :: gw_env where
  "sample_gw_env = \<lparr>ge_hmac = sample_mac, ge_preview = text_codec preview_text, ge_ide = text_codec ide_text,
     ge_uuid = (\<lambda>s. if s = ''sb1'' then Inr s else Inl (ErrNew ''invalid UUID'')),
     ge_url = (\<lambda>s. Inr (''http'', s)), ge_set_cookie = Inr,
     ge_Placement = (\<lambda>s. Inr \<lparr>pl_SandboxID = s, WorkerID = ''w1'', Endpoint = ''10.0.0.1'', pl_State = ''active''\<rparr>),
     ge_clock = (\<lambda>n. 0)\<rparr>"

definition sample_gateway :: Gateway where
  "sample_gateway = \<lparr>gw_domain = ''ex'', gw_signer = ''k'', gw_workerToken = ''tok'', gw_ideSigner = None\<rparr>"

definition sample_gw_request :: gw_request where
  "sample_gw_request = \<lparr>gq_Host = ''8080-sb1.ex'', gq_Path = ''/x'', gq_Query = [],
     gq_Cookies = [(previewCookieName, sign_token sample_mac (text_codec preview_text) ''k'' sample_preview)]\<rparr>"

lemma sample_host: "parseHost sample_gw_env sample_gateway ''8080-sb1.ex'' = Some (8080, ''sb1'')"
proof -
  have "itoa (uint (8080 :: 16 word)) = ''8080''" by code_simp
  moreover have "to_lower ''sb1'' = ''sb1''" "to_lower ''ex'' = ''ex''" by code_simp+
  ultimately show ?thesis
    using parseHost_link[of 8080 sample_gateway "''ex''" sample_gw_env "''sb1''"]
    by (simp add: sample_gw_env_def sample_gateway_def)
qed

theorem preview_reaches_only_its_sandbox_witness:
  "\<exists>port sid. parseHost sample_gw_env sample_gateway ''8080-sb1.ex'' = Some (port, sid)
    \<and> serve sample_mgr_env
        ((sample_http ''GET'' (gu_Path (rewrite_request sample_gateway sample_gw_request (''http'', ''10.0.0.1'') ''sb1'' 8080)))\<lparr>hq_Token := ''tok''\<rparr>)
        (sample_worker\<lparr>w_token := ''tok''\<rparr>)
      = ((case ResolvePortTarget sid (w_mgr sample_worker) of
           Inl e \<Rightarrow> (404, ErrorResponse ''sandbox_not_found'' ''sandbox is not active'')
         | Inr slot \<Rightarrow> (200, ProxyTo slot (''172.16.0.2:'' @ itoa (uint port)) (slash # ''x''))), sample_worker\<lparr>w_token := ''tok''\<rparr>)"
proof -
  let ?E = sample_gw_env and ?g = sample_gateway and ?r = sample_gw_request
  let ?u = "rewrite_request ?g ?r (''http'', ''10.0.0.1'') ''sb1'' 8080"
  have f: "ge_hmac ?E = sample_mac" "ge_preview ?E = text_codec preview_text" "ge_clock ?E n = 0" "gw_signer ?g = ''k''"
    "gw_ideSigner ?g = None" "gq_Host ?r = ''8080-sb1.ex''" "gq_Query ?r = []" "gq_Path ?r = slash # ''x''" "gw_workerToken ?g = ''tok''"
    "gu_Token ?u = ''tok''" for n
    by (simp_all add: sample_gw_env_def sample_gateway_def sample_gw_request_def slash_def rewrite_request_def Let_def)
  have "open_token sample_mac (text_codec preview_text) ''k'' (sign_token sample_mac (text_codec preview_text) ''k'' sample_preview)
      = Some sample_preview" by (rule open_sign[OF sample_mac_ok sample_codecs(1)])
  then have "authorized ?E ?g ?r ''sb1'' 8080"
    by (simp add: authorized_def f preview_Verify_def sample_gw_request_def sample_preview_def unix_def)
  moreover have "serve_upstream ?E ?g ?r ''sb1'' 8080 = GwForward ?u"
    by (simp add: serve_upstream_def sample_gw_env_def)
  ultimately have 1: "serveHTTP ?E ?g ?r [] = (GwForward ?u, [])"
    by (simp add: serveHTTP_def f query_Get_def sample_host)
  have 2: "honest_cookies ?E ?g {sample_preview} {} ?r"
    using authentic_signed sample_codecs(1) by (simp add: honest_cookies_def f sample_gw_request_def)
  have 3: "\<forall>s t. ge_uuid ?E s = Inr t \<longrightarrow> plain t" by (simp add: sample_gw_env_def plain_def slash_def)
  show ?thesis
    using preview_reaches_only_its_sandbox[OF 1 2 3 f(8), of "sample_worker\<lparr>w_token := ''tok''\<rparr>"
        "(sample_http ''GET'' (gu_Path ?u))\<lparr>hq_Token := ''tok''\<rparr>" sample_mgr_env] f
    by (auto simp: sample_http_def)
qed

end
