(* ===== verification/Terminals.thy ===== *)
theory Terminals
  imports Tokens
begin

text \<open>
  The terminal manager of the control plane (\<open>backend/internal/terminal/manager.go\<close>): a terminal is reserved,
  authorized with a signed attachment token once its worker confirmed it, and attached by presenting the token.
  HMAC-SHA256 and the JSON text of the claims are arguments, as in \<open>Tokens\<close>; so are the clock and the random bytes.
  The zero \<open>time.Time\<close> of a token that does not exist yet is \<^term>\<open>None\<close>.
\<close>

section \<open>Things that are used once\<close>

text \<open>
  A system answers every operation. An answer may use a thing up; from then on the thing is \<open>spent\<close>, and it is
  not used again unless an operation renews it. So it is used at most once more than it is renewed.
\<close>

fun run_outs :: "('op \<Rightarrow> 's \<Rightarrow> 'out \<times> 's) \<Rightarrow> 'op list \<Rightarrow> 's \<Rightarrow> 'out list" where
  "run_outs step [] s = []"
| "run_outs step (a # as) s = (case step a s of (out, s') \<Rightarrow> out # run_outs step as s')"

locale single_use =
  fixes step :: "'op \<Rightarrow> 's \<Rightarrow> 'out \<times> 's"
    and uses :: "'out \<Rightarrow> 'id option"
    and spent :: "'id \<Rightarrow> 's \<Rightarrow> bool"
    and renews :: "'op \<Rightarrow> 'id \<Rightarrow> bool"
    and inv :: "'s \<Rightarrow> bool"
  assumes step_inv: "inv s \<Longrightarrow> step a s = (out, s') \<Longrightarrow> inv s'"
    and use_spends: "inv s \<Longrightarrow> step a s = (out, s') \<Longrightarrow> uses out = Some i \<Longrightarrow> spent i s'"
    and spent_stays: "inv s \<Longrightarrow> spent i s \<Longrightarrow> \<not> renews a i \<Longrightarrow> step a s = (out, s') \<Longrightarrow> spent i s' \<and> uses out \<noteq> Some i"
begin

lemma uses_bounded:
  "inv s \<Longrightarrow> length (filter (\<lambda>out. uses out = Some i) (run_outs step as s))
     \<le> (if spent i s then 0 else 1) + length (filter (\<lambda>a. renews a i) as)"
proof (induction as arbitrary: s)
  case (Cons a as)
  obtain out s' where st: "step a s = (out, s')" by fastforce
  note IH = Cons.IH[OF step_inv[OF Cons.prems st]]
  show ?case
    using IH st use_spends[OF Cons.prems st, of i] spent_stays[OF Cons.prems _ _ st, of i]
    by (auto split: if_splits)
qed simp

end

section \<open>The manager\<close>

definition tokenVersion :: int where "tokenVersion = 1"

definition terminalSigningContext :: string where
  "terminalSigningContext = ''renderops/terminal-attachment-token/v1''"

definition ErrInvalidTerminal :: go_error where "ErrInvalidTerminal = ErrNew ''invalid terminal attachment token''"
definition ErrExpiredTerminal :: go_error where "ErrExpiredTerminal = ErrNew ''terminal attachment token expired''"
definition ErrTerminalUsed :: go_error where "ErrTerminalUsed = ErrNew ''terminal attachment token already used''"

datatype TermState = StateCreating | StateReady | StateClosed

record TermSession =
  ts_ID :: string
  ts_SandboxID :: string
  ts_UserID :: string
  ts_WorkerID :: string
  ts_State :: TermState
  ts_CreatedAt :: int
  ts_ExpiresAt :: "int option"

record TermClaims =
  tc_Version :: int
  tc_TerminalID :: string
  tc_SandboxID :: string
  tc_UserID :: string
  tc_WorkerID :: string
  tc_IssuedAt :: int
  tc_ExpiresAt :: int
  tc_TokenID :: string

record term_record =
  tr_Session :: TermSession
  tr_tokenID :: string
  tr_consumed :: bool

record TermManager =
  tm_secret :: string
  tm_tokenTTL :: int
  tm_sessions :: "(string, term_record) gomap"

definition term_NewManager :: "string \<Rightarrow> int \<Rightarrow> go_error + TermManager" where
  "term_NewManager secret tokenTTL =
     (if length secret < 32 then Inl (ErrNew ''terminal token secret must contain at least 32 characters'')
      else if tokenTTL \<le> 0 then Inl (ErrNew ''terminal token TTL must be positive'')
      else Inr \<lparr>tm_secret = secret, tm_tokenTTL = tokenTTL, tm_sessions = []\<rparr>)"

definition term_DeriveSigningSecret :: "mac \<Rightarrow> string \<Rightarrow> string" where
  "term_DeriveSigningSecret hmac workerToken = b64_encode (hmac workerToken terminalSigningContext)"

definition randomID :: "string \<Rightarrow> go_error + string \<Rightarrow> go_error + string" where
  "randomID prefix raw = (case raw of Inl e \<Rightarrow> Inl e | Inr bytes \<Rightarrow> Inr (prefix @ b64_encode bytes))"

definition term_expired :: "int \<Rightarrow> int \<Rightarrow> term_record \<Rightarrow> bool" where
  "term_expired ttl now r =
     (let s = tr_Session r;
          reservationExpired = (ts_State s = StateCreating \<and> \<not> now < ts_CreatedAt s + ttl);
          tokenExpired = (ts_State s = StateReady \<and> \<not> tr_consumed r
                            \<and> (case ts_ExpiresAt s of None \<Rightarrow> True | Some t \<Rightarrow> \<not> now < t))
      in ts_State s = StateClosed \<or> reservationExpired \<or> tokenExpired)"

definition pruneExpiredLocked :: "int \<Rightarrow> TermManager \<Rightarrow> TermManager" where
  "pruneExpiredLocked now m = m\<lparr>tm_sessions := filter (\<lambda>(i, r). \<not> term_expired (tm_tokenTTL m) now r) (tm_sessions m)\<rparr>"

definition term_Reserve ::
    "int \<Rightarrow> go_error + string \<Rightarrow> string \<Rightarrow> string \<Rightarrow> string \<Rightarrow> TermManager \<Rightarrow> (go_error + TermSession) \<times> TermManager" where
  "term_Reserve now raw sandboxID userID workerID m =
     (let sb = trim_space sandboxID; u = trim_space userID; wk = trim_space workerID in
      if sb = [] \<or> u = [] \<or> wk = [] then (Inl (ErrNew ''sandbox id, user id, and worker id are required''), m)
      else case randomID ''term_'' raw of
        Inl e \<Rightarrow> (Inl (Wrapf ''generate terminal id'' e), m)
      | Inr terminalID \<Rightarrow>
          let session = \<lparr>ts_ID = terminalID, ts_SandboxID = sb, ts_UserID = u, ts_WorkerID = wk, ts_State = StateCreating,
                ts_CreatedAt = now, ts_ExpiresAt = None\<rparr>;
              m' = pruneExpiredLocked now m
          in (Inr session, m'\<lparr>tm_sessions := mput terminalID \<lparr>tr_Session = session, tr_tokenID = [], tr_consumed = False\<rparr> (tm_sessions m')\<rparr>))"

definition term_sign :: "mac \<Rightarrow> TermClaims codec \<Rightarrow> TermManager \<Rightarrow> TermClaims \<Rightarrow> string" where
  "term_sign hmac J m claims =
     (let encoded = b64_encode (cd_Marshal J claims) in encoded @ dot # b64_encode (hmac (tm_secret m) encoded))"

definition term_Authorize ::
    "mac \<Rightarrow> TermClaims codec \<Rightarrow> int \<Rightarrow> go_error + string \<Rightarrow> string \<Rightarrow> TermManager
     \<Rightarrow> (go_error + TermSession \<times> string) \<times> TermManager" where
  "term_Authorize hmac J now raw terminalID m =
     (case randomID [] raw of
        Inl e \<Rightarrow> (Inl (Wrapf ''generate terminal token id'' e), m)
      | Inr tokenID \<Rightarrow>
          let missing = (Inl (ErrNew ''terminal reservation not found''), m) in
          (case mget (tm_sessions m) terminalID of
             None \<Rightarrow> missing
           | Some r \<Rightarrow>
               if ts_State (tr_Session r) \<noteq> StateCreating then missing
               else
                 let expiresAt = now + tm_tokenTTL m;
                     s = (tr_Session r)\<lparr>ts_State := StateReady, ts_ExpiresAt := Some expiresAt\<rparr>;
                     claims = \<lparr>tc_Version = tokenVersion, tc_TerminalID = ts_ID s, tc_SandboxID = ts_SandboxID s, tc_UserID = ts_UserID s,
                       tc_WorkerID = ts_WorkerID s, tc_IssuedAt = unix now, tc_ExpiresAt = unix expiresAt, tc_TokenID = tokenID\<rparr>
                 in (Inr (s, term_sign hmac J m claims),
                     m\<lparr>tm_sessions := mput terminalID (r\<lparr>tr_Session := s, tr_tokenID := tokenID\<rparr>) (tm_sessions m)\<rparr>)))"

definition term_Cancel :: "string \<Rightarrow> TermManager \<Rightarrow> TermManager" where
  "term_Cancel terminalID m = m\<lparr>tm_sessions := mdel terminalID (tm_sessions m)\<rparr>"

text \<open>The loop of \<open>verify\<close> over the bytes: the index of the only dot; a second dot ends it.\<close>

fun find_separator :: "string \<Rightarrow> nat \<Rightarrow> nat option \<Rightarrow> nat option option" where
  "find_separator [] i separator = Some separator"
| "find_separator (c # cs) i separator =
     (if c = dot then (if separator \<noteq> None then None else find_separator cs (Suc i) (Some i))
      else find_separator cs (Suc i) separator)"

definition term_claims_ok :: "TermClaims \<Rightarrow> bool" where
  "term_claims_ok c \<longleftrightarrow> \<not> (tc_Version c \<noteq> tokenVersion \<or> tc_TerminalID c = [] \<or> tc_SandboxID c = [] \<or> tc_UserID c = []
     \<or> tc_WorkerID c = [] \<or> tc_TokenID c = [] \<or> tc_ExpiresAt c \<le> tc_IssuedAt c)"

definition term_verify :: "mac \<Rightarrow> TermClaims codec \<Rightarrow> TermManager \<Rightarrow> string \<Rightarrow> go_error + TermClaims" where
  "term_verify hmac J m token =
     (case find_separator token 0 None of
        Some (Some i) \<Rightarrow>
          if i = 0 \<or> Suc i = length token then Inl ErrInvalidTerminal
          else
            let payloadPart = take i token; signaturePart = drop (Suc i) token in
            (case b64_decode signaturePart of
               None \<Rightarrow> Inl ErrInvalidTerminal
             | Some sig \<Rightarrow>
                 if sig \<noteq> hmac (tm_secret m) payloadPart then Inl ErrInvalidTerminal
                 else (case b64_decode payloadPart of
                         None \<Rightarrow> Inl ErrInvalidTerminal
                       | Some payload \<Rightarrow>
                           (case cd_Unmarshal J payload of
                              Inl e \<Rightarrow> Inl ErrInvalidTerminal
                            | Inr claims \<Rightarrow> if term_claims_ok claims then Inr claims else Inl ErrInvalidTerminal)))
      | _ \<Rightarrow> Inl ErrInvalidTerminal)"

definition term_Consume :: "mac \<Rightarrow> TermClaims codec \<Rightarrow> int \<Rightarrow> string \<Rightarrow> TermManager \<Rightarrow> (go_error + TermSession) \<times> TermManager" where
  "term_Consume hmac J now token m =
     (case term_verify hmac J m token of
        Inl e \<Rightarrow> (Inl e, m)
      | Inr claims \<Rightarrow>
          if unix now \<ge> tc_ExpiresAt claims then (Inl ErrExpiredTerminal, m)
          else (case mget (tm_sessions m) (tc_TerminalID claims) of
                  None \<Rightarrow> (Inl ErrInvalidTerminal, m)
                | Some r \<Rightarrow>
                    let s = tr_Session r in
                    if ts_State s \<noteq> StateReady \<or> tr_tokenID r \<noteq> tc_TokenID claims \<or> ts_SandboxID s \<noteq> tc_SandboxID claims
                       \<or> ts_UserID s \<noteq> tc_UserID claims \<or> ts_WorkerID s \<noteq> tc_WorkerID claims
                    then (Inl ErrInvalidTerminal, m)
                    else if tr_consumed r then (Inl ErrTerminalUsed, m)
                    else (Inr s, m\<lparr>tm_sessions := mput (tc_TerminalID claims) (r\<lparr>tr_consumed := True\<rparr>) (tm_sessions m)\<rparr>)))"

section \<open>The token of an authorized terminal attaches it\<close>

lemma find_separator_none: "dot \<notin> set s \<Longrightarrow> find_separator s i sep = Some sep"
  by (induction s arbitrary: i) auto

lemma find_separator_one: "dot \<notin> set a \<Longrightarrow> dot \<notin> set b \<Longrightarrow> find_separator (a @ dot # b) i None = Some (Some (i + length a))"
  by (induction a arbitrary: i) (auto simp: find_separator_none)

lemma b64_no_dot: "dot \<notin> set (b64_encode x)"
  using b64_chars[of _ x] by (auto simp: dot_def)

lemma verify_signed:
  assumes "mac_ok hmac" "exact J c" "term_claims_ok c"
  shows "term_verify hmac J m (term_sign hmac J m c) = Inr c"
proof -
  let ?e = "b64_encode (cd_Marshal J c)" and ?s = "b64_encode (hmac (tm_secret m) (b64_encode (cd_Marshal J c)))"
  have "hmac (tm_secret m) ?e \<noteq> []" using assms(1) unfolding mac_ok_def by (metis list.size(3) zero_neq_numeral)
  then have ne: "?s \<noteq> []" "?e \<noteq> []" using assms(2) by (auto simp: exact_def)
  have "find_separator (?e @ dot # ?s) 0 None = Some (Some (length ?e))"
    using find_separator_one[OF b64_no_dot b64_no_dot, of _ _ 0] by simp
  with ne assms(2,3) show ?thesis by (simp add: term_verify_def term_sign_def exact_def Let_def)
qed

lemma term_verify_sessions [simp]: "term_verify hmac J (m\<lparr>tm_sessions := x\<rparr>) = term_verify hmac J m"
proof -
  have secret: "tm_secret (m\<lparr>tm_sessions := x\<rparr>) = tm_secret m" by simp
  show ?thesis unfolding term_verify_def secret by (rule refl)
qed

text \<open>
  The token that \<open>Authorize\<close> hands out attaches the terminal. For a terminal reserved at \<open>t0\<close> for a sandbox, user and
  worker and authorized at \<open>t1\<close>, presenting the token before the second at which it expires gives the session with
  those identities, and presenting it again is refused as used.
\<close>

theorem terminal_token_roundtrip:
  assumes "mac_ok hmac" "\<forall>c. exact J c" "1000000000 \<le> tm_tokenTTL m"
    and "term_Reserve t0 raw sandboxID userID workerID m = (Inr s0, m1)"
    and "term_Authorize hmac J t1 raw' (ts_ID s0) m1 = (Inr (s, token), m2)" "raw' \<noteq> Inr []"
    and "unix t2 < unix (t1 + tm_tokenTTL m)" "unix t3 < unix (t1 + tm_tokenTTL m)"
  shows "\<exists>m3. term_Consume hmac J t2 token m2 = (Inr s, m3)
    \<and> s = s0\<lparr>ts_State := StateReady, ts_ExpiresAt := Some (t1 + tm_tokenTTL m)\<rparr>
    \<and> ts_SandboxID s = trim_space sandboxID \<and> ts_UserID s = trim_space userID \<and> ts_WorkerID s = trim_space workerID
    \<and> term_Consume hmac J t3 token m3 = (Inl ErrTerminalUsed, m3)"
proof -
  obtain bytes where r: "raw = Inr bytes"
    "s0 = \<lparr>ts_ID = ''term_'' @ b64_encode bytes, ts_SandboxID = trim_space sandboxID, ts_UserID = trim_space userID,
       ts_WorkerID = trim_space workerID, ts_State = StateCreating, ts_CreatedAt = t0, ts_ExpiresAt = None\<rparr>"
    "mget (tm_sessions m1) (ts_ID s0) = Some \<lparr>tr_Session = s0, tr_tokenID = [], tr_consumed = False\<rparr>"
    "tm_tokenTTL m1 = tm_tokenTTL m" "trim_space sandboxID \<noteq> []" "trim_space userID \<noteq> []" "trim_space workerID \<noteq> []"
    using assms(4) by (auto simp: term_Reserve_def randomID_def pruneExpiredLocked_def Let_def split: if_splits sum.splits)
  obtain bytes' where b: "raw' = Inr bytes'" "bytes' \<noteq> []"
    using assms(5,6) by (auto simp: term_Authorize_def randomID_def split: sum.splits)
  let ?c = "\<lparr>tc_Version = tokenVersion, tc_TerminalID = ts_ID s0, tc_SandboxID = ts_SandboxID s0, tc_UserID = ts_UserID s0,
    tc_WorkerID = ts_WorkerID s0, tc_IssuedAt = unix t1, tc_ExpiresAt = unix (t1 + tm_tokenTTL m), tc_TokenID = b64_encode bytes'\<rparr>"
  define x where "x = \<lparr>tr_Session = s, tr_tokenID = b64_encode bytes', tr_consumed = False\<rparr>"
  have a: "s = s0\<lparr>ts_State := StateReady, ts_ExpiresAt := Some (t1 + tm_tokenTTL m)\<rparr>" "token = term_sign hmac J m1 ?c"
    "m2 = m1\<lparr>tm_sessions := mput (ts_ID s0) x (tm_sessions m1)\<rparr>"
    using assms(5) r(2-4) b(1) by (auto simp: term_Authorize_def randomID_def x_def Let_def)
  have "unix t1 < unix (t1 + tm_tokenTTL m)" using assms(3) by (simp add: unix_def)
  then have ok: "term_claims_ok ?c" using r b(2) by (simp add: term_claims_ok_def)
  have v: "term_verify hmac J m1 token = Inr ?c" unfolding a(2) using assms(1,2) ok by (intro verify_signed) auto
  have s: "ts_State s = StateReady" "ts_SandboxID s = ts_SandboxID s0" "ts_UserID s = ts_UserID s0" "ts_WorkerID s = ts_WorkerID s0"
    by (simp_all add: a(1))
  let ?m3 = "m2\<lparr>tm_sessions := mput (ts_ID s0) (x\<lparr>tr_consumed := True\<rparr>) (tm_sessions m2)\<rparr>"
  have "term_Consume hmac J t2 token m2 = (Inr s, ?m3)"
    using v assms(7) s by (simp add: term_Consume_def a(3) x_def)
  moreover have "term_Consume hmac J t3 token ?m3 = (Inl ErrTerminalUsed, ?m3)"
    using v assms(8) s by (simp add: term_Consume_def a(3) x_def)
  ultimately show ?thesis using a(1) r(2) s by auto
qed

section \<open>Every terminal is attached at most once\<close>

datatype term_op =
    TReserve int "go_error + string" string string string
  | TAuthorize int "go_error + string" string
  | TCancel string
  | TConsume int string

datatype term_out =
    TReserved TermSession
  | TAuthorized TermSession string
  | TAttached TermSession
  | TCanceled
  | TRefused go_error

primrec term_step :: "mac \<Rightarrow> TermClaims codec \<Rightarrow> term_op \<Rightarrow> TermManager \<Rightarrow> term_out \<times> TermManager" where
  "term_step hmac J (TReserve now raw sb u wk) m =
     (case term_Reserve now raw sb u wk m of (Inl e, m') \<Rightarrow> (TRefused e, m') | (Inr s, m') \<Rightarrow> (TReserved s, m'))"
| "term_step hmac J (TAuthorize now raw tid) m =
     (case term_Authorize hmac J now raw tid m of (Inl e, m') \<Rightarrow> (TRefused e, m') | (Inr (s, tok), m') \<Rightarrow> (TAuthorized s tok, m'))"
| "term_step hmac J (TCancel tid) m = (TCanceled, term_Cancel tid m)"
| "term_step hmac J (TConsume now tok) m =
     (case term_Consume hmac J now tok m of (Inl e, m') \<Rightarrow> (TRefused e, m') | (Inr s, m') \<Rightarrow> (TAttached s, m'))"

definition term_run :: "mac \<Rightarrow> TermClaims codec \<Rightarrow> term_op list \<Rightarrow> TermManager \<Rightarrow> term_out list" where
  "term_run hmac J = run_outs (term_step hmac J)"

text \<open>The random terminal ids that a sequence of calls draws, and the attachments of a terminal.\<close>

fun drawn :: "term_op list \<Rightarrow> string list" where
  "drawn [] = []"
| "drawn (TReserve now (Inr bytes) sb u wk # as) = (''term_'' @ b64_encode bytes) # drawn as"
| "drawn (_ # as) = drawn as"

fun attachment :: "term_out \<Rightarrow> string option" where
  "attachment (TAttached s) = Some (ts_ID s)"
| "attachment _ = None"

definition attached :: "string \<Rightarrow> term_out list \<Rightarrow> term_out list" where
  "attached tid outs = filter (\<lambda>out. attachment out = Some tid) outs"

text \<open>Every authorization follows the reservation of that terminal, and every attachment its authorization.\<close>

definition confirms :: "TermSession \<Rightarrow> TermSession \<Rightarrow> bool" where
  "confirms s s' \<longleftrightarrow> (\<exists>t. s' = s\<lparr>ts_State := StateReady, ts_ExpiresAt := Some t\<rparr>)"

fun in_order :: "TermSession list \<Rightarrow> TermSession list \<Rightarrow> term_out list \<Rightarrow> bool" where
  "in_order R A [] = True"
| "in_order R A (TReserved s # outs) = in_order (s # R) A outs"
| "in_order R A (TAuthorized s tok # outs) = ((\<exists>r \<in> set R. confirms r s) \<and> in_order R (s # A) outs)"
| "in_order R A (TAttached s # outs) = (s \<in> set A \<and> in_order R A outs)"
| "in_order R A (_ # outs) = in_order R A outs"

definition term_wf :: "TermManager \<Rightarrow> bool" where
  "term_wf m \<longleftrightarrow> mwf (tm_sessions m) \<and> (\<forall>tid r. mget (tm_sessions m) tid = Some r \<longrightarrow> ts_ID (tr_Session r) = tid)"

definition term_spent :: "string \<Rightarrow> TermManager \<Rightarrow> bool" where
  "term_spent tid m \<longleftrightarrow> (case mget (tm_sessions m) tid of None \<Rightarrow> True | Some r \<Rightarrow> tr_consumed r)"

lemma mget_filter_value:
  "mwf m \<Longrightarrow> mget (filter (\<lambda>(k, v). P v) m) k = (case mget m k of None \<Rightarrow> None | Some v \<Rightarrow> if P v then Some v else None)"
proof (induction m)
  case (Cons kv m)
  have "mget m (fst kv) = None" using Cons.prems by (auto simp: mwf_def map_of_eq_None_iff)
  with Cons show ?case by (cases kv) (auto simp: mwf_def split: option.splits)
qed simp

lemma mwf_filter: "mwf m \<Longrightarrow> mwf (filter P m)"
  unfolding mwf_def by (rule distinct_map_filter)

lemma pruned:
  assumes "term_wf m"
  shows "term_wf (pruneExpiredLocked now m)"
    and "mget (tm_sessions (pruneExpiredLocked now m)) tid = Some r \<Longrightarrow> mget (tm_sessions m) tid = Some r"
  using assms mget_filter_value[of "tm_sessions m" "\<lambda>r. \<not> term_expired (tm_tokenTTL m) now r"]
  by (auto simp: term_wf_def pruneExpiredLocked_def mwf_filter split: option.splits if_splits)

lemma Reserve_effect:
  assumes "term_Reserve now raw sb u wk m = (out, m')"
  obtains (refused) e where "out = Inl e" "m' = m"
  | (reserved) bytes s where "raw = Inr bytes" "out = Inr s" "ts_ID s = ''term_'' @ b64_encode bytes" "ts_State s = StateCreating"
      "m' = (pruneExpiredLocked now m)\<lparr>tm_sessions := mput (ts_ID s) \<lparr>tr_Session = s, tr_tokenID = [], tr_consumed = False\<rparr>
               (tm_sessions (pruneExpiredLocked now m))\<rparr>"
  using assms by (auto simp: term_Reserve_def randomID_def Let_def split: if_splits sum.splits)

lemma Authorize_effect:
  assumes "term_Authorize hmac J now raw tid m = (out, m')"
  obtains (refused) e where "out = Inl e" "m' = m"
  | (authorized) r s tok t tokenID where "mget (tm_sessions m) tid = Some r" "ts_State (tr_Session r) = StateCreating" "out = Inr (s, tok)"
      "s = (tr_Session r)\<lparr>ts_State := StateReady, ts_ExpiresAt := Some t\<rparr>"
      "m' = m\<lparr>tm_sessions := mput tid (r\<lparr>tr_Session := s, tr_tokenID := tokenID\<rparr>) (tm_sessions m)\<rparr>"
proof (cases out)
  case (Inl e)
  moreover from this assms have "m' = m" by (auto simp: term_Authorize_def Let_def split: if_splits sum.splits option.splits)
  ultimately show ?thesis by (rule refused)
next
  case (Inr p)
  with assms show ?thesis
    by (auto simp: term_Authorize_def Let_def split: if_splits sum.splits option.splits intro: authorized)
qed

lemma Consume_effect:
  assumes "term_Consume hmac J now token m = (out, m')"
  obtains (refused) e where "out = Inl e" "m' = m"
  | (consumed) tid r where "mget (tm_sessions m) tid = Some r" "ts_State (tr_Session r) = StateReady" "\<not> tr_consumed r" "out = Inr (tr_Session r)"
      "m' = m\<lparr>tm_sessions := mput tid (r\<lparr>tr_consumed := True\<rparr>) (tm_sessions m)\<rparr>"
proof (cases out)
  case (Inl e)
  moreover from this assms have "m' = m" by (auto simp: term_Consume_def Let_def split: if_splits sum.splits option.splits)
  ultimately show ?thesis by (rule refused)
next
  case (Inr p)
  with assms show ?thesis
    by (auto simp: term_Consume_def Let_def split: if_splits sum.splits option.splits intro: consumed)
qed

lemma term_wf_put:
  "term_wf m \<Longrightarrow> ts_ID (tr_Session r) = tid \<Longrightarrow> term_wf (m\<lparr>tm_sessions := mput tid r (tm_sessions m)\<rparr>)"
  by (auto simp: term_wf_def)

lemma term_wf_get: "term_wf m \<Longrightarrow> mget (tm_sessions m) tid = Some r \<Longrightarrow> ts_ID (tr_Session r) = tid"
  by (simp add: term_wf_def)

interpretation terminals: single_use "term_step hmac J" attachment term_spent "\<lambda>a tid. tid \<in> set (drawn [a])" term_wf for hmac J
proof
  fix m a out m'
  assume wf: "term_wf m" and st: "term_step hmac J a m = (out, m')"
  show "term_wf m'"
  proof (cases a)
    case (TReserve now raw sb u wk)
    with st obtain o' where "term_Reserve now raw sb u wk m = (o', m')" by (auto split: prod.splits sum.splits)
    then show ?thesis by (cases rule: Reserve_effect) (auto intro!: term_wf_put pruned(1)[OF wf] simp: wf)
  next
    case (TAuthorize now raw tid)
    with st obtain o' where "term_Authorize hmac J now raw tid m = (o', m')" by (auto split: prod.splits sum.splits)
    then show ?thesis by (cases rule: Authorize_effect) (auto intro!: term_wf_put simp: wf term_wf_get[OF wf])
  next
    case (TCancel tid)
    with st wf show ?thesis by (auto simp: term_Cancel_def term_wf_def split: if_splits)
  next
    case (TConsume now tok)
    with st obtain o' where "term_Consume hmac J now tok m = (o', m')" by (auto split: prod.splits sum.splits)
    then show ?thesis by (cases rule: Consume_effect) (auto intro!: term_wf_put simp: wf term_wf_get[OF wf])
  qed
  fix tid assume "attachment out = Some tid"
  with st obtain now tok s where "a = TConsume now tok" "out = TAttached s" "ts_ID s = tid" "term_Consume hmac J now tok m = (Inr s, m')"
    by (cases a) (auto split: prod.splits sum.splits)
  from this(4) this(3) show "term_spent tid m'"
    by (cases rule: Consume_effect) (auto simp: term_spent_def term_wf_get[OF wf])
next
  fix m a out m' tid
  assume wf: "term_wf m" and st: "term_step hmac J a m = (out, m')" and sp: "term_spent tid m" and dr: "tid \<notin> set (drawn [a])"
  show "term_spent tid m' \<and> attachment out \<noteq> Some tid"
  proof (cases a)
    case (TReserve now raw sb u wk)
    with st obtain o' where o': "term_Reserve now raw sb u wk m = (o', m')" "attachment out = None" by (auto split: prod.splits sum.splits)
    from o' sp dr TReserve show ?thesis
      by (cases rule: Reserve_effect) (auto simp: term_spent_def split: option.splits dest: pruned(2)[OF wf])
  next
    case (TAuthorize now raw tid')
    with st obtain o' where o': "term_Authorize hmac J now raw tid' m = (o', m')" "attachment out = None" by (auto split: prod.splits sum.splits)
    from o' sp show ?thesis by (cases rule: Authorize_effect) (auto simp: term_spent_def)
  next
    case (TCancel tid')
    with st sp show ?thesis by (auto simp: term_Cancel_def term_spent_def)
  next
    case (TConsume now tok)
    with st obtain o' where o': "term_Consume hmac J now tok m = (o', m')" "attachment out = (case o' of Inl e \<Rightarrow> None | Inr s \<Rightarrow> Some (ts_ID s))"
      by (auto split: prod.splits sum.splits)
    from o' sp show ?thesis by (cases rule: Consume_effect) (auto simp: term_spent_def term_wf_get[OF wf])
  qed
qed

text \<open>The sessions that a manager holds were reserved, and the ready ones authorized.\<close>

definition term_known :: "TermSession list \<Rightarrow> TermSession list \<Rightarrow> TermManager \<Rightarrow> bool" where
  "term_known R A m \<longleftrightarrow> (\<forall>tid r. mget (tm_sessions m) tid = Some r \<longrightarrow>
     (ts_State (tr_Session r) = StateCreating \<longrightarrow> tr_Session r \<in> set R) \<and> (ts_State (tr_Session r) = StateReady \<longrightarrow> tr_Session r \<in> set A))"

lemma run_in_order:
  "term_wf m \<Longrightarrow> term_known R A m \<Longrightarrow> in_order R A (run_outs (term_step hmac J) as m)"
proof (induction as arbitrary: m R A)
  case (Cons a as)
  obtain out m' where st: "term_step hmac J a m = (out, m')" by fastforce
  note wf' = terminals.step_inv[OF Cons.prems(1) st]
  note IH = Cons.IH[OF wf']
  show ?case
  proof (cases a)
    case (TReserve now raw sb u wk)
    with st obtain o' where o': "term_Reserve now raw sb u wk m = (o', m')" "out = (case o' of Inl e \<Rightarrow> TRefused e | Inr s \<Rightarrow> TReserved s)"
      by (auto split: prod.splits sum.splits)
    from o'(1) show ?thesis
    proof (cases rule: Reserve_effect)
      case (reserved bytes s)
      have "term_known R A (pruneExpiredLocked now m)"
        using Cons.prems(2) pruned(2)[OF Cons.prems(1)] unfolding term_known_def by blast
      with reserved(4,5) have "term_known (s # R) A m'" unfolding term_known_def by (auto split: if_splits)
      with IH st o'(2) reserved show ?thesis by simp
    qed (use IH[of R A] Cons.prems st o'(2) in auto)
  next
    case (TAuthorize now raw tid)
    with st obtain o' where o': "term_Authorize hmac J now raw tid m = (o', m')" "out = (case o' of Inl e \<Rightarrow> TRefused e | Inr (s, tok) \<Rightarrow> TAuthorized s tok)"
      by (auto split: prod.splits sum.splits)
    from o'(1) show ?thesis
    proof (cases rule: Authorize_effect)
      case (authorized r s tok t tokenID)
      have "term_known R (s # A) m'" using Cons.prems(2) authorized unfolding term_known_def by (auto split: if_splits)
      moreover have "tr_Session r \<in> set R" "confirms (tr_Session r) s"
        using Cons.prems(2) authorized by (auto simp: term_known_def confirms_def)
      ultimately show ?thesis using IH st o'(2) authorized(3) by auto
    qed (use IH[of R A] Cons.prems st o'(2) in auto)
  next
    case (TCancel tid)
    with st have "out = TCanceled" "m' = term_Cancel tid m" by auto
    moreover from this Cons.prems(2) have "term_known R A m'" by (auto simp: term_known_def term_Cancel_def split: if_splits)
    ultimately show ?thesis using IH st by simp
  next
    case (TConsume now tok)
    with st obtain o' where o': "term_Consume hmac J now tok m = (o', m')" "out = (case o' of Inl e \<Rightarrow> TRefused e | Inr s \<Rightarrow> TAttached s)"
      by (auto split: prod.splits sum.splits)
    from o'(1) show ?thesis
    proof (cases rule: Consume_effect)
      case (consumed tid r)
      have "term_known R A m'" "tr_Session r \<in> set A" using Cons.prems(2) consumed unfolding term_known_def by (auto split: if_splits)
      with IH st o'(2) consumed(4) show ?thesis by simp
    qed (use IH[of R A] Cons.prems st o'(2) in auto)
  qed
qed simp

lemma drawn_Cons: "drawn (a # as) = drawn [a] @ drawn as"
proof (cases a)
  case (TReserve now raw sb u wk)
  then show ?thesis by (cases raw) auto
qed auto

lemma drawn_once: "distinct (drawn as) \<Longrightarrow> length (filter (\<lambda>a. tid \<in> set (drawn [a])) as) \<le> (if tid \<in> set (drawn as) then 1 else 0)"
proof (induction as)
  case (Cons a as)
  have d: "distinct (drawn as)" "set (drawn [a]) \<inter> set (drawn as) = {}" using Cons.prems unfolding drawn_Cons[of a as] by auto
  have "set (drawn (a # as)) = set (drawn [a]) \<union> set (drawn as)" unfolding drawn_Cons[of a as] by simp
  with Cons.IH[OF d(1)] d(2) show ?case by (auto split: if_splits simp del: drawn.simps)
qed simp

text \<open>
  C7: A terminal is attached at most once. Whatever the order in which terminals are reserved, authorized, cancelled and
  attached by a manager that started empty, as long as no two reservations draw the same random id, every terminal id is
  attached at most once; every attachment returns a session that was authorized before, and every authorization confirms,
  with the same sandbox, user and worker, a terminal that was reserved before.
\<close>

theorem terminal_attaches_once:
  assumes "term_NewManager secret tokenTTL = Inr m" "distinct (drawn calls)"
  shows "length (attached tid (term_run hmac J calls m)) \<le> 1 \<and> in_order [] [] (term_run hmac J calls m)"
proof -
  have m: "tm_sessions m = []" using assms(1) by (auto simp: term_NewManager_def split: if_splits)
  have "term_wf m" "term_known [] [] m" "term_spent tid m" by (simp_all add: term_wf_def term_known_def term_spent_def m)
  with terminals.uses_bounded[of m tid hmac J calls] drawn_once[OF assms(2), of tid] run_in_order[of m "[]" "[]"]
  show ?thesis by (auto simp: attached_def term_run_def split: if_splits)
qed

section \<open>A sample terminal\<close>

definition term_text :: "TermClaims \<Rightarrow> string" where
  "term_text c = field (itoa (tc_Version c)) @ field (tc_TerminalID c) @ field (tc_SandboxID c) @ field (tc_UserID c) @ field (tc_WorkerID c)
     @ field (itoa (tc_IssuedAt c)) @ field (itoa (tc_ExpiresAt c)) @ field (tc_TokenID c)"

lemma term_codec: "exact (text_codec term_text) c"
proof -
  have "inj term_text"
  proof (rule injI)
    fix c d assume "term_text c = term_text d"
    then have "term_text c @ [] = term_text d @ []" by simp
    then show "c = d" unfolding term_text_def append_assoc field_split by (intro TermClaims.equality) auto
  qed
  then show ?thesis by (intro text_codec_exact) (auto simp: term_text_def field_def)
qed

definition sample_terminals :: TermManager where
  "sample_terminals = \<lparr>tm_secret = replicate 32 (CHR ''s''), tm_tokenTTL = 60000000000, tm_sessions = []\<rparr>"

definition sample_term_reservation :: TermSession where
  "sample_term_reservation = \<lparr>ts_ID = ''term_'' @ b64_encode ''a'', ts_SandboxID = ''sb1'', ts_UserID = ''u1'', ts_WorkerID = ''w1'',
     ts_State = StateCreating, ts_CreatedAt = 0, ts_ExpiresAt = None\<rparr>"

lemma sample_terminals_new: "term_NewManager (replicate 32 (CHR ''s'')) 60000000000 = Inr sample_terminals"
  by (simp add: term_NewManager_def sample_terminals_def)

lemma sample_term_Reserve:
  "term_Reserve 0 (Inr ''a'') ''sb1'' ''u1'' ''w1'' sample_terminals = (Inr sample_term_reservation,
     sample_terminals\<lparr>tm_sessions := [(ts_ID sample_term_reservation, \<lparr>tr_Session = sample_term_reservation, tr_tokenID = [], tr_consumed = False\<rparr>)]\<rparr>)"
  by (simp add: term_Reserve_def randomID_def pruneExpiredLocked_def sample_terminals_def sample_term_reservation_def trim_space_def is_space_def Let_def)

theorem terminal_token_roundtrip_witness:
  "\<exists>m1 s token m2 m3. term_Reserve 0 (Inr ''a'') ''sb1'' ''u1'' ''w1'' sample_terminals = (Inr sample_term_reservation, m1)
    \<and> term_Authorize sample_mac (text_codec term_text) 1 (Inr ''b'') (ts_ID sample_term_reservation) m1 = (Inr (s, token), m2)
    \<and> term_Consume sample_mac (text_codec term_text) 2 token m2 = (Inr s, m3) \<and> ts_SandboxID s = ''sb1'' \<and> ts_UserID s = ''u1''
    \<and> term_Consume sample_mac (text_codec term_text) 3 token m3 = (Inl ErrTerminalUsed, m3)"
proof -
  let ?m1 = "sample_terminals\<lparr>tm_sessions := [(ts_ID sample_term_reservation, \<lparr>tr_Session = sample_term_reservation, tr_tokenID = [], tr_consumed = False\<rparr>)]\<rparr>"
  have "ts_State sample_term_reservation = StateCreating" by (simp add: sample_term_reservation_def)
  then obtain s token m2 where a: "term_Authorize sample_mac (text_codec term_text) 1 (Inr ''b'') (ts_ID sample_term_reservation) ?m1 = (Inr (s, token), m2)"
    by (simp add: term_Authorize_def randomID_def Let_def)
  have t: "tm_tokenTTL sample_terminals = 60000000000" by (simp add: sample_terminals_def)
  from terminal_token_roundtrip[OF sample_mac_ok _ _ sample_term_Reserve a, of 2 3] term_codec
  show ?thesis using sample_term_Reserve a by (auto simp: t unix_def trim_space_def is_space_def)
qed

definition sample_term_calls :: "term_op list" where
  "sample_term_calls = [TReserve 0 (Inr ''a'') ''sb1'' ''u1'' ''w1'', TReserve 0 (Inr ''b'') ''sb2'' ''u2'' ''w1'', TAuthorize 1 (Inr ''t'') (''term_'' @ b64_encode ''a''),
     TConsume 2 ''x'', TCancel (''term_'' @ b64_encode ''a'')]"

theorem terminal_attaches_once_witness:
  "length (attached (''term_'' @ b64_encode ''a'') (term_run sample_mac (text_codec term_text) sample_term_calls sample_terminals)) \<le> 1"
proof -
  have "distinct (drawn sample_term_calls)" by (simp add: sample_term_calls_def)
  from terminal_attaches_once[OF sample_terminals_new this] show ?thesis by blast
qed

end
