(* ===== verification/Orchestrator_API.thy ===== *)
theory Orchestrator_API
  imports Orchestrator Tokens Paths
begin

text \<open>
  The internal HTTP API of the orchestrator (\<open>backend/internal/orchestrator/http.go\<close>) and the client that the
  control plane and the workers use for it (\<open>client.go\<close>). JSON texts are codecs, arguments as in \<open>Tokens\<close>; the network
  is an argument that delivers a request, drops it, or loses the reply; \<open>http.NewRequest\<close>, which parses the URL,
  is one too. The mux redirects a path that is not clean and decodes percent escapes; such requests are not represented.
  A response keeps its status, its request id and its body.
\<close>

section \<open>The server\<close>

record orch_json =
  oj_registration :: "WorkerRegistration codec"
  oj_capacity :: "Capacity codec"
  oj_draining :: "bool codec"
  oj_state :: "string codec"
  oj_place :: "(string \<times> PlacementRequest) codec"
  oj_provision :: "ProvisionRequest codec"
  oj_placement :: "Placement codec"
  oj_map :: "(string, string) gomap codec"

record HTTPServer =
  hs_db :: db_env
  hs_svc :: svc_env
  hs_service :: Service
  hs_controlToken :: string
  hs_workerToken :: string

record orch_request =
  oq_Method :: string
  oq_Path :: string
  oq_Token :: string
  oq_RequestID :: string
  oq_Body :: "string option"

type_synonym orch_response = "nat \<times> string"

abbreviation (input) hs_store :: "HTTPServer \<Rightarrow> db Store" where
  "hs_store H \<equiv> Client_Store (hs_db H)"

definition writeHTTPError :: "orch_json \<Rightarrow> nat \<Rightarrow> string \<Rightarrow> string \<Rightarrow> orch_response" where
  "writeHTTPError J status code message = (status, cd_Marshal (oj_map J) [(''code'', code), (''error'', message)])"

definition writeServiceError :: "orch_json \<Rightarrow> go_error \<Rightarrow> orch_response" where
  "writeServiceError J err =
     (if errors_is err OrchErrNoCapacity then writeHTTPError J 503 ''no_capacity'' (error_text err)
      else if errors_is err OrchErrPlacementBusy then writeHTTPError J 503 ''scheduler_busy'' (error_text err)
      else if errors_is err OrchErrWorkerNotFound then writeHTTPError J 404 ''worker_not_found'' (error_text err)
      else if errors_is err OrchErrSandboxNotFound then writeHTTPError J 404 ''sandbox_not_found'' (error_text err)
      else if errors_is err OrchErrInvalidState then writeHTTPError J 409 ''invalid_sandbox_state'' (error_text err)
      else
        let status = (if contains (error_text err) ''invalid'' \<or> contains (error_text err) ''required''
                         \<or> contains (error_text err) ''must be'' then 400 else 500)
        in writeHTTPError J status ''orchestration_failed'' (error_text err))"

definition decodeHTTPJSON :: "orch_json \<Rightarrow> 'a codec \<Rightarrow> orch_request \<Rightarrow> orch_response + 'a" where
  "decodeHTTPJSON J D r =
     (case (case oq_Body r of None \<Rightarrow> Inl (ErrNew ''EOF'') | Some raw \<Rightarrow> cd_Unmarshal D (take 1048576 raw)) of
        Inl err \<Rightarrow> Inl (writeHTTPError J 400 ''invalid_request'' (error_text err))
      | Inr v \<Rightarrow> Inr v)"

text \<open>A handler that decodes a body, and one that answers a call without a result.\<close>

definition with_body ::
    "orch_json \<Rightarrow> 'a codec \<Rightarrow> ('a \<Rightarrow> db world \<Rightarrow> orch_response \<times> db world) \<Rightarrow> orch_request \<Rightarrow> db world \<Rightarrow> orch_response \<times> db world" where
  "with_body J D next r w = (case decodeHTTPJSON J D r of Inl resp \<Rightarrow> (resp, w) | Inr v \<Rightarrow> next v w)"

definition no_content :: "orch_json \<Rightarrow> go_error option \<times> db world \<Rightarrow> orch_response \<times> db world" where
  "no_content J res = (case res of (Some err, w) \<Rightarrow> (writeServiceError J err, w) | (None, w) \<Rightarrow> ((204, []), w))"

definition orch_authed ::
    "orch_json \<Rightarrow> string \<Rightarrow> (orch_request \<Rightarrow> db world \<Rightarrow> orch_response \<times> db world) \<Rightarrow> orch_request \<Rightarrow> db world \<Rightarrow> orch_response \<times> db world" where
  "orch_authed J token next r w =
     (if token = [] \<or> oq_Token r \<noteq> token
      then (writeHTTPError J 401 ''unauthorized'' ''invalid or missing orchestrator token'', w) else next r w)"

definition orch_health :: "orch_json \<Rightarrow> orch_response" where
  "orch_health J = (200, cd_Marshal (oj_map J) [(''role'', ''orchestrator''), (''status'', ''ok'')])"

definition orch_registerWorker :: "orch_json \<Rightarrow> HTTPServer \<Rightarrow> string \<Rightarrow> orch_request \<Rightarrow> db world \<Rightarrow> orch_response \<times> db world" where
  "orch_registerWorker J H pathID = with_body J (oj_registration J) (\<lambda>registration w.
     if reg_ID registration \<noteq> [] \<and> reg_ID registration \<noteq> pathID
     then (writeHTTPError J 400 ''worker_id_mismatch'' ''body worker id does not match request path'', w)
     else case svc_RegisterWorker (hs_store H) (hs_svc H) (registration\<lparr>reg_ID := pathID\<rparr>) w of
            (Some err, w') \<Rightarrow> (writeServiceError J err, w')
          | (None, w') \<Rightarrow> ((200, cd_Marshal (oj_map J) [(''status'', ''registered''), (''worker_id'', pathID)]), w'))"

definition orch_heartbeat :: "orch_json \<Rightarrow> HTTPServer \<Rightarrow> string \<Rightarrow> orch_request \<Rightarrow> db world \<Rightarrow> orch_response \<times> db world" where
  "orch_heartbeat J H workerID = with_body J (oj_capacity J) (\<lambda>capacity w.
     no_content J (svc_Heartbeat (hs_store H) (hs_svc H) workerID capacity w))"

definition orch_setWorkerDraining :: "orch_json \<Rightarrow> HTTPServer \<Rightarrow> string \<Rightarrow> orch_request \<Rightarrow> db world \<Rightarrow> orch_response \<times> db world" where
  "orch_setWorkerDraining J H workerID = with_body J (oj_draining J) (\<lambda>draining w.
     no_content J (svc_SetWorkerDraining (hs_store H) workerID draining w))"

definition orch_workerState :: "orch_json \<Rightarrow> HTTPServer \<Rightarrow> string \<Rightarrow> string \<Rightarrow> orch_request \<Rightarrow> db world \<Rightarrow> orch_response \<times> db world" where
  "orch_workerState J H workerID sandboxID = with_body J (oj_state J) (\<lambda>state w.
     no_content J (svc_ReportWorkerState (hs_store H) workerID sandboxID state w))"

definition orch_place :: "orch_json \<Rightarrow> HTTPServer \<Rightarrow> orch_request \<Rightarrow> db world \<Rightarrow> orch_response \<times> db world" where
  "orch_place J H = with_body J (oj_place J) (\<lambda>(sandboxID, request) w.
     case svc_Place (hs_store H) (hs_svc H) (hs_service H) sandboxID request w of
       (Inl err, w') \<Rightarrow> (writeServiceError J err, w')
     | (Inr placement, w') \<Rightarrow> ((200, cd_Marshal (oj_placement J) placement), w'))"

definition orch_getPlacement :: "orch_json \<Rightarrow> HTTPServer \<Rightarrow> string \<Rightarrow> db world \<Rightarrow> orch_response \<times> db world" where
  "orch_getPlacement J H sandboxID w =
     (case svc_Placement (hs_store H) sandboxID w of
        (Inl err, w') \<Rightarrow> (writeServiceError J err, w')
      | (Inr None, w') \<Rightarrow> (writeHTTPError J 404 ''placement_not_found'' ''sandbox has no placement'', w')
      | (Inr (Some placement), w') \<Rightarrow> ((200, cd_Marshal (oj_placement J) placement), w'))"

definition orch_releasePlacement :: "orch_json \<Rightarrow> HTTPServer \<Rightarrow> string \<Rightarrow> db world \<Rightarrow> orch_response \<times> db world" where
  "orch_releasePlacement J H sandboxID w = no_content J (svc_Release (hs_store H) sandboxID w)"

text \<open>The loop of \<open>Provision\<close> excludes one registered worker in each turn, so that their number bounds its turns.\<close>

definition provision_call :: "HTTPServer \<Rightarrow> ProvisionRequest \<Rightarrow> db world \<Rightarrow> (go_error + Placement) \<times> db world" where
  "provision_call H request w =
     (case svc_Provision (hs_store H) (hs_svc H) (hs_service H) (Suc (length (worker_hosts (sv_store w)))) request w of
        Some r \<Rightarrow> r | None \<Rightarrow> (Inl (ErrNew ''provision does not return''), w))"

definition orch_provision :: "orch_json \<Rightarrow> HTTPServer \<Rightarrow> orch_request \<Rightarrow> db world \<Rightarrow> orch_response \<times> db world" where
  "orch_provision J H = with_body J (oj_provision J) (\<lambda>request w.
     case provision_call H request w of
       (Inl err, w') \<Rightarrow> (writeServiceError J err, w')
     | (Inr placement, w') \<Rightarrow> ((201, cd_Marshal (oj_placement J) placement), w'))"

definition orch_pause :: "orch_json \<Rightarrow> HTTPServer \<Rightarrow> string \<Rightarrow> db world \<Rightarrow> orch_response \<times> db world" where
  "orch_pause J H sandboxID w = no_content J (svc_Pause (hs_store H) (hs_svc H) (hs_service H) sandboxID w)"

definition orch_resume :: "orch_json \<Rightarrow> HTTPServer \<Rightarrow> string \<Rightarrow> db world \<Rightarrow> orch_response \<times> db world" where
  "orch_resume J H sandboxID w = no_content J (svc_Resume (hs_store H) (hs_svc H) (hs_service H) sandboxID w)"

definition orch_destroy :: "orch_json \<Rightarrow> HTTPServer \<Rightarrow> string \<Rightarrow> db world \<Rightarrow> orch_response \<times> db world" where
  "orch_destroy J H sandboxID w = no_content J (svc_Destroy (hs_store H) (hs_svc H) (hs_service H) sandboxID w)"

subsection \<open>Routes\<close>

text \<open>A pattern of the mux: a method and segments, each a literal or a wildcard for one non-empty segment.\<close>

datatype segment = Lit string | Wild

fun match_segments :: "segment list \<Rightarrow> string list \<Rightarrow> string list option" where
  "match_segments [] [] = Some []"
| "match_segments (Lit p # ps) (s # ss) = (if s = p then match_segments ps ss else None)"
| "match_segments (Wild # ps) (s # ss) = (if s = [] then None else map_option (\<lambda>vs. s # vs) (match_segments ps ss))"
| "match_segments _ _ = None"

definition method_matches :: "string \<Rightarrow> string \<Rightarrow> bool" where
  "method_matches pat m \<longleftrightarrow> m = pat \<or> pat = ''GET'' \<and> m = ''HEAD''"

type_synonym orch_route = "string \<times> segment list \<times> (string list \<Rightarrow> orch_request \<Rightarrow> db world \<Rightarrow> orch_response \<times> db world)"

definition worker_routes :: "orch_json \<Rightarrow> HTTPServer \<Rightarrow> orch_route list" where
  "worker_routes J H =
     [(''PUT'', [Lit ''internal'', Lit ''workers'', Wild],
         \<lambda>vs. orch_authed J (hs_workerToken H) (orch_registerWorker J H (vs ! 0))),
      (''POST'', [Lit ''internal'', Lit ''workers'', Wild, Lit ''heartbeat''],
         \<lambda>vs. orch_authed J (hs_workerToken H) (orch_heartbeat J H (vs ! 0))),
      (''POST'', [Lit ''internal'', Lit ''workers'', Wild, Lit ''draining''],
         \<lambda>vs. orch_authed J (hs_workerToken H) (orch_setWorkerDraining J H (vs ! 0))),
      (''POST'', [Lit ''internal'', Lit ''workers'', Wild, Lit ''sandboxes'', Wild, Lit ''state''],
         \<lambda>vs. orch_authed J (hs_workerToken H) (orch_workerState J H (vs ! 0) (vs ! 1)))]"

definition control_routes :: "orch_json \<Rightarrow> HTTPServer \<Rightarrow> orch_route list" where
  "control_routes J H =
     [(''POST'', [Lit ''internal'', Lit ''placements''],
         \<lambda>vs. orch_authed J (hs_controlToken H) (orch_place J H)),
      (''GET'', [Lit ''internal'', Lit ''placements'', Wild],
         \<lambda>vs. orch_authed J (hs_controlToken H) (\<lambda>r. orch_getPlacement J H (vs ! 0))),
      (''DELETE'', [Lit ''internal'', Lit ''placements'', Wild],
         \<lambda>vs. orch_authed J (hs_controlToken H) (\<lambda>r. orch_releasePlacement J H (vs ! 0))),
      (''POST'', [Lit ''internal'', Lit ''sandboxes''],
         \<lambda>vs. orch_authed J (hs_controlToken H) (orch_provision J H)),
      (''POST'', [Lit ''internal'', Lit ''sandboxes'', Wild, Lit ''pause''],
         \<lambda>vs. orch_authed J (hs_controlToken H) (\<lambda>r. orch_pause J H (vs ! 0))),
      (''POST'', [Lit ''internal'', Lit ''sandboxes'', Wild, Lit ''resume''],
         \<lambda>vs. orch_authed J (hs_controlToken H) (\<lambda>r. orch_resume J H (vs ! 0))),
      (''DELETE'', [Lit ''internal'', Lit ''sandboxes'', Wild],
         \<lambda>vs. orch_authed J (hs_controlToken H) (\<lambda>r. orch_destroy J H (vs ! 0)))]"

definition orch_routes :: "orch_json \<Rightarrow> HTTPServer \<Rightarrow> orch_route list" where
  "orch_routes J H = (''GET'', [Lit ''health''], \<lambda>vs r w. (orch_health J, w)) # worker_routes J H @ control_routes J H"

definition orch_mux :: "orch_json \<Rightarrow> HTTPServer \<Rightarrow> orch_request \<Rightarrow> db world \<Rightarrow> orch_response \<times> db world" where
  "orch_mux J H r w =
     (let segs = tl (split_slash (oq_Path r));
          hits = filter (\<lambda>(m, p, h). match_segments p segs \<noteq> None) (orch_routes J H)
      in case List.find (\<lambda>(m, p, h). method_matches m (oq_Method r)) hits of
           Some (m, p, h) \<Rightarrow> h (the (match_segments p segs)) r w
         | None \<Rightarrow> if hits = [] then ((404, ''404 page not found''), w) else ((405, ''Method Not Allowed''), w))"

text \<open>The request id of the response: the one of the request, or a fresh UUID.\<close>

definition withRequestID :: "string \<Rightarrow> orch_request \<Rightarrow> string" where
  "withRequestID fresh r =
     (let requestID = trim_space (oq_RequestID r) in if requestID = [] \<or> length requestID > 128 then fresh else requestID)"

definition orch_serve :: "orch_json \<Rightarrow> HTTPServer \<Rightarrow> string \<Rightarrow> orch_request \<Rightarrow> db world \<Rightarrow> (string \<times> orch_response) \<times> db world" where
  "orch_serve J H fresh r w = (case orch_mux J H r w of (resp, w') \<Rightarrow> ((withRequestID fresh r, resp), w'))"

section \<open>The client\<close>

datatype net_event = Delivered | NotSent go_error | ReplyLost go_error

record orch_client =
  oc_base :: string
  oc_token :: string

record client_env =
  ce_json :: orch_json
  ce_server :: HTTPServer
  ce_url :: "string \<Rightarrow> go_error + string"
  ce_net :: "nat \<Rightarrow> net_event"
  ce_fresh :: "nat \<Rightarrow> string"

definition orch_NewClient :: "string \<Rightarrow> string \<Rightarrow> orch_client" where
  "orch_NewClient base token = \<lparr>oc_base = trim_right slash (trim_space base), oc_token = trim_space token\<rparr>"

definition map_field :: "(string, string) gomap \<Rightarrow> string \<Rightarrow> string" where
  "map_field m k = (case mget m k of None \<Rightarrow> [] | Some v \<Rightarrow> v)"

definition client_error :: "orch_json \<Rightarrow> orch_response \<Rightarrow> go_error" where
  "client_error J resp =
     (let unknown = ErrNew (''orchestrator returned '' @ itoa (int (fst resp)) @ '': '' @ snd resp) in
      case cd_Unmarshal (oj_map J) (snd resp) of
        Inl e \<Rightarrow> unknown
      | Inr apiError \<Rightarrow>
          let code = map_field apiError ''code''; message = map_field apiError ''error'' in
          if message = [] then unknown
          else if code = ''no_capacity'' then WrapfFirst (Sentinel OrchErrNoCapacity) message
          else if code = ''scheduler_busy'' then WrapfFirst (Sentinel OrchErrPlacementBusy) message
          else if code = ''sandbox_not_found'' then WrapfFirst (Sentinel OrchErrSandboxNotFound) message
          else if code = ''worker_not_found'' then WrapfFirst (Sentinel OrchErrWorkerNotFound) message
          else if code = ''invalid_state'' \<or> code = ''invalid_sandbox_state'' then WrapfFirst (Sentinel OrchErrInvalidState) message
          else ErrNew (''orchestrator '' @ code @ '': '' @ message))"

text \<open>\<open>do\<close>: the body of a successful response, or an error. The call number \<open>n\<close> picks the behaviour of the network.\<close>

definition client_do ::
    "client_env \<Rightarrow> orch_client \<Rightarrow> nat \<Rightarrow> string \<Rightarrow> string \<Rightarrow> string option \<Rightarrow> db world \<Rightarrow> (go_error + string) \<times> db world" where
  "client_do X c n verb path body w =
     (case ce_url X (oc_base c @ path) of
        Inl e \<Rightarrow> (Inl e, w)
      | Inr target \<Rightarrow>
          let request = \<lparr>oq_Method = verb, oq_Path = target, oq_Token = oc_token c, oq_RequestID = [], oq_Body = body\<rparr> in
          (case ce_net X n of
             NotSent e \<Rightarrow> (Inl (Wrapf ''orchestrator unreachable'' e), w)
           | ReplyLost e \<Rightarrow> (Inl (Wrapf ''orchestrator unreachable'' e), snd (orch_serve (ce_json X) (ce_server X) (ce_fresh X n) request w))
           | Delivered \<Rightarrow>
               (case orch_serve (ce_json X) (ce_server X) (ce_fresh X n) request w of
                  ((requestID, resp), w') \<Rightarrow>
                    if fst resp < 200 \<or> fst resp \<ge> 300 then (Inl (client_error (ce_json X) resp), w') else (Inr (snd resp), w'))))"

definition client_call ::
    "client_env \<Rightarrow> orch_client \<Rightarrow> nat \<Rightarrow> string \<Rightarrow> string \<Rightarrow> string option \<Rightarrow> db world \<Rightarrow> go_error option \<times> db world" where
  "client_call X c n verb path body w =
     (case client_do X c n verb path body w of (Inl e, w') \<Rightarrow> (Some e, w') | (Inr raw, w') \<Rightarrow> (None, w'))"

definition client_placement ::
    "client_env \<Rightarrow> orch_client \<Rightarrow> nat \<Rightarrow> string \<Rightarrow> string \<Rightarrow> string option \<Rightarrow> db world \<Rightarrow> (go_error + Placement) \<times> db world" where
  "client_placement X c n verb path body w =
     (case client_do X c n verb path body w of
        (Inl e, w') \<Rightarrow> (Inl e, w')
      | (Inr raw, w') \<Rightarrow>
          if raw = [] then (Inr \<lparr>pl_SandboxID = [], WorkerID = [], Endpoint = [], pl_State = []\<rparr>, w')
          else (case cd_Unmarshal (oj_placement (ce_json X)) raw of
                  Inl e \<Rightarrow> (Inl (Wrapf ''decode orchestrator response'' e), w')
                | Inr placement \<Rightarrow> (Inr placement, w')))"

definition oc_Provision :: "client_env \<Rightarrow> orch_client \<Rightarrow> nat \<Rightarrow> ProvisionRequest \<Rightarrow> db world \<Rightarrow> (go_error + Placement) \<times> db world" where
  "oc_Provision X c n request =
     client_placement X c n ''POST'' ''/internal/sandboxes'' (Some (cd_Marshal (oj_provision (ce_json X)) request))"

definition oc_Placement :: "client_env \<Rightarrow> orch_client \<Rightarrow> nat \<Rightarrow> string \<Rightarrow> db world \<Rightarrow> (go_error + Placement) \<times> db world" where
  "oc_Placement X c n sandboxID = client_placement X c n ''GET'' (''/internal/placements/'' @ sandboxID) None"

definition oc_Pause :: "client_env \<Rightarrow> orch_client \<Rightarrow> nat \<Rightarrow> string \<Rightarrow> db world \<Rightarrow> go_error option \<times> db world" where
  "oc_Pause X c n sandboxID = client_call X c n ''POST'' (''/internal/sandboxes/'' @ sandboxID @ ''/pause'') None"

definition oc_Resume :: "client_env \<Rightarrow> orch_client \<Rightarrow> nat \<Rightarrow> string \<Rightarrow> db world \<Rightarrow> go_error option \<times> db world" where
  "oc_Resume X c n sandboxID = client_call X c n ''POST'' (''/internal/sandboxes/'' @ sandboxID @ ''/resume'') None"

definition oc_Destroy :: "client_env \<Rightarrow> orch_client \<Rightarrow> nat \<Rightarrow> string \<Rightarrow> db world \<Rightarrow> go_error option \<times> db world" where
  "oc_Destroy X c n sandboxID = client_call X c n ''DELETE'' (''/internal/sandboxes/'' @ sandboxID) None"

definition oc_RegisterWorker :: "client_env \<Rightarrow> orch_client \<Rightarrow> nat \<Rightarrow> WorkerRegistration \<Rightarrow> db world \<Rightarrow> go_error option \<times> db world" where
  "oc_RegisterWorker X c n registration =
     client_call X c n ''PUT'' (''/internal/workers/'' @ reg_ID registration) (Some (cd_Marshal (oj_registration (ce_json X)) registration))"

definition oc_Heartbeat :: "client_env \<Rightarrow> orch_client \<Rightarrow> nat \<Rightarrow> string \<Rightarrow> Capacity \<Rightarrow> db world \<Rightarrow> go_error option \<times> db world" where
  "oc_Heartbeat X c n workerID capacity =
     client_call X c n ''POST'' (''/internal/workers/'' @ workerID @ ''/heartbeat'') (Some (cd_Marshal (oj_capacity (ce_json X)) capacity))"

definition oc_SetWorkerDraining :: "client_env \<Rightarrow> orch_client \<Rightarrow> nat \<Rightarrow> string \<Rightarrow> bool \<Rightarrow> db world \<Rightarrow> go_error option \<times> db world" where
  "oc_SetWorkerDraining X c n workerID draining =
     client_call X c n ''POST'' (''/internal/workers/'' @ workerID @ ''/draining'') (Some (cd_Marshal (oj_draining (ce_json X)) draining))"

definition oc_ReportWorkerState ::
    "client_env \<Rightarrow> orch_client \<Rightarrow> nat \<Rightarrow> string \<Rightarrow> string \<Rightarrow> string \<Rightarrow> db world \<Rightarrow> go_error option \<times> db world" where
  "oc_ReportWorkerState X c n workerID sandboxID state =
     client_call X c n ''POST'' (''/internal/workers/'' @ workerID @ ''/sandboxes/'' @ sandboxID @ ''/state'')
       (Some (cd_Marshal (oj_state (ce_json X)) state))"

definition oc_Health :: "client_env \<Rightarrow> orch_client \<Rightarrow> nat \<Rightarrow> db world \<Rightarrow> go_error option \<times> db world" where
  "oc_Health X c n = client_call X c n ''GET'' ''/health'' None"

section \<open>Errors keep their identity across the wire\<close>

text \<open>The sentinels of the service in the order in which \<open>writeServiceError\<close> looks for them.\<close>

definition service_sentinels :: "sentinel list" where
  "service_sentinels = [OrchErrNoCapacity, OrchErrPlacementBusy, OrchErrWorkerNotFound, OrchErrSandboxNotFound, OrchErrInvalidState]"

definition same_error :: "go_error \<Rightarrow> go_error \<Rightarrow> bool" where
  "same_error err e \<longleftrightarrow> contains (error_text e) (error_text err)
     \<and> (\<forall>s \<in> set service_sentinels. errors_is e s \<longleftrightarrow> List.find (errors_is err) service_sentinels = Some s)"

lemma client_error_map:
  assumes "exact (oj_map J) [(''code'', code), (''error'', message)]"
  shows "client_error J (writeHTTPError J status code message) =
    (if message = [] then ErrNew (''orchestrator returned '' @ itoa (int status) @ '': '' @ cd_Marshal (oj_map J) [(''code'', code), (''error'', message)])
     else if code = ''no_capacity'' then WrapfFirst (Sentinel OrchErrNoCapacity) message
     else if code = ''scheduler_busy'' then WrapfFirst (Sentinel OrchErrPlacementBusy) message
     else if code = ''sandbox_not_found'' then WrapfFirst (Sentinel OrchErrSandboxNotFound) message
     else if code = ''worker_not_found'' then WrapfFirst (Sentinel OrchErrWorkerNotFound) message
     else if code = ''invalid_state'' \<or> code = ''invalid_sandbox_state'' then WrapfFirst (Sentinel OrchErrInvalidState) message
     else ErrNew (''orchestrator '' @ code @ '': '' @ message))"
  using assms by (simp add: client_error_def writeHTTPError_def exact_def map_field_def Let_def)

lemma contains_suffix [simp]: "contains (a @ b) b" "contains s []"
  using contains_infix[of a b "[]"] contains_infix[of s "[]" "[]"] by simp_all

lemma errors_is_text: "errors_is e s \<Longrightarrow> error_text e \<noteq> []"
  by (induction e) (auto, cases s, auto)

lemma wire_error:
  assumes "\<forall>c. exact (oj_map J) [(''code'', c), (''error'', error_text err)]"
  shows "same_error err (client_error J (writeServiceError J err)) \<and> 300 \<le> fst (writeServiceError J err)"
proof -
  let ?t = "error_text err"
  note M = client_error_map[OF spec[OF assms]]
  have c: "contains (''orchestrator '' @ code @ '': '' @ ?t) ?t" for code
    using contains_suffix(1)[of "''orchestrator '' @ code @ '': ''" ?t] by (simp only: append_assoc)
  have k: "contains (error_text (WrapfFirst (Sentinel x) ?t)) ?t" for x
    using contains_suffix(1)[of "sentinel_text x @ '': ''" ?t] by (simp only: error_text.simps append_assoc)
  consider (sent) x where "x \<in> set service_sentinels" "List.find (errors_is err) service_sentinels = Some x"
    "client_error J (writeServiceError J err) = WrapfFirst (Sentinel x) ?t" "300 \<le> fst (writeServiceError J err)"
  | (other) m where "List.find (errors_is err) service_sentinels = None"
    "client_error J (writeServiceError J err) = ErrNew m" "contains m ?t" "300 \<le> fst (writeServiceError J err)"
  proof (cases "List.find (errors_is err) service_sentinels")
    case (Some x)
    then have ne: "?t \<noteq> []" by (auto simp: find_Some_iff dest: errors_is_text)
    from Some have "x \<in> set service_sentinels" by (auto simp: find_Some_iff)
    moreover have "client_error J (writeServiceError J err) = WrapfFirst (Sentinel x) ?t" "300 \<le> fst (writeServiceError J err)"
      using Some ne by (auto simp: service_sentinels_def writeServiceError_def M writeHTTPError_def[of J _ _ ?t, THEN arg_cong[of _ _ fst]] split: if_splits)
    ultimately show ?thesis using sent Some by blast
  next
    case None
    then obtain status where w: "writeServiceError J err = writeHTTPError J status ''orchestration_failed'' ?t" "300 \<le> status"
      by (auto simp: service_sentinels_def writeServiceError_def Let_def split: if_splits)
    have "client_error J (writeServiceError J err) = (if ?t = [] then ErrNew (''orchestrator returned '' @ itoa (int status) @ '': ''
          @ cd_Marshal (oj_map J) [(''code'', ''orchestration_failed''), (''error'', ?t)])
        else ErrNew (''orchestrator '' @ ''orchestration_failed'' @ '': '' @ ?t))"
      unfolding w(1) M by simp
    moreover have "300 \<le> fst (writeServiceError J err)" using w by (simp add: writeHTTPError_def)
    ultimately show ?thesis
      using other[OF None] c[of "''orchestration_failed''"] contains_suffix(2) by (cases "?t = []") (simp_all only: if_True if_False, metis+)
  qed
  then show ?thesis
    by cases (auto simp: same_error_def k simp del: error_text.simps(4,5))
qed

subsection \<open>Where a request goes\<close>

lemma sandbox_paths:
  assumes "plain sid"
  shows "tl (split_slash (''/internal/sandboxes/'' @ sid @ ''/pause'')) = [''internal'', ''sandboxes'', sid, ''pause'']"
    and "tl (split_slash (''/internal/sandboxes/'' @ sid @ ''/resume'')) = [''internal'', ''sandboxes'', sid, ''resume'']"
    and "tl (split_slash (''/internal/sandboxes/'' @ sid)) = [''internal'', ''sandboxes'', sid]"
    and "tl (split_slash (''/internal/placements/'' @ sid)) = [''internal'', ''placements'', sid]"
    and "tl (split_slash ''/internal/sandboxes'') = [''internal'', ''sandboxes'']"
proof -
  have sid: "slash \<notin> set sid" using assms by (simp add: plain_def)
  note S = split_slash_append[OF sid] split_slash_no_slash[OF sid]
  have "split_slash (sid @ ''/pause'') = [sid, ''pause'']" "split_slash (sid @ ''/resume'') = [sid, ''resume'']"
    using S(1)[of "''pause''"] S(1)[of "''resume''"] by (simp_all add: slash_def)
  then show "tl (split_slash (''/internal/sandboxes/'' @ sid @ ''/pause'')) = [''internal'', ''sandboxes'', sid, ''pause'']"
    "tl (split_slash (''/internal/sandboxes/'' @ sid @ ''/resume'')) = [''internal'', ''sandboxes'', sid, ''resume'']"
    "tl (split_slash (''/internal/sandboxes/'' @ sid)) = [''internal'', ''sandboxes'', sid]"
    "tl (split_slash (''/internal/placements/'' @ sid)) = [''internal'', ''placements'', sid]"
    "tl (split_slash ''/internal/sandboxes'') = [''internal'', ''sandboxes'']"
    using S(2) by (simp_all add: slash_def)
qed

lemmas route_defs = orch_mux_def orch_routes_def worker_routes_def control_routes_def method_matches_def

lemma mux_lifecycle:
  assumes "plain sid"
  shows "oq_Method r = ''POST'' \<Longrightarrow> oq_Path r = ''/internal/sandboxes/'' @ sid @ ''/pause''
      \<Longrightarrow> orch_mux J H r w = orch_authed J (hs_controlToken H) (\<lambda>r. orch_pause J H sid) r w"
    and "oq_Method r = ''POST'' \<Longrightarrow> oq_Path r = ''/internal/sandboxes/'' @ sid @ ''/resume''
      \<Longrightarrow> orch_mux J H r w = orch_authed J (hs_controlToken H) (\<lambda>r. orch_resume J H sid) r w"
    and "oq_Method r = ''DELETE'' \<Longrightarrow> oq_Path r = ''/internal/sandboxes/'' @ sid
      \<Longrightarrow> orch_mux J H r w = orch_authed J (hs_controlToken H) (\<lambda>r. orch_destroy J H sid) r w"
    and "oq_Method r = ''GET'' \<Longrightarrow> oq_Path r = ''/internal/placements/'' @ sid
      \<Longrightarrow> orch_mux J H r w = orch_authed J (hs_controlToken H) (\<lambda>r. orch_getPlacement J H sid) r w"
    and "oq_Method r = ''POST'' \<Longrightarrow> oq_Path r = ''/internal/sandboxes''
      \<Longrightarrow> orch_mux J H r w = orch_authed J (hs_controlToken H) (orch_provision J H) r w"
  using assms by (simp_all only: route_defs sandbox_paths[OF assms] Let_def) (simp_all add: plain_def)

subsection \<open>What the caller of the client sees\<close>

text \<open>
  The client talks to the server: its token is the control token, the URL it builds leads to the path it asks for,
  and the texts of errors survive JSON.
\<close>

definition connected :: "client_env \<Rightarrow> orch_client \<Rightarrow> nat \<Rightarrow> string list \<Rightarrow> bool" where
  "connected X c n paths \<longleftrightarrow> ce_net X n = Delivered \<and> oc_token c = hs_controlToken (ce_server X) \<and> oc_token c \<noteq> []
     \<and> list_all (\<lambda>p. ce_url X (oc_base c @ p) = Inr p) paths
     \<and> (\<forall>code message. exact (oj_map (ce_json X)) [(''code'', code), (''error'', message)])"

definition relays :: "go_error option \<times> db world \<Rightarrow> go_error option \<times> db world \<Rightarrow> bool" where
  "relays res seen \<longleftrightarrow> snd seen = snd res
     \<and> (case fst res of None \<Rightarrow> fst seen = None | Some err \<Rightarrow> \<exists>e. fst seen = Some e \<and> same_error err e)"

definition relays_placement :: "(go_error + Placement) \<times> db world \<Rightarrow> (go_error + Placement) \<times> db world \<Rightarrow> bool" where
  "relays_placement res seen \<longleftrightarrow> snd seen = snd res
     \<and> (case fst res of Inr placement \<Rightarrow> fst seen = Inr placement | Inl err \<Rightarrow> \<exists>e. fst seen = Inl e \<and> same_error err e)"

lemma client_do_connected:
  assumes "connected X c n paths" "p \<in> set paths"
  shows "client_do X c n verb p body w =
    (case orch_mux (ce_json X) (ce_server X) \<lparr>oq_Method = verb, oq_Path = p, oq_Token = oc_token c, oq_RequestID = [], oq_Body = body\<rparr> w of
       (resp, w') \<Rightarrow> if fst resp < 200 \<or> fst resp \<ge> 300 then (Inl (client_error (ce_json X) resp), w') else (Inr (snd resp), w'))"
  using assms by (auto simp: client_do_def connected_def list_all_iff orch_serve_def split: prod.splits)

lemma authed_connected:
  "connected X c n paths \<Longrightarrow> oq_Token r = oc_token c \<Longrightarrow> orch_authed (ce_json X) (hs_controlToken (ce_server X)) h r w = h r w"
  by (auto simp: connected_def orch_authed_def)

lemma relayed_call:
  assumes con: "connected X c n paths" "p \<in> set paths"
    and mux: "orch_mux (ce_json X) (ce_server X) \<lparr>oq_Method = verb, oq_Path = p, oq_Token = oc_token c, oq_RequestID = [], oq_Body = body\<rparr> w
        = no_content (ce_json X) res"
  shows "relays res (client_call X c n verb p body w)"
proof -
  have J: "\<forall>code. exact (oj_map (ce_json X)) [(''code'', code), (''error'', error_text err)]" for err
    using con(1) by (simp add: connected_def)
  obtain r w' where res: "res = (r, w')" by fastforce
  show ?thesis
  proof (cases r)
    case None
    then show ?thesis by (simp add: res client_call_def client_do_connected[OF con] mux no_content_def relays_def)
  next
    case (Some err)
    with wire_error[OF J, of err] show ?thesis
      by (simp add: res client_call_def client_do_connected[OF con] mux no_content_def relays_def)
  qed
qed

text \<open>
  C6: The client reports exactly what the orchestrator did. When a call is delivered, the control plane sees the very
  state the service left; a success of provision, pause, resume and destroy is a success of the client with the same
  placement, and an error is an error whose text contains the service's text and that is \<open>ErrNoCapacity\<close>,
  \<open>ErrPlacementBusy\<close>, \<open>ErrWorkerNotFound\<close>, \<open>ErrSandboxNotFound\<close> or \<open>ErrInvalidState\<close> exactly if that is the first of
  these that the service's error is.
\<close>

theorem orchestrator_errors_cross_the_wire:
  assumes "plain sid"
    and "connected X c n [''/internal/sandboxes/'' @ sid @ ''/pause'', ''/internal/sandboxes/'' @ sid @ ''/resume'',
           ''/internal/sandboxes/'' @ sid, ''/internal/sandboxes'']"
    and "exact (oj_provision (ce_json X)) request" "length (cd_Marshal (oj_provision (ce_json X)) request) \<le> 1048576"
    and "\<forall>placement. exact (oj_placement (ce_json X)) placement"
  shows "relays (svc_Pause (hs_store (ce_server X)) (hs_svc (ce_server X)) (hs_service (ce_server X)) sid w) (oc_Pause X c n sid w)
    \<and> relays (svc_Resume (hs_store (ce_server X)) (hs_svc (ce_server X)) (hs_service (ce_server X)) sid w) (oc_Resume X c n sid w)
    \<and> relays (svc_Destroy (hs_store (ce_server X)) (hs_svc (ce_server X)) (hs_service (ce_server X)) sid w) (oc_Destroy X c n sid w)
    \<and> relays_placement (provision_call (ce_server X) request w) (oc_Provision X c n request w)"
proof (intro conjI)
  note con = assms(2) and mux = mux_lifecycle[OF assms(1)] and auth = authed_connected[OF assms(2)]
  show "relays (svc_Pause (hs_store (ce_server X)) (hs_svc (ce_server X)) (hs_service (ce_server X)) sid w) (oc_Pause X c n sid w)"
    unfolding oc_Pause_def by (rule relayed_call[OF con]) (simp, subst mux(1), simp_all add: auth orch_pause_def)
  show "relays (svc_Resume (hs_store (ce_server X)) (hs_svc (ce_server X)) (hs_service (ce_server X)) sid w) (oc_Resume X c n sid w)"
    unfolding oc_Resume_def by (rule relayed_call[OF con]) (simp, subst mux(2), simp_all add: auth orch_resume_def)
  show "relays (svc_Destroy (hs_store (ce_server X)) (hs_svc (ce_server X)) (hs_service (ce_server X)) sid w) (oc_Destroy X c n sid w)"
    unfolding oc_Destroy_def by (rule relayed_call[OF con]) (simp, subst mux(3), simp_all add: auth orch_destroy_def)
  let ?body = "cd_Marshal (oj_provision (ce_json X)) request"
  obtain r w' where pc: "provision_call (ce_server X) request w = (r, w')" by fastforce
  have J: "\<forall>code. exact (oj_map (ce_json X)) [(''code'', code), (''error'', error_text err)]" for err
    using con by (simp add: connected_def)
  have m: "orch_mux (ce_json X) (ce_server X) \<lparr>oq_Method = ''POST'', oq_Path = ''/internal/sandboxes'', oq_Token = oc_token c,
       oq_RequestID = [], oq_Body = Some ?body\<rparr> w
     = (case r of Inl err \<Rightarrow> (writeServiceError (ce_json X) err, w') | Inr placement \<Rightarrow> ((201, cd_Marshal (oj_placement (ce_json X)) placement), w'))"
    using assms(3,4) pc by (subst mux(5), simp_all add: auth orch_provision_def with_body_def decodeHTTPJSON_def exact_def split: sum.splits)
  have do: "client_do X c n ''POST'' ''/internal/sandboxes'' (Some ?body) w =
     (case r of Inl err \<Rightarrow> (Inl (client_error (ce_json X) (writeServiceError (ce_json X) err)), w')
      | Inr placement \<Rightarrow> (Inr (cd_Marshal (oj_placement (ce_json X)) placement), w'))"
    using wire_error[OF J] by (subst client_do_connected[OF con]) (auto simp: m split: sum.splits)
  show "relays_placement (provision_call (ce_server X) request w) (oc_Provision X c n request w)"
    using wire_error[OF J] assms(5) by (cases r) (auto simp: oc_Provision_def client_placement_def do pc relays_placement_def exact_def)
qed

lemma provision_call_returns:
  "svc_Provision (hs_store H) (hs_svc H) (hs_service H) (Suc (length (worker_hosts (sv_store w)))) request w
     = Some (provision_call H request w)"
proof -
  have "card (host_ids (sv_store w)) \<le> length (worker_hosts (sv_store w))"
    unfolding host_ids_def using card_length[of "mkeys (worker_hosts (sv_store w))"] by simp
  then obtain r where "svc_Provision (hs_store H) (hs_svc H) (hs_service H) (Suc (length (worker_hosts (sv_store w)))) request w = Some r"
    using cs.Provision_returns[of w "Suc (length (worker_hosts (sv_store w)))"] by fastforce
  then show ?thesis by (simp add: provision_call_def)
qed

section \<open>Two tokens, two roles\<close>

lemma run_tx_hosts:
  "(\<And>x d'. r = Inr (x, d') \<Longrightarrow> worker_hosts d' = worker_hosts d) \<Longrightarrow> worker_hosts (snd (run_tx d r)) = worker_hosts d"
  "(\<And>d'. q = Inr d' \<Longrightarrow> worker_hosts d' = worker_hosts d) \<Longrightarrow> worker_hosts (snd (run_tx_err d q)) = worker_hosts d"
  by (auto simp: run_tx_def run_tx_err_def split: sum.splits)

lemma store_hosts [simp]:
  "worker_hosts (snd (ReservePlacement E k req pol t d)) = worker_hosts d"
  "worker_hosts (snd (GetPlacement E k d)) = worker_hosts d"
  "worker_hosts (snd (UpdatePlacementState E k v fs f d)) = worker_hosts d"
  "worker_hosts (snd (PausePlacement E k v d)) = worker_hosts d"
  "worker_hosts (snd (ReserveResume_placement E k v pol t d)) = worker_hosts d"
  "worker_hosts (snd (CancelResume E k v d)) = worker_hosts d"
  "worker_hosts (snd (ReleasePlacement E k f d)) = worker_hosts d"
  unfolding ReservePlacement_def GetPlacement_def UpdatePlacementState_def PausePlacement_def ReserveResume_placement_def CancelResume_def
    ReleasePlacement_def release_placement_def existing_placement_def
  by (rule run_tx_hosts; auto simp: ebind_iffs Let_def split: option.splits if_splits)+

lemma place_loop_hosts: "worker_hosts (sv_store (snd (place_loop (Client_Store E) V pol k req t a n w))) = worker_hosts (sv_store w)"
proof (induction n arbitrary: a w)
  case (Suc n)
  then show ?case
    by (auto simp: split_beta Let_def Client_Store_def split: sum.splits option.splits)
qed simp

abbreviation (input) hosts_of :: "db world \<Rightarrow> (string, worker_host) gomap" where
  "hosts_of w \<equiv> worker_hosts (sv_store w)"

lemma Client_Store_sel [simp]:
  "st_ReservePlacement (Client_Store E) = ReservePlacement E"
  "st_GetPlacement (Client_Store E) = GetPlacement E"
  "st_UpdatePlacementState (Client_Store E) = UpdatePlacementState E"
  "st_PausePlacement (Client_Store E) = PausePlacement E"
  "st_ReserveResume (Client_Store E) = ReserveResume_placement E"
  "st_CancelResume (Client_Store E) = CancelResume E"
  "st_ReleasePlacement (Client_Store E) = ReleasePlacement E"
  by (simp_all add: Client_Store_def)

lemma call_hosts [simp]:
  "hosts_of (snd (call_worker c a w)) = hosts_of w"
  "(\<And>d. worker_hosts (snd (f d)) = worker_hosts d) \<Longrightarrow> hosts_of (snd (call_store f w)) = hosts_of w"
  by (auto simp: call_worker_def call_store_def split_beta Let_def)

lemma svc_hosts [simp]:
  "hosts_of (snd (svc_Place (Client_Store E) V S k req w)) = hosts_of w"
  "hosts_of (snd (svc_Placement (Client_Store E) k w)) = hosts_of w"
  "hosts_of (snd (svc_Release (Client_Store E) k w)) = hosts_of w"
  "hosts_of (snd (svc_Pause (Client_Store E) V S k w)) = hosts_of w"
  "hosts_of (snd (svc_Resume (Client_Store E) V S k w)) = hosts_of w"
  "hosts_of (snd (destroy_on_worker (Client_Store E) V k pl w)) = hosts_of w"
proof -
  show P: "hosts_of (snd (svc_Placement (Client_Store E) k w)) = hosts_of w" for w
    by (auto simp: svc_Placement_def split_beta Let_def)
  show "hosts_of (snd (svc_Place (Client_Store E) V S k req w)) = hosts_of w"
    by (auto simp: svc_Place_def place_loop_hosts Let_def split: sum.splits)
  show "hosts_of (snd (svc_Release (Client_Store E) k w)) = hosts_of w"
    by (auto simp: svc_Release_def split_beta Let_def)
  show "hosts_of (snd (svc_Pause (Client_Store E) V S k w)) = hosts_of w"
    using P[of w] by (auto simp: svc_Pause_def split_beta Let_def split: sum.splits option.splits)
  show "hosts_of (snd (svc_Resume (Client_Store E) V S k w)) = hosts_of w"
    using P[of w] by (auto simp: svc_Resume_def split_beta Let_def split: sum.splits option.splits)
  show "hosts_of (snd (destroy_on_worker (Client_Store E) V k pl w)) = hosts_of w"
    by (auto simp: destroy_on_worker_def split_beta Let_def split: option.splits)
qed

lemma svc_Destroy_hosts [simp]: "hosts_of (snd (svc_Destroy (Client_Store E) V S k w)) = hosts_of w"
  using svc_hosts(2)[of E k w] by (auto simp: svc_Destroy_def split_beta Let_def split: sum.splits option.splits)

lemma provision_once_hosts: "hosts_of (snd (provision_once (Client_Store E) V S k req ex w)) = hosts_of w"
  by (auto simp: provision_once_def split_beta Let_def split: sum.splits option.splits)

lemma provision_finish_hosts: "hosts_of (snd (provision_finish (Client_Store E) k pl resp w)) = hosts_of w"
  by (auto simp: provision_finish_def split_beta Let_def split: sum.splits option.splits)

lemma provision_loop_hosts:
  "provision_loop (Client_Store E) V S k req n ex w = Some (r, w') \<Longrightarrow> hosts_of w' = hosts_of w"
proof (induction n arbitrary: ex w)
  case (Suc n)
  obtain x w1 where once: "provision_once (Client_Store E) V S k req ex w = (x, w1)" by fastforce
  have h: "hosts_of w1 = hosts_of w" using provision_once_hosts[of E V S k req ex w] once by simp
  show ?case
  proof (cases x)
    case (Created pl resp)
    then have "provision_finish (Client_Store E) k pl resp w1 = (r, w')" using Suc.prems once by simp
    with provision_finish_hosts[of E k pl resp w1] h show ?thesis by simp
  qed (use Suc once h in auto)
qed simp

lemma provision_call_hosts [simp]: "hosts_of (snd (provision_call H req w)) = hosts_of w"
  by (auto simp: provision_call_def svc_Provision_def Let_def split: option.splits sum.splits if_splits
      dest!: provision_loop_hosts simp del: provision_loop.simps)

lemma worker_calls_log [simp]:
  "sv_log (snd (svc_RegisterWorker st V reg w)) = sv_log w"
  "sv_log (snd (svc_Heartbeat st V k cap w)) = sv_log w"
  "sv_log (snd (svc_SetWorkerDraining st k b w)) = sv_log w"
  "sv_log (snd (svc_ReportWorkerState st v k f w)) = sv_log w"
  by (auto simp: svc_RegisterWorker_def svc_Heartbeat_def svc_SetWorkerDraining_def svc_ReportWorkerState_def call_store_def
      split_beta Let_def split: sum.splits)

lemma no_content_world [simp]: "snd (no_content J res) = snd res"
  by (auto simp: no_content_def split: prod.splits option.splits)

lemma with_body_keeps: "(\<And>v. f (snd (next v w)) = f w) \<Longrightarrow> f (snd (with_body J D next r w)) = f w"
  by (auto simp: with_body_def split: sum.splits)

lemma worker_handlers_log:
  "sv_log (snd (orch_registerWorker J H wid r w)) = sv_log w"
  "sv_log (snd (orch_heartbeat J H wid r w)) = sv_log w"
  "sv_log (snd (orch_setWorkerDraining J H wid r w)) = sv_log w"
  "sv_log (snd (orch_workerState J H wid sid r w)) = sv_log w"
  unfolding orch_registerWorker_def orch_heartbeat_def orch_setWorkerDraining_def orch_workerState_def
  by (rule with_body_keeps; auto simp: split_beta split: option.splits)+

lemma control_handlers_hosts:
  "hosts_of (snd (orch_place J H r w)) = hosts_of w"
  "hosts_of (snd (orch_getPlacement J H sid w)) = hosts_of w"
  "hosts_of (snd (orch_releasePlacement J H sid w)) = hosts_of w"
  "hosts_of (snd (orch_provision J H r w)) = hosts_of w"
  "hosts_of (snd (orch_pause J H sid w)) = hosts_of w"
  "hosts_of (snd (orch_resume J H sid w)) = hosts_of w"
  "hosts_of (snd (orch_destroy J H sid w)) = hosts_of w"
proof -
  show "hosts_of (snd (orch_place J H r w)) = hosts_of w" "hosts_of (snd (orch_provision J H r w)) = hosts_of w"
    unfolding orch_place_def orch_provision_def
    by (rule with_body_keeps[where f = hosts_of]; auto simp: split_beta split: sum.splits)+
qed (auto simp: orch_getPlacement_def orch_releasePlacement_def orch_pause_def orch_resume_def orch_destroy_def split_beta
    split: sum.splits option.splits)

lemma authed_keeps: "f (snd (h r w)) = f w \<Longrightarrow> f (snd (orch_authed J token h r w)) = f w"
  by (simp add: orch_authed_def)

text \<open>The mux calls one handler of its table, or none.\<close>

lemma mux_cases:
  obtains (none) resp where "orch_mux J H r w = (resp, w)" "fst resp \<in> {404, 405}"
  | (route) m p h vs where "(m, p, h) \<in> set (orch_routes J H)" "orch_mux J H r w = h vs r w"
proof (cases "List.find (\<lambda>(m, p, h). method_matches m (oq_Method r))
    (filter (\<lambda>(m, p, h). match_segments p (tl (split_slash (oq_Path r))) \<noteq> None) (orch_routes J H))")
  case None
  then have "orch_mux J H r w = ((404, ''404 page not found''), w) \<or> orch_mux J H r w = ((405, ''Method Not Allowed''), w)"
    by (simp add: orch_mux_def Let_def)
  then show ?thesis using none by force
next
  case (Some x)
  obtain m p h where x: "x = (m, p, h)" by (cases x)
  from Some have "x \<in> set (orch_routes J H)" by (auto simp: find_Some_iff dest!: nth_mem)
  with Some x show ?thesis using route[of m p h] by (simp add: orch_mux_def Let_def)
qed

text \<open>
  The two tokens give two roles. A request that does not carry the control token makes the orchestrator call no
  worker; a request that does not carry the worker token changes nothing about the registered workers; and a request that
  carries neither changes nothing at all and is answered with the health report, 401, 404 or 405.
\<close>

theorem orchestrator_tokens_separate_roles:
  assumes "orch_mux J H r w = (resp, w')"
  shows "(oq_Token r \<noteq> hs_controlToken H \<or> oq_Token r = [] \<longrightarrow> sv_log w' = sv_log w)
    \<and> (oq_Token r \<noteq> hs_workerToken H \<or> oq_Token r = [] \<longrightarrow> worker_hosts (sv_store w') = worker_hosts (sv_store w))
    \<and> ((oq_Token r \<noteq> hs_controlToken H \<and> oq_Token r \<noteq> hs_workerToken H) \<or> oq_Token r = []
         \<longrightarrow> w' = w \<and> (resp = orch_health J \<or> fst resp \<in> {401, 404, 405}))"
proof -
  let ?c = "oq_Token r \<noteq> hs_controlToken H \<or> oq_Token r = []" and ?k = "oq_Token r \<noteq> hs_workerToken H \<or> oq_Token r = []"
  have refuse: "orch_authed J token h r w = (writeHTTPError J 401 ''unauthorized'' ''invalid or missing orchestrator token'', w)"
    if "oq_Token r \<noteq> token \<or> oq_Token r = []" for token h using that by (auto simp: orch_authed_def)
  show ?thesis
  proof (cases rule: mux_cases[of J H r w])
    case (none q)
    with assms show ?thesis by auto
  next
    case (route m p h vs)
    consider (health) "h = (\<lambda>vs r w. (orch_health J, w))" | (worker) "(m, p, h) \<in> set (worker_routes J H)"
      | (control) "(m, p, h) \<in> set (control_routes J H)" using route(1) by (auto simp: orch_routes_def)
    then show ?thesis
    proof cases
      case health
      with route(2) assms show ?thesis by simp
    next
      case worker
      then obtain g where g: "h vs r w = orch_authed J (hs_workerToken H) g r w" "sv_log (snd (g r w)) = sv_log w"
        by (auto simp: worker_routes_def worker_handlers_log)
      have "sv_log w' = sv_log w" using authed_keeps[where f = sv_log and h = g and r = r and w = w, OF g(2), of J "hs_workerToken H"] assms route(2) g(1) by (metis snd_conv)
      then show ?thesis using refuse[of "hs_workerToken H" g] assms route(2) g(1) by (auto simp: writeHTTPError_def)
    next
      case control
      then obtain g where g: "h vs r w = orch_authed J (hs_controlToken H) g r w" "hosts_of (snd (g r w)) = hosts_of w"
        by (auto simp: control_routes_def control_handlers_hosts)
      have "hosts_of w' = hosts_of w" using authed_keeps[where f = hosts_of and h = g and r = r and w = w, OF g(2), of J "hs_controlToken H"] assms route(2) g(1) by (metis snd_conv)
      then show ?thesis using refuse[of "hs_controlToken H" g] assms route(2) g(1) by (auto simp: writeHTTPError_def)
    qed
  qed
qed

section \<open>A sample connection\<close>

definition map_text :: "(string, string) gomap \<Rightarrow> string" where
  "map_text m = CHR ''{'' # concat (map (\<lambda>(k, v). field k @ field v) m)"

lemma map_text_inj: "inj map_text"
proof (rule injI)
  fix m n :: "(string, string) gomap"
  assume "map_text m = map_text n"
  then have "concat (map (\<lambda>(k, v). field k @ field v) m) = concat (map (\<lambda>(k, v). field k @ field v) n)" by (simp add: map_text_def)
  moreover have ne: "field k \<noteq> []" for k by (simp add: field_def)
  ultimately show "m = n"
  proof (induction m arbitrary: n)
    case Nil
    then show ?case by (cases n) auto
  next
    case (Cons x m)
    then show ?case by (cases x; cases n) (auto simp: field_split)
  qed
qed

definition placement_text :: "Placement \<Rightarrow> string" where
  "placement_text p = field (pl_SandboxID p) @ field (WorkerID p) @ field (Endpoint p) @ pl_State p"

lemma placement_text_inj: "inj placement_text"
  by (auto intro!: injI Placement.equality simp: placement_text_def field_split)

definition one_codec :: "'c \<Rightarrow> 'c codec" where
  "one_codec c = \<lparr>cd_Marshal = (\<lambda>_. ''{}''), cd_Unmarshal = (\<lambda>_. Inr c)\<rparr>"

lemma one_codec_exact: "exact (one_codec c) c"
  by (simp add: exact_def one_codec_def)

definition sample_orch_json :: orch_json where
  "sample_orch_json = \<lparr>oj_registration = one_codec \<lparr>reg_ID = ''w1'', reg_Endpoint = [], reg_Pool = [], reg_AllocatableVCPUs = 1,
       reg_AllocatableMemoryMB = 1, reg_AllocatableDiskGB = 1, reg_MaxSandboxes = 1, reg_SupportedImages = []\<rparr>,
     oj_capacity = one_codec \<lparr>FreeSlots = 0, MaxSlots = 0, AllocatableVCPUs = 0, AllocatableMemoryMB = 0, AllocatableDiskGB = 0,
       ReservedVCPUs = 0, ReservedMemoryMB = 0, ReservedDiskGB = 0, ReservedSandboxes = 0\<rparr>,
     oj_draining = one_codec True, oj_state = one_codec ''paused'', oj_place = one_codec ([], sample_placement_request),
     oj_provision = one_codec sample_provision, oj_placement = text_codec placement_text, oj_map = text_codec map_text\<rparr>"

definition sample_HTTPServer :: HTTPServer where
  "sample_HTTPServer = \<lparr>hs_db = sample_env, hs_svc = sample_svc_env, hs_service = sample_service, hs_controlToken = ''ctl'', hs_workerToken = ''wrk''\<rparr>"

definition sample_client_env :: client_env where
  "sample_client_env = \<lparr>ce_json = sample_orch_json, ce_server = sample_HTTPServer, ce_url = (\<lambda>u. Inr (drop 8 u)), ce_net = (\<lambda>n. Delivered), ce_fresh = (\<lambda>n. ''id'')\<rparr>"

definition sample_client :: orch_client where
  "sample_client = \<lparr>oc_base = ''http://o'', oc_token = ''ctl''\<rparr>"

lemma sample_json_exact:
  "exact (oj_map sample_orch_json) m" "exact (oj_placement sample_orch_json) p" "exact (oj_provision sample_orch_json) sample_provision"
proof -
  have "map_text m \<noteq> []" "placement_text p \<noteq> []" by (simp_all add: map_text_def placement_text_def field_def)
  then show "exact (oj_map sample_orch_json) m" "exact (oj_placement sample_orch_json) p" "exact (oj_provision sample_orch_json) sample_provision"
    by (simp_all add: sample_orch_json_def text_codec_exact map_text_inj placement_text_inj one_codec_exact)
qed

theorem orchestrator_errors_cross_the_wire_witness:
  "relays (svc_Pause (Client_Store sample_env) sample_svc_env sample_service ''sb1'' sample_world) (oc_Pause sample_client_env sample_client 0 ''sb1'' sample_world)
   \<and> relays_placement (provision_call sample_HTTPServer sample_provision sample_world) (oc_Provision sample_client_env sample_client 0 sample_provision sample_world)"
proof -
  have s: "ce_server sample_client_env = sample_HTTPServer" "ce_json sample_client_env = sample_orch_json"
    "hs_db sample_HTTPServer = sample_env" "hs_svc sample_HTTPServer = sample_svc_env" "hs_service sample_HTTPServer = sample_service"
    by (simp_all add: sample_client_env_def sample_HTTPServer_def)
  have "connected sample_client_env sample_client 0 [''/internal/sandboxes/'' @ ''sb1'' @ ''/pause'', ''/internal/sandboxes/'' @ ''sb1'' @ ''/resume'',
      ''/internal/sandboxes/'' @ ''sb1'', ''/internal/sandboxes'']"
    by (simp add: connected_def s(2) sample_json_exact) (simp add: sample_client_env_def sample_HTTPServer_def sample_client_def)
  moreover have "plain ''sb1''" by (simp add: plain_def slash_def)
  moreover have "length (cd_Marshal (oj_provision sample_orch_json) sample_provision) \<le> 1048576"
    by (simp add: sample_orch_json_def one_codec_def)
  ultimately show ?thesis
    using orchestrator_errors_cross_the_wire[of "''sb1''" sample_client_env sample_client 0 sample_provision sample_world] sample_json_exact
    by (simp add: s)
qed

theorem orchestrator_tokens_separate_roles_witness:
  "sv_log (snd (orch_mux sample_orch_json sample_HTTPServer
      \<lparr>oq_Method = ''POST'', oq_Path = ''/internal/sandboxes/'' @ ''sb1'' @ ''/pause'', oq_Token = ''wrk'', oq_RequestID = [], oq_Body = None\<rparr> sample_world))
   = sv_log sample_world"
proof -
  let ?r = "\<lparr>oq_Method = ''POST'', oq_Path = ''/internal/sandboxes/'' @ ''sb1'' @ ''/pause'', oq_Token = ''wrk'', oq_RequestID = [], oq_Body = None\<rparr>"
  obtain resp w' where m: "orch_mux sample_orch_json sample_HTTPServer ?r sample_world = (resp, w')" by fastforce
  have "oq_Token ?r \<noteq> hs_controlToken sample_HTTPServer" by (simp add: sample_HTTPServer_def)
  with orchestrator_tokens_separate_roles[OF m] m show ?thesis by auto
qed

end
