(* ===== verification/Control_Plane.thy ===== *)
theory Control_Plane
  imports Orchestrator_API Worker_Server
begin

text \<open>
  The control plane's side of a sandbox: its columns of the table \<open>sandboxes\<close> (\<open>backend/internal/platform/sandbox.go\<close>), the
  client for worker agents (\<open>backend/internal/agent/client.go\<close>) and the service behind the public API
  (\<open>backend/internal/controlplane/service.go\<close>). A row of \<open>sandboxes\<close> is split in two: the columns that the orchestrator
  changes are the rows of \<open>Placement\<close>, the others (owner, name, billing model, ...) are kept here under the same key.
  The workers' answers, UUIDs, clocks and the failure of a statement are arguments.
\<close>

section \<open>Rows\<close>

record sandbox_details =
  sd_user_id :: string
  sd_api_key_id :: "string option"
  sd_name :: string
  sd_billing_model :: string
  sd_internet :: bool
  sd_idle_timeout_ms :: int
  sd_created_at :: int
  sd_last_used_at :: "int option"
  sd_expires_at :: "int option"
  sd_metadata :: "(string, string) gomap"

record SessionInfo =
  si_ID :: string
  si_UserID :: string
  si_Image :: string
  si_BillingModel :: string
  si_VCPUs :: int
  si_MemoryMB :: int
  si_DiskGB :: int
  si_Env :: "(string, string) gomap"
  si_Internet :: bool
  si_IdleTimeout :: int
  si_MaxLifetime :: int
  si_CreatedAt :: int
  si_LastUsed :: int
  si_State :: SessionState
  si_RunCount :: int
  si_TotalExecutionMs :: rat
  si_LastExitCode :: "int option"

record SandboxRef =
  ref_ID :: string
  ref_State :: string
  ref_UserID :: string
  ref_BillingModel :: string
  ref_Image :: string
  ref_VCPUs :: int
  ref_MemoryMB :: int
  ref_DiskGB :: int
  ref_Internet :: bool
  ref_IdleTimeoutMs :: int
  ref_Created :: int
  ref_LastUsed :: int

datatype run_call = RunCall string string RunRequest | ExecCall string string ExecRequest

record cp_world =
  cp_orch :: "db world"
  cp_details :: "(string, sandbox_details) gomap"
  cp_profiles :: "(string, rat) gomap"
  cp_runs :: "run_call list"
  cp_tick :: nat

record cp_env =
  ct_orch :: client_env
  ct_client :: orch_client
  ct_uuid :: "nat \<Rightarrow> string"
  ct_now :: "nat \<Rightarrow> int"
  ct_db_now :: "nat \<Rightarrow> int"
  ct_fault :: "nat \<Rightarrow> string \<Rightarrow> go_error option"
  ct_worker :: "nat \<Rightarrow> string \<Rightarrow> http_request \<Rightarrow> go_error + reply"
  ct_pg_time :: "string \<Rightarrow> int option"
  ct_rfc3339 :: "int \<Rightarrow> string"

definition cp_next :: "cp_world \<Rightarrow> cp_world" where
  "cp_next w = w\<lparr>cp_tick := Suc (cp_tick w)\<rparr>"

definition cp_rows :: "cp_world \<Rightarrow> (string, sandbox_row) gomap" where
  "cp_rows w = sandboxes (sv_store (cp_orch w))"

definition put_cp_row :: "string \<Rightarrow> sandbox_row \<Rightarrow> cp_world \<Rightarrow> cp_world" where
  "put_cp_row i row w = w\<lparr>cp_orch := (cp_orch w)\<lparr>sv_store := set_row i row (sv_store (cp_orch w))\<rparr>\<rparr>"

text \<open>Go's conversion of a duration to whole milliseconds or seconds rounds toward zero.\<close>

definition trunc_div :: "int \<Rightarrow> int \<Rightarrow> int" where
  "trunc_div a b = (if a \<ge> 0 then a div b else - ((- a) div b))"

definition InsertSandbox ::
    "cp_env \<Rightarrow> string \<Rightarrow> sandbox_row \<Rightarrow> sandbox_details \<Rightarrow> cp_world \<Rightarrow> go_error option \<times> cp_world" where
  "InsertSandbox E i row details w =
     (case ct_fault E (cp_tick w) ''insert sandbox'' of
        Some e \<Rightarrow> (Some (Wrapf ''insert sandbox'' e), cp_next w)
      | None \<Rightarrow>
          if sd_idle_timeout_ms details \<ge> 2 ^ 31 \<or> sd_idle_timeout_ms details < - (2 ^ 31)
          then (Some (Wrapf ''insert sandbox'' (ErrNew ''integer out of range'')), cp_next w)
          else if mget (cp_rows w) i \<noteq> None \<or> mget (cp_details w) i \<noteq> None
          then (Some (Wrapf ''insert sandbox'' (ErrNew ''duplicate key value violates unique constraint'')), cp_next w)
          else
            let now = ct_db_now E (cp_tick w) in
            (None, cp_next (put_cp_row i (row\<lparr>sb_host_id := None, sb_paused_at := None, sb_updated_at := now\<rparr>)
              (w\<lparr>cp_details := mput i (details\<lparr>sd_created_at := now, sd_last_used_at := None,
                    sd_expires_at := Some (now + sd_idle_timeout_ms details * millisecond)\<rparr>) (cp_details w)\<rparr>))))"

definition GetSandbox :: "cp_env \<Rightarrow> string \<Rightarrow> cp_world \<Rightarrow> (go_error + SandboxRef option) \<times> cp_world" where
  "GetSandbox E i w =
     (case ct_fault E (cp_tick w) ''get sandbox'' of
        Some e \<Rightarrow> (Inl (Wrapf ''get sandbox'' e), cp_next w)
      | None \<Rightarrow>
          (case (mget (cp_rows w) i, mget (cp_details w) i) of
             (Some row, Some d) \<Rightarrow>
               (Inr (Some \<lparr>ref_ID = i, ref_State = sb_state row, ref_UserID = sd_user_id d, ref_BillingModel = sd_billing_model d,
                  ref_Image = (case sb_image row of None \<Rightarrow> ''alpine'' | Some img \<Rightarrow> img), ref_VCPUs = sb_vcpus row,
                  ref_MemoryMB = sb_memory_mb row, ref_DiskGB = sb_disk_gb row, ref_Internet = sd_internet d,
                  ref_IdleTimeoutMs = sd_idle_timeout_ms d, ref_Created = sd_created_at d,
                  ref_LastUsed = (case sd_last_used_at d of None \<Rightarrow> sd_created_at d | Some t \<Rightarrow> t)\<rparr>), cp_next w)
           | _ \<Rightarrow> (Inr None, cp_next w)))"

text \<open>A statement that changes the columns of one row, if there is one; its failure is only logged.\<close>

definition update_row ::
    "string \<Rightarrow> (sandbox_row \<Rightarrow> sandbox_row) \<Rightarrow> (sandbox_details \<Rightarrow> sandbox_details) \<Rightarrow> cp_world \<Rightarrow> cp_world" where
  "update_row i f g w =
     (case (mget (cp_rows w) i, mget (cp_details w) i) of
        (Some row, Some d) \<Rightarrow> put_cp_row i (f row) (w\<lparr>cp_details := mput i (g d) (cp_details w)\<rparr>)
      | _ \<Rightarrow> w)"

definition TouchSandbox :: "cp_env \<Rightarrow> string \<Rightarrow> cp_world \<Rightarrow> cp_world" where
  "TouchSandbox E i w =
     (let now = ct_db_now E (cp_tick w) in
      case ct_fault E (cp_tick w) ''touch sandbox'' of
        Some e \<Rightarrow> cp_next w
      | None \<Rightarrow> cp_next (update_row i (\<lambda>row. row\<lparr>sb_updated_at := now\<rparr>)
          (\<lambda>d. d\<lparr>sd_last_used_at := Some now, sd_expires_at := Some (now + sd_idle_timeout_ms d * millisecond)\<rparr>) w))"

definition UpdateSandboxState :: "cp_env \<Rightarrow> string \<Rightarrow> string \<Rightarrow> cp_world \<Rightarrow> cp_world" where
  "UpdateSandboxState E i state w =
     (let now = ct_db_now E (cp_tick w); row_at = (\<lambda>row. row\<lparr>sb_state := state, sb_updated_at := now\<rparr>) in
      case ct_fault E (cp_tick w) ''update state'' of
        Some e \<Rightarrow> cp_next w
      | None \<Rightarrow>
          cp_next (if state = ''paused'' then
            update_row i (\<lambda>row. (row_at row)\<lparr>sb_paused_at := Some now\<rparr>) (\<lambda>d. d\<lparr>sd_expires_at := Some (now + 7 * 24 * hour)\<rparr>) w
          else if state = ''active'' then
            update_row i (\<lambda>row. (row_at row)\<lparr>sb_paused_at := None\<rparr>)
              (\<lambda>d. d\<lparr>sd_last_used_at := Some now, sd_expires_at := Some (now + sd_idle_timeout_ms d * millisecond)\<rparr>) w
          else if state \<in> {''destroyed'', ''destroying'', ''error''} then
            update_row i row_at (\<lambda>d. d\<lparr>sd_last_used_at := Some now, sd_expires_at := None\<rparr>) w
          else update_row i row_at (\<lambda>d. d) w))"

definition UpdateSandboxDetails ::
    "cp_env \<Rightarrow> string \<Rightarrow> string \<Rightarrow> string \<Rightarrow> (string, string) gomap \<Rightarrow> cp_world \<Rightarrow> go_error option \<times> cp_world" where
  "UpdateSandboxDetails E i apiKeyID name metadata w =
     (case ct_fault E (cp_tick w) ''update details'' of
        Some e \<Rightarrow> (Some (Wrapf ''update sandbox details'' e), cp_next w)
      | None \<Rightarrow>
          if mget (cp_rows w) i = None \<or> mget (cp_details w) i = None
          then (Some (ErrNew (''update sandbox details: sandbox '' @ i @ '' not found'')), cp_next w)
          else
            (None, cp_next (update_row i (\<lambda>row. row\<lparr>sb_updated_at := ct_db_now E (cp_tick w)\<rparr>)
              (\<lambda>d. d\<lparr>sd_api_key_id := (if apiKeyID = [] then None else Some apiKeyID), sd_name := name, sd_metadata := metadata\<rparr>) w)))"

definition ListSandboxes :: "cp_env \<Rightarrow> string \<Rightarrow> cp_world \<Rightarrow> (go_error + (string \<times> sandbox_row \<times> sandbox_details) list) \<times> cp_world" where
  "ListSandboxes E userID w =
     (case ct_fault E (cp_tick w) ''list sandboxes'' of
        Some e \<Rightarrow> (Inl (Wrapf ''list sandboxes'' e), cp_next w)
      | None \<Rightarrow>
          let listed = List.map_filter (\<lambda>(i, d). case mget (cp_rows w) i of
                None \<Rightarrow> None
              | Some row \<Rightarrow> if sd_user_id d = userID \<and> sb_state row \<noteq> ''destroyed'' then Some (i, row, d) else None) (cp_details w)
          in (Inr (sort_key (\<lambda>(i, row, d). - sd_created_at d) listed), cp_next w))"

section \<open>The client for worker agents\<close>

text \<open>An answer of a worker as an error: its structured message when there is one.\<close>

definition agent_error :: "reply \<Rightarrow> go_error" where
  "agent_error r =
     (case snd r of
        ErrorResponse code message \<Rightarrow>
          if code = [] then ErrNew (''agent returned '' @ itoa (int (fst r)) @ '': '' @ message @ [CHR 0x0A])
          else if message = [] then ErrNew (''agent returned '' @ itoa (int (fst r)) @ '': '' @ message)
          else if code = ''no_capacity'' then WrapfFirst (Sentinel PlaneErrNoCapacity) message
          else ErrNew (''agent '' @ code @ '': '' @ message)
      | _ \<Rightarrow> ErrNew (''agent returned '' @ itoa (int (fst r))))"

definition agent_do :: "(http_request \<Rightarrow> go_error + reply) \<Rightarrow> http_request \<Rightarrow> go_error + reply_body" where
  "agent_do http r =
     (case http r of
        Inl e \<Rightarrow> Inl (Wrapf ''agent unreachable'' e)
      | Inr resp \<Rightarrow> if fst resp < 200 \<or> fst resp \<ge> 300 then Inl (agent_error resp) else Inr (snd resp))"

definition agent_request :: "string \<Rightarrow> string \<Rightarrow> string \<Rightarrow> http_request" where
  "agent_request token verb path =
     \<lparr>hq_Method = verb, hq_Path = path, hq_Token = token, hq_Create = Inl (ErrNew ''EOF''), hq_Run = Inl (ErrNew ''EOF''), hq_Exec = Inl (ErrNew ''EOF'')\<rparr>"

definition agent_Create :: "(http_request \<Rightarrow> go_error + reply) \<Rightarrow> string \<Rightarrow> CreateRequest \<Rightarrow> go_error + CreateResponse" where
  "agent_Create http token req =
     (case agent_do http ((agent_request token ''POST'' RouteSandbox)\<lparr>hq_Create := Inr req\<rparr>) of
        Inl e \<Rightarrow> Inl e
      | Inr (CreatedBody resp) \<Rightarrow> Inr resp
      | Inr _ \<Rightarrow> Inl (ErrNew ''decode agent response''))"

definition agent_result :: "go_error + reply_body \<Rightarrow> go_error + ExecResult" where
  "agent_result r = (case r of Inl e \<Rightarrow> Inl e | Inr (ResultBody res) \<Rightarrow> Inr res | Inr _ \<Rightarrow> Inl (ErrNew ''decode agent response''))"

definition agent_status :: "go_error + reply_body \<Rightarrow> go_error option" where
  "agent_status r = (case r of Inl e \<Rightarrow> Some e | Inr _ \<Rightarrow> None)"

definition agent_Run :: "(http_request \<Rightarrow> go_error + reply) \<Rightarrow> string \<Rightarrow> string \<Rightarrow> RunRequest \<Rightarrow> go_error + ExecResult" where
  "agent_Run http token i req =
     agent_result (agent_do http ((agent_request token ''POST'' (RouteSandboxPrefix @ i @ ''/run''))\<lparr>hq_Run := Inr req\<rparr>))"

definition agent_Exec :: "(http_request \<Rightarrow> go_error + reply) \<Rightarrow> string \<Rightarrow> string \<Rightarrow> ExecRequest \<Rightarrow> go_error + ExecResult" where
  "agent_Exec http token i req =
     agent_result (agent_do http ((agent_request token ''POST'' (RouteSandboxPrefix @ i @ ''/exec''))\<lparr>hq_Exec := Inr req\<rparr>))"

definition agent_Pause :: "(http_request \<Rightarrow> go_error + reply) \<Rightarrow> string \<Rightarrow> string \<Rightarrow> go_error option" where
  "agent_Pause http token i = agent_status (agent_do http (agent_request token ''POST'' (RouteSandboxPrefix @ i @ ''/pause'')))"

definition agent_Resume :: "(http_request \<Rightarrow> go_error + reply) \<Rightarrow> string \<Rightarrow> string \<Rightarrow> go_error option" where
  "agent_Resume http token i = agent_status (agent_do http (agent_request token ''POST'' (RouteSandboxPrefix @ i @ ''/resume'')))"

definition agent_Destroy :: "(http_request \<Rightarrow> go_error + reply) \<Rightarrow> string \<Rightarrow> string \<Rightarrow> go_error option" where
  "agent_Destroy http token i = agent_status (agent_do http (agent_request token ''DELETE'' (RouteSandboxPrefix @ i)))"

section \<open>The service\<close>

record cp_Service =
  cs_workerToken :: string

record create_args =
  ca_UserID :: string
  ca_BillingModel :: string
  ca_Image :: string
  ca_Env :: "(string, string) gomap"
  ca_VCPUs :: int
  ca_MemoryMB :: int
  ca_DiskGB :: int
  ca_Internet :: bool
  ca_IdleTimeout :: int
  ca_MaxLifetime :: int

definition on_orch :: "cp_env \<Rightarrow> (nat \<Rightarrow> db world \<Rightarrow> 'a \<times> db world) \<Rightarrow> cp_world \<Rightarrow> 'a \<times> cp_world" where
  "on_orch E f w = (case f (cp_tick w) (cp_orch w) of (r, o') \<Rightarrow> (r, cp_next (w\<lparr>cp_orch := o'\<rparr>)))"

definition scheduling_row :: "create_args \<Rightarrow> string \<Rightarrow> sandbox_row" where
  "scheduling_row a img = \<lparr>sb_host_id = None, sb_state = ''scheduling'', sb_vcpus = ca_VCPUs a, sb_memory_mb = ca_MemoryMB a,
     sb_disk_gb = ca_DiskGB a, sb_image = Some img, sb_paused_at = None, sb_updated_at = 0\<rparr>"

definition scheduling_details :: "create_args \<Rightarrow> sandbox_details" where
  "scheduling_details a = \<lparr>sd_user_id = ca_UserID a, sd_api_key_id = None, sd_name = ''sandbox'', sd_billing_model = ca_BillingModel a,
     sd_internet = ca_Internet a, sd_idle_timeout_ms = trunc_div (ca_IdleTimeout a) millisecond, sd_created_at = 0,
     sd_last_used_at = None, sd_expires_at = None, sd_metadata = []\<rparr>"

definition cp_provision :: "create_args \<Rightarrow> string \<Rightarrow> string \<Rightarrow> ProvisionRequest" where
  "cp_provision a i img = \<lparr>prov_Pool = [], prov_Create = \<lparr>SandboxID = i, cr_UserID = ca_UserID a, cr_Image = img,
     cr_BillingModel = ca_BillingModel a, cr_Env = ca_Env a, cr_VCPUs = ca_VCPUs a, cr_MemoryMB = ca_MemoryMB a, cr_DiskGB = ca_DiskGB a,
     cr_Internet = ca_Internet a, cr_IdleTimeoutS = trunc_div (ca_IdleTimeout a) second, cr_MaxLifetimeS = trunc_div (ca_MaxLifetime a) second\<rparr>\<rparr>"

definition cp_Create :: "cp_env \<Rightarrow> create_args \<Rightarrow> cp_world \<Rightarrow> (go_error + SessionInfo) \<times> cp_world" where
  "cp_Create E a w =
     (case Normalize (ca_Image a) of
        Inl e \<Rightarrow> (Inl e, w)
      | Inr img \<Rightarrow>
          let sandboxID = ct_uuid E (cp_tick w) in
          (case InsertSandbox E sandboxID (scheduling_row a img) (scheduling_details a) (cp_next w) of
             (Some e, w1) \<Rightarrow> (Inl (Wrapf ''create sandbox scheduling row'' e), w1)
           | (None, w1) \<Rightarrow>
               (case on_orch E (\<lambda>n. oc_Provision (ct_orch E) (ct_client E) n (cp_provision a sandboxID img)) w1 of
                  (Inl e, w2) \<Rightarrow> (Inl (Wrapf ''provision sandbox'' e), w2)
                | (Inr placement, w2) \<Rightarrow>
                    let now = ct_now E (cp_tick w2) in
                    (Inr \<lparr>si_ID = sandboxID, si_UserID = ca_UserID a, si_Image = img, si_BillingModel = ca_BillingModel a,
                       si_VCPUs = ca_VCPUs a, si_MemoryMB = ca_MemoryMB a, si_DiskGB = ca_DiskGB a, si_Env = ca_Env a,
                       si_Internet = ca_Internet a, si_IdleTimeout = ca_IdleTimeout a, si_MaxLifetime = ca_MaxLifetime a,
                       si_CreatedAt = now, si_LastUsed = now, si_State = StateActive, si_RunCount = 0, si_TotalExecutionMs = 0,
                       si_LastExitCode = None\<rparr>, cp_next w2))))"

definition cp_worker :: "cp_env \<Rightarrow> string \<Rightarrow> cp_world \<Rightarrow> (go_error + string) \<times> cp_world" where
  "cp_worker E sandboxID w =
     (case on_orch E (\<lambda>n. oc_Placement (ct_orch E) (ct_client E) n sandboxID) w of
        (Inl e, w') \<Rightarrow> (Inl (Wrapf ''resolve sandbox worker'' e), w')
      | (Inr placement, w') \<Rightarrow> (Inr (Endpoint placement), w'))"

definition reclaimed :: go_error where
  "reclaimed = ErrNew (''this sandbox is no longer running (its VM was reclaimed) '' @ [CHR 0xE2, CHR 0x80, CHR 0x94] @ '' create a new one'')"

definition cp_reconcile :: "cp_env \<Rightarrow> string \<Rightarrow> go_error option \<Rightarrow> cp_world \<Rightarrow> go_error option \<times> cp_world" where
  "cp_reconcile E sessionID err w =
     (case err of
        None \<Rightarrow> (None, TouchSandbox E sessionID w)
      | Some e \<Rightarrow>
          if \<not> contains (error_text e) ''not found'' then (Some e, w)
          else (Some reclaimed, snd (on_orch E (\<lambda>n. oc_Destroy (ct_orch E) (ct_client E) n sessionID) w)))"

definition cp_settle :: "cp_env \<Rightarrow> string \<Rightarrow> go_error + ExecResult \<Rightarrow> cp_world \<Rightarrow> (go_error + ExecResult) \<times> cp_world" where
  "cp_settle E sessionID res w =
     (case cp_reconcile E sessionID (case res of Inl e \<Rightarrow> Some e | Inr r \<Rightarrow> None) w of
        (Some e, w') \<Rightarrow> (Inl e, w')
      | (None, w') \<Rightarrow> (res, w'))"

definition cp_Execute :: "cp_env \<Rightarrow> cp_Service \<Rightarrow> string \<Rightarrow> string \<Rightarrow> string \<Rightarrow> int \<Rightarrow> cp_world \<Rightarrow> (go_error + ExecResult) \<times> cp_world" where
  "cp_Execute E S sessionID code language timeoutSec w =
     (case cp_worker E sessionID w of
        (Inl e, w1) \<Rightarrow> (Inl e, w1)
      | (Inr endpoint, w1) \<Rightarrow>
          let req = \<lparr>run_Code = code, run_Language = language, run_TimeoutS = timeoutSec\<rparr>;
              res = agent_Run (ct_worker E (cp_tick w1) endpoint) (cs_workerToken S) sessionID req
          in cp_settle E sessionID res (cp_next (w1\<lparr>cp_runs := cp_runs w1 @ [RunCall endpoint sessionID req]\<rparr>)))"

definition cp_Exec :: "cp_env \<Rightarrow> cp_Service \<Rightarrow> string \<Rightarrow> string \<Rightarrow> int \<Rightarrow> cp_world \<Rightarrow> (go_error + ExecResult) \<times> cp_world" where
  "cp_Exec E S sessionID command timeoutSec w =
     (case cp_worker E sessionID w of
        (Inl e, w1) \<Rightarrow> (Inl e, w1)
      | (Inr endpoint, w1) \<Rightarrow>
          let req = \<lparr>ex_Command = command, ex_TimeoutS = timeoutSec\<rparr>;
              res = agent_Exec (ct_worker E (cp_tick w1) endpoint) (cs_workerToken S) sessionID req
          in cp_settle E sessionID res (cp_next (w1\<lparr>cp_runs := cp_runs w1 @ [ExecCall endpoint sessionID req]\<rparr>)))"

definition cp_Pause :: "cp_env \<Rightarrow> string \<Rightarrow> cp_world \<Rightarrow> go_error option \<times> cp_world" where
  "cp_Pause E sessionID = on_orch E (\<lambda>n. oc_Pause (ct_orch E) (ct_client E) n sessionID)"

definition cp_Resume :: "cp_env \<Rightarrow> string \<Rightarrow> cp_world \<Rightarrow> go_error option \<times> cp_world" where
  "cp_Resume E sessionID = on_orch E (\<lambda>n. oc_Resume (ct_orch E) (ct_client E) n sessionID)"

definition cp_Destroy :: "cp_env \<Rightarrow> string \<Rightarrow> cp_world \<Rightarrow> go_error option \<times> cp_world" where
  "cp_Destroy E sessionID = on_orch E (\<lambda>n. oc_Destroy (ct_orch E) (ct_client E) n sessionID)"

definition cp_GetSession :: "cp_env \<Rightarrow> string \<Rightarrow> cp_world \<Rightarrow> SessionInfo option \<times> cp_world" where
  "cp_GetSession E i w =
     (case GetSandbox E i w of
        (Inr (Some ref), w') \<Rightarrow>
          let info = (\<lambda>state. \<lparr>si_ID = ref_ID ref, si_UserID = ref_UserID ref, si_Image = ref_Image ref, si_BillingModel = ref_BillingModel ref,
                si_VCPUs = ref_VCPUs ref, si_MemoryMB = ref_MemoryMB ref, si_DiskGB = ref_DiskGB ref, si_Env = [], si_Internet = ref_Internet ref,
                si_IdleTimeout = wrap64 (ref_IdleTimeoutMs ref * millisecond), si_MaxLifetime = 0, si_CreatedAt = ref_Created ref,
                si_LastUsed = ref_LastUsed ref, si_State = state, si_RunCount = 0, si_TotalExecutionMs = 0, si_LastExitCode = None\<rparr>)
          in if ref_State ref = ''active'' then (Some (info StateActive), w')
             else if ref_State ref = ''paused'' then (Some (info StatePaused), w')
             else (None, w')
      | (_, w') \<Rightarrow> (None, w'))"

section \<open>A sample sandbox\<close>

definition sample_pg_time :: "string \<Rightarrow> int option" where
  "sample_pg_time s = (if s \<in> range itoa then Some (inv itoa s) else None)"

lemma sample_pg_time_itoa [simp]: "sample_pg_time (itoa t) = Some t"
proof -
  have "inj itoa" by (rule injI) simp
  then show ?thesis by (simp add: sample_pg_time_def)
qed

definition sample_cp_env :: cp_env where
  "sample_cp_env = \<lparr>ct_orch = sample_client_env, ct_client = sample_client, ct_uuid = (\<lambda>n. ''sb'' @ nat_digits n), ct_now = (\<lambda>n. 10 * second),
     ct_db_now = (\<lambda>n. 10 * second), ct_fault = (\<lambda>n label. None),
     ct_worker = (\<lambda>n endpoint r. Inr (404, ErrorResponse ''operation_failed'' ''session not found'')),
     ct_pg_time = sample_pg_time, ct_rfc3339 = itoa\<rparr>"

definition sample_details :: sandbox_details where
  "sample_details = \<lparr>sd_user_id = ''u1'', sd_api_key_id = None, sd_name = ''sandbox'', sd_billing_model = ''payg'', sd_internet = False,
     sd_idle_timeout_ms = 300000, sd_created_at = 0, sd_last_used_at = None, sd_expires_at = None, sd_metadata = []\<rparr>"

definition sample_cp_row :: sandbox_row where
  "sample_cp_row = sample_sandbox\<lparr>sb_host_id := Some ''w1'', sb_state := ''active''\<rparr>"

definition sample_cp_world :: cp_world where
  "sample_cp_world = \<lparr>cp_orch = sample_world\<lparr>sv_store := sample_db\<lparr>sandboxes := [(''sb1'', sample_cp_row)]\<rparr>\<rparr>, cp_details = [(''sb1'', sample_details)],
     cp_profiles = [(''u1'', 20)], cp_runs = [], cp_tick = 0\<rparr>"

lemma sample_cp_rows [simp]: "cp_rows sample_cp_world = [(''sb1'', sample_cp_row)]" "cp_details sample_cp_world = [(''sb1'', sample_details)]"
  by (simp_all add: cp_rows_def sample_cp_world_def)

end
