(* ===== verification/Session_API.thy ===== *)
theory Session_API
  imports Control_Plane Preview_Gateway
begin

text \<open>
  The public API on sandboxes (\<open>backend/internal/handler/session.go\<close>, \<open>usage.go\<close>, \<open>sizes.go\<close>, \<open>json.go\<close>,
  \<open>api_types.go\<close>). As in the sources the handlers know the service (\<open>plane.Service\<close>) and the platform
  (\<open>platform.UsageLogger\<close>) as interfaces, records of operations on a state. What a handler starts with \<open>go\<close> is returned as a
  list of jobs. The JSON decoder, the clock, UUIDs and \<open>net.SplitHostPort\<close> are arguments; a time in an answer is given as
  a time, not as its text.
\<close>

section \<open>Interfaces\<close>

record 's plane_service =
  ps_Create :: "create_args \<Rightarrow> 's \<Rightarrow> (go_error + SessionInfo) \<times> 's"
  ps_Execute :: "string \<Rightarrow> string \<Rightarrow> string \<Rightarrow> int \<Rightarrow> 's \<Rightarrow> (go_error + ExecResult) \<times> 's"
  ps_Exec :: "string \<Rightarrow> string \<Rightarrow> int \<Rightarrow> 's \<Rightarrow> (go_error + ExecResult) \<times> 's"
  ps_Pause :: "string \<Rightarrow> 's \<Rightarrow> go_error option \<times> 's"
  ps_Resume :: "string \<Rightarrow> 's \<Rightarrow> go_error option \<times> 's"
  ps_Destroy :: "string \<Rightarrow> 's \<Rightarrow> go_error option \<times> 's"
  ps_GetSession :: "string \<Rightarrow> 's \<Rightarrow> SessionInfo option \<times> 's"

record 's usage_logger =
  ul_UpdateSandboxDetails :: "string \<Rightarrow> string \<Rightarrow> string \<Rightarrow> (string, string) gomap \<Rightarrow> 's \<Rightarrow> go_error option \<times> 's"
  ul_BillSandboxRuntime :: "string \<Rightarrow> rat \<Rightarrow> 's \<Rightarrow> 's"
  ul_ListSandboxes :: "string \<Rightarrow> 's \<Rightarrow> (go_error + (string \<times> sandbox_row \<times> sandbox_details) list) \<times> 's"

record ExecutionPolicy =
  RateLimit :: rat
  RateBurst :: int
  DefaultExecTimeout :: int
  MaxExecTimeout :: int
  MinPoolSize :: int
  MaxPoolSize :: int
  MaxSessions :: int
  SessionIdleTimeout :: int
  SessionMaxLifetime :: int

record BillingConfig =
  bc_Model :: string
  ExecutionRateUSDPerSec :: rat

record AuthInfo =
  au_TenantID :: string
  au_APIKeyID :: string
  au_Config :: ExecutionPolicy
  au_Billing :: BillingConfig
  au_BalanceUSD :: rat

section \<open>Requests, answers and jobs\<close>

record RequestResources =
  rs_VCPUs :: int
  rs_MemoryMB :: int
  rs_DiskGB :: int

record CreateSessionRequest =
  cq_Name :: string
  cq_Image :: string
  cq_Metadata :: "(string, string) gomap"
  cq_Env :: "(string, string) gomap"
  cq_Size :: string
  cq_Resources :: "RequestResources option"
  cq_Network :: "bool option option"
  cq_IdleTimeoutS :: "int option"
  cq_MaxLifetimeS :: "int option"

record RunInSessionRequest =
  rq_Code :: string
  rq_Language :: string
  rq_Timeout :: "int option"

record ExecInSessionRequest =
  xq_Command :: string
  xq_Timeout :: int

record SessionDetail =
  dt_SessionID :: string
  dt_Image :: string
  dt_State :: string
  dt_BillingModel :: string
  dt_CreatedAt :: int
  dt_LastUsed :: int
  dt_ExpiresAt :: int

record SessionLimits =
  lm_MaxSessions :: int
  lm_ActiveSessions :: int
  lm_MaxExecutionMs :: int
  lm_IdleTimeoutMs :: int

record ExecutionOutput =
  eo_Stdout :: string
  eo_Stderr :: string
  eo_ExitCode :: int
  eo_TerminationReason :: string
  eo_DurationMs :: rat
  eo_GuestDurationMs :: rat

record SessionExecuteResponse =
  xr_Status :: string
  xr_SessionID :: string
  xr_Result :: ExecutionOutput
  xr_Error :: "(string \<times> string) option"
  xr_TimeoutLimitMs :: int
  xr_LastUsed :: int
  xr_ExpiresAt :: int
  xr_RunCount :: int

record SessionStats =
  ss_RunCount :: int
  ss_TotalExecutionMs :: rat
  ss_LastExitCode :: "int option"

record SandboxRun =
  sr_ID :: string
  sr_SandboxID :: string
  sr_UserID :: string
  sr_Kind :: string
  sr_Language :: string
  sr_Command :: string
  sr_ExitCode :: int
  sr_Status :: string
  sr_DurationMs :: int
  sr_StartedAt :: int

record SandboxLog =
  sl_SandboxID :: string
  sl_RunID :: string
  sl_UserID :: string
  sl_Stream :: string
  sl_Level :: string
  sl_Language :: string
  sl_Content :: string

record UsageLog =
  ug_APIKeyID :: string
  ug_UserID :: string
  ug_ExecutionType :: string
  ug_Language :: string
  ug_DurationMs :: int
  ug_ExitCode :: int
  ug_CostUSD :: rat
  ug_Stdout :: string
  ug_Stderr :: string

record AuditEvent =
  ev_ScopeID :: string
  ev_ActorType :: string
  ev_ActorAPIKeyID :: string
  ev_Action :: string
  ev_ResourceType :: string
  ev_ResourceID :: string
  ev_RequestID :: string
  ev_IPAddress :: string
  ev_UserAgent :: string

datatype job =
    InsertAuditEvent AuditEvent
  | InsertUsageLog UsageLog
  | BillRuntime string rat
  | RecordRun SandboxRun "SandboxLog list"

datatype session_reply =
    HttpError nat string
  | ApiError nat string string
  | SessionCreated SessionDetail SessionLimits
  | Executed SessionExecuteResponse
  | StateReply string string
  | Destroyed
  | Listed "(string \<times> sandbox_row \<times> sandbox_details) list"
  | SessionReply SessionDetail SessionLimits SessionStats
  | HandlerPanic

record api_request =
  aq_Method :: string
  aq_Path :: string
  aq_RemoteAddr :: string
  aq_UserAgent :: string
  aq_RequestID :: string
  aq_Body :: "string option"
  aq_Auth :: "AuthInfo option"

record api_env =
  ae_create :: "string \<Rightarrow> go_error + CreateSessionRequest \<times> string"
  ae_run :: "string \<Rightarrow> go_error + RunInSessionRequest \<times> string"
  ae_exec :: "string \<Rightarrow> go_error + ExecInSessionRequest \<times> string"
  ae_split :: "string \<Rightarrow> go_error + string"
  ae_start :: int
  ae_done :: int
  ae_uuid :: string

section \<open>Helpers\<close>

definition maxRequestBodyBytes :: nat where "maxRequestBodyBytes = 1048576"

text \<open>The decoder yields a value and the rest of the text; after the first value only white space may follow.\<close>

definition decodeJSON :: "(string \<Rightarrow> go_error + 'a \<times> string) \<Rightarrow> string option \<Rightarrow> go_error + 'a" where
  "decodeJSON D body =
     (case body of
        None \<Rightarrow> Inl (ErrNew ''EOF'')
      | Some raw \<Rightarrow>
          (case D raw of
             Inl e \<Rightarrow> Inl e
           | Inr (v, rest) \<Rightarrow>
               if length raw > maxRequestBodyBytes \<or> trim_space rest \<noteq> []
               then Inl (ErrNew ''request body must contain one JSON object'') else Inr v))"

definition resolveSize :: "CreateSessionRequest \<Rightarrow> go_error + vm_size" where
  "resolveSize req =
     (case cq_Resources req of
        Some res \<Rightarrow> Resolve (rs_VCPUs res) (rs_MemoryMB res) (rs_DiskGB res)
      | None \<Rightarrow> if cq_Size req \<noteq> [] then ByName (cq_Size req) else Inr Default_size)"

definition resolveDuration :: "int option \<Rightarrow> int \<Rightarrow> int \<Rightarrow> int" where
  "resolveDuration requestedSec def cap =
     (case requestedSec of
        None \<Rightarrow> def
      | Some n \<Rightarrow> if n \<le> 0 then def else let d = wrap64 (n * second) in if d > cap then cap else d)"

definition runStatus :: "int \<Rightarrow> string \<Rightarrow> string" where
  "runStatus exitCode terminationReason =
     (if terminationReason = ''timeout'' then ''timeout'' else if exitCode \<noteq> 0 then ''error'' else ''ok'')"

definition truncate_text :: "string \<Rightarrow> nat \<Rightarrow> string" where
  "truncate_text s maxBytes = (if length s \<le> maxBytes then s else take maxBytes s)"

definition trunc_rat :: "rat \<Rightarrow> int" where
  "trunc_rat x = (if x \<ge> 0 then \<lfloor>x\<rfloor> else \<lceil>x\<rceil>)"

definition recordAuditEventAsync :: "api_env \<Rightarrow> api_request \<Rightarrow> AuthInfo \<Rightarrow> string \<Rightarrow> string \<Rightarrow> job list" where
  "recordAuditEventAsync A r auth action resourceID =
     [InsertAuditEvent \<lparr>ev_ScopeID = au_TenantID auth, ev_ActorType = (if au_APIKeyID auth \<noteq> [] then ''api_key'' else ''user''),
        ev_ActorAPIKeyID = au_APIKeyID auth, ev_Action = action, ev_ResourceType = ''sandbox'', ev_ResourceID = resourceID,
        ev_RequestID = aq_RequestID r,
        ev_IPAddress = (case ae_split A (aq_RemoteAddr r) of Inl e \<Rightarrow> aq_RemoteAddr r | Inr host \<Rightarrow> host),
        ev_UserAgent = aq_UserAgent r\<rparr>]"

definition insertUsageLogAsync :: "UsageLog \<Rightarrow> job list" where
  "insertUsageLogAsync entry = (if ug_APIKeyID entry = [] then [] else [InsertUsageLog entry])"

definition billRuntimeAsync :: "string \<Rightarrow> rat \<Rightarrow> job list" where
  "billRuntimeAsync sandboxID ratePerSec = (if sandboxID = [] \<or> ratePerSec \<le> 0 then [] else [BillRuntime sandboxID ratePerSec])"

definition recordRunAsync :: "SandboxRun \<Rightarrow> string \<Rightarrow> string \<Rightarrow> job list" where
  "recordRunAsync run stdout stderr =
     (let line = (\<lambda>stream level content. \<lparr>sl_SandboxID = sr_SandboxID run, sl_RunID = sr_ID run, sl_UserID = sr_UserID run,
            sl_Stream = stream, sl_Level = level, sl_Language = sr_Language run, sl_Content = truncate_text content 65536\<rparr>);
          stderrLevel = (if sr_Status run = ''error'' \<or> sr_Status run = ''timeout'' then ''error'' else ''warn'')
      in [RecordRun (run\<lparr>sr_Command := truncate_text (sr_Command run) 8192\<rparr>)
            ((if stdout \<noteq> [] then [line ''stdout'' ''info'' stdout] else []) @ (if stderr \<noteq> [] then [line ''stderr'' stderrLevel stderr] else []))])"

definition session_limits :: "ExecutionPolicy \<Rightarrow> int \<Rightarrow> SessionLimits" where
  "session_limits tc idle = \<lparr>lm_MaxSessions = MaxSessions tc, lm_ActiveSessions = 0, lm_MaxExecutionMs = trunc_div (MaxExecTimeout tc) millisecond,
     lm_IdleTimeoutMs = trunc_div idle millisecond\<rparr>"

section \<open>Handlers\<close>

definition ownsSession :: "'s plane_service \<Rightarrow> string \<Rightarrow> string \<Rightarrow> 's \<Rightarrow> bool \<times> 's" where
  "ownsSession ps sessionID userID s =
     (case ps_GetSession ps sessionID s of
        (None, s') \<Rightarrow> (False, s')
      | (Some sess, s') \<Rightarrow> (si_UserID sess = userID, s'))"

definition create_failed :: "go_error \<Rightarrow> session_reply" where
  "create_failed err =
     (if errors_is err OrchErrNoCapacity then ApiError 503 ''no_capacity'' (error_text err)
      else if errors_is err OrchErrPlacementBusy then ApiError 503 ''scheduler_busy'' (error_text err)
      else ApiError 500 ''provision_failed'' (error_text err))"

definition default_create :: CreateSessionRequest where
  "default_create = \<lparr>cq_Name = [], cq_Image = [], cq_Metadata = [], cq_Env = [], cq_Size = [], cq_Resources = None, cq_Network = None,
     cq_IdleTimeoutS = None, cq_MaxLifetimeS = None\<rparr>"

definition create_args_of :: "AuthInfo \<Rightarrow> CreateSessionRequest \<Rightarrow> string \<Rightarrow> vm_size \<Rightarrow> create_args" where
  "create_args_of auth q img sz =
     (let tc = au_Config auth in
      \<lparr>ca_UserID = au_TenantID auth, ca_BillingModel = bc_Model (au_Billing auth), ca_Image = img, ca_Env = cq_Env q,
       ca_VCPUs = sz_vcpus sz, ca_MemoryMB = sz_memory_mb sz, ca_DiskGB = sz_disk_gb sz,
       ca_Internet = (case cq_Network q of Some (Some b) \<Rightarrow> b | _ \<Rightarrow> True),
       ca_IdleTimeout = resolveDuration (cq_IdleTimeoutS q) (SessionIdleTimeout tc) (SessionMaxLifetime tc),
       ca_MaxLifetime = resolveDuration (cq_MaxLifetimeS q) (SessionMaxLifetime tc) (SessionMaxLifetime tc)\<rparr>)"

definition create_session ::
    "'s plane_service \<Rightarrow> 's usage_logger \<Rightarrow> api_env \<Rightarrow> api_request \<Rightarrow> AuthInfo \<Rightarrow> 's \<Rightarrow> (session_reply \<times> job list) \<times> 's" where
  "create_session ps ul A r auth s =
     (let tc = au_Config auth in
      if MaxSessions tc = 0
      then ((ApiError 403 ''sessions_not_allowed'' ''sessions are disabled by the current execution policy'', []), s)
      else case (if aq_Body r = None then Inr default_create else decodeJSON (ae_create A) (aq_Body r)) of
        Inl e \<Rightarrow> ((HttpError 400 ''invalid request body'', []), s)
      | Inr q \<Rightarrow>
          (case Normalize (cq_Image q) of
             Inl e \<Rightarrow> ((ApiError 400 ''invalid_image'' (error_text e), []), s)
           | Inr img \<Rightarrow>
               (case resolveSize q of
                  Inl e \<Rightarrow> ((ApiError 400 ''invalid_resources'' (error_text e), []), s)
                | Inr sz \<Rightarrow>
                    (case ps_Create ps (create_args_of auth q img sz) s of
                       (Inl err, s1) \<Rightarrow> ((create_failed err, []), s1)
                     | (Inr sess, s1) \<Rightarrow>
                         let name = (if cq_Name q = [] then ''sandbox'' else cq_Name q);
                             (err, s2) = ul_UpdateSandboxDetails ul (si_ID sess) (au_APIKeyID auth) name (cq_Metadata q) s1
                         in ((SessionCreated
                               \<lparr>dt_SessionID = si_ID sess, dt_Image = si_Image sess, dt_State = ''active'', dt_BillingModel = si_BillingModel sess,
                                dt_CreatedAt = si_CreatedAt sess, dt_LastUsed = si_LastUsed sess,
                                dt_ExpiresAt = si_LastUsed sess + si_IdleTimeout sess\<rparr>
                               (session_limits tc (si_IdleTimeout sess)),
                              recordAuditEventAsync A r auth ''sandbox.created'' (si_ID sess)
                              @ insertUsageLogAsync \<lparr>ug_APIKeyID = au_APIKeyID auth, ug_UserID = au_TenantID auth, ug_ExecutionType = ''session_create'',
                                  ug_Language = [], ug_DurationMs = 0, ug_ExitCode = 0, ug_CostUSD = 0, ug_Stdout = [], ug_Stderr = []\<rparr>), s2)))))"

text \<open>What \<open>run\<close> and \<open>exec\<close> do with a result: the session is read again; it is dereferenced without a check.\<close>

definition executed ::
    "'s plane_service \<Rightarrow> api_env \<Rightarrow> AuthInfo \<Rightarrow> string \<Rightarrow> string \<Rightarrow> string \<Rightarrow> string \<Rightarrow> string \<times> string \<Rightarrow> ExecResult \<Rightarrow> 's
     \<Rightarrow> (session_reply \<times> job list) \<times> 's" where
  "executed ps A auth sessionID kind language command failure res s =
     (let ms = of_int (ae_done A - ae_start A) / of_int millisecond; rate = ExecutionRateUSDPerSec (au_Billing auth) in
      case ps_GetSession ps sessionID s of
        (None, s') \<Rightarrow> ((HandlerPanic, []), s')
      | (Some sess, s') \<Rightarrow>
          ((Executed \<lparr>xr_Status = (if er_ExitCode res \<noteq> 0 then ''error'' else ''success''), xr_SessionID = sessionID,
              xr_Result = \<lparr>eo_Stdout = er_Stdout res, eo_Stderr = er_Stderr res, eo_ExitCode = er_ExitCode res,
                eo_TerminationReason = er_TerminationReason res, eo_DurationMs = ms, eo_GuestDurationMs = er_GuestDuration res * 1000\<rparr>,
              xr_Error = (if er_ExitCode res \<noteq> 0 then Some (fst failure, snd failure @ '' exited with code '' @ itoa (er_ExitCode res)) else None),
              xr_TimeoutLimitMs = trunc_div (MaxExecTimeout (au_Config auth)) millisecond,
              xr_LastUsed = si_LastUsed sess, xr_ExpiresAt = si_LastUsed sess + si_IdleTimeout sess, xr_RunCount = si_RunCount sess\<rparr>,
            insertUsageLogAsync \<lparr>ug_APIKeyID = au_APIKeyID auth, ug_UserID = au_TenantID auth, ug_ExecutionType = ''session_'' @ kind,
                ug_Language = language, ug_DurationMs = trunc_rat ms, ug_ExitCode = er_ExitCode res, ug_CostUSD = ms / 1000 * rate,
                ug_Stdout = truncate_text (er_Stdout res) 65536, ug_Stderr = truncate_text (er_Stderr res) 65536\<rparr>
            @ billRuntimeAsync sessionID rate
            @ recordRunAsync \<lparr>sr_ID = ae_uuid A, sr_SandboxID = sessionID, sr_UserID = au_TenantID auth, sr_Kind = kind, sr_Language = language,
                sr_Command = command, sr_ExitCode = er_ExitCode res, sr_Status = runStatus (er_ExitCode res) (er_TerminationReason res),
                sr_DurationMs = trunc_rat ms, sr_StartedAt = ae_start A\<rparr> (er_Stdout res) (er_Stderr res)), s'))"

text \<open>The common beginning of the operations on one session.\<close>

definition with_owned ::
    "'s plane_service \<Rightarrow> AuthInfo \<Rightarrow> string \<Rightarrow> ('s \<Rightarrow> (session_reply \<times> job list) \<times> 's) \<Rightarrow> 's \<Rightarrow> (session_reply \<times> job list) \<times> 's" where
  "with_owned ps auth sessionID next s =
     (case ownsSession ps sessionID (au_TenantID auth) s of
        (False, s') \<Rightarrow> ((HttpError 404 ''session not found'', []), s')
      | (True, s') \<Rightarrow> next s')"

definition run_session ::
    "'s plane_service \<Rightarrow> api_env \<Rightarrow> api_request \<Rightarrow> AuthInfo \<Rightarrow> string \<Rightarrow> 's \<Rightarrow> (session_reply \<times> job list) \<times> 's" where
  "run_session ps A r auth sessionID = with_owned ps auth sessionID (\<lambda>s.
     case decodeJSON (ae_run A) (aq_Body r) of
       Inl e \<Rightarrow> ((HttpError 400 ''invalid request body'', []), s)
     | Inr q \<Rightarrow>
         if rq_Code q = [] then ((HttpError 400 ''code is required'', []), s)
         else if rq_Language q = [] then ((HttpError 400 ''language is required'', []), s)
         else
           let timeout = trunc_div (resolveDuration (rq_Timeout q) (DefaultExecTimeout (au_Config auth)) (MaxExecTimeout (au_Config auth))) second in
           (case ps_Execute ps sessionID (rq_Code q) (rq_Language q) timeout s of
              (Inl e, s1) \<Rightarrow> ((HttpError 404 (error_text e), []), s1)
            | (Inr res, s1) \<Rightarrow>
                executed ps A auth sessionID ''run'' (rq_Language q) (rq_Code q) (''execution_failed'', ''process'') res s1))"

definition exec_session ::
    "'s plane_service \<Rightarrow> api_env \<Rightarrow> api_request \<Rightarrow> AuthInfo \<Rightarrow> string \<Rightarrow> 's \<Rightarrow> (session_reply \<times> job list) \<times> 's" where
  "exec_session ps A r auth sessionID = with_owned ps auth sessionID (\<lambda>s.
     case decodeJSON (ae_exec A) (aq_Body r) of
       Inl e \<Rightarrow> ((HttpError 400 ''invalid request body'', []), s)
     | Inr q \<Rightarrow>
         if xq_Command q = [] then ((HttpError 400 ''command is required'', []), s)
         else (case ps_Exec ps sessionID (xq_Command q) (xq_Timeout q) s of
                 (Inl e, s1) \<Rightarrow> ((HttpError 404 (error_text e), []), s1)
               | (Inr res, s1) \<Rightarrow> executed ps A auth sessionID ''exec'' ''bash'' (xq_Command q) (''exec_failed'', ''command'') res s1))"

definition pause_session ::
    "'s plane_service \<Rightarrow> api_env \<Rightarrow> api_request \<Rightarrow> AuthInfo \<Rightarrow> string \<Rightarrow> 's \<Rightarrow> (session_reply \<times> job list) \<times> 's" where
  "pause_session ps A r auth sessionID = with_owned ps auth sessionID (\<lambda>s.
     case ps_Pause ps sessionID s of
       (Some e, s1) \<Rightarrow> ((HttpError 500 (error_text e), []), s1)
     | (None, s1) \<Rightarrow>
         ((StateReply sessionID ''paused'', billRuntimeAsync sessionID (ExecutionRateUSDPerSec (au_Billing auth))
            @ recordAuditEventAsync A r auth ''sandbox.paused'' sessionID), s1))"

definition resume_session ::
    "'s plane_service \<Rightarrow> api_env \<Rightarrow> api_request \<Rightarrow> AuthInfo \<Rightarrow> string \<Rightarrow> 's \<Rightarrow> (session_reply \<times> job list) \<times> 's" where
  "resume_session ps A r auth sessionID = with_owned ps auth sessionID (\<lambda>s.
     case ps_Resume ps sessionID s of
       (Some e, s1) \<Rightarrow> ((HttpError 500 (error_text e), []), s1)
     | (None, s1) \<Rightarrow> ((StateReply sessionID ''active'', recordAuditEventAsync A r auth ''sandbox.resumed'' sessionID), s1))"

definition destroy_session ::
    "'s plane_service \<Rightarrow> 's usage_logger \<Rightarrow> api_env \<Rightarrow> api_request \<Rightarrow> AuthInfo \<Rightarrow> string \<Rightarrow> 's \<Rightarrow> (session_reply \<times> job list) \<times> 's" where
  "destroy_session ps ul A r auth sessionID = with_owned ps auth sessionID (\<lambda>s.
     let s1 = ul_BillSandboxRuntime ul sessionID (ExecutionRateUSDPerSec (au_Billing auth)) s in
     case ps_Destroy ps sessionID s1 of
       (Some e, s2) \<Rightarrow> ((HttpError 404 (error_text e), []), s2)
     | (None, s2) \<Rightarrow> ((Destroyed, recordAuditEventAsync A r auth ''sandbox.destroyed'' sessionID), s2))"

definition list_sessions :: "'s usage_logger \<Rightarrow> AuthInfo \<Rightarrow> 's \<Rightarrow> (session_reply \<times> job list) \<times> 's" where
  "list_sessions ul auth s =
     (case ul_ListSandboxes ul (au_TenantID auth) s of
        (Inl e, s') \<Rightarrow> ((HttpError 500 ''failed to list sandboxes'', []), s')
      | (Inr items, s') \<Rightarrow> ((Listed items, []), s'))"

definition get_session :: "'s plane_service \<Rightarrow> AuthInfo \<Rightarrow> string \<Rightarrow> 's \<Rightarrow> (session_reply \<times> job list) \<times> 's" where
  "get_session ps auth sessionID s =
     (case ps_GetSession ps sessionID s of
        (None, s') \<Rightarrow> ((HttpError 404 ''session not found'', []), s')
      | (Some sess, s') \<Rightarrow>
          if si_UserID sess \<noteq> au_TenantID auth then ((HttpError 404 ''session not found'', []), s')
          else ((SessionReply
                  \<lparr>dt_SessionID = si_ID sess, dt_Image = [], dt_State = SessionState_text (si_State sess), dt_BillingModel = si_BillingModel sess,
                   dt_CreatedAt = si_CreatedAt sess, dt_LastUsed = si_LastUsed sess, dt_ExpiresAt = si_LastUsed sess + si_IdleTimeout sess\<rparr>
                  (session_limits (au_Config auth) (si_IdleTimeout sess))
                  \<lparr>ss_RunCount = si_RunCount sess, ss_TotalExecutionMs = si_TotalExecutionMs sess, ss_LastExitCode = si_LastExitCode sess\<rparr>, []), s'))"

definition trim_path :: "string \<Rightarrow> string" where
  "trim_path p = rev (dropWhile (\<lambda>c. c = slash) (rev (dropWhile (\<lambda>c. c = slash) p)))"

definition session_path :: "string \<Rightarrow> string" where
  "session_path p = trim_path (if has_prefix p ''/session'' then drop (length ''/session'') p else p)"

definition for_id :: "string \<Rightarrow> (string \<Rightarrow> 's \<Rightarrow> (session_reply \<times> job list) \<times> 's) \<Rightarrow> 's \<Rightarrow> (session_reply \<times> job list) \<times> 's" where
  "for_id sessionID next s = (if sessionID = [] then ((HttpError 400 ''missing session id'', []), s) else next sessionID s)"

definition SessionHandler ::
    "'s plane_service \<Rightarrow> 's usage_logger \<Rightarrow> api_env \<Rightarrow> api_request \<Rightarrow> 's \<Rightarrow> (session_reply \<times> job list) \<times> 's" where
  "SessionHandler ps ul A r s =
     (case aq_Auth r of
        None \<Rightarrow> ((HttpError 401 ''unauthorized'', []), s)
      | Some auth \<Rightarrow>
          let path = session_path (aq_Path r); post = (aq_Method r = ''POST'') in
          if post \<and> path = [] then create_session ps ul A r auth s
          else if post \<and> has_suffix path ''/run'' then for_id (trim_suffix path ''/run'') (run_session ps A r auth) s
          else if post \<and> has_suffix path ''/exec'' then for_id (trim_suffix path ''/exec'') (exec_session ps A r auth) s
          else if post \<and> has_suffix path ''/pause'' then for_id (trim_suffix path ''/pause'') (pause_session ps A r auth) s
          else if post \<and> has_suffix path ''/resume'' then for_id (trim_suffix path ''/resume'') (resume_session ps A r auth) s
          else if aq_Method r = ''DELETE'' \<and> path \<noteq> [] then destroy_session ps ul A r auth path s
          else if aq_Method r = ''GET'' \<and> path = [] then list_sessions ul auth s
          else if aq_Method r = ''GET'' \<and> path \<noteq> [] then get_session ps auth path s
          else ((HttpError 404 ''404 page not found'', []), s))"

section \<open>A tenant reaches only its own sandboxes\<close>

text \<open>
  A step of the platform keeps the invariant and the owner of every sandbox; only the sandboxes in \<open>I\<close> and the accounts
  in \<open>U\<close> change. A sandbox looks like its owner and the rest of its state, \<^term>\<open>None\<close> when there is none.
\<close>

definition owned :: "('s \<Rightarrow> string \<Rightarrow> (string \<times> 'v) option) \<Rightarrow> 's \<Rightarrow> string \<Rightarrow> string option" where
  "owned look s j = map_option fst (look s j)"

definition touches ::
    "('s \<Rightarrow> bool) \<Rightarrow> ('s \<Rightarrow> string \<Rightarrow> (string \<times> 'v) option) \<Rightarrow> ('s \<Rightarrow> string \<Rightarrow> 'b) \<Rightarrow> string set \<Rightarrow> string set \<Rightarrow> 's \<Rightarrow> 's \<Rightarrow> bool" where
  "touches good look account I U s s' \<longleftrightarrow> good s' \<and> (\<forall>j. j \<notin> I \<longrightarrow> look s' j = look s j)
     \<and> (\<forall>j. owned look s j \<noteq> None \<longrightarrow> owned look s' j = owned look s j) \<and> (\<forall>u. u \<notin> U \<longrightarrow> account s' u = account s u)"

lemma touches_refl: "good s \<Longrightarrow> touches good look account I U s s"
  by (simp add: touches_def)

lemma touches_trans:
  assumes "touches good look account I U s s1" "touches good look account I' U' s1 s2"
  shows "touches good look account (I \<union> I') (U \<union> U') s s2"
  using assms by (auto simp: touches_def)

lemma touches_mono: "touches good look account I U s s' \<Longrightarrow> I \<subseteq> I' \<Longrightarrow> U \<subseteq> U' \<Longrightarrow> touches good look account I' U' s s'"
  by (auto simp: touches_def)

text \<open>A job that acts for a tenant on a sandbox of that tenant.\<close>

definition job_for :: "(string \<Rightarrow> string option) \<Rightarrow> string \<Rightarrow> job \<Rightarrow> bool" where
  "job_for own t j =
     (case j of
        InsertAuditEvent ev \<Rightarrow> ev_ScopeID ev = t \<and> own (ev_ResourceID ev) = Some t
      | InsertUsageLog entry \<Rightarrow> ug_UserID entry = t
      | BillRuntime i rate \<Rightarrow> own i = Some t
      | RecordRun run lines \<Rightarrow> sr_UserID run = t \<and> own (sr_SandboxID run) = Some t \<and> list_all (\<lambda>l. sl_SandboxID l = sr_SandboxID run \<and> sl_UserID l = t) lines)"

locale tenant_service =
  fixes ps :: "'s plane_service" and ul :: "'s usage_logger"
    and good :: "'s \<Rightarrow> bool"
    and look :: "'s \<Rightarrow> string \<Rightarrow> (string \<times> 'v) option"
    and account :: "'s \<Rightarrow> string \<Rightarrow> 'b"
  assumes get_keeps: "good s \<Longrightarrow> touches good look account {} {} s (snd (ps_GetSession ps i s))"
    and get_owner: "good s \<Longrightarrow> fst (ps_GetSession ps i s) = Some info \<Longrightarrow> owned look s i = Some (si_UserID info)"
    and list_keeps: "good s \<Longrightarrow> touches good look account {} {} s (snd (ul_ListSandboxes ul u s))"
    and list_owner: "good s \<Longrightarrow> fst (ul_ListSandboxes ul u s) = Inr items \<Longrightarrow> x \<in> set items \<Longrightarrow> owned look s (fst x) = Some u"
    and create_touches: "good s \<Longrightarrow> touches good look account {i. owned look s i = None} {} s (snd (ps_Create ps a s))"
    and create_owner: "good s \<Longrightarrow> ps_Create ps a s = (Inr info, s') \<Longrightarrow> owned look s (si_ID info) = None \<and> owned look s' (si_ID info) = Some (ca_UserID a)"
    and execute_touches: "good s \<Longrightarrow> owned look s i \<noteq> None \<Longrightarrow> touches good look account {i} {} s (snd (ps_Execute ps i code language timeout s))"
    and exec_touches: "good s \<Longrightarrow> owned look s i \<noteq> None \<Longrightarrow> touches good look account {i} {} s (snd (ps_Exec ps i command timeout s))"
    and pause_touches: "good s \<Longrightarrow> owned look s i \<noteq> None \<Longrightarrow> touches good look account {i} {} s (snd (ps_Pause ps i s))"
    and resume_touches: "good s \<Longrightarrow> owned look s i \<noteq> None \<Longrightarrow> touches good look account {i} {} s (snd (ps_Resume ps i s))"
    and destroy_touches: "good s \<Longrightarrow> owned look s i \<noteq> None \<Longrightarrow> touches good look account {i} {} s (snd (ps_Destroy ps i s))"
    and details_touches: "good s \<Longrightarrow> owned look s i \<noteq> None \<Longrightarrow> touches good look account {i} {} s (snd (ul_UpdateSandboxDetails ul i key name md s))"
    and bill_touches: "good s \<Longrightarrow> owned look s i = Some u \<Longrightarrow> touches good look account {i} {u} s (ul_BillSandboxRuntime ul i rate s)"
begin

abbreviation owner :: "'s \<Rightarrow> string \<Rightarrow> string option" where
  "owner \<equiv> owned look"

text \<open>What a request of tenant \<open>t\<close> may do.\<close>

definition confined :: "string \<Rightarrow> 's \<Rightarrow> (session_reply \<times> job list) \<times> 's \<Rightarrow> bool" where
  "confined t s out \<longleftrightarrow> touches good look account {j. owner s j \<in> {None, Some t}} {t} s (snd out)
     \<and> list_all (job_for (owner (snd out)) t) (snd (fst out))"

lemma confined_step:
  assumes "touches good look account I U s s1" "I \<subseteq> {j. owner s j \<in> {None, Some t}}" "U \<subseteq> {t}" "confined t s1 out"
  shows "confined t s out"
proof -
  have "owner s j \<in> {None, Some t}" if "owner s1 j \<in> {None, Some t}" for j
    using assms(1) that by (cases "owner s j") (auto simp: touches_def)
  then have "{j. owner s1 j \<in> {None, Some t}} \<subseteq> {j. owner s j \<in> {None, Some t}}" by blast
  with assms show ?thesis
    unfolding confined_def by (auto intro!: touches_mono[OF touches_trans[OF assms(1)]])
qed

lemma confined_done: "good s \<Longrightarrow> list_all (job_for (owner s) t) jobs \<Longrightarrow> confined t s ((reply, jobs), s)"
  by (simp add: confined_def touches_refl)

lemma confined_own:
  assumes "touches good look account {i} U s s1" "owner s i = Some t" "U \<subseteq> {t}" "list_all (job_for (owner s1) t) jobs"
  shows "confined t s ((reply, jobs), s1)"
proof (rule confined_step[OF assms(1)])
  show "confined t s1 ((reply, jobs), s1)" using assms(1,4) by (intro confined_done) (simp_all add: touches_def)
qed (use assms(2,3) in auto)

lemma owner_kept: "touches good look account I U s s1 \<Longrightarrow> owner s i = Some t \<Longrightarrow> good s1 \<and> owner s1 i = Some t"
  by (simp add: touches_def)

lemma with_owned_confined:
  assumes "good s" "\<And>s1. good s1 \<Longrightarrow> owner s1 i = Some (au_TenantID auth) \<Longrightarrow> confined (au_TenantID auth) s1 (next s1)"
  shows "confined (au_TenantID auth) s (with_owned ps auth i next s)"
proof -
  let ?t = "au_TenantID auth"
  obtain info s1 where g: "ps_GetSession ps i s = (info, s1)" by fastforce
  have k: "touches good look account {} {} s s1" using get_keeps[OF assms(1), of i] g by simp
  then have "good s1" by (simp add: touches_def)
  show ?thesis
  proof (cases "\<exists>x. info = Some x \<and> si_UserID x = ?t")
    case True
    then have "owner s i = Some ?t" using get_owner[OF assms(1), of i] g by auto
    from owner_kept[OF k this] have "confined ?t s1 (next s1)" using assms(2) by blast
    then have "confined ?t s (next s1)" by (intro confined_step[OF k]) auto
    with True g show ?thesis by (auto simp: with_owned_def ownsSession_def)
  next
    case False
    then have "with_owned ps auth i next s = ((HttpError 404 ''session not found'', []), s1)"
      using g by (auto simp: with_owned_def ownsSession_def split: option.splits)
    with confined_step[OF k, of ?t] confined_done[OF \<open>good s1\<close>] show ?thesis by simp
  qed
qed

lemma jobs_for:
  "own i = Some (au_TenantID auth) \<Longrightarrow> list_all (job_for own (au_TenantID auth)) (recordAuditEventAsync A r auth action i)"
  "own i = Some t \<Longrightarrow> list_all (job_for own t) (billRuntimeAsync i rate)"
  "ug_UserID entry = t \<Longrightarrow> list_all (job_for own t) (insertUsageLogAsync entry)"
  "own (sr_SandboxID run) = Some t \<Longrightarrow> sr_UserID run = t \<Longrightarrow> list_all (job_for own t) (recordRunAsync run out err)"
  by (simp_all add: recordAuditEventAsync_def billRuntimeAsync_def insertUsageLogAsync_def recordRunAsync_def job_for_def Let_def)

lemma executed_confined:
  assumes "good s" "owner s i = Some (au_TenantID auth)"
  shows "confined (au_TenantID auth) s (executed ps A auth i kind lang cmd f res s)"
proof -
  obtain info s1 where g: "ps_GetSession ps i s = (info, s1)" by fastforce
  have k: "touches good look account {} {} s s1" using get_keeps[OF assms(1), of i] g by simp
  have "confined (au_TenantID auth) s1 (x, s1)" if "list_all (job_for (owner s1) (au_TenantID auth)) (snd x)" for x
    using confined_done[OF _ that, of "fst x"] owner_kept[OF k assms(2)] by simp
  moreover note owner_kept[OF k assms(2)]
  ultimately show ?thesis
    by (cases info) (auto intro!: confined_step[OF k] simp: executed_def g Let_def jobs_for)
qed

lemma settled_confined:
  assumes "touches good look account {i} {} s (snd p)" "owner s i = Some (au_TenantID auth)"
  shows "confined (au_TenantID auth) s (case p of (Inl e, s2) \<Rightarrow> ((h e, []), s2) | (Inr res, s2) \<Rightarrow> executed ps A auth i kind lang cmd f res s2)"
proof -
  obtain res s2 where p: "p = (res, s2)" by fastforce
  note k = assms(1)[unfolded p snd_conv]
  show ?thesis
  proof (cases res)
    case (Inl e)
    with p confined_own[OF k assms(2)] show ?thesis by simp
  next
    case (Inr r)
    have "confined (au_TenantID auth) s2 (executed ps A auth i kind lang cmd f r s2)"
      using owner_kept[OF k assms(2)] by (intro executed_confined) auto
    then show ?thesis using Inr p assms(2) by (auto intro!: confined_step[OF k])
  qed
qed

lemma status_confined:
  assumes "touches good look account {i} {} s (snd p)" "owner s i = Some t"
    and "\<And>own. own i = Some t \<Longrightarrow> list_all (job_for own t) jobs"
  shows "confined t s (case p of (Some e, s2) \<Rightarrow> ((h e, []), s2) | (None, s2) \<Rightarrow> ((reply, jobs), s2))"
proof -
  obtain res s2 where p: "p = (res, s2)" by fastforce
  note k = assms(1)[unfolded p snd_conv]
  show ?thesis
    using confined_own[OF k assms(2)] assms(3) owner_kept[OF k assms(2)] by (cases res) (auto simp: p)
qed

lemma reply_confined: "good s \<Longrightarrow> confined t s ((reply, []), s)"
  by (simp add: confined_done)

lemma run_confined: "good s \<Longrightarrow> confined (au_TenantID auth) s (run_session ps A r auth i s)"
  unfolding run_session_def
  by (erule with_owned_confined) (auto split: sum.splits simp: reply_confined Let_def intro!: settled_confined execute_touches)

lemma exec_confined: "good s \<Longrightarrow> confined (au_TenantID auth) s (exec_session ps A r auth i s)"
  unfolding exec_session_def
  by (erule with_owned_confined) (auto split: sum.splits simp: reply_confined intro!: settled_confined exec_touches)

lemma pause_confined: "good s \<Longrightarrow> confined (au_TenantID auth) s (pause_session ps A r auth i s)"
  unfolding pause_session_def
  by (erule with_owned_confined) (auto intro!: status_confined pause_touches jobs_for)

lemma resume_confined: "good s \<Longrightarrow> confined (au_TenantID auth) s (resume_session ps A r auth i s)"
  unfolding resume_session_def
  by (erule with_owned_confined) (auto intro!: status_confined resume_touches jobs_for)

lemma destroy_confined: "good s \<Longrightarrow> confined (au_TenantID auth) s (destroy_session ps ul A r auth i s)"
  unfolding destroy_session_def Let_def
proof (erule with_owned_confined)
  fix s1 assume own: "good s1" "owner s1 i = Some (au_TenantID auth)"
  let ?s2 = "ul_BillSandboxRuntime ul i (ExecutionRateUSDPerSec (au_Billing auth)) s1"
  note k = bill_touches[OF own, of "ExecutionRateUSDPerSec (au_Billing auth)"]
  have "confined (au_TenantID auth) ?s2 (case ps_Destroy ps i ?s2 of (Some e, s2) \<Rightarrow> ((HttpError 404 (error_text e), []), s2)
     | (None, s2) \<Rightarrow> ((Destroyed, recordAuditEventAsync A r auth ''sandbox.destroyed'' i), s2))"
    using owner_kept[OF k own(2)] by (auto intro!: status_confined destroy_touches jobs_for)
  then show "confined (au_TenantID auth) s1 (case ps_Destroy ps i ?s2 of (Some e, s2) \<Rightarrow> ((HttpError 404 (error_text e), []), s2)
     | (None, s2) \<Rightarrow> ((Destroyed, recordAuditEventAsync A r auth ''sandbox.destroyed'' i), s2))"
    by (rule confined_step[OF k, rotated 2]) (use own in auto)
qed

lemma list_confined: "good s \<Longrightarrow> confined (au_TenantID auth) s (list_sessions ul auth s)"
proof -
  assume g: "good s"
  obtain res s1 where x: "ul_ListSandboxes ul (au_TenantID auth) s = (res, s1)" by fastforce
  have k: "touches good look account {} {} s s1" using list_keeps[OF g, of "au_TenantID auth"] x by simp
  then have "good s1" by (simp add: touches_def)
  then show ?thesis
    by (cases res) (auto intro!: confined_step[OF k] reply_confined simp: list_sessions_def x)
qed

lemma get_confined: "good s \<Longrightarrow> confined (au_TenantID auth) s (get_session ps auth i s)"
proof -
  assume g: "good s"
  obtain res s1 where x: "ps_GetSession ps i s = (res, s1)" by fastforce
  have k: "touches good look account {} {} s s1" using get_keeps[OF g, of i] x by simp
  then have "good s1" by (simp add: touches_def)
  then show ?thesis
    by (cases res) (auto intro!: confined_step[OF k] reply_confined simp: get_session_def x)
qed

lemma create_confined: "good s \<Longrightarrow> confined (au_TenantID auth) s (create_session ps ul A r auth s)"
proof -
  assume g: "good s"
  let ?t = "au_TenantID auth"
  have body: "confined ?t s (case ps_Create ps a s of
       (Inl err, s1) \<Rightarrow> ((create_failed err, []), s1)
     | (Inr sess, s1) \<Rightarrow> (case ul_UpdateSandboxDetails ul (si_ID sess) key (name sess) md s1 of
          (err, s2) \<Rightarrow> ((reply sess, recordAuditEventAsync A r auth ''sandbox.created'' (si_ID sess) @ insertUsageLogAsync entry), s2)))"
    if "ca_UserID a = ?t" "ug_UserID entry = ?t" for a key name md reply entry
  proof -
    obtain res s1 where x: "ps_Create ps a s = (res, s1)" by fastforce
    have k: "touches good look account {i. owner s i = None} {} s s1" using create_touches[OF g, of a] x by simp
    then have g1: "good s1" by (simp add: touches_def)
    show ?thesis
    proof (cases res)
      case (Inl e)
      then show ?thesis using reply_confined[OF g1] by (auto intro!: confined_step[OF k] simp: x)
    next
      case (Inr sess)
      have own: "owner s1 (si_ID sess) = Some ?t" using create_owner[OF g, of a sess s1] x Inr that(1) by simp
      obtain err s2 where d: "ul_UpdateSandboxDetails ul (si_ID sess) key (name sess) md s1 = (err, s2)" by fastforce
      have k2: "touches good look account {si_ID sess} {} s1 s2"
        using details_touches[OF g1, of "si_ID sess" key "name sess" md] own d by simp
      have "confined ?t s1 ((reply sess, recordAuditEventAsync A r auth ''sandbox.created'' (si_ID sess) @ insertUsageLogAsync entry), s2)"
        using owner_kept[OF k2 own] that(2) by (intro confined_own[OF k2 own]) (auto simp: jobs_for)
      then show ?thesis using Inr by (auto intro!: confined_step[OF k] simp: x d)
    qed
  qed
  show ?thesis
    unfolding create_session_def Let_def
    by (auto split: sum.splits simp: reply_confined[OF g] create_args_of_def Let_def intro!: body)
qed

text \<open>A request of a tenant is confined to the tenant's sandboxes, its new ones, and its account.\<close>

lemma handler_confined:
  assumes "good s" "aq_Auth r = Some auth"
  shows "confined (au_TenantID auth) s (SessionHandler ps ul A r s)"
  using assms
  by (auto simp: SessionHandler_def for_id_def Let_def reply_confined create_confined run_confined exec_confined pause_confined
      resume_confined destroy_confined list_confined get_confined)

text \<open>To a tenant a sandbox of another one and one that does not exist look the same.\<close>

lemma foreign_hidden:
  assumes "good s" "owner s i \<noteq> Some (au_TenantID auth)"
  shows "fst (with_owned ps auth i next s) = (HttpError 404 ''session not found'', [])"
    and "fst (get_session ps auth i s) = (HttpError 404 ''session not found'', [])"
proof -
  have "fst (ps_GetSession ps i s) = Some info \<Longrightarrow> si_UserID info \<noteq> au_TenantID auth" for info
    using get_owner[OF assms(1), of i info] assms(2) by auto
  then show "fst (with_owned ps auth i next s) = (HttpError 404 ''session not found'', [])"
    "fst (get_session ps auth i s) = (HttpError 404 ''session not found'', [])"
    by (auto simp: with_owned_def ownsSession_def get_session_def split: prod.splits option.splits bool.splits)
qed

end

end
