(* ===== verification/Billing.thy ===== *)
theory Billing
  imports Control_Plane
begin

text \<open>
  Charging for sandbox time (\<open>backend/internal/platform/profile.go\<close>): balances are kept in \<open>profiles\<close>, and the end of
  the last charged interval in the metadata of the sandbox. PostgreSQL reads that time back from its text
  (\<open>ct_pg_time\<close>), with a resolution of a microsecond. A balance and a cost are exact numbers.
\<close>

definition debit :: "string \<Rightarrow> rat \<Rightarrow> cp_world \<Rightarrow> cp_world" where
  "debit userID cost w =
     (case mget (cp_profiles w) userID of
        None \<Rightarrow> w | Some b \<Rightarrow> w\<lparr>cp_profiles := mput userID (max 0 (b - cost)) (cp_profiles w)\<rparr>)"

definition DebitBalance :: "cp_env \<Rightarrow> string \<Rightarrow> rat \<Rightarrow> cp_world \<Rightarrow> go_error option \<times> cp_world" where
  "DebitBalance E userID amount w =
     (if amount \<le> 0 \<or> userID = [] then (None, w)
      else case ct_fault E (cp_tick w) ''debit balance'' of
             Some e \<Rightarrow> (Some (Wrapf ''debit balance'' e), cp_next w)
           | None \<Rightarrow>
               if mget (cp_profiles w) userID = None then (Some (ErrNew (''debit balance: profile '' @ userID @ '' not found'')), cp_next w)
               else (None, cp_next (debit userID amount w)))"

definition last_billed_key :: string where "last_billed_key = ''last_billed_at''"

text \<open>The column of the query: nothing, a time, or a text that is no time, which fails the query.\<close>

definition lastBilled :: "cp_env \<Rightarrow> sandbox_details \<Rightarrow> go_error + int option" where
  "lastBilled E d =
     (case mget (sd_metadata d) last_billed_key of
        None \<Rightarrow> Inr None
      | Some txt \<Rightarrow>
          if txt = [] then Inr None
          else (case ct_pg_time E txt of None \<Rightarrow> Inl (ErrNew ''invalid input syntax for type timestamp'') | Some t \<Rightarrow> Inr (Some t)))"

definition bill_start :: "sandbox_details \<Rightarrow> int option \<Rightarrow> int" where
  "bill_start d prev = (case prev of Some t \<Rightarrow> if t > sd_created_at d then t else sd_created_at d | None \<Rightarrow> sd_created_at d)"

definition bill_end :: "sandbox_row \<Rightarrow> sandbox_details \<Rightarrow> int \<Rightarrow> int" where
  "bill_end row d time_now =
     (if sb_state row \<in> {''active'', ''creating'', ''resuming''} then time_now
      else if sb_state row \<in> {''paused'', ''pausing''} then (case sb_paused_at row of Some t \<Rightarrow> t | None \<Rightarrow> sb_updated_at row)
      else (case sd_last_used_at d of Some t \<Rightarrow> t | None \<Rightarrow> sb_updated_at row))"

text \<open>The interval that a call charges, and its user; nothing when it charges nothing.\<close>

definition charged :: "cp_env \<Rightarrow> string \<Rightarrow> rat \<Rightarrow> cp_world \<Rightarrow> (string \<times> int \<times> int) option" where
  "charged E sandboxID ratePerSec w =
     (let failed = (\<lambda>label. ct_fault E (cp_tick w) label \<noteq> None) in
      if sandboxID = [] \<or> ratePerSec \<le> 0 \<or> failed ''bill begin'' \<or> failed ''bill load'' then None
      else case (mget (cp_rows w) sandboxID, mget (cp_details w) sandboxID) of
             (Some row, Some d) \<Rightarrow>
               (case lastBilled E d of
                  Inl e \<Rightarrow> None
                | Inr prev \<Rightarrow>
                    let start = bill_start d prev; end_at = bill_end row d (ct_now E (cp_tick w));
                        seconds = of_int (end_at - start) / (of_int second :: rat)
                    in if seconds < 1 \<or> seconds * ratePerSec \<le> 0 \<or> failed ''bill debit'' \<or> failed ''bill stamp'' \<or> failed ''bill commit'' then None
                       else Some (sd_user_id d, start, end_at))
           | _ \<Rightarrow> None)"

definition BillSandboxRuntime :: "cp_env \<Rightarrow> string \<Rightarrow> rat \<Rightarrow> cp_world \<Rightarrow> cp_world" where
  "BillSandboxRuntime E sandboxID ratePerSec w =
     (case charged E sandboxID ratePerSec w of
        None \<Rightarrow> cp_next w
      | Some (userID, start, end_at) \<Rightarrow>
          cp_next (update_row sandboxID (\<lambda>row. row) (\<lambda>d. d\<lparr>sd_metadata := mput last_billed_key (ct_rfc3339 E end_at) (sd_metadata d)\<rparr>)
            (debit userID (of_int (end_at - start) / of_int second * ratePerSec) w)))"

section \<open>No time is charged twice\<close>

text \<open>What the database promises: the text of a time is read back as that time, rounded to a microsecond.\<close>

definition pg_times :: "cp_env \<Rightarrow> bool" where
  "pg_times E \<longleftrightarrow> (\<forall>t. ct_rfc3339 E t \<noteq> [] \<and> (\<exists>t'. ct_pg_time E (ct_rfc3339 E t) = Some t' \<and> \<bar>t' - t\<bar> \<le> 500))"

text \<open>Charges of one sandbox, in order, between changes that leave its creation time and its billing mark alone.\<close>

definition same_meter :: "string \<Rightarrow> cp_world \<Rightarrow> cp_world \<Rightarrow> bool" where
  "same_meter i w w' \<longleftrightarrow> (case (mget (cp_details w) i, mget (cp_details w') i) of
     (Some d, Some d') \<Rightarrow> sd_created_at d' = sd_created_at d \<and> mget (sd_metadata d') last_billed_key = mget (sd_metadata d) last_billed_key
   | _ \<Rightarrow> False)"

inductive charges :: "cp_env \<Rightarrow> string \<Rightarrow> cp_world \<Rightarrow> (int \<times> int) list \<Rightarrow> cp_world \<Rightarrow> bool" for E i w0 where
  no_charges: "charges E i w0 [] w0"
| charge: "charges E i w0 xs w \<Longrightarrow> charged E i rate w = Some (u, a, b) \<Longrightarrow> charges E i w0 (xs @ [(a, b)]) (BillSandboxRuntime E i rate w)"
| uncharged: "charges E i w0 xs w \<Longrightarrow> charged E i rate w = None \<Longrightarrow> charges E i w0 xs (BillSandboxRuntime E i rate w)"
| other_change: "charges E i w0 xs w \<Longrightarrow> same_meter i w w' \<Longrightarrow> charges E i w0 xs w'"

lemma charged_row:
  assumes "charged E i rate w = Some (u, a, b)"
  obtains row d prev where "mget (cp_rows w) i = Some row" "mget (cp_details w) i = Some d" "lastBilled E d = Inr prev" "u = sd_user_id d"
    "a = bill_start d prev" "b = bill_end row d (ct_now E (cp_tick w))" "a + second \<le> b"
  using assms
  by (auto simp: charged_def Let_def second_def field_simps split: if_splits option.splits sum.splits)

lemma debit_tables [simp]:
  "cp_orch (debit u c w) = cp_orch w" "cp_details (debit u c w) = cp_details w" "cp_rows (debit u c w) = cp_rows w"
  "cp_tick (debit u c w) = cp_tick w" "cp_runs (debit u c w) = cp_runs w"
  by (auto simp: debit_def cp_rows_def split: option.splits)

lemma cp_next_tables [simp]:
  "cp_orch (cp_next w) = cp_orch w" "cp_details (cp_next w) = cp_details w" "cp_rows (cp_next w) = cp_rows w" "cp_profiles (cp_next w) = cp_profiles w"
  "cp_runs (cp_next w) = cp_runs w"
  by (simp_all add: cp_next_def cp_rows_def)

lemma put_cp_row_tables [simp]:
  "cp_rows (put_cp_row i row w) = mput i row (cp_rows w)" "cp_details (put_cp_row i row w) = cp_details w"
  "cp_profiles (put_cp_row i row w) = cp_profiles w" "cp_runs (put_cp_row i row w) = cp_runs w"
  "sv_log (cp_orch (put_cp_row i row w)) = sv_log (cp_orch w)"
  by (simp_all add: put_cp_row_def cp_rows_def set_row_def)

lemma Bill_details:
  "cp_details (BillSandboxRuntime E i rate w) =
     (case charged E i rate w of
        None \<Rightarrow> cp_details w
      | Some (u, a, b) \<Rightarrow> mput i ((the (mget (cp_details w) i))\<lparr>sd_metadata :=
            mput last_billed_key (ct_rfc3339 E b) (sd_metadata (the (mget (cp_details w) i)))\<rparr>) (cp_details w))"
  by (auto simp: BillSandboxRuntime_def update_row_def split: option.splits elim!: charged_row)

text \<open>Each interval starts where the one before it ends, up to half a microsecond either way.\<close>

fun adjoining :: "(int \<times> int) list \<Rightarrow> bool" where
  "adjoining (x # y # zs) = (\<bar>fst y - snd x\<bar> \<le> 500 \<and> adjoining (y # zs))"
| "adjoining _ = True"

lemma adjoining_snoc: "adjoining (xs @ [y]) \<longleftrightarrow> adjoining xs \<and> (xs \<noteq> [] \<longrightarrow> \<bar>fst y - snd (last xs)\<bar> \<le> 500)"
  by (induction xs rule: adjoining.induct) auto

lemma adjoining_sum:
  "xs \<noteq> [] \<Longrightarrow> adjoining xs \<Longrightarrow> \<bar>(\<Sum>(a, b)\<leftarrow>xs. b - a) - (snd (last xs) - fst (hd xs))\<bar> \<le> 500 * (int (length xs) - 1)"
proof (induction xs rule: rev_induct)
  case (snoc y xs)
  then show ?case by (cases "xs = []") (auto simp: adjoining_snoc split: prod.splits)
qed simp

definition unbilled :: "string \<Rightarrow> cp_world \<Rightarrow> bool" where
  "unbilled i w \<longleftrightarrow> (case mget (cp_details w) i of Some d \<Rightarrow> mget (sd_metadata d) last_billed_key = None | None \<Rightarrow> False)"

definition marked :: "cp_env \<Rightarrow> string \<Rightarrow> bool \<Rightarrow> (int \<times> int) list \<Rightarrow> cp_world \<Rightarrow> bool" where
  "marked E i fresh xs w \<longleftrightarrow>
     (if xs = [] then fresh \<longrightarrow> unbilled i w
      else \<exists>d. mget (cp_details w) i = Some d \<and> sd_created_at d \<le> fst (hd xs) \<and> (fresh \<longrightarrow> fst (hd xs) = sd_created_at d)
             \<and> sd_created_at d + second \<le> snd (last xs) \<and> mget (sd_metadata d) last_billed_key = Some (ct_rfc3339 E (snd (last xs))))"

lemma bill_start_late: "sd_created_at d \<le> bill_start d prev"
  by (auto simp: bill_start_def split: option.split)

lemma next_start:
  assumes "pg_times E" "marked E i fresh xs w" "xs \<noteq> []" "mget (cp_details w) i = Some d" "lastBilled E d = Inr prev"
  shows "\<bar>bill_start d prev - snd (last xs)\<bar> \<le> 500"
proof -
  obtain t where t: "ct_pg_time E (ct_rfc3339 E (snd (last xs))) = Some t" "\<bar>t - snd (last xs)\<bar> \<le> 500" "ct_rfc3339 E (snd (last xs)) \<noteq> []"
    using assms(1) by (auto simp: pg_times_def)
  have m: "sd_created_at d + second \<le> snd (last xs)" "mget (sd_metadata d) last_billed_key = Some (ct_rfc3339 E (snd (last xs)))"
    using assms(2,3,4) by (auto simp: marked_def)
  with t assms(5) have "prev = Some t" by (auto simp: lastBilled_def)
  moreover have "sd_created_at d < t" using m(1) t(2) by (simp add: second_def)
  ultimately show ?thesis using t(2) by (simp add: bill_start_def)
qed

lemma marked_charge:
  assumes m: "marked E i fresh xs w" and c: "charged E i rate w = Some (u, a, b)"
  shows "marked E i fresh (xs @ [(a, b)]) (BillSandboxRuntime E i rate w)"
proof -
  from c obtain row d prev where d: "mget (cp_details w) i = Some d" "lastBilled E d = Inr prev" "a = bill_start d prev" "a + second \<le> b"
    by (rule charged_row)
  have late: "sd_created_at d + second \<le> b" using bill_start_late[of d prev] d(3,4) by simp
  show ?thesis
  proof (cases "xs = []")
    case True
    then have "a = sd_created_at d" if fresh using m that d by (auto simp: marked_def unbilled_def lastBilled_def bill_start_def)
    then show ?thesis using True d late bill_start_late[of d prev] by (auto simp: marked_def Bill_details c)
  next
    case False
    then show ?thesis using m d(1) late by (auto simp: marked_def Bill_details c hd_append)
  qed
qed

lemma charges_adjoining:
  assumes "pg_times E" "charges E i w0 xs w"
  shows "adjoining xs \<and> marked E i (unbilled i w0) xs w"
  using assms(2)
proof (induction rule: charges.induct)
  case (charge xs w rate u a b)
  from charge(2) obtain row d prev where c: "mget (cp_details w) i = Some d" "lastBilled E d = Inr prev" "a = bill_start d prev"
    by (rule charged_row)
  have "\<bar>a - snd (last xs)\<bar> \<le> 500" if "xs \<noteq> []"
    using next_start[OF assms(1) _ that c(1,2)] charge.IH c(3) by blast
  then show ?case using marked_charge[OF _ charge(2)] charge.IH by (simp add: adjoining_snoc)
next
  case (uncharged xs w rate)
  then have "cp_details (BillSandboxRuntime E i rate w) = cp_details w" by (simp add: Bill_details)
  then have "marked E i fresh xs (BillSandboxRuntime E i rate w) = marked E i fresh xs w" for fresh by (simp add: marked_def unbilled_def)
  then show ?case using uncharged.IH by simp
next
  case (other_change xs w w')
  then show ?case by (auto simp: marked_def same_meter_def unbilled_def split: option.splits if_splits)
qed (simp add: marked_def)

text \<open>
  C5: No time of a sandbox is charged twice and none between two charges is skipped. However calls of \<open>BillSandboxRuntime\<close> and other changes of the sandbox
  alternate, as long as those leave its creation time and its billing mark alone, every charged interval starts at the
  end of the one before, up to half a microsecond either way, and so the charged time is the time from the start of the first to
  the end of the last, up to half a microsecond for every further charge. Nothing before the creation is charged, and for a
  sandbox that had not been charged yet the first interval starts at the creation. What is needed of the database is that it reads the text of a time back
  as that time, up to half a microsecond (\<open>pg_times\<close>).
\<close>

theorem no_time_is_charged_twice:
  assumes "pg_times E" "charges E i w0 xs w" "xs \<noteq> []"
  shows "adjoining xs \<and> \<bar>(\<Sum>(a, b)\<leftarrow>xs. b - a) - (snd (last xs) - fst (hd xs))\<bar> \<le> 500 * (int (length xs) - 1)
    \<and> (\<exists>d. mget (cp_details w) i = Some d \<and> sd_created_at d \<le> fst (hd xs) \<and> (unbilled i w0 \<longrightarrow> fst (hd xs) = sd_created_at d))"
  using charges_adjoining[OF assms(1,2)] adjoining_sum[OF assms(3)] assms(3) by (auto simp: marked_def)

text \<open>
  A charge debits the owner of the sandbox by the rate for the charged time, but never below zero, and no other
  account.
\<close>

theorem billing_debits_the_owner:
  assumes "charged E i rate w = Some (u, a, b)"
  shows "(\<exists>d. mget (cp_details w) i = Some d \<and> u = sd_user_id d)
    \<and> mget (cp_profiles (BillSandboxRuntime E i rate w)) v
        = (if v = u then map_option (\<lambda>c. max 0 (c - of_int (b - a) / of_int second * rate)) (mget (cp_profiles w) u) else mget (cp_profiles w) v)"
proof -
  from assms obtain row d prev where c: "mget (cp_details w) i = Some d" "u = sd_user_id d" by (rule charged_row)
  have "cp_profiles (BillSandboxRuntime E i rate w) = cp_profiles (debit u (of_int (b - a) / of_int second * rate) w)"
    by (auto simp: BillSandboxRuntime_def assms update_row_def split: option.splits)
  with c show ?thesis by (auto simp: debit_def split: option.splits)
qed

section \<open>A sample charge\<close>

lemma sample_charged: "charged sample_cp_env ''sb1'' 1 sample_cp_world = Some (''u1'', 0, 10 * second)"
proof -
  have "sd_metadata sample_details = []" "sd_created_at sample_details = 0" "sd_user_id sample_details = ''u1''" "sb_state sample_cp_row = ''active''"
    by (simp_all add: sample_details_def sample_cp_row_def)
  then show ?thesis
    by (simp add: charged_def lastBilled_def bill_start_def bill_end_def sample_cp_env_def second_def Let_def)
qed

theorem no_time_is_charged_twice_witness:
  "\<exists>w. charges sample_cp_env ''sb1'' sample_cp_world [(0, 10 * second)] w \<and> adjoining [(0, 10 * second)]"
proof -
  have c: "charges sample_cp_env ''sb1'' sample_cp_world ([] @ [(0, 10 * second)]) (BillSandboxRuntime sample_cp_env ''sb1'' 1 sample_cp_world)"
    by (rule charge[OF no_charges sample_charged])
  have n: "itoa t \<noteq> []" for t by (simp add: itoa_def)
  have "pg_times sample_cp_env" by (simp add: pg_times_def sample_cp_env_def n)
  from no_time_is_charged_twice[OF this c] c show ?thesis by auto
qed

theorem billing_debits_the_owner_witness:
  "mget (cp_profiles (BillSandboxRuntime sample_cp_env ''sb1'' 1 sample_cp_world)) ''u1'' = Some 10"
proof -
  have "mget (cp_profiles sample_cp_world) ''u1'' = Some 20" by (simp add: sample_cp_world_def)
  with conjunct2[OF billing_debits_the_owner[OF sample_charged, of "''u1''"]] show ?thesis by (simp add: second_def)
qed

end
