(* ===== verification/Tenants.thy ===== *)
theory Tenants
  imports Session_API Billing
begin

text \<open>
  Tenant isolation of the public API on the control plane's own service: a request changes only the sandboxes of the
  tenant that made it. The interface of \<open>Session_API\<close> is met by \<open>controlplane.Service\<close> and \<open>platform.Client\<close>
  down to the orchestrator's transactions and the calls it makes to workers.
\<close>

section \<open>Calls on one sandbox leave the others alone\<close>

lemma run_tx_other:
  "(\<And>x d'. r = Inr (x, d') \<Longrightarrow> mget (sandboxes d') j = mget (sandboxes d) j) \<Longrightarrow> mget (sandboxes (snd (run_tx d r))) j = mget (sandboxes d) j"
  "(\<And>d'. q = Inr d' \<Longrightarrow> mget (sandboxes d') j = mget (sandboxes d) j) \<Longrightarrow> mget (sandboxes (snd (run_tx_err d q))) j = mget (sandboxes d) j"
  by (auto simp: run_tx_def run_tx_err_def split: sum.splits)

lemma store_other:
  assumes "k \<noteq> j"
  shows "mget (sandboxes (snd (ReservePlacement E k req pol t d))) j = mget (sandboxes d) j"
    and "mget (sandboxes (snd (GetPlacement E k d))) j = mget (sandboxes d) j"
    and "mget (sandboxes (snd (UpdatePlacementState E k v fs f d))) j = mget (sandboxes d) j"
    and "mget (sandboxes (snd (PausePlacement E k v d))) j = mget (sandboxes d) j"
    and "mget (sandboxes (snd (ReserveResume_placement E k v pol t d))) j = mget (sandboxes d) j"
    and "mget (sandboxes (snd (CancelResume E k v d))) j = mget (sandboxes d) j"
    and "mget (sandboxes (snd (ReleasePlacement E k f d))) j = mget (sandboxes d) j"
  unfolding ReservePlacement_def GetPlacement_def UpdatePlacementState_def PausePlacement_def ReserveResume_placement_def CancelResume_def
    ReleasePlacement_def release_placement_def existing_placement_def
  by (rule run_tx_other; use assms in \<open>auto simp: ebind_iffs Let_def set_row_def split: option.splits if_splits\<close>)+

definition concerns :: "string \<Rightarrow> worker_call \<Rightarrow> bool" where
  "concerns j c = (case c of WCreate ep q \<Rightarrow> SandboxID q = j | WPause ep k \<Rightarrow> k = j | WResume ep k \<Rightarrow> k = j | WDestroy ep k \<Rightarrow> k = j)"

text \<open>The row of a sandbox and the worker calls about it.\<close>

definition traces :: "string \<Rightarrow> db world \<Rightarrow> sandbox_row option \<times> worker_call list" where
  "traces j w = (mget (sandboxes (sv_store w)) j, filter (concerns j) (sv_log w))"

lemma call_traces:
  "\<not> concerns j c \<Longrightarrow> traces j (snd (call_worker c a w)) = traces j w"
  "(\<And>d. mget (sandboxes (snd (f d))) j = mget (sandboxes d) j) \<Longrightarrow> traces j (snd (call_store f w)) = traces j w"
  by (auto simp: traces_def call_worker_def call_store_def split_beta Let_def)

lemma place_loop_traces:
  "k \<noteq> j \<Longrightarrow> traces j (snd (place_loop (Client_Store E) V pol k req t a n w)) = traces j w"
proof (induction n arbitrary: a w)
  case (Suc n)
  then show ?case
    by (auto simp: split_beta Let_def store_other traces_def split: sum.splits option.splits)
qed simp

lemma svc_traces:
  assumes "k \<noteq> j"
  shows "trim_space k = k \<Longrightarrow> traces j (snd (svc_Place (Client_Store E) V S k req w)) = traces j w"
    and "traces j (snd (svc_Placement (Client_Store E) k w)) = traces j w"
    and "traces j (snd (svc_Pause (Client_Store E) V S k w)) = traces j w"
    and "traces j (snd (svc_Resume (Client_Store E) V S k w)) = traces j w"
    and "traces j (snd (svc_Destroy (Client_Store E) V S k w)) = traces j w"
proof -
  have P: "traces j (snd (svc_Placement (Client_Store E) k w)) = traces j w" for w
    using assms by (auto simp: svc_Placement_def split_beta Let_def traces_def store_other)
  have D: "traces j (snd (destroy_on_worker (Client_Store E) V k pl w)) = traces j w" for pl w
    using assms by (auto simp: destroy_on_worker_def split_beta Let_def call_traces store_other concerns_def split: option.splits)
  note C = P D call_traces store_other[OF assms]
  show "trim_space k = k \<Longrightarrow> traces j (snd (svc_Place (Client_Store E) V S k req w)) = traces j w"
    using assms by (auto simp: svc_Place_def Let_def place_loop_traces split: sum.splits)
  show "traces j (snd (svc_Placement (Client_Store E) k w)) = traces j w" by (rule P)
  show "traces j (snd (svc_Pause (Client_Store E) V S k w)) = traces j w"
    using assms by (auto simp: svc_Pause_def split_beta Let_def C concerns_def split: sum.splits option.splits)
  show "traces j (snd (svc_Resume (Client_Store E) V S k w)) = traces j w"
    using assms by (auto simp: svc_Resume_def split_beta Let_def C concerns_def split: sum.splits option.splits)
  show "traces j (snd (svc_Destroy (Client_Store E) V S k w)) = traces j w"
    using assms by (auto simp: svc_Destroy_def split_beta Let_def C concerns_def split: sum.splits option.splits)
qed

lemma provision_traces:
  assumes "k \<noteq> j" "trim_space k = k" "SandboxID (prov_Create req) = k"
  shows "traces j (snd (provision_call H req w)) = traces j w"
proof -
  have once: "traces j (snd (provision_once (Client_Store E) V S k req ex w)) = traces j w" if "SandboxID (prov_Create req) = k" for E V S req ex w
    using assms(1,2) that
    by (auto simp: provision_once_def split_beta Let_def svc_traces call_traces store_other concerns_def split: sum.splits option.splits)
  have finish: "traces j (snd (provision_finish (Client_Store E) k pl resp w)) = traces j w" for E pl resp w
    using assms(1) by (auto simp: provision_finish_def split_beta Let_def call_traces store_other split: option.splits)
  have loop: "provision_loop (Client_Store E) V S k req n ex w = Some (r, w') \<Longrightarrow> traces j w' = traces j w"
    if "SandboxID (prov_Create req) = k" for E V S req n ex w r w'
  proof (induction n arbitrary: ex w)
    case (Suc n)
    obtain x w1 where x: "provision_once (Client_Store E) V S k req ex w = (x, w1)" by fastforce
    have h: "traces j w1 = traces j w" using once[OF that, of E V S ex w] x by simp
    show ?case
    proof (cases x)
      case (Created pl resp)
      then have "provision_finish (Client_Store E) k pl resp w1 = (r, w')" using Suc.prems x by simp
      with finish[of E pl resp w1] h show ?thesis by simp
    qed (use Suc x h in auto)
  qed simp
  have "traces j w' = traces j w" if "svc_Provision (hs_store H) V S n req w = Some (r, w')" for V S n r w'
    using that assms(2,3)
    by (auto simp: svc_Provision_def Let_def simp del: provision_loop.simps split: if_splits sum.splits intro!: loop[rotated])
  then show ?thesis by (auto simp: provision_call_def simp del: provision_loop.simps split: option.splits)
qed

section \<open>Calls through the client\<close>

definition safe_id :: "string \<Rightarrow> bool" where
  "safe_id i \<longleftrightarrow> i \<noteq> [] \<and> list_all (\<lambda>c. alnum c \<or> c = CHR ''-'') i"

definition url_char :: "char \<Rightarrow> bool" where
  "url_char c \<longleftrightarrow> alnum c \<or> c = CHR ''-'' \<or> c = slash"

definition url_ok :: "client_env \<Rightarrow> orch_client \<Rightarrow> bool" where
  "url_ok X c \<longleftrightarrow> (\<forall>p t. list_all url_char p \<longrightarrow> ce_url X (oc_base c @ p) = Inr t \<longrightarrow> t = p)"

text \<open>The text of a request, or a beginning of it, is not read as another request.\<close>

definition provision_json_ok :: "orch_json \<Rightarrow> bool" where
  "provision_json_ok J \<longleftrightarrow> (\<forall>req n v. cd_Unmarshal (oj_provision J) (take n (cd_Marshal (oj_provision J) req)) = Inr v \<longrightarrow> v = req)"

lemma safe_id_plain: "safe_id i \<Longrightarrow> plain i \<and> trim_space i = i \<and> list_all url_char i"
proof -
  assume s: "safe_id i"
  have l: "\<not> alnum slash" "\<not> alnum (CHR ''.'')" "is_space c \<Longrightarrow> \<not> alnum c" for c
    by (simp_all add: alnum_def slash_def) (auto simp: is_space_def alnum_def)
  have c: "alnum c \<or> c = CHR ''-'' \<Longrightarrow> c \<noteq> slash \<and> c \<noteq> CHR ''.'' \<and> \<not> is_space c" for c
    using l by (auto simp: slash_def is_space_def)
  with s have "trim_space i = i" by (intro trim_space_id) (auto simp: safe_id_def list_all_iff)
  moreover have "plain i"
  proof -
    have x: "x \<noteq> slash \<and> x \<noteq> CHR ''.''" if "x \<in> set i" for x using s c[of x] that by (simp add: safe_id_def list_all_iff)
    have "slash \<notin> set i" using x[of slash] by blast
    moreover have "i \<noteq> CHR ''.'' # r" for r using x[of "CHR ''.''"] by (metis list.set_intros(1))
    ultimately show ?thesis using s by (simp add: plain_def safe_id_def)
  qed
  ultimately show ?thesis using s by (auto simp: safe_id_def url_char_def list_all_iff)
qed

lemma client_do_world:
  assumes "url_ok X c" "list_all url_char p"
  shows "snd (client_do X c n verb p body w) \<in> {w,
     snd (orch_mux (ce_json X) (ce_server X) \<lparr>oq_Method = verb, oq_Path = p, oq_Token = oc_token c, oq_RequestID = [], oq_Body = body\<rparr> w)}"
proof (cases "ce_url X (oc_base c @ p)")
  case (Inr t)
  with assms have "t = p" by (auto simp: url_ok_def)
  with Inr show ?thesis
    by (auto simp: client_do_def orch_serve_def Let_def split_beta split: net_event.splits)
qed (simp add: client_do_def)

lemma client_do_keeps:
  assumes "url_ok X c" "list_all url_char p"
    and "traces j (snd (orch_mux (ce_json X) (ce_server X) \<lparr>oq_Method = verb, oq_Path = p, oq_Token = oc_token c, oq_RequestID = [], oq_Body = body\<rparr> w)) = traces j w"
  shows "traces j (snd (client_do X c n verb p body w)) = traces j w"
  using client_do_world[OF assms(1,2), of n verb body w] assms(3) by auto

lemma client_snd [simp]:
  "snd (client_call X c n verb p body w) = snd (client_do X c n verb p body w)"
  "snd (client_placement X c n verb p body w) = snd (client_do X c n verb p body w)"
  by (auto simp: client_call_def client_placement_def split: prod.splits sum.splits)

lemma authed_traces: "traces j (snd (h r w)) = traces j w \<Longrightarrow> traces j (snd (orch_authed J token h r w)) = traces j w"
  by (simp add: orch_authed_def)

lemma client_traces:
  assumes X: "url_ok X c" and k: "safe_id k" "k \<noteq> j"
  shows "traces j (snd (oc_Pause X c n k w)) = traces j w"
    and "traces j (snd (oc_Resume X c n k w)) = traces j w"
    and "traces j (snd (oc_Destroy X c n k w)) = traces j w"
    and "traces j (snd (oc_Placement X c n k w)) = traces j w"
proof -
  note P = safe_id_plain[OF k(1)]
  have lits: "list_all url_char ''/internal/sandboxes/''" "list_all url_char ''/internal/placements/''" "list_all url_char ''/pause''" "list_all url_char ''/resume''"
    by (simp_all add: url_char_def alnum_def slash_def)
  note mux = mux_lifecycle[OF conjunct1[OF P]]
  note T = svc_traces[OF k(2)]
  have get: "traces j (snd (orch_getPlacement J H k w)) = traces j w" for J H w
    using T(2) by (auto simp: orch_getPlacement_def split_beta split: sum.splits option.splits)
  show "traces j (snd (oc_Pause X c n k w)) = traces j w"
    unfolding oc_Pause_def client_snd
    by (rule client_do_keeps[OF X]) (use P lits in \<open>simp_all add: list_all_append mux(1) orch_pause_def T authed_traces del: append_Cons append.simps\<close>)
  show "traces j (snd (oc_Resume X c n k w)) = traces j w"
    unfolding oc_Resume_def client_snd
    by (rule client_do_keeps[OF X]) (use P lits in \<open>simp_all add: list_all_append mux(2) orch_resume_def T authed_traces del: append_Cons append.simps\<close>)
  show "traces j (snd (oc_Destroy X c n k w)) = traces j w"
    unfolding oc_Destroy_def client_snd
    by (rule client_do_keeps[OF X]) (use P lits in \<open>simp_all add: list_all_append mux(3) orch_destroy_def T authed_traces del: append_Cons append.simps\<close>)
  show "traces j (snd (oc_Placement X c n k w)) = traces j w"
    unfolding oc_Placement_def client_snd
    by (rule client_do_keeps[OF X]) (use P lits in \<open>simp_all add: list_all_append mux(4) get authed_traces del: append_Cons append.simps\<close>)
qed

lemma client_provision_traces:
  assumes X: "url_ok X c" "provision_json_ok (ce_json X)" and k: "safe_id k" "k \<noteq> j" "SandboxID (prov_Create req) = k"
  shows "traces j (snd (oc_Provision X c n req w)) = traces j w"
proof -
  have p: "list_all url_char ''/internal/sandboxes''" by (simp add: url_char_def alnum_def slash_def)
  have body: "traces j (snd (orch_provision (ce_json X) (ce_server X) r w)) = traces j w"
    if "oq_Body r = Some (cd_Marshal (oj_provision (ce_json X)) req)" for r
  proof -
    have "v = req" if "decodeHTTPJSON (ce_json X) (oj_provision (ce_json X)) r = Inr v" for v
      using X(2) that \<open>oq_Body r = _\<close> by (auto simp: decodeHTTPJSON_def provision_json_ok_def split: sum.splits)
    moreover have "traces j (snd (provision_call (ce_server X) req w)) = traces j w"
      using safe_id_plain[OF k(1)] k by (intro provision_traces) auto
    ultimately show ?thesis
      by (auto simp: orch_provision_def with_body_def split_beta split: sum.splits)
  qed
  show ?thesis
    unfolding oc_Provision_def client_snd
    by (rule client_do_keeps[OF X(1) p])
      (auto simp: mux_lifecycle(5)[OF conjunct1[OF safe_id_plain[OF k(1)]]] intro!: authed_traces body)
qed

section \<open>The control plane as the service of the API\<close>

definition control_plane_service :: "cp_env \<Rightarrow> cp_Service \<Rightarrow> cp_world plane_service" where
  "control_plane_service E S = \<lparr>ps_Create = cp_Create E, ps_Execute = cp_Execute E S, ps_Exec = cp_Exec E S, ps_Pause = cp_Pause E,
     ps_Resume = cp_Resume E, ps_Destroy = cp_Destroy E, ps_GetSession = cp_GetSession E\<rparr>"

definition platform_client :: "cp_env \<Rightarrow> cp_world usage_logger" where
  "platform_client E = \<lparr>ul_UpdateSandboxDetails = UpdateSandboxDetails E, ul_BillSandboxRuntime = BillSandboxRuntime E,
     ul_ListSandboxes = ListSandboxes E\<rparr>"

definition run_concerns :: "string \<Rightarrow> run_call \<Rightarrow> bool" where
  "run_concerns j c = (case c of RunCall ep i q \<Rightarrow> i = j | ExecCall ep i q \<Rightarrow> i = j)"

text \<open>Everything there is about a sandbox: its row and the calls to workers about it, its details and its runs.\<close>

definition cp_look :: "cp_world \<Rightarrow> string \<Rightarrow> (string \<times> (sandbox_row option \<times> worker_call list) \<times> sandbox_details \<times> run_call list) option" where
  "cp_look w j = map_option (\<lambda>d. (sd_user_id d, traces j (cp_orch w), d, filter (run_concerns j) (cp_runs w))) (mget (cp_details w) j)"

definition cp_env_ok :: "cp_env \<Rightarrow> bool" where
  "cp_env_ok E \<longleftrightarrow> url_ok (ct_orch E) (ct_client E) \<and> provision_json_ok (ce_json (ct_orch E)) \<and> (\<forall>n. safe_id (ct_uuid E n))"

definition cp_good :: "cp_env \<Rightarrow> cp_world \<Rightarrow> bool" where
  "cp_good E w \<longleftrightarrow> cp_env_ok E \<and> mwf (cp_details w) \<and> (\<forall>i. mget (cp_details w) i \<noteq> None \<longrightarrow> safe_id i)"

abbreviation (input) balance :: "cp_world \<Rightarrow> string \<Rightarrow> rat option" where
  "balance w u \<equiv> mget (cp_profiles w) u"

text \<open>A step about the sandbox \<open>i\<close> alone.\<close>

definition about :: "string \<Rightarrow> cp_world \<Rightarrow> cp_world \<Rightarrow> bool" where
  "about i w w' \<longleftrightarrow> cp_profiles w' = cp_profiles w \<and> (mwf (cp_details w) \<longrightarrow> mwf (cp_details w')) \<and> map_option sd_user_id (mget (cp_details w') i) = map_option sd_user_id (mget (cp_details w) i)
     \<and> (\<forall>j. j \<noteq> i \<longrightarrow> traces j (cp_orch w') = traces j (cp_orch w) \<and> mget (cp_details w') j = mget (cp_details w) j
          \<and> filter (run_concerns j) (cp_runs w') = filter (run_concerns j) (cp_runs w))"

lemma about_refl [simp]: "about i w w"
  by (simp add: about_def)

lemma about_trans: "about i w w1 \<Longrightarrow> about i w1 w2 \<Longrightarrow> about i w w2"
  by (simp add: about_def)

lemma about_next [simp]: "about i w (cp_next w') \<longleftrightarrow> about i w w'"
  by (simp add: about_def)

lemma owned_cp_look: "owned cp_look w i = map_option sd_user_id (mget (cp_details w) i)"
  by (cases "mget (cp_details w) i") (simp_all add: owned_def cp_look_def)

lemma about_touches:
  assumes "about i w w'" "cp_good E w"
  shows "touches (cp_good E) cp_look balance {i} {} w w'"
proof -
  have "mget (cp_details w') j \<noteq> None \<longleftrightarrow> mget (cp_details w) j \<noteq> None" for j
    using assms(1) by (cases "j = i") (auto simp: about_def dest: arg_cong[where f = "\<lambda>x. x = None"])
  then have "cp_good E w'" using assms by (simp add: cp_good_def about_def)
  moreover have "owned cp_look w' j = owned cp_look w j" for j
    using assms(1) by (cases "j = i") (simp_all add: about_def owned_cp_look)
  ultimately show ?thesis using assms(1) by (simp add: touches_def about_def cp_look_def)
qed

lemma about_any_touches: "(\<And>i. about i w w') \<Longrightarrow> cp_good E w \<Longrightarrow> touches (cp_good E) cp_look balance {} {} w w'"
proof -
  assume a: "\<And>i. about i w w'" and g: "cp_good E w"
  have "cp_look w' j = cp_look w j" for j using a[of "j @ ''x''"] by (simp add: about_def cp_look_def)
  with about_touches[OF a g, of "[]"] show ?thesis by (simp add: touches_def)
qed

lemma put_cp_row_traces: "j \<noteq> i \<Longrightarrow> traces j (cp_orch (put_cp_row i row w)) = traces j (cp_orch w)"
  by (simp add: traces_def put_cp_row_def set_row_def)

lemma about_update_row: "(\<And>d. sd_user_id (g d) = sd_user_id d) \<Longrightarrow> about i w (update_row i f g w)"
  by (auto simp: update_row_def about_def put_cp_row_traces split: option.splits)

lemma about_TouchSandbox: "about i w (TouchSandbox E i w)"
  by (auto simp: TouchSandbox_def Let_def intro!: about_update_row split: option.splits)

lemma about_UpdateSandboxDetails: "about i w (snd (UpdateSandboxDetails E i key name md w))"
  by (auto simp: UpdateSandboxDetails_def intro!: about_update_row split: option.splits)

lemma about_GetSandbox: "about i w (snd (GetSandbox E k w))"
  by (auto simp: GetSandbox_def split: option.splits)

lemma about_ListSandboxes: "about i w (snd (ListSandboxes E u w))"
  by (auto simp: ListSandboxes_def Let_def split: option.splits)

lemma about_GetSession: "about i w (snd (cp_GetSession E k w))"
  using about_GetSandbox[of i w E k]
  by (auto simp: cp_GetSession_def Let_def split: prod.splits sum.splits option.splits)

lemma about_on_orch:
  "(\<And>j. j \<noteq> i \<Longrightarrow> traces j (snd (f (cp_tick w) (cp_orch w))) = traces j (cp_orch w)) \<Longrightarrow> about i w (snd (on_orch E f w))"
  by (auto simp: on_orch_def about_def split: prod.splits)

lemma about_lifecycle:
  assumes "cp_env_ok E" "safe_id i"
  shows "about i w (snd (cp_Pause E i w))" "about i w (snd (cp_Resume E i w))" "about i w (snd (cp_Destroy E i w))"
    and "about i w (snd (cp_worker E i w))"
proof -
  note T = client_traces[OF _ assms(2)]
  have u: "url_ok (ct_orch E) (ct_client E)" using assms(1) by (simp add: cp_env_ok_def)
  show "about i w (snd (cp_Pause E i w))" "about i w (snd (cp_Resume E i w))" "about i w (snd (cp_Destroy E i w))"
    unfolding cp_Pause_def cp_Resume_def cp_Destroy_def by (rule about_on_orch; simp add: T[OF u])+
  have "about i w (snd (on_orch E (\<lambda>n. oc_Placement (ct_orch E) (ct_client E) n i) w))" by (rule about_on_orch) (simp add: T[OF u])
  then show "about i w (snd (cp_worker E i w))"
    by (auto simp: cp_worker_def split_beta split: sum.splits)
qed

lemma about_settle:
  assumes "cp_env_ok E" "safe_id i"
  shows "about i w (snd (cp_settle E i res w))"
proof -
  have "about i w (snd (cp_reconcile E i err w))" for err
    using about_TouchSandbox[of i w E] about_lifecycle(3)[OF assms, of w] by (auto simp: cp_reconcile_def cp_Destroy_def split: option.splits)
  then show ?thesis by (simp add: cp_settle_def split_beta split: option.splits)
qed

lemma about_run: "run_concerns i c \<Longrightarrow> about i w (w\<lparr>cp_runs := cp_runs w @ [c]\<rparr>)"
  by (auto simp: about_def run_concerns_def split: run_call.splits)

lemma about_Execute:
  assumes "cp_env_ok E" "safe_id i"
  shows "about i w (snd (cp_Execute E S i code lang t w))" "about i w (snd (cp_Exec E S i cmd t w))"
proof -
  obtain res w1 where k: "cp_worker E i w = (res, w1)" by fastforce
  have a: "about i w w1" using about_lifecycle(4)[OF assms, of w] k by simp
  have b: "about i w (snd (cp_settle E i x (cp_next (w1\<lparr>cp_runs := cp_runs w1 @ [c]\<rparr>))))" if "run_concerns i c" for x c
  proof -
    have "about i w1 (cp_next (w1\<lparr>cp_runs := cp_runs w1 @ [c]\<rparr>))" using about_run[OF that] by simp
    from about_trans[OF about_trans[OF a this] about_settle[OF assms]] show ?thesis .
  qed
  show "about i w (snd (cp_Execute E S i code lang t w))" "about i w (snd (cp_Exec E S i cmd t w))"
    using a by (auto simp: cp_Execute_def cp_Exec_def k Let_def run_concerns_def intro!: b split: sum.splits)
qed

lemma Insert_effect:
  assumes "InsertSandbox E i row d w = (err, w')"
  shows "(err \<noteq> None \<and> (\<forall>k. about k w w')) \<or> (err = None \<and> mget (cp_details w) i = None \<and> cp_profiles w' = cp_profiles w \<and> (mwf (cp_details w) \<longrightarrow> mwf (cp_details w'))
     \<and> map_option sd_user_id (mget (cp_details w') i) = Some (sd_user_id d)
     \<and> (\<forall>j. j \<noteq> i \<longrightarrow> traces j (cp_orch w') = traces j (cp_orch w) \<and> mget (cp_details w') j = mget (cp_details w) j)
     \<and> cp_runs w' = cp_runs w)"
  using assms by (auto simp: InsertSandbox_def Let_def put_cp_row_traces split: option.splits if_splits)

lemma cp_Create_effect:
  assumes "cp_env_ok E" "cp_Create E a w = (res, w')"
  obtains (failed) "\<And>k. about k w w'" "\<And>info. res \<noteq> Inr info"
  | (inserted) i where "safe_id i" "mget (cp_details w) i = None" "cp_profiles w' = cp_profiles w"
      "map_option sd_user_id (mget (cp_details w') i) = Some (ca_UserID a)"
      "\<And>j. j \<noteq> i \<Longrightarrow> cp_look w' j = cp_look w j" "\<And>info. res = Inr info \<Longrightarrow> si_ID info = i"
      "mwf (cp_details w) \<Longrightarrow> mwf (cp_details w')"
proof (cases "Normalize (ca_Image a)")
  case (Inl e)
  with assms(2) failed show ?thesis by (auto simp: cp_Create_def)
next
  case (Inr img)
  let ?i = "ct_uuid E (cp_tick w)"
  have sid: "safe_id ?i" and u: "url_ok (ct_orch E) (ct_client E)" "provision_json_ok (ce_json (ct_orch E))"
    using assms(1) by (simp_all add: cp_env_ok_def)
  obtain err w1 where ins: "InsertSandbox E ?i (scheduling_row a img) (scheduling_details a) (cp_next w) = (err, w1)" by fastforce
  show ?thesis
  proof (cases err)
    case (Some e)
    with Insert_effect[OF ins] have "about k (cp_next w) w1" for k by blast
    then have "about k w w1" for k by (simp add: about_def)
    with failed assms(2) Inr ins Some show ?thesis by (auto simp: cp_Create_def Let_def)
  next
    case None
    obtain r w2 where p: "on_orch E (\<lambda>n. oc_Provision (ct_orch E) (ct_client E) n (cp_provision a ?i img)) w1 = (r, w2)" by fastforce
    have b: "about ?i w1 w2"
      using about_on_orch[of ?i "\<lambda>n. oc_Provision (ct_orch E) (ct_client E) n (cp_provision a ?i img)" w1 E] p
        client_provision_traces[OF u sid, of _ "cp_provision a ?i img"] by (simp add: cp_provision_def)
    have w': "w' = w2 \<or> w' = cp_next w2" and r: "\<And>info. res = Inr info \<Longrightarrow> si_ID info = ?i"
      using assms(2) Inr ins None p by (auto simp: cp_Create_def Let_def split: sum.splits)
    from w' have w'2: "cp_profiles w' = cp_profiles w2" "cp_details w' = cp_details w2" "cp_orch w' = cp_orch w2" "cp_runs w' = cp_runs w2" by auto
    note I = Insert_effect[OF ins, unfolded None, simplified]
    show ?thesis
    proof (rule inserted[OF sid _ _ _ _ r])
      show "mget (cp_details w) ?i = None" "cp_profiles w' = cp_profiles w" "map_option sd_user_id (mget (cp_details w') ?i) = Some (ca_UserID a)"
        using I b w'2 by (auto simp: about_def scheduling_details_def)
      show "cp_look w' j = cp_look w j" if "j \<noteq> ?i" for j
        using I b w'2 that by (simp add: about_def cp_look_def)
      show "mwf (cp_details w')" if "mwf (cp_details w)" using I b w'2 that by (simp add: about_def)
    qed
  qed
qed

lemma listed_details:
  assumes "fst (ListSandboxes E u w) = Inr items" "x \<in> set items"
  shows "\<exists>d. (fst x, d) \<in> set (cp_details w) \<and> sd_user_id d = u"
proof -
  have "fst y \<in> {i. \<exists>d. (i, d) \<in> set D \<and> sd_user_id d = u}"
    if "y \<in> set (List.map_filter (\<lambda>(i, d). case mget (cp_rows w) i of
        None \<Rightarrow> None
      | Some row \<Rightarrow> if sd_user_id d = u \<and> sb_state row \<noteq> ''destroyed'' then Some (i, row, d) else None) D)" for y D
    using that by (induction D) (auto simp: List.map_filter_simps split: option.splits if_splits)
  then show ?thesis using assms by (cases x) (auto simp: ListSandboxes_def Let_def split: option.splits)
qed

interpretation cp: tenant_service "control_plane_service E S" "platform_client E" "cp_good E" cp_look balance for E S
proof
  fix w i info
  assume g: "cp_good E w"
  then have E: "cp_env_ok E" by (simp add: cp_good_def)
  show "touches (cp_good E) cp_look balance {} {} w (snd (ps_GetSession (control_plane_service E S) i w))"
    using about_any_touches[OF about_GetSession g] by (simp add: control_plane_service_def)
  show "touches (cp_good E) cp_look balance {} {} w (snd (ul_ListSandboxes (platform_client E) u w))" for u
    using about_any_touches[OF about_ListSandboxes g] by (simp add: platform_client_def)
  show "owned cp_look w i = Some (si_UserID info)" if "fst (ps_GetSession (control_plane_service E S) i w) = Some info"
    using that by (auto simp: control_plane_service_def cp_GetSession_def GetSandbox_def owned_cp_look Let_def split: option.splits if_splits)
  show "touches (cp_good E) cp_look balance {i. owned cp_look w i = None} {} w (snd (ps_Create (control_plane_service E S) a w))" for a
  proof -
    obtain res w' where c: "cp_Create E a w = (res, w')" by fastforce
    have "touches (cp_good E) cp_look balance {i. owned cp_look w i = None} {} w w'"
      using E c
    proof (cases rule: cp_Create_effect)
      case failed
      from touches_mono[OF about_any_touches[OF failed(1) g]] show ?thesis by blast
    next
      case (inserted i)
      have eq: "mget (cp_details w') j = mget (cp_details w) j" if "j \<noteq> i" for j
        using inserted(5)[OF that] by (cases "mget (cp_details w) j"; cases "mget (cp_details w') j") (auto simp: cp_look_def)
      have "safe_id j" if "mget (cp_details w') j \<noteq> None" for j
        using g inserted(1) eq[of j] that by (cases "j = i") (auto simp: cp_good_def)
      then have good: "cp_good E w'" using g inserted(7) by (auto simp: cp_good_def)
      have o: "owned cp_look w i = None" using inserted(2) by (simp add: owned_cp_look)
      have keep: "cp_look w' j = cp_look w j" if "owned cp_look w j \<noteq> None" for j
        using inserted(5)[of j] o that by (cases "j = i") auto
      then have "owned cp_look w' j = owned cp_look w j" if "owned cp_look w j \<noteq> None" for j using that by (simp add: owned_def)
      with good keep inserted(3) show ?thesis by (auto simp: touches_def)
    qed
    with c show ?thesis by (simp add: control_plane_service_def)
  qed
  show "owned cp_look w (si_ID info) = None \<and> owned cp_look w' (si_ID info) = Some (ca_UserID a)"
    if "ps_Create (control_plane_service E S) a w = (Inr info, w')" for a w'
  proof -
    have "cp_Create E a w = (Inr info, w')" using that by (simp add: control_plane_service_def)
    from E this show ?thesis by (cases rule: cp_Create_effect) (auto simp: owned_cp_look)
  qed
  show "owned cp_look w (fst x) = Some u" if l: "fst (ul_ListSandboxes (platform_client E) u w) = Inr items" and x: "x \<in> set items" for u items x
  proof -
    have "\<exists>d. (fst x, d) \<in> set (cp_details w) \<and> sd_user_id d = u" using listed_details[OF l[unfolded platform_client_def, simplified] x] .
    with g show ?thesis by (auto simp: cp_good_def owned_cp_look mget_eq_Some_iff[symmetric])
  qed
  assume "owned cp_look w i \<noteq> None"
  then have i: "safe_id i" using g by (auto simp: cp_good_def owned_cp_look)
  note A = about_lifecycle[OF E i] about_Execute[OF E i] about_UpdateSandboxDetails
  show "touches (cp_good E) cp_look balance {i} {} w (snd (ps_Execute (control_plane_service E S) i code language timeout w))"
    "touches (cp_good E) cp_look balance {i} {} w (snd (ps_Exec (control_plane_service E S) i command timeout w))"
    "touches (cp_good E) cp_look balance {i} {} w (snd (ps_Pause (control_plane_service E S) i w))"
    "touches (cp_good E) cp_look balance {i} {} w (snd (ps_Resume (control_plane_service E S) i w))"
    "touches (cp_good E) cp_look balance {i} {} w (snd (ps_Destroy (control_plane_service E S) i w))"
    "touches (cp_good E) cp_look balance {i} {} w (snd (ul_UpdateSandboxDetails (platform_client E) i key name md w))"
    for code language timeout command key name md
    using about_touches[OF _ g] A by (simp_all add: control_plane_service_def platform_client_def)
next
  fix w i u rate
  assume g: "cp_good E w" and o: "owned cp_look w i = Some u"
  show "touches (cp_good E) cp_look balance {i} {u} w (ul_BillSandboxRuntime (platform_client E) i rate w)"
  proof (cases "charged E i rate w")
    case None
    then have "about k w (BillSandboxRuntime E i rate w)" for k by (simp add: BillSandboxRuntime_def)
    from touches_mono[OF about_any_touches[OF this g]] show ?thesis by (simp add: platform_client_def)
  next
    case (Some p)
    then obtain a b where c: "charged E i rate w = Some (u, a, b)"
      using o by (cases p) (auto simp: owned_cp_look elim!: charged_row)
    let ?d = "debit u (of_int (b - a) / of_int second * rate) w"
    have "about i ?d (BillSandboxRuntime E i rate w)"
      by (simp add: BillSandboxRuntime_def c) (rule about_update_row, simp)
    moreover have "cp_good E ?d" "touches (cp_good E) cp_look balance {} {u} w ?d"
      using g by (auto simp: touches_def cp_good_def cp_look_def owned_cp_look debit_def split: option.splits)
    ultimately show ?thesis
      using touches_trans[OF _ about_touches[of i ?d _ E]] by (auto simp: platform_client_def dest: touches_trans)
  qed
qed

section \<open>The public API on the control plane\<close>

lemma handler_look:
  assumes "cp_good E w" "aq_Auth r = Some auth"
    and "SessionHandler (control_plane_service E S) (platform_client E) A r w = ((reply, jobs), w')"
    and "mget (cp_details w) j = Some d" "sd_user_id d \<noteq> au_TenantID auth"
  shows "cp_look w' j = cp_look w j"
proof -
  note C = cp.handler_confined[OF assms(1,2), of S A, unfolded assms(3) cp.confined_def touches_def fst_conv snd_conv]
  have "j \<notin> {j. owned cp_look w j \<in> {None, Some (au_TenantID auth)}}" using assms(4,5) by (simp add: owned_cp_look)
  with C show ?thesis by blast
qed

text \<open>
  C2: whatever request an authenticated tenant sends to the API, a sandbox of another tenant keeps its row, its details, the calls
  made to workers about it and its runs; the balance of every other user stays; and every job the handler starts is for the
  tenant and a sandbox of the tenant. The invariant the handlers rely on is kept, so this holds of any sequence of requests.
\<close>

theorem tenants_are_isolated:
  assumes "cp_good E w" "aq_Auth r = Some auth"
    and "SessionHandler (control_plane_service E S) (platform_client E) A r w = ((reply, jobs), w')"
    and "mget (cp_details w) j = Some d" "sd_user_id d \<noteq> au_TenantID auth"
  shows "mget (cp_rows w') j = mget (cp_rows w) j \<and> mget (cp_details w') j = Some d
    \<and> filter (concerns j) (sv_log (cp_orch w')) = filter (concerns j) (sv_log (cp_orch w))
    \<and> filter (run_concerns j) (cp_runs w') = filter (run_concerns j) (cp_runs w)
    \<and> (\<forall>u. u \<noteq> au_TenantID auth \<longrightarrow> mget (cp_profiles w') u = mget (cp_profiles w) u)
    \<and> list_all (job_for (\<lambda>i. map_option sd_user_id (mget (cp_details w') i)) (au_TenantID auth)) jobs
    \<and> cp_good E w'"
proof (intro conjI)
  note C = cp.handler_confined[OF assms(1,2), of S A, unfolded assms(3) cp.confined_def touches_def fst_conv snd_conv]
  note look = handler_look[OF assms]
  with assms(4) have d: "mget (cp_details w') j = Some d" by (auto simp: cp_look_def)
  with look assms(4) show "mget (cp_rows w') j = mget (cp_rows w) j" "mget (cp_details w') j = Some d"
    "filter (concerns j) (sv_log (cp_orch w')) = filter (concerns j) (sv_log (cp_orch w))"
    "filter (run_concerns j) (cp_runs w') = filter (run_concerns j) (cp_runs w)"
    by (simp_all add: cp_look_def traces_def cp_rows_def)
  show "\<forall>u. u \<noteq> au_TenantID auth \<longrightarrow> mget (cp_profiles w') u = mget (cp_profiles w) u" "cp_good E w'" using C by auto
  have "owned cp_look w' = (\<lambda>i. map_option sd_user_id (mget (cp_details w') i))" by (rule ext) (rule owned_cp_look)
  with C show "list_all (job_for (\<lambda>i. map_option sd_user_id (mget (cp_details w') i)) (au_TenantID auth)) jobs" by simp
qed

text \<open>The requests of the API that name a sandbox.\<close>

definition addresses :: "api_request \<Rightarrow> string \<Rightarrow> bool" where
  "addresses r j \<longleftrightarrow> j \<noteq> [] \<and> (aq_Method r, session_path (aq_Path r)) \<in>
     {(''POST'', j @ ''/run''), (''POST'', j @ ''/exec''), (''POST'', j @ ''/pause''), (''POST'', j @ ''/resume''), (''DELETE'', j), (''GET'', j)}"

lemma has_suffix_rev: "has_suffix s t \<longleftrightarrow> take (length t) (rev s) = rev t"
proof -
  have "drop (length s - length t) s = t \<longleftrightarrow> rev (take (length t) (rev s)) = t" by (simp add: take_rev)
  then show ?thesis by (auto simp: has_suffix_def rev_swap dest: arg_cong[where f = length])
qed

lemma api_suffixes:
  "\<not> has_suffix (j @ ''/exec'') ''/run''"
  "\<not> has_suffix (j @ ''/pause'') ''/run''" "\<not> has_suffix (j @ ''/pause'') ''/exec''"
  "\<not> has_suffix (j @ ''/resume'') ''/run''" "\<not> has_suffix (j @ ''/resume'') ''/exec''" "\<not> has_suffix (j @ ''/resume'') ''/pause''"
  by (simp_all add: has_suffix_rev)

text \<open>
  to a tenant a sandbox that is not its own is indistinguishable from one that does not exist: every request that names it
  answers 404 "session not found", whatever the body, and starts no job.
\<close>

theorem foreign_sandbox_looks_missing:
  assumes "cp_good E w" "aq_Auth r = Some auth" "addresses r j"
    and "map_option sd_user_id (mget (cp_details w) j) \<noteq> Some (au_TenantID auth)"
  shows "fst (SessionHandler (control_plane_service E S) (platform_client E) A r w) = (HttpError 404 ''session not found'', [])"
proof -
  have "owned cp_look w j \<noteq> Some (au_TenantID auth)" using assms(4) by (simp add: owned_cp_look)
  note H = cp.foreign_hidden[OF assms(1) this]
  have m: "\<not> (''DELETE'' = ''POST'')" "\<not> (''GET'' = ''POST'')" "\<not> (''GET'' = ''DELETE'')" by simp_all
  have j: "j \<noteq> []" using assms(3) by (simp add: addresses_def)
  note route = SessionHandler_def[of _ _ _ r] for_id_def Let_def assms(2) option.case j if_True if_False not_False_eq_True HOL.simp_thms
    api_suffixes has_suffix_append append_is_Nil_conv m
  note body = H run_session_def exec_session_def pause_session_def resume_session_def destroy_session_def
  from assms(3) consider "aq_Method r = ''POST''" "session_path (aq_Path r) = j @ ''/run''"
    | "aq_Method r = ''POST''" "session_path (aq_Path r) = j @ ''/exec''"
    | "aq_Method r = ''POST''" "session_path (aq_Path r) = j @ ''/pause''"
    | "aq_Method r = ''POST''" "session_path (aq_Path r) = j @ ''/resume''"
    | "aq_Method r = ''DELETE''" "session_path (aq_Path r) = j" | "aq_Method r = ''GET''" "session_path (aq_Path r) = j"
    unfolding addresses_def by blast
  then show ?thesis by cases (simp_all only: route, simp_all only: body)
qed

section \<open>Sample requests\<close>

definition strict_codec :: "'c \<Rightarrow> 'c codec" where
  "strict_codec c = \<lparr>cd_Marshal = (\<lambda>x. if x = c then ''{}'' else ''null''),
     cd_Unmarshal = (\<lambda>txt. if txt = ''{}'' then Inr c else Inl (ErrNew ''unexpected end of JSON input''))\<rparr>"

definition sample_tenant_env :: cp_env where
  "sample_tenant_env = sample_cp_env\<lparr>ct_orch := sample_client_env\<lparr>ce_json := sample_orch_json\<lparr>oj_provision := strict_codec sample_provision\<rparr>\<rparr>\<rparr>"

lemma sample_tenant_good: "cp_good sample_tenant_env sample_cp_world"
proof -
  have "safe_id (''sb'' @ nat_digits n)" for n
  proof -
    have "alnum c" if "c \<in> set (nat_digits n)" for c using nat_digits_chars[OF that] by (simp add: alnum_def)
    then show ?thesis by (simp add: safe_id_def list_all_iff alnum_def)
  qed
  then have "cp_env_ok sample_tenant_env"
    by (simp add: cp_env_ok_def sample_tenant_env_def sample_cp_env_def url_ok_def provision_json_ok_def strict_codec_def sample_client_env_def sample_client_def)
      (auto simp: take_Cons' split: if_splits)
  moreover have "safe_id ''sb1''" by (simp add: safe_id_def alnum_def)
  ultimately show ?thesis by (simp add: cp_good_def mwf_def)
qed

definition sample_exec_policy :: ExecutionPolicy where
  "sample_exec_policy = \<lparr>RateLimit = 1, RateBurst = 1, DefaultExecTimeout = 30 * second, MaxExecTimeout = 60 * second, MinPoolSize = 1, MaxPoolSize = 1,
     MaxSessions = 5, SessionIdleTimeout = 300 * second, SessionMaxLifetime = 3600 * second\<rparr>"

definition sample_billing :: BillingConfig where
  "sample_billing = \<lparr>bc_Model = ''payg'', ExecutionRateUSDPerSec = 1\<rparr>"

definition sample_stranger :: AuthInfo where
  "sample_stranger = \<lparr>au_TenantID = ''u2'', au_APIKeyID = ''k2'', au_Config = sample_exec_policy, au_Billing = sample_billing, au_BalanceUSD = 5\<rparr>"

definition sample_api_env :: api_env where
  "sample_api_env = \<lparr>ae_create = (\<lambda>b. Inl (ErrNew ''EOF'')), ae_run = (\<lambda>b. Inl (ErrNew ''EOF'')), ae_exec = (\<lambda>b. Inl (ErrNew ''EOF'')),
     ae_split = (\<lambda>a. Inr a), ae_start = 0, ae_done = 0, ae_uuid = ''r1''\<rparr>"

definition sample_delete :: api_request where
  "sample_delete = \<lparr>aq_Method = ''DELETE'', aq_Path = ''/session/sb1'', aq_RemoteAddr = [], aq_UserAgent = [], aq_RequestID = [], aq_Body = None,
     aq_Auth = Some sample_stranger\<rparr>"

abbreviation (input) sample_serve :: "api_request \<Rightarrow> (session_reply \<times> job list) \<times> cp_world" where
  "sample_serve r \<equiv> SessionHandler (control_plane_service sample_tenant_env \<lparr>cs_workerToken = []\<rparr>) (platform_client sample_tenant_env) sample_api_env r sample_cp_world"

lemma sample_owner: "mget (cp_details sample_cp_world) ''sb1'' = Some sample_details" "sd_user_id sample_details \<noteq> au_TenantID sample_stranger"
  by (simp_all add: sample_details_def sample_stranger_def)

theorem tenants_are_isolated_witness:
  "mget (cp_rows (snd (sample_serve sample_delete))) ''sb1'' = Some sample_cp_row
   \<and> mget (cp_rows (snd (sample_serve (sample_delete\<lparr>aq_Method := ''POST'', aq_Path := ''/session''\<rparr>)))) ''sb1'' = Some sample_cp_row"
proof -
  have keep: "mget (cp_rows (snd (sample_serve r))) ''sb1'' = Some sample_cp_row" if "aq_Auth r = Some sample_stranger" for r
  proof -
    obtain reply jobs w' where x: "sample_serve r = ((reply, jobs), w')" by (metis prod.collapse)
    from tenants_are_isolated[OF sample_tenant_good that x sample_owner] x show ?thesis by simp
  qed
  show ?thesis by (intro conjI keep) (simp_all add: sample_delete_def)
qed

theorem foreign_sandbox_looks_missing_witness:
  "fst (sample_serve sample_delete) = (HttpError 404 ''session not found'', [])"
proof -
  have "addresses sample_delete ''sb1''"
    by (simp add: addresses_def sample_delete_def session_path_def trim_path_def has_prefix_def slash_def)
  moreover have "aq_Auth sample_delete = Some sample_stranger" by (simp add: sample_delete_def)
  ultimately show ?thesis
    using foreign_sandbox_looks_missing[OF sample_tenant_good] sample_owner by simp
qed

end
