(* ===== verification/Authentication.thy ===== *)
theory Authentication
  imports Tenants
begin

text \<open>
  Who is asking: the authentication middleware (\<open>backend/internal/middleware/auth.go\<close>, \<open>cache.go\<close>) and the lookups it makes
  (\<open>backend/internal/platform/client.go\<close>, \<open>session.go\<close>, \<open>profile.go\<close>). The tables of keys and dashboard sessions are a value that other programs
  change, SHA-256 and the two directions of RFC 3339 are arguments. A request reads the clock when it looks into the cache, when
  it stores a key there and when it checks the key.
\<close>

section \<open>Lookups\<close>

record api_key =
  ak_id :: string
  ak_key_hash :: string
  ak_user_id :: string
  ak_is_active :: bool
  ak_expires_at :: "int option"

record login =
  lg_token :: string
  lg_user_id :: string
  lg_expires_at :: int

record auth_tables =
  at_keys :: "api_key list"
  at_logins :: "login list"
  at_profiles :: "(string, rat) gomap"
  at_fault :: "string \<Rightarrow> go_error option"
  at_now :: int

record KeyRecord =
  kr_ID :: string
  kr_UserID :: string
  kr_IsActive :: bool
  kr_ExpiresAt :: "string option"
  kr_BalanceUSD :: rat

record auth_env =
  ax_sha256 :: "string \<Rightarrow> string"
  ax_format :: "int \<Rightarrow> string"
  ax_parse :: "string \<Rightarrow> int option"

definition ResolveKey :: "auth_env \<Rightarrow> string \<Rightarrow> auth_tables \<Rightarrow> go_error + KeyRecord" where
  "ResolveKey X keyHash T =
     (case at_fault T ''resolve api key'' of
        Some e \<Rightarrow> Inl (Wrapf ''resolve api key'' e)
      | None \<Rightarrow>
          (case find (\<lambda>k. ak_key_hash k = keyHash \<and> mget (at_profiles T) (ak_user_id k) \<noteq> None) (at_keys T) of
             None \<Rightarrow> Inl (ErrNew ''key not found'')
           | Some k \<Rightarrow> Inr \<lparr>kr_ID = ak_id k, kr_UserID = ak_user_id k, kr_IsActive = ak_is_active k,
               kr_ExpiresAt = map_option (ax_format X) (ak_expires_at k), kr_BalanceUSD = the (mget (at_profiles T) (ak_user_id k))\<rparr>))"

datatype session_lookup = Resolved string | SessionNotFound | LookupFailed go_error

definition ResolveSession :: "string \<Rightarrow> auth_tables \<Rightarrow> session_lookup" where
  "ResolveSession token T =
     (case at_fault T ''resolve session'' of
        Some e \<Rightarrow> LookupFailed (Wrapf ''resolve session'' e)
      | None \<Rightarrow>
          (case find (\<lambda>l. lg_token l = token \<and> lg_expires_at l > at_now T) (at_logins T) of
             None \<Rightarrow> SessionNotFound | Some l \<Rightarrow> Resolved (lg_user_id l)))"

definition GetProfile :: "string \<Rightarrow> auth_tables \<Rightarrow> go_error + rat" where
  "GetProfile userID T =
     (case at_fault T ''get profile'' of
        Some e \<Rightarrow> Inl (Wrapf ''get profile'' e)
      | None \<Rightarrow> (case mget (at_profiles T) userID of None \<Rightarrow> Inl (Wrapf ''get profile'' (ErrNew ''no rows in result set'')) | Some b \<Rightarrow> Inr b))"

section \<open>The cache of keys\<close>

record cacheEntry =
  en_record :: KeyRecord
  en_fetchedAt :: int

record keyCache =
  kc_entries :: "(string, cacheEntry) gomap"
  kc_ttl :: int

definition newKeyCache :: "int \<Rightarrow> keyCache" where
  "newKeyCache ttl = \<lparr>kc_entries = [], kc_ttl = ttl\<rparr>"

definition cache_get :: "int \<Rightarrow> string \<Rightarrow> keyCache \<Rightarrow> KeyRecord option" where
  "cache_get time_now hash c =
     (case mget (kc_entries c) hash of
        None \<Rightarrow> None
      | Some e \<Rightarrow> if time_now - en_fetchedAt e > kc_ttl c then None else Some (en_record e))"

definition cache_set :: "int \<Rightarrow> string \<Rightarrow> KeyRecord \<Rightarrow> keyCache \<Rightarrow> keyCache" where
  "cache_set time_now hash r c = c\<lparr>kc_entries := mput hash \<lparr>en_record = r, en_fetchedAt = time_now\<rparr> (kc_entries c)\<rparr>"

section \<open>The middleware\<close>

datatype auth_verdict = Skipped | Refused nat string | Admitted AuthInfo

record auth_times =
  tm_get :: int
  tm_read :: int
  tm_set :: int
  tm_check :: int

text \<open>The message has a dash in UTF-8.\<close>

definition insufficient_balance :: string where
  "insufficient_balance = ''insufficient balance '' @ [CHR 0xE2, CHR 0x80, CHR 0x94] @ '' add credits to continue''"

definition serveUser :: "ExecutionPolicy \<Rightarrow> BillingConfig \<Rightarrow> string \<Rightarrow> auth_tables \<Rightarrow> auth_verdict" where
  "serveUser pol bill userID T =
     (case GetProfile userID T of
        Inl e \<Rightarrow> Refused 401 ''user profile not found''
      | Inr b \<Rightarrow>
          if b \<le> 0 then Refused 402 insufficient_balance
          else Admitted \<lparr>au_TenantID = userID, au_APIKeyID = [], au_Config = pol, au_Billing = bill, au_BalanceUSD = b\<rparr>)"

definition key_verdict :: "auth_env \<Rightarrow> ExecutionPolicy \<Rightarrow> BillingConfig \<Rightarrow> int \<Rightarrow> KeyRecord \<Rightarrow> auth_verdict" where
  "key_verdict X pol bill time_now r =
     (if \<not> kr_IsActive r then Refused 401 ''API key is deactivated''
      else if (case kr_ExpiresAt r of None \<Rightarrow> False | Some s \<Rightarrow> (case ax_parse X s of None \<Rightarrow> False | Some ex \<Rightarrow> time_now > ex))
      then Refused 401 ''API key has expired''
      else if kr_BalanceUSD r \<le> 0 then Refused 402 insufficient_balance
      else Admitted \<lparr>au_TenantID = kr_UserID r, au_APIKeyID = kr_ID r, au_Config = pol, au_Billing = bill, au_BalanceUSD = kr_BalanceUSD r\<rparr>)"

definition authenticate_key ::
    "auth_env \<Rightarrow> ExecutionPolicy \<Rightarrow> BillingConfig \<Rightarrow> (int \<Rightarrow> auth_tables) \<Rightarrow> auth_times \<Rightarrow> string \<Rightarrow> keyCache \<Rightarrow> auth_verdict \<times> keyCache" where
  "authenticate_key X pol bill D t key c =
     (let hash = ax_sha256 X key in
      case cache_get (tm_get t) hash c of
        Some r \<Rightarrow> (key_verdict X pol bill (tm_check t) r, c)
      | None \<Rightarrow>
          (case ResolveKey X hash (D (tm_read t)) of
             Inl e \<Rightarrow> (Refused 401 ''invalid API key'', c)
           | Inr r \<Rightarrow> (key_verdict X pol bill (tm_check t) r, cache_set (tm_set t) hash r c)))"

definition Auth ::
    "auth_env \<Rightarrow> ExecutionPolicy \<Rightarrow> BillingConfig \<Rightarrow> (int \<Rightarrow> auth_tables) \<Rightarrow> auth_times \<Rightarrow> string \<Rightarrow> string \<Rightarrow> keyCache \<Rightarrow> auth_verdict \<times> keyCache" where
  "Auth X pol bill D t path raw c =
     (if path = ''/health'' \<or> path = ''/metrics'' then (Skipped, c)
      else if \<not> has_prefix raw ''Bearer '' then (Refused 401 ''missing or invalid Authorization header'', c)
      else
        let key = drop (length ''Bearer '') raw in
        if has_prefix key ''ro_live_'' then authenticate_key X pol bill D t key c
        else
          (case ResolveSession key (D (tm_read t)) of
             Resolved userID \<Rightarrow> (serveUser pol bill userID (D (tm_read t)), c)
           | LookupFailed e \<Rightarrow> (Refused 503 ''authentication service unavailable'', c)
           | SessionNotFound \<Rightarrow> authenticate_key X pol bill D t key c))"


text \<open>The route of the public API to sandboxes, behind the middleware.\<close>

definition serve_session ::
    "auth_env \<Rightarrow> ExecutionPolicy \<Rightarrow> BillingConfig \<Rightarrow> (int \<Rightarrow> auth_tables) \<Rightarrow> auth_times \<Rightarrow> 's plane_service \<Rightarrow> 's usage_logger \<Rightarrow> api_env
      \<Rightarrow> string \<Rightarrow> api_request \<Rightarrow> keyCache \<Rightarrow> 's \<Rightarrow> (nat \<times> string + session_reply \<times> job list) \<times> keyCache \<times> 's" where
  "serve_session X pol bill D t ps ul A raw r c s =
     (case Auth X pol bill D t (aq_Path r) raw c of
        (Refused status message, c') \<Rightarrow> (Inl (status, message), c', s)
      | (Skipped, c') \<Rightarrow> (case SessionHandler ps ul A (r\<lparr>aq_Auth := None\<rparr>) s of (out, s') \<Rightarrow> (Inr out, c', s'))
      | (Admitted info, c') \<Rightarrow> (case SessionHandler ps ul A (r\<lparr>aq_Auth := Some info\<rparr>) s of (out, s') \<Rightarrow> (Inr out, c', s')))"

section \<open>What a cached key says\<close>

text \<open>
  The caches that requests can leave behind, whatever their order: a key is stored as it was read, at most \<open>L\<close> after the read. The
  tables are given as a function of time.
\<close>

definition authTTL :: int where "authTTL = 60 * second"

inductive cache_reach :: "auth_env \<Rightarrow> (int \<Rightarrow> auth_tables) \<Rightarrow> int \<Rightarrow> keyCache \<Rightarrow> bool" for X D L where
  reach_new: "cache_reach X D L (newKeyCache authTTL)"
| reach_set: "cache_reach X D L c \<Longrightarrow> ResolveKey X h (D q) = Inr r \<Longrightarrow> q \<le> s \<Longrightarrow> s \<le> q + L \<Longrightarrow> cache_reach X D L (cache_set s h r c)"

definition times_ok :: "int \<Rightarrow> auth_times \<Rightarrow> bool" where
  "times_ok L t \<longleftrightarrow> tm_get t \<le> tm_read t \<and> tm_read t \<le> tm_set t \<and> tm_set t \<le> tm_check t \<and> tm_set t \<le> tm_read t + L"

lemma cache_reach_entries:
  assumes "cache_reach X D L c"
  shows "kc_ttl c = authTTL"
    and "mget (kc_entries c) h = Some e \<Longrightarrow> \<exists>q. ResolveKey X h (D q) = Inr (en_record e) \<and> q \<le> en_fetchedAt e \<and> en_fetchedAt e \<le> q + L"
  using assms
proof (induction arbitrary: h e)
  case (reach_set c h' q r s)
  { case 1 show ?case using reach_set by (simp add: cache_set_def) }
  { case 2 then show ?case using reach_set by (cases "h = h'") (auto simp: cache_set_def) }
qed (simp_all add: newKeyCache_def)

text \<open>The record that a request decides on was read from the tables, at most the lifetime of an entry and one round trip ago.\<close>

lemma authenticate_key_read:
  assumes "cache_reach X D L c" "times_ok L t" "authenticate_key X pol bill D t key c = (v, c')"
  obtains (no_key) e where "v = Refused 401 ''invalid API key''" "c' = c" "ResolveKey X (ax_sha256 X key) (D (tm_read t)) = Inl e"
  | (found) r q where "v = key_verdict X pol bill (tm_check t) r" "ResolveKey X (ax_sha256 X key) (D q) = Inr r"
      "tm_get t - authTTL - L \<le> q" "cache_reach X D L c'"
proof (cases "cache_get (tm_get t) (ax_sha256 X key) c")
  case (Some r)
  then obtain e where e: "mget (kc_entries c) (ax_sha256 X key) = Some e" "tm_get t - en_fetchedAt e \<le> kc_ttl c" "r = en_record e"
    by (auto simp: cache_get_def split: option.splits if_splits)
  from cache_reach_entries(2)[OF assms(1) e(1)] obtain q where
    "ResolveKey X (ax_sha256 X key) (D q) = Inr r" "en_fetchedAt e \<le> q + L" using e(3) by auto
  then show ?thesis
    using found[of r q] Some assms e(2) cache_reach_entries(1)[OF assms(1)] by (simp add: authenticate_key_def)
next
  case None
  have L: "0 \<le> L" "0 \<le> authTTL" "tm_get t \<le> tm_read t" using assms(2) by (auto simp: times_ok_def authTTL_def second_def)
  show ?thesis
  proof (cases "ResolveKey X (ax_sha256 X key) (D (tm_read t))")
    case (Inl e)
    with None assms(3) no_key show ?thesis by (simp add: authenticate_key_def)
  next
    case (Inr r)
    have "cache_reach X D L (cache_set (tm_set t) (ax_sha256 X key) r c)"
      using assms(1,2) Inr by (auto intro: reach_set simp: times_ok_def)
    with None Inr assms(3) found[of r "tm_read t"] L show ?thesis by (auto simp: authenticate_key_def)
  qed
qed

lemma ResolveKey_row:
  assumes "ResolveKey X h T = Inr r"
  obtains k where "k \<in> set (at_keys T)" "ak_key_hash k = h" "kr_UserID r = ak_user_id k" "kr_IsActive r = ak_is_active k"
    "kr_ExpiresAt r = map_option (ax_format X) (ak_expires_at k)" "mget (at_profiles T) (ak_user_id k) = Some (kr_BalanceUSD r)"
proof -
  obtain k where k: "find (\<lambda>k. ak_key_hash k = h \<and> mget (at_profiles T) (ak_user_id k) \<noteq> None) (at_keys T) = Some k"
    "r = \<lparr>kr_ID = ak_id k, kr_UserID = ak_user_id k, kr_IsActive = ak_is_active k,
               kr_ExpiresAt = map_option (ax_format X) (ak_expires_at k), kr_BalanceUSD = the (mget (at_profiles T) (ak_user_id k))\<rparr>"
    using assms by (auto simp: ResolveKey_def split: option.splits)
  from k(1) obtain b where "k \<in> set (at_keys T)" "ak_key_hash k = h" "mget (at_profiles T) (ak_user_id k) = Some b"
    by (auto simp: find_Some_iff)
  with that[of k] k(2) show ?thesis by simp
qed

lemma authenticate_key_reach:
  assumes "cache_reach X D L c" "times_ok L t"
  shows "cache_reach X D L (snd (authenticate_key X pol bill D t key c))"
proof -
  obtain v c' where a: "authenticate_key X pol bill D t key c = (v, c')" by fastforce
  with assms have "cache_reach X D L c'" by (cases rule: authenticate_key_read) (use assms(1) in simp_all)
  with a show ?thesis by simp
qed

lemma Auth_reach:
  assumes "cache_reach X D L c" "times_ok L t"
  shows "cache_reach X D L (snd (Auth X pol bill D t path raw c))"
  using assms(1) authenticate_key_reach[OF assms] by (simp add: Auth_def Let_def split: session_lookup.splits)

section \<open>Who gets in\<close>

text \<open>Times in the four-digit years that RFC 3339 can write are read back to the second.\<close>

definition year_10000 :: int where "year_10000 = 253402300800 * second"

definition rfc3339_ok :: "auth_env \<Rightarrow> bool" where
  "rfc3339_ok X \<longleftrightarrow> (\<forall>x. 0 \<le> x \<and> x < year_10000 \<longrightarrow> ax_parse X (ax_format X x) = Some (x - x mod second))"

text \<open>A key that a user holds in the tables of time \<open>q\<close>, good for a request checked at time \<open>now\<close>.\<close>

definition holds_key :: "auth_env \<Rightarrow> auth_tables \<Rightarrow> int \<Rightarrow> string \<Rightarrow> string \<Rightarrow> bool" where
  "holds_key X T time_now key u \<longleftrightarrow> (\<exists>k \<in> set (at_keys T). ak_key_hash k = ax_sha256 X key \<and> ak_user_id k = u \<and> ak_is_active k
     \<and> (case ak_expires_at k of None \<Rightarrow> True | Some x \<Rightarrow> x < 0 \<or> year_10000 \<le> x \<or> time_now \<le> x)
     \<and> (\<exists>b > 0. mget (at_profiles T) u = Some b))"

definition holds_login :: "auth_tables \<Rightarrow> string \<Rightarrow> string \<Rightarrow> bool" where
  "holds_login T token u \<longleftrightarrow> (\<exists>l \<in> set (at_logins T). lg_token l = token \<and> lg_user_id l = u \<and> at_now T < lg_expires_at l)
     \<and> (\<exists>b > 0. mget (at_profiles T) u = Some b)"

lemma key_verdict_admits:
  assumes "key_verdict X pol bill t r = Admitted info" "ResolveKey X (ax_sha256 X key) T = Inr r" "rfc3339_ok X"
  shows "holds_key X T t key (au_TenantID info)"
proof -
  obtain k where k: "k \<in> set (at_keys T)" "ak_key_hash k = ax_sha256 X key" "kr_UserID r = ak_user_id k" "kr_IsActive r = ak_is_active k"
    "kr_ExpiresAt r = map_option (ax_format X) (ak_expires_at k)" "mget (at_profiles T) (ak_user_id k) = Some (kr_BalanceUSD r)"
    using ResolveKey_row[OF assms(2)] .
  have v: "kr_IsActive r" "kr_BalanceUSD r > 0" "au_TenantID info = kr_UserID r"
    and ex: "kr_ExpiresAt r = Some s \<Longrightarrow> ax_parse X s = Some y \<Longrightarrow> t \<le> y" for s y
    using assms(1) by (auto simp: key_verdict_def split: if_splits option.splits)
  have "t \<le> x" if "ak_expires_at k = Some x" "0 \<le> x" "x < year_10000" for x
  proof -
    have "t \<le> x - x mod second" using ex[of "ax_format X x"] k(5) that assms(3) by (auto simp: rfc3339_ok_def)
    also have "\<dots> \<le> x" by (simp add: second_def)
    finally show ?thesis .
  qed
  then have "case ak_expires_at k of None \<Rightarrow> True | Some x \<Rightarrow> x < 0 \<or> year_10000 \<le> x \<or> t \<le> x"
    by (auto split: option.splits) (meson not_less)
  with k v show ?thesis unfolding holds_key_def by auto
qed

lemma Auth_admits:
  assumes "cache_reach X D L c" "times_ok L t" "rfc3339_ok X" "Auth X pol bill D t path raw c = (Admitted info, c')" "key = drop (length ''Bearer '') raw"
  obtains (login) "holds_login (D (tm_read t)) key (au_TenantID info)" "\<not> has_prefix key ''ro_live_''"
  | (api_key) q where "tm_get t - authTTL - L \<le> q" "holds_key X (D q) (tm_check t) key (au_TenantID info)"
proof -
  have "(\<exists>u. ResolveSession key (D (tm_read t)) = Resolved u \<and> serveUser pol bill u (D (tm_read t)) = Admitted info \<and> \<not> has_prefix key ''ro_live_'')
      \<or> authenticate_key X pol bill D t key c = (Admitted info, c')"
    using assms(4) by (auto simp: assms(5) Auth_def Let_def split: if_splits session_lookup.splits)
  then consider u where "ResolveSession key (D (tm_read t)) = Resolved u" "serveUser pol bill u (D (tm_read t)) = Admitted info" "\<not> has_prefix key ''ro_live_''"
    | "authenticate_key X pol bill D t key c = (Admitted info, c')" by blast
  then show thesis
  proof cases
    case 1
    then have "holds_login (D (tm_read t)) key (au_TenantID info)"
      by (auto simp: holds_login_def ResolveSession_def serveUser_def GetProfile_def find_Some_iff split: option.splits sum.splits if_splits)
    with 1(3) login show thesis by blast
  next
    case 2
    with assms(1,2) show thesis
    proof (cases rule: authenticate_key_read)
      case (found r q)
      with key_verdict_admits[OF _ found(2) assms(3)] api_key[of q] show thesis by metis
    qed simp
  qed
qed


text \<open>
  C1: whoever sends a request, and whatever keys are cached, nothing about a user's sandbox changes unless the bearer token is a
  login of the user, or a key that the tables showed as active, unexpired and the user's, with a positive balance, no longer
  ago than the lifetime of a cached key and one round trip to the database.
\<close>

theorem only_the_owner_reaches_a_sandbox:
  assumes "cp_good E w" "cache_reach X D L c" "times_ok L t" "rfc3339_ok X"
    and "mget (cp_details w) j = Some d" "key = drop (length ''Bearer '') raw"
    and "\<not> holds_login (D (tm_read t)) key (sd_user_id d)"
    and "\<forall>q \<ge> tm_get t - authTTL - L. \<not> holds_key X (D q) (tm_check t) key (sd_user_id d)"
    and "serve_session X pol bill D t (control_plane_service E S) (platform_client E) A raw r c w = (out, c', w')"
  shows "mget (cp_rows w') j = mget (cp_rows w) j \<and> mget (cp_details w') j = Some d
    \<and> filter (concerns j) (sv_log (cp_orch w')) = filter (concerns j) (sv_log (cp_orch w))
    \<and> filter (run_concerns j) (cp_runs w') = filter (run_concerns j) (cp_runs w)"
proof -
  obtain v c1 where v: "Auth X pol bill D t (aq_Path r) raw c = (v, c1)" by fastforce
  have "cp_look w' j = cp_look w j"
  proof (cases v)
    case (Admitted info)
    obtain reply jobs where h: "SessionHandler (control_plane_service E S) (platform_client E) A (r\<lparr>aq_Auth := Some info\<rparr>) w = ((reply, jobs), w')"
      using assms(9) v Admitted by (auto simp: serve_session_def split: prod.splits)
    have "sd_user_id d \<noteq> au_TenantID info"
      using assms(2-4) v[unfolded Admitted] assms(6)
      by (cases rule: Auth_admits) (use assms(7,8) in auto)
    with handler_look[OF assms(1) _ h assms(5)] show ?thesis by simp
  qed (use assms(9) v in \<open>auto simp: serve_session_def SessionHandler_def\<close>)
  with assms(5) show ?thesis by (auto simp: cp_look_def traces_def cp_rows_def)
qed

text \<open>
  C4: an API key that is deactivated (or deleted) from time \<open>T\<close> on is refused by every request that starts later than \<open>T\<close> plus the
  lifetime of a cached key and one round trip to the database, whatever was cached and in whatever order requests ran.
\<close>

theorem revoked_key_is_refused:
  assumes "cache_reach X D L c" "times_ok L t"
    and "\<forall>q \<ge> T. \<forall>k \<in> set (at_keys (D q)). ak_key_hash k = ax_sha256 X key \<longrightarrow> \<not> ak_is_active k"
    and "T + authTTL + L < tm_get t" "has_prefix key ''ro_live_''" "path \<notin> {''/health'', ''/metrics''}"
  shows "fst (Auth X pol bill D t path (''Bearer '' @ key) c) \<in> {Refused 401 ''API key is deactivated'', Refused 401 ''invalid API key''}"
proof -
  obtain v c' where a: "authenticate_key X pol bill D t key c = (v, c')" by fastforce
  with assms(1,2) have "v \<in> {Refused 401 ''API key is deactivated'', Refused 401 ''invalid API key''}"
  proof (cases rule: authenticate_key_read)
    case (found r q)
    obtain k where k: "k \<in> set (at_keys (D q))" "ak_key_hash k = ax_sha256 X key" "kr_IsActive r = ak_is_active k"
      using ResolveKey_row[OF found(2)] by blast
    have "T \<le> q" using found(3) assms(4) by simp
    with k assms(3) have "\<not> kr_IsActive r" by blast
    with found(1) show ?thesis by (simp add: key_verdict_def)
  qed simp
  moreover have "Auth X pol bill D t path (''Bearer '' @ key) c = (v, c')"
    using a assms(5,6) by (auto simp: Auth_def Let_def simp del: append_Cons)
  ultimately show ?thesis by simp
qed

section \<open>A sample key\<close>

definition sample_auth_env :: auth_env where
  "sample_auth_env = \<lparr>ax_sha256 = (\<lambda>s. s), ax_format = (\<lambda>x. itoa (x - x mod second)), ax_parse = sample_pg_time\<rparr>"

definition sample_api_key :: api_key where
  "sample_api_key = \<lparr>ak_id = ''k2'', ak_key_hash = ''ro_live_2'', ak_user_id = ''u2'', ak_is_active = True, ak_expires_at = Some (1000 * second)\<rparr>"

text \<open>The key is active until second 100.\<close>

definition sample_tables :: "int \<Rightarrow> auth_tables" where
  "sample_tables q = \<lparr>at_keys = [sample_api_key\<lparr>ak_is_active := q < 100 * second\<rparr>], at_logins = [], at_profiles = [(''u2'', 5)], at_fault = (\<lambda>l. None), at_now = q\<rparr>"

definition sample_cached :: keyCache where
  "sample_cached = cache_set (90 * second) ''ro_live_2'' \<lparr>kr_ID = ''k2'', kr_UserID = ''u2'', kr_IsActive = True,
     kr_ExpiresAt = Some (itoa (1000 * second)), kr_BalanceUSD = 5\<rparr> (newKeyCache authTTL)"

lemma sample_cached_reach: "cache_reach sample_auth_env sample_tables second sample_cached"
  unfolding sample_cached_def
  by (rule reach_set[OF reach_new, where q = "90 * second"])
    (simp_all add: ResolveKey_def sample_tables_def sample_api_key_def sample_auth_env_def second_def)

definition times_at :: "int \<Rightarrow> auth_times" where
  "times_at x = \<lparr>tm_get = x, tm_read = x, tm_set = x, tm_check = x\<rparr>"

lemma times_at_ok: "times_ok second (times_at x)"
  by (simp add: times_ok_def times_at_def second_def)

text \<open>At second 110 the cached key still gets in, although it is deactivated; at second 170 it does not.\<close>

theorem revoked_key_is_refused_witness:
  "fst (Auth sample_auth_env sample_exec_policy sample_billing sample_tables (times_at (110 * second)) ''/session'' ''Bearer ro_live_2'' sample_cached)
     = Admitted \<lparr>au_TenantID = ''u2'', au_APIKeyID = ''k2'', au_Config = sample_exec_policy, au_Billing = sample_billing, au_BalanceUSD = 5\<rparr>
   \<and> fst (Auth sample_auth_env sample_exec_policy sample_billing sample_tables (times_at (170 * second)) ''/session'' (''Bearer '' @ ''ro_live_2'') sample_cached)
     \<in> {Refused 401 ''API key is deactivated'', Refused 401 ''invalid API key''}"
proof
  show "fst (Auth sample_auth_env sample_exec_policy sample_billing sample_tables (times_at (110 * second)) ''/session'' ''Bearer ro_live_2'' sample_cached)
     = Admitted \<lparr>au_TenantID = ''u2'', au_APIKeyID = ''k2'', au_Config = sample_exec_policy, au_Billing = sample_billing, au_BalanceUSD = 5\<rparr>"
    by (simp add: Auth_def Let_def has_prefix_def authenticate_key_def cache_get_def sample_cached_def cache_set_def newKeyCache_def times_at_def
        key_verdict_def sample_auth_env_def authTTL_def second_def)
next
  show "fst (Auth sample_auth_env sample_exec_policy sample_billing sample_tables (times_at (170 * second)) ''/session'' (''Bearer '' @ ''ro_live_2'') sample_cached)
     \<in> {Refused 401 ''API key is deactivated'', Refused 401 ''invalid API key''}"
    by (rule revoked_key_is_refused[OF sample_cached_reach times_at_ok, where T = "100 * second"])
      (simp_all add: sample_tables_def times_at_def authTTL_def second_def has_prefix_def)
qed

theorem only_the_owner_reaches_a_sandbox_witness:
  "mget (cp_rows (snd (snd (serve_session sample_auth_env sample_exec_policy sample_billing sample_tables (times_at (110 * second))
      (control_plane_service sample_tenant_env \<lparr>cs_workerToken = []\<rparr>) (platform_client sample_tenant_env) sample_api_env ''Bearer ro_live_2'' sample_delete
      sample_cached sample_cp_world)))) ''sb1'' = Some sample_cp_row"
proof -
  obtain out c' w' where x: "serve_session sample_auth_env sample_exec_policy sample_billing sample_tables (times_at (110 * second))
      (control_plane_service sample_tenant_env \<lparr>cs_workerToken = []\<rparr>) (platform_client sample_tenant_env) sample_api_env ''Bearer ro_live_2'' sample_delete
      sample_cached sample_cp_world = (out, c', w')" by (metis prod.collapse)
  have X: "rfc3339_ok sample_auth_env" by (simp add: rfc3339_ok_def sample_auth_env_def)
  have "\<not> holds_key sample_auth_env (sample_tables q) y key ''u1''" "\<not> holds_login (sample_tables q) key ''u1''" for q y key
    by (simp_all add: holds_key_def holds_login_def sample_tables_def sample_api_key_def)
  then have "mget (cp_rows w') ''sb1'' = mget (cp_rows sample_cp_world) ''sb1''"
    by (intro conjunct1[OF only_the_owner_reaches_a_sandbox[OF sample_tenant_good sample_cached_reach times_at_ok X sample_owner(1) refl _ _ x]])
      (simp_all add: sample_details_def)
  with x show ?thesis by simp
qed

end
