(* ===== verification/Terminal_Wire.thy ===== *)
theory Terminal_Wire
  imports Prelude "HOL-Library.Word"
begin

text \<open>
  The bytes of a terminal on their way between a browser and the pseudo-terminal in the guest: WebSocket messages and frames
  (\<open>backend/internal/handler/terminal_websocket.go\<close>, \<open>terminal/stream.go\<close>), their form on the wire between control plane and
  worker (\<open>agent/terminal_grpc.go\<close>, \<open>worker/terminal_grpc.go\<close>), and the framed stream between worker and guest
  (\<open>executor/firecracker/terminal_stream.go\<close>, \<open>guest-agent/terminal.go\<close>). Protocol buffers carry a message unchanged; the JSON
  text of control messages and the failure of a write to the pseudo-terminal are arguments. A byte is a \<open>char\<close>, a byte stream a
  \<open>string\<close>; how the network cuts it into pieces does not matter to \<open>io.ReadFull\<close>.
\<close>

section \<open>Frames\<close>

datatype FrameType = FrameReady | FrameInput | FrameOutput | FrameResize | FrameExit | FrameError | FrameClose

record Frame =
  fr_Type :: FrameType
  fr_Data :: string
  fr_Columns :: "32 word"
  fr_Rows :: "32 word"
  fr_ExitCode :: "32 word"
  fr_Message :: string

definition frame_of :: "FrameType \<Rightarrow> Frame" where
  "frame_of t = \<lparr>fr_Type = t, fr_Data = [], fr_Columns = 0, fr_Rows = 0, fr_ExitCode = 0, fr_Message = []\<rparr>"

fun frame_name :: "FrameType \<Rightarrow> string" where
  "frame_name FrameReady = ''ready''"
| "frame_name FrameInput = ''input''"
| "frame_name FrameOutput = ''output''"
| "frame_name FrameResize = ''resize''"
| "frame_name FrameExit = ''exit''"
| "frame_name FrameError = ''error''"
| "frame_name FrameClose = ''close''"

section \<open>Between control plane and worker\<close>

datatype proto_type =
    ProtoUnspecified | ProtoAttach | ProtoReady | ProtoInput | ProtoOutput | ProtoResize | ProtoExit | ProtoError | ProtoClose

record TerminalFrame =
  pf_Type :: proto_type
  pf_TerminalId :: string
  pf_SandboxId :: string
  pf_Data :: string
  pf_Columns :: "32 word"
  pf_Rows :: "32 word"
  pf_ExitCode :: "32 word"
  pf_Message :: string

definition proto_of :: "proto_type \<Rightarrow> TerminalFrame" where
  "proto_of t = \<lparr>pf_Type = t, pf_TerminalId = [], pf_SandboxId = [], pf_Data = [], pf_Columns = 0, pf_Rows = 0, pf_ExitCode = 0, pf_Message = []\<rparr>"

definition client_Send :: "Frame \<Rightarrow> go_error + TerminalFrame" where
  "client_Send f =
     (let request = (\<lambda>t. Inr ((proto_of t)\<lparr>pf_Data := fr_Data f, pf_Columns := fr_Columns f, pf_Rows := fr_Rows f\<rparr>)) in
      case fr_Type f of
        FrameInput \<Rightarrow> request ProtoInput
      | FrameResize \<Rightarrow> request ProtoResize
      | FrameClose \<Rightarrow> request ProtoClose
      | t \<Rightarrow> Inl (ErrNew (''unsupported terminal frame '' @ quoted (frame_name t))))"

fun proto_name :: "proto_type \<Rightarrow> string" where
  "proto_name ProtoUnspecified = ''TERMINAL_FRAME_TYPE_UNSPECIFIED''"
| "proto_name ProtoAttach = ''TERMINAL_FRAME_TYPE_ATTACH''"
| "proto_name ProtoReady = ''TERMINAL_FRAME_TYPE_READY''"
| "proto_name ProtoInput = ''TERMINAL_FRAME_TYPE_INPUT''"
| "proto_name ProtoOutput = ''TERMINAL_FRAME_TYPE_OUTPUT''"
| "proto_name ProtoResize = ''TERMINAL_FRAME_TYPE_RESIZE''"
| "proto_name ProtoExit = ''TERMINAL_FRAME_TYPE_EXIT''"
| "proto_name ProtoError = ''TERMINAL_FRAME_TYPE_ERROR''"
| "proto_name ProtoClose = ''TERMINAL_FRAME_TYPE_CLOSE''"

definition client_Receive :: "TerminalFrame \<Rightarrow> go_error + Frame" where
  "client_Receive p =
     (let frame = (\<lambda>t. Inr ((frame_of t)\<lparr>fr_Data := pf_Data p, fr_ExitCode := pf_ExitCode p, fr_Message := pf_Message p\<rparr>)) in
      case pf_Type p of
        ProtoReady \<Rightarrow> frame FrameReady
      | ProtoOutput \<Rightarrow> frame FrameOutput
      | ProtoExit \<Rightarrow> frame FrameExit
      | ProtoError \<Rightarrow> frame FrameError
      | t \<Rightarrow> Inl (ErrNew (''unsupported worker terminal frame '' @ quoted (proto_name t))))"

text \<open>An error of the package \<open>status\<close>.\<close>

definition status_Error :: "string \<Rightarrow> string \<Rightarrow> go_error" where
  "status_Error code desc = ErrNew (''rpc error: code = '' @ code @ '' desc = '' @ desc)"

definition terminalFrameToProto :: "Frame \<Rightarrow> TerminalFrame" where
  "terminalFrameToProto f =
     (proto_of (case fr_Type f of FrameReady \<Rightarrow> ProtoReady | FrameOutput \<Rightarrow> ProtoOutput | FrameExit \<Rightarrow> ProtoExit | FrameError \<Rightarrow> ProtoError
                | _ \<Rightarrow> ProtoUnspecified))
       \<lparr>pf_Data := fr_Data f, pf_Columns := fr_Columns f, pf_Rows := fr_Rows f, pf_ExitCode := fr_ExitCode f, pf_Message := fr_Message f\<rparr>"

definition terminalFrameFromProto :: "TerminalFrame \<Rightarrow> go_error + Frame" where
  "terminalFrameFromProto p =
     (let result = (\<lambda>t. Inr ((frame_of t)\<lparr>fr_Data := pf_Data p, fr_Columns := pf_Columns p, fr_Rows := pf_Rows p\<rparr>)) in
      case pf_Type p of
        ProtoInput \<Rightarrow> result FrameInput
      | ProtoResize \<Rightarrow> result FrameResize
      | ProtoClose \<Rightarrow> result FrameClose
      | _ \<Rightarrow> Inl (status_Error ''InvalidArgument'' ''unsupported terminal client frame''))"

section \<open>Between worker and guest\<close>

definition terminalWireInput :: nat where "terminalWireInput = 1"
definition terminalWireOutput :: nat where "terminalWireOutput = 2"
definition terminalWireResize :: nat where "terminalWireResize = 3"
definition terminalWireExit :: nat where "terminalWireExit = 4"
definition terminalWireError :: nat where "terminalWireError = 5"
definition terminalWireClose :: nat where "terminalWireClose = 6"
definition maxTerminalWirePayload :: nat where "maxTerminalWirePayload = 1048576"
definition terminalFrameLimit :: nat where "terminalFrameLimit = 1048576"

lemmas wire_types = terminalWireInput_def terminalWireOutput_def terminalWireResize_def terminalWireExit_def terminalWireError_def terminalWireClose_def

text \<open>\<open>binary.BigEndian\<close>.\<close>

definition PutUint32 :: "32 word \<Rightarrow> string" where
  "PutUint32 w = map (\<lambda>k. char_of (unat w div 256 ^ k)) [3, 2, 1, 0]"

definition PutUint16 :: "16 word \<Rightarrow> string" where
  "PutUint16 w = map (\<lambda>k. char_of (unat w div 256 ^ k)) [1, 0]"

definition big_endian :: "string \<Rightarrow> nat" where
  "big_endian s = fold (\<lambda>c n. 256 * n + of_char c) s 0"

definition frame_too_big :: go_error where
  "frame_too_big = ErrNew ''terminal frame exceeds maximum payload''"

definition write_frame :: "nat \<Rightarrow> nat \<Rightarrow> string \<Rightarrow> go_error + string" where
  "write_frame limit t payload =
     (if length payload > limit then Inl frame_too_big
      else Inr (char_of t # PutUint32 (of_nat (length payload)) @ payload))"

datatype frame_read = GotFrame nat string string | ReadEOF | ReadErr go_error

text \<open>\<open>io.ReadFull\<close> reports the plain end of the stream when it finds no byte at all.\<close>

definition read_frame :: "nat \<Rightarrow> string \<Rightarrow> frame_read" where
  "read_frame limit s =
     (let header = take 5 s; rest = drop 5 s; sz = big_endian (drop 1 header) in
      if s = [] then ReadEOF
      else if length header < 5 then ReadErr (ErrNew ''unexpected EOF'')
      else if sz > limit then ReadErr frame_too_big
      else if sz > 0 \<and> rest = [] then ReadEOF
      else if length rest < sz then ReadErr (ErrNew ''unexpected EOF'')
      else GotFrame (of_char (hd s)) (take sz rest) (drop sz rest))"

definition writeTerminalWire :: "nat \<Rightarrow> string \<Rightarrow> go_error + string" where
  "writeTerminalWire = write_frame maxTerminalWirePayload"

definition readTerminalWire :: "string \<Rightarrow> frame_read" where
  "readTerminalWire = read_frame maxTerminalWirePayload"

definition writeTerminalFrame :: "nat \<Rightarrow> string \<Rightarrow> go_error + string" where
  "writeTerminalFrame = write_frame terminalFrameLimit"

definition readTerminalFrame :: "string \<Rightarrow> frame_read" where
  "readTerminalFrame = read_frame terminalFrameLimit"


text \<open>The worker's loop for frames of the client: bytes for the guest, and whether the loop ends.\<close>

datatype relayed = Relay string | Hangup string "go_error option"

definition relay_client :: "Frame \<Rightarrow> relayed" where
  "relay_client f =
     (let put = (\<lambda>t payload. case writeTerminalWire t payload of Inl e \<Rightarrow> Hangup [] (Some e) | Inr bytes \<Rightarrow> Relay bytes) in
      case fr_Type f of
        FrameInput \<Rightarrow>
          if length (fr_Data f) > 65536 then Hangup [] (Some (ErrNew ''terminal input frame exceeds 64 KiB''))
          else put terminalWireInput (fr_Data f)
      | FrameResize \<Rightarrow>
          if fr_Columns f < 20 \<or> fr_Columns f > 500 \<or> fr_Rows f < 5 \<or> fr_Rows f > 200
          then Hangup [] (Some (ErrNew ''terminal resize is outside the supported range''))
          else put terminalWireResize (PutUint16 (ucast (fr_Columns f)) @ PutUint16 (ucast (fr_Rows f)))
      | FrameClose \<Rightarrow> Hangup (case writeTerminalWire terminalWireClose [] of Inl e \<Rightarrow> [] | Inr bytes \<Rightarrow> bytes) None
      | t \<Rightarrow> Hangup [] (Some (ErrNew (''unsupported terminal client frame '' @ quoted (frame_name t)))))"

text \<open>A frame of the guest as the worker reads it.\<close>

definition guest_frame :: "nat \<Rightarrow> string \<Rightarrow> go_error + Frame" where
  "guest_frame t payload =
     (if t = terminalWireOutput then Inr ((frame_of FrameOutput)\<lparr>fr_Data := payload\<rparr>)
      else if t = terminalWireExit
      then (if length payload \<noteq> 4 then Inl (ErrNew ''invalid terminal exit frame'')
            else Inr ((frame_of FrameExit)\<lparr>fr_ExitCode := of_nat (big_endian payload)\<rparr>))
      else if t = terminalWireError then Inr ((frame_of FrameError)\<lparr>fr_Message := payload\<rparr>)
      else Inl (ErrNew (''unsupported guest terminal frame '' @ nat_digits t)))"

text \<open>The loop \<open>receiveTerminalWire\<close> over what the guest has sent: the frames, and why it stopped.\<close>

datatype stop = EndOfStream | Failed go_error | Finished

fun receiveTerminalWire :: "nat \<Rightarrow> string \<Rightarrow> Frame list \<times> stop" where
  "receiveTerminalWire 0 s = ([], EndOfStream)"
| "receiveTerminalWire (Suc n) s =
     (case readTerminalWire s of
        ReadEOF \<Rightarrow> ([], EndOfStream)
      | ReadErr e \<Rightarrow> ([], Failed e)
      | GotFrame t payload rest \<Rightarrow>
          (case guest_frame t payload of
             Inl e \<Rightarrow> ([], Failed e)
           | Inr f \<Rightarrow>
               if fr_Type f = FrameExit \<or> fr_Type f = FrameError then ([f], Finished)
               else (case receiveTerminalWire n rest of (fs, r) \<Rightarrow> (f # fs, r))))"

text \<open>The guest's side of an attached terminal: input for the shell, and the size of its window.\<close>

record guest_pty =
  gp_input :: string
  gp_size :: "16 word \<times> 16 word"

definition guest_input :: "(guest_pty \<Rightarrow> go_error option) \<Rightarrow> nat \<Rightarrow> string \<Rightarrow> guest_pty \<Rightarrow> stop option \<times> guest_pty" where
  "guest_input F t payload p =
     (if t = terminalWireInput
      then (case F p of Some e \<Rightarrow> (Some (Failed e), p) | None \<Rightarrow> (None, p\<lparr>gp_input := gp_input p @ payload\<rparr>))
      else if t = terminalWireResize
      then
        (if length payload \<noteq> 4 then (Some (Failed (ErrNew ''invalid terminal resize frame'')), p)
         else
           let columns = (of_nat (big_endian (take 2 payload)) :: 16 word); rows = (of_nat (big_endian (drop 2 payload)) :: 16 word) in
           if columns < 20 \<or> columns > 500 \<or> rows < 5 \<or> rows > 200
           then (Some (Failed (ErrNew ''terminal resize is outside the supported range'')), p)
           else (case F p of Some e \<Rightarrow> (Some (Failed e), p) | None \<Rightarrow> (None, p\<lparr>gp_size := (columns, rows)\<rparr>)))
      else if t = terminalWireClose then (Some Finished, p)
      else (Some (Failed (ErrNew (''unsupported terminal frame '' @ nat_digits t))), p))"

fun guest_inputs :: "(guest_pty \<Rightarrow> go_error option) \<Rightarrow> nat \<Rightarrow> string \<Rightarrow> guest_pty \<Rightarrow> stop \<times> guest_pty" where
  "guest_inputs F 0 s p = (EndOfStream, p)"
| "guest_inputs F (Suc n) s p =
     (case readTerminalFrame s of
        ReadEOF \<Rightarrow> (EndOfStream, p)
      | ReadErr e \<Rightarrow> (Failed e, p)
      | GotFrame t payload rest \<Rightarrow>
          (case guest_input F t payload p of
             (Some r, p') \<Rightarrow> (r, p')
           | (None, p') \<Rightarrow> guest_inputs F n rest p'))"

section \<open>Between browser and control plane\<close>

datatype ws_message = WsBinary string | WsText string | WsOther string

record terminalWebSocketEvent =
  we_Type :: string
  we_Columns :: "32 word"
  we_Rows :: "32 word"
  we_ExitCode :: "32 word"
  we_Message :: string

definition event_of :: "string \<Rightarrow> terminalWebSocketEvent" where
  "event_of t = \<lparr>we_Type = t, we_Columns = 0, we_Rows = 0, we_ExitCode = 0, we_Message = []\<rparr>"

definition ws_frame :: "(string \<Rightarrow> go_error + terminalWebSocketEvent) \<Rightarrow> ws_message \<Rightarrow> go_error + Frame" where
  "ws_frame J m =
     (case m of
        WsBinary payload \<Rightarrow> Inr ((frame_of FrameInput)\<lparr>fr_Data := payload\<rparr>)
      | WsText payload \<Rightarrow>
          (case J payload of
             Inl e \<Rightarrow> Inl (ErrNew ''invalid terminal control message'')
           | Inr ev \<Rightarrow>
               if we_Type ev = ''resize'' then Inr ((frame_of FrameResize)\<lparr>fr_Columns := we_Columns ev, fr_Rows := we_Rows ev\<rparr>)
               else if we_Type ev = ''close'' then Inr (frame_of FrameClose)
               else Inl (ErrNew (''unsupported terminal control message '' @ quoted (we_Type ev))))
      | WsOther payload \<Rightarrow> Inl (ErrNew ''unsupported WebSocket message type''))"

datatype ws_sent = SentBinary string | SentEvent terminalWebSocketEvent

text \<open>What the bridge writes for a frame of the worker, and whether it goes on.\<close>

definition bridge_worker :: "Frame \<Rightarrow> ws_sent list \<times> bool" where
  "bridge_worker f =
     (case fr_Type f of
        FrameOutput \<Rightarrow> ([SentBinary (fr_Data f)], True)
      | FrameExit \<Rightarrow> ([SentEvent ((event_of ''exit'')\<lparr>we_ExitCode := fr_ExitCode f\<rparr>)], False)
      | FrameError \<Rightarrow> ([SentEvent ((event_of ''error'')\<lparr>we_Message := fr_Message f\<rparr>)], False)
      | _ \<Rightarrow> ([], True))"

section \<open>The whole way\<close>

text \<open>One message of the browser through control plane, gRPC and worker; a message that a hop refuses ends the stream.\<close>

definition send_message :: "(string \<Rightarrow> go_error + terminalWebSocketEvent) \<Rightarrow> ws_message \<Rightarrow> relayed" where
  "send_message J m =
     (case ebind (ebind (ws_frame J m) client_Send) terminalFrameFromProto of
        Inl e \<Rightarrow> Hangup [] (Some e)
      | Inr f \<Rightarrow> relay_client f)"

fun send_messages :: "(string \<Rightarrow> go_error + terminalWebSocketEvent) \<Rightarrow> ws_message list \<Rightarrow> string \<times> go_error option" where
  "send_messages J [] = ([], None)"
| "send_messages J (m # ms) =
     (case send_message J m of
        Hangup bytes e \<Rightarrow> (bytes, e)
      | Relay bytes \<Rightarrow> (case send_messages J ms of (bytes', e) \<Rightarrow> (bytes @ bytes', e)))"

text \<open>What the browser sees of the bytes of the guest.\<close>

fun bridge_frames :: "Frame list \<Rightarrow> ws_sent list" where
  "bridge_frames [] = []"
| "bridge_frames (f # fs) =
     (case client_Receive (terminalFrameToProto f) of
        Inl e \<Rightarrow> []
      | Inr g \<Rightarrow> (case bridge_worker g of (out, go_on) \<Rightarrow> if go_on then out @ bridge_frames fs else out))"

definition browser_sees :: "string \<Rightarrow> ws_sent list" where
  "browser_sees s = bridge_frames (fst (receiveTerminalWire (Suc (length s)) s))"


section \<open>Reading what was written\<close>

lemma big_endian_PutUint32: "big_endian (PutUint32 w) = unat w"
proof -
  let ?n = "unat w"
  have "?n < 2 ^ 32" using unsigned_less[of w, where 'a = nat] by simp
  then have "?n div 256 div 256 div 256 < 256" by (simp add: div_mult2_eq[symmetric] div_less_iff_less_mult)
  then have top: "?n div 256 ^ 3 mod 256 = ?n div 256 div 256 div 256" by (simp add: div_mult2_eq[symmetric])
  have mid: "?n div 256 ^ 2 mod 256 = ?n div 256 div 256 mod 256" by (simp add: div_mult2_eq[symmetric])
  have split: "m = 256 * (m div 256) + m mod 256" for m :: nat by simp
  have "?n = 256 * (256 * (256 * (?n div 256 div 256 div 256) + ?n div 256 div 256 mod 256) + ?n div 256 mod 256) + ?n mod 256"
    using split[of ?n] split[of "?n div 256"] split[of "?n div 256 div 256"] by simp
  then show ?thesis by (simp only: big_endian_def PutUint32_def list.map fold_simps of_char_of top mid power_one_right power_0 div_by_1 mult_0_right add_0)
qed

lemma big_endian_PutUint16: "big_endian (PutUint16 w) = unat w"
proof -
  have "unat w < 2 ^ 16" using unsigned_less[of w, where 'a = nat] by simp
  then have "unat w div 256 mod 256 = unat w div 256" by simp
  then show ?thesis by (simp add: big_endian_def PutUint16_def)
qed

lemma length_Put [simp]: "length (PutUint32 w) = 4" "length (PutUint16 v) = 2"
  by (simp_all add: PutUint32_def PutUint16_def)

text \<open>The contract between the two ends of a framed stream.\<close>

locale framing =
  fixes enc :: "nat \<Rightarrow> string \<Rightarrow> go_error + string" and dec :: "string \<Rightarrow> frame_read" and bound :: nat
  assumes write_ok: "length payload \<le> bound \<Longrightarrow> \<exists>b. enc t payload = Inr b"
    and read_write: "t < 256 \<Longrightarrow> enc t payload = Inr b \<Longrightarrow> dec (b @ r) = GotFrame t payload r"
    and read_end: "dec [] = ReadEOF"
    and write_nonempty: "enc t payload = Inr b \<Longrightarrow> b \<noteq> []"

lemma read_written:
  assumes "t < 256" "limit < 2 ^ 32" "write_frame limit t payload = Inr b"
  shows "read_frame limit (b @ r) = GotFrame t payload r"
proof -
  have l: "length payload \<le> limit" and b: "b = char_of t # PutUint32 (of_nat (length payload)) @ payload"
    using assms(3) by (auto simp: write_frame_def split: if_splits)
  have "unat (of_nat (length payload) :: 32 word) = length payload"
    using l assms(2) by (simp add: unat_of_nat take_bit_nat_eq_self)
  with l b assms(1) show ?thesis
    by (simp add: read_frame_def Let_def big_endian_PutUint32)
qed

interpretation to_guest: framing writeTerminalWire readTerminalFrame maxTerminalWirePayload
proof
  have eq: "terminalFrameLimit = maxTerminalWirePayload" "maxTerminalWirePayload < 2 ^ 32"
    by (simp_all add: terminalFrameLimit_def maxTerminalWirePayload_def)
  show "\<exists>b. writeTerminalWire t payload = Inr b" if "length payload \<le> maxTerminalWirePayload" for t payload
    using that by (simp add: writeTerminalWire_def write_frame_def)
  show "readTerminalFrame (b @ r) = GotFrame t payload r" if "t < 256" "writeTerminalWire t payload = Inr b" for t payload b r
    using read_written[OF that(1) eq(2)] that(2) eq(1) by (simp add: readTerminalFrame_def writeTerminalWire_def)
  show "readTerminalFrame [] = ReadEOF" by (simp add: readTerminalFrame_def read_frame_def)
  show "b \<noteq> []" if "writeTerminalWire t payload = Inr b" for t payload b
    using that by (auto simp: writeTerminalWire_def write_frame_def split: if_splits)
qed

interpretation to_worker: framing writeTerminalFrame readTerminalWire terminalFrameLimit
proof
  have eq: "terminalFrameLimit = maxTerminalWirePayload" "terminalFrameLimit < 2 ^ 32"
    by (simp_all add: terminalFrameLimit_def maxTerminalWirePayload_def)
  show "\<exists>b. writeTerminalFrame t payload = Inr b" if "length payload \<le> terminalFrameLimit" for t payload
    using that by (simp add: writeTerminalFrame_def write_frame_def)
  show "readTerminalWire (b @ r) = GotFrame t payload r" if "t < 256" "writeTerminalFrame t payload = Inr b" for t payload b r
    using read_written[OF that(1) eq(2)] that(2) eq(1) by (simp add: readTerminalWire_def writeTerminalFrame_def)
  show "readTerminalWire [] = ReadEOF" by (simp add: readTerminalWire_def read_frame_def)
  show "b \<noteq> []" if "writeTerminalFrame t payload = Inr b" for t payload b
    using that by (auto simp: writeTerminalFrame_def write_frame_def split: if_splits)
qed


section \<open>Input reaches the shell\<close>

text \<open>The messages that every hop accepts: input of at most 64 KiB, and window sizes in the supported range; and what they mean.\<close>

definition acceptable :: "(string \<Rightarrow> go_error + terminalWebSocketEvent) \<Rightarrow> ws_message \<Rightarrow> bool" where
  "acceptable J m =
     (case m of
        WsBinary d \<Rightarrow> length d \<le> 65536
      | WsText msg \<Rightarrow> (case J msg of Inl e \<Rightarrow> False
          | Inr ev \<Rightarrow> we_Type ev = ''resize'' \<and> 20 \<le> we_Columns ev \<and> we_Columns ev \<le> 500 \<and> 5 \<le> we_Rows ev \<and> we_Rows ev \<le> 200)
      | WsOther d \<Rightarrow> False)"

definition applies :: "(string \<Rightarrow> go_error + terminalWebSocketEvent) \<Rightarrow> ws_message \<Rightarrow> guest_pty \<Rightarrow> guest_pty" where
  "applies J m p =
     (case m of
        WsBinary d \<Rightarrow> p\<lparr>gp_input := gp_input p @ d\<rparr>
      | WsText msg \<Rightarrow> (case J msg of Inl e \<Rightarrow> p | Inr ev \<Rightarrow> p\<lparr>gp_size := (ucast (we_Columns ev), ucast (we_Rows ev))\<rparr>)
      | WsOther d \<Rightarrow> p)"

lemma resize_range:
  fixes c r :: "32 word"
  assumes "20 \<le> c" "c \<le> 500" "5 \<le> r" "r \<le> 200"
  shows "\<not> ((ucast c :: 16 word) < 20 \<or> (ucast c :: 16 word) > 500 \<or> (ucast r :: 16 word) < 5 \<or> (ucast r :: 16 word) > 200)"
proof -
  have "unat c \<le> 500" "20 \<le> unat c" "unat r \<le> 200" "5 \<le> unat r"
    using assms by (simp_all add: word_le_nat_alt)
  moreover have "unat (ucast c :: 16 word) = unat c" "unat (ucast r :: 16 word) = unat r"
    using calculation by (simp_all add: unsigned_ucast_eq take_bit_nat_eq_self)
  ultimately show ?thesis by (simp add: word_less_nat_alt)
qed

lemma Relay_written:
  assumes "writeTerminalWire t payload = Inr b" "t < 256"
  shows "b \<noteq> [] \<and> readTerminalFrame (b @ r) = GotFrame t payload r"
  using to_guest.read_write[OF assms(2,1)] to_guest.write_nonempty[OF assms(1)] by simp

lemma send_acceptable:
  assumes "acceptable J m"
  obtains b t payload where "send_message J m = Relay b" "b \<noteq> []" "\<And>r. readTerminalFrame (b @ r) = GotFrame t payload r"
    "\<And>p. guest_input (\<lambda>_. None) t payload p = (None, applies J m p)"
proof (cases m)
  case (WsBinary d)
  have l: "length d \<le> 65536" using assms WsBinary by (simp add: acceptable_def)
  then obtain b where b: "writeTerminalWire terminalWireInput d = Inr b"
    using to_guest.write_ok[of d terminalWireInput] by (auto simp: maxTerminalWirePayload_def)
  have "send_message J m = Relay b"
    using l b by (simp add: WsBinary send_message_def ws_frame_def client_Send_def terminalFrameFromProto_def relay_client_def frame_of_def proto_of_def Let_def)
  with that[of b terminalWireInput d] Relay_written[OF b] show ?thesis
    by (simp add: guest_input_def applies_def WsBinary wire_types)
next
  case (WsText msg)
  then obtain ev where ev: "J msg = Inr ev" "we_Type ev = ''resize''"
    and rg: "20 \<le> we_Columns ev" "we_Columns ev \<le> 500" "5 \<le> we_Rows ev" "we_Rows ev \<le> 200"
    using assms by (auto simp: acceptable_def split: sum.splits)
  let ?c = "ucast (we_Columns ev) :: 16 word" and ?w = "ucast (we_Rows ev) :: 16 word"
  let ?d = "PutUint16 ?c @ PutUint16 ?w"
  obtain b where b: "writeTerminalWire terminalWireResize ?d = Inr b"
    using to_guest.write_ok[of ?d terminalWireResize] by (auto simp: maxTerminalWirePayload_def)
  have "\<not> (we_Columns ev < 20 \<or> we_Columns ev > 500 \<or> we_Rows ev < 5 \<or> we_Rows ev > 200)" using rg by auto
  then have "send_message J m = Relay b"
    using b by (simp add: WsText ev send_message_def ws_frame_def client_Send_def terminalFrameFromProto_def relay_client_def frame_of_def proto_of_def Let_def)
  moreover have "guest_input (\<lambda>_. None) terminalWireResize ?d p = (None, applies J m p)" for p
    using resize_range[OF rg]
    by (simp add: guest_input_def Let_def big_endian_PutUint16 applies_def WsText ev wire_types)
  ultimately show ?thesis using that[of b terminalWireResize ?d] Relay_written[OF b] by (simp add: wire_types)
qed (use assms in \<open>simp add: acceptable_def\<close>)

lemma send_refused:
  assumes "\<not> acceptable J m"
  obtains (none) e where "send_message J m = Hangup [] e"
  | (close) b where "send_message J m = Hangup b None" "b \<noteq> []" "\<And>r. readTerminalFrame (b @ r) = GotFrame terminalWireClose [] r"
proof -
  obtain b where b: "writeTerminalWire terminalWireClose [] = Inr b" using to_guest.write_ok[of "[]" terminalWireClose] by auto
  have big: "length d > 65536 \<Longrightarrow> send_message J (WsBinary d) = Hangup [] (Some (ErrNew ''terminal input frame exceeds 64 KiB''))" for d
    by (simp add: send_message_def ws_frame_def client_Send_def terminalFrameFromProto_def relay_client_def frame_of_def proto_of_def Let_def)
  have closed: "send_message J (WsText msg) = Hangup b None" if "J msg = Inr ev" "we_Type ev = ''close''" for msg ev
    using b that by (simp add: send_message_def ws_frame_def client_Send_def terminalFrameFromProto_def relay_client_def frame_of_def proto_of_def Let_def)
  have small: "send_message J (WsText msg) = Hangup [] (Some (ErrNew ''terminal resize is outside the supported range''))"
    if "J msg = Inr ev" "we_Type ev = ''resize''" "we_Columns ev < 20 \<or> we_Columns ev > 500 \<or> we_Rows ev < 5 \<or> we_Rows ev > 200" for msg ev
    using that by (simp add: send_message_def ws_frame_def client_Send_def terminalFrameFromProto_def relay_client_def frame_of_def proto_of_def Let_def)
  have bad: "\<exists>e. send_message J m' = Hangup [] (Some e)" if "ws_frame J m' = Inl e" for m' e using that by (simp add: send_message_def)
  have "(\<exists>e. send_message J m = Hangup [] e) \<or> send_message J m = Hangup b None"
  proof (cases m)
    case (WsBinary d)
    with assms big show ?thesis by (auto simp: acceptable_def not_le)
  next
    case (WsText msg)
    show ?thesis
    proof (cases "J msg")
      case (Inl e)
      then show ?thesis using bad[of m] WsText by (auto simp: ws_frame_def)
    next
      case (Inr ev)
      consider "we_Type ev = ''resize''" | "we_Type ev = ''close''" | "we_Type ev \<noteq> ''resize''" "we_Type ev \<noteq> ''close''" by blast
      then show ?thesis
      proof cases
        case 1
        with assms Inr WsText small[OF Inr 1] show ?thesis by (auto simp: acceptable_def not_le)
      next
        case 2
        with closed[OF Inr 2] WsText show ?thesis by simp
      next
        case 3
        with bad[of m] Inr WsText show ?thesis by (auto simp: ws_frame_def)
      qed
    qed
  next
    case (WsOther d)
    then show ?thesis using bad[of m] by (auto simp: ws_frame_def)
  qed
  with none close Relay_written[OF b] show thesis by (auto simp: wire_types)
qed

lemma guest_input_close: "guest_input F terminalWireClose payload p = (Some Finished, p)"
  by (simp add: guest_input_def wire_types)

lemma guest_inputs_sent:
  "length (fst (send_messages J ms)) < n \<Longrightarrow>
   snd (guest_inputs (\<lambda>_. None) n (fst (send_messages J ms)) p) = fold (applies J) (takeWhile (acceptable J) ms) p"
proof (induction ms arbitrary: n p)
  case Nil
  then show ?case by (cases n) (simp_all add: to_guest.read_end)
next
  case (Cons m ms)
  from Cons.prems obtain k where n: "n = Suc k" by (cases n) auto
  show ?case
  proof (cases "acceptable J m")
    case True
    then obtain b t payload where b: "send_message J m = Relay b" "b \<noteq> []" "\<And>r. readTerminalFrame (b @ r) = GotFrame t payload r"
      "\<And>p. guest_input (\<lambda>_. None) t payload p = (None, applies J m p)" by (rule send_acceptable) blast
    obtain bs e where r: "send_messages J ms = (bs, e)" by fastforce
    have "length (fst (send_messages J ms)) < k" using Cons.prems b(1,2) n r by (cases b) auto
    from Cons.IH[OF this] r b True n show ?thesis by simp
  next
    case False
    then show ?thesis
    proof (cases rule: send_refused)
      case (none e)
      then show ?thesis using False n by (simp add: to_guest.read_end)
    next
      case (close b)
      have "readTerminalFrame b = GotFrame terminalWireClose [] []" using close(3)[of "[]"] by simp
      with close(1) False n show ?thesis by (simp add: guest_input_close)
    qed
  qed
qed

text \<open>
  C14: whatever messages a browser sends to an attached terminal, the shell in the guest receives exactly the input bytes and window
  sizes of the messages up to the first that is not supported, in order and unchanged, over the WebSocket, gRPC and the
  framed stream to the guest; a refused message and what follows it has no effect.
\<close>

theorem terminal_input_is_faithful:
  assumes "send_messages J ms = (bytes, e)"
  shows "snd (guest_inputs (\<lambda>_. None) (Suc (length bytes)) bytes p) = fold (applies J) (takeWhile (acceptable J) ms) p
    \<and> (list_all (acceptable J) ms \<longrightarrow> e = None)
    \<and> gp_input (fold (applies J) (map WsBinary ds) p) = gp_input p @ concat ds"
proof (intro conjI impI)
  show "snd (guest_inputs (\<lambda>_. None) (Suc (length bytes)) bytes p) = fold (applies J) (takeWhile (acceptable J) ms) p"
    using guest_inputs_sent[of J ms "Suc (length bytes)" p] assms by simp
  show "list_all (acceptable J) ms \<Longrightarrow> e = None"
    using assms
  proof (induction ms arbitrary: bytes)
    case (Cons m ms)
    then obtain b t payload where "send_message J m = Relay b" by (auto elim: send_acceptable)
    with Cons show ?case by (auto split: prod.splits)
  qed simp
  show "gp_input (fold (applies J) (map WsBinary ds) p) = gp_input p @ concat ds"
    by (induction ds arbitrary: p) (simp_all add: applies_def)
qed

section \<open>Output reaches the browser\<close>

text \<open>What the guest writes to an attached client: the chunks of output, and the exit code once the shell has ended.\<close>

fun guest_output :: "string list \<Rightarrow> int option \<Rightarrow> string" where
  "guest_output [] None = []"
| "guest_output [] (Some code) = (case writeTerminalFrame terminalWireExit (PutUint32 (of_int code)) of Inl e \<Rightarrow> [] | Inr bytes \<Rightarrow> bytes)"
| "guest_output (c # cs) code =
     (case writeTerminalFrame terminalWireOutput c of Inl e \<Rightarrow> [] | Inr bytes \<Rightarrow> bytes @ guest_output cs code)"

lemma frames_of_output:
  assumes "\<forall>c \<in> set cs. length c \<le> terminalFrameLimit" "length (guest_output cs code) < n"
  shows "fst (receiveTerminalWire n (guest_output cs code)) =
    map (\<lambda>c. (frame_of FrameOutput)\<lparr>fr_Data := c\<rparr>) cs @ (case code of None \<Rightarrow> [] | Some i \<Rightarrow> [(frame_of FrameExit)\<lparr>fr_ExitCode := of_int i\<rparr>])"
  using assms
proof (induction cs arbitrary: n)
  case Nil
  then obtain k where n: "n = Suc k" by (cases n) auto
  show ?case
  proof (cases code)
    case None
    then show ?thesis by (simp add: n to_worker.read_end)
  next
    case (Some i)
    let ?w = "of_int i :: 32 word"
    obtain b where b: "writeTerminalFrame terminalWireExit (PutUint32 ?w) = Inr b"
      using to_worker.write_ok[of "PutUint32 ?w" terminalWireExit] by (auto simp: terminalFrameLimit_def)
    from to_worker.read_write[OF _ b, of "[]"] have "readTerminalWire b = GotFrame terminalWireExit (PutUint32 ?w) []" by (simp add: wire_types)
    with b Some show ?thesis by (simp add: n guest_frame_def wire_types big_endian_PutUint32 frame_of_def)
  qed
next
  case (Cons c cs)
  then obtain k where n: "n = Suc k" by (cases n) auto
  obtain b where b: "writeTerminalFrame terminalWireOutput c = Inr b" using to_worker.write_ok Cons.prems(1) by (meson list.set_intros(1))
  have nonempty: "b \<noteq> []" using to_worker.write_nonempty[OF b] .
  have "readTerminalWire (b @ guest_output cs code) = GotFrame terminalWireOutput c (guest_output cs code)"
    using to_worker.read_write[OF _ b] by (simp add: wire_types)
  moreover have "length (guest_output cs code) < k" using Cons.prems(2) b nonempty n by (cases b) auto
  ultimately show ?case
    using Cons.IH[of k] Cons.prems(1) b n by (simp add: guest_frame_def wire_types frame_of_def split_beta)
qed

text \<open>
  what the shell in the guest writes reaches the browser as binary messages, unchanged and in order, and its exit code as the
  last event; the exit code is the one the process had, as a signed 32-bit number.
\<close>

theorem terminal_output_is_faithful:
  assumes "\<forall>c \<in> set cs. length c \<le> terminalFrameLimit"
  shows "browser_sees (guest_output cs code) =
    map SentBinary cs @ (case code of None \<Rightarrow> [] | Some i \<Rightarrow> [SentEvent ((event_of ''exit'')\<lparr>we_ExitCode := of_int i\<rparr>)])"
proof -
  have out: "bridge_frames (map (\<lambda>c. (frame_of FrameOutput)\<lparr>fr_Data := c\<rparr>) cs @ fs) = map SentBinary cs @ bridge_frames fs" for fs
    by (induction cs) (simp_all add: client_Receive_def terminalFrameToProto_def bridge_worker_def frame_of_def proto_of_def)
  have ex: "bridge_frames [(frame_of FrameExit)\<lparr>fr_ExitCode := x\<rparr>] = [SentEvent ((event_of ''exit'')\<lparr>we_ExitCode := x\<rparr>)]" for x
    by (simp add: client_Receive_def terminalFrameToProto_def bridge_worker_def frame_of_def proto_of_def)
  show ?thesis
    unfolding browser_sees_def using frames_of_output[OF assms, of code "Suc (length (guest_output cs code))"]
    using out[of "[]"] by (cases code) (simp_all add: out ex del: receiveTerminalWire.simps bridge_frames.simps(2))
qed

section \<open>A sample stream\<close>

definition sample_control :: "string \<Rightarrow> go_error + terminalWebSocketEvent" where
  "sample_control msg = (if msg = ''R'' then Inr ((event_of ''resize'')\<lparr>we_Columns := 80, we_Rows := 24\<rparr>) else Inl (ErrNew ''invalid character''))"

definition sample_pty :: guest_pty where
  "sample_pty = \<lparr>gp_input = [], gp_size = (120, 32)\<rparr>"

text \<open>Two keys, a change of the window and a message that nobody understands; the key after it is not delivered.\<close>

definition sample_messages :: "ws_message list" where
  "sample_messages = [WsBinary ''l'', WsText ''R'', WsBinary ''s'', WsText ''x'', WsBinary ''!'']"

theorem terminal_input_is_faithful_witness:
  "snd (guest_inputs (\<lambda>_. None) (Suc (length (fst (send_messages sample_control sample_messages)))) (fst (send_messages sample_control sample_messages)) sample_pty)
   = \<lparr>gp_input = ''ls'', gp_size = (80, 24)\<rparr>"
proof -
  obtain bytes e where b: "send_messages sample_control sample_messages = (bytes, e)" by fastforce
  have "fold (applies sample_control) (takeWhile (acceptable sample_control) sample_messages) sample_pty = \<lparr>gp_input = ''ls'', gp_size = (80, 24)\<rparr>"
    by (simp add: sample_messages_def acceptable_def applies_def sample_control_def event_of_def sample_pty_def)
  with terminal_input_is_faithful[OF b, of sample_pty] b show ?thesis by simp
qed

theorem terminal_output_is_faithful_witness:
  "browser_sees (guest_output [''a'', ''b''] (Some (-1))) = [SentBinary ''a'', SentBinary ''b'', SentEvent ((event_of ''exit'')\<lparr>we_ExitCode := -1\<rparr>)]"
  using terminal_output_is_faithful[of "[''a'', ''b'']" "Some (-1)"] by (simp add: terminalFrameLimit_def)

end
