(* ===== verification/Guest_Terminal.thy ===== *)
theory Guest_Terminal
  imports Terminal_Wire
begin

text \<open>
  Terminals in the guest (\<open>guest-agent/terminal.go\<close>): the table of terminals, the ring buffer that keeps the latest output, and how
  output reaches an attached client while it comes and goes. Starting a shell, setting the host name and the guest's own
  environment are arguments.
\<close>

section \<open>The ring buffer\<close>

record byteRing =
  br_data :: string
  br_max :: nat

definition newByteRing :: "nat \<Rightarrow> byteRing" where
  "newByteRing m = \<lparr>br_data = [], br_max = m\<rparr>"

definition ring_Write :: "string \<Rightarrow> byteRing \<Rightarrow> byteRing" where
  "ring_Write p r =
     (if length p \<ge> br_max r then r\<lparr>br_data := drop (length p - br_max r) p\<rparr>
      else
        let overflow = length (br_data r) + length p - br_max r;
            kept = drop overflow (br_data r)
        in r\<lparr>br_data := kept @ p\<rparr>)"

definition Snapshot_ring :: "byteRing \<Rightarrow> string" where
  "Snapshot_ring r = br_data r"

section \<open>Opening a terminal\<close>

definition maxGuestTerminals :: nat where "maxGuestTerminals = 256"
definition terminalBufferSize :: nat where "terminalBufferSize = 262144"

record terminalOpenRequest =
  to_ID :: string
  to_Hostname :: string
  to_Shell :: string
  to_Columns :: "16 word"
  to_Rows :: "16 word"
  to_Env :: "(string, string) gomap"

definition ascii_alnum :: "char \<Rightarrow> bool" where
  "ascii_alnum c \<longleftrightarrow> (let n = (of_char c :: nat) in 97 \<le> n \<and> n \<le> 122 \<or> 65 \<le> n \<and> n \<le> 90 \<or> 48 \<le> n \<and> n \<le> 57)"

definition validHostname :: "string \<Rightarrow> bool" where
  "validHostname h \<longleftrightarrow> \<not> (h = [] \<or> length h > 63 \<or> hd h = CHR ''-'' \<or> last h = CHR ''-'') \<and> list_all (\<lambda>c. ascii_alnum c \<or> c = CHR ''-'') h"

definition validateTerminalOpen :: "terminalOpenRequest \<Rightarrow> go_error option" where
  "validateTerminalOpen q =
     (if to_ID q = [] \<or> length (to_ID q) > 128 then Some (ErrNew ''terminal id is required and must not exceed 128 characters'')
      else if \<not> list_all (\<lambda>c. ascii_alnum c \<or> c = CHR ''_'' \<or> c = CHR ''-'') (to_ID q) then Some (ErrNew ''terminal id contains invalid characters'')
      else if to_Shell q \<noteq> ''/bin/bash'' then Some (ErrNew ''unsupported terminal shell'')
      else if to_Hostname q \<noteq> [] \<and> \<not> validHostname (to_Hostname q) then Some (ErrNew ''invalid sandbox hostname'')
      else if to_Columns q < 20 \<or> to_Columns q > 500 \<or> to_Rows q < 5 \<or> to_Rows q > 200
      then Some (ErrNew ''terminal size is outside the supported range'')
      else None)"

text \<open>The environment of the shell: the guest's own, overridden by the request's, and the type of the terminal.\<close>

definition env_entry :: "string \<Rightarrow> (string, string) gomap \<Rightarrow> (string, string) gomap" where
  "env_entry item vs = (case str_cut item (CHR ''='') of None \<Rightarrow> vs | Some (key, value) \<Rightarrow> mput key value vs)"

definition env_override :: "string \<times> string \<Rightarrow> (string, string) gomap \<Rightarrow> (string, string) gomap" where
  "env_override kv vs =
     (case kv of (key, value) \<Rightarrow>
        if key \<noteq> [] \<and> CHR ''='' \<notin> set key \<and> CHR 0x00 \<notin> set key \<and> CHR 0x00 \<notin> set value then mput key value vs else vs)"

definition env_values :: "string list \<Rightarrow> (string, string) gomap \<Rightarrow> (string, string) gomap" where
  "env_values base overrides = mput ''TERM'' ''xterm-256color'' (fold env_override overrides (fold env_entry base []))"

definition mergeEnvironment :: "string list \<Rightarrow> (string, string) gomap \<Rightarrow> string list" where
  "mergeEnvironment base overrides = map (\<lambda>(k, v). k @ ''='' @ v) (env_values base overrides)"

section \<open>The table of terminals\<close>

record terminalSession =
  gt_id :: string
  gt_pid :: nat
  gt_size :: "16 word \<times> 16 word"
  gt_env :: "string list"

record terminalManager =
  gm_sessions :: "(string, terminalSession) gomap"
  gm_max :: nat

record pty_env =
  px_hostname :: "string \<Rightarrow> go_error option"
  px_environ :: "string list"
  px_start :: "terminalOpenRequest \<Rightarrow> go_error + nat"

definition newTerminalManager :: "nat \<Rightarrow> terminalManager" where
  "newTerminalManager m = \<lparr>gm_sessions = [], gm_max = m\<rparr>"

definition gt_Open :: "pty_env \<Rightarrow> terminalOpenRequest \<Rightarrow> terminalManager \<Rightarrow> go_error option \<times> terminalManager" where
  "gt_Open X q m =
     (case validateTerminalOpen q of
        Some e \<Rightarrow> (Some e, m)
      | None \<Rightarrow>
          if mget (gm_sessions m) (to_ID q) \<noteq> None then (Some (ErrNew (''terminal '' @ to_ID q @ '' already exists'')), m)
          else if length (gm_sessions m) \<ge> gm_max m then (Some (ErrNew (''terminal limit reached ('' @ nat_digits (gm_max m) @ '')'')), m)
          else
            (case (if to_Hostname q \<noteq> [] then px_hostname X (to_Hostname q) else None) of
               Some e \<Rightarrow> (Some (Wrapf ''set sandbox hostname'' e), m)
             | None \<Rightarrow>
                 (case px_start X q of
                    Inl e \<Rightarrow> (Some (Wrapf ''start terminal shell'' e), m)
                  | Inr pid \<Rightarrow>
                      (None, m\<lparr>gm_sessions := mput (to_ID q) \<lparr>gt_id = to_ID q, gt_pid = pid, gt_size = (to_Columns q, to_Rows q),
                         gt_env = mergeEnvironment (px_environ X) (to_Env q)\<rparr> (gm_sessions m)\<rparr>))))"

text \<open>Closing removes the terminal and stops its shell; the stopped processes are returned.\<close>

definition gt_Close :: "string \<Rightarrow> terminalManager \<Rightarrow> (go_error option \<times> nat list) \<times> terminalManager" where
  "gt_Close i m =
     (case mget (gm_sessions m) i of
        None \<Rightarrow> ((Some (ErrNew (''terminal '' @ i @ '' not found'')), []), m)
      | Some sess \<Rightarrow> ((None, [gt_pid sess]), m\<lparr>gm_sessions := mdel i (gm_sessions m)\<rparr>))"

definition gt_CloseAll :: "terminalManager \<Rightarrow> nat list \<times> terminalManager" where
  "gt_CloseAll m = (map (\<lambda>(i, sess). gt_pid sess) (gm_sessions m), m\<lparr>gm_sessions := []\<rparr>)"

text \<open>The end of \<open>capture\<close>: a terminal that was replaced meanwhile stays.\<close>

definition gt_captured :: "terminalSession \<Rightarrow> terminalManager \<Rightarrow> terminalManager" where
  "gt_captured sess m =
     (if mget (gm_sessions m) (gt_id sess) = Some sess then m\<lparr>gm_sessions := mdel (gt_id sess) (gm_sessions m)\<rparr> else m)"

section \<open>Output of one terminal\<close>

text \<open>
  The shared part of a terminal session. \<open>capture\<close> is the only goroutine that publishes; a publication is a step under the lock and,
  later, the sending of the chunk to the client it saw attached. A client is a number; what was sent to it is kept.
\<close>

record output_state =
  os_ring :: byteRing
  os_nextSeq :: nat
  os_attached :: "nat option"
  os_done :: bool
  os_sending :: "(string \<times> nat \<times> nat option) option"
  os_clients :: "(nat, nat \<times> string \<times> string list) gomap"
  os_next :: nat

definition new_output :: output_state where
  "new_output = \<lparr>os_ring = newByteRing terminalBufferSize, os_nextSeq = 0, os_attached = None, os_done = False, os_sending = None,
     os_clients = [], os_next = 0\<rparr>"

definition gt_subscribe :: "output_state \<Rightarrow> (go_error + nat \<times> string) \<times> output_state" where
  "gt_subscribe s =
     (if os_done s then (Inl (ErrNew ''terminal process has exited''), s)
      else if os_attached s \<noteq> None then (Inl (ErrNew ''terminal already has an attached client''), s)
      else (Inr (os_next s, Snapshot_ring (os_ring s)),
            s\<lparr>os_attached := Some (os_next s), os_next := Suc (os_next s),
              os_clients := mput (os_next s) (os_nextSeq s, Snapshot_ring (os_ring s), []) (os_clients s)\<rparr>))"

definition gt_detach :: "nat \<Rightarrow> output_state \<Rightarrow> output_state" where
  "gt_detach c s = (if os_attached s = Some c then s\<lparr>os_attached := None\<rparr> else s)"

definition publish_locked :: "string \<Rightarrow> output_state \<Rightarrow> output_state" where
  "publish_locked chunk s =
     s\<lparr>os_ring := ring_Write chunk (os_ring s), os_nextSeq := Suc (os_nextSeq s), os_sending := Some (chunk, Suc (os_nextSeq s), os_attached s)\<rparr>"

definition publish_send :: "output_state \<Rightarrow> output_state" where
  "publish_send s =
     (case os_sending s of
        None \<Rightarrow> s
      | Some (chunk, sequence, None) \<Rightarrow> s\<lparr>os_sending := None\<rparr>
      | Some (chunk, sequence, Some c) \<Rightarrow>
          (case mget (os_clients s) c of
             None \<Rightarrow> s\<lparr>os_sending := None\<rparr>
           | Some (afterSeq, backlog, sent) \<Rightarrow>
               if sequence > afterSeq then s\<lparr>os_sending := None, os_clients := mput c (afterSeq, backlog, sent @ [chunk]) (os_clients s)\<rparr>
               else s\<lparr>os_sending := None\<rparr>))"

definition gt_finish :: "output_state \<Rightarrow> output_state" where
  "gt_finish s = s\<lparr>os_done := True\<rparr>"

text \<open>All interleavings of the shell's output with clients that attach and detach, with the chunks published so far. A chunk on its way to
  a client that has detached may be dropped.\<close>

inductive output_run :: "string list \<Rightarrow> output_state \<Rightarrow> bool" where
  run_new: "output_run [] new_output"
| run_subscribe: "output_run cs s \<Longrightarrow> output_run cs (snd (gt_subscribe s))"
| run_detach: "output_run cs s \<Longrightarrow> output_run cs (gt_detach c s)"
| run_publish: "output_run cs s \<Longrightarrow> os_sending s = None \<Longrightarrow> \<not> os_done s \<Longrightarrow> output_run (cs @ [chunk]) (publish_locked chunk s)"
| run_send: "output_run cs s \<Longrightarrow> output_run cs (publish_send s)"
| run_drop: "output_run cs s \<Longrightarrow> os_sending s = Some (chunk, q, Some c) \<Longrightarrow> os_attached s \<noteq> Some c \<Longrightarrow> output_run cs (s\<lparr>os_sending := None\<rparr>)"
| run_finish: "output_run cs s \<Longrightarrow> os_sending s = None \<Longrightarrow> output_run cs (gt_finish s)"


section \<open>The ring keeps the latest output\<close>

definition latest :: "nat \<Rightarrow> string \<Rightarrow> string" where
  "latest n xs = drop (length xs - n) xs"

lemma ring_Write_latest:
  assumes "br_data r = latest (br_max r) xs"
  shows "br_data (ring_Write p r) = latest (br_max r) (xs @ p)" "br_max (ring_Write p r) = br_max r"
proof -
  show "br_max (ring_Write p r) = br_max r" by (simp add: ring_Write_def Let_def)
  show "br_data (ring_Write p r) = latest (br_max r) (xs @ p)"
  proof (cases "length p \<ge> br_max r")
    case True
    then show ?thesis by (simp add: ring_Write_def latest_def)
  next
    case False
    then show ?thesis using assms by (cases "length xs \<le> br_max r") (simp_all add: ring_Write_def latest_def Let_def add.commute)
  qed
qed

lemma ring_writes: "br_data (fold ring_Write cs (newByteRing n)) = latest n (concat cs) \<and> br_max (fold ring_Write cs (newByteRing n)) = n"
proof (induction cs rule: rev_induct)
  case (snoc c cs)
  then show ?case using ring_Write_latest[of "fold ring_Write cs (newByteRing n)" "concat cs" c] by simp
qed (simp add: newByteRing_def latest_def)

section \<open>An attached client misses nothing\<close>

text \<open>A client is its sequence number at the start, its backlog and what was sent to it.\<close>

definition client_ok :: "string list \<Rightarrow> nat \<times> string \<times> string list \<Rightarrow> bool" where
  "client_ok cs x \<longleftrightarrow> fst x \<le> length cs \<and> fst (snd x) = latest terminalBufferSize (concat (take (fst x) cs))
     \<and> (\<exists>k. snd (snd x) = take k (drop (fst x) cs))"

definition sending_ok :: "string list \<Rightarrow> output_state \<Rightarrow> string \<Rightarrow> nat \<Rightarrow> nat \<Rightarrow> bool" where
  "sending_ok cs s ch q c \<longleftrightarrow> (\<exists>x. mget (os_clients s) c = Some x \<and> fst x < q \<and> snd (snd x) @ [ch] = drop (fst x) cs)"

definition attached_ok :: "string list \<Rightarrow> output_state \<Rightarrow> nat \<Rightarrow> bool" where
  "attached_ok cs s c \<longleftrightarrow> (\<exists>x. mget (os_clients s) c = Some x \<and> (snd (snd x) = drop (fst x) cs \<or> (\<exists>ch q. os_sending s = Some (ch, q, Some c))))"

definition output_inv :: "string list \<Rightarrow> output_state \<Rightarrow> bool" where
  "output_inv cs s \<longleftrightarrow> os_nextSeq s = length cs \<and> os_ring s = fold ring_Write cs (newByteRing terminalBufferSize)
     \<and> (\<forall>c x. mget (os_clients s) c = Some x \<longrightarrow> c < os_next s \<and> client_ok cs x)
     \<and> (\<forall>c. os_attached s = Some c \<longrightarrow> attached_ok cs s c)
     \<and> (\<forall>ch q c. os_sending s = Some (ch, q, Some c) \<longrightarrow> sending_ok cs s ch q c)"

lemma client_ok_snoc: "client_ok cs x \<Longrightarrow> client_ok (cs @ [chunk]) x"
proof -
  assume ok: "client_ok cs x"
  then obtain k where k: "snd (snd x) = take k (drop (fst x) cs)" by (auto simp: client_ok_def)
  have "take k (drop (fst x) cs) = take (min k (length cs - fst x)) (drop (fst x) (cs @ [chunk]))"
    using ok by (simp add: client_ok_def take_append min_def)
  with k have "\<exists>k. snd (snd x) = take k (drop (fst x) (cs @ [chunk]))" by metis
  with ok show ?thesis unfolding client_ok_def by simp
qed

lemma inv_client: "output_inv cs s \<Longrightarrow> mget (os_clients s) c = Some x \<Longrightarrow> c < os_next s \<and> client_ok cs x"
  unfolding output_inv_def by blast

lemma inv_subscribe:
  assumes "output_inv cs s"
  shows "output_inv cs (snd (gt_subscribe s))"
proof (cases "os_done s \<or> os_attached s \<noteq> None")
  case True
  then show ?thesis using assms by (auto simp: gt_subscribe_def)
next
  case False
  let ?c = "os_next s" and ?x = "(os_nextSeq s, Snapshot_ring (os_ring s), [] :: string list)" and ?s = "snd (gt_subscribe s)"
  have s: "?s = s\<lparr>os_attached := Some ?c, os_next := Suc ?c, os_clients := mput ?c ?x (os_clients s)\<rparr>"
    using False by (simp add: gt_subscribe_def)
  have ok: "client_ok cs ?x"
    using assms ring_writes[of cs terminalBufferSize] by (simp add: output_inv_def client_ok_def Snapshot_ring_def)
  have old: "mget (os_clients s) c = Some x \<Longrightarrow> c \<noteq> ?c" for c x using inv_client[OF assms] by blast
  have "sending_ok cs ?s ch q c" if "os_sending s = Some (ch, q, Some c)" for ch q c
    using assms that old by (auto simp: output_inv_def sending_ok_def s)
  moreover have "attached_ok cs ?s ?c" using assms by (simp add: attached_ok_def s output_inv_def)
  ultimately show ?thesis using assms ok by (auto simp: output_inv_def s less_Suc_eq)
qed

lemma inv_publish:
  assumes "output_inv cs s" "os_sending s = None"
  shows "output_inv (cs @ [chunk]) (publish_locked chunk s)"
proof -
  let ?s = "publish_locked chunk s"
  have c: "os_clients ?s = os_clients s" "os_attached ?s = os_attached s" "os_sending ?s = Some (chunk, Suc (length cs), os_attached s)"
    "os_next ?s = os_next s"
    using assms(1) by (simp_all add: publish_locked_def output_inv_def)
  have att: "attached_ok cs s c" if "os_attached s = Some c" for c using assms(1) that by (simp add: output_inv_def)
  have "sending_ok (cs @ [chunk]) ?s chunk (Suc (length cs)) c" if "os_attached s = Some c" for c
  proof -
    from att[OF that] assms(2) obtain x where x: "mget (os_clients s) c = Some x" "snd (snd x) = drop (fst x) cs" by (auto simp: attached_ok_def)
    then have "client_ok cs x" using inv_client[OF assms(1)] by blast
    with x c show ?thesis by (auto simp: sending_ok_def client_ok_def)
  qed
  moreover have "attached_ok (cs @ [chunk]) ?s c" if "os_attached s = Some c" for c
    using att[OF that] that c by (auto simp: attached_ok_def)
  moreover have "client_ok (cs @ [chunk]) x \<and> i < os_next s" if "mget (os_clients s) i = Some x" for i x
    using inv_client[OF assms(1) that] client_ok_snoc by blast
  ultimately show ?thesis using assms(1) c by (auto simp: output_inv_def publish_locked_def)
qed

lemma inv_send:
  assumes "output_inv cs s"
  shows "output_inv cs (publish_send s)"
proof (cases "os_sending s")
  case (Some y)
  obtain ch q t where y: "y = (ch, q, t)" by (cases y) auto
  show ?thesis
  proof (cases t)
    case None
    then show ?thesis using assms Some y by (auto simp: publish_send_def output_inv_def attached_ok_def)
  next
    case (Some c)
    from assms \<open>os_sending s = Some y\<close> y Some have "sending_ok cs s ch q c" by (simp add: output_inv_def)
    then obtain a b sent where x: "mget (os_clients s) c = Some (a, b, sent)" "a < q" "sent @ [ch] = drop a cs" by (auto simp: sending_ok_def)
    have s: "publish_send s = s\<lparr>os_sending := None, os_clients := mput c (a, b, drop a cs) (os_clients s)\<rparr>"
      using \<open>os_sending s = Some y\<close> y Some x by (simp add: publish_send_def)
    have "client_ok cs (a, b, sent)" using inv_client[OF assms x(1)] by blast
    then have "client_ok cs (a, b, drop a cs)" by (auto simp: client_ok_def intro: exI[of _ "length cs"])
    moreover have "attached_ok cs (publish_send s) c'" if "os_attached s = Some c'" for c'
      using assms that \<open>os_sending s = Some y\<close> y Some by (cases "c' = c") (auto simp: output_inv_def attached_ok_def s)
    ultimately show ?thesis using assms x(1) by (auto simp: output_inv_def s)
  qed
qed (use assms in \<open>simp add: publish_send_def\<close>)

lemma output_inv_run: "output_run cs s \<Longrightarrow> output_inv cs s"
proof (induction rule: output_run.induct)
  case run_new
  then show ?case by (simp add: output_inv_def new_output_def)
next
  case (run_drop cs s chunk q c)
  then show ?case by (auto simp: output_inv_def attached_ok_def)
next
  case (run_detach cs s c)
  then show ?case by (simp add: gt_detach_def output_inv_def sending_ok_def)
next
  case (run_finish cs s)
  then show ?case by (simp add: gt_finish_def output_inv_def attached_ok_def)
qed (rule inv_subscribe inv_publish inv_send; assumption)+

text \<open>
  C13: a client that attaches to a terminal gets the output without a gap and without repetition: first the latest 256 KiB of what the
  shell wrote before, then the later chunks in order, and all of them as long as it is attached and no chunk is on its way. Whatever
  clients attached and detached before, and wherever in the middle of a publication that happened.
\<close>

theorem attached_client_misses_nothing:
  assumes "output_run cs s" "mget (os_clients s) c = Some (a, backlog, sent)"
  shows "backlog = latest 262144 (concat (take a cs)) \<and> (\<exists>k. sent = take k (drop a cs))
    \<and> (os_attached s = Some c \<and> os_sending s = None \<longrightarrow> backlog @ concat sent = latest 262144 (concat (take a cs)) @ concat (drop a cs))"
proof -
  have inv: "output_inv cs s" using output_inv_run[OF assms(1)] .
  have "client_ok cs (a, backlog, sent)" using inv_client[OF inv assms(2)] by blast
  moreover have "sent = drop a cs" if "os_attached s = Some c" "os_sending s = None"
    using inv that assms(2) by (auto simp: output_inv_def attached_ok_def)
  ultimately show ?thesis by (simp add: client_ok_def terminalBufferSize_def)
qed

section \<open>The table stays within its limit\<close>

lemma gt_Open_table:
  assumes "length (gm_sessions m) \<le> gm_max m" "gt_Open X q m = (err, m')"
  shows "length (gm_sessions m') \<le> gm_max m'" "gm_max m' = gm_max m"
    and "err \<noteq> None \<Longrightarrow> m' = m" "err = None \<Longrightarrow> validateTerminalOpen q = None \<and> mget (gm_sessions m) (to_ID q) = None \<and> mget (gm_sessions m') (to_ID q) \<noteq> None"
  using assms by (auto simp: gt_Open_def length_mput split: option.splits if_splits sum.splits)

lemma env_TERM: "mget (env_values base overrides) ''TERM'' = Some ''xterm-256color''"
  by (simp add: env_values_def)

section \<open>A sample terminal\<close>

text \<open>A client attaches between two chunks.\<close>

definition sample_output :: output_state where
  "sample_output = publish_send (publish_locked ''b'' (snd (gt_subscribe (publish_send (publish_locked ''a'' new_output)))))"

lemma sample_output_run: "output_run [''a'', ''b''] sample_output"
proof -
  have "output_run ([] @ [''a'']) (publish_locked ''a'' new_output)"
    by (rule run_publish[OF run_new]) (simp_all add: new_output_def)
  then have 1: "output_run [''a''] (snd (gt_subscribe (publish_send (publish_locked ''a'' new_output))))"
    by (intro run_subscribe run_send) simp
  have "output_run ([''a''] @ [''b'']) (publish_locked ''b'' (snd (gt_subscribe (publish_send (publish_locked ''a'' new_output)))))"
    by (rule run_publish[OF 1]) (simp_all add: new_output_def publish_locked_def publish_send_def gt_subscribe_def)
  then show ?thesis unfolding sample_output_def by (intro run_send) simp
qed

lemma sample_output_state:
  "mget (os_clients sample_output) 0 = Some (1, ''a'', [''b''])" "os_attached sample_output = Some 0" "os_sending sample_output = None"
  by (simp_all add: sample_output_def new_output_def publish_locked_def publish_send_def gt_subscribe_def Snapshot_ring_def ring_Write_def newByteRing_def
      terminalBufferSize_def)

theorem attached_client_misses_nothing_witness:
  "''a'' @ concat [''b''] = latest 262144 (concat (take 1 [''a'', ''b''])) @ concat (drop 1 [''a'', ''b''])"
  using attached_client_misses_nothing[OF sample_output_run sample_output_state(1)] sample_output_state(2,3) by blast

end
