(* ===== verification/Guest_Network.thy ===== *)
theory Guest_Network
  imports Prelude "HOL-Library.Word"
begin

text \<open>
  The network configuration of the guest (\<open>guest-agent/main.go\<close>): parsing of addresses and of \<open>/etc/vm-network.env\<close>, and
  the two netlink requests behind \<open>configure_network\<close>. A request is kept as the fields the code sets; their byte layout, the kernel
  and the files are arguments. The main theorem says that an address written in dotted form reaches the kernel as its four bytes.
\<close>

section \<open>Numbers and addresses\<close>

text \<open>\<open>strconv.Atoi\<close>: the value and the error; a number that does not fit is cut to the range.\<close>

definition is_digit :: "char \<Rightarrow> bool" where
  "is_digit c \<longleftrightarrow> 48 \<le> (of_char c :: nat) \<and> (of_char c :: nat) \<le> 57"

definition Atoi :: "string \<Rightarrow> int \<times> go_error option" where
  "Atoi s =
     (let fail = (\<lambda>m. Some (ErrNew (''strconv.Atoi: parsing '' @ quoted s @ '': '' @ m)));
          negative = (s \<noteq> [] \<and> hd s = CHR ''-'');
          ds = (if s \<noteq> [] \<and> (hd s = CHR ''-'' \<or> hd s = CHR ''+'') then tl s else s);
          v = (if negative then - int (digits_val ds) else int (digits_val ds)) in
      if ds = [] \<or> \<not> list_all is_digit ds then (0, fail ''invalid syntax'')
      else if v > 2 ^ 63 - 1 then (2 ^ 63 - 1, fail ''value out of range'')
      else if v < - (2 ^ 63) then (- (2 ^ 63), fail ''value out of range'')
      else (v, None))"

text \<open>\<open>strings.Split\<close> on one byte.\<close>

fun split_on :: "char \<Rightarrow> string \<Rightarrow> string list" where
  "split_on sep [] = [[]]"
| "split_on sep (c # s) =
     (if c = sep then [] # split_on sep s else (case split_on sep s of [] \<Rightarrow> [[c]] | x # xs \<Rightarrow> (c # x) # xs))"

fun parse_octets :: "string \<Rightarrow> string list \<Rightarrow> go_error + 8 word list" where
  "parse_octets s [] = Inr []"
| "parse_octets s (p # ps) =
     (case Atoi p of (n, err) \<Rightarrow>
        if err \<noteq> None \<or> n < 0 \<or> n > 255 then Inl (ErrNew (''invalid octet '' @ quoted p @ '' in '' @ s))
        else (case parse_octets s ps of Inl e \<Rightarrow> Inl e | Inr ip \<Rightarrow> Inr (of_int n # ip)))"

definition parseIPv4 :: "string \<Rightarrow> go_error + 8 word list" where
  "parseIPv4 s =
     (let parts = split_on (CHR ''.'') s in
      if length parts \<noteq> 4 then Inl (ErrNew (''invalid IPv4: '' @ s)) else parse_octets s parts)"

text \<open>\<open>strings.LastIndex\<close> and the two parts around it.\<close>

definition cut_last :: "char \<Rightarrow> string \<Rightarrow> (string \<times> string) option" where
  "cut_last sep s =
     (if sep \<notin> set s then None
      else let tail = rev (takeWhile (\<lambda>c. c \<noteq> sep) (rev s)) in Some (take (length s - length tail - 1) s, tail))"

section \<open>Netlink requests\<close>

datatype nl_type = RTM_NEWADDR | RTM_NEWROUTE

datatype nlm_flag = NLM_F_REQUEST | NLM_F_CREATE | NLM_F_REPLACE | NLM_F_ACK

datatype nl_body =
    IfAddrmsg (ifa_Prefixlen: "8 word") (ifa_nodad: bool) (ifa_Index: "32 word")
  | RtMsg (rtm_Dst_len: "8 word") (rtm_main: bool) (rtm_unicast: bool)

datatype nl_attr = IFA_LOCAL "8 word list" | RTA_GATEWAY "8 word list"

record netlink_msg =
  nl_Type :: nl_type
  nl_Flags :: "nlm_flag list"
  nl_Seq :: "32 word"
  nl_Body :: nl_body
  nl_Attr :: nl_attr

datatype nl_reply = NlShort nat | NlError int | NlOther

record net_env =
  nx_read :: "string \<Rightarrow> go_error + string"
  nx_socket :: "go_error option"
  nx_send :: "netlink_msg \<Rightarrow> go_error option"
  nx_recv :: "netlink_msg \<Rightarrow> go_error + nl_reply"
  nx_write :: "string \<Rightarrow> go_error option"
  nx_errno :: "int \<Rightarrow> go_error"

text \<open>The exchange at the end of both requests; the messages that were sent come with the error.\<close>

definition netlink_exchange :: "net_env \<Rightarrow> netlink_msg \<Rightarrow> go_error option \<times> netlink_msg list" where
  "netlink_exchange X msg =
     (case nx_send X msg of
        Some e \<Rightarrow> (Some (Wrapf ''sendto'' e), [])
      | None \<Rightarrow>
          (case nx_recv X msg of
             Inl e \<Rightarrow> Some (Wrapf ''recvfrom'' e)
           | Inr (NlShort n) \<Rightarrow> Some (ErrNew (''short netlink response: '' @ nat_digits n @ '' bytes''))
           | Inr (NlError errno) \<Rightarrow> if errno \<noteq> 0 then Some (Wrapf ''netlink error'' (nx_errno X (- errno))) else None
           | Inr NlOther \<Rightarrow> None, [msg]))"

definition request_flags :: "nlm_flag list" where
  "request_flags = [NLM_F_REQUEST, NLM_F_CREATE, NLM_F_REPLACE, NLM_F_ACK]"

definition addr_msg :: "int \<Rightarrow> int \<Rightarrow> 8 word list \<Rightarrow> netlink_msg" where
  "addr_msg prefixLen ifindex ip =
     \<lparr>nl_Type = RTM_NEWADDR, nl_Flags = request_flags, nl_Seq = 1, nl_Body = IfAddrmsg (of_int prefixLen) True (of_int ifindex), nl_Attr = IFA_LOCAL ip\<rparr>"

definition route_msg :: "8 word list \<Rightarrow> netlink_msg" where
  "route_msg gw = \<lparr>nl_Type = RTM_NEWROUTE, nl_Flags = request_flags, nl_Seq = 1, nl_Body = RtMsg 0 True True, nl_Attr = RTA_GATEWAY gw\<rparr>"

definition netlinkAddAddr :: "net_env \<Rightarrow> string \<Rightarrow> string \<Rightarrow> go_error option \<times> netlink_msg list" where
  "netlinkAddAddr X iface cidr =
     (case cut_last (CHR ''/'') cidr of
        None \<Rightarrow> (Some (ErrNew (''invalid cidr: '' @ cidr)), [])
      | Some (ip, len) \<Rightarrow>
          (case parseIPv4 ip of
             Inl e \<Rightarrow> (Some (Wrapf ''parse ip'' e), [])
           | Inr ipBytes \<Rightarrow>
               (case Atoi len of
                  (_, Some e) \<Rightarrow> (Some (Wrapf (''parse prefix len in '' @ cidr) e), [])
                | (prefixLen, None) \<Rightarrow>
                    if prefixLen < 0 \<or> prefixLen > 32 then (Some (ErrNew (''parse prefix len in '' @ cidr @ '': %!w(<nil>)'')), [])
                    else
                      (case nx_read X (''/sys/class/net/'' @ iface @ ''/ifindex'') of
                         Inl e \<Rightarrow> (Some (Wrapf (''read ifindex for '' @ iface) e), [])
                       | Inr raw \<Rightarrow>
                           (case Atoi (trim_space raw) of
                              (_, Some e) \<Rightarrow> (Some (Wrapf ''parse ifindex'' e), [])
                            | (ifindex, None) \<Rightarrow>
                                (case nx_socket X of
                                   Some e \<Rightarrow> (Some (Wrapf ''netlink socket'' e), [])
                                 | None \<Rightarrow> netlink_exchange X (addr_msg prefixLen ifindex ipBytes)))))))"

definition netlinkReplaceDefaultRoute :: "net_env \<Rightarrow> string \<Rightarrow> go_error option \<times> netlink_msg list" where
  "netlinkReplaceDefaultRoute X gwIP =
     (case parseIPv4 gwIP of
        Inl e \<Rightarrow> (Some (Wrapf ''invalid gateway IP'' e), [])
      | Inr gw \<Rightarrow>
          (case nx_socket X of
             Some e \<Rightarrow> (Some (Wrapf ''netlink socket'' e), [])
           | None \<Rightarrow> netlink_exchange X (route_msg gw)))"

text \<open>The errors are only logged: the answer is always a success. The messages the kernel got and the name server are the effect.\<close>

record net_effect =
  ne_sent :: "netlink_msg list"
  ne_resolv :: "string option"

definition handleNetworkConfig :: "net_env \<Rightarrow> string \<Rightarrow> string \<Rightarrow> bool \<times> net_effect" where
  "handleNetworkConfig X guestIP gwIP =
     (let (err1, sent1) = netlinkAddAddr X ''eth0'' (guestIP @ ''/30'');
          (err2, sent2) = netlinkReplaceDefaultRoute X gwIP;
          resolv = ''nameserver 8.8.8.8'' @ [CHR 0x0A]
      in (True, \<lparr>ne_sent = sent1 @ sent2, ne_resolv = (if nx_write X resolv = None then Some resolv else None)\<rparr>))"

section \<open>The file the image carries\<close>

definition network_line :: "string \<Rightarrow> string \<times> string \<Rightarrow> string \<times> string" where
  "network_line line cfg =
     (case str_cut line (CHR ''='') of
        None \<Rightarrow> cfg
      | Some (key, value) \<Rightarrow>
          if key = ''GUESTIP'' then (value, snd cfg) else if key = ''GWIP'' then (fst cfg, value) else cfg)"

definition readNetworkConfig :: "net_env \<Rightarrow> string \<times> string" where
  "readNetworkConfig X =
     (case nx_read X ''/etc/vm-network.env'' of
        Inl e \<Rightarrow> ([], [])
      | Inr content \<Rightarrow> fold network_line (split_on (CHR 0x0A) content) ([], []))"

text \<open>The commands \<open>main\<close> runs for \<open>eth0\<close> at boot; without both addresses there are none.\<close>

definition eth0_commands :: "net_env \<Rightarrow> string list list" where
  "eth0_commands X =
     (case readNetworkConfig X of (guestIP, gwIP) \<Rightarrow>
        if guestIP \<noteq> [] \<and> gwIP \<noteq> [] then
          [[''/sbin/ip'', ''addr'', ''add'', guestIP @ ''/30'', ''dev'', ''eth0''],
           [''/sbin/ip'', ''link'', ''set'', ''eth0'', ''up''],
           [''/sbin/ip'', ''route'', ''add'', ''default'', ''via'', gwIP]]
        else [])"

section \<open>What is written is what is read\<close>

lemma Atoi_digits [simp]: "n < 2 ^ 63 \<Longrightarrow> Atoi (nat_digits n) = (int n, None)"
proof -
  assume n: "n < 2 ^ 63"
  have digits: "list_all is_digit (nat_digits n)" by (simp add: list_all_iff is_digit_def nat_digits_chars)
  have "hd (nat_digits n) \<in> set (nat_digits n)" by (rule hd_in_set) simp
  then have sign: "hd (nat_digits n) \<noteq> CHR ''-'' \<and> hd (nat_digits n) \<noteq> CHR ''+''"
    using nat_digits_chars[of "hd (nat_digits n)" n] by auto
  have "int n \<le> 2 ^ 63 - 1" using n by simp
  then show ?thesis using digits sign by (simp add: Atoi_def Let_def)
qed

lemma split_on_plain: "sep \<notin> set s \<Longrightarrow> split_on sep s = [s]"
  by (induction s) auto

lemma split_on_append: "sep \<notin> set s \<Longrightarrow> split_on sep (s @ sep # t) = s # split_on sep t"
  by (induction s) auto

definition dotted :: "8 word list \<Rightarrow> string" where
  "dotted ip = (case map (\<lambda>b. nat_digits (unat b)) ip of [a, b, c, d] \<Rightarrow> a @ ''.'' @ b @ ''.'' @ c @ ''.'' @ d | _ \<Rightarrow> [])"

lemma dot_notin_nat_digits [simp]: "CHR ''.'' \<notin> set (nat_digits n)"
  using nat_digits_chars[of "CHR ''.''" n] by auto

lemma slash_notin_nat_digits [simp]: "CHR ''/'' \<notin> set (nat_digits n)"
  using nat_digits_chars[of "CHR ''/''" n] by auto

lemma parse_octets_digits: "parse_octets s (map (\<lambda>b. nat_digits (unat b)) ip) = Inr ip"
proof (induction ip)
  case (Cons b ip)
  have "unat b < 256" "uint b < 256" using unsigned_less[of b, where 'a = nat] unsigned_less[of b, where 'a = int] by simp_all
  then show ?case using Cons by (simp add: not_less)
qed simp

lemma parseIPv4_dotted: "parseIPv4 (dotted [a, b, c, d]) = Inr [a, b, c, d]"
proof -
  have "split_on (CHR ''.'') (dotted [a, b, c, d]) = map (\<lambda>b. nat_digits (unat b)) [a, b, c, d]"
    by (simp add: dotted_def split_on_append split_on_plain)
  then show ?thesis using parse_octets_digits[of _ "[a, b, c, d]"] by (simp add: parseIPv4_def)
qed

lemma parseIPv4_length: "parseIPv4 s = Inr ip \<Longrightarrow> length ip = 4"
proof -
  have "parse_octets s ps = Inr ip' \<Longrightarrow> length ip' = length ps" for ps ip'
    by (induction ps arbitrary: ip') (auto split: prod.splits if_splits sum.splits)
  then show "parseIPv4 s = Inr ip \<Longrightarrow> length ip = 4" by (auto simp: parseIPv4_def Let_def split: if_splits)
qed

lemma cut_last_append: "sep \<notin> set t \<Longrightarrow> cut_last sep (s @ sep # t) = Some (s, t)"
proof -
  assume t: "sep \<notin> set t"
  then have "takeWhile (\<lambda>c. c \<noteq> sep) (rev (s @ sep # t)) = rev t"
    using takeWhile_append2[of "rev t" "\<lambda>c. c \<noteq> sep" "sep # rev s"] by fastforce
  then show ?thesis unfolding cut_last_def Let_def by simp
qed

text \<open>
  An address is configured as it was written: when the interface index can be read and the kernel accepts the requests, a
  \<open>configure_network\<close> message with the dotted forms of four guest bytes and four gateway bytes makes the kernel receive exactly two
  requests: the guest address on that interface with a prefix of 30 bits and no duplicate address detection, and then the default
  route through the gateway.
\<close>

theorem network_config_applies:
  assumes "nx_read X ''/sys/class/net/eth0/ifindex'' = Inr raw" "Atoi (trim_space raw) = (ifindex, None)"
    and "nx_socket X = None" "nx_send X (addr_msg 30 ifindex [a, b, c, d]) = None" "nx_send X (route_msg [e, f, g, h]) = None"
  shows "ne_sent (snd (handleNetworkConfig X (dotted [a, b, c, d]) (dotted [e, f, g, h])))
           = [addr_msg 30 ifindex [a, b, c, d], route_msg [e, f, g, h]]"
proof -
  have cut: "cut_last (CHR ''/'') (dotted [a, b, c, d] @ ''/30'') = Some (dotted [a, b, c, d], ''30'')"
    using cut_last_append[of "CHR ''/''" "''30''" "dotted [a, b, c, d]"] by simp
  have thirty: "Atoi ''30'' = (30, None)" by code_simp
  have exchange: "snd (netlink_exchange X msg) = [msg]" if "nx_send X msg = None" for msg
    using that by (simp add: netlink_exchange_def)
  have "netlinkAddAddr X ''eth0'' (dotted [a, b, c, d] @ ''/30'') = netlink_exchange X (addr_msg 30 ifindex [a, b, c, d])"
    unfolding netlinkAddAddr_def cut using assms by (simp add: parseIPv4_dotted thirty)
  moreover have "netlinkReplaceDefaultRoute X (dotted [e, f, g, h]) = netlink_exchange X (route_msg [e, f, g, h])"
    using assms by (simp add: netlinkReplaceDefaultRoute_def parseIPv4_dotted)
  ultimately show ?thesis using assms exchange by (simp add: handleNetworkConfig_def Let_def split_beta)
qed

definition sample_net_env :: net_env where
  "sample_net_env = \<lparr>nx_read = (\<lambda>p. if p = ''/sys/class/net/eth0/ifindex'' then Inr (''2'' @ [CHR 0x0A]) else Inl (ErrNew ''no such file'')),
     nx_socket = None, nx_send = (\<lambda>m. None), nx_recv = (\<lambda>m. Inr (NlError 0)), nx_write = (\<lambda>s. None),
     nx_errno = (\<lambda>n. ErrNew ''errno'')\<rparr>"

theorem network_config_applies_witness:
  "ne_sent (snd (handleNetworkConfig sample_net_env (dotted [172, 16, 0, 2]) (dotted [172, 16, 0, 1])))
     = [addr_msg 30 2 [172, 16, 0, 2], route_msg [172, 16, 0, 1]]"
proof (rule network_config_applies)
  show "nx_read sample_net_env ''/sys/class/net/eth0/ifindex'' = Inr (''2'' @ [CHR 0x0A])" by (simp add: sample_net_env_def)
  show "Atoi (trim_space (''2'' @ [CHR 0x0A])) = (2, None)" by code_simp
qed (simp_all add: sample_net_env_def)

text \<open>The file the image carries gives both addresses, in whichever order they stand.\<close>

lemma str_cut_plain: "sep \<notin> set k \<Longrightarrow> str_cut (k @ sep # v) sep = Some (k, v)"
  by (induction k) auto

lemma network_file_read:
  assumes "nx_read X ''/etc/vm-network.env'' = Inr (''GUESTIP='' @ ip @ CHR 0x0A # ''GWIP='' @ gw @ [CHR 0x0A])"
    and "CHR 0x0A \<notin> set ip" "CHR 0x0A \<notin> set gw"
  shows "readNetworkConfig X = (ip, gw)"
proof -
  have "str_cut (''GUESTIP='' @ ip) (CHR ''='') = Some (''GUESTIP'', ip)" "str_cut (''GWIP='' @ gw) (CHR ''='') = Some (''GWIP'', gw)"
    using str_cut_plain[of "CHR ''=''" "''GUESTIP''" ip] str_cut_plain[of "CHR ''=''" "''GWIP''" gw] by simp_all
  moreover have "split_on (CHR 0x0A) (''GUESTIP='' @ ip @ CHR 0x0A # ''GWIP='' @ gw @ [CHR 0x0A]) = [''GUESTIP='' @ ip, ''GWIP='' @ gw, []]"
    using assms(2,3) split_on_append[of "CHR 0x0A" "''GUESTIP='' @ ip" "''GWIP='' @ gw @ [CHR 0x0A]"]
      split_on_append[of "CHR 0x0A" "''GWIP='' @ gw" "[]"] by simp
  ultimately show ?thesis using assms(1) by (simp add: readNetworkConfig_def network_line_def)
qed

end
