(* ===== verification/Guest_Agent.thy ===== *)
theory Guest_Agent
  imports Complex_Main Guest_Terminal Guest_Network
begin

text \<open>
  The agent inside a VM (\<open>guest-agent/main.go\<close>): it runs code in long-lived interpreters or in fresh processes, runs commands in
  one persistent shell, opens terminals, and forgets all of them when the VM is resumed. Processes, their output and the
  time are arguments; a process is a number. The entropy pool and the mounts of the start-up are not represented.
\<close>

section \<open>Requests and answers\<close>

record ExecutionRequest =
  er_Code :: string
  er_Language :: string
  er_Timeout :: int
  er_Mode :: string

record ExecutionResponse =
  ep_Stdout :: string
  ep_Stderr :: string
  ep_ExitCode :: int
  ep_Duration :: rat

datatype bridge_reply = BridgeWriteFailed go_error | BridgeScanFailed go_error | BridgeClosed string | BridgeLine string | BridgeSilent

datatype process_end = ExitedOk | ExitedWith int | WaitFailed

datatype direct_reply = NotStarted go_error | Ended string string process_end | Overdue string string

datatype shell_reply = ShellWriteFailed go_error | ShellStream string | ShellSilent

record guest_env =
  ga_start :: "nat \<Rightarrow> string list \<Rightarrow> string list \<Rightarrow> go_error + nat"
  ga_bridge :: "nat \<Rightarrow> nat \<Rightarrow> string \<Rightarrow> int \<Rightarrow> bridge_reply"
  ga_json :: "string \<Rightarrow> go_error + ExecutionResponse"
  ga_direct :: "nat \<Rightarrow> string list \<Rightarrow> int \<Rightarrow> direct_reply"
  ga_shell :: "nat \<Rightarrow> nat \<Rightarrow> string \<Rightarrow> int \<Rightarrow> shell_reply"
  ga_stderr :: "nat \<Rightarrow> string"
  ga_elapsed :: "nat \<Rightarrow> rat"
  ga_environ :: "string list"
  ga_pty :: "nat \<Rightarrow> pty_env"
  ga_net :: net_env

text \<open>A shell: its process, the environment it was started with, and the lines it got before the first command.\<close>

record ShellSession =
  sh_pid :: nat
  sh_env :: "string list"
  sh_setup :: "string list"

record guest =
  gs_kernels :: "(string, nat) gomap"
  gs_node :: "nat option"
  gs_shell :: "ShellSession option"
  gs_terminals :: terminalManager
  gs_net :: "net_effect list"
  gs_killed :: "nat list"
  gs_tick :: nat

definition gs_next :: "guest \<Rightarrow> guest" where
  "gs_next g = g\<lparr>gs_tick := Suc (gs_tick g)\<rparr>"

lemma gs_kernels_next [simp]: "gs_kernels (gs_next g) = gs_kernels g"
  by (simp add: gs_next_def)

definition kill :: "nat list \<Rightarrow> guest \<Rightarrow> guest" where
  "kill ps g = g\<lparr>gs_killed := gs_killed g @ ps\<rparr>"

definition failed_response :: "guest_env \<Rightarrow> guest \<Rightarrow> string \<Rightarrow> ExecutionResponse" where
  "failed_response X g msg = \<lparr>ep_Stdout = [], ep_Stderr = msg, ep_ExitCode = -1, ep_Duration = ga_elapsed X (gs_tick g)\<rparr>"

text \<open>\<open>time.Duration\<close> as \<open>%v\<close> prints it.\<close>

definition frac_text :: "nat \<Rightarrow> nat \<Rightarrow> string" where
  "frac_text v prec =
     (let r = v mod 10 ^ prec; ds = nat_digits r; padded = replicate (prec - length ds) (CHR ''0'') @ ds in
      nat_digits (v div 10 ^ prec) @ (if r = 0 then [] else CHR ''.'' # rev (dropWhile (\<lambda>c. c = CHR ''0'') (rev padded))))"

definition unsigned_duration_text :: "nat \<Rightarrow> string" where
  "unsigned_duration_text u =
     (if u = 0 then ''0s''
      else if u < 1000 then nat_digits u @ ''ns''
      else if u < 1000000 then frac_text u 3 @ [CHR 0xC2, CHR 0xB5] @ ''s''
      else if u < 1000000000 then frac_text u 6 @ ''ms''
      else
        let minutes = u div 60000000000; secs = frac_text (u mod 60000000000) 9 @ ''s'' in
        if minutes = 0 then secs
        else if minutes < 60 then nat_digits minutes @ ''m'' @ secs
        else nat_digits (minutes div 60) @ ''h'' @ nat_digits (minutes mod 60) @ ''m'' @ secs)"

definition duration_text :: "int \<Rightarrow> string" where
  "duration_text d = (if d < 0 then CHR ''-'' # unsigned_duration_text (nat (- d)) else unsigned_duration_text (nat d))"

definition Second :: int where "Second = 1000000000"

section \<open>Interpreters\<close>

definition MaxTimeout :: int where "MaxTimeout = 60 * Second"
definition DefaultTimeout :: int where "DefaultTimeout = 15 * Second"

definition bridge_timeout :: "ExecutionRequest \<Rightarrow> int" where
  "bridge_timeout q =
     (let m = MaxTimeout div Second in if er_Timeout q > 0 then (if er_Timeout q > m then m else er_Timeout q) else m)"

text \<open>One exchange with a bridge process; a silent one is killed.\<close>

definition bridge_execute :: "guest_env \<Rightarrow> string \<Rightarrow> nat \<Rightarrow> string \<Rightarrow> int \<Rightarrow> guest \<Rightarrow> (go_error + ExecutionResponse) \<times> guest" where
  "bridge_execute X name pid code timeout g =
     (case ga_bridge X (gs_tick g) pid code timeout of
        BridgeWriteFailed e \<Rightarrow> (Inl (Wrapf (''write to '' @ name) e), gs_next g)
      | BridgeScanFailed e \<Rightarrow> (Inl (Wrapf (name @ '' stdout'') e), gs_next g)
      | BridgeClosed err \<Rightarrow> (Inl (ErrNew (name @ '' process closed: '' @ err)), gs_next g)
      | BridgeLine raw \<Rightarrow> (case ga_json X raw of Inl e \<Rightarrow> (Inl (Wrapf (''decode '' @ name @ '' response'') e), gs_next g) | Inr resp \<Rightarrow> (Inr resp, gs_next g))
      | BridgeSilent \<Rightarrow>
          (Inl (ErrNew ((if name = ''bridge'' then ''kernel bridge'' else name) @ '' response timeout after '' @ duration_text ((timeout + 5) * Second))), kill [pid] (gs_next g)))"

definition newKernelBridge :: "guest_env \<Rightarrow> string \<Rightarrow> guest \<Rightarrow> (go_error + nat) \<times> guest" where
  "newKernelBridge X language g =
     (case ga_start X (gs_tick g) [''/usr/bin/python3'', ''/usr/local/bin/kernel_bridge.py'', language] (ga_environ X) of
        Inl e \<Rightarrow> (Inl (Wrapf ''start kernel_bridge.py'' e), gs_next g)
      | Inr pid \<Rightarrow> (Inr pid, gs_next g))"

definition getOrStartKernel :: "guest_env \<Rightarrow> string \<Rightarrow> guest \<Rightarrow> (go_error + nat) \<times> guest" where
  "getOrStartKernel X language g =
     (case mget (gs_kernels g) language of
        Some pid \<Rightarrow> (Inr pid, g)
      | None \<Rightarrow>
          (case newKernelBridge X language g of
             (Inl e, g1) \<Rightarrow> (Inl e, g1)
           | (Inr pid, g1) \<Rightarrow> (Inr pid, g1\<lparr>gs_kernels := mput language pid (gs_kernels g1)\<rparr>)))"

definition evictKernel :: "string \<Rightarrow> guest \<Rightarrow> guest" where
  "evictKernel language g = g\<lparr>gs_kernels := mdel language (gs_kernels g)\<rparr>"

definition executeViaKernel :: "guest_env \<Rightarrow> ExecutionRequest \<Rightarrow> guest \<Rightarrow> ExecutionResponse \<times> guest" where
  "executeViaKernel X q g =
     (case getOrStartKernel X (er_Language q) g of
        (Inl e, g1) \<Rightarrow> (failed_response X g1 (''failed to start kernel: '' @ error_text e), g1)
      | (Inr pid, g1) \<Rightarrow>
          (case bridge_execute X ''bridge'' pid (er_Code q) (bridge_timeout q) g1 of
             (Inl e, g2) \<Rightarrow> (failed_response X g2 (''kernel error: '' @ error_text e), evictKernel (er_Language q) g2)
           | (Inr resp, g2) \<Rightarrow> (resp\<lparr>ep_Duration := ga_elapsed X (gs_tick g2)\<rparr>, g2)))"

definition newNodeBridge :: "guest_env \<Rightarrow> guest \<Rightarrow> (go_error + nat) \<times> guest" where
  "newNodeBridge X g =
     (case ga_start X (gs_tick g) [''/usr/bin/node'', ''/usr/local/bin/node_bridge.js''] (ga_environ X) of
        Inl e \<Rightarrow> (Inl (Wrapf ''start node_bridge.js'' e), gs_next g)
      | Inr pid \<Rightarrow> (Inr pid, gs_next g))"

definition getOrStartNodeBridge :: "guest_env \<Rightarrow> guest \<Rightarrow> (go_error + nat) \<times> guest" where
  "getOrStartNodeBridge X g =
     (case gs_node g of
        Some pid \<Rightarrow> (Inr pid, g)
      | None \<Rightarrow>
          (case newNodeBridge X g of
             (Inl e, g1) \<Rightarrow> (Inl e, g1)
           | (Inr pid, g1) \<Rightarrow> (Inr pid, g1\<lparr>gs_node := Some pid\<rparr>)))"

definition node_execute :: "guest_env \<Rightarrow> nat \<Rightarrow> string \<Rightarrow> int \<Rightarrow> guest \<Rightarrow> (go_error + ExecutionResponse) \<times> guest" where
  "node_execute X = bridge_execute X ''node bridge''"

definition evictNodeBridge :: "guest \<Rightarrow> guest" where
  "evictNodeBridge g = g\<lparr>gs_node := None\<rparr>"

definition executeViaNodeBridge :: "guest_env \<Rightarrow> ExecutionRequest \<Rightarrow> guest \<Rightarrow> ExecutionResponse \<times> guest" where
  "executeViaNodeBridge X q g =
     (case getOrStartNodeBridge X g of
        (Inl e, g1) \<Rightarrow> (failed_response X g1 (''failed to start node bridge: '' @ error_text e), g1)
      | (Inr pid, g1) \<Rightarrow>
          (case node_execute X pid (er_Code q) (bridge_timeout q) g1 of
             (Inl e, g2) \<Rightarrow> (failed_response X g2 (''node bridge error: '' @ error_text e), evictNodeBridge g2)
           | (Inr resp, g2) \<Rightarrow> (resp\<lparr>ep_Duration := ga_elapsed X (gs_tick g2)\<rparr>, g2)))"

definition direct_command :: "ExecutionRequest \<Rightarrow> string list option" where
  "direct_command q =
     (if er_Language q = ''bash'' then Some [''/bin/bash'', ''-c'', er_Code q]
      else if er_Language q = ''python'' then Some [''/usr/bin/python3'', ''-c'', er_Code q]
      else if er_Language q = ''node'' then Some [''/usr/bin/node'', ''-e'', er_Code q]
      else None)"

text \<open>The seconds of the timeout wrap in 64 bits of nanoseconds before they are capped.\<close>

definition direct_timeout :: "ExecutionRequest \<Rightarrow> int" where
  "direct_timeout q =
     (if er_Timeout q > 0
      then (let d = wrap64 (er_Timeout q * Second) in if d > MaxTimeout then MaxTimeout else d)
      else DefaultTimeout)"

definition executeDirect :: "guest_env \<Rightarrow> ExecutionRequest \<Rightarrow> guest \<Rightarrow> ExecutionResponse \<times> guest" where
  "executeDirect X q g =
     (case direct_command q of
        None \<Rightarrow> (\<lparr>ep_Stdout = [], ep_Stderr = ''unsupported language: '' @ er_Language q, ep_ExitCode = 1, ep_Duration = ga_elapsed X (gs_tick g)\<rparr>, g)
      | Some cmd \<Rightarrow>
          let g1 = gs_next g; took = ga_elapsed X (gs_tick g1) in
          (case ga_direct X (gs_tick g) cmd (direct_timeout q) of
             NotStarted e \<Rightarrow> (failed_response X g1 (''failed to start: '' @ error_text e), g1)
           | Overdue out err \<Rightarrow>
               (\<lparr>ep_Stdout = out, ep_Stderr = err @ [CHR 0x0A] @ ''[Timeout: Process killed after '' @ duration_text (direct_timeout q) @ '']'',
                 ep_ExitCode = -1, ep_Duration = took\<rparr>, g1)
           | Ended out err r \<Rightarrow>
               (\<lparr>ep_Stdout = out, ep_Stderr = err, ep_ExitCode = (case r of ExitedOk \<Rightarrow> 0 | ExitedWith n \<Rightarrow> n | WaitFailed \<Rightarrow> -1), ep_Duration = took\<rparr>, g1)))"

definition executeCode :: "guest_env \<Rightarrow> ExecutionRequest \<Rightarrow> guest \<Rightarrow> ExecutionResponse \<times> guest" where
  "executeCode X q g =
     (if er_Language q = ''node'' then executeViaNodeBridge X q g
      else if er_Language q = ''python'' \<and> er_Mode q = ''stateful'' then executeViaKernel X q g
      else executeDirect X q g)"

section \<open>The persistent shell\<close>

definition shellSentinel :: string where "shellSentinel = ''__EXEC_DONE__''"

definition newline :: char where "newline = CHR 0x0A"

definition shell_setup :: "(string, string) gomap \<Rightarrow> string list" where
  "shell_setup env =
     (case mget env ''GITHUB_TOKEN'' of
        Some token \<Rightarrow>
          if token \<noteq> []
          then [''git config --global url.'' @ quoted (''https://'' @ token @ ''@github.com/'') @ ''.insteadOf '' @ quoted ''https://github.com/'']
          else []
      | None \<Rightarrow> []) @ [''mkdir -p /workspace && cd /workspace'', ''export GIT_TERMINAL_PROMPT=0'']"

definition newShellSession :: "guest_env \<Rightarrow> (string, string) gomap \<Rightarrow> guest \<Rightarrow> (go_error + ShellSession) \<times> guest" where
  "newShellSession X env g =
     (let base = ga_environ X @ map (\<lambda>(k, v). k @ ''='' @ v) env in
      case ga_start X (gs_tick g) [''/bin/bash''] base of
        Inl e \<Rightarrow> (Inl (Wrapf ''start bash'' e), gs_next g)
      | Inr pid \<Rightarrow> (Inr \<lparr>sh_pid = pid, sh_env = base, sh_setup = shell_setup env\<rparr>, gs_next g))"

definition getOrStartShell :: "guest_env \<Rightarrow> (string, string) gomap \<Rightarrow> guest \<Rightarrow> (go_error + ShellSession) \<times> guest" where
  "getOrStartShell X env g =
     (case gs_shell g of
        Some sh \<Rightarrow> (Inr sh, g)
      | None \<Rightarrow>
          (case newShellSession X env g of
             (Inl e, g1) \<Rightarrow> (Inl e, g1)
           | (Inr sh, g1) \<Rightarrow> (Inr sh, g1\<lparr>gs_shell := Some sh\<rparr>)))"

definition evictShell :: "guest \<Rightarrow> guest" where
  "evictShell g = (case gs_shell g of None \<Rightarrow> g | Some sh \<Rightarrow> kill [sh_pid sh] (g\<lparr>gs_shell := None\<rparr>))"

text \<open>\<open>bufio.ScanLines\<close>: lines without their end and a carriage return before it; a line of 64 KiB or more ends the scan.\<close>

fun split_lines :: "string \<Rightarrow> string list" where
  "split_lines [] = []"
| "split_lines (c # s) = (if c = newline then [] # split_lines s else (case split_lines s of [] \<Rightarrow> [[c]] | l # ls \<Rightarrow> (c # l) # ls))"

definition drop_cr :: "string \<Rightarrow> string" where
  "drop_cr l = (if l \<noteq> [] \<and> last l = CHR 0x0D then butlast l else l)"

definition scan_lines :: "string \<Rightarrow> string list" where
  "scan_lines s = map drop_cr (takeWhile (\<lambda>l. length l < 65536) (split_lines s))"

text \<open>The lines before the one with the sentinel, and the exit code in it.\<close>

definition shell_result :: "string \<Rightarrow> (string list \<times> int) option" where
  "shell_result stream =
     (let ls = scan_lines stream; before = takeWhile (\<lambda>l. \<not> has_prefix l shellSentinel) ls in
      case drop (length before) ls of
        [] \<Rightarrow> None
      | l # rest \<Rightarrow> Some (before, fst (Atoi (drop (length shellSentinel) l))))"

fun join_lines :: "string list \<Rightarrow> string" where
  "join_lines [] = []"
| "join_lines [l] = l"
| "join_lines (l # ls) = l @ newline # join_lines ls"

definition stderrFile :: string where "stderrFile = ''/tmp/.exec_stderr''"

definition wrapped_command :: "string \<Rightarrow> string" where
  "wrapped_command command =
     ''{ '' @ command @ [newline] @ ''} 2>'' @ stderrFile @ [newline] @ ''__ec=$?; printf '' @ [CHR 0x27, CHR 0x5C] @ ''n'' @ shellSentinel @ ''%d''
       @ [CHR 0x5C] @ ''n'' @ [CHR 0x27] @ '' $__ec'' @ [newline]"

definition shell_exec :: "guest_env \<Rightarrow> nat \<Rightarrow> string \<Rightarrow> int \<Rightarrow> guest \<Rightarrow> (go_error + string \<times> string \<times> int) \<times> guest" where
  "shell_exec X pid command timeoutSec g =
     (let timeout = (if timeoutSec \<le> 0 then 30 else timeoutSec) in
      case ga_shell X (gs_tick g) pid (wrapped_command command) timeout of
        ShellWriteFailed e \<Rightarrow> (Inl (Wrapf ''write to shell stdin'' e), gs_next g)
      | ShellSilent \<Rightarrow> (Inl (ErrNew (''command timed out after '' @ itoa timeout @ ''s'')), gs_next g)
      | ShellStream stream \<Rightarrow>
          (case shell_result stream of
             None \<Rightarrow> (Inl (ErrNew ''shell process died''), gs_next g)
           | Some (ls, code) \<Rightarrow>
               (Inr (if ls \<noteq> [] then join_lines ls @ [newline] else [], ga_stderr X (gs_tick g), code), gs_next g)))"

definition handleExec :: "guest_env \<Rightarrow> string \<Rightarrow> int \<Rightarrow> guest \<Rightarrow> ExecutionResponse \<times> guest" where
  "handleExec X command timeoutSec g =
     (let timeout = (if timeoutSec \<le> 0 then 30 else timeoutSec); failed = (\<lambda>msg. \<lparr>ep_Stdout = [], ep_Stderr = msg, ep_ExitCode = -1, ep_Duration = 0\<rparr>) in
      case getOrStartShell X [] g of
        (Inl e, g1) \<Rightarrow> (failed (''failed to start shell: '' @ error_text e), g1)
      | (Inr sh, g1) \<Rightarrow>
          (case shell_exec X (sh_pid sh) command timeout g1 of
             (Inl e, g2) \<Rightarrow> (failed (''shell exec error: '' @ error_text e), evictShell g2)
           | (Inr (out, err, code), g2) \<Rightarrow> (\<lparr>ep_Stdout = out, ep_Stderr = err, ep_ExitCode = code, ep_Duration = 0\<rparr>, g2)))"

definition handleSetEnv :: "guest_env \<Rightarrow> (string, string) gomap \<Rightarrow> guest \<Rightarrow> go_error option \<times> guest" where
  "handleSetEnv X env g =
     (case newShellSession X env (evictShell g) of
        (Inl e, g1) \<Rightarrow> (Some e, g1)
      | (Inr sh, g1) \<Rightarrow> (None, g1\<lparr>gs_shell := Some sh\<rparr>))"

definition resetRuntimes :: "guest \<Rightarrow> guest" where
  "resetRuntimes g =
     (let (ps, terms) = gt_CloseAll (gs_terminals g);
          g1 = kill ps (g\<lparr>gs_terminals := terms\<rparr>);
          g2 = kill (map snd (gs_kernels g1)) (g1\<lparr>gs_kernels := []\<rparr>);
          g3 = (case gs_node g2 of None \<Rightarrow> g2 | Some pid \<Rightarrow> kill [pid] (g2\<lparr>gs_node := None\<rparr>))
      in evictShell g3)"

section \<open>The connection\<close>

record incomingMessage =
  im_Type :: string
  im_Code :: string
  im_Language :: string
  im_Timeout :: int
  im_Mode :: string
  im_GuestIP :: string
  im_GWIP :: string
  im_Command :: string
  im_Env :: "(string, string) gomap"
  im_TerminalID :: string
  im_Hostname :: string
  im_Shell :: string
  im_Columns :: "16 word"
  im_Rows :: "16 word"

text \<open>An answer is a verdict (whether it succeeded, the state, the error) or the result of an execution.\<close>

datatype guest_reply = Verdict bool string string | Result ExecutionResponse

definition errorString :: "go_error option \<Rightarrow> string" where
  "errorString err = (case err of None \<Rightarrow> [] | Some e \<Rightarrow> error_text e)"

definition terminal_verdict :: "go_error option \<Rightarrow> string \<Rightarrow> guest_reply" where
  "terminal_verdict err done = Verdict (err = None) (if err = None then done else []) (errorString err)"

text \<open>One message of \<open>handleConnection\<close>; \<^term>\<open>None\<close> is an attached terminal, which takes over the connection.\<close>

definition handle_message :: "guest_env \<Rightarrow> incomingMessage \<Rightarrow> guest \<Rightarrow> guest_reply option \<times> guest" where
  "handle_message X m g =
     (if im_Type m = ''configure_network'' then
        (case handleNetworkConfig (ga_net X) (im_GuestIP m) (im_GWIP m) of
           (ok, eff) \<Rightarrow> (Some (Verdict ok [] []), g\<lparr>gs_net := gs_net g @ [eff]\<rparr>))
      else if im_Type m = ''set_env'' then
        (case handleSetEnv X (im_Env m) g of (err, g1) \<Rightarrow> (Some (Verdict (err = None) [] (errorString err)), g1))
      else if im_Type m = ''reset_runtimes'' then (Some (Verdict True [] []), resetRuntimes g)
      else if im_Type m = ''exec'' then
        (case handleExec X (im_Command m) (im_Timeout m) g of (resp, g1) \<Rightarrow> (Some (Result resp), g1))
      else if im_Type m = ''terminal_open'' then
        (case gt_Open (ga_pty X (gs_tick g))
                \<lparr>to_ID = im_TerminalID m, to_Hostname = im_Hostname m, to_Shell = im_Shell m,
                 to_Columns = im_Columns m, to_Rows = im_Rows m, to_Env = im_Env m\<rparr> (gs_terminals g) of
           (err, ts) \<Rightarrow> (Some (terminal_verdict err ''ready''), gs_next (g\<lparr>gs_terminals := ts\<rparr>)))
      else if im_Type m = ''terminal_close'' then
        (case gt_Close (im_TerminalID m) (gs_terminals g) of
           ((err, ps), ts) \<Rightarrow> (Some (terminal_verdict err ''closed''), kill ps (g\<lparr>gs_terminals := ts\<rparr>)))
      else if im_Type m = ''terminal_close_all'' then
        (case gt_CloseAll (gs_terminals g) of (ps, ts) \<Rightarrow> (Some (Verdict True [] []), kill ps (g\<lparr>gs_terminals := ts\<rparr>)))
      else if im_Type m = ''terminal_attach'' then (None, g)
      else
        (case executeCode X \<lparr>er_Code = im_Code m, er_Language = im_Language m, er_Timeout = im_Timeout m, er_Mode = im_Mode m\<rparr> g of
           (resp, g1) \<Rightarrow> (Some (Result resp), g1)))"

fun handleConnection :: "guest_env \<Rightarrow> incomingMessage list \<Rightarrow> guest \<Rightarrow> guest_reply list \<times> guest" where
  "handleConnection X [] g = ([], g)"
| "handleConnection X (m # ms) g =
     (case handle_message X m g of
        (None, g1) \<Rightarrow> ([], g1)
      | (Some r, g1) \<Rightarrow> (case handleConnection X ms g1 of (rs, g2) \<Rightarrow> (r # rs, g2)))"

definition new_guest :: guest where
  "new_guest = \<lparr>gs_kernels = [], gs_node = None, gs_shell = None, gs_terminals = newTerminalManager maxGuestTerminals,
     gs_net = [], gs_killed = [], gs_tick = 0\<rparr>"

section \<open>The tables of the guest\<close>

definition terminal_ok :: "string \<times> terminalSession \<Rightarrow> bool" where
  "terminal_ok x \<longleftrightarrow> (case x of (i, sess) \<Rightarrow> gt_id sess = i \<and> i \<noteq> [] \<and> length i \<le> 128
     \<and> list_all (\<lambda>c. ascii_alnum c \<or> c = CHR ''_'' \<or> c = CHR ''-'') i
     \<and> fst (gt_size sess) \<ge> 20 \<and> fst (gt_size sess) \<le> 500 \<and> snd (gt_size sess) \<ge> 5 \<and> snd (gt_size sess) \<le> 200)"

definition terminals_wf :: "terminalManager \<Rightarrow> bool" where
  "terminals_wf m \<longleftrightarrow> mwf (gm_sessions m) \<and> gm_max m = maxGuestTerminals \<and> length (gm_sessions m) \<le> maxGuestTerminals
     \<and> list_all terminal_ok (gm_sessions m)"

definition guest_wf :: "guest \<Rightarrow> bool" where
  "guest_wf g \<longleftrightarrow> mwf (gs_kernels g) \<and> set (mkeys (gs_kernels g)) \<subseteq> {''python''} \<and> terminals_wf (gs_terminals g)"

text \<open>The moves of which the handling of every message is made.\<close>

inductive guest_move :: "guest_env \<Rightarrow> guest \<Rightarrow> guest \<Rightarrow> bool" for X where
  mv_next: "guest_move X g (gs_next g)"
| mv_kill: "guest_move X g (kill ps g)"
| mv_kernel: "ga_start X (gs_tick g) cmd env = Inr pid \<Longrightarrow> guest_move X g ((gs_next g)\<lparr>gs_kernels := mput ''python'' pid (gs_kernels g)\<rparr>)"
| mv_evict: "guest_move X g (evictKernel l g)"
| mv_no_kernels: "guest_move X g (g\<lparr>gs_kernels := []\<rparr>)"
| mv_node: "ga_start X (gs_tick g) cmd env = Inr pid \<Longrightarrow> guest_move X g ((gs_next g)\<lparr>gs_node := Some pid\<rparr>)"
| mv_no_node: "guest_move X g (g\<lparr>gs_node := None\<rparr>)"
| mv_shell: "ga_start X (gs_tick g) cmd env = Inr (sh_pid sh) \<Longrightarrow> guest_move X g ((gs_next g)\<lparr>gs_shell := Some sh\<rparr>)"
| mv_no_shell: "guest_move X g (g\<lparr>gs_shell := None\<rparr>)"
| mv_open: "gt_Open (ga_pty X (gs_tick g)) q (gs_terminals g) = (err, ts) \<Longrightarrow> guest_move X g (gs_next (g\<lparr>gs_terminals := ts\<rparr>))"
| mv_close: "gt_Close i (gs_terminals g) = ((err, ps), ts) \<Longrightarrow> guest_move X g (g\<lparr>gs_terminals := ts\<rparr>)"
| mv_close_all: "gt_CloseAll (gs_terminals g) = (ps, ts) \<Longrightarrow> guest_move X g (g\<lparr>gs_terminals := ts\<rparr>)"
| mv_net: "guest_move X g (g\<lparr>gs_net := gs_net g @ [eff]\<rparr>)"

abbreviation guest_moves :: "guest_env \<Rightarrow> guest \<Rightarrow> guest \<Rightarrow> bool" where
  "guest_moves X \<equiv> (guest_move X)\<^sup>*\<^sup>*"

lemma moves_one: "guest_move X g g' \<Longrightarrow> guest_moves X g g'"
  by (rule r_into_rtranclp)

lemma move_kill: "guest_move X g g' \<Longrightarrow> guest_moves X g (kill ps g')"
  by (rule rtranclp.rtrancl_into_rtrancl[OF moves_one mv_kill])

lemma evictShell_moves: "guest_moves X g (evictShell g)"
proof (cases "gs_shell g")
  case (Some sh)
  then show ?thesis
    using rtranclp_trans[OF moves_one[OF mv_no_shell] moves_one[OF mv_kill]] by (simp add: evictShell_def)
qed (simp add: evictShell_def)

lemma bridge_execute_moves:
  assumes "bridge_execute X name pid code t g = (r, g')"
  shows "guest_moves X g g'"
proof -
  have "g' = gs_next g \<or> g' = kill [pid] (gs_next g)"
    using assms by (auto simp: bridge_execute_def split: bridge_reply.splits sum.splits)
  then show ?thesis
    using moves_one[OF mv_next] rtranclp_trans[OF moves_one[OF mv_next] moves_one[OF mv_kill]] by metis
qed

lemma getOrStartKernel_moves:
  assumes "getOrStartKernel X ''python'' g = (r, g')"
  shows "guest_moves X g g'"
  using assms by (auto simp: getOrStartKernel_def newKernelBridge_def intro: moves_one mv_next mv_kernel[OF sym] split: option.splits sum.splits)

lemma executeViaKernel_moves:
  assumes "er_Language q = ''python''" "executeViaKernel X q g = (r, g')"
  shows "guest_moves X g g'"
proof -
  obtain k g1 where k: "getOrStartKernel X ''python'' g = (k, g1)" by fastforce
  note m1 = getOrStartKernel_moves[OF k]
  show ?thesis
  proof (cases k)
    case (Inl e)
    with assms k m1 show ?thesis by (simp add: executeViaKernel_def)
  next
    case (Inr pid)
    obtain b g2 where b: "bridge_execute X ''bridge'' pid (er_Code q) (bridge_timeout q) g1 = (b, g2)" by fastforce
    have "guest_moves X g g2" using m1 bridge_execute_moves[OF b] by (rule rtranclp_trans)
    moreover have "g' = g2 \<or> g' = evictKernel ''python'' g2"
      using assms k Inr b by (cases b) (auto simp: executeViaKernel_def)
    ultimately show ?thesis by (metis rtranclp.rtrancl_into_rtrancl mv_evict)
  qed
qed

lemma executeViaNodeBridge_moves:
  assumes "executeViaNodeBridge X q g = (r, g')"
  shows "guest_moves X g g'"
proof -
  obtain k g1 where k: "getOrStartNodeBridge X g = (k, g1)" by fastforce
  have m1: "guest_moves X g g1"
    using k by (auto simp: getOrStartNodeBridge_def newNodeBridge_def intro: moves_one mv_next mv_node[OF sym] split: option.splits sum.splits)
  show ?thesis
  proof (cases k)
    case (Inl e)
    with assms k m1 show ?thesis by (simp add: executeViaNodeBridge_def)
  next
    case (Inr pid)
    obtain b g2 where b: "node_execute X pid (er_Code q) (bridge_timeout q) g1 = (b, g2)" by fastforce
    have "guest_moves X g g2" using m1 bridge_execute_moves[OF b[unfolded node_execute_def]] by (rule rtranclp_trans)
    moreover have "g' = g2 \<or> g' = g2\<lparr>gs_node := None\<rparr>"
      using assms k Inr b by (cases b) (auto simp: executeViaNodeBridge_def evictNodeBridge_def)
    ultimately show ?thesis by (metis rtranclp.rtrancl_into_rtrancl mv_no_node)
  qed
qed

lemma executeCode_moves:
  assumes "executeCode X q g = (r, g')"
  shows "guest_moves X g g'"
proof -
  consider "executeViaNodeBridge X q g = (r, g')" | "er_Language q = ''python''" "executeViaKernel X q g = (r, g')"
    | "executeDirect X q g = (r, g')"
    using assms by (auto simp: executeCode_def split: if_splits)
  then show ?thesis
  proof cases
    case 3
    then have "g' = g \<or> g' = gs_next g"
      by (auto simp: executeDirect_def Let_def split: option.splits direct_reply.splits)
    then show ?thesis using moves_one[OF mv_next] by auto
  qed (blast intro: executeViaNodeBridge_moves executeViaKernel_moves)+
qed

lemma newShellSession_moves:
  assumes "newShellSession X env g = (r, g')"
  shows "guest_moves X g g'" and "r = Inr sh \<Longrightarrow> guest_moves X g (g'\<lparr>gs_shell := Some sh\<rparr>)"
proof -
  show "guest_moves X g g'"
    using assms by (auto simp: newShellSession_def Let_def intro: moves_one mv_next split: sum.splits)
  show "guest_moves X g (g'\<lparr>gs_shell := Some sh\<rparr>)" if "r = Inr sh"
    using assms that by (auto simp: newShellSession_def Let_def intro!: moves_one mv_shell split: sum.splits)
qed

lemma handleExec_moves:
  assumes "handleExec X command t g = (r, g')"
  shows "guest_moves X g g'"
proof -
  obtain k g1 where k: "getOrStartShell X [] g = (k, g1)" by fastforce
  obtain n gn where n: "newShellSession X [] g = (n, gn)" by fastforce
  have m1: "guest_moves X g g1"
    using k newShellSession_moves[OF n] by (auto simp: getOrStartShell_def n split: option.splits sum.splits)
  show ?thesis
  proof (cases k)
    case (Inl e)
    with assms k m1 show ?thesis by (simp add: handleExec_def Let_def)
  next
    case (Inr sh)
    have "snd (shell_exec X (sh_pid sh) command t' g1) = gs_next g1" for t'
      by (auto simp: shell_exec_def Let_def split: shell_reply.splits option.splits)
    then have "g' = gs_next g1 \<or> g' = evictShell (gs_next g1)"
      using assms k Inr by (simp add: handleExec_def Let_def split_beta split: sum.splits prod.splits if_splits)
    moreover have "guest_moves X g (gs_next g1)" using m1 mv_next by (rule rtranclp.rtrancl_into_rtrancl)
    ultimately show ?thesis using rtranclp_trans[OF _ evictShell_moves] by metis
  qed
qed

lemma handleSetEnv_moves:
  assumes "handleSetEnv X env g = (r, g')"
  shows "guest_moves X g g'"
proof -
  obtain n gn where n: "newShellSession X env (evictShell g) = (n, gn)" by fastforce
  have "guest_moves X (evictShell g) g'"
    using assms newShellSession_moves[OF n] by (auto simp: handleSetEnv_def n split: sum.splits)
  then show ?thesis by (rule rtranclp_trans[OF evictShell_moves])
qed

lemma resetRuntimes_moves: "guest_moves X g (resetRuntimes g)"
proof -
  define ts where "ts = snd (gt_CloseAll (gs_terminals g))"
  define ps where "ps = fst (gt_CloseAll (gs_terminals g))"
  define g1 where "g1 = kill ps (g\<lparr>gs_terminals := ts\<rparr>)"
  define g2 where "g2 = kill (map snd (gs_kernels g1)) (g1\<lparr>gs_kernels := []\<rparr>)"
  define g3 where "g3 = (case gs_node g2 of None \<Rightarrow> g2 | Some pid \<Rightarrow> kill [pid] (g2\<lparr>gs_node := None\<rparr>))"
  have "guest_moves X g g1" unfolding g1_def by (rule move_kill, rule mv_close_all[where ps = ps]) (simp add: ts_def ps_def)
  moreover have "guest_moves X g1 g2" unfolding g2_def by (rule move_kill, rule mv_no_kernels)
  moreover have "guest_moves X g2 g3" unfolding g3_def by (cases "gs_node g2") (simp_all add: move_kill mv_no_node)
  moreover have "resetRuntimes g = evictShell g3"
    unfolding resetRuntimes_def g3_def g2_def g1_def ps_def ts_def Let_def split_beta by (rule refl)
  ultimately show ?thesis using evictShell_moves[of X g3] by (metis rtranclp_trans)
qed

lemma handle_message_moves: "guest_moves X g (snd (handle_message X m g))"
proof -
  have exec: "guest_moves X g (snd (handleExec X (im_Command m) (im_Timeout m) g))"
    and env: "guest_moves X g (snd (handleSetEnv X (im_Env m) g))"
    and code: "guest_moves X g (snd (executeCode X q g))" for q
    using handleExec_moves handleSetEnv_moves executeCode_moves by (metis prod.collapse)+
  have opened: "guest_moves X g (gs_next (g\<lparr>gs_terminals := snd (gt_Open (ga_pty X (gs_tick g)) q (gs_terminals g))\<rparr>))" for q
    by (rule moves_one, rule mv_open[where err = "fst (gt_Open (ga_pty X (gs_tick g)) q (gs_terminals g))" and q = q]) simp
  have closed: "guest_moves X g (kill ps (g\<lparr>gs_terminals := snd (gt_Close i (gs_terminals g))\<rparr>))" for i ps
    by (rule move_kill, rule mv_close[where i = i and err = "fst (fst (gt_Close i (gs_terminals g)))"
          and ps = "snd (fst (gt_Close i (gs_terminals g)))"]) simp
  have all_closed: "guest_moves X g (kill ps (g\<lparr>gs_terminals := snd (gt_CloseAll (gs_terminals g))\<rparr>))" for ps
    by (rule move_kill, rule mv_close_all[where ps = "fst (gt_CloseAll (gs_terminals g))"]) simp
  show ?thesis
    unfolding handle_message_def split_beta
    by (simp only: snd_conv if_distrib[where f = snd] split: if_split)
      (use exec env code opened closed all_closed resetRuntimes_moves moves_one[OF mv_net] in simp)
qed

text \<open>Whatever every move keeps, every message keeps, and so does a connection.\<close>

lemma message_keeps:
  assumes step: "\<And>a b. guest_move X a b \<Longrightarrow> P a \<Longrightarrow> P b" and start: "P g"
  shows "P (snd (handle_message X m g))"
  using handle_message_moves[of X g m] start by (induction rule: rtranclp_induct) (auto intro: step)

lemma messages_keep:
  assumes step: "\<And>a b. guest_move X a b \<Longrightarrow> P a \<Longrightarrow> P b" and start: "P g"
  shows "P (foldl (\<lambda>g m. snd (handle_message X m g)) g ms)"
  using start
proof (induction ms arbitrary: g)
  case (Cons m ms)
  have "P (snd (handle_message X m g))" by (rule message_keeps[of X P, OF step]) (use Cons.prems in simp_all)
  then show ?case using Cons.IH by simp
qed simp

lemma connection_keeps:
  assumes step: "\<And>a b. guest_move X a b \<Longrightarrow> P a \<Longrightarrow> P b" and start: "P g"
  shows "P (snd (handleConnection X ms g))"
  using start
proof (induction ms arbitrary: g)
  case (Cons m ms)
  have "P (snd (handle_message X m g))" by (rule message_keeps[of X P, OF step]) (use Cons.prems in simp_all)
  then show ?case using Cons.IH by (auto split: option.splits prod.splits) fastforce
qed simp

section \<open>Well-formed tables\<close>

lemma terminals_wf_Open:
  assumes wf: "terminals_wf m" and op: "gt_Open X q m = (err, m')"
  shows "terminals_wf m'"
proof (cases "m' = m")
  case False
  then obtain sess where valid: "validateTerminalOpen q = None" and new: "mget (gm_sessions m) (to_ID q) = None"
    and room: "length (gm_sessions m) < gm_max m" and m': "m' = m\<lparr>gm_sessions := mput (to_ID q) sess (gm_sessions m)\<rparr>"
    and sess: "gt_id sess = to_ID q" "gt_size sess = (to_Columns q, to_Rows q)"
    using op by (auto simp: gt_Open_def split: option.splits if_splits sum.splits)
  have "terminal_ok (to_ID q, sess)"
    using valid sess by (auto simp: terminal_ok_def validateTerminalOpen_def not_le not_less split: if_splits)
  then show ?thesis
    using wf new room by (auto simp: terminals_wf_def m' mput_fresh list_all_iff mwf_def)
qed (use wf in simp)

lemma mdel_subset: "set (mdel k m) \<subseteq> set m"
  by (auto simp: AList.delete_eq)

lemma terminals_wf_less:
  assumes "terminals_wf m" "mwf ss" "set ss \<subseteq> set (gm_sessions m)" "length ss \<le> length (gm_sessions m)"
  shows "terminals_wf (m\<lparr>gm_sessions := ss\<rparr>)"
  using assms by (auto simp: terminals_wf_def list_all_iff)

lemma guest_wf_move: "guest_move X a b \<Longrightarrow> guest_wf a \<Longrightarrow> guest_wf b"
proof (induction rule: guest_move.induct)
  case (mv_open g q err ts)
  then show ?case using terminals_wf_Open[OF _ mv_open.hyps] by (simp add: guest_wf_def gs_next_def)
next
  case (mv_close i g err ps ts)
  then have "ts = gs_terminals g \<or> ts = (gs_terminals g)\<lparr>gm_sessions := mdel i (gm_sessions (gs_terminals g))\<rparr>"
    by (auto simp: gt_Close_def split: option.splits)
  then show ?case
    using mv_close.prems mdel_subset[of i "gm_sessions (gs_terminals g)"] terminals_wf_less[of "gs_terminals g" "mdel i (gm_sessions (gs_terminals g))"]
    by (auto simp: guest_wf_def terminals_wf_def length_mdel_le)
next
  case (mv_close_all g ps ts)
  then show ?case using terminals_wf_less[of "gs_terminals g" "[]"] by (auto simp: guest_wf_def gt_CloseAll_def)
next
  case (mv_kernel g cmd env pid)
  then show ?case using mkeys_mput[of "''python''" pid "gs_kernels g"] by (simp add: guest_wf_def gs_next_def)
next
  case (mv_evict g l)
  then show ?case using mkeys_mdel[of l "gs_kernels g"] by (auto simp: guest_wf_def evictKernel_def simp del: set_map)
qed (simp_all add: guest_wf_def gs_next_def kill_def)

text \<open>
  C12: The tables of the agent stay well-formed whatever the host sends, on however many connections, from the start of the agent on: interpreters are kept
  for Python only and once each; there are at most 256 terminals, each under its own identifier, which is not empty, has at most 128 characters and
  consists of letters, digits, underscores and hyphens, and each of a size within the supported range. Messages are handled one at a time;
  \<^term>\<open>earlier\<close> are those that came before on any connections, in any order.
\<close>

theorem guest_state_well_formed:
  "guest_wf (snd (handleConnection X ms (foldl (\<lambda>g m. snd (handle_message X m g)) new_guest earlier)))"
proof (rule connection_keeps)
  show "guest_wf (foldl (\<lambda>g m. snd (handle_message X m g)) new_guest earlier)"
    by (rule messages_keep[OF guest_wf_move]) (simp_all add: new_guest_def guest_wf_def terminals_wf_def newTerminalManager_def)
qed (rule guest_wf_move)

section \<open>A reset forgets the past\<close>

text \<open>
  The processes that the agent keeps in its tables, and so the ones it can hand a request to. It is not every process of the guest: an interpreter that the agent
  forgets after a timeout is not killed, and the children of a killed shell are not either.
\<close>

definition agent_processes :: "guest \<Rightarrow> nat set" where
  "agent_processes g = snd ` set (gs_kernels g) \<union> set_option (gs_node g) \<union> sh_pid ` set_option (gs_shell g)
     \<union> (\<lambda>(i, sess). gt_pid sess) ` set (gm_sessions (gs_terminals g))"

text \<open>The processes the kernel may start from a moment on.\<close>

definition started_from :: "guest_env \<Rightarrow> nat \<Rightarrow> nat set" where
  "started_from X n = {pid. \<exists>k \<ge> n. (\<exists>cmd env. ga_start X k cmd env = Inr pid) \<or> (\<exists>q. px_start (ga_pty X k) q = Inr pid)}"

definition only_new :: "guest_env \<Rightarrow> nat \<Rightarrow> nat set \<Rightarrow> guest \<Rightarrow> bool" where
  "only_new X n dead g \<longleftrightarrow> n \<le> gs_tick g \<and> agent_processes g \<subseteq> started_from X n \<and> dead \<subseteq> set (gs_killed g)"

lemma gt_Open_processes:
  assumes "gt_Open P q m = (err, m')" "(i, sess) \<in> set (gm_sessions m')"
  shows "(i, sess) \<in> set (gm_sessions m) \<or> px_start P q = Inr (gt_pid sess)"
  using assms by (auto simp: gt_Open_def mput_fresh split: option.splits if_splits sum.splits)

lemma mput_processes: "snd ` set (mput k v m) \<subseteq> insert v (snd ` set m)"
  by (induction m) auto

lemma mdel_processes: "f ` set (mdel k m) \<subseteq> f ` set m"
  by (rule image_mono) (rule mdel_subset)

lemma only_new_move: "guest_move X a b \<Longrightarrow> only_new X n dead a \<Longrightarrow> only_new X n dead b"
proof (induction rule: guest_move.induct)
  case (mv_kernel g cmd env pid)
  then have "pid \<in> started_from X n" by (auto simp: started_from_def only_new_def)
  then show ?case using mv_kernel.prems mput_processes[of "''python''" pid "gs_kernels g"]
    by (auto simp: only_new_def agent_processes_def gs_next_def)
next
  case (mv_evict g l)
  then show ?case using mdel_processes[of snd l "gs_kernels g"] by (auto simp: only_new_def agent_processes_def evictKernel_def)
next
  case (mv_node g cmd env pid)
  then have "pid \<in> started_from X n" by (auto simp: started_from_def only_new_def)
  then show ?case using mv_node.prems by (auto simp: only_new_def agent_processes_def gs_next_def)
next
  case (mv_shell g cmd env sh)
  then have "sh_pid sh \<in> started_from X n" by (auto simp: started_from_def only_new_def)
  then show ?case using mv_shell.prems by (auto simp: only_new_def agent_processes_def gs_next_def)
next
  case (mv_open g q err ts)
  have old: "gt_pid sess \<in> started_from X n" if "(i, sess) \<in> set (gm_sessions (gs_terminals g))" for i sess
    using that mv_open.prems unfolding only_new_def agent_processes_def by auto
  have new: "gt_pid sess \<in> started_from X n" if "px_start (ga_pty X (gs_tick g)) q = Inr (gt_pid sess)" for sess
    using that mv_open.prems unfolding only_new_def started_from_def by blast
  have "gt_pid sess \<in> started_from X n" if "(i, sess) \<in> set (gm_sessions ts)" for i sess
    using gt_Open_processes[OF mv_open.hyps that] old new by blast
  then show ?case using mv_open.prems by (auto simp: only_new_def agent_processes_def gs_next_def)
next
  case (mv_close i g err ps ts)
  then have "set (gm_sessions ts) \<subseteq> set (gm_sessions (gs_terminals g))"
    using mdel_subset[of i "gm_sessions (gs_terminals g)"] by (auto simp: gt_Close_def split: option.splits)
  then have "(\<lambda>(i, sess). gt_pid sess) ` set (gm_sessions ts) \<subseteq> (\<lambda>(i, sess). gt_pid sess) ` set (gm_sessions (gs_terminals g))"
    by (rule image_mono)
  then show ?case using mv_close.prems unfolding only_new_def agent_processes_def by (simp add: subset_trans)
next
  case (mv_close_all g ps ts)
  then show ?case by (auto simp: only_new_def agent_processes_def gt_CloseAll_def)
qed (simp_all add: only_new_def agent_processes_def gs_next_def kill_def le_SucI le_supI1)

lemma resetRuntimes_clean:
  "agent_processes (resetRuntimes g) = {}" "agent_processes g \<subseteq> set (gs_killed (resetRuntimes g))" "gs_tick (resetRuntimes g) = gs_tick g"
  by (auto simp: resetRuntimes_def Let_def agent_processes_def gt_CloseAll_def kill_def evictShell_def split: option.splits)

text \<open>
  A reset of the runtimes, which the host asks for on every resume, cuts off the past: it answers with success, and after any
  further messages every interpreter, shell and terminal the agent keeps was started after the reset, while all of those from before it
  have been killed.
\<close>

theorem reset_cuts_off_the_past:
  assumes reset: "im_Type m = ''reset_runtimes''" and run: "handleConnection X (m # ms) g = (rs, g')"
  shows "rs \<noteq> [] \<and> hd rs = Verdict True [] [] \<and> agent_processes g' \<subseteq> started_from X (gs_tick g) \<and> agent_processes g \<subseteq> set (gs_killed g')"
proof -
  have first: "handle_message X m g = (Some (Verdict True [] []), resetRuntimes g)" using reset by (simp add: handle_message_def)
  have "only_new X (gs_tick g) (agent_processes g) (resetRuntimes g)" by (simp add: only_new_def resetRuntimes_clean)
  then have "only_new X (gs_tick g) (agent_processes g) (snd (handleConnection X ms (resetRuntimes g)))"
    by (rule connection_keeps[rotated]) (rule only_new_move)
  moreover have "g' = snd (handleConnection X ms (resetRuntimes g))" "rs \<noteq> [] \<and> hd rs = Verdict True [] []"
    using run by (auto simp: first split: prod.splits)
  ultimately show ?thesis by (simp add: only_new_def)
qed

section \<open>What a command reports\<close>

lemma split_on_nonempty [simp]: "split_on sep s \<noteq> []"
  by (induction s) (auto split: list.splits)

lemma split_lines_append: "split_lines (a @ newline # b) = split_on newline a @ split_lines b"
  by (induction a) (auto split: list.splits)

lemma join_lines_split: "join_lines (split_on newline s) = s"
proof (induction s)
  case (Cons c s)
  obtain l ls where sp: "split_on newline s = l # ls" by (cases "split_on newline s") auto
  then show ?case using Cons by (cases ls) auto
qed simp

text \<open>A line of output the agent can tell from its own mark and from the end of its buffer.\<close>

definition plain_line :: "string \<Rightarrow> bool" where
  "plain_line l \<longleftrightarrow> \<not> has_prefix l shellSentinel \<and> length l < 65536 \<and> (l = [] \<or> last l \<noteq> CHR 0x0D)"

lemma drop_cr_plain: "plain_line l \<Longrightarrow> drop_cr l = l"
  by (auto simp: drop_cr_def plain_line_def)

lemma scan_plain:
  "list_all plain_line ls \<Longrightarrow> map drop_cr (takeWhile (\<lambda>l. length l < 65536) (ls @ rest)) = ls @ map drop_cr (takeWhile (\<lambda>l. length l < 65536) rest)"
  by (induction ls) (auto simp: drop_cr_plain plain_line_def)

lemma mark_line:
  assumes "n < 256"
  shows "drop_cr (shellSentinel @ nat_digits n) = shellSentinel @ nat_digits n" "length (shellSentinel @ nat_digits n) < 65536"
proof -
  have "last (nat_digits n) \<in> set (nat_digits n)" by (rule last_in_set) simp
  then have "last (nat_digits n) \<noteq> CHR 0x0D" using nat_digits_chars[of "last (nat_digits n)" n] by auto
  then show "drop_cr (shellSentinel @ nat_digits n) = shellSentinel @ nat_digits n" by (simp add: drop_cr_def)
  have "length (nat_digits n) \<le> 3"
    using assms by (subst nat_digits.simps, subst nat_digits.simps, subst nat_digits.simps) auto
  then show "length (shellSentinel @ nat_digits n) < 65536" by (simp add: shellSentinel_def)
qed

lemma newline_notin_nat_digits [simp]: "newline \<notin> set (nat_digits n)"
  using nat_digits_chars[of newline n] by (auto simp: newline_def)

lemma newline_notin_sentinel [simp]: "newline \<notin> set shellSentinel"
  by (simp add: newline_def shellSentinel_def)

text \<open>The stream of a command that printed \<^term>\<open>out\<close> and ended with the code \<^term>\<open>n\<close>.\<close>

lemma shell_result_plain:
  assumes plain: "list_all plain_line (split_on newline out)" and n: "n < 256"
  shows "shell_result (out @ newline # shellSentinel @ nat_digits n @ newline # rest) = Some (split_on newline out, int n)"
proof -
  define mark where "mark = shellSentinel @ nat_digits n"
  have pre: "has_prefix mark shellSentinel" "drop (length shellSentinel) mark = nat_digits n"
    by (simp_all add: mark_def has_prefix_def)
  have "split_lines (mark @ newline # rest) = mark # split_lines rest"
    by (subst split_lines_append) (simp add: split_on_plain mark_def)
  then have "scan_lines (out @ newline # mark @ newline # rest)
      = split_on newline out @ mark # map drop_cr (takeWhile (\<lambda>l. length l < 65536) (split_lines rest))"
    using mark_line[OF n] by (simp add: scan_lines_def split_lines_append scan_plain[OF plain] mark_def)
  moreover have "takeWhile (\<lambda>l. \<not> has_prefix l shellSentinel) (split_on newline out @ mark # ls) = split_on newline out" for ls
    using plain pre by (subst takeWhile_append2) (auto simp: list_all_iff plain_line_def)
  moreover have "n < 2 ^ 63" using n by simp
  ultimately have "shell_result (out @ newline # mark @ newline # rest) = Some (split_on newline out, int n)"
    unfolding shell_result_def Let_def by (simp add: pre)
  then show ?thesis by (simp add: mark_def)
qed

text \<open>
  C11: A command reports what it printed: when the shell prints \<^term>\<open>out\<close> for the command and then the end mark with the exit code
  \<^term>\<open>n\<close>, and no line of the output starts with the mark, ends in a carriage return or has 64 KiB or more, then the answer is that output
  followed by one more line end, the contents of the error file and that code; the shell is kept for the next command.
\<close>

theorem exec_reports_output:
  assumes shell: "gs_shell g = Some sh" and n: "n < 256" and plain: "list_all plain_line (split_on newline out)"
    and run: "ga_shell X (gs_tick g) (sh_pid sh) (wrapped_command command) (if t \<le> 0 then 30 else t)
                = ShellStream (out @ newline # shellSentinel @ nat_digits n @ newline # rest)"
  shows "handleExec X command t g
           = (\<lparr>ep_Stdout = out @ [newline], ep_Stderr = ga_stderr X (gs_tick g), ep_ExitCode = int n, ep_Duration = 0\<rparr>, gs_next g)
         \<and> gs_shell (gs_next g) = Some sh"
proof -
  let ?t = "if t \<le> 0 then 30 else t"
  have "\<not> ?t \<le> 0" by simp
  then have "shell_exec X (sh_pid sh) command ?t g = (Inr (out @ [newline], ga_stderr X (gs_tick g), int n), gs_next g)"
    unfolding shell_exec_def Let_def using run by (simp add: shell_result_plain[OF plain n] join_lines_split)
  then show ?thesis using shell by (simp add: handleExec_def Let_def getOrStartShell_def gs_next_def)
qed

text \<open>
  A command that fails in the agent (the shell died, its input is closed, or the time is over) costs the sandbox its shell: it is
  killed and forgotten, and if the next command can start a new one, that command runs with the environment of the agent itself, without
  the variables that were set before.
\<close>

theorem failed_exec_loses_environment:
  assumes shell: "gs_shell g = Some sh" and fail: "shell_exec X (sh_pid sh) command (if t \<le> 0 then 30 else t) g = (Inl e, g1)"
    and again: "getOrStartShell X [] (snd (handleExec X command t g)) = (Inr sh', g2)"
  shows "ep_ExitCode (fst (handleExec X command t g)) = -1 \<and> sh_pid sh \<in> set (gs_killed (snd (handleExec X command t g)))
         \<and> gs_shell (snd (handleExec X command t g)) = None \<and> sh_env sh' = ga_environ X"
proof -
  have "g1 = gs_next g" using fail by (auto simp: shell_exec_def Let_def split: shell_reply.splits option.splits)
  then have gone: "snd (handleExec X command t g) = kill [sh_pid sh] ((gs_next g)\<lparr>gs_shell := None\<rparr>)"
    "ep_ExitCode (fst (handleExec X command t g)) = -1"
    using shell fail by (simp_all add: handleExec_def Let_def getOrStartShell_def evictShell_def gs_next_def)
  then have "sh_env sh' = ga_environ X"
    using again by (auto simp: getOrStartShell_def newShellSession_def Let_def kill_def split: sum.splits prod.splits)
  then show ?thesis using gone by (simp add: kill_def)
qed

section \<open>A sample guest\<close>

text \<open>The first command prints a line and succeeds; from then on the shell is silent.\<close>

definition sample_guest_env :: guest_env where
  "sample_guest_env = \<lparr>ga_start = (\<lambda>k cmd env. Inr (100 + k)), ga_bridge = (\<lambda>k pid code t. BridgeSilent), ga_json = (\<lambda>s. Inl (ErrNew ''bad'')),
     ga_direct = (\<lambda>k cmd t. Ended [] [] ExitedOk),
     ga_shell = (\<lambda>k pid cmd t. if k = 0 then ShellStream (''hi'' @ newline # shellSentinel @ nat_digits 3 @ newline # []) else ShellSilent),
     ga_stderr = (\<lambda>k. ''warn''), ga_elapsed = (\<lambda>k. 0), ga_environ = [''PATH=/bin''],
     ga_pty = (\<lambda>k. \<lparr>px_hostname = (\<lambda>h. None), px_environ = [], px_start = (\<lambda>q. Inr (200 + k))\<rparr>), ga_net = sample_net_env\<rparr>"

definition sample_shell :: ShellSession where
  "sample_shell = \<lparr>sh_pid = 7, sh_env = [''PATH=/bin'', ''KEY=1''], sh_setup = shell_setup [(''KEY'', ''1'')]\<rparr>"

definition sample_guest :: "nat \<Rightarrow> guest" where
  "sample_guest k = new_guest\<lparr>gs_shell := Some sample_shell, gs_kernels := [(''python'', 8)], gs_tick := k\<rparr>"

definition reset_message :: incomingMessage where
  "reset_message = \<lparr>im_Type = ''reset_runtimes'', im_Code = [], im_Language = [], im_Timeout = 0, im_Mode = [], im_GuestIP = [], im_GWIP = [],
     im_Command = [], im_Env = [], im_TerminalID = [], im_Hostname = [], im_Shell = [], im_Columns = 0, im_Rows = 0\<rparr>"

theorem exec_reports_output_witness:
  "handleExec sample_guest_env ''echo hi'' 0 (sample_guest 0)
     = (\<lparr>ep_Stdout = ''hi'' @ [newline], ep_Stderr = ''warn'', ep_ExitCode = 3, ep_Duration = 0\<rparr>, gs_next (sample_guest 0))"
proof -
  have shell: "gs_shell (sample_guest 0) = Some sample_shell" by (simp add: sample_guest_def)
  have plain: "list_all plain_line (split_on newline ''hi'')"
    by (simp add: plain_line_def has_prefix_def shellSentinel_def newline_def)
  have run: "ga_shell sample_guest_env (gs_tick (sample_guest 0)) (sh_pid sample_shell) (wrapped_command ''echo hi'') (if (0::int) \<le> 0 then 30 else 0)
      = ShellStream (''hi'' @ newline # shellSentinel @ nat_digits 3 @ newline # [])"
    by (simp add: sample_guest_env_def sample_guest_def)
  have "ga_stderr sample_guest_env k = ''warn''" for k by (simp add: sample_guest_env_def)
  then show ?thesis using exec_reports_output[OF shell _ plain run] by simp
qed

theorem failed_exec_loses_environment_witness:
  "sh_env sample_shell = [''PATH=/bin'', ''KEY=1'']
   \<and> (\<exists>sh'. fst (getOrStartShell sample_guest_env [] (snd (handleExec sample_guest_env ''sleep 99'' 0 (sample_guest 1)))) = Inr sh' \<and> sh_env sh' = [''PATH=/bin''])"
proof -
  have shell: "gs_shell (sample_guest 1) = Some sample_shell" by (simp add: sample_guest_def)
  obtain e where fail: "shell_exec sample_guest_env (sh_pid sample_shell) ''sleep 99'' (if (0::int) \<le> 0 then 30 else 0) (sample_guest 1)
      = (Inl e, gs_next (sample_guest 1))"
    by (simp add: shell_exec_def sample_guest_env_def sample_guest_def)
  obtain sh' g2 where again: "getOrStartShell sample_guest_env [] (snd (handleExec sample_guest_env ''sleep 99'' 0 (sample_guest 1))) = (Inr sh', g2)"
    using shell fail by (simp add: handleExec_def Let_def getOrStartShell_def evictShell_def gs_next_def kill_def newShellSession_def sample_guest_env_def)
  have environ: "ga_environ sample_guest_env = [''PATH=/bin'']" by (simp add: sample_guest_env_def)
  have "sh_env sh' = [''PATH=/bin'']" using failed_exec_loses_environment[OF shell fail again] environ by argo
  then show ?thesis unfolding again by (simp add: sample_shell_def)
qed

theorem reset_cuts_off_the_past_witness:
  "agent_processes (snd (handleConnection sample_guest_env [reset_message] (sample_guest 1))) \<subseteq> started_from sample_guest_env 1
   \<and> 8 \<in> set (gs_killed (snd (handleConnection sample_guest_env [reset_message] (sample_guest 1))))"
proof -
  obtain rs g' where run: "handleConnection sample_guest_env [reset_message] (sample_guest 1) = (rs, g')" by fastforce
  have "8 \<in> agent_processes (sample_guest 1)" by (simp add: agent_processes_def sample_guest_def)
  moreover have "gs_tick (sample_guest 1) = 1" "im_Type reset_message = ''reset_runtimes''" by (simp_all add: sample_guest_def reset_message_def)
  ultimately show ?thesis unfolding run snd_conv using reset_cuts_off_the_past[OF _ run] by (metis subsetD)
qed

end
