(* ===== verification/Vsock_Client.thy ===== *)
theory Vsock_Client
  imports Guest_Agent
begin

text \<open>
  The worker's side of the channel to a guest (\<open>executor/firecracker/vsock_client.go\<close>), joined with the agent of
  \<open>Guest_Agent\<close>: a request is one message that the agent handles and answers. Failures of the socket are arguments. The theorems say
  what a successful call proves about the guest, that the worker waits longer than the guest does, and that dialling ends.
\<close>

section \<open>Dialling\<close>

text \<open>One attempt to connect: where it failed or the bytes of the answer, and how long it took in nanoseconds.\<close>

datatype attempt = DialFails go_error | WriteFails go_error | ReadFails go_error | Answers string

type_synonym dial_env = "nat \<Rightarrow> attempt \<times> nat"

definition vsock_timeout :: nat where "vsock_timeout = 60000000000"
definition dial_pause :: nat where "dial_pause = 150000000"

definition handshake_ok :: "string \<Rightarrow> bool" where
  "handshake_ok s \<longleftrightarrow> \<not> (length s < 2 \<or> take 2 s \<noteq> ''OK'')"

record dial_state =
  ds_attempts :: nat
  ds_now :: nat
  ds_lastErr :: "go_error option"
  ds_closed :: "nat list"

definition dial_failed :: "bool \<Rightarrow> go_error \<Rightarrow> nat \<Rightarrow> dial_state \<Rightarrow> dial_state" where
  "dial_failed opened e t s =
     s\<lparr>ds_attempts := Suc (ds_attempts s), ds_now := t, ds_lastErr := Some e,
       ds_closed := ds_closed s @ (if opened then [ds_attempts s] else [])\<rparr>"

definition attempt_end :: "dial_env \<Rightarrow> dial_state \<Rightarrow> nat" where
  "attempt_end D s = ds_now s + (if ds_attempts s > 0 then dial_pause else 0) + snd (D (ds_attempts s))"

function dial_loop :: "dial_env \<Rightarrow> nat \<Rightarrow> dial_state \<Rightarrow> (go_error + nat) \<times> dial_state" where
  "dial_loop D deadline s =
     (if ds_now s < deadline then
        (case fst (D (ds_attempts s)) of
           DialFails e \<Rightarrow> dial_loop D deadline (dial_failed False e (attempt_end D s) s)
         | WriteFails e \<Rightarrow> dial_loop D deadline (dial_failed True e (attempt_end D s) s)
         | ReadFails e \<Rightarrow> dial_loop D deadline (dial_failed True e (attempt_end D s) s)
         | Answers reply \<Rightarrow>
             if handshake_ok reply
             then (Inr (ds_attempts s), s\<lparr>ds_attempts := Suc (ds_attempts s), ds_now := attempt_end D s\<rparr>)
             else dial_loop D deadline (dial_failed True (ErrNew (''vsock handshake rejected: '' @ reply)) (attempt_end D s) s))
      else (Inl (Wrapf ''vsock handshake failed''
                   (case ds_lastErr s of None \<Rightarrow> ErrNew ''timed out waiting for guest agent'' | Some e \<Rightarrow> e)), s))"
  by pat_completeness auto

termination
  by (relation "measure (\<lambda>(D, deadline, s). deadline - ds_now s + (if ds_attempts s = 0 then 1 else 0))")
    (auto simp: dial_failed_def attempt_end_def dial_pause_def)

lemma dial_failed_measure:
  "ds_now s < deadline \<Longrightarrow>
     deadline - ds_now (dial_failed b e (attempt_end D s) s) + (if ds_attempts (dial_failed b e (attempt_end D s) s) = 0 then 1 else 0)
       < deadline - ds_now s + (if ds_attempts s = 0 then 1 else 0)"
  by (auto simp: dial_failed_def attempt_end_def dial_pause_def)

declare dial_loop.simps [simp del]

definition dial :: "dial_env \<Rightarrow> nat \<Rightarrow> (go_error + nat) \<times> dial_state" where
  "dial D start = dial_loop D (start + vsock_timeout) \<lparr>ds_attempts = 0, ds_now = start, ds_lastErr = None, ds_closed = []\<rparr>"

text \<open>\<open>Ping\<close>: whether the guest answers, and the stage reached.\<close>

definition Ping :: "attempt \<Rightarrow> bool \<times> string" where
  "Ping a =
     (case a of
        DialFails e \<Rightarrow> (False, ''connect'')
      | WriteFails e \<Rightarrow> (False, ''write'')
      | ReadFails e \<Rightarrow> (False, ''read'')
      | Answers reply \<Rightarrow> if length reply < 2 then (False, ''read'') else if take 2 reply \<noteq> ''OK'' then (False, ''handshake'') else (True, ''ok''))"

section \<open>Requests\<close>

record conn_env =
  cx_send :: "nat \<Rightarrow> go_error option"
  cx_deadline :: "nat \<Rightarrow> go_error option"
  cx_recv :: "nat \<Rightarrow> go_error option"

datatype exchange_result = SendFailed go_error | DeadlineFailed go_error | ReadFailed go_error | Answer guest_reply

text \<open>A message that was sent is handled by the agent, whether or not its answer arrives.\<close>

definition exchange :: "conn_env \<Rightarrow> guest_env \<Rightarrow> incomingMessage \<Rightarrow> guest \<Rightarrow> exchange_result \<times> guest" where
  "exchange C X m g =
     (case cx_send C (gs_tick g) of
        Some e \<Rightarrow> (SendFailed e, g)
      | None \<Rightarrow>
          (case handle_message X m g of
             (reply, g1) \<Rightarrow>
               (case cx_deadline C (gs_tick g) of
                  Some e \<Rightarrow> DeadlineFailed e
                | None \<Rightarrow>
                    (case cx_recv C (gs_tick g) of
                       Some e \<Rightarrow> ReadFailed e
                     | None \<Rightarrow> (case reply of None \<Rightarrow> ReadFailed (ErrNew ''i/o timeout'') | Some r \<Rightarrow> Answer r)), g1)))"

definition blank_message :: "string \<Rightarrow> incomingMessage" where
  "blank_message ty = \<lparr>im_Type = ty, im_Code = [], im_Language = [], im_Timeout = 0, im_Mode = [], im_GuestIP = [], im_GWIP = [],
     im_Command = [], im_Env = [], im_TerminalID = [], im_Hostname = [], im_Shell = [], im_Columns = 0, im_Rows = 0\<rparr>"

text \<open>The fields of the answer the caller reads; those that are missing are zero.\<close>

definition reply_Success :: "guest_reply \<Rightarrow> bool" where
  "reply_Success r = (case r of Verdict ok st err \<Rightarrow> ok | Result resp \<Rightarrow> False)"

definition reply_Error :: "guest_reply \<Rightarrow> string" where
  "reply_Error r = (case r of Verdict ok st err \<Rightarrow> err | Result resp \<Rightarrow> [])"

definition reply_Response :: "guest_reply \<Rightarrow> ExecutionResponse" where
  "reply_Response r = (case r of Result resp \<Rightarrow> resp | Verdict ok st err \<Rightarrow> \<lparr>ep_Stdout = [], ep_Stderr = [], ep_ExitCode = 0, ep_Duration = 0\<rparr>)"

definition ResetRuntimesOnConn :: "conn_env \<Rightarrow> guest_env \<Rightarrow> guest \<Rightarrow> go_error option \<times> guest" where
  "ResetRuntimesOnConn C X g =
     (case exchange C X (blank_message ''reset_runtimes'') g of
        (SendFailed e, g1) \<Rightarrow> (Some (Wrapf ''send reset_runtimes'' e), g1)
      | (DeadlineFailed e, g1) \<Rightarrow> (Some (Wrapf ''set reset_runtimes deadline'' e), g1)
      | (ReadFailed e, g1) \<Rightarrow> (Some (Wrapf ''read reset_runtimes response'' e), g1)
      | (Answer r, g1) \<Rightarrow> (if \<not> reply_Success r then Some (ErrNew ''reset_runtimes failed'') else None, g1))"

definition SetEnvOnConn :: "conn_env \<Rightarrow> guest_env \<Rightarrow> (string, string) gomap \<Rightarrow> guest \<Rightarrow> go_error option \<times> guest" where
  "SetEnvOnConn C X env g =
     (case exchange C X ((blank_message ''set_env'')\<lparr>im_Env := env\<rparr>) g of
        (SendFailed e, g1) \<Rightarrow> (Some (Wrapf ''send set_env'' e), g1)
      | (DeadlineFailed e, g1) \<Rightarrow> (Some (Wrapf ''set set_env deadline'' e), g1)
      | (ReadFailed e, g1) \<Rightarrow> (Some (Wrapf ''read set_env response'' e), g1)
      | (Answer r, g1) \<Rightarrow> (if \<not> reply_Success r then Some (ErrNew (''set_env failed: '' @ reply_Error r)) else None, g1))"

definition terminalRequest :: "conn_env \<Rightarrow> guest_env \<Rightarrow> incomingMessage \<Rightarrow> string \<Rightarrow> guest \<Rightarrow> go_error option \<times> guest" where
  "terminalRequest C X m operation g =
     (case exchange C X m g of
        (SendFailed e, g1) \<Rightarrow> (Some (Wrapf (''send terminal '' @ operation @ '' request'') e), g1)
      | (DeadlineFailed e, g1) \<Rightarrow> (Some (Wrapf (''set terminal '' @ operation @ '' deadline'') e), g1)
      | (ReadFailed e, g1) \<Rightarrow> (Some (Wrapf (''read terminal '' @ operation @ '' response'') e), g1)
      | (Answer r, g1) \<Rightarrow>
          (if \<not> reply_Success r then Some (ErrNew (''terminal '' @ operation @ '' failed: '' @ reply_Error r)) else None, g1))"

definition OpenTerminalOnConn :: "conn_env \<Rightarrow> guest_env \<Rightarrow> terminalOpenRequest \<Rightarrow> guest \<Rightarrow> go_error option \<times> guest" where
  "OpenTerminalOnConn C X q =
     terminalRequest C X
       ((blank_message ''terminal_open'')\<lparr>im_TerminalID := to_ID q, im_Hostname := to_Hostname q, im_Shell := to_Shell q,
          im_Columns := to_Columns q, im_Rows := to_Rows q, im_Env := to_Env q\<rparr>) ''open''"

definition CloseTerminalOnConn :: "conn_env \<Rightarrow> guest_env \<Rightarrow> string \<Rightarrow> guest \<Rightarrow> go_error option \<times> guest" where
  "CloseTerminalOnConn C X terminalID = terminalRequest C X ((blank_message ''terminal_close'')\<lparr>im_TerminalID := terminalID\<rparr>) ''close''"

definition CloseAllTerminalsOnConn :: "conn_env \<Rightarrow> guest_env \<Rightarrow> guest \<Rightarrow> go_error option \<times> guest" where
  "CloseAllTerminalsOnConn C X = terminalRequest C X (blank_message ''terminal_close_all'') ''close all''"

text \<open>Executions ignore an error of setting the deadline.\<close>

definition execution_exchange :: "conn_env \<Rightarrow> guest_env \<Rightarrow> incomingMessage \<Rightarrow> string \<times> string \<Rightarrow> guest \<Rightarrow> (go_error + ExecutionResponse) \<times> guest" where
  "execution_exchange C X m texts g =
     (case exchange (C\<lparr>cx_deadline := \<lambda>k. None\<rparr>) X m g of
        (SendFailed e, g1) \<Rightarrow> (Inl (Wrapf (fst texts) e), g1)
      | (DeadlineFailed e, g1) \<Rightarrow> (Inl e, g1)
      | (ReadFailed e, g1) \<Rightarrow> (Inl (Wrapf (snd texts) e), g1)
      | (Answer r, g1) \<Rightarrow> (Inr (reply_Response r), g1))"

definition ExecOnConn :: "conn_env \<Rightarrow> guest_env \<Rightarrow> string \<Rightarrow> int \<Rightarrow> guest \<Rightarrow> (go_error + ExecutionResponse) \<times> guest" where
  "ExecOnConn C X command timeoutSec =
     execution_exchange C X ((blank_message ''exec'')\<lparr>im_Command := command, im_Timeout := timeoutSec\<rparr>) (''send exec request'', ''read exec response'')"

definition execute_message :: "string \<Rightarrow> string \<Rightarrow> string \<Rightarrow> int \<Rightarrow> incomingMessage" where
  "execute_message code language mode timeoutSec =
     (blank_message [])\<lparr>im_Code := code, im_Language := language, im_Timeout := timeoutSec, im_Mode := mode\<rparr>"

definition ExecuteOnConn :: "conn_env \<Rightarrow> guest_env \<Rightarrow> string \<Rightarrow> string \<Rightarrow> string \<Rightarrow> int \<Rightarrow> guest \<Rightarrow> (go_error + ExecutionResponse) \<times> guest" where
  "ExecuteOnConn C X code language mode timeoutSec =
     execution_exchange C X (execute_message code language mode timeoutSec) (''send execute request'', ''read execute response'')"

definition vsock_Execute ::
  "dial_env \<Rightarrow> nat \<Rightarrow> conn_env \<Rightarrow> guest_env \<Rightarrow> string \<Rightarrow> string \<Rightarrow> string \<Rightarrow> int \<Rightarrow> guest \<Rightarrow> (go_error + ExecutionResponse) \<times> guest" where
  "vsock_Execute D start C X code language mode timeoutSec g =
     (case fst (dial D start) of
        Inl e \<Rightarrow> (Inl (Wrapf ''failed to connect'' e), g)
      | Inr c \<Rightarrow> execution_exchange C X (execute_message code language mode timeoutSec) (''failed to send request'', ''failed to read response'') g)"

section \<open>How long each side waits\<close>

text \<open>The deadline of the worker, and the waits of the agent, in nanoseconds that wrap in 64 bits.\<close>

definition host_deadline :: "int \<Rightarrow> int" where
  "host_deadline timeoutSec = wrap64 (wrap64 (timeoutSec + 10) * Second)"

definition shell_wait :: "int \<Rightarrow> int" where
  "shell_wait timeoutSec = wrap64 (timeoutSec * Second)"

definition bridge_wait :: "ExecutionRequest \<Rightarrow> int" where
  "bridge_wait q = wrap64 ((bridge_timeout q + 5) * Second)"

section \<open>Dialling ends\<close>

text \<open>
  What holds of the loop at every turn: the attempts made so far took at least a pause each but the first, and every connection that
  was opened by one of them is closed. A closed connection counts even if its attempt failed while writing or reading.
\<close>

definition opens :: "attempt \<Rightarrow> bool" where
  "opens a = (case a of DialFails e \<Rightarrow> False | _ \<Rightarrow> True)"

definition dial_inv :: "dial_env \<Rightarrow> nat \<Rightarrow> dial_state \<Rightarrow> bool" where
  "dial_inv D start s \<longleftrightarrow> ds_now s \<ge> start + (ds_attempts s - 1) * dial_pause \<and> ds_attempts s \<le> 401
     \<and> (\<forall>k < ds_attempts s. opens (fst (D k)) \<longrightarrow> k \<in> set (ds_closed s))"

lemma dial_inv_failed:
  assumes inv: "dial_inv D start s" and before: "ds_now s < start + vsock_timeout" and op: "b = opens (fst (D (ds_attempts s)))"
  shows "dial_inv D start (dial_failed b e (attempt_end D s) s)"
proof -
  have "(ds_attempts s - 1) * dial_pause < vsock_timeout" using inv before by (auto simp: dial_inv_def)
  then have few: "ds_attempts s \<le> 400" by (simp add: dial_pause_def vsock_timeout_def)
  have "start + ds_attempts s * dial_pause \<le> attempt_end D s"
    using inv by (cases "ds_attempts s") (auto simp: dial_inv_def attempt_end_def)
  then show ?thesis using inv few op by (auto simp: dial_inv_def dial_failed_def less_Suc_eq)
qed

text \<open>Reasoning about the loop: an invariant that every failed attempt keeps holds where it stops.\<close>

definition dial_accepted :: "dial_env \<Rightarrow> dial_state \<Rightarrow> bool" where
  "dial_accepted D s \<longleftrightarrow> (\<exists>reply. fst (D (ds_attempts s)) = Answers reply \<and> handshake_ok reply)"

lemma dial_loop_rule:
  assumes keep: "\<And>s e. I s \<Longrightarrow> ds_now s < deadline \<Longrightarrow> I (dial_failed (opens (fst (D (ds_attempts s)))) e (attempt_end D s) s)" and "I s"
  obtains (late) s' e where "I s'" "dial_loop D deadline s = (Inl e, s')" "ds_now s' \<ge> deadline"
    | (ready) s' where "I s'" "ds_now s' < deadline" "dial_accepted D s'"
        "dial_loop D deadline s = (Inr (ds_attempts s'), s'\<lparr>ds_attempts := Suc (ds_attempts s'), ds_now := attempt_end D s'\<rparr>)"
proof -
  let ?P = "\<lambda>s. (\<exists>s' e. I s' \<and> dial_loop D deadline s = (Inl e, s') \<and> ds_now s' \<ge> deadline)
    \<or> (\<exists>s'. I s' \<and> ds_now s' < deadline \<and> dial_accepted D s'
         \<and> dial_loop D deadline s = (Inr (ds_attempts s'), s'\<lparr>ds_attempts := Suc (ds_attempts s'), ds_now := attempt_end D s'\<rparr>))"
  have "?P s"
    using \<open>I s\<close>
  proof (induction "deadline - ds_now s + (if ds_attempts s = 0 then 1 else 0)" arbitrary: s rule: less_induct)
    case less
    show ?case
    proof (cases "ds_now s < deadline")
      case False
      then show ?thesis using less.prems by (subst (1 2) dial_loop.simps) auto
    next
      case soon: True
      show ?thesis
      proof (cases "dial_accepted D s")
        case True
        then have "dial_loop D deadline s = (Inr (ds_attempts s), s\<lparr>ds_attempts := Suc (ds_attempts s), ds_now := attempt_end D s\<rparr>)"
          using soon by (auto simp: dial_loop.simps[of D deadline s] dial_accepted_def)
        then show ?thesis using less.prems soon True by blast
      next
        case False
        then obtain e where e: "dial_loop D deadline s = dial_loop D deadline (dial_failed (opens (fst (D (ds_attempts s)))) e (attempt_end D s) s)"
          using soon by (cases "fst (D (ds_attempts s))") (auto simp: dial_loop.simps[of D deadline s] dial_accepted_def opens_def)
        show ?thesis unfolding e
          by (rule less.hyps[OF dial_failed_measure[OF soon] keep[OF less.prems soon]])
      qed
    qed
  qed
  then show thesis using late ready by blast
qed

definition dial_done :: "dial_env \<Rightarrow> nat \<Rightarrow> (go_error + nat) \<times> dial_state \<Rightarrow> bool" where
  "dial_done D start out \<longleftrightarrow> (case out of (r, s) \<Rightarrow>
     ds_attempts s \<le> 401
     \<and> (\<forall>k < ds_attempts s. opens (fst (D k)) \<longrightarrow> k \<in> set (ds_closed s) \<or> r = Inr k)
     \<and> (\<forall>c. r = Inr c \<longrightarrow> c \<notin> set (ds_closed s) \<and> (\<exists>reply. fst (D c) = Answers reply \<and> handshake_ok reply)))"

text \<open>
  C15: Connecting to a guest ends: however the attempts turn out, there are at most 401 of them within the 60 seconds; a connection is
  returned only if the guest answered its handshake with \<open>OK\<close>, and every other connection that was opened on the way is closed.
\<close>

theorem dial_ends_and_leaks_nothing:
  "dial_done D start (dial D start)"
proof -
  define s where "s = \<lparr>ds_attempts = 0, ds_now = start, ds_lastErr = None, ds_closed = []\<rparr>"
  let ?I = "\<lambda>s. dial_inv D start s \<and> set (ds_closed s) \<subseteq> {..<ds_attempts s}"
  have keep: "?I (dial_failed (opens (fst (D (ds_attempts s)))) e (attempt_end D s) s)"
    if "?I s" "ds_now s < start + vsock_timeout" for s e
    using that dial_inv_failed[of D start s] by (auto simp: dial_failed_def)
  have start: "?I s" by (simp add: s_def dial_inv_def)
  show ?thesis unfolding dial_def s_def[symmetric]
  proof (rule dial_loop_rule[of ?I "start + vsock_timeout" D s])
    fix s' e
    assume "?I s'" "dial_loop D (start + vsock_timeout) s = (Inl e, s')"
    then show "dial_done D start (dial_loop D (start + vsock_timeout) s)" by (simp add: dial_done_def dial_inv_def)
  next
    fix s'
    assume I: "?I s'" and soon: "ds_now s' < start + vsock_timeout" and "dial_accepted D s'"
      "dial_loop D (start + vsock_timeout) s = (Inr (ds_attempts s'), s'\<lparr>ds_attempts := Suc (ds_attempts s'), ds_now := attempt_end D s'\<rparr>)"
    moreover have "ds_attempts s' \<le> 400" using keep[OF I soon] by (auto simp: dial_inv_def dial_failed_def)
    ultimately show "dial_done D start (dial_loop D (start + vsock_timeout) s)"
      by (auto simp: dial_done_def dial_inv_def dial_accepted_def less_Suc_eq)
  qed (use keep start in blast)+
qed

text \<open>With the deadlines of the dialler (five seconds to connect, three to write and read) the whole call is over in time.\<close>

lemma dial_time:
  assumes "\<And>k. snd (D k) \<le> 8000000000"
  shows "ds_now (snd (dial D start)) \<le> start + vsock_timeout + dial_pause + 8000000000"
proof -
  define s where "s = \<lparr>ds_attempts = 0, ds_now = start, ds_lastErr = None, ds_closed = []\<rparr>"
  let ?I = "\<lambda>s. ds_now s \<le> start + vsock_timeout + dial_pause + 8000000000"
  have end_bound: "attempt_end D s \<le> start + vsock_timeout + dial_pause + 8000000000" if "ds_now s < start + vsock_timeout" for s
    using that assms[of "ds_attempts s"] unfolding attempt_end_def by auto
  have keep: "?I (dial_failed (opens (fst (D (ds_attempts s)))) e (attempt_end D s) s)" if "ds_now s < start + vsock_timeout" for s e
    using end_bound[OF that] by (simp add: dial_failed_def)
  have "?I s" by (simp add: s_def)
  then show ?thesis unfolding dial_def s_def[symmetric]
    by (rule dial_loop_rule[of ?I "start + vsock_timeout" D s, rotated]) (use end_bound keep in auto)
qed

section \<open>A successful call has done its work\<close>

lemma exchange_answer:
  assumes "exchange C X m g = (Answer r, g')"
  shows "handle_message X m g = (Some r, g')"
  using assms by (auto simp: exchange_def split: option.splits prod.splits)

lemma reset_call:
  assumes "ResetRuntimesOnConn C X g = (None, g')"
  shows "g' = resetRuntimes g"
proof -
  obtain r where "exchange C X (blank_message ''reset_runtimes'') g = (Answer r, g')"
    using assms by (auto simp: ResetRuntimesOnConn_def split: exchange_result.splits prod.splits if_splits)
  from exchange_answer[OF this] show ?thesis by (simp add: handle_message_def blank_message_def)
qed

lemma terminal_call:
  assumes "fst (terminalRequest C X m op g) = None"
  obtains r where "handle_message X m g = (Some r, snd (terminalRequest C X m op g))" "reply_Success r"
proof -
  obtain out g1 where out: "exchange C X m g = (out, g1)" by fastforce
  then obtain r where "out = Answer r" "reply_Success r" "snd (terminalRequest C X m op g) = g1"
    using assms by (cases out) (auto simp: terminalRequest_def split: if_splits)
  then show thesis using exchange_answer[of C X m g r g1] out that by simp
qed

lemma set_env_call:
  assumes "SetEnvOnConn C X env g = (None, g')"
  shows "handleSetEnv X env g = (None, g')"
proof -
  obtain r where r: "exchange C X ((blank_message ''set_env'')\<lparr>im_Env := env\<rparr>) g = (Answer r, g')" and ok: "reply_Success r"
    using assms by (auto simp: SetEnvOnConn_def split: exchange_result.splits prod.splits if_splits)
  from exchange_answer[OF r] show ?thesis
    using ok by (auto simp: handle_message_def blank_message_def reply_Success_def split: prod.splits)
qed

lemma handleSetEnv_shell:
  assumes "handleSetEnv X env g = (None, g')"
  shows "\<exists>sh. gs_shell g' = Some sh \<and> sh_env sh = ga_environ X @ map (\<lambda>(k, v). k @ ''='' @ v) env
           \<and> gs_kernels g' = gs_kernels g \<and> gs_node g' = gs_node g \<and> gs_terminals g' = gs_terminals g
           \<and> ga_start X (gs_tick g) [''/bin/bash''] (sh_env sh) = Inr (sh_pid sh)"
  using assms
  by (auto simp: handleSetEnv_def newShellSession_def Let_def evictShell_def kill_def gs_next_def split: sum.splits option.splits)

text \<open>
  C10: What a resume relies on: when the worker's calls to reset the runtimes and then to set the environment both return without an
  error, the agent keeps exactly one process, a shell started after the reset with the agent's environment followed by every
  variable of the session; every interpreter, shell and terminal that it kept before has been killed; and whatever messages follow, every process
  it keeps, and so can run a request in, was started after the reset. Processes that the agent did not keep any more at the reset (an interpreter it had
  forgotten after a timeout, the children of a shell) are not part of this.
\<close>

theorem resumed_guest_is_fresh:
  assumes reset: "ResetRuntimesOnConn C X g = (None, g1)" and env: "SetEnvOnConn C' X env g1 = (None, g2)"
  shows "\<exists>sh. gs_shell g2 = Some sh \<and> agent_processes g2 = {sh_pid sh} \<and> sh_pid sh \<in> started_from X (gs_tick g)
           \<and> sh_env sh = ga_environ X @ map (\<lambda>(k, v). k @ ''='' @ v) env
           \<and> agent_processes g \<subseteq> set (gs_killed g2)
           \<and> (\<forall>later. agent_processes (foldl (\<lambda>g m. snd (handle_message X m g)) g2 later) \<subseteq> started_from X (gs_tick g))"
proof -
  have g1: "g1 = resetRuntimes g" using reset by (rule reset_call)
  have env': "handleSetEnv X env g1 = (None, g2)" using env by (rule set_env_call)
  obtain sh where sh: "gs_shell g2 = Some sh" "sh_env sh = ga_environ X @ map (\<lambda>(k, v). k @ ''='' @ v) env"
    and rest: "gs_kernels g2 = gs_kernels g1" "gs_node g2 = gs_node g1" "gs_terminals g2 = gs_terminals g1"
    and start: "ga_start X (gs_tick g1) [''/bin/bash''] (sh_env sh) = Inr (sh_pid sh)"
    using handleSetEnv_shell[OF env'] by auto
  have "agent_processes g1 = {}" using g1 by (simp add: resetRuntimes_clean)
  then have one: "agent_processes g2 = {sh_pid sh}" using sh(1) rest by (auto simp: agent_processes_def)
  have killed: "set (gs_killed g1) \<subseteq> set (gs_killed g2)" and tick: "gs_tick g1 \<le> gs_tick g2"
    using env' by (auto simp: handleSetEnv_def newShellSession_def Let_def evictShell_def kill_def gs_next_def split: sum.splits option.splits)
  have new: "sh_pid sh \<in> started_from X (gs_tick g)" using start g1 by (auto simp: started_from_def resetRuntimes_clean)
  have "only_new X (gs_tick g) {} g2" using one new tick g1 by (simp add: only_new_def resetRuntimes_clean)
  from messages_keep[of X "only_new X (gs_tick g) {}", OF only_new_move this]
  have "only_new X (gs_tick g) {} (foldl (\<lambda>g m. snd (handle_message X m g)) g2 later)" for later .
  then have "\<forall>later. agent_processes (foldl (\<lambda>g m. snd (handle_message X m g)) g2 later) \<subseteq> started_from X (gs_tick g)" by (simp add: only_new_def)
  then show ?thesis using sh one new killed resetRuntimes_clean(2)[of g] g1 by blast
qed

lemma gt_Open_opened:
  assumes "fst (gt_Open P q m) = None"
  shows "\<exists>sess. mget (gm_sessions (snd (gt_Open P q m))) (to_ID q) = Some sess \<and> gt_id sess = to_ID q \<and> gt_size sess = (to_Columns q, to_Rows q)"
  using assms by (auto simp: gt_Open_def split: option.splits if_splits sum.splits)

lemma open_message:
  "handle_message X ((blank_message ''terminal_open'')\<lparr>im_TerminalID := to_ID q, im_Hostname := to_Hostname q, im_Shell := to_Shell q,
      im_Columns := to_Columns q, im_Rows := to_Rows q, im_Env := to_Env q\<rparr>) g
    = (Some (terminal_verdict (fst (gt_Open (ga_pty X (gs_tick g)) q (gs_terminals g))) ''ready''),
       gs_next (g\<lparr>gs_terminals := snd (gt_Open (ga_pty X (gs_tick g)) q (gs_terminals g))\<rparr>))"
  by (cases q) (simp add: handle_message_def blank_message_def split_beta)

lemma close_message:
  "handle_message X ((blank_message ''terminal_close'')\<lparr>im_TerminalID := i\<rparr>) g
    = (Some (terminal_verdict (fst (fst (gt_Close i (gs_terminals g)))) ''closed''),
       kill (snd (fst (gt_Close i (gs_terminals g)))) (g\<lparr>gs_terminals := snd (gt_Close i (gs_terminals g))\<rparr>))"
  by (simp add: handle_message_def blank_message_def split_beta)

lemma close_all_message:
  "handle_message X (blank_message ''terminal_close_all'') g
    = (Some (Verdict True [] []), kill (fst (gt_CloseAll (gs_terminals g))) (g\<lparr>gs_terminals := snd (gt_CloseAll (gs_terminals g))\<rparr>))"
  by (simp add: handle_message_def blank_message_def split_beta)

lemma verdict_Success [simp]: "reply_Success (terminal_verdict err st) \<longleftrightarrow> err = None"
  by (simp add: reply_Success_def terminal_verdict_def)

text \<open>
  The worker and the agent agree on terminals: an open that returns without an error leaves the terminal in the agent's table, with
  the requested identifier and size; a close leaves no terminal of that name and its shell has been stopped; closing all leaves none.
\<close>

theorem terminal_calls_take_effect:
  "(fst (OpenTerminalOnConn C X q g) = None \<longrightarrow>
      (\<exists>sess. mget (gm_sessions (gs_terminals (snd (OpenTerminalOnConn C X q g)))) (to_ID q) = Some sess
         \<and> gt_id sess = to_ID q \<and> gt_size sess = (to_Columns q, to_Rows q)))
   \<and> (fst (CloseTerminalOnConn C X i g) = None \<longrightarrow>
        (\<exists>sess. mget (gm_sessions (gs_terminals g)) i = Some sess \<and> gt_pid sess \<in> set (gs_killed (snd (CloseTerminalOnConn C X i g))))
        \<and> mget (gm_sessions (gs_terminals (snd (CloseTerminalOnConn C X i g)))) i = None)
   \<and> (fst (CloseAllTerminalsOnConn C X g) = None \<longrightarrow> gm_sessions (gs_terminals (snd (CloseAllTerminalsOnConn C X g))) = [])"
proof (intro conjI impI)
  assume none: "fst (OpenTerminalOnConn C X q g) = None"
  define out where "out = gt_Open (ga_pty X (gs_tick g)) q (gs_terminals g)"
  from none have "fst out = None \<and> snd (OpenTerminalOnConn C X q g) = gs_next (g\<lparr>gs_terminals := snd out\<rparr>)"
    unfolding OpenTerminalOnConn_def by (rule terminal_call) (auto simp: open_message out_def)
  then show "\<exists>sess. mget (gm_sessions (gs_terminals (snd (OpenTerminalOnConn C X q g)))) (to_ID q) = Some sess
         \<and> gt_id sess = to_ID q \<and> gt_size sess = (to_Columns q, to_Rows q)"
    using gt_Open_opened[of "ga_pty X (gs_tick g)" q "gs_terminals g"] by (simp add: gs_next_def out_def)
next
  assume none: "fst (CloseTerminalOnConn C X i g) = None"
  define out where "out = gt_Close i (gs_terminals g)"
  from none have "fst (fst out) = None \<and> snd (CloseTerminalOnConn C X i g) = kill (snd (fst out)) (g\<lparr>gs_terminals := snd out\<rparr>)"
    unfolding CloseTerminalOnConn_def by (rule terminal_call) (auto simp: close_message out_def)
  then show "\<exists>sess. mget (gm_sessions (gs_terminals g)) i = Some sess \<and> gt_pid sess \<in> set (gs_killed (snd (CloseTerminalOnConn C X i g)))"
    and "mget (gm_sessions (gs_terminals (snd (CloseTerminalOnConn C X i g)))) i = None"
    by (auto simp: out_def gt_Close_def kill_def split: option.splits)
next
  assume none: "fst (CloseAllTerminalsOnConn C X g) = None"
  define out where "out = gt_CloseAll (gs_terminals g)"
  from none have "snd (CloseAllTerminalsOnConn C X g) = kill (fst out) (g\<lparr>gs_terminals := snd out\<rparr>)"
    unfolding CloseAllTerminalsOnConn_def by (rule terminal_call) (auto simp: close_all_message out_def)
  then show "gm_sessions (gs_terminals (snd (CloseAllTerminalsOnConn C X g))) = []" by (simp add: out_def gt_CloseAll_def kill_def)
qed

text \<open>
  The worker waits longer than the guest: for every timeout of at least one second that fits the clock, the deadline the worker
  sets for the answer lies after the moment at which the agent gives up on a shell command, on an interpreter and on a direct process.
\<close>

theorem host_outwaits_guest:
  assumes "0 < t" "t \<le> 9223372026" "er_Timeout q = t"
  shows "0 < shell_wait t \<and> shell_wait t < host_deadline t \<and> bridge_wait q < host_deadline t \<and> direct_timeout q < host_deadline t"
proof -
  have host: "host_deadline t = (t + 10) * Second" using assms by (simp add: host_deadline_def Second_def wrap64_id)
  have shell: "shell_wait t = t * Second" using assms by (simp add: shell_wait_def Second_def wrap64_id)
  have bridge: "bridge_wait q = (min t 60 + 5) * Second"
    using assms by (auto simp: bridge_wait_def bridge_timeout_def MaxTimeout_def Second_def wrap64_id)
  have direct: "direct_timeout q = min (t * Second) (60 * Second)"
    using assms by (auto simp: direct_timeout_def MaxTimeout_def Second_def wrap64_id Let_def)
  show ?thesis using assms unfolding host shell bridge direct by (auto simp: Second_def min_def)
qed

section \<open>A sample connection\<close>

definition sample_conn :: conn_env where
  "sample_conn = \<lparr>cx_send = (\<lambda>k. None), cx_deadline = (\<lambda>k. None), cx_recv = (\<lambda>k. None)\<rparr>"

definition sample_terminal :: terminalOpenRequest where
  "sample_terminal = \<lparr>to_ID = ''t1'', to_Hostname = [], to_Shell = ''/bin/bash'', to_Columns = 80, to_Rows = 24, to_Env = []\<rparr>"

lemma sample_reset: "ResetRuntimesOnConn sample_conn sample_guest_env (sample_guest 1) = (None, resetRuntimes (sample_guest 1))"
  by (simp add: ResetRuntimesOnConn_def exchange_def sample_conn_def handle_message_def blank_message_def reply_Success_def)

lemma sample_set_env:
  "SetEnvOnConn sample_conn sample_guest_env env g
     = (None, snd (handleSetEnv sample_guest_env env g))"
proof -
  have none: "fst (handleSetEnv sample_guest_env env g) = None"
    by (simp add: handleSetEnv_def newShellSession_def Let_def sample_guest_env_def)
  show ?thesis
    by (simp add: SetEnvOnConn_def exchange_def sample_conn_def handle_message_def blank_message_def reply_Success_def split_beta none)
qed

theorem resumed_guest_is_fresh_witness:
  "\<exists>sh. gs_shell (snd (SetEnvOnConn sample_conn sample_guest_env [(''KEY'', ''1'')] (snd (ResetRuntimesOnConn sample_conn sample_guest_env (sample_guest 1))))) = Some sh
     \<and> sh_env sh = [''PATH=/bin'', ''KEY=1'']"
proof -
  have "ga_environ sample_guest_env = [''PATH=/bin'']" by (simp add: sample_guest_env_def)
  then show ?thesis using resumed_guest_is_fresh[OF sample_reset sample_set_env[of "[(''KEY'', ''1'')]"]]
    unfolding sample_reset sample_set_env snd_conv by auto
qed

theorem terminal_calls_take_effect_witness:
  "\<exists>sess. mget (gm_sessions (gs_terminals (snd (OpenTerminalOnConn sample_conn sample_guest_env sample_terminal (sample_guest 1))))) ''t1'' = Some sess"
proof -
  have "fst (gt_Open P sample_terminal (newTerminalManager maxGuestTerminals)) = None"
    if "px_start P sample_terminal = Inr pid" for P pid
    using that by (simp add: gt_Open_def validateTerminalOpen_def sample_terminal_def ascii_alnum_def newTerminalManager_def maxGuestTerminals_def)
  then have "fst (gt_Open (ga_pty sample_guest_env 1) sample_terminal (newTerminalManager maxGuestTerminals)) = None"
    by (simp add: sample_guest_env_def)
  then have "fst (OpenTerminalOnConn sample_conn sample_guest_env sample_terminal (sample_guest 1)) = None"
    by (simp add: OpenTerminalOnConn_def terminalRequest_def exchange_def sample_conn_def open_message sample_guest_def new_guest_def)
  then show ?thesis
    using terminal_calls_take_effect[of sample_conn sample_guest_env sample_terminal "sample_guest 1" "[]"] by (auto simp: sample_terminal_def)
qed

theorem host_outwaits_guest_witness:
  "shell_wait 30 < host_deadline 30 \<and> bridge_wait \<lparr>er_Code = [], er_Language = ''python'', er_Timeout = 30, er_Mode = ''stateful''\<rparr> < host_deadline 30"
  using host_outwaits_guest[of 30 "\<lparr>er_Code = [], er_Language = ''python'', er_Timeout = 30, er_Mode = ''stateful''\<rparr>"] by simp

end
