(* ===== verification/Template_Store.thy ===== *)
theory Template_Store
  imports Paths Vm_Manager Sizes
begin

text \<open>
  Releases of VM templates (\<open>backend/internal/template\<close>): manifests and their checks, the keys of objects, the stores of objects, the
  repository of manifests with its active pointer, and the publication of a release. An object store maps keys to bytes; every call may
  fail, and a failed upload may or may not have taken effect. SHA-256, gzip and JSON are arguments. The main theorem says that the active
  pointer never names a release with a missing or wrong artifact.
\<close>

section \<open>Manifests\<close>

type_synonym file_bytes = "8 word list"

definition SchemaVersion :: int where "SchemaVersion = 1"
definition ArtifactSnapshot :: string where "ArtifactSnapshot = ''snap''"
definition ArtifactMemory :: string where "ArtifactMemory = ''mem''"
definition ArtifactWritableSeed :: string where "ArtifactWritableSeed = ''writable-seed.ext4''"

record TemplateArtifact =
  ta_Name :: string
  ta_SHA256 :: string
  ta_Bytes :: int

record Variant =
  vr_Size :: string
  vr_VCPUs :: int
  vr_MemoryMB :: int
  vr_DiskMB :: int
  vr_Snapshot :: TemplateArtifact
  vr_Memory :: TemplateArtifact
  vr_WritableSeed :: TemplateArtifact
  vr_VsockPath :: string
  vr_TapName :: string

record TemplateManifest =
  tm_SchemaVersion :: int
  tm_ReleaseID :: string
  tm_CreatedAt :: int
  tm_Arch :: string
  tm_CPUCompatClass :: string
  tm_FirecrackerVersion :: string
  tm_AssetBundleDigest :: string
  tm_RootfsDigest :: string
  tm_KernelDigest :: string
  tm_Variants :: "(string, Variant) gomap"

record ActivePointer =
  ap_ReleaseID :: string
  ap_UpdatedAt :: int

definition artifacts_of :: "Variant \<Rightarrow> TemplateArtifact list" where
  "artifacts_of v = [vr_Snapshot v, vr_Memory v, vr_WritableSeed v]"

definition artifact_problem :: "string \<Rightarrow> string \<times> TemplateArtifact \<Rightarrow> go_error option" where
  "artifact_problem sz p =
     (case p of (want, a) \<Rightarrow>
        if ta_Name a \<noteq> want then Some (ErrNew (''variant '' @ quoted sz @ '' artifact name '' @ quoted (ta_Name a) @ '' != expected '' @ quoted want))
        else if ta_SHA256 a = [] then Some (ErrNew (''variant '' @ quoted sz @ '' artifact '' @ quoted (ta_Name a) @ '' missing sha256''))
        else if ta_Bytes a \<le> 0 then Some (ErrNew (''variant '' @ quoted sz @ '' artifact '' @ quoted (ta_Name a) @ '' has non-positive size''))
        else None)"

fun first_problem :: "('a \<Rightarrow> go_error option) \<Rightarrow> 'a list \<Rightarrow> go_error option" where
  "first_problem f [] = None"
| "first_problem f (x # xs) = (case f x of Some e \<Rightarrow> Some e | None \<Rightarrow> first_problem f xs)"

definition variant_problem :: "string \<times> Variant \<Rightarrow> go_error option" where
  "variant_problem p =
     (case p of (sz, v) \<Rightarrow>
        if sz \<noteq> vr_Size v then Some (ErrNew (''variant map key '' @ quoted sz @ '' != variant.size '' @ quoted (vr_Size v)))
        else if vr_VCPUs v \<le> 0 \<or> vr_MemoryMB v \<le> 0 \<or> vr_DiskMB v \<le> 0 then Some (ErrNew (''variant '' @ quoted sz @ '' has non-positive resources''))
        else if vr_VsockPath v = [] \<or> vr_TapName v = []
        then Some (ErrNew (''variant '' @ quoted sz @ '' missing baked device names (vsock_path/tap_name)''))
        else first_problem (artifact_problem sz)
               [(ArtifactSnapshot, vr_Snapshot v), (ArtifactMemory, vr_Memory v), (ArtifactWritableSeed, vr_WritableSeed v)])"

text \<open>The variants are checked in the order of the list; a Go map has no order, so with several problems the code may report another one.\<close>

definition Validate_manifest :: "TemplateManifest \<Rightarrow> go_error option" where
  "Validate_manifest m =
     (if tm_SchemaVersion m \<noteq> SchemaVersion
      then Some (ErrNew (''manifest schema_version '' @ itoa (tm_SchemaVersion m) @ '' != supported '' @ itoa SchemaVersion))
      else if tm_ReleaseID m = [] then Some (ErrNew ''manifest release_id is empty'')
      else if tm_Arch m = [] then Some (ErrNew ''manifest arch is empty'')
      else if tm_CPUCompatClass m = [] \<or> tm_FirecrackerVersion m = [] \<or> tm_RootfsDigest m = [] \<or> tm_KernelDigest m = []
      then Some (ErrNew ''manifest is missing a compatibility pin (cpu_compat_class/firecracker_version/rootfs_digest/kernel_digest)'')
      else if tm_Variants m = [] then Some (ErrNew ''manifest has no variants'')
      else first_problem variant_problem (tm_Variants m))"

definition manifest_Variant :: "TemplateManifest \<Rightarrow> string \<Rightarrow> Variant option" where
  "manifest_Variant m sz = mget (tm_Variants m) sz"

section \<open>Keys\<close>

definition ActiveKey :: string where "ActiveKey = ''active-release.json''"
definition releasesPrefix :: string where "releasesPrefix = ''releases''"
definition manifestName :: string where "manifestName = ''manifest.json''"

definition ReleasePrefix :: "string \<Rightarrow> string" where "ReleasePrefix releaseID = path_Join [releasesPrefix, releaseID]"
definition ManifestKey :: "string \<Rightarrow> string" where "ManifestKey releaseID = path_Join [releasesPrefix, releaseID, manifestName]"
definition ArtifactKey :: "string \<Rightarrow> string \<Rightarrow> string \<Rightarrow> string" where
  "ArtifactKey releaseID sz name = path_Join [releasesPrefix, releaseID, sz, name]"

section \<open>Objects and files\<close>

record depot =
  dp_objects :: "(string, file_bytes) gomap"
  dp_files :: "(string, file_bytes) gomap"
  dp_tick :: nat

type_synonym 'a depot_op = "depot \<Rightarrow> (go_error + 'a) \<times> depot"

record template_env =
  tx_fault :: "nat \<Rightarrow> string \<Rightarrow> go_error option"
  tx_lost :: "nat \<Rightarrow> bool"
  tx_partial :: "nat \<Rightarrow> file_bytes"
  tx_sha :: "file_bytes \<Rightarrow> string"
  tx_gzip :: "file_bytes \<Rightarrow> file_bytes"
  tx_gunzip :: "file_bytes \<Rightarrow> go_error + file_bytes"
  tx_manifest :: "TemplateManifest \<Rightarrow> file_bytes"
  tx_parse_manifest :: "file_bytes \<Rightarrow> go_error + TemplateManifest"
  tx_pointer :: "ActivePointer \<Rightarrow> file_bytes"
  tx_parse_pointer :: "file_bytes \<Rightarrow> go_error + ActivePointer"
  tx_now :: "nat \<Rightarrow> int"

definition op_ret :: "'a \<Rightarrow> 'a depot_op" where "op_ret a w = (Inr a, w)"
definition op_fail :: "go_error \<Rightarrow> 'a depot_op" where "op_fail e w = (Inl e, w)"

definition op_bind :: "'a depot_op \<Rightarrow> ('a \<Rightarrow> 'b depot_op) \<Rightarrow> 'b depot_op" where
  "op_bind m f w = (case m w of (Inl e, w1) \<Rightarrow> (Inl e, w1) | (Inr a, w1) \<Rightarrow> f a w1)"

text \<open>Errors of an operation rewritten, and a clean-up whose own error is ignored.\<close>

definition op_wrap :: "string \<Rightarrow> 'a depot_op \<Rightarrow> 'a depot_op" where
  "op_wrap msg m w = (case m w of (Inl e, w1) \<Rightarrow> (Inl (Wrapf msg e), w1) | (Inr a, w1) \<Rightarrow> (Inr a, w1))"

definition op_cleanup :: "unit depot_op \<Rightarrow> 'a depot_op \<Rightarrow> 'a depot_op" where
  "op_cleanup c m w = (case m w of (Inl e, w1) \<Rightarrow> (Inl e, snd (c w1)) | (Inr a, w1) \<Rightarrow> (Inr a, w1))"

definition op_step :: "template_env \<Rightarrow> string \<Rightarrow> unit depot_op" where
  "op_step X name w =
     (case tx_fault X (dp_tick w) name of
        Some e \<Rightarrow> (Inl e, w\<lparr>dp_tick := Suc (dp_tick w)\<rparr>)
      | None \<Rightarrow> (Inr (), w\<lparr>dp_tick := Suc (dp_tick w)\<rparr>))"

definition read_path :: "template_env \<Rightarrow> string \<Rightarrow> string \<Rightarrow> file_bytes depot_op" where
  "read_path X name p =
     op_bind (op_step X (name @ p))
       (\<lambda>u w. case mget (dp_files w) p of None \<Rightarrow> (Inl (ErrNew (name @ p @ '': no such file or directory'')), w) | Some b \<Rightarrow> (Inr b, w))"

definition SHA256File :: "template_env \<Rightarrow> string \<Rightarrow> string depot_op" where
  "SHA256File X p =
     op_bind (op_wrap (''open '' @ p) (read_path X ''open '' p))
       (\<lambda>b. op_bind (op_wrap (''hash '' @ p) (op_step X (''read '' @ p))) (\<lambda>u. op_ret (tx_sha X b)))"

definition VerifyFile :: "template_env \<Rightarrow> string \<Rightarrow> string \<Rightarrow> unit depot_op" where
  "VerifyFile X p want =
     op_bind (SHA256File X p)
       (\<lambda>got. if got \<noteq> want then op_fail (ErrNew (''checksum mismatch for '' @ p @ '': got '' @ got @ '' want '' @ want)) else op_ret ())"

section \<open>Stores\<close>

datatype store_error = ErrNotFound string | StoreFailed go_error

definition store_error_of :: "store_error \<Rightarrow> go_error" where
  "store_error_of e = (case e of ErrNotFound key \<Rightarrow> Wrapf key (ErrNew ''template: not found'') | StoreFailed e \<Rightarrow> e)"

record artifact_store =
  as_Put :: "string \<Rightarrow> file_bytes \<Rightarrow> unit depot_op"
  as_Get :: "string \<Rightarrow> depot \<Rightarrow> (store_error + file_bytes) \<times> depot"

definition put_object :: "string \<Rightarrow> file_bytes \<Rightarrow> depot \<Rightarrow> depot" where
  "put_object key b w = w\<lparr>dp_objects := mput key b (dp_objects w)\<rparr>"

definition blob_Put :: "template_env \<Rightarrow> string \<Rightarrow> file_bytes \<Rightarrow> unit depot_op" where
  "blob_Put X key b w =
     (let w1 = w\<lparr>dp_tick := Suc (dp_tick w)\<rparr> in
      case tx_fault X (dp_tick w) (''upload '' @ key) of
        Some e \<Rightarrow> (Inl (Wrapf (''upload '' @ key) e), if tx_lost X (dp_tick w) then put_object key b w1 else w1)
      | None \<Rightarrow> (Inr (), put_object key b w1))"

definition blob_Get :: "template_env \<Rightarrow> string \<Rightarrow> depot \<Rightarrow> (store_error + file_bytes) \<times> depot" where
  "blob_Get X key w =
     (let w1 = w\<lparr>dp_tick := Suc (dp_tick w)\<rparr> in
      case tx_fault X (dp_tick w) (''download '' @ key) of
        Some e \<Rightarrow> (Inl (StoreFailed (Wrapf (''download '' @ key) e)), w1)
      | None \<Rightarrow> (case mget (dp_objects w) key of None \<Rightarrow> (Inl (ErrNotFound key), w1) | Some b \<Rightarrow> (Inr b, w1)))"

definition blob_store :: "template_env \<Rightarrow> artifact_store" where
  "blob_store X = \<lparr>as_Put = blob_Put X, as_Get = blob_Get X\<rparr>"

text \<open>Opening the blob store: the SDK builds a credential and a client, and either may be refused.\<close>

definition NewAzureBlobStore :: "template_env \<Rightarrow> string \<Rightarrow> string \<Rightarrow> string \<Rightarrow> artifact_store depot_op" where
  "NewAzureBlobStore X account accountKey container =
     (if account = [] \<or> accountKey = [] \<or> container = [] then op_fail (ErrNew ''azure blob store requires account, key and container'')
      else
        op_bind (op_wrap ''azure shared-key credential'' (op_step X ''credential'')) (\<lambda>u.
        op_bind (op_wrap ''azure blob client'' (op_step X ''client'')) (\<lambda>u. op_ret (blob_store X))))"

definition env_or :: "(string \<Rightarrow> string) \<Rightarrow> string \<Rightarrow> string \<Rightarrow> string" where
  "env_or E key def = (let v = trim_space (E key) in if v \<noteq> [] then v else def)"

definition compressed_Put :: "template_env \<Rightarrow> artifact_store \<Rightarrow> string \<Rightarrow> file_bytes \<Rightarrow> unit depot_op" where
  "compressed_Put X S key b = as_Put S key (tx_gzip X b)"

definition compressed_Get :: "template_env \<Rightarrow> artifact_store \<Rightarrow> string \<Rightarrow> depot \<Rightarrow> (store_error + file_bytes) \<times> depot" where
  "compressed_Get X S key w =
     (case as_Get S key w of
        (Inl e, w1) \<Rightarrow> (Inl e, w1)
      | (Inr z, w1) \<Rightarrow>
          (case tx_gunzip X z of Inl e \<Rightarrow> (Inl (StoreFailed (Wrapf (''open gzip for '' @ key) e)), w1) | Inr b \<Rightarrow> (Inr b, w1)))"

definition NewCompressedStore :: "template_env \<Rightarrow> artifact_store \<Rightarrow> artifact_store" where
  "NewCompressedStore X S = \<lparr>as_Put = compressed_Put X S, as_Get = compressed_Get X S\<rparr>"

section \<open>The local store\<close>

text \<open>A key is a path below the root; anything that would leave it is refused.\<close>

definition local_resolve :: "string \<Rightarrow> string \<Rightarrow> go_error + string" where
  "local_resolve dir key =
     (if key = [] \<or> has_prefix key ''/'' then Inl (ErrNew (''invalid object key '' @ quoted key))
      else
        let clean = path_clean key in
        if clean = ''.'' \<or> clean = ''..'' \<or> has_prefix clean ''../'' then Inl (ErrNew (''key '' @ quoted key @ '' escapes store root''))
        else
          let full = path_Join [dir, clean] in
          if full \<noteq> dir \<and> \<not> has_prefix full (dir @ ''/'') then Inl (ErrNew (''key '' @ quoted key @ '' escapes store root''))
          else Inr full)"

definition put_file :: "string \<Rightarrow> file_bytes \<Rightarrow> depot \<Rightarrow> depot" where
  "put_file p b w = w\<lparr>dp_files := mput p b (dp_files w)\<rparr>"

text \<open>The temporary file is in the same directory under a name of its own; it is not represented, since it is removed on every failure.\<close>

definition local_Put :: "template_env \<Rightarrow> string \<Rightarrow> string \<Rightarrow> file_bytes \<Rightarrow> unit depot_op" where
  "local_Put X dir key b =
     (case local_resolve dir key of
        Inl e \<Rightarrow> op_fail e
      | Inr full \<Rightarrow>
          op_bind (op_wrap (''create dir for '' @ key) (op_step X (''mkdir '' @ full))) (\<lambda>u.
          op_bind (op_wrap (''create temp for '' @ key) (op_step X (''create '' @ full))) (\<lambda>u.
          op_bind (op_wrap (''write '' @ key) (op_step X (''write '' @ full))) (\<lambda>u.
          op_bind (op_wrap (''close temp for '' @ key) (op_step X (''close '' @ full))) (\<lambda>u.
          op_bind (op_wrap (''commit '' @ key) (op_step X (''rename '' @ full))) (\<lambda>u w. (Inr (), put_file full b w)))))))"

definition local_Get :: "template_env \<Rightarrow> string \<Rightarrow> string \<Rightarrow> depot \<Rightarrow> (store_error + file_bytes) \<times> depot" where
  "local_Get X dir key w =
     (case local_resolve dir key of
        Inl e \<Rightarrow> (Inl (StoreFailed e), w)
      | Inr full \<Rightarrow>
          (case op_step X (''open '' @ full) w of
             (Inl e, w1) \<Rightarrow> (Inl (StoreFailed (Wrapf (''open '' @ key) e)), w1)
           | (Inr u, w1) \<Rightarrow> (case mget (dp_files w1) full of None \<Rightarrow> (Inl (ErrNotFound key), w1) | Some b \<Rightarrow> (Inr b, w1))))"

definition local_Stat :: "template_env \<Rightarrow> string \<Rightarrow> string \<Rightarrow> (int \<times> bool) depot_op" where
  "local_Stat X dir key =
     (case local_resolve dir key of
        Inl e \<Rightarrow> op_fail e
      | Inr full \<Rightarrow>
          op_bind (op_wrap (''stat '' @ key) (op_step X (''stat '' @ full)))
            (\<lambda>u w. case mget (dp_files w) full of None \<Rightarrow> (Inr (0, False), w) | Some b \<Rightarrow> (Inr (int (length b), True), w)))"

definition local_store :: "template_env \<Rightarrow> string \<Rightarrow> artifact_store" where
  "local_store X dir = \<lparr>as_Put = local_Put X dir, as_Get = local_Get X dir\<rparr>"

section \<open>The repository of manifests\<close>

definition MarshalManifest :: "template_env \<Rightarrow> TemplateManifest \<Rightarrow> file_bytes" where
  "MarshalManifest X m = tx_manifest X m"

definition UnmarshalManifest :: "template_env \<Rightarrow> file_bytes \<Rightarrow> go_error + TemplateManifest" where
  "UnmarshalManifest X data =
     (case tx_parse_manifest X data of
        Inl e \<Rightarrow> Inl (Wrapf ''unmarshal manifest'' e)
      | Inr m \<Rightarrow> (case Validate_manifest m of Some e \<Rightarrow> Inl (Wrapf ''invalid manifest'' e) | None \<Rightarrow> Inr m))"

definition repo_Active :: "template_env \<Rightarrow> artifact_store \<Rightarrow> ActivePointer option depot_op" where
  "repo_Active X R w =
     (case as_Get R ActiveKey w of
        (Inl (ErrNotFound key), w1) \<Rightarrow> (Inr None, w1)
      | (Inl (StoreFailed e), w1) \<Rightarrow> (Inl e, w1)
      | (Inr data, w1) \<Rightarrow>
          (case tx_parse_pointer X data of
             Inl e \<Rightarrow> (Inl (Wrapf ''decode active pointer'' e), w1)
           | Inr ptr \<Rightarrow> if ap_ReleaseID ptr = [] then (Inl (ErrNew ''active pointer has empty release_id''), w1) else (Inr (Some ptr), w1)))"

definition repo_Get :: "template_env \<Rightarrow> artifact_store \<Rightarrow> string \<Rightarrow> TemplateManifest depot_op" where
  "repo_Get X R releaseID w =
     (if releaseID = [] then (Inl (ErrNew ''release id is required''), w)
      else
        (case as_Get R (ManifestKey releaseID) w of
           (Inl e, w1) \<Rightarrow> (Inl (store_error_of e), w1)
         | (Inr data, w1) \<Rightarrow> (UnmarshalManifest X data, w1)))"

definition repo_Publish :: "template_env \<Rightarrow> artifact_store \<Rightarrow> TemplateManifest \<Rightarrow> unit depot_op" where
  "repo_Publish X R m w =
     (case Validate_manifest m of
        Some e \<Rightarrow> (Inl (Wrapf ''refusing to publish invalid manifest'' e), w)
      | None \<Rightarrow> op_wrap (''publish manifest '' @ tm_ReleaseID m) (as_Put R (ManifestKey (tm_ReleaseID m)) (MarshalManifest X m)) w)"

definition repo_Activate :: "template_env \<Rightarrow> artifact_store \<Rightarrow> string \<Rightarrow> unit depot_op" where
  "repo_Activate X R releaseID w =
     (if releaseID = [] then (Inl (ErrNew ''release id is required''), w)
      else
        op_bind (op_wrap (''cannot activate '' @ releaseID) (repo_Get X R releaseID))
          (\<lambda>m w1. op_wrap (''activate '' @ releaseID)
             (as_Put R ActiveKey (tx_pointer X \<lparr>ap_ReleaseID = releaseID, ap_UpdatedAt = tx_now X (dp_tick w1)\<rparr>)) w1) w)"

section \<open>Publishing a release\<close>

record BuiltVariant =
  bv_Size :: string
  bv_VCPUs :: int
  bv_MemoryMB :: int
  bv_DiskMB :: int
  bv_SnapshotPath :: string
  bv_MemoryPath :: string
  bv_WritableSeedPath :: string
  bv_VsockPath :: string
  bv_TapName :: string

record ReleaseInputs =
  ri_ReleaseID :: string
  ri_CreatedAt :: "int option"
  ri_Arch :: string
  ri_CPUCompatClass :: string
  ri_FirecrackerVersion :: string
  ri_AssetBundleDigest :: string
  ri_RootfsDigest :: string
  ri_KernelDigest :: string
  ri_Variants :: "BuiltVariant list"

definition uploadArtifact :: "template_env \<Rightarrow> artifact_store \<Rightarrow> string \<Rightarrow> string \<Rightarrow> string \<Rightarrow> string \<Rightarrow> TemplateArtifact depot_op" where
  "uploadArtifact X S releaseID sz name p =
     (if p = [] then op_fail (ErrNew (''release '' @ releaseID @ '' variant '' @ sz @ '': '' @ name @ '' artifact path is empty''))
      else
        op_bind (SHA256File X p) (\<lambda>sum.
        op_bind (op_wrap (''stat '' @ p) (read_path X ''stat '' p)) (\<lambda>info.
        op_bind (op_wrap (''open '' @ p) (read_path X ''open '' p)) (\<lambda>f.
        op_bind (op_wrap (''upload '' @ releaseID @ '' variant '' @ sz @ '' '' @ name) (as_Put S (ArtifactKey releaseID sz name) f)) (\<lambda>u.
        op_ret \<lparr>ta_Name = name, ta_SHA256 = sum, ta_Bytes = int (length info)\<rparr>)))))"

definition upload_variant :: "template_env \<Rightarrow> artifact_store \<Rightarrow> string \<Rightarrow> BuiltVariant \<Rightarrow> Variant depot_op" where
  "upload_variant X S releaseID bv =
     op_bind (uploadArtifact X S releaseID (bv_Size bv) ArtifactSnapshot (bv_SnapshotPath bv)) (\<lambda>snap.
     op_bind (uploadArtifact X S releaseID (bv_Size bv) ArtifactMemory (bv_MemoryPath bv)) (\<lambda>mem.
     op_bind (uploadArtifact X S releaseID (bv_Size bv) ArtifactWritableSeed (bv_WritableSeedPath bv)) (\<lambda>seed.
     op_ret \<lparr>vr_Size = bv_Size bv, vr_VCPUs = bv_VCPUs bv, vr_MemoryMB = bv_MemoryMB bv, vr_DiskMB = bv_DiskMB bv,
             vr_Snapshot = snap, vr_Memory = mem, vr_WritableSeed = seed, vr_VsockPath = bv_VsockPath bv, vr_TapName = bv_TapName bv\<rparr>)))"

fun upload_variants :: "template_env \<Rightarrow> artifact_store \<Rightarrow> string \<Rightarrow> BuiltVariant list \<Rightarrow> (string, Variant) gomap \<Rightarrow> (string, Variant) gomap depot_op" where
  "upload_variants X S releaseID [] variants = op_ret variants"
| "upload_variants X S releaseID (bv # bvs) variants =
     (if mget variants (bv_Size bv) \<noteq> None
      then op_fail (ErrNew (''duplicate variant size '' @ quoted (bv_Size bv) @ '' in release '' @ releaseID))
      else op_bind (upload_variant X S releaseID bv) (\<lambda>v. upload_variants X S releaseID bvs (mput (bv_Size bv) v variants)))"

definition assemble :: "ReleaseInputs \<Rightarrow> int \<Rightarrow> (string, Variant) gomap \<Rightarrow> TemplateManifest" where
  "assemble q createdAt variants =
     \<lparr>tm_SchemaVersion = SchemaVersion, tm_ReleaseID = ri_ReleaseID q, tm_CreatedAt = createdAt, tm_Arch = ri_Arch q,
      tm_CPUCompatClass = ri_CPUCompatClass q, tm_FirecrackerVersion = ri_FirecrackerVersion q, tm_AssetBundleDigest = ri_AssetBundleDigest q,
      tm_RootfsDigest = ri_RootfsDigest q, tm_KernelDigest = ri_KernelDigest q, tm_Variants = variants\<rparr>"

definition PublishRelease :: "template_env \<Rightarrow> artifact_store \<Rightarrow> artifact_store \<Rightarrow> ReleaseInputs \<Rightarrow> TemplateManifest depot_op" where
  "PublishRelease X S R q w =
     (if ri_ReleaseID q = [] then (Inl (ErrNew ''release id is required''), w)
      else if ri_Variants q = [] then (Inl (ErrNew (''release '' @ ri_ReleaseID q @ '' has no variants to publish'')), w)
      else
        let createdAt = (case ri_CreatedAt q of Some t \<Rightarrow> t | None \<Rightarrow> tx_now X (dp_tick w)) in
        op_bind (upload_variants X S (ri_ReleaseID q) (ri_Variants q) [])
          (\<lambda>variants. let m = assemble q createdAt variants in
             case Validate_manifest m of
               Some e \<Rightarrow> op_fail (Wrapf ''assembled manifest is invalid'' e)
             | None \<Rightarrow> op_bind (repo_Publish X R m) (\<lambda>u. op_ret m)) w)"

section \<open>What a store promises\<close>

text \<open>
  A store keeps bytes in an encoded form under their key, touches no other object and no file, and an upload that is reported as
  successful has taken effect. The laws hold of the blob store and of the compressed store on top of it.
\<close>

lemma op_bind_eq:
  "op_bind m f w = (out, w') \<longleftrightarrow>
     (\<exists>e. m w = (Inl e, w') \<and> out = Inl e) \<or> (\<exists>a w1. m w = (Inr a, w1) \<and> f a w1 = (out, w'))"
  by (auto simp: op_bind_def split: prod.splits sum.splits)

lemma op_wrap_eq:
  "op_wrap msg m w = (out, w') \<longleftrightarrow>
     (\<exists>e. m w = (Inl e, w') \<and> out = Inl (Wrapf msg e)) \<or> (\<exists>a. m w = (Inr a, w') \<and> out = Inr a)"
  by (auto simp: op_wrap_def split: prod.splits sum.splits)

lemma op_ret_eq: "op_ret a w = (out, w') \<longleftrightarrow> out = Inr a \<and> w' = w"
  by (auto simp: op_ret_def)

lemma op_fail_eq: "op_fail e w = (out, w') \<longleftrightarrow> out = Inl e \<and> w' = w"
  by (auto simp: op_fail_def)

lemma op_step_state: "op_step X name w = (out, w') \<Longrightarrow> w' = w\<lparr>dp_tick := Suc (dp_tick w)\<rparr>"
  by (auto simp: op_step_def split: option.splits)

lemma read_path_state:
  "read_path X name p w = (out, w') \<Longrightarrow>
     dp_objects w' = dp_objects w \<and> dp_files w' = dp_files w \<and> (\<forall>b. out = Inr b \<longrightarrow> mget (dp_files w) p = Some b)"
  by (auto simp: read_path_def op_bind_eq split: option.splits dest!: op_step_state)

lemma SHA256File_state:
  "SHA256File X p w = (out, w') \<Longrightarrow>
     dp_objects w' = dp_objects w \<and> dp_files w' = dp_files w \<and> (\<forall>s. out = Inr s \<longrightarrow> (\<exists>b. mget (dp_files w) p = Some b \<and> s = tx_sha X b))"
  by (auto simp: SHA256File_def op_bind_eq op_wrap_eq op_ret_eq dest!: op_step_state read_path_state)

locale artifact_contract =
  fixes S :: artifact_store and enc :: "file_bytes \<Rightarrow> file_bytes" and dec :: "file_bytes \<Rightarrow> go_error + file_bytes"
  assumes put: "as_Put S k b w = (r, w') \<Longrightarrow>
      dp_files w' = dp_files w \<and> (\<forall>k'. k' \<noteq> k \<longrightarrow> mget (dp_objects w') k' = mget (dp_objects w) k')
      \<and> (mget (dp_objects w') k = mget (dp_objects w) k \<or> mget (dp_objects w') k = Some (enc b))
      \<and> (r = Inr () \<longrightarrow> mget (dp_objects w') k = Some (enc b))"
    and get: "as_Get S k w = (r', w') \<Longrightarrow> dp_files w' = dp_files w \<and> dp_objects w' = dp_objects w"
    and got: "as_Get S k w = (Inr b, w') \<Longrightarrow> \<exists>z. mget (dp_objects w) k = Some z \<and> dec z = Inr b"
begin

lemma uploadArtifact_effect:
  "uploadArtifact X S r sz name p w = (out, w') \<Longrightarrow>
     dp_files w' = dp_files w \<and> (\<forall>k. k \<noteq> ArtifactKey r sz name \<longrightarrow> mget (dp_objects w') k = mget (dp_objects w) k)
     \<and> (\<forall>a. out = Inr a \<longrightarrow> ta_Name a = name \<and> (\<exists>b. mget (dp_files w) p = Some b \<and> mget (dp_objects w') (ArtifactKey r sz name) = Some (enc b)
           \<and> ta_SHA256 a = tx_sha X b \<and> ta_Bytes a = int (length b)))"
  by (auto simp: uploadArtifact_def op_bind_eq op_wrap_eq op_ret_eq op_fail_eq split: if_splits
      dest!: SHA256File_state read_path_state put)

end

lemma blob_Put_effect:
  assumes "blob_Put X k b w = (r, w')"
  shows "dp_files w' = dp_files w" "k' \<noteq> k \<Longrightarrow> mget (dp_objects w') k' = mget (dp_objects w) k'"
    and "mget (dp_objects w') k = mget (dp_objects w) k \<or> mget (dp_objects w') k = Some b" "r = Inr () \<Longrightarrow> mget (dp_objects w') k = Some b"
  using assms by (auto simp: blob_Put_def Let_def put_object_def split: option.splits if_splits)

lemma blob_Get_effect:
  assumes "blob_Get X k w = (r, w')"
  shows "dp_files w' = dp_files w" "dp_objects w' = dp_objects w" "r = Inr b \<Longrightarrow> mget (dp_objects w) k = Some b"
  using assms by (auto simp: blob_Get_def Let_def split: option.splits if_splits)

lemma blob_Get_found:
  "blob_Get X k w = (r, w') \<Longrightarrow> dp_objects w' = dp_objects w \<and> (\<forall>b. r = Inr b \<longrightarrow> mget (dp_objects w) k = Some b)"
  using blob_Get_effect by metis

interpretation blob: artifact_contract "blob_store X" "\<lambda>b. b" Inr for X
  by unfold_locales (auto simp: blob_store_def dest: blob_Put_effect blob_Get_effect)

interpretation zipped: artifact_contract "NewCompressedStore X (blob_store X)" "tx_gzip X" "tx_gunzip X" for X
  by unfold_locales
    (auto simp: NewCompressedStore_def compressed_Put_def compressed_Get_def blob_store_def split: sum.splits prod.splits
      dest: blob_Put_effect blob_Get_effect)

lemma NewAzureBlobStore_eq: "NewAzureBlobStore X a k c w = (Inr R, w') \<Longrightarrow> R = blob_store X \<and> dp_files w' = dp_files w \<and> dp_objects w' = dp_objects w"
  by (auto simp: NewAzureBlobStore_def op_bind_eq op_wrap_eq op_ret_eq op_fail_eq split: if_splits dest!: op_step_state)

section \<open>Keys of plain names\<close>

lemma key_parts [simp]: "plain releasesPrefix" "plain manifestName" "plain ActiveKey" "plain ArtifactSnapshot" "plain ArtifactMemory" "plain ArtifactWritableSeed"
  by (simp_all add: plain_def slash_def releasesPrefix_def manifestName_def ActiveKey_def ArtifactSnapshot_def ArtifactMemory_def ArtifactWritableSeed_def)

lemma ArtifactKey_join: "plain r \<Longrightarrow> plain sz \<Longrightarrow> plain n \<Longrightarrow> ArtifactKey r sz n = join_slash [releasesPrefix, r, sz, n]"
  unfolding ArtifactKey_def by (rule path_Join_plain) simp_all

lemma ManifestKey_join: "plain r \<Longrightarrow> ManifestKey r = join_slash [releasesPrefix, r, manifestName]"
  unfolding ManifestKey_def by (rule path_Join_plain) simp_all

lemma ActiveKey_join: "ActiveKey = join_slash [ActiveKey]"
  by simp

lemma ArtifactKey_eq [simp]:
  "plain r \<Longrightarrow> plain sz \<Longrightarrow> plain n \<Longrightarrow> plain r' \<Longrightarrow> plain sz' \<Longrightarrow> plain n' \<Longrightarrow>
     ArtifactKey r sz n = ArtifactKey r' sz' n' \<longleftrightarrow> r = r' \<and> sz = sz' \<and> n = n'"
  by (simp only: ArtifactKey_join) (subst join_inject, simp_all)

lemma ManifestKey_eq [simp]: "plain r \<Longrightarrow> plain r' \<Longrightarrow> ManifestKey r = ManifestKey r' \<longleftrightarrow> r = r'"
  by (simp only: ManifestKey_join) (subst join_inject, simp_all)

lemma key_kinds [simp]:
  assumes "plain r" "plain r'" "plain sz" "plain n"
  shows "ManifestKey r' \<noteq> ArtifactKey r sz n" "ActiveKey \<noteq> ArtifactKey r sz n" "ManifestKey r \<noteq> ActiveKey"
proof -
  have "join_slash [ActiveKey] \<noteq> join_slash [releasesPrefix, r, sz, n]" using assms by (subst join_inject) simp_all
  moreover have "join_slash [releasesPrefix, r, manifestName] \<noteq> join_slash [ActiveKey]" using assms by (subst join_inject) simp_all
  moreover have "join_slash [releasesPrefix, r', manifestName] \<noteq> join_slash [releasesPrefix, r, sz, n]" using assms by (subst join_inject) simp_all
  ultimately show "ManifestKey r' \<noteq> ArtifactKey r sz n" "ActiveKey \<noteq> ArtifactKey r sz n" "ManifestKey r \<noteq> ActiveKey"
    using assms by (simp_all add: ArtifactKey_join ManifestKey_join)
qed

section \<open>Publication\<close>

text \<open>An artifact lies in the store with the contents its description names, and a release with all of its artifacts.\<close>

definition stored :: "template_env \<Rightarrow> (string, file_bytes) gomap \<Rightarrow> string \<Rightarrow> string \<Rightarrow> TemplateArtifact \<Rightarrow> bool" where
  "stored X objs r sz a \<longleftrightarrow> plain (ta_Name a)
     \<and> (\<exists>b. mget objs (ArtifactKey r sz (ta_Name a)) = Some (tx_gzip X b) \<and> ta_SHA256 a = tx_sha X b \<and> ta_Bytes a = int (length b))"

definition variant_stored :: "template_env \<Rightarrow> (string, file_bytes) gomap \<Rightarrow> string \<Rightarrow> string \<times> Variant \<Rightarrow> bool" where
  "variant_stored X objs r p \<longleftrightarrow> plain (fst p) \<and> list_all (stored X objs r (fst p)) (artifacts_of (snd p))"

definition release_complete :: "template_env \<Rightarrow> (string, file_bytes) gomap \<Rightarrow> string \<Rightarrow> TemplateManifest \<Rightarrow> bool" where
  "release_complete X objs r m \<longleftrightarrow> tm_ReleaseID m = r \<and> Validate_manifest m = None \<and> list_all (variant_stored X objs r) (tm_Variants m)"

lemma stored_keep:
  assumes "stored X objs r sz a" "mget objs' (ArtifactKey r sz (ta_Name a)) = mget objs (ArtifactKey r sz (ta_Name a))"
  shows "stored X objs' r sz a"
  using assms by (simp add: stored_def)

lemma variant_stored_keep:
  assumes st: "variant_stored X objs r p" and same: "\<And>n. plain n \<Longrightarrow> mget objs' (ArtifactKey r (fst p) n) = mget objs (ArtifactKey r (fst p) n)"
  shows "variant_stored X objs' r p"
  using st stored_keep same unfolding variant_stored_def list_all_iff by (metis stored_def)

abbreviation artifact_depot :: "template_env \<Rightarrow> artifact_store" where
  "artifact_depot X \<equiv> NewCompressedStore X (blob_store X)"

text \<open>One upload of a release: it changes one object and keeps the artifacts under other names.\<close>

definition only_under :: "string \<Rightarrow> string \<Rightarrow> depot \<Rightarrow> depot \<Rightarrow> bool" where
  "only_under r sz w w' \<longleftrightarrow> dp_files w' = dp_files w
     \<and> (\<forall>k. (\<forall>n. plain n \<longrightarrow> k \<noteq> ArtifactKey r sz n) \<longrightarrow> mget (dp_objects w') k = mget (dp_objects w) k)"

lemma only_under_trans: "only_under r sz a b \<Longrightarrow> only_under r sz b c \<Longrightarrow> only_under r sz a c"
  by (simp add: only_under_def)

lemma upload_one:
  assumes up: "uploadArtifact X (artifact_depot X) r sz name p w = (out, w')" and plain: "plain r" "plain sz" "plain name"
  shows "only_under r sz w w'" and "out = Inr a \<Longrightarrow> stored X (dp_objects w') r sz a \<and> ta_Name a = name"
    and "stored X (dp_objects w) r sz c \<Longrightarrow> ta_Name c \<noteq> name \<Longrightarrow> stored X (dp_objects w') r sz c"
proof -
  note eff = zipped.uploadArtifact_effect[OF up]
  show "only_under r sz w w'" using eff plain unfolding only_under_def by blast
  show "out = Inr a \<Longrightarrow> stored X (dp_objects w') r sz a \<and> ta_Name a = name" using eff plain unfolding stored_def by blast
  assume c: "stored X (dp_objects w) r sz c" "ta_Name c \<noteq> name"
  then have "plain (ta_Name c)" by (simp add: stored_def)
  then show "stored X (dp_objects w') r sz c" using stored_keep[OF c(1)] eff plain c(2) by simp
qed

lemma upload_variant_effect:
  assumes up: "upload_variant X (artifact_depot X) r bv w = (out, w')" and plain: "plain r" "plain (bv_Size bv)"
  shows "only_under r (bv_Size bv) w w'" and "out = Inr v \<Longrightarrow> variant_stored X (dp_objects w') r (bv_Size bv, v)"
proof -
  have names: "ArtifactSnapshot \<noteq> ArtifactMemory" "ArtifactSnapshot \<noteq> ArtifactWritableSeed" "ArtifactMemory \<noteq> ArtifactWritableSeed"
    by (simp_all add: ArtifactSnapshot_def ArtifactMemory_def ArtifactWritableSeed_def)
  let ?up = "\<lambda>name p. uploadArtifact X (artifact_depot X) r (bv_Size bv) name p"
  obtain o1 w1 where u1: "?up ArtifactSnapshot (bv_SnapshotPath bv) w = (o1, w1)" by fastforce
  obtain o2 w2 where u2: "?up ArtifactMemory (bv_MemoryPath bv) w1 = (o2, w2)" by fastforce
  obtain o3 w3 where u3: "?up ArtifactWritableSeed (bv_WritableSeedPath bv) w2 = (o3, w3)" by fastforce
  note one = upload_one[OF u1 plain] upload_one[OF u2 plain] upload_one[OF u3 plain]
  have "w' = w1 \<or> w' = w2 \<or> w' = w3"
    using up u1 u2 u3 unfolding upload_variant_def by (auto simp: op_bind_eq op_ret_eq)
  then show "only_under r (bv_Size bv) w w'" using one only_under_trans key_parts by metis
  assume "out = Inr v"
  then obtain a b c where abc: "o1 = Inr a" "o2 = Inr b" "o3 = Inr c" "w' = w3" "artifacts_of v = [a, b, c]"
    using up u1 u2 u3 unfolding upload_variant_def by (auto simp: op_bind_eq op_ret_eq artifacts_of_def)
  have "stored X (dp_objects w1) r (bv_Size bv) a \<and> ta_Name a = ArtifactSnapshot" using one(2)[OF _ abc(1)] by simp
  moreover have b: "stored X (dp_objects w2) r (bv_Size bv) b \<and> ta_Name b = ArtifactMemory" using one(5)[OF _ abc(2)] by simp
  moreover have c: "stored X (dp_objects w3) r (bv_Size bv) c" using one(8)[OF _ abc(3)] by simp
  ultimately have "stored X (dp_objects w3) r (bv_Size bv) a" "stored X (dp_objects w3) r (bv_Size bv) b"
    using one(6)[of a] one(9)[of a] one(9)[of b] names by simp_all
  then show "variant_stored X (dp_objects w') r (bv_Size bv, v)" using abc c plain by (simp add: variant_stored_def)
qed

lemma upload_variants_effect:
  assumes "upload_variants X (artifact_depot X) r bvs vs w = (out, w')" "plain r" "list_all (\<lambda>bv. plain (bv_Size bv)) bvs"
    and "list_all (variant_stored X (dp_objects w) r) vs"
  shows "dp_files w' = dp_files w \<and> (\<forall>k. (\<forall>sz n. plain sz \<longrightarrow> plain n \<longrightarrow> k \<noteq> ArtifactKey r sz n) \<longrightarrow> mget (dp_objects w') k = mget (dp_objects w) k)
         \<and> (\<forall>vs'. out = Inr vs' \<longrightarrow> list_all (variant_stored X (dp_objects w') r) vs')"
  using assms
proof (induction bvs arbitrary: vs w)
  case Nil
  then show ?case by (simp add: op_ret_eq)
next
  case (Cons bv bvs)
  have bv: "plain (bv_Size bv)" using Cons.prems(3) by simp
  show ?case
  proof (cases "mget vs (bv_Size bv) = None")
    case False
    then show ?thesis using Cons.prems(1) by (simp add: op_fail_eq)
  next
    case True
    then consider e where "upload_variant X (artifact_depot X) r bv w = (Inl e, w')" "out = Inl e"
      | v w1 where "upload_variant X (artifact_depot X) r bv w = (Inr v, w1)"
          "upload_variants X (artifact_depot X) r bvs (mput (bv_Size bv) v vs) w1 = (out, w')"
      using Cons.prems(1) by (auto simp: op_bind_eq)
    then show ?thesis
    proof cases
      case 1
      then show ?thesis using upload_variant_effect(1)[OF 1(1) Cons.prems(2) bv] bv unfolding only_under_def by blast
    next
      case 2
      have eff: "only_under r (bv_Size bv) w w1" "variant_stored X (dp_objects w1) r (bv_Size bv, v)"
        using upload_variant_effect[OF 2(1) Cons.prems(2) bv] by simp_all
      have old: "variant_stored X (dp_objects w1) r p" if "p \<in> set vs" for p
      proof (rule variant_stored_keep)
        show st: "variant_stored X (dp_objects w) r p" using Cons.prems(4) that by (simp add: list_all_iff)
        have "fst p \<noteq> bv_Size bv" using True that mget_None_iff[of vs "bv_Size bv"] by (metis imageI list.set_map)
        then show "mget (dp_objects w1) (ArtifactKey r (fst p) n) = mget (dp_objects w) (ArtifactKey r (fst p) n)" if "plain n" for n
          using eff(1) st that Cons.prems(2) bv unfolding only_under_def variant_stored_def by (metis ArtifactKey_eq)
      qed
      have "list_all (variant_stored X (dp_objects w1) r) (mput (bv_Size bv) v vs)"
        using old eff(2) by (auto simp: mput_fresh[OF True] list_all_iff)
      from Cons.IH[OF 2(2) Cons.prems(2) _ this] have rest: "dp_files w' = dp_files w1"
        "\<And>k. (\<forall>sz n. plain sz \<longrightarrow> plain n \<longrightarrow> k \<noteq> ArtifactKey r sz n) \<Longrightarrow> mget (dp_objects w') k = mget (dp_objects w1) k"
        "\<And>vs'. out = Inr vs' \<Longrightarrow> list_all (variant_stored X (dp_objects w') r) vs'"
        using Cons.prems(3) by simp_all
      show ?thesis using eff(1) bv rest unfolding only_under_def by (metis (no_types, lifting))
    qed
  qed
qed

section \<open>A builder at work\<close>

text \<open>What a builder does over time: it replaces its local files, publishes releases, and activates them; each call may fail.\<close>

datatype builder_op = LocalFiles "(string, file_bytes) gomap" | Publish ReleaseInputs | Activate string

definition builder_step :: "template_env \<Rightarrow> builder_op \<Rightarrow> depot \<Rightarrow> depot" where
  "builder_step X p w =
     (case p of
        LocalFiles fs \<Rightarrow> w\<lparr>dp_files := fs\<rparr>
      | Publish q \<Rightarrow> snd (PublishRelease X (artifact_depot X) (blob_store X) q w)
      | Activate r \<Rightarrow> snd (repo_Activate X (blob_store X) r w))"

text \<open>Release identifiers and sizes are plain names, and no release is published twice.\<close>

fun published :: "builder_op list \<Rightarrow> string list" where
  "published [] = []"
| "published (Publish q # ps) = ri_ReleaseID q # published ps"
| "published (p # ps) = published ps"

definition builder_op_ok :: "builder_op \<Rightarrow> bool" where
  "builder_op_ok p \<longleftrightarrow> (case p of
     LocalFiles fs \<Rightarrow> True
   | Publish q \<Rightarrow> plain (ri_ReleaseID q) \<and> list_all (\<lambda>bv. plain (bv_Size bv)) (ri_Variants q)
   | Activate r \<Rightarrow> plain r)"

text \<open>Decoding an encoded pointer gives back its release.\<close>

definition pointer_json :: "template_env \<Rightarrow> bool" where
  "pointer_json X \<longleftrightarrow> (\<forall>p. \<exists>p'. tx_parse_pointer X (tx_pointer X p) = Inr p' \<and> ap_ReleaseID p' = ap_ReleaseID p)"

text \<open>Every manifest in the store describes a complete release, and the pointer names one of them.\<close>

definition manifests_ok :: "template_env \<Rightarrow> (string, file_bytes) gomap \<Rightarrow> bool" where
  "manifests_ok X objs \<longleftrightarrow> (\<forall>r data. plain r \<longrightarrow> mget objs (ManifestKey r) = Some data \<longrightarrow> (\<exists>m. data = tx_manifest X m \<and> release_complete X objs r m))"

definition active_pointer_ok :: "template_env \<Rightarrow> (string, file_bytes) gomap \<Rightarrow> bool" where
  "active_pointer_ok X objs \<longleftrightarrow> (\<forall>data. mget objs ActiveKey = Some data \<longrightarrow>
     (\<exists>p. data = tx_pointer X p \<and> plain (ap_ReleaseID p) \<and> mget objs (ManifestKey (ap_ReleaseID p)) \<noteq> None))"

lemma release_complete_keep:
  assumes "release_complete X objs r m" "\<And>sz n. plain sz \<Longrightarrow> plain n \<Longrightarrow> mget objs' (ArtifactKey r sz n) = mget objs (ArtifactKey r sz n)"
  shows "release_complete X objs' r m"
  using assms variant_stored_keep unfolding release_complete_def list_all_iff by (metis variant_stored_def)

text \<open>The effect of a publication, whatever fails in it: artifacts of the release, and then perhaps its manifest.\<close>

lemma PublishRelease_effect:
  assumes pub: "PublishRelease X (artifact_depot X) (blob_store X) q w = (out, w')"
    and ok: "plain (ri_ReleaseID q)" "list_all (\<lambda>bv. plain (bv_Size bv)) (ri_Variants q)"
  shows "\<And>k. (\<forall>sz n. plain sz \<longrightarrow> plain n \<longrightarrow> k \<noteq> ArtifactKey (ri_ReleaseID q) sz n) \<Longrightarrow> k \<noteq> ManifestKey (ri_ReleaseID q) \<Longrightarrow>
           mget (dp_objects w') k = mget (dp_objects w) k"
    and "mget (dp_objects w') (ManifestKey (ri_ReleaseID q)) = mget (dp_objects w) (ManifestKey (ri_ReleaseID q))
         \<or> (\<exists>m. mget (dp_objects w') (ManifestKey (ri_ReleaseID q)) = Some (tx_manifest X m) \<and> release_complete X (dp_objects w') (ri_ReleaseID q) m)"
    and "out = Inr m \<Longrightarrow> mget (dp_objects w') (ManifestKey (ri_ReleaseID q)) = Some (tx_manifest X m) \<and> release_complete X (dp_objects w') (ri_ReleaseID q) m"
proof -
  let ?r = "ri_ReleaseID q"
  let ?goal = "(\<forall>k. (\<forall>sz n. plain sz \<longrightarrow> plain n \<longrightarrow> k \<noteq> ArtifactKey ?r sz n) \<longrightarrow> k \<noteq> ManifestKey ?r \<longrightarrow> mget (dp_objects w') k = mget (dp_objects w) k)
     \<and> (mget (dp_objects w') (ManifestKey ?r) = mget (dp_objects w) (ManifestKey ?r)
         \<or> (\<exists>m. mget (dp_objects w') (ManifestKey ?r) = Some (tx_manifest X m) \<and> release_complete X (dp_objects w') ?r m))
     \<and> (\<forall>m. out = Inr m \<longrightarrow> mget (dp_objects w') (ManifestKey ?r) = Some (tx_manifest X m) \<and> release_complete X (dp_objects w') ?r m)"
  obtain o1 w1 where up: "upload_variants X (artifact_depot X) ?r (ri_Variants q) [] w = (o1, w1)" by fastforce
  note eff = upload_variants_effect[OF up ok, simplified]
  have mk: "mget (dp_objects w1) (ManifestKey ?r) = mget (dp_objects w) (ManifestKey ?r)" using eff ok by simp
  consider (early) "w' = w" "\<exists>e. out = Inl e" | (failed) "w' = w1" "\<exists>e. out = Inl e"
    | (manifest) vs t b where "o1 = Inr vs" "Validate_manifest (assemble q t vs) = None"
        "blob_Put X (ManifestKey ?r) (tx_manifest X (assemble q t vs)) w1 = (b, w')"
        "out = Inr (assemble q t vs) \<and> b = Inr () \<or> (\<exists>e. out = Inl e)"
    using pub up
    by (auto simp: PublishRelease_def Let_def op_bind_eq op_fail_eq op_ret_eq repo_Publish_def op_wrap_eq blob_store_def MarshalManifest_def
        assemble_def split: if_splits option.splits)
  then have ?goal
  proof cases
    case (manifest vs t b)
    let ?m = "assemble q t vs"
    note put = blob_Put_effect[OF manifest(3)]
    have "release_complete X (dp_objects w1) ?r ?m" using eff manifest(1,2) by (simp add: release_complete_def assemble_def)
    then have "release_complete X (dp_objects w') ?r ?m" by (rule release_complete_keep) (metis put(2) key_kinds(1) ok(1))
    then show ?thesis using put eff manifest(4) mk by auto
  qed (use eff mk in auto)
  then show "\<And>k. (\<forall>sz n. plain sz \<longrightarrow> plain n \<longrightarrow> k \<noteq> ArtifactKey ?r sz n) \<Longrightarrow> k \<noteq> ManifestKey ?r \<Longrightarrow> mget (dp_objects w') k = mget (dp_objects w) k"
    and "mget (dp_objects w') (ManifestKey ?r) = mget (dp_objects w) (ManifestKey ?r)
         \<or> (\<exists>m. mget (dp_objects w') (ManifestKey ?r) = Some (tx_manifest X m) \<and> release_complete X (dp_objects w') ?r m)"
    and "out = Inr m \<Longrightarrow> mget (dp_objects w') (ManifestKey ?r) = Some (tx_manifest X m) \<and> release_complete X (dp_objects w') ?r m"
    by blast+
qed

lemma publish_keeps:
  assumes inv: "manifests_ok X (dp_objects w)" "active_pointer_ok X (dp_objects w)"
    and q: "plain (ri_ReleaseID q)" "list_all (\<lambda>bv. plain (bv_Size bv)) (ri_Variants q)"
    and new: "mget (dp_objects w) (ManifestKey (ri_ReleaseID q)) = None"
    and w': "w' = snd (PublishRelease X (artifact_depot X) (blob_store X) q w)"
  shows "manifests_ok X (dp_objects w')" "active_pointer_ok X (dp_objects w')"
    and "plain r \<Longrightarrow> r \<noteq> ri_ReleaseID q \<Longrightarrow> mget (dp_objects w') (ManifestKey r) = mget (dp_objects w) (ManifestKey r)"
proof -
  let ?q = "ri_ReleaseID q"
  obtain out where pub: "PublishRelease X (artifact_depot X) (blob_store X) q w = (out, w')" using w' by (metis prod.collapse)
  note eff = PublishRelease_effect[OF pub q]
  have man: "mget (dp_objects w') (ManifestKey r) = mget (dp_objects w) (ManifestKey r)" if "plain r" "r \<noteq> ?q" for r
    using eff(1)[of "ManifestKey r"] q that by simp
  then show "plain r \<Longrightarrow> r \<noteq> ?q \<Longrightarrow> mget (dp_objects w') (ManifestKey r) = mget (dp_objects w) (ManifestKey r)" .
  show "manifests_ok X (dp_objects w')"
    unfolding manifests_ok_def
  proof (intro allI impI)
    fix r data
    assume r: "plain r" and data: "mget (dp_objects w') (ManifestKey r) = Some data"
    show "\<exists>m. data = tx_manifest X m \<and> release_complete X (dp_objects w') r m"
    proof (cases "r = ?q")
      case True
      then show ?thesis using eff(2) new data by auto
    next
      case False
      then obtain m where m: "data = tx_manifest X m" "release_complete X (dp_objects w) r m"
        using inv(1) man[OF r] data r unfolding manifests_ok_def by metis
      have "release_complete X (dp_objects w') r m"
        using m(2) by (rule release_complete_keep) (rule eff(1), use r q False key_kinds(1)[of r ?q] in \<open>auto simp: eq_commute\<close>)
      then show ?thesis using m(1) by blast
    qed
  qed
  have "mget (dp_objects w') ActiveKey = mget (dp_objects w) ActiveKey" using eff(1)[of ActiveKey] q key_kinds(3)[of ?q] by (metis key_kinds(2))
  then show "active_pointer_ok X (dp_objects w')"
    using inv(2) man new unfolding active_pointer_ok_def by metis
qed

lemma activate_keeps:
  assumes inv: "manifests_ok X (dp_objects w)" "active_pointer_ok X (dp_objects w)" and r: "plain r"
    and w': "w' = snd (repo_Activate X (blob_store X) r w)"
  shows "manifests_ok X (dp_objects w')" "active_pointer_ok X (dp_objects w')"
    and "plain r' \<Longrightarrow> mget (dp_objects w') (ManifestKey r') = mget (dp_objects w) (ManifestKey r')"
proof -
  obtain out where act: "repo_Activate X (blob_store X) r w = (out, w')" using w' by (metis prod.collapse)
  have cases: "dp_objects w' = dp_objects w \<or>
      (\<exists>w1 t b. mget (dp_objects w) (ManifestKey r) \<noteq> None \<and> dp_objects w1 = dp_objects w
         \<and> blob_Put X ActiveKey (tx_pointer X \<lparr>ap_ReleaseID = r, ap_UpdatedAt = t\<rparr>) w1 = (b, w'))"
    using act r
    by (auto simp: repo_Activate_def repo_Get_def op_bind_eq op_wrap_eq blob_store_def plain_def split: if_splits prod.splits sum.splits
        dest!: blob_Get_found)
  have same: "mget (dp_objects w') k = mget (dp_objects w) k" if "k \<noteq> ActiveKey" for k
    using cases that blob_Put_effect(2) by metis
  then show man: "\<And>r'. plain r' \<Longrightarrow> mget (dp_objects w') (ManifestKey r') = mget (dp_objects w) (ManifestKey r')"
    using key_kinds(3) r by metis
  have "release_complete X (dp_objects w') r' m" if "release_complete X (dp_objects w) r' m" "plain r'" for r' m
    using that(1) by (rule release_complete_keep) (metis same key_kinds(2) that(2) r)
  then show "manifests_ok X (dp_objects w')" using inv(1) man unfolding manifests_ok_def by metis
  show "active_pointer_ok X (dp_objects w')"
    unfolding active_pointer_ok_def
  proof (intro allI impI)
    fix data
    assume data: "mget (dp_objects w') ActiveKey = Some data"
    then have "mget (dp_objects w) ActiveKey = Some data
        \<or> (\<exists>t. data = tx_pointer X \<lparr>ap_ReleaseID = r, ap_UpdatedAt = t\<rparr> \<and> mget (dp_objects w) (ManifestKey r) \<noteq> None)"
      using cases blob_Put_effect(3) by (metis option.inject)
    then show "\<exists>p. data = tx_pointer X p \<and> plain (ap_ReleaseID p) \<and> mget (dp_objects w') (ManifestKey (ap_ReleaseID p)) \<noteq> None"
      using inv(2) man r unfolding active_pointer_ok_def by (metis ActivePointer.select_convs(1))
  qed
qed

lemma builder_keeps:
  assumes "manifests_ok X (dp_objects w)" "active_pointer_ok X (dp_objects w)" "list_all builder_op_ok ps" "distinct (published ps)"
    and "\<forall>r \<in> set (published ps). mget (dp_objects w) (ManifestKey r) = None"
  shows "manifests_ok X (dp_objects (fold (builder_step X) ps w)) \<and> active_pointer_ok X (dp_objects (fold (builder_step X) ps w))"
  using assms
proof (induction ps arbitrary: w)
  case (Cons p ps)
  have later: "plain r" if "r \<in> set (published ps)" for r
    using Cons.prems(3) that by (induction ps rule: published.induct) (auto simp: builder_op_ok_def)
  show ?case
  proof (cases p)
    case (LocalFiles fs)
    then show ?thesis using Cons by (simp add: builder_step_def)
  next
    case (Publish q)
    define w' where "w' = snd (PublishRelease X (artifact_depot X) (blob_store X) q w)"
    have q: "plain (ri_ReleaseID q)" "list_all (\<lambda>bv. plain (bv_Size bv)) (ri_Variants q)" "mget (dp_objects w) (ManifestKey (ri_ReleaseID q)) = None"
      using Cons.prems Publish by (simp_all add: builder_op_ok_def)
    note keep = publish_keeps[OF Cons.prems(1,2) q w'_def]
    have "\<forall>r \<in> set (published ps). mget (dp_objects w') (ManifestKey r) = None"
      using keep(3) later Cons.prems(4,5) Publish by (metis distinct.simps(2) list.set_intros(2) published.simps(2))
    then show ?thesis using Cons.IH[OF keep(1,2)] Cons.prems Publish by (simp add: builder_step_def w'_def)
  next
    case (Activate r)
    define w' where "w' = snd (repo_Activate X (blob_store X) r w)"
    have r: "plain r" using Cons.prems(3) Activate by (simp add: builder_op_ok_def)
    note keep = activate_keeps[OF Cons.prems(1,2) r w'_def]
    have "\<forall>r \<in> set (published ps). mget (dp_objects w') (ManifestKey r) = None"
      using keep(3) later Cons.prems(5) Activate by simp
    then show ?thesis using Cons.IH[OF keep(1,2)] Cons.prems Activate by (simp add: builder_step_def w'_def)
  qed
qed simp

text \<open>
  C18: The active release is always complete: whatever a builder publishes and activates, in whatever order and with whatever uploads and
  reads failing, as long as it publishes no release twice, the release the active pointer names has a valid manifest in the store, and
  every artifact the manifest lists is there with the size and the checksum it states.
\<close>

theorem active_release_is_complete:
  assumes json: "pointer_json X" and ops: "list_all builder_op_ok ps" "distinct (published ps)" and empty: "dp_objects w = []"
    and active: "repo_Active X (blob_store X) (fold (builder_step X) ps w) = (Inr (Some ptr), w')"
  shows "\<exists>m. mget (dp_objects w') (ManifestKey (ap_ReleaseID ptr)) = Some (tx_manifest X m) \<and> release_complete X (dp_objects w') (ap_ReleaseID ptr) m"
proof -
  let ?w = "fold (builder_step X) ps w"
  have ok: "manifests_ok X (dp_objects ?w)" "active_pointer_ok X (dp_objects ?w)"
    using builder_keeps[OF _ _ ops] empty by (simp_all add: manifests_ok_def active_pointer_ok_def)
  obtain data where data: "as_Get (blob_store X) ActiveKey ?w = (Inr data, w')" "tx_parse_pointer X data = Inr ptr"
    using active by (auto simp: repo_Active_def split: prod.splits sum.splits store_error.splits if_splits)
  have same: "dp_objects w' = dp_objects ?w" "mget (dp_objects ?w) ActiveKey = Some data"
    using blob.get[OF data(1)] blob.got[OF data(1)] by auto
  then obtain p where p: "data = tx_pointer X p" "plain (ap_ReleaseID p)" "mget (dp_objects ?w) (ManifestKey (ap_ReleaseID p)) \<noteq> None"
    using ok(2) unfolding active_pointer_ok_def by blast
  then have "ap_ReleaseID ptr = ap_ReleaseID p" using json data(2) unfolding pointer_json_def by (metis sum.inject(2))
  then show ?thesis using ok(1) p same(1) unfolding manifests_ok_def by auto
qed

section \<open>Keys stay below the root\<close>

lemma clean_rooted:
  assumes "list_all (\<lambda>c. c = [] \<or> plain c) (split_slash s)"
  shows "path_clean (slash # s) = slash # join_slash (filter (\<lambda>c. c \<noteq> []) (split_slash s))"
proof -
  have "foldl (clean_step True) out cs = rev (filter (\<lambda>c. c \<noteq> []) cs) @ out" if "list_all (\<lambda>c. c = [] \<or> plain c) cs" for cs out
    using that by (induction cs arbitrary: out) (auto simp: clean_step_def plain_def)
  from this[of "[] # split_slash s" "[]"] show ?thesis using assms by (simp add: path_clean_def Let_def)
qed

lemma split_slash_join2: "split_slash (a @ slash # b) = split_slash a @ split_slash b"
  by (induction a) (auto split: list.splits)

text \<open>Whatever key is asked for, the local store reads and writes only paths below its root, and none with a dot-dot after it.\<close>

lemma local_resolve_inside:
  assumes dir: "list_all plain rs" "rs \<noteq> []" and res: "local_resolve (slash # join_slash rs) key = Inr full"
  shows "\<exists>cs. list_all plain cs \<and> full = slash # join_slash (rs @ cs)"
proof -
  let ?clean = "path_clean key"
  have ok: "?clean \<noteq> ''.''" "?clean \<noteq> ''..''" "\<not> has_prefix ?clean ''../''" and full: "full = path_Join [slash # join_slash rs, ?clean]"
    using res by (auto simp: local_resolve_def Let_def split: if_splits)
  obtain ps where ps: "list_all plain ps" "split_slash ?clean = ps \<or> split_slash ?clean = [] # ps \<or> split_slash ?clean = [[], []]" "?clean \<noteq> []"
  proof (cases rule: path_clean_form[of key])
    case dot
    then show ?thesis using ok that by simp
  next
    case (rooted qs)
    then show ?thesis using that[of qs] split_join[OF _ plain_slash[OF rooted(1)]] by (cases "qs = []") auto
  next
    case (relative qs n)
    show ?thesis
    proof (cases n)
      case 0
      then show ?thesis using that[of qs] relative split_join[OF _ plain_slash[OF relative(1)]] join_plain_hd[of qs] by auto
    next
      case (Suc k)
      then have "?clean = ''..'' \<or> has_prefix ?clean ''../''"
        using relative(3) by (cases "replicate k ''..'' @ qs") (auto simp: has_prefix_iff slash_def)
      then show ?thesis using ok by simp
    qed
  qed
  let ?s = "join_slash rs @ slash # ?clean"
  have rs: "split_slash (join_slash rs) = rs" using split_join[OF dir(2) plain_slash[OF dir(1)]] .
  have full': "full = path_clean (slash # ?s)" using full ps(3) by (simp add: path_Join_def)
  have parts: "list_all (\<lambda>c. c = [] \<or> plain c) (split_slash ?s)"
    using ps dir(1) unfolding split_slash_join2 rs by (auto simp: list_all_iff)
  have keep: "filter (\<lambda>c. c \<noteq> []) cs = cs" if "list_all plain cs" for cs
    using that by (induction cs) (auto simp: plain_def)
  have "filter (\<lambda>c. c \<noteq> []) (split_slash ?s) = rs @ filter (\<lambda>c. c \<noteq> []) (split_slash ?clean)"
    unfolding split_slash_join2 rs by (simp add: keep[OF dir(1)])
  moreover have "list_all plain (filter (\<lambda>c. c \<noteq> []) (split_slash ?clean))"
    using ps(1,2) by (auto simp: keep[OF ps(1)] list_all_iff)
  ultimately show ?thesis using clean_rooted[OF parts] full' by auto
qed

section \<open>A sample release\<close>

text \<open>An environment without faults, whose checksum of some bytes shows them and whose JSON of a pointer is its release.\<close>

definition text_of :: "file_bytes \<Rightarrow> string" where
  "text_of b = map (\<lambda>x. char_of (unat x)) b"

definition octets_of :: "string \<Rightarrow> file_bytes" where
  "octets_of s = map (\<lambda>c. of_nat (of_char c)) s"

lemma text_of_octets [simp]: "text_of (octets_of s) = s"
proof -
  have "char_of (unat (of_nat (of_char c) :: 8 word)) = c" for c
    by (simp add: unat_of_nat)
  then show ?thesis by (simp add: text_of_def octets_of_def comp_def)
qed

definition sample_variant :: "vm_size \<Rightarrow> string \<times> Variant" where
  "sample_variant sz = (sz_name sz, \<lparr>vr_Size = sz_name sz, vr_VCPUs = sz_vcpus sz, vr_MemoryMB = sz_memory_mb sz, vr_DiskMB = sz_disk_gb sz * 1024,
     vr_Snapshot = \<lparr>ta_Name = ArtifactSnapshot, ta_SHA256 = ''#a'', ta_Bytes = 1\<rparr>,
     vr_Memory = \<lparr>ta_Name = ArtifactMemory, ta_SHA256 = ''#b'', ta_Bytes = 1\<rparr>,
     vr_WritableSeed = \<lparr>ta_Name = ArtifactWritableSeed, ta_SHA256 = ''#c'', ta_Bytes = 1\<rparr>, vr_VsockPath = ''/v.sock'', vr_TapName = ''tap0''\<rparr>)"

definition sample_manifest :: TemplateManifest where
  "sample_manifest = \<lparr>tm_SchemaVersion = 1, tm_ReleaseID = ''r1'', tm_CreatedAt = 5, tm_Arch = ''amd64'', tm_CPUCompatClass = ''arch-amd64'',
     tm_FirecrackerVersion = ''f'', tm_AssetBundleDigest = [], tm_RootfsDigest = ''#d'', tm_KernelDigest = ''#k'',
     tm_Variants = map sample_variant Sizes\<rparr>"

definition sample_tx :: template_env where
  "sample_tx = \<lparr>tx_fault = (\<lambda>t name. None), tx_lost = (\<lambda>t. False), tx_partial = (\<lambda>t. []), tx_sha = (\<lambda>b. CHR ''#'' # text_of b),
     tx_gzip = (\<lambda>b. b), tx_gunzip = Inr, tx_manifest = (\<lambda>m. octets_of (tm_ReleaseID m)),
     tx_parse_manifest = (\<lambda>b. if text_of b = ''r1'' then Inr sample_manifest else Inl (ErrNew ''unexpected manifest'')),
     tx_pointer = (\<lambda>p. octets_of (ap_ReleaseID p)), tx_parse_pointer = (\<lambda>b. Inr \<lparr>ap_ReleaseID = text_of b, ap_UpdatedAt = 0\<rparr>), tx_now = (\<lambda>t. 5)\<rparr>"

definition sample_built :: "vm_size \<Rightarrow> BuiltVariant" where
  "sample_built sz = \<lparr>bv_Size = sz_name sz, bv_VCPUs = sz_vcpus sz, bv_MemoryMB = sz_memory_mb sz, bv_DiskMB = sz_disk_gb sz * 1024, bv_SnapshotPath = ''/b/s'',
     bv_MemoryPath = ''/b/m'', bv_WritableSeedPath = ''/b/w'', bv_VsockPath = ''/v.sock'', bv_TapName = ''tap0''\<rparr>"

definition sample_inputs :: ReleaseInputs where
  "sample_inputs = \<lparr>ri_ReleaseID = ''r1'', ri_CreatedAt = None, ri_Arch = ''amd64'', ri_CPUCompatClass = ''arch-amd64'', ri_FirecrackerVersion = ''f'',
     ri_AssetBundleDigest = [], ri_RootfsDigest = ''#d'', ri_KernelDigest = ''#k'', ri_Variants = map sample_built Sizes\<rparr>"

definition sample_build_files :: "(string, file_bytes) gomap" where
  "sample_build_files = [(''/b/s'', octets_of ''a''), (''/b/m'', octets_of ''b''), (''/b/w'', octets_of ''c'')]"

definition sample_builder :: "builder_op list" where
  "sample_builder = [LocalFiles sample_build_files, Publish sample_inputs, Activate ''r1'']"

definition empty_depot :: depot where
  "empty_depot = \<lparr>dp_objects = [], dp_files = [], dp_tick = 0\<rparr>"

text \<open>The calls of a builder whose files, keys and manifest are all in order.\<close>

lemma sample_active:
  "repo_Active sample_tx (blob_store sample_tx) (fold (builder_step sample_tx) sample_builder empty_depot)
     = (Inr (Some \<lparr>ap_ReleaseID = ''r1'', ap_UpdatedAt = 0\<rparr>), snd (repo_Active sample_tx (blob_store sample_tx) (fold (builder_step sample_tx) sample_builder empty_depot)))"
  by code_simp

definition sample_stored :: depot where
  "sample_stored = snd (repo_Active sample_tx (blob_store sample_tx) (fold (builder_step sample_tx) sample_builder empty_depot))"

theorem active_release_is_complete_witness:
  "\<exists>m. mget (dp_objects sample_stored) (ManifestKey ''r1'') = Some (tx_manifest sample_tx m) \<and> release_complete sample_tx (dp_objects sample_stored) ''r1'' m"
proof -
  have "pointer_json sample_tx" by (simp add: pointer_json_def sample_tx_def)
  moreover have "list_all builder_op_ok sample_builder" "distinct (published sample_builder)" "dp_objects empty_depot = []"
    by (simp_all add: sample_builder_def builder_op_ok_def sample_inputs_def sample_built_def Sizes_def plain_def slash_def empty_depot_def)
  ultimately have "\<exists>m. mget (dp_objects sample_stored) (ManifestKey (ap_ReleaseID \<lparr>ap_ReleaseID = ''r1'', ap_UpdatedAt = 0\<rparr>)) = Some (tx_manifest sample_tx m)
      \<and> release_complete sample_tx (dp_objects sample_stored) (ap_ReleaseID \<lparr>ap_ReleaseID = ''r1'', ap_UpdatedAt = 0\<rparr>) m"
    unfolding sample_stored_def by (rule active_release_is_complete[OF _ _ _ _ sample_active])
  then show ?thesis by (simp only: ActivePointer.simps)
qed

end
