(* ===== verification/Template_Cache.thy ===== *)
theory Template_Cache
  imports Template_Store Guest_Network Sizes
begin

text \<open>
  The worker's cache of templates (\<open>template/diskcache.go\<close>), the facts of a host and their comparison with a release
  (\<open>hostfacts.go\<close>, \<open>compat.go\<close>), and the start-up of a worker from a prebuilt release (\<open>cmd/worker/templates.go\<close>). The theorems say that a
  variant that is marked ready is complete and verified after any sequence of interrupted downloads, that skipping blocks of zeros
  changes nothing, and that what a builder published is what a worker restores from.
\<close>

section \<open>Sparse copies\<close>

definition isAllZero :: "file_bytes \<Rightarrow> bool" where
  "isAllZero b \<longleftrightarrow> list_all (\<lambda>x. x = 0) b"

text \<open>\<open>WriteAt\<close> and \<open>Truncate\<close> on the contents of a file: a gap reads as zeros.\<close>

definition WriteAt :: "nat \<Rightarrow> file_bytes \<Rightarrow> file_bytes \<Rightarrow> file_bytes" where
  "WriteAt offset b f = take offset (f @ replicate (offset - length f) 0) @ b @ drop (offset + length b) f"

definition truncate_to :: "nat \<Rightarrow> file_bytes \<Rightarrow> file_bytes" where
  "truncate_to n f = take n f @ replicate (n - length f) 0"

function copy_blocks :: "nat \<Rightarrow> nat \<Rightarrow> file_bytes \<Rightarrow> file_bytes \<Rightarrow> file_bytes" where
  "copy_blocks block offset src f =
     (if src = [] \<or> block = 0 then truncate_to offset f
      else
        let chunk = take block src; f' = (if isAllZero chunk then f else WriteAt offset chunk f)
        in copy_blocks block (offset + length chunk) (drop block src) f')"
  by pat_completeness auto

termination
  by (relation "measure (\<lambda>(block, offset, src, f). length src)") auto

declare copy_blocks.simps [simp del]

definition copySparse :: "file_bytes \<Rightarrow> file_bytes" where
  "copySparse src = copy_blocks 1048576 0 src []"

section \<open>Files\<close>

definition write_path :: "string \<Rightarrow> file_bytes \<Rightarrow> depot \<Rightarrow> depot" where
  "write_path p b w = w\<lparr>dp_files := mput p b (dp_files w)\<rparr>"

definition create_path :: "template_env \<Rightarrow> string \<Rightarrow> unit depot_op" where
  "create_path X p = op_bind (op_step X (''create '' @ p)) (\<lambda>u w. (Inr (), write_path p [] w))"

definition remove_path :: "template_env \<Rightarrow> string \<Rightarrow> unit depot_op" where
  "remove_path X p = op_bind (op_step X (''remove '' @ p)) (\<lambda>u w. (Inr (), w\<lparr>dp_files := mdel p (dp_files w)\<rparr>))"

definition rename_path :: "template_env \<Rightarrow> string \<Rightarrow> string \<Rightarrow> unit depot_op" where
  "rename_path X a b =
     op_bind (op_step X (''rename '' @ a))
       (\<lambda>u w. case mget (dp_files w) a of
                None \<Rightarrow> (Inl (ErrNew (''rename '' @ a @ '': no such file or directory'')), w)
              | Some c \<Rightarrow> (Inr (), w\<lparr>dp_files := mput b c (mdel a (dp_files w))\<rparr>))"

text \<open>A copy that fails leaves some bytes; a failed write of a small file may have created it.\<close>

definition copy_into :: "template_env \<Rightarrow> string \<Rightarrow> file_bytes \<Rightarrow> unit depot_op" where
  "copy_into X p b w =
     (let w1 = w\<lparr>dp_tick := Suc (dp_tick w)\<rparr> in
      case tx_fault X (dp_tick w) (''copy '' @ p) of
        Some e \<Rightarrow> (Inl e, write_path p (tx_partial X (dp_tick w)) w1)
      | None \<Rightarrow> (Inr (), write_path p (copySparse b) w1))"

definition WriteFile :: "template_env \<Rightarrow> string \<Rightarrow> file_bytes \<Rightarrow> unit depot_op" where
  "WriteFile X p b w =
     (let w1 = w\<lparr>dp_tick := Suc (dp_tick w)\<rparr> in
      case tx_fault X (dp_tick w) (''write '' @ p) of
        Some e \<Rightarrow> (Inl e, if tx_lost X (dp_tick w) then write_path p (tx_partial X (dp_tick w)) w1 else w1)
      | None \<Rightarrow> (Inr (), write_path p b w1))"

section \<open>The cache\<close>

record CachedVariant =
  cv_ReleaseID :: string
  cv_Size :: string
  cv_SnapshotPath :: string
  cv_MemoryPath :: string
  cv_WritableSeedPath :: string

record DiskCache =
  ch_root :: string
  ch_store :: artifact_store
  ch_fcUID :: int
  ch_fcGID :: int

definition cacheReadyMarker :: string where "cacheReadyMarker = ''.ready''"

definition NewDiskCache :: "template_env \<Rightarrow> string \<Rightarrow> artifact_store \<Rightarrow> int \<Rightarrow> int \<Rightarrow> DiskCache depot_op" where
  "NewDiskCache X dir store fcUID fcGID =
     op_bind (op_wrap (''create template cache dir '' @ dir) (op_step X (''mkdir '' @ dir)))
       (\<lambda>u. op_ret \<lparr>ch_root = dir, ch_store = store, ch_fcUID = fcUID, ch_fcGID = fcGID\<rparr>)"

definition cache_Path :: "DiskCache \<Rightarrow> string \<Rightarrow> string \<Rightarrow> string" where
  "cache_Path c releaseID sz = path_Join [ch_root c, releaseID, sz]"

definition marker_path :: "DiskCache \<Rightarrow> string \<Rightarrow> string \<Rightarrow> string" where
  "marker_path c releaseID sz = path_Join [cache_Path c releaseID sz, cacheReadyMarker]"

definition cache_Has :: "template_env \<Rightarrow> DiskCache \<Rightarrow> string \<Rightarrow> string \<Rightarrow> depot \<Rightarrow> bool \<times> depot" where
  "cache_Has X c releaseID sz w =
     (case read_path X ''stat '' (marker_path c releaseID sz) w of (Inl e, w1) \<Rightarrow> (False, w1) | (Inr b, w1) \<Rightarrow> (True, w1))"

definition cachedVariant :: "DiskCache \<Rightarrow> string \<Rightarrow> string \<Rightarrow> CachedVariant" where
  "cachedVariant c releaseID sz =
     (let dir = cache_Path c releaseID sz in
      \<lparr>cv_ReleaseID = releaseID, cv_Size = sz, cv_SnapshotPath = path_Join [dir, ArtifactSnapshot],
       cv_MemoryPath = path_Join [dir, ArtifactMemory], cv_WritableSeedPath = path_Join [dir, ArtifactWritableSeed]\<rparr>)"

definition verify_cached :: "template_env \<Rightarrow> string \<times> TemplateArtifact \<Rightarrow> unit depot_op" where
  "verify_cached X pa =
     (case pa of (p, a) \<Rightarrow>
        op_bind (read_path X ''stat '' p) (\<lambda>info.
          if int (length info) \<noteq> ta_Bytes a
          then op_fail (ErrNew (p @ '' has size '' @ nat_digits (length info) @ '', expected '' @ itoa (ta_Bytes a)))
          else op_bind (SHA256File X p) (\<lambda>sum. if sum \<noteq> ta_SHA256 a then op_fail (ErrNew (p @ '' checksum mismatch'')) else op_ret ())))"

fun op_each :: "('a \<Rightarrow> unit depot_op) \<Rightarrow> 'a list \<Rightarrow> unit depot_op" where
  "op_each f [] = op_ret ()"
| "op_each f (x # xs) = op_bind (f x) (\<lambda>u. op_each f xs)"

definition verifyCachedVariant :: "template_env \<Rightarrow> CachedVariant \<Rightarrow> Variant \<Rightarrow> unit depot_op" where
  "verifyCachedVariant X cv v =
     op_each (verify_cached X) [(cv_SnapshotPath cv, vr_Snapshot v), (cv_MemoryPath cv, vr_Memory v), (cv_WritableSeedPath cv, vr_WritableSeed v)]"

definition fetchVerify :: "template_env \<Rightarrow> DiskCache \<Rightarrow> string \<Rightarrow> string \<Rightarrow> string \<Rightarrow> unit depot_op" where
  "fetchVerify X c key dst wantSHA w =
     (case as_Get (ch_store c) key w of
        (Inl e, w1) \<Rightarrow> (Inl (store_error_of e), w1)
      | (Inr b, w1) \<Rightarrow>
          (let tmp = dst @ ''.part''; undo = op_cleanup (remove_path X tmp) in
           op_bind (op_wrap (''create '' @ tmp) (create_path X tmp)) (\<lambda>u.
           op_bind (undo (op_wrap (''download '' @ key) (copy_into X tmp b))) (\<lambda>u.
           op_bind (undo (op_wrap (''close '' @ tmp) (op_step X (''close '' @ tmp)))) (\<lambda>u.
           if tx_sha X b \<noteq> wantSHA
           then undo (op_fail (ErrNew (''checksum mismatch for '' @ key @ '': got '' @ tx_sha X b @ '' want '' @ wantSHA)))
           else undo (op_wrap (''commit '' @ dst) (rename_path X tmp dst)))))) w1)"

definition fetch_artifact :: "template_env \<Rightarrow> DiskCache \<Rightarrow> string \<Rightarrow> string \<Rightarrow> TemplateArtifact \<Rightarrow> unit depot_op" where
  "fetch_artifact X c releaseID sz a =
     (let dst = path_Join [cache_Path c releaseID sz, ta_Name a] in
      op_bind (fetchVerify X c (ArtifactKey releaseID sz (ta_Name a)) dst (ta_SHA256 a)) (\<lambda>u.
        if ch_fcUID c > 0 then op_wrap (''chown cached '' @ dst) (op_step X (''chown '' @ dst)) else op_ret ()))"

definition fetch_variant :: "template_env \<Rightarrow> DiskCache \<Rightarrow> string \<Rightarrow> string \<Rightarrow> Variant \<Rightarrow> CachedVariant depot_op" where
  "fetch_variant X c releaseID sz v =
     (let dir = cache_Path c releaseID sz in
      op_bind (op_wrap (''create cache dir '' @ dir) (op_step X (''mkdir '' @ dir))) (\<lambda>u.
      op_bind (op_each (fetch_artifact X c releaseID sz) (artifacts_of v)) (\<lambda>u.
      op_bind (op_wrap ''write cache marker'' (WriteFile X (marker_path c releaseID sz) [])) (\<lambda>u.
      op_ret (cachedVariant c releaseID sz)))))"

text \<open>The contents of the marker, a time, are not represented: only whether the file exists matters.\<close>

definition Ensure :: "template_env \<Rightarrow> DiskCache \<Rightarrow> TemplateManifest \<Rightarrow> string \<Rightarrow> CachedVariant depot_op" where
  "Ensure X c m sz w =
     (case manifest_Variant m sz of
        None \<Rightarrow> (Inl (ErrNew (''release '' @ tm_ReleaseID m @ '' has no variant '' @ quoted sz)), w)
      | Some v \<Rightarrow>
          (let cv = cachedVariant c (tm_ReleaseID m) sz; (has, w1) = cache_Has X c (tm_ReleaseID m) sz w in
           if \<not> has then fetch_variant X c (tm_ReleaseID m) sz v w1
           else
             (case verifyCachedVariant X cv v w1 of
                (Inr u, w2) \<Rightarrow> (Inr cv, w2)
              | (Inl e, w2) \<Rightarrow> fetch_variant X c (tm_ReleaseID m) sz v (snd (remove_path X (marker_path c (tm_ReleaseID m) sz) w2)))))"

section \<open>Facts of the host\<close>

record HostFacts =
  hf_Arch :: string
  hf_CPUCompatClass :: string
  hf_FirecrackerVersion :: string
  hf_AssetBundleDigest :: string
  hf_RootfsDigest :: string
  hf_KernelDigest :: string

record host_env =
  hx_GOARCH :: string
  hx_version :: "string \<Rightarrow> string option"
  hx_cpuinfo :: "string option"
  hx_Abs :: "string \<Rightarrow> go_error + string"

definition firecrackerVersion :: "host_env \<Rightarrow> string \<Rightarrow> string" where
  "firecrackerVersion H binary =
     (case hx_version H binary of
        None \<Rightarrow> ''unknown''
      | Some out \<Rightarrow> let line = hd (split_on (CHR 0x0A) (trim_space out)) in if line = [] then ''unknown'' else line)"

fun model_name :: "string list \<Rightarrow> string option" where
  "model_name [] = None"
| "model_name (line # ls) =
     (case (if has_prefix line ''model name'' then str_cut line (CHR '':'') else None) of
        Some (k, v) \<Rightarrow> if trim_space v \<noteq> [] then Some (trim_space v) else model_name ls
      | None \<Rightarrow> model_name ls)"

definition cpuCompatClass :: "host_env \<Rightarrow> string \<Rightarrow> string" where
  "cpuCompatClass H arch =
     (case hx_cpuinfo H of
        None \<Rightarrow> ''arch-'' @ arch
      | Some content \<Rightarrow> (case model_name (split_on (CHR 0x0A) content) of Some v \<Rightarrow> v | None \<Rightarrow> ''arch-'' @ arch))"

definition assetBundleDigest :: "template_env \<Rightarrow> string \<Rightarrow> string depot_op" where
  "assetBundleDigest X assetsPath w =
     (case read_path X ''open '' (path_Join [assetsPath, ''.installed-bundle'']) w of
        (Inl e, w1) \<Rightarrow> (Inr [], w1)
      | (Inr b, w1) \<Rightarrow> (Inr (trim_space (text_of b)), w1))"

definition GatherHostFacts :: "template_env \<Rightarrow> host_env \<Rightarrow> string \<Rightarrow> string \<Rightarrow> string \<Rightarrow> string \<Rightarrow> HostFacts depot_op" where
  "GatherHostFacts X H rootfsPath kernelPath firecrackerBinary assetsPath =
     op_bind (op_wrap ''hash rootfs'' (SHA256File X rootfsPath)) (\<lambda>rootfs.
     op_bind (op_wrap ''hash kernel'' (SHA256File X kernelPath)) (\<lambda>kernel.
     op_bind (assetBundleDigest X assetsPath) (\<lambda>bundle.
     op_ret \<lparr>hf_Arch = hx_GOARCH H, hf_CPUCompatClass = cpuCompatClass H (hx_GOARCH H), hf_FirecrackerVersion = firecrackerVersion H firecrackerBinary,
             hf_AssetBundleDigest = bundle, hf_RootfsDigest = rootfs, hf_KernelDigest = kernel\<rparr>)))"

definition mismatch :: "string \<Rightarrow> string \<Rightarrow> string \<Rightarrow> string list" where
  "mismatch field want got = (if want \<noteq> got then [field @ '': template='' @ quoted want @ '' host='' @ quoted got] else [])"

fun join_reasons :: "string list \<Rightarrow> string" where
  "join_reasons [] = []"
| "join_reasons [r] = r"
| "join_reasons (r # rs) = r @ ''; '' @ join_reasons rs"

definition Compatible :: "TemplateManifest \<Rightarrow> HostFacts \<Rightarrow> go_error option" where
  "Compatible m h =
     (let reasons = mismatch ''arch'' (tm_Arch m) (hf_Arch h)
          @ mismatch ''cpu_compat_class'' (tm_CPUCompatClass m) (hf_CPUCompatClass h)
          @ mismatch ''firecracker_version'' (tm_FirecrackerVersion m) (hf_FirecrackerVersion h)
          @ mismatch ''rootfs_digest'' (tm_RootfsDigest m) (hf_RootfsDigest h)
          @ mismatch ''kernel_digest'' (tm_KernelDigest m) (hf_KernelDigest h)
          @ (if tm_AssetBundleDigest m \<noteq> [] \<and> hf_AssetBundleDigest h \<noteq> []
             then mismatch ''asset_bundle_digest'' (tm_AssetBundleDigest m) (hf_AssetBundleDigest h) else [])
      in if reasons \<noteq> [] then Some (ErrNew (''release '' @ tm_ReleaseID m @ '' incompatible with host: '' @ join_reasons reasons)) else None)"

section \<open>Starting a worker from a prebuilt release\<close>

record prebuilt_config =
  pb_RootDirectory :: string
  pb_RootfsPath :: string
  pb_KernelPath :: string
  pb_FirecrackerBinary :: string
  pb_AssetsPath :: string
  pb_FCRunUID :: int
  pb_FCRunGID :: int

definition resources_text :: "int \<Rightarrow> int \<Rightarrow> int \<Rightarrow> string" where
  "resources_text cpus mem disk = itoa cpus @ '' vCPU/'' @ itoa mem @ '' MB/'' @ itoa disk @ '' MB''"

definition size_problem :: "TemplateManifest \<Rightarrow> vm_size \<Rightarrow> go_error option" where
  "size_problem m sz =
     (case manifest_Variant m (sz_name sz) of
        None \<Rightarrow> Some (ErrNew (''prebuilt release '' @ tm_ReleaseID m @ '' is missing required size '' @ quoted (sz_name sz)))
      | Some v \<Rightarrow>
          if vr_VCPUs v \<noteq> sz_vcpus sz \<or> vr_MemoryMB v \<noteq> sz_memory_mb sz \<or> vr_DiskMB v \<noteq> sz_disk_gb sz * 1024
          then Some (ErrNew (''prebuilt release '' @ tm_ReleaseID m @ '' size '' @ quoted (sz_name sz) @ '' resources are ''
                 @ resources_text (vr_VCPUs v) (vr_MemoryMB v) (vr_DiskMB v) @ ''; expected ''
                 @ resources_text (sz_vcpus sz) (sz_memory_mb sz) (sz_disk_gb sz * 1024)))
          else None)"

definition validateStandardRelease :: "TemplateManifest \<Rightarrow> go_error option" where
  "validateStandardRelease m = first_problem (size_problem m) Sizes"

definition template_of :: "prebuilt_config \<Rightarrow> Variant \<Rightarrow> CachedVariant \<Rightarrow> SnapshotTemplate" where
  "template_of cfg v cv =
     \<lparr>tp_SnapPath = cv_SnapshotPath cv, tp_MemPath = cv_MemoryPath cv, tp_RootfsPath = pb_RootfsPath cfg,
      tp_WritableDiskPath = cv_WritableSeedPath cv, tp_VsockPath = vr_VsockPath v, tp_TapName = vr_TapName v\<rparr>"

fun cache_variants :: "template_env \<Rightarrow> prebuilt_config \<Rightarrow> DiskCache \<Rightarrow> TemplateManifest \<Rightarrow> (string, Variant) gomap
    \<Rightarrow> (string, SnapshotTemplate) gomap \<Rightarrow> (string, SnapshotTemplate) gomap depot_op" where
  "cache_variants X cfg c m [] out = op_ret out"
| "cache_variants X cfg c m ((sz, v) # rest) out =
     op_bind (op_wrap (''cache variant '' @ sz) (Ensure X c m sz)) (\<lambda>cv.
       cache_variants X cfg c m rest (mput (Key (vr_VCPUs v) (vr_MemoryMB v) (vr_DiskMB v div 1024)) (template_of cfg v cv) out))"

definition release_to_load :: "template_env \<Rightarrow> (string \<Rightarrow> string) \<Rightarrow> artifact_store \<Rightarrow> string depot_op" where
  "release_to_load X E R w =
     (let releaseID = env_or E ''DEFAULT_TEMPLATE_RELEASE'' [] in
      if releaseID \<noteq> [] then (Inr releaseID, w)
      else op_bind (op_wrap ''resolve active release'' (repo_Active X R))
             (\<lambda>ptr. case ptr of
                None \<Rightarrow> op_fail (ErrNew ''no DEFAULT_TEMPLATE_RELEASE set and no active release in the store'')
              | Some p \<Rightarrow> op_ret (ap_ReleaseID p)) w)"

definition blobStoreFromEnv :: "template_env \<Rightarrow> (string \<Rightarrow> string) \<Rightarrow> artifact_store depot_op" where
  "blobStoreFromEnv X E =
     (let acct = env_or E ''BLOB_STORAGE_ACCOUNT'' [] in
      if acct = [] then op_fail (ErrNew ''TEMPLATE_SOURCE=prebuilt requires BLOB_STORAGE_ACCOUNT'')
      else NewAzureBlobStore X acct (env_or E ''BLOB_SECRET_KEY'' []) (env_or E ''BLOB_CONTAINER_NAME'' []))"

definition template_cache_dir :: "(string \<Rightarrow> string) \<Rightarrow> prebuilt_config \<Rightarrow> string" where
  "template_cache_dir E cfg = env_or E ''TEMPLATE_CACHE_DIR'' (path_Join [pb_RootDirectory cfg, ''template-cache''])"

definition loadPrebuiltTemplates :: "template_env \<Rightarrow> host_env \<Rightarrow> (string \<Rightarrow> string) \<Rightarrow> prebuilt_config \<Rightarrow> (string, SnapshotTemplate) gomap depot_op" where
  "loadPrebuiltTemplates X H E cfg =
     op_bind (blobStoreFromEnv X E) (\<lambda>R.
     op_bind (NewDiskCache X (template_cache_dir E cfg) (NewCompressedStore X R) (pb_FCRunUID cfg) (pb_FCRunGID cfg)) (\<lambda>cache.
     op_bind (release_to_load X E R) (\<lambda>releaseID.
     op_bind (op_wrap (''get manifest '' @ releaseID) (repo_Get X R releaseID)) (\<lambda>m.
     op_bind (op_wrap ''gather host facts'' (GatherHostFacts X H (pb_RootfsPath cfg) (pb_KernelPath cfg) (pb_FirecrackerBinary cfg) (pb_AssetsPath cfg))) (\<lambda>facts.
     case Compatible m facts of
       Some e \<Rightarrow> op_fail e
     | None \<Rightarrow>
         (case validateStandardRelease m of
            Some e \<Rightarrow> op_fail e
          | None \<Rightarrow> cache_variants X cfg cache m (tm_Variants m) []))))))"

section \<open>Skipping zeros changes nothing\<close>

lemma truncate_to_self: "length f = n \<Longrightarrow> truncate_to n f = f"
  by (simp add: truncate_to_def)

lemma zeros: "isAllZero b \<Longrightarrow> b = replicate (length b) 0"
  unfolding isAllZero_def by (induction b) auto

lemma copy_blocks_exact:
  assumes "0 < block" "length f \<le> offset"
  shows "copy_blocks block offset src f = truncate_to offset f @ src"
  using assms
proof (induction block offset src f rule: copy_blocks.induct)
  case (1 block offset src f)
  show ?case
  proof (cases "src = []")
    case False
    define chunk where "chunk = take block src"
    define f' where "f' = (if isAllZero chunk then f else WriteAt offset chunk f)"
    have len: "length f' \<le> offset + length chunk"
      using "1.prems" by (auto simp: f'_def WriteAt_def)
    have "truncate_to (offset + length chunk) f' = truncate_to offset f @ chunk"
    proof (cases "isAllZero chunk")
      case True
      then show ?thesis using "1.prems"(2) zeros[OF True]
        by (simp add: f'_def truncate_to_def replicate_add[symmetric]) (metis Nat.add_diff_assoc2 replicate_add)
    next
      case False
      then show ?thesis using "1.prems"(2) by (simp add: f'_def WriteAt_def truncate_to_def)
    qed
    moreover have "copy_blocks block offset src f = copy_blocks block (offset + length chunk) (drop block src) f'"
      using False "1.prems"(1) by (subst copy_blocks.simps) (simp add: chunk_def f'_def Let_def)
    ultimately show ?thesis
      using "1.IH"[OF _ chunk_def f'_def] False "1.prems"(1) len by (simp add: chunk_def)
  qed (simp add: copy_blocks.simps)
qed

text \<open>The file that is written block by block, leaving out the blocks of zeros, has exactly the bytes of the stream.\<close>

lemma copySparse_id: "copySparse src = src"
  by (simp add: copySparse_def copy_blocks_exact truncate_to_def)

section \<open>Where the cache keeps its files\<close>

lemma rooted_Join:
  assumes "list_all plain rs" "rs \<noteq> []" "list_all plain cs"
  shows "path_Join ((slash # join_slash rs) # cs) = slash # join_slash (rs @ cs)"
proof -
  have cs: "filter (\<lambda>e. e \<noteq> []) cs = cs" using assms(3) by (induction cs) (auto simp: plain_def)
  have "join_slash ((slash # join_slash rs) # cs) = slash # join_slash (rs @ cs)"
    using assms(2) join_append[of rs cs] by (cases cs) simp_all
  moreover have "split_slash (join_slash (rs @ cs)) = rs @ cs"
    using split_join[of "rs @ cs"] plain_slash[of "rs @ cs"] assms by simp
  moreover have "filter (\<lambda>c. c \<noteq> []) (rs @ cs) = rs @ cs" "list_all (\<lambda>c. c = [] \<or> plain c) (rs @ cs)"
    using assms by (auto simp: list_all_iff plain_def filter_id_conv)
  ultimately show ?thesis using clean_rooted[of "join_slash (rs @ cs)"] cs by (simp add: path_Join_def)
qed

text \<open>The root of the cache is an absolute path, and the names below it are plain.\<close>

definition cache_ok :: "DiskCache \<Rightarrow> bool" where
  "cache_ok c \<longleftrightarrow> (\<exists>rs. list_all plain rs \<and> rs \<noteq> [] \<and> ch_root c = slash # join_slash rs)"

definition cache_file :: "DiskCache \<Rightarrow> string \<Rightarrow> string \<Rightarrow> string \<Rightarrow> string" where
  "cache_file c r sz n = path_Join [cache_Path c r sz, n]"

lemma cache_file_join:
  assumes "list_all plain rs" "rs \<noteq> []" "ch_root c = slash # join_slash rs" "plain r" "plain sz" "plain n"
  shows "cache_file c r sz n = slash # join_slash (rs @ [r, sz, n])"
proof -
  have dir: "cache_Path c r sz = slash # join_slash (rs @ [r, sz])" unfolding cache_Path_def assms(3) using rooted_Join[of rs "[r, sz]"] assms by simp
  show ?thesis unfolding cache_file_def dir using rooted_Join[of "rs @ [r, sz]" "[n]"] assms by simp
qed

lemma cache_file_eq [simp]:
  assumes "cache_ok c" "plain r" "plain sz" "plain n" "plain r'" "plain sz'" "plain n'"
  shows "cache_file c r sz n = cache_file c r' sz' n' \<longleftrightarrow> r = r' \<and> sz = sz' \<and> n = n'"
proof -
  obtain rs where rs: "list_all plain rs" "rs \<noteq> []" "ch_root c = slash # join_slash rs" using assms(1) by (auto simp: cache_ok_def)
  have "join_slash (rs @ [r, sz, n]) = join_slash (rs @ [r', sz', n']) \<longleftrightarrow> rs @ [r, sz, n] = rs @ [r', sz', n']"
    using rs assms by (intro join_inject) simp_all
  then show ?thesis using cache_file_join[OF rs] assms by simp
qed

lemma cache_file_part:
  assumes "cache_ok c" "plain r" "plain sz" "plain n"
  shows "cache_file c r sz n @ ''.part'' = cache_file c r sz (n @ ''.part'')" "plain (n @ ''.part'')"
proof -
  obtain rs where rs: "list_all plain rs" "rs \<noteq> []" "ch_root c = slash # join_slash rs" using assms(1) by (auto simp: cache_ok_def)
  show part: "plain (n @ ''.part'')" using assms(4) by (auto simp: plain_def slash_def)
  have "join_slash (rs @ [r, sz, n]) @ ''.part'' = join_slash (rs @ [r, sz, n @ ''.part''])"
    using rs(2) join_append[of rs "[r, sz, n]"] join_append[of rs "[r, sz, n @ ''.part'']"] by simp
  then show "cache_file c r sz n @ ''.part'' = cache_file c r sz (n @ ''.part'')" using cache_file_join[OF rs] assms part by simp
qed

lemma marker_file: "marker_path c r sz = cache_file c r sz cacheReadyMarker"
  by (simp add: marker_path_def cache_file_def)

lemma plain_marker [simp]: "plain cacheReadyMarker"
  by (simp add: plain_def slash_def cacheReadyMarker_def)

section \<open>Downloads\<close>

lemma remove_path_state:
  "remove_path X p w = (out, w') \<Longrightarrow> dp_objects w' = dp_objects w \<and> (\<forall>k. k \<noteq> p \<longrightarrow> mget (dp_files w') k = mget (dp_files w) k)"
  by (auto simp: remove_path_def op_bind_eq dest!: op_step_state)

lemma create_path_state:
  "create_path X p w = (out, w') \<Longrightarrow> dp_objects w' = dp_objects w \<and> (\<forall>k. k \<noteq> p \<longrightarrow> mget (dp_files w') k = mget (dp_files w) k)"
  by (auto simp: create_path_def op_bind_eq write_path_def dest!: op_step_state)

lemma copy_into_state:
  "copy_into X p b w = (out, w') \<Longrightarrow> dp_objects w' = dp_objects w \<and> (\<forall>k. k \<noteq> p \<longrightarrow> mget (dp_files w') k = mget (dp_files w) k)
     \<and> (out = Inr () \<longrightarrow> mget (dp_files w') p = Some b)"
  by (auto simp: copy_into_def write_path_def Let_def copySparse_id split: option.splits)

lemma rename_path_state:
  "a \<noteq> b \<Longrightarrow> rename_path X a b w = (out, w') \<Longrightarrow> dp_objects w' = dp_objects w \<and> (\<forall>k. k \<noteq> a \<longrightarrow> k \<noteq> b \<longrightarrow> mget (dp_files w') k = mget (dp_files w) k)
     \<and> (mget (dp_files w') b = mget (dp_files w) b \<or> mget (dp_files w') b = mget (dp_files w) a \<and> mget (dp_files w) a \<noteq> None)
     \<and> (out = Inr () \<longrightarrow> mget (dp_files w') b = mget (dp_files w) a \<and> mget (dp_files w) a \<noteq> None)"
  by (auto simp: rename_path_def op_bind_eq split: option.splits dest!: op_step_state)

lemma op_cleanup_eq:
  "op_cleanup c m w = (out, w') \<longleftrightarrow>
     (\<exists>e w1. m w = (Inl e, w1) \<and> out = Inl e \<and> w' = snd (c w1)) \<or> (\<exists>a. m w = (Inr a, w') \<and> out = Inr a)"
  by (auto simp: op_cleanup_def split: prod.splits sum.splits)

text \<open>A download changes its target only to bytes with the wanted checksum.\<close>

definition verified :: "template_env \<Rightarrow> depot \<Rightarrow> string \<Rightarrow> string \<Rightarrow> bool" where
  "verified X w p sha \<longleftrightarrow> (\<exists>b. mget (dp_files w) p = Some b \<and> tx_sha X b = sha)"

definition fetched :: "template_env \<Rightarrow> string \<Rightarrow> string \<Rightarrow> depot \<Rightarrow> depot \<Rightarrow> bool" where
  "fetched X dst sha w w' \<longleftrightarrow> (\<forall>k. k \<noteq> dst \<longrightarrow> k \<noteq> dst @ ''.part'' \<longrightarrow> mget (dp_files w') k = mget (dp_files w) k)
     \<and> (mget (dp_files w') dst = mget (dp_files w) dst \<or> verified X w' dst sha)"

lemma removed_files [simp]: "k \<noteq> p \<Longrightarrow> mget (dp_files (snd (remove_path X p w))) k = mget (dp_files w) k"
  using remove_path_state[of X p w "fst (remove_path X p w)" "snd (remove_path X p w)"] by simp

text \<open>Steps that touch only the temporary file.\<close>

definition only_tmp :: "string \<Rightarrow> depot \<Rightarrow> depot \<Rightarrow> bool" where
  "only_tmp tmp w w' \<longleftrightarrow> (\<forall>k. k \<noteq> tmp \<longrightarrow> mget (dp_files w') k = mget (dp_files w) k)"

lemma only_tmp_trans: "only_tmp t a b \<Longrightarrow> only_tmp t b c \<Longrightarrow> only_tmp t a c"
  by (simp add: only_tmp_def)

lemma only_tmp_removed: "only_tmp t a b \<Longrightarrow> only_tmp t a (snd (remove_path X t b))"
  by (simp add: only_tmp_def)

lemma fetchVerify_effect:
  assumes fetch: "fetchVerify X c key dst want w = (out, w')" and store: "ch_store c = artifact_depot X"
  shows "fetched X dst want w w'" and "out = Inr () \<Longrightarrow> verified X w' dst want"
proof -
  let ?tmp = "dst @ ''.part''"
  have tmp: "?tmp \<noteq> dst" by simp
  obtain g w0 where g: "as_Get (ch_store c) key w = (g, w0)" by fastforce
  have f0: "dp_files w0 = dp_files w" using zipped.get[OF g[unfolded store]] by simp
  have quiet: "fetched X dst want w v" if "only_tmp ?tmp w0 v" for v
    using that tmp by (auto simp: fetched_def only_tmp_def f0)
  have "fetched X dst want w w' \<and> (out = Inr () \<longrightarrow> verified X w' dst want)"
  proof (cases g)
    case (Inl e)
    then show ?thesis using fetch g f0 by (auto simp: fetchVerify_def fetched_def)
  next
    case (Inr b)
    obtain o1 w1 where s1: "create_path X ?tmp w0 = (o1, w1)" by fastforce
    obtain o2 w2 where s2: "copy_into X ?tmp b w1 = (o2, w2)" by fastforce
    obtain o3 w3 where s3: "op_step X (''close '' @ ?tmp) w2 = (o3, w3)" by fastforce
    obtain o4 w4 where s4: "rename_path X ?tmp dst w3 = (o4, w4)" by fastforce
    have t1: "only_tmp ?tmp w0 w1" using create_path_state[OF s1] by (simp add: only_tmp_def)
    have t2: "only_tmp ?tmp w0 w2" using copy_into_state[OF s2] t1 by (simp add: only_tmp_def)
    have t3: "only_tmp ?tmp w0 w3" using op_step_state[OF s3] t2 by (simp add: only_tmp_def)
    have run: "w' = w1 \<and> out \<noteq> Inr () \<or> w' = snd (remove_path X ?tmp w2) \<and> out \<noteq> Inr () \<or> w' = snd (remove_path X ?tmp w3) \<and> out \<noteq> Inr ()
        \<or> (o2 = Inr () \<and> tx_sha X b = want \<and> (o4 \<noteq> Inr () \<and> w' = snd (remove_path X ?tmp w4) \<and> out \<noteq> Inr () \<or> o4 = Inr () \<and> w' = w4))"
      using fetch g Inr s1 s2 s3 s4
      by (auto simp: fetchVerify_def Let_def op_bind_eq op_wrap_eq op_cleanup_eq op_fail_eq split: if_splits)
    have commit: "fetched X dst want w w4 \<and> fetched X dst want w (snd (remove_path X ?tmp w4)) \<and> (o4 = Inr () \<longrightarrow> verified X w4 dst want)"
      if ok: "o2 = Inr ()" "tx_sha X b = want"
    proof -
      have "mget (dp_files w3) ?tmp = Some b" using copy_into_state[OF s2] ok(1) op_step_state[OF s3] by simp
      then show ?thesis
        using rename_path_state[OF tmp s4] t3 ok(2) tmp f0
        by (simp add: fetched_def only_tmp_def verified_def) (metis removed_files tmp)
    qed
    show ?thesis using run commit quiet[OF t1] quiet[OF only_tmp_removed[OF t2]] quiet[OF only_tmp_removed[OF t3]] by blast
  qed
  then show "fetched X dst want w w'" "out = Inr () \<Longrightarrow> verified X w' dst want" by simp_all
qed

section \<open>Entries that are marked ready\<close>

definition names_ok :: "TemplateArtifact list \<Rightarrow> bool" where
  "names_ok as \<longleftrightarrow> distinct (map ta_Name as) \<and> (\<forall>a \<in> set as. ta_Name a \<in> {ArtifactSnapshot, ArtifactMemory, ArtifactWritableSeed})"

lemma artifact_names:
  assumes "n \<in> {ArtifactSnapshot, ArtifactMemory, ArtifactWritableSeed}" "n' \<in> {ArtifactSnapshot, ArtifactMemory, ArtifactWritableSeed}"
  shows "plain n" "n \<noteq> n' @ ''.part''" "n \<noteq> cacheReadyMarker" "cacheReadyMarker \<noteq> n @ ''.part''"
  using assms by (auto simp: ArtifactSnapshot_def ArtifactMemory_def ArtifactWritableSeed_def cacheReadyMarker_def plain_def slash_def)

lemma Validate_variant:
  assumes "Validate_manifest m = None" "manifest_Variant m sz = Some v"
  shows "variant_problem (sz, v) = None"
proof -
  have "first_problem f xs = None \<Longrightarrow> x \<in> set xs \<Longrightarrow> f x = None" for f :: "'a \<Rightarrow> go_error option" and x xs
    by (induction xs) (auto split: option.splits)
  then show "variant_problem (sz, v) = None"
    using assms map_of_SomeD[of "tm_Variants m" sz v] by (auto simp: Validate_manifest_def manifest_Variant_def split: if_splits)
qed

lemma Validate_names:
  assumes "Validate_manifest m = None" "manifest_Variant m sz = Some v"
  shows "names_ok (artifacts_of v)"
proof -
  show ?thesis using Validate_variant[OF assms]
    by (auto simp: variant_problem_def artifact_problem_def names_ok_def artifacts_of_def ArtifactSnapshot_def ArtifactMemory_def
        ArtifactWritableSeed_def split: if_splits option.splits)
qed

lemma Validate_positions:
  assumes "Validate_manifest m = None" "manifest_Variant m sz = Some v"
  shows "ta_Name (vr_Snapshot v) = ArtifactSnapshot" "ta_Name (vr_Memory v) = ArtifactMemory" "ta_Name (vr_WritableSeed v) = ArtifactWritableSeed"
  using Validate_variant[OF assms] by (auto simp: variant_problem_def artifact_problem_def split: if_splits option.splits)

definition good :: "template_env \<Rightarrow> DiskCache \<Rightarrow> string \<Rightarrow> string \<Rightarrow> depot \<Rightarrow> TemplateArtifact \<Rightarrow> bool" where
  "good X c r sz w a \<longleftrightarrow> verified X w (cache_file c r sz (ta_Name a)) (ta_SHA256 a)"

lemma fetch_artifact_effect:
  assumes "fetch_artifact X c r sz a w = (out, w')" "ch_store c = artifact_depot X"
  shows "fetched X (cache_file c r sz (ta_Name a)) (ta_SHA256 a) w w'" and "out = Inr () \<Longrightarrow> good X c r sz w' a"
proof -
  obtain o1 w1 where f: "fetchVerify X c (ArtifactKey r sz (ta_Name a)) (cache_file c r sz (ta_Name a)) (ta_SHA256 a) w = (o1, w1)" by fastforce
  have "dp_files w' = dp_files w1" "out = Inr () \<longrightarrow> o1 = Inr ()"
    using assms(1) f by (auto simp: fetch_artifact_def cache_file_def Let_def op_bind_eq op_wrap_eq op_ret_eq split: if_splits dest!: op_step_state)
  then show "fetched X (cache_file c r sz (ta_Name a)) (ta_SHA256 a) w w'" and "out = Inr () \<Longrightarrow> good X c r sz w' a"
    using fetchVerify_effect[OF f assms(2)] by (simp_all add: fetched_def verified_def good_def)
qed

lemma fetched_keeps_good:
  assumes fetched: "fetched X (cache_file c r sz (ta_Name a)) (ta_SHA256 a) w w'" and g: "good X c r' sz' w a'"
    and plain: "cache_ok c" "plain r" "plain sz" "plain r'" "plain sz'"
    and names: "ta_Name a \<in> {ArtifactSnapshot, ArtifactMemory, ArtifactWritableSeed}" "ta_Name a' \<in> {ArtifactSnapshot, ArtifactMemory, ArtifactWritableSeed}"
    and same: "r = r' \<and> sz = sz' \<and> ta_Name a = ta_Name a' \<Longrightarrow> a = a'"
  shows "good X c r' sz' w' a'"
proof (cases "r = r' \<and> sz = sz' \<and> ta_Name a = ta_Name a'")
  case True
  then have eq: "a' = a" "r' = r" "sz' = sz" using same[OF True] by simp_all
  show ?thesis using fetched g unfolding eq fetched_def good_def verified_def by metis
next
  case False
  note n = artifact_names[OF names] artifact_names[OF names(2) names(1)]
  have "cache_file c r' sz' (ta_Name a') \<noteq> cache_file c r sz (ta_Name a)" "cache_file c r' sz' (ta_Name a') \<noteq> cache_file c r sz (ta_Name a) @ ''.part''"
    using False plain n cache_file_part[OF plain(1-3) n(1)] by auto
  then show ?thesis using fetched g by (simp add: fetched_def good_def verified_def)
qed

lemma fetch_all_effect:
  assumes "op_each (fetch_artifact X c r sz) as w = (out, w')" "ch_store c = artifact_depot X" "cache_ok c" "plain r" "plain sz" "names_ok as"
  shows "(\<forall>r' sz' a'. plain r' \<longrightarrow> plain sz' \<longrightarrow> ta_Name a' \<in> {ArtifactSnapshot, ArtifactMemory, ArtifactWritableSeed} \<longrightarrow>
             (r' = r \<and> sz' = sz \<longrightarrow> (\<forall>a \<in> set as. ta_Name a = ta_Name a' \<longrightarrow> a = a')) \<longrightarrow> good X c r' sz' w a' \<longrightarrow> good X c r' sz' w' a')
         \<and> (\<forall>r' sz'. plain r' \<longrightarrow> plain sz' \<longrightarrow> mget (dp_files w') (marker_path c r' sz') = mget (dp_files w) (marker_path c r' sz'))
         \<and> (out = Inr () \<longrightarrow> list_all (good X c r sz w') as)"
  using assms
proof (induction as arbitrary: w)
  case Nil
  then show ?case by (simp add: op_ret_eq)
next
  case (Cons a as)
  obtain o1 w1 where one: "fetch_artifact X c r sz a w = (o1, w1)" by fastforce
  note eff = fetch_artifact_effect[OF one Cons.prems(2)]
  have na: "ta_Name a \<in> {ArtifactSnapshot, ArtifactMemory, ArtifactWritableSeed}" "names_ok as" "ta_Name a \<notin> ta_Name ` set as"
    using Cons.prems(6) by (auto simp: names_ok_def)
  have marker: "mget (dp_files w1) (marker_path c r' sz') = mget (dp_files w) (marker_path c r' sz')" if "plain r'" "plain sz'" for r' sz'
    using eff(1) that Cons.prems(3-5) artifact_names[OF na(1) na(1)] cache_file_part[OF Cons.prems(3-5), of "ta_Name a"]
    unfolding fetched_def marker_file by (metis cache_file_eq plain_marker)
  have keep: "good X c r' sz' w1 a'"
    if "plain r'" "plain sz'" "ta_Name a' \<in> {ArtifactSnapshot, ArtifactMemory, ArtifactWritableSeed}" "r' = r \<and> sz' = sz \<longrightarrow> ta_Name a = ta_Name a' \<longrightarrow> a = a'"
      "good X c r' sz' w a'" for r' sz' a'
    by (rule fetched_keeps_good[OF eff(1) that(5) Cons.prems(3-5) that(1,2) na(1) that(3)]) (use that(4) in auto)
  show ?case
  proof (cases o1)
    case (Inl e)
    then have "out = Inl e" "w' = w1" using Cons.prems(1) one by (auto simp: op_bind_eq)
    then show ?thesis using keep marker by auto
  next
    case (Inr u)
    then have rest: "op_each (fetch_artifact X c r sz) as w1 = (out, w')" using Cons.prems(1) one by (auto simp: op_bind_eq)
    note ih = Cons.IH[OF rest Cons.prems(2-5) na(2)]
    have "good X c r sz w' a" if "out = Inr ()"
    proof -
      have "good X c r sz w1 a" using eff(2) Inr by simp
      moreover have "\<forall>b \<in> set as. ta_Name b = ta_Name a \<longrightarrow> b = a" using na(3) by (metis imageI)
      ultimately show ?thesis using ih na(1) Cons.prems(4,5) by blast
    qed
    then show ?thesis using ih keep marker by (simp add: list_all_iff)
  qed
qed

text \<open>The cache over all releases: the manifest of a release never changes, and an entry that is marked ready is verified.\<close>

definition catalogue_ok :: "(string \<Rightarrow> TemplateManifest option) \<Rightarrow> bool" where
  "catalogue_ok M \<longleftrightarrow> (\<forall>r m. M r = Some m \<longrightarrow> tm_ReleaseID m = r \<and> plain r \<and> Validate_manifest m = None \<and> list_all plain (mkeys (tm_Variants m)))"

definition ready_ok :: "template_env \<Rightarrow> DiskCache \<Rightarrow> (string \<Rightarrow> TemplateManifest option) \<Rightarrow> depot \<Rightarrow> bool" where
  "ready_ok X c M w \<longleftrightarrow> (\<forall>r m sz v. M r = Some m \<longrightarrow> manifest_Variant m sz = Some v \<longrightarrow> mget (dp_files w) (marker_path c r sz) \<noteq> None \<longrightarrow>
     list_all (good X c r sz w) (artifacts_of v))"

lemma catalogue_variant:
  assumes "catalogue_ok M" "M r = Some m" "manifest_Variant m sz = Some v"
  shows "tm_ReleaseID m = r" "plain r" "plain sz" "names_ok (artifacts_of v)"
proof -
  have m: "tm_ReleaseID m = r" "plain r" "Validate_manifest m = None" "list_all plain (mkeys (tm_Variants m))"
    using assms(1,2) by (simp_all add: catalogue_ok_def)
  show "tm_ReleaseID m = r" "plain r" "names_ok (artifacts_of v)" using m Validate_names[OF m(3) assms(3)] by simp_all
  have "sz \<in> set (mkeys (tm_Variants m))" using assms(3) mget_None_iff[of "tm_Variants m" sz] unfolding manifest_Variant_def by fastforce
  then show "plain sz" using m(4) unfolding list_all_iff by blast
qed

lemma names_ok_single: "names_ok as \<Longrightarrow> a \<in> set as \<Longrightarrow> b \<in> set as \<Longrightarrow> ta_Name a = ta_Name b \<Longrightarrow> a = b"
  unfolding names_ok_def distinct_map by (metis inj_onD)

lemma good_same_files: "dp_files w' = dp_files w \<Longrightarrow> good X c r sz w' = good X c r sz w"
  by (simp add: fun_eq_iff good_def verified_def)

lemma ready_ok_same_files:
  assumes "dp_files w' = dp_files w"
  shows "ready_ok X c M w' = ready_ok X c M w"
  unfolding ready_ok_def good_same_files[OF assms] assms by (rule refl)

text \<open>Removing a marker, and writing the one of an entry that is verified.\<close>

lemma good_other_file:
  assumes "\<And>k. k \<noteq> marker_path c r sz \<Longrightarrow> mget (dp_files w') k = mget (dp_files w) k" "cache_ok c" "plain r" "plain sz" "plain r'" "plain sz'"
    and "ta_Name a \<in> {ArtifactSnapshot, ArtifactMemory, ArtifactWritableSeed}"
  shows "good X c r' sz' w' a = good X c r' sz' w a"
proof -
  have "cache_file c r' sz' (ta_Name a) \<noteq> marker_path c r sz"
    unfolding marker_file using assms(2-6) artifact_names[OF assms(7,7)] by auto
  then show ?thesis using assms(1) by (simp add: good_def verified_def)
qed

lemma ready_ok_marker:
  assumes ready: "ready_ok X c M w" and M: "catalogue_ok M" "M r = Some m" "manifest_Variant m sz = Some v" and c: "cache_ok c"
    and other: "\<And>k. k \<noteq> marker_path c r sz \<Longrightarrow> mget (dp_files w') k = mget (dp_files w) k"
    and mine: "mget (dp_files w') (marker_path c r sz) \<noteq> None \<Longrightarrow> mget (dp_files w) (marker_path c r sz) \<noteq> None \<or> list_all (good X c r sz w) (artifacts_of v)"
  shows "ready_ok X c M w'"
  unfolding ready_ok_def
proof (intro allI impI)
  fix r' m' sz' v'
  assume M': "M r' = Some m'" "manifest_Variant m' sz' = Some v'" and mark: "mget (dp_files w') (marker_path c r' sz') \<noteq> None"
  note k = catalogue_variant[OF M] catalogue_variant[OF M(1) M']
  have "list_all (good X c r' sz' w) (artifacts_of v')"
  proof (cases "r' = r \<and> sz' = sz")
    case True
    then have "v' = v" using M M' by auto
    then show ?thesis using mine mark True ready M unfolding ready_ok_def by blast
  next
    case False
    then have "marker_path c r' sz' \<noteq> marker_path c r sz" unfolding marker_file using c k by simp
    then show ?thesis using other mark ready M' unfolding ready_ok_def by metis
  qed
  then show "list_all (good X c r' sz' w') (artifacts_of v')"
    using good_other_file[OF other c k(2,3) k(6,7)] k(8) by (simp add: list_all_iff names_ok_def)
qed

lemma fetch_variant_run:
  assumes "fetch_variant X c r sz v w = (out, w')"
  obtains o1 w1 o2 w2 o3 w3 where "op_step X (''mkdir '' @ cache_Path c r sz) w = (o1, w1)" "op_each (fetch_artifact X c r sz) (artifacts_of v) w1 = (o2, w2)"
    "WriteFile X (marker_path c r sz) [] w2 = (o3, w3)"
    "w' = w1 \<and> (\<exists>e. out = Inl e) \<or> w' = w2 \<and> (\<exists>e. out = Inl e) \<or> o2 = Inr () \<and> w' = w3 \<and> (out = Inr (cachedVariant c r sz) \<or> (\<exists>e. out = Inl e))"
proof -
  obtain o1 w1 where s1: "op_step X (''mkdir '' @ cache_Path c r sz) w = (o1, w1)" by fastforce
  obtain o2 w2 where s2: "op_each (fetch_artifact X c r sz) (artifacts_of v) w1 = (o2, w2)" by fastforce
  obtain o3 w3 where s3: "WriteFile X (marker_path c r sz) [] w2 = (o3, w3)" by fastforce
  show thesis
    by (rule that[OF s1 s2 s3]) (use assms s1 s2 s3 in \<open>auto simp: fetch_variant_def Let_def op_bind_eq op_wrap_eq op_ret_eq\<close>)
qed

lemma WriteFile_other: "WriteFile X p b w = (out, w') \<Longrightarrow> k \<noteq> p \<Longrightarrow> mget (dp_files w') k = mget (dp_files w) k"
  by (auto simp: WriteFile_def write_path_def Let_def split: option.splits if_splits)

lemma fetch_variant_good:
  assumes run: "fetch_variant X c r sz v w = (Inr cv, w')" and c: "ch_store c = artifact_depot X" "cache_ok c" "plain r" "plain sz" "names_ok (artifacts_of v)"
  shows "cv = cachedVariant c r sz \<and> list_all (good X c r sz w') (artifacts_of v)"
proof (rule fetch_variant_run[OF run])
  fix o1 w1 o2 w2 o3 w3
  assume s2: "op_each (fetch_artifact X c r sz) (artifacts_of v) w1 = (o2, w2)" and s3: "WriteFile X (marker_path c r sz) [] w2 = (o3, w3)"
    and "w' = w1 \<and> (\<exists>e. Inr cv = Inl e) \<or> w' = w2 \<and> (\<exists>e. Inr cv = Inl e)
         \<or> o2 = Inr () \<and> w' = w3 \<and> (Inr cv = Inr (cachedVariant c r sz) \<or> (\<exists>e. Inr cv = Inl e))"
  then have o2: "o2 = Inr ()" "w' = w3" "cv = cachedVariant c r sz" by auto
  have "good X c r sz w3 a" if a: "a \<in> set (artifacts_of v)" for a
    using fetch_all_effect[OF s2 c] o2(1) a good_other_file[OF WriteFile_other[OF s3] c(2-4) c(3,4), of a X] c(5) by (auto simp: list_all_iff names_ok_def)
  then show ?thesis using o2 by (simp add: list_all_iff)
qed

lemma fetch_variant_ready:
  assumes run: "fetch_variant X c r sz v w = (out, w')" and store: "ch_store c = artifact_depot X" and c: "cache_ok c"
    and ready: "ready_ok X c M w" and M: "catalogue_ok M" "M r = Some m" "manifest_Variant m sz = Some v"
  shows "ready_ok X c M w'"
proof (rule fetch_variant_run[OF run])
  fix o1 w1 o2 w2 o3 w3
  assume s1: "op_step X (''mkdir '' @ cache_Path c r sz) w = (o1, w1)" and s2: "op_each (fetch_artifact X c r sz) (artifacts_of v) w1 = (o2, w2)"
    and s3: "WriteFile X (marker_path c r sz) [] w2 = (o3, w3)"
    and run': "w' = w1 \<and> (\<exists>e. out = Inl e) \<or> w' = w2 \<and> (\<exists>e. out = Inl e)
         \<or> o2 = Inr () \<and> w' = w3 \<and> (out = Inr (cachedVariant c r sz) \<or> (\<exists>e. out = Inl e))"
  note k = catalogue_variant[OF M]
  have f1: "dp_files w1 = dp_files w" using op_step_state[OF s1] by simp
  note eff = fetch_all_effect[OF s2 store c k(2-4)]
  have r1: "ready_ok X c M w1" using ready ready_ok_same_files[OF f1] by simp
  have r2: "ready_ok X c M w2"
    unfolding ready_ok_def
  proof (intro allI impI)
    fix r' m' sz' v'
    assume M': "M r' = Some m'" "manifest_Variant m' sz' = Some v'" and mark: "mget (dp_files w2) (marker_path c r' sz') \<noteq> None"
    note k' = catalogue_variant[OF M(1) M']
    have "mget (dp_files w1) (marker_path c r' sz') \<noteq> None" using mark eff k'(2,3) by metis
    then have old: "list_all (good X c r' sz' w1) (artifacts_of v')" using r1 M' unfolding ready_ok_def by blast
    have "good X c r' sz' w2 a" if a: "a \<in> set (artifacts_of v')" for a
    proof -
      have "r' = r \<and> sz' = sz \<longrightarrow> (\<forall>b \<in> set (artifacts_of v). ta_Name b = ta_Name a \<longrightarrow> b = a)"
        using M M' a names_ok_single[OF k(4)] by auto
      moreover have "ta_Name a \<in> {ArtifactSnapshot, ArtifactMemory, ArtifactWritableSeed}" using k'(4) a by (auto simp: names_ok_def)
      ultimately show ?thesis using eff k'(2,3) old a by (auto simp: list_all_iff)
    qed
    then show "list_all (good X c r' sz' w2) (artifacts_of v')" by (simp add: list_all_iff)
  qed
  have r3: "ready_ok X c M w3" if "o2 = Inr ()"
    using eff that by (intro ready_ok_marker[OF r2 M c WriteFile_other[OF s3]]) auto
  show ?thesis using run' r1 r2 r3 by blast
qed

lemma cached_paths:
  "cv_SnapshotPath (cachedVariant c r sz) = cache_file c r sz ArtifactSnapshot" "cv_MemoryPath (cachedVariant c r sz) = cache_file c r sz ArtifactMemory"
  "cv_WritableSeedPath (cachedVariant c r sz) = cache_file c r sz ArtifactWritableSeed"
  by (simp_all add: cachedVariant_def cache_file_def Let_def)

lemma verify_cached_state:
  "verify_cached X (p, a) w = (out, w') \<Longrightarrow> dp_files w' = dp_files w \<and> (out = Inr () \<longrightarrow> verified X w p (ta_SHA256 a))"
  by (auto simp: verify_cached_def op_bind_eq op_fail_eq op_ret_eq verified_def split: if_splits dest!: read_path_state SHA256File_state)

lemma verifyCachedVariant_state:
  assumes "verifyCachedVariant X cv v w = (out, w')"
  shows "dp_files w' = dp_files w"
    and "out = Inr () \<Longrightarrow> verified X w (cv_SnapshotPath cv) (ta_SHA256 (vr_Snapshot v)) \<and> verified X w (cv_MemoryPath cv) (ta_SHA256 (vr_Memory v))
           \<and> verified X w (cv_WritableSeedPath cv) (ta_SHA256 (vr_WritableSeed v))"
  using assms
  by (auto simp: verifyCachedVariant_def op_bind_eq op_ret_eq verified_def dest!: verify_cached_state)

definition holds_variant :: "template_env \<Rightarrow> depot \<Rightarrow> CachedVariant \<Rightarrow> Variant \<Rightarrow> bool" where
  "holds_variant X w cv v \<longleftrightarrow> verified X w (cv_SnapshotPath cv) (ta_SHA256 (vr_Snapshot v)) \<and> verified X w (cv_MemoryPath cv) (ta_SHA256 (vr_Memory v))
     \<and> verified X w (cv_WritableSeedPath cv) (ta_SHA256 (vr_WritableSeed v))"

lemma good_holds:
  assumes "Validate_manifest m = None" "manifest_Variant m sz = Some v"
  shows "holds_variant X w (cachedVariant c r sz) v \<longleftrightarrow> list_all (good X c r sz w) (artifacts_of v)"
  by (simp add: holds_variant_def good_def artifacts_of_def cached_paths Validate_positions[OF assms])

text \<open>A call of the cache verifies what is there, or downloads, perhaps after removing the marker.\<close>

lemma Ensure_cases:
  assumes run: "Ensure X c m sz w = (out, w')" and v: "manifest_Variant m sz = Some v"
  obtains (download) u where "fetch_variant X c (tm_ReleaseID m) sz v u = (out, w')"
      "\<forall>k. k \<noteq> marker_path c (tm_ReleaseID m) sz \<longrightarrow> mget (dp_files u) k = mget (dp_files w) k"
      "mget (dp_files u) (marker_path c (tm_ReleaseID m) sz) \<noteq> None \<longrightarrow> mget (dp_files w) (marker_path c (tm_ReleaseID m) sz) \<noteq> None"
    | (present) "dp_files w' = dp_files w" "out = Inr (cachedVariant c (tm_ReleaseID m) sz)" "holds_variant X w' (cachedVariant c (tm_ReleaseID m) sz) v"
proof -
  let ?r = "tm_ReleaseID m" and ?cv = "cachedVariant c (tm_ReleaseID m) sz"
  obtain has w1 where h: "cache_Has X c ?r sz w = (has, w1)" by fastforce
  have f1: "dp_files w1 = dp_files w"
    using h by (auto simp: cache_Has_def split: prod.splits sum.splits dest!: read_path_state)
  obtain o2 w2 where s2: "verifyCachedVariant X ?cv v w1 = (o2, w2)" by fastforce
  note ver = verifyCachedVariant_state[OF s2]
  define w3 where "w3 = snd (remove_path X (marker_path c ?r sz) w2)"
  have f3: "\<forall>k. k \<noteq> marker_path c ?r sz \<longrightarrow> mget (dp_files w3) k = mget (dp_files w) k"
    "mget (dp_files w3) (marker_path c ?r sz) \<noteq> None \<longrightarrow> mget (dp_files w) (marker_path c ?r sz) \<noteq> None"
    using f1 ver(1) by (simp_all add: w3_def remove_path_def op_bind_def op_step_def split: option.splits)
  have "Ensure X c m sz w = (if \<not> has then fetch_variant X c ?r sz v w1
      else case o2 of Inr u \<Rightarrow> (Inr ?cv, w2) | Inl e \<Rightarrow> fetch_variant X c ?r sz v w3)"
    unfolding Ensure_def Let_def v option.case h prod.case s2 w3_def by (cases o2) simp_all
  then have "fetch_variant X c ?r sz v w1 = (out, w') \<or> w' = w2 \<and> out = Inr ?cv \<and> o2 = Inr () \<or> fetch_variant X c ?r sz v w3 = (out, w')"
    unfolding run by (cases has; cases o2) simp_all
  then show thesis
  proof (elim disjE)
    assume "fetch_variant X c ?r sz v w1 = (out, w')"
    then show thesis by (rule download) (simp_all add: f1)
  next
    assume p: "w' = w2 \<and> out = Inr ?cv \<and> o2 = Inr ()"
    have "holds_variant X w2 ?cv v" using ver p by (simp add: holds_variant_def verified_def)
    then show thesis using present p f1 ver(1) by simp
  next
    assume "fetch_variant X c ?r sz v w3 = (out, w')"
    then show thesis using f3 by (rule download)
  qed
qed

lemma Ensure_holds:
  assumes run: "Ensure X c m sz w = (Inr cv, w')" and c: "ch_store c = artifact_depot X" "cache_ok c"
    and m: "Validate_manifest m = None" "plain (tm_ReleaseID m)" "plain sz" "manifest_Variant m sz = Some v"
  shows "cv = cachedVariant c (tm_ReleaseID m) sz \<and> holds_variant X w' cv v"
  using run m(4)
proof (cases rule: Ensure_cases)
  case (download u)
  then show ?thesis using fetch_variant_good[OF download(1) c m(2,3) Validate_names[OF m(1,4)]] good_holds[OF m(1,4)] by simp
qed simp

lemma Ensure_ready:
  assumes run: "Ensure X c m sz w = (out, w')" and store: "ch_store c = artifact_depot X" and c: "cache_ok c"
    and ready: "ready_ok X c M w" and M: "catalogue_ok M" "M (tm_ReleaseID m) = Some m"
  shows "ready_ok X c M w'"
proof (cases "manifest_Variant m sz")
  case None
  then show ?thesis using run ready by (auto simp: Ensure_def)
next
  case (Some v)
  show ?thesis
    using run Some
  proof (cases rule: Ensure_cases)
    case (download u)
    have "ready_ok X c M u" using download(2,3) by (intro ready_ok_marker[OF ready M Some c]) auto
    then show ?thesis by (rule fetch_variant_ready[OF download(1) store c _ M Some])
  next
    case present
    then show ?thesis using ready ready_ok_same_files by blast
  qed
qed

text \<open>Calls of the cache one after another, each as far as it gets.\<close>

definition ensure_all :: "template_env \<Rightarrow> DiskCache \<Rightarrow> (TemplateManifest \<times> string) list \<Rightarrow> depot \<Rightarrow> depot" where
  "ensure_all X c calls w = fold (\<lambda>(m, sz) w. snd (Ensure X c m sz w)) calls w"

lemma ensure_all_ready:
  assumes "ready_ok X c M w" "ch_store c = artifact_depot X" "cache_ok c" "catalogue_ok M" "list_all (\<lambda>(m, sz). M (tm_ReleaseID m) = Some m) calls"
  shows "ready_ok X c M (ensure_all X c calls w)"
  using assms
proof (induction calls arbitrary: w)
  case (Cons call calls)
  obtain m sz where call: "call = (m, sz)" by fastforce
  have "ready_ok X c M (snd (Ensure X c m sz w))"
    using Ensure_ready[OF prod.collapse[symmetric] Cons.prems(2,3,1,4)] Cons.prems(5) call by simp
  then show ?case using Cons.IH Cons.prems call by (simp add: ensure_all_def)
qed (simp add: ensure_all_def)

text \<open>
  C17: A template that is marked ready is complete: whatever downloads a worker starts, in whatever order, and however many of them are
  interrupted or fail at any step, every cached variant with a marker has all of its files with the checksums of its manifest; and
  a call that succeeds returns paths of such files.
\<close>

theorem ready_templates_are_verified:
  assumes c: "cache_ok c" "ch_store c = artifact_depot X" and M: "catalogue_ok M" "list_all (\<lambda>(m, sz). M (tm_ReleaseID m) = Some m) calls"
    and new: "\<forall>r sz. mget (dp_files w) (marker_path c r sz) = None"
    and call: "M (tm_ReleaseID m) = Some m" "manifest_Variant m sz = Some v" "Ensure X c m sz (ensure_all X c calls w) = (Inr cv, w')"
  shows "ready_ok X c M (ensure_all X c calls w) \<and> ready_ok X c M w' \<and> holds_variant X w' cv v"
proof -
  have "ready_ok X c M w" using new by (simp add: ready_ok_def)
  then have "ready_ok X c M (ensure_all X c calls w)" using c M by (intro ensure_all_ready)
  moreover from this have "ready_ok X c M w'" by (rule Ensure_ready[OF call(3) c(2,1) _ M(1) call(1)])
  moreover have "Validate_manifest m = None" using M(1) call(1) by (simp add: catalogue_ok_def)
  ultimately show ?thesis
    using Ensure_holds[OF call(3) c(2,1) _ _ _ call(2)] catalogue_variant[OF M(1) call(1,2)] by blast
qed

section \<open>From the builder to the worker\<close>

text \<open>A variant describes the files a builder had.\<close>

definition describes :: "template_env \<Rightarrow> (string, file_bytes) gomap \<Rightarrow> BuiltVariant \<Rightarrow> Variant \<Rightarrow> bool" where
  "describes X fs bv v \<longleftrightarrow>
     (\<exists>b. mget fs (bv_SnapshotPath bv) = Some b \<and> ta_SHA256 (vr_Snapshot v) = tx_sha X b)
     \<and> (\<exists>b. mget fs (bv_MemoryPath bv) = Some b \<and> ta_SHA256 (vr_Memory v) = tx_sha X b)
     \<and> (\<exists>b. mget fs (bv_WritableSeedPath bv) = Some b \<and> ta_SHA256 (vr_WritableSeed v) = tx_sha X b)"

lemma upload_variant_describes:
  assumes up: "upload_variant X (artifact_depot X) r bv w = (Inr v, w')"
  shows "dp_files w' = dp_files w" "describes X (dp_files w) bv v"
proof -
  let ?up = "\<lambda>name p. uploadArtifact X (artifact_depot X) r (bv_Size bv) name p"
  obtain o1 w1 where u1: "?up ArtifactSnapshot (bv_SnapshotPath bv) w = (o1, w1)" by fastforce
  obtain o2 w2 where u2: "?up ArtifactMemory (bv_MemoryPath bv) w1 = (o2, w2)" by fastforce
  obtain o3 w3 where u3: "?up ArtifactWritableSeed (bv_WritableSeedPath bv) w2 = (o3, w3)" by fastforce
  have abc: "o1 = Inr (vr_Snapshot v)" "o2 = Inr (vr_Memory v)" "o3 = Inr (vr_WritableSeed v)" "w' = w3"
    using up u1 u2 u3 unfolding upload_variant_def by (auto simp: op_bind_eq op_ret_eq)
  note eff = zipped.uploadArtifact_effect[OF u1] zipped.uploadArtifact_effect[OF u2] zipped.uploadArtifact_effect[OF u3]
  then have files: "dp_files w1 = dp_files w" "dp_files w2 = dp_files w" "dp_files w3 = dp_files w" by simp_all
  show "dp_files w' = dp_files w" using abc files by simp
  show "describes X (dp_files w) bv v" using eff abc(1,2,3) unfolding files describes_def by blast
qed

lemma upload_variants_describe:
  assumes "upload_variants X (artifact_depot X) r bvs vs w = (Inr vs', w')"
  shows "(\<forall>bv \<in> set bvs. \<exists>v. mget vs' (bv_Size bv) = Some v \<and> describes X (dp_files w) bv v) \<and> (\<forall>s v. mget vs s = Some v \<longrightarrow> mget vs' s = Some v)"
  using assms
proof (induction bvs arbitrary: vs w)
  case Nil
  then show ?case by (simp add: op_ret_eq)
next
  case (Cons bv bvs)
  then have new: "mget vs (bv_Size bv) = None" by (auto simp: op_fail_eq split: if_splits)
  then obtain v w1 where one: "upload_variant X (artifact_depot X) r bv w = (Inr v, w1)"
    and rest: "upload_variants X (artifact_depot X) r bvs (mput (bv_Size bv) v vs) w1 = (Inr vs', w')"
    using Cons.prems by (auto simp: op_bind_eq)
  have d: "dp_files w1 = dp_files w" "describes X (dp_files w) bv v" using upload_variant_describes[OF one] by simp_all
  note ih = Cons.IH[OF rest, unfolded d(1)]
  have "mget vs' (bv_Size bv) = Some v" using ih by simp
  moreover have "mget vs' s = Some u" if "mget vs s = Some u" for s u
    using ih that new by (cases "s = bv_Size bv") simp_all
  ultimately show ?case using ih d(2) by auto
qed

lemma PublishRelease_describes:
  assumes "PublishRelease X (artifact_depot X) (blob_store X) q w = (Inr m, w')" "bv \<in> set (ri_Variants q)"
  shows "\<exists>v. manifest_Variant m (bv_Size bv) = Some v \<and> describes X (dp_files w) bv v" "Validate_manifest m = None" "tm_ReleaseID m = ri_ReleaseID q"
proof -
  obtain vs t w1 where up: "upload_variants X (artifact_depot X) (ri_ReleaseID q) (ri_Variants q) [] w = (Inr vs, w1)"
    and m: "m = assemble q t vs" "Validate_manifest m = None"
    using assms(1) by (auto simp: PublishRelease_def Let_def op_bind_eq op_fail_eq op_ret_eq split: if_splits option.splits)
  show "\<exists>v. manifest_Variant m (bv_Size bv) = Some v \<and> describes X (dp_files w) bv v"
    using upload_variants_describe[OF up] assms(2) m(1) by (auto simp: manifest_Variant_def assemble_def)
  show "Validate_manifest m = None" "tm_ReleaseID m = ri_ReleaseID q" using m by (simp_all add: assemble_def)
qed

text \<open>
  C16: What a builder published is what a worker restores from: when a release was published from local files and, on any worker and
  whatever is in its cache or in the object store by then, the cache hands out a variant of that release, then the snapshot, memory and
  disk at the paths it returns have exactly the bytes of the files the builder had, provided no other bytes have their checksums.
\<close>

theorem published_is_restored:
  assumes pub: "PublishRelease X (artifact_depot X) (blob_store X) q w = (Inr m, w1)" and bv: "bv \<in> set (ri_Variants q)"
    and plain: "plain (ri_ReleaseID q)" "plain (bv_Size bv)" and c: "ch_store c = artifact_depot X" "cache_ok c"
    and call: "Ensure X c m (bv_Size bv) w2 = (Inr cv, w3)"
    and unique: "\<forall>p \<in> {bv_SnapshotPath bv, bv_MemoryPath bv, bv_WritableSeedPath bv}. \<forall>b b'. mget (dp_files w) p = Some b \<longrightarrow> tx_sha X b' = tx_sha X b \<longrightarrow> b' = b"
  shows "mget (dp_files w3) (cv_SnapshotPath cv) = mget (dp_files w) (bv_SnapshotPath bv)
         \<and> mget (dp_files w3) (cv_MemoryPath cv) = mget (dp_files w) (bv_MemoryPath bv)
         \<and> mget (dp_files w3) (cv_WritableSeedPath cv) = mget (dp_files w) (bv_WritableSeedPath bv)"
proof -
  obtain v where v: "manifest_Variant m (bv_Size bv) = Some v" "describes X (dp_files w) bv v"
    using PublishRelease_describes(1)[OF pub bv] by blast
  have held: "holds_variant X w3 cv v"
    by (rule Ensure_holds[OF call c PublishRelease_describes(2)[OF pub bv] _ plain(2) v(1), THEN conjunct2])
      (simp add: PublishRelease_describes(3)[OF pub bv] plain(1))
  have same: "mget (dp_files w3) p' = mget (dp_files w) p"
    if "verified X w3 p' sha" "\<exists>b. mget (dp_files w) p = Some b \<and> sha = tx_sha X b" "p \<in> {bv_SnapshotPath bv, bv_MemoryPath bv, bv_WritableSeedPath bv}" for p p' sha
    using that unique unfolding verified_def by metis
  show ?thesis using held v(2) unfolding holds_variant_def describes_def by (intro conjI same) auto
qed

section \<open>A worker that starts from a release\<close>

text \<open>A call of the cache for one size keeps the verified files of every size of the same release.\<close>

lemma fetch_variant_keeps:
  assumes run: "fetch_variant X c r sz v w = (out, w')" and store: "ch_store c = artifact_depot X" and c: "cache_ok c" and r: "plain r" "plain sz" "plain sz'"
    and names: "names_ok (artifacts_of v)" "names_ok (artifacts_of v')" and same: "sz' = sz \<Longrightarrow> v' = v"
    and old: "list_all (good X c r sz' w) (artifacts_of v')"
  shows "list_all (good X c r sz' w') (artifacts_of v')"
proof (rule fetch_variant_run[OF run])
  fix o1 w1 o2 w2 o3 w3
  assume s1: "op_step X (''mkdir '' @ cache_Path c r sz) w = (o1, w1)" and s2: "op_each (fetch_artifact X c r sz) (artifacts_of v) w1 = (o2, w2)"
    and s3: "WriteFile X (marker_path c r sz) [] w2 = (o3, w3)"
    and run': "w' = w1 \<and> (\<exists>e. out = Inl e) \<or> w' = w2 \<and> (\<exists>e. out = Inl e)
         \<or> o2 = Inr () \<and> w' = w3 \<and> (out = Inr (cachedVariant c r sz) \<or> (\<exists>e. out = Inl e))"
  have f1: "dp_files w1 = dp_files w" using op_step_state[OF s1] by simp
  then have g1: "list_all (good X c r sz' w1) (artifacts_of v')" using old good_same_files[OF f1] by simp
  have three: "ta_Name a \<in> {ArtifactSnapshot, ArtifactMemory, ArtifactWritableSeed}" if "a \<in> set (artifacts_of v')" for a
    using names(2) that by (auto simp: names_ok_def)
  have g2: "good X c r sz' w2 a" if a: "a \<in> set (artifacts_of v')" for a
  proof -
    have "sz' = sz \<longrightarrow> (\<forall>b \<in> set (artifacts_of v). ta_Name b = ta_Name a \<longrightarrow> b = a)"
      using same a names_ok_single[OF names(1)] by auto
    then show ?thesis using fetch_all_effect[OF s2 store c r(1,2) names(1)] r(1,3) three[OF a] g1 a unfolding list_all_iff by blast
  qed
  have g3: "good X c r sz' w3 a" if a: "a \<in> set (artifacts_of v')" for a
    using g2[OF a] good_other_file[OF WriteFile_other[OF s3] c r(1,2) r(1,3) three[OF a]] by simp
  show ?thesis using run' g1 g2 g3 by (auto simp: list_all_iff)
qed

lemma Ensure_keeps:
  assumes run: "Ensure X c m sz w = (out, w')" and store: "ch_store c = artifact_depot X" and c: "cache_ok c"
    and m: "Validate_manifest m = None" "plain (tm_ReleaseID m)" "plain sz" "plain sz'" "manifest_Variant m sz = Some v" "manifest_Variant m sz' = Some v'"
    and old: "holds_variant X w (cachedVariant c (tm_ReleaseID m) sz') v'"
  shows "holds_variant X w' (cachedVariant c (tm_ReleaseID m) sz') v'"
  using run m(5)
proof (cases rule: Ensure_cases)
  case (download u)
  let ?r = "tm_ReleaseID m"
  note names = Validate_names[OF m(1,5)] Validate_names[OF m(1,6)]
  have three: "ta_Name a \<in> {ArtifactSnapshot, ArtifactMemory, ArtifactWritableSeed}" if "a \<in> set (artifacts_of v')" for a
    using names(2) that by (auto simp: names_ok_def)
  have "list_all (good X c ?r sz' u) (artifacts_of v')"
    using old good_other_file[OF _ c m(2,3) m(2,4) three, of u w] download(2) unfolding good_holds[OF m(1,6)] list_all_iff by blast
  then show ?thesis
    unfolding good_holds[OF m(1,6)] by (rule fetch_variant_keeps[OF download(1) store c m(2,3,4) names, rotated]) (use m(5,6) in auto)
next
  case present
  then show ?thesis using old by (simp add: holds_variant_def verified_def)
qed

text \<open>A template under a key: a variant of the release with the resources of the key, whose files are verified.\<close>

definition served :: "template_env \<Rightarrow> prebuilt_config \<Rightarrow> DiskCache \<Rightarrow> TemplateManifest \<Rightarrow> depot \<Rightarrow> string \<Rightarrow> SnapshotTemplate \<Rightarrow> bool" where
  "served X cfg c m w k t \<longleftrightarrow> (\<exists>sz v. manifest_Variant m sz = Some v \<and> k = Key (vr_VCPUs v) (vr_MemoryMB v) (vr_DiskMB v div 1024)
     \<and> t = template_of cfg v (cachedVariant c (tm_ReleaseID m) sz) \<and> holds_variant X w (cachedVariant c (tm_ReleaseID m) sz) v)"

text \<open>Manifests name their releases and sizes by plain names, and no size twice.\<close>

definition manifest_plain :: "TemplateManifest \<Rightarrow> bool" where
  "manifest_plain m \<longleftrightarrow> plain (tm_ReleaseID m) \<and> list_all plain (mkeys (tm_Variants m)) \<and> mwf (tm_Variants m)"

lemma served_keep:
  assumes run: "Ensure X c m sz w = (out, w')" and store: "ch_store c = artifact_depot X" and c: "cache_ok c"
    and m: "Validate_manifest m = None" "manifest_plain m" "manifest_Variant m sz = Some v" and t: "served X cfg c m w k t"
  shows "served X cfg c m w' k t"
proof -
  have key: "plain s" if "manifest_Variant m s = Some u" for s u
    using m(2) that mget_None_iff[of "tm_Variants m" s] unfolding manifest_plain_def manifest_Variant_def list_all_iff by fastforce
  obtain sz' v' where v': "manifest_Variant m sz' = Some v'" "holds_variant X w (cachedVariant c (tm_ReleaseID m) sz') v'"
      "k = Key (vr_VCPUs v') (vr_MemoryMB v') (vr_DiskMB v' div 1024)" "t = template_of cfg v' (cachedVariant c (tm_ReleaseID m) sz')"
    using t unfolding served_def by blast
  have "plain (tm_ReleaseID m)" using m(2) by (simp add: manifest_plain_def)
  then show ?thesis using Ensure_keeps[OF run store c m(1) _ key[OF m(3)] key[OF v'(1)] m(3) v'(1,2)] v' unfolding served_def by blast
qed

lemma cache_variants_serve:
  assumes "cache_variants X cfg c m rest out w = (Inr out', w')" and "ch_store c = artifact_depot X" and "cache_ok c"
    and "Validate_manifest m = None" "manifest_plain m" "\<forall>(sz, v) \<in> set rest. manifest_Variant m sz = Some v" "\<forall>k t. mget out k = Some t \<longrightarrow> served X cfg c m w k t"
  shows "(\<forall>k t. mget out' k = Some t \<longrightarrow> served X cfg c m w' k t)
         \<and> (\<forall>(sz, v) \<in> set rest. mget out' (Key (vr_VCPUs v) (vr_MemoryMB v) (vr_DiskMB v div 1024)) \<noteq> None) \<and> (\<forall>k. mget out k \<noteq> None \<longrightarrow> mget out' k \<noteq> None)"
  using assms
proof (induction rest arbitrary: out w)
  case Nil
  then show ?case by (simp add: op_ret_eq)
next
  case (Cons p rest)
  obtain sz v where p: "p = (sz, v)" by fastforce
  let ?k = "Key (vr_VCPUs v) (vr_MemoryMB v) (vr_DiskMB v div 1024)"
  obtain cv w1 where run: "Ensure X c m sz w = (Inr cv, w1)"
    and rest: "cache_variants X cfg c m rest (mput ?k (template_of cfg v cv) out) w1 = (Inr out', w')"
    using Cons.prems(1) p by (auto simp: op_bind_eq op_wrap_eq)
  have v: "manifest_Variant m sz = Some v" using Cons.prems(6) p by simp
  have names: "plain (tm_ReleaseID m)" "plain sz"
    using Cons.prems(5) v mget_None_iff[of "tm_Variants m" sz] unfolding manifest_plain_def manifest_Variant_def list_all_iff by fastforce+
  note held = Ensure_holds[OF run Cons.prems(2-4) names v]
  have "served X cfg c m w1 k t" if "mget (mput ?k (template_of cfg v cv) out) k = Some t" for k t
  proof (cases "k = ?k")
    case True
    then show ?thesis using that held v unfolding served_def by auto
  next
    case False
    then show ?thesis using that Cons.prems(7) served_keep[OF run Cons.prems(2-5) v] by simp
  qed
  from Cons.IH[OF rest Cons.prems(2-5) _ allI[OF allI[OF impI[OF this]]]] Cons.prems(6) show ?case
    unfolding p by simp
qed

lemma Compatible_pins:
  "Compatible m h = None \<Longrightarrow> tm_RootfsDigest m = hf_RootfsDigest h \<and> tm_KernelDigest m = hf_KernelDigest h \<and> tm_Arch m = hf_Arch h
     \<and> tm_CPUCompatClass m = hf_CPUCompatClass h \<and> tm_FirecrackerVersion m = hf_FirecrackerVersion h"
  by (auto simp: Compatible_def Let_def mismatch_def split: if_splits)

lemma first_problem_None: "first_problem f xs = None \<longleftrightarrow> list_all (\<lambda>x. f x = None) xs"
  by (induction xs) (auto split: option.splits)

text \<open>What the facts of a host are: its architecture, CPU and version of Firecracker, and the checksums of its files.\<close>

definition facts_of_host :: "template_env \<Rightarrow> host_env \<Rightarrow> string \<Rightarrow> string \<Rightarrow> string \<Rightarrow> depot \<Rightarrow> HostFacts \<Rightarrow> bool" where
  "facts_of_host X H rootfsPath kernelPath binary w f \<longleftrightarrow> hf_Arch f = hx_GOARCH H \<and> hf_CPUCompatClass f = cpuCompatClass H (hx_GOARCH H)
     \<and> hf_FirecrackerVersion f = firecrackerVersion H binary \<and> verified X w rootfsPath (hf_RootfsDigest f) \<and> verified X w kernelPath (hf_KernelDigest f)"

lemma GatherHostFacts_facts:
  assumes "GatherHostFacts X H rp kp binary ap w = (Inr f, w')" "dp_files w = dp_files w0"
  shows "facts_of_host X H rp kp binary w0 f"
proof -
  obtain s1 u1 s2 u2 where h: "SHA256File X rp w = (Inr s1, u1)" "SHA256File X kp u1 = (Inr s2, u2)" "hf_RootfsDigest f = s1" "hf_KernelDigest f = s2"
      "hf_Arch f = hx_GOARCH H" "hf_CPUCompatClass f = cpuCompatClass H (hx_GOARCH H)" "hf_FirecrackerVersion f = firecrackerVersion H binary"
    using assms(1) unfolding GatherHostFacts_def by (auto simp: op_bind_eq op_wrap_eq op_ret_eq)
  then show ?thesis
    using SHA256File_state[OF h(1)] SHA256File_state[OF h(2)] assms(2) by (auto simp: facts_of_host_def verified_def)
qed

text \<open>The release that a worker is to load: the one the environment names, or else the one of the active pointer.\<close>

definition release_named :: "template_env \<Rightarrow> (string \<Rightarrow> string) \<Rightarrow> (string, file_bytes) gomap \<Rightarrow> string \<Rightarrow> bool" where
  "release_named X E objs r \<longleftrightarrow>
     (if env_or E ''DEFAULT_TEMPLATE_RELEASE'' [] \<noteq> [] then r = env_or E ''DEFAULT_TEMPLATE_RELEASE'' []
      else \<exists>d p. mget objs ActiveKey = Some d \<and> tx_parse_pointer X d = Inr p \<and> r = ap_ReleaseID p)"

lemma repo_Active_found:
  assumes "repo_Active X (blob_store X) w = (Inr (Some p), w')"
  shows "\<exists>d. mget (dp_objects w) ActiveKey = Some d \<and> tx_parse_pointer X d = Inr p"
proof -
  obtain d where d: "as_Get (blob_store X) ActiveKey w = (Inr d, w')" "tx_parse_pointer X d = Inr p"
    using assms by (auto simp: repo_Active_def split: prod.splits sum.splits store_error.splits if_splits)
  then show ?thesis using blob.got[OF d(1)] by auto
qed

lemma repo_Active_state: "repo_Active X (blob_store X) w = (out, w') \<Longrightarrow> dp_files w' = dp_files w \<and> dp_objects w' = dp_objects w"
  using blob.get[of X ActiveKey w] by (auto simp: repo_Active_def split: prod.splits sum.splits store_error.splits if_splits)

lemma release_to_load_named:
  assumes "release_to_load X E (blob_store X) w = (Inr r, w')"
  shows "release_named X E (dp_objects w) r" "dp_files w' = dp_files w" "dp_objects w' = dp_objects w"
proof -
  let ?r = "env_or E ''DEFAULT_TEMPLATE_RELEASE'' []"
  consider (env) "?r \<noteq> []" "r = ?r" "w' = w"
    | (active) p where "?r = []" "repo_Active X (blob_store X) w = (Inr (Some p), w')" "r = ap_ReleaseID p"
    using assms by (cases "?r = []") (auto simp: release_to_load_def Let_def op_bind_eq op_wrap_eq op_ret_eq op_fail_eq split: option.splits)
  note run = this
  show "release_named X E (dp_objects w) r" by (rule run) (use repo_Active_found in \<open>force simp: release_named_def\<close>)+
  show "dp_files w' = dp_files w" "dp_objects w' = dp_objects w" by (rule run; use repo_Active_state in force)+
qed

lemma repo_Get_found:
  assumes "repo_Get X (blob_store X) r w = (Inr m, w')"
  shows "dp_files w' = dp_files w" "Validate_manifest m = None"
    and "\<exists>data. mget (dp_objects w) (ManifestKey r) = Some data \<and> tx_parse_manifest X data = Inr m"
proof -
  obtain data where d: "as_Get (blob_store X) (ManifestKey r) w = (Inr data, w')" "UnmarshalManifest X data = Inr m"
    using assms by (auto simp: repo_Get_def split: if_splits prod.splits sum.splits)
  show "dp_files w' = dp_files w" using blob.get[OF d(1)] by simp
  show "Validate_manifest m = None" "\<exists>data. mget (dp_objects w) (ManifestKey r) = Some data \<and> tx_parse_manifest X data = Inr m"
    using blob.got[OF d(1)] d(2) by (auto simp: UnmarshalManifest_def split: sum.splits option.splits)
qed

text \<open>The cache a worker starts with, and what a start from a release went through when it succeeds.\<close>

definition worker_cache :: "template_env \<Rightarrow> (string \<Rightarrow> string) \<Rightarrow> prebuilt_config \<Rightarrow> DiskCache" where
  "worker_cache X E cfg = \<lparr>ch_root = template_cache_dir E cfg, ch_store = artifact_depot X, ch_fcUID = pb_FCRunUID cfg, ch_fcGID = pb_FCRunGID cfg\<rparr>"

lemma loadPrebuiltTemplates_run:
  assumes "loadPrebuiltTemplates X H E cfg w = (Inr out, w')"
  obtains r data m f w4 where "cache_variants X cfg (worker_cache X E cfg) m (tm_Variants m) [] w4 = (Inr out, w')" "Validate_manifest m = None"
    "release_named X E (dp_objects w) r" "mget (dp_objects w) (ManifestKey r) = Some data" "tx_parse_manifest X data = Inr m"
    "validateStandardRelease m = None" "Compatible m f = None" "facts_of_host X H (pb_RootfsPath cfg) (pb_KernelPath cfg) (pb_FirecrackerBinary cfg) w f"
proof -
  obtain R w0 where open_store: "blobStoreFromEnv X E w = (Inr R, w0)"
    using assms unfolding loadPrebuiltTemplates_def by (auto simp: op_bind_eq)
  have R: "R = blob_store X" "dp_files w0 = dp_files w" "dp_objects w0 = dp_objects w"
    using open_store by (auto simp: blobStoreFromEnv_def Let_def op_fail_eq split: if_splits dest!: NewAzureBlobStore_eq)
  obtain c w1 r w2 m w3 h w4 where s: "NewDiskCache X (template_cache_dir E cfg) (artifact_depot X) (pb_FCRunUID cfg) (pb_FCRunGID cfg) w0 = (Inr c, w1)"
      "release_to_load X E (blob_store X) w1 = (Inr r, w2)" "repo_Get X (blob_store X) r w2 = (Inr m, w3)"
      "GatherHostFacts X H (pb_RootfsPath cfg) (pb_KernelPath cfg) (pb_FirecrackerBinary cfg) (pb_AssetsPath cfg) w3 = (Inr h, w4)"
    and ok: "Compatible m h = None" "validateStandardRelease m = None" and load: "cache_variants X cfg c m (tm_Variants m) [] w4 = (Inr out, w')"
    using assms open_store unfolding loadPrebuiltTemplates_def R(1)
    by (auto simp: op_bind_eq op_wrap_eq op_fail_eq split: option.splits)
  have c: "c = worker_cache X E cfg" "dp_files w1 = dp_files w" "dp_objects w1 = dp_objects w"
    using s(1) R by (auto simp: NewDiskCache_def worker_cache_def op_bind_eq op_wrap_eq op_ret_eq dest!: op_step_state)
  note r = release_to_load_named[OF s(2)] and m = repo_Get_found[OF s(3)]
  have "facts_of_host X H (pb_RootfsPath cfg) (pb_KernelPath cfg) (pb_FirecrackerBinary cfg) w h"
    by (rule GatherHostFacts_facts[OF s(4)]) (use m(1) r(2) c(2) in simp)
  then show thesis using that load m r ok c by metis
qed

text \<open>
  C20: A worker that starts from a prebuilt release can serve every size: when loading succeeds, the manifest it used is the one in the object store of
  the release that the environment or else the active pointer names; the architecture, the CPU class, the version of Firecracker and the checksums of the
  root filesystem and the kernel in that manifest are the host's; and each size of the menu has a template of a variant of that manifest with the
  resources of the size, whose snapshot, memory and disk are in the cache with the checksums of the manifest at the end of the start-up, whatever
  the cache held before. Two conditions: the directory of the cache is an absolute path, and the manifests in the store name releases and sizes by
  plain names.
\<close>

theorem prebuilt_serves_every_size:
  assumes load: "loadPrebuiltTemplates X H E cfg w = (Inr out, w')" and dir: "list_all plain rs" "rs \<noteq> []" "template_cache_dir E cfg = slash # join_slash rs"
    and names: "\<forall>r data m. mget (dp_objects w) (ManifestKey r) = Some data \<longrightarrow> tx_parse_manifest X data = Inr m \<longrightarrow> manifest_plain m"
  shows "\<exists>r data m f. release_named X E (dp_objects w) r \<and> mget (dp_objects w) (ManifestKey r) = Some data \<and> tx_parse_manifest X data = Inr m
           \<and> facts_of_host X H (pb_RootfsPath cfg) (pb_KernelPath cfg) (pb_FirecrackerBinary cfg) w f
           \<and> tm_Arch m = hf_Arch f \<and> tm_CPUCompatClass m = hf_CPUCompatClass f \<and> tm_FirecrackerVersion m = hf_FirecrackerVersion f
           \<and> tm_RootfsDigest m = hf_RootfsDigest f \<and> tm_KernelDigest m = hf_KernelDigest f
           \<and> (\<forall>s \<in> set Sizes. \<exists>t. mget out (size_Key s) = Some t \<and> served X cfg (worker_cache X E cfg) m w' (size_Key s) t)"
proof (rule loadPrebuiltTemplates_run[OF load])
  fix r data m f w4
  let ?c = "worker_cache X E cfg"
  assume run: "cache_variants X cfg ?c m (tm_Variants m) [] w4 = (Inr out, w')" and m: "Validate_manifest m = None"
    and rel: "release_named X E (dp_objects w) r" "mget (dp_objects w) (ManifestKey r) = Some data" "tx_parse_manifest X data = Inr m"
    and std: "validateStandardRelease m = None" and compat: "Compatible m f = None"
    and host: "facts_of_host X H (pb_RootfsPath cfg) (pb_KernelPath cfg) (pb_FirecrackerBinary cfg) w f"
  have c: "ch_store ?c = artifact_depot X" "cache_ok ?c" using dir by (auto simp: cache_ok_def worker_cache_def)
  have n: "manifest_plain m" using names rel by blast
  have each: "\<forall>(sz, v) \<in> set (tm_Variants m). manifest_Variant m sz = Some v"
    using n by (auto simp: manifest_plain_def manifest_Variant_def mget_eq_Some_iff)
  note res = cache_variants_serve[OF run c m n each]
  have "\<exists>t. mget out (size_Key s) = Some t \<and> served X cfg ?c m w' (size_Key s) t" if s: "s \<in> set Sizes" for s
  proof -
    have "size_problem m s = None" using std s by (simp add: validateStandardRelease_def first_problem_None list_all_iff)
    then obtain v where v: "manifest_Variant m (sz_name s) = Some v" "vr_VCPUs v = sz_vcpus s" "vr_MemoryMB v = sz_memory_mb s" "vr_DiskMB v = sz_disk_gb s * 1024"
      by (auto simp: size_problem_def split: option.splits if_splits)
    then have key: "Key (vr_VCPUs v) (vr_MemoryMB v) (vr_DiskMB v div 1024) = size_Key s" by (simp add: size_Key_def)
    have "(sz_name s, v) \<in> set (tm_Variants m)" using v(1) unfolding manifest_Variant_def by (rule mget_in_set)
    then obtain t where t: "mget out (size_Key s) = Some t" using res key by fastforce
    then show ?thesis using res by simp
  qed
  then show ?thesis using rel host Compatible_pins[OF compat] by blast
qed

section \<open>A sample worker\<close>

lemma octets_of_text [simp]: "octets_of (text_of b) = b"
proof -
  have "word_of_nat (of_char (char_of (unat x))) = x" for x :: "8 word"
    using unsigned_less[of x, where 'a = nat] by simp
  then show ?thesis by (simp add: octets_of_def text_of_def comp_def)
qed

lemma text_of_inject: "text_of a = text_of b \<longleftrightarrow> a = b"
  by (metis octets_of_text)

declare copySparse_id [code]

definition sample_cache :: DiskCache where
  "sample_cache = \<lparr>ch_root = ''/c'', ch_store = artifact_depot sample_tx, ch_fcUID = 0, ch_fcGID = 0\<rparr>"

lemma sample_cache_ok: "cache_ok sample_cache" "ch_store sample_cache = artifact_depot sample_tx"
  unfolding cache_ok_def sample_cache_def by (rule exI[of _ "[''c'']"]) (simp_all add: plain_def slash_def)

text \<open>What the object store has after the sample builder, and a worker whose files are only the host's root filesystem and kernel.\<close>

definition sample_shelf :: "(string, file_bytes) gomap \<Rightarrow> depot" where
  "sample_shelf fs = \<lparr>dp_objects = concat (map (\<lambda>sz. [(''releases/r1/'' @ sz @ ''/snap'', octets_of ''a''), (''releases/r1/'' @ sz @ ''/mem'', octets_of ''b''),
       (''releases/r1/'' @ sz @ ''/writable-seed.ext4'', octets_of ''c'')]) [''nano'', ''small'', ''medium''])
       @ [(''releases/r1/manifest.json'', octets_of ''r1''), (''active-release.json'', octets_of ''r1'')], dp_files = fs, dp_tick = 0\<rparr>"

definition sample_cold_worker :: depot where
  "sample_cold_worker = sample_shelf [(''/r'', octets_of ''d''), (''/k'', octets_of ''k'')]"

definition sample_held :: CachedVariant where
  "sample_held = \<lparr>cv_ReleaseID = ''r1'', cv_Size = ''nano'', cv_SnapshotPath = ''/c/r1/nano/snap'', cv_MemoryPath = ''/c/r1/nano/mem'',
     cv_WritableSeedPath = ''/c/r1/nano/writable-seed.ext4''\<rparr>"

definition sample_after :: depot where
  "sample_after = snd (Ensure sample_tx sample_cache sample_manifest ''nano'' (ensure_all sample_tx sample_cache [(sample_manifest, ''small'')] (sample_shelf [])))"

lemma sample_run:
  "Ensure sample_tx sample_cache sample_manifest ''nano'' (ensure_all sample_tx sample_cache [(sample_manifest, ''small'')] (sample_shelf []))
     = (Inr sample_held, sample_after)"
proof -
  have "fst (Ensure sample_tx sample_cache sample_manifest ''nano'' (ensure_all sample_tx sample_cache [(sample_manifest, ''small'')] (sample_shelf []))) = Inr sample_held"
    by code_simp
  then show ?thesis unfolding sample_after_def by (metis prod.collapse)
qed

lemma sample_manifest_ok: "Validate_manifest sample_manifest = None" "manifest_plain sample_manifest"
  by code_simp+

lemma sample_nano: "manifest_Variant sample_manifest ''nano'' = Some (snd (sample_variant (hd Sizes)))"
  by code_simp

theorem ready_templates_are_verified_witness: "holds_variant sample_tx sample_after sample_held (snd (sample_variant (hd Sizes)))"
proof -
  let ?M = "[''r1'' \<mapsto> sample_manifest]"
  have id: "tm_ReleaseID sample_manifest = ''r1''" by (simp add: sample_manifest_def)
  have "catalogue_ok ?M" using sample_manifest_ok id unfolding catalogue_ok_def manifest_plain_def by (simp split: if_splits)
  then show ?thesis
    using ready_templates_are_verified[OF sample_cache_ok _ _ _ _ sample_nano sample_run, of ?M] id by (simp add: sample_shelf_def)
qed

theorem published_is_restored_witness:
  "mget (dp_files sample_after) ''/c/r1/nano/snap'' = Some (octets_of ''a'')"
proof -
  let ?w = "empty_depot\<lparr>dp_files := sample_build_files\<rparr>"
  let ?p = "PublishRelease sample_tx (artifact_depot sample_tx) (blob_store sample_tx) sample_inputs ?w"
  have "fst ?p = Inr sample_manifest" by code_simp
  then have pub: "?p = (Inr sample_manifest, snd ?p)" by (metis prod.collapse)
  have bv: "sample_built (hd Sizes) \<in> set (ri_Variants sample_inputs)" "bv_Size (sample_built (hd Sizes)) = ''nano''"
    by (simp_all add: sample_inputs_def Sizes_def sample_built_def)
  have plain: "plain (ri_ReleaseID sample_inputs)" "plain (bv_Size (sample_built (hd Sizes)))"
    by (simp_all add: sample_inputs_def sample_built_def Sizes_def plain_def slash_def)
  have "tx_sha sample_tx b = tx_sha sample_tx b' \<longleftrightarrow> b = b'" for b b' by (simp add: sample_tx_def text_of_inject)
  then have "mget (dp_files sample_after) (cv_SnapshotPath sample_held) = mget (dp_files ?w) (bv_SnapshotPath (sample_built (hd Sizes)))"
    using published_is_restored[OF pub bv(1) plain sample_cache_ok(2,1) sample_run[folded bv(2)]] by blast
  then show ?thesis by (simp add: sample_held_def sample_built_def sample_build_files_def)
qed

definition sample_host_env :: host_env where
  "sample_host_env = \<lparr>hx_GOARCH = ''amd64'', hx_version = (\<lambda>b. Some ''f''), hx_cpuinfo = None, hx_Abs = Inr\<rparr>"

definition sample_prebuilt :: prebuilt_config where
  "sample_prebuilt = \<lparr>pb_RootDirectory = ''/'', pb_RootfsPath = ''/r'', pb_KernelPath = ''/k'', pb_FirecrackerBinary = ''/f'',
     pb_AssetsPath = ''/a'', pb_FCRunUID = 0, pb_FCRunGID = 0\<rparr>"

definition sample_blob_env :: "string \<Rightarrow> string" where
  "sample_blob_env key = (if key = ''TEMPLATE_CACHE_DIR'' then ''/c'' else if key \<in> set [''BLOB_STORAGE_ACCOUNT'', ''BLOB_SECRET_KEY'', ''BLOB_CONTAINER_NAME''] then ''x'' else [])"

definition sample_load :: "(go_error + (string, SnapshotTemplate) gomap) \<times> depot" where
  "sample_load = loadPrebuiltTemplates sample_tx sample_host_env sample_blob_env sample_prebuilt sample_cold_worker"

definition sample_templates :: "(string, SnapshotTemplate) gomap" where
  "sample_templates = (case fst sample_load of Inr out \<Rightarrow> out | Inl e \<Rightarrow> [])"

lemma sample_loads: "fst sample_load = Inr sample_templates"
proof -
  have "case fst sample_load of Inr out \<Rightarrow> True | Inl e \<Rightarrow> False" by code_simp
  then show ?thesis by (simp add: sample_templates_def split: sum.splits)
qed

theorem prebuilt_serves_every_size_witness:
  "\<exists>r m t. release_named sample_tx sample_blob_env (dp_objects sample_cold_worker) r \<and> mget sample_templates (size_Key (hd Sizes)) = Some t
     \<and> served sample_tx sample_prebuilt (worker_cache sample_tx sample_blob_env sample_prebuilt) m (snd sample_load) (size_Key (hd Sizes)) t"
proof -
  have load: "loadPrebuiltTemplates sample_tx sample_host_env sample_blob_env sample_prebuilt sample_cold_worker = (Inr sample_templates, snd sample_load)"
    using sample_loads unfolding sample_load_def by (metis prod.collapse)
  have names: "\<forall>r data m. mget (dp_objects sample_cold_worker) (ManifestKey r) = Some data \<longrightarrow> tx_parse_manifest sample_tx data = Inr m \<longrightarrow> manifest_plain m"
    using sample_manifest_ok(2) by (simp add: sample_tx_def)
  have "hd Sizes \<in> set Sizes" by (simp add: Sizes_def)
  moreover have "list_all plain [''c'']" "template_cache_dir sample_blob_env sample_prebuilt = slash # join_slash [''c'']"
    by (simp_all add: template_cache_dir_def env_or_def sample_blob_env_def trim_space_def is_space_def plain_def slash_def)
  ultimately show ?thesis using prebuilt_serves_every_size[OF load _ _ _ names, where rs = "[''c'']"] by blast
qed

end
