(* ===== verification/Template_Builder.thy ===== *)
theory Template_Builder
  imports Template_Cache
begin

text \<open>
  The template builder (\<open>cmd/template-builder\<close>): what it builds, and its main program, which builds the standard sizes, publishes and
  activates them, and publishes the micro release. Building and validating a VM (\<open>CreateTemplateWithProvision\<close> and
  \<open>validateSnapshot\<close>, which drive the VM manager and the guest) is an argument. The theorem says that a worker on such a host accepts what a
  finished builder left as the active release.
\<close>

section \<open>What is built\<close>












section \<open>The main program\<close>








section \<open>What it publishes\<close>


















section \<open>A sample run\<close>







end
