(* ===== verification/Host_Setup.thy ===== *)
theory Host_Setup
  imports Template_Cache Admission Writable_Disk
begin

text \<open>
  Setting up a worker host: its configuration (\<open>workerplane/config\<close>), its capacity (\<open>workerplane/host/capacity.go\<close>), the assets a
  bundle brings (\<open>bootstrap/assets.go\<close>), the provisioning of users and network slots (\<open>bootstrap/provision.go\<close>) and the order of the
  steps (\<open>workerplane/host/host.go\<close>). System calls and commands are arguments. The theorems say that assets that pass are the ones of their
  manifest, and that a host has a network slot for every sandbox that admission lets run.
\<close>

section \<open>The system\<close>

record file_info =
  fi_IsDir :: bool
  fi_Mode :: nat

record host_system =
  hs_env :: "string \<Rightarrow> string"
  hs_cwd :: "go_error + string"
  hs_home :: "go_error + string"
  hs_GOOS :: string
  hs_NumCPU :: int
  hs_ParseFloat :: "string \<Rightarrow> rat option"
  hs_mkdir :: "string \<Rightarrow> go_error option"
  hs_stat :: "(string, file_bytes) gomap \<Rightarrow> string \<Rightarrow> go_error + file_info"
  hs_untar :: "nat \<Rightarrow> file_bytes \<Rightarrow> go_error option \<times> (string, file_bytes) gomap"
  hs_Geteuid :: int
  hs_user :: "bool \<Rightarrow> string \<Rightarrow> go_error + string \<times> string"
  hs_nft :: bool
  hs_netns :: "go_error + string"
  hs_script :: "(string \<times> string) list \<Rightarrow> go_error option"

definition filepath_Abs :: "host_system \<Rightarrow> string \<Rightarrow> go_error + string" where
  "filepath_Abs S p =
     (if has_prefix p ''/'' then Inr (path_clean p)
      else case hs_cwd S of Inl e \<Rightarrow> Inl e | Inr wd \<Rightarrow> Inr (path_Join [wd, p]))"

section \<open>Capacity\<close>

definition envInt :: "host_system \<Rightarrow> string \<Rightarrow> int \<Rightarrow> int" where
  "envInt S key def =
     (let v = trim_space (hs_env S key) in
      if v \<noteq> [] then (case Atoi v of (n, err) \<Rightarrow> if err = None \<and> n > 0 then n else def) else def)"

definition envFloat :: "host_system \<Rightarrow> string \<Rightarrow> rat \<Rightarrow> rat" where
  "envFloat S key def =
     (let v = trim_space (hs_env S key) in
      if v \<noteq> [] then (case hs_ParseFloat S v of Some parsed \<Rightarrow> if parsed \<ge> 1 then parsed else def | None \<Rightarrow> def) else def)"

definition defaultMaxSessions :: int where "defaultMaxSessions = 200"

record CapacityConfig =
  cc_PhysicalVCPUs :: int
  cc_CPUOvercommitRatio :: rat
  cc_MaxSessions :: int
  cc_NetworkSlots :: int
  cc_NetworkSlotsExplicit :: bool

definition explicit_slots :: "host_system \<Rightarrow> int option" where
  "explicit_slots S =
     (let raw = trim_space (hs_env S ''SLOT_COUNT'') in
      if raw \<noteq> [] then (case Atoi raw of (v, err) \<Rightarrow> if err = None \<and> v > 0 then Some v else None) else None)"

text \<open>The ratio is an exact rational number, as in the admission component.\<close>

definition resolveCapacity :: "host_system \<Rightarrow> CapacityConfig" where
  "resolveCapacity S =
     (let physicalVCPUs = envInt S ''WORKER_ALLOCATABLE_VCPUS'' (hs_NumCPU S);
          cpuRatio = envFloat S ''WORKER_CPU_OVERCOMMIT_RATIO'' 4;
          maxSessions = envInt S ''WORKER_MAX_SESSIONS'' defaultMaxSessions;
          n0 = \<lfloor>of_int physicalVCPUs * cpuRatio\<rfloor>;
          n1 = (if n0 > maxSessions then maxSessions else n0);
          n2 = (if n1 < 1 then 1 else n1)
      in \<lparr>cc_PhysicalVCPUs = physicalVCPUs, cc_CPUOvercommitRatio = cpuRatio, cc_MaxSessions = maxSessions,
          cc_NetworkSlots = (case explicit_slots S of Some v \<Rightarrow> v | None \<Rightarrow> n2), cc_NetworkSlotsExplicit = (explicit_slots S \<noteq> None)\<rparr>)"

section \<open>Assets\<close>

definition BundleName :: string where "BundleName = ''renderops-assets.tar.gz''"
definition installedMarker :: string where "installedMarker = ''.installed-bundle''"

definition sha256File :: "template_env \<Rightarrow> string \<Rightarrow> string depot_op" where
  "sha256File X p = op_bind (read_path X ''open '' p) (\<lambda>b. op_bind (op_step X (''read '' @ p)) (\<lambda>u. op_ret (tx_sha X b)))"

definition asset_exists :: "template_env \<Rightarrow> string \<Rightarrow> bool depot_op" where
  "asset_exists X p w = (case read_path X ''stat '' p w of (Inl e, w1) \<Rightarrow> (Inr False, w1) | (Inr b, w1) \<Rightarrow> (Inr True, w1))"

text \<open>\<open>tar\<close> writes its entries below the directory; when it fails, those it had reached.\<close>

definition extractBundle :: "template_env \<Rightarrow> host_system \<Rightarrow> string \<Rightarrow> string \<Rightarrow> unit depot_op" where
  "extractBundle X S bundle assetsDir =
     op_bind (read_path X ''tar '' bundle) (\<lambda>b w.
       case hs_untar S (dp_tick w) b of (err, entries) \<Rightarrow>
         let w1 = w\<lparr>dp_files := fold (\<lambda>(rel, c). mput (path_Join [assetsDir, rel]) c) entries (dp_files w)\<rparr> in
         (case err of Some e \<Rightarrow> (Inl e, w1) | None \<Rightarrow> (Inr (), w1)))"

fun str_Fields :: "string \<Rightarrow> string list" where
  "str_Fields [] = []"
| "str_Fields (c # s) =
     (if is_space c then str_Fields s
      else case s of
             [] \<Rightarrow> [[c]]
           | d # t \<Rightarrow> if is_space d then [c] # str_Fields s else (case str_Fields s of [] \<Rightarrow> [[c]] | f # fs \<Rightarrow> (c # f) # fs))"

definition manifest_line :: "template_env \<Rightarrow> string \<Rightarrow> string \<Rightarrow> unit depot_op" where
  "manifest_line X assetsDir raw =
     (let line = trim_space raw; fields = str_Fields line in
      if line = [] \<or> has_prefix line ''#'' then op_ret ()
      else if length fields < 2 then op_fail (ErrNew (''malformed manifest line: '' @ quoted line))
      else
        let want = hd fields; rel = List.last fields in
        op_bind (op_wrap rel (sha256File X (path_Join [assetsDir, rel]))) (\<lambda>got.
          if got \<noteq> want then op_fail (ErrNew (rel @ '': checksum mismatch (want '' @ want @ '', got '' @ got @ '')'')) else op_ret ()))"

text \<open>A line of 64 KiB or more does not fit the scanner's buffer.\<close>

fun manifest_lines :: "template_env \<Rightarrow> string \<Rightarrow> string list \<Rightarrow> unit depot_op" where
  "manifest_lines X assetsDir [] = op_ret ()"
| "manifest_lines X assetsDir (raw # ls) =
     (if int (length raw) \<ge> 65536 then op_fail (ErrNew ''bufio.Scanner: token too long'')
      else op_bind (manifest_line X assetsDir raw) (\<lambda>u. manifest_lines X assetsDir ls))"

definition verifyManifest :: "template_env \<Rightarrow> string \<Rightarrow> string \<Rightarrow> unit depot_op" where
  "verifyManifest X assetsDir manifest =
     op_bind (read_path X ''open '' manifest) (\<lambda>b. manifest_lines X assetsDir (split_on (CHR 0x0A) (text_of b)))"

definition read_or_empty :: "template_env \<Rightarrow> string \<Rightarrow> string depot_op" where
  "read_or_empty X p w = (case read_path X ''open '' p w of (Inl e, w1) \<Rightarrow> (Inr [], w1) | (Inr b, w1) \<Rightarrow> (Inr (text_of b), w1))"

definition install_bundle :: "template_env \<Rightarrow> host_system \<Rightarrow> string \<Rightarrow> string \<Rightarrow> unit depot_op" where
  "install_bundle X S bundle assetsDir =
     (let marker = path_Join [assetsDir, installedMarker] in
      op_bind (op_wrap ''bootstrap: hash bundle'' (sha256File X bundle)) (\<lambda>sum.
      op_bind (read_or_empty X marker) (\<lambda>prev.
      if trim_space prev \<noteq> sum
      then op_bind (op_wrap ''bootstrap: extract bundle'' (extractBundle X S bundle assetsDir)) (\<lambda>u.
           op_wrap ''bootstrap: write install marker'' (WriteFile X marker (octets_of sum)))
      else op_ret ())))"

definition EnsureAssets :: "template_env \<Rightarrow> host_system \<Rightarrow> string \<Rightarrow> unit depot_op" where
  "EnsureAssets X S dir =
     (let assetsDir = path_Join [dir, ''assets'']; bundle = path_Join [dir, BundleName];
          manifest = path_Join [assetsDir, ''manifest.sha256'']; fc = path_Join [assetsDir, ''firecracker''] in
      op_bind (op_wrap ''bootstrap: create assets dir'' (op_step X (''mkdir '' @ assetsDir))) (\<lambda>u.
      op_bind (asset_exists X bundle) (\<lambda>pushed.
      op_bind (if pushed then install_bundle X S bundle assetsDir else op_ret ()) (\<lambda>u.
      op_bind (asset_exists X manifest) (\<lambda>present.
      if \<not> present then op_fail (ErrNew (''bootstrap: no assets and no bundle at '' @ bundle @ '' - the control plane must push one''))
      else
        op_bind (op_wrap ''bootstrap: asset verification failed'' (verifyManifest X assetsDir manifest)) (\<lambda>u.
        op_bind (asset_exists X fc) (\<lambda>bin.
        if bin then op_wrap ''bootstrap: chmod firecracker'' (op_step X (''chmod '' @ fc)) else op_ret ())))))))"

definition Layout :: "string list" where
  "Layout = [''bin'', path_Join [''assets'', ''kernel''], path_Join [''assets'', ''rootfs''], ''sockets'', ''snapshots'', ''logs'']"

definition make_dir :: "host_system \<Rightarrow> string \<Rightarrow> string \<Rightarrow> go_error option" where
  "make_dir S msg dir = map_option (Wrapf msg) (hs_mkdir S dir)"

definition EnsureLayout :: "host_system \<Rightarrow> string \<Rightarrow> go_error option" where
  "EnsureLayout S dir =
     (if dir = [] then Some (ErrNew ''bootstrap: empty root directory'')
      else first_problem (\<lambda>sub. let d = path_Join [dir, sub] in make_dir S (''bootstrap: create '' @ d) d) Layout)"

section \<open>Provisioning\<close>

definition fcUser :: string where "fcUser = ''fcvm''"

record ProvisionParams =
  pp_Root :: string
  pp_SlotCount :: int
  pp_SocketDir :: string
  pp_SnapshotDir :: string
  pp_AssetsDir :: string

text \<open>The user is looked up before and after the script has run.\<close>

definition fcvmIDs :: "host_system \<Rightarrow> bool \<Rightarrow> go_error + int \<times> int" where
  "fcvmIDs S after =
     (case hs_user S after fcUser of
        Inl e \<Rightarrow> Inl e
      | Inr (u, g) \<Rightarrow>
          (case Atoi u of (uid, Some e) \<Rightarrow> Inl e
           | (uid, None) \<Rightarrow> (case Atoi g of (gid, Some e) \<Rightarrow> Inl e | (gid, None) \<Rightarrow> Inr (uid, gid))))"

definition alreadyProvisioned :: "host_system \<Rightarrow> int \<Rightarrow> (int \<times> int) option" where
  "alreadyProvisioned S slotCount =
     (case fcvmIDs S False of
        Inl e \<Rightarrow> None
      | Inr ids \<Rightarrow>
          if \<not> hs_nft S then None
          else (case hs_netns S of
                  Inl e \<Rightarrow> None
                | Inr out \<Rightarrow>
                    if int (length (filter (\<lambda>l. has_prefix (trim_space l) ''fc-ns-'') (split_on (CHR 0x0A) out))) \<noteq> slotCount then None
                    else Some ids))"

definition Provision :: "host_system \<Rightarrow> ProvisionParams \<Rightarrow> go_error + int \<times> int" where
  "Provision S p =
     (if hs_Geteuid S \<noteq> 0 then Inl (ErrNew ''bootstrap: provisioning requires root (start the agent via sudo)'')
      else case alreadyProvisioned S (pp_SlotCount p) of
             Some ids \<Rightarrow> Inr ids
           | None \<Rightarrow>
               (case hs_script S [(''ROOT_DIRECTORY'', pp_Root p), (''SLOT_COUNT'', itoa (pp_SlotCount p)), (''FC_USER'', fcUser),
                                  (''ASSETS_DIR'', pp_AssetsDir p), (''SOCKET_DIR'', pp_SocketDir p), (''SNAPSHOT_DIR'', pp_SnapshotDir p)] of
                  Some e \<Rightarrow> Inl (Wrapf ''bootstrap: provision.sh failed'' e)
                | None \<Rightarrow> fcvmIDs S True))"

section \<open>Configuration\<close>

record WorkerConfig =
  wc_RootDirectory :: string
  wc_AssetsPath :: string
  wc_KernelPath :: string
  wc_RootfsPath :: string
  wc_InitrdPath :: string
  wc_FirecrackerBinary :: string
  wc_SocketDir :: string
  wc_ActiveDiskBackend :: string
  wc_ActiveDiskDir :: string
  wc_ActiveDiskCloneMode :: CloneMode
  wc_SnapshotDir :: string
  wc_HostValidationMode :: string
  wc_FCRunUID :: int
  wc_FCRunGID :: int
  wc_Warnings :: "string list"

definition defaultString :: "string \<Rightarrow> string \<Rightarrow> string" where
  "defaultString v fallback = (if v = [] then fallback else v)"

definition intEnv :: "host_system \<Rightarrow> string \<Rightarrow> int \<Rightarrow> int" where
  "intEnv S key fallback =
     (let v = trim_space (hs_env S key) in
      if v \<noteq> [] then (case Atoi v of (n, err) \<Rightarrow> if err = None then n else fallback) else fallback)"

definition wrapped :: "string \<Rightarrow> go_error + 'a \<Rightarrow> go_error + 'a" where
  "wrapped msg m = (case m of Inl e \<Rightarrow> Inl (Wrapf msg e) | Inr a \<Rightarrow> Inr a)"

definition unless_error :: "go_error option \<Rightarrow> go_error + 'a \<Rightarrow> go_error + 'a" where
  "unless_error err m = (case err of Some e \<Rightarrow> Inl e | None \<Rightarrow> m)"

definition resolveRoot :: "host_system \<Rightarrow> string \<Rightarrow> go_error + string" where
  "resolveRoot S raw0 =
     (let raw1 = trim_space raw0; raw = (if raw1 = [] then ''~/aman'' else raw1) in
      if raw = ''~'' \<or> has_prefix raw ''~/''
      then ebind (wrapped ''expand ~ in ROOT_DIRECTORY'' (hs_home S)) (\<lambda>home. filepath_Abs S (path_Join [home, tl raw]))
      else filepath_Abs S raw)"

fun first_candidate :: "host_system \<Rightarrow> (string, file_bytes) gomap \<Rightarrow> bool \<Rightarrow> string list \<Rightarrow> string option" where
  "first_candidate S fs wantDir [] = None"
| "first_candidate S fs wantDir (c # cs) =
     (case hs_stat S fs c of Inl e \<Rightarrow> first_candidate S fs wantDir cs | Inr info \<Rightarrow> if fi_IsDir info = wantDir then Some c else first_candidate S fs wantDir cs)"

definition resolvePath :: "host_system \<Rightarrow> (string, file_bytes) gomap \<Rightarrow> string \<Rightarrow> string list \<Rightarrow> bool \<Rightarrow> go_error + string" where
  "resolvePath S fs given candidates wantDir =
     (if given \<noteq> [] then filepath_Abs S given
      else case first_candidate S fs wantDir candidates of
             Some c \<Rightarrow> filepath_Abs S c
           | None \<Rightarrow> Inl (ErrNew (''no '' @ (if wantDir then ''directory'' else ''file'') @ '' found; set the relevant environment variable explicitly'')))"

definition requireFile :: "host_system \<Rightarrow> (string, file_bytes) gomap \<Rightarrow> string \<Rightarrow> go_error option" where
  "requireFile S fs p =
     (case hs_stat S fs p of Inl e \<Rightarrow> Some e | Inr info \<Rightarrow> if fi_IsDir info then Some (ErrNew (quoted p @ '' is a directory'')) else None)"

definition requireExecutable :: "host_system \<Rightarrow> (string, file_bytes) gomap \<Rightarrow> string \<Rightarrow> go_error option" where
  "requireExecutable S fs p =
     (case hs_stat S fs p of
        Inl e \<Rightarrow> Some e
      | Inr info \<Rightarrow>
          if fi_IsDir info then Some (ErrNew (quoted p @ '' is a directory''))
          else if \<not> (bit (fi_Mode info) 0 \<or> bit (fi_Mode info) 3 \<or> bit (fi_Mode info) 6) then Some (ErrNew (quoted p @ '' is not executable''))
          else None)"

definition validateHost :: "host_system \<Rightarrow> (string, file_bytes) gomap \<Rightarrow> string \<Rightarrow> go_error + string list" where
  "validateHost S fs mode =
     (if hs_GOOS S \<noteq> ''linux''
      then (let msg = ''host OS '' @ quoted (hs_GOOS S) @ '' is unsupported for Firecracker; run the API on Linux'' in
            if mode = ''warn'' then Inr [msg] else Inl (ErrNew msg))
      else
        let kvm = (case hs_stat S fs ''/dev/kvm'' of Inl e \<Rightarrow> [''missing /dev/kvm; Firecracker requires KVM on the host''] | Inr i \<Rightarrow> []);
            cg = (case hs_stat S fs ''/sys/fs/cgroup/cgroup.controllers'' of
                    Inl e \<Rightarrow> [''cgroup v2 controller file not found; CPU and memory limits may not be enforced''] | Inr i \<Rightarrow> [])
        in if kvm \<noteq> [] \<and> mode \<noteq> ''warn'' then Inl (ErrNew (hd kvm)) else Inr (kvm @ cg))"

definition abs_dir :: "host_system \<Rightarrow> string \<Rightarrow> string \<Rightarrow> string \<Rightarrow> go_error + string" where
  "abs_dir S what key fallback =
     wrapped (''resolve '' @ what) (filepath_Abs S (defaultString (trim_space (hs_env S key)) fallback))"

definition Load :: "host_system \<Rightarrow> (string, file_bytes) gomap \<Rightarrow> go_error + WorkerConfig" where
  "Load S fs =
     ebind (wrapped ''get working directory'' (hs_cwd S)) (\<lambda>cwd.
     ebind (wrapped ''resolve root directory'' (resolveRoot S (hs_env S ''ROOT_DIRECTORY''))) (\<lambda>rootDir.
     unless_error (EnsureLayout S rootDir) (
     ebind (wrapped ''resolve assets path'' (resolvePath S fs (trim_space (hs_env S ''ASSETS_PATH''))
        [path_Join [rootDir, ''assets''], ''/app/assets'', path_Join [cwd, ''assets''], path_Join [cwd, ''..'', ''assets'']] True)) (\<lambda>assets.
     (let fc = defaultString (trim_space (hs_env S ''FIRECRACKER_BINARY'')) (path_Join [assets, ''firecracker'']) in
     ebind (abs_dir S ''socket dir'' ''SOCKET_DIR'' (path_Join [rootDir, ''sockets''])) (\<lambda>sockets.
     unless_error (make_dir S (''create socket dir '' @ quoted sockets) sockets) (
     ebind (abs_dir S ''active disk dir'' ''ACTIVE_DISK_DIR'' sockets) (\<lambda>disks.
     ebind (ParseCloneMode (hs_env S ''ACTIVE_DISK_CLONE_MODE'')) (\<lambda>mode.
     unless_error (make_dir S (''create active disk dir '' @ quoted disks) disks) (
     ebind (abs_dir S ''snapshot dir'' ''SNAPSHOT_DIR'' ''/dev/shm/fc-snapshots'') (\<lambda>snapshots.
     unless_error (make_dir S (''create snapshot dir '' @ quoted snapshots) snapshots) (
     let validation = defaultString (trim_space (hs_env S ''HOST_VALIDATION_MODE'')) ''strict'' in
     ebind (validateHost S fs validation) (\<lambda>warnings.
     Inr \<lparr>wc_RootDirectory = rootDir, wc_AssetsPath = assets, wc_KernelPath = path_Join [assets, ''kernel'', ''vmlinux''],
          wc_RootfsPath = path_Join [assets, ''rootfs'', ''rootfs-alpine.ext4''], wc_InitrdPath = path_Join [assets, ''initramfs.cpio.gz''],
          wc_FirecrackerBinary = (case filepath_Abs S fc of Inr p \<Rightarrow> p | Inl e \<Rightarrow> fc), wc_SocketDir = sockets,
          wc_ActiveDiskBackend = defaultString (to_lower (trim_space (hs_env S ''ACTIVE_DISK_BACKEND''))) ''filesystem'', wc_ActiveDiskDir = disks,
          wc_ActiveDiskCloneMode = mode, wc_SnapshotDir = snapshots, wc_HostValidationMode = validation,
          wc_FCRunUID = intEnv S ''FC_RUN_UID'' 0, wc_FCRunGID = intEnv S ''FC_RUN_GID'' 0, wc_Warnings = warnings\<rparr>)))))))))))))"

definition ValidateAssets :: "host_system \<Rightarrow> (string, file_bytes) gomap \<Rightarrow> WorkerConfig \<Rightarrow> go_error option" where
  "ValidateAssets S fs c =
     (case requireFile S fs (wc_KernelPath c) of Some e \<Rightarrow> Some (Wrapf ''kernel asset invalid'' e) | None \<Rightarrow>
      case requireFile S fs (wc_RootfsPath c) of Some e \<Rightarrow> Some (Wrapf ''rootfs asset invalid'' e) | None \<Rightarrow>
      case requireFile S fs (wc_InitrdPath c) of Some e \<Rightarrow> Some (Wrapf ''initramfs asset invalid'' e) | None \<Rightarrow>
      case requireExecutable S fs (wc_FirecrackerBinary c) of Some e \<Rightarrow> Some (Wrapf ''firecracker binary invalid'' e) | None \<Rightarrow> None)"

section \<open>The steps\<close>

definition writabledisk_New :: "host_system \<Rightarrow> string \<Rightarrow> string \<Rightarrow> CloneMode \<Rightarrow> go_error + Filesystem" where
  "writabledisk_New S backend0 dir mode =
     (let b = to_lower (trim_space backend0); backend = (if b = [] then ''filesystem'' else b) in
      if backend = ''filesystem'' then NewFilesystem (\<lambda>call. hs_mkdir S dir) dir mode
      else Inl (ErrNew (''unsupported writable disk backend '' @ quoted backend0)))"

record host_state =
  ho_Config :: WorkerConfig
  ho_Disks :: Filesystem
  ho_Capacity :: CapacityConfig
  ho_SlotCount :: int
  ho_MaxProvisions :: int

definition host_step :: "WorkerConfig \<Rightarrow> string \<Rightarrow> go_error option \<Rightarrow> go_error option" where
  "host_step cfg stage err =
     (case err of None \<Rightarrow> None | Some e \<Rightarrow> if wc_HostValidationMode cfg = ''warn'' then None else Some (Wrapf (''bootstrap '' @ stage) e))"

definition step_op :: "WorkerConfig \<Rightarrow> string \<Rightarrow> unit depot_op \<Rightarrow> unit depot_op" where
  "step_op cfg stage m w =
     (case m w of
        (Inr u, w1) \<Rightarrow> (Inr (), w1)
      | (Inl e, w1) \<Rightarrow> (case host_step cfg stage (Some e) of Some e' \<Rightarrow> (Inl e', w1) | None \<Rightarrow> (Inr (), w1)))"

definition validate_op :: "host_system \<Rightarrow> WorkerConfig \<Rightarrow> unit depot_op" where
  "validate_op S cfg w = (case ValidateAssets S (dp_files w) cfg of Some e \<Rightarrow> (Inl e, w) | None \<Rightarrow> (Inr (), w))"

definition provision_host :: "host_system \<Rightarrow> WorkerConfig \<Rightarrow> int \<Rightarrow> go_error + WorkerConfig" where
  "provision_host S cfg slotCount =
     (case Provision S \<lparr>pp_Root = wc_RootDirectory cfg, pp_SlotCount = slotCount, pp_SocketDir = wc_SocketDir cfg,
                        pp_SnapshotDir = wc_SnapshotDir cfg, pp_AssetsDir = wc_AssetsPath cfg\<rparr> of
        Inl e \<Rightarrow> (case host_step cfg ''provision'' (Some e) of Some e' \<Rightarrow> Inl e' | None \<Rightarrow> Inr cfg)
      | Inr (uid, gid) \<Rightarrow> Inr (cfg\<lparr>wc_FCRunUID := uid, wc_FCRunGID := gid\<rparr>))"

text \<open>A failure to set up cgroups is only logged; the VM manager starts from the slot count returned here.\<close>

definition finish_init :: "host_system \<Rightarrow> WorkerConfig \<Rightarrow> CapacityConfig \<Rightarrow> host_state depot_op" where
  "finish_init S cfg capacity w =
     (case provision_host S cfg (cc_NetworkSlots capacity) of
        Inl e \<Rightarrow> (Inl e, w)
      | Inr cfg' \<Rightarrow>
          (case writabledisk_New S (wc_ActiveDiskBackend cfg') (wc_ActiveDiskDir cfg') (wc_ActiveDiskCloneMode cfg') of
             Inl e \<Rightarrow> (Inl (Wrapf ''initialize writable disk store'' e), w)
           | Inr disks \<Rightarrow>
               (Inr \<lparr>ho_Config = cfg', ho_Disks = disks, ho_Capacity = capacity, ho_SlotCount = cc_NetworkSlots capacity,
                     ho_MaxProvisions = envInt S ''MAX_CONCURRENT_PROVISIONS'' (hs_NumCPU S)\<rparr>, w)))"

definition host_Init :: "template_env \<Rightarrow> host_system \<Rightarrow> host_state depot_op" where
  "host_Init X S w =
     (case Load S (dp_files w) of
        Inl e \<Rightarrow> (Inl (Wrapf ''load worker config'' e), w)
      | Inr cfg \<Rightarrow>
          op_bind (step_op cfg ''assets'' (EnsureAssets X S (wc_RootDirectory cfg))) (\<lambda>u.
          op_bind (step_op cfg ''assets-validate'' (validate_op S cfg)) (\<lambda>u.
          finish_init S cfg (resolveCapacity S))) w)"

section \<open>A slot for every running sandbox\<close>

definition running :: "reservation \<Rightarrow> bool" where
  "running r \<longleftrightarrow> \<not> rv_paused r"

definition running_sandboxes :: "string set \<Rightarrow> Admission \<Rightarrow> int" where
  "running_sandboxes U a = int (length (filter (\<lambda>(k, r). k \<notin> U \<and> running r) (reservations a)))"

lemma running_le_vcpus:
  assumes "\<forall>(k, r) \<in> set rs. 0 < rv_vcpus r"
  shows "int (length (filter (\<lambda>(k, r). k \<notin> U \<and> running r) rs)) \<le> booked U active_vcpus rs"
  using assms
proof (induction rs)
  case (Cons kr rs)
  have unit: "(if fst kr \<notin> U \<and> running (snd kr) then 1 else 0) \<le> (if fst kr \<in> U then 0 else active_vcpus (snd kr))"
    using Cons.prems by (auto simp: running_def active_vcpus_def)
  have "int (length (filter (\<lambda>(k, r). k \<notin> U \<and> running r) rs)) \<le> booked U active_vcpus rs"
    using Cons.IH Cons.prems by auto
  with unit show ?case by (cases kr) (auto simp: booked_def)
qed (simp add: booked_def)

text \<open>The limits never change, and only \<open>Restore\<close> enters a reservation beyond the number of slots.\<close>

lemma adm_run_limits: "allocatableVCPUs (adm_run a ops) = allocatableVCPUs a \<and> maxSandboxes (adm_run a ops) = maxSandboxes a"
proof -
  have step: "allocatableVCPUs (adm_step a x) = allocatableVCPUs a \<and> maxSandboxes (adm_step a x) = maxSandboxes a" for a x
    by (cases x)
      (auto simp: adm_step_def ReserveCreate_def ReserveResume_def MarkPaused_def MarkActive_def Restore_def Release_def SetDiskCapacityProvider_def Capacity_of_def
        capacityLocked_def Let_def split: option.splits if_splits prod.splits)
  show ?thesis unfolding adm_run_def by (induction ops arbitrary: a) (simp_all add: step)
qed

definition is_restore :: "adm_op \<Rightarrow> bool" where
  "is_restore x \<longleftrightarrow> (case x of AdmRestore k v m d p \<Rightarrow> True | _ \<Rightarrow> False)"

lemma not_restore: "\<not> is_restore x \<Longrightarrow> restores_shape x"
  by (cases x) (simp_all add: is_restore_def restores_shape_def)

lemma restores_fill:
  "list_all is_restore rs \<Longrightarrow> length (reservations (adm_run a rs)) \<le> length (reservations a) + length rs"
proof (induction rs arbitrary: a)
  case (Cons x rs)
  obtain k v m d p where x: "x = AdmRestore k v m d p" using Cons.prems by (cases x) (auto simp: is_restore_def)
  have "length (reservations (adm_step a x)) \<le> Suc (length (reservations a))" by (simp add: x adm_step_def Restore_def length_mput)
  moreover have "length (reservations (adm_run (adm_step a x) rs)) \<le> length (reservations (adm_step a x)) + length rs" using Cons by simp
  ultimately show ?case by (simp add: adm_run_def)
qed (simp add: adm_run_def)

lemma adm_step_fill:
  assumes "\<not> is_restore x" "int (length (reservations a)) \<le> maxSandboxes a"
  shows "int (length (reservations (adm_step a x))) \<le> maxSandboxes a"
proof (cases x)
  case (AdmReserve req)
  show ?thesis using assms(2) by (cases rule: ReserveCreate_cases[of a req]) (auto simp: AdmReserve adm_step_def length_mput)
next
  case (AdmResume k)
  show ?thesis using assms(2) by (cases rule: ReserveResume_cases[of a k]) (auto simp: AdmResume adm_step_def length_mput)
next
  case (AdmRelease k)
  show ?thesis using assms(2) length_mdel_le[of k "reservations a"] by (simp add: AdmRelease adm_step_def Release_def)
qed (use assms in \<open>auto simp: is_restore_def adm_step_def MarkPaused_def MarkActive_def SetDiskCapacityProvider_def Capacity_of_def length_mput split: option.split\<close>)

lemma adm_run_fill:
  "list_all (\<lambda>x. \<not> is_restore x) ops \<Longrightarrow> int (length (reservations a)) \<le> maxSandboxes a \<Longrightarrow> int (length (reservations (adm_run a ops))) \<le> maxSandboxes a"
proof (induction ops arbitrary: a)
  case (Cons x ops)
  have "maxSandboxes (adm_step a x) = maxSandboxes a" using adm_run_limits[of a "[x]"] by (simp add: adm_run_def)
  then show ?case using Cons.IH[of "adm_step a x"] Cons.prems adm_step_fill[of x a] by (simp add: adm_run_def)
qed (simp add: adm_run_def)

lemma running_le_slots:
  assumes "tracked U R a" "int (length (reservations a)) \<le> maxSandboxes a" "min (allocatableVCPUs a) (maxSandboxes a) \<le> n"
  shows "running_sandboxes U a \<le> n"
proof -
  have "\<forall>(k, r) \<in> set (reservations a). 0 < rv_vcpus r" using assms(1) by (auto simp: tracked_def adm_wf_def positive_shape_def)
  then have "running_sandboxes U a \<le> booked U active_vcpus (reservations a)" unfolding running_sandboxes_def by (rule running_le_vcpus)
  moreover have "running_sandboxes U a \<le> int (length (reservations a))" unfolding running_sandboxes_def by simp
  ultimately show ?thesis using assms by (auto simp: tracked_def)
qed

text \<open>The admission of a worker process, from the capacity of its host; the process reads its own variables without trimming them.\<close>

definition worker_envInt :: "host_system \<Rightarrow> string \<Rightarrow> int \<Rightarrow> int" where
  "worker_envInt S key def =
     (if hs_env S key \<noteq> [] then (case Atoi (hs_env S key) of (n, err) \<Rightarrow> if err = None \<and> n > 0 then n else def) else def)"

definition worker_envFloat :: "host_system \<Rightarrow> string \<Rightarrow> rat \<Rightarrow> rat" where
  "worker_envFloat S key def =
     (if hs_env S key \<noteq> [] then (case hs_ParseFloat S (hs_env S key) of Some n \<Rightarrow> if n \<ge> 1 then n else def | None \<Rightarrow> def) else def)"

definition worker_admission :: "host_system \<Rightarrow> Admission" where
  "worker_admission S =
     (let c = resolveCapacity S in
      NewAdmission (cc_PhysicalVCPUs c) (worker_envInt S ''WORKER_ALLOCATABLE_MEMORY_MB'' 0) 1 (cc_MaxSessions c) (cc_CPUOvercommitRatio c)
        (worker_envFloat S ''WORKER_MEMORY_OVERCOMMIT_RATIO'' 1))"

lemma envInt_bound: "0 \<le> d \<Longrightarrow> 0 \<le> envInt S key d" "0 < d \<Longrightarrow> 0 < envInt S key d"
  by (auto simp: envInt_def Let_def split: prod.splits)

lemma worker_envInt_bound: "0 \<le> d \<Longrightarrow> 0 \<le> worker_envInt S key d"
  by (auto simp: worker_envInt_def split: prod.splits)

lemma envFloat_bound: "1 \<le> d \<Longrightarrow> 1 \<le> envFloat S key d"
  by (auto simp: envFloat_def Let_def split: option.splits)

text \<open>
  C21: A host has a network slot for every sandbox that admission lets run: whatever the environment sets, unless it fixes the number of
  slots itself, when a worker restores at most as many recovered sandboxes as it may have sessions, of positive size, and then makes any sequence of the
  calls of its ledger, the sandboxes that run after a check of the capacity are at most as many as the network slots the host was provisioned with; and there
  is always at least one slot. The sandboxes that run without a check are those of \<open>ran_unchecked\<close>: restored as running, or marked active by the
  state hook while the ledger had them paused.
\<close>

theorem slots_cover_admission:
  assumes "0 < hs_NumCPU S" and "\<not> cc_NetworkSlotsExplicit (resolveCapacity S)"
    and restores: "list_all is_restore recovered" "list_all restores_shape recovered" "int (length recovered) \<le> cc_MaxSessions (resolveCapacity S)"
    and calls: "list_all (\<lambda>x. \<not> is_restore x) calls"
  shows "running_sandboxes (ran_unchecked (worker_admission S) (recovered @ calls)) (adm_run (worker_admission S) (recovered @ calls))
           \<le> cc_NetworkSlots (resolveCapacity S)
     \<and> 1 \<le> cc_NetworkSlots (resolveCapacity S)"
proof -
  let ?c = "resolveCapacity S" and ?init = "worker_admission S" and ?a = "adm_run (worker_admission S) (recovered @ calls)"
  have p: "0 < cc_PhysicalVCPUs ?c" "0 < cc_MaxSessions ?c" "1 \<le> cc_CPUOvercommitRatio ?c"
    using assms(1) envInt_bound envFloat_bound by (auto simp: resolveCapacity_def Let_def defaultMaxSessions_def)
  have slots: "cc_NetworkSlots ?c = max 1 (min \<lfloor>of_int (cc_PhysicalVCPUs ?c) * cc_CPUOvercommitRatio ?c\<rfloor> (cc_MaxSessions ?c))"
    using assms(2) by (auto simp: resolveCapacity_def Let_def)
  have t0: "tracked {} {} ?init"
    unfolding worker_admission_def Let_def using tracked_NewAdmission p worker_envInt_bound[of 0] by simp
  have shapes: "list_all restores_shape (recovered @ calls)"
    using restores(2) not_restore calls by (auto simp: list_all_iff)
  have a0: "allocatableVCPUs ?init = \<lfloor>of_int (cc_PhysicalVCPUs ?c) * cc_CPUOvercommitRatio ?c\<rfloor>" "maxSandboxes ?init = cc_MaxSessions ?c" "reservations ?init = []"
    using p(3) by (simp_all add: worker_admission_def NewAdmission_def Let_def)
  have "int (length (reservations (adm_run ?init recovered))) \<le> maxSandboxes (adm_run ?init recovered)"
    using restores_fill[OF restores(1), of ?init] restores(3) a0(2,3) by (simp add: adm_run_limits)
  from adm_run_fill[OF calls this] have "int (length (reservations ?a)) \<le> maxSandboxes ?a" by (simp add: adm_run_limits) (simp add: adm_run_def)
  then have "running_sandboxes (ran_unchecked ?init (recovered @ calls)) ?a \<le> cc_NetworkSlots ?c"
    by (rule running_le_slots[OF adm_run_tracked[OF t0 shapes]]) (use slots a0 in \<open>simp add: adm_run_limits\<close>)
  then show ?thesis using slots by simp
qed

section \<open>Verified assets\<close>

lemma asset_exists_state: "asset_exists X p w = (out, w') \<Longrightarrow> dp_files w' = dp_files w \<and> (\<exists>b. out = Inr b \<and> (b \<longrightarrow> mget (dp_files w) p \<noteq> None))"
  by (auto simp: asset_exists_def split: prod.splits sum.splits dest!: read_path_state)

lemma sha256File_state:
  "sha256File X p w = (out, w') \<Longrightarrow> dp_files w' = dp_files w \<and> (\<forall>s. out = Inr s \<longrightarrow> verified X w p s)"
  by (auto simp: sha256File_def op_bind_eq op_ret_eq verified_def dest!: op_step_state read_path_state)

text \<open>A line of the manifest is empty, a comment, or names a file with the checksum it gives.\<close>

definition line_holds :: "template_env \<Rightarrow> depot \<Rightarrow> string \<Rightarrow> string \<Rightarrow> bool" where
  "line_holds X w assetsDir raw \<longleftrightarrow>
     (let line = trim_space raw; fields = str_Fields line in
      line = [] \<or> has_prefix line ''#'' \<or> verified X w (path_Join [assetsDir, List.last fields]) (hd fields))"

definition assets_hold :: "template_env \<Rightarrow> depot \<Rightarrow> string \<Rightarrow> bool" where
  "assets_hold X w assetsDir \<longleftrightarrow>
     (\<exists>b. mget (dp_files w) (path_Join [assetsDir, ''manifest.sha256'']) = Some b
          \<and> list_all (line_holds X w assetsDir) (split_on (CHR 0x0A) (text_of b)))"

lemma line_holds_same: "dp_files w' = dp_files w \<Longrightarrow> line_holds X w' d = line_holds X w d"
  by (simp add: fun_eq_iff line_holds_def verified_def)

lemma assets_hold_same:
  assumes "dp_files w' = dp_files w"
  shows "assets_hold X w' d = assets_hold X w d"
  unfolding assets_hold_def line_holds_same[OF assms] assms by (rule refl)

lemma manifest_line_state:
  "manifest_line X d raw w = (out, w') \<Longrightarrow> dp_files w' = dp_files w \<and> (out = Inr () \<longrightarrow> line_holds X w d raw)"
  by (auto simp: manifest_line_def line_holds_def Let_def op_bind_eq op_wrap_eq op_ret_eq op_fail_eq split: if_splits dest!: sha256File_state)

lemma manifest_lines_state:
  "manifest_lines X d ls w = (out, w') \<Longrightarrow> dp_files w' = dp_files w \<and> (out = Inr () \<longrightarrow> list_all (line_holds X w d) ls)"
proof (induction ls arbitrary: w)
  case (Cons raw ls)
  obtain o1 w1 where one: "manifest_line X d raw w = (o1, w1)" by fastforce
  note st = manifest_line_state[OF one]
  show ?case
  proof (cases "int (length raw) \<ge> 65536")
    case False
    then consider e where "o1 = Inl e" "out = Inl e" "w' = w1" | "o1 = Inr ()" "manifest_lines X d ls w1 = (out, w')"
      using Cons.prems one by (auto simp: op_bind_eq)
    then show ?thesis
    proof cases
      case 2
      then show ?thesis using Cons.IH[OF 2(2)] st line_holds_same[of w1 w] by simp
    qed (use st in auto)
  qed (use Cons.prems in \<open>auto simp: op_fail_eq\<close>)
qed (simp add: op_ret_eq)

lemma verifyManifest_state:
  assumes "verifyManifest X d (path_Join [d, ''manifest.sha256'']) w = (out, w')"
  shows "dp_files w' = dp_files w \<and> (out = Inr () \<longrightarrow> assets_hold X w d)"
proof -
  obtain o1 w1 where r: "read_path X ''open '' (path_Join [d, ''manifest.sha256'']) w = (o1, w1)" by fastforce
  note st = read_path_state[OF r]
  show ?thesis
  proof (cases o1)
    case (Inl e)
    then show ?thesis using assms r st by (auto simp: verifyManifest_def op_bind_eq)
  next
    case (Inr b)
    then have "manifest_lines X d (split_on (CHR 0x0A) (text_of b)) w1 = (out, w')" using assms r by (auto simp: verifyManifest_def op_bind_eq)
    from manifest_lines_state[OF this] show ?thesis using st Inr line_holds_same[of w1 w] by (auto simp: assets_hold_def)
  qed
qed

lemma EnsureAssets_holds:
  assumes "EnsureAssets X S dir w = (Inr (), w')"
  shows "assets_hold X w' (path_Join [dir, ''assets''])"
proof -
  let ?d = "path_Join [dir, ''assets'']"
  obtain w1 w2 where v: "verifyManifest X ?d (path_Join [?d, ''manifest.sha256'']) w1 = (Inr (), w2)" and rest: "dp_files w' = dp_files w2"
    using assms unfolding EnsureAssets_def Let_def
    by (auto simp: op_bind_eq op_wrap_eq op_ret_eq op_fail_eq split: if_splits dest!: asset_exists_state op_step_state)
  have "assets_hold X w1 ?d" "dp_files w2 = dp_files w1" using verifyManifest_state[OF v] by simp_all
  then show ?thesis using rest assets_hold_same[of w' w1] by simp
qed

lemma finish_init_eq: "finish_init S cfg cap w = (Inr h, w') \<Longrightarrow> w' = w \<and> provision_host S cfg (cc_NetworkSlots cap) = Inr (ho_Config h)"
  by (auto simp: finish_init_def split: sum.splits)

lemma provision_host_keeps: "provision_host S cfg n = Inr c \<Longrightarrow> \<exists>uid gid. c = cfg\<lparr>wc_FCRunUID := uid, wc_FCRunGID := gid\<rparr>"
  by (auto simp: provision_host_def split: sum.splits option.splits) (metis WorkerConfig.surjective WorkerConfig.update_convs(13,14))

text \<open>
  A host that starts in strict mode runs what it was given: when the start-up succeeds, every file that the manifest of the assets
  lists is there with the checksum it states, and the kernel, the root filesystem and the initial ramdisk are regular files.
\<close>

theorem strict_host_has_verified_assets:
  assumes init: "host_Init X S w = (Inr h, w')" and strict: "wc_HostValidationMode (ho_Config h) \<noteq> ''warn''"
  shows "assets_hold X w' (path_Join [wc_RootDirectory (ho_Config h), ''assets''])
         \<and> requireFile S (dp_files w') (wc_KernelPath (ho_Config h)) = None \<and> requireFile S (dp_files w') (wc_RootfsPath (ho_Config h)) = None
         \<and> requireFile S (dp_files w') (wc_InitrdPath (ho_Config h)) = None"
proof -
  obtain cfg where load: "Load S (dp_files w) = Inr cfg" using init by (cases "Load S (dp_files w)") (auto simp: host_Init_def)
  obtain w1 where s1: "step_op cfg ''assets'' (EnsureAssets X S (wc_RootDirectory cfg)) w = (Inr (), w1)"
    and s2: "step_op cfg ''assets-validate'' (validate_op S cfg) w1 = (Inr (), w')" and p: "provision_host S cfg (cc_NetworkSlots (resolveCapacity S)) = Inr (ho_Config h)"
    using init load by (auto simp: host_Init_def op_bind_eq dest!: finish_init_eq)
  have same: "wc_RootDirectory (ho_Config h) = wc_RootDirectory cfg" "wc_KernelPath (ho_Config h) = wc_KernelPath cfg" "wc_RootfsPath (ho_Config h) = wc_RootfsPath cfg"
      "wc_InitrdPath (ho_Config h) = wc_InitrdPath cfg" "wc_HostValidationMode (ho_Config h) = wc_HostValidationMode cfg"
    using provision_host_keeps[OF p] by auto
  have "EnsureAssets X S (wc_RootDirectory cfg) w = (Inr (), w1)"
    using s1 strict same(5) by (auto simp: step_op_def host_step_def split: prod.splits sum.splits)
  moreover have "ValidateAssets S (dp_files w1) cfg = None" "w' = w1"
    using s2 strict same(5) by (auto simp: step_op_def host_step_def validate_op_def split: prod.splits sum.splits option.splits)
  ultimately show ?thesis
    using EnsureAssets_holds[of X S "wc_RootDirectory cfg" w w1] unfolding same by (auto simp: ValidateAssets_def split: option.splits)
qed

text \<open>
  The marker of an installed bundle is written before the files are verified: once the files are wrong under a marker that names the bundle,
  no later start repairs them, because the same bundle is not unpacked again.
\<close>

lemma install_bundle_current:
  assumes run: "install_bundle X S p d w = (out, w')" and p: "mget (dp_files w) p = Some b"
    and marker: "mget (dp_files w) (path_Join [d, installedMarker]) = Some t" "trim_space (text_of t) = tx_sha X b" and reads: "tx_fault X = (\<lambda>n name. None)"
  shows "dp_files w' = dp_files w"
proof -
  obtain w1 where s1: "sha256File X p w = (Inr (tx_sha X b), w1)" "dp_files w1 = dp_files w"
    using p reads by (simp add: sha256File_def op_bind_def read_path_def op_step_def op_ret_def)
  obtain w2 where s2: "read_or_empty X (path_Join [d, installedMarker]) w1 = (Inr (text_of t), w2)" "dp_files w2 = dp_files w1"
    using marker(1) reads s1(2) by (simp add: read_or_empty_def op_bind_def read_path_def op_step_def)
  have "w' = w2" using run marker(2) unfolding install_bundle_def Let_def by (simp add: op_bind_def op_wrap_def s1(1) s2(1) op_ret_def)
  then show ?thesis using s1(2) s2(2) by simp
qed

theorem bad_install_is_not_repaired:
  assumes pushed: "mget (dp_files w) (path_Join [dir, BundleName]) = Some b"
    and marker: "mget (dp_files w) (path_Join [path_Join [dir, ''assets''], installedMarker]) = Some t" "trim_space (text_of t) = tx_sha X b"
    and bad: "\<not> assets_hold X w (path_Join [dir, ''assets''])" and reads: "tx_fault X = (\<lambda>n name. None)"
  shows "\<exists>e w'. EnsureAssets X S dir w = (Inl e, w') \<and> dp_files w' = dp_files w"
proof -
  let ?d = "path_Join [dir, ''assets'']"
  obtain r w' where run: "EnsureAssets X S dir w = (r, w')" by fastforce
  obtain o1 w1 where s1: "op_step X (''mkdir '' @ ?d) w = (o1, w1)" by fastforce
  obtain o2 w2 where s2: "asset_exists X (path_Join [dir, BundleName]) w1 = (o2, w2)" by fastforce
  obtain o3 w3 where s3: "install_bundle X S (path_Join [dir, BundleName]) ?d w2 = (o3, w3)" by fastforce
  obtain o4 w4 where s4: "asset_exists X (path_Join [?d, ''manifest.sha256'']) w3 = (o4, w4)" by fastforce
  obtain o5 w5 where s5: "verifyManifest X ?d (path_Join [?d, ''manifest.sha256'']) w4 = (o5, w5)" by fastforce
  obtain o6 w6 where s6: "asset_exists X (path_Join [?d, ''firecracker'']) w5 = (o6, w6)" by fastforce
  obtain o7 w7 where s7: "op_step X (''chmod '' @ path_Join [?d, ''firecracker'']) w6 = (o7, w7)" by fastforce
  have f2: "dp_files w2 = dp_files w" "dp_files w1 = dp_files w" using op_step_state[OF s1] asset_exists_state[OF s2] by simp_all
  have f3: "dp_files w3 = dp_files w"
    using install_bundle_current[OF s3 _ _ marker(2) reads] pushed marker(1) f2 by simp
  have f7: "dp_files w4 = dp_files w" "dp_files w5 = dp_files w" "dp_files w6 = dp_files w" "dp_files w7 = dp_files w"
    using f3 asset_exists_state[OF s4] verifyManifest_state[OF s5] asset_exists_state[OF s6] op_step_state[OF s7] by simp_all
  have exists: "o2 = Inr True" using s2 pushed reads f2(2) by (simp add: asset_exists_def read_path_def op_bind_def op_step_def split: prod.splits)
  have "w' \<in> {w1, w2, w3, w4, w5, w6, w7}"
    using run s1 s2 s3 s4 s5 s6 s7 exists unfolding EnsureAssets_def Let_def
    by (auto simp: op_bind_def op_wrap_def op_ret_def op_fail_def split: sum.splits if_splits)
  then have same: "dp_files w' = dp_files w" using f2 f3 f7 by auto
  then have "r \<noteq> Inr ()" using EnsureAssets_holds[of X S dir w w'] run bad assets_hold_same[OF same, of X ?d] by auto
  then show ?thesis using run same by (cases r) auto
qed

section \<open>A sample host\<close>

definition sample_system :: host_system where
  "sample_system = \<lparr>hs_env = (\<lambda>key. if key = ''WORKER_ALLOCATABLE_MEMORY_MB'' then ''4096'' else []), hs_cwd = Inr ''/'', hs_home = Inr ''/h'', hs_GOOS = ''linux'', hs_NumCPU = 2, hs_ParseFloat = (\<lambda>s. None),
     hs_mkdir = (\<lambda>p. None), hs_stat = (\<lambda>fs p. Inr \<lparr>fi_IsDir = mget fs p = None, fi_Mode = 1\<rparr>),
     hs_untar = (\<lambda>t b. (None, [])), hs_Geteuid = 0, hs_user = (\<lambda>after u. Inr (''7'', ''8'')), hs_nft = False, hs_netns = Inr [], hs_script = (\<lambda>vars. None)\<rparr>"

definition sample_create_request :: "string \<Rightarrow> CreateRequest" where
  "sample_create_request k = \<lparr>SandboxID = k, cr_UserID = ''u'', cr_Image = [], cr_BillingModel = [], cr_Env = [], cr_VCPUs = 1, cr_MemoryMB = 256, cr_DiskGB = 1,
     cr_Internet = False, cr_IdleTimeoutS = 0, cr_MaxLifetimeS = 0\<rparr>"

definition sample_recovered :: "adm_op list" where
  "sample_recovered = [AdmRestore ''r'' 1 256 1 True]"

definition sample_calls :: "adm_op list" where
  "sample_calls = [AdmReserve (sample_create_request ''a''), AdmReserve (sample_create_request ''b''), AdmActive ''r'', AdmPause ''a'']"

theorem slots_cover_admission_witness:
  "running_sandboxes (ran_unchecked (worker_admission sample_system) (sample_recovered @ sample_calls)) (adm_run (worker_admission sample_system) (sample_recovered @ sample_calls)) \<le> 8
   \<and> cc_NetworkSlots (resolveCapacity sample_system) = 8"
proof -
  have c: "\<not> cc_NetworkSlotsExplicit (resolveCapacity sample_system)" "cc_NetworkSlots (resolveCapacity sample_system) = 8"
    by (simp_all add: resolveCapacity_def explicit_slots_def envInt_def envFloat_def Let_def sample_system_def trim_space_def defaultMaxSessions_def)
  have m: "int (length sample_recovered) \<le> cc_MaxSessions (resolveCapacity sample_system)"
    by (simp add: resolveCapacity_def envInt_def Let_def sample_system_def trim_space_def defaultMaxSessions_def sample_recovered_def)
  have "0 < hs_NumCPU sample_system" "list_all is_restore sample_recovered" "list_all restores_shape sample_recovered" "list_all (\<lambda>x. \<not> is_restore x) sample_calls"
    by (simp_all add: sample_system_def sample_recovered_def sample_calls_def is_restore_def restores_shape_def)
  from slots_cover_admission[OF this(1) c(1) this(2,3) m this(4)] show ?thesis unfolding c(2) by blast
qed

definition sample_asset_tx :: template_env where
  "sample_asset_tx = sample_tx\<lparr>tx_sha := (\<lambda>b. CHR ''s'' # text_of b)\<rparr>"

definition sample_assets :: depot where
  "sample_assets = \<lparr>dp_objects = [], dp_files = [(''/h/aman/assets/manifest.sha256'', octets_of (''sk kernel/vmlinux'' @ [CHR 0x0A] @ ''sr rootfs/rootfs-alpine.ext4'')),
     (''/h/aman/assets/kernel/vmlinux'', octets_of ''k''), (''/h/aman/assets/rootfs/rootfs-alpine.ext4'', octets_of ''r''),
     (''/h/aman/assets/initramfs.cpio.gz'', octets_of ''i''), (''/h/aman/assets/firecracker'', octets_of ''f'')], dp_tick = 0\<rparr>"

definition sample_init :: "(go_error + host_state) \<times> depot" where
  "sample_init = host_Init sample_asset_tx sample_system sample_assets"

lemma sample_init_ok: "case fst sample_init of Inr h \<Rightarrow> wc_HostValidationMode (ho_Config h) = ''strict'' \<and> wc_RootDirectory (ho_Config h) = ''/h/aman'' | Inl e \<Rightarrow> False"
  by code_simp

theorem strict_host_has_verified_assets_witness: "assets_hold sample_asset_tx (snd sample_init) ''/h/aman/assets''"
proof -
  obtain h where h: "fst sample_init = Inr h" "wc_HostValidationMode (ho_Config h) = ''strict''" "wc_RootDirectory (ho_Config h) = ''/h/aman''"
    using sample_init_ok by (cases "fst sample_init") auto
  have run: "host_Init sample_asset_tx sample_system sample_assets = (Inr h, snd sample_init)" using h(1) unfolding sample_init_def by (metis prod.collapse)
  have strict: "wc_HostValidationMode (ho_Config h) \<noteq> ''warn''" using h(2) by simp
  have "path_Join [''/h/aman'', ''assets''] = ''/h/aman/assets''" by code_simp
  then show ?thesis using strict_host_has_verified_assets[OF run strict] h(3) by simp
qed

end
