(* ===== verification/Access_API.thy ===== *)
theory Access_API
  imports Tenants Terminals
begin

text \<open>
  Ways into a sandbox: the IDE that a worker runs in it (\<open>backend/internal/ide\<close>), and the public handlers that hand out terminals,
  IDE sessions and previews (\<open>handler/terminal.go\<close>, \<open>handler/ide.go\<close>, \<open>handler/preview.go\<close>). The service, the placements and the workers
  are interfaces in the sources and records of operations here; JSON, URL escaping, random bytes and the clock are arguments. The theorems
  say who is let in, that a refused terminal leaves nothing behind, and that a path in a command is one word for the shell.
\<close>

section \<open>The IDE of a sandbox\<close>

definition DefaultPort :: "16 word" where "DefaultPort = 3001"

record IdeConfig =
  ig_Binary :: string
  ig_Workspace :: string
  ig_Port :: "16 word"

record IDEInstance =
  ii_Port :: "16 word"
  ii_State :: string

abbreviation squote :: char where "squote \<equiv> CHR 0x27"
abbreviation dquote :: string where "dquote \<equiv> [CHR 0x22]"
abbreviation backslash :: char where "backslash \<equiv> CHR 0x5C"

definition ide_NewService :: "bool \<Rightarrow> IdeConfig \<Rightarrow> go_error + IdeConfig" where
  "ide_NewService runner config0 =
     (if \<not> runner then Inl (ErrNew ''IDE command runner is required'')
      else
        let config = \<lparr>ig_Binary = (if ig_Binary config0 = [] then ''/opt/openvscode-server/bin/openvscode-server'' else ig_Binary config0),
              ig_Workspace = (if ig_Workspace config0 = [] then ''/workspace'' else ig_Workspace config0),
              ig_Port = (if ig_Port config0 = 0 then DefaultPort else ig_Port config0)\<rparr>
        in if \<not> has_prefix (ig_Binary config) ''/'' \<or> \<not> has_prefix (ig_Workspace config) ''/''
           then Inl (ErrNew ''IDE binary and workspace must be absolute paths'') else Inr config)"

definition shellQuote :: "string \<Rightarrow> string" where
  "shellQuote v = squote # concat (map (\<lambda>c. if c = squote then [squote, backslash, squote, squote] else [c]) v) @ [squote]"

fun join_with :: "string \<Rightarrow> string list \<Rightarrow> string" where
  "join_with sep [] = []"
| "join_with sep [x] = x"
| "join_with sep (x # xs) = x @ sep @ join_with sep xs"

definition pid_alive :: string where
  "pid_alive = ''if [ -s '' @ dquote @ ''$pid_file'' @ dquote @ '' ] && kill -0 '' @ dquote @ ''$(cat '' @ dquote @ ''$pid_file'' @ dquote @ '')'' @ dquote @ '' 2>/dev/null; then ''"

definition startCommand :: "IdeConfig \<Rightarrow> string" where
  "startCommand g =
     (let port = nat_digits (unat (ig_Port g)); q = (\<lambda>s. dquote @ s @ dquote); newline_fmt = (\<lambda>s. squote # s @ [backslash, CHR ''n'', squote]) in
      ''( '' @ join_with ''; ''
        [''set -eu'',
         ''state_dir=/var/lib/renderops/ide'',
         ''pid_file=$state_dir/openvscode.pid'',
         ''log_file=$state_dir/openvscode.log'',
         ''mkdir -p '' @ q ''$state_dir'' @ '' '' @ shellQuote (ig_Workspace g),
         pid_alive @ ''exit 0; fi'',
         ''rm -f '' @ q ''$pid_file'',
         ''[ -x '' @ shellQuote (ig_Binary g) @ '' ] || { printf '' @ newline_fmt ''OpenVSCode is not installed at %s'' @ '' '' @ shellQuote (ig_Binary g) @ '' >&2; exit 127; }'',
         ''nohup '' @ shellQuote (ig_Binary g) @ '' --host 0.0.0.0 --port '' @ port @ '' --without-connection-token '' @ shellQuote (ig_Workspace g)
           @ '' >'' @ q ''$log_file'' @ '' 2>&1 </dev/null & pid=$!'',
         ''printf '' @ newline_fmt ''%s'' @ '' '' @ q ''$pid'' @ '' >'' @ q ''$pid_file'',
         ''i=0; while [ '' @ q ''$i'' @ '' -lt 30 ]; do wget -q -O /dev/null http://127.0.0.1:'' @ port @ ''/ && exit 0; kill -0 '' @ q ''$pid''
           @ '' 2>/dev/null || break; i=$((i + 1)); sleep 1; done'',
         ''tail -n 20 '' @ q ''$log_file'' @ '' >&2 || true'',
         ''exit 1'']
      @ '' )'')"

definition statusCommand :: string where
  "statusCommand = ''pid_file=/var/lib/renderops/ide/openvscode.pid; '' @ pid_alive @ ''printf ready; else printf stopped; fi''"

definition stopCommand :: string where
  "stopCommand =
     (let q = (\<lambda>s. dquote @ s @ dquote) in
      ''pid_file=/var/lib/renderops/ide/openvscode.pid; if [ -s '' @ q ''$pid_file'' @ '' ]; then pid=$(cat '' @ q ''$pid_file'' @ ''); kill '' @ q ''$pid''
      @ '' 2>/dev/null || true; i=0; while kill -0 '' @ q ''$pid'' @ '' 2>/dev/null && [ '' @ q ''$i'' @ '' -lt 10 ]; do i=$((i + 1)); sleep 1; done; kill -9 '' @ q ''$pid''
      @ '' 2>/dev/null || true; fi; rm -f '' @ q ''$pid_file'')"

definition commandError :: "ExecResult \<Rightarrow> string" where
  "commandError r =
     (let message = trim_space (er_Stderr r) in if message \<noteq> [] then message else ''command exited with status '' @ itoa (er_ExitCode r))"

type_synonym 's command_runner = "string \<Rightarrow> string \<Rightarrow> int \<Rightarrow> 's \<Rightarrow> (go_error + ExecResult) \<times> 's"

definition ide_Start :: "'s command_runner \<Rightarrow> IdeConfig \<Rightarrow> string \<Rightarrow> 's \<Rightarrow> (go_error + IDEInstance) \<times> 's" where
  "ide_Start run g sandboxID s =
     (case run sandboxID (startCommand g) 45 s of
        (Inl e, s1) \<Rightarrow> (Inl (Wrapf ''start IDE'' e), s1)
      | (Inr r, s1) \<Rightarrow>
          if er_ExitCode r \<noteq> 0 then (Inl (ErrNew (''start IDE: '' @ commandError r)), s1)
          else (Inr \<lparr>ii_Port = ig_Port g, ii_State = ''ready''\<rparr>, s1))"

definition ide_Status :: "'s command_runner \<Rightarrow> IdeConfig \<Rightarrow> string \<Rightarrow> 's \<Rightarrow> (go_error + IDEInstance) \<times> 's" where
  "ide_Status run g sandboxID s =
     (case run sandboxID statusCommand 5 s of
        (Inl e, s1) \<Rightarrow> (Inl (Wrapf ''check IDE status'' e), s1)
      | (Inr r, s1) \<Rightarrow> (Inr \<lparr>ii_Port = ig_Port g, ii_State = (if trim_space (er_Stdout r) \<noteq> ''ready'' then ''stopped'' else ''ready'')\<rparr>, s1))"

definition ide_Stop :: "'s command_runner \<Rightarrow> string \<Rightarrow> 's \<Rightarrow> go_error option \<times> 's" where
  "ide_Stop run sandboxID s =
     (case run sandboxID stopCommand 10 s of
        (Inl e, s1) \<Rightarrow> (Some (Wrapf ''stop IDE'' e), s1)
      | (Inr r, s1) \<Rightarrow> if er_ExitCode r \<noteq> 0 then (Some (ErrNew (''stop IDE: '' @ commandError r)), s1) else (None, s1))"

section \<open>The worker's handler\<close>

datatype ide_answer = IdeFailed nat string string | IdeInstance IDEInstance | IdeNoContent

definition validWorkerToken :: "string \<Rightarrow> string \<Rightarrow> bool" where
  "validWorkerToken provided expected \<longleftrightarrow> (if expected = [] then True else if length provided \<noteq> length expected then False else provided = expected)"

definition ide_WorkerHandler :: "('s command_runner \<times> IdeConfig) option \<Rightarrow> string \<Rightarrow> string \<Rightarrow> string \<Rightarrow> string \<Rightarrow> 's \<Rightarrow> ide_answer \<times> 's" where
  "ide_WorkerHandler manager workerToken header path_id verb s =
     (case manager of
        None \<Rightarrow> (IdeFailed 401 ''unauthorized'' ''invalid or missing worker token'', s)
      | Some (run, g) \<Rightarrow>
          if \<not> validWorkerToken header workerToken then (IdeFailed 401 ''unauthorized'' ''invalid or missing worker token'', s)
          else
            let sandboxID = trim_space path_id in
            if sandboxID = [] then (IdeFailed 400 ''bad_request'' ''sandbox id is required'', s)
            else if verb = ''POST'' then
              (case ide_Start run g sandboxID s of (Inl e, s1) \<Rightarrow> (IdeFailed 502 ''ide_start_failed'' (error_text e), s1) | (Inr i, s1) \<Rightarrow> (IdeInstance i, s1))
            else if verb = ''GET'' then
              (case ide_Status run g sandboxID s of (Inl e, s1) \<Rightarrow> (IdeFailed 502 ''ide_status_failed'' (error_text e), s1) | (Inr i, s1) \<Rightarrow> (IdeInstance i, s1))
            else if verb = ''DELETE'' then
              (case ide_Stop run sandboxID s of (Some e, s1) \<Rightarrow> (IdeFailed 502 ''ide_stop_failed'' (error_text e), s1) | (None, s1) \<Rightarrow> (IdeNoContent, s1))
            else (IdeFailed 405 ''method_not_allowed'' ''use GET, POST, or DELETE'', s))"

section \<open>Who is let in\<close>

record CreateTerminalRequest =
  ct_Shell :: string
  ct_Columns :: "32 word"
  ct_Rows :: "32 word"

datatype access_answer =
    AccessError nat string string
  | TerminalCreated TermSession string string int
  | IdeCreated string int
  | PreviewCreated string int

record 's access_env =
  ax_GetSession :: "string \<Rightarrow> 's \<Rightarrow> SessionInfo option \<times> 's"
  ax_Placement :: "string \<Rightarrow> 's \<Rightarrow> (go_error + Placement) \<times> 's"
  ax_OpenTerminal :: "string \<Rightarrow> string \<Rightarrow> string \<Rightarrow> string \<Rightarrow> 32 word \<Rightarrow> 32 word \<Rightarrow> 's \<Rightarrow> go_error option \<times> 's"
  ax_CloseTerminal :: "string \<Rightarrow> string \<Rightarrow> string \<Rightarrow> 's \<Rightarrow> go_error option \<times> 's"
  ax_StartIDE :: "string \<Rightarrow> string \<Rightarrow> 's \<Rightarrow> (go_error + IDEInstance) \<times> 's"
  ax_QueryEscape :: "string \<Rightarrow> string"

text \<open>The checks that the three handlers begin with: the caller is known, owns_active the sandbox, and it is active.\<close>

definition admit :: "'s access_env \<Rightarrow> AuthInfo option \<Rightarrow> string \<Rightarrow> string \<Rightarrow> 's \<Rightarrow> (access_answer + AuthInfo) \<times> 's" where
  "admit A auth sandboxID inactive s =
     (case auth of
        None \<Rightarrow> (Inl (AccessError 401 ''unauthorized'' ''authentication is required''), s)
      | Some au \<Rightarrow>
          (case ax_GetSession A sandboxID s of
             (None, s1) \<Rightarrow> (Inl (AccessError 404 ''sandbox_not_found'' ''sandbox not found''), s1)
           | (Some sandbox, s1) \<Rightarrow>
               if si_UserID sandbox \<noteq> au_TenantID au then (Inl (AccessError 404 ''sandbox_not_found'' ''sandbox not found''), s1)
               else if si_State sandbox \<noteq> StateActive then (Inl (AccessError 409 ''sandbox_not_active'' inactive), s1)
               else (Inr au, s1)))"

definition terminal_request :: "(CreateTerminalRequest \<Rightarrow> go_error + CreateTerminalRequest) option \<Rightarrow> access_answer + CreateTerminalRequest" where
  "terminal_request body =
     (let initial = \<lparr>ct_Shell = ''/bin/bash'', ct_Columns = 120, ct_Rows = 32\<rparr> in
      case (case body of None \<Rightarrow> Inr initial | Some decode \<Rightarrow> decode initial) of
        Inl e \<Rightarrow> Inl (AccessError 400 ''invalid_terminal_options'' ''invalid terminal options'')
      | Inr r0 \<Rightarrow>
          let r = \<lparr>ct_Shell = (if ct_Shell r0 = [] then ''/bin/bash'' else ct_Shell r0), ct_Columns = (if ct_Columns r0 = 0 then 120 else ct_Columns r0),
                   ct_Rows = (if ct_Rows r0 = 0 then 32 else ct_Rows r0)\<rparr> in
          if ct_Shell r \<noteq> ''/bin/bash'' \<or> ct_Columns r < 20 \<or> ct_Columns r > 500 \<or> ct_Rows r < 5 \<or> ct_Rows r > 200
          then Inl (AccessError 400 ''invalid_terminal_options'' ''unsupported shell or terminal size'') else Inr r)"

text \<open>The clock is read when the terminal is reserved, authorized and answered.\<close>

record terminal_inputs =
  ti_reserve :: int
  ti_authorize :: int
  ti_answer :: int
  ti_terminal_bytes :: "go_error + string"
  ti_token_bytes :: "go_error + string"

definition open_terminal ::
    "mac \<Rightarrow> TermClaims codec \<Rightarrow> 's access_env \<Rightarrow> terminal_inputs \<Rightarrow> string \<Rightarrow> AuthInfo \<Rightarrow> CreateTerminalRequest \<Rightarrow> Placement
     \<Rightarrow> TermManager \<times> 's \<Rightarrow> access_answer \<times> TermManager \<times> 's" where
  "open_terminal hmac J A I sandboxID au r pl st =
     (case st of (m, s) \<Rightarrow>
      case term_Reserve (ti_reserve I) (ti_terminal_bytes I) sandboxID (au_TenantID au) (WorkerID pl) m of
        (Inl e, m1) \<Rightarrow> (AccessError 500 ''terminal_authorization_failed'' ''failed to authorize terminal'', m1, s)
      | (Inr session, m1) \<Rightarrow>
          let i = ts_ID session in
          (case ax_OpenTerminal A (Endpoint pl) sandboxID i (ct_Shell r) (ct_Columns r) (ct_Rows r) s of
             (Some e, s1) \<Rightarrow> (AccessError 502 ''terminal_creation_failed'' ''worker failed to create terminal'', term_Cancel i m1, s1)
           | (None, s1) \<Rightarrow>
               (case term_Authorize hmac J (ti_authorize I) (ti_token_bytes I) i m1 of
                  (Inl e, m2) \<Rightarrow>
                    (AccessError 500 ''terminal_authorization_failed'' ''failed to authorize terminal'', term_Cancel i m2, snd (ax_CloseTerminal A (Endpoint pl) sandboxID i s1))
                | (Inr (session', token), m2) \<Rightarrow>
                    (TerminalCreated session' (''/v1/terminals/'' @ ts_ID session') token
                       (max 0 ((case ts_ExpiresAt session' of Some t \<Rightarrow> t - ti_answer I | None \<Rightarrow> 0) div 1000000000)), m2, s1))))"

definition CreateTerminalHandler ::
    "mac \<Rightarrow> TermClaims codec \<Rightarrow> 's access_env \<Rightarrow> terminal_inputs \<Rightarrow> AuthInfo option \<Rightarrow> string
     \<Rightarrow> (CreateTerminalRequest \<Rightarrow> go_error + CreateTerminalRequest) option \<Rightarrow> TermManager \<times> 's \<Rightarrow> access_answer \<times> TermManager \<times> 's" where
  "CreateTerminalHandler hmac J A I auth sandboxID body st =
     (case st of (m, s) \<Rightarrow>
      case admit A auth sandboxID ''sandbox must be active before opening a terminal'' s of
        (Inl a, s1) \<Rightarrow> (a, m, s1)
      | (Inr au, s1) \<Rightarrow>
          (case terminal_request body of
             Inl a \<Rightarrow> (a, m, s1)
           | Inr r \<Rightarrow>
               (case ax_Placement A sandboxID s1 of
                  (Inl e, s2) \<Rightarrow>
                    ((if errors_is e OrchErrSandboxNotFound then AccessError 409 ''sandbox_not_placed'' ''sandbox worker placement is unavailable''
                      else AccessError 503 ''placement_unavailable'' ''sandbox worker placement is unavailable''), m, s2)
                | (Inr pl, s2) \<Rightarrow> open_terminal hmac J A I sandboxID au r pl (m, s2))))"

definition trim_dot :: "string \<Rightarrow> string" where
  "trim_dot s = (if s \<noteq> [] \<and> List.last s = CHR ''.'' then butlast s else s)"

definition access_url :: "'s access_env \<Rightarrow> 16 word \<Rightarrow> string \<Rightarrow> string \<Rightarrow> string \<Rightarrow> string \<Rightarrow> string" where
  "access_url A port sandboxID domain param token =
     ''https://'' @ nat_digits (unat port) @ ''-'' @ sandboxID @ ''.'' @ trim_dot (trim_space domain) @ ''/?'' @ param @ ''='' @ ax_QueryEscape A token"

definition CreateIDESessionHandler ::
    "mac \<Rightarrow> IdeClaims codec \<Rightarrow> string \<Rightarrow> 's access_env \<Rightarrow> int \<Rightarrow> string \<Rightarrow> string \<Rightarrow> AuthInfo option \<Rightarrow> string \<Rightarrow> 's \<Rightarrow> access_answer \<times> 's" where
  "CreateIDESessionHandler hmac J key A now_at nonce domain auth sandboxID s =
     (case admit A auth sandboxID ''sandbox must be active before opening the IDE'' s of
        (Inl a, s1) \<Rightarrow> (a, s1)
      | (Inr au, s1) \<Rightarrow>
          (case ax_Placement A sandboxID s1 of
             (Inl e, s2) \<Rightarrow> (AccessError 503 ''placement_unavailable'' ''sandbox worker placement is unavailable'', s2)
           | (Inr pl, s2) \<Rightarrow>
               if Endpoint pl = [] \<or> pl_State pl \<noteq> ''active'' then (AccessError 503 ''placement_unavailable'' ''sandbox worker placement is unavailable'', s2)
               else
                 (case ax_StartIDE A (Endpoint pl) sandboxID s2 of
                    (Inl e, s3) \<Rightarrow> (AccessError 502 ''ide_start_failed'' ''worker failed to start the IDE'', s3)
                  | (Inr inst, s3) \<Rightarrow>
                      if ii_State inst \<noteq> ''ready'' \<or> ii_Port inst \<noteq> DefaultPort then (AccessError 502 ''ide_start_failed'' ''worker failed to start the IDE'', s3)
                      else
                        (case IssueHandoff hmac J key now_at nonce sandboxID (au_TenantID au) [] ''owner'' (ii_Port inst) DefaultHandoffTTL of
                           Inl e \<Rightarrow> (AccessError 500 ''ide_authorization_failed'' ''failed to authorize the IDE'', s3)
                         | Inr (token, claims) \<Rightarrow> (IdeCreated (access_url A (ii_Port inst) sandboxID domain ''ro_auth'' token) (ic_ExpiresAt claims), s3)))))"

definition CreatePreviewHandler ::
    "mac \<Rightarrow> PreviewClaims codec \<Rightarrow> string \<Rightarrow> 's access_env \<Rightarrow> int \<Rightarrow> string \<Rightarrow> AuthInfo option \<Rightarrow> string \<Rightarrow> string \<Rightarrow> (int \<Rightarrow> go_error + int) option
     \<Rightarrow> 's \<Rightarrow> access_answer \<times> 's" where
  "CreatePreviewHandler hmac J key A now_at domain auth sandboxID port_text body s =
     (case admit A auth sandboxID ''sandbox must be active before creating a preview'' s of
        (Inl a, s1) \<Rightarrow> (a, s1)
      | (Inr au, s1) \<Rightarrow>
          (case ParsePort port_text of
             Inl e \<Rightarrow> (AccessError 400 ''invalid_preview_port'' (error_text e), s1)
           | Inr port \<Rightarrow>
               (case (case body of None \<Rightarrow> Inr 3600 | Some decode \<Rightarrow> decode 3600) of
                  Inl e \<Rightarrow> (AccessError 400 ''invalid_preview_options'' ''invalid preview options'', s1)
                | Inr secs \<Rightarrow>
                    (case preview_Sign hmac J key now_at sandboxID (au_TenantID au) port (wrap64 (secs * 1000000000)) of
                       Inl e \<Rightarrow> (AccessError 400 ''invalid_preview_options'' (error_text e), s1)
                     | Inr (token, expiresAt) \<Rightarrow> (PreviewCreated (access_url A port sandboxID domain ''_renderops_token'' token) expiresAt, s1)))))"

section \<open>Only owners\<close>

definition owns_active :: "'s access_env \<Rightarrow> AuthInfo option \<Rightarrow> string \<Rightarrow> 's \<Rightarrow> bool" where
  "owns_active A auth sandboxID s \<longleftrightarrow> (\<exists>au sandbox s'. auth = Some au \<and> ax_GetSession A sandboxID s = (Some sandbox, s')
     \<and> si_UserID sandbox = au_TenantID au \<and> si_State sandbox = StateActive)"

fun granted :: "access_answer \<Rightarrow> bool" where
  "granted (AccessError n c m) = False"
| "granted (TerminalCreated t p tok n) = True"
| "granted (IdeCreated u e) = True"
| "granted (PreviewCreated u e) = True"

lemma admit_cases:
  assumes "admit A auth i msg s = (out, s')"
  obtains (refused) a where "out = Inl a" "\<not> granted a" | (admitted) au where "out = Inr au" "owns_active A auth i s" "auth = Some au"
  using assms by (auto simp: admit_def owns_active_def split: option.splits prod.splits if_splits)

lemma terminal_request_refused: "terminal_request body = Inl a \<Longrightarrow> \<not> granted a"
  by (auto simp: terminal_request_def Let_def split: option.splits sum.splits if_splits)

lemma open_terminal_of:
  assumes run: "open_terminal hmac J A I i au r pl (m, s) = (TerminalCreated ses p tok n, m', s')"
  shows "ts_UserID ses = trim_space (au_TenantID au)" "ts_SandboxID ses = trim_space i"
proof -
  obtain o1 m1 where res: "term_Reserve (ti_reserve I) (ti_terminal_bytes I) i (au_TenantID au) (WorkerID pl) m = (o1, m1)" by fastforce
  obtain s0 where s0: "o1 = Inr s0" using run res by (cases o1) (auto simp: open_terminal_def)
  have rec: "mget (tm_sessions m1) (ts_ID s0) = Some \<lparr>tr_Session = s0, tr_tokenID = [], tr_consumed = False\<rparr>"
      "ts_UserID s0 = trim_space (au_TenantID au)" "ts_SandboxID s0 = trim_space i"
    using res s0 by (auto simp: term_Reserve_def Let_def split: if_splits sum.splits)
  obtain m2 where "term_Authorize hmac J (ti_authorize I) (ti_token_bytes I) (ts_ID s0) m1 = (Inr (ses, tok), m2)"
    using run res s0 by (auto simp: open_terminal_def Let_def split: prod.splits option.splits sum.splits)
  then show "ts_UserID ses = trim_space (au_TenantID au)" "ts_SandboxID ses = trim_space i"
    using rec by (cases rule: Authorize_effect; simp)+
qed

text \<open>
  C3: Nobody gets into a sandbox of somebody else: a terminal, an IDE session or a preview is handed out only to an authenticated caller whose
  tenant owns_active the sandbox, and only while the sandbox is active; a terminal that is handed out carries that tenant and that sandbox.
\<close>

theorem access_is_for_owners:
  shows "(granted (fst (CreateTerminalHandler hmac J A I auth i body (m, s))) \<longrightarrow> owns_active A auth i s)
         \<and> (\<forall>ses p tok n. fst (CreateTerminalHandler hmac J A I auth i body (m, s)) = TerminalCreated ses p tok n \<longrightarrow>
               (\<exists>au. auth = Some au \<and> ts_UserID ses = trim_space (au_TenantID au) \<and> ts_SandboxID ses = trim_space i))
         \<and> (granted (fst (CreateIDESessionHandler hmac K key A t nonce domain auth i s)) \<longrightarrow> owns_active A auth i s)
         \<and> (granted (fst (CreatePreviewHandler hmac L key A t domain auth i port opts s)) \<longrightarrow> owns_active A auth i s)"
proof (intro conjI impI allI)
  fix ses p tok n
  obtain o1 s1 where a1: "admit A auth i ''sandbox must be active before opening a terminal'' s = (o1, s1)" by fastforce
  assume created: "fst (CreateTerminalHandler hmac J A I auth i body (m, s)) = TerminalCreated ses p tok n"
  show "\<exists>au. auth = Some au \<and> ts_UserID ses = trim_space (au_TenantID au) \<and> ts_SandboxID ses = trim_space i"
    using a1
  proof (cases rule: admit_cases)
    case (refused a)
    then show ?thesis using created a1 by (auto simp: CreateTerminalHandler_def)
  next
    case (admitted au)
    obtain r pl s2 m' s' where "open_terminal hmac J A I i au r pl (m, s2) = (TerminalCreated ses p tok n, m', s')"
      using created a1 admitted(1) terminal_request_refused[of body]
      by (auto simp: CreateTerminalHandler_def split: sum.splits prod.splits if_splits) (metis prod.collapse)
    from open_terminal_of[OF this] show ?thesis using admitted(3) by simp
  qed
next
  obtain o1 s1 where a1: "admit A auth i ''sandbox must be active before opening a terminal'' s = (o1, s1)" by fastforce
  assume "granted (fst (CreateTerminalHandler hmac J A I auth i body (m, s)))"
  with a1 show "owns_active A auth i s"
    by (cases rule: admit_cases[OF a1]) (auto simp: CreateTerminalHandler_def)
next
  obtain o1 s1 where a1: "admit A auth i ''sandbox must be active before opening the IDE'' s = (o1, s1)" by fastforce
  assume "granted (fst (CreateIDESessionHandler hmac K key A t nonce domain auth i s))"
  with a1 show "owns_active A auth i s"
    by (cases rule: admit_cases[OF a1]) (auto simp: CreateIDESessionHandler_def)
next
  obtain o1 s1 where a1: "admit A auth i ''sandbox must be active before creating a preview'' s = (o1, s1)" by fastforce
  assume "granted (fst (CreatePreviewHandler hmac L key A t domain auth i port opts s))"
  with a1 show "owns_active A auth i s"
    by (cases rule: admit_cases[OF a1]) (auto simp: CreatePreviewHandler_def)
qed

section \<open>A refused terminal leaves nothing\<close>

definition no_new_terminal :: "TermManager \<Rightarrow> TermManager \<Rightarrow> bool" where
  "no_new_terminal m m' \<longleftrightarrow> (\<forall>k r. mget (tm_sessions m') k = Some r \<longrightarrow> mget (tm_sessions m) k = Some r)"

lemma open_terminal_refused:
  assumes run: "open_terminal hmac J A I i au r pl (m, s) = (AccessError n c msg, m', s')" and wf: "term_wf m"
  shows "no_new_terminal m m'"
proof -
  obtain o1 m1 where res: "term_Reserve (ti_reserve I) (ti_terminal_bytes I) i (au_TenantID au) (WorkerID pl) m = (o1, m1)" by fastforce
  show ?thesis
    using res
  proof (cases rule: Reserve_effect)
    case (refused e)
    then show ?thesis using run res by (simp add: open_terminal_def no_new_terminal_def)
  next
    case (reserved bytes ses)
    obtain o2 s1 where op: "ax_OpenTerminal A (Endpoint pl) i (ts_ID ses) (ct_Shell r) (ct_Columns r) (ct_Rows r) s = (o2, s1)" by fastforce
    obtain o3 m2 where au: "term_Authorize hmac J (ti_authorize I) (ti_token_bytes I) (ts_ID ses) m1 = (o3, m2)" by fastforce
    have "m' = term_Cancel (ts_ID ses) m1 \<or> (\<exists>e. o3 = Inl e) \<and> m' = term_Cancel (ts_ID ses) m2"
      using run res op au reserved(2) by (auto simp: open_terminal_def Let_def split: option.splits sum.splits prod.splits)
    moreover have "m2 = m1" if "o3 = Inl e" for e
      using au that by (auto simp: term_Authorize_def randomID_def Let_def split: sum.splits option.splits if_splits)
    ultimately have "m' = term_Cancel (ts_ID ses) m1" by auto
    then show ?thesis using pruned(2)[OF wf] reserved by (auto simp: no_new_terminal_def term_Cancel_def split: if_splits)
  qed
qed

text \<open>
  C32: A terminal that could not be created leaves nothing behind: whenever the handler answers with an error, be it a refused caller, a bad
  request, a missing placement, a worker that fails or a token that cannot be made, no terminal is known afterwards that was not known before.
\<close>

theorem refused_terminal_leaves_nothing:
  assumes run: "CreateTerminalHandler hmac J A I auth i body (m, s) = (AccessError n c msg, m', s')" and wf: "term_wf m"
  shows "no_new_terminal m m'"
proof -
  have self: "no_new_terminal m m" by (simp add: no_new_terminal_def)
  obtain o1 s1 where a1: "admit A auth i ''sandbox must be active before opening a terminal'' s = (o1, s1)" by fastforce
  have "m' = m \<or> (\<exists>au r pl s2. open_terminal hmac J A I i au r pl (m, s2) = (AccessError n c msg, m', s'))"
    using run a1 by (auto simp: CreateTerminalHandler_def split: sum.splits prod.splits if_splits)
  then show ?thesis
  proof (elim disjE exE)
    fix au r pl s2
    assume "open_terminal hmac J A I i au r pl (m, s2) = (AccessError n c msg, m', s')"
    then show ?thesis using wf by (rule open_terminal_refused)
  qed (use self in simp)
qed

section \<open>A quoted path is one word\<close>

text \<open>
  How a POSIX shell reads a word: a single quote opens a piece that runs to the next one, a backslash takes the next character as it is, a blank or
  an operator ends the word. A double quote, a dollar sign and a backquote begin an expansion, which is not read here.
\<close>

fun sh_word :: "bool \<Rightarrow> string \<Rightarrow> (string \<times> string) option" where
  "sh_word True [] = None"
| "sh_word True (c # s) = (if c = squote then sh_word False s else map_option (\<lambda>(w, r). (c # w, r)) (sh_word True s))"
| "sh_word False [] = Some ([], [])"
| "sh_word False (c # s) =
     (if c = squote then sh_word True s
      else if c = backslash then (case s of [] \<Rightarrow> None | d # t \<Rightarrow> map_option (\<lambda>(w, r). (d # w, r)) (sh_word False t))
      else if c \<in> {CHR 0x22, CHR ''$'', CHR 0x60} then None
      else if is_space c \<or> c \<in> {CHR '';'', CHR ''&'', CHR ''|'', CHR ''<'', CHR ''>'', CHR ''('', CHR '')''} then Some ([], c # s)
      else map_option (\<lambda>(w, r). (c # w, r)) (sh_word False s))"

lemma sh_word_quoted:
  "sh_word True (concat (map (\<lambda>c. if c = squote then [squote, backslash, squote, squote] else [c]) v) @ squote # rest)
     = map_option (\<lambda>(w, r). (v @ w, r)) (sh_word False rest)"
  by (induction v) (auto simp: option.map_comp comp_def case_prod_unfold option.map_ident)

text \<open>
  A path in an IDE command is one word of the shell: whatever characters the configured binary or workspace has, quotes, blanks and operators
  included, a shell that reads the quoted form gets exactly the path and goes on after it, so that no part of it is run as a command.
\<close>

theorem quoted_path_is_one_word:
  assumes "rest = [] \<or> is_space (hd rest)"
  shows "sh_word False (shellQuote v @ rest) = Some (v, rest)"
proof -
  have "sh_word False rest = Some ([], rest)"
    using assms by (cases rest) (auto simp: is_space_def)
  then show ?thesis by (simp add: shellQuote_def sh_word_quoted)
qed

section \<open>A sample caller\<close>

definition sample_open_sandbox :: SessionInfo where
  "sample_open_sandbox = \<lparr>si_ID = ''sb'', si_UserID = ''u2'', si_Image = [], si_BillingModel = [], si_VCPUs = 1, si_MemoryMB = 256, si_DiskGB = 1, si_Env = [],
     si_Internet = False, si_IdleTimeout = 0, si_MaxLifetime = 0, si_CreatedAt = 0, si_LastUsed = 0, si_State = StateActive, si_RunCount = 0,
     si_TotalExecutionMs = 0, si_LastExitCode = None\<rparr>"

definition sample_access :: "go_error option \<Rightarrow> unit access_env" where
  "sample_access e = \<lparr>ax_GetSession = (\<lambda>i s. (Some sample_open_sandbox, s)),
     ax_Placement = (\<lambda>i s. (Inr \<lparr>pl_SandboxID = i, WorkerID = ''w1'', Endpoint = ''http://w1'', pl_State = ''active''\<rparr>, s)),
     ax_OpenTerminal = (\<lambda>ep i t sh c r s. (e, s)), ax_CloseTerminal = (\<lambda>ep i t s. (None, s)),
     ax_StartIDE = (\<lambda>ep i s. (Inr \<lparr>ii_Port = DefaultPort, ii_State = ''ready''\<rparr>, s)), ax_QueryEscape = (\<lambda>s. s)\<rparr>"

definition sample_inputs_now :: terminal_inputs where
  "sample_inputs_now = \<lparr>ti_reserve = 0, ti_authorize = 1, ti_answer = 2, ti_terminal_bytes = Inr ''a'', ti_token_bytes = Inr ''b''\<rparr>"

lemma sample_granted:
  "granted (fst (CreateTerminalHandler sample_mac (text_codec term_text) (sample_access None) sample_inputs_now (Some sample_stranger) ''sb'' None (sample_terminals, ())))"
  by (simp add: CreateTerminalHandler_def admit_def sample_access_def sample_open_sandbox_def sample_stranger_def terminal_request_def open_terminal_def sample_inputs_now_def
      term_Reserve_def term_Authorize_def randomID_def trim_space_def is_space_def pruneExpiredLocked_def sample_terminals_def Let_def)

theorem access_is_for_owners_witness: "owns_active (sample_access None) (Some sample_stranger) ''sb'' ()"
  using access_is_for_owners[of sample_mac "text_codec term_text" "sample_access None" sample_inputs_now "Some sample_stranger" "''sb''" None sample_terminals "()"]
    sample_granted by blast

lemma sample_refused:
  "CreateTerminalHandler sample_mac (text_codec term_text) (sample_access (Some (ErrNew ''no pty''))) sample_inputs_now (Some sample_stranger) ''sb'' None (sample_terminals, ())
     = (AccessError 502 ''terminal_creation_failed'' ''worker failed to create terminal'', sample_terminals, ())"
  by (simp add: CreateTerminalHandler_def admit_def sample_access_def sample_open_sandbox_def sample_stranger_def terminal_request_def open_terminal_def sample_inputs_now_def
      term_Reserve_def term_Cancel_def randomID_def trim_space_def is_space_def pruneExpiredLocked_def sample_terminals_def Let_def)

theorem refused_terminal_leaves_nothing_witness: "no_new_terminal sample_terminals sample_terminals"
  using refused_terminal_leaves_nothing[OF sample_refused] by (simp add: term_wf_def sample_terminals_def mwf_def)

theorem quoted_path_is_one_word_witness: "sh_word False (shellQuote ''/a b; rm -rf x'' @ '' ]'') = Some (''/a b; rm -rf x'', '' ]'')"
  using quoted_path_is_one_word[of "'' ]''" "''/a b; rm -rf x''"] by (simp add: is_space_def)

end
