(* ===== verification/Spec2Isabelle.thy ===== *)
theory Spec2Isabelle
  imports Orchestrator Worker_Server Metering Recovery Checkpoint_Roundtrip Preview_Gateway Terminals Authentication Vsock_Client Template_Builder Host_Setup Access_API
begin

text \<open>
  Verification of the RenderOps sandbox runtime.

  \<^bold>\<open>The program.\<close> A control plane sells sandboxes, Firecracker micro-VMs that run a customer's
  code. An orchestrator decides on which worker a sandbox lives and keeps its durable state in a
  database. A worker holds the VMs: its HTTP server checks admission, its session manager creates,
  runs, pauses, resumes and destroys sandboxes with the help of pools of ready VMs, the Firecracker
  manager and a store of writable disks, and it reports state changes to the orchestrator and raw
  usage to the control plane. Inside each VM an agent runs code, commands and terminals. The Go sources are under
  \<open>src/backend\<close> and \<open>src/guest-agent\<close>.

  \<^bold>\<open>Theories and what they model.\<close>
  \<^item> \<open>Prelude\<close>: Go strings, errors (\<open>errors.Is\<close>, \<open>%w\<close>), maps as association lists, 64-bit wrap,
    and the locale \<open>keyed_system\<close> for operations that each concern one key.
  \<^item> \<open>Sizes\<close> (\<open>vmsize\<close>, \<open>sandboximage\<close>) and \<open>Plane\<close> (\<open>plane\<close>): the menu of VM shapes, image
    names, and the requests that cross the wire.
  \<^item> \<open>Admission\<close> (\<open>worker/admission.go\<close>, \<open>worker/disk_capacity.go\<close>): the reservations of a worker,
    each method a function on the record \<open>Admission\<close>; statfs words are 64 bits wide. Shown: over any
    sequence of calls what was checked is within the capacity, and what runs unchecked (\<open>MarkActive\<close>, \<open>Restore\<close>, kept as the sets of \<open>ghost_step\<close>) is never
    added to by a checked call that does not fit; exactly when a create is admitted, pause and resume
    as inverse operations, and the disk bound. The locale \<open>admission_control\<close> is the contract of
    a reservation book, interpreted on these methods.
  \<^item> \<open>Placement\<close> (\<open>platform/orchestration.go\<close>): the transactions on the tables of workers and
    sandboxes, every statement able to fail. Shown: each but the explicit release of a placement refines one step of the sandbox lifecycle,
    placed rows and workers stay consistent, best-of-three selection.
  \<^item> \<open>Orchestrator\<close> (\<open>orchestrator/orchestrator.go\<close>): the service over a store and worker client
    given as arguments; the locales \<open>placement_store\<close> and \<open>reliable_store\<close> state what it relies on
    and are interpreted on the transactions of \<open>Placement\<close>. Shown: provisioning ends and cleans up,
    pause, resume and destroy follow the worker.
  \<^item> \<open>Writable_Disk\<close> (\<open>writabledisk/filesystem.go\<close>): paths, creation, cloning, deletion.
  \<^item> \<open>Vm_Manager\<close> (\<open>executor/firecracker/vm_manager.go\<close>): the host as a record (VMs, slots,
    processes, files, TAPs, egress rules, cgroups); every system or API call may fail as the
    environment decides. Shown: slots are conserved, a failed restore leaves the host as it was.
  \<^item> \<open>Vm_Pool\<close> (\<open>executor/firecracker/vm_pool.go\<close>, \<open>cgroup/cgroup.go\<close>): the methods, and an
    inductive step relation for the goroutines the pool starts. Shown: capacity under every
    interleaving.
  \<^item> \<open>Session_Store\<close> (\<open>session/store.go\<close>, \<open>manifest.go\<close>) and \<open>Session_Manager\<close>
    (\<open>session/manager.go\<close>): sessions, the manifest of paused ones, and every operation on them, as
    functions on the record \<open>Manager\<close>, which contains the pools and the host. \<open>Session_Safety\<close>
    proves isolation between sessions (two interpretations of \<open>keyed_system\<close>), network policy, pause
    and resume, and the reaper; \<open>Recovery\<close> the restart; \<open>Session_Reports\<close> what the state hook hears.
  \<^item> \<open>Worker_Server\<close> (\<open>worker/server.go\<close>, the hooks of \<open>cmd/worker/main.go\<close>): the HTTP handlers over
    manager and admission. Shown here and at the end of this theory: reservations and sessions
    agree over the whole life of a worker process.
  \<^item> \<open>Metering\<close> (\<open>metering\<close>, \<open>AccrueUsageMeters\<close>): from the meter of a session to the ledger.
    Shown: exact billing, exact delivery over a lossy network as long as a sandbox stays on its worker, and that the shutdown loop ends.
  \<^item> \<open>Checkpoint\<close>, \<open>Checkpoint_Store\<close> (\<open>checkpoint/writer.go\<close>, \<open>reader.go\<close>), with \<open>Paths\<close> for \<open>path.Clean\<close> and \<open>path.Join\<close>: generations
    of durable checkpoints over an object store. \<open>Checkpoint_Safety\<close>: a restore reads only objects of its sandbox, is all or
    nothing, and skipping the holes of a disk changes nothing. \<open>Checkpoint_Roundtrip\<close>: what was saved is restored byte for byte.
  \<^item> \<open>Base64\<close>, \<open>Tokens\<close> (\<open>preview/token.go\<close>, \<open>ideauth/token.go\<close>): signed tokens; the locale \<open>nonce_store\<close> is the contract of the
    store of used nonces. \<open>Preview_Gateway\<close> (\<open>previewgateway/gateway.go\<close>): what the gateway lets through, up to the worker's proxy.
    \<open>Terminals\<close> (\<open>terminal/manager.go\<close>): attachment tokens; the locale \<open>single_use\<close> says when a use is bounded by its reservations.
  \<^item> \<open>Orchestrator_API\<close> (\<open>orchestrator/http.go\<close>, \<open>client.go\<close>): routes, tokens, and errors across the wire.
  \<^item> \<open>Control_Plane\<close> (\<open>controlplane/service.go\<close>, \<open>agent/client.go\<close>, \<open>platform/sandbox.go\<close>) and \<open>Billing\<close> (\<open>platform/profile.go\<close>): the
    service behind the public API over the rows of the database, the orchestrator's client and the workers' answers; what is charged.
  \<^item> \<open>Session_API\<close> (\<open>handler/session.go\<close>, \<open>usage.go\<close>, \<open>sizes.go\<close>, \<open>json.go\<close>): the public API over the interfaces \<open>plane.Service\<close> and
    \<open>platform.UsageLogger\<close>, with what those must keep as the locale \<open>tenant_service\<close>. \<open>Tenants\<close> interprets it on the
    control plane, down to the transactions of \<open>Placement\<close> and the calls to workers. \<open>Authentication\<close> (\<open>middleware/auth.go\<close>,
    \<open>platform/client.go\<close>, \<open>session.go\<close>) is in front of it: only a credential of the owner reaches a sandbox, and a revoked key
    is refused after the lifetime of the cache.
  \<^item> \<open>Guest_Agent\<close>, with \<open>Guest_Network\<close> and \<open>Guest_Terminal\<close> (\<open>guest-agent/main.go\<close>, \<open>terminal.go\<close>): the agent of a VM as a
    function on the record \<open>guest\<close> of its interpreters, shell and terminals; an inductive relation \<open>guest_move\<close> of the moves every
    message consists of gives its invariants, and one of the goroutines of a terminal (\<open>output_run\<close>) what an attached client gets.
    \<open>Vsock_Client\<close> (\<open>executor/firecracker/vsock_client.go\<close>) joins the worker to it. Shown: what a command reports, which processes the agent keeps after a reset
    and a resume, that the tables stay well-formed, that dialling ends, that the worker outwaits the guest.
  \<^item> \<open>Terminal_Wire\<close> (\<open>handler/terminal_websocket.go\<close>, \<open>agent/terminal_grpc.go\<close>, \<open>worker/terminal_grpc.go\<close>,
    \<open>terminal_stream.go\<close>): a terminal from the browser to the shell and back, with the locale \<open>framing\<close> for the two framed channels.
  \<^item> \<open>Template_Store\<close>, \<open>Template_Cache\<close>, \<open>Template_Builder\<close> (\<open>template\<close>, \<open>cmd/template-builder\<close>, \<open>cmd/worker/templates.go\<close>): releases of
    VM templates from the builder through an object store to the cache of a worker, as operations on the record \<open>depot\<close> of objects and
    files; the locale \<open>artifact_contract\<close> is the contract of an object store, interpreted on the blob store and on the compressed store over
    it. Shown: the active release is complete, what is marked ready is verified, what was published is restored, every size is served, and a
    finished builder leaves a release that workers accept.
  \<^item> \<open>Host_Setup\<close> (\<open>bootstrap\<close>, \<open>workerplane/host\<close>, \<open>workerplane/config\<close>): configuration, capacity, assets, provisioning and the order of the
    start-up. Shown: network slots for every sandbox that runs after a check of \<open>Admission\<close>, and assets as their manifest describes them.
  \<^item> \<open>Access_API\<close> (\<open>handler/terminal.go\<close>, \<open>ide.go\<close>, \<open>preview.go\<close>, \<open>ide\<close>): who gets a terminal, an IDE session or a preview; a refused terminal
    leaves nothing; a path in an IDE command is one word of the shell.

  \<^bold>\<open>Conventions.\<close> A method is a function that returns its result and the new state; an error is a
  value \<open>Inl e\<close> or \<open>Some e\<close>. Code outside the repository (UUIDs, the clock, Firecracker, the file
  system's failures, the network, the guest's answers) is an argument: the records \<open>fc_env\<close>,
  \<open>mgr_env\<close>, \<open>svc_env\<close>, \<open>gw_env\<close>, \<open>client_env\<close>, \<open>cp_env\<close>, \<open>auth_env\<close>, \<open>guest_env\<close>, \<open>template_env\<close>, \<open>host_env\<close>, \<open>host_system\<close>, \<open>access_env\<close> and the metering environment. Loops that may not end carry fuel: the placement
  and provisioning loops are bounded by the attempts and by the number of workers, which
  \<open>provision_settles\<close> shows to be enough, and the reporter's drain loop by the bound in
  \<open>shutdown_drains_the_queue\<close>; the readers of terminal frames have the length of their input as fuel, which is enough since every frame
  has a header. Dialling and the copy of a sparse file are total functions with termination proofs. Amounts of usage, balances and costs are rationals where the code has \<open>float64\<close>.

  \<^bold>\<open>What is assumed of other code.\<close> UUIDs are fresh and name no other sandbox; SHA-256 does not collide on the chunks of one
  disk; a token that verifies was signed (\<open>authentic\<close>); JSON codecs read back what they wrote (\<open>exact\<close>, \<open>provision_json_ok\<close>); a URL
  built from a base and a plain path is parsed into that path (\<open>url_ok\<close>); files are shorter than \<open>2^62\<close> bytes; PostgreSQL reads a time
  back to the microsecond (\<open>pg_times\<close>), the JSON of an active pointer reads back its release (\<open>pointer_json\<close>), building VMs leaves
  the object store alone (\<open>builds_locally\<close>), and \<open>time.Parse\<close> reads what \<open>time.Format\<close> wrote (\<open>rfc3339_ok\<close>). Each is a named hypothesis of
  the theorems that need it, with a witness that instantiates it.

  \<^bold>\<open>Not modelled.\<close> The wiring of the processes in their \<open>main\<close> functions apart from \<open>start_worker\<close> and the template builder; building
  templates at the start of a worker; listing the objects of a store; entering a network namespace; the script that provisions a host; the generated
  gRPC code; the text of logs and metrics; the bytes that the reverse proxies copy; concurrency inside the session manager other than
  the interleavings of a pool, since calls on one session hold its mutex.
\<close>

section \<open>The worker process\<close>

text \<open>
  What \<open>main\<close> of \<open>backend/cmd/worker\<close> builds once the VM pools exist and the orchestrator is
  configured: the session manager with what the manifest and the disk of the previous process
  left, the reservations of the recovered sessions, and the server over both.
\<close>

definition start_worker ::
    "mgr_env \<Rightarrow> SnapshotTemplate option \<Rightarrow> VMConfig \<Rightarrow> int \<Rightarrow> (string, VMPool) gomap
     \<Rightarrow> (string, SnapshotTemplate) gomap \<Rightarrow> bool \<Rightarrow> pausedRecord list option \<Rightarrow> Host
     \<Rightarrow> bool \<Rightarrow> int \<Rightarrow> string \<Rightarrow> Admission \<Rightarrow> Worker" where
  "start_worker X template cfg maxSessions pools templates onMeter_given manifest h checkpoints
     terminals token admission =
     (let m0 = NewManager X template cfg maxSessions pools templates True onMeter_given manifest h;
          m1 = (if checkpoints then SetCheckpointReader (SetCheckpointWriter m0) else m0);
          m2 = SetMaxTerminalsPerSandbox terminals m1
      in NewServerWithAdmission m2 token (restore_reservations m2 admission))"

lemma start_worker_inv:
  assumes "reservations a = []"
  shows "worker_inv (start_worker X template cfg maxSessions pools templates onM manifest h ck n token a)"
proof -
  define m0 where "m0 = NewManager X template cfg maxSessions pools templates True onM manifest h"
  have r: "store_inv (m_store m0)" "list_all (\<lambda>s. s_State s = StatePaused) (All (m_store m0))" "onState_set m0"
    using NewManager_recovered[of X template cfg maxSessions pools templates True onM manifest h, folded m0_def]
    by (simp_all add: recovered_ok_def)
  define m where "m = SetMaxTerminalsPerSandbox n (if ck then SetCheckpointReader (SetCheckpointWriter m0) else m0)"
  have m: "m_store m = m_store m0" "onState_set m = onState_set m0"
    by (simp_all add: m_def SetMaxTerminalsPerSandbox_def SetCheckpointReader_def SetCheckpointWriter_def)
  have "list_all live (All (m_store m))"
    unfolding m by (rule list.pred_mono_strong[OF r(2)]) (simp add: live_def)
  with r(1,3) m assms have "worker_inv (NewServerWithAdmission m token (restore_reservations m a))"
    by (intro restored_inv) simp_all
  then show ?thesis unfolding start_worker_def Let_def m_def m0_def .
qed

text \<open>
  C8: Resource accounting of a worker is right over its whole life. Started on whatever manifest and
  files the previous process left, and whatever requests it serves, in whatever order and with
  whatever failures of the host, every stored sandbox holds exactly one reservation, of its own
  shape, which counts as paused exactly when the sandbox is paused, and no reservation is left without
  a sandbox. Two conditions: the orchestrator accepts the state reports, and a create that repeats
  the shape of a stored sandbox repeats its configuration.
\<close>

theorem worker_accounting_agrees:
  assumes "hook_accepts X" and "reservations a = []"
    and "w = start_worker X template cfg maxSessions pools templates onM manifest h ck n token a"
    and "retries_ok X rs w"
  shows "worker_inv (serve_all X rs w)"
  using serve_all_inv[OF _ assms(1,4)] start_worker_inv[OF assms(2)] assms(3) by simp

definition sample_requests :: "http_request list" where
  "sample_requests = [sample_http ''POST'' ''/worker/sandbox/sb1/resume'',
     sample_http ''POST'' ''/worker/sandbox/sb1/pause'']"

definition restarted_worker :: Worker where
  "restarted_worker = start_worker sample_mgr_env (Some sample_template) sample_vm_config 4 [] [] False
     (Some [recordFromSession left_session]) left_host False 8 ''t'' small_admission"

theorem worker_accounting_agrees_witness:
  "worker_inv (serve_all sample_mgr_env sample_requests restarted_worker)
   \<and> map fst (reservations (w_admission (serve_all sample_mgr_env sample_requests restarted_worker))) = [''sb1'']"
proof
  have h: "hook_accepts sample_mgr_env" by (simp add: hook_accepts_def sample_mgr_env_def)
  have a: "reservations small_admission = []" by (simp add: small_admission_def)
  have "retries_ok sample_mgr_env sample_requests restarted_worker" by code_simp
  from worker_accounting_agrees[OF h a restarted_worker_def this]
  show "worker_inv (serve_all sample_mgr_env sample_requests restarted_worker)" .
  show "map fst (reservations (w_admission (serve_all sample_mgr_env sample_requests restarted_worker))) = [''sb1'']"
    by code_simp
qed

end
